(* ===== verification/Js_Prelude.thy ===== *)
theory Js_Prelude
  imports Main "HOL-Library.List_Lexorder" "HOL-Library.Char_ord" "HOL-Library.Multiset"
begin

text \<open>
  The part of JavaScript that the modelled sources use, and the automation the component
  theories share.

  \<^item> A JavaScript data value is a \<open>jsv\<close>: the tree of own enumerable data properties that
    \<^verbatim>\<open>JSON.parse\<close> and \<^verbatim>\<open>structuredClone\<close> produce. Accessor properties, exotic prototypes
    and proxies are outside the model. Object properties keep their insertion order.
  \<^item> A number that prints as an integer (it is integral and below \<open>10\<^sup>2\<^sup>1\<close> in magnitude) is
    \<open>JNum i\<close>; any other number is \<open>JFrac s\<close> with its printed form. A \<^verbatim>\<open>BigInt\<close> is an \<open>int\<close>.
  \<^item> A string is a list of code units; the model's units are the 256 values of \<open>char\<close>
    (Latin-1).
  \<^item> \<^verbatim>\<open>throw new Error(message)\<close> is \<open>Inl message\<close>, a normal return \<open>Inr value\<close>.
\<close>

named_theorems js_simps \<open>inversion rules for fallible JavaScript code\<close>
named_theorems js_err \<open>rules that collect the errors fallible code can raise\<close>
named_theorems js_wp \<open>rules that step through fallible code, collecting what each check ensures\<close>

section \<open>Errors\<close>

type_synonym 'a res = "string + 'a"

text \<open>The error type is open: a function that returns early with a decision has it as its error.\<close>

definition bnd :: "'e + 'a \<Rightarrow> ('a \<Rightarrow> 'e + 'b) \<Rightarrow> 'e + 'b" where
  "bnd m f = (case m of Inl e \<Rightarrow> Inl e | Inr x \<Rightarrow> f x)"

lemma bnd_simps [simp]:
  "bnd (Inl e) f = Inl e"
  "bnd (Inr x) f = f x"
  by (simp_all add: bnd_def)

lemma bnd_eq_Inr [js_simps]: "bnd m f = Inr y \<longleftrightarrow> (\<exists>x. m = Inr x \<and> f x = Inr y)"
  by (cases m) auto

lemma bnd_eq_Inl: "bnd m f = Inl e \<longleftrightarrow> m = Inl e \<or> (\<exists>x. m = Inr x \<and> f x = Inl e)"
  by (cases m) auto

lemma guard_eq_Inr [js_simps]: "(if b then Inl e else k) = Inr y \<longleftrightarrow> \<not> b \<and> k = Inr y"
  by simp

lemma bnd_cong [fundef_cong]:
  "m = m' \<Longrightarrow> (\<And>x. m' = Inr x \<Longrightarrow> f x = f' x) \<Longrightarrow> bnd m f = bnd m' f'"
  by (cases m') auto

text \<open>
  \<open>post P m\<close>: if \<open>m\<close> returns normally, its value satisfies \<open>P\<close>. The rules in \<open>js_wp\<close> walk
  through a chain of checks from the first to the last and leave one goal, in which every
  passed check is an assumption.
\<close>

definition post :: "('a \<Rightarrow> bool) \<Rightarrow> 'e + 'a \<Rightarrow> bool" where
  "post P m \<longleftrightarrow> (\<forall>x. m = Inr x \<longrightarrow> P x)"

lemma postI: "(\<And>x. m = Inr x \<Longrightarrow> P x) \<Longrightarrow> post P m"
  by (simp add: post_def)

lemma postD: "post P m \<Longrightarrow> m = Inr x \<Longrightarrow> P x"
  by (simp add: post_def)

lemma post_Inl [simp]: "post P (Inl e)"
  by (simp add: post_def)

lemma post_Inr [simp]: "post P (Inr x) \<longleftrightarrow> P x"
  by (simp add: post_def)

lemma post_guard [js_wp]: "(\<not> b \<Longrightarrow> post P k) \<Longrightarrow> post P (if b then Inl e else k)"
  by simp

lemma post_bnd: "(\<And>x. m = Inr x \<Longrightarrow> post P (f x)) \<Longrightarrow> post P (bnd m f)"
  by (auto simp: post_def js_simps)

lemma post_bnd_rule: "post Q m \<Longrightarrow> (\<And>x. Q x \<Longrightarrow> post P (f x)) \<Longrightarrow> post P (bnd m f)"
  by (auto simp: post_def js_simps)

text \<open>\<open>errp P m\<close>: every error \<open>m\<close> can raise satisfies \<open>P\<close>.\<close>

definition errp :: "(string \<Rightarrow> bool) \<Rightarrow> 'a res \<Rightarrow> bool" where
  "errp P m \<longleftrightarrow> (\<forall>e. m = Inl e \<longrightarrow> P e)"

lemma errpD: "errp P m \<Longrightarrow> m = Inl e \<Longrightarrow> P e"
  by (simp add: errp_def)

lemma errp_Inr [simp, js_err]: "errp P (Inr x)"
  by (simp add: errp_def)

lemma errp_guard [js_err]: "P e \<Longrightarrow> errp P k \<Longrightarrow> errp P (if b then Inl e else k)"
  by (simp add: errp_def)

lemma errp_bnd [js_err]: "errp P m \<Longrightarrow> (\<And>x. errp P (f x)) \<Longrightarrow> errp P (bnd m f)"
  by (auto simp: errp_def bnd_eq_Inl)

text \<open>The same, when an error is excluded by what the earlier steps returned.\<close>

lemma errp_bnd_Inr: "errp P m \<Longrightarrow> (\<And>x. m = Inr x \<Longrightarrow> errp P (f x)) \<Longrightarrow> errp P (bnd m f)"
  by (auto simp: errp_def bnd_eq_Inl)

lemma errp_guard_cond: "(b \<Longrightarrow> P e) \<Longrightarrow> (\<not> b \<Longrightarrow> errp P k) \<Longrightarrow> errp P (if b then Inl e else k)"
  by (simp add: errp_def)

text \<open>\<^verbatim>\<open>xs.map(f)\<close> with a callback that may throw, left to right.\<close>

fun mapM :: "('a \<Rightarrow> 'e + 'b) \<Rightarrow> 'a list \<Rightarrow> 'e + 'b list" where
  "mapM f [] = Inr []"
| "mapM f (x # xs) = bnd (f x) (\<lambda>y. bnd (mapM f xs) (\<lambda>ys. Inr (y # ys)))"

lemma mapM_eq_Inr: "mapM f xs = Inr ys \<longleftrightarrow> list_all2 (\<lambda>x y. f x = Inr y) xs ys"
  by (induction xs arbitrary: ys) (auto simp: js_simps list_all2_Cons1)

lemma mapM_length: "mapM f xs = Inr ys \<Longrightarrow> length ys = length xs"
  by (auto simp: mapM_eq_Inr dest: list_all2_lengthD)

lemma mapM_cong [fundef_cong]:
  "xs = ys \<Longrightarrow> (\<And>x. x \<in> set ys \<Longrightarrow> f x = g x) \<Longrightarrow> mapM f xs = mapM g ys"
proof (induction xs arbitrary: ys)
  case (Cons x xs)
  then show ?case by (cases ys) auto
qed simp

text \<open>A \<^verbatim>\<open>for\<close> loop that threads a state and may throw.\<close>

fun foldM :: "('s \<Rightarrow> 'a \<Rightarrow> 'e + 's) \<Rightarrow> 's \<Rightarrow> 'a list \<Rightarrow> 'e + 's" where
  "foldM f s [] = Inr s"
| "foldM f s (x # xs) = bnd (f s x) (\<lambda>s'. foldM f s' xs)"

lemma foldM_append: "foldM f s (xs @ ys) = bnd (foldM f s xs) (\<lambda>s'. foldM f s' ys)"
proof (induction xs arbitrary: s)
  case (Cons x xs)
  then show ?case by (cases "f s x") auto
qed simp

lemma foldM_invariant:
  assumes "foldM f s xs = Inr t" and "P s"
    and "\<And>s x s'. x \<in> set xs \<Longrightarrow> P s \<Longrightarrow> f s x = Inr s' \<Longrightarrow> P s'"
  shows "P t"
  using assms
proof (induction xs arbitrary: s)
  case (Cons x xs)
  from Cons.prems(1) obtain s' where s': "f s x = Inr s'" "foldM f s' xs = Inr t"
    by (auto simp: js_simps)
  from Cons.prems(3) [OF _ Cons.prems(2) s'(1)] have "P s'" by simp
  with s'(2) show ?case by (rule Cons.IH) (use Cons.prems(3) in auto)
qed simp

lemma foldM_prefix_induct:
  assumes "foldM f s xs = Inr t" and "Q s []"
    and step: "\<And>s x s' ys. x \<in> set xs \<Longrightarrow> Q s ys \<Longrightarrow> f s x = Inr s' \<Longrightarrow> Q s' (ys @ [x])"
  shows "Q t xs"
proof -
  have "Q t (zs @ ys)" if "foldM f s ys = Inr t" "Q s zs" "set ys \<subseteq> set xs" for s zs ys
    using that
  proof (induction ys arbitrary: s zs)
    case (Cons y ys)
    then obtain s' where s': "f s y = Inr s'" "foldM f s' ys = Inr t" by (auto simp: js_simps)
    have "Q s' (zs @ [y])" using step [OF _ Cons.prems(2) s'(1)] Cons.prems(3) by simp
    from Cons.IH [OF s'(2) this] Cons.prems(3) show ?case by simp
  qed simp
  from this [OF assms(1,2)] show ?thesis by simp
qed

lemma errp_mapM [js_err]: "(\<And>x. x \<in> set xs \<Longrightarrow> errp P (f x)) \<Longrightarrow> errp P (mapM f xs)"
  by (induction xs) (auto intro!: js_err)

lemma errp_foldM [js_err]: "(\<And>s x. errp P (f s x)) \<Longrightarrow> errp P (foldM f s xs)"
  by (induction xs arbitrary: s) (auto intro!: js_err)

lemma errp_option [js_err]:
  "errp P a \<Longrightarrow> (\<And>x. errp P (f x)) \<Longrightarrow> errp P (case m of None \<Rightarrow> a | Some x \<Rightarrow> f x)"
  by (cases m) auto

lemma errp_Inl [js_err]: "P e \<Longrightarrow> errp P (Inl e)"
  by (simp add: errp_def)

lemma post_option [js_wp]:
  "(m = None \<Longrightarrow> post P a) \<Longrightarrow> (\<And>x. m = Some x \<Longrightarrow> post P (f x)) \<Longrightarrow> post P (case m of None \<Rightarrow> a | Some x \<Rightarrow> f x)"
  by (cases m) auto

section \<open>Values\<close>

datatype jsv =
    JUndef
  | JNull
  | JBool bool
  | JNum int
  | JFrac string
  | JStr string
  | JArr "jsv list"
  | JObj "(string \<times> jsv) list"

text \<open>Reading a property: \<^verbatim>\<open>value.key\<close>; an absent property reads as \<^verbatim>\<open>undefined\<close>.\<close>

fun jget :: "string \<Rightarrow> jsv \<Rightarrow> jsv" where
  "jget k (JObj kvs) = (case map_of kvs k of None \<Rightarrow> JUndef | Some v \<Rightarrow> v)"
| "jget k _ = JUndef"

fun jkeys :: "jsv \<Rightarrow> string list" where
  "jkeys (JObj kvs) = map fst kvs"
| "jkeys _ = []"

text \<open>\<^verbatim>\<open>{ ...value, key: x }\<close>, and \<^verbatim>\<open>delete value.key\<close>.\<close>

fun jput :: "string \<Rightarrow> jsv \<Rightarrow> jsv \<Rightarrow> jsv" where
  "jput k x (JObj kvs) =
     JObj (if k \<in> set (map fst kvs)
           then map (\<lambda>(k', v). (k', if k' = k then x else v)) kvs else kvs @ [(k, x)])"
| "jput k x v = v"

fun jdel :: "string \<Rightarrow> jsv \<Rightarrow> jsv" where
  "jdel k (JObj kvs) = JObj (filter (\<lambda>(k', v). k' \<noteq> k) kvs)"
| "jdel k v = v"

fun is_str :: "jsv \<Rightarrow> bool" where
  "is_str (JStr s) = True"
| "is_str _ = False"

fun is_obj :: "jsv \<Rightarrow> bool" where
  "is_obj (JObj kvs) = True"
| "is_obj _ = False"

fun is_bool :: "jsv \<Rightarrow> bool" where
  "is_bool (JBool b) = True"
| "is_bool _ = False"

fun is_arr :: "jsv \<Rightarrow> bool" where
  "is_arr (JArr xs) = True"
| "is_arr _ = False"

fun str_of :: "jsv \<Rightarrow> string" where
  "str_of (JStr s) = s"
| "str_of _ = ''''"

fun num_of :: "jsv \<Rightarrow> int" where
  "num_of (JNum i) = i"
| "num_of _ = 0"

fun elems_of :: "jsv \<Rightarrow> jsv list" where
  "elems_of (JArr xs) = xs"
| "elems_of _ = []"

definition MAX_SAFE_INTEGER :: int where
  "MAX_SAFE_INTEGER = 9007199254740991"

text \<open>\<^verbatim>\<open>Number.isSafeInteger\<close>\<close>

fun isSafeInteger :: "jsv \<Rightarrow> bool" where
  "isSafeInteger (JNum i) = (- MAX_SAFE_INTEGER \<le> i \<and> i \<le> MAX_SAFE_INTEGER)"
| "isSafeInteger _ = False"

lemma is_str_iff: "is_str v \<longleftrightarrow> (\<exists>s. v = JStr s)"
  by (cases v) auto

lemma is_obj_iff: "is_obj v \<longleftrightarrow> (\<exists>kvs. v = JObj kvs)"
  by (cases v) auto

lemma is_arr_iff: "is_arr v \<longleftrightarrow> (\<exists>xs. v = JArr xs)"
  by (cases v) auto

lemma isSafeInteger_iff:
  "isSafeInteger v \<longleftrightarrow> (\<exists>i. v = JNum i \<and> - MAX_SAFE_INTEGER \<le> i \<and> i \<le> MAX_SAFE_INTEGER)"
  by (cases v) auto

text \<open>A chain of property reads, and a decimal text read as a number.\<close>

fun jpath :: "string list \<Rightarrow> jsv \<Rightarrow> jsv" where
  "jpath [] v = v"
| "jpath (k # ks) v = jpath ks (jget k v)"

section \<open>Strings\<close>

abbreviation slen :: "string \<Rightarrow> int" where
  "slen s \<equiv> int (length s)"

definition chr_le :: "char \<Rightarrow> char \<Rightarrow> bool" where
  "chr_le a b \<longleftrightarrow> (of_char a :: nat) \<le> of_char b"

definition is_digit :: "char \<Rightarrow> bool" where
  "is_digit c \<longleftrightarrow> c \<in> set ''0123456789''"

definition is_lower_hex :: "char \<Rightarrow> bool" where
  "is_lower_hex c \<longleftrightarrow> c \<in> set ''0123456789abcdef''"

definition is_hex :: "char \<Rightarrow> bool" where
  "is_hex c \<longleftrightarrow> c \<in> set ''0123456789abcdefABCDEF''"

definition is_alnum :: "char \<Rightarrow> bool" where
  "is_alnum c \<longleftrightarrow>
     c \<in> set ''0123456789abcdefghijklmnopqrstuvwxyzABCDEFGHIJKLMNOPQRSTUVWXYZ''"

text \<open>\<^verbatim>\<open>/^[0-9a-f]{n}$/\<close> and \<^verbatim>\<open>/^p[0-9a-f]{n}$/\<close>.\<close>

definition hex_n :: "int \<Rightarrow> string \<Rightarrow> bool" where
  "hex_n n s \<longleftrightarrow> slen s = n \<and> list_all is_lower_hex s"

definition prefix_hex :: "string \<Rightarrow> int \<Rightarrow> string \<Rightarrow> bool" where
  "prefix_hex p n s \<longleftrightarrow> take (length p) s = p \<and> hex_n n (drop (length p) s)"

lemma prefix_hex_append [simp]: "prefix_hex p n (p @ s) \<longleftrightarrow> hex_n n s"
  by (simp add: prefix_hex_def)

text \<open>White space and lower case on Latin-1 code units: \<^verbatim>\<open>trim\<close> and \<^verbatim>\<open>toLowerCase\<close>.\<close>

definition is_space :: "char \<Rightarrow> bool" where
  "is_space c \<longleftrightarrow> of_char c \<in> set [9, 10, 11, 12, 13, 32, 160 :: nat]"

definition js_trim :: "string \<Rightarrow> string" where
  "js_trim s = rev (dropWhile is_space (rev (dropWhile is_space s)))"

definition lower_char :: "char \<Rightarrow> char" where
  "lower_char c =
     (let n = (of_char c :: nat) in
      if (65 \<le> n \<and> n \<le> 90) \<or> (192 \<le> n \<and> n \<le> 222 \<and> n \<noteq> 215) then char_of (n + 32) else c)"

definition js_lower :: "string \<Rightarrow> string" where
  "js_lower s = map lower_char s"

lemma js_trim_id: "list_all (\<lambda>c. \<not> is_space c) s \<Longrightarrow> js_trim s = s"
proof -
  have "dropWhile is_space t = t" if "list_all (\<lambda>c. \<not> is_space c) t" for t
    using that by (cases t) auto
  moreover assume "list_all (\<lambda>c. \<not> is_space c) s"
  ultimately show ?thesis by (simp add: js_trim_def)
qed

lemma no_space:
  "is_digit c \<Longrightarrow> \<not> is_space c" "is_lower_hex c \<Longrightarrow> \<not> is_space c" "is_lower_hex c \<Longrightarrow> lower_char c = c"
  by (auto simp: is_digit_def is_lower_hex_def is_space_def lower_char_def Let_def)

lemma length_js_lower [simp]: "length (js_lower s) = length s"
  by (simp add: js_lower_def)

text \<open>\<^verbatim>\<open>xs.join(sep)\<close> with a one-unit separator.\<close>

fun join_with :: "char \<Rightarrow> string list \<Rightarrow> string" where
  "join_with c [] = []"
| "join_with c [s] = s"
| "join_with c (s # t # ss) = s @ c # join_with c (t # ss)"

section \<open>Decimal numbers\<close>

text \<open>\<^verbatim>\<open>/^(0|[1-9][0-9]*)$/\<close>, \<^verbatim>\<open>BigInt(text)\<close> on such a text, and \<^verbatim>\<open>n.toString()\<close>.\<close>

definition is_decimal :: "string \<Rightarrow> bool" where
  "is_decimal s \<longleftrightarrow>
     s = ''0'' \<or> (s \<noteq> [] \<and> hd s \<noteq> CHR ''0'' \<and> list_all is_digit s)"

definition digit_val :: "char \<Rightarrow> int" where
  "digit_val c = of_char c - 48"

fun dec_acc :: "int \<Rightarrow> string \<Rightarrow> int" where
  "dec_acc n [] = n"
| "dec_acc n (c # cs) = dec_acc (10 * n + digit_val c) cs"

definition dec_val :: "string \<Rightarrow> int" where
  "dec_val s = dec_acc 0 s"

definition digit_char :: "int \<Rightarrow> char" where
  "digit_char d = ''0123456789'' ! nat d"

function dec_str :: "int \<Rightarrow> string" where
  "dec_str n = (if n < 10 then [digit_char n] else dec_str (n div 10) @ [digit_char (n mod 10)])"
  by pat_completeness auto
termination
  by (relation "measure nat") auto

declare dec_str.simps [simp del]

definition int_str :: "int \<Rightarrow> string" where
  "int_str n = (if n < 0 then CHR ''-'' # dec_str (- n) else dec_str n)"


lemma digit_cases:
  assumes "0 \<le> d" and "d < (10::int)"
  obtains "d = 0" | "d = 1" | "d = 2" | "d = 3" | "d = 4" | "d = 5" | "d = 6" | "d = 7" | "d = 8"
    | "d = 9"
proof -
  from assms have "d = 0 \<or> d = 1 \<or> d = 2 \<or> d = 3 \<or> d = 4 \<or> d = 5 \<or> d = 6 \<or> d = 7 \<or> d = 8 \<or> d = 9"
    by presburger
  then show thesis using that by blast
qed

lemma digit_val_digit_char [simp]: "0 \<le> d \<Longrightarrow> d < 10 \<Longrightarrow> digit_val (digit_char d) = d"
  by (erule (1) digit_cases) (simp_all add: digit_val_def digit_char_def)

lemma is_digit_digit_char [simp]: "0 \<le> d \<Longrightarrow> d < 10 \<Longrightarrow> is_digit (digit_char d)"
  by (erule (1) digit_cases) (simp_all add: is_digit_def digit_char_def)

lemma digit_char_eq_zero: "0 \<le> d \<Longrightarrow> d < 10 \<Longrightarrow> digit_char d = CHR ''0'' \<longleftrightarrow> d = 0"
  by (erule (1) digit_cases) (simp_all add: digit_char_def)

lemma digit_valD:
  assumes "is_digit c"
  shows "0 \<le> digit_val c" "digit_val c < 10" "digit_char (digit_val c) = c"
    "digit_val c = 0 \<longleftrightarrow> c = CHR ''0''"
  using assms by (auto simp: is_digit_def digit_val_def digit_char_def)

lemma dec_acc_append: "dec_acc n (s @ t) = dec_acc (dec_acc n s) t"
  by (induction s arbitrary: n) auto

lemma dec_val_snoc: "dec_val (s @ [c]) = 10 * dec_val s + digit_val c"
  by (simp add: dec_val_def dec_acc_append)

lemma dec_val_Nil [simp]: "dec_val [] = 0"
  by (simp add: dec_val_def)

lemma dec_val_single: "dec_val [c] = digit_val c"
  by (simp add: dec_val_def)

lemma dec_val_nonneg: "list_all is_digit s \<Longrightarrow> 0 \<le> dec_val s"
  by (induction s rule: rev_induct) (auto simp: dec_val_snoc digit_valD)

lemma is_decimal_digits: "is_decimal s \<Longrightarrow> list_all is_digit s"
  by (auto simp: is_decimal_def is_digit_def)

lemma is_decimal_nonneg: "is_decimal s \<Longrightarrow> 0 \<le> dec_val s"
  by (simp add: is_decimal_digits dec_val_nonneg)

lemma dec_str_small: "n < 10 \<Longrightarrow> dec_str n = [digit_char n]"
  by (subst dec_str.simps) simp

lemma dec_str_snoc:
  "0 < v \<Longrightarrow> 0 \<le> d \<Longrightarrow> d < 10 \<Longrightarrow> dec_str (10 * v + d) = dec_str v @ [digit_char d]"
  by (subst dec_str.simps) auto

lemma dec_val_dec_str [simp]: "0 \<le> n \<Longrightarrow> dec_val (dec_str n) = n"
proof (induction n rule: dec_str.induct)
  case (1 n)
  then show ?case
    by (subst dec_str.simps) (auto simp: dec_val_single dec_val_snoc)
qed

lemma dec_str_digits: "0 \<le> n \<Longrightarrow> list_all is_digit (dec_str n)"
proof (induction n rule: dec_str.induct)
  case (1 n)
  then show ?case by (subst dec_str.simps) auto
qed

lemma dec_str_nonempty [simp]: "dec_str n \<noteq> []"
  by (subst dec_str.simps) simp

lemma dec_str_hd: "0 < n \<Longrightarrow> hd (dec_str n) \<noteq> CHR ''0''"
proof (induction n rule: dec_str.induct)
  case (1 n)
  then show ?case by (subst dec_str.simps) (auto simp: digit_char_eq_zero hd_append)
qed

lemma is_decimal_dec_str [simp]: "0 \<le> n \<Longrightarrow> is_decimal (dec_str n)"
proof (cases "n = 0")
  case True
  then show ?thesis by (simp add: is_decimal_def dec_str_small digit_char_def)
next
  case False
  assume "0 \<le> n"
  with False show ?thesis by (simp add: is_decimal_def dec_str_digits dec_str_hd)
qed

lemma dec_val_pos:
  assumes "list_all is_digit s" "s \<noteq> []" "hd s \<noteq> CHR ''0''"
  shows "0 < dec_val s"
  using assms
proof (induction s rule: rev_induct)
  case (snoc c s)
  show ?case
  proof (cases "s = []")
    case True
    with snoc.prems have "is_digit c" "c \<noteq> CHR ''0''" by auto
    then show ?thesis using True digit_valD(1,4) [of c] by (simp add: dec_val_single)
  next
    case False
    with snoc.prems have "0 < dec_val s" "is_digit c" using snoc.IH by auto
    then show ?thesis by (auto simp: dec_val_snoc dest: digit_valD(1))
  qed
qed simp

lemma dec_str_dec_val_digits:
  "list_all is_digit s \<Longrightarrow> s \<noteq> [] \<Longrightarrow> hd s \<noteq> CHR ''0'' \<Longrightarrow> dec_str (dec_val s) = s"
proof (induction s rule: rev_induct)
  case (snoc c s)
  then have c: "is_digit c" by simp
  show ?case
  proof (cases "s = []")
    case True
    then show ?thesis using c by (simp add: dec_val_single dec_str_small digit_valD)
  next
    case False
    with snoc have "dec_str (dec_val s) = s" "0 < dec_val s"
      by (auto intro: dec_val_pos)
    then show ?thesis using c by (simp add: dec_val_snoc dec_str_snoc digit_valD)
  qed
qed simp

lemma dec_str_dec_val [simp]: "is_decimal s \<Longrightarrow> dec_str (dec_val s) = s"
  using dec_str_dec_val_digits [of s]
  by (auto simp: is_decimal_def dec_val_single dec_str_small digit_val_def digit_char_def)

lemma dec_str_inject: "0 \<le> m \<Longrightarrow> 0 \<le> n \<Longrightarrow> dec_str m = dec_str n \<longleftrightarrow> m = n"
  by (metis dec_val_dec_str)

lemma int_str_nonneg [simp]: "0 \<le> n \<Longrightarrow> int_str n = dec_str n"
  by (simp add: int_str_def)

definition jdec :: "string list \<Rightarrow> jsv \<Rightarrow> int" where
  "jdec ks v = dec_val (str_of (jpath ks v))"

text \<open>\<^verbatim>\<open>String(value)\<close>: an array prints as its elements joined by commas.\<close>

fun js_String :: "jsv \<Rightarrow> string" where
  "js_String JUndef = ''undefined''"
| "js_String JNull = ''null''"
| "js_String (JBool b) = (if b then ''true'' else ''false'')"
| "js_String (JNum i) = int_str i"
| "js_String (JFrac s) = s"
| "js_String (JStr s) = s"
| "js_String (JArr xs) =
     join_with CHR '','' (map (\<lambda>x. if x = JUndef \<or> x = JNull then [] else js_String x) xs)"
| "js_String (JObj kvs) = ''[object Object]''"

text \<open>What \<^verbatim>\<open>if (value)\<close> tests.\<close>

definition js_truthy :: "jsv \<Rightarrow> bool" where
  "js_truthy v \<longleftrightarrow> v \<notin> set [JUndef, JNull, JBool False, JNum 0, JStr [], JFrac ''NaN'']"

section \<open>Floor division\<close>

text \<open>\<^verbatim>\<open>BigInt\<close> division truncates; on nonnegative operands that is the floor of \<open>div\<close>.\<close>

lemma le_div_iff:
  fixes k n d :: int
  assumes "0 < d"
  shows "k \<le> n div d \<longleftrightarrow> k * d \<le> n"
proof
  assume "k \<le> n div d"
  then have "k * d \<le> n div d * d" using assms by (simp add: mult_right_mono)
  also have "\<dots> \<le> n" using div_mult_mod_eq [of n d] pos_mod_sign [OF assms, of n] by linarith
  finally show "k * d \<le> n" .
next
  assume le: "k * d \<le> n"
  show "k \<le> n div d"
  proof (rule ccontr)
    assume "\<not> k \<le> n div d"
    then have "(n div d + 1) * d \<le> k * d" using assms by (intro mult_right_mono) auto
    moreover have "n < (n div d + 1) * d"
    proof -
      have "(n div d + 1) * d = n div d * d + d" by (simp add: distrib_right)
      with div_mult_mod_eq [of n d] pos_mod_bound [OF assms, of n] show ?thesis by linarith
    qed
    ultimately show False using le by linarith
  qed
qed

lemma mod_less_of_div_eq:
  fixes a b n :: int
  shows "a < b \<Longrightarrow> a div n = b div n \<Longrightarrow> a mod n < b mod n"
  by (metis add_less_cancel_left div_mult_mod_eq)

section \<open>Shared validators\<close>

text \<open>
  \<^verbatim>\<open>Object.keys(value).sort()\<close> against the sorted expected keys. The sources compare the two
  arrays as JSON texts or elementwise; both are equality of the two lists.
\<close>

definition same_keys :: "jsv \<Rightarrow> string list \<Rightarrow> bool" where
  "same_keys v keys \<longleftrightarrow> sort (jkeys v) = sort keys"

lemma same_keys_set: "same_keys v keys \<Longrightarrow> set (jkeys v) = set keys"
  unfolding same_keys_def by (metis set_sort)

lemma same_keys_distinct: "same_keys v keys \<Longrightarrow> distinct keys \<Longrightarrow> distinct (jkeys v)"
  unfolding same_keys_def by (metis distinct_sort)

end
