(* ===== verification/Canonical_Json.thy ===== *)
theory Canonical_Json
  imports Js_Prelude
begin

text \<open>
  JSON text and the canonical encodings under every content address of the program:
  \<^verbatim>\<open>canonicalize\<close> / \<^verbatim>\<open>canonicalJson\<close> of \<^verbatim>\<open>tools/void-btc-void-quote-math-v1.mjs\<close> (sort the keys,
  then \<^verbatim>\<open>JSON.stringify\<close>), \<^verbatim>\<open>canonicalJsonV1\<close> of the fulfillment saga (print with sorted keys
  directly) and the checked \<^verbatim>\<open>canonicalJson\<close> of the WC/VOID opening tools. The lemmas show that
  the three agree on plain data and that the encoding is injective up to the order of keys.
\<close>

section \<open>\<open>JSON.stringify\<close>\<close>

definition hex_digit :: "nat \<Rightarrow> char" where
  "hex_digit n = ''0123456789abcdef'' ! n"

definition esc_char :: "char \<Rightarrow> string" where
  "esc_char c =
     (if c = CHR 0x22 then [CHR 0x5C, CHR 0x22]
      else if c = CHR 0x5C then [CHR 0x5C, CHR 0x5C]
      else if c = CHR 0x08 then [CHR 0x5C, CHR ''b'']
      else if c = CHR 0x0C then [CHR 0x5C, CHR ''f'']
      else if c = CHR 0x0A then [CHR 0x5C, CHR ''n'']
      else if c = CHR 0x0D then [CHR 0x5C, CHR ''r'']
      else if c = CHR 0x09 then [CHR 0x5C, CHR ''t'']
      else if (of_char c :: nat) < 32
        then [CHR 0x5C, CHR ''u'', CHR ''0'', CHR ''0'',
              hex_digit (of_char c div 16), hex_digit (of_char c mod 16)]
      else [c])"

definition json_quote :: "string \<Rightarrow> string" where
  "json_quote s = CHR 0x22 # concat (map esc_char s) @ [CHR 0x22]"

text \<open>
  \<^verbatim>\<open>JSON.stringify(value)\<close>: properties whose value is \<^verbatim>\<open>undefined\<close> are left out of an object,
  an \<^verbatim>\<open>undefined\<close> element of an array prints as \<^verbatim>\<open>null\<close>, and so does a number that is not finite.
\<close>

fun stringify :: "jsv \<Rightarrow> string" where
  "stringify JUndef = ''null''"
| "stringify JNull = ''null''"
| "stringify (JBool b) = (if b then ''true'' else ''false'')"
| "stringify (JNum i) = int_str i"
| "stringify (JFrac s) = (if s \<in> set [''NaN'', ''Infinity'', ''-Infinity''] then ''null'' else s)"
| "stringify (JStr s) = json_quote s"
| "stringify (JArr xs) = CHR ''['' # join_with CHR '','' (map stringify xs) @ '']''"
| "stringify (JObj kvs) =
     CHR 0x7B # join_with CHR '',''
       (map (\<lambda>(k, u, s). json_quote k @ CHR '':'' # s)
         (filter (\<lambda>(k, u, s). \<not> u) (map (\<lambda>(k, v). (k, v = JUndef, stringify v)) kvs)))
     @ [CHR 0x7D]"

section \<open>Canonical forms\<close>

text \<open>\<^verbatim>\<open>canonicalize\<close>: every object with its keys in code-unit order, at every depth.\<close>

fun canonicalize :: "jsv \<Rightarrow> jsv" where
  "canonicalize (JArr xs) = JArr (map canonicalize xs)"
| "canonicalize (JObj kvs) = JObj (sort_key fst (map (\<lambda>(k, v). (k, canonicalize v)) kvs))"
| "canonicalize v = v"

definition canonicalJson :: "jsv \<Rightarrow> string" where
  "canonicalJson v = stringify (canonicalize v)"

text \<open>
  \<^verbatim>\<open>canonicalJsonV1\<close> prints directly. An \<^verbatim>\<open>undefined\<close> property prints its value as the text
  \<^verbatim>\<open>undefined\<close> (template literal) and an \<^verbatim>\<open>undefined\<close> element as nothing (\<^verbatim>\<open>join\<close>).
\<close>

fun canonicalJsonV1 :: "jsv \<Rightarrow> string" where
  "canonicalJsonV1 JUndef = ''undefined''"
| "canonicalJsonV1 (JArr xs) =
     CHR ''['' # join_with CHR '',''
       (map (\<lambda>x. if x = JUndef then [] else canonicalJsonV1 x) xs) @ '']''"
| "canonicalJsonV1 (JObj kvs) =
     CHR 0x7B # join_with CHR '',''
       (map (\<lambda>(k, s). json_quote k @ CHR '':'' # s)
         (sort_key fst (map (\<lambda>(k, v). (k, canonicalJsonV1 v)) kvs))) @ [CHR 0x7D]"
| "canonicalJsonV1 v = stringify v"

text \<open>The opening tools refuse any value other than null, strings, booleans, safe integers,
  arrays and objects.\<close>

fun canonicalJsonChecked :: "jsv \<Rightarrow> string res" where
  "canonicalJsonChecked JNull = Inr ''null''"
| "canonicalJsonChecked (JStr s) = Inr (json_quote s)"
| "canonicalJsonChecked (JBool b) = Inr (if b then ''true'' else ''false'')"
| "canonicalJsonChecked (JNum i) =
     (if isSafeInteger (JNum i) then Inr (int_str i) else Inl ''INVALID_CANONICAL_VALUE'')"
| "canonicalJsonChecked (JArr xs) =
     bnd (mapM canonicalJsonChecked xs) (\<lambda>ss. Inr (CHR ''['' # join_with CHR '','' ss @ '']''))"
| "canonicalJsonChecked (JObj kvs) =
     bnd (mapM (\<lambda>(k, v). bnd (canonicalJsonChecked v) (\<lambda>s. Inr (k, s))) kvs)
       (\<lambda>kss. Inr (CHR 0x7B # join_with CHR '',''
          (map (\<lambda>(k, s). json_quote k @ CHR '':'' # s) (sort_key fst kss)) @ [CHR 0x7D]))"
| "canonicalJsonChecked v = Inl ''INVALID_CANONICAL_VALUE''"

text \<open>Plain data: what \<^verbatim>\<open>JSON.parse\<close> returns for a text without fractions.\<close>

fun plain :: "jsv \<Rightarrow> bool" where
  "plain JUndef = False"
| "plain (JFrac s) = False"
| "plain (JArr xs) = list_all plain xs"
| "plain (JObj kvs) = (distinct (map fst kvs) \<and> list_all (\<lambda>(k, v). plain v) kvs)"
| "plain v = True"

section \<open>The three encoders agree\<close>

lemma insort_key_map_snd:
  "insort_key fst (k, f v) (map (\<lambda>(k, v). (k, f v)) kvs) =
   map (\<lambda>(k, v). (k, f v)) (insort_key fst (k, v) kvs)"
  by (induction kvs) auto

lemma sort_key_map_snd:
  "sort_key fst (map (\<lambda>(k, v). (k, f v)) kvs) = map (\<lambda>(k, v). (k, f v)) (sort_key fst kvs)"
  by (induction kvs) (auto simp: sort_key_def insort_key_map_snd)

lemma canonicalize_eq_JUndef [simp]: "canonicalize v = JUndef \<longleftrightarrow> v = JUndef"
  by (cases v) auto

lemma plain_not_undef [simp]: "plain v \<Longrightarrow> v \<noteq> JUndef"
  by auto

lemma fst_map_snd: "fst \<circ> (\<lambda>(k, v). (k, f v)) = fst"
  by auto

lemma plain_canonicalize: "plain v \<Longrightarrow> plain (canonicalize v)"
proof (induction v rule: canonicalize.induct)
  case (2 kvs)
  then have "list_all (\<lambda>(k, v). plain v) (map (\<lambda>(k, v). (k, canonicalize v)) kvs)"
    by (fastforce simp: list_all_iff)
  with 2 show ?case
    by (simp add: sort_key_map_snd fst_map_snd list_all_iff distinct_map inj_on_def)
qed (auto simp: list_all_iff)

lemma stringify_JObj_plain:
  "list_all (\<lambda>(k, v). plain v) kvs \<Longrightarrow>
   stringify (JObj kvs) =
     CHR 0x7B # join_with CHR '',''
       (map (\<lambda>(k, v). json_quote k @ CHR '':'' # stringify v) kvs) @ [CHR 0x7D]"
proof -
  assume *: "list_all (\<lambda>(k, v). plain v) kvs"
  have "filter (\<lambda>(k, u, s). \<not> u) (map (\<lambda>(k, v). (k, v = JUndef, stringify v)) kvs) =
        map (\<lambda>(k, v). (k, v = JUndef, stringify v)) kvs"
    using * by (intro filter_True) (auto simp: list_all_iff)
  then show ?thesis by (simp add: comp_def case_prod_unfold)
qed

lemma canonicalJsonV1_eq: "plain v \<Longrightarrow> canonicalJsonV1 v = canonicalJson v"
proof (induction v rule: canonicalJsonV1.induct)
  case (2 xs)
  then have "x \<in> set xs \<Longrightarrow> (if x = JUndef then [] else canonicalJsonV1 x) = stringify (canonicalize x)" for x
    by (auto simp: list_all_iff canonicalJson_def)
  then show ?case by (simp add: canonicalJson_def comp_def cong: map_cong)
next
  case (3 kvs)
  let ?c = "\<lambda>(k, v). (k, canonicalize v)"
  have IH: "map (\<lambda>(k, v). (k, canonicalJsonV1 v)) kvs = map (\<lambda>(k, v). (k, stringify (canonicalize v))) kvs"
    using 3 by (fastforce simp: list_all_iff canonicalJson_def)
  have "plain (JObj (map ?c (sort_key fst kvs)))"
    using plain_canonicalize [OF "3.prems"] by (simp add: sort_key_map_snd)
  then have "list_all (\<lambda>(k, v). plain v) (map ?c (sort_key fst kvs))" by simp
  note stringify_JObj_plain [OF this]
  moreover have "canonicalJson (JObj kvs) = stringify (JObj (map ?c (sort_key fst kvs)))"
    by (simp only: canonicalJson_def canonicalize.simps sort_key_map_snd)
  moreover have "canonicalJsonV1 (JObj kvs) =
      CHR 0x7B # join_with CHR '','' (map (\<lambda>(k, s). json_quote k @ CHR '':'' # s)
        (map (\<lambda>(k, v). (k, stringify (canonicalize v))) (sort_key fst kvs))) @ [CHR 0x7D]"
    by (simp only: canonicalJsonV1.simps IH sort_key_map_snd)
  ultimately show ?case
    by (simp add: comp_def case_prod_unfold del: stringify.simps canonicalJsonV1.simps)
qed (auto simp: canonicalJson_def)

lemma canonicalJsonChecked_eq: "canonicalJsonChecked v = Inr s \<Longrightarrow> s = canonicalJsonV1 v"
proof (induction v arbitrary: s rule: canonicalJsonChecked.induct)
  case (5 xs)
  then obtain ss where ss: "mapM canonicalJsonChecked xs = Inr ss"
    and s: "s = CHR ''['' # join_with CHR '','' ss @ '']''"
    by (auto simp: js_simps)
  have "ss = map (\<lambda>x. if x = JUndef then [] else canonicalJsonV1 x) xs"
  proof (rule nth_equalityI)
    show "length ss = length (map (\<lambda>x. if x = JUndef then [] else canonicalJsonV1 x) xs)"
      using mapM_length [OF ss] by simp
  next
    fix i assume i: "i < length ss"
    then have i': "i < length xs" using mapM_length [OF ss] by simp
    with ss i have e: "canonicalJsonChecked (xs ! i) = Inr (ss ! i)"
      by (simp add: mapM_eq_Inr list_all2_conv_all_nth)
    then have "xs ! i \<noteq> JUndef" by auto
    with "5.IH" [OF nth_mem [OF i'] e] i'
    show "ss ! i = map (\<lambda>x. if x = JUndef then [] else canonicalJsonV1 x) xs ! i" by simp
  qed
  with s show ?case by simp
next
  case (6 kvs)
  then obtain kss where kss: "mapM (\<lambda>(k, v). bnd (canonicalJsonChecked v) (\<lambda>s. Inr (k, s))) kvs = Inr kss"
    and s: "s = CHR 0x7B # join_with CHR '','' (map (\<lambda>(k, s). json_quote k @ CHR '':'' # s) (sort_key fst kss)) @ [CHR 0x7D]"
    by (auto simp: js_simps)
  have "kss = map (\<lambda>(k, v). (k, canonicalJsonV1 v)) kvs"
  proof (rule nth_equalityI)
    show "length kss = length (map (\<lambda>(k, v). (k, canonicalJsonV1 v)) kvs)"
      using mapM_length [OF kss] by simp
  next
    fix i assume i: "i < length kss"
    then have i': "i < length kvs" using mapM_length [OF kss] by simp
    obtain k v where kv: "kvs ! i = (k, v)" by fastforce
    from kss i i' kv obtain t where t: "canonicalJsonChecked v = Inr t" "kss ! i = (k, t)"
      by (fastforce simp: mapM_eq_Inr list_all2_conv_all_nth js_simps)
    from i' kv have "(k, v) \<in> set kvs" by (metis nth_mem)
    from "6.IH" [OF this refl t(1)] t kv i' show "kss ! i = map (\<lambda>(k, v). (k, canonicalJsonV1 v)) kvs ! i"
      by simp
  qed
  with s show ?case by simp
qed (auto split: if_splits)

section \<open>Injectivity\<close>

text \<open>
  A printer is uniquely decodable when no printed value, followed by a delimiter, can be read as
  a different value. Strings carry their own end; numbers end where a delimiter starts.
\<close>

definition hex_val :: "char \<Rightarrow> nat" where
  "hex_val c = (if is_digit c then of_char c - 48 else of_char c - 87)"

fun unesc :: "string \<Rightarrow> char \<times> string" where
  "unesc (c # r) =
     (if c \<noteq> CHR 0x5C then (c, r)
      else (case r of
          e # r' \<Rightarrow>
            if e = CHR ''u'' then (char_of (16 * hex_val (r' ! 2) + hex_val (r' ! 3)), drop 4 r')
            else if e = CHR ''b'' then (CHR 0x08, r')
            else if e = CHR ''f'' then (CHR 0x0C, r')
            else if e = CHR ''n'' then (CHR 0x0A, r')
            else if e = CHR ''r'' then (CHR 0x0D, r')
            else if e = CHR ''t'' then (CHR 0x09, r')
            else (e, r')
        | [] \<Rightarrow> (c, r)))"
| "unesc [] = (CHR 0x00, [])"

lemma hex_val_hex_digit: "n < 16 \<Longrightarrow> hex_val (hex_digit n) = n"
proof -
  assume "n < 16"
  then have "n \<in> set [0..<16]" by simp
  then show ?thesis by (simp add: upt_rec hex_val_def hex_digit_def is_digit_def) (elim disjE; simp)
qed

lemma unesc_esc [simp]: "unesc (esc_char c @ r) = (c, r)"
proof (cases "c \<in> {CHR 0x22, CHR 0x5C, CHR 0x08, CHR 0x0C, CHR 0x0A, CHR 0x0D, CHR 0x09} \<or> \<not> (of_char c :: nat) < 32")
  case True
  then show ?thesis by (auto simp: esc_char_def)
next
  case False
  then have "of_char c div 16 < (16::nat)" "of_char c mod 16 < (16::nat)" by auto
  moreover have "16 * (of_char c div 16) + of_char c mod 16 = (of_char c :: nat)" by simp
  ultimately show ?thesis using False
    by (simp add: esc_char_def hex_val_hex_digit del: mult_div_mod_eq)
qed

lemma esc_char_prefix: "esc_char c @ r = esc_char d @ s \<Longrightarrow> c = d \<and> r = s"
  by (metis unesc_esc prod.inject)

lemma esc_char_hd: "esc_char c \<noteq> [] \<and> hd (esc_char c) \<noteq> CHR 0x22"
  by (simp add: esc_char_def)

lemma esc_string_prefix:
  "concat (map esc_char s) @ CHR 0x22 # r = concat (map esc_char t) @ CHR 0x22 # r' \<Longrightarrow> s = t \<and> r = r'"
proof (induction s arbitrary: t)
  case Nil
  then show ?case
  proof (cases t)
    case (Cons d t')
    with Nil esc_char_hd [of d] show ?thesis by (cases "esc_char d") auto
  qed simp
next
  case (Cons c s)
  show ?case
  proof (cases t)
    case Nil
    with Cons.prems esc_char_hd [of c] show ?thesis by (cases "esc_char c") auto
  next
    case (Cons d t')
    with Cons.prems have "c = d" "concat (map esc_char s) @ CHR 0x22 # r = concat (map esc_char t') @ CHR 0x22 # r'"
      by (auto dest!: esc_char_prefix)
    with Cons.IH Cons show ?thesis by blast
  qed
qed

lemma json_quote_prefix: "json_quote s @ r = json_quote t @ r' \<Longrightarrow> s = t \<and> r = r'"
  using esc_string_prefix [of s r t r'] by (simp add: json_quote_def)

definition delim :: "string \<Rightarrow> bool" where
  "delim r \<longleftrightarrow> r = [] \<or> hd r \<in> {CHR '','', CHR '']'', CHR 0x7D}"

lemma delim_simps [simp]:
  "delim []" "delim (CHR '','' # r)" "delim (CHR '']'' # r)" "delim (CHR 0x7D # r)"
  by (simp_all add: delim_def)

definition num_char :: "char \<Rightarrow> bool" where
  "num_char c \<longleftrightarrow> is_digit c \<or> c = CHR ''-''"

lemma int_str_chars: "list_all num_char (int_str i)"
  using dec_str_digits [of i] dec_str_digits [of "- i"]
  by (auto simp: int_str_def num_char_def list_all_iff)

lemma int_str_inject: "int_str i = int_str j \<Longrightarrow> i = j"
proof -
  assume eq: "int_str i = int_str j"
  have no_minus: "0 \<le> n \<Longrightarrow> hd (dec_str n) \<noteq> CHR ''-''" for n
    using dec_str_digits [of n] by (cases "dec_str n") (auto simp: is_digit_def)
  show ?thesis
  proof (cases "i < 0"; cases "j < 0")
    assume "i < 0" "j < 0"
    with eq have "dec_str (- i) = dec_str (- j)" by (simp add: int_str_def)
    with \<open>i < 0\<close> \<open>j < 0\<close> show ?thesis by (simp add: dec_str_inject)
  qed (use eq no_minus [of i] no_minus [of j] in \<open>auto simp: int_str_def dec_str_inject\<close>,
      (metis list.sel(1))+)
qed

lemma int_str_prefix:
  assumes "int_str i @ r = int_str j @ s" "delim r" "delim s"
  shows "i = j \<and> r = s"
proof -
  have tw: "takeWhile num_char (int_str k @ q) = int_str k" if "delim q" for k q
  proof -
    have "takeWhile num_char q = []"
      using that by (cases q) (auto simp: delim_def num_char_def is_digit_def)
    then show ?thesis using int_str_chars [of k] by (simp add: takeWhile_append2 list_all_iff)
  qed
  from tw [OF assms(2), of i] tw [OF assms(3), of j] assms(1) have "int_str i = int_str j" by simp
  with assms(1) int_str_inject show ?thesis by auto
qed

text \<open>A comma-separated list of uniquely decodable items, closed by a bracket.\<close>

lemma join_prefix:
  fixes f :: "'a \<Rightarrow> string"
  assumes dec: "\<And>x y r s. x \<in> set xs \<Longrightarrow> y \<in> set ys \<Longrightarrow> delim r \<Longrightarrow> delim s \<Longrightarrow>
      f x @ r = f y @ s \<Longrightarrow> x = y \<and> r = s"
    and start: "\<And>x. x \<in> set xs \<union> set ys \<Longrightarrow> f x \<noteq> [] \<and> hd (f x) \<noteq> c"
    and c: "c = CHR '']'' \<or> c = CHR 0x7D"
    and eq: "join_with CHR '','' (map f xs) @ c # r = join_with CHR '','' (map f ys) @ c # s"
  shows "xs = ys \<and> r = s"
  using dec start eq
proof (induction xs arbitrary: ys rule: induct_list012)
  case 1
  show ?case
  proof (cases ys)
    case (Cons y ys')
    with 1(2) [of y] have "f y \<noteq> []" "hd (f y) \<noteq> c" by auto
    with 1(3) Cons show ?thesis by (cases ys'; cases "f y") auto
  qed (use 1 in simp)
next
  case (2 x)
  from 2(2) [of x] have x: "f x \<noteq> []" "hd (f x) \<noteq> c" by auto
  show ?case
  proof (cases ys rule: remdups_adj.cases)
    case 1
    with 2(3) x show ?thesis by (cases "f x") auto
  next
    case y: (2 y)
    with 2(3) c have "f x @ c # r = f y @ c # s" "delim (c # r)" "delim (c # s)" by auto
    with 2(1) [of x y "c # r" "c # s"] y show ?thesis by simp
  next
    case y: (3 y y' ys')
    with 2(3) have e: "f x @ c # r = f y @ CHR '','' # join_with CHR '','' (map f (y' # ys')) @ c # s" by simp
    have "delim (c # r)" using c by auto
    moreover have "delim (CHR '','' # join_with CHR '','' (map f (y' # ys')) @ c # s)" by simp
    moreover have "x \<in> set [x]" "y \<in> set ys" using y by simp_all
    ultimately have "c # r = CHR '','' # join_with CHR '','' (map f (y' # ys')) @ c # s"
      using 2(1) e by blast
    with c show ?thesis by auto
  qed
next
  case (3 x x' xs)
  from 3(4) [of x] have x: "f x \<noteq> []" "hd (f x) \<noteq> c" by auto
  show ?case
  proof (cases ys rule: remdups_adj.cases)
    case 1
    with 3(5) x show ?thesis by (cases "f x") auto
  next
    case y: (2 y)
    with 3(5) have e: "f x @ CHR '','' # join_with CHR '','' (map f (x' # xs)) @ c # r = f y @ c # s" by simp
    have "delim (c # s)" using c by auto
    moreover have "delim (CHR '','' # join_with CHR '','' (map f (x' # xs)) @ c # r)" by simp
    moreover have "x \<in> set (x # x' # xs)" "y \<in> set ys" using y by simp_all
    ultimately have "CHR '','' # join_with CHR '','' (map f (x' # xs)) @ c # r = c # s"
      using 3(3) e by blast
    with c show ?thesis by auto
  next
    case y: (3 y y' ys')
    with 3(5) have e: "f x @ CHR '','' # join_with CHR '','' (map f (x' # xs)) @ c # r =
        f y @ CHR '','' # join_with CHR '','' (map f (y' # ys')) @ c # s" by simp
    have "x = y \<and> CHR '','' # join_with CHR '','' (map f (x' # xs)) @ c # r =
        CHR '','' # join_with CHR '','' (map f (y' # ys')) @ c # s"
      using y by (intro 3(3) [OF _ _ _ _ e]) simp_all
    then have xy: "x = y"
      and rest: "join_with CHR '','' (map f (x' # xs)) @ c # r = join_with CHR '','' (map f (y' # ys')) @ c # s"
      by simp_all
    have "x' # xs = y' # ys' \<and> r = s"
    proof (rule 3(2) [OF _ _ rest])
      show "\<And>u v r s. u \<in> set (x' # xs) \<Longrightarrow> v \<in> set (y' # ys') \<Longrightarrow> delim r \<Longrightarrow> delim s \<Longrightarrow>
          f u @ r = f v @ s \<Longrightarrow> u = v \<and> r = s"
        by (rule 3(3)) (simp_all add: y)
      show "\<And>u. u \<in> set (x' # xs) \<union> set (y' # ys') \<Longrightarrow> f u \<noteq> [] \<and> hd (f u) \<noteq> c"
        by (rule 3(4)) (auto simp: y)
    qed
    with xy y show ?thesis by simp
  qed
qed

lemma stringify_start:
  "plain v \<Longrightarrow> stringify v \<noteq> [] \<and> hd (stringify v) \<notin> {CHR '']'', CHR 0x7D, CHR '',''}"
proof (cases v)
  case (JNum i)
  have "int_str i \<noteq> []" by (simp add: int_str_def)
  moreover have "num_char (hd (int_str i))"
    using int_str_chars [of i] calculation by (cases "int_str i") auto
  ultimately show ?thesis using JNum by (auto simp: num_char_def is_digit_def)
qed (auto simp: json_quote_def)

definition kind_char :: "string \<Rightarrow> char" where
  "kind_char s = (if num_char (hd s) then CHR ''0'' else hd s)"

lemma kind_char_stringify:
  "plain v \<Longrightarrow> kind_char (stringify v @ r) =
    (case v of JNull \<Rightarrow> CHR ''n'' | JBool b \<Rightarrow> if b then CHR ''t'' else CHR ''f''
     | JNum i \<Rightarrow> CHR ''0'' | JStr s \<Rightarrow> CHR 0x22 | JArr xs \<Rightarrow> CHR ''['' | JObj kvs \<Rightarrow> CHR 0x7B
     | _ \<Rightarrow> CHR ''x'')"
proof (cases v)
  case (JNum i)
  have "int_str i \<noteq> []" by (simp add: int_str_def)
  with int_str_chars [of i] JNum show ?thesis
    by (cases "int_str i") (auto simp: kind_char_def)
qed (auto simp: kind_char_def num_char_def is_digit_def json_quote_def)

lemma stringify_prefix:
  "plain a \<Longrightarrow> plain b \<Longrightarrow> delim r \<Longrightarrow> delim s \<Longrightarrow> stringify a @ r = stringify b @ s \<Longrightarrow> a = b \<and> r = s"
proof (induction a arbitrary: b r s)
  case (JNum i)
  then show ?case
    using kind_char_stringify [of b s] kind_char_stringify [of "JNum i" r]
    by (cases b) (auto dest: int_str_prefix split: if_splits)
next
  case (JStr t)
  then show ?case
    using kind_char_stringify [of b s] kind_char_stringify [of "JStr t" r]
    by (cases b) (auto dest: json_quote_prefix split: if_splits)
next
  case (JArr xs)
  then obtain ys where b: "b = JArr ys"
    using kind_char_stringify [of b s] kind_char_stringify [of "JArr xs" r]
    by (cases b) (auto split: if_splits)
  with JArr.prems have e: "join_with CHR '','' (map stringify xs) @ CHR '']'' # r =
      join_with CHR '','' (map stringify ys) @ CHR '']'' # s" by simp
  have "xs = ys \<and> r = s"
  proof (rule join_prefix [OF _ _ _ e])
    fix x y r s
    assume "x \<in> set xs" "y \<in> set ys" "delim r" "delim s" "stringify x @ r = stringify y @ s"
    then show "x = y \<and> r = s" using JArr.prems(1,2) b by (intro JArr.IH) (auto simp: list_all_iff)
  next
    fix x assume "x \<in> set xs \<union> set ys"
    then show "stringify x \<noteq> [] \<and> hd (stringify x) \<noteq> CHR '']''"
      using JArr.prems(1,2) b stringify_start [of x] by (auto simp: list_all_iff)
  qed simp
  with b show ?case by simp
next
  case (JObj kvs)
  then obtain kvs' where b: "b = JObj kvs'"
    using kind_char_stringify [of b s] kind_char_stringify [of "JObj kvs" r]
    by (cases b) (auto split: if_splits simp del: stringify.simps)
  let ?f = "\<lambda>(k, v). json_quote k @ CHR '':'' # stringify v"
  have pl: "list_all (\<lambda>(k, v). plain v) kvs" "list_all (\<lambda>(k, v). plain v) kvs'"
    using JObj.prems b by simp_all
  from JObj.prems(5) b stringify_JObj_plain [OF pl(1)] stringify_JObj_plain [OF pl(2)]
  have e: "join_with CHR '','' (map ?f kvs) @ CHR 0x7D # r =
      join_with CHR '','' (map ?f kvs') @ CHR 0x7D # s" by (simp del: stringify.simps)
  have "kvs = kvs' \<and> r = s"
  proof (rule join_prefix [OF _ _ _ e])
    fix x y r s
    assume x: "x \<in> set kvs" and y: "y \<in> set kvs'" and d: "delim r" "delim s" and eq: "?f x @ r = ?f y @ s"
    obtain k v k' v' where kv: "x = (k, v)" "y = (k', v')" by fastforce
    with eq have "json_quote k @ (CHR '':'' # stringify v @ r) = json_quote k' @ (CHR '':'' # stringify v' @ s)"
      by simp
    from json_quote_prefix [OF this] have k: "k = k'" and v: "stringify v @ r = stringify v' @ s" by auto
    have "v = v' \<and> r = s"
      using JObj.IH [of x v v' r s] x y kv d v pl by (auto simp: list_all_iff)
    with k kv show "x = y \<and> r = s" by simp
  next
    fix x show "?f x \<noteq> [] \<and> hd (?f x) \<noteq> CHR 0x7D"
      by (auto simp: json_quote_def split: prod.splits)
  qed simp
  with b show ?case by simp
next
  case JNull
  then show ?case using kind_char_stringify [of b s] kind_char_stringify [of "JNull" r]
    by (cases b) (auto split: if_splits)
next
  case (JBool x)
  then show ?case using kind_char_stringify [of b s] kind_char_stringify [of "JBool x" r]
    by (cases b) (auto split: if_splits)
qed auto

lemma stringify_inject: "plain a \<Longrightarrow> plain b \<Longrightarrow> stringify a = stringify b \<Longrightarrow> a = b"
  using stringify_prefix [of a b "[]" "[]"] by simp

lemma canonicalJson_inject:
  "plain a \<Longrightarrow> plain b \<Longrightarrow> canonicalJson a = canonicalJson b \<Longrightarrow> canonicalize a = canonicalize b"
  unfolding canonicalJson_def by (rule stringify_inject) (auto intro: plain_canonicalize)

lemma map_of_sort_key: "distinct (map fst kvs) \<Longrightarrow> map_of (sort_key fst kvs) = map_of kvs"
  by (rule map_of_eqI) (auto simp: distinct_map inj_on_def map_of_eq_Some_iff
      intro!: map_of_inject_set [THEN iffD2])

text \<open>
  On values whose numbers are all safe integers the checked encoder returns, and its text is the
  canonical one.
\<close>

fun safe_plain :: "jsv \<Rightarrow> bool" where
  "safe_plain JUndef = False"
| "safe_plain (JFrac s) = False"
| "safe_plain (JNum i) = isSafeInteger (JNum i)"
| "safe_plain (JArr xs) = list_all safe_plain xs"
| "safe_plain (JObj kvs) = (distinct (map fst kvs) \<and> list_all (\<lambda>(k, v). safe_plain v) kvs)"
| "safe_plain v = True"

lemma mapM_total: "(\<And>x. x \<in> set xs \<Longrightarrow> \<exists>y. f x = Inr y) \<Longrightarrow> \<exists>ys. mapM f xs = Inr ys"
proof (induction xs)
  case (Cons x xs)
  then obtain y ys where "f x = Inr y" "mapM f xs = Inr ys" by (meson list.set_intros)
  then show ?case by simp
qed simp

lemma safe_plain_plain: "safe_plain v \<Longrightarrow> plain v"
  by (induction v rule: safe_plain.induct) (fastforce simp: list_all_iff)+

lemma canonicalJsonChecked_total: "safe_plain v \<Longrightarrow> \<exists>s. canonicalJsonChecked v = Inr s"
proof (induction v rule: canonicalJsonChecked.induct)
  case (5 xs)
  then have "\<exists>ss. mapM canonicalJsonChecked xs = Inr ss"
    by (intro mapM_total) (auto simp: list_all_iff)
  then show ?case by auto
next
  case (6 kvs)
  let ?f = "\<lambda>(k, v). bnd (canonicalJsonChecked v) (\<lambda>s. Inr (k, s))"
  have "\<exists>ss. mapM ?f kvs = Inr ss"
  proof (rule mapM_total)
    fix kv assume kv: "kv \<in> set kvs"
    obtain k v where [simp]: "kv = (k, v)" by (cases kv)
    from 6 kv have "\<exists>s. canonicalJsonChecked v = Inr s" by (auto simp: list_all_iff)
    then show "\<exists>y. ?f kv = Inr y" by auto
  qed
  then show ?case by auto
qed auto

lemma canonicalJsonChecked_safe: "safe_plain v \<Longrightarrow> canonicalJsonChecked v = Inr (canonicalJson v)"
  using canonicalJsonChecked_total canonicalJsonChecked_eq canonicalJsonV1_eq safe_plain_plain by metis

lemma canonicalJsonChecked_err [js_err]:
  "P ''INVALID_CANONICAL_VALUE'' \<Longrightarrow> errp P (canonicalJsonChecked v)"
proof (induction v rule: canonicalJsonChecked.induct)
  case (6 kvs)
  then show ?case
    unfolding canonicalJsonChecked.simps by (intro js_err) (auto intro: errp_bnd)
qed (auto intro!: js_err)

lemma jget_canonicalize: "plain v \<Longrightarrow> jget k (canonicalize v) = canonicalize (jget k v)"
proof (cases v)
  case (JObj kvs)
  assume "plain v"
  with JObj have "distinct (map fst (map (\<lambda>(k, v). (k, canonicalize v)) kvs))"
    by (simp add: fst_map_snd)
  then have "map_of (sort_key fst (map (\<lambda>(k, v). (k, canonicalize v)) kvs)) k =
      map_of (map (\<lambda>(k, v). (k, canonicalize v)) kvs) k"
    by (simp add: map_of_sort_key)
  also have "\<dots> = map_option canonicalize (map_of kvs k)" by (simp add: map_of_map)
  finally show ?thesis using JObj by (simp split: option.splits)
qed auto

lemma canonicalJson_differ:
  assumes "plain a" "plain b" "canonicalize (jget k a) \<noteq> canonicalize (jget k b)"
  shows "canonicalJson a \<noteq> canonicalJson b"
  using assms canonicalJson_inject jget_canonicalize by metis

end
