(* ===== verification/Sha256.thy ===== *)
theory Sha256
  imports Canonical_Json "HOL-Library.Word"
begin

text \<open>
  The digest of \<^verbatim>\<open>node:crypto\<close> that the sources call,
  \<^verbatim>\<open>createHash("sha256").update(text).digest("hex")\<close>: SHA-256 (FIPS 180-4) of the UTF-8 bytes of
  the text, printed in lower-case hexadecimal. The component theories take the digest as an
  argument \<open>H\<close>, so that their theorems hold for every digest function; \<open>sha256_hex\<close> is the one
  the program runs with, and the locale \<open>hex_digest\<close> states what the components rely on.
\<close>

unbundle bit_operations_syntax

section \<open>The contract of a digest\<close>

locale hex_digest =
  fixes H :: "string \<Rightarrow> string"
  assumes digest_hex: "hex_n 64 (H s)"
begin

lemma digest_length: "length (H s) = 64"
  using digest_hex [of s] by (simp add: hex_n_def)

lemma tagged_digest: "prefix_hex p 64 (p @ H s)"
  by (simp add: digest_hex)

text \<open>A digest is short and has no white space: the string validators accept it unchanged.\<close>

lemma digest_chars: "list_all is_lower_hex (H s)"
  using digest_hex [of s] by (simp add: hex_n_def)

end

section \<open>SHA-256\<close>

type_synonym u32 = "32 word"

definition utf8_bytes :: "string \<Rightarrow> nat list" where
  "utf8_bytes s = concat (map (\<lambda>c. let n = of_char c :: nat in
     if n < 128 then [n] else [192 + n div 64, 128 + n mod 64]) s)"

definition sha_k :: "u32 list" where
  "sha_k = [
    1116352408, 1899447441, 3049323471, 3921009573, 961987163, 1508970993, 2453635748, 2870763221,
    3624381080, 310598401, 607225278, 1426881987, 1925078388, 2162078206, 2614888103, 3248222580,
    3835390401, 4022224774, 264347078, 604807628, 770255983, 1249150122, 1555081692, 1996064986,
    2554220882, 2821834349, 2952996808, 3210313671, 3336571891, 3584528711, 113926993, 338241895,
    666307205, 773529912, 1294757372, 1396182291, 1695183700, 1986661051, 2177026350, 2456956037,
    2730485921, 2820302411, 3259730800, 3345764771, 3516065817, 3600352804, 4094571909, 275423344,
    430227734, 506948616, 659060556, 883997877, 958139571, 1322822218, 1537002063, 1747873779,
    1955562222, 2024104815, 2227730452, 2361852424, 2428436474, 2756734187, 3204031479, 3329325298]"

definition sha_init :: "u32 list" where
  "sha_init = [1779033703, 3144134277, 1013904242, 2773480762, 1359893119, 2600822924, 528734635,
    1541459225]"

definition rotr32 :: "nat \<Rightarrow> u32 \<Rightarrow> u32" where
  "rotr32 n x = drop_bit n x OR push_bit (32 - n) x"

definition sha_pad :: "nat list \<Rightarrow> nat list" where
  "sha_pad bs =
     (let n = length bs; bits = 8 * int n in
      bs @ 128 # replicate ((119 - n mod 64) mod 64) 0 @
      map (\<lambda>k. nat ((bits div 256 ^ k) mod 256)) [7, 6, 5, 4, 3, 2, 1, 0])"

fun be_words :: "nat list \<Rightarrow> u32 list" where
  "be_words (a # b # c # d # bs) =
     word_of_int (int a * 16777216 + int b * 65536 + int c * 256 + int d) # be_words bs"
| "be_words _ = []"

text \<open>The message schedule, newest word first.\<close>

fun sha_extend :: "nat \<Rightarrow> u32 list \<Rightarrow> u32 list" where
  "sha_extend 0 ws = ws"
| "sha_extend (Suc n) ws =
     (let a = ws ! 1; b = ws ! 14;
          s1 = rotr32 17 a XOR rotr32 19 a XOR drop_bit 10 a;
          s0 = rotr32 7 b XOR rotr32 18 b XOR drop_bit 3 b
      in sha_extend n ((s1 + ws ! 6 + s0 + ws ! 15) # ws))"

fun sha_round :: "u32 list \<Rightarrow> u32 \<times> u32 \<Rightarrow> u32 list" where
  "sha_round [a, b, c, d, e, f, g, h] (k, w) =
     (let t1 = h + (rotr32 6 e XOR rotr32 11 e XOR rotr32 25 e) + ((e AND f) XOR (NOT e AND g)) + k + w;
          t2 = (rotr32 2 a XOR rotr32 13 a XOR rotr32 22 a) + ((a AND b) XOR (a AND c) XOR (b AND c))
      in [t1 + t2, a, b, c, d + t1, e, f, g])"
| "sha_round s _ = s"

definition sha_block :: "u32 list \<Rightarrow> u32 list \<Rightarrow> u32 list" where
  "sha_block hs ws =
     map2 (+) hs (foldl sha_round hs (zip sha_k (rev (sha_extend 48 (rev ws)))))"

function sha_blocks :: "u32 list \<Rightarrow> u32 list \<Rightarrow> u32 list" where
  "sha_blocks hs ws = (if ws = [] then hs else sha_blocks (sha_block hs (take 16 ws)) (drop 16 ws))"
  by pat_completeness auto
termination
  by (relation "measure (\<lambda>(hs, ws). length ws)") auto

declare sha_blocks.simps [simp del]

definition word_hex :: "u32 \<Rightarrow> string" where
  "word_hex w = map (\<lambda>k. ''0123456789abcdef'' ! nat ((uint w div 16 ^ k) mod 16)) [7, 6, 5, 4, 3, 2, 1, 0]"

definition sha256_hex :: "string \<Rightarrow> string" where
  "sha256_hex s = concat (map word_hex (sha_blocks sha_init (be_words (sha_pad (utf8_bytes s)))))"

lemma word_hex_shape: "length (word_hex w) = 8 \<and> list_all is_lower_hex (word_hex w)"
proof -
  have "is_lower_hex (''0123456789abcdef'' ! nat (k mod 16))" for k :: int
  proof -
    have "nat (k mod 16) < length ''0123456789abcdef''" by (simp add: nat_less_iff)
    then have "''0123456789abcdef'' ! nat (k mod 16) \<in> set ''0123456789abcdef''" by (rule nth_mem)
    then show ?thesis by (simp only: is_lower_hex_def)
  qed
  then show ?thesis by (simp only: word_hex_def length_map list_all_iff set_map ball_simps) simp
qed

lemma sha_round_length: "length (sha_round s kw) = length s"
  by (induction s kw rule: sha_round.induct) (auto simp: Let_def)

lemma foldl_sha_round_length: "length (foldl sha_round s kws) = length s"
  by (induction kws arbitrary: s) (simp_all add: sha_round_length)

lemma sha_block_length: "length (sha_block hs ws) = length hs"
  by (simp add: sha_block_def foldl_sha_round_length)

lemma sha_blocks_length: "length (sha_blocks hs ws) = length hs"
proof (induction hs ws rule: sha_blocks.induct)
  case (1 hs ws)
  then show ?case by (subst sha_blocks.simps) (simp add: sha_block_length)
qed

lemma concat_word_hex_length: "length (concat (map word_hex ws)) = 8 * length ws"
  by (induction ws) (auto simp: word_hex_shape)

lemma sha256_hex_shape: "hex_n 64 (sha256_hex s)"
proof -
  have "list_all is_lower_hex (concat (map word_hex ws))" for ws
    by (induction ws) (auto simp: word_hex_shape)
  then show ?thesis
    by (simp add: hex_n_def sha256_hex_def concat_word_hex_length sha_blocks_length sha_init_def)
qed

interpretation node_sha256: hex_digest sha256_hex
  by unfold_locales (rule sha256_hex_shape)

text \<open>A digest that is cheap to evaluate, for the concrete instances of the properties.\<close>

definition zero_digest :: "string \<Rightarrow> string" where
  "zero_digest s = replicate 64 CHR ''0''"

lemma zero_digest_shape: "hex_n 64 (zero_digest s)"
  by (simp add: hex_n_def zero_digest_def is_lower_hex_def list_all_iff)

text \<open>
  A digest that is cheap to evaluate and tells the texts of an example apart: a 32-bit polynomial
  checksum, printed eight times.
\<close>

definition checksum :: "string \<Rightarrow> u32" where
  "checksum s = foldl (\<lambda>h c. 31 * h + of_nat (of_char c)) 7 s"

definition checksum_digest :: "string \<Rightarrow> string" where
  "checksum_digest s = concat (replicate 8 (word_hex (checksum s)))"

lemma checksum_digest_shape: "hex_n 64 (checksum_digest s)"
  using word_hex_shape [of "checksum s"]
  by (simp add: hex_n_def checksum_digest_def numeral_eq_Suc)

interpretation example_digest: hex_digest checksum_digest
  by unfold_locales (rule checksum_digest_shape)

end
