(* ===== verification/Btc_Void_Quote.thy ===== *)
theory Btc_Void_Quote
  imports Sha256
begin

text \<open>
  The indicative BTC/VOID quote of \<^verbatim>\<open>tools/void-btc-void-quote-math-v1.mjs\<close>: a constant-product
  curve with a fee in basis points, exact integer arithmetic and floor rounding of the output.
  The functions take untrusted request objects, normalise them and build the quote object with
  its content address. The lemmas show the curve's bounds, that the product of the reserves
  never decreases, that the output is the largest one the curve allows, and that trading back
  and forth never gains.
\<close>

section \<open>Request validation\<close>

definition BPS_DENOMINATOR :: int where
  "BPS_DENOMINATOR = 10000"

definition MAX_FEE_BPS :: int where
  "MAX_FEE_BPS = 1000"

definition MAX_INPUT_RESERVE_FRACTION_BPS :: int where
  "MAX_INPUT_RESERVE_FRACTION_BPS = 2500"

definition MAX_ATOMIC_VALUE :: int where
  "MAX_ATOMIC_VALUE = 2 ^ 128 - 1"

definition plainObject :: "jsv \<Rightarrow> string \<Rightarrow> jsv res" where
  "plainObject v label = (if \<not> is_obj v then Inl (label @ '' must be an object'') else Inr v)"

definition exactKeys :: "jsv \<Rightarrow> string list \<Rightarrow> string \<Rightarrow> jsv res" where
  "exactKeys v keys label =
     bnd (plainObject v label) (\<lambda>obj.
       if \<not> same_keys obj keys then Inl (label @ '' keys mismatch'') else Inr obj)"

definition atomic :: "jsv \<Rightarrow> string \<Rightarrow> bool \<Rightarrow> int res" where
  "atomic v label allowZero =
     (if \<not> is_str v \<or> \<not> is_decimal (str_of v)
      then Inl (label @ '' must be a canonical decimal string'')
      else let parsed = dec_val (str_of v) in
        if (\<not> allowZero \<and> parsed = 0) \<or> parsed > MAX_ATOMIC_VALUE
        then Inl (label @ '' is outside the v1 atomic-value range'')
        else Inr parsed)"

definition integer_in :: "jsv \<Rightarrow> string \<Rightarrow> int \<Rightarrow> int \<Rightarrow> int res" where
  "integer_in v label minimum maximum =
     (if \<not> isSafeInteger v \<or> num_of v < minimum \<or> num_of v > maximum
      then Inl (label @ '' is outside the v1 integer range'')
      else Inr (num_of v))"

record norm_quote =
  direction :: string
  amountIn :: int
  btcReserve :: int
  voidReserve :: int
  minimumBtcReserve :: int
  minimumVoidReserve :: int
  feeBps :: int
  maxInputFractionBps :: int

definition QUOTE_REQUEST_SCHEMA :: string where
  "QUOTE_REQUEST_SCHEMA = ''void.btc_void.indicative_quote_request.v1''"

definition normalizeRequest :: "jsv \<Rightarrow> norm_quote res" where
  "normalizeRequest raw =
     bnd (exactKeys raw [''schema'', ''direction'', ''amount_in'', ''reserves'', ''policy''] ''quote request'')
     (\<lambda>request.
      if jget ''schema'' request \<noteq> JStr QUOTE_REQUEST_SCHEMA
      then Inl ''quote request schema mismatch''
      else if jget ''direction'' request \<notin> {JStr ''btc_to_void'', JStr ''void_to_btc''}
      then Inl ''quote direction is unsupported''
      else
     bnd (exactKeys (jget ''reserves'' request) [''btc_sats'', ''void_atomic''] ''quote reserves'')
     (\<lambda>reserves.
     bnd (exactKeys (jget ''policy'' request)
            [''fee_bps'', ''max_input_reserve_fraction_bps'', ''minimum_btc_reserve_sats'',
             ''minimum_void_reserve_atomic''] ''quote policy'')
     (\<lambda>policy.
     bnd (atomic (jget ''amount_in'' request) ''amount_in'' False) (\<lambda>amount.
     bnd (atomic (jget ''btc_sats'' reserves) ''reserves.btc_sats'' False) (\<lambda>btc.
     bnd (atomic (jget ''void_atomic'' reserves) ''reserves.void_atomic'' False) (\<lambda>void.
     bnd (atomic (jget ''minimum_btc_reserve_sats'' policy) ''policy.minimum_btc_reserve_sats'' True) (\<lambda>minBtc.
     bnd (atomic (jget ''minimum_void_reserve_atomic'' policy) ''policy.minimum_void_reserve_atomic'' True) (\<lambda>minVoid.
     bnd (integer_in (jget ''fee_bps'' policy) ''policy.fee_bps'' 0 MAX_FEE_BPS) (\<lambda>fee.
     bnd (integer_in (jget ''max_input_reserve_fraction_bps'' policy)
            ''policy.max_input_reserve_fraction_bps'' 1 MAX_INPUT_RESERVE_FRACTION_BPS) (\<lambda>frac.
     Inr \<lparr> direction = str_of (jget ''direction'' request), amountIn = amount, btcReserve = btc,
            voidReserve = void, minimumBtcReserve = minBtc, minimumVoidReserve = minVoid,
            feeBps = fee, maxInputFractionBps = frac \<rparr>))))))))))"

text \<open>The normalised request as the quote carries it.\<close>

definition request_json :: "norm_quote \<Rightarrow> jsv" where
  "request_json n = JObj [
     (''schema'', JStr QUOTE_REQUEST_SCHEMA),
     (''direction'', JStr (direction n)),
     (''amount_in'', JStr (dec_str (amountIn n))),
     (''reserves'', JObj [
       (''btc_sats'', JStr (dec_str (btcReserve n))),
       (''void_atomic'', JStr (dec_str (voidReserve n)))]),
     (''policy'', JObj [
       (''fee_bps'', JNum (feeBps n)),
       (''max_input_reserve_fraction_bps'', JNum (maxInputFractionBps n)),
       (''minimum_btc_reserve_sats'', JStr (dec_str (minimumBtcReserve n))),
       (''minimum_void_reserve_atomic'', JStr (dec_str (minimumVoidReserve n)))])]"

section \<open>The curve\<close>

record quote_numbers =
  amountOut :: int
  btcAfter :: int
  voidAfter :: int
  kBefore :: int
  kAfter :: int
  feeFactor :: int
  adjustedInputNumerator :: int
  outputNumerator :: int
  outputDenominator :: int

abbreviation btcIn :: "norm_quote \<Rightarrow> bool" where
  "btcIn n \<equiv> direction n = ''btc_to_void''"

definition reserveIn :: "norm_quote \<Rightarrow> int" where
  "reserveIn n = (if btcIn n then btcReserve n else voidReserve n)"

definition reserveOut :: "norm_quote \<Rightarrow> int" where
  "reserveOut n = (if btcIn n then voidReserve n else btcReserve n)"

definition quoteNumbers :: "norm_quote \<Rightarrow> quote_numbers res" where
  "quoteNumbers n =
     (if amountIn n * BPS_DENOMINATOR > reserveIn n * maxInputFractionBps n
      then Inl ''amount_in exceeds the configured reserve-fraction limit''
      else if reserveIn n + amountIn n > MAX_ATOMIC_VALUE
      then Inl ''post-quote input reserve exceeds the v1 atomic-value range''
      else
      let factor = BPS_DENOMINATOR - feeBps n;
          adjusted = amountIn n * factor;
          num = reserveOut n * adjusted;
          den = reserveIn n * BPS_DENOMINATOR + adjusted;
          out = num div den
      in
      if out = 0 \<or> out \<ge> reserveOut n
      then Inl ''quote output is zero or exhausts the output reserve''
      else
      let reserveInAfter = reserveIn n + amountIn n;
          reserveOutAfter = reserveOut n - out;
          btcA = (if btcIn n then reserveInAfter else reserveOutAfter);
          voidA = (if btcIn n then reserveOutAfter else reserveInAfter)
      in
      if btcA < minimumBtcReserve n \<or> voidA < minimumVoidReserve n
      then Inl ''quote would cross a configured reserve floor''
      else
      let kB = btcReserve n * voidReserve n; kA = btcA * voidA
      in
      if kA < kB then Inl ''constant-product invariant decreased''
      else Inr \<lparr> amountOut = out, btcAfter = btcA, voidAfter = voidA, kBefore = kB, kAfter = kA,
                 feeFactor = factor, adjustedInputNumerator = adjusted, outputNumerator = num,
                 outputDenominator = den \<rparr>)"

section \<open>The quote object\<close>

definition asset_name :: "bool \<Rightarrow> string" where
  "asset_name btc = (if btc then ''native_btc'' else ''canonical_chain2050_voidtoken'')"

definition quote_body :: "norm_quote \<Rightarrow> quote_numbers \<Rightarrow> (string \<times> jsv) list" where
  "quote_body n r = [
     (''schema'', JStr ''void.btc_void.indicative_quote.v1''),
     (''marker'', JStr ''VOID_BTC_VOID_QUOTE_MATH_V1''),
     (''market'', JObj [
       (''pair'', JStr ''BTC_VOID''),
       (''bitcoin_asset'', JStr ''native_btc''),
       (''bitcoin_unit'', JStr ''satoshi''),
       (''void_asset'', JStr ''canonical_chain2050_voidtoken''),
       (''void_unit'', JStr ''void_atomic'')]),
     (''request'', request_json n),
     (''result'', JObj [
       (''input_asset'', JStr (asset_name (btcIn n))),
       (''output_asset'', JStr (asset_name (\<not> btcIn n))),
       (''amount_in'', JStr (dec_str (amountIn n))),
       (''amount_out'', JStr (dec_str (amountOut r))),
       (''reserves_after'', JObj [
         (''btc_sats'', JStr (dec_str (btcAfter r))),
         (''void_atomic'', JStr (dec_str (voidAfter r)))]),
       (''invariant_before'', JStr (dec_str (kBefore r))),
       (''invariant_after'', JStr (dec_str (kAfter r))),
       (''rounding'', JStr ''floor_output'')]),
     (''math'', JObj [
       (''basis_points_denominator'', JStr (dec_str BPS_DENOMINATOR)),
       (''fee_factor_bps'', JStr (dec_str (feeFactor r))),
       (''adjusted_input_numerator'', JStr (dec_str (adjustedInputNumerator r))),
       (''output_numerator'', JStr (dec_str (outputNumerator r))),
       (''output_denominator'', JStr (dec_str (outputDenominator r)))]),
     (''authority'', JObj [
       (''indicative_only'', JBool True),
       (''runtime_observed'', JBool False),
       (''inventory_reserved'', JBool False),
       (''execution_authorized'', JBool False),
       (''wallet_or_signer_accessed'', JBool False),
       (''transaction_constructed'', JBool False),
       (''transaction_broadcast'', JBool False),
       (''funds_moved'', JBool False)])]"

definition quoteBtcVoidV1 :: "(string \<Rightarrow> string) \<Rightarrow> jsv \<Rightarrow> jsv res" where
  "quoteBtcVoidV1 H raw =
     bnd (normalizeRequest raw) (\<lambda>n.
     bnd (quoteNumbers n) (\<lambda>r.
     let quote = quote_body n r in
     Inr (JObj (quote @
       [(''indicative_quote_id'', JStr (''sha256:'' @ H (canonicalJson (JObj quote))))]))))"

section \<open>Normalised requests\<close>

definition wf_quote :: "norm_quote \<Rightarrow> bool" where
  "wf_quote n \<longleftrightarrow>
     direction n \<in> {''btc_to_void'', ''void_to_btc''} \<and>
     0 < amountIn n \<and> amountIn n \<le> MAX_ATOMIC_VALUE \<and>
     0 < btcReserve n \<and> btcReserve n \<le> MAX_ATOMIC_VALUE \<and>
     0 < voidReserve n \<and> voidReserve n \<le> MAX_ATOMIC_VALUE \<and>
     0 \<le> minimumBtcReserve n \<and> 0 \<le> minimumVoidReserve n \<and>
     0 \<le> feeBps n \<and> feeBps n \<le> MAX_FEE_BPS \<and>
     1 \<le> maxInputFractionBps n \<and> maxInputFractionBps n \<le> MAX_INPUT_RESERVE_FRACTION_BPS"

lemma plainObject_Inr [js_simps]: "plainObject v l = Inr w \<longleftrightarrow> is_obj v \<and> w = v"
  by (auto simp: plainObject_def)

lemma exactKeys_Inr [js_simps]:
  "exactKeys v ks l = Inr w \<longleftrightarrow> is_obj v \<and> same_keys v ks \<and> w = v"
  by (auto simp: exactKeys_def js_simps)

lemma atomic_Inr [js_simps]:
  "atomic v l z = Inr k \<longleftrightarrow>
     (\<exists>s. v = JStr s \<and> is_decimal s \<and> k = dec_val s \<and> (z \<or> k \<noteq> 0) \<and> k \<le> MAX_ATOMIC_VALUE)"
  by (cases v) (auto simp: atomic_def Let_def)

lemma integer_in_Inr [js_simps]:
  "integer_in v l lo hi = Inr k \<longleftrightarrow> v = JNum k \<and> isSafeInteger v \<and> lo \<le> k \<and> k \<le> hi"
  by (cases v) (auto simp: integer_in_def)

lemma atomic_dec_str [simp]:
  "0 \<le> k \<Longrightarrow> atomic (JStr (dec_str k)) l z = Inr m \<longleftrightarrow> m = k \<and> (z \<or> k \<noteq> 0) \<and> k \<le> MAX_ATOMIC_VALUE"
  by (auto simp: atomic_Inr)

lemma is_decimal_pos: "is_decimal s \<Longrightarrow> dec_val s \<noteq> 0 \<Longrightarrow> 0 < dec_val s"
  using is_decimal_nonneg [of s] by linarith

lemma post_exactKeys [js_wp]:
  "(is_obj v \<Longrightarrow> same_keys v ks \<Longrightarrow> post P (f v)) \<Longrightarrow> post P (bnd (exactKeys v ks l) f)"
  by (rule post_bnd) (auto simp: js_simps)

lemma post_atomic [js_wp]:
  "(\<And>s k. v = JStr s \<Longrightarrow> is_decimal s \<Longrightarrow> k = dec_val s \<Longrightarrow> 0 \<le> k \<Longrightarrow> z \<or> 0 < k \<Longrightarrow> k \<le> MAX_ATOMIC_VALUE
     \<Longrightarrow> post P (f k)) \<Longrightarrow> post P (bnd (atomic v l z) f)"
  by (rule post_bnd) (auto simp: atomic_Inr is_decimal_nonneg is_decimal_pos)

lemma post_integer_in [js_wp]:
  "(\<And>k. v = JNum k \<Longrightarrow> isSafeInteger v \<Longrightarrow> lo \<le> k \<Longrightarrow> k \<le> hi \<Longrightarrow> post P (f k))
     \<Longrightarrow> post P (bnd (integer_in v l lo hi) f)"
  by (rule post_bnd) (auto simp: integer_in_Inr)

lemma errp_exactKeys [js_err]:
  "P (l @ '' must be an object'') \<Longrightarrow> P (l @ '' keys mismatch'') \<Longrightarrow> errp P (exactKeys v ks l)"
  by (simp add: errp_def exactKeys_def plainObject_def)

lemma errp_atomic [js_err]:
  "P (l @ '' must be a canonical decimal string'') \<Longrightarrow> P (l @ '' is outside the v1 atomic-value range'')
    \<Longrightarrow> errp P (atomic v l z)"
  by (simp add: errp_def atomic_def Let_def)

lemma errp_integer_in [js_err]:
  "P (l @ '' is outside the v1 integer range'') \<Longrightarrow> errp P (integer_in v l lo hi)"
  by (simp add: errp_def integer_in_def)

lemma normalizeRequest_post: "post wf_quote (normalizeRequest raw)"
  unfolding normalizeRequest_def wf_quote_def by (intro js_wp) (simp; fastforce)

lemmas normalizeRequest_wf = normalizeRequest_post [THEN postD]

section \<open>The arithmetic of the curve\<close>

text \<open>
  One swap on a constant-product curve: \<open>x\<close> and \<open>y\<close> are the input and output reserves, \<open>a\<close> the
  input and \<open>g\<close> the fraction of it that is priced, in basis points.
\<close>

definition curve_out :: "int \<Rightarrow> int \<Rightarrow> int \<Rightarrow> int \<Rightarrow> int" where
  "curve_out x y a g = (y * (a * g)) div (x * 10000 + a * g)"

lemma curve_out_mult_le:
  assumes "0 < x" "0 \<le> a" "0 \<le> g"
  shows "curve_out x y a g * (x * 10000 + a * g) \<le> y * (a * g)"
proof -
  have "0 < x * 10000 + a * g" using assms by (simp add: add_pos_nonneg)
  then show ?thesis by (simp add: curve_out_def flip: le_div_iff)
qed

lemma curve_priced_product:
  assumes "0 < x" "0 \<le> a" "0 \<le> g"
  shows "x * 10000 * y \<le> (x * 10000 + a * g) * (y - curve_out x y a g)"
  using curve_out_mult_le [OF assms, of y] by (simp add: algebra_simps)

lemma curve_out_le:
  assumes "0 < x" "0 \<le> y" "0 \<le> a" "0 \<le> g"
  shows "curve_out x y a g \<le> y"
proof (rule ccontr)
  assume "\<not> ?thesis"
  then have "y - curve_out x y a g < 0" by simp
  moreover have "0 < x * 10000 + a * g" using assms by (simp add: add_pos_nonneg)
  ultimately have "(x * 10000 + a * g) * (y - curve_out x y a g) < 0" by (simp add: mult_pos_neg)
  moreover have "0 \<le> x * 10000 * y" using assms by simp
  ultimately show False using curve_priced_product [of x a g y] assms by linarith
qed

lemma curve_product:
  assumes "0 < x" "0 \<le> y" "0 \<le> a" "0 \<le> g" "g \<le> 10000"
  shows "x * y \<le> (x + a) * (y - curve_out x y a g)"
proof -
  let ?r = "y - curve_out x y a g"
  have r: "0 \<le> ?r" using curve_out_le assms by simp
  have "a * g \<le> a * 10000" using assms by (simp add: mult_left_mono)
  then have "(x * 10000 + a * g) * ?r \<le> ((x + a) * 10000) * ?r"
    using r by (intro mult_right_mono) auto
  with curve_priced_product [of x a g y] assms have "x * 10000 * y \<le> ((x + a) * 10000) * ?r" by simp
  then show ?thesis by (simp add: algebra_simps)
qed

lemma curve_out_spot:
  assumes "0 < x" "0 \<le> y" "0 \<le> a" "0 \<le> g" "g \<le> 10000"
  shows "curve_out x y a g * x \<le> a * y"
proof -
  have "0 \<le> curve_out x y a g"
    using assms by (simp add: curve_out_def pos_imp_zdiv_nonneg_iff add_pos_nonneg)
  moreover have "x * y \<le> (x + a) * (y - curve_out x y a g)" by (rule curve_product [OF assms])
  moreover have "0 \<le> a * curve_out x y a g" using calculation assms by simp
  ultimately show ?thesis by (simp add: algebra_simps)
qed

lemma curve_out_greatest:
  assumes "0 < x" "0 \<le> a" "0 \<le> g"
  shows "x * 10000 * y \<le> (x * 10000 + a * g) * (y - k) \<longleftrightarrow> k \<le> curve_out x y a g"
proof -
  have "0 < x * 10000 + a * g" using assms by (simp add: add_pos_nonneg)
  then have "k \<le> curve_out x y a g \<longleftrightarrow> k * (x * 10000 + a * g) \<le> y * (a * g)"
    unfolding curve_out_def by (rule le_div_iff)
  then show ?thesis by (simp add: algebra_simps)
qed

section \<open>What a quote guarantees\<close>

lemma quoteNumbers_Inr:
  assumes "quoteNumbers n = Inr r"
  shows "amountOut r = curve_out (reserveIn n) (reserveOut n) (amountIn n) (BPS_DENOMINATOR - feeBps n)"
    and "amountOut r \<noteq> 0" "amountOut r < reserveOut n"
    and "btcAfter r = (if btcIn n then reserveIn n + amountIn n else reserveOut n - amountOut r)"
    and "voidAfter r = (if btcIn n then reserveOut n - amountOut r else reserveIn n + amountIn n)"
    and "kBefore r = reserveIn n * reserveOut n"
    and "kAfter r = (reserveIn n + amountIn n) * (reserveOut n - amountOut r)"
    and "reserveIn n + amountIn n \<le> MAX_ATOMIC_VALUE"
    and "amountIn n * BPS_DENOMINATOR \<le> reserveIn n * maxInputFractionBps n"
    and "minimumBtcReserve n \<le> btcAfter r" "minimumVoidReserve n \<le> voidAfter r"
  using assms
  unfolding quoteNumbers_def curve_out_def Let_def js_simps sum.inject
  by (cases "btcIn n"; clarsimp simp: BPS_DENOMINATOR_def reserveIn_def reserveOut_def mult.commute)+

lemma wf_quote_reserves:
  assumes "wf_quote n"
  shows "0 < reserveIn n" "0 < reserveOut n" "0 < amountIn n"
    "0 \<le> BPS_DENOMINATOR - feeBps n" "BPS_DENOMINATOR - feeBps n \<le> 10000"
  using assms by (auto simp: wf_quote_def reserveIn_def reserveOut_def BPS_DENOMINATOR_def MAX_FEE_BPS_def)

lemma curve_out_nonneg:
  "0 < x \<Longrightarrow> 0 \<le> y \<Longrightarrow> 0 \<le> a \<Longrightarrow> 0 \<le> g \<Longrightarrow> 0 \<le> curve_out x y a g"
  by (simp add: curve_out_def pos_imp_zdiv_nonneg_iff add_pos_nonneg)

lemma quoteNumbers_pos:
  assumes "wf_quote n" "quoteNumbers n = Inr r"
  shows "0 < amountOut r" "0 < btcAfter r" "0 < voidAfter r" "0 < kBefore r" "kBefore r \<le> kAfter r"
proof -
  note wf = wf_quote_reserves [OF assms(1)] and q = quoteNumbers_Inr [OF assms(2)]
  have "0 \<le> amountOut r" unfolding q(1) using wf by (intro curve_out_nonneg) auto
  then show "0 < amountOut r" using q(2) by linarith
  show "0 < btcAfter r" "0 < voidAfter r" "0 < kBefore r" using q(3-6) wf by auto
  show "kBefore r \<le> kAfter r"
    unfolding q(6,7) q(1) using wf by (intro curve_product) auto
qed

text \<open>The checked invariant can never be the reason for a refusal.\<close>

lemma quoteNumbers_no_product_error:
  assumes "wf_quote n"
  shows "quoteNumbers n \<noteq> Inl ''constant-product invariant decreased''"
proof -
  note wf = wf_quote_reserves [OF assms]
  have "reserveIn n * reserveOut n \<le> (reserveIn n + amountIn n) *
      (reserveOut n - curve_out (reserveIn n) (reserveOut n) (amountIn n) (BPS_DENOMINATOR - feeBps n))"
    using wf by (intro curve_product) auto
  then show ?thesis
    unfolding quoteNumbers_def curve_out_def Let_def
    by (cases "btcIn n") (simp_all add: BPS_DENOMINATOR_def reserveIn_def reserveOut_def mult.commute)
qed

lemma quoteBtcVoidV1_Inr:
  assumes "quoteBtcVoidV1 H raw = Inr q"
  obtains n r where "normalizeRequest raw = Inr n" "wf_quote n" "quoteNumbers n = Inr r"
    "q = JObj (quote_body n r @ [(''indicative_quote_id'', JStr (''sha256:'' @ H (canonicalJson (JObj (quote_body n r)))))])"
  using assms normalizeRequest_wf unfolding quoteBtcVoidV1_def js_simps Let_def sum.inject by blast

lemma quote_fields:
  fixes q
  assumes "q = JObj (quote_body n r @ xs)"
    and "0 \<le> amountIn n" "0 \<le> amountOut r" "0 \<le> btcAfter r" "0 \<le> voidAfter r" "0 \<le> kBefore r" "0 \<le> kAfter r"
  shows "jdec [''result'', ''amount_in''] q = amountIn n"
    "jdec [''result'', ''amount_out''] q = amountOut r"
    "jdec [''result'', ''reserves_after'', ''btc_sats''] q = btcAfter r"
    "jdec [''result'', ''reserves_after'', ''void_atomic''] q = voidAfter r"
    "jdec [''result'', ''invariant_before''] q = kBefore r"
    "jdec [''result'', ''invariant_after''] q = kAfter r"
    "jpath [''request'', ''direction''] q = JStr (direction n)"
  using assms(2-) unfolding assms(1) by (simp_all add: jdec_def quote_body_def request_json_def)

lemma quote_output_pos:
  assumes "quoteBtcVoidV1 H raw = Inr q"
  shows "0 < jdec [''result'', ''amount_out''] q"
proof -
  from assms obtain n r where n: "wf_quote n" "quoteNumbers n = Inr r"
    "q = JObj (quote_body n r @ [(''indicative_quote_id'', JStr (''sha256:'' @ H (canonicalJson (JObj (quote_body n r)))))])"
    by (rule quoteBtcVoidV1_Inr)
  show ?thesis
    using quote_fields(2) [OF n(3)] quoteNumbers_pos [OF n(1,2)] wf_quote_reserves(3) [OF n(1)] by simp
qed

text \<open>
  The request that trades the output of a quote back at the reserves the quote leaves, under
  any policy.
\<close>

definition reverse_request :: "jsv \<Rightarrow> jsv \<Rightarrow> jsv" where
  "reverse_request q policy = JObj [
     (''schema'', JStr QUOTE_REQUEST_SCHEMA),
     (''direction'', if jpath [''request'', ''direction''] q = JStr ''btc_to_void''
        then JStr ''void_to_btc'' else JStr ''btc_to_void''),
     (''amount_in'', jpath [''result'', ''amount_out''] q),
     (''reserves'', jpath [''result'', ''reserves_after''] q),
     (''policy'', policy)]"

lemma reverse_request_norm:
  assumes q: "q = JObj (quote_body n r @ xs)" and wf: "wf_quote n"
    and pos: "0 < amountOut r" "0 < btcAfter r" "0 < voidAfter r"
    and norm: "normalizeRequest (reverse_request q policy) = Inr n'"
  shows "direction n' = (if btcIn n then ''void_to_btc'' else ''btc_to_void'')"
    "amountIn n' = amountOut r" "btcReserve n' = btcAfter r" "voidReserve n' = voidAfter r"
proof -
  have rev: "reverse_request q policy = JObj [
     (''schema'', JStr QUOTE_REQUEST_SCHEMA),
     (''direction'', if btcIn n then JStr ''void_to_btc'' else JStr ''btc_to_void''),
     (''amount_in'', JStr (dec_str (amountOut r))),
     (''reserves'', JObj [(''btc_sats'', JStr (dec_str (btcAfter r))), (''void_atomic'', JStr (dec_str (voidAfter r)))]),
     (''policy'', policy)]"
    by (simp add: q reverse_request_def quote_body_def request_json_def)
  have "post (\<lambda>n'. direction n' = (if btcIn n then ''void_to_btc'' else ''btc_to_void'') \<and>
      amountIn n' = amountOut r \<and> btcReserve n' = btcAfter r \<and> voidReserve n' = voidAfter r)
      (normalizeRequest (reverse_request q policy))"
    using pos unfolding normalizeRequest_def rev
    by (intro js_wp) auto
  from postD [OF this norm] show "direction n' = (if btcIn n then ''void_to_btc'' else ''btc_to_void'')"
    "amountIn n' = amountOut r" "btcReserve n' = btcAfter r" "voidReserve n' = voidAfter r" by auto
qed

lemma round_trip_numbers:
  assumes wf: "wf_quote n" "wf_quote n'" and q: "quoteNumbers n = Inr r" and q': "quoteNumbers n' = Inr r'"
    and rev: "direction n' = (if btcIn n then ''void_to_btc'' else ''btc_to_void'')"
      "amountIn n' = amountOut r" "btcReserve n' = btcAfter r" "voidReserve n' = voidAfter r"
  shows "amountOut r' \<le> amountIn n"
proof -
  note i = quoteNumbers_Inr [OF q] and i' = quoteNumbers_Inr [OF q']
    and k = quoteNumbers_pos [OF wf(1) q] and k' = quoteNumbers_pos [OF wf(2) q']
  have io: "reserveIn n' = reserveOut n - amountOut r" "reserveOut n' = reserveIn n + amountIn n"
    using rev i(4,5) by (auto simp: reserveIn_def reserveOut_def)
  have "kAfter r' = reserveOut n * (reserveIn n + amountIn n - amountOut r')"
    using i'(7) io rev(2) by simp
  moreover have "kBefore r' = kAfter r" using i'(6) i(7) io by (simp add: mult.commute)
  ultimately have "reserveIn n * reserveOut n \<le> reserveOut n * (reserveIn n + amountIn n - amountOut r')"
    using k(5) k'(5) i(6) by linarith
  then have "reserveOut n * reserveIn n \<le> reserveOut n * (reserveIn n + amountIn n - amountOut r')"
    by (simp add: mult.commute)
  then have "reserveIn n \<le> reserveIn n + amountIn n - amountOut r'"
    using wf_quote_reserves(2) [OF wf(1)] by (simp add: mult_le_cancel_left)
  then show ?thesis by simp
qed

section \<open>A concrete market\<close>

definition ex_policy :: jsv where
  "ex_policy = JObj [(''fee_bps'', JNum 30), (''max_input_reserve_fraction_bps'', JNum 2500),
     (''minimum_btc_reserve_sats'', JStr ''1000''), (''minimum_void_reserve_atomic'', JStr ''0'')]"

definition ex_request :: jsv where
  "ex_request = JObj [(''schema'', JStr QUOTE_REQUEST_SCHEMA), (''direction'', JStr ''btc_to_void''),
     (''amount_in'', JStr ''10000''),
     (''reserves'', JObj [(''btc_sats'', JStr ''1000000''), (''void_atomic'', JStr ''5000000000'')]),
     (''policy'', ex_policy)]"

definition ex_quote :: jsv where
  "ex_quote = projr (quoteBtcVoidV1 zero_digest ex_request)"

definition ex_back_quote :: jsv where
  "ex_back_quote = projr (quoteBtcVoidV1 zero_digest (reverse_request ex_quote ex_policy))"

lemma ex_quote_ok: "quoteBtcVoidV1 zero_digest ex_request = Inr ex_quote"
  by code_simp

lemma ex_back_quote_ok: "quoteBtcVoidV1 zero_digest (reverse_request ex_quote ex_policy) = Inr ex_back_quote"
  by code_simp

section \<open>Properties\<close>

text \<open>
  C1. Trading the output of a quote straight back, at the reserves that quote leaves and under
  any policy, never returns more than was put in: the curve cannot be drained by going back and
  forth.
\<close>

theorem quote_round_trip_no_gain:
  assumes "quoteBtcVoidV1 H raw = Inr q"
    and "quoteBtcVoidV1 H (reverse_request q policy) = Inr q'"
  shows "jdec [''result'', ''amount_out''] q' \<le> jdec [''result'', ''amount_in''] q"
proof -
  from assms(1) obtain n r where n: "wf_quote n" "quoteNumbers n = Inr r"
    "q = JObj (quote_body n r @ [(''indicative_quote_id'', JStr (''sha256:'' @ H (canonicalJson (JObj (quote_body n r)))))])"
    by (rule quoteBtcVoidV1_Inr)
  from assms(2) obtain n' r' where n': "normalizeRequest (reverse_request q policy) = Inr n'"
    "wf_quote n'" "quoteNumbers n' = Inr r'"
    "q' = JObj (quote_body n' r' @ [(''indicative_quote_id'', JStr (''sha256:'' @ H (canonicalJson (JObj (quote_body n' r')))))])"
    by (rule quoteBtcVoidV1_Inr)
  note p = quoteNumbers_pos [OF n(1,2)] and p' = quoteNumbers_pos [OF n'(2,3)]
  have "amountOut r' \<le> amountIn n"
    using reverse_request_norm [OF n(3,1) p(1-3) n'(1)] by (rule round_trip_numbers [OF n(1) n'(2) n(2) n'(3)])
  then show ?thesis
    using quote_fields [OF n(3)] quote_fields [OF n'(4)] p p' wf_quote_reserves(3) [OF n(1)]
      wf_quote_reserves(3) [OF n'(2)] by simp
qed

theorem quote_round_trip_no_gain_witness:
  "quoteBtcVoidV1 zero_digest ex_request = Inr ex_quote \<and>
   quoteBtcVoidV1 zero_digest (reverse_request ex_quote ex_policy) = Inr ex_back_quote \<and>
   jdec [''result'', ''amount_out''] ex_back_quote \<le> jdec [''result'', ''amount_in''] ex_quote"
  using quote_round_trip_no_gain [OF ex_quote_ok ex_back_quote_ok] ex_quote_ok ex_back_quote_ok by simp

text \<open>
  C2. Every quote that is returned stays inside the configured bounds: the output is positive and
  leaves something in the output reserve, it is never better than the spot price of the reserves,
  and the input is at most the configured fraction of the input reserve. The reserves after the trade
  are the old ones plus the input and less the output; they respect the configured floors and the
  128-bit range. The reported invariants are the products of the reserves before and after, and the
  product does not decrease.
\<close>

theorem quote_bounds:
  assumes "quoteBtcVoidV1 H raw = Inr q"
  shows "\<exists>n. normalizeRequest raw = Inr n \<and>
    0 < jdec [''result'', ''amount_out''] q \<and>
    jdec [''result'', ''amount_out''] q < reserveOut n \<and>
    jdec [''result'', ''amount_out''] q * reserveIn n \<le> amountIn n * reserveOut n \<and>
    amountIn n * BPS_DENOMINATOR \<le> reserveIn n * maxInputFractionBps n \<and>
    jdec [''result'', ''reserves_after'', if btcIn n then ''btc_sats'' else ''void_atomic''] q = reserveIn n + amountIn n \<and>
    jdec [''result'', ''reserves_after'', if btcIn n then ''void_atomic'' else ''btc_sats''] q
      = reserveOut n - jdec [''result'', ''amount_out''] q \<and>
    minimumBtcReserve n \<le> jdec [''result'', ''reserves_after'', ''btc_sats''] q \<and>
    minimumVoidReserve n \<le> jdec [''result'', ''reserves_after'', ''void_atomic''] q \<and>
    jdec [''result'', ''reserves_after'', ''btc_sats''] q \<le> MAX_ATOMIC_VALUE \<and>
    jdec [''result'', ''reserves_after'', ''void_atomic''] q \<le> MAX_ATOMIC_VALUE \<and>
    jdec [''result'', ''invariant_before''] q = btcReserve n * voidReserve n \<and>
    jdec [''result'', ''invariant_after''] q =
      jdec [''result'', ''reserves_after'', ''btc_sats''] q * jdec [''result'', ''reserves_after'', ''void_atomic''] q \<and>
    jdec [''result'', ''invariant_before''] q \<le> jdec [''result'', ''invariant_after''] q"
proof -
  from assms obtain n r where n: "normalizeRequest raw = Inr n" "wf_quote n" "quoteNumbers n = Inr r"
    "q = JObj (quote_body n r @ [(''indicative_quote_id'', JStr (''sha256:'' @ H (canonicalJson (JObj (quote_body n r)))))])"
    by (rule quoteBtcVoidV1_Inr)
  note p = quoteNumbers_pos [OF n(2,3)] and i = quoteNumbers_Inr [OF n(3)] and wf = wf_quote_reserves [OF n(2)]
  have spot: "amountOut r * reserveIn n \<le> amountIn n * reserveOut n"
    unfolding i(1) using wf by (intro curve_out_spot) auto
  have "reserveOut n \<le> MAX_ATOMIC_VALUE"
    using n(2) by (auto simp: wf_quote_def reserveOut_def)
  then have "btcAfter r \<le> MAX_ATOMIC_VALUE" "voidAfter r \<le> MAX_ATOMIC_VALUE"
    using i(4,5,8) p(1) by auto
  moreover have "kBefore r = btcReserve n * voidReserve n" "kAfter r = btcAfter r * voidAfter r"
    unfolding i(4-7) by (auto simp: reserveIn_def reserveOut_def)
  ultimately show ?thesis
    using n(1) spot quote_fields [OF n(4)] p i(3,4,5,9,10,11) wf(3) by (cases "btcIn n") auto
qed

theorem quote_bounds_witness:
  "quoteBtcVoidV1 zero_digest ex_request = Inr ex_quote \<and>
   0 < jdec [''result'', ''amount_out''] ex_quote \<and>
   (\<exists>n. normalizeRequest ex_request = Inr n \<and> amountIn n * BPS_DENOMINATOR \<le> reserveIn n * maxInputFractionBps n) \<and>
   jdec [''result'', ''invariant_before''] ex_quote \<le> jdec [''result'', ''invariant_after''] ex_quote"
  using quote_bounds [OF ex_quote_ok] ex_quote_ok by auto

text \<open>
  C3. The quoted output is exactly the floor of the fee-adjusted constant-product curve: it is the
  greatest amount that keeps the product of the priced input reserve and the output reserve at
  its old value or above. No smaller and no larger integer would do.
\<close>

theorem quote_output_is_greatest:
  assumes "quoteBtcVoidV1 H raw = Inr q"
  shows "\<exists>n. normalizeRequest raw = Inr n \<and>
    (\<forall>k. k \<le> jdec [''result'', ''amount_out''] q \<longleftrightarrow>
      reserveIn n * BPS_DENOMINATOR * reserveOut n \<le>
      (reserveIn n * BPS_DENOMINATOR + amountIn n * (BPS_DENOMINATOR - feeBps n)) * (reserveOut n - k))"
proof -
  from assms obtain n r where n: "normalizeRequest raw = Inr n" "wf_quote n" "quoteNumbers n = Inr r"
    "q = JObj (quote_body n r @ [(''indicative_quote_id'', JStr (''sha256:'' @ H (canonicalJson (JObj (quote_body n r)))))])"
    by (rule quoteBtcVoidV1_Inr)
  note p = quoteNumbers_pos [OF n(2,3)] and i = quoteNumbers_Inr [OF n(3)] and wf = wf_quote_reserves [OF n(2)]
  have "jdec [''result'', ''amount_out''] q = curve_out (reserveIn n) (reserveOut n) (amountIn n) (BPS_DENOMINATOR - feeBps n)"
    using quote_fields(2) [OF n(4)] p i(1) wf(3) by simp
  moreover have "\<forall>k. k \<le> curve_out (reserveIn n) (reserveOut n) (amountIn n) (BPS_DENOMINATOR - feeBps n) \<longleftrightarrow>
      reserveIn n * BPS_DENOMINATOR * reserveOut n \<le>
      (reserveIn n * BPS_DENOMINATOR + amountIn n * (BPS_DENOMINATOR - feeBps n)) * (reserveOut n - k)"
    using wf curve_out_greatest [of "reserveIn n" "amountIn n" "BPS_DENOMINATOR - feeBps n"]
    by (simp add: BPS_DENOMINATOR_def)
  ultimately show ?thesis using n(1) by auto
qed

theorem quote_output_is_greatest_witness:
  "\<exists>n. normalizeRequest ex_request = Inr n \<and>
    (\<forall>k. k \<le> jdec [''result'', ''amount_out''] ex_quote \<longleftrightarrow>
      reserveIn n * BPS_DENOMINATOR * reserveOut n \<le>
      (reserveIn n * BPS_DENOMINATOR + amountIn n * (BPS_DENOMINATOR - feeBps n)) * (reserveOut n - k))"
  using quote_output_is_greatest [OF ex_quote_ok] .

text \<open>
  The guard that refuses a quote because the constant product decreased is dead code: no
  request, well formed or not, is refused with that error.
\<close>

theorem quote_product_guard_unreachable:
  "quoteBtcVoidV1 H raw \<noteq> Inl ''constant-product invariant decreased''"
proof -
  have "errp (\<lambda>e. e \<noteq> ''constant-product invariant decreased'') (normalizeRequest raw)"
    unfolding normalizeRequest_def by (intro js_err) simp_all
  then show ?thesis
    using quoteNumbers_no_product_error normalizeRequest_wf
    by (auto simp: quoteBtcVoidV1_def bnd_eq_Inl Let_def errp_def)
qed

end
