(* ===== verification/Trade_Funded_Fees.thy ===== *)
theory Trade_Funded_Fees
  imports Btc_Void_Quote
begin

text \<open>
  The fee envelope around a BTC/VOID trade, \<^verbatim>\<open>tools/void-btc-void-trade-funded-fees-v1.mjs\<close>: the
  worst case of the Bitcoin network fees and of the VoidToken charge is taken out of the trade
  itself, the curve prices the rest (through \<^verbatim>\<open>quoteBtcVoidV1\<close>), and the trade is refused unless
  both envelopes, the fee-fraction caps, the dust floors and the minimum outputs fit. The file's
  own copies of \<^verbatim>\<open>plainObject\<close>, \<^verbatim>\<open>exactKeys\<close> and \<^verbatim>\<open>atomic\<close> are those of the quote tool.
\<close>

section \<open>Request validation\<close>

definition BTC_VOID_PROTOCOL_FEE_BPS_V1 :: int where
  "BTC_VOID_PROTOCOL_FEE_BPS_V1 = 50"

definition boundedBps :: "jsv \<Rightarrow> string \<Rightarrow> int res" where
  "boundedBps v label =
     (if \<not> isSafeInteger v \<or> num_of v < 0 \<or> num_of v > 5000
      then Inl (label @ '' is outside the v1 basis-point range'')
      else Inr (num_of v))"

record fee_request =
  fr_direction :: string
  grossAmountIn :: int
  fr_btc_sats :: int
  fr_void_atomic :: int
  fr_max_input_fraction :: jsv
  fr_minimum_btc :: int
  fr_minimum_void :: int
  funding_sats :: int
  claim_sats :: int
  refund_sats :: int
  minimum_terminal_output_sats :: int
  lock_void_atomic :: int
  claim_void_atomic :: int
  refund_void_atomic :: int
  minimum_net_btc_output_sats :: int
  minimum_net_void_output_atomic :: int
  max_btc_fee_fraction_bps :: int
  max_void_fee_fraction_bps :: int

definition FEE_REQUEST_SCHEMA :: string where
  "FEE_REQUEST_SCHEMA = ''void.btc_void.trade_funded_fee_request.v1''"

definition normalizeFees :: "jsv \<Rightarrow> fee_request res" where
  "normalizeFees raw =
     bnd (exactKeys raw [''schema'', ''direction'', ''gross_amount_in'', ''reserves'', ''market_policy'',
            ''fee_budget'', ''execution_policy''] ''trade-funded fee request'') (\<lambda>request.
     if jget ''schema'' request \<noteq> JStr FEE_REQUEST_SCHEMA
     then Inl ''trade-funded fee request schema mismatch''
     else if jget ''direction'' request \<notin> {JStr ''btc_to_void'', JStr ''void_to_btc''}
     then Inl ''trade-funded fee direction unsupported''
     else
     bnd (exactKeys (jget ''reserves'' request) [''btc_sats'', ''void_atomic''] ''reserves'') (\<lambda>reserves.
     bnd (exactKeys (jget ''market_policy'' request)
            [''fee_bps'', ''max_input_reserve_fraction_bps'', ''minimum_btc_reserve_sats'',
             ''minimum_void_reserve_atomic''] ''market_policy'') (\<lambda>market.
     if jget ''fee_bps'' market \<noteq> JNum BTC_VOID_PROTOCOL_FEE_BPS_V1
     then Inl ''official BTC/VOID protocol fee must equal 50 bps''
     else
     bnd (exactKeys (jget ''fee_budget'' request) [''bitcoin'', ''chain2050''] ''fee_budget'') (\<lambda>budget.
     bnd (exactKeys (jget ''bitcoin'' budget)
            [''funding_sats'', ''claim_sats'', ''refund_sats'', ''minimum_terminal_output_sats'']
            ''fee_budget.bitcoin'') (\<lambda>bitcoin.
     bnd (exactKeys (jget ''chain2050'' budget)
            [''lock_void_atomic'', ''claim_void_atomic'', ''refund_void_atomic'']
            ''fee_budget.chain2050'') (\<lambda>chain2050.
     bnd (exactKeys (jget ''execution_policy'' request)
            [''minimum_net_btc_output_sats'', ''minimum_net_void_output_atomic'',
             ''max_btc_fee_fraction_bps'', ''max_void_fee_fraction_bps''] ''execution_policy'') (\<lambda>execution.
     bnd (atomic (jget ''gross_amount_in'' request) ''gross_amount_in'' False) (\<lambda>gross.
     bnd (atomic (jget ''btc_sats'' reserves) ''reserves.btc_sats'' False) (\<lambda>btc.
     bnd (atomic (jget ''void_atomic'' reserves) ''reserves.void_atomic'' False) (\<lambda>void.
     bnd (atomic (jget ''minimum_btc_reserve_sats'' market) ''market_policy.minimum_btc_reserve_sats'' True) (\<lambda>minBtc.
     bnd (atomic (jget ''minimum_void_reserve_atomic'' market) ''market_policy.minimum_void_reserve_atomic'' True) (\<lambda>minVoid.
     bnd (atomic (jget ''funding_sats'' bitcoin) ''fee_budget.bitcoin.funding_sats'' True) (\<lambda>funding.
     bnd (atomic (jget ''claim_sats'' bitcoin) ''fee_budget.bitcoin.claim_sats'' True) (\<lambda>claim.
     bnd (atomic (jget ''refund_sats'' bitcoin) ''fee_budget.bitcoin.refund_sats'' True) (\<lambda>refund.
     bnd (atomic (jget ''minimum_terminal_output_sats'' bitcoin) ''fee_budget.bitcoin.minimum_terminal_output_sats'' True) (\<lambda>minTerm.
     bnd (atomic (jget ''lock_void_atomic'' chain2050) ''fee_budget.chain2050.lock_void_atomic'' True) (\<lambda>lockV.
     bnd (atomic (jget ''claim_void_atomic'' chain2050) ''fee_budget.chain2050.claim_void_atomic'' True) (\<lambda>claimV.
     bnd (atomic (jget ''refund_void_atomic'' chain2050) ''fee_budget.chain2050.refund_void_atomic'' True) (\<lambda>refundV.
     bnd (atomic (jget ''minimum_net_btc_output_sats'' execution) ''execution_policy.minimum_net_btc_output_sats'' True) (\<lambda>netBtc.
     bnd (atomic (jget ''minimum_net_void_output_atomic'' execution) ''execution_policy.minimum_net_void_output_atomic'' True) (\<lambda>netVoid.
     bnd (boundedBps (jget ''max_btc_fee_fraction_bps'' execution) ''execution_policy.max_btc_fee_fraction_bps'') (\<lambda>fracBtc.
     bnd (boundedBps (jget ''max_void_fee_fraction_bps'' execution) ''execution_policy.max_void_fee_fraction_bps'') (\<lambda>fracVoid.
     Inr \<lparr> fr_direction = str_of (jget ''direction'' request), grossAmountIn = gross,
            fr_btc_sats = btc, fr_void_atomic = void,
            fr_max_input_fraction = jget ''max_input_reserve_fraction_bps'' market,
            fr_minimum_btc = minBtc, fr_minimum_void = minVoid,
            funding_sats = funding, claim_sats = claim, refund_sats = refund,
            minimum_terminal_output_sats = minTerm,
            lock_void_atomic = lockV, claim_void_atomic = claimV, refund_void_atomic = refundV,
            minimum_net_btc_output_sats = netBtc, minimum_net_void_output_atomic = netVoid,
            max_btc_fee_fraction_bps = fracBtc, max_void_fee_fraction_bps = fracVoid \<rparr>)))))))))))))))))))))))"

text \<open>The normalised request as the fee quote carries it.\<close>

definition reserves_json :: "fee_request \<Rightarrow> jsv" where
  "reserves_json f = JObj [
     (''btc_sats'', JStr (dec_str (fr_btc_sats f))),
     (''void_atomic'', JStr (dec_str (fr_void_atomic f)))]"

definition market_policy_json :: "fee_request \<Rightarrow> jsv" where
  "market_policy_json f = JObj [
     (''fee_bps'', JNum BTC_VOID_PROTOCOL_FEE_BPS_V1),
     (''max_input_reserve_fraction_bps'', fr_max_input_fraction f),
     (''minimum_btc_reserve_sats'', JStr (dec_str (fr_minimum_btc f))),
     (''minimum_void_reserve_atomic'', JStr (dec_str (fr_minimum_void f)))]"

definition fee_request_json :: "fee_request \<Rightarrow> jsv" where
  "fee_request_json f = JObj [
     (''schema'', JStr FEE_REQUEST_SCHEMA),
     (''direction'', JStr (fr_direction f)),
     (''gross_amount_in'', JStr (dec_str (grossAmountIn f))),
     (''reserves'', reserves_json f),
     (''market_policy'', market_policy_json f),
     (''fee_budget'', JObj [
       (''bitcoin'', JObj [
         (''funding_sats'', JStr (dec_str (funding_sats f))),
         (''claim_sats'', JStr (dec_str (claim_sats f))),
         (''refund_sats'', JStr (dec_str (refund_sats f))),
         (''minimum_terminal_output_sats'', JStr (dec_str (minimum_terminal_output_sats f)))]),
       (''chain2050'', JObj [
         (''lock_void_atomic'', JStr (dec_str (lock_void_atomic f))),
         (''claim_void_atomic'', JStr (dec_str (claim_void_atomic f))),
         (''refund_void_atomic'', JStr (dec_str (refund_void_atomic f)))])]),
     (''execution_policy'', JObj [
       (''minimum_net_btc_output_sats'', JStr (dec_str (minimum_net_btc_output_sats f))),
       (''minimum_net_void_output_atomic'', JStr (dec_str (minimum_net_void_output_atomic f))),
       (''max_btc_fee_fraction_bps'', JNum (max_btc_fee_fraction_bps f)),
       (''max_void_fee_fraction_bps'', JNum (max_void_fee_fraction_bps f))])]"

section \<open>Fees\<close>

record fee_summary =
  btcFunding :: int
  btcClaim :: int
  btcRefund :: int
  btcTerminal :: int
  btcWorstCase :: int
  voidLock :: int
  voidClaim :: int
  voidRefund :: int
  voidTerminal :: int
  voidWorstCase :: int

definition feeSummary :: "fee_request \<Rightarrow> fee_summary" where
  "feeSummary f =
     (let bt = max (claim_sats f) (refund_sats f);
          vt = max (claim_void_atomic f) (refund_void_atomic f)
      in \<lparr> btcFunding = funding_sats f, btcClaim = claim_sats f, btcRefund = refund_sats f,
           btcTerminal = bt, btcWorstCase = funding_sats f + bt,
           voidLock = lock_void_atomic f, voidClaim = claim_void_atomic f,
           voidRefund = refund_void_atomic f, voidTerminal = vt,
           voidWorstCase = lock_void_atomic f + vt \<rparr>)"

definition enforceFeeFraction :: "int \<Rightarrow> int \<Rightarrow> int \<Rightarrow> string \<Rightarrow> unit res" where
  "enforceFeeFraction fee gross maxBps label =
     (if fee = 0 then Inr ()
      else if fee * BPS_DENOMINATOR > gross * maxBps
      then Inl (label @ '' exceeds configured fee-fraction cap'')
      else Inr ())"

record protocol_fee =
  pf_exactNumerator :: int
  pf_wholeAtomicFloor :: int
  pf_fractionalRemainder :: int

definition protocolFeeSummary :: "int \<Rightarrow> protocol_fee res" where
  "protocolFeeSummary curveInput =
     (let num = curveInput * BTC_VOID_PROTOCOL_FEE_BPS_V1;
          whole = num div BPS_DENOMINATOR;
          rest = num mod BPS_DENOMINATOR
      in if whole = 0
         then Inl ''protocol fee would retain less than one whole input atomic unit''
         else Inr \<lparr> pf_exactNumerator = num, pf_wholeAtomicFloor = whole, pf_fractionalRemainder = rest \<rparr>)"

definition net_quote_request :: "fee_request \<Rightarrow> int \<Rightarrow> jsv" where
  "net_quote_request f amount = JObj [
     (''schema'', JStr ''void.btc_void.indicative_quote_request.v1''),
     (''direction'', JStr (fr_direction f)),
     (''amount_in'', JStr (dec_str amount)),
     (''reserves'', reserves_json f),
     (''policy'', market_policy_json f)]"

definition quoteWithNetInput :: "(string \<Rightarrow> string) \<Rightarrow> fee_request \<Rightarrow> int \<Rightarrow> jsv res" where
  "quoteWithNetInput H f amount = quoteBtcVoidV1 H (net_quote_request f amount)"

record fee_numbers =
  curveInput :: int
  protocolFee :: protocol_fee
  curveQuote :: jsv
  curveOutput :: int
  netOutput :: int

abbreviation btcToVoid :: "fee_request \<Rightarrow> bool" where
  "btcToVoid f \<equiv> fr_direction f = ''btc_to_void''"

text \<open>The input leg: what is left of the gross input for the curve.\<close>

definition feeCurveInput :: "fee_request \<Rightarrow> int res" where
  "feeCurveInput f =
     (let fees = feeSummary f in
      if btcToVoid f
      then if grossAmountIn f \<le> btcWorstCase fees
        then Inl ''BTC input cannot cover its complete network-fee envelope''
        else bnd (enforceFeeFraction (btcWorstCase fees) (grossAmountIn f)
                    (max_btc_fee_fraction_bps f) ''BTC fee envelope'') (\<lambda>_.
          let left = grossAmountIn f - btcWorstCase fees in
          if left < minimum_terminal_output_sats f
          then Inl ''BTC source terminal amount would fall below the configured dust/minimum floor''
          else Inr left)
      else if grossAmountIn f \<le> voidWorstCase fees
        then Inl ''VoidToken input cannot cover its bounded economic-charge envelope''
        else bnd (enforceFeeFraction (voidWorstCase fees) (grossAmountIn f)
                    (max_void_fee_fraction_bps f) ''VoidToken economic charge envelope'') (\<lambda>_.
          Inr (grossAmountIn f - voidWorstCase fees)))"

text \<open>The output leg: what is left of the curve's output for the user.\<close>

definition feeNetOutput :: "fee_request \<Rightarrow> int \<Rightarrow> int res" where
  "feeNetOutput f out =
     (let fees = feeSummary f in
      if btcToVoid f
      then if out \<le> voidWorstCase fees
        then Inl ''quoted VoidToken output cannot cover its bounded economic-charge envelope''
        else bnd (enforceFeeFraction (voidWorstCase fees) out
                    (max_void_fee_fraction_bps f) ''VoidToken economic charge envelope'') (\<lambda>_.
          let net = out - voidWorstCase fees in
          if net < minimum_net_void_output_atomic f
          then Inl ''net VOID output is below the configured minimum''
          else Inr net)
      else if out \<le> btcWorstCase fees
        then Inl ''quoted BTC output cannot cover its complete network-fee envelope''
        else bnd (enforceFeeFraction (btcWorstCase fees) out
                    (max_btc_fee_fraction_bps f) ''BTC fee envelope'') (\<lambda>_.
          let net = out - btcWorstCase fees in
          if net < minimum_net_btc_output_sats f
          then Inl ''net BTC output is below the configured minimum''
          else if out - btcFunding fees - btcTerminal fees < minimum_terminal_output_sats f
          then Inl ''BTC terminal output would fall below the configured dust/minimum floor''
          else Inr net))"

definition feeNumbers :: "(string \<Rightarrow> string) \<Rightarrow> fee_request \<Rightarrow> fee_numbers res" where
  "feeNumbers H f =
     bnd (feeCurveInput f) (\<lambda>amount.
     bnd (protocolFeeSummary amount) (\<lambda>fee.
     bnd (quoteWithNetInput H f amount) (\<lambda>quote.
     let out = dec_val (str_of (jpath [''result'', ''amount_out''] quote)) in
     bnd (feeNetOutput f out) (\<lambda>net.
     Inr \<lparr> curveInput = amount, protocolFee = fee, curveQuote = quote, curveOutput = out,
            netOutput = net \<rparr>))))"

section \<open>The fee quote object\<close>

definition FEE_AUTHORITY :: jsv where
  "FEE_AUTHORITY = JObj [
     (''source_only_policy'', JBool True),
     (''trade_pays_bitcoin_fees_from_btc_leg'', JBool True),
     (''voidtoken_economic_charge_bound_from_void_leg'', JBool True),
     (''trade_pays_chain2050_native_gas_from_voidtoken_leg'', JBool False),
     (''chain2050_native_gas_separate_from_voidtoken'', JBool True),
     (''chain2050_native_gas_model_ready'', JBool False),
     (''chain2050_native_gas_replenishment_or_user_paid_required'', JBool True),
     (''standing_bitcoin_fee_reserve_required'', JBool False),
     (''per_swap_fee_envelope_required'', JBool True),
     (''success_and_refund_fee_budget_required'', JBool True),
     (''fee_budget_bound_before_executable_quote'', JBool True),
     (''no_unfunded_bitcoin_fee_liability'', JBool True),
     (''no_unfunded_chain2050_native_gas_liability'', JBool False),
     (''wallet_or_signer_access'', JBool False),
     (''bitcoin_rpc_call'', JBool False),
     (''chain2050_rpc_call'', JBool False),
     (''transaction_construction'', JBool False),
     (''transaction_signing'', JBool False),
     (''transaction_broadcast'', JBool False),
     (''inventory_reservation'', JBool False),
     (''funds_movement'', JBool False),
     (''market_activation'', JBool False)]"

definition launch_fee_topology_gate :: jsv where
  "launch_fee_topology_gate = JObj [
     (''protocol_fee_is_curve_accounting_not_a_transaction'', JBool True),
     (''predeployed_chain2050_settlement_contract_required'', JBool True),
     (''per_swap_chain2050_contract_deployment_forbidden'', JBool True),
     (''terminal_executor_native_gas_allowance_required_before_attempt'', JBool True),
     (''terminal_executor_native_gas_allowance_proven'', JBool False),
     (''failed_terminal_attempt_must_not_draw_unreserved_shared_gas'', JBool True),
     (''failed_terminal_attempt_native_gas_isolation_proven'', JBool False),
     (''maximum_terminal_broadcast_attempts'', JNum 1),
     (''automatic_terminal_retry_forbidden'', JBool True),
     (''unbudgeted_bitcoin_rbf_or_cpfp_transaction_forbidden'', JBool True),
     (''live_contract_gas_census_required_before_activation'', JBool True),
     (''bitcoin_fee_budget_must_bind_exact_vbytes_and_max_sat_per_vbyte'', JBool True),
     (''chain2050_native_gas_budget_must_bind_measured_gas_and_max_fee_per_gas'', JBool True),
     (''chain2050_native_gas_budget_bound_in_wei'', JBool False),
     (''voidtoken_protocol_fee_does_not_replenish_native_gas'', JBool True),
     (''native_gas_replenishment_or_user_paid_model_required'', JBool True),
     (''native_gas_micro_trade_grief_protection_required'', JBool True),
     (''native_gas_micro_trade_grief_protection_proven'', JBool False),
     (''executable_reservation_ttl_required'', JBool True),
     (''per_identity_outstanding_reservation_cap_required'', JBool True),
     (''global_outstanding_reservation_cap_required'', JBool True),
     (''expired_reservation_has_no_settlement_authority'', JBool True),
     (''late_funding_after_reservation_expiry_requires_reconciliation'', JBool True),
     (''executable_reservation_hoarding_protection_proven'', JBool False),
     (''zero_protocol_btc_seed_requires_opening_discovery'', JBool True),
     (''opening_reserve_snapshot_must_derive_from_verified_discovery'', JBool True),
     (''opening_quote_reserve_provenance_required'', JBool True),
     (''opening_concentration_and_sybil_protection_required'', JBool True),
     (''opening_minimum_real_btc_depth_policy_required'', JBool True),
     (''opening_price_discovery_authority_proven'', JBool False),
     (''protocol_fee_and_buyback_spread_are_distinct'', JBool True),
     (''combined_protocol_fee_and_buyback_spread_policy_review_required'', JBool True),
     (''combined_protocol_fee_and_buyback_spread_policy_reviewed'', JBool False),
     (''complete_public_fee_component_disclosure_required'', JBool True),
     (''complete_public_fee_component_disclosure_proven'', JBool False),
     (''net_user_output_and_quote_expiry_disclosure_required'', JBool True),
     (''explicit_minimum_if_used_must_be_public_and_policy_bound'', JBool True),
     (''batching_or_user_paid_gas_may_satisfy_grief_gate'', JBool True),
     (''caller_authored_unverified_fee_budget_forbidden'', JBool True),
     (''fee_observation_must_be_fresh_and_quote_bound'', JBool True),
     (''stale_fee_quote_must_fail_before_funding'', JBool True),
     (''runtime_fee_topology_proven'', JBool False),
     (''market_activation_ready'', JBool False)]"

definition executable_invariants :: jsv where
  "executable_invariants = JObj [
     (''trade_pays_all_bitcoin_network_fees'', JBool True),
     (''trade_pays_all_chain2050_native_gas'', JBool False),
     (''voidtoken_economic_charge_bound'', JBool True),
     (''success_path_native_gas_fully_budgeted'', JBool False),
     (''refund_path_native_gas_fully_budgeted'', JBool False),
     (''no_standing_bitcoin_fee_reserve_dependency'', JBool True),
     (''chain2050_native_gas_liability_unresolved'', JBool True),
     (''no_trade_creates_unfunded_bitcoin_fee_liability'', JBool True),
     (''no_trade_creates_unfunded_chain2050_native_gas_liability'', JBool False),
     (''fixed_protocol_fee_required'', JBool True),
     (''protocol_fee_retained_in_market_reserve'', JBool True),
     (''protocol_fee_cannot_sponsor_other_trades'', JBool True),
     (''protocol_fee_cannot_auto_sweep_to_treasury'', JBool True),
     (''bitcoin_fee_budget_bound_before_inventory_reservation'', JBool True),
     (''chain2050_native_gas_budget_bound_before_inventory_reservation'', JBool False),
     (''quote_not_executable_until_native_gas_model_ready'', JBool True),
     (''quote_not_executable_until_micro_trade_grief_protection_ready'', JBool True),
     (''quote_not_executable_until_reservation_hoarding_protection_ready'', JBool True),
     (''quote_not_executable_until_opening_price_discovery_ready'', JBool True),
     (''quote_not_executable_until_combined_fee_policy_reviewed'', JBool True),
     (''quote_not_executable_until_fee_disclosure_ready'', JBool True),
     (''executable_quote_must_fail_if_fee_budget_does_not_fit'', JBool True)]"

definition fee_envelope_json :: "fee_summary \<Rightarrow> jsv" where
  "fee_envelope_json fees = JObj [
     (''bitcoin'', JObj [
       (''funding_sats'', JStr (dec_str (btcFunding fees))),
       (''claim_sats'', JStr (dec_str (btcClaim fees))),
       (''refund_sats'', JStr (dec_str (btcRefund fees))),
       (''terminal_route_budget_sats'', JStr (dec_str (btcTerminal fees))),
       (''complete_worst_case_budget_sats'', JStr (dec_str (btcWorstCase fees))),
       (''funding_fee_paid_from_btc_leg'', JBool True),
       (''claim_or_refund_fee_paid_from_btc_leg'', JBool True),
       (''standing_market_fee_reserve_required'', JBool False),
       (''funding_budget_must_cover_complete_transaction_shape'', JBool True),
       (''claim_budget_must_cover_complete_transaction_shape'', JBool True),
       (''refund_budget_must_cover_complete_transaction_shape'', JBool True),
       (''unbudgeted_rbf_or_cpfp_fee_bump_forbidden'', JBool True)]),
     (''chain2050'', JObj [
       (''lock_void_atomic'', JStr (dec_str (voidLock fees))),
       (''claim_void_atomic'', JStr (dec_str (voidClaim fees))),
       (''refund_void_atomic'', JStr (dec_str (voidRefund fees))),
       (''terminal_route_budget_void_atomic'', JStr (dec_str (voidTerminal fees))),
       (''complete_worst_case_budget_void_atomic'', JStr (dec_str (voidWorstCase fees))),
       (''amounts_are_voidtoken_economic_charge_not_native_gas'', JBool True),
       (''lock_native_gas_paid_from_voidtoken_leg'', JBool False),
       (''claim_or_refund_native_gas_paid_from_voidtoken_leg'', JBool False),
       (''native_gas_budget_wei_bound'', JBool False),
       (''native_gas_replenishment_proven'', JBool False),
       (''lock_voidtoken_charge_policy_bound'', JBool True),
       (''claim_voidtoken_charge_policy_bound'', JBool True),
       (''refund_voidtoken_charge_policy_bound'', JBool True),
       (''per_swap_contract_deployment_forbidden'', JBool True),
       (''separate_post_terminal_reimbursement_transaction_forbidden'', JBool True)])]"

definition fee_quote_body :: "fee_request \<Rightarrow> fee_numbers \<Rightarrow> (string \<times> jsv) list" where
  "fee_quote_body f r = [
     (''schema'', JStr ''void.btc_void.trade_funded_fee_quote.v1''),
     (''marker'', JStr ''VOID_BTC_VOID_TRADE_FUNDED_FEES_V1''),
     (''request'', fee_request_json f),
     (''pricing'', JObj [
       (''gross_input_amount'', JStr (dec_str (grossAmountIn f))),
       (''curve_priced_input_amount'', JStr (dec_str (curveInput r))),
       (''curve_gross_output_amount'', JStr (dec_str (curveOutput r))),
       (''net_user_output_amount'', JStr (dec_str (netOutput r))),
       (''curve_indicative_quote_id'', jget ''indicative_quote_id'' (curveQuote r)),
       (''curve_input_asset'', jpath [''result'', ''input_asset''] (curveQuote r)),
       (''curve_output_asset'', jpath [''result'', ''output_asset''] (curveQuote r))]),
     (''protocol_fee'', JObj [
       (''policy'', JStr ''VOID_BTC_VOID_PROTOCOL_FEE_V1''),
       (''bps'', JNum BTC_VOID_PROTOCOL_FEE_BPS_V1),
       (''rate_percent'', JStr ''0.50''),
       (''charged_after_bitcoin_fee_and_voidtoken_economic_charge'', JBool True),
       (''input_asset'', JStr (asset_name (btcToVoid f))),
       (''curve_input_amount'', JStr (dec_str (curveInput r))),
       (''nominal_fee_input_atomic_floor'', JStr (dec_str (pf_wholeAtomicFloor (protocolFee r)))),
       (''nominal_fee_fraction_numerator'', JStr (dec_str (pf_exactNumerator (protocolFee r)))),
       (''nominal_fee_fraction_denominator'', JStr (dec_str BPS_DENOMINATOR)),
       (''nominal_fee_fraction_remainder'', JStr (dec_str (pf_fractionalRemainder (protocolFee r)))),
       (''retained_in_input_side_market_reserve'', JBool True),
       (''automatic_treasury_sweep'', JBool False),
       (''available_for_network_fee_sponsorship'', JBool False),
       (''separate_onchain_payment_transaction_required'', JBool False)]),
     (''fee_envelope'', fee_envelope_json (feeSummary f)),
     (''launch_fee_topology_gate'', launch_fee_topology_gate),
     (''executable_invariants'', executable_invariants),
     (''authority'', FEE_AUTHORITY)]"

definition deriveBtcVoidTradeFundedFeesV1 :: "(string \<Rightarrow> string) \<Rightarrow> jsv \<Rightarrow> jsv res" where
  "deriveBtcVoidTradeFundedFeesV1 H raw =
     bnd (normalizeFees raw) (\<lambda>f.
     bnd (feeNumbers H f) (\<lambda>r.
     let result = fee_quote_body f r in
     Inr (JObj (result @
       [(''trade_funded_fee_quote_id'', JStr (''voidbtcvfq1_'' @ H (canonicalJson (JObj result))))]))))"

section \<open>Normalised fee requests\<close>

definition wf_fees :: "fee_request \<Rightarrow> bool" where
  "wf_fees f \<longleftrightarrow>
     fr_direction f \<in> {''btc_to_void'', ''void_to_btc''} \<and> 0 < grossAmountIn f \<and>
     0 < fr_btc_sats f \<and> 0 < fr_void_atomic f \<and>
     0 \<le> funding_sats f \<and> 0 \<le> claim_sats f \<and> 0 \<le> refund_sats f \<and>
     0 \<le> lock_void_atomic f \<and> 0 \<le> claim_void_atomic f \<and> 0 \<le> refund_void_atomic f \<and>
     0 \<le> max_btc_fee_fraction_bps f \<and> max_btc_fee_fraction_bps f \<le> 5000 \<and>
     0 \<le> max_void_fee_fraction_bps f \<and> max_void_fee_fraction_bps f \<le> 5000"

lemma post_boundedBps [js_wp]:
  "(\<And>k. v = JNum k \<Longrightarrow> 0 \<le> k \<Longrightarrow> k \<le> 5000 \<Longrightarrow> post P (f k)) \<Longrightarrow> post P (bnd (boundedBps v l) f)"
  by (rule post_bnd) (cases v; auto simp: boundedBps_def split: if_splits)

lemma normalizeFees_post: "post wf_fees (normalizeFees raw)"
  unfolding normalizeFees_def wf_fees_def by (intro js_wp) (simp; fastforce)

lemmas normalizeFees_wf = normalizeFees_post [THEN postD]

lemma enforceFeeFraction_Inr:
  "enforceFeeFraction fee gross m l = Inr u \<Longrightarrow> 0 \<le> gross \<Longrightarrow> 0 \<le> m \<Longrightarrow> fee * BPS_DENOMINATOR \<le> gross * m"
  by (auto simp: enforceFeeFraction_def split: if_splits)


lemma worst_case_nonneg:
  "wf_fees f \<Longrightarrow> 0 \<le> btcWorstCase (feeSummary f) \<and> 0 \<le> voidWorstCase (feeSummary f)"
  by (auto simp: wf_fees_def feeSummary_def Let_def)

definition inputCharge :: "fee_request \<Rightarrow> int" where
  "inputCharge f = (if btcToVoid f then btcWorstCase (feeSummary f) else voidWorstCase (feeSummary f))"

definition outputCharge :: "fee_request \<Rightarrow> int" where
  "outputCharge f = (if btcToVoid f then voidWorstCase (feeSummary f) else btcWorstCase (feeSummary f))"

definition inputCap :: "fee_request \<Rightarrow> int" where
  "inputCap f = (if btcToVoid f then max_btc_fee_fraction_bps f else max_void_fee_fraction_bps f)"

definition outputCap :: "fee_request \<Rightarrow> int" where
  "outputCap f = (if btcToVoid f then max_void_fee_fraction_bps f else max_btc_fee_fraction_bps f)"

lemma feeCurveInput_Inr:
  assumes "feeCurveInput f = Inr a" "wf_fees f"
  shows "a = grossAmountIn f - inputCharge f" "0 < a"
    "inputCharge f * BPS_DENOMINATOR \<le> grossAmountIn f * inputCap f"
    "btcToVoid f \<Longrightarrow> minimum_terminal_output_sats f \<le> a"
  using assms
  by (auto simp: feeCurveInput_def Let_def js_simps inputCharge_def inputCap_def wf_fees_def
      split: if_splits dest!: enforceFeeFraction_Inr)

lemma feeNetOutput_Inr:
  assumes "feeNetOutput f out = Inr net" "wf_fees f" "0 \<le> out"
  shows "net = out - outputCharge f" "0 < net"
    "outputCharge f * BPS_DENOMINATOR \<le> out * outputCap f"
    "(if btcToVoid f then minimum_net_void_output_atomic f else minimum_net_btc_output_sats f) \<le> net"
    "\<not> btcToVoid f \<Longrightarrow> minimum_terminal_output_sats f \<le> net"
  using assms
  by (auto simp: feeNetOutput_def Let_def js_simps outputCharge_def outputCap_def wf_fees_def feeSummary_def
      split: if_splits dest!: enforceFeeFraction_Inr)

lemma feeNumbers_Inr:
  assumes "feeNumbers H f = Inr r"
  shows "feeCurveInput f = Inr (curveInput r)"
    "protocolFeeSummary (curveInput r) = Inr (protocolFee r)"
    "quoteBtcVoidV1 H (net_quote_request f (curveInput r)) = Inr (curveQuote r)"
    "curveOutput r = jdec [''result'', ''amount_out''] (curveQuote r)"
    "feeNetOutput f (curveOutput r) = Inr (netOutput r)"
  using assms unfolding feeNumbers_def Let_def bnd_eq_Inr sum.inject quoteWithNetInput_def
  by (auto simp: jdec_def)

lemma deriveFees_Inr:
  assumes "deriveBtcVoidTradeFundedFeesV1 H raw = Inr q"
  obtains f r where "normalizeFees raw = Inr f" "wf_fees f" "feeNumbers H f = Inr r"
    "q = JObj (fee_quote_body f r @ [(''trade_funded_fee_quote_id'', JStr (''voidbtcvfq1_'' @ H (canonicalJson (JObj (fee_quote_body f r)))))])"
  using assms normalizeFees_wf unfolding deriveBtcVoidTradeFundedFeesV1_def bnd_eq_Inr Let_def sum.inject by blast

lemma fee_quote_fields:
  assumes "q = JObj (fee_quote_body f r @ xs)"
    and "0 \<le> grossAmountIn f" "0 \<le> curveInput r" "0 \<le> curveOutput r" "0 \<le> netOutput r"
    and "0 \<le> pf_wholeAtomicFloor (protocolFee r)" "0 \<le> pf_fractionalRemainder (protocolFee r)"
  shows "jdec [''pricing'', ''gross_input_amount''] q = grossAmountIn f"
    "jdec [''pricing'', ''curve_priced_input_amount''] q = curveInput r"
    "jdec [''pricing'', ''curve_gross_output_amount''] q = curveOutput r"
    "jdec [''pricing'', ''net_user_output_amount''] q = netOutput r"
    "jpath [''pricing'', ''curve_indicative_quote_id''] q = jget ''indicative_quote_id'' (curveQuote r)"
    "jdec [''protocol_fee'', ''nominal_fee_input_atomic_floor''] q = pf_wholeAtomicFloor (protocolFee r)"
    "jdec [''protocol_fee'', ''nominal_fee_fraction_remainder''] q = pf_fractionalRemainder (protocolFee r)"
  using assms(2-) unfolding assms(1) by (simp_all add: jdec_def fee_quote_body_def)

lemma protocolFeeSummary_Inr:
  assumes "protocolFeeSummary a = Inr p" "0 \<le> a"
  shows "1 \<le> pf_wholeAtomicFloor p" "0 \<le> pf_fractionalRemainder p" "pf_fractionalRemainder p < BPS_DENOMINATOR"
    "pf_wholeAtomicFloor p * BPS_DENOMINATOR + pf_fractionalRemainder p = a * BTC_VOID_PROTOCOL_FEE_BPS_V1"
proof -
  have whole: "pf_wholeAtomicFloor p = a * 50 div 10000" "pf_fractionalRemainder p = a * 50 mod 10000"
    "a * 50 div 10000 \<noteq> 0"
    using assms(1) by (auto simp: protocolFeeSummary_def Let_def BPS_DENOMINATOR_def
        BTC_VOID_PROTOCOL_FEE_BPS_V1_def split: if_splits)
  moreover have "0 \<le> a * 50 div 10000" using assms(2) by simp
  ultimately show "1 \<le> pf_wholeAtomicFloor p" "0 \<le> pf_fractionalRemainder p" "pf_fractionalRemainder p < BPS_DENOMINATOR"
    by (simp_all add: BPS_DENOMINATOR_def)
  show "pf_wholeAtomicFloor p * BPS_DENOMINATOR + pf_fractionalRemainder p = a * BTC_VOID_PROTOCOL_FEE_BPS_V1"
    unfolding whole(1,2) BPS_DENOMINATOR_def BTC_VOID_PROTOCOL_FEE_BPS_V1_def by (rule div_mult_mod_eq)
qed

lemma feeNumbers_facts:
  assumes "wf_fees f" "feeNumbers H f = Inr r"
  shows "0 < curveInput r" "0 < curveOutput r" "0 < netOutput r"
    "1 \<le> pf_wholeAtomicFloor (protocolFee r)" "0 \<le> pf_fractionalRemainder (protocolFee r)"
proof -
  note n = feeNumbers_Inr [OF assms(2)]
  show "0 < curveInput r" using feeCurveInput_Inr(2) [OF n(1) assms(1)] .
  from quote_output_pos [OF n(3)] show out: "0 < curveOutput r" by (simp add: n(4))
  show "0 < netOutput r" using feeNetOutput_Inr(2) [OF n(5) assms(1)] out by simp
  show "1 \<le> pf_wholeAtomicFloor (protocolFee r)" "0 \<le> pf_fractionalRemainder (protocolFee r)"
    using protocolFeeSummary_Inr(1,2) [OF n(2)] \<open>0 < curveInput r\<close> by auto
qed

section \<open>A concrete trade\<close>

definition ex_fee_request :: jsv where
  "ex_fee_request = JObj [
     (''schema'', JStr FEE_REQUEST_SCHEMA), (''direction'', JStr ''btc_to_void''),
     (''gross_amount_in'', JStr ''20000''),
     (''reserves'', JObj [(''btc_sats'', JStr ''1000000''), (''void_atomic'', JStr ''5000000000'')]),
     (''market_policy'', JObj [(''fee_bps'', JNum 50), (''max_input_reserve_fraction_bps'', JNum 2500),
        (''minimum_btc_reserve_sats'', JStr ''1000''), (''minimum_void_reserve_atomic'', JStr ''0'')]),
     (''fee_budget'', JObj [
        (''bitcoin'', JObj [(''funding_sats'', JStr ''300''), (''claim_sats'', JStr ''200''),
           (''refund_sats'', JStr ''250''), (''minimum_terminal_output_sats'', JStr ''546'')]),
        (''chain2050'', JObj [(''lock_void_atomic'', JStr ''1000''), (''claim_void_atomic'', JStr ''2000''),
           (''refund_void_atomic'', JStr ''500'')])]),
     (''execution_policy'', JObj [(''minimum_net_btc_output_sats'', JStr ''0''),
        (''minimum_net_void_output_atomic'', JStr ''1000''), (''max_btc_fee_fraction_bps'', JNum 500),
        (''max_void_fee_fraction_bps'', JNum 100)])]"

definition ex_fee_quote :: jsv where
  "ex_fee_quote = projr (deriveBtcVoidTradeFundedFeesV1 zero_digest ex_fee_request)"

lemma isl_deriveFees:
  "isl (deriveBtcVoidTradeFundedFeesV1 H raw) \<longleftrightarrow> isl (bnd (normalizeFees raw) (feeNumbers H))"
  by (auto simp: deriveBtcVoidTradeFundedFeesV1_def bnd_def Let_def split: sum.splits)

lemma ex_fee_numbers_ok: "\<not> isl (bnd (normalizeFees ex_fee_request) (feeNumbers zero_digest))"
  by code_simp

lemma ex_fee_quote_ok: "deriveBtcVoidTradeFundedFeesV1 zero_digest ex_fee_request = Inr ex_fee_quote"
  using ex_fee_numbers_ok unfolding isl_deriveFees [symmetric] ex_fee_quote_def
  by (simp add: sum.collapse(2))

section \<open>Properties\<close>



text \<open>
  C6. The price in a trade-funded quote is the price of one indicative curve quote, and is bound to
  it: the curve was asked for exactly the priced input, its output is the recorded gross output and
  its content address is the recorded quote id. The fixed protocol fee is accounted to the last
  fraction: the recorded whole units and the recorded remainder are quotient and remainder of 50 times
  the priced input by ten thousand, and at least one whole unit is retained.
\<close>

theorem trade_price_bound_to_curve:
  assumes "deriveBtcVoidTradeFundedFeesV1 H raw = Inr q"
  shows "\<exists>f curve. normalizeFees raw = Inr f \<and>
    quoteBtcVoidV1 H (net_quote_request f (jdec [''pricing'', ''curve_priced_input_amount''] q)) = Inr curve \<and>
    jdec [''pricing'', ''curve_gross_output_amount''] q = jdec [''result'', ''amount_out''] curve \<and>
    jpath [''pricing'', ''curve_indicative_quote_id''] q = jget ''indicative_quote_id'' curve \<and>
    jdec [''protocol_fee'', ''nominal_fee_input_atomic_floor''] q * BPS_DENOMINATOR
      + jdec [''protocol_fee'', ''nominal_fee_fraction_remainder''] q
      = jdec [''pricing'', ''curve_priced_input_amount''] q * BTC_VOID_PROTOCOL_FEE_BPS_V1 \<and>
    0 \<le> jdec [''protocol_fee'', ''nominal_fee_fraction_remainder''] q \<and>
    jdec [''protocol_fee'', ''nominal_fee_fraction_remainder''] q < BPS_DENOMINATOR \<and>
    1 \<le> jdec [''protocol_fee'', ''nominal_fee_input_atomic_floor''] q"
proof -
  from assms obtain f r where f: "normalizeFees raw = Inr f" "wf_fees f" "feeNumbers H f = Inr r"
    "q = JObj (fee_quote_body f r @ [(''trade_funded_fee_quote_id'', JStr (''voidbtcvfq1_'' @ H (canonicalJson (JObj (fee_quote_body f r)))))])"
    by (rule deriveFees_Inr)
  note n = feeNumbers_Inr [OF f(3)] and pos = feeNumbers_facts [OF f(2,3)]
  have "0 \<le> grossAmountIn f" using f(2) by (simp add: wf_fees_def)
  then have fld: "jdec [''pricing'', ''curve_priced_input_amount''] q = curveInput r"
    "jdec [''pricing'', ''curve_gross_output_amount''] q = curveOutput r"
    "jpath [''pricing'', ''curve_indicative_quote_id''] q = jget ''indicative_quote_id'' (curveQuote r)"
    "jdec [''protocol_fee'', ''nominal_fee_input_atomic_floor''] q = pf_wholeAtomicFloor (protocolFee r)"
    "jdec [''protocol_fee'', ''nominal_fee_fraction_remainder''] q = pf_fractionalRemainder (protocolFee r)"
    using fee_quote_fields(2,3,5-7) [OF f(4)] pos by simp_all
  show ?thesis
    unfolding fld using f(1) n(3,4) protocolFeeSummary_Inr(2-4) [OF n(2)] pos by auto
qed

theorem trade_price_bound_to_curve_witness:
  "deriveBtcVoidTradeFundedFeesV1 zero_digest ex_fee_request = Inr ex_fee_quote \<and>
   1 \<le> jdec [''protocol_fee'', ''nominal_fee_input_atomic_floor''] ex_fee_quote"
  using trade_price_bound_to_curve [OF ex_fee_quote_ok] ex_fee_quote_ok by auto

end
