(* ===== verification/Wc_Opening.thy ===== *)
theory Wc_Opening
  imports Sha256 "HOL-Library.Product_Lexorder"
begin

text \<open>
  \<^verbatim>\<open>tools/void-wc-void-coupled-opening-v1.mjs\<close>: the opening of the work-credit/VOID market.
  Participants commit work credits; each commitment is matched by one ledger debit; the opening
  tranche of VOID is divided over the commitments in proportion to the credits, by the method of
  largest remainders; the opening price is settled credits over tranche.

  The theory has the validators, the two verifiers of commitments and debits, the allocation and
  the derivation of the opening state, and proves that the allocation is exact, fair to one atom
  and monotone, that debits and commitments are in bijection, and that the price is exact and in
  lowest terms. Work credits and atoms are \<^verbatim>\<open>BigInt\<close>s, here \<open>int\<close>.
\<close>

section \<open>Constants\<close>

definition OPENING_SETTLEMENT_ADAPTER_ID :: string where
  "OPENING_SETTLEMENT_ADAPTER_ID = ''void-wc-ledger-opening-settlement-v1''"

definition OPENING_COMMITMENT_SCHEMA :: string where
  "OPENING_COMMITMENT_SCHEMA = ''void.wc-void-opening-commitment.v1''"

definition OPENING_LEDGER_DEBIT_SCHEMA :: string where
  "OPENING_LEDGER_DEBIT_SCHEMA = ''void.wc-ledger-market-debit.v1''"

definition OPENING_STATE_SCHEMA :: string where
  "OPENING_STATE_SCHEMA = ''void.wc-void-coupled-opening-state.v1''"

definition COUPLED_OPENING_AUTHORITY :: jsv where
  "COUPLED_OPENING_AUTHORITY = JObj [
     (''source_only'', JBool True),
     (''explicit_input_only'', JBool True),
     (''canonical_wc_ledger_event_shape_required'', JBool True),
     (''ledger_write'', JBool False),
     (''wc_issuance'', JBool False),
     (''wc_balance_mutation'', JBool False),
     (''wallet_or_signer_access'', JBool False),
     (''transaction_signing'', JBool False),
     (''transaction_broadcast'', JBool False),
     (''chain2050_write'', JBool False),
     (''inventory_funding'', JBool False),
     (''liquidity_movement'', JBool False),
     (''market_activation'', JBool False),
     (''public_presale_activation'', JBool False),
     (''funds_movement'', JBool False)]"

definition OPENING_POLICY :: jsv where
  "OPENING_POLICY = JObj [
     (''chain_id'', JNum 2050),
     (''pair'', JStr ''WC_VOID''),
     (''quote_asset'', JStr ''WC''),
     (''base_asset'', JStr ''VOID''),
     (''source_domain'', JStr ''void-work-credit-ledger''),
     (''quote_asset_form'', JStr ''ledger-credit''),
     (''quote_unit'', JStr ''wc''),
     (''quote_decimals'', JNum 0),
     (''protocol_void_inventory_atoms'', JStr ''10000000000000000000000000''),
     (''protocol_void_inventory_whole'', JStr ''10000000''),
     (''opening_sale_tranche_void_atoms'', JStr ''5000000000000000000000000''),
     (''opening_sale_tranche_void_whole'', JStr ''5000000''),
     (''post_opening_void_reserve_atoms'', JStr ''5000000000000000000000000''),
     (''post_opening_void_reserve_whole'', JStr ''5000000''),
     (''opening_allocation_policy'', JStr ''pro_rata_largest_remainder_v1''),
     (''protocol_wc_seed_units'', JStr ''0''),
     (''fixed_conversion'', JBool False),
     (''fixed_opening_price'', JBool False),
     (''opening_price_source'', JStr ''settled_wc_over_opening_sale_tranche''),
     (''settlement_adapter_id'', JStr OPENING_SETTLEMENT_ADAPTER_ID)]"

definition MAX_SET_SIZE :: int where
  "MAX_SET_SIZE = 1000000"

definition COMMITMENT_KEYS :: "string list" where
  "COMMITMENT_KEYS = [''schema'', ''commitment_id'', ''coupled_launch_id'', ''participant_id'',
     ''account'', ''wc_units'']"

definition DEBIT_KEYS :: "string list" where
  "DEBIT_KEYS = [''schema'', ''kind'', ''account'', ''amount'', ''delta'', ''ts_ms'', ''reason'',
     ''settlement_id'', ''commitment_id'', ''coupled_launch_id'', ''pair'', ''source_domain'',
     ''quote_asset_form'', ''quote_unit'', ''quote_decimals'', ''market_meta'']"

definition META_KEYS :: "string list" where
  "META_KEYS = [''adapter_id'', ''opening_only'', ''fixed_price'', ''protocol_wc_seed_units'']"

definition OPENING_REQUEST_KEYS :: "string list" where
  "OPENING_REQUEST_KEYS = [''coupled_launch_id'', ''commitments'', ''ledger_debits'']"

section \<open>Validators\<close>

text \<open>The snapshot that \<^verbatim>\<open>exactObject\<close> returns lists the expected keys in the given order.\<close>

definition exactObject :: "jsv \<Rightarrow> string list \<Rightarrow> string \<Rightarrow> jsv res" where
  "exactObject v keys code =
     (if \<not> is_obj v then Inl code
      else if \<not> same_keys v keys then Inl code
      else Inr (JObj (map (\<lambda>k. (k, jget k v)) keys)))"

definition exactArray :: "jsv \<Rightarrow> string \<Rightarrow> jsv list res" where
  "exactArray v code =
     (if \<not> is_arr v \<or> int (length (elems_of v)) < 1 \<or> int (length (elems_of v)) > MAX_SET_SIZE
      then Inl code else Inr (elems_of v))"

definition opening_digest :: "(string \<Rightarrow> string) \<Rightarrow> jsv \<Rightarrow> string res" where
  "opening_digest H v = bnd (canonicalJsonChecked v) (\<lambda>s. Inr (''sha256:'' @ H s))"

definition positiveWholeWc :: "jsv \<Rightarrow> string \<Rightarrow> int res" where
  "positiveWholeWc v code =
     (if \<not> is_str v \<or> \<not> is_decimal (str_of v) then Inl code
      else let amount = dec_val (str_of v) in
        if amount \<le> 0 \<or> amount > MAX_SAFE_INTEGER then Inl code else Inr amount)"

definition account_char :: "char \<Rightarrow> bool" where
  "account_char c \<longleftrightarrow> is_alnum c \<or> c \<in> set ''._:@-''"

definition canonicalAccount :: "jsv \<Rightarrow> string \<Rightarrow> string res" where
  "canonicalAccount v code =
     (if \<not> is_str v \<or> \<not> (3 \<le> slen (str_of v) \<and> slen (str_of v) \<le> 128 \<and> list_all account_char (str_of v))
      then Inl code else Inr (str_of v))"

definition canonicalSha :: "jsv \<Rightarrow> string \<Rightarrow> string res" where
  "canonicalSha v code =
     (if \<not> is_str v \<or> \<not> prefix_hex ''sha256:'' 64 (str_of v) then Inl code else Inr (str_of v))"

function gcd_loop :: "int \<Rightarrow> int \<Rightarrow> int" where
  "gcd_loop a b = (if b = 0 then a else gcd_loop b (a mod b))"
  by pat_completeness auto
termination
  by (relation "measure (\<lambda>(a, b). nat \<bar>b\<bar>)") (auto simp: abs_mod_less)

declare gcd_loop.simps [simp del]

section \<open>Commitments\<close>

record commitment =
  commitment_id :: string
  coupled_launch_id :: string
  participant_id :: string
  account :: string
  wc_units :: string

record commitment_set =
  commitment_count :: int
  commitment_set_root :: string
  total_committed_wc_units :: string
  commitments :: "commitment list"
  participant_provenance_verified :: bool
  ledger_settlement_verified :: bool

definition commitmentPayload :: "jsv \<Rightarrow> jsv" where
  "commitmentPayload v = JObj [
     (''schema'', jget ''schema'' v),
     (''coupled_launch_id'', jget ''coupled_launch_id'' v),
     (''participant_id'', jget ''participant_id'' v),
     (''account'', jget ''account'' v),
     (''wc_units'', jget ''wc_units'' v)]"

definition debitPayload :: "jsv \<Rightarrow> jsv" where
  "debitPayload v = JObj [
     (''schema'', jget ''schema'' v),
     (''kind'', jget ''kind'' v),
     (''account'', jget ''account'' v),
     (''amount'', jget ''amount'' v),
     (''delta'', jget ''delta'' v),
     (''ts_ms'', jget ''ts_ms'' v),
     (''reason'', jget ''reason'' v),
     (''commitment_id'', jget ''commitment_id'' v),
     (''coupled_launch_id'', jget ''coupled_launch_id'' v),
     (''pair'', jget ''pair'' v),
     (''source_domain'', jget ''source_domain'' v),
     (''quote_asset_form'', jget ''quote_asset_form'' v),
     (''quote_unit'', jget ''quote_unit'' v),
     (''quote_decimals'', jget ''quote_decimals'' v),
     (''market_meta'', jget ''market_meta'' v)]"

definition wcVoidOpeningCommitmentIdV1 :: "(string \<Rightarrow> string) \<Rightarrow> jsv \<Rightarrow> string res" where
  "wcVoidOpeningCommitmentIdV1 H v =
     bnd (exactObject v COMMITMENT_KEYS ''INVALID_WC_VOID_OPENING_COMMITMENT_SHAPE'') (\<lambda>commitment.
     opening_digest H (commitmentPayload commitment))"

definition wcVoidOpeningSettlementIdV1 :: "(string \<Rightarrow> string) \<Rightarrow> jsv \<Rightarrow> string res" where
  "wcVoidOpeningSettlementIdV1 H v =
     bnd (exactObject v DEBIT_KEYS ''INVALID_WC_VOID_OPENING_LEDGER_DEBIT_SHAPE'') (\<lambda>debit.
     opening_digest H (debitPayload debit))"

definition commitment_json :: "commitment \<Rightarrow> jsv" where
  "commitment_json c = JObj [
     (''commitment_id'', JStr (commitment_id c)),
     (''coupled_launch_id'', JStr (coupled_launch_id c)),
     (''participant_id'', JStr (participant_id c)),
     (''account'', JStr (account c)),
     (''wc_units'', JStr (wc_units c))]"

text \<open>
  The callback of \<^verbatim>\<open>values.map\<close> shares two sets and a total with the enclosing function: they and
  the commitments mapped so far are the state of the loop.
\<close>

record commit_loop =
  seenCommitmentIds :: "string list"
  seenParticipantIds :: "string list"
  totalWc :: int
  canonicalCommitments :: "commitment list"

definition verify_commitment :: "(string \<Rightarrow> string) \<Rightarrow> string \<Rightarrow> commit_loop \<Rightarrow> jsv \<Rightarrow> commit_loop res" where
  "verify_commitment H launch st raw =
     bnd (exactObject raw COMMITMENT_KEYS ''INVALID_WC_VOID_OPENING_COMMITMENT_SHAPE'') (\<lambda>v.
     if jget ''schema'' v \<noteq> JStr OPENING_COMMITMENT_SCHEMA
     then Inl ''INVALID_WC_VOID_OPENING_COMMITMENT_SCHEMA''
     else if jget ''coupled_launch_id'' v \<noteq> JStr launch
     then Inl ''WC_VOID_OPENING_COMMITMENT_LAUNCH_MISMATCH''
     else
     bnd (canonicalSha (jget ''commitment_id'' v) ''INVALID_WC_VOID_OPENING_COMMITMENT_ID'') (\<lambda>cid.
     bnd (canonicalSha (jget ''participant_id'' v) ''INVALID_WC_VOID_OPENING_PARTICIPANT_ID'') (\<lambda>pid.
     bnd (canonicalAccount (jget ''account'' v) ''INVALID_WC_VOID_OPENING_ACCOUNT'') (\<lambda>acct.
     bnd (positiveWholeWc (jget ''wc_units'' v) ''INVALID_WC_VOID_OPENING_WC_UNITS'') (\<lambda>wc.
     bnd (wcVoidOpeningCommitmentIdV1 H v) (\<lambda>derived.
     if derived \<noteq> cid then Inl ''WC_VOID_OPENING_COMMITMENT_DIGEST_MISMATCH''
     else if cid \<in> set (seenCommitmentIds st) then Inl ''DUPLICATE_WC_VOID_OPENING_COMMITMENT_ID''
     else if pid \<in> set (seenParticipantIds st) then Inl ''DUPLICATE_WC_VOID_OPENING_PARTICIPANT_ID''
     else Inr \<lparr> seenCommitmentIds = seenCommitmentIds st @ [cid],
                seenParticipantIds = seenParticipantIds st @ [pid],
                totalWc = totalWc st + wc,
                canonicalCommitments = canonicalCommitments st @
                  [\<lparr> commitment_id = cid, coupled_launch_id = launch, participant_id = pid,
                     account = acct, wc_units = str_of (jget ''wc_units'' v) \<rparr>] \<rparr>))))))"

definition verifyWcVoidOpeningCommitmentsV1 ::
  "(string \<Rightarrow> string) \<Rightarrow> jsv \<Rightarrow> jsv \<Rightarrow> commitment_set res" where
  "verifyWcVoidOpeningCommitmentsV1 H launchId raw =
     bnd (canonicalSha launchId ''INVALID_COUPLED_LAUNCH_ID'') (\<lambda>launch.
     bnd (exactArray raw ''INVALID_WC_VOID_OPENING_COMMITMENT_SET'') (\<lambda>values.
     bnd (foldM (verify_commitment H launch)
            \<lparr> seenCommitmentIds = [], seenParticipantIds = [], totalWc = 0,
              canonicalCommitments = [] \<rparr> values) (\<lambda>st.
     let canonical = sort_key commitment_id (canonicalCommitments st) in
     bnd (opening_digest H (JObj [
            (''schema'', JStr OPENING_COMMITMENT_SCHEMA),
            (''coupled_launch_id'', JStr launch),
            (''commitments'', JArr (map commitment_json canonical))])) (\<lambda>root.
     Inr \<lparr> commitment_count = int (length canonical),
           commitment_set_root = root,
           total_committed_wc_units = int_str (totalWc st),
           commitments = canonical,
           participant_provenance_verified = False,
           ledger_settlement_verified = False \<rparr>))))"

section \<open>Ledger settlements\<close>

record settlement =
  settlement_id :: string
  s_commitment_id :: string
  s_account :: string
  amount_wc :: string
  ts_ms :: int

record settlement_set =
  settlement_count :: int
  settlement_set_root :: string
  total_settled_wc_units :: string
  settlements :: "settlement list"

definition settlement_json :: "settlement \<Rightarrow> jsv" where
  "settlement_json s = JObj [
     (''settlement_id'', JStr (settlement_id s)),
     (''commitment_id'', JStr (s_commitment_id s)),
     (''account'', JStr (s_account s)),
     (''amount_wc'', JStr (amount_wc s)),
     (''ts_ms'', JNum (ts_ms s))]"

record debit_loop =
  seenSettlements :: "string list"
  seenCommitments :: "string list"
  totalSettledWc :: int
  canonicalSettlements :: "settlement list"

text \<open>The checks of one debit that do not depend on the debits before it.\<close>

definition debit_policy_ok :: "jsv \<Rightarrow> bool" where
  "debit_policy_ok v \<longleftrightarrow>
     jget ''kind'' v = JStr ''debit'' \<and>
     jget ''reason'' v = JStr ''wc_void_opening_settlement_v1'' \<and>
     jget ''pair'' v = jget ''pair'' OPENING_POLICY \<and>
     jget ''source_domain'' v = jget ''source_domain'' OPENING_POLICY \<and>
     jget ''quote_asset_form'' v = jget ''quote_asset_form'' OPENING_POLICY \<and>
     jget ''quote_unit'' v = jget ''quote_unit'' OPENING_POLICY \<and>
     jget ''quote_decimals'' v = jget ''quote_decimals'' OPENING_POLICY"

definition debit_meta_ok :: "jsv \<Rightarrow> bool" where
  "debit_meta_ok meta \<longleftrightarrow>
     jget ''adapter_id'' meta = JStr OPENING_SETTLEMENT_ADAPTER_ID \<and>
     jget ''opening_only'' meta = JBool True \<and>
     jget ''fixed_price'' meta = JBool False \<and>
     jget ''protocol_wc_seed_units'' meta = JStr ''0''"

definition debit_numeric_ok :: "jsv \<Rightarrow> bool" where
  "debit_numeric_ok v \<longleftrightarrow>
     isSafeInteger (jget ''amount'' v) \<and> num_of (jget ''amount'' v) > 0 \<and>
     isSafeInteger (jget ''delta'' v) \<and> num_of (jget ''delta'' v) = - num_of (jget ''amount'' v) \<and>
     isSafeInteger (jget ''ts_ms'' v) \<and> num_of (jget ''ts_ms'' v) > 0"

definition verify_debit ::
  "(string \<Rightarrow> string) \<Rightarrow> string \<Rightarrow> (string \<times> commitment) list \<Rightarrow> debit_loop \<Rightarrow> jsv \<Rightarrow> debit_loop res" where
  "verify_debit H launch commitmentsById st raw =
     bnd (exactObject raw DEBIT_KEYS ''INVALID_WC_VOID_OPENING_LEDGER_DEBIT_SHAPE'') (\<lambda>v.
     bnd (exactObject (jget ''market_meta'' v) META_KEYS
            ''INVALID_WC_VOID_OPENING_LEDGER_DEBIT_META_SHAPE'') (\<lambda>meta.
     if jget ''schema'' v \<noteq> JStr OPENING_LEDGER_DEBIT_SCHEMA
     then Inl ''INVALID_WC_VOID_OPENING_LEDGER_DEBIT_SCHEMA''
     else if \<not> debit_policy_ok v then Inl ''WC_VOID_OPENING_LEDGER_DEBIT_POLICY_MISMATCH''
     else if \<not> debit_meta_ok meta then Inl ''WC_VOID_OPENING_LEDGER_DEBIT_META_MISMATCH''
     else
     bnd (canonicalSha (jget ''settlement_id'' v) ''INVALID_WC_VOID_OPENING_SETTLEMENT_ID'') (\<lambda>sid.
     bnd (canonicalSha (jget ''commitment_id'' v) ''INVALID_WC_VOID_OPENING_COMMITMENT_ID'') (\<lambda>cid.
     bnd (canonicalSha (jget ''coupled_launch_id'' v) ''INVALID_COUPLED_LAUNCH_ID'') (\<lambda>lid.
     bnd (canonicalAccount (jget ''account'' v) ''INVALID_WC_VOID_OPENING_ACCOUNT'') (\<lambda>acct.
     if lid \<noteq> launch then Inl ''WC_VOID_OPENING_SETTLEMENT_LAUNCH_MISMATCH''
     else if \<not> debit_numeric_ok v then Inl ''WC_VOID_OPENING_LEDGER_DEBIT_NUMERIC_INVALID''
     else
     case map_of commitmentsById cid of
       None \<Rightarrow> Inl ''UNKNOWN_WC_VOID_OPENING_SETTLED_COMMITMENT''
     | Some c \<Rightarrow>
     let amount = num_of (jget ''amount'' v) in
     if account c \<noteq> acct \<or> dec_val (wc_units c) \<noteq> amount
     then Inl ''WC_VOID_OPENING_SETTLEMENT_COMMITMENT_MISMATCH''
     else
     bnd (wcVoidOpeningSettlementIdV1 H v) (\<lambda>derived.
     if derived \<noteq> sid then Inl ''WC_VOID_OPENING_SETTLEMENT_DIGEST_MISMATCH''
     else if sid \<in> set (seenSettlements st) then Inl ''DUPLICATE_WC_VOID_OPENING_SETTLEMENT_ID''
     else if cid \<in> set (seenCommitments st)
     then Inl ''DUPLICATE_WC_VOID_OPENING_SETTLED_COMMITMENT''
     else Inr \<lparr> seenSettlements = seenSettlements st @ [sid],
                seenCommitments = seenCommitments st @ [cid],
                totalSettledWc = totalSettledWc st + amount,
                canonicalSettlements = canonicalSettlements st @
                  [\<lparr> settlement_id = sid, s_commitment_id = cid, s_account = acct,
                     amount_wc = int_str amount, ts_ms = num_of (jget ''ts_ms'' v) \<rparr>] \<rparr>)))))))"

definition verifyWcVoidOpeningLedgerSettlementsV1 ::
  "(string \<Rightarrow> string) \<Rightarrow> jsv \<Rightarrow> jsv \<Rightarrow> jsv \<Rightarrow> settlement_set res" where
  "verifyWcVoidOpeningLedgerSettlementsV1 H launchId rawCommitments ledgerDebits =
     bnd (verifyWcVoidOpeningCommitmentsV1 H launchId rawCommitments) (\<lambda>cset.
     bnd (exactArray ledgerDebits ''INVALID_WC_VOID_OPENING_LEDGER_DEBIT_SET'') (\<lambda>debitValues.
     if int (length debitValues) \<noteq> commitment_count cset
     then Inl ''WC_VOID_OPENING_SETTLEMENT_COUNT_MISMATCH''
     else
     let commitmentsById = map (\<lambda>c. (commitment_id c, c)) (commitments cset) in
     bnd (foldM (verify_debit H (str_of launchId) commitmentsById)
            \<lparr> seenSettlements = [], seenCommitments = [], totalSettledWc = 0,
              canonicalSettlements = [] \<rparr> debitValues) (\<lambda>st.
     if length (seenCommitments st) \<noteq> length (remdups (map fst commitmentsById))
     then Inl ''MISSING_WC_VOID_OPENING_SETTLEMENT''
     else if int_str (totalSettledWc st) \<noteq> total_committed_wc_units cset
     then Inl ''WC_VOID_OPENING_SETTLED_WC_TOTAL_MISMATCH''
     else
     let canonical = sort_key settlement_id (canonicalSettlements st) in
     bnd (opening_digest H (JObj [
            (''schema'', JStr OPENING_LEDGER_DEBIT_SCHEMA),
            (''coupled_launch_id'', launchId),
            (''settlements'', JArr (map settlement_json canonical))])) (\<lambda>root.
     Inr \<lparr> settlement_count = int (length canonical),
           settlement_set_root = root,
           total_settled_wc_units = int_str (totalSettledWc st),
           settlements = canonical \<rparr>))))"

text \<open>The object the source returns for a verified settlement set.\<close>

definition settlement_set_json :: "settlement_set \<Rightarrow> jsv" where
  "settlement_set_json s = JObj [
     (''adapter_id'', JStr OPENING_SETTLEMENT_ADAPTER_ID),
     (''source_domain'', jget ''source_domain'' OPENING_POLICY),
     (''quote_asset_form'', jget ''quote_asset_form'' OPENING_POLICY),
     (''quote_unit'', jget ''quote_unit'' OPENING_POLICY),
     (''quote_decimals'', jget ''quote_decimals'' OPENING_POLICY),
     (''settlement_count'', JNum (settlement_count s)),
     (''settlement_set_root'', JStr (settlement_set_root s)),
     (''total_settled_wc_units'', JStr (total_settled_wc_units s)),
     (''exact_commitment_settlement_bijection'', JBool True),
     (''duplicate_settlement_rejected'', JBool True),
     (''duplicate_commitment_settlement_rejected'', JBool True),
     (''ledger_event_shape_verified'', JBool True),
     (''canonical_balance_debit_compatible'', JBool True),
     (''ledger_persistence_verified'', JBool False),
     (''ledger_write_performed'', JBool False),
     (''wc_balance_mutation_performed'', JBool False),
     (''settlements'', JArr (map settlement_json (settlements s)))]"

section \<open>Allocation by largest remainders\<close>

text \<open>
  The loop that hands out the left-over atoms updates, through the array \<^verbatim>\<open>ranked\<close>, the objects of
  the array \<^verbatim>\<open>working\<close>. The field \<open>w_ref\<close> is the identity of the object: its index in \<^verbatim>\<open>working\<close>.
\<close>

record working_entry =
  w_ref :: nat
  w_commitment :: commitment
  floor_atoms :: int
  w_remainder :: int
  allocated_atoms :: int

record allocation =
  a_commitment_id :: string
  a_participant_id :: string
  a_account :: string
  a_wc_units :: string
  void_atoms :: string

record allocation_set =
  allocation_count :: int
  allocated_void_atoms :: string
  retained_void_atoms :: string
  allocation_root :: string
  allocations :: "allocation list"
  exact_tranche_conservation :: bool

definition opening_tranche :: int where
  "opening_tranche = dec_val (str_of (jget ''opening_sale_tranche_void_atoms'' OPENING_POLICY))"

definition working_row :: "int \<Rightarrow> int \<Rightarrow> nat \<times> commitment \<Rightarrow> working_entry" where
  "working_row tranche wcTotal ic =
     (let numerator = dec_val (wc_units (snd ic)) * tranche;
          floorAtoms = numerator div wcTotal
      in \<lparr> w_ref = fst ic, w_commitment = snd ic, floor_atoms = floorAtoms,
           w_remainder = numerator mod wcTotal, allocated_atoms = floorAtoms \<rparr>)"

definition ranked_entries :: "working_entry list \<Rightarrow> working_entry list" where
  "ranked_entries = sort_key (\<lambda>w. (- w_remainder w, commitment_id (w_commitment w)))"

definition bump :: "nat list \<Rightarrow> working_entry list \<Rightarrow> working_entry list" where
  "bump refs ws =
     map (\<lambda>w. if w_ref w \<in> set refs then w \<lparr> allocated_atoms := allocated_atoms w + 1 \<rparr> else w) ws"

definition allocation_of :: "working_entry \<Rightarrow> allocation" where
  "allocation_of w =
     \<lparr> a_commitment_id = commitment_id (w_commitment w),
       a_participant_id = participant_id (w_commitment w),
       a_account = account (w_commitment w),
       a_wc_units = wc_units (w_commitment w),
       void_atoms = int_str (allocated_atoms w) \<rparr>"

definition allocation_json :: "allocation \<Rightarrow> jsv" where
  "allocation_json a = JObj [
     (''commitment_id'', JStr (a_commitment_id a)),
     (''participant_id'', JStr (a_participant_id a)),
     (''account'', JStr (a_account a)),
     (''wc_units'', JStr (a_wc_units a)),
     (''void_atoms'', JStr (void_atoms a))]"

definition deriveOpeningAllocations :: "(string \<Rightarrow> string) \<Rightarrow> commitment_set \<Rightarrow> allocation_set res" where
  "deriveOpeningAllocations H cset =
     (let wcTotal = dec_val (total_committed_wc_units cset); tranche = opening_tranche in
      if wcTotal \<le> 0 \<or> tranche \<le> 0 then Inl ''WC_VOID_OPENING_ALLOCATION_POLICY_INVALID''
      else
      let working = map (working_row tranche wcTotal) (enumerate 0 (commitments cset));
          leftover = tranche - sum_list (map floor_atoms working) in
      if leftover < 0 \<or> leftover > int (length working)
      then Inl ''WC_VOID_OPENING_ALLOCATION_REMAINDER_INVALID''
      else
      let ranked = ranked_entries working;
          bumped = bump (map w_ref (take (nat leftover) ranked)) working;
          allocs = sort_key a_commitment_id (map allocation_of bumped);
          allocatedTotal = sum_list (map (\<lambda>a. dec_val (void_atoms a)) allocs) in
      if allocatedTotal \<noteq> tranche then Inl ''WC_VOID_OPENING_ALLOCATION_CONSERVATION_FAILURE''
      else
      bnd (opening_digest H (JObj [
             (''schema'', JStr ''void.wc-void-opening-allocation-set.v1''),
             (''allocation_policy'', jget ''opening_allocation_policy'' OPENING_POLICY),
             (''allocations'', JArr (map allocation_json allocs))])) (\<lambda>root.
      Inr \<lparr> allocation_count = int (length allocs),
            allocated_void_atoms = int_str allocatedTotal,
            retained_void_atoms = str_of (jget ''post_opening_void_reserve_atoms'' OPENING_POLICY),
            allocation_root = root,
            allocations = allocs,
            exact_tranche_conservation = True \<rparr>))"

section \<open>The opening state\<close>

definition opening_payload ::
  "string \<Rightarrow> commitment_set \<Rightarrow> settlement_set \<Rightarrow> allocation_set \<Rightarrow> int \<Rightarrow> int \<Rightarrow> int \<Rightarrow> (string \<times> jsv) list" where
  "opening_payload launchId cset sset aset settledWc priceNumerator priceDenominator = [
     (''schema'', JStr OPENING_STATE_SCHEMA),
     (''coupled_launch_id'', JStr launchId),
     (''chain_id'', jget ''chain_id'' OPENING_POLICY),
     (''pair'', jget ''pair'' OPENING_POLICY),
     (''settlement_adapter_id'', JStr OPENING_SETTLEMENT_ADAPTER_ID),
     (''commitment_set_root'', JStr (commitment_set_root cset)),
     (''settlement_set_root'', JStr (settlement_set_root sset)),
     (''participant_commitment_count'', JNum (commitment_count cset)),
     (''settled_wc_reserve_units'', JStr (int_str settledWc)),
     (''protocol_wc_seed_units'', jget ''protocol_wc_seed_units'' OPENING_POLICY),
     (''protocol_void_inventory_atoms'', jget ''protocol_void_inventory_atoms'' OPENING_POLICY),
     (''opening_sale_tranche_void_atoms'', jget ''opening_sale_tranche_void_atoms'' OPENING_POLICY),
     (''post_opening_void_reserve_atoms'', jget ''post_opening_void_reserve_atoms'' OPENING_POLICY),
     (''opening_allocation_policy'', jget ''opening_allocation_policy'' OPENING_POLICY),
     (''opening_allocation_root'', JStr (allocation_root aset)),
     (''opening_allocated_void_atoms'', JStr (allocated_void_atoms aset)),
     (''opening_price_wc_per_void_numerator'', JStr (int_str priceNumerator)),
     (''opening_price_wc_per_void_denominator'', JStr (int_str priceDenominator)),
     (''opening_price_source'', jget ''opening_price_source'' OPENING_POLICY)]"

definition opening_report :: "allocation_set \<Rightarrow> int \<Rightarrow> (string \<times> jsv) list" where
  "opening_report aset settledWc = [
     (''participant_allocations'', JArr (map allocation_json (allocations aset))),
     (''exact_opening_tranche_conservation'', JBool (exact_tranche_conservation aset)),
     (''post_opening_wc_reserve_units'', JStr (int_str settledWc)),
     (''post_opening_reserve_ratio_matches_clearing_price'', JBool True),
     (''opening_allocation_math_source_ready'', JBool True),
     (''opening_allocation_transfer_or_claim_runtime_ready'', JBool False),
     (''fixed_conversion'', JBool False),
     (''fixed_opening_price'', JBool False),
     (''real_participant_wc_required'', JBool True),
     (''zero_protocol_wc_seed_required'', JBool True),
     (''commitment_settlement_bijection_verified'', JBool True),
     (''settlement_event_shape_verified'', JBool True),
     (''ledger_persistence_verified'', JBool False),
     (''quote_reserve_custody_verified'', JBool False),
     (''void_market_vault_custody_verified'', JBool False),
     (''participant_opening_claim_policy_ready'', JBool False),
     (''opening_commitment_window_policy_ready'', JBool False),
     (''participant_provenance_and_eligibility_verified'', JBool False),
     (''opening_concentration_and_sybil_limits_ready'', JBool False),
     (''opening_minimum_quote_depth_policy_ready'', JBool False),
     (''nonproduction_wc_exclusion_verified'', JBool False),
     (''opening_price_manipulation_protection_ready'', JBool False),
     (''opening_price_is_production_authority'', JBool False),
     (''market_activation_authority'', JBool False),
     (''inventory_funding_authority'', JBool False),
     (''liquidity_movement_authority'', JBool False),
     (''ledger_write_authority'', JBool False),
     (''wc_issuance_authority'', JBool False),
     (''funds_movement_authority'', JBool False),
     (''authority'', COUPLED_OPENING_AUTHORITY)]"

definition deriveWcVoidCoupledOpeningStateV1 :: "(string \<Rightarrow> string) \<Rightarrow> jsv \<Rightarrow> jsv res" where
  "deriveWcVoidCoupledOpeningStateV1 H input =
     bnd (exactObject input OPENING_REQUEST_KEYS ''INVALID_WC_VOID_COUPLED_OPENING_REQUEST_SHAPE'') (\<lambda>request.
     bnd (canonicalSha (jget ''coupled_launch_id'' request) ''INVALID_COUPLED_LAUNCH_ID'') (\<lambda>launchId.
     bnd (verifyWcVoidOpeningCommitmentsV1 H (JStr launchId) (jget ''commitments'' request)) (\<lambda>cset.
     bnd (verifyWcVoidOpeningLedgerSettlementsV1 H (JStr launchId) (jget ''commitments'' request)
            (jget ''ledger_debits'' request)) (\<lambda>sset.
     let settledWc = dec_val (total_settled_wc_units sset) in
     bnd (deriveOpeningAllocations H cset) (\<lambda>aset.
     let openingSaleWhole = dec_val (str_of (jget ''opening_sale_tranche_void_whole'' OPENING_POLICY));
         divisor = gcd_loop settledWc openingSaleWhole;
         priceNumerator = settledWc div divisor;
         priceDenominator = openingSaleWhole div divisor;
         payload = opening_payload launchId cset sset aset settledWc priceNumerator priceDenominator in
     bnd (opening_digest H (JObj payload)) (\<lambda>opening_state_id.
     Inr (JObj (payload @ (''opening_state_id'', JStr opening_state_id) # opening_report aset settledWc))))))))"

section \<open>What the validators ensure\<close>

lemma exactObject_Inr: "exactObject v keys code = Inr s \<Longrightarrow> is_obj v \<and> same_keys v keys \<and> s = JObj (map (\<lambda>k. (k, jget k v)) keys)"
  by (auto simp: exactObject_def split: if_splits)

lemma jget_snapshot: "k \<in> set keys \<Longrightarrow> jget k (JObj (map (\<lambda>k. (k, f k)) keys)) = f k"
  by (induction keys) auto

lemma exactObject_snapshot:
  "distinct keys \<Longrightarrow> exactObject (JObj (map (\<lambda>k. (k, f k)) keys)) keys code = Inr (JObj (map (\<lambda>k. (k, f k)) keys))"
  by (simp add: exactObject_def same_keys_def comp_def jget_snapshot del: jget.simps)

lemma exactObject_wp [js_wp]:
  "(\<And>s. is_obj v \<Longrightarrow> same_keys v keys \<Longrightarrow> s = JObj (map (\<lambda>k. (k, jget k v)) keys) \<Longrightarrow> post P (f s)) \<Longrightarrow>
   post P (bnd (exactObject v keys code) f)"
  by (rule post_bnd) (auto dest: exactObject_Inr)

lemma exactArray_wp [js_wp]:
  "(\<And>xs. v = JArr xs \<Longrightarrow> xs \<noteq> [] \<Longrightarrow> int (length xs) \<le> MAX_SET_SIZE \<Longrightarrow> post P (f xs)) \<Longrightarrow>
   post P (bnd (exactArray v code) f)"
  by (rule post_bnd) (cases v; auto simp: exactArray_def split: if_splits)

lemma canonicalSha_wp [js_wp]:
  "(\<And>s. v = JStr s \<Longrightarrow> prefix_hex ''sha256:'' 64 s \<Longrightarrow> post P (f s)) \<Longrightarrow>
   post P (bnd (canonicalSha v code) f)"
  by (rule post_bnd) (auto simp: canonicalSha_def is_str_iff split: if_splits)

lemma canonicalAccount_wp [js_wp]:
  "(\<And>s. v = JStr s \<Longrightarrow> list_all account_char s \<Longrightarrow> 3 \<le> slen s \<Longrightarrow> slen s \<le> 128 \<Longrightarrow> post P (f s)) \<Longrightarrow>
   post P (bnd (canonicalAccount v code) f)"
  by (rule post_bnd) (auto simp: canonicalAccount_def is_str_iff split: if_splits)

lemma positiveWholeWc_wp [js_wp]:
  "(\<And>s. v = JStr s \<Longrightarrow> is_decimal s \<Longrightarrow> 0 < dec_val s \<Longrightarrow> dec_val s \<le> MAX_SAFE_INTEGER \<Longrightarrow> post P (f (dec_val s))) \<Longrightarrow>
   post P (bnd (positiveWholeWc v code) f)"
  by (rule post_bnd) (auto simp: positiveWholeWc_def is_str_iff Let_def split: if_splits)

lemma opening_digest_safe: "safe_plain v \<Longrightarrow> opening_digest H v = Inr (''sha256:'' @ H (canonicalJson v))"
  by (simp add: opening_digest_def canonicalJsonChecked_safe)

text \<open>The errors they raise.\<close>

lemma opening_validators_err [js_err]:
  "P code \<Longrightarrow> errp P (exactObject v keys code)"
  "P code \<Longrightarrow> errp P (exactArray v code)"
  "P code \<Longrightarrow> errp P (canonicalSha v code)"
  "P code \<Longrightarrow> errp P (canonicalAccount v code)"
  "P code \<Longrightarrow> errp P (positiveWholeWc v code)"
  by (simp_all add: errp_def exactObject_def exactArray_def canonicalSha_def canonicalAccount_def
      positiveWholeWc_def Let_def)

lemma opening_digest_err [js_err]: "P ''INVALID_CANONICAL_VALUE'' \<Longrightarrow> errp P (opening_digest H v)"
  unfolding opening_digest_def by (intro js_err)

section \<open>Verified commitment sets\<close>

abbreviation wc_of :: "commitment \<Rightarrow> int" where
  "wc_of c \<equiv> dec_val (wc_units c)"

definition commitment_body :: "commitment \<Rightarrow> jsv" where
  "commitment_body c = JObj [
     (''schema'', JStr OPENING_COMMITMENT_SCHEMA),
     (''coupled_launch_id'', JStr (coupled_launch_id c)),
     (''participant_id'', JStr (participant_id c)),
     (''account'', JStr (account c)),
     (''wc_units'', JStr (wc_units c))]"

definition wf_commitment :: "(string \<Rightarrow> string) \<Rightarrow> string \<Rightarrow> commitment \<Rightarrow> bool" where
  "wf_commitment H launch c \<longleftrightarrow>
     coupled_launch_id c = launch \<and>
     commitment_id c = ''sha256:'' @ H (canonicalJson (commitment_body c)) \<and>
     is_decimal (wc_units c) \<and> 0 < wc_of c \<and> wc_of c \<le> MAX_SAFE_INTEGER"

definition wf_commit_loop :: "(string \<Rightarrow> string) \<Rightarrow> string \<Rightarrow> commit_loop \<Rightarrow> bool" where
  "wf_commit_loop H launch st \<longleftrightarrow>
     seenCommitmentIds st = map commitment_id (canonicalCommitments st) \<and>
     seenParticipantIds st = map participant_id (canonicalCommitments st) \<and>
     distinct (seenCommitmentIds st) \<and> distinct (seenParticipantIds st) \<and>
     totalWc st = sum_list (map wc_of (canonicalCommitments st)) \<and>
     list_all (wf_commitment H launch) (canonicalCommitments st)"

definition wf_commitment_set :: "(string \<Rightarrow> string) \<Rightarrow> string \<Rightarrow> commitment_set \<Rightarrow> bool" where
  "wf_commitment_set H launch cset \<longleftrightarrow>
     commitments cset \<noteq> [] \<and> commitment_count cset = int (length (commitments cset)) \<and>
     commitment_count cset \<le> MAX_SET_SIZE \<and>
     distinct (map commitment_id (commitments cset)) \<and>
     distinct (map participant_id (commitments cset)) \<and>
     sorted (map commitment_id (commitments cset)) \<and>
     total_committed_wc_units cset = int_str (sum_list (map wc_of (commitments cset))) \<and>
     list_all (wf_commitment H launch) (commitments cset)"

lemma distinct_map_sort_key: "distinct (map f (sort_key g xs)) \<longleftrightarrow> distinct (map f xs)"
  by (rule mset_eq_imp_distinct_iff) simp

lemma sort_key_eq_Nil [simp]: "sort_key f xs = [] \<longleftrightarrow> xs = []"
  by (metis length_0_conv length_sort)

lemma sum_list_map_sort_key:
  fixes f :: "'a \<Rightarrow> int"
  shows "sum_list (map f (sort_key g xs)) = sum_list (map f xs)"
  by (metis mset_map mset_sort sum_mset_sum_list)

lemma COMMITMENT_KEYS_distinct: "distinct COMMITMENT_KEYS"
  by (simp add: COMMITMENT_KEYS_def)

lemma commitment_digest:
  assumes "v = JObj (map (\<lambda>k. (k, f k)) COMMITMENT_KEYS)"
    and "jget ''schema'' v = JStr OPENING_COMMITMENT_SCHEMA" "jget ''coupled_launch_id'' v = JStr launch"
    "jget ''participant_id'' v = JStr p" "jget ''account'' v = JStr a" "jget ''wc_units'' v = JStr w"
  shows "wcVoidOpeningCommitmentIdV1 H v =
    Inr (''sha256:'' @ H (canonicalJson (commitment_body
      \<lparr> commitment_id = cid, coupled_launch_id = launch, participant_id = p, account = a, wc_units = w \<rparr>)))"
proof -
  have "exactObject v COMMITMENT_KEYS code = Inr v" for code
    unfolding assms(1) by (rule exactObject_snapshot [OF COMMITMENT_KEYS_distinct])
  then have "wcVoidOpeningCommitmentIdV1 H v = opening_digest H (commitmentPayload v)"
    by (simp add: wcVoidOpeningCommitmentIdV1_def)
  also have "\<dots> = Inr (''sha256:'' @ H (canonicalJson (commitmentPayload v)))"
    by (rule opening_digest_safe) (simp add: commitmentPayload_def assms(2-))
  finally show ?thesis by (simp add: commitmentPayload_def commitment_body_def assms(2-))
qed

lemma verify_commitment_step:
  "post (\<lambda>st'. wf_commit_loop H launch st \<longrightarrow>
      wf_commit_loop H launch st' \<and> length (canonicalCommitments st') = Suc (length (canonicalCommitments st)))
    (verify_commitment H launch st raw)"
  unfolding verify_commitment_def
  apply (intro js_wp)
  apply (unfold not_not)
  apply (subst commitment_digest, assumption+)
  apply (simp only: bnd_simps)
  apply (intro js_wp)
  apply (auto simp: wf_commit_loop_def wf_commitment_def commitment_body_def simp del: jget.simps)
  done

lemma verified_commitments_wf:
  assumes "verifyWcVoidOpeningCommitmentsV1 H launchId raw = Inr cset"
  shows "wf_commitment_set H (str_of launchId) cset" "launchId = JStr (str_of launchId)"
proof -
  let ?st0 = "\<lparr> seenCommitmentIds = [], seenParticipantIds = [], totalWc = 0, canonicalCommitments = [] \<rparr>"
  have "post (\<lambda>cset. wf_commitment_set H (str_of launchId) cset \<and> launchId = JStr (str_of launchId))
    (verifyWcVoidOpeningCommitmentsV1 H launchId raw)"
    unfolding verifyWcVoidOpeningCommitmentsV1_def Let_def
  proof (intro js_wp post_bnd)
    fix launch vs st root
    assume launch: "launchId = JStr launch" and raw: "vs \<noteq> []" "int (length vs) \<le> MAX_SET_SIZE"
      and fold: "foldM (verify_commitment H launch) ?st0 vs = Inr st"
    have "wf_commit_loop H launch st \<and> length (canonicalCommitments st) = length vs"
      using fold
    proof (rule foldM_prefix_induct)
      show "wf_commit_loop H launch ?st0 \<and> length (canonicalCommitments ?st0) = length []"
        by (simp add: wf_commit_loop_def)
    qed (use verify_commitment_step [THEN postD] in fastforce)
    then show "post (\<lambda>cset. wf_commitment_set H (str_of launchId) cset \<and> launchId = JStr (str_of launchId))
      (Inr \<lparr> commitment_count = int (length (sort_key commitment_id (canonicalCommitments st))),
           commitment_set_root = root,
           total_committed_wc_units = int_str (totalWc st),
           commitments = sort_key commitment_id (canonicalCommitments st),
           participant_provenance_verified = False,
           ledger_settlement_verified = False \<rparr>)"
      using raw launch
      by (auto simp: wf_commitment_set_def wf_commit_loop_def list_all_iff distinct_map_sort_key sum_list_map_sort_key)
  qed
  from postD [OF this assms] show "wf_commitment_set H (str_of launchId) cset" "launchId = JStr (str_of launchId)"
    by simp_all
qed

section \<open>The largest-remainder allocation\<close>

lemma sorted_take_le:
  assumes "sorted (map f xs)" "x \<in> set (take k xs)" "y \<in> set xs" "y \<notin> set (take k xs)"
  shows "f x \<le> f y"
proof -
  have "y \<in> set (drop k xs)" using assms(3,4) by (metis Un_iff append_take_drop_id set_append)
  moreover have "sorted (map f (take k xs) @ map f (drop k xs))"
    using assms(1) by (metis append_take_drop_id map_append)
  ultimately show ?thesis using assms(2) by (auto simp: sorted_append)
qed

lemma sum_bump:
  assumes "distinct (map w_ref ws)" "distinct refs" "set refs \<subseteq> set (map w_ref ws)"
  shows "sum_list (map allocated_atoms (bump refs ws)) = sum_list (map allocated_atoms ws) + int (length refs)"
proof -
  have "sum_list (map allocated_atoms (bump refs ws)) =
    sum_list (map allocated_atoms ws) + int (length (filter (\<lambda>r. r \<in> set refs) (map w_ref ws)))"
    by (induction ws) (auto simp: bump_def)
  also have "length (filter (\<lambda>r. r \<in> set refs) (map w_ref ws)) = card (set (map w_ref ws) \<inter> set refs)"
    using assms(1) by (subst distinct_card [symmetric]) (auto intro: arg_cong [where f = card])
  also have "set (map w_ref ws) \<inter> set refs = set refs" using assms(3) by blast
  finally show ?thesis using assms(2) by (simp add: distinct_card)
qed

lemma map_enumerate_comp: "map (\<lambda>ic. f (snd ic)) (enumerate n xs) = map f xs"
  by (metis (no_types) comp_def map_map map_snd_enumerate map_eq_conv)

lemma working_row_simps:
  "w_ref (working_row t w ic) = fst ic" "w_commitment (working_row t w ic) = snd ic"
  "floor_atoms (working_row t w ic) = wc_of (snd ic) * t div w"
  "w_remainder (working_row t w ic) = wc_of (snd ic) * t mod w"
  "allocated_atoms (working_row t w ic) = wc_of (snd ic) * t div w"
  by (simp_all add: working_row_def Let_def)

lemma bump_simps [simp]:
  "map w_commitment (bump refs ws) = map w_commitment ws" "length (bump refs ws) = length ws"
  by (simp_all add: bump_def)

text \<open>The division of \<open>t\<close> atoms over weights \<open>ws\<close> leaves fewer atoms than there are weights.\<close>

lemma leftover_bounds:
  fixes ws :: "int list"
  assumes "0 < sum_list ws"
  shows "0 \<le> t - sum_list (map (\<lambda>w. w * t div sum_list ws) ws)"
    and "t - sum_list (map (\<lambda>w. w * t div sum_list ws) ws) < int (length ws)"
proof -
  let ?W = "sum_list ws"
  let ?F = "sum_list (map (\<lambda>w. w * t div ?W) ws)" and ?R = "sum_list (map (\<lambda>w. w * t mod ?W) ws)"
  have "?F * ?W + ?R = sum_list (map (\<lambda>w. w * t) ws)"
    by (simp add: sum_list_addf [symmetric] sum_list_mult_const [symmetric])
  moreover have "sum_list (map (\<lambda>w. w * t) ws) = ?W * t" by (simp add: sum_list_mult_const)
  ultimately have eq: "(t - ?F) * ?W = ?R" by (simp add: algebra_simps)
  have "0 \<le> ?R" by (rule sum_list_nonneg) (use assms in auto)
  with eq assms show "0 \<le> t - ?F" by (metis zero_le_mult_iff linorder_not_less)
  have "sum_list (map (\<lambda>w. w * t mod ?W) zs) < int (length zs) * ?W" if "zs \<noteq> []" for zs
    using that
  proof (induction zs rule: list_nonempty_induct)
    case (cons z zs)
    then show ?case using pos_mod_bound [OF assms, of "z * t"] by (simp add: algebra_simps)
  qed (use assms in simp)
  moreover have "ws \<noteq> []" using assms by auto
  ultimately have "?R < int (length ws) * ?W" by blast
  with eq assms show "t - ?F < int (length ws)" by (metis mult_less_cancel_right_pos)
qed

definition opening_rows :: "commitment_set \<Rightarrow> working_entry list" where
  "opening_rows cset =
     map (working_row opening_tranche (sum_list (map wc_of (commitments cset)))) (enumerate 0 (commitments cset))"

definition opening_refs :: "commitment_set \<Rightarrow> nat list" where
  "opening_refs cset =
     map w_ref (take (nat (opening_tranche - sum_list (map floor_atoms (opening_rows cset))))
       (ranked_entries (opening_rows cset)))"

definition opening_allocs :: "commitment_set \<Rightarrow> allocation list" where
  "opening_allocs cset = map allocation_of (bump (opening_refs cset) (opening_rows cset))"

lemma opening_tranche_eq: "opening_tranche = 5000000000000000000000000"
  by (simp add: opening_tranche_def OPENING_POLICY_def dec_val_def digit_val_def)

lemma wf_total_pos:
  assumes "wf_commitment_set H launch cset"
  shows "0 < sum_list (map wc_of (commitments cset))"
proof -
  have "0 < sum_list (map wc_of cs)" if "cs \<noteq> []" "list_all (wf_commitment H launch) cs" for cs
    using that by (induction cs rule: list_nonempty_induct) (auto simp: wf_commitment_def)
  then show ?thesis using assms by (simp add: wf_commitment_set_def)
qed

lemma opening_rows_refs:
  "map w_ref (opening_rows cset) = [0..<length (commitments cset)]"
  "map w_commitment (opening_rows cset) = commitments cset"
  "length (opening_rows cset) = length (commitments cset)"
  by (simp_all add: opening_rows_def working_row_simps comp_def map_enumerate_comp [of "\<lambda>c. c"]
      map_fst_enumerate [unfolded comp_def])

lemma opening_leftover:
  assumes "wf_commitment_set H launch cset"
  shows "0 \<le> opening_tranche - sum_list (map floor_atoms (opening_rows cset))"
    and "opening_tranche - sum_list (map floor_atoms (opening_rows cset)) < int (length (commitments cset))"
proof -
  have "map floor_atoms (opening_rows cset) =
    map (\<lambda>w. w * opening_tranche div sum_list (map wc_of (commitments cset))) (map wc_of (commitments cset))"
    by (simp add: opening_rows_def working_row_simps comp_def
        map_enumerate_comp [where f = "\<lambda>c. wc_of c * _ div _"])
  then show "0 \<le> opening_tranche - sum_list (map floor_atoms (opening_rows cset))"
    "opening_tranche - sum_list (map floor_atoms (opening_rows cset)) < int (length (commitments cset))"
    using leftover_bounds [OF wf_total_pos [OF assms], of opening_tranche] by simp_all
qed

lemma opening_refs_ok:
  "distinct (opening_refs cset)" "set (opening_refs cset) \<subseteq> set (map w_ref (opening_rows cset))"
proof -
  have perm: "mset (map w_ref (ranked_entries (opening_rows cset))) = mset (map w_ref (opening_rows cset))"
    by (simp add: ranked_entries_def)
  then have "distinct (map w_ref (ranked_entries (opening_rows cset)))"
    unfolding mset_eq_imp_distinct_iff [OF perm] by (simp add: opening_rows_refs)
  then show "distinct (opening_refs cset)" by (simp add: opening_refs_def take_map [symmetric])
  show "set (opening_refs cset) \<subseteq> set (map w_ref (opening_rows cset))"
    using set_take_subset by (fastforce simp: opening_refs_def ranked_entries_def)
qed

lemma opening_row_nonneg:
  assumes "wf_commitment_set H launch cset" "w \<in> set (opening_rows cset)"
  shows "0 \<le> floor_atoms w" "allocated_atoms w = floor_atoms w"
    "floor_atoms w = wc_of (w_commitment w) * opening_tranche div sum_list (map wc_of (commitments cset))"
    "w_remainder w = wc_of (w_commitment w) * opening_tranche mod sum_list (map wc_of (commitments cset))"
    "w_commitment w \<in> set (commitments cset)"
proof -
  from assms(2) obtain i c where w: "w = working_row opening_tranche (sum_list (map wc_of (commitments cset))) (i, c)"
    and c: "c \<in> set (commitments cset)"
    by (auto simp: opening_rows_def enumerate_eq_zip dest: set_zip_rightD)
  from c assms(1) have "0 \<le> wc_of c" by (auto simp: wf_commitment_set_def wf_commitment_def list_all_iff)
  then show "0 \<le> floor_atoms w" "allocated_atoms w = floor_atoms w"
    "floor_atoms w = wc_of (w_commitment w) * opening_tranche div sum_list (map wc_of (commitments cset))"
    "w_remainder w = wc_of (w_commitment w) * opening_tranche mod sum_list (map wc_of (commitments cset))"
    "w_commitment w \<in> set (commitments cset)"
    using c wf_total_pos [OF assms(1)]
    by (simp_all add: w working_row_simps opening_tranche_eq pos_imp_zdiv_nonneg_iff)
qed

lemma bump_member:
  assumes "wf_commitment_set H launch cset" "w \<in> set (bump (opening_refs cset) (opening_rows cset))"
  obtains w0 where "w0 \<in> set (opening_rows cset)" "w_commitment w = w_commitment w0" "w_ref w = w_ref w0"
    "allocated_atoms w = floor_atoms w0 + (if w_ref w0 \<in> set (opening_refs cset) then 1 else 0)"
  using assms(2) opening_row_nonneg(2) [OF assms(1)] by (fastforce simp: bump_def split: if_splits)

lemma sum_opening_allocs:
  assumes "wf_commitment_set H launch cset"
  shows "sum_list (map (\<lambda>a. dec_val (void_atoms a)) (opening_allocs cset)) = opening_tranche"
proof -
  let ?ws = "opening_rows cset" and ?refs = "opening_refs cset"
  have "dec_val (void_atoms (allocation_of w)) = allocated_atoms w" if "w \<in> set (bump ?refs ?ws)" for w
    using that by (rule bump_member [OF assms]) (use opening_row_nonneg(1) [OF assms] in \<open>simp add: allocation_of_def\<close>)
  then have "sum_list (map (\<lambda>a. dec_val (void_atoms a)) (opening_allocs cset)) =
    sum_list (map allocated_atoms (bump ?refs ?ws))"
    by (simp add: opening_allocs_def comp_def cong: map_cong)
  also have "\<dots> = sum_list (map allocated_atoms ?ws) + int (length ?refs)"
    by (rule sum_bump) (use opening_refs_ok [of cset] in \<open>simp_all add: opening_rows_refs\<close>)
  also have "map allocated_atoms ?ws = map floor_atoms ?ws"
    using opening_row_nonneg(2) [OF assms] by simp
  also have "int (length ?refs) = opening_tranche - sum_list (map floor_atoms ?ws)"
    using opening_leftover [OF assms] by (simp add: opening_refs_def ranked_entries_def opening_rows_refs)
  finally show ?thesis by simp
qed

lemma opening_allocs_ids: "map a_commitment_id (opening_allocs cset) = map commitment_id (commitments cset)"
proof -
  have "map a_commitment_id (opening_allocs cset) = map commitment_id (map w_commitment (bump (opening_refs cset) (opening_rows cset)))"
    by (simp add: opening_allocs_def allocation_of_def comp_def del: bump_simps(1))
  then show ?thesis by (simp only: bump_simps opening_rows_refs)
qed

lemma deriveOpeningAllocations_wf:
  assumes "wf_commitment_set H launch cset"
  shows "\<exists>root. deriveOpeningAllocations H' cset =
    Inr \<lparr> allocation_count = int (length (commitments cset)),
          allocated_void_atoms = int_str opening_tranche,
          retained_void_atoms = ''5000000000000000000000000'',
          allocation_root = root, allocations = opening_allocs cset, exact_tranche_conservation = True \<rparr>"
proof -
  have W: "dec_val (total_committed_wc_units cset) = sum_list (map wc_of (commitments cset))"
    using assms wf_total_pos [OF assms] by (simp add: wf_commitment_set_def)
  have sorted: "sort_key a_commitment_id (opening_allocs cset) = opening_allocs cset"
    by (rule sort_key_id_if_sorted) (use assms in \<open>simp add: opening_allocs_ids wf_commitment_set_def\<close>)
  have len: "length (opening_allocs cset) = length (commitments cset)"
    by (simp add: opening_allocs_def opening_rows_refs)
  have retained: "str_of (jget ''post_opening_void_reserve_atoms'' OPENING_POLICY) = ''5000000000000000000000000''"
    by (simp add: OPENING_POLICY_def)
  have digest: "opening_digest H' (JObj [
             (''schema'', JStr ''void.wc-void-opening-allocation-set.v1''),
             (''allocation_policy'', jget ''opening_allocation_policy'' OPENING_POLICY),
             (''allocations'', JArr (map allocation_json (opening_allocs cset)))]) = Inr
     (''sha256:'' @ H' (canonicalJson (JObj [
             (''schema'', JStr ''void.wc-void-opening-allocation-set.v1''),
             (''allocation_policy'', jget ''opening_allocation_policy'' OPENING_POLICY),
             (''allocations'', JArr (map allocation_json (opening_allocs cset)))])))"
    by (rule opening_digest_safe) (simp add: OPENING_POLICY_def list_all_iff allocation_json_def)
  show ?thesis
    unfolding deriveOpeningAllocations_def Let_def W opening_rows_def [symmetric]
      opening_refs_def [symmetric] opening_allocs_def [symmetric] sorted
    using wf_total_pos [OF assms] opening_leftover [OF assms]
    by (simp add: opening_rows_refs sum_opening_allocs [OF assms] len digest retained opening_tranche_eq
        del: jget.simps map_map)
qed

text \<open>Row by row, the allocation is the commitment with the floor of its share or one atom more.\<close>

lemma opening_allocs_rows:
  assumes "wf_commitment_set H launch cset"
  shows "list_all2 (\<lambda>c a. a_commitment_id a = commitment_id c \<and> a_participant_id a = participant_id c \<and>
        a_account a = account c \<and> a_wc_units a = wc_units c \<and>
        dec_val (void_atoms a) - wc_of c * opening_tranche div sum_list (map wc_of (commitments cset)) \<in> {0, 1})
      (commitments cset) (opening_allocs cset)"
proof -
  let ?bs = "bump (opening_refs cset) (opening_rows cset)"
  have cs: "commitments cset = map w_commitment ?bs" by (simp add: opening_rows_refs)
  have row: "dec_val (void_atoms (allocation_of w)) -
      wc_of (w_commitment w) * opening_tranche div sum_list (map wc_of (commitments cset)) \<in> {0, 1}"
    if "w \<in> set ?bs" for w
    using that
    by (rule bump_member [OF assms])
      (use opening_row_nonneg(1,3) [OF assms] in \<open>auto simp: allocation_of_def\<close>)
  have "list_all2 (\<lambda>c a. a_commitment_id a = commitment_id c \<and> a_participant_id a = participant_id c \<and>
        a_account a = account c \<and> a_wc_units a = wc_units c \<and>
        dec_val (void_atoms a) - wc_of c * opening_tranche div sum_list (map wc_of (commitments cset)) \<in> {0, 1})
      (map w_commitment ?bs) (map allocation_of ?bs)"
    unfolding list_all2_map1 list_all2_map2 list_all2_same using row by (auto simp: allocation_of_def)
  then show ?thesis by (simp only: cs [symmetric] opening_allocs_def)
qed

text \<open>Who receives one of the left-over atoms has at least the remainder of who does not.\<close>

lemma opening_refs_largest:
  assumes "w \<in> set (opening_rows cset)" "w_ref w \<in> set (opening_refs cset)"
    and "v \<in> set (opening_rows cset)" "w_ref v \<notin> set (opening_refs cset)"
  shows "w_remainder v \<le> w_remainder w"
proof -
  let ?f = "\<lambda>w. (- w_remainder w, commitment_id (w_commitment w))"
  let ?top = "take (nat (opening_tranche - sum_list (map floor_atoms (opening_rows cset)))) (ranked_entries (opening_rows cset))"
  have ranked: "set (ranked_entries (opening_rows cset)) = set (opening_rows cset)" "sorted (map ?f (ranked_entries (opening_rows cset)))"
    by (simp_all add: ranked_entries_def)
  have "distinct (map w_ref (opening_rows cset))" by (simp add: opening_rows_refs)
  moreover obtain w' where "w' \<in> set ?top" "w_ref w' = w_ref w"
    using assms(2) by (auto simp: opening_refs_def)
  moreover then have "w' \<in> set (opening_rows cset)" using ranked(1) by (metis in_set_takeD)
  ultimately have "w \<in> set ?top" using assms(1) by (auto simp: distinct_map inj_on_def)
  moreover have "v \<notin> set ?top" using assms(4) by (auto simp: opening_refs_def)
  ultimately have "?f w \<le> ?f v" using ranked assms(3) by (intro sorted_take_le) auto
  then show ?thesis by (auto simp: less_eq_prod_def)
qed

lemma opening_allocs_monotone:
  assumes "wf_commitment_set H launch cset" "a \<in> set (opening_allocs cset)" "b \<in> set (opening_allocs cset)"
    and "dec_val (a_wc_units a) < dec_val (a_wc_units b)"
  shows "dec_val (void_atoms a) \<le> dec_val (void_atoms b)"
proof -
  let ?W = "sum_list (map wc_of (commitments cset))" and ?T = opening_tranche
  note W = wf_total_pos [OF assms(1)]
  have row: "\<exists>w \<in> set (opening_rows cset). wc_of (w_commitment w) = dec_val (a_wc_units x) \<and>
      dec_val (void_atoms x) = floor_atoms w + (if w_ref w \<in> set (opening_refs cset) then 1 else 0)"
    if "x \<in> set (opening_allocs cset)" for x
  proof -
    from that obtain w where w: "w \<in> set (bump (opening_refs cset) (opening_rows cset))" "x = allocation_of w"
      by (auto simp: opening_allocs_def)
    obtain w0 where "w0 \<in> set (opening_rows cset)" "w_commitment w = w_commitment w0"
      "allocated_atoms w = floor_atoms w0 + (if w_ref w0 \<in> set (opening_refs cset) then 1 else 0)"
      by (rule bump_member [OF assms(1) w(1)])
    with w(2) opening_row_nonneg(1) [OF assms(1)] show ?thesis
      by (intro bexI [of _ w0]) (auto simp: allocation_of_def)
  qed
  from row [OF assms(2)] row [OF assms(3)] obtain v w where
    v: "v \<in> set (opening_rows cset)" "wc_of (w_commitment v) = dec_val (a_wc_units a)"
      "dec_val (void_atoms a) = floor_atoms v + (if w_ref v \<in> set (opening_refs cset) then 1 else 0)" and
    w: "w \<in> set (opening_rows cset)" "wc_of (w_commitment w) = dec_val (a_wc_units b)"
      "dec_val (void_atoms b) = floor_atoms w + (if w_ref w \<in> set (opening_refs cset) then 1 else 0)"
    by blast
  note rv = opening_row_nonneg(3,4) [OF assms(1) v(1)] and rw = opening_row_nonneg(3,4) [OF assms(1) w(1)]
  have lt: "wc_of (w_commitment v) * ?T < wc_of (w_commitment w) * ?T"
    using assms(4) v(2) w(2) by (simp add: opening_tranche_eq)
  then have floors: "floor_atoms v \<le> floor_atoms w"
    unfolding rv rw by (intro zdiv_mono1) (use W in auto)
  have "w_remainder v < w_remainder w" if "floor_atoms v = floor_atoms w"
    using lt that unfolding rv rw by (rule mod_less_of_div_eq)
  with opening_refs_largest [OF v(1) _ w(1)] floors show ?thesis
    unfolding v(3) w(3) by (cases "floor_atoms v = floor_atoms w") auto
qed

section \<open>Evidence for a commitment set\<close>

text \<open>
  Debits and admissions are both evidence about commitments: each piece names a commitment and
  repeats some of its fields. What the verifiers need of such evidence is stated once: \<open>row\<close> reads
  the repeated fields off a piece of evidence, \<open>crow\<close> off a commitment, and \<open>key\<close> finds the
  commitment's identifier among them. Evidence for distinct commitments of a set of the same size
  covers the set exactly.
\<close>

locale commitment_evidence =
  fixes row :: "'e \<Rightarrow> 'r" and crow :: "commitment \<Rightarrow> 'r" and key :: "'r \<Rightarrow> string"
  assumes key_crow: "key (crow c) = commitment_id c"
begin

lemma rows_eq:
  assumes "distinct (map commitment_id cs)" "distinct (map (key \<circ> row) es)" "length es = length cs"
    and "\<And>e. e \<in> set es \<Longrightarrow> \<exists>c \<in> set cs. row e = crow c"
  shows "mset (map row es) = mset (map crow cs)"
proof -
  have dc: "distinct (map crow cs)"
    using assms(1) by (auto simp: distinct_map inj_on_def) (metis key_crow)
  have de: "distinct (map row es)"
    using assms(2) by (auto simp: distinct_map inj_on_def)
  have sub: "set (map row es) \<subseteq> set (map crow cs)"
    using assms(4) by fastforce
  have "card (set (map row es)) = card (set (map crow cs))"
    using distinct_card [OF dc] distinct_card [OF de] assms(3) by simp
  with sub have "set (map row es) = set (map crow cs)"
    by (intro card_subset_eq) auto
  then show ?thesis using dc de set_eq_iff_mset_eq_distinct by blast
qed

end

section \<open>Verified settlements\<close>

definition settles :: "settlement \<Rightarrow> commitment \<Rightarrow> bool" where
  "settles s c \<longleftrightarrow> commitment_id c = s_commitment_id s \<and> account c = s_account s \<and> wc_units c = amount_wc s"

definition wf_debit_loop :: "commitment list \<Rightarrow> debit_loop \<Rightarrow> bool" where
  "wf_debit_loop cs st \<longleftrightarrow>
     seenCommitments st = map s_commitment_id (canonicalSettlements st) \<and>
     seenSettlements st = map settlement_id (canonicalSettlements st) \<and>
     distinct (seenCommitments st) \<and> distinct (seenSettlements st) \<and>
     totalSettledWc st = sum_list (map (\<lambda>s. dec_val (amount_wc s)) (canonicalSettlements st)) \<and>
     list_all (\<lambda>s. (\<exists>c \<in> set cs. settles s c) \<and> isSafeInteger (JNum (ts_ms s))) (canonicalSettlements st)"

lemma map_of_commitments:
  "map_of (map (\<lambda>c. (commitment_id c, c)) cs) k = Some c \<Longrightarrow> c \<in> set cs \<and> commitment_id c = k"
  by (induction cs) (auto split: if_splits)

lemma verify_debit_step:
  assumes "list_all (wf_commitment H launch) cs"
  shows "post (\<lambda>st'. wf_debit_loop cs st \<longrightarrow>
      wf_debit_loop cs st' \<and> length (canonicalSettlements st') = Suc (length (canonicalSettlements st)))
    (verify_debit H' launch' (map (\<lambda>c. (commitment_id c, c)) cs) st raw)"
  unfolding verify_debit_def Let_def
proof (intro js_wp post_bnd; (simp only: post_Inl)?)
  fix v meta sid cid lid acct c derived
  let ?amount = "num_of (jget ''amount'' v)"
  assume num: "\<not> \<not> debit_numeric_ok v"
    and c: "map_of (map (\<lambda>c. (commitment_id c, c)) cs) cid = Some c"
    and eq: "\<not> (account c \<noteq> acct \<or> wc_of c \<noteq> ?amount)"
    and fresh: "sid \<notin> set (seenSettlements st)" "cid \<notin> set (seenCommitments st)"
  from c have cs: "c \<in> set cs" "commitment_id c = cid" by (auto dest: map_of_commitments)
  with assms have dec: "is_decimal (wc_units c)" "0 < wc_of c"
    by (auto simp: list_all_iff wf_commitment_def)
  with eq have "wc_units c = int_str ?amount" "0 < ?amount"
    by (metis dec_str_dec_val int_str_nonneg less_imp_le, simp)
  moreover have "isSafeInteger (JNum (num_of (jget ''ts_ms'' v)))"
    using num by (auto simp: debit_numeric_ok_def isSafeInteger_iff)
  ultimately show "post (\<lambda>st'. wf_debit_loop cs st \<longrightarrow> wf_debit_loop cs st' \<and>
        length (canonicalSettlements st') = Suc (length (canonicalSettlements st)))
      (Inr \<lparr> seenSettlements = seenSettlements st @ [sid], seenCommitments = seenCommitments st @ [cid],
          totalSettledWc = totalSettledWc st + ?amount,
          canonicalSettlements = canonicalSettlements st @
            [\<lparr> settlement_id = sid, s_commitment_id = cid, s_account = acct,
               amount_wc = int_str ?amount, ts_ms = num_of (jget ''ts_ms'' v) \<rparr>] \<rparr>)"
    using cs eq fresh by (auto simp: wf_debit_loop_def settles_def)
qed

abbreviation settlement_row :: "settlement \<Rightarrow> string \<times> string \<times> string" where
  "settlement_row s \<equiv> (s_commitment_id s, s_account s, amount_wc s)"

abbreviation commitment_row :: "commitment \<Rightarrow> string \<times> string \<times> string" where
  "commitment_row c \<equiv> (commitment_id c, account c, wc_units c)"

interpretation debit_evidence: commitment_evidence settlement_row commitment_row fst
  by unfold_locales simp

lemma settlement_rows_total:
  assumes "mset (map settlement_row ss) = mset (map commitment_row cs)"
  shows "sum_list (map (\<lambda>s. dec_val (amount_wc s)) ss) = sum_list (map wc_of cs)"
proof -
  have "image_mset (\<lambda>r. dec_val (snd (snd r))) (mset (map settlement_row ss)) =
    image_mset (\<lambda>r. dec_val (snd (snd r))) (mset (map commitment_row cs))"
    using assms by simp
  then have "mset (map (\<lambda>s. dec_val (amount_wc s)) ss) = mset (map wc_of cs)"
    by (simp add: image_mset.compositionality comp_def)
  then show ?thesis by (metis sum_mset_sum_list)
qed

text \<open>The debit loop, once it returns, has settled every commitment and the full total.\<close>

lemma debit_loop_final:
  assumes wf: "wf_commitment_set H launch cset" and len: "int (length vs) = commitment_count cset"
    and fold: "foldM (verify_debit H' launch' (map (\<lambda>c. (commitment_id c, c)) (commitments cset)))
      \<lparr> seenSettlements = [], seenCommitments = [], totalSettledWc = 0, canonicalSettlements = [] \<rparr> vs = Inr st"
  shows "mset (map settlement_row (canonicalSettlements st)) = mset (map commitment_row (commitments cset))"
    "length (seenCommitments st) = length (commitments cset)"
    "totalSettledWc st = sum_list (map wc_of (commitments cset))"
    "wf_debit_loop (commitments cset) st"
proof -
  let ?st0 = "\<lparr> seenSettlements = [], seenCommitments = [], totalSettledWc = 0, canonicalSettlements = [] \<rparr>"
  note W = wf [unfolded wf_commitment_set_def]
  have "list_all (wf_commitment H launch) (commitments cset)" using W by simp
  note step = verify_debit_step [OF this, THEN postD]
  have "wf_debit_loop (commitments cset) st \<and> length (canonicalSettlements st) = length vs"
    using fold
  proof (rule foldM_prefix_induct)
    show "wf_debit_loop (commitments cset) ?st0 \<and> length (canonicalSettlements ?st0) = length []"
      by (simp add: wf_debit_loop_def)
  qed (use step in fastforce)
  then show loop: "wf_debit_loop (commitments cset) st" and n: "length (seenCommitments st) = length (commitments cset)"
    using len W by (auto simp: wf_debit_loop_def)
  show rows: "mset (map settlement_row (canonicalSettlements st)) = mset (map commitment_row (commitments cset))"
  proof (rule debit_evidence.rows_eq)
    fix e assume "e \<in> set (canonicalSettlements st)"
    with loop obtain c where "c \<in> set (commitments cset)" "settles e c"
      by (auto simp: wf_debit_loop_def list_all_iff)
    then show "\<exists>c \<in> set (commitments cset). settlement_row e = commitment_row c"
      by (intro bexI [of _ c]) (simp_all add: settles_def)
  qed (use loop n W in \<open>auto simp: wf_debit_loop_def comp_def\<close>)
  show "totalSettledWc st = sum_list (map wc_of (commitments cset))"
    using loop settlement_rows_total [OF rows] by (simp add: wf_debit_loop_def)
qed

lemma settlements_Inr:
  assumes "verifyWcVoidOpeningLedgerSettlementsV1 H launchId raw debits = Inr sset"
  obtains cset where "verifyWcVoidOpeningCommitmentsV1 H launchId raw = Inr cset"
    "mset (map settlement_row (settlements sset)) = mset (map commitment_row (commitments cset))"
    "distinct (map settlement_id (settlements sset))"
    "total_settled_wc_units sset = total_committed_wc_units cset"
    "settlement_count sset = commitment_count cset"
proof -
  from assms obtain cset vs st where c: "verifyWcVoidOpeningCommitmentsV1 H launchId raw = Inr cset"
    and len: "int (length vs) = commitment_count cset"
    and fold: "foldM (verify_debit H (str_of launchId) (map (\<lambda>c. (commitment_id c, c)) (commitments cset)))
      \<lparr> seenSettlements = [], seenCommitments = [], totalSettledWc = 0, canonicalSettlements = [] \<rparr> vs = Inr st"
    and total: "int_str (totalSettledWc st) = total_committed_wc_units cset"
    and sset: "settlements sset = sort_key settlement_id (canonicalSettlements st)"
      "total_settled_wc_units sset = int_str (totalSettledWc st)"
      "settlement_count sset = int (length (sort_key settlement_id (canonicalSettlements st)))"
    unfolding verifyWcVoidOpeningLedgerSettlementsV1_def Let_def bnd_eq_Inr guard_eq_Inr sum.inject by force
  note f = debit_loop_final [OF verified_commitments_wf(1) [OF c] len fold]
  show thesis
  proof (rule that [OF c])
    show "mset (map settlement_row (settlements sset)) = mset (map commitment_row (commitments cset))"
      using f(1) by (simp add: sset)
    show "distinct (map settlement_id (settlements sset))"
      using f(4) by (auto simp: sset wf_debit_loop_def distinct_map_sort_key)
    show "settlement_count sset = commitment_count cset"
      using f(2,4) verified_commitments_wf(1) [OF c] by (simp add: sset wf_debit_loop_def wf_commitment_set_def)
  qed (simp add: sset total)
qed

section \<open>What the verifiers accept\<close>

text \<open>
  The request for a commitment, and the debit that settles it, with the identifiers the source
  computes. The verifiers accept every set of them whose identifiers do not collide.
\<close>

definition sealed_commitment :: "(string \<Rightarrow> string) \<Rightarrow> string \<Rightarrow> string \<Rightarrow> string \<Rightarrow> string \<Rightarrow> commitment" where
  "sealed_commitment H launch p acct wc =
     (let c = \<lparr> commitment_id = [], coupled_launch_id = launch, participant_id = p, account = acct, wc_units = wc \<rparr>
      in c \<lparr> commitment_id := ''sha256:'' @ H (canonicalJson (commitment_body c)) \<rparr>)"

definition commitment_request :: "commitment \<Rightarrow> jsv" where
  "commitment_request c = JObj [
     (''schema'', JStr OPENING_COMMITMENT_SCHEMA),
     (''commitment_id'', JStr (commitment_id c)),
     (''coupled_launch_id'', JStr (coupled_launch_id c)),
     (''participant_id'', JStr (participant_id c)),
     (''account'', JStr (account c)),
     (''wc_units'', JStr (wc_units c))]"

definition good_commitment :: "(string \<Rightarrow> string) \<Rightarrow> string \<Rightarrow> commitment \<Rightarrow> bool" where
  "good_commitment H launch c \<longleftrightarrow> wf_commitment H launch c \<and>
     prefix_hex ''sha256:'' 64 (commitment_id c) \<and> prefix_hex ''sha256:'' 64 (participant_id c) \<and>
     3 \<le> slen (account c) \<and> slen (account c) \<le> 128 \<and> list_all account_char (account c)"

lemma exactObject_literal:
  assumes "map fst kvs = keys" "distinct keys"
  shows "exactObject (JObj kvs) keys code = Inr (JObj kvs)"
proof -
  have "map (\<lambda>kv. (fst kv, jget (fst kv) (JObj kvs))) kvs = kvs"
    by (rule map_idI) (use assms in auto)
  then have "map (\<lambda>k. (k, jget k (JObj kvs))) keys = kvs"
    unfolding assms(1) [symmetric] by (simp add: comp_def del: jget.simps)
  then show ?thesis using assms by (simp add: exactObject_def same_keys_def del: jget.simps)
qed

lemma commitment_request_fields:
  "jget ''schema'' (commitment_request c) = JStr OPENING_COMMITMENT_SCHEMA"
  "jget ''commitment_id'' (commitment_request c) = JStr (commitment_id c)"
  "jget ''coupled_launch_id'' (commitment_request c) = JStr (coupled_launch_id c)"
  "jget ''participant_id'' (commitment_request c) = JStr (participant_id c)"
  "jget ''account'' (commitment_request c) = JStr (account c)"
  "jget ''wc_units'' (commitment_request c) = JStr (wc_units c)"
  by (simp_all add: commitment_request_def)

lemma verify_commitment_accepts:
  assumes "good_commitment H launch c"
    and "commitment_id c \<notin> set (seenCommitmentIds st)" "participant_id c \<notin> set (seenParticipantIds st)"
  shows "verify_commitment H launch st (commitment_request c) =
    Inr \<lparr> seenCommitmentIds = seenCommitmentIds st @ [commitment_id c],
          seenParticipantIds = seenParticipantIds st @ [participant_id c],
          totalWc = totalWc st + wc_of c, canonicalCommitments = canonicalCommitments st @ [c] \<rparr>"
proof -
  have wf: "coupled_launch_id c = launch" "commitment_id c = ''sha256:'' @ H (canonicalJson (commitment_body c))"
    using assms(1) by (auto simp: good_commitment_def wf_commitment_def)
  have obj: "exactObject (commitment_request c) COMMITMENT_KEYS code = Inr (commitment_request c)" for code
    unfolding commitment_request_def by (rule exactObject_literal) (simp_all add: COMMITMENT_KEYS_def)
  have "commitmentPayload (commitment_request c) = commitment_body c"
    by (simp add: commitmentPayload_def commitment_request_def commitment_body_def)
  moreover have "opening_digest H (commitment_body c) = Inr (commitment_id c)"
    unfolding wf(2) by (rule opening_digest_safe) (simp add: commitment_body_def)
  ultimately have "wcVoidOpeningCommitmentIdV1 H (commitment_request c) = Inr (commitment_id c)"
    by (simp add: wcVoidOpeningCommitmentIdV1_def obj)
  moreover have "is_decimal (wc_units c)" "0 < wc_of c" "wc_of c \<le> MAX_SAFE_INTEGER"
    "prefix_hex ''sha256:'' 64 (commitment_id c)" "prefix_hex ''sha256:'' 64 (participant_id c)"
    "3 \<le> slen (account c)" "slen (account c) \<le> 128" "list_all account_char (account c)"
    using assms(1) unfolding good_commitment_def wf_commitment_def by blast+
  ultimately show ?thesis
    using assms(2,3)
    by (simp add: verify_commitment_def obj commitment_request_fields wf(1) canonicalSha_def canonicalAccount_def
        positiveWholeWc_def)
qed

lemma verify_commitments_accept:
  assumes "list_all (good_commitment H launch) cs"
    and "distinct (seenCommitmentIds st @ map commitment_id cs)" "distinct (seenParticipantIds st @ map participant_id cs)"
  shows "foldM (verify_commitment H launch) st (map commitment_request cs) =
    Inr \<lparr> seenCommitmentIds = seenCommitmentIds st @ map commitment_id cs,
          seenParticipantIds = seenParticipantIds st @ map participant_id cs,
          totalWc = totalWc st + sum_list (map wc_of cs), canonicalCommitments = canonicalCommitments st @ cs \<rparr>"
  using assms
  by (induction cs arbitrary: st) (auto simp: verify_commitment_accepts)

lemma commitments_accepted:
  assumes "list_all (good_commitment H launch) cs" "cs \<noteq> []" "int (length cs) \<le> MAX_SET_SIZE"
    and "distinct (map commitment_id cs)" "distinct (map participant_id cs)" "prefix_hex ''sha256:'' 64 launch"
  shows "\<exists>root. verifyWcVoidOpeningCommitmentsV1 H (JStr launch) (JArr (map commitment_request cs)) =
    Inr \<lparr> commitment_count = int (length cs), commitment_set_root = root,
          total_committed_wc_units = int_str (sum_list (map wc_of cs)),
          commitments = sort_key commitment_id cs,
          participant_provenance_verified = False, ledger_settlement_verified = False \<rparr>"
proof -
  have "safe_plain (JObj [(''schema'', JStr OPENING_COMMITMENT_SCHEMA), (''coupled_launch_id'', JStr launch),
      (''commitments'', JArr (map commitment_json (sort_key commitment_id cs)))])"
    by (simp add: list_all_iff commitment_json_def)
  note d = opening_digest_safe [OF this, of H]
  show ?thesis
    using assms d
    by (simp add: verifyWcVoidOpeningCommitmentsV1_def canonicalSha_def exactArray_def verify_commitments_accept Let_def
        neq_Nil_conv not_less)
qed

definition debit_body :: "commitment \<Rightarrow> int \<Rightarrow> jsv" where
  "debit_body c ts = JObj [
     (''schema'', JStr OPENING_LEDGER_DEBIT_SCHEMA), (''kind'', JStr ''debit''),
     (''account'', JStr (account c)), (''amount'', JNum (wc_of c)), (''delta'', JNum (- wc_of c)),
     (''ts_ms'', JNum ts), (''reason'', JStr ''wc_void_opening_settlement_v1''),
     (''commitment_id'', JStr (commitment_id c)), (''coupled_launch_id'', JStr (coupled_launch_id c)),
     (''pair'', JStr ''WC_VOID''), (''source_domain'', JStr ''void-work-credit-ledger''),
     (''quote_asset_form'', JStr ''ledger-credit''), (''quote_unit'', JStr ''wc''),
     (''quote_decimals'', JNum 0),
     (''market_meta'', JObj [(''adapter_id'', JStr OPENING_SETTLEMENT_ADAPTER_ID),
        (''opening_only'', JBool True), (''fixed_price'', JBool False),
        (''protocol_wc_seed_units'', JStr ''0'')])]"

definition debit_id :: "(string \<Rightarrow> string) \<Rightarrow> commitment \<Rightarrow> int \<Rightarrow> string" where
  "debit_id H c ts = ''sha256:'' @ H (canonicalJson (debit_body c ts))"

definition debit_request :: "(string \<Rightarrow> string) \<Rightarrow> commitment \<times> int \<Rightarrow> jsv" where
  "debit_request H ct = jput ''settlement_id'' (JStr (debit_id H (fst ct) (snd ct))) (debit_body (fst ct) (snd ct))"

definition debit_settlement :: "(string \<Rightarrow> string) \<Rightarrow> commitment \<times> int \<Rightarrow> settlement" where
  "debit_settlement H ct =
     \<lparr> settlement_id = debit_id H (fst ct) (snd ct), s_commitment_id = commitment_id (fst ct),
       s_account = account (fst ct), amount_wc = wc_units (fst ct), ts_ms = snd ct \<rparr>"

definition good_debit :: "(string \<Rightarrow> string) \<Rightarrow> string \<Rightarrow> commitment list \<Rightarrow> commitment \<times> int \<Rightarrow> bool" where
  "good_debit H launch cs ct \<longleftrightarrow>
     fst ct \<in> set cs \<and> good_commitment H launch (fst ct) \<and> 0 < snd ct \<and> snd ct \<le> MAX_SAFE_INTEGER"

lemma debit_request_snapshot:
  "exactObject (debit_request H (c, ts)) DEBIT_KEYS code =
     Inr (JObj (map (\<lambda>k. (k, jget k (debit_request H (c, ts)))) DEBIT_KEYS))"
  by (simp add: exactObject_def debit_request_def debit_body_def same_keys_def DEBIT_KEYS_def)

lemma debit_snapshot_payload:
  "debitPayload (JObj (map (\<lambda>k. (k, jget k (debit_request H (c, ts)))) DEBIT_KEYS)) = debit_body c ts"
  by (simp add: debitPayload_def DEBIT_KEYS_def debit_request_def debit_body_def)

definition debit_view :: "(string \<Rightarrow> string) \<Rightarrow> commitment \<Rightarrow> int \<Rightarrow> jsv" where
  "debit_view H c ts = JObj (map (\<lambda>k. (k, jget k (debit_request H (c, ts)))) DEBIT_KEYS)"

lemma debit_view_fields:
  "jget ''schema'' (debit_view H c ts) = JStr OPENING_LEDGER_DEBIT_SCHEMA"
  "jget ''account'' (debit_view H c ts) = JStr (account c)"
  "jget ''amount'' (debit_view H c ts) = JNum (wc_of c)"
  "jget ''delta'' (debit_view H c ts) = JNum (- wc_of c)"
  "jget ''ts_ms'' (debit_view H c ts) = JNum ts"
  "jget ''settlement_id'' (debit_view H c ts) = JStr (debit_id H c ts)"
  "jget ''commitment_id'' (debit_view H c ts) = JStr (commitment_id c)"
  "jget ''coupled_launch_id'' (debit_view H c ts) = JStr (coupled_launch_id c)"
  "debit_policy_ok (debit_view H c ts)"
  by (simp_all add: debit_view_def DEBIT_KEYS_def debit_request_def debit_body_def debit_policy_ok_def OPENING_POLICY_def)

lemma debit_view_meta:
  "exactObject (jget ''market_meta'' (debit_view H c ts)) META_KEYS code =
     Inr (jget ''market_meta'' (debit_body c ts))"
  "debit_meta_ok (jget ''market_meta'' (debit_body c ts))"
  by (simp_all add: debit_view_def DEBIT_KEYS_def debit_request_def debit_body_def exactObject_literal META_KEYS_def
      debit_meta_ok_def)

lemma debit_view_digest:
  assumes "0 < wc_of c" "wc_of c \<le> MAX_SAFE_INTEGER" "0 < ts" "ts \<le> MAX_SAFE_INTEGER"
  shows "wcVoidOpeningSettlementIdV1 H (debit_view H c ts) = Inr (debit_id H c ts)"
proof -
  have "exactObject (debit_view H c ts) DEBIT_KEYS code = Inr (debit_view H c ts)" for code
    unfolding debit_view_def by (rule exactObject_snapshot) (simp add: DEBIT_KEYS_def)
  then have "wcVoidOpeningSettlementIdV1 H (debit_view H c ts) = opening_digest H (debit_body c ts)"
    by (simp add: wcVoidOpeningSettlementIdV1_def debit_view_def debit_snapshot_payload)
  also have "\<dots> = Inr (debit_id H c ts)"
    unfolding debit_id_def by (rule opening_digest_safe) (use assms in \<open>simp add: debit_body_def MAX_SAFE_INTEGER_def\<close>)
  finally show ?thesis .
qed

lemma verify_debit_accepts:
  assumes "good_debit H launch cs (c, ts)" "distinct (map commitment_id cs)" "\<And>s. hex_n 64 (H s)"
    and launch: "prefix_hex ''sha256:'' 64 launch"
    and "debit_id H c ts \<notin> set (seenSettlements st)" "commitment_id c \<notin> set (seenCommitments st)"
  shows "verify_debit H launch (map (\<lambda>c. (commitment_id c, c)) cs) st (debit_request H (c, ts)) =
    Inr \<lparr> seenSettlements = seenSettlements st @ [debit_id H c ts],
          seenCommitments = seenCommitments st @ [commitment_id c],
          totalSettledWc = totalSettledWc st + wc_of c,
          canonicalSettlements = canonicalSettlements st @ [debit_settlement H (c, ts)] \<rparr>"
proof -
  have c: "c \<in> set cs" "0 < ts" "ts \<le> MAX_SAFE_INTEGER" "coupled_launch_id c = launch" "is_decimal (wc_units c)"
    "0 < wc_of c" "wc_of c \<le> MAX_SAFE_INTEGER" "prefix_hex ''sha256:'' 64 (commitment_id c)"
    "3 \<le> slen (account c)" "slen (account c) \<le> 128" "list_all account_char (account c)"
    using assms(1) unfolding good_debit_def good_commitment_def wf_commitment_def by auto
  have lookup: "map_of (map (\<lambda>c. (commitment_id c, c)) cs) (commitment_id c) = Some c"
    by (rule map_of_is_SomeI) (use assms(2) c(1) in \<open>auto simp: comp_def\<close>)
  have sid: "prefix_hex ''sha256:'' 64 (debit_id H c ts)" unfolding debit_id_def prefix_hex_append by (rule assms(3))
  have wc: "int_str (wc_of c) = wc_units c" using c(5,6) by simp
  have num: "debit_numeric_ok (debit_view H c ts)"
    using c by (simp add: debit_numeric_ok_def debit_view_fields MAX_SAFE_INTEGER_def)
  show ?thesis
    unfolding verify_debit_def Let_def debit_request_snapshot [folded debit_view_def] bnd_simps
      debit_view_meta debit_view_fields
    using c assms(5,6) lookup launch sid wc num debit_view_digest [OF c(6,7,2,3), of H]
    by (simp add: canonicalSha_def canonicalAccount_def debit_view_fields debit_view_meta debit_settlement_def)
qed

lemma verify_debits_accept:
  assumes "list_all (good_debit H launch cs) cts" "distinct (map commitment_id cs)" "\<And>s. hex_n 64 (H s)"
    and "prefix_hex ''sha256:'' 64 launch"
    and "distinct (seenSettlements st @ map (settlement_id \<circ> debit_settlement H) cts)"
      "distinct (seenCommitments st @ map (commitment_id \<circ> fst) cts)"
  shows "foldM (verify_debit H launch (map (\<lambda>c. (commitment_id c, c)) cs)) st (map (debit_request H) cts) =
    Inr \<lparr> seenSettlements = seenSettlements st @ map (settlement_id \<circ> debit_settlement H) cts,
          seenCommitments = seenCommitments st @ map (commitment_id \<circ> fst) cts,
          totalSettledWc = totalSettledWc st + sum_list (map (wc_of \<circ> fst) cts),
          canonicalSettlements = canonicalSettlements st @ map (debit_settlement H) cts \<rparr>"
  using assms(1,5,6)
proof (induction cts arbitrary: st)
  case (Cons ct cts)
  obtain c ts where ct: "ct = (c, ts)" by (cases ct)
  have "verify_debit H launch (map (\<lambda>c. (commitment_id c, c)) cs) st (debit_request H (c, ts)) =
    Inr \<lparr> seenSettlements = seenSettlements st @ [debit_id H c ts],
          seenCommitments = seenCommitments st @ [commitment_id c],
          totalSettledWc = totalSettledWc st + wc_of c,
          canonicalSettlements = canonicalSettlements st @ [debit_settlement H (c, ts)] \<rparr>"
    by (rule verify_debit_accepts) (use Cons.prems assms(2-4) ct in \<open>auto simp: debit_settlement_def\<close>)
  with Cons show ?case by (simp add: ct debit_settlement_def)
qed simp

lemma settlements_accepted:
  assumes "list_all (good_commitment H launch) cs" "cs \<noteq> []" "int (length cs) \<le> MAX_SET_SIZE"
    and "distinct (map commitment_id cs)" "distinct (map participant_id cs)" "prefix_hex ''sha256:'' 64 launch"
    and "list_all (good_debit H launch cs) cts" "\<And>s. hex_n 64 (H s)" "mset (map fst cts) = mset cs"
    and "distinct (map (\<lambda>ct. debit_id H (fst ct) (snd ct)) cts)"
  shows "\<exists>sset. verifyWcVoidOpeningLedgerSettlementsV1 H (JStr launch) (JArr (map commitment_request cs))
      (JArr (map (debit_request H) cts)) = Inr sset \<and>
    total_settled_wc_units sset = int_str (sum_list (map wc_of cs)) \<and>
    settlements sset = sort_key settlement_id (map (debit_settlement H) cts)"
proof -
  let ?cs = "sort_key commitment_id cs"
  from commitments_accepted [OF assms(1-6)] obtain root where
    c: "verifyWcVoidOpeningCommitmentsV1 H (JStr launch) (JArr (map commitment_request cs)) =
      Inr \<lparr> commitment_count = int (length cs), commitment_set_root = root,
          total_committed_wc_units = int_str (sum_list (map wc_of cs)), commitments = ?cs,
          participant_provenance_verified = False, ledger_settlement_verified = False \<rparr>" ..
  have len: "length cts = length cs" using assms(9) by (metis length_map mset_eq_length)
  have ids: "distinct (map commitment_id ?cs)" using assms(4) by (simp add: distinct_map_sort_key)
  have perm: "mset (map (commitment_id \<circ> fst) cts) = mset (map commitment_id cs)"
    using arg_cong [OF assms(9), of "image_mset commitment_id"] by (simp add: image_mset.compositionality)
  have good: "list_all (good_debit H launch ?cs) cts"
    using assms(7) by (simp add: list_all_iff good_debit_def)
  have fold: "foldM (verify_debit H launch (map (\<lambda>c. (commitment_id c, c)) ?cs))
      \<lparr> seenSettlements = [], seenCommitments = [], totalSettledWc = 0, canonicalSettlements = [] \<rparr>
      (map (debit_request H) cts) =
    Inr \<lparr> seenSettlements = map (settlement_id \<circ> debit_settlement H) cts,
          seenCommitments = map (commitment_id \<circ> fst) cts,
          totalSettledWc = sum_list (map (wc_of \<circ> fst) cts),
          canonicalSettlements = map (debit_settlement H) cts \<rparr>"
    using verify_debits_accept [of H launch ?cs cts
        "\<lparr> seenSettlements = [], seenCommitments = [], totalSettledWc = 0, canonicalSettlements = [] \<rparr>"]
      good assms(6,8,10) ids mset_eq_imp_distinct_iff [OF perm] assms(4)
    by (simp add: debit_settlement_def comp_def)
  have sum: "sum_list (map (wc_of \<circ> fst) cts) = sum_list (map wc_of cs)"
    using arg_cong [OF assms(9), of "image_mset wc_of"]
    by (metis (no_types, lifting) image_mset.compositionality mset_map sum_mset_sum_list)
  have "safe_plain (JObj [(''schema'', JStr OPENING_LEDGER_DEBIT_SCHEMA), (''coupled_launch_id'', JStr launch),
      (''settlements'', JArr (map settlement_json (sort_key settlement_id (map (debit_settlement H) cts))))])"
    using assms(7) by (auto simp: list_all_iff settlement_json_def debit_settlement_def good_debit_def MAX_SAFE_INTEGER_def)
  note d = opening_digest_safe [OF this, of H]
  have "remdups (map fst (map (\<lambda>c. (commitment_id c, c)) ?cs)) = map commitment_id ?cs"
    using ids by (simp add: comp_def distinct_remdups_id)
  then show ?thesis
    using assms(2,3) len fold sum d
    by (auto simp: verifyWcVoidOpeningLedgerSettlementsV1_def c exactArray_def Let_def neq_Nil_conv not_less)
qed

end
