(* ===== verification/Wc_Opening_Correct.thy ===== *)
theory Wc_Opening_Correct
  imports Wc_Opening
begin

text \<open>
  Properties of the coupled opening (theory \<open>Wc_Opening\<close>): the allocation is total, exact and
  fair, settlements and commitments are in bijection, the opening price is exact and in lowest
  terms.
\<close>

section \<open>The greatest common divisor loop\<close>

lemma gcd_loop_gcd: "0 \<le> a \<Longrightarrow> 0 \<le> b \<Longrightarrow> gcd_loop a b = gcd a b"
proof (induction a b rule: gcd_loop.induct)
  case (1 a b)
  show ?case
  proof (cases "b = 0")
    case True
    then show ?thesis using 1 by (simp add: gcd_loop.simps)
  next
    case False
    with 1 have "gcd_loop b (a mod b) = gcd b (a mod b)" by simp
    then show ?thesis using False by (subst gcd_loop.simps) (simp add: gcd_red_int [symmetric])
  qed
qed

lemma div_gcd_cross: "a div gcd a b * b = a * (b div gcd a (b::int))"
  by (metis div_mult_swap dvd_div_mult gcd_dvd1 gcd_dvd2)

section \<open>The fields of the opening state\<close>

definition opening_state ::
  "string \<Rightarrow> commitment_set \<Rightarrow> settlement_set \<Rightarrow> allocation_set \<Rightarrow> int \<Rightarrow> int \<Rightarrow> int \<Rightarrow> string \<Rightarrow> jsv" where
  "opening_state launch cset sset aset settled num den sid =
     JObj (opening_payload launch cset sset aset settled num den @
       (''opening_state_id'', JStr sid) # opening_report aset settled)"

lemma opening_state_fields:
  assumes "0 \<le> settled" "0 \<le> num" "0 \<le> den"
  shows "jdec [''post_opening_wc_reserve_units''] (opening_state launch cset sset aset settled num den sid) = settled"
    "jdec [''opening_price_wc_per_void_numerator''] (opening_state launch cset sset aset settled num den sid) = num"
    "jdec [''opening_price_wc_per_void_denominator''] (opening_state launch cset sset aset settled num den sid) = den"
    "jdec [''post_opening_void_reserve_atoms''] (opening_state launch cset sset aset settled num den sid) = 5000000000000000000000000"
  using assms
  by (simp_all add: opening_state_def opening_payload_def opening_report_def jdec_def OPENING_POLICY_def
      dec_val_def [of "CHR ''5'' # _"] digit_val_def)

lemma opening_payload_safe:
  "0 \<le> commitment_count cset \<Longrightarrow> commitment_count cset \<le> MAX_SET_SIZE \<Longrightarrow>
   safe_plain (JObj (opening_payload launch cset sset aset settled num den))"
  by (simp add: opening_payload_def OPENING_POLICY_def MAX_SET_SIZE_def MAX_SAFE_INTEGER_def)

lemma derive_opening_eq:
  assumes "same_keys (JObj kvs) OPENING_REQUEST_KEYS"
    and "canonicalSha (jget ''coupled_launch_id'' (JObj kvs)) ''INVALID_COUPLED_LAUNCH_ID'' = Inr launch"
    and "verifyWcVoidOpeningCommitmentsV1 H (JStr launch) (jget ''commitments'' (JObj kvs)) = Inr cset"
    and "verifyWcVoidOpeningLedgerSettlementsV1 H (JStr launch) (jget ''commitments'' (JObj kvs))
      (jget ''ledger_debits'' (JObj kvs)) = Inr sset"
    and "deriveOpeningAllocations H cset = Inr aset"
  shows "\<exists>sid. deriveWcVoidCoupledOpeningStateV1 H (JObj kvs) =
    (let settled = dec_val (total_settled_wc_units sset); g = gcd_loop settled 5000000
     in Inr (opening_state launch cset sset aset settled (settled div g) (5000000 div g) sid))"
proof -
  have keys: "''coupled_launch_id'' \<in> set OPENING_REQUEST_KEYS" "''commitments'' \<in> set OPENING_REQUEST_KEYS"
    "''ledger_debits'' \<in> set OPENING_REQUEST_KEYS" by (simp_all add: OPENING_REQUEST_KEYS_def)
  have whole: "dec_val (str_of (jget ''opening_sale_tranche_void_whole'' OPENING_POLICY)) = 5000000"
    by (simp add: OPENING_POLICY_def dec_val_def digit_val_def)
  have obj: "exactObject (JObj kvs) OPENING_REQUEST_KEYS code = Inr (JObj (map (\<lambda>k. (k, jget k (JObj kvs))) OPENING_REQUEST_KEYS))" for code
    using assms(1) by (simp add: exactObject_def del: jget.simps)
  have "wf_commitment_set H launch cset" using verified_commitments_wf(1) [OF assms(3)] by simp
  then have safe: "safe_plain (JObj (opening_payload l cset s a x y z))" for l s a x y z
    by (intro opening_payload_safe) (auto simp: wf_commitment_set_def)
  show ?thesis
    unfolding deriveWcVoidCoupledOpeningStateV1_def Let_def obj bnd_simps jget_snapshot [OF keys(1)]
      jget_snapshot [OF keys(2)] jget_snapshot [OF keys(3)] assms(2-5) whole opening_digest_safe [OF safe] opening_state_def
    by blast
qed

section \<open>A concrete opening\<close>

definition ex_launch :: string where
  "ex_launch = ''sha256:'' @ replicate 64 CHR ''a''"

definition ex_pid :: "char \<Rightarrow> string" where
  "ex_pid d = ''sha256:'' @ replicate 64 d"

definition ex_alice :: commitment where
  "ex_alice = \<lparr> commitment_id = ex_pid CHR ''1'', coupled_launch_id = ex_launch, participant_id = ex_pid CHR ''3'',
     account = ''alice'', wc_units = ''2'' \<rparr>"

definition ex_bob :: commitment where
  "ex_bob = \<lparr> commitment_id = ex_pid CHR ''0'', coupled_launch_id = ex_launch, participant_id = ex_pid CHR ''4'',
     account = ''bob'', wc_units = ''1'' \<rparr>"

text \<open>A digest with two values that tells the four texts of the example apart as needed.\<close>

definition ex_digest :: "string \<Rightarrow> string" where
  "ex_digest s =
     replicate 64 (if s = canonicalJson (commitment_body ex_alice) \<or> s = canonicalJson (debit_body ex_alice 5)
       then CHR ''1'' else CHR ''0'')"

lemma ex_digest_shape: "hex_n 64 (ex_digest s)"
  by (simp add: ex_digest_def hex_n_def list_all_iff is_lower_hex_def)

interpretation ex_digest: hex_digest ex_digest
  by unfold_locales (rule ex_digest_shape)

lemma ex_bodies_differ:
  "canonicalJson (commitment_body ex_bob) \<noteq> canonicalJson (commitment_body ex_alice)"
  "canonicalJson (commitment_body ex_bob) \<noteq> canonicalJson (debit_body ex_alice 5)"
  "canonicalJson (debit_body ex_bob 5) \<noteq> canonicalJson (commitment_body ex_alice)"
  "canonicalJson (debit_body ex_bob 5) \<noteq> canonicalJson (debit_body ex_alice 5)"
  by (rule canonicalJson_differ [where k = "''account''"];
      simp add: commitment_body_def debit_body_def ex_bob_def ex_alice_def)+

lemma ex_digests:
  "ex_digest (canonicalJson (commitment_body ex_alice)) = replicate 64 CHR ''1''"
  "ex_digest (canonicalJson (commitment_body ex_bob)) = replicate 64 CHR ''0''"
  "ex_digest (canonicalJson (debit_body ex_alice 5)) = replicate 64 CHR ''1''"
  "ex_digest (canonicalJson (debit_body ex_bob 5)) = replicate 64 CHR ''0''"
  using ex_bodies_differ by (simp_all add: ex_digest_def)

lemma ex_pid_shape: "is_lower_hex d \<Longrightarrow> prefix_hex ''sha256:'' 64 (ex_pid d)"
  unfolding ex_pid_def prefix_hex_append by (simp add: hex_n_def list_all_iff)

lemma ex_pid_inject [simp]: "ex_pid c = ex_pid d \<longleftrightarrow> c = d"
  by (auto simp: ex_pid_def)

lemma ex_fields [simp]:
  "commitment_id ex_alice = ex_pid CHR ''1''" "commitment_id ex_bob = ex_pid CHR ''0''"
  "participant_id ex_alice = ex_pid CHR ''3''" "participant_id ex_bob = ex_pid CHR ''4''"
  "coupled_launch_id ex_alice = ex_launch" "coupled_launch_id ex_bob = ex_launch"
  "account ex_alice = ''alice''" "account ex_bob = ''bob''"
  "wc_units ex_alice = ''2''" "wc_units ex_bob = ''1''" "wc_of ex_alice = 2" "wc_of ex_bob = 1"
  by (simp_all add: ex_alice_def ex_bob_def dec_val_def digit_val_def)

lemma ex_launch_shape: "prefix_hex ''sha256:'' 64 ex_launch"
  using ex_pid_shape [of "CHR ''a''"] by (simp add: ex_pid_def ex_launch_def is_lower_hex_def)

lemma ex_good_alice:
  "H (canonicalJson (commitment_body ex_alice)) = replicate 64 CHR ''1'' \<Longrightarrow> good_commitment H ex_launch ex_alice"
  by (simp add: good_commitment_def wf_commitment_def ex_pid_shape is_lower_hex_def
      is_decimal_def is_digit_def MAX_SAFE_INTEGER_def account_char_def is_alnum_def
      dec_val_def digit_val_def) (simp add: ex_pid_def)

lemma ex_good_bob:
  "H (canonicalJson (commitment_body ex_bob)) = replicate 64 CHR ''0'' \<Longrightarrow> good_commitment H ex_launch ex_bob"
  by (simp add: good_commitment_def wf_commitment_def ex_pid_shape is_lower_hex_def
      is_decimal_def is_digit_def MAX_SAFE_INTEGER_def account_char_def is_alnum_def
      dec_val_def digit_val_def) (simp add: ex_pid_def)

definition ex_commitments :: jsv where
  "ex_commitments = JArr (map commitment_request [ex_alice, ex_bob])"

definition ex_debits :: jsv where
  "ex_debits = JArr (map (debit_request ex_digest) [(ex_bob, 5), (ex_alice, 5)])"

lemma ex_commitments_ok:
  "\<exists>cset. verifyWcVoidOpeningCommitmentsV1 ex_digest (JStr ex_launch) ex_commitments = Inr cset \<and>
     set (commitments cset) = {ex_alice, ex_bob}"
  using commitments_accepted [of ex_digest ex_launch "[ex_alice, ex_bob]"] ex_good_alice [of ex_digest, OF ex_digests(1)] ex_good_bob [of ex_digest, OF ex_digests(2)]
    ex_launch_shape
  by (auto simp: ex_commitments_def MAX_SET_SIZE_def)

lemma ex_settlements_ok:
  "\<exists>sset. verifyWcVoidOpeningLedgerSettlementsV1 ex_digest (JStr ex_launch) ex_commitments ex_debits = Inr sset"
  using settlements_accepted [of ex_digest ex_launch "[ex_alice, ex_bob]" "[(ex_bob, 5), (ex_alice, 5)]"]
    ex_good_alice [of ex_digest, OF ex_digests(1)] ex_good_bob [of ex_digest, OF ex_digests(2)] ex_launch_shape ex_digest_shape
  by (auto simp: ex_commitments_def ex_debits_def MAX_SET_SIZE_def good_debit_def MAX_SAFE_INTEGER_def debit_id_def ex_digests)

section \<open>Properties\<close>

text \<open>
  C7. The allocation of the opening tranche is total and exact. For every commitment set that the
  verifier accepts, the allocation returns (none of its three internal guards can fire); it has one
  entry per commitment, in the same order and for the same participant, account and credits; the
  entries add up to the tranche to the last atom; and every entry is the floor of its exact
  pro-rata share or one atom more.
\<close>

theorem opening_allocation_exact:
  assumes "verifyWcVoidOpeningCommitmentsV1 H launchId raw = Inr cset"
  shows "\<exists>aset. deriveOpeningAllocations H cset = Inr aset \<and>
    sum_list (map (\<lambda>a. dec_val (void_atoms a)) (allocations aset)) = opening_tranche \<and>
    allocated_void_atoms aset = int_str opening_tranche \<and>
    list_all2 (\<lambda>c a. a_commitment_id a = commitment_id c \<and> a_participant_id a = participant_id c \<and>
        a_account a = account c \<and> a_wc_units a = wc_units c \<and>
        dec_val (void_atoms a) -
          wc_of c * opening_tranche div sum_list (map wc_of (commitments cset)) \<in> {0, 1})
      (commitments cset) (allocations aset)"
proof -
  note wf = verified_commitments_wf(1) [OF assms]
  obtain root where aset: "deriveOpeningAllocations H cset =
    Inr \<lparr> allocation_count = int (length (commitments cset)), allocated_void_atoms = int_str opening_tranche,
          retained_void_atoms = ''5000000000000000000000000'', allocation_root = root,
          allocations = opening_allocs cset, exact_tranche_conservation = True \<rparr>"
    using deriveOpeningAllocations_wf [OF wf] by blast
  show ?thesis
    unfolding aset using sum_opening_allocs [OF wf] opening_allocs_rows [OF wf] by simp
qed

theorem opening_allocation_exact_witness:
  "\<exists>cset aset. verifyWcVoidOpeningCommitmentsV1 ex_digest (JStr ex_launch) ex_commitments = Inr cset \<and>
     deriveOpeningAllocations ex_digest cset = Inr aset \<and>
     sum_list (map (\<lambda>a. dec_val (void_atoms a)) (allocations aset)) = opening_tranche"
  using ex_commitments_ok opening_allocation_exact [of ex_digest "JStr ex_launch" ex_commitments] by blast

text \<open>
  The allocation is monotone: of two participants, the one who committed more credits never
  receives fewer atoms.
\<close>

theorem opening_allocation_monotone:
  assumes "verifyWcVoidOpeningCommitmentsV1 H launchId raw = Inr cset"
    and "deriveOpeningAllocations H cset = Inr aset"
    and "a \<in> set (allocations aset)" "b \<in> set (allocations aset)"
    and "dec_val (a_wc_units a) < dec_val (a_wc_units b)"
  shows "dec_val (void_atoms a) \<le> dec_val (void_atoms b)"
proof -
  note wf = verified_commitments_wf(1) [OF assms(1)]
  have "allocations aset = opening_allocs cset"
    using deriveOpeningAllocations_wf [OF wf, of H] assms(2) by auto
  then show ?thesis using opening_allocs_monotone [OF wf _ _ assms(5)] assms(3,4) by simp
qed

theorem opening_allocation_monotone_witness:
  "\<exists>cset aset a b. verifyWcVoidOpeningCommitmentsV1 ex_digest (JStr ex_launch) ex_commitments = Inr cset \<and>
     deriveOpeningAllocations ex_digest cset = Inr aset \<and> a \<in> set (allocations aset) \<and> b \<in> set (allocations aset) \<and>
     dec_val (a_wc_units a) < dec_val (a_wc_units b) \<and> dec_val (void_atoms a) \<le> dec_val (void_atoms b)"
proof -
  obtain cset where c: "verifyWcVoidOpeningCommitmentsV1 ex_digest (JStr ex_launch) ex_commitments = Inr cset"
    "set (commitments cset) = {ex_alice, ex_bob}" using ex_commitments_ok by blast
  note wf = verified_commitments_wf(1) [OF c(1)]
  obtain aset where aset: "deriveOpeningAllocations ex_digest cset = Inr aset" "allocations aset = opening_allocs cset"
    using deriveOpeningAllocations_wf [OF wf, of ex_digest] by fastforce
  have "\<exists>a \<in> set (opening_allocs cset). a_wc_units a = wc_units c" if "c \<in> set (commitments cset)" for c
    using opening_allocs_rows [OF wf] that
    by (fastforce simp: list_all2_conv_all_nth in_set_conv_nth)
  with c(2) obtain a b where "a \<in> set (allocations aset)" "b \<in> set (allocations aset)"
    "a_wc_units a = wc_units ex_bob" "a_wc_units b = wc_units ex_alice" unfolding aset(2) by blast
  moreover from this have "dec_val (a_wc_units a) < dec_val (a_wc_units b)"
    by (simp add: dec_val_def digit_val_def)
  ultimately show ?thesis using c(1) aset(1) opening_allocation_monotone [OF c(1) aset(1)] by blast
qed

text \<open>
  C9. Accepted settlements are in bijection with the accepted commitments. The ledger debits carry
  distinct settlement ids, and the (commitment, account, amount) triples of the debits are, as a
  multiset, exactly those of the commitments: no commitment is left unsettled, none is settled
  twice, none is settled by another account or for another amount. The settled and the committed
  totals are the same number.
\<close>

theorem settlements_are_a_bijection:
  assumes "verifyWcVoidOpeningLedgerSettlementsV1 H launchId raw debits = Inr sset"
  shows "\<exists>cset. verifyWcVoidOpeningCommitmentsV1 H launchId raw = Inr cset \<and>
    mset (map settlement_row (settlements sset)) = mset (map commitment_row (commitments cset)) \<and>
    distinct (map settlement_id (settlements sset)) \<and> distinct (map s_commitment_id (settlements sset)) \<and>
    distinct (map participant_id (commitments cset)) \<and>
    dec_val (total_settled_wc_units sset) = sum_list (map wc_of (commitments cset)) \<and>
    settlement_count sset = commitment_count cset"
proof -
  obtain cset where c: "verifyWcVoidOpeningCommitmentsV1 H launchId raw = Inr cset"
    "mset (map settlement_row (settlements sset)) = mset (map commitment_row (commitments cset))"
    "distinct (map settlement_id (settlements sset))"
    "total_settled_wc_units sset = total_committed_wc_units cset" "settlement_count sset = commitment_count cset"
    using assms by (rule settlements_Inr)
  note wf = verified_commitments_wf(1) [OF c(1)]
  have "mset (map s_commitment_id (settlements sset)) = mset (map commitment_id (commitments cset))"
    using arg_cong [OF c(2), of "image_mset fst"] by (simp add: image_mset.compositionality comp_def)
  then have "distinct (map s_commitment_id (settlements sset))"
    using wf by (metis mset_eq_imp_distinct_iff wf_commitment_set_def)
  moreover have "dec_val (total_committed_wc_units cset) = sum_list (map wc_of (commitments cset))"
    "distinct (map participant_id (commitments cset))"
    using wf wf_total_pos [OF wf] by (simp_all add: wf_commitment_set_def)
  ultimately show ?thesis using c by (intro exI [of _ cset]) simp
qed

theorem settlements_are_a_bijection_witness:
  "\<exists>sset cset. verifyWcVoidOpeningLedgerSettlementsV1 ex_digest (JStr ex_launch) ex_commitments ex_debits = Inr sset \<and>
     verifyWcVoidOpeningCommitmentsV1 ex_digest (JStr ex_launch) ex_commitments = Inr cset \<and>
     mset (map settlement_row (settlements sset)) = mset (map commitment_row (commitments cset))"
  using ex_settlements_ok settlements_are_a_bijection [of ex_digest "JStr ex_launch" ex_commitments ex_debits] by blast

text \<open>
  Two guards of the settlement verifier are implied by the checks before them and never fire:
  a set of debits that passes the loop and has the right size leaves no commitment unsettled and
  has the committed total.
\<close>

theorem settlement_total_guards_redundant:
  "verifyWcVoidOpeningLedgerSettlementsV1 H launchId raw debits \<noteq> Inl ''MISSING_WC_VOID_OPENING_SETTLEMENT'' \<and>
   verifyWcVoidOpeningLedgerSettlementsV1 H launchId raw debits \<noteq> Inl ''WC_VOID_OPENING_SETTLED_WC_TOTAL_MISMATCH''"
proof -
  let ?P = "\<lambda>e. e \<noteq> ''MISSING_WC_VOID_OPENING_SETTLEMENT'' \<and> e \<noteq> ''WC_VOID_OPENING_SETTLED_WC_TOTAL_MISMATCH''"
  have e1: "errp ?P (verifyWcVoidOpeningCommitmentsV1 H launchId raw)"
    unfolding verifyWcVoidOpeningCommitmentsV1_def verify_commitment_def wcVoidOpeningCommitmentIdV1_def Let_def
    by (intro js_err) simp_all
  have e2: "errp ?P (foldM (verify_debit H l m) st vs)" for l m st vs
    unfolding verify_debit_def wcVoidOpeningSettlementIdV1_def Let_def by (intro js_err) simp_all
  have e3: "errp ?P (exactArray debits ''INVALID_WC_VOID_OPENING_LEDGER_DEBIT_SET'')" "errp ?P (opening_digest H v)" for v
    by (intro js_err; simp)+
  have "errp ?P (verifyWcVoidOpeningLedgerSettlementsV1 H launchId raw debits)"
    unfolding verifyWcVoidOpeningLedgerSettlementsV1_def Let_def
  proof (intro errp_bnd_Inr errp_guard_cond e1 e2 e3 errp_Inr)
    fix cset vs st
    assume c: "verifyWcVoidOpeningCommitmentsV1 H launchId raw = Inr cset" and len: "\<not> int (length vs) \<noteq> commitment_count cset"
      and fold: "foldM (verify_debit H (str_of launchId) (map (\<lambda>c. (commitment_id c, c)) (commitments cset)))
        \<lparr> seenSettlements = [], seenCommitments = [], totalSettledWc = 0, canonicalSettlements = [] \<rparr> vs = Inr st"
    note wf = verified_commitments_wf(1) [OF c]
    note f = debit_loop_final [OF wf len [unfolded not_not] fold]
    have "distinct (map fst (map (\<lambda>c. (commitment_id c, c)) (commitments cset)))"
      using wf by (simp add: wf_commitment_set_def comp_def)
    then show "length (seenCommitments st) \<noteq> length (remdups (map fst (map (\<lambda>c. (commitment_id c, c)) (commitments cset)))) \<Longrightarrow>
        ?P ''MISSING_WC_VOID_OPENING_SETTLEMENT''"
      using f(2) by (simp add: distinct_remdups_id del: map_map)
    show "int_str (totalSettledWc st) \<noteq> total_committed_wc_units cset \<Longrightarrow> ?P ''WC_VOID_OPENING_SETTLED_WC_TOTAL_MISMATCH''"
      using f(3) wf by (simp add: wf_commitment_set_def)
  qed simp_all
  then show ?thesis by (auto simp: errp_def)
qed

text \<open>
  The opening price is the exact clearing price. Whenever the two verifiers accept a request
  the opening state is derived; its price is a fraction in lowest terms with a positive numerator
  and denominator; numerator over denominator is settled credits over the whole-VOID tranche; and
  the post-opening reserves (all settled credits against the retained atoms) stand in exactly that
  ratio, at \<open>10\<^sup>1\<^sup>8\<close> atoms per VOID, as the reported flag claims.
\<close>

theorem opening_price_exact:
  assumes "same_keys (JObj kvs) OPENING_REQUEST_KEYS"
    and "verifyWcVoidOpeningLedgerSettlementsV1 H (jget ''coupled_launch_id'' (JObj kvs)) (jget ''commitments'' (JObj kvs))
      (jget ''ledger_debits'' (JObj kvs)) = Inr sset"
  shows "\<exists>st. deriveWcVoidCoupledOpeningStateV1 H (JObj kvs) = Inr st \<and>
    (let settled = jdec [''post_opening_wc_reserve_units''] st;
         num = jdec [''opening_price_wc_per_void_numerator''] st;
         den = jdec [''opening_price_wc_per_void_denominator''] st;
         reserve = jdec [''post_opening_void_reserve_atoms''] st
     in settled = dec_val (total_settled_wc_units sset) \<and>
        0 < num \<and> 0 < den \<and> coprime num den \<and> num * 5000000 = settled * den \<and>
        num * reserve = settled * 10 ^ 18 * den)"
proof -
  let ?r = "JObj kvs" and ?launch = "jget ''coupled_launch_id'' (JObj kvs)"
  obtain cset where c: "verifyWcVoidOpeningCommitmentsV1 H ?launch (jget ''commitments'' ?r) = Inr cset"
    "total_settled_wc_units sset = total_committed_wc_units cset"
    using assms(2) by (rule settlements_Inr)
  note wf = verified_commitments_wf(1) [OF c(1)] and launch = verified_commitments_wf(2) [OF c(1)]
  let ?W = "sum_list (map wc_of (commitments cset))"
  have W: "0 < ?W" "dec_val (total_settled_wc_units sset) = ?W"
    using wf_total_pos [OF wf] wf c(2) by (simp_all add: wf_commitment_set_def)
  obtain aset where a: "deriveOpeningAllocations H cset = Inr aset"
    using deriveOpeningAllocations_wf [OF wf] by blast
  let ?g = "gcd ?W 5000000" let ?num = "?W div ?g" let ?den = "5000000 div ?g"
  have g: "gcd_loop ?W 5000000 = ?g" using W(1) by (simp add: gcd_loop_gcd)
  have price: "0 < ?num" "0 < ?den" "coprime ?num ?den" "?num * 5000000 = ?W * ?den"
    using W(1) by (auto simp: div_gcd_coprime pos_imp_zdiv_pos_iff zdvd_imp_le div_gcd_cross)
  have "canonicalSha ?launch ''INVALID_COUPLED_LAUNCH_ID'' = Inr (str_of ?launch)"
    using c(1) launch by (auto simp: verifyWcVoidOpeningCommitmentsV1_def js_simps canonicalSha_def simp del: jget.simps)
  from derive_opening_eq [OF assms(1) this _ _ a] obtain sid where
    "deriveWcVoidCoupledOpeningStateV1 H ?r = Inr (opening_state (str_of ?launch) cset sset aset ?W ?num ?den sid)"
    using c(1) assms(2) launch by (auto simp: W(2) g Let_def)
  then show ?thesis
    using price W
    by (intro exI [of _ "opening_state (str_of ?launch) cset sset aset ?W ?num ?den sid"])
      (simp add: opening_state_fields Let_def)
qed

definition ex_opening_request :: "(string \<times> jsv) list" where
  "ex_opening_request = [(''coupled_launch_id'', JStr ex_launch), (''commitments'', ex_commitments), (''ledger_debits'', ex_debits)]"

theorem opening_price_exact_witness:
  "\<exists>st. deriveWcVoidCoupledOpeningStateV1 ex_digest (JObj ex_opening_request) = Inr st \<and>
     jdec [''opening_price_wc_per_void_numerator''] st * 5000000 =
     jdec [''post_opening_wc_reserve_units''] st * jdec [''opening_price_wc_per_void_denominator''] st"
proof -
  obtain sset where "verifyWcVoidOpeningLedgerSettlementsV1 ex_digest (JStr ex_launch) ex_commitments ex_debits = Inr sset"
    using ex_settlements_ok by blast
  then have "verifyWcVoidOpeningLedgerSettlementsV1 ex_digest (jget ''coupled_launch_id'' (JObj ex_opening_request))
      (jget ''commitments'' (JObj ex_opening_request)) (jget ''ledger_debits'' (JObj ex_opening_request)) = Inr sset"
    by (simp add: ex_opening_request_def)
  moreover have "same_keys (JObj ex_opening_request) OPENING_REQUEST_KEYS"
    by (simp add: same_keys_def ex_opening_request_def OPENING_REQUEST_KEYS_def)
  ultimately show ?thesis using opening_price_exact [of ex_opening_request ex_digest sset] by (auto simp: Let_def)
qed

end
