(* ===== verification/Wc_Window.thy ===== *)
theory Wc_Window
  imports Wc_Opening_Correct
begin

text \<open>
  \<^verbatim>\<open>tools/void-wc-void-opening-window-policy-v1.mjs\<close>: the time window of the opening. A window is
  committed before it opens and closes at a fixed instant (exclusive); every commitment of the
  opening needs exactly one admission inside the window. The file repeats the validators of the
  coupled-opening module, which the model shares.
\<close>

section \<open>Constants\<close>

definition WINDOW_SCHEMA :: string where
  "WINDOW_SCHEMA = ''void.wc-void-opening-window.v1''"

definition ADMISSION_SCHEMA :: string where
  "ADMISSION_SCHEMA = ''void.wc-void-opening-admission.v1''"

definition WINDOW_AUTHORITY :: jsv where
  "WINDOW_AUTHORITY = JObj [
     (''source_only'', JBool True),
     (''explicit_input_only'', JBool True),
     (''wall_clock_read'', JBool False),
     (''ledger_write'', JBool False),
     (''wc_balance_mutation'', JBool False),
     (''wallet_or_signer_access'', JBool False),
     (''transaction_construction'', JBool False),
     (''transaction_signing'', JBool False),
     (''transaction_broadcast'', JBool False),
     (''chain2050_write'', JBool False),
     (''inventory_funding'', JBool False),
     (''liquidity_movement'', JBool False),
     (''market_activation'', JBool False),
     (''public_presale_activation'', JBool False),
     (''funds_movement'', JBool False)]"

definition WINDOW_REQUEST_KEYS :: "string list" where
  "WINDOW_REQUEST_KEYS = [''coupled_launch_id'', ''window'', ''commitments'', ''admissions'']"

definition WINDOW_KEYS :: "string list" where
  "WINDOW_KEYS = [''schema'', ''window_id'', ''coupled_launch_id'', ''policy_committed_at_ms'',
     ''opens_at_ms'', ''closes_at_ms'']"

definition ADMISSION_KEYS :: "string list" where
  "ADMISSION_KEYS = [''schema'', ''admission_id'', ''window_id'', ''coupled_launch_id'',
     ''commitment_id'', ''participant_id'', ''account'', ''admitted_at_ms'']"

section \<open>The window\<close>

definition canonicalMs :: "jsv \<Rightarrow> string \<Rightarrow> int res" where
  "canonicalMs v code = (if \<not> isSafeInteger v \<or> num_of v \<le> 0 then Inl code else Inr (num_of v))"

definition windowPayload :: "jsv \<Rightarrow> jsv" where
  "windowPayload v = JObj [
     (''schema'', jget ''schema'' v),
     (''coupled_launch_id'', jget ''coupled_launch_id'' v),
     (''policy_committed_at_ms'', jget ''policy_committed_at_ms'' v),
     (''opens_at_ms'', jget ''opens_at_ms'' v),
     (''closes_at_ms'', jget ''closes_at_ms'' v)]"

definition admissionPayload :: "jsv \<Rightarrow> jsv" where
  "admissionPayload v = JObj [
     (''schema'', jget ''schema'' v),
     (''window_id'', jget ''window_id'' v),
     (''coupled_launch_id'', jget ''coupled_launch_id'' v),
     (''commitment_id'', jget ''commitment_id'' v),
     (''participant_id'', jget ''participant_id'' v),
     (''account'', jget ''account'' v),
     (''admitted_at_ms'', jget ''admitted_at_ms'' v)]"

definition wcVoidOpeningWindowIdV1 :: "(string \<Rightarrow> string) \<Rightarrow> jsv \<Rightarrow> string res" where
  "wcVoidOpeningWindowIdV1 H v =
     bnd (exactObject v WINDOW_KEYS ''INVALID_WC_VOID_OPENING_WINDOW_SHAPE'') (\<lambda>window.
     opening_digest H (windowPayload window))"

definition wcVoidOpeningAdmissionIdV1 :: "(string \<Rightarrow> string) \<Rightarrow> jsv \<Rightarrow> string res" where
  "wcVoidOpeningAdmissionIdV1 H v =
     bnd (exactObject v ADMISSION_KEYS ''INVALID_WC_VOID_OPENING_ADMISSION_SHAPE'') (\<lambda>admission.
     opening_digest H (admissionPayload admission))"

record opening_window =
  window_id :: string
  w_launch_id :: string
  policy_committed_at_ms :: int
  opens_at_ms :: int
  closes_at_ms :: int

definition verifyWindow :: "(string \<Rightarrow> string) \<Rightarrow> jsv \<Rightarrow> jsv \<Rightarrow> opening_window res" where
  "verifyWindow H coupledLaunchId raw =
     bnd (canonicalSha coupledLaunchId ''INVALID_COUPLED_LAUNCH_ID'') (\<lambda>launch.
     bnd (exactObject raw WINDOW_KEYS ''INVALID_WC_VOID_OPENING_WINDOW_SHAPE'') (\<lambda>v.
     if jget ''schema'' v \<noteq> JStr WINDOW_SCHEMA then Inl ''INVALID_WC_VOID_OPENING_WINDOW_SCHEMA''
     else
     bnd (canonicalSha (jget ''window_id'' v) ''INVALID_WC_VOID_OPENING_WINDOW_ID'') (\<lambda>wid.
     bnd (canonicalSha (jget ''coupled_launch_id'' v) ''INVALID_COUPLED_LAUNCH_ID'') (\<lambda>lid.
     if lid \<noteq> launch then Inl ''WC_VOID_OPENING_WINDOW_LAUNCH_MISMATCH''
     else
     bnd (canonicalMs (jget ''policy_committed_at_ms'' v) ''INVALID_WC_VOID_OPENING_WINDOW_COMMITTED_AT_MS'') (\<lambda>committed.
     bnd (canonicalMs (jget ''opens_at_ms'' v) ''INVALID_WC_VOID_OPENING_WINDOW_OPENS_AT_MS'') (\<lambda>opens.
     bnd (canonicalMs (jget ''closes_at_ms'' v) ''INVALID_WC_VOID_OPENING_WINDOW_CLOSES_AT_MS'') (\<lambda>closes.
     if \<not> (committed < opens \<and> opens < closes) then Inl ''WC_VOID_OPENING_WINDOW_ORDER_INVALID''
     else
     bnd (wcVoidOpeningWindowIdV1 H v) (\<lambda>derived.
     if derived \<noteq> wid then Inl ''WC_VOID_OPENING_WINDOW_DIGEST_MISMATCH''
     else Inr \<lparr> window_id = wid, w_launch_id = lid, policy_committed_at_ms = committed,
                opens_at_ms = opens, closes_at_ms = closes \<rparr>))))))))"

record window_phase =
  ph_window_id :: string
  observed_at_ms :: int
  phase :: string
  admission_allowed :: bool

definition classifyWcVoidOpeningWindowPhaseV1 :: "(string \<Rightarrow> string) \<Rightarrow> jsv \<Rightarrow> jsv \<Rightarrow> window_phase res" where
  "classifyWcVoidOpeningWindowPhaseV1 H window observedAtMs =
     bnd (exactObject window WINDOW_KEYS ''INVALID_WC_VOID_OPENING_WINDOW_SHAPE'') (\<lambda>raw.
     bnd (verifyWindow H (jget ''coupled_launch_id'' raw) raw) (\<lambda>verified.
     bnd (canonicalMs observedAtMs ''INVALID_WC_VOID_OPENING_WINDOW_OBSERVED_AT_MS'') (\<lambda>observed.
     Inr \<lparr> ph_window_id = window_id verified,
           observed_at_ms = observed,
           phase = (if observed < opens_at_ms verified then ''scheduled''
                    else if observed < closes_at_ms verified then ''open'' else ''closed''),
           admission_allowed = (observed \<ge> opens_at_ms verified \<and> observed < closes_at_ms verified) \<rparr>)))"

section \<open>Admissions\<close>

record admission =
  admission_id :: string
  ad_commitment_id :: string
  ad_participant_id :: string
  ad_account :: string
  admitted_at_ms :: int

definition admission_json :: "admission \<Rightarrow> jsv" where
  "admission_json a = JObj [
     (''admission_id'', JStr (admission_id a)),
     (''commitment_id'', JStr (ad_commitment_id a)),
     (''participant_id'', JStr (ad_participant_id a)),
     (''account'', JStr (ad_account a)),
     (''admitted_at_ms'', JNum (admitted_at_ms a))]"

text \<open>
  The callback of \<^verbatim>\<open>admissionValues.map\<close>: first the checks that read only the admission, the window
  and the commitments, then the two sets of identifiers seen so far.
\<close>

definition check_admission ::
  "(string \<Rightarrow> string) \<Rightarrow> string \<Rightarrow> opening_window \<Rightarrow> (string \<times> commitment) list \<Rightarrow> jsv \<Rightarrow> admission res" where
  "check_admission H launchId window commitmentsById raw =
     bnd (exactObject raw ADMISSION_KEYS ''INVALID_WC_VOID_OPENING_ADMISSION_SHAPE'') (\<lambda>v.
     if jget ''schema'' v \<noteq> JStr ADMISSION_SCHEMA then Inl ''INVALID_WC_VOID_OPENING_ADMISSION_SCHEMA''
     else
     bnd (canonicalSha (jget ''admission_id'' v) ''INVALID_WC_VOID_OPENING_ADMISSION_ID'') (\<lambda>aid.
     bnd (canonicalSha (jget ''window_id'' v) ''INVALID_WC_VOID_OPENING_WINDOW_ID'') (\<lambda>wid.
     bnd (canonicalSha (jget ''coupled_launch_id'' v) ''INVALID_COUPLED_LAUNCH_ID'') (\<lambda>lid.
     bnd (canonicalSha (jget ''commitment_id'' v) ''INVALID_WC_VOID_OPENING_COMMITMENT_ID'') (\<lambda>cid.
     bnd (canonicalSha (jget ''participant_id'' v) ''INVALID_WC_VOID_OPENING_PARTICIPANT_ID'') (\<lambda>pid.
     bnd (canonicalAccount (jget ''account'' v) ''INVALID_WC_VOID_OPENING_ACCOUNT'') (\<lambda>acct.
     bnd (canonicalMs (jget ''admitted_at_ms'' v) ''INVALID_WC_VOID_OPENING_ADMITTED_AT_MS'') (\<lambda>admittedAt.
     if wid \<noteq> window_id window then Inl ''WC_VOID_OPENING_ADMISSION_WINDOW_MISMATCH''
     else if lid \<noteq> launchId then Inl ''WC_VOID_OPENING_ADMISSION_LAUNCH_MISMATCH''
     else if admittedAt < opens_at_ms window \<or> admittedAt \<ge> closes_at_ms window
     then Inl ''WC_VOID_OPENING_ADMISSION_OUTSIDE_WINDOW''
     else
     case map_of commitmentsById cid of
       None \<Rightarrow> Inl ''UNKNOWN_WC_VOID_OPENING_ADMISSION_COMMITMENT''
     | Some c \<Rightarrow>
     if participant_id c \<noteq> pid \<or> account c \<noteq> acct
     then Inl ''WC_VOID_OPENING_ADMISSION_COMMITMENT_MISMATCH''
     else
     bnd (wcVoidOpeningAdmissionIdV1 H v) (\<lambda>derived.
     if derived \<noteq> aid then Inl ''WC_VOID_OPENING_ADMISSION_DIGEST_MISMATCH''
     else Inr \<lparr> admission_id = aid, ad_commitment_id = cid, ad_participant_id = pid,
                ad_account = acct, admitted_at_ms = admittedAt \<rparr>)))))))))"

record admission_loop =
  seenAdmissionIds :: "string list"
  seenAdmittedCommitments :: "string list"
  canonicalAdmissions :: "admission list"

definition verify_admission ::
  "(string \<Rightarrow> string) \<Rightarrow> string \<Rightarrow> opening_window \<Rightarrow> (string \<times> commitment) list \<Rightarrow> admission_loop \<Rightarrow> jsv \<Rightarrow>
   admission_loop res" where
  "verify_admission H launchId window commitmentsById st raw =
     bnd (check_admission H launchId window commitmentsById raw) (\<lambda>a.
     if admission_id a \<in> set (seenAdmissionIds st) then Inl ''DUPLICATE_WC_VOID_OPENING_ADMISSION_ID''
     else if ad_commitment_id a \<in> set (seenAdmittedCommitments st)
     then Inl ''DUPLICATE_WC_VOID_OPENING_ADMITTED_COMMITMENT''
     else Inr \<lparr> seenAdmissionIds = seenAdmissionIds st @ [admission_id a],
                seenAdmittedCommitments = seenAdmittedCommitments st @ [ad_commitment_id a],
                canonicalAdmissions = canonicalAdmissions st @ [a] \<rparr>)"

section \<open>The window policy\<close>

definition window_policy_payload ::
  "string \<Rightarrow> opening_window \<Rightarrow> commitment_set \<Rightarrow> admission list \<Rightarrow> (string \<times> jsv) list" where
  "window_policy_payload launchId window cset admissions = [
     (''schema'', JStr ''void.wc-void-opening-window-policy-state.v1''),
     (''coupled_launch_id'', JStr launchId),
     (''window_id'', JStr (window_id window)),
     (''policy_committed_at_ms'', JNum (policy_committed_at_ms window)),
     (''opens_at_ms'', JNum (opens_at_ms window)),
     (''closes_at_ms'', JNum (closes_at_ms window)),
     (''commitment_set_root'', JStr (commitment_set_root cset)),
     (''admission_count'', JNum (int (length admissions))),
     (''admissions'', JArr (map admission_json admissions))]"

definition window_policy_report :: "(string \<times> jsv) list" where
  "window_policy_report = [
     (''opening_commitment_window_policy_ready'', JBool True),
     (''policy_committed_before_open'', JBool True),
     (''finite_window_required'', JBool True),
     (''deterministic_close_exclusive'', JBool True),
     (''close_boundary_admission_rejected'', JBool True),
     (''post_close_admission_forbidden'', JBool True),
     (''exact_commitment_admission_bijection'', JBool True),
     (''admission_order_independent'', JBool True),
     (''duration_value_hardcoded'', JBool False),
     (''participant_provenance_verified'', JBool False),
     (''live_admission_persistence_verified'', JBool False),
     (''live_clock_observed'', JBool False),
     (''ledger_write_performed'', JBool False),
     (''wc_balance_mutation_performed'', JBool False),
     (''market_activation_authority'', JBool False),
     (''public_presale_activation_authority'', JBool False),
     (''funds_movement_authority'', JBool False),
     (''authority'', WINDOW_AUTHORITY)]"

definition verify_admissions ::
  "(string \<Rightarrow> string) \<Rightarrow> string \<Rightarrow> opening_window \<Rightarrow> commitment_set \<Rightarrow> jsv list \<Rightarrow> admission list res" where
  "verify_admissions H launchId window cset admissionValues =
     (if int (length admissionValues) \<noteq> commitment_count cset
      then Inl ''WC_VOID_OPENING_ADMISSION_COUNT_MISMATCH''
      else
      let commitmentsById = map (\<lambda>c. (commitment_id c, c)) (commitments cset) in
      bnd (foldM (verify_admission H launchId window commitmentsById)
             \<lparr> seenAdmissionIds = [], seenAdmittedCommitments = [], canonicalAdmissions = [] \<rparr>
             admissionValues) (\<lambda>st.
      if length (seenAdmittedCommitments st) \<noteq> length (remdups (map fst commitmentsById))
      then Inl ''MISSING_WC_VOID_OPENING_ADMISSION''
      else Inr (sort_key admission_id (canonicalAdmissions st))))"

definition verifyWcVoidOpeningWindowPolicyV1 :: "(string \<Rightarrow> string) \<Rightarrow> jsv \<Rightarrow> jsv res" where
  "verifyWcVoidOpeningWindowPolicyV1 H input =
     bnd (exactObject input WINDOW_REQUEST_KEYS ''INVALID_WC_VOID_OPENING_WINDOW_REQUEST_SHAPE'') (\<lambda>request.
     bnd (canonicalSha (jget ''coupled_launch_id'' request) ''INVALID_COUPLED_LAUNCH_ID'') (\<lambda>launchId.
     bnd (verifyWindow H (JStr launchId) (jget ''window'' request)) (\<lambda>window.
     bnd (verifyWcVoidOpeningCommitmentsV1 H (JStr launchId) (jget ''commitments'' request)) (\<lambda>cset.
     bnd (exactArray (jget ''admissions'' request) ''INVALID_WC_VOID_OPENING_ADMISSION_SET'') (\<lambda>admissionValues.
     bnd (verify_admissions H launchId window cset admissionValues) (\<lambda>admissions.
     let payload = window_policy_payload launchId window cset admissions in
     bnd (opening_digest H (JObj payload)) (\<lambda>policy_state_id.
     Inr (JObj ((''marker'', JStr ''VOID_WC_VOID_OPENING_WINDOW_POLICY_V1'') # payload @
       (''policy_state_id'', JStr policy_state_id) # window_policy_report)))))))))"

section \<open>What the checks ensure\<close>

lemma canonicalMs_wp [js_wp]:
  "(\<And>i. v = JNum i \<Longrightarrow> 0 < i \<Longrightarrow> i \<le> MAX_SAFE_INTEGER \<Longrightarrow> post P (f i)) \<Longrightarrow> post P (bnd (canonicalMs v code) f)"
  by (rule post_bnd) (auto simp: canonicalMs_def isSafeInteger_iff split: if_splits)

definition wf_window :: "opening_window \<Rightarrow> bool" where
  "wf_window w \<longleftrightarrow> 0 < policy_committed_at_ms w \<and> policy_committed_at_ms w < opens_at_ms w \<and>
     opens_at_ms w < closes_at_ms w \<and> closes_at_ms w \<le> MAX_SAFE_INTEGER"

lemma verifyWindow_wf: "post wf_window (verifyWindow H launch raw)"
  unfolding verifyWindow_def
  by (intro js_wp post_bnd) (simp add: wf_window_def)

abbreviation admission_row :: "admission \<Rightarrow> string \<times> string \<times> string" where
  "admission_row a \<equiv> (ad_commitment_id a, ad_participant_id a, ad_account a)"

abbreviation participant_row :: "commitment \<Rightarrow> string \<times> string \<times> string" where
  "participant_row c \<equiv> (commitment_id c, participant_id c, account c)"

interpretation admission_evidence: commitment_evidence admission_row participant_row fst
  by unfold_locales simp

lemma check_admission_post:
  "post (\<lambda>a. (\<exists>c \<in> set cs. admission_row a = participant_row c) \<and> opens_at_ms w \<le> admitted_at_ms a \<and>
      admitted_at_ms a < closes_at_ms w \<and> isSafeInteger (JNum (admitted_at_ms a)))
    (check_admission H launch w (map (\<lambda>c. (commitment_id c, c)) cs) raw)"
  unfolding check_admission_def
proof (intro js_wp post_bnd; (simp only: post_Inl)?)
  fix v aid wid lid cid pid acct t c derived
  assume t: "0 < t" "t \<le> MAX_SAFE_INTEGER" "\<not> (t < opens_at_ms w \<or> closes_at_ms w \<le> t)"
    and c: "map_of (map (\<lambda>c. (commitment_id c, c)) cs) cid = Some c"
      "\<not> (participant_id c \<noteq> pid \<or> account c \<noteq> acct)"
  from map_of_commitments [OF c(1)] c(2) have "(cid, pid, acct) = participant_row c" "c \<in> set cs" by auto
  with t show "post (\<lambda>a. (\<exists>c \<in> set cs. admission_row a = participant_row c) \<and> opens_at_ms w \<le> admitted_at_ms a \<and>
      admitted_at_ms a < closes_at_ms w \<and> isSafeInteger (JNum (admitted_at_ms a)))
    (Inr \<lparr> admission_id = aid, ad_commitment_id = cid, ad_participant_id = pid, ad_account = acct,
       admitted_at_ms = t \<rparr>)"
    by (auto simp: MAX_SAFE_INTEGER_def)
qed

text \<open>
  The loop over the admissions succeeds exactly if every admission passes its own checks and the
  identifiers are distinct; what it collects is the list of checked admissions.
\<close>

lemma admissions_fold_iff:
  "foldM (verify_admission H launch w byId) st xs = Inr st' \<longleftrightarrow>
   (\<exists>as. mapM (check_admission H launch w byId) xs = Inr as \<and>
      distinct (map admission_id as) \<and> distinct (map ad_commitment_id as) \<and>
      set (map admission_id as) \<inter> set (seenAdmissionIds st) = {} \<and>
      set (map ad_commitment_id as) \<inter> set (seenAdmittedCommitments st) = {} \<and>
      st' = \<lparr> seenAdmissionIds = seenAdmissionIds st @ map admission_id as,
              seenAdmittedCommitments = seenAdmittedCommitments st @ map ad_commitment_id as,
              canonicalAdmissions = canonicalAdmissions st @ as \<rparr>)"
proof (induction xs arbitrary: st)
  case (Cons x xs)
  show ?case
  proof (cases "check_admission H launch w byId x")
    case (Inr a)
    then have "verify_admission H launch w byId st x =
        (if admission_id a \<in> set (seenAdmissionIds st) then Inl ''DUPLICATE_WC_VOID_OPENING_ADMISSION_ID''
         else if ad_commitment_id a \<in> set (seenAdmittedCommitments st)
         then Inl ''DUPLICATE_WC_VOID_OPENING_ADMITTED_COMMITMENT''
         else Inr \<lparr> seenAdmissionIds = seenAdmissionIds st @ [admission_id a],
                seenAdmittedCommitments = seenAdmittedCommitments st @ [ad_commitment_id a],
                canonicalAdmissions = canonicalAdmissions st @ [a] \<rparr>)"
      by (simp add: verify_admission_def)
    with Inr show ?thesis by (auto simp: js_simps Cons.IH split: if_splits)
  qed (simp add: verify_admission_def)
qed auto

lemma verify_admissions_Inr:
  assumes "verify_admissions H launch w cset xs = Inr as" "wf_commitment_set H' launch' cset"
  shows "mset (map admission_row as) = mset (map participant_row (commitments cset))"
    and "distinct (map admission_id as)"
    and "\<And>a. a \<in> set as \<Longrightarrow> opens_at_ms w \<le> admitted_at_ms a \<and> admitted_at_ms a < closes_at_ms w \<and>
      isSafeInteger (JNum (admitted_at_ms a))"
proof -
  let ?byId = "map (\<lambda>c. (commitment_id c, c)) (commitments cset)"
  from assms(1) obtain bs where bs: "mapM (check_admission H launch w ?byId) xs = Inr bs"
    "distinct (map admission_id bs)" "distinct (map ad_commitment_id bs)" "as = sort_key admission_id bs"
    and len: "int (length xs) = commitment_count cset"
    by (auto simp: verify_admissions_def js_simps admissions_fold_iff Let_def)
  have checked: "(\<exists>c \<in> set (commitments cset). admission_row a = participant_row c) \<and> opens_at_ms w \<le> admitted_at_ms a \<and>
      admitted_at_ms a < closes_at_ms w \<and> isSafeInteger (JNum (admitted_at_ms a))" if "a \<in> set bs" for a
  proof -
    from bs(1) that obtain x where "check_admission H launch w ?byId x = Inr a"
      by (auto simp: mapM_eq_Inr list_all2_conv_all_nth in_set_conv_nth)
    from postD [OF check_admission_post this] show ?thesis .
  qed
  have "mset (map admission_row bs) = mset (map participant_row (commitments cset))"
  proof (rule admission_evidence.rows_eq)
    show "length bs = length (commitments cset)"
      using mapM_length [OF bs(1)] len assms(2) by (simp add: wf_commitment_set_def)
  qed (use bs(3) checked assms(2) in \<open>auto simp: wf_commitment_set_def comp_def\<close>)
  then show "mset (map admission_row as) = mset (map participant_row (commitments cset))"
    by (simp add: bs(4))
  show "distinct (map admission_id as)" using bs(2) by (simp add: bs(4) distinct_map_sort_key)
  show "\<And>a. a \<in> set as \<Longrightarrow> opens_at_ms w \<le> admitted_at_ms a \<and> admitted_at_ms a < closes_at_ms w \<and>
      isSafeInteger (JNum (admitted_at_ms a))"
    using checked by (simp add: bs(4))
qed

section \<open>Order of the admissions\<close>

lemma mapM_reorder:
  assumes "mapM f xs = Inr as" "mset ys = mset xs"
  obtains bs where "mapM f ys = Inr bs" "mset bs = mset as"
  using assms list_all2_reorder_left_invariance [of "\<lambda>x y. f x = Inr y" xs as ys] by (auto simp: mapM_eq_Inr)

lemma verify_admissions_reorder:
  assumes "verify_admissions H launch w cset xs = Inr as" "mset ys = mset xs"
  shows "verify_admissions H launch w cset ys = Inr as"
proof -
  let ?byId = "map (\<lambda>c. (commitment_id c, c)) (commitments cset)"
  let ?st0 = "\<lparr> seenAdmissionIds = [], seenAdmittedCommitments = [], canonicalAdmissions = [] \<rparr>"
  from assms(1) obtain bs where bs: "mapM (check_admission H launch w ?byId) xs = Inr bs"
    "distinct (map admission_id bs)" "distinct (map ad_commitment_id bs)" "as = sort_key admission_id bs"
    and len: "int (length xs) = commitment_count cset" "length bs = length (remdups (map fst ?byId))"
    by (auto simp: verify_admissions_def js_simps admissions_fold_iff Let_def)
  obtain cs where cs: "mapM (check_admission H launch w ?byId) ys = Inr cs" "mset cs = mset bs"
    by (rule mapM_reorder [OF bs(1) assms(2)])
  have "distinct (map admission_id cs)" "distinct (map ad_commitment_id cs)"
    using bs(2,3) cs(2) by (metis mset_eq_imp_distinct_iff mset_map)+
  then have "foldM (verify_admission H launch w ?byId) ?st0 ys = Inr
      \<lparr> seenAdmissionIds = map admission_id cs, seenAdmittedCommitments = map ad_commitment_id cs,
        canonicalAdmissions = cs \<rparr>"
    using cs(1) by (simp add: admissions_fold_iff)
  moreover have "length ys = length xs" "length cs = length bs" using assms(2) cs(2) by (metis mset_eq_length)+
  moreover have "sort_key admission_id cs = as"
    unfolding bs(4)
    by (rule sort_key_inj_key_eq) (use bs(2) cs(2) in \<open>auto simp: distinct_map dest: mset_eq_setD\<close>)
  ultimately show ?thesis using len by (simp add: verify_admissions_def Let_def)
qed

section \<open>A concrete window\<close>

definition window_body :: "string \<Rightarrow> int \<Rightarrow> int \<Rightarrow> int \<Rightarrow> jsv" where
  "window_body launch committed opens closes = JObj [
     (''schema'', JStr WINDOW_SCHEMA), (''coupled_launch_id'', JStr launch),
     (''policy_committed_at_ms'', JNum committed), (''opens_at_ms'', JNum opens), (''closes_at_ms'', JNum closes)]"

definition admission_body :: "string \<Rightarrow> commitment \<Rightarrow> int \<Rightarrow> jsv" where
  "admission_body wid c t = JObj [
     (''schema'', JStr ADMISSION_SCHEMA), (''window_id'', JStr wid),
     (''coupled_launch_id'', JStr (coupled_launch_id c)), (''commitment_id'', JStr (commitment_id c)),
     (''participant_id'', JStr (participant_id c)), (''account'', JStr (account c)), (''admitted_at_ms'', JNum t)]"

definition window_request :: "(string \<Rightarrow> string) \<Rightarrow> string \<Rightarrow> int \<Rightarrow> int \<Rightarrow> int \<Rightarrow> jsv" where
  "window_request H launch committed opens closes =
     JObj [(''schema'', JStr WINDOW_SCHEMA),
       (''window_id'', JStr (''sha256:'' @ H (canonicalJson (window_body launch committed opens closes)))),
       (''coupled_launch_id'', JStr launch),
       (''policy_committed_at_ms'', JNum committed), (''opens_at_ms'', JNum opens), (''closes_at_ms'', JNum closes)]"

definition admission_request :: "(string \<Rightarrow> string) \<Rightarrow> string \<Rightarrow> commitment \<Rightarrow> int \<Rightarrow> jsv" where
  "admission_request H wid c t =
     JObj [(''schema'', JStr ADMISSION_SCHEMA),
       (''admission_id'', JStr (''sha256:'' @ H (canonicalJson (admission_body wid c t)))),
       (''window_id'', JStr wid), (''coupled_launch_id'', JStr (coupled_launch_id c)),
       (''commitment_id'', JStr (commitment_id c)), (''participant_id'', JStr (participant_id c)),
       (''account'', JStr (account c)), (''admitted_at_ms'', JNum t)]"

lemma window_accepted:
  assumes "prefix_hex ''sha256:'' 64 launch" "\<And>s. hex_n 64 (H s)"
    and "0 < committed" "committed < opens" "opens < closes" "closes \<le> MAX_SAFE_INTEGER"
  shows "verifyWindow H (JStr launch) (window_request H launch committed opens closes) =
    Inr \<lparr> window_id = ''sha256:'' @ H (canonicalJson (window_body launch committed opens closes)),
          w_launch_id = launch, policy_committed_at_ms = committed, opens_at_ms = opens, closes_at_ms = closes \<rparr>"
proof -
  let ?r = "window_request H launch committed opens closes" and ?b = "window_body launch committed opens closes"
  define wid where "wid = ''sha256:'' @ H (canonicalJson ?b)"
  have wid: "prefix_hex ''sha256:'' 64 wid" unfolding wid_def prefix_hex_append by (rule assms(2))
  have obj: "exactObject ?r WINDOW_KEYS code = Inr ?r" for code
    unfolding window_request_def by (rule exactObject_literal) (simp_all add: WINDOW_KEYS_def)
  have "windowPayload ?r = ?b" by (simp add: windowPayload_def window_request_def window_body_def)
  moreover have "opening_digest H ?b = Inr wid"
    unfolding wid_def by (rule opening_digest_safe) (use assms(3-) in \<open>simp add: window_body_def MAX_SAFE_INTEGER_def\<close>)
  ultimately have id: "wcVoidOpeningWindowIdV1 H ?r = Inr wid" by (simp add: wcVoidOpeningWindowIdV1_def obj)
  have fields: "jget ''schema'' ?r = JStr WINDOW_SCHEMA" "jget ''window_id'' ?r = JStr wid"
    "jget ''coupled_launch_id'' ?r = JStr launch" "jget ''policy_committed_at_ms'' ?r = JNum committed"
    "jget ''opens_at_ms'' ?r = JNum opens" "jget ''closes_at_ms'' ?r = JNum closes"
    by (simp_all add: window_request_def wid_def)
  show ?thesis
    unfolding wid_def [symmetric]
    using assms wid by (simp add: verifyWindow_def obj fields id canonicalSha_def canonicalMs_def MAX_SAFE_INTEGER_def)
qed

lemma admission_accepted:
  assumes "good_commitment H launch c" "\<And>s. hex_n 64 (H s)" "prefix_hex ''sha256:'' 64 launch"
    and "prefix_hex ''sha256:'' 64 (window_id w)" "c \<in> set cs" "distinct (map commitment_id cs)"
    and "0 < t" "opens_at_ms w \<le> t" "t < closes_at_ms w" "t \<le> MAX_SAFE_INTEGER"
  shows "check_admission H launch w (map (\<lambda>c. (commitment_id c, c)) cs) (admission_request H (window_id w) c t) =
    Inr \<lparr> admission_id = ''sha256:'' @ H (canonicalJson (admission_body (window_id w) c t)),
          ad_commitment_id = commitment_id c, ad_participant_id = participant_id c, ad_account = account c,
          admitted_at_ms = t \<rparr>"
proof -
  let ?r = "admission_request H (window_id w) c t" and ?b = "admission_body (window_id w) c t"
  define aid where "aid = ''sha256:'' @ H (canonicalJson ?b)"
  have aid: "prefix_hex ''sha256:'' 64 aid" unfolding aid_def prefix_hex_append by (rule assms(2))
  have c: "coupled_launch_id c = launch" "prefix_hex ''sha256:'' 64 (commitment_id c)"
    "prefix_hex ''sha256:'' 64 (participant_id c)" "3 \<le> slen (account c)" "slen (account c) \<le> 128"
    "list_all account_char (account c)"
    using assms(1) unfolding good_commitment_def wf_commitment_def by blast+
  have lookup: "map_of (map (\<lambda>c. (commitment_id c, c)) cs) (commitment_id c) = Some c"
    by (rule map_of_is_SomeI) (use assms(5,6) in \<open>auto simp: comp_def\<close>)
  have obj: "exactObject ?r ADMISSION_KEYS code = Inr ?r" for code
    unfolding admission_request_def by (rule exactObject_literal) (simp_all add: ADMISSION_KEYS_def)
  have "admissionPayload ?r = ?b" by (simp add: admissionPayload_def admission_request_def admission_body_def)
  moreover have "opening_digest H ?b = Inr aid"
    unfolding aid_def by (rule opening_digest_safe) (use assms(7-) in \<open>simp add: admission_body_def MAX_SAFE_INTEGER_def\<close>)
  ultimately have id: "wcVoidOpeningAdmissionIdV1 H ?r = Inr aid" by (simp add: wcVoidOpeningAdmissionIdV1_def obj)
  have fields: "jget ''schema'' ?r = JStr ADMISSION_SCHEMA" "jget ''admission_id'' ?r = JStr aid"
    "jget ''window_id'' ?r = JStr (window_id w)" "jget ''coupled_launch_id'' ?r = JStr launch"
    "jget ''commitment_id'' ?r = JStr (commitment_id c)" "jget ''participant_id'' ?r = JStr (participant_id c)"
    "jget ''account'' ?r = JStr (account c)" "jget ''admitted_at_ms'' ?r = JNum t"
    by (simp_all add: admission_request_def aid_def c(1))
  show ?thesis
    unfolding aid_def [symmetric]
    using assms(3,4,7-) aid c
    by (simp add: check_admission_def obj fields id lookup canonicalSha_def canonicalAccount_def canonicalMs_def MAX_SAFE_INTEGER_def)
qed

definition ex_wid :: string where
  "ex_wid = ex_pid CHR ''0''"

definition ex_window_digest :: "string \<Rightarrow> string" where
  "ex_window_digest s =
     replicate 64 (if s = canonicalJson (commitment_body ex_alice) \<or> s = canonicalJson (admission_body ex_wid ex_alice 25)
       then CHR ''1'' else CHR ''0'')"

lemma ex_window_digest_shape: "hex_n 64 (ex_window_digest s)"
  by (simp add: ex_window_digest_def hex_n_def list_all_iff is_lower_hex_def)

interpretation ex_window_digest: hex_digest ex_window_digest
  by unfold_locales (rule ex_window_digest_shape)

lemma ex_window_texts_differ:
  "canonicalJson (window_body ex_launch 10 20 30) \<noteq> canonicalJson (commitment_body ex_alice)"
  "canonicalJson (window_body ex_launch 10 20 30) \<noteq> canonicalJson (admission_body ex_wid ex_alice 25)"
  "canonicalJson (commitment_body ex_bob) \<noteq> canonicalJson (commitment_body ex_alice)"
  "canonicalJson (commitment_body ex_bob) \<noteq> canonicalJson (admission_body ex_wid ex_alice 25)"
  "canonicalJson (admission_body ex_wid ex_bob 20) \<noteq> canonicalJson (commitment_body ex_alice)"
  "canonicalJson (admission_body ex_wid ex_bob 20) \<noteq> canonicalJson (admission_body ex_wid ex_alice 25)"
  by (rule canonicalJson_differ [where k = "''account''"];
      simp add: window_body_def commitment_body_def admission_body_def)+

lemma ex_window_digests:
  "ex_window_digest (canonicalJson (commitment_body ex_alice)) = replicate 64 CHR ''1''"
  "ex_window_digest (canonicalJson (commitment_body ex_bob)) = replicate 64 CHR ''0''"
  "ex_window_digest (canonicalJson (window_body ex_launch 10 20 30)) = replicate 64 CHR ''0''"
  "ex_window_digest (canonicalJson (admission_body ex_wid ex_alice 25)) = replicate 64 CHR ''1''"
  "ex_window_digest (canonicalJson (admission_body ex_wid ex_bob 20)) = replicate 64 CHR ''0''"
  using ex_window_texts_differ by (simp_all add: ex_window_digest_def)

definition ex_window :: jsv where
  "ex_window = window_request ex_window_digest ex_launch 10 20 30"

definition ex_admissions :: "jsv list" where
  "ex_admissions = [admission_request ex_window_digest ex_wid ex_alice 25, admission_request ex_window_digest ex_wid ex_bob 20]"

definition window_input :: "jsv \<Rightarrow> jsv \<Rightarrow> jsv \<Rightarrow> jsv list \<Rightarrow> jsv" where
  "window_input launch window commits admissions =
     JObj [(''coupled_launch_id'', launch), (''window'', window), (''commitments'', commits), (''admissions'', JArr admissions)]"

section \<open>The policy as a composition\<close>

lemma exactObject_again: "exactObject v keys code = Inr s \<Longrightarrow> distinct keys \<Longrightarrow> exactObject s keys code' = Inr s"
  by (auto dest!: exactObject_Inr simp del: jget.simps intro: exactObject_snapshot)

text \<open>A verified window is verified again, as a snapshot, by the classifier.\<close>

lemma classify_open:
  assumes "verifyWindow H launchId window = Inr w" "launchId = JStr launch"
    and "opens_at_ms w \<le> t" "t < closes_at_ms w" "isSafeInteger (JNum t)" "0 < t"
  shows "\<exists>ph. classifyWcVoidOpeningWindowPhaseV1 H window (JNum t) = Inr ph \<and> phase ph = ''open'' \<and> admission_allowed ph"
proof -
  from assms(1) obtain v where v: "exactObject window WINDOW_KEYS ''INVALID_WC_VOID_OPENING_WINDOW_SHAPE'' = Inr v"
    unfolding verifyWindow_def bnd_eq_Inr by blast
  note again = exactObject_again [OF v, of "''INVALID_WC_VOID_OPENING_WINDOW_SHAPE''"]
  have d: "distinct WINDOW_KEYS" by (simp add: WINDOW_KEYS_def)
  have lid: "jget ''coupled_launch_id'' v = launchId"
    using assms(1,2) v unfolding verifyWindow_def
    by (auto simp: js_simps canonicalSha_def is_str_iff simp del: jget.simps split: if_splits)
  have "verifyWindow H launchId v = verifyWindow H launchId window"
    unfolding verifyWindow_def v again [OF d] ..
  then show ?thesis
    using assms by (simp add: classifyWcVoidOpeningWindowPhaseV1_def v lid canonicalMs_def)
qed

lemma window_policy_Inr:
  assumes "verifyWcVoidOpeningWindowPolicyV1 H input = Inr r"
  obtains launch w cset vs as sid where
    "canonicalSha (jget ''coupled_launch_id'' input) ''INVALID_COUPLED_LAUNCH_ID'' = Inr launch"
    "jget ''coupled_launch_id'' input = JStr launch"
    "verifyWindow H (jget ''coupled_launch_id'' input) (jget ''window'' input) = Inr w"
    "verifyWcVoidOpeningCommitmentsV1 H (jget ''coupled_launch_id'' input) (jget ''commitments'' input) = Inr cset"
    "jget ''admissions'' input = JArr vs" "verify_admissions H launch w cset vs = Inr as"
    "r = JObj ((''marker'', JStr ''VOID_WC_VOID_OPENING_WINDOW_POLICY_V1'') # window_policy_payload launch w cset as @
       (''policy_state_id'', JStr sid) # window_policy_report)"
proof -
  have keys: "''coupled_launch_id'' \<in> set WINDOW_REQUEST_KEYS" "''window'' \<in> set WINDOW_REQUEST_KEYS"
    "''commitments'' \<in> set WINDOW_REQUEST_KEYS" "''admissions'' \<in> set WINDOW_REQUEST_KEYS"
    by (simp_all add: WINDOW_REQUEST_KEYS_def)
  have obj: "exactObject input WINDOW_REQUEST_KEYS code = Inr (JObj (map (\<lambda>k. (k, jget k input)) WINDOW_REQUEST_KEYS))" for code
  proof -
    from assms obtain s where "exactObject input WINDOW_REQUEST_KEYS ''INVALID_WC_VOID_OPENING_WINDOW_REQUEST_SHAPE'' = Inr s"
      unfolding verifyWcVoidOpeningWindowPolicyV1_def bnd_eq_Inr by blast
    from exactObject_Inr [OF this] show ?thesis by (simp add: exactObject_def)
  qed
  have sha: "jget ''coupled_launch_id'' input = JStr launch"
    if "canonicalSha (jget ''coupled_launch_id'' input) ''INVALID_COUPLED_LAUNCH_ID'' = Inr launch" for launch
    using that by (auto simp: canonicalSha_def is_str_iff split: if_splits)
  have arr: "v = JArr vs" if "exactArray v code = Inr vs" for v vs code
    using that by (cases v) (auto simp: exactArray_def split: if_splits)
  from assms obtain launch w cset vs as sid where p:
    "canonicalSha (jget ''coupled_launch_id'' input) ''INVALID_COUPLED_LAUNCH_ID'' = Inr launch"
    "verifyWindow H (JStr launch) (jget ''window'' input) = Inr w"
    "verifyWcVoidOpeningCommitmentsV1 H (JStr launch) (jget ''commitments'' input) = Inr cset"
    "exactArray (jget ''admissions'' input) ''INVALID_WC_VOID_OPENING_ADMISSION_SET'' = Inr vs"
    "verify_admissions H launch w cset vs = Inr as"
    "r = JObj ((''marker'', JStr ''VOID_WC_VOID_OPENING_WINDOW_POLICY_V1'') # window_policy_payload launch w cset as @
       (''policy_state_id'', JStr sid) # window_policy_report)"
    unfolding verifyWcVoidOpeningWindowPolicyV1_def Let_def obj bnd_simps jget_snapshot [OF keys(1)]
      jget_snapshot [OF keys(2)] jget_snapshot [OF keys(3)] jget_snapshot [OF keys(4)] bnd_eq_Inr sum.inject
    by blast
  show thesis
    by (rule that [OF p(1) sha [OF p(1)] _ _ arr [OF p(4)] p(5,6)]) (simp_all only: sha [OF p(1)] p(2,3))
qed

lemma window_input_eq_digest:
  assumes "canonicalSha launchId ''INVALID_COUPLED_LAUNCH_ID'' = Inr launch" "verifyWindow H launchId window = Inr w"
    and "verifyWcVoidOpeningCommitmentsV1 H launchId commits = Inr cset"
    and "verify_admissions H launch w cset vs = Inr as"
  shows "verifyWcVoidOpeningWindowPolicyV1 H (window_input launchId window commits vs) =
    Inr (JObj ((''marker'', JStr ''VOID_WC_VOID_OPENING_WINDOW_POLICY_V1'') # window_policy_payload launch w cset as @
       (''policy_state_id'', JStr (''sha256:'' @ H (canonicalJson (JObj (window_policy_payload launch w cset as))))) #
       window_policy_report))"
proof -
  let ?r = "window_input launchId window commits vs"
  have launch: "launchId = JStr launch"
    using assms(1) by (auto simp: canonicalSha_def is_str_iff split: if_splits)
  note wf = verified_commitments_wf(1) [OF assms(3)] and w = postD [OF verifyWindow_wf assms(2)]
  have "int (length vs) = commitment_count cset"
    using assms(4) by (auto simp: verify_admissions_def split: if_splits)
  moreover have n: "commitment_count cset = int (length (commitments cset))" "commitments cset \<noteq> []" "commitment_count cset \<le> MAX_SET_SIZE"
    using wf by (simp_all add: wf_commitment_set_def)
  ultimately have len: "\<not> int (length vs) < 1" "\<not> MAX_SET_SIZE < int (length vs)"
    by (cases "commitments cset"; simp)+
  have safe: "safe_plain (JObj (window_policy_payload launch w cset as))"
  proof -
    have "length as = length (commitments cset)"
      using arg_cong [OF verify_admissions_Inr(1) [OF assms(4) wf], of size] by simp
    with n have count: "int (length as) \<le> MAX_SET_SIZE" by simp
    have adm: "list_all safe_plain (map admission_json as)"
      using verify_admissions_Inr(3) [OF assms(4) wf] by (simp add: list_all_iff admission_json_def)
    show ?thesis
      using w count adm by (simp add: window_policy_payload_def wf_window_def MAX_SAFE_INTEGER_def MAX_SET_SIZE_def)
  qed
  have "exactObject ?r WINDOW_REQUEST_KEYS code = Inr ?r" for code
    unfolding window_input_def by (rule exactObject_literal) (simp_all add: WINDOW_REQUEST_KEYS_def)
  moreover have "jget ''coupled_launch_id'' ?r = launchId" "jget ''window'' ?r = window"
    "jget ''commitments'' ?r = commits" "jget ''admissions'' ?r = JArr vs"
    by (simp_all add: window_input_def)
  moreover note opening_digest_safe [OF safe, of H]
  ultimately show ?thesis
    using assms len launch by (simp add: verifyWcVoidOpeningWindowPolicyV1_def exactArray_def Let_def)
qed

lemma ex_window_policy_ok:
  "\<exists>r. verifyWcVoidOpeningWindowPolicyV1 ex_window_digest (window_input (JStr ex_launch) ex_window ex_commitments ex_admissions) = Inr r"
proof -
  have window: "verifyWindow ex_window_digest (JStr ex_launch) ex_window = Inr
      \<lparr> window_id = ex_wid, w_launch_id = ex_launch, policy_committed_at_ms = 10, opens_at_ms = 20, closes_at_ms = 30 \<rparr>"
    (is "_ = Inr ?w")
    unfolding ex_window_def
    by (subst window_accepted)
      (auto simp: ex_launch_shape ex_window_digest_shape MAX_SAFE_INTEGER_def ex_window_digests ex_wid_def ex_pid_def)
  note good = ex_good_alice [of ex_window_digest, OF ex_window_digests(1)] ex_good_bob [of ex_window_digest, OF ex_window_digests(2)]
  obtain cset where cset: "verifyWcVoidOpeningCommitmentsV1 ex_window_digest (JStr ex_launch) ex_commitments = Inr cset"
    "commitment_count cset = 2" "commitments cset = sort_key commitment_id [ex_alice, ex_bob]"
    using commitments_accepted [of ex_window_digest ex_launch "[ex_alice, ex_bob]"] good ex_launch_shape
    by (auto simp: ex_commitments_def MAX_SET_SIZE_def)
  let ?byId = "map (\<lambda>c. (commitment_id c, c)) (commitments cset)"
  have ids: "distinct (map commitment_id (commitments cset))" unfolding cset(3) distinct_map_sort_key by simp
  have mem: "ex_alice \<in> set (commitments cset)" "ex_bob \<in> set (commitments cset)" unfolding cset(3) by simp_all
  have "check_admission ex_window_digest ex_launch ?w ?byId (admission_request ex_window_digest ex_wid c t) =
    Inr \<lparr> admission_id = ''sha256:'' @ ex_window_digest (canonicalJson (admission_body ex_wid c t)),
          ad_commitment_id = commitment_id c, ad_participant_id = participant_id c, ad_account = account c,
          admitted_at_ms = t \<rparr>"
    if "good_commitment ex_window_digest ex_launch c" "c \<in> set (commitments cset)" "20 \<le> t" "t < 30" for c t
    using admission_accepted [OF that(1) ex_window_digest_shape ex_launch_shape _ that(2) ids, of ?w t] that(3,4)
    by (simp add: MAX_SAFE_INTEGER_def ex_wid_def ex_pid_shape is_lower_hex_def)
  note adm = this [OF good(1) mem(1), of 25] this [OF good(2) mem(2), of 20]
  have "length (remdups (map fst ?byId)) = 2"
    using ids by (simp add: comp_def distinct_remdups_id cset(3))
  then have "verify_admissions ex_window_digest ex_launch ?w cset ex_admissions \<in> range Inr"
    using adm by (simp add: verify_admissions_def cset(2) ex_admissions_def verify_admission_def Let_def ex_window_digests)
  then show ?thesis
    using window_input_eq_digest [OF _ window cset(1)] ex_launch_shape by (fastforce simp: canonicalSha_def)
qed

section \<open>Properties of the window policy\<close>

text \<open>
  C12. An accepted window policy admits every commitment exactly once and inside the window. The
  window was committed before it opens and opens before it closes; the admissions returned are in
  bijection with the verified commitments (same commitment, participant and account) under
  distinct admission ids; and at the instant of every admission the phase classifier reports the
  window as open, so nothing is admitted at or after the closing instant.
\<close>

theorem window_policy_sound:
  assumes "verifyWcVoidOpeningWindowPolicyV1 H input = Inr r"
  shows "\<exists>w cset as. verifyWindow H (jget ''coupled_launch_id'' input) (jget ''window'' input) = Inr w \<and>
    verifyWcVoidOpeningCommitmentsV1 H (jget ''coupled_launch_id'' input) (jget ''commitments'' input) = Inr cset \<and>
    jget ''admissions'' r = JArr (map admission_json as) \<and>
    policy_committed_at_ms w < opens_at_ms w \<and> opens_at_ms w < closes_at_ms w \<and>
    mset (map admission_row as) = mset (map participant_row (commitments cset)) \<and>
    distinct (map admission_id as) \<and>
    (\<forall>a \<in> set as. \<exists>ph. classifyWcVoidOpeningWindowPhaseV1 H (jget ''window'' input) (JNum (admitted_at_ms a)) = Inr ph \<and>
       phase ph = ''open'' \<and> admission_allowed ph)"
proof -
  obtain launch w cset vs as sid where p:
    "jget ''coupled_launch_id'' input = JStr launch"
    "verifyWindow H (jget ''coupled_launch_id'' input) (jget ''window'' input) = Inr w"
    "verifyWcVoidOpeningCommitmentsV1 H (jget ''coupled_launch_id'' input) (jget ''commitments'' input) = Inr cset"
    "verify_admissions H launch w cset vs = Inr as"
    "r = JObj ((''marker'', JStr ''VOID_WC_VOID_OPENING_WINDOW_POLICY_V1'') # window_policy_payload launch w cset as @
       (''policy_state_id'', JStr sid) # window_policy_report)"
    using assms by (rule window_policy_Inr)
  note adm = verify_admissions_Inr [OF p(4) verified_commitments_wf(1) [OF p(3)]]
    and w = postD [OF verifyWindow_wf p(2), unfolded wf_window_def]
  have "\<exists>ph. classifyWcVoidOpeningWindowPhaseV1 H (jget ''window'' input) (JNum (admitted_at_ms a)) = Inr ph \<and>
       phase ph = ''open'' \<and> admission_allowed ph" if "a \<in> set as" for a
    using classify_open [OF p(2,1)] adm(3) [OF that] w by auto
  moreover have "jget ''admissions'' r = JArr (map admission_json as)"
    by (simp add: p(5) window_policy_payload_def)
  ultimately show ?thesis using p(2,3) adm(1,2) w by auto
qed

theorem window_policy_sound_witness:
  "\<exists>r as. verifyWcVoidOpeningWindowPolicyV1 ex_window_digest
       (window_input (JStr ex_launch) ex_window ex_commitments ex_admissions) = Inr r \<and>
     jget ''admissions'' r = JArr (map admission_json as) \<and> distinct (map admission_id as)"
  using ex_window_policy_ok window_policy_sound [of ex_window_digest "window_input (JStr ex_launch) ex_window ex_commitments ex_admissions"]
  by blast

text \<open>
  C13. The result of the window policy does not depend on the order of the admissions: if a request
  is accepted, the same request with its admissions in any other order is accepted with the same
  result, content address included.
\<close>

theorem window_policy_order_independent:
  assumes "verifyWcVoidOpeningWindowPolicyV1 H (window_input launchId window commits xs) = Inr r" "mset ys = mset xs"
  shows "verifyWcVoidOpeningWindowPolicyV1 H (window_input launchId window commits ys) = Inr r"
proof -
  let ?i = "window_input launchId window commits"
  have fields: "jget ''coupled_launch_id'' (?i zs) = launchId" "jget ''window'' (?i zs) = window"
    "jget ''commitments'' (?i zs) = commits" "jget ''admissions'' (?i zs) = JArr zs" for zs
    by (simp_all add: window_input_def)
  obtain launch w cset vs as sid where p:
    "canonicalSha launchId ''INVALID_COUPLED_LAUNCH_ID'' = Inr launch" "verifyWindow H launchId window = Inr w"
    "verifyWcVoidOpeningCommitmentsV1 H launchId commits = Inr cset" "verify_admissions H launch w cset vs = Inr as" "JArr xs = JArr vs"
    by (rule window_policy_Inr [OF assms(1), unfolded fields]) blast
  have "verify_admissions H launch w cset ys = Inr as"
    by (rule verify_admissions_reorder [OF p(4)]) (use p(5) assms(2) in simp)
  from window_input_eq_digest [OF p(1-3) this] window_input_eq_digest [OF p(1-4)] assms(1) p(5) show ?thesis
    by simp
qed

theorem window_policy_order_independent_witness:
  "\<exists>r. verifyWcVoidOpeningWindowPolicyV1 ex_window_digest
       (window_input (JStr ex_launch) ex_window ex_commitments ex_admissions) = Inr r \<and>
     verifyWcVoidOpeningWindowPolicyV1 ex_window_digest
       (window_input (JStr ex_launch) ex_window ex_commitments (rev ex_admissions)) = Inr r"
  using ex_window_policy_ok window_policy_order_independent [of ex_window_digest "JStr ex_launch" ex_window ex_commitments ex_admissions _ "rev ex_admissions"]
  by force

end
