(* ===== verification/Saga_Event.thy ===== *)
theory Saga_Event
  imports Sha256
begin

text \<open>
  \<^verbatim>\<open>tools/buy-void-crash-consistent-fulfillment-saga-v1.mjs\<close>, lines 20 to 501: the events of the
  fulfilment saga. An event names its saga by the content address of the saga's binding, carries a
  payload of one of thirteen types, and is itself content addressed. This theory has the
  validators, the screening of secret material, the identifiers, and the construction and
  validation of events.
\<close>

section \<open>Constants\<close>

definition SAGA_MARKER :: string where
  "SAGA_MARKER = ''VOID_BUY_VOID_CRASH_CONSISTENT_FULFILLMENT_SAGA_V1''"

definition SAGA_SCHEMA :: string where
  "SAGA_SCHEMA = ''void_buy_void_crash_consistent_fulfillment_saga_v1''"

definition EVENT_SCHEMA :: string where
  "EVENT_SCHEMA = ''void_buy_void_crash_consistent_fulfillment_saga_event_v1''"

definition LEASE_SCHEMA :: string where
  "LEASE_SCHEMA = ''void_buy_void_crash_consistent_fulfillment_saga_lease_v1''"

definition SAGA_ID_PREFIX :: string where
  "SAGA_ID_PREFIX = ''voidbvfsg1_''"

definition EVENT_ID_PREFIX :: string where
  "EVENT_ID_PREFIX = ''voidbvfsge1_''"

definition ADVANCE_CONFIRMATION :: string where
  "ADVANCE_CONFIRMATION = ''buyVoidAdvanceCrashConsistentFulfillmentSagaV1''"

definition SAGA_AUTHORITY :: jsv where
  "SAGA_AUTHORITY = JObj [
     (''source_only_contract'', JBool True),
     (''one_request_per_saga'', JBool True),
     (''one_payment_per_saga'', JBool True),
     (''one_execution_attempt_per_payment'', JBool True),
     (''per_request_lease_required'', JBool True),
     (''monotonically_increasing_fencing_token_required'', JBool True),
     (''append_only_hash_chain_required'', JBool True),
     (''prepared_transaction_hash_required_before_broadcast'', JBool True),
     (''write_ahead_broadcast_intent_required'', JBool True),
     (''no_automatic_rebroadcast_after_possible_broadcast'', JBool True),
     (''receipt_confirmation_required_before_closeout'', JBool True),
     (''caller_supplied_private_material_forbidden'', JBool True),
     (''caller_supplied_raw_signed_transaction_forbidden'', JBool True),
     (''background_loop'', JBool False),
     (''startup_execution'', JBool False),
     (''network_request'', JBool False),
     (''credential_access'', JBool False),
     (''wallet_access'', JBool False),
     (''signing'', JBool False),
     (''transaction_broadcast'', JBool False),
     (''inventory_decrement'', JBool False),
     (''public_request_mutation'', JBool False),
     (''money_movement'', JBool False)]"

definition EVENT_TYPES :: "string list" where
  "EVENT_TYPES = [''saga_initialized'', ''claim_committed'', ''inventory_reserved'', ''attempt_reserved'',
     ''transaction_prepared'', ''broadcast_intent_committed'', ''broadcast_not_attempted'',
     ''broadcast_unknown'', ''broadcast_accepted'', ''receipt_confirmed'', ''receipt_reverted'',
     ''closeout_committed'', ''terminal_hold'']"

definition ACTION_CONFIRMATIONS :: "(string \<times> string) list" where
  "ACTION_CONFIRMATIONS = [
     (''claim_payment'', ''buyVoidSagaClaimPaymentV1''),
     (''reserve_inventory'', ''buyVoidSagaReserveInventoryV1''),
     (''reserve_execution_attempt'', ''buyVoidSagaReserveExecutionAttemptV1''),
     (''prepare_transaction'', ''buyVoidSagaPrepareTransactionV1''),
     (''execute_prepared_transaction'', ''buyVoidSagaExecutePreparedTransactionV1''),
     (''reconcile_possible_broadcast'', ''buyVoidSagaReconcilePossibleBroadcastV1''),
     (''closeout_confirmed_delivery'', ''buyVoidSagaCloseoutConfirmedDeliveryV1'')]"

definition MAX_EVENTS :: int where
  "MAX_EVENTS = 64"

definition MAX_LEASE_TTL_MS :: int where
  "MAX_LEASE_TTL_MS = 15 * 60 * 1000"

definition FORBIDDEN_KEYS :: "string list" where
  "FORBIDDEN_KEYS = [''private_key'', ''privatekey'', ''mnemonic'', ''seed'', ''seed_phrase'', ''seedphrase'',
     ''raw_transaction'', ''raw_signed_transaction'', ''signed_transaction'', ''signedtransaction'',
     ''authorization'', ''authorization_header'', ''bearer_token'', ''credential'', ''credential_value'',
     ''secret'', ''password'', ''keystore'', ''wallet_file'', ''rpc_url'', ''rpcurl'', ''__proto__'',
     ''prototype'', ''constructor'']"

section \<open>Validators\<close>

definition directObject :: "jsv \<Rightarrow> string \<Rightarrow> jsv res" where
  "directObject v label = (if \<not> is_obj v then Inl (label @ ''_must_be_object'') else Inr v)"

definition saga_exactKeys :: "jsv \<Rightarrow> string list \<Rightarrow> string \<Rightarrow> unit res" where
  "saga_exactKeys v keys label =
     bnd (directObject v label) (\<lambda>v.
     if \<not> same_keys v keys then Inl (label @ ''_keys_mismatch'') else Inr ())"

definition nonEmptyString :: "jsv \<Rightarrow> string \<Rightarrow> int \<Rightarrow> string res" where
  "nonEmptyString v label maximum =
     (if \<not> is_str v \<or> str_of v \<noteq> js_trim (str_of v) then Inl (label @ ''_must_be_trimmed_string'')
      else if slen (str_of v) < 1 \<or> slen (str_of v) > maximum then Inl (label @ ''_length_out_of_range'')
      else Inr (str_of v))"

definition safe_id_char :: "char \<Rightarrow> bool" where
  "safe_id_char c \<longleftrightarrow> is_alnum c \<or> c \<in> set ''._:-''"

definition safeId :: "jsv \<Rightarrow> string \<Rightarrow> string res" where
  "safeId v label =
     bnd (nonEmptyString v label 200) (\<lambda>t.
     if \<not> (3 \<le> slen t \<and> slen t \<le> 200 \<and> list_all safe_id_char t) then Inl (label @ ''_invalid'') else Inr t)"

definition saga_sha256 :: "jsv \<Rightarrow> string \<Rightarrow> string res" where
  "saga_sha256 v label =
     bnd (nonEmptyString v label 64) (\<lambda>t.
     if \<not> hex_n 64 t then Inl (label @ ''_invalid_sha256'') else Inr t)"

definition gitSha :: "jsv \<Rightarrow> string \<Rightarrow> string res" where
  "gitSha v label =
     bnd (nonEmptyString v label 40) (\<lambda>t.
     if \<not> hex_n 40 t then Inl (label @ ''_invalid_git_sha'') else Inr t)"

definition transactionHash :: "jsv \<Rightarrow> string \<Rightarrow> string res" where
  "transactionHash v label =
     bnd (nonEmptyString v label 66) (\<lambda>t.
     if \<not> prefix_hex ''0x'' 64 (js_lower t) then Inl (label @ ''_invalid_transaction_hash'')
     else Inr (js_lower t))"

definition saga_address :: "jsv \<Rightarrow> string \<Rightarrow> string res" where
  "saga_address v label =
     bnd (nonEmptyString v label 42) (\<lambda>t.
     if \<not> prefix_hex ''0x'' 40 (js_lower t) then Inl (label @ ''_invalid_address'')
     else Inr (js_lower t))"

text \<open>\<^verbatim>\<open>String(value ?? "").trim()\<close>\<close>

definition decimal_text :: "jsv \<Rightarrow> string" where
  "decimal_text v = js_trim (if v = JUndef \<or> v = JNull then [] else js_String v)"

definition saga_decimal :: "jsv \<Rightarrow> string \<Rightarrow> bool \<Rightarrow> string res" where
  "saga_decimal v label positive =
     (let t = decimal_text v in
      if \<not> is_decimal t then Inl (label @ ''_invalid_decimal'')
      else if positive \<and> dec_val t \<le> 0 then Inl (label @ ''_must_be_positive'')
      else Inr t)"

definition safeInteger :: "jsv \<Rightarrow> int \<Rightarrow> int \<Rightarrow> string \<Rightarrow> int res" where
  "safeInteger v minimum maximum label =
     (if \<not> isSafeInteger v \<or> num_of v < minimum \<or> num_of v > maximum then Inl (label @ ''_out_of_range'')
      else Inr (num_of v))"

section \<open>UTC timestamps\<close>

text \<open>
  \<^verbatim>\<open>/^\d{4}-\d{2}-\d{2}T\d{2}:\d{2}:\d{2}\.\d{3}Z$/\<close>; a text of that shape is printed back by
  \<^verbatim>\<open>new Date(Date.parse(text)).toISOString()\<close> exactly if it names a day of the proleptic Gregorian
  calendar and a time of that day. \<open>utc_ms\<close> is \<^verbatim>\<open>Date.parse\<close> on such a text.
\<close>

definition utc_shape :: "string \<Rightarrow> bool" where
  "utc_shape s \<longleftrightarrow> length s = 24 \<and>
     list_all (\<lambda>i. is_digit (s ! i)) [0, 1, 2, 3, 5, 6, 8, 9, 11, 12, 14, 15, 17, 18, 20, 21, 22] \<and>
     s ! 4 = CHR ''-'' \<and> s ! 7 = CHR ''-'' \<and> s ! 10 = CHR ''T'' \<and> s ! 13 = CHR '':'' \<and>
     s ! 16 = CHR '':'' \<and> s ! 19 = CHR ''.'' \<and> s ! 23 = CHR ''Z''"

definition utc_field :: "string \<Rightarrow> nat \<Rightarrow> nat \<Rightarrow> int" where
  "utc_field s i n = dec_val (take n (drop i s))"

definition leap_year :: "int \<Rightarrow> bool" where
  "leap_year y \<longleftrightarrow> y mod 4 = 0 \<and> (y mod 100 \<noteq> 0 \<or> y mod 400 = 0)"

definition days_in_month :: "int \<Rightarrow> int \<Rightarrow> int" where
  "days_in_month y m =
     (if m = 2 then (if leap_year y then 29 else 28) else if m \<in> {4, 6, 9, 11} then 30 else 31)"

definition utc_calendar_ok :: "string \<Rightarrow> bool" where
  "utc_calendar_ok s \<longleftrightarrow>
     (let y = utc_field s 0 4; m = utc_field s 5 2; d = utc_field s 8 2 in
      1 \<le> m \<and> m \<le> 12 \<and> 1 \<le> d \<and> d \<le> days_in_month y m \<and>
      utc_field s 11 2 \<le> 23 \<and> utc_field s 14 2 \<le> 59 \<and> utc_field s 17 2 \<le> 59)"

definition days_before_year :: "int \<Rightarrow> int" where
  "days_before_year y = 365 * y + (y + 3) div 4 - (y + 99) div 100 + (y + 399) div 400"

definition utc_ms :: "string \<Rightarrow> int" where
  "utc_ms s =
     (let y = utc_field s 0 4; m = utc_field s 5 2; d = utc_field s 8 2;
          days = days_before_year y - days_before_year 1970 +
            sum_list (map (days_in_month y) (map int [1..<nat m])) + d - 1
      in (((days * 24 + utc_field s 11 2) * 60 + utc_field s 14 2) * 60 + utc_field s 17 2) * 1000 +
         utc_field s 20 3)"

definition canonicalUtc :: "jsv \<Rightarrow> string \<Rightarrow> string res" where
  "canonicalUtc v label =
     bnd (nonEmptyString v label 24) (\<lambda>t.
     if \<not> utc_shape t then Inl (label @ ''_must_be_utc_milliseconds'')
     else if \<not> utc_calendar_ok t then Inl (label @ ''_invalid_utc'')
     else Inr t)"

section \<open>Screening of secret material\<close>

definition normalizeKey :: "string \<Rightarrow> string" where
  "normalizeKey k =
     filter (\<lambda>c. is_digit c \<or> c \<in> set ''abcdefghijklmnopqrstuvwxyz_'') (js_lower (js_trim k))"

text \<open>\<^verbatim>\<open>/voidapwc1\.[A-Za-z0-9._:-]+\.[A-Za-z0-9_-]{16,}/\<close>, searched anywhere in the text.\<close>

definition credential_tail :: "string \<Rightarrow> bool" where
  "credential_tail t \<longleftrightarrow>
     list_ex (\<lambda>k. list_all safe_id_char (take k t) \<and> t ! k = CHR ''.'' \<and>
         length (take 16 (drop (Suc k) t)) = 16 \<and>
         list_all (\<lambda>c. is_alnum c \<or> c \<in> set ''_-'') (take 16 (drop (Suc k) t)))
       [1..<length t]"

fun has_raw_credential :: "string \<Rightarrow> bool" where
  "has_raw_credential [] = False"
| "has_raw_credential (c # cs) =
     ((take 10 (c # cs) = ''voidapwc1.'' \<and> credential_tail (drop 10 (c # cs))) \<or> has_raw_credential cs)"

text \<open>\<^verbatim>\<open>/^0x[0-9a-fA-F]{130,}$/\<close>\<close>

definition raw_transaction_like :: "string \<Rightarrow> bool" where
  "raw_transaction_like s \<longleftrightarrow> take 2 s = ''0x'' \<and> 132 \<le> slen s \<and> list_all is_hex (drop 2 s)"

text \<open>The callback of \<^verbatim>\<open>forEach\<close> over an array, which also receives the index.\<close>

fun forEach_res :: "(int \<Rightarrow> 'a \<Rightarrow> unit res) \<Rightarrow> int \<Rightarrow> 'a list \<Rightarrow> unit res" where
  "forEach_res f i [] = Inr ()"
| "forEach_res f i (x # xs) = bnd (f i x) (\<lambda>_. forEach_res f (i + 1) xs)"

lemma forEach_res_cong [fundef_cong]:
  "xs = ys \<Longrightarrow> (\<And>i x. x \<in> set ys \<Longrightarrow> f i x = g i x) \<Longrightarrow> i = j \<Longrightarrow> forEach_res f i xs = forEach_res g j ys"
  by (induction ys arbitrary: xs i j) (auto intro!: bnd_cong)

fun assertNoSecretMaterialV1 :: "jsv \<Rightarrow> string \<Rightarrow> int \<Rightarrow> unit res" where
  "assertNoSecretMaterialV1 (JStr s) path depth =
     (if depth > 24 then Inl (path @ ''_maximum_depth_exceeded'')
      else if has_raw_credential s then Inl (path @ ''_raw_credential_forbidden'')
      else if raw_transaction_like s then Inl (path @ ''_raw_transaction_like_value_forbidden'')
      else Inr ())"
| "assertNoSecretMaterialV1 (JArr xs) path depth =
     (if depth > 24 then Inl (path @ ''_maximum_depth_exceeded'')
      else forEach_res (\<lambda>i x. assertNoSecretMaterialV1 x (path @ ''['' @ int_str i @ '']'') (depth + 1)) 0 xs)"
| "assertNoSecretMaterialV1 (JObj kvs) path depth =
     (if depth > 24 then Inl (path @ ''_maximum_depth_exceeded'')
      else forEach_res (\<lambda>i (k, v).
        if normalizeKey k \<in> set FORBIDDEN_KEYS then Inl (path @ ''.'' @ k @ ''_forbidden_key'')
        else assertNoSecretMaterialV1 v (path @ ''.'' @ k) (depth + 1)) 0 kvs)"
| "assertNoSecretMaterialV1 v path depth =
     (if depth > 24 then Inl (path @ ''_maximum_depth_exceeded'') else Inr ())"

section \<open>Identifiers\<close>

definition contentId :: "(string \<Rightarrow> string) \<Rightarrow> string \<Rightarrow> jsv \<Rightarrow> string \<Rightarrow> string" where
  "contentId H prefix v idKey = prefix @ H (canonicalJsonV1 (jdel idKey v))"

definition BINDING_KEYS :: "string list" where
  "BINDING_KEYS = [''request_id'', ''canonical_payment_identity'', ''request_key_sha256'',
     ''payment_key_sha256'', ''delivery_address'', ''void_amount_units'', ''chain_id'', ''pool_id'']"

definition validateSagaBindingV1 :: "jsv \<Rightarrow> jsv res" where
  "validateSagaBindingV1 v =
     bnd (saga_exactKeys v BINDING_KEYS ''binding'') (\<lambda>_.
     bnd (safeId (jget ''request_id'' v) ''binding.request_id'') (\<lambda>request_id.
     bnd (safeId (jget ''canonical_payment_identity'' v) ''binding.canonical_payment_identity'') (\<lambda>payment_identity.
     bnd (saga_sha256 (jget ''request_key_sha256'' v) ''binding.request_key_sha256'') (\<lambda>request_key.
     bnd (saga_sha256 (jget ''payment_key_sha256'' v) ''binding.payment_key_sha256'') (\<lambda>payment_key.
     bnd (saga_address (jget ''delivery_address'' v) ''binding.delivery_address'') (\<lambda>delivery.
     bnd (saga_decimal (jget ''void_amount_units'' v) ''binding.void_amount_units'' True) (\<lambda>units.
     bnd (nonEmptyString (jget ''chain_id'' v) ''binding.chain_id'' 16) (\<lambda>chain_id.
     bnd (safeId (jget ''pool_id'' v) ''binding.pool_id'') (\<lambda>pool_id.
     let binding = JObj [
       (''request_id'', JStr request_id),
       (''canonical_payment_identity'', JStr payment_identity),
       (''request_key_sha256'', JStr request_key),
       (''payment_key_sha256'', JStr payment_key),
       (''delivery_address'', JStr delivery),
       (''void_amount_units'', JStr units),
       (''chain_id'', JStr chain_id),
       (''pool_id'', JStr pool_id)] in
     if chain_id \<noteq> ''2050'' then Inl ''binding.chain_id_mismatch''
     else bnd (assertNoSecretMaterialV1 binding ''binding'' 0) (\<lambda>_. Inr binding))))))))))"

definition computeSagaIdV1 :: "(string \<Rightarrow> string) \<Rightarrow> jsv \<Rightarrow> string res" where
  "computeSagaIdV1 H binding =
     bnd (validateSagaBindingV1 binding) (\<lambda>b. Inr (SAGA_ID_PREFIX @ H (canonicalJsonV1 b)))"

definition computeBroadcastIntentIdV1 :: "(string \<Rightarrow> string) \<Rightarrow> jsv \<Rightarrow> string res" where
  "computeBroadcastIntentIdV1 H v =
     bnd (saga_exactKeys v [''saga_id'', ''attempt_id'', ''transaction_hash''] ''broadcast_intent_binding'') (\<lambda>_.
     bnd (nonEmptyString (jget ''saga_id'' v) ''broadcast_intent_binding.saga_id'' 75) (\<lambda>sagaId.
     if \<not> prefix_hex SAGA_ID_PREFIX 64 sagaId then Inl ''broadcast_intent_binding.saga_id_invalid''
     else
     bnd (safeId (jget ''attempt_id'' v) ''broadcast_intent_binding.attempt_id'') (\<lambda>attempt.
     bnd (transactionHash (jget ''transaction_hash'' v) ''broadcast_intent_binding.transaction_hash'') (\<lambda>hash.
     Inr (''voidbvbci1_'' @ H (canonicalJsonV1 (JObj [
       (''saga_id'', JStr sagaId), (''attempt_id'', JStr attempt), (''transaction_hash'', JStr hash)])))))))"

section \<open>Payloads\<close>

abbreviation pl_attempt :: "jsv \<Rightarrow> string res" where
  "pl_attempt p \<equiv> safeId (jget ''attempt_id'' p) ''event.payload.attempt_id''"

abbreviation pl_hash :: "jsv \<Rightarrow> string res" where
  "pl_hash p \<equiv> transactionHash (jget ''transaction_hash'' p) ''event.payload.transaction_hash''"

definition payload_initialized :: "jsv \<Rightarrow> jsv res" where
  "payload_initialized p =
     bnd (saga_exactKeys p [''source_floor_main'', ''policy_id'', ''max_attempts''] ''event.payload'') (\<lambda>_.
     bnd (gitSha (jget ''source_floor_main'' p) ''event.payload.source_floor_main'') (\<lambda>_.
     bnd (safeId (jget ''policy_id'' p) ''event.payload.policy_id'') (\<lambda>_.
     if jget ''max_attempts'' p \<noteq> JNum 1 then Inl ''event.payload.max_attempts_mismatch'' else Inr p)))"

definition payload_claim :: "jsv \<Rightarrow> jsv res" where
  "payload_claim p =
     bnd (saga_exactKeys p [''claim_id'', ''instruction_id''] ''event.payload'') (\<lambda>_.
     bnd (safeId (jget ''claim_id'' p) ''event.payload.claim_id'') (\<lambda>_.
     bnd (safeId (jget ''instruction_id'' p) ''event.payload.instruction_id'') (\<lambda>_. Inr p)))"

definition payload_inventory :: "jsv \<Rightarrow> jsv res" where
  "payload_inventory p =
     bnd (saga_exactKeys p [''reservation_id''] ''event.payload'') (\<lambda>_.
     bnd (saga_sha256 (jget ''reservation_id'' p) ''event.payload.reservation_id'') (\<lambda>_. Inr p))"

definition payload_attempt :: "jsv \<Rightarrow> jsv res" where
  "payload_attempt p =
     bnd (saga_exactKeys p [''attempt_id'', ''attempt_number''] ''event.payload'') (\<lambda>_.
     bnd (pl_attempt p) (\<lambda>_.
     if jget ''attempt_number'' p \<noteq> JNum 1 then Inl ''event.payload.attempt_number_mismatch'' else Inr p))"

definition payload_prepared :: "jsv \<Rightarrow> jsv res" where
  "payload_prepared p =
     bnd (saga_exactKeys p [''attempt_id'', ''transaction_hash'', ''nonce'',
       ''fulfillment_wallet_fingerprint_sha256'', ''gas_limit'', ''max_fee_per_gas_wei'',
       ''max_priority_fee_per_gas_wei''] ''event.payload'') (\<lambda>_.
     bnd (pl_attempt p) (\<lambda>_.
     bnd (pl_hash p) (\<lambda>_.
     bnd (safeInteger (jget ''nonce'' p) 0 MAX_SAFE_INTEGER ''event.payload.nonce'') (\<lambda>_.
     bnd (saga_sha256 (jget ''fulfillment_wallet_fingerprint_sha256'' p)
            ''event.payload.fulfillment_wallet_fingerprint_sha256'') (\<lambda>_.
     bnd (saga_decimal (jget ''gas_limit'' p) ''event.payload.gas_limit'' True) (\<lambda>_.
     bnd (saga_decimal (jget ''max_fee_per_gas_wei'' p) ''event.payload.max_fee_per_gas_wei'' True) (\<lambda>maxFee.
     bnd (saga_decimal (jget ''max_priority_fee_per_gas_wei'' p)
            ''event.payload.max_priority_fee_per_gas_wei'' False) (\<lambda>priority.
     if dec_val priority > dec_val maxFee then Inl ''event.payload.priority_fee_exceeds_max_fee''
     else Inr p))))))))"

definition payload_intent :: "jsv \<Rightarrow> jsv res" where
  "payload_intent p =
     bnd (saga_exactKeys p [''attempt_id'', ''transaction_hash'', ''broadcast_intent_id''] ''event.payload'') (\<lambda>_.
     bnd (pl_attempt p) (\<lambda>_.
     bnd (pl_hash p) (\<lambda>_.
     bnd (nonEmptyString (jget ''broadcast_intent_id'' p) ''event.payload.broadcast_intent_id'' 75) (\<lambda>intentId.
     if \<not> prefix_hex ''voidbvbci1_'' 64 intentId then Inl ''event.payload.broadcast_intent_id_invalid''
     else Inr p))))"

definition payload_broadcast :: "string \<Rightarrow> jsv \<Rightarrow> jsv res" where
  "payload_broadcast eventType p =
     bnd (saga_exactKeys p
       (if eventType = ''broadcast_not_attempted''
        then [''attempt_id'', ''transaction_hash'', ''reason_code'', ''broadcast_call_performed'']
        else [''attempt_id'', ''transaction_hash'', ''reason_code'', ''broadcast_call_performed'',
              ''provider_submission_id_sha256'']) ''event.payload'') (\<lambda>_.
     bnd (pl_attempt p) (\<lambda>_.
     bnd (pl_hash p) (\<lambda>_.
     bnd (safeId (jget ''reason_code'' p) ''event.payload.reason_code'') (\<lambda>_.
     if eventType = ''broadcast_not_attempted'' then
       (if \<not> is_bool (jget ''broadcast_call_performed'' p)
        then Inl ''event.payload.broadcast_call_performed_must_be_boolean'' else Inr p)
     else if jget ''broadcast_call_performed'' p \<noteq> JBool True
     then Inl ''event.payload.broadcast_call_performed_must_be_true''
     else bnd (saga_sha256 (jget ''provider_submission_id_sha256'' p)
                 ''event.payload.provider_submission_id_sha256'') (\<lambda>_. Inr p)))))"

definition payload_receipt :: "string \<Rightarrow> jsv \<Rightarrow> jsv res" where
  "payload_receipt eventType p =
     bnd (saga_exactKeys p [''attempt_id'', ''transaction_hash'', ''block_number'', ''block_hash'',
       ''confirmations'', ''receipt_status''] ''event.payload'') (\<lambda>_.
     bnd (pl_attempt p) (\<lambda>_.
     bnd (pl_hash p) (\<lambda>_.
     bnd (saga_decimal (jget ''block_number'' p) ''event.payload.block_number'' False) (\<lambda>_.
     bnd (transactionHash (jget ''block_hash'' p) ''event.payload.block_hash'') (\<lambda>_.
     bnd (safeInteger (jget ''confirmations'' p) 1 1000000 ''event.payload.confirmations'') (\<lambda>_.
     if jget ''receipt_status'' p \<noteq> JNum (if eventType = ''receipt_confirmed'' then 1 else 0)
     then Inl ''event.payload.receipt_status_mismatch'' else Inr p))))))"

definition payload_closeout :: "jsv \<Rightarrow> jsv res" where
  "payload_closeout p =
     bnd (saga_exactKeys p [''attempt_id'', ''transaction_hash'', ''closeout_id'', ''inventory_decremented'',
       ''public_request_fulfilled''] ''event.payload'') (\<lambda>_.
     bnd (pl_attempt p) (\<lambda>_.
     bnd (pl_hash p) (\<lambda>_.
     bnd (saga_sha256 (jget ''closeout_id'' p) ''event.payload.closeout_id'') (\<lambda>_.
     if jget ''inventory_decremented'' p \<noteq> JBool True \<or> jget ''public_request_fulfilled'' p \<noteq> JBool True
     then Inl ''event.payload.closeout_flags_mismatch'' else Inr p))))"

definition payload_hold :: "jsv \<Rightarrow> jsv res" where
  "payload_hold p =
     bnd (saga_exactKeys p [''reason_code'', ''related_event_id''] ''event.payload'') (\<lambda>_.
     bnd (safeId (jget ''reason_code'' p) ''event.payload.reason_code'') (\<lambda>_.
     if jget ''related_event_id'' p = JNull then Inr p
     else bnd (nonEmptyString (jget ''related_event_id'' p) ''event.payload.related_event_id'' 77) (\<lambda>related.
       if \<not> prefix_hex EVENT_ID_PREFIX 64 related then Inl ''event.payload.related_event_id_invalid''
       else Inr p)))"

definition validatePayload :: "string \<Rightarrow> jsv \<Rightarrow> jsv res" where
  "validatePayload eventType p =
     bnd (directObject p ''event.payload'') (\<lambda>_.
     bnd (assertNoSecretMaterialV1 p ''event.payload'' 0) (\<lambda>_.
     if eventType = ''saga_initialized'' then payload_initialized p
     else if eventType = ''claim_committed'' then payload_claim p
     else if eventType = ''inventory_reserved'' then payload_inventory p
     else if eventType = ''attempt_reserved'' then payload_attempt p
     else if eventType = ''transaction_prepared'' then payload_prepared p
     else if eventType = ''broadcast_intent_committed'' then payload_intent p
     else if eventType \<in> set [''broadcast_not_attempted'', ''broadcast_unknown'', ''broadcast_accepted'']
     then payload_broadcast eventType p
     else if eventType \<in> set [''receipt_confirmed'', ''receipt_reverted''] then payload_receipt eventType p
     else if eventType = ''closeout_committed'' then payload_closeout p
     else if eventType = ''terminal_hold'' then payload_hold p
     else Inl ''event_type_unsupported''))"

section \<open>Events\<close>

definition EVENT_KEYS :: "string list" where
  "EVENT_KEYS = [''schema'', ''marker'', ''version'', ''saga_id'', ''event_id'', ''sequence'',
     ''previous_event_id'', ''recorded_at_utc'', ''event_type'', ''fencing_token'', ''binding'',
     ''payload'', ''authority'']"

text \<open>\<^verbatim>\<open>String(value || "")\<close>: a falsy value prints as the empty text.\<close>

definition text_or_empty :: "jsv \<Rightarrow> string" where
  "text_or_empty v =
     (if v \<in> set [JUndef, JNull, JBool False, JNum 0, JStr [], JFrac ''NaN''] then [] else js_String v)"

definition validateSagaEventV1 :: "(string \<Rightarrow> string) \<Rightarrow> jsv \<Rightarrow> jsv res" where
  "validateSagaEventV1 H v =
     bnd (saga_exactKeys v EVENT_KEYS ''event'') (\<lambda>_.
     if jget ''schema'' v \<noteq> JStr EVENT_SCHEMA \<or> jget ''marker'' v \<noteq> JStr SAGA_MARKER \<or> jget ''version'' v \<noteq> JNum 1
     then Inl ''event_identity_mismatch''
     else
     bnd (validateSagaBindingV1 (jget ''binding'' v)) (\<lambda>binding.
     bnd (computeSagaIdV1 H binding) (\<lambda>sagaId.
     if jget ''saga_id'' v \<noteq> JStr sagaId then Inl ''event_saga_id_mismatch''
     else if \<not> prefix_hex EVENT_ID_PREFIX 64 (text_or_empty (jget ''event_id'' v)) then Inl ''event_id_invalid''
     else if jget ''event_id'' v \<noteq> JStr (contentId H EVENT_ID_PREFIX v ''event_id'')
     then Inl ''event_id_derivation_mismatch''
     else
     bnd (safeInteger (jget ''sequence'' v) 0 (MAX_EVENTS - 1) ''event.sequence'') (\<lambda>_.
     if jget ''previous_event_id'' v \<noteq> JNull \<and>
        \<not> prefix_hex EVENT_ID_PREFIX 64 (js_String (jget ''previous_event_id'' v))
     then Inl ''event_previous_event_id_invalid''
     else
     bnd (canonicalUtc (jget ''recorded_at_utc'' v) ''event.recorded_at_utc'') (\<lambda>_.
     if \<not> (is_str (jget ''event_type'' v) \<and> str_of (jget ''event_type'' v) \<in> set EVENT_TYPES)
     then Inl ''event_type_invalid''
     else
     bnd (safeInteger (jget ''fencing_token'' v) 1 MAX_SAFE_INTEGER ''event.fencing_token'') (\<lambda>_.
     bnd (validatePayload (str_of (jget ''event_type'' v)) (jget ''payload'' v)) (\<lambda>_.
     if canonicalJsonV1 (jget ''authority'' v) \<noteq> canonicalJsonV1 SAGA_AUTHORITY
     then Inl ''event_authority_mismatch''
     else bnd (assertNoSecretMaterialV1 v ''event'' 0) (\<lambda>_. Inr v))))))))"

record event_input =
  in_binding :: jsv
  in_sequence :: jsv
  in_previous_event_id :: jsv
  in_recorded_at_utc :: jsv
  in_event_type :: jsv
  in_fencing_token :: jsv
  in_payload :: jsv

definition event_body ::
  "string \<Rightarrow> jsv \<Rightarrow> int \<Rightarrow> jsv \<Rightarrow> string \<Rightarrow> string \<Rightarrow> int \<Rightarrow> jsv \<Rightarrow> jsv \<Rightarrow> jsv" where
  "event_body sagaId event_id sequence previous recorded eventType token binding payload = JObj [
     (''schema'', JStr EVENT_SCHEMA),
     (''marker'', JStr SAGA_MARKER),
     (''version'', JNum 1),
     (''saga_id'', JStr sagaId),
     (''event_id'', event_id),
     (''sequence'', JNum sequence),
     (''previous_event_id'', previous),
     (''recorded_at_utc'', JStr recorded),
     (''event_type'', JStr eventType),
     (''fencing_token'', JNum token),
     (''binding'', binding),
     (''payload'', payload),
     (''authority'', SAGA_AUTHORITY)]"

definition buildSagaEventV1 :: "(string \<Rightarrow> string) \<Rightarrow> event_input \<Rightarrow> jsv res" where
  "buildSagaEventV1 H i =
     bnd (validateSagaBindingV1 (in_binding i)) (\<lambda>binding.
     bnd (computeSagaIdV1 H binding) (\<lambda>sagaId.
     bnd (nonEmptyString (in_event_type i) ''event_type'' 64) (\<lambda>eventType.
     if eventType \<notin> set EVENT_TYPES then Inl ''event_type_invalid''
     else
     bnd (safeInteger (in_sequence i) 0 (MAX_EVENTS - 1) ''sequence'') (\<lambda>sequence.
     bnd (if in_previous_event_id i = JNull then Inr JNull
          else bnd (nonEmptyString (in_previous_event_id i) ''previous_event_id'' 77) (\<lambda>t. Inr (JStr t))) (\<lambda>previous.
     bnd (canonicalUtc (in_recorded_at_utc i) ''recorded_at_utc'') (\<lambda>recorded.
     bnd (safeInteger (in_fencing_token i) 1 MAX_SAFE_INTEGER ''fencing_token'') (\<lambda>token.
     bnd (validatePayload eventType (in_payload i)) (\<lambda>payload.
     let event = event_body sagaId JNull sequence previous recorded eventType token binding payload;
         eventId = contentId H EVENT_ID_PREFIX event ''event_id''
     in validateSagaEventV1 H (jput ''event_id'' (JStr eventId) event)))))))))"

definition same_json :: "jsv \<Rightarrow> jsv \<Rightarrow> bool" where
  "same_json a b \<longleftrightarrow> canonicalJsonV1 a = canonicalJsonV1 b"

end
