(* ===== verification/Saga_Fold.thy ===== *)
theory Saga_Fold
  imports Saga_Event
begin

text \<open>
  \<^verbatim>\<open>tools/buy-void-crash-consistent-fulfillment-saga-v1.mjs\<close>, lines 503 to 759: the state of a saga is
  the fold of its event log. Each event is checked against the state the earlier events left (same
  binding, next sequence number, hash chain, fencing token, time) and then moves the state machine.
\<close>

section \<open>State\<close>

record saga_state =
  sg_saga_id :: jsv
  sg_binding :: jsv
  sg_state :: string
  sg_terminal :: bool
  sg_event_count :: int
  sg_last_event_id :: jsv
  sg_last_sequence :: int
  sg_last_fencing_token :: int
  sg_claim_id :: jsv
  sg_instruction_id :: jsv
  sg_reservation_id :: jsv
  sg_attempt_id :: jsv
  sg_attempt_number :: jsv
  sg_transaction_hash :: jsv
  sg_nonce :: jsv
  sg_broadcast_intent_id :: jsv
  sg_broadcast_call_may_have_occurred :: bool
  sg_receipt_status :: jsv
  sg_closeout_id :: jsv
  sg_next_action :: "string option"

definition initialState :: "jsv \<Rightarrow> jsv \<Rightarrow> saga_state" where
  "initialState binding sagaId =
     \<lparr> sg_saga_id = sagaId, sg_binding = binding, sg_state = ''empty'', sg_terminal = False,
       sg_event_count = 0, sg_last_event_id = JNull, sg_last_sequence = -1, sg_last_fencing_token = 0,
       sg_claim_id = JNull, sg_instruction_id = JNull, sg_reservation_id = JNull, sg_attempt_id = JNull,
       sg_attempt_number = JNum 0, sg_transaction_hash = JNull, sg_nonce = JNull,
       sg_broadcast_intent_id = JNull, sg_broadcast_call_may_have_occurred = False,
       sg_receipt_status = JNull, sg_closeout_id = JNull, sg_next_action = None \<rparr>"

definition requireState :: "saga_state \<Rightarrow> string list \<Rightarrow> string \<Rightarrow> saga_state res \<Rightarrow> saga_state res" where
  "requireState st allowed eventType k =
     (if sg_state st \<notin> set allowed
      then Inl (''transition_'' @ sg_state st @ ''_to_'' @ eventType @ ''_forbidden'') else k)"

definition requireAttemptAndHash :: "saga_state \<Rightarrow> jsv \<Rightarrow> saga_state res \<Rightarrow> saga_state res" where
  "requireAttemptAndHash st p k =
     (if jget ''attempt_id'' p \<noteq> sg_attempt_id st then Inl ''event_attempt_id_binding_mismatch''
      else if jget ''transaction_hash'' p \<noteq> sg_transaction_hash st
      then Inl ''event_transaction_hash_binding_mismatch'' else k)"

section \<open>One event\<close>

text \<open>The branch of the event's type.\<close>

definition apply_event_type :: "(string \<Rightarrow> string) \<Rightarrow> int \<Rightarrow> saga_state \<Rightarrow> string \<Rightarrow> jsv \<Rightarrow> saga_state res" where
  "apply_event_type H index st ty p =
     (if ty = ''saga_initialized'' then
        requireState st [''empty''] ty
          (if index \<noteq> 0 then Inl ''saga_initialized_must_be_first'' else Inr (st \<lparr> sg_state := ''initialized'' \<rparr>))
      else if ty = ''claim_committed'' then
        requireState st [''initialized''] ty
          (Inr (st \<lparr> sg_claim_id := jget ''claim_id'' p, sg_instruction_id := jget ''instruction_id'' p,
                     sg_state := ''claimed'' \<rparr>))
      else if ty = ''inventory_reserved'' then
        requireState st [''claimed''] ty
          (Inr (st \<lparr> sg_reservation_id := jget ''reservation_id'' p, sg_state := ''inventory_reserved'' \<rparr>))
      else if ty = ''attempt_reserved'' then
        requireState st [''inventory_reserved''] ty
          (Inr (st \<lparr> sg_attempt_id := jget ''attempt_id'' p, sg_attempt_number := jget ''attempt_number'' p,
                     sg_state := ''attempt_reserved'' \<rparr>))
      else if ty = ''transaction_prepared'' then
        requireState st [''attempt_reserved''] ty
          (if jget ''attempt_id'' p \<noteq> sg_attempt_id st then Inl ''prepared_attempt_id_mismatch''
           else Inr (st \<lparr> sg_transaction_hash := jget ''transaction_hash'' p, sg_nonce := jget ''nonce'' p,
                          sg_state := ''transaction_prepared'' \<rparr>))
      else if ty = ''broadcast_intent_committed'' then
        requireState st [''transaction_prepared'', ''broadcast_not_attempted''] ty
          (requireAttemptAndHash st p
            (bnd (computeBroadcastIntentIdV1 H (JObj [(''saga_id'', sg_saga_id st),
                   (''attempt_id'', sg_attempt_id st), (''transaction_hash'', sg_transaction_hash st)])) (\<lambda>expected.
             if jget ''broadcast_intent_id'' p \<noteq> JStr expected then Inl ''broadcast_intent_id_binding_mismatch''
             else Inr (st \<lparr> sg_broadcast_intent_id := jget ''broadcast_intent_id'' p,
                            sg_broadcast_call_may_have_occurred := True,
                            sg_state := ''broadcast_intent_committed'' \<rparr>))))
      else if ty = ''broadcast_not_attempted'' then
        requireState st [''broadcast_intent_committed''] ty
          (requireAttemptAndHash st p
            (Inr (st \<lparr> sg_broadcast_call_may_have_occurred := False, sg_state := ''broadcast_not_attempted'' \<rparr>)))
      else if ty = ''broadcast_unknown'' then
        requireState st [''broadcast_intent_committed''] ty
          (requireAttemptAndHash st p
            (Inr (st \<lparr> sg_broadcast_call_may_have_occurred := True, sg_state := ''broadcast_unknown'' \<rparr>)))
      else if ty = ''broadcast_accepted'' then
        requireState st [''broadcast_intent_committed'', ''broadcast_unknown'', ''broadcast_accepted''] ty
          (requireAttemptAndHash st p
            (Inr (st \<lparr> sg_broadcast_call_may_have_occurred := True, sg_state := ''broadcast_accepted'' \<rparr>)))
      else if ty = ''receipt_confirmed'' then
        requireState st [''broadcast_intent_committed'', ''broadcast_unknown'', ''broadcast_accepted''] ty
          (requireAttemptAndHash st p
            (Inr (st \<lparr> sg_receipt_status := JNum 1, sg_state := ''receipt_confirmed'' \<rparr>)))
      else if ty = ''receipt_reverted'' then
        requireState st [''broadcast_intent_committed'', ''broadcast_unknown'', ''broadcast_accepted''] ty
          (requireAttemptAndHash st p
            (Inr (st \<lparr> sg_receipt_status := JNum 0, sg_state := ''receipt_reverted'', sg_terminal := True \<rparr>)))
      else if ty = ''closeout_committed'' then
        requireState st [''receipt_confirmed''] ty
          (requireAttemptAndHash st p
            (Inr (st \<lparr> sg_closeout_id := jget ''closeout_id'' p, sg_state := ''closed'', sg_terminal := True \<rparr>)))
      else if ty = ''terminal_hold'' then
        (if sg_terminal st then Inl ''terminal_hold_after_terminal_forbidden''
         else Inr (st \<lparr> sg_state := ''terminal_hold'', sg_terminal := True \<rparr>))
      else Inr st)"

text \<open>
  The body of the loop. Besides the state it carries the time of the previous event; the previous
  event's identifier is the state's \<^verbatim>\<open>last_event_id\<close>, and the index is its \<^verbatim>\<open>event_count\<close>.
\<close>

definition fold_event :: "(string \<Rightarrow> string) \<Rightarrow> jsv \<Rightarrow> jsv \<Rightarrow> saga_state \<times> int \<Rightarrow> jsv \<Rightarrow> (saga_state \<times> int) res" where
  "fold_event H binding sagaId acc e =
     (let st = fst acc; previousTime = snd acc; index = sg_event_count st in
      if \<not> same_json (jget ''binding'' e) binding \<or> jget ''saga_id'' e \<noteq> sagaId then Inl ''event_binding_changed''
      else if jget ''sequence'' e \<noteq> JNum index then Inl ''event_sequence_gap_or_duplicate''
      else if jget ''previous_event_id'' e \<noteq> sg_last_event_id st then Inl ''event_hash_chain_broken''
      else if num_of (jget ''fencing_token'' e) < sg_last_fencing_token st then Inl ''event_fencing_token_regressed''
      else
      let time = utc_ms (str_of (jget ''recorded_at_utc'' e)) in
      if time < previousTime then Inl ''event_time_regressed''
      else
      bnd (apply_event_type H index st (str_of (jget ''event_type'' e)) (jget ''payload'' e)) (\<lambda>st'.
      Inr (st' \<lparr> sg_event_count := index + 1,
                 sg_last_event_id := jget ''event_id'' e,
                 sg_last_sequence := num_of (jget ''sequence'' e),
                 sg_last_fencing_token := num_of (jget ''fencing_token'' e) \<rparr>, time)))"

section \<open>The next action\<close>

definition NEXT_ACTIONS :: "(string \<times> string) list" where
  "NEXT_ACTIONS = [
     (''initialized'', ''claim_payment''),
     (''claimed'', ''reserve_inventory''),
     (''inventory_reserved'', ''reserve_execution_attempt''),
     (''attempt_reserved'', ''prepare_transaction''),
     (''transaction_prepared'', ''execute_prepared_transaction''),
     (''broadcast_intent_committed'', ''reconcile_possible_broadcast''),
     (''broadcast_not_attempted'', ''execute_prepared_transaction''),
     (''broadcast_unknown'', ''reconcile_possible_broadcast''),
     (''broadcast_accepted'', ''reconcile_possible_broadcast''),
     (''receipt_confirmed'', ''closeout_confirmed_delivery'')]"

record next_action =
  na_action :: "string option"
  na_terminal :: bool
  automatic_execution_allowed :: bool
  required_confirmation :: "string option"
  na_reason :: "string option"

definition deriveSagaNextActionV1 :: "string \<Rightarrow> bool \<Rightarrow> next_action res" where
  "deriveSagaNextActionV1 state terminal =
     (if terminal \<or> state = ''closed'' \<or> state = ''receipt_reverted'' \<or> state = ''terminal_hold''
      then Inr \<lparr> na_action = None, na_terminal = True, automatic_execution_allowed = False,
                 required_confirmation = None, na_reason = Some state \<rparr>
      else case map_of NEXT_ACTIONS state of
        None \<Rightarrow> Inl ''next_action_unresolved''
      | Some action \<Rightarrow>
          Inr \<lparr> na_action = Some action, na_terminal = False,
                automatic_execution_allowed =
                  (action \<in> set [''claim_payment'', ''reserve_inventory'', ''reserve_execution_attempt'',
                     ''prepare_transaction'']),
                required_confirmation = map_of ACTION_CONFIRMATIONS action, na_reason = None \<rparr>)"

section \<open>The fold\<close>

definition foldSagaEventsV1 :: "(string \<Rightarrow> string) \<Rightarrow> jsv list \<Rightarrow> saga_state res" where
  "foldSagaEventsV1 H events =
     (if int (length events) < 1 \<or> int (length events) > MAX_EVENTS then Inl ''events_count_out_of_range''
      else
      bnd (mapM (validateSagaEventV1 H) events) (\<lambda>validated.
      let binding = jget ''binding'' (hd validated); sagaId = jget ''saga_id'' (hd validated) in
      bnd (foldM (fold_event H binding sagaId) (initialState binding sagaId, -1) validated) (\<lambda>acc.
      bnd (deriveSagaNextActionV1 (sg_state (fst acc)) (sg_terminal (fst acc))) (\<lambda>next.
      Inr ((fst acc) \<lparr> sg_next_action := na_action next \<rparr>)))))"

section \<open>Records\<close>

definition jstr_opt :: "string option \<Rightarrow> jsv" where
  "jstr_opt s = (case s of None \<Rightarrow> JNull | Some t \<Rightarrow> JStr t)"

definition buildSagaRecordStateProjection :: "saga_state \<Rightarrow> jsv" where
  "buildSagaRecordStateProjection st = JObj [
     (''state'', JStr (sg_state st)),
     (''terminal'', JBool (sg_terminal st)),
     (''event_count'', JNum (sg_event_count st)),
     (''last_event_id'', sg_last_event_id st),
     (''last_sequence'', JNum (sg_last_sequence st)),
     (''last_fencing_token'', JNum (sg_last_fencing_token st)),
     (''claim_id'', sg_claim_id st),
     (''instruction_id'', sg_instruction_id st),
     (''reservation_id'', sg_reservation_id st),
     (''attempt_id'', sg_attempt_id st),
     (''attempt_number'', sg_attempt_number st),
     (''transaction_hash'', sg_transaction_hash st),
     (''nonce'', sg_nonce st),
     (''broadcast_intent_id'', sg_broadcast_intent_id st),
     (''broadcast_call_may_have_occurred'', JBool (sg_broadcast_call_may_have_occurred st)),
     (''receipt_status'', sg_receipt_status st),
     (''closeout_id'', sg_closeout_id st),
     (''automatic_retry_allowed'', JBool False),
     (''next_action'', jstr_opt (sg_next_action st))]"

definition RECORD_KEYS :: "string list" where
  "RECORD_KEYS = [''schema'', ''marker'', ''version'', ''saga_id'', ''binding'', ''events'', ''state'', ''authority'']"

definition validateSagaRecordV1 :: "(string \<Rightarrow> string) \<Rightarrow> jsv \<Rightarrow> jsv res" where
  "validateSagaRecordV1 H v =
     bnd (saga_exactKeys v RECORD_KEYS ''record'') (\<lambda>_.
     if jget ''schema'' v \<noteq> JStr SAGA_SCHEMA \<or> jget ''marker'' v \<noteq> JStr SAGA_MARKER \<or> jget ''version'' v \<noteq> JNum 1
     then Inl ''record_identity_mismatch''
     else if \<not> is_arr (jget ''events'' v) then Inl ''events_count_out_of_range''
     else
     bnd (foldSagaEventsV1 H (elems_of (jget ''events'' v))) (\<lambda>folded.
     if jget ''saga_id'' v \<noteq> sg_saga_id folded \<or> \<not> same_json (jget ''binding'' v) (sg_binding folded)
     then Inl ''record_binding_mismatch''
     else if \<not> same_json (jget ''state'' v) (buildSagaRecordStateProjection folded)
     then Inl ''record_state_projection_mismatch''
     else if \<not> same_json (jget ''authority'' v) SAGA_AUTHORITY then Inl ''record_authority_mismatch''
     else bnd (assertNoSecretMaterialV1 v ''record'' 0) (\<lambda>_. Inr v)))"

definition record_body :: "saga_state \<Rightarrow> jsv list \<Rightarrow> jsv" where
  "record_body st events = JObj [
     (''schema'', JStr SAGA_SCHEMA),
     (''marker'', JStr SAGA_MARKER),
     (''version'', JNum 1),
     (''saga_id'', sg_saga_id st),
     (''binding'', sg_binding st),
     (''events'', JArr events),
     (''state'', buildSagaRecordStateProjection st),
     (''authority'', SAGA_AUTHORITY)]"

definition buildSagaRecordV1 :: "(string \<Rightarrow> string) \<Rightarrow> jsv list \<Rightarrow> jsv res" where
  "buildSagaRecordV1 H events =
     bnd (foldSagaEventsV1 H events) (\<lambda>st.
     bnd (mapM (validateSagaEventV1 H) events) (\<lambda>validated.
     validateSagaRecordV1 H (record_body st validated)))"

end
