(* ===== verification/Saga_Store.thy ===== *)
theory Saga_Store
  imports Saga_Fold "HOL-Library.Product_Lexorder"
begin

text \<open>
  \<^verbatim>\<open>tools/buy-void-crash-consistent-fulfillment-saga-v1.mjs\<close>, lines 761 to 796 and 1055 to 1267: the
  filesystem store of the sagas. A store holds one directory per saga with the files of its events
  and one lease file. Every operation takes the store and returns its result together with the
  store it leaves, also when it fails: a file that was written stays written.
\<close>

unbundle bit_operations_syntax

section \<open>Files and directories\<close>

definition MAX_JSON_BYTES :: int where
  "MAX_JSON_BYTES = 8 * 1024 * 1024"

text \<open>
  The metadata \<^verbatim>\<open>lstatSync\<close> reports of a directory, and a file with its size and the value
  \<^verbatim>\<open>JSON.parse\<close> reads from its text (none if the text is not JSON).
\<close>

record dir_meta =
  dm_directory :: bool
  dm_symlink :: bool
  dm_uid :: int
  dm_mode :: int

record file_node =
  fn_regular :: bool
  fn_size :: int
  fn_json :: "jsv option"

record saga_dir =
  sd_meta :: "dir_meta option"
  sd_events_meta :: "dir_meta option"
  sd_events :: "(string \<times> file_node) list"
  sd_lease :: "file_node option"

record saga_store =
  ss_uid :: "int option"
  ss_sagas :: "string \<Rightarrow> saga_dir"

text \<open>A directory that does not exist is created with mode 0700 by the process's user.\<close>

definition ensurePrivateDirectory :: "int option \<Rightarrow> dir_meta option \<Rightarrow> dir_meta res" where
  "ensurePrivateDirectory uid dir =
     (let metadata = (case dir of Some d \<Rightarrow> d
        | None \<Rightarrow> \<lparr> dm_directory = True, dm_symlink = False,
                    dm_uid = (case uid of None \<Rightarrow> 0 | Some u \<Rightarrow> u), dm_mode = 448 \<rparr>)
      in if \<not> dm_directory metadata \<or> dm_symlink metadata then Inl ''store_directory_must_be_direct_directory''
         else if uid \<noteq> None \<and> uid \<noteq> Some (dm_uid metadata) then Inl ''store_directory_owner_mismatch''
         else if dm_mode metadata AND 63 \<noteq> 0 then Inl ''store_directory_must_be_private''
         else Inr metadata)"

definition readJsonFile :: "file_node \<Rightarrow> string \<Rightarrow> jsv res" where
  "readJsonFile node label =
     (if \<not> fn_regular node then Inl (label @ ''_must_be_direct_file'')
      else if fn_size node < 1 \<or> fn_size node > MAX_JSON_BYTES then Inl (label @ ''_size_out_of_range'')
      else case fn_json node of None \<Rightarrow> Inl ''SyntaxError'' | Some v \<Rightarrow> Inr v)"

text \<open>
  \<^verbatim>\<open>JSON.stringify(value, null, 2)\<close>, and the value \<^verbatim>\<open>JSON.parse\<close> reads from that text: properties
  that are \<^verbatim>\<open>undefined\<close> are gone, \<^verbatim>\<open>undefined\<close> elements and numbers that are not finite are \<^verbatim>\<open>null\<close>.
\<close>

definition nl_indent :: "nat \<Rightarrow> string" where
  "nl_indent n = CHR 0x0A # replicate (2 * n) CHR '' ''"

fun pretty :: "nat \<Rightarrow> jsv \<Rightarrow> string" where
  "pretty n (JArr xs) =
     (if xs = [] then ''[]''
      else CHR ''['' # nl_indent (Suc n) @
        join_with CHR '','' (map (\<lambda>(i, s). (if i = 0 then [] else nl_indent (Suc n)) @ s)
          (enumerate 0 (map (pretty (Suc n)) xs))) @ nl_indent n @ '']'')"
| "pretty n (JObj kvs) =
     (let fields = map (\<lambda>(k, u, s). json_quote k @ '': '' @ s)
            (filter (\<lambda>(k, u, s). \<not> u) (map (\<lambda>(k, v). (k, v = JUndef, pretty (Suc n) v)) kvs))
      in if fields = [] then [CHR 0x7B, CHR 0x7D]
         else CHR 0x7B # nl_indent (Suc n) @
           join_with CHR '','' (map (\<lambda>(i, s). (if i = 0 then [] else nl_indent (Suc n)) @ s)
             (enumerate 0 fields)) @ nl_indent n @ [CHR 0x7D])"
| "pretty n v = stringify v"

fun json_data :: "jsv \<Rightarrow> jsv" where
  "json_data JUndef = JNull"
| "json_data (JFrac s) = (if s \<in> set [''NaN'', ''Infinity'', ''-Infinity''] then JNull else JFrac s)"
| "json_data (JArr xs) = JArr (map json_data xs)"
| "json_data (JObj kvs) =
     JObj (map (\<lambda>(k, u, v). (k, v)) (filter (\<lambda>(k, u, v). \<not> u) (map (\<lambda>(k, v). (k, v = JUndef, json_data v)) kvs)))"
| "json_data v = v"

text \<open>
  \<^verbatim>\<open>atomicWriteJson\<close>: the text goes to a temporary file that is then renamed, so the target holds
  the complete text or what it held before.
\<close>

definition atomicWriteJson :: "jsv \<Rightarrow> file_node" where
  "atomicWriteJson v =
     \<lparr> fn_regular = True, fn_size = int (length (utf8_bytes (pretty 0 v @ [CHR 0x0A]))), fn_json = Some (json_data v) \<rparr>"

section \<open>Operations on the store\<close>

type_synonym 'a sop = "saga_store \<Rightarrow> 'a res \<times> saga_store"

definition sbind :: "'a sop \<Rightarrow> ('a \<Rightarrow> 'b sop) \<Rightarrow> 'b sop" where
  "sbind m f = (\<lambda>s. case m s of (Inl e, s') \<Rightarrow> (Inl e, s') | (Inr x, s') \<Rightarrow> f x s')"

definition slift :: "'a res \<Rightarrow> 'a sop" where
  "slift r = (\<lambda>s. (r, s))"

definition sread :: "(saga_store \<Rightarrow> 'a res) \<Rightarrow> 'a sop" where
  "sread f = (\<lambda>s. (f s, s))"

definition update_dir :: "string \<Rightarrow> (saga_dir \<Rightarrow> saga_dir) \<Rightarrow> unit sop" where
  "update_dir i f = (\<lambda>s. (Inr (), s \<lparr> ss_sagas := (ss_sagas s)(i := f (ss_sagas s i)) \<rparr>))"

text \<open>
  The operation of a lock section. Whether and when the lock is granted is the business of the
  queue (theory \<open>Saga_Lock\<close>); a lock that is not granted fails with the queue's error and leaves the
  store as it is. A whole operation is one function here; what happens when lease operations, which
  have another lock, come between the check and the write of an append is the subject of
  \<open>Saga_Store_Safety\<close>.
\<close>

definition withExclusiveLock :: "string option \<Rightarrow> 'a sop \<Rightarrow> 'a sop" where
  "withExclusiveLock lock operation = (case lock of Some e \<Rightarrow> slift (Inl e) | None \<Rightarrow> operation)"

subsection \<open>Locations\<close>

definition locations :: "jsv \<Rightarrow> string sop" where
  "locations sagaId =
     (if \<not> prefix_hex SAGA_ID_PREFIX 64 (text_or_empty sagaId) then slift (Inl ''store_saga_id_invalid'')
      else if \<not> is_str sagaId then slift (Inl ''TypeError'')
      else let i = str_of sagaId in
        sbind (sread (\<lambda>s. ensurePrivateDirectory (ss_uid s) (sd_meta (ss_sagas s i)))) (\<lambda>saga.
        sbind (update_dir i (\<lambda>d. d \<lparr> sd_meta := Some saga \<rparr>)) (\<lambda>_.
        sbind (sread (\<lambda>s. ensurePrivateDirectory (ss_uid s) (sd_events_meta (ss_sagas s i)))) (\<lambda>events.
        sbind (update_dir i (\<lambda>d. d \<lparr> sd_events_meta := Some events \<rparr>)) (\<lambda>_.
        slift (Inr i))))))"

subsection \<open>Recovery\<close>

text \<open>\<^verbatim>\<open>/^(\d{8})-(voidbvfsge1_[0-9a-f]{64})\.json$/\<close> and the names of temporary files.\<close>

definition EVENT_FILE :: "string \<Rightarrow> (int \<times> string) option" where
  "EVENT_FILE name =
     (let digits = take 8 name; eventId = take 76 (drop 9 name) in
      if length digits = 8 \<and> list_all is_digit digits \<and> take 1 (drop 8 name) = ''-'' \<and>
         prefix_hex EVENT_ID_PREFIX 64 eventId \<and> drop 85 name = ''.json''
      then Some (dec_val digits, eventId) else None)"

definition EVENT_TEMP_FILE :: "string \<Rightarrow> bool" where
  "EVENT_TEMP_FILE name \<longleftrightarrow>
     EVENT_FILE (take 90 name) \<noteq> None \<and> take 5 (drop 90 name) = ''.tmp-'' \<and>
     (let rest = dropWhile is_digit (drop 95 name) in
      takeWhile is_digit (drop 95 name) \<noteq> [] \<and> take 1 rest = ''-'' \<and> hex_n 16 (drop 1 rest))"

fun includes_text :: "string \<Rightarrow> string \<Rightarrow> bool" where
  "includes_text [] t = (t = [])"
| "includes_text (c # cs) t = (take (length t) (c # cs) = t \<or> includes_text cs t)"

record event_file =
  ef_name :: string
  ef_sequence :: int
  ef_event_id :: string
  ef_node :: file_node

text \<open>One entry of the events directory: none for a temporary file that is passed over.\<close>

definition classify_entry :: "string \<times> file_node \<Rightarrow> event_file option res" where
  "classify_entry entry =
     (if includes_text (fst entry) ''.tmp-'' then
        (if \<not> EVENT_TEMP_FILE (fst entry) then Inl ''event_temporary_filename_invalid''
         else if \<not> fn_regular (snd entry) then Inl ''event_temporary_entry_must_be_direct_file''
         else Inr None)
      else if \<not> fn_regular (snd entry) then Inl ''event_directory_contains_non_regular_entry''
      else case EVENT_FILE (fst entry) of
        None \<Rightarrow> Inl ''event_filename_invalid''
      | Some (sequence, eventId) \<Rightarrow>
          Inr (Some \<lparr> ef_name = fst entry, ef_sequence = sequence, ef_event_id = eventId, ef_node = snd entry \<rparr>))"

text \<open>
  The files in the order of their sequence numbers. Names of one sequence number differ in
  hexadecimal digits only, which \<^verbatim>\<open>localeCompare\<close> orders as the code units do.
\<close>

definition sort_files :: "event_file list \<Rightarrow> event_file list" where
  "sort_files = sort_key (\<lambda>f. (ef_sequence f, ef_name f))"

definition read_event :: "(string \<Rightarrow> string) \<Rightarrow> nat \<times> event_file \<Rightarrow> jsv res" where
  "read_event H f =
     (if ef_sequence (snd f) \<noteq> int (fst f) then Inl ''event_file_sequence_gap_or_duplicate''
      else
      bnd (readJsonFile (ef_node (snd f)) ''event_file'') (\<lambda>v.
      bnd (validateSagaEventV1 H v) (\<lambda>event.
      if jget ''sequence'' event \<noteq> JNum (int (fst f)) \<or> jget ''event_id'' event \<noteq> JStr (ef_event_id (snd f))
      then Inl ''event_filename_content_mismatch'' else Inr event)))"

text \<open>The record of the log in an events directory, \<^verbatim>\<open>null\<close> if there is none.\<close>

definition recover_dir :: "(string \<Rightarrow> string) \<Rightarrow> (string \<times> file_node) list \<Rightarrow> jsv res" where
  "recover_dir H entries =
     bnd (mapM classify_entry entries) (\<lambda>classified.
     let files = sort_files (List.map_filter id classified) in
     if int (length files) < 1 then Inr JNull
     else bnd (mapM (read_event H) (enumerate 0 files)) (\<lambda>events. buildSagaRecordV1 H events))"

definition recover :: "(string \<Rightarrow> string) \<Rightarrow> jsv \<Rightarrow> jsv sop" where
  "recover H sagaId = sbind (locations sagaId) (\<lambda>i. sread (\<lambda>s. recover_dir H (sd_events (ss_sagas s i))))"

section \<open>Leases\<close>

definition LEASE_KEYS :: "string list" where
  "LEASE_KEYS = [''schema'', ''marker'', ''version'', ''saga_id'', ''owner_id'', ''fencing_token'',
     ''acquired_at_ms'', ''expires_at_ms'', ''released'']"

definition validateLease :: "jsv \<Rightarrow> jsv res" where
  "validateLease v =
     bnd (saga_exactKeys v LEASE_KEYS ''lease'') (\<lambda>_.
     if jget ''schema'' v \<noteq> JStr LEASE_SCHEMA \<or> jget ''marker'' v \<noteq> JStr SAGA_MARKER \<or> jget ''version'' v \<noteq> JNum 1
     then Inl ''lease_identity_mismatch''
     else if \<not> prefix_hex SAGA_ID_PREFIX 64 (text_or_empty (jget ''saga_id'' v)) then Inl ''lease_saga_id_invalid''
     else
     bnd (safeId (jget ''owner_id'' v) ''lease.owner_id'') (\<lambda>_.
     bnd (safeInteger (jget ''fencing_token'' v) 1 MAX_SAFE_INTEGER ''lease.fencing_token'') (\<lambda>_.
     bnd (safeInteger (jget ''acquired_at_ms'' v) 0 MAX_SAFE_INTEGER ''lease.acquired_at_ms'') (\<lambda>acquired.
     bnd (safeInteger (jget ''expires_at_ms'' v) acquired MAX_SAFE_INTEGER ''lease.expires_at_ms'') (\<lambda>_.
     if \<not> is_bool (jget ''released'' v) then Inl ''lease.released_must_be_boolean'' else Inr v)))))"

definition lease_json :: "jsv \<Rightarrow> jsv \<Rightarrow> int \<Rightarrow> int \<Rightarrow> int \<Rightarrow> jsv" where
  "lease_json saga_id owner_id fencingToken acquired expires = JObj [
     (''schema'', JStr LEASE_SCHEMA),
     (''marker'', JStr SAGA_MARKER),
     (''version'', JNum 1),
     (''saga_id'', saga_id),
     (''owner_id'', owner_id),
     (''fencing_token'', JNum fencingToken),
     (''acquired_at_ms'', JNum acquired),
     (''expires_at_ms'', JNum expires),
     (''released'', JBool False)]"

definition write_lease :: "string \<Rightarrow> jsv \<Rightarrow> unit sop" where
  "write_lease i lease = update_dir i (\<lambda>d. d \<lparr> sd_lease := Some (atomicWriteJson lease) \<rparr>)"

text \<open>The lease file, read and validated; \<^verbatim>\<open>null\<close> if there is none.\<close>

definition read_lease :: "string \<Rightarrow> jsv sop" where
  "read_lease i = sread (\<lambda>s. case sd_lease (ss_sagas s i) of None \<Rightarrow> Inr JNull
     | Some node \<Rightarrow> bnd (readJsonFile node ''lease_file'') validateLease)"

definition lease_active :: "jsv \<Rightarrow> int \<Rightarrow> bool" where
  "lease_active lease now_ms \<longleftrightarrow>
     lease \<noteq> JNull \<and> jget ''released'' lease \<noteq> JBool True \<and> num_of (jget ''expires_at_ms'' lease) > now_ms"

definition acquireLease :: "string option \<Rightarrow> jsv \<Rightarrow> jsv \<Rightarrow> jsv \<Rightarrow> jsv \<Rightarrow> jsv sop" where
  "acquireLease lock saga_id owner_id now_ms ttl_ms =
     sbind (locations saga_id) (\<lambda>i.
     sbind (slift (safeId owner_id ''owner_id'')) (\<lambda>_.
     sbind (slift (safeInteger now_ms 0 MAX_SAFE_INTEGER ''now_ms'')) (\<lambda>now.
     sbind (slift (safeInteger ttl_ms 1 MAX_LEASE_TTL_MS ''ttl_ms'')) (\<lambda>ttl.
     withExclusiveLock lock (
       sbind (read_lease i) (\<lambda>previous.
       if previous \<noteq> JNull \<and> jget ''saga_id'' previous \<noteq> saga_id then slift (Inl ''lease_saga_binding_mismatch'')
       else if lease_active previous now \<and> jget ''owner_id'' previous \<noteq> owner_id then
         slift (Inr (JObj [
           (''ok'', JBool False),
           (''status'', JStr ''held''),
           (''reason'', JStr ''lease_held_by_another_owner''),
           (''active_owner_id'', jget ''owner_id'' previous),
           (''expires_at_ms'', jget ''expires_at_ms'' previous),
           (''fencing_token'', jget ''fencing_token'' previous)]))
       else
         let sameActiveOwner = lease_active previous now \<and> jget ''owner_id'' previous = owner_id;
             previousToken = (if previous = JNull then 0 else num_of (jget ''fencing_token'' previous));
             fencingToken = (if sameActiveOwner then previousToken else previousToken + 1)
         in
         sbind (slift (validateLease (lease_json saga_id owner_id fencingToken now (now + ttl)))) (\<lambda>lease.
         sbind (write_lease i lease) (\<lambda>_.
         slift (Inr (JObj [(''ok'', JBool True), (''status'', JStr ''acquired''), (''lease'', lease)]))))))))))"

definition releaseLease :: "string option \<Rightarrow> jsv \<Rightarrow> jsv \<Rightarrow> jsv \<Rightarrow> int \<Rightarrow> jsv sop" where
  "releaseLease lock saga_id owner_id fencing_token now_ms =
     sbind (locations saga_id) (\<lambda>i.
     withExclusiveLock lock (
       sbind (read_lease i) (\<lambda>lease.
       if lease = JNull then slift (Inl ''lease_missing'')
       else if jget ''owner_id'' lease \<noteq> owner_id \<or> jget ''fencing_token'' lease \<noteq> fencing_token \<or>
          jget ''released'' lease = JBool True
       then slift (Inl ''lease_release_binding_mismatch'')
       else
         sbind (slift (validateLease
           (jput ''released'' (JBool True)
             (jput ''expires_at_ms'' (JNum (max (num_of (jget ''acquired_at_ms'' lease)) now_ms)) lease)))) (\<lambda>released.
         sbind (write_lease i released) (\<lambda>_. slift (Inr released))))))"

section \<open>Appending\<close>

text \<open>
  \<^verbatim>\<open>now_ms\<close> is not validated in the code; it is a number here. With a value that is not one, the test of
  the expiry would be false and no lease would count as expired.
\<close>

definition requireCurrentLease :: "string \<Rightarrow> jsv \<Rightarrow> jsv \<Rightarrow> int \<Rightarrow> unit sop" where
  "requireCurrentLease i owner_id fencing_token now_ms =
     sbind (read_lease i) (\<lambda>lease.
     if lease = JNull then slift (Inl ''append_requires_lease'')
     else if jget ''owner_id'' lease \<noteq> owner_id \<or> jget ''fencing_token'' lease \<noteq> fencing_token \<or>
        jget ''released'' lease = JBool True \<or> num_of (jget ''expires_at_ms'' lease) \<le> now_ms
     then slift (Inl ''append_lease_not_current'') else slift (Inr ()))"

text \<open>The head of the recovered log against the position the event claims.\<close>

definition requireHead :: "jsv \<Rightarrow> jsv \<Rightarrow> unit res" where
  "requireHead current event =
     (let expectedSequence = (if current = JNull then JNum 0 else jpath [''state'', ''event_count''] current);
          expectedPrevious = (if current = JNull then JNull else jpath [''state'', ''last_event_id''] current)
      in if jget ''sequence'' event \<noteq> expectedSequence \<or> jget ''previous_event_id'' event \<noteq> expectedPrevious
         then Inl ''append_expected_head_mismatch'' else Inr ())"

definition padStart :: "nat \<Rightarrow> string \<Rightarrow> string" where
  "padStart n s = replicate (n - length s) CHR ''0'' @ s"

definition event_filename :: "jsv \<Rightarrow> string" where
  "event_filename event =
     padStart 8 (int_str (num_of (jget ''sequence'' event))) @ ''-'' @ str_of (jget ''event_id'' event) @ ''.json''"

text \<open>The end of an append: the new event file is written, then the log is recovered.\<close>

definition write_event :: "(string \<Rightarrow> string) \<Rightarrow> string \<Rightarrow> jsv \<Rightarrow> jsv sop" where
  "write_event H i event =
     sbind (sread (\<lambda>s. if event_filename event \<in> set (map fst (sd_events (ss_sagas s i)))
       then Inl ''event_file_already_exists'' else Inr ())) (\<lambda>_.
     sbind (update_dir i (\<lambda>d. d \<lparr> sd_events := sd_events d @ [(event_filename event, atomicWriteJson event)] \<rparr>)) (\<lambda>_.
     recover H (jget ''saga_id'' event)))"

definition appendEvent :: "(string \<Rightarrow> string) \<Rightarrow> string option \<Rightarrow> jsv \<Rightarrow> jsv \<Rightarrow> jsv \<Rightarrow> int \<Rightarrow> jsv sop" where
  "appendEvent H lock event owner_id fencing_token now_ms =
     sbind (slift (validateSagaEventV1 H event)) (\<lambda>validated.
     sbind (locations (jget ''saga_id'' validated)) (\<lambda>i.
     withExclusiveLock lock (
       sbind (requireCurrentLease i owner_id fencing_token now_ms) (\<lambda>_.
       if jget ''fencing_token'' validated \<noteq> fencing_token then slift (Inl ''event_fencing_token_mismatch'')
       else
       sbind (recover H (jget ''saga_id'' validated)) (\<lambda>current.
       sbind (slift (requireHead current validated)) (\<lambda>_.
       write_event H i validated))))))"

text \<open>
  \<open>before_write\<close> is code of the caller that runs while the append lock is held and may do anything
  else to the store; none stands for a value that is not a function.
\<close>

definition appendEventWithAdmission ::
  "(string \<Rightarrow> string) \<Rightarrow> string option \<Rightarrow> jsv \<Rightarrow> jsv \<Rightarrow> jsv \<Rightarrow> int \<Rightarrow> jsv sop option \<Rightarrow> jsv sop" where
  "appendEventWithAdmission H lock event owner_id fencing_token now_ms before_write =
     sbind (slift (validateSagaEventV1 H event)) (\<lambda>validated.
     case before_write of None \<Rightarrow> slift (Inl ''append_admission_required'')
     | Some admit \<Rightarrow>
     sbind (locations (jget ''saga_id'' validated)) (\<lambda>i.
     withExclusiveLock lock (
       sbind (requireCurrentLease i owner_id fencing_token now_ms) (\<lambda>_.
       if jget ''fencing_token'' validated \<noteq> fencing_token then slift (Inl ''event_fencing_token_mismatch'')
       else
       sbind (recover H (jget ''saga_id'' validated)) (\<lambda>expected.
       sbind (slift (requireHead expected validated)) (\<lambda>_.
       sbind admit (\<lambda>admitted.
       if admitted \<noteq> JBool True then slift (Inl ''append_admission_refused'')
       else
       sbind (requireCurrentLease i owner_id fencing_token now_ms) (\<lambda>_.
       sbind (recover H (jget ''saga_id'' validated)) (\<lambda>current.
       sbind (slift (requireHead current validated)) (\<lambda>_.
       write_event H i validated))))))))))"

end
