(* ===== verification/Saga_Safety.thy ===== *)
theory Saga_Safety
  imports Saga_Fold
begin

text \<open>
  What the fold of a saga log guarantees. The abstract specification is a state machine over the
  names of states and event types (\<open>saga_step\<close>, \<open>saga_run\<close>); every log the fold accepts is a run of
  it, and the safety properties are shown of runs by rule induction. The identities the machine
  does not see (attempt, transaction hash, sequence, hash chain, fencing token, time) are a second
  invariant of the fold.
\<close>

section \<open>The abstract machine\<close>

abbreviation terminal_states :: "string set" where
  "terminal_states \<equiv> {''closed'', ''receipt_reverted'', ''terminal_hold''}"

abbreviation possible_broadcast_states :: "string set" where
  "possible_broadcast_states \<equiv> {''broadcast_intent_committed'', ''broadcast_unknown'', ''broadcast_accepted''}"

inductive saga_step :: "string \<Rightarrow> string \<Rightarrow> string \<Rightarrow> bool" where
  initialize: "saga_step ''empty'' ''saga_initialized'' ''initialized''"
| claim: "saga_step ''initialized'' ''claim_committed'' ''claimed''"
| reserve_inventory: "saga_step ''claimed'' ''inventory_reserved'' ''inventory_reserved''"
| reserve_attempt: "saga_step ''inventory_reserved'' ''attempt_reserved'' ''attempt_reserved''"
| prepare: "saga_step ''attempt_reserved'' ''transaction_prepared'' ''transaction_prepared''"
| intend: "s \<in> {''transaction_prepared'', ''broadcast_not_attempted''} \<Longrightarrow>
    saga_step s ''broadcast_intent_committed'' ''broadcast_intent_committed''"
| not_attempted: "saga_step ''broadcast_intent_committed'' ''broadcast_not_attempted'' ''broadcast_not_attempted''"
| unknown: "saga_step ''broadcast_intent_committed'' ''broadcast_unknown'' ''broadcast_unknown''"
| accepted: "s \<in> possible_broadcast_states \<Longrightarrow> saga_step s ''broadcast_accepted'' ''broadcast_accepted''"
| confirmed: "s \<in> possible_broadcast_states \<Longrightarrow> saga_step s ''receipt_confirmed'' ''receipt_confirmed''"
| reverted: "s \<in> possible_broadcast_states \<Longrightarrow> saga_step s ''receipt_reverted'' ''receipt_reverted''"
| closeout: "saga_step ''receipt_confirmed'' ''closeout_committed'' ''closed''"
| hold: "s \<notin> terminal_states \<Longrightarrow> saga_step s ''terminal_hold'' ''terminal_hold''"

inductive saga_run :: "string list \<Rightarrow> string \<Rightarrow> bool" where
  run_Nil: "saga_run [] ''empty''"
| run_snoc: "saga_run ts s \<Longrightarrow> saga_step s t s' \<Longrightarrow> saga_run (ts @ [t]) s'"

inductive_cases saga_run_NilE: "saga_run [] s"

lemma saga_run_snocE:
  assumes "saga_run (ts @ [t]) s'"
  obtains s where "saga_run ts s" "saga_step s t s'"
  using assms by (cases rule: saga_run.cases) auto

inductive_simps saga_step_terminal [simp]:
  "saga_step ''closed'' t s" "saga_step ''receipt_reverted'' t s" "saga_step ''terminal_hold'' t s"

section \<open>Events\<close>

definition ev_type :: "jsv \<Rightarrow> string" where
  "ev_type e = str_of (jget ''event_type'' e)"

lemma validateSagaEventV1_Inr:
  assumes "validateSagaEventV1 H v = Inr w"
  shows "w = v" "ev_type v \<in> set EVENT_TYPES" "jget ''event_id'' v = JStr (contentId H EVENT_ID_PREFIX v ''event_id'')"
    "isSafeInteger (jget ''sequence'' v)" "isSafeInteger (jget ''fencing_token'' v)" "1 \<le> num_of (jget ''fencing_token'' v)"
    "is_str (jget ''saga_id'' v)" "is_str (jget ''recorded_at_utc'' v)"
    "validatePayload (ev_type v) (jget ''payload'' v) \<in> range Inr"
proof -
  have "post (\<lambda>w. w = v \<and> ev_type v \<in> set EVENT_TYPES \<and> jget ''event_id'' v = JStr (contentId H EVENT_ID_PREFIX v ''event_id'') \<and>
      isSafeInteger (jget ''sequence'' v) \<and> isSafeInteger (jget ''fencing_token'' v) \<and> 1 \<le> num_of (jget ''fencing_token'' v) \<and>
      is_str (jget ''saga_id'' v) \<and> is_str (jget ''recorded_at_utc'' v) \<and>
      validatePayload (ev_type v) (jget ''payload'' v) \<in> range Inr) (validateSagaEventV1 H v)"
    unfolding validateSagaEventV1_def
    by (intro js_wp post_bnd)
      (auto simp: ev_type_def safeInteger_def canonicalUtc_def nonEmptyString_def js_simps split: if_splits)
  from postD [OF this assms] show "w = v" "ev_type v \<in> set EVENT_TYPES"
    "jget ''event_id'' v = JStr (contentId H EVENT_ID_PREFIX v ''event_id'')"
    "isSafeInteger (jget ''sequence'' v)" "isSafeInteger (jget ''fencing_token'' v)" "1 \<le> num_of (jget ''fencing_token'' v)"
    "is_str (jget ''saga_id'' v)" "is_str (jget ''recorded_at_utc'' v)"
    "validatePayload (ev_type v) (jget ''payload'' v) \<in> range Inr"
    by simp_all
qed

lemma mapM_validate: "mapM (validateSagaEventV1 H) es = Inr vs \<Longrightarrow> vs = es"
proof (induction es arbitrary: vs)
  case (Cons e es)
  then show ?case by (auto simp: js_simps dest: validateSagaEventV1_Inr(1))
qed simp

lemma mapM_validate_iff:
  "mapM (validateSagaEventV1 H) es = Inr vs \<longleftrightarrow> vs = es \<and> (\<forall>e \<in> set es. validateSagaEventV1 H e = Inr e)"
proof (induction es arbitrary: vs)
  case (Cons e es)
  then show ?case by (auto simp: js_simps dest: validateSagaEventV1_Inr(1))
qed auto

section \<open>The fold is a run of the machine\<close>

lemma EVENT_TYPES_cases:
  assumes "ty \<in> set EVENT_TYPES"
  obtains "ty = ''saga_initialized''" | "ty = ''claim_committed''" | "ty = ''inventory_reserved''"
    | "ty = ''attempt_reserved''" | "ty = ''transaction_prepared''" | "ty = ''broadcast_intent_committed''"
    | "ty = ''broadcast_not_attempted''" | "ty = ''broadcast_unknown''" | "ty = ''broadcast_accepted''"
    | "ty = ''receipt_confirmed''" | "ty = ''receipt_reverted''" | "ty = ''closeout_committed''" | "ty = ''terminal_hold''"
  using assms that unfolding EVENT_TYPES_def list.set insert_iff empty_iff by (elim disjE FalseE)

text \<open>One equation per event type.\<close>

lemma apply_event_type_simps:
  "apply_event_type H i st ''saga_initialized'' p =
      requireState st [''empty''] ''saga_initialized''
        (if i \<noteq> 0 then Inl ''saga_initialized_must_be_first'' else Inr (st \<lparr> sg_state := ''initialized'' \<rparr>))"
  "apply_event_type H i st ''claim_committed'' p =
      requireState st [''initialized''] ''claim_committed''
        (Inr (st \<lparr> sg_claim_id := jget ''claim_id'' p, sg_instruction_id := jget ''instruction_id'' p,
                   sg_state := ''claimed'' \<rparr>))"
  "apply_event_type H i st ''inventory_reserved'' p =
      requireState st [''claimed''] ''inventory_reserved''
        (Inr (st \<lparr> sg_reservation_id := jget ''reservation_id'' p, sg_state := ''inventory_reserved'' \<rparr>))"
  "apply_event_type H i st ''attempt_reserved'' p =
      requireState st [''inventory_reserved''] ''attempt_reserved''
        (Inr (st \<lparr> sg_attempt_id := jget ''attempt_id'' p, sg_attempt_number := jget ''attempt_number'' p,
                   sg_state := ''attempt_reserved'' \<rparr>))"
  "apply_event_type H i st ''transaction_prepared'' p =
      requireState st [''attempt_reserved''] ''transaction_prepared''
        (if jget ''attempt_id'' p \<noteq> sg_attempt_id st then Inl ''prepared_attempt_id_mismatch''
         else Inr (st \<lparr> sg_transaction_hash := jget ''transaction_hash'' p, sg_nonce := jget ''nonce'' p,
                        sg_state := ''transaction_prepared'' \<rparr>))"
  "apply_event_type H i st ''broadcast_intent_committed'' p =
      requireState st [''transaction_prepared'', ''broadcast_not_attempted''] ''broadcast_intent_committed''
        (requireAttemptAndHash st p
          (bnd (computeBroadcastIntentIdV1 H (JObj [(''saga_id'', sg_saga_id st),
                 (''attempt_id'', sg_attempt_id st), (''transaction_hash'', sg_transaction_hash st)])) (\<lambda>expected.
           if jget ''broadcast_intent_id'' p \<noteq> JStr expected then Inl ''broadcast_intent_id_binding_mismatch''
           else Inr (st \<lparr> sg_broadcast_intent_id := jget ''broadcast_intent_id'' p,
                          sg_broadcast_call_may_have_occurred := True,
                          sg_state := ''broadcast_intent_committed'' \<rparr>))))"
  "apply_event_type H i st ''broadcast_not_attempted'' p =
      requireState st [''broadcast_intent_committed''] ''broadcast_not_attempted''
        (requireAttemptAndHash st p
          (Inr (st \<lparr> sg_broadcast_call_may_have_occurred := False, sg_state := ''broadcast_not_attempted'' \<rparr>)))"
  "apply_event_type H i st ''broadcast_unknown'' p =
      requireState st [''broadcast_intent_committed''] ''broadcast_unknown''
        (requireAttemptAndHash st p
          (Inr (st \<lparr> sg_broadcast_call_may_have_occurred := True, sg_state := ''broadcast_unknown'' \<rparr>)))"
  "apply_event_type H i st ''broadcast_accepted'' p =
      requireState st [''broadcast_intent_committed'', ''broadcast_unknown'', ''broadcast_accepted''] ''broadcast_accepted''
        (requireAttemptAndHash st p
          (Inr (st \<lparr> sg_broadcast_call_may_have_occurred := True, sg_state := ''broadcast_accepted'' \<rparr>)))"
  "apply_event_type H i st ''receipt_confirmed'' p =
      requireState st [''broadcast_intent_committed'', ''broadcast_unknown'', ''broadcast_accepted''] ''receipt_confirmed''
        (requireAttemptAndHash st p
          (Inr (st \<lparr> sg_receipt_status := JNum 1, sg_state := ''receipt_confirmed'' \<rparr>)))"
  "apply_event_type H i st ''receipt_reverted'' p =
      requireState st [''broadcast_intent_committed'', ''broadcast_unknown'', ''broadcast_accepted''] ''receipt_reverted''
        (requireAttemptAndHash st p
          (Inr (st \<lparr> sg_receipt_status := JNum 0, sg_state := ''receipt_reverted'', sg_terminal := True \<rparr>)))"
  "apply_event_type H i st ''closeout_committed'' p =
      requireState st [''receipt_confirmed''] ''closeout_committed''
        (requireAttemptAndHash st p
          (Inr (st \<lparr> sg_closeout_id := jget ''closeout_id'' p, sg_state := ''closed'', sg_terminal := True \<rparr>)))"
  "apply_event_type H i st ''terminal_hold'' p =
      (if sg_terminal st then Inl ''terminal_hold_after_terminal_forbidden''
       else Inr (st \<lparr> sg_state := ''terminal_hold'', sg_terminal := True \<rparr>))"
  by (simp_all add: apply_event_type_def)

lemma requireState_Inr: "requireState st allowed ty k = Inr st' \<longleftrightarrow> sg_state st \<in> set allowed \<and> k = Inr st'"
  by (simp add: requireState_def)

lemma requireAttemptAndHash_Inr:
  "requireAttemptAndHash st p k = Inr st' \<longleftrightarrow>
     jget ''attempt_id'' p = sg_attempt_id st \<and> jget ''transaction_hash'' p = sg_transaction_hash st \<and> k = Inr st'"
  by (simp add: requireAttemptAndHash_def)

lemmas apply_event_inv = apply_event_type_simps requireState_Inr requireAttemptAndHash_Inr bnd_eq_Inr guard_eq_Inr sum.inject

lemma apply_event_type_step:
  assumes "apply_event_type H i st ty p = Inr st'" "ty \<in> set EVENT_TYPES"
    and "sg_terminal st \<longleftrightarrow> sg_state st \<in> terminal_states"
  shows "saga_step (sg_state st) ty (sg_state st') \<and> (sg_terminal st' \<longleftrightarrow> sg_state st' \<in> terminal_states) \<and>
    sg_event_count st' = sg_event_count st \<and> sg_saga_id st' = sg_saga_id st \<and> sg_binding st' = sg_binding st"
  using assms(1,3)
  by (cases rule: EVENT_TYPES_cases [OF assms(2)]; hypsubst; unfold apply_event_inv; clarsimp simp: saga_step.intros; elim disjE; simp)

text \<open>
  The loop over the events of a log. \<open>run_log\<close> is the fold without the final derivation of the next
  action, with the binding and identifier of the log's first event.
\<close>

definition run_log :: "(string \<Rightarrow> string) \<Rightarrow> jsv \<Rightarrow> jsv \<Rightarrow> jsv list \<Rightarrow> (saga_state \<times> int) res" where
  "run_log H binding sagaId es = foldM (fold_event H binding sagaId) (initialState binding sagaId, -1) es"

lemma run_log_Nil [simp]: "run_log H b i [] = Inr (initialState b i, -1)"
  by (simp add: run_log_def)

lemma run_log_snoc: "run_log H b i (es @ [e]) = bnd (run_log H b i es) (\<lambda>acc. fold_event H b i acc e)"
proof -
  have "bnd m (\<lambda>acc. bnd (f acc) Inr) = bnd m f" for m :: "'a res" and f :: "'a \<Rightarrow> 'a res"
    by (cases m; simp add: bnd_def split: sum.splits)
  then show ?thesis by (simp add: run_log_def foldM_append)
qed

text \<open>The facts one accepted event establishes.\<close>

lemma fold_event_Inr:
  assumes "fold_event H b i (st, t) e = Inr (st', t')" "ev_type e \<in> set EVENT_TYPES"
    and "sg_terminal st \<longleftrightarrow> sg_state st \<in> terminal_states"
  shows "saga_step (sg_state st) (ev_type e) (sg_state st')" "sg_terminal st' \<longleftrightarrow> sg_state st' \<in> terminal_states"
    "same_json (jget ''binding'' e) b" "jget ''saga_id'' e = i" "jget ''sequence'' e = JNum (sg_event_count st)"
    "jget ''previous_event_id'' e = sg_last_event_id st"
    "sg_last_fencing_token st \<le> num_of (jget ''fencing_token'' e)" "t \<le> t'"
    "t' = utc_ms (str_of (jget ''recorded_at_utc'' e))"
    "sg_event_count st' = sg_event_count st + 1" "sg_last_event_id st' = jget ''event_id'' e"
    "sg_last_fencing_token st' = num_of (jget ''fencing_token'' e)" "sg_saga_id st' = sg_saga_id st"
    "sg_binding st' = sg_binding st" "sg_last_sequence st' = sg_event_count st"
    "\<exists>st1. apply_event_type H (sg_event_count st) st (ev_type e) (jget ''payload'' e) = Inr st1 \<and>
       st' = st1 \<lparr> sg_event_count := sg_event_count st + 1, sg_last_event_id := jget ''event_id'' e,
         sg_last_sequence := sg_event_count st, sg_last_fencing_token := num_of (jget ''fencing_token'' e) \<rparr>"
proof -
  from assms(1) obtain st1 where st1: "apply_event_type H (sg_event_count st) st (ev_type e) (jget ''payload'' e) = Inr st1"
    and rest: "same_json (jget ''binding'' e) b" "jget ''saga_id'' e = i" "jget ''sequence'' e = JNum (sg_event_count st)"
    "jget ''previous_event_id'' e = sg_last_event_id st"
    "\<not> num_of (jget ''fencing_token'' e) < sg_last_fencing_token st"
    "\<not> utc_ms (str_of (jget ''recorded_at_utc'' e)) < t"
    "t' = utc_ms (str_of (jget ''recorded_at_utc'' e))"
    and st': "st' = st1 \<lparr> sg_event_count := sg_event_count st + 1, sg_last_event_id := jget ''event_id'' e,
         sg_last_sequence := sg_event_count st, sg_last_fencing_token := num_of (jget ''fencing_token'' e) \<rparr>"
    unfolding fold_event_def Let_def fst_conv snd_conv guard_eq_Inr bnd_eq_Inr sum.inject prod.inject ev_type_def
    by auto
  note step = apply_event_type_step [OF st1 assms(2,3)]
  show "\<exists>st1. apply_event_type H (sg_event_count st) st (ev_type e) (jget ''payload'' e) = Inr st1 \<and>
       st' = st1 \<lparr> sg_event_count := sg_event_count st + 1, sg_last_event_id := jget ''event_id'' e,
         sg_last_sequence := sg_event_count st, sg_last_fencing_token := num_of (jget ''fencing_token'' e) \<rparr>"
    using st1 st' by blast
  show "saga_step (sg_state st) (ev_type e) (sg_state st')" "sg_terminal st' \<longleftrightarrow> sg_state st' \<in> terminal_states"
    "sg_saga_id st' = sg_saga_id st" "sg_binding st' = sg_binding st"
    using step by (simp_all add: st')
  show "same_json (jget ''binding'' e) b" "jget ''saga_id'' e = i" "jget ''sequence'' e = JNum (sg_event_count st)"
    "jget ''previous_event_id'' e = sg_last_event_id st"
    "sg_last_fencing_token st \<le> num_of (jget ''fencing_token'' e)" "t \<le> t'"
    "t' = utc_ms (str_of (jget ''recorded_at_utc'' e))"
    "sg_event_count st' = sg_event_count st + 1" "sg_last_event_id st' = jget ''event_id'' e"
    "sg_last_fencing_token st' = num_of (jget ''fencing_token'' e)" "sg_last_sequence st' = sg_event_count st"
    using rest by (simp_all add: st')
qed

abbreviation ev_token :: "jsv \<Rightarrow> int" where
  "ev_token e \<equiv> num_of (jget ''fencing_token'' e)"

abbreviation ev_time :: "jsv \<Rightarrow> int" where
  "ev_time e \<equiv> utc_ms (str_of (jget ''recorded_at_utc'' e))"

text \<open>Every event points to the one before it.\<close>

fun chained :: "jsv \<Rightarrow> jsv list \<Rightarrow> bool" where
  "chained prev [] = True"
| "chained prev (e # es) = (jget ''previous_event_id'' e = prev \<and> chained (jget ''event_id'' e) es)"

lemma chained_append:
  "chained prev (es @ fs) \<longleftrightarrow> chained prev es \<and> chained (if es = [] then prev else jget ''event_id'' (last es)) fs"
  by (induction es arbitrary: prev) auto

definition log_inv :: "jsv \<Rightarrow> jsv \<Rightarrow> jsv list \<Rightarrow> saga_state \<Rightarrow> int \<Rightarrow> bool" where
  "log_inv b i es st t \<longleftrightarrow>
     saga_run (map ev_type es) (sg_state st) \<and> (sg_terminal st \<longleftrightarrow> sg_state st \<in> terminal_states) \<and>
     sg_event_count st = int (length es) \<and> sg_saga_id st = i \<and> sg_binding st = b \<and>
     sg_last_event_id st = (if es = [] then JNull else jget ''event_id'' (last es)) \<and>
     sg_last_fencing_token st = (if es = [] then 0 else ev_token (last es)) \<and>
     t = (if es = [] then -1 else ev_time (last es)) \<and>
     chained JNull es \<and> map (jget ''sequence'') es = map (\<lambda>n. JNum (int n)) [0..<length es] \<and>
     sorted (map ev_token es) \<and> sorted (map ev_time es) \<and>
     (\<forall>e \<in> set es. jget ''saga_id'' e = i \<and> same_json (jget ''binding'' e) b)"

lemma sorted_snoc: "sorted (xs @ [x]) \<longleftrightarrow> sorted xs \<and> (xs = [] \<or> last xs \<le> (x :: int))"
  by (cases xs rule: rev_cases) (force simp: sorted_append)+

lemma run_log_inv:
  assumes "run_log H b i es = Inr (st, t)" "\<forall>e \<in> set es. ev_type e \<in> set EVENT_TYPES"
  shows "log_inv b i es st t"
  using assms
proof (induction es arbitrary: st t rule: rev_induct)
  case Nil
  then show ?case by (auto simp: log_inv_def initialState_def intro: run_Nil)
next
  case (snoc e es)
  from snoc.prems(1) obtain st0 t0 where st0: "run_log H b i es = Inr (st0, t0)" "fold_event H b i (st0, t0) e = Inr (st, t)"
    by (auto simp: run_log_snoc bnd_eq_Inr)
  have I: "log_inv b i es st0 t0" by (rule snoc.IH [OF st0(1)]) (use snoc.prems(2) in auto)
  have "ev_type e \<in> set EVENT_TYPES" using snoc.prems(2) by simp
  note f = fold_event_Inr [OF st0(2) this]
  have tm: "sg_terminal st0 \<longleftrightarrow> sg_state st0 \<in> terminal_states" using I by (simp add: log_inv_def)
  have "sg_last_fencing_token st0 \<le> ev_token e" "t0 \<le> ev_time e" using f(7-9) [OF tm] by simp_all
  with I have "sorted (map ev_token (es @ [e]))" "sorted (map ev_time (es @ [e]))"
    by (cases "es = []"; simp add: log_inv_def sorted_snoc last_map)+
  moreover have "saga_run (map ev_type (es @ [e])) (sg_state st)"
    using I f(1) [OF tm] by (auto simp: log_inv_def intro: run_snoc)
  moreover have "chained JNull (es @ [e])" using I f(6) [OF tm] by (auto simp: log_inv_def chained_append)
  ultimately show ?case
    using I f(2-5,9-14) [OF tm] by (auto simp: log_inv_def)
qed

lemma log_inv_next: "log_inv b i es (st \<lparr> sg_next_action := x \<rparr>) t = log_inv b i es st t"
  by (simp add: log_inv_def)

lemma log_inv_time: "log_inv b i es st t \<Longrightarrow> es \<noteq> [] \<Longrightarrow> t = ev_time (last es)"
  by (simp add: log_inv_def)

text \<open>An accepted log, taken apart.\<close>

lemma foldSaga_Inr:
  assumes "foldSagaEventsV1 H es = Inr st"
  obtains st0 t nx where "es \<noteq> []" "int (length es) \<le> MAX_EVENTS" "\<forall>e \<in> set es. validateSagaEventV1 H e = Inr e"
    "run_log H (jget ''binding'' (hd es)) (jget ''saga_id'' (hd es)) es = Inr (st0, t)"
    "deriveSagaNextActionV1 (sg_state st0) (sg_terminal st0) = Inr nx"
    "st = st0 \<lparr> sg_next_action := na_action nx \<rparr>"
  using assms
  by (auto simp: foldSagaEventsV1_def js_simps mapM_validate_iff run_log_def [symmetric] Let_def split: if_splits)

lemma foldSaga_log_inv:
  assumes "foldSagaEventsV1 H es = Inr st"
  shows "log_inv (jget ''binding'' (hd es)) (jget ''saga_id'' (hd es)) es st (ev_time (last es))" "es \<noteq> []"
    "\<forall>e \<in> set es. validateSagaEventV1 H e = Inr e"
proof -
  obtain st0 t and nx :: next_action where f: "es \<noteq> []" "\<forall>e \<in> set es. validateSagaEventV1 H e = Inr e"
    "run_log H (jget ''binding'' (hd es)) (jget ''saga_id'' (hd es)) es = Inr (st0, t)"
    "st = st0 \<lparr> sg_next_action := na_action nx \<rparr>"
    using assms by (rule foldSaga_Inr) blast
  have "\<forall>e \<in> set es. ev_type e \<in> set EVENT_TYPES" using f(2) validateSagaEventV1_Inr(2) by blast
  note I = run_log_inv [OF f(3) this]
  have "t = ev_time (last es)" using log_inv_time [OF I f(1)] .
  with I show "log_inv (jget ''binding'' (hd es)) (jget ''saga_id'' (hd es)) es st (ev_time (last es))"
    unfolding f(4) log_inv_next by simp
  show "es \<noteq> []" "\<forall>e \<in> set es. validateSagaEventV1 H e = Inr e" by (fact f)+
qed

text \<open>After the first event there is always a next action or a terminal state.\<close>

lemma saga_step_target:
  "saga_step s t s' \<Longrightarrow> s' \<in> terminal_states \<or> s' \<in> set (map fst NEXT_ACTIONS)"
  by (erule saga_step.cases) (simp_all add: NEXT_ACTIONS_def)

lemma deriveSagaNextActionV1_total:
  "s \<in> terminal_states \<or> s \<in> set (map fst NEXT_ACTIONS) \<Longrightarrow> \<exists>nx. deriveSagaNextActionV1 s b = Inr nx"
  by (auto simp: deriveSagaNextActionV1_def NEXT_ACTIONS_def)

lemma foldSaga_iff_run:
  "(\<exists>st. foldSagaEventsV1 H es = Inr st) \<longleftrightarrow>
   es \<noteq> [] \<and> int (length es) \<le> MAX_EVENTS \<and> (\<forall>e \<in> set es. validateSagaEventV1 H e = Inr e) \<and>
   run_log H (jget ''binding'' (hd es)) (jget ''saga_id'' (hd es)) es \<in> range Inr"
  (is "?L \<longleftrightarrow> ?R")
proof
  assume ?L
  then show ?R by (auto elim!: foldSaga_Inr)
next
  assume R: ?R
  then obtain st0 t where r: "run_log H (jget ''binding'' (hd es)) (jget ''saga_id'' (hd es)) es = Inr (st0, t)" by auto
  from R obtain ds d where es: "es = ds @ [d]" by (cases es rule: rev_cases) auto
  have "\<forall>e \<in> set es. ev_type e \<in> set EVENT_TYPES" using R validateSagaEventV1_Inr(2) by blast
  from run_log_inv [OF r this] have "saga_run (map ev_type ds @ [ev_type d]) (sg_state st0)"
    by (simp add: log_inv_def es)
  then have "sg_state st0 \<in> terminal_states \<or> sg_state st0 \<in> set (map fst NEXT_ACTIONS)"
    by (rule saga_run_snocE) (rule saga_step_target)
  from deriveSagaNextActionV1_total [OF this] obtain nx where "deriveSagaNextActionV1 (sg_state st0) (sg_terminal st0) = Inr nx" by blast
  moreover have "\<not> int (length es) < 1" by (simp add: es)
  moreover have "mapM (validateSagaEventV1 H) es = Inr es" using R by (simp add: mapM_validate_iff)
  ultimately show ?L using R r by (simp add: foldSagaEventsV1_def run_log_def [symmetric] Let_def)
qed

section \<open>Runs of the machine\<close>

definition setup_types :: "string list" where
  "setup_types = [''saga_initialized'', ''claim_committed'', ''inventory_reserved'', ''attempt_reserved'', ''transaction_prepared'']"

text \<open>The states of the set-up, each with the number of events that lead to it.\<close>

definition setup_states :: "(string \<times> nat) list" where
  "setup_states = [(''empty'', 0), (''initialized'', 1), (''claimed'', 2), (''inventory_reserved'', 3),
     (''attempt_reserved'', 4), (''transaction_prepared'', 5)]"

text \<open>Event types that report that the transaction may have reached the network.\<close>

definition outcome_types :: "string set" where
  "outcome_types = {''broadcast_unknown'', ''broadcast_accepted'', ''receipt_confirmed'', ''receipt_reverted'', ''closeout_committed''}"

abbreviation intents :: "string list \<Rightarrow> nat" where
  "intents ts \<equiv> count_list ts ''broadcast_intent_committed''"

abbreviation aborts :: "string list \<Rightarrow> nat" where
  "aborts ts \<equiv> count_list ts ''broadcast_not_attempted''"

lemma run_setup: "saga_run ts s \<Longrightarrow> (s, n) \<in> set setup_states \<Longrightarrow> ts = take n setup_types"
proof (induction arbitrary: n rule: saga_run.induct)
  case run_Nil
  then show ?case by (auto simp: setup_states_def)
next
  case (run_snoc ts s t s')
  from run_snoc.hyps(2) show ?case
    by (cases rule: saga_step.cases)
      (use run_snoc.prems run_snoc.IH in \<open>auto simp: setup_states_def setup_types_def\<close>)
qed

definition broadcast_inv :: "string list \<Rightarrow> string \<Rightarrow> bool" where
  "broadcast_inv ts s \<longleftrightarrow>
     (s \<in> set (map fst setup_states) \<longrightarrow> intents ts = 0 \<and> aborts ts = 0 \<and> set ts \<inter> outcome_types = {}) \<and>
     (s = ''broadcast_not_attempted'' \<longrightarrow> intents ts = aborts ts \<and> set ts \<inter> outcome_types = {}) \<and>
     (s = ''broadcast_intent_committed'' \<longrightarrow> intents ts = Suc (aborts ts) \<and> set ts \<inter> outcome_types = {}) \<and>
     (s \<in> {''broadcast_unknown'', ''broadcast_accepted'', ''receipt_confirmed'', ''receipt_reverted'', ''closed''} \<longrightarrow>
        intents ts = Suc (aborts ts)) \<and>
     intents ts \<le> Suc (aborts ts)"

lemma run_broadcast: "saga_run ts s \<Longrightarrow> broadcast_inv ts s"
proof (induction rule: saga_run.induct)
  case run_Nil
  then show ?case by (simp add: broadcast_inv_def setup_states_def)
next
  case (run_snoc ts s t s')
  from run_snoc.hyps(2) show ?case
    by (cases rule: saga_step.cases; use run_snoc.IH in \<open>simp add: broadcast_inv_def setup_states_def outcome_types_def\<close>;
        elim disjE; simp)
qed

section \<open>Identities\<close>

abbreviation ev_hash :: "jsv \<Rightarrow> jsv" where
  "ev_hash e \<equiv> jpath [''payload'', ''transaction_hash''] e"

abbreviation ev_attempt :: "jsv \<Rightarrow> jsv" where
  "ev_attempt e \<equiv> jpath [''payload'', ''attempt_id''] e"

definition bound_types :: "string set" where
  "bound_types = {''transaction_prepared'', ''broadcast_intent_committed'', ''broadcast_not_attempted''} \<union> outcome_types"

definition id_inv :: "jsv list \<Rightarrow> saga_state \<Rightarrow> bool" where
  "id_inv es st \<longleftrightarrow>
     (\<forall>e \<in> set es. ev_type e \<in> bound_types \<longrightarrow> ev_hash e = sg_transaction_hash st \<and> ev_attempt e = sg_attempt_id st) \<and>
     (\<forall>e \<in> set es. ev_type e = ''attempt_reserved'' \<longrightarrow> ev_attempt e = sg_attempt_id st)"

lemma run_setup_types:
  "saga_run (map ev_type es) s \<Longrightarrow> (s, n) \<in> set setup_states \<Longrightarrow> ty \<in> ev_type ` set es \<Longrightarrow> ty \<in> set (take n setup_types)"
  using run_setup by (metis image_set)

lemma setup_fresh:
  "''attempt_reserved'' \<notin> set (take 3 setup_types)" "set (take 3 setup_types) \<inter> bound_types = {}"
  "set (take 4 setup_types) \<inter> bound_types = {}"
  by (simp_all add: setup_types_def bound_types_def outcome_types_def)

text \<open>What one event does to the attempt and the transaction hash.\<close>

lemma apply_event_type_ids:
  assumes "apply_event_type H i st ty p = Inr st'" "ty \<in> set EVENT_TYPES"
  shows "(ty \<noteq> ''attempt_reserved'' \<longrightarrow> sg_attempt_id st' = sg_attempt_id st) \<and>
    (ty \<noteq> ''transaction_prepared'' \<longrightarrow> sg_transaction_hash st' = sg_transaction_hash st) \<and>
    (ty = ''attempt_reserved'' \<longrightarrow> sg_attempt_id st' = jget ''attempt_id'' p \<and> sg_state st = ''inventory_reserved'') \<and>
    (ty = ''transaction_prepared'' \<longrightarrow> sg_state st = ''attempt_reserved'') \<and>
    (ty \<in> bound_types \<longrightarrow> jget ''transaction_hash'' p = sg_transaction_hash st' \<and> jget ''attempt_id'' p = sg_attempt_id st')"
  using assms(1)
  by (cases rule: EVENT_TYPES_cases [OF assms(2)]; hypsubst; unfold apply_event_inv;
      clarsimp simp: bound_types_def outcome_types_def)

lemma run_log_ids:
  assumes "run_log H b i es = Inr (st, t)" "\<forall>e \<in> set es. ev_type e \<in> set EVENT_TYPES"
  shows "id_inv es st"
  using assms
proof (induction es arbitrary: st t rule: rev_induct)
  case Nil
  then show ?case by (simp add: id_inv_def)
next
  case (snoc e es)
  from snoc.prems(1) obtain st0 t0 where st0: "run_log H b i es = Inr (st0, t0)" "fold_event H b i (st0, t0) e = Inr (st, t)"
    by (auto simp: run_log_snoc bnd_eq_Inr)
  have types: "\<forall>e \<in> set es. ev_type e \<in> set EVENT_TYPES" "ev_type e \<in> set EVENT_TYPES" using snoc.prems(2) by auto
  have I: "id_inv es st0" by (rule snoc.IH [OF st0(1) types(1)])
  have L: "saga_run (map ev_type es) (sg_state st0)" "sg_terminal st0 \<longleftrightarrow> sg_state st0 \<in> terminal_states"
    using run_log_inv [OF st0(1) types(1)] by (simp_all add: log_inv_def)
  from fold_event_Inr(16) [OF st0(2) types(2) L(2)] obtain st1 where
    st1: "apply_event_type H (sg_event_count st0) st0 (ev_type e) (jget ''payload'' e) = Inr st1"
      "sg_attempt_id st = sg_attempt_id st1" "sg_transaction_hash st = sg_transaction_hash st1" by auto
  note ids = apply_event_type_ids [OF st1(1) types(2)]
  have fresh: "ev_type f \<noteq> ''attempt_reserved''" "ev_type f \<notin> bound_types"
    if "ev_type e = ''attempt_reserved''" "f \<in> set es" for f
    using run_setup_types [OF L(1), of 3 "ev_type f"] ids that setup_fresh by (auto simp: setup_states_def)
  have fresh': "ev_type f \<notin> bound_types" if "ev_type e = ''transaction_prepared''" "f \<in> set es" for f
    using run_setup_types [OF L(1), of 4 "ev_type f"] ids that setup_fresh by (auto simp: setup_states_def)
  show ?case
    unfolding id_inv_def st1(2,3)
  proof (intro conjI ballI impI)
    fix f assume f: "f \<in> set (es @ [e])" "ev_type f \<in> bound_types"
    show "ev_hash f = sg_transaction_hash st1" "ev_attempt f = sg_attempt_id st1"
    proof (atomize (full), cases "f \<in> set es")
      case True
      with fresh(2) fresh' f(2) have "ev_type e \<noteq> ''attempt_reserved''" "ev_type e \<noteq> ''transaction_prepared''" by blast+
      with ids have "sg_attempt_id st1 = sg_attempt_id st0" "sg_transaction_hash st1 = sg_transaction_hash st0" by blast+
      with True f(2) I show "ev_hash f = sg_transaction_hash st1 \<and> ev_attempt f = sg_attempt_id st1"
        unfolding id_inv_def by metis
    next
      case False
      with f(1) have "f = e" by simp
      with f(2) ids show "ev_hash f = sg_transaction_hash st1 \<and> ev_attempt f = sg_attempt_id st1"
        unfolding jpath.simps by blast
    qed
  next
    fix f assume f: "f \<in> set (es @ [e])" "ev_type f = ''attempt_reserved''"
    show "ev_attempt f = sg_attempt_id st1"
    proof (cases "f \<in> set es")
      case True
      with fresh(1) f(2) have "ev_type e \<noteq> ''attempt_reserved''" by blast
      with ids have "sg_attempt_id st1 = sg_attempt_id st0" by blast
      with True f(2) I show ?thesis unfolding id_inv_def by metis
    next
      case False
      with f(1) have "f = e" by simp
      with f(2) ids show ?thesis unfolding jpath.simps by metis
    qed
  qed
qed

end
