(* ===== verification/Saga_Directory.thy ===== *)
theory Saga_Directory
  imports Saga_Store Saga_Safety
begin

text \<open>
  The directory of a saga's events as a log: the names of event files, the order in which they are
  read, and what a directory reads as after one more event was written to it.
\<close>

section \<open>Names of event files\<close>

lemma validateSagaEventV1_shape:
  assumes "validateSagaEventV1 H v = Inr w"
  obtains n x where "jget ''sequence'' v = JNum n" "0 \<le> n" "n < 64"
    "jget ''event_id'' v = JStr (EVENT_ID_PREFIX @ x)" "hex_n 64 x"
proof -
  have "post (\<lambda>w. safeInteger (jget ''sequence'' v) 0 (MAX_EVENTS - 1) ''event.sequence'' \<in> range Inr \<and>
      prefix_hex EVENT_ID_PREFIX 64 (text_or_empty (jget ''event_id'' v)) \<and>
      jget ''event_id'' v = JStr (contentId H EVENT_ID_PREFIX v ''event_id'')) (validateSagaEventV1 H v)"
    unfolding validateSagaEventV1_def by (intro js_wp post_bnd) auto
  from postD [OF this assms] have a: "safeInteger (jget ''sequence'' v) 0 (MAX_EVENTS - 1) ''event.sequence'' \<in> range Inr"
    "prefix_hex EVENT_ID_PREFIX 64 (text_or_empty (jget ''event_id'' v))"
    "jget ''event_id'' v = JStr (contentId H EVENT_ID_PREFIX v ''event_id'')" by blast+
  let ?x = "H (canonicalJsonV1 (jdel ''event_id'' v))"
  from a(1) obtain n where "jget ''sequence'' v = JNum n" "0 \<le> n" "n < 64"
    by (auto simp: safeInteger_def MAX_EVENTS_def isSafeInteger_iff split: if_splits)
  moreover have "jget ''event_id'' v = JStr (EVENT_ID_PREFIX @ ?x)" using a(3) by (simp add: contentId_def)
  moreover from this have "text_or_empty (jget ''event_id'' v) = EVENT_ID_PREFIX @ ?x"
    by (simp add: text_or_empty_def EVENT_ID_PREFIX_def)
  with a(2) have "hex_n 64 ?x" by simp
  ultimately show thesis by (rule that)
qed

lemma dec_val_replicate: "dec_val (replicate k CHR ''0'' @ s) = dec_val s"
  by (induction k) (simp_all add: dec_val_def digit_val_def)

lemma dec_str_length: "0 \<le> n \<Longrightarrow> n < 64 \<Longrightarrow> length (dec_str n) \<le> 2"
  by (subst dec_str.simps, cases "n < 10") (simp_all add: dec_str_small)

lemma padStart_digits:
  assumes "0 \<le> n" "n < 64"
  shows "length (padStart 8 (dec_str n)) = 8" "list_all is_digit (padStart 8 (dec_str n))"
    "dec_val (padStart 8 (dec_str n)) = n"
  using dec_str_length [OF assms] dec_str_digits [OF assms(1)] assms(1)
  by (simp_all add: padStart_def dec_val_replicate list_all_append list_all_iff is_digit_def)

lemma hex_digit_chars: "c \<in> set x \<Longrightarrow> hex_n n x \<Longrightarrow> is_lower_hex c"
  by (simp add: hex_n_def list_all_iff)

lemma EVENT_FILE_event:
  assumes "0 \<le> n" "n < 64" "hex_n 64 x"
  shows "EVENT_FILE (padStart 8 (dec_str n) @ ''-'' @ (EVENT_ID_PREFIX @ x) @ ''.json'') = Some (n, EVENT_ID_PREFIX @ x)"
proof -
  note p = padStart_digits [OF assms(1,2)]
  have len: "length (EVENT_ID_PREFIX @ x) = 76" using assms(3) by (simp add: EVENT_ID_PREFIX_def hex_n_def)
  define a b where "a = padStart 8 (dec_str n)" and "b = EVENT_ID_PREFIX @ x"
  have ab: "length a = 8" "length b = 76" using p len by (simp_all add: a_def b_def)
  then have "take 8 (a @ ''-'' @ b @ ''.json'') = a" "take 1 (drop 8 (a @ ''-'' @ b @ ''.json'')) = ''-''"
    "take 76 (drop 9 (a @ ''-'' @ b @ ''.json'')) = b" "drop 85 (a @ ''-'' @ b @ ''.json'') = ''.json''"
    by simp_all
  then show ?thesis
    using p assms(3) unfolding a_def [symmetric] b_def [symmetric] EVENT_FILE_def
    by (simp add: Let_def ab) (simp add: b_def)
qed

lemma includes_text_set: "includes_text s t \<Longrightarrow> set t \<subseteq> set s"
proof (induction s)
  case (Cons c cs)
  show ?case
  proof (cases "take (length t) (c # cs) = t")
    case True
    then show ?thesis by (metis set_take_subset)
  qed (use Cons in auto)
qed simp

lemma event_name_plain:
  assumes "list_all is_digit a" "hex_n 64 x"
  shows "\<not> includes_text (a @ ''-'' @ (EVENT_ID_PREFIX @ x) @ ''.json'') ''.tmp-''"
proof
  assume "includes_text (a @ ''-'' @ (EVENT_ID_PREFIX @ x) @ ''.json'') ''.tmp-''"
  from includes_text_set [OF this] have "CHR ''t'' \<in> set (a @ ''-'' @ (EVENT_ID_PREFIX @ x) @ ''.json'')"
    by (rule subsetD) simp
  then have "CHR ''t'' \<in> set a \<or> CHR ''t'' \<in> set x" by (simp add: EVENT_ID_PREFIX_def)
  moreover have "\<not> is_digit CHR ''t''" "\<not> is_lower_hex CHR ''t''" by (simp_all add: is_digit_def is_lower_hex_def)
  ultimately show False using assms(1) hex_digit_chars [OF _ assms(2)] unfolding list_all_iff by blast
qed

definition new_file :: "jsv \<Rightarrow> event_file" where
  "new_file e = \<lparr> ef_name = event_filename e, ef_sequence = num_of (jget ''sequence'' e),
     ef_event_id = str_of (jget ''event_id'' e), ef_node = atomicWriteJson e \<rparr>"

lemma classify_new_file:
  assumes "validateSagaEventV1 H e = Inr e"
  shows "classify_entry (event_filename e, atomicWriteJson e) = Inr (Some (new_file e))"
proof -
  obtain n x where e: "jget ''sequence'' e = JNum n" "0 \<le> n" "n < 64"
    "jget ''event_id'' e = JStr (EVENT_ID_PREFIX @ x)" "hex_n 64 x"
    using assms by (rule validateSagaEventV1_shape)
  have name: "event_filename e = padStart 8 (dec_str n) @ ''-'' @ (EVENT_ID_PREFIX @ x) @ ''.json''"
    using e by (simp add: event_filename_def)
  show ?thesis
    unfolding classify_entry_def fst_conv snd_conv name
    using EVENT_FILE_event [OF e(2,3,5)] event_name_plain [OF padStart_digits(2) [OF e(2,3)] e(5)]
    by (simp add: new_file_def e(1,4) atomicWriteJson_def name)
qed

section \<open>The directory as a log\<close>

text \<open>The events \<^verbatim>\<open>recover\<close> reads from a directory, before it folds them.\<close>

definition dir_events :: "(string \<Rightarrow> string) \<Rightarrow> (string \<times> file_node) list \<Rightarrow> jsv list res" where
  "dir_events H entries =
     bnd (mapM classify_entry entries) (\<lambda>classified.
     mapM (read_event H) (enumerate 0 (sort_files (List.map_filter id classified))))"

lemma recover_dir_eq:
  "recover_dir H entries = bnd (dir_events H entries) (\<lambda>es. if es = [] then Inr JNull else buildSagaRecordV1 H es)"
proof (cases "mapM classify_entry entries")
  case (Inr classified)
  let ?fs = "sort_files (List.map_filter id classified)"
  show ?thesis
  proof (cases "mapM (read_event H) (enumerate 0 ?fs)")
    case (Inr es)
    then have "length es = length ?fs" by (simp add: mapM_length)
    then have "es = [] \<longleftrightarrow> int (length ?fs) < 1" by auto
    then show ?thesis using \<open>mapM classify_entry entries = Inr classified\<close> Inr by (simp add: recover_dir_def dir_events_def Let_def)
  next
    case (Inl err)
    then have "?fs \<noteq> []" by auto
    then show ?thesis using \<open>mapM classify_entry entries = Inr classified\<close> Inl
      by (cases ?fs) (simp_all add: recover_dir_def dir_events_def Let_def)
  qed
qed (simp add: recover_dir_def dir_events_def)

lemma mapM_snoc: "mapM f (xs @ [x]) = bnd (mapM f xs) (\<lambda>ys. bnd (f x) (\<lambda>y. Inr (ys @ [y])))"
proof (induction xs)
  case Nil
  show ?case by (cases "f x") simp_all
next
  case (Cons a xs)
  then show ?case by (cases "f a"; cases "mapM f xs"; cases "f x") simp_all
qed

lemma insort_key_snoc: "f a \<le> f x \<Longrightarrow> insort_key f a (ys @ [x]) = insort_key f a ys @ [x]"
  by (induction ys) auto

lemma sort_key_snoc: "\<forall>y \<in> set xs. f y \<le> f x \<Longrightarrow> sort_key f (xs @ [x]) = sort_key f xs @ [x]"
  by (induction xs) (simp_all add: insort_key_snoc)

lemma read_event_Inr:
  assumes "read_event H (n, f) = Inr e"
  shows "ef_sequence f = int n" "validateSagaEventV1 H e = Inr e" "jget ''sequence'' e = JNum (int n)"
    "jget ''event_id'' e = JStr (ef_event_id f)"
  using assms validateSagaEventV1_Inr(1) unfolding read_event_def by (auto simp: js_simps split: if_splits)

lemma dir_events_Inr:
  assumes "dir_events H entries = Inr es"
  obtains classified where "mapM classify_entry entries = Inr classified"
    "mapM (read_event H) (enumerate 0 (sort_files (List.map_filter id classified))) = Inr es"
    "length (List.map_filter id classified) = length es"
    "\<forall>f \<in> set (List.map_filter id classified). ef_sequence f < int (length es)"
    "\<forall>e \<in> set es. validateSagaEventV1 H e = Inr e"
proof -
  from assms obtain classified where c: "mapM classify_entry entries = Inr classified"
    "mapM (read_event H) (enumerate 0 (sort_files (List.map_filter id classified))) = Inr es"
    by (auto simp: dir_events_def js_simps)
  let ?fs = "sort_files (List.map_filter id classified)"
  have r: "read_event H (n, ?fs ! n) = Inr (es ! n)" if "n < length ?fs" for n
    using c(2) that unfolding mapM_eq_Inr list_all2_conv_all_nth by (simp add: nth_enumerate_eq)
  have len: "length ?fs = length es" using mapM_length [OF c(2)] by simp
  show thesis
  proof
    show "mapM classify_entry entries = Inr classified"
      "mapM (read_event H) (enumerate 0 (sort_files (List.map_filter id classified))) = Inr es" by (fact c)+
    show "length (List.map_filter id classified) = length es" using len by (simp add: sort_files_def)
    show "\<forall>f \<in> set (List.map_filter id classified). ef_sequence f < int (length es)"
    proof
      fix f assume "f \<in> set (List.map_filter id classified)"
      then have "f \<in> set ?fs" by (simp add: sort_files_def)
      then obtain n where "n < length ?fs" "f = ?fs ! n" by (metis in_set_conv_nth)
      with read_event_Inr(1) [OF r] len show "ef_sequence f < int (length es)" by simp
    qed
    show "\<forall>e \<in> set es. validateSagaEventV1 H e = Inr e"
    proof
      fix e assume "e \<in> set es"
      then obtain n where "n < length es" "e = es ! n" by (metis in_set_conv_nth)
      with read_event_Inr(2) [OF r] len show "validateSagaEventV1 H e = Inr e" by simp
    qed
  qed
qed

lemma json_data_plain: "plain v \<Longrightarrow> json_data v = v"
proof (induction v rule: json_data.induct)
  case (4 kvs)
  then have "map (\<lambda>(k, v). (k, v = JUndef, json_data v)) kvs = map (\<lambda>(k, v). (k, False, v)) kvs"
    by (auto simp: list_all_iff)
  then show ?case by (simp add: filter_map o_def case_prod_unfold) (auto intro!: map_idI prod_eqI)
qed (auto simp: list_all_iff map_idI)

text \<open>A directory after the next event was written to it.\<close>

lemma dir_events_append:
  assumes "dir_events H entries = Inr es" "validateSagaEventV1 H e = Inr e" "jget ''sequence'' e = JNum (int (length es))"
  shows "dir_events H (entries @ [(event_filename e, atomicWriteJson e)]) =
    bnd (read_event H (length es, new_file e)) (\<lambda>e'. Inr (es @ [e']))"
proof -
  obtain classified where c: "mapM classify_entry entries = Inr classified"
    "mapM (read_event H) (enumerate 0 (sort_files (List.map_filter id classified))) = Inr es"
    "length (List.map_filter id classified) = length es"
    "\<forall>f \<in> set (List.map_filter id classified). ef_sequence f < int (length es)"
    using assms(1) by (rule dir_events_Inr) blast
  have "sort_files (List.map_filter id classified @ [new_file e]) = sort_files (List.map_filter id classified) @ [new_file e]"
    unfolding sort_files_def by (rule sort_key_snoc) (use c(4) assms(3) in \<open>auto simp: new_file_def less_eq_prod_def\<close>)
  then show ?thesis
    using c(1-3) classify_new_file [OF assms(2)]
    by (simp add: dir_events_def mapM_snoc map_filter_def enumerate_append_eq sort_files_def)
qed

lemma dir_events_snoc:
  assumes "dir_events H entries = Inr es" "validateSagaEventV1 H e = Inr e"
    and "jget ''sequence'' e = JNum (int (length es))" "plain e"
  shows "dir_events H (entries @ [(event_filename e, atomicWriteJson e)]) =
    (if fn_size (atomicWriteJson e) > MAX_JSON_BYTES then Inl ''event_file_size_out_of_range'' else Inr (es @ [e]))"
proof -
  obtain n x where shape: "jget ''event_id'' e = JStr (EVENT_ID_PREFIX @ x)"
    using assms(2) by (rule validateSagaEventV1_shape)
  have "fn_size (atomicWriteJson e) \<ge> 1" by (simp add: atomicWriteJson_def utf8_bytes_def)
  then have "read_event H (length es, new_file e) =
      (if fn_size (atomicWriteJson e) > MAX_JSON_BYTES then Inl ''event_file_size_out_of_range'' else Inr e)"
    using assms(2,3) shape json_data_plain [OF assms(4)]
    by (auto simp: read_event_def new_file_def readJsonFile_def atomicWriteJson_def)
  with dir_events_append [OF assms(1-3)] show ?thesis by simp
qed

text \<open>The name of the next event is not taken.\<close>

lemma next_name_fresh:
  assumes "dir_events H entries = Inr es" "validateSagaEventV1 H e = Inr e" "jget ''sequence'' e = JNum (int (length es))"
  shows "event_filename e \<notin> set (map fst entries)"
proof
  assume "event_filename e \<in> set (map fst entries)"
  then obtain node where node: "(event_filename e, node) \<in> set entries" by auto
  obtain classified where c: "mapM classify_entry entries = Inr classified"
    "\<forall>f \<in> set (List.map_filter id classified). ef_sequence f < int (length es)"
    using assms(1) by (rule dir_events_Inr) blast
  obtain n x where e: "jget ''sequence'' e = JNum n" "0 \<le> n" "n < 64"
    "jget ''event_id'' e = JStr (EVENT_ID_PREFIX @ x)" "hex_n 64 x"
    using assms(2) by (rule validateSagaEventV1_shape)
  have name: "event_filename e = padStart 8 (dec_str n) @ ''-'' @ (EVENT_ID_PREFIX @ x) @ ''.json''"
    using e by (simp add: event_filename_def)
  from c(1) node obtain o' where o': "classify_entry (event_filename e, node) = Inr o'" "o' \<in> set classified"
    unfolding mapM_eq_Inr list_all2_conv_all_nth by (metis in_set_conv_nth)
  have "\<exists>f. o' = Some f \<and> ef_sequence f = n"
    using o'(1) EVENT_FILE_event [OF e(2,3,5)] event_name_plain [OF padStart_digits(2) [OF e(2,3)] e(5)]
    unfolding classify_entry_def fst_conv name by (auto split: if_splits)
  with o'(2) c(2) assms(3) e(1) show False by (force simp: map_filter_def)
qed

end
