(* ===== verification/Saga_Example.thy ===== *)
theory Saga_Example
  imports Saga_Safety
begin

text \<open>
  A saga from its initialisation to its closeout, with one broadcast that was not attempted and was
  intended again: the concrete log at which the properties of the saga are instantiated. Its
  identifiers are those of the constant digest \<open>zero_digest\<close>.
\<close>

definition ex_binding :: jsv where
  "ex_binding = JObj [
     (''request_id'', JStr ''request-1''),
     (''canonical_payment_identity'', JStr ''payment-1''),
     (''request_key_sha256'', JStr (replicate 64 CHR ''a'')),
     (''payment_key_sha256'', JStr (replicate 64 CHR ''b'')),
     (''delivery_address'', JStr (''0x'' @ replicate 40 CHR ''1'')),
     (''void_amount_units'', JStr ''25''),
     (''chain_id'', JStr ''2050''),
     (''pool_id'', JStr ''pool-1'')]"

definition ex_saga_id :: string where
  "ex_saga_id = SAGA_ID_PREFIX @ replicate 64 CHR ''0''"

definition ex_event_id :: string where
  "ex_event_id = EVENT_ID_PREFIX @ replicate 64 CHR ''0''"

definition ex_event :: "int \<Rightarrow> string \<Rightarrow> jsv \<Rightarrow> jsv" where
  "ex_event n ty p = event_body ex_saga_id (JStr ex_event_id) n (if n = 0 then JNull else JStr ex_event_id)
     ''2026-01-01T00:00:00.000Z'' ty 1 ex_binding p"

definition ex_hash :: jsv where
  "ex_hash = JStr (''0x'' @ replicate 64 CHR ''c'')"

definition ex_attempt :: jsv where
  "ex_attempt = JStr ''attempt-1''"

definition ex_hex :: jsv where
  "ex_hex = JStr (replicate 64 CHR ''d'')"

definition ex_intent_id :: string where
  "ex_intent_id = ''voidbvbci1_'' @ replicate 64 CHR ''0''"

definition ex_intent :: jsv where
  "ex_intent = JObj [(''attempt_id'', ex_attempt), (''transaction_hash'', ex_hash),
     (''broadcast_intent_id'', JStr ex_intent_id)]"

definition ex_steps :: "(string \<times> jsv) list" where
  "ex_steps = [
     (''saga_initialized'', JObj [(''source_floor_main'', JStr (replicate 40 CHR ''e'')),
        (''policy_id'', JStr ''policy-1''), (''max_attempts'', JNum 1)]),
     (''claim_committed'', JObj [(''claim_id'', JStr ''claim-1''), (''instruction_id'', JStr ''instruction-1'')]),
     (''inventory_reserved'', JObj [(''reservation_id'', ex_hex)]),
     (''attempt_reserved'', JObj [(''attempt_id'', ex_attempt), (''attempt_number'', JNum 1)]),
     (''transaction_prepared'', JObj [(''attempt_id'', ex_attempt), (''transaction_hash'', ex_hash), (''nonce'', JNum 7),
        (''fulfillment_wallet_fingerprint_sha256'', ex_hex), (''gas_limit'', JStr ''21000''),
        (''max_fee_per_gas_wei'', JStr ''100''), (''max_priority_fee_per_gas_wei'', JStr ''2'')]),
     (''broadcast_intent_committed'', ex_intent),
     (''broadcast_not_attempted'', JObj [(''attempt_id'', ex_attempt), (''transaction_hash'', ex_hash),
        (''reason_code'', JStr ''rpc_down''), (''broadcast_call_performed'', JBool False)]),
     (''broadcast_intent_committed'', ex_intent),
     (''broadcast_accepted'', JObj [(''attempt_id'', ex_attempt), (''transaction_hash'', ex_hash),
        (''reason_code'', JStr ''accepted''), (''broadcast_call_performed'', JBool True),
        (''provider_submission_id_sha256'', ex_hex)]),
     (''receipt_confirmed'', JObj [(''attempt_id'', ex_attempt), (''transaction_hash'', ex_hash),
        (''block_number'', JStr ''12''), (''block_hash'', ex_hash), (''confirmations'', JNum 6), (''receipt_status'', JNum 1)]),
     (''closeout_committed'', JObj [(''attempt_id'', ex_attempt), (''transaction_hash'', ex_hash),
        (''closeout_id'', ex_hex), (''inventory_decremented'', JBool True), (''public_request_fulfilled'', JBool True)])]"

definition ex_log :: "nat \<Rightarrow> jsv list" where
  "ex_log n = map (\<lambda>(i, ty, p). ex_event (int i) ty p) (enumerate 0 (take n ex_steps))"

section \<open>Every event of the log is valid\<close>

lemma ex_binding_valid: "validateSagaBindingV1 ex_binding = Inr ex_binding"
  by code_simp

lemma ex_authority_clean: "assertNoSecretMaterialV1 SAGA_AUTHORITY ''event.authority'' 1 = Inr ()"
  by code_simp

lemma ex_saga_id_computed: "computeSagaIdV1 zero_digest ex_binding = Inr ex_saga_id"
  by (simp add: computeSagaIdV1_def ex_binding_valid ex_saga_id_def zero_digest_def)

lemma ex_event_id_computed: "contentId zero_digest EVENT_ID_PREFIX v ''event_id'' = ex_event_id"
  by (simp add: contentId_def ex_event_id_def zero_digest_def)

lemma ex_id_facts:
  "prefix_hex EVENT_ID_PREFIX 64 ex_event_id"
  "canonicalUtc (JStr ''2026-01-01T00:00:00.000Z'') ''event.recorded_at_utc'' = Inr ''2026-01-01T00:00:00.000Z''"
  by code_simp+

text \<open>No text of the log has both a letter v and a dot, so none can hold a raw credential.\<close>

lemma has_raw_credential_chars: "has_raw_credential s \<Longrightarrow> CHR ''v'' \<in> set s \<and> CHR ''.'' \<in> set s"
proof (induction s)
  case (Cons c cs)
  show ?case
  proof (cases "take 10 (c # cs) = ''voidapwc1.''")
    case True
    then have "set ''voidapwc1.'' \<subseteq> set (c # cs)" by (metis set_take_subset)
    then show ?thesis by simp
  qed (use Cons in auto)
qed simp

lemma clean_text:
  "CHR ''v'' \<notin> set s \<Longrightarrow> \<not> has_raw_credential s" "CHR ''.'' \<notin> set s \<Longrightarrow> \<not> has_raw_credential s"
  "slen s < 132 \<Longrightarrow> \<not> raw_transaction_like s"
  using has_raw_credential_chars [of s] by (auto simp: raw_transaction_like_def)

lemma ex_texts_clean:
  "list_all (\<lambda>t. \<not> has_raw_credential t \<and> \<not> raw_transaction_like t)
     ([ex_saga_id, ex_event_id, ex_intent_id, EVENT_SCHEMA, SAGA_MARKER] @ EVENT_TYPES)"
proof -
  have "list_all (\<lambda>t. CHR ''.'' \<notin> set t \<and> slen t < 132)
      ([ex_saga_id, ex_event_id, ex_intent_id, EVENT_SCHEMA, SAGA_MARKER] @ EVENT_TYPES)"
    by code_simp
  then show ?thesis by (rule list.pred_mono_strong) (use clean_text in blast)
qed

lemmas ex_clean = ex_texts_clean [unfolded append.simps list.pred_inject]

definition ex_keys :: "string list" where
  "ex_keys = EVENT_KEYS @ BINDING_KEYS @ [''source_floor_main'', ''policy_id'', ''max_attempts'', ''claim_id'', ''instruction_id'',
     ''reservation_id'', ''attempt_id'', ''attempt_number'', ''transaction_hash'', ''nonce'',
     ''fulfillment_wallet_fingerprint_sha256'', ''gas_limit'', ''max_fee_per_gas_wei'', ''max_priority_fee_per_gas_wei'',
     ''broadcast_intent_id'', ''reason_code'', ''broadcast_call_performed'', ''provider_submission_id_sha256'',
     ''block_number'', ''block_hash'', ''confirmations'', ''receipt_status'', ''closeout_id'', ''inventory_decremented'',
     ''public_request_fulfilled'']"

lemma ex_keys_clean: "list_all (\<lambda>k. normalizeKey k \<notin> set FORBIDDEN_KEYS) ex_keys"
  by code_simp

lemmas ex_key_clean = ex_keys_clean [unfolded ex_keys_def EVENT_KEYS_def BINDING_KEYS_def append.simps list.pred_inject]

lemmas ex_payload_simps = validatePayload_def directObject_def payload_initialized_def payload_claim_def payload_inventory_def
  payload_attempt_def payload_prepared_def payload_intent_def payload_broadcast_def payload_receipt_def payload_closeout_def
  safeInteger_def

text \<open>The checks of single fields of the payloads.\<close>

lemma ex_payload_fields:
  "safeId ex_attempt ''event.payload.attempt_id'' = Inr ''attempt-1''"
  "safeId (JStr ''policy-1'') ''event.payload.policy_id'' = Inr ''policy-1''"
  "safeId (JStr ''claim-1'') ''event.payload.claim_id'' = Inr ''claim-1''"
  "safeId (JStr ''instruction-1'') ''event.payload.instruction_id'' = Inr ''instruction-1''"
  "safeId (JStr ''rpc_down'') ''event.payload.reason_code'' = Inr ''rpc_down''"
  "safeId (JStr ''accepted'') ''event.payload.reason_code'' = Inr ''accepted''"
  "saga_decimal (JStr ''21000'') ''event.payload.gas_limit'' True = Inr ''21000''"
  "saga_decimal (JStr ''100'') ''event.payload.max_fee_per_gas_wei'' True = Inr ''100''"
  "saga_decimal (JStr ''2'') ''event.payload.max_priority_fee_per_gas_wei'' False = Inr ''2''"
  "saga_decimal (JStr ''12'') ''event.payload.block_number'' False = Inr ''12''"
  "\<not> dec_val ''100'' < dec_val ''2''"
  "nonEmptyString (JStr ex_intent_id) ''event.payload.broadcast_intent_id'' 75 =
     Inr ex_intent_id"
  "prefix_hex ''voidbvbci1_'' 64 ex_intent_id"
  "gitSha (JStr (replicate 40 CHR ''e'')) ''event.payload.source_floor_main'' = Inr (replicate 40 CHR ''e'')"
  by code_simp+

lemma ex_hash_field:
  "transactionHash ex_hash ''event.payload.transaction_hash'' = Inr (''0x'' @ replicate 64 CHR ''c'')"
  "transactionHash ex_hash ''event.payload.block_hash'' = Inr (''0x'' @ replicate 64 CHR ''c'')"
  by code_simp+

lemma ex_hex_field:
  "saga_sha256 ex_hex ''event.payload.reservation_id'' = Inr (replicate 64 CHR ''d'')"
  "saga_sha256 ex_hex ''event.payload.fulfillment_wallet_fingerprint_sha256'' = Inr (replicate 64 CHR ''d'')"
  "saga_sha256 ex_hex ''event.payload.provider_submission_id_sha256'' = Inr (replicate 64 CHR ''d'')"
  "saga_sha256 ex_hex ''event.payload.closeout_id'' = Inr (replicate 64 CHR ''d'')"
  by code_simp+

lemma saga_exactKeys_literal: "map fst kvs = ks \<Longrightarrow> saga_exactKeys (JObj kvs) ks l = Inr ()"
  by (simp add: saga_exactKeys_def directObject_def same_keys_def)

lemma ex_constants_clean:
  assumes "d \<le> 24"
  shows "assertNoSecretMaterialV1 ex_attempt path d = Inr ()" "assertNoSecretMaterialV1 ex_hash path d = Inr ()"
    "assertNoSecretMaterialV1 ex_hex path d = Inr ()"
  unfolding ex_attempt_def ex_hash_def ex_hex_def using assms by (simp_all add: clean_text)

lemmas ex_payload_eval = ex_payload_simps saga_exactKeys_literal ex_constants_clean ex_key_clean ex_clean clean_text ex_payload_fields
  ex_hash_field ex_hex_field MAX_SAFE_INTEGER_def

abbreviation ex_step_ok :: "string \<times> jsv \<Rightarrow> bool" where
  "ex_step_ok \<equiv> \<lambda>(ty, p). validatePayload ty p = Inr p \<and> assertNoSecretMaterialV1 p ''event.payload'' 1 = Inr ()"

lemma ex_payload_0: "ex_step_ok (ex_steps ! 0)"
  by (simp add: ex_steps_def ex_payload_eval)

lemma ex_payload_1: "ex_step_ok (ex_steps ! 1)"
  by (simp add: ex_steps_def ex_payload_eval)

lemma ex_payload_2: "ex_step_ok (ex_steps ! 2)"
  by (simp add: ex_steps_def ex_payload_eval)

lemma ex_payload_3: "ex_step_ok (ex_steps ! 3)"
  by (simp add: ex_steps_def ex_payload_eval)

lemma ex_payload_4: "ex_step_ok (ex_steps ! 4)"
  by (simp add: ex_steps_def ex_payload_eval)

lemma ex_payload_intent: "ex_step_ok (''broadcast_intent_committed'', ex_intent)"
  by (simp add: ex_intent_def ex_payload_eval)

lemma ex_payload_6: "ex_step_ok (ex_steps ! 6)"
  by (simp add: ex_steps_def ex_payload_eval)

lemma ex_payload_8: "ex_step_ok (ex_steps ! 8)"
  by (simp add: ex_steps_def ex_payload_eval)

lemma ex_payload_9: "ex_step_ok (ex_steps ! 9)"
  by (simp add: ex_steps_def ex_payload_eval)

lemma ex_payload_10: "ex_step_ok (ex_steps ! 10)"
  by (simp add: ex_steps_def ex_payload_eval)

lemmas ex_payloads = ex_payload_0 ex_payload_1 ex_payload_2 ex_payload_3 ex_payload_4 ex_payload_intent ex_payload_6
  ex_payload_8 ex_payload_9 ex_payload_10

lemma ex_binding_clean: "assertNoSecretMaterialV1 ex_binding ''event.binding'' 1 = Inr ()"
  by (simp add: ex_binding_def ex_key_clean clean_text)

lemma ex_event_get:
  "jget ''schema'' (ex_event n ty p) = JStr EVENT_SCHEMA" "jget ''marker'' (ex_event n ty p) = JStr SAGA_MARKER"
  "jget ''version'' (ex_event n ty p) = JNum 1" "jget ''saga_id'' (ex_event n ty p) = JStr ex_saga_id"
  "jget ''event_id'' (ex_event n ty p) = JStr ex_event_id" "jget ''sequence'' (ex_event n ty p) = JNum n"
  "jget ''previous_event_id'' (ex_event n ty p) = (if n = 0 then JNull else JStr ex_event_id)"
  "jget ''recorded_at_utc'' (ex_event n ty p) = JStr ''2026-01-01T00:00:00.000Z''"
  "jget ''event_type'' (ex_event n ty p) = JStr ty" "jget ''fencing_token'' (ex_event n ty p) = JNum 1"
  "jget ''binding'' (ex_event n ty p) = ex_binding" "jget ''payload'' (ex_event n ty p) = p"
  "jget ''authority'' (ex_event n ty p) = SAGA_AUTHORITY"
  by (simp_all add: ex_event_def event_body_def)

lemma ex_event_valid:
  assumes "ex_step_ok (ty, p)" "ty \<in> set EVENT_TYPES" "0 \<le> n" "n < 64"
  shows "validateSagaEventV1 zero_digest (ex_event n ty p) = Inr (ex_event n ty p)"
proof -
  have ty: "\<not> has_raw_credential ty" "\<not> raw_transaction_like ty"
    using ex_texts_clean assms(2) unfolding list_all_iff set_append by blast+
  let ?e = "ex_event n ty p"
  have keys: "saga_exactKeys ?e EVENT_KEYS ''event'' = Inr ()"
    unfolding ex_event_def event_body_def EVENT_KEYS_def by (rule saga_exactKeys_literal) simp
  have clean: "assertNoSecretMaterialV1 ?e ''event'' 0 = Inr ()"
    using assms(1) ty
    by (simp add: ex_event_def event_body_def ex_key_clean ex_clean ex_binding_clean ex_authority_clean clean_text)
  have "text_or_empty (JStr ex_event_id) = ex_event_id"
    by (simp add: text_or_empty_def ex_event_id_def EVENT_ID_PREFIX_def)
  then show ?thesis
    using assms clean keys
    by (simp add: validateSagaEventV1_def ex_event_get ex_binding_valid ex_saga_id_computed ex_event_id_computed ex_id_facts
        safeInteger_def MAX_SAFE_INTEGER_def MAX_EVENTS_def)
qed

lemma ex_steps_ok: "list_all ex_step_ok ex_steps" "list_all (\<lambda>(ty, p). ty \<in> set EVENT_TYPES) ex_steps"
proof -
  note ok = ex_payloads [unfolded ex_steps_def list.sel nth_Cons_0 nth_Cons_numeral pred_numeral_simps One_nat_def nth_Cons_Suc BitM.simps arith_simps]
  show "list_all ex_step_ok ex_steps"
    unfolding ex_steps_def list.pred_inject using ok by simp
  show "list_all (\<lambda>(ty, p). ty \<in> set EVENT_TYPES) ex_steps"
    by (simp add: ex_steps_def EVENT_TYPES_def)
qed

lemma ex_log_valid: "e \<in> set (ex_log n) \<Longrightarrow> validateSagaEventV1 zero_digest e = Inr e"
proof -
  assume "e \<in> set (ex_log n)"
  then obtain i where i: "i < length ex_steps" "e = ex_event (int i) (fst (ex_steps ! i)) (snd (ex_steps ! i))"
    by (auto simp: ex_log_def in_set_enumerate_eq)
  have "ex_step_ok (ex_steps ! i)" "case ex_steps ! i of (ty, p) \<Rightarrow> ty \<in> set EVENT_TYPES"
    using ex_steps_ok i(1) by (simp_all only: list_all_length)
  moreover have "int i < 64" using i(1) by (simp add: ex_steps_def)
  ultimately show ?thesis unfolding i(2) by (intro ex_event_valid) (simp_all add: case_prod_unfold)
qed

section \<open>The fold accepts the log\<close>

definition ex_time :: int where
  "ex_time = utc_ms ''2026-01-01T00:00:00.000Z''"

lemma ex_time_nonneg: "0 \<le> ex_time"
  by code_simp

lemma fold_ex_event:
  assumes "sg_event_count st = n" "sg_last_event_id st = (if n = 0 then JNull else JStr ex_event_id)"
    "sg_last_fencing_token st \<le> 1" "t \<in> {-1, ex_time}"
  shows "fold_event zero_digest ex_binding (JStr ex_saga_id) (st, t) (ex_event n ty p) =
    bnd (apply_event_type zero_digest n st ty p) (\<lambda>st'. Inr (st' \<lparr> sg_event_count := n + 1,
      sg_last_event_id := JStr ex_event_id, sg_last_sequence := n, sg_last_fencing_token := 1 \<rparr>, ex_time))"
  using assms ex_time_nonneg by (auto simp: fold_event_def ex_event_get same_json_def ex_time_def)

lemma ex_intent_computed:
  "computeBroadcastIntentIdV1 zero_digest (JObj [(''saga_id'', JStr ex_saga_id), (''attempt_id'', ex_attempt),
     (''transaction_hash'', ex_hash)]) = Inr ex_intent_id"
proof -
  have "nonEmptyString (JStr ex_saga_id) ''broadcast_intent_binding.saga_id'' 75 = Inr ex_saga_id" by code_simp
  moreover have "prefix_hex SAGA_ID_PREFIX 64 ex_saga_id" by code_simp
  moreover have "safeId ex_attempt ''broadcast_intent_binding.attempt_id'' = Inr ''attempt-1''" by code_simp
  moreover have "transactionHash ex_hash ''broadcast_intent_binding.transaction_hash'' = Inr (''0x'' @ replicate 64 CHR ''c'')"
    by code_simp
  ultimately show ?thesis
    by (simp add: computeBroadcastIntentIdV1_def saga_exactKeys_literal zero_digest_def ex_intent_id_def)
qed

definition ex_end :: saga_state where
  "ex_end = (initialState ex_binding (JStr ex_saga_id)) \<lparr> sg_state := ''closed'', sg_terminal := True, sg_event_count := 11,
     sg_last_event_id := JStr ex_event_id, sg_last_sequence := 10, sg_last_fencing_token := 1,
     sg_claim_id := JStr ''claim-1'', sg_instruction_id := JStr ''instruction-1'', sg_reservation_id := ex_hex,
     sg_attempt_id := ex_attempt, sg_attempt_number := JNum 1, sg_transaction_hash := ex_hash, sg_nonce := JNum 7,
     sg_broadcast_intent_id := JStr ex_intent_id, sg_broadcast_call_may_have_occurred := True,
     sg_receipt_status := JNum 1, sg_closeout_id := ex_hex \<rparr>"

lemma ex_log_run: "run_log zero_digest ex_binding (JStr ex_saga_id) (ex_log 11) = Inr (ex_end, ex_time)"
  by (simp add: run_log_def ex_log_def ex_steps_def fold_ex_event initialState_def apply_event_type_simps requireState_def
      requireAttemptAndHash_def ex_intent_def ex_intent_computed ex_end_def)

lemma ex_log_fold: "foldSagaEventsV1 zero_digest (ex_log 11) = Inr ex_end"
proof -
  have len: "length (ex_log 11) = 11" and hd: "hd (ex_log 11) = ex_event 0 (fst (hd ex_steps)) (snd (hd ex_steps))"
    by (simp_all add: ex_log_def ex_steps_def)
  have "mapM (validateSagaEventV1 zero_digest) (ex_log 11) = Inr (ex_log 11)"
    using ex_log_valid mapM_validate_iff by blast
  moreover have "deriveSagaNextActionV1 (sg_state ex_end) (sg_terminal ex_end) =
      Inr \<lparr> na_action = None, na_terminal = True, automatic_execution_allowed = False,
        required_confirmation = None, na_reason = Some ''closed'' \<rparr>"
    by (simp add: deriveSagaNextActionV1_def ex_end_def)
  moreover have "ex_end \<lparr> sg_next_action := None \<rparr> = ex_end" by (simp add: ex_end_def initialState_def)
  ultimately show ?thesis
    using ex_log_run len
    by (simp add: foldSagaEventsV1_def run_log_def hd ex_event_get MAX_EVENTS_def)
qed

end
