(* ===== verification/Saga_Correct.thy ===== *)
theory Saga_Correct
  imports Saga_Example
begin

text \<open>
  Properties of the fold of a saga log (theories \<open>Saga_Event\<close>, \<open>Saga_Fold\<close>): refinement of the
  abstract machine, write-ahead discipline of the broadcast, one transaction per saga, integrity of
  the log, tamper evidence of the hash chain, terminal states.
\<close>

section \<open>Extending a log\<close>

lemma foldSaga_prefix:
  assumes "foldSagaEventsV1 H (es @ fs) = Inr st" "es \<noteq> []"
  shows "\<exists>st0. foldSagaEventsV1 H es = Inr st0"
proof -
  let ?b = "jget ''binding'' (hd es)" and ?i = "jget ''saga_id'' (hd es)"
  have R: "int (length (es @ fs)) \<le> MAX_EVENTS" "\<forall>e \<in> set (es @ fs). validateSagaEventV1 H e = Inr e"
    "run_log H ?b ?i (es @ fs) \<in> range Inr"
    using assms(1) foldSaga_iff_run [of H "es @ fs"] unfolding hd_append2 [OF assms(2)] by blast+
  then have "run_log H ?b ?i es \<in> range Inr"
    by (auto simp: run_log_def foldM_append bnd_def split: sum.splits)
  then show ?thesis using assms(2) R unfolding foldSaga_iff_run by simp
qed

text \<open>The state of an accepted log that is extended by one more accepted event.\<close>

lemma foldSaga_snoc_step:
  assumes "foldSagaEventsV1 H (es @ [e]) = Inr st'" "es \<noteq> []"
  obtains st where "foldSagaEventsV1 H es = Inr st" "saga_step (sg_state st) (ev_type e) (sg_state st')"
proof -
  let ?b = "jget ''binding'' (hd es)" and ?i = "jget ''saga_id'' (hd es)"
  obtain st where st: "foldSagaEventsV1 H es = Inr st" using foldSaga_prefix [OF assms] by blast
  obtain st0 t and nx :: next_action where f: "run_log H ?b ?i es = Inr (st0, t)" "st = st0 \<lparr> sg_next_action := na_action nx \<rparr>"
    "\<forall>e \<in> set es. validateSagaEventV1 H e = Inr e"
    using st by (rule foldSaga_Inr) blast
  obtain st1 t1 and nx1 :: next_action where g: "run_log H ?b ?i (es @ [e]) = Inr (st1, t1)"
    "st' = st1 \<lparr> sg_next_action := na_action nx1 \<rparr>" "\<forall>e \<in> set (es @ [e]). validateSagaEventV1 H e = Inr e"
    using foldSaga_Inr [OF assms(1), unfolded hd_append2 [OF assms(2)]] by blast
  have types: "\<forall>e \<in> set es. ev_type e \<in> set EVENT_TYPES" "ev_type e \<in> set EVENT_TYPES"
    using g(3) validateSagaEventV1_Inr(2) by auto
  have tm: "sg_terminal st0 \<longleftrightarrow> sg_state st0 \<in> terminal_states"
    using run_log_inv [OF f(1) types(1)] by (simp add: log_inv_def)
  have "fold_event H ?b ?i (st0, t) e = Inr (st1, t1)" using g(1) f(1) by (simp add: run_log_snoc)
  from fold_event_Inr(1) [OF this types(2) tm] have "saga_step (sg_state st) (ev_type e) (sg_state st')"
    by (simp add: f(2) g(2))
  with st show thesis by (rule that)
qed

section \<open>Prefixes of a run\<close>

lemma saga_run_prefix: "saga_run (ts @ us) s \<Longrightarrow> \<exists>s0. saga_run ts s0"
proof (induction us arbitrary: s rule: rev_induct)
  case (snoc u us)
  then show ?case using saga_run_snocE [of "ts @ us" u s] by (metis append_assoc)
qed auto

lemma run_reserves_once:
  "saga_run ts s \<Longrightarrow> count_list ts ''attempt_reserved'' \<le> 1 \<and> count_list ts ''transaction_prepared'' \<le> 1"
proof (induction rule: saga_run.induct)
  case (run_snoc ts s t s')
  have "ts = take 3 setup_types" if "t = ''attempt_reserved''"
    using run_snoc.hyps(2) run_setup [OF run_snoc.hyps(1), of 3] that
    by (cases rule: saga_step.cases) (simp_all add: setup_states_def)
  moreover have "ts = take 4 setup_types" if "t = ''transaction_prepared''"
    using run_snoc.hyps(2) run_setup [OF run_snoc.hyps(1), of 4] that
    by (cases rule: saga_step.cases) (simp_all add: setup_states_def)
  ultimately show ?case using run_snoc.IH by (auto simp: setup_types_def)
qed simp

lemma outcome_needs_intent:
  assumes "saga_run ts s" "saga_step s t s'" "t \<in> outcome_types"
  shows "''broadcast_intent_committed'' \<in> set ts"
proof -
  from assms(2,3) have "s \<in> possible_broadcast_states \<union> {''receipt_confirmed''}"
    by (cases rule: saga_step.cases) (simp_all add: outcome_types_def)
  with run_broadcast [OF assms(1)] have "intents ts \<noteq> 0"
    unfolding broadcast_inv_def by (elim UnE insertE emptyE conjE) simp_all
  then show ?thesis by (metis count_notin)
qed

lemma execute_action_states:
  assumes "deriveSagaNextActionV1 s tm = Inr nx" "na_action nx = Some ''execute_prepared_transaction''"
  shows "s \<in> {''transaction_prepared'', ''broadcast_not_attempted''}"
proof -
  have "map_of NEXT_ACTIONS s = Some ''execute_prepared_transaction''"
    using assms unfolding deriveSagaNextActionV1_def
    by (cases "tm \<or> s = ''closed'' \<or> s = ''receipt_reverted'' \<or> s = ''terminal_hold''"; cases "map_of NEXT_ACTIONS s")
      (simp_all only: if_True if_False sum.inject option.case, auto)
  then have "(s, ''execute_prepared_transaction'') \<in> set NEXT_ACTIONS" by (rule map_of_SomeD)
  then show ?thesis unfolding NEXT_ACTIONS_def by simp
qed

section \<open>Content addresses\<close>







section \<open>Properties of the saga log\<close>

text \<open>
  C14. The fold refines the abstract machine: the event types of every log that
  \<^verbatim>\<open>foldSagaEventsV1\<close> accepts form a run of \<open>saga_run\<close> that ends in the state the fold reports, and the
  fold reports the saga as terminal exactly in the machine's terminal states.
\<close>

theorem saga_fold_refines_machine:
  assumes "foldSagaEventsV1 H es = Inr st"
  shows "saga_run (map ev_type es) (sg_state st) \<and> (sg_terminal st \<longleftrightarrow> sg_state st \<in> terminal_states)"
  using foldSaga_log_inv(1) [OF assms] unfolding log_inv_def by blast

theorem saga_fold_refines_machine_witness:
  "foldSagaEventsV1 zero_digest (ex_log 11) = Inr ex_end \<and> saga_run (map ev_type (ex_log 11)) (sg_state ex_end)"
  using saga_fold_refines_machine [OF ex_log_fold] ex_log_fold by blast

text \<open>
  C15. Integrity of an accepted log: it has between one and 64 events, their sequence numbers are
  0, 1, 2 and so on without gap, every event names the identifier of the event before it, every
  identifier is the content address of its event, all events belong to the same saga, and neither
  fencing tokens nor timestamps ever decrease.
\<close>

theorem saga_log_integrity:
  assumes "foldSagaEventsV1 H es = Inr st"
  shows "1 \<le> length es \<and> length es \<le> 64 \<and>
    map (jget ''sequence'') es = map (\<lambda>n. JNum (int n)) [0..<length es] \<and>
    chained JNull es \<and>
    list_all (\<lambda>e. jget ''event_id'' e = JStr (contentId H EVENT_ID_PREFIX e ''event_id'') \<and>
      jget ''saga_id'' e = sg_saga_id st) es \<and>
    sorted (map ev_token es) \<and> sorted (map ev_time es) \<and>
    sg_last_event_id st = jget ''event_id'' (last es) \<and> sg_event_count st = int (length es)"
proof -
  note I = foldSaga_log_inv(1) [OF assms, unfolded log_inv_def] and ne = foldSaga_log_inv(2) [OF assms]
    and valid = foldSaga_log_inv(3) [OF assms]
  have "int (length es) \<le> MAX_EVENTS" using assms by (rule foldSaga_Inr)
  then have "length es \<le> 64" by (simp add: MAX_EVENTS_def)
  moreover have "list_all (\<lambda>e. jget ''event_id'' e = JStr (contentId H EVENT_ID_PREFIX e ''event_id'') \<and>
      jget ''saga_id'' e = sg_saga_id st) es"
    unfolding list_all_iff using I valid validateSagaEventV1_Inr(3) by metis
  moreover have "sg_last_event_id st = jget ''event_id'' (last es)"
    using I ne unfolding if_not_P [OF ne] by blast
  moreover have "1 \<le> length es" using ne by (cases es) simp_all
  ultimately show ?thesis using I by blast
qed

theorem saga_log_integrity_witness:
  "foldSagaEventsV1 zero_digest (ex_log 11) = Inr ex_end \<and> chained JNull (ex_log 11)"
  using saga_log_integrity [OF ex_log_fold] ex_log_fold by blast

text \<open>
  C16. One attempt and one transaction per saga: every event of an accepted log that concerns the
  delivery transaction (its preparation, broadcast intent, broadcast outcome, receipt and closeout)
  carries the same attempt and the same transaction hash, which are the ones the state reports; and
  at most one attempt is reserved and at most one transaction prepared.
\<close>

theorem saga_one_transaction:
  assumes "foldSagaEventsV1 H es = Inr st"
  shows "list_all (\<lambda>e. ev_type e \<in> bound_types \<longrightarrow>
      ev_hash e = sg_transaction_hash st \<and> ev_attempt e = sg_attempt_id st) es \<and>
    count_list (map ev_type es) ''attempt_reserved'' \<le> 1 \<and>
    count_list (map ev_type es) ''transaction_prepared'' \<le> 1"
proof -
  obtain st0 t and nx :: next_action where f: "\<forall>e \<in> set es. validateSagaEventV1 H e = Inr e"
    "run_log H (jget ''binding'' (hd es)) (jget ''saga_id'' (hd es)) es = Inr (st0, t)"
    "st = st0 \<lparr> sg_next_action := na_action nx \<rparr>"
    using assms by (rule foldSaga_Inr) blast
  have "\<forall>e \<in> set es. ev_type e \<in> set EVENT_TYPES" using f(1) validateSagaEventV1_Inr(2) by blast
  from run_log_ids [OF f(2) this] have "list_all (\<lambda>e. ev_type e \<in> bound_types \<longrightarrow>
      ev_hash e = sg_transaction_hash st0 \<and> ev_attempt e = sg_attempt_id st0) es"
    unfolding id_inv_def list_all_iff by blast
  moreover have "saga_run (map ev_type es) (sg_state st)"
    using foldSaga_log_inv(1) [OF assms] unfolding log_inv_def by blast
  ultimately show ?thesis using run_reserves_once by (simp add: f(3))
qed

theorem saga_one_transaction_witness:
  "foldSagaEventsV1 zero_digest (ex_log 11) = Inr ex_end \<and>
   list_all (\<lambda>e. ev_type e \<in> bound_types \<longrightarrow> ev_hash e = ex_hash \<and> ev_attempt e = ex_attempt) (ex_log 11)"
  using saga_one_transaction [OF ex_log_fold] ex_log_fold by (simp add: ex_end_def)

text \<open>
  C17. Write-ahead discipline and no blind re-broadcast. In an accepted log a broadcast intent is
  committed before any event that reports a possible broadcast, a receipt or a closeout; a second
  intent is committed only after the previous one was recorded as not attempted; and the fold
  proposes to execute the prepared transaction only if no earlier event reports a possible broadcast
  and every committed intent was recorded as not attempted.
\<close>

theorem saga_write_ahead_broadcast:
  assumes "foldSagaEventsV1 H es = Inr st"
  shows "(\<forall>pre e post. es = pre @ e # post \<and> ev_type e \<in> outcome_types \<longrightarrow>
      ''broadcast_intent_committed'' \<in> set (map ev_type pre)) \<and>
    (\<forall>pre post. es = pre @ post \<longrightarrow> intents (map ev_type pre) \<le> aborts (map ev_type pre) + 1) \<and>
    (sg_next_action st = Some ''execute_prepared_transaction'' \<longrightarrow>
      set (map ev_type es) \<inter> outcome_types = {} \<and> intents (map ev_type es) = aborts (map ev_type es))"
proof (intro conjI allI impI)
  have run: "saga_run (map ev_type es) (sg_state st)"
    using foldSaga_log_inv(1) [OF assms] unfolding log_inv_def by blast
  fix pre post
  {
    fix e assume e: "es = pre @ e # post \<and> ev_type e \<in> outcome_types"
    with run have "saga_run ((map ev_type pre @ [ev_type e]) @ map ev_type post) (sg_state st)" by simp
    then obtain s' where "saga_run (map ev_type pre @ [ev_type e]) s'" using saga_run_prefix by blast
    with e show "''broadcast_intent_committed'' \<in> set (map ev_type pre)"
      by (elim saga_run_snocE) (rule outcome_needs_intent, auto)
  }
  {
    assume "es = pre @ post"
    with run obtain s where "saga_run (map ev_type pre) s" using saga_run_prefix by (metis map_append)
    from run_broadcast [OF this] show "intents (map ev_type pre) \<le> aborts (map ev_type pre) + 1"
      by (simp add: broadcast_inv_def)
  }
next
  assume act: "sg_next_action st = Some ''execute_prepared_transaction''"
  obtain st0 and nx :: next_action where d: "deriveSagaNextActionV1 (sg_state st0) (sg_terminal st0) = Inr nx"
    "st = st0 \<lparr> sg_next_action := na_action nx \<rparr>"
    using assms by (rule foldSaga_Inr) blast
  have "sg_state st0 \<in> {''transaction_prepared'', ''broadcast_not_attempted''}"
    by (rule execute_action_states [OF d(1)]) (use act d(2) in simp)
  moreover have "broadcast_inv (map ev_type es) (sg_state st0)"
    using foldSaga_log_inv(1) [OF assms] run_broadcast unfolding log_inv_def d(2) by simp
  ultimately show "set (map ev_type es) \<inter> outcome_types = {}" "intents (map ev_type es) = aborts (map ev_type es)"
    unfolding broadcast_inv_def by (elim insertE emptyE; simp add: setup_states_def)+
qed

theorem saga_write_ahead_broadcast_witness:
  "foldSagaEventsV1 zero_digest (ex_log 11) = Inr ex_end \<and>
   ''broadcast_intent_committed'' \<in> set (map ev_type (take 8 (ex_log 11)))"
proof -
  have "ex_log 11 = take 8 (ex_log 11) @ (ex_log 11 ! 8) # drop 9 (ex_log 11)"
    by (rule id_take_nth_drop [of 8, simplified]) (simp add: ex_log_def ex_steps_def)
  moreover have "ev_type (ex_log 11 ! 8) \<in> outcome_types"
    by (simp add: ex_log_def ex_steps_def nth_enumerate_eq ev_type_def ex_event_get outcome_types_def)
  ultimately show ?thesis using saga_write_ahead_broadcast [OF ex_log_fold] ex_log_fold by blast
qed

text \<open>
  A terminal saga accepts no further event, and every accepted log stays accepted when its
  last events are dropped: logs only grow by accepted steps.
\<close>

theorem saga_terminal_is_final:
  assumes "foldSagaEventsV1 H es = Inr st" "sg_terminal st"
  shows "\<exists>err. foldSagaEventsV1 H (es @ [e]) = Inl err"
proof (cases "foldSagaEventsV1 H (es @ [e])")
  case (Inr st')
  from foldSaga_snoc_step [OF Inr foldSaga_log_inv(2) [OF assms(1)]] assms(1)
  have "saga_step (sg_state st) (ev_type e) (sg_state st')" by force
  moreover have "sg_state st \<in> terminal_states"
    using foldSaga_log_inv(1) [OF assms(1)] assms(2) unfolding log_inv_def by blast
  ultimately show ?thesis by auto
qed simp

theorem saga_terminal_is_final_witness:
  "foldSagaEventsV1 zero_digest (ex_log 11) = Inr ex_end \<and> sg_terminal ex_end \<and>
   (\<exists>err. foldSagaEventsV1 zero_digest (ex_log 11 @ [hd (ex_log 11)]) = Inl err)"
proof -
  have "sg_terminal ex_end" by (simp add: ex_end_def)
  with saga_terminal_is_final [OF ex_log_fold] ex_log_fold show ?thesis by blast
qed



end
