(* ===== verification/Saga_Store_Correct.thy ===== *)
theory Saga_Store_Correct
  imports Saga_Directory Saga_Correct
begin

text \<open>
  What the filesystem store guarantees: an append that succeeds extends the log by its event, no
  event is written without the current lease, a new lease fences off the old holder, and the log
  only grows. The events are written before the log is folded, so an event that is valid by itself
  but not a legal next step is persisted and the saga can never be read again.
\<close>

section \<open>Operations\<close>

lemma sbind_eq:
  "sbind m f s = (r, s') \<longleftrightarrow>
     (\<exists>e. m s = (Inl e, s') \<and> r = Inl e) \<or> (\<exists>x s1. m s = (Inr x, s1) \<and> f x s1 = (r, s'))"
  by (auto simp: sbind_def split: prod.splits sum.splits)

lemma sbind_step: "m s = (Inr x, s1) \<Longrightarrow> sbind m f s = f x s1" "m s = (Inl e, s1) \<Longrightarrow> sbind m f s = (Inl e, s1)"
  by (simp_all add: sbind_def)

lemma sbind_slift [simp]: "sbind (slift (Inr x)) f = f x"
  by (simp add: sbind_def slift_def)

lemma slift_eq: "slift x s = (r, s') \<longleftrightarrow> x = r \<and> s' = s"
  by (auto simp: slift_def)

lemma sread_eq: "sread f s = (r, s') \<longleftrightarrow> f s = r \<and> s' = s"
  by (auto simp: sread_def)

lemma update_dir_eq:
  "update_dir i f s = (r, s') \<longleftrightarrow> r = Inr () \<and> s' = s \<lparr> ss_sagas := (ss_sagas s)(i := f (ss_sagas s i)) \<rparr>"
  by (auto simp: update_dir_def)

lemmas sop_eq = sbind_eq slift_eq sread_eq update_dir_eq

text \<open>Two stores with the same event files and leases; they differ at most in directories created.\<close>

definition same_files :: "saga_store \<Rightarrow> saga_store \<Rightarrow> bool" where
  "same_files s s' \<longleftrightarrow> ss_uid s' = ss_uid s \<and>
     (\<forall>j. sd_events (ss_sagas s' j) = sd_events (ss_sagas s j) \<and> sd_lease (ss_sagas s' j) = sd_lease (ss_sagas s j))"

lemma same_files_refl [simp]: "same_files s s"
  by (simp add: same_files_def)

lemma same_files_trans: "same_files s s1 \<Longrightarrow> same_files s1 s2 \<Longrightarrow> same_files s s2"
  by (simp add: same_files_def)

lemma same_filesD:
  "same_files s s' \<Longrightarrow> sd_events (ss_sagas s' j) = sd_events (ss_sagas s j)"
  "same_files s s' \<Longrightarrow> sd_lease (ss_sagas s' j) = sd_lease (ss_sagas s j)"
  by (simp_all add: same_files_def)

definition located :: "saga_store \<Rightarrow> string \<Rightarrow> bool" where
  "located s i \<longleftrightarrow>
     (\<exists>m. sd_meta (ss_sagas s i) = Some m \<and> ensurePrivateDirectory (ss_uid s) (Some m) = Inr m) \<and>
     (\<exists>m. sd_events_meta (ss_sagas s i) = Some m \<and> ensurePrivateDirectory (ss_uid s) (Some m) = Inr m)"

lemma ensurePrivateDirectory_again:
  "ensurePrivateDirectory uid d = Inr m \<Longrightarrow> ensurePrivateDirectory uid (Some m) = Inr m"
  by (cases d) (auto simp: ensurePrivateDirectory_def Let_def split: if_splits)

lemma locations_eq:
  assumes "locations v s = (r, s')"
  shows "same_files s s'" "r = Inr i \<Longrightarrow> v = JStr i \<and> prefix_hex SAGA_ID_PREFIX 64 i \<and> located s' i"
proof -
  show "same_files s s'"
    using assms unfolding locations_def Let_def same_files_def
    by (auto simp: sop_eq split: if_splits)
  assume "r = Inr i"
  with assms have "v = JStr i \<and> prefix_hex SAGA_ID_PREFIX 64 i" and "located s' i"
    unfolding locations_def Let_def located_def
    by (auto simp: sop_eq is_str_iff text_or_empty_def split: if_splits dest: ensurePrivateDirectory_again)
  then show "v = JStr i \<and> prefix_hex SAGA_ID_PREFIX 64 i \<and> located s' i" by simp
qed

lemma locations_again:
  assumes "located s i" "prefix_hex SAGA_ID_PREFIX 64 i"
  shows "locations (JStr i) s = (Inr i, s)"
proof -
  have "i \<noteq> []" using assms(2) by (auto simp: prefix_hex_def SAGA_ID_PREFIX_def)
  with assms show ?thesis
    by (auto simp: locations_def text_or_empty_def located_def sop_eq fun_upd_idem)
qed

lemma recover_located:
  assumes "located s i" "prefix_hex SAGA_ID_PREFIX 64 i"
  shows "recover H (JStr i) s = (recover_dir H (sd_events (ss_sagas s i)), s)"
  by (simp add: recover_def sbind_def sread_def locations_again [OF assms])

lemma recover_same_files: "recover H v s = (r, s') \<Longrightarrow> same_files s s'"
  unfolding recover_def by (auto simp: sop_eq dest: locations_eq(1))

section \<open>Leases\<close>

text \<open>A lease file that holds a valid lease.\<close>

definition lease_of :: "saga_store \<Rightarrow> string \<Rightarrow> jsv res" where
  "lease_of s i = fst (read_lease i s)"

lemma read_lease_eq: "read_lease i s = (r, s') \<longleftrightarrow> lease_of s i = r \<and> s' = s"
  by (auto simp: lease_of_def read_lease_def sread_def)

lemma lease_of_same_files: "same_files s s' \<Longrightarrow> lease_of s' i = lease_of s i"
  by (simp add: lease_of_def read_lease_def sread_def same_filesD)

definition holds_lease :: "saga_store \<Rightarrow> string \<Rightarrow> jsv \<Rightarrow> jsv \<Rightarrow> int \<Rightarrow> bool" where
  "holds_lease s i owner_id fencing_token now_ms \<longleftrightarrow>
     (\<exists>lease. lease_of s i = Inr lease \<and> lease \<noteq> JNull \<and> jget ''owner_id'' lease = owner_id \<and>
       jget ''fencing_token'' lease = fencing_token \<and> lease_active lease now_ms)"

lemma requireCurrentLease_eq:
  "requireCurrentLease i owner_id fencing_token now_ms s = (r, s') \<longleftrightarrow>
     s' = s \<and> fst (requireCurrentLease i owner_id fencing_token now_ms s) = r"
  "fst (requireCurrentLease i owner_id fencing_token now_ms s) = Inr u \<longleftrightarrow> holds_lease s i owner_id fencing_token now_ms"
  by (auto simp: requireCurrentLease_def sbind_def slift_def holds_lease_def lease_of_def read_lease_def sread_def
      lease_active_def split: sum.splits prod.splits)

lemma holds_lease_same_files: "same_files s s' \<Longrightarrow> holds_lease s' i o' t n = holds_lease s i o' t n"
  by (simp add: holds_lease_def lease_of_same_files)

section \<open>Appending\<close>

text \<open>
  The written case of an append: the event is valid, its saga's lease is held, the recovered head
  is the one the event names, and the result is the recovery of the extended directory.
\<close>

definition appended :: "(string \<Rightarrow> string) \<Rightarrow> jsv \<Rightarrow> jsv \<Rightarrow> jsv \<Rightarrow> int \<Rightarrow> saga_store \<Rightarrow> jsv res \<Rightarrow> saga_store \<Rightarrow> bool" where
  "appended H e owner_id fencing_token now_ms s r s' \<longleftrightarrow>
     (\<exists>i current. jget ''saga_id'' e = JStr i \<and> validateSagaEventV1 H e = Inr e \<and>
        holds_lease s i owner_id fencing_token now_ms \<and> jget ''fencing_token'' e = fencing_token \<and>
        recover_dir H (sd_events (ss_sagas s i)) = Inr current \<and> requireHead current e = Inr () \<and>
        event_filename e \<notin> set (map fst (sd_events (ss_sagas s i))) \<and>
        ss_uid s' = ss_uid s \<and> (\<forall>j. sd_lease (ss_sagas s' j) = sd_lease (ss_sagas s j)) \<and>
        sd_events (ss_sagas s' i) = sd_events (ss_sagas s i) @ [(event_filename e, atomicWriteJson e)] \<and>
        (\<forall>j. j \<noteq> i \<longrightarrow> sd_events (ss_sagas s' j) = sd_events (ss_sagas s j)) \<and>
        r = recover_dir H (sd_events (ss_sagas s' i)))"

lemma write_event_fresh:
  assumes "located s i" "prefix_hex SAGA_ID_PREFIX 64 i" "jget ''saga_id'' e = JStr i"
    and "event_filename e \<notin> set (map fst (sd_events (ss_sagas s i)))"
    and "s' = s \<lparr> ss_sagas := (ss_sagas s)(i := (ss_sagas s i) \<lparr> sd_events :=
       sd_events (ss_sagas s i) @ [(event_filename e, atomicWriteJson e)] \<rparr>) \<rparr>"
  shows "write_event H i e s = (recover_dir H (sd_events (ss_sagas s' i)), s')"
proof -
  have "located s' i" using assms(1,5) by (simp add: located_def)
  then have "recover H (JStr i) s' = (recover_dir H (sd_events (ss_sagas s' i)), s')"
    using assms(2) by (rule recover_located)
  then show ?thesis using assms(3-5) by (simp add: write_event_def sbind_def sread_def update_dir_def)
qed

lemma write_event_eq:
  assumes "write_event H i e s = (r, s')" "located s i" "prefix_hex SAGA_ID_PREFIX 64 i" "jget ''saga_id'' e = JStr i"
  shows "(same_files s s' \<and> isl r) \<or>
    (event_filename e \<notin> set (map fst (sd_events (ss_sagas s i))) \<and>
     s' = s \<lparr> ss_sagas := (ss_sagas s)(i := (ss_sagas s i) \<lparr> sd_events :=
       sd_events (ss_sagas s i) @ [(event_filename e, atomicWriteJson e)] \<rparr>) \<rparr> \<and>
     r = recover_dir H (sd_events (ss_sagas s' i)))"
proof (cases "event_filename e \<in> set (map fst (sd_events (ss_sagas s i)))")
  case True
  then show ?thesis using assms(1) by (auto simp: write_event_def sop_eq)
next
  case False
  with write_event_fresh [OF assms(2-4) False refl] assms(1) show ?thesis by auto
qed

lemma appended_same_files:
  "same_files s s1 \<Longrightarrow> appended H e owner_id fencing_token now_ms s1 r s' \<Longrightarrow> appended H e owner_id fencing_token now_ms s r s'"
  by (simp add: appended_def holds_lease_same_files same_filesD) (simp add: same_files_def)

lemma append_tail:
  assumes "same_files s s1" "located s1 i" "prefix_hex SAGA_ID_PREFIX 64 i" "jget ''saga_id'' e = JStr i"
    and "validateSagaEventV1 H e = Inr e" "holds_lease s1 i owner_id fencing_token now_ms"
    and "jget ''fencing_token'' e = fencing_token" "recover_dir H (sd_events (ss_sagas s1 i)) = Inr current"
    and "requireHead current e = Inr ()" "write_event H i e s1 = (r, s')"
  shows "(same_files s s' \<and> isl r) \<or> appended H e owner_id fencing_token now_ms s r s'"
  using write_event_eq [OF assms(10,2-4)]
proof (elim disjE conjE)
  assume "same_files s1 s'" "isl r"
  with assms(1) same_files_trans show ?thesis by blast
next
  assume w: "event_filename e \<notin> set (map fst (sd_events (ss_sagas s1 i)))"
    "s' = s1 \<lparr> ss_sagas := (ss_sagas s1)(i := (ss_sagas s1 i) \<lparr> sd_events :=
       sd_events (ss_sagas s1 i) @ [(event_filename e, atomicWriteJson e)] \<rparr>) \<rparr>"
    "r = recover_dir H (sd_events (ss_sagas s' i))"
  have files: "sd_events (ss_sagas s1 j) = sd_events (ss_sagas s j)" "sd_lease (ss_sagas s1 j) = sd_lease (ss_sagas s j)"
    "ss_uid s1 = ss_uid s" for j
    using assms(1) by (simp_all add: same_files_def)
  have "holds_lease s i owner_id fencing_token now_ms" using assms(6) holds_lease_same_files [OF assms(1)] by blast
  with assms(4,5,7-9) w files show ?thesis unfolding appended_def by (intro disjI2 exI [of _ i] exI [of _ current]) auto
qed

lemma recover_Inr:
  assumes "recover H v s = (Inr c, s')" "v = JStr i"
  shows "same_files s s' \<and> located s' i \<and> prefix_hex SAGA_ID_PREFIX 64 i \<and> recover_dir H (sd_events (ss_sagas s i)) = Inr c"
proof -
  obtain i' where i': "locations v s = (Inr i', s')" "recover_dir H (sd_events (ss_sagas s' i')) = Inr c"
    using assms(1) unfolding recover_def by (auto simp: sop_eq)
  with locations_eq(1) [OF i'(1)] locations_eq(2) [OF i'(1), of i'] assms(2) show ?thesis
    by (simp add: same_filesD)
qed

text \<open>The check of the lease and of the head, and then the write: the part both forms of the append share.\<close>

lemma append_guards:
  assumes "sbind (requireCurrentLease i owner_id fencing_token now_ms) (\<lambda>_.
       sbind (recover H (jget ''saga_id'' e)) (\<lambda>current. sbind (slift (requireHead current e)) (\<lambda>_. k))) s = (r, s')"
    and "jget ''saga_id'' e = JStr i"
  shows "(same_files s s' \<and> isl r) \<or>
    (\<exists>current s1. same_files s s1 \<and> located s1 i \<and> prefix_hex SAGA_ID_PREFIX 64 i \<and>
       holds_lease s1 i owner_id fencing_token now_ms \<and>
       recover_dir H (sd_events (ss_sagas s1 i)) = Inr current \<and> requireHead current e = Inr () \<and> k s1 = (r, s'))"
  using assms
  by (auto simp: sop_eq requireCurrentLease_eq dest: recover_same_files dest!: recover_Inr)
    (metis holds_lease_same_files same_filesD(1))+

lemma append_writes:
  assumes "sbind (requireCurrentLease i owner_id fencing_token now_ms) (\<lambda>_.
       sbind (recover H (jget ''saga_id'' e)) (\<lambda>current. sbind (slift (requireHead current e)) (\<lambda>_. write_event H i e))) s = (r, s')"
    and "jget ''saga_id'' e = JStr i" "validateSagaEventV1 H e = Inr e" "jget ''fencing_token'' e = fencing_token"
  shows "(same_files s s' \<and> isl r) \<or> appended H e owner_id fencing_token now_ms s r s'"
  using append_guards [OF assms(1,2)] append_tail [OF _ _ _ assms(2,3) _ assms(4)] by blast

lemma appendEvent_cases:
  assumes "appendEvent H lock e owner_id fencing_token now_ms s = (r, s')"
  shows "(same_files s s' \<and> isl r) \<or> appended H e owner_id fencing_token now_ms s r s'"
proof (cases "validateSagaEventV1 H e")
  case (Inl err)
  with assms show ?thesis by (auto simp: appendEvent_def sop_eq)
next
  case (Inr e')
  then have v: "validateSagaEventV1 H e = Inr e" using validateSagaEventV1_Inr(1) by blast
  obtain r1 s1 where loc: "locations (jget ''saga_id'' e) s = (r1, s1)" by force
  note same = locations_eq(1) [OF loc]
  show ?thesis
  proof (cases "\<exists>i. r1 = Inr i \<and> lock = None \<and> jget ''fencing_token'' e = fencing_token")
    case False
    with assms loc v same show ?thesis
      by (cases r1; cases lock) (auto simp: appendEvent_def sop_eq withExclusiveLock_def requireCurrentLease_eq)
  next
    case True
    then obtain i where i: "r1 = Inr i" "lock = None" "jget ''fencing_token'' e = fencing_token" by blast
    note at = locations_eq(2) [OF loc i(1)]
    have "sbind (requireCurrentLease i owner_id fencing_token now_ms) (\<lambda>_.
       sbind (recover H (jget ''saga_id'' e)) (\<lambda>current.
       sbind (slift (requireHead current e)) (\<lambda>_. write_event H i e))) s1 = (r, s')"
      using assms loc unfolding appendEvent_def withExclusiveLock_def v i(1) by (simp add: sbind_step(1) i(2,3))
    from append_writes [OF this] at v i(3) have "(same_files s1 s' \<and> isl r) \<or> appended H e owner_id fencing_token now_ms s1 r s'"
      by blast
    with same show ?thesis using same_files_trans appended_same_files by blast
  qed
qed

text \<open>
  The awaited admission may change the store; what it leaves is checked again before the write.
\<close>

lemma appendEventWithAdmission_cases:
  assumes "appendEventWithAdmission H lock e owner_id fencing_token now_ms admission s = (r, s')"
  shows "(same_files s s' \<and> isl r) \<or>
    (\<exists>admit s1 r2 s2. admission = Some admit \<and> same_files s s1 \<and> admit s1 = (r2, s2) \<and>
       ((same_files s2 s' \<and> isl r) \<or> (r2 = Inr (JBool True) \<and> appended H e owner_id fencing_token now_ms s2 r s')))"
proof (cases "validateSagaEventV1 H e")
  case (Inl err)
  with assms show ?thesis by (auto simp: appendEventWithAdmission_def sop_eq)
next
  case (Inr e')
  then have v: "validateSagaEventV1 H e = Inr e" using validateSagaEventV1_Inr(1) by blast
  obtain r1 s1 where loc: "locations (jget ''saga_id'' e) s = (r1, s1)" by force
  note same = locations_eq(1) [OF loc]
  show ?thesis
  proof (cases "\<exists>i admit. r1 = Inr i \<and> lock = None \<and> jget ''fencing_token'' e = fencing_token \<and> admission = Some admit")
    case False
    with assms loc v same show ?thesis
      by (cases r1; cases lock; cases admission)
        (auto simp: appendEventWithAdmission_def sop_eq withExclusiveLock_def requireCurrentLease_eq)
  next
    case True
    then obtain i admit where i: "r1 = Inr i" "lock = None" "jget ''fencing_token'' e = fencing_token" "admission = Some admit"
      by blast
    note at = locations_eq(2) [OF loc i(1)]
    let ?second = "sbind (requireCurrentLease i owner_id fencing_token now_ms) (\<lambda>_.
       sbind (recover H (jget ''saga_id'' e)) (\<lambda>current.
       sbind (slift (requireHead current e)) (\<lambda>_. write_event H i e)))"
    let ?k = "sbind admit (\<lambda>admitted. if admitted \<noteq> JBool True then slift (Inl ''append_admission_refused'') else ?second)"
    have "sbind (requireCurrentLease i owner_id fencing_token now_ms) (\<lambda>_.
       sbind (recover H (jget ''saga_id'' e)) (\<lambda>current.
       sbind (slift (requireHead current e)) (\<lambda>_. ?k))) s1 = (r, s')"
      using assms loc unfolding appendEventWithAdmission_def withExclusiveLock_def v i(1)
      by (simp add: sbind_step(1) i(2-4))
    from append_guards [OF this] at consider "same_files s1 s'" "isl r"
      | s2 where "same_files s1 s2" "?k s2 = (r, s')" by blast
    then show ?thesis
    proof cases
      case 1
      with same same_files_trans show ?thesis by blast
    next
      case 2
      obtain r3 s3 where a: "admit s2 = (r3, s3)" by force
      have "same_files s s2" using same 2(1) by (rule same_files_trans)
      moreover have "(same_files s3 s' \<and> isl r) \<or> (r3 = Inr (JBool True) \<and> appended H e owner_id fencing_token now_ms s3 r s')"
      proof (cases "r3 = Inr (JBool True)")
        case True
        with 2(2) a have "?second s3 = (r, s')" by (simp add: sbind_step(1))
        from append_writes [OF this] at v i(3) True show ?thesis by blast
      next
        case False
        with 2(2) a show ?thesis by (cases r3) (auto simp: sop_eq split: if_splits)
      qed
      ultimately show ?thesis using i(4) a by blast
    qed
  qed
qed

section \<open>The log in the store\<close>

definition saga_log :: "(string \<Rightarrow> string) \<Rightarrow> saga_store \<Rightarrow> string \<Rightarrow> jsv list res" where
  "saga_log H s i = dir_events H (sd_events (ss_sagas s i))"

lemma saga_log_same_files: "same_files s s' \<Longrightarrow> saga_log H s' i = saga_log H s i"
  by (simp add: saga_log_def same_filesD)

lemma validateSagaRecordV1_Inr: "validateSagaRecordV1 H v = Inr w \<Longrightarrow> w = v"
  unfolding validateSagaRecordV1_def by (auto simp: js_simps split: if_splits)

lemma buildSagaRecordV1_Inr:
  assumes "buildSagaRecordV1 H es = Inr r"
  shows "\<exists>st. foldSagaEventsV1 H es = Inr st \<and> r = record_body st es"
  using assms unfolding buildSagaRecordV1_def
  by (auto simp: js_simps mapM_validate_iff dest: validateSagaRecordV1_Inr)

lemma buildSagaRecordV1_Inl: "foldSagaEventsV1 H es = Inl err \<Longrightarrow> buildSagaRecordV1 H es = Inl err"
  by (simp add: buildSagaRecordV1_def)

lemma record_body_head:
  "jpath [''state'', ''event_count''] (record_body st es) = JNum (sg_event_count st)"
  "jpath [''state'', ''last_event_id''] (record_body st es) = sg_last_event_id st"
  by (simp_all add: record_body_def buildSagaRecordStateProjection_def)

lemma recover_dir_Inr:
  assumes "recover_dir H entries = Inr c"
  obtains es where "dir_events H entries = Inr es" "es = []" "c = JNull"
    | es st where "dir_events H entries = Inr es" "es \<noteq> []" "foldSagaEventsV1 H es = Inr st" "c = record_body st es"
  using assms unfolding recover_dir_eq bnd_eq_Inr
  by (metis (full_types) buildSagaRecordV1_Inr sum.inject(2))

lemma recovered_head:
  assumes "recover_dir H entries = Inr c" "requireHead c e = Inr ()" "dir_events H entries = Inr es"
  shows "jget ''sequence'' e = JNum (int (length es))"
    "jget ''previous_event_id'' e = (if es = [] then JNull else jget ''event_id'' (last es))"
proof -
  have "jget ''sequence'' e = JNum (int (length es)) \<and>
    jget ''previous_event_id'' e = (if es = [] then JNull else jget ''event_id'' (last es))"
    using assms(1)
  proof (cases rule: recover_dir_Inr)
    case (1 es')
    then show ?thesis using assms(2,3) by (simp add: requireHead_def split: if_splits)
  next
    case (2 es' st)
    have "es' = es" using 2(1) assms(3) by simp
    with foldSaga_log_inv(1) [OF 2(3)] 2(2) have "sg_event_count st = int (length es)" "sg_last_event_id st = jget ''event_id'' (last es)"
      by (simp_all add: log_inv_def)
    moreover have "c \<noteq> JNull" by (simp add: 2(4) record_body_def)
    ultimately show ?thesis
      using assms(2) 2(2) \<open>es' = es\<close> unfolding requireHead_def 2(4) record_body_head by (simp split: if_splits)
  qed
  then show "jget ''sequence'' e = JNum (int (length es))"
    "jget ''previous_event_id'' e = (if es = [] then JNull else jget ''event_id'' (last es))" by simp_all
qed

text \<open>An event that was appended follows the log that was there.\<close>

lemma appended_log:
  assumes "appended H e owner_id fencing_token now_ms s r s'" "plain e"
  obtains i es where "jget ''saga_id'' e = JStr i" "saga_log H s i = Inr es" "validateSagaEventV1 H e = Inr e"
    "holds_lease s i owner_id fencing_token now_ms" "jget ''sequence'' e = JNum (int (length es))"
    "saga_log H s' i = (if fn_size (atomicWriteJson e) > MAX_JSON_BYTES then Inl ''event_file_size_out_of_range'' else Inr (es @ [e]))"
    "\<forall>j. j \<noteq> i \<longrightarrow> saga_log H s' j = saga_log H s j" "r = recover_dir H (sd_events (ss_sagas s' i))"
proof -
  from assms(1) obtain i current where a: "jget ''saga_id'' e = JStr i" "validateSagaEventV1 H e = Inr e"
    "holds_lease s i owner_id fencing_token now_ms" "recover_dir H (sd_events (ss_sagas s i)) = Inr current"
    "requireHead current e = Inr ()"
    "sd_events (ss_sagas s' i) = sd_events (ss_sagas s i) @ [(event_filename e, atomicWriteJson e)]"
    "\<forall>j. j \<noteq> i \<longrightarrow> sd_events (ss_sagas s' j) = sd_events (ss_sagas s j)" "r = recover_dir H (sd_events (ss_sagas s' i))"
    unfolding appended_def by blast
  from a(4) obtain es where es: "dir_events H (sd_events (ss_sagas s i)) = Inr es"
    by (cases rule: recover_dir_Inr) blast+
  note seq = recovered_head(1) [OF a(4,5) es]
  show thesis
  proof (rule that)
    show "saga_log H s i = Inr es" using es by (simp add: saga_log_def)
    show "saga_log H s' i = (if fn_size (atomicWriteJson e) > MAX_JSON_BYTES then Inl ''event_file_size_out_of_range'' else Inr (es @ [e]))"
      unfolding saga_log_def a(6) by (rule dir_events_snoc [OF es a(2) seq assms(2)])
  qed (use a seq in \<open>auto simp: saga_log_def\<close>)
qed

end
