(* ===== verification/Saga_Lease.thy ===== *)
theory Saga_Lease
  imports Saga_Store_Correct
begin

text \<open>
  The leases of the store: what an acquired lease reads back as, and when a lease changes hands.
\<close>

section \<open>Sizes of written files\<close>

lemma utf8_length: "length (utf8_bytes s) \<le> 2 * length s"
  by (induction s) (auto simp: utf8_bytes_def Let_def)

lemma esc_length: "length (concat (map esc_char s)) \<le> 6 * length s"
proof (induction s)
  case (Cons c s)
  have "length (esc_char c) \<le> 6" by (simp add: esc_char_def)
  with Cons show ?case by simp
qed simp

lemma json_quote_length: "length (json_quote s) \<le> 2 + 6 * length s"
  using esc_length [of s] by (simp add: json_quote_def)

lemma dec_str_length_pow: "0 \<le> n \<Longrightarrow> n < 10 ^ Suc k \<Longrightarrow> length (dec_str n) \<le> Suc k"
proof (induction k arbitrary: n)
  case 0
  then show ?case by (simp add: dec_str_small)
next
  case (Suc k)
  show ?case
  proof (cases "n < 10")
    case True
    then show ?thesis by (simp add: dec_str_small)
  next
    case False
    have "n div 10 < 10 ^ Suc k" using Suc.prems(2) by auto
    with Suc.IH [of "n div 10"] Suc.prems(1) have "length (dec_str (n div 10)) \<le> Suc k" by simp
    then show ?thesis using False by (subst dec_str.simps) simp
  qed
qed

lemma safe_int_length: "0 \<le> n \<Longrightarrow> n \<le> MAX_SAFE_INTEGER \<Longrightarrow> length (dec_str n) \<le> 16"
  using dec_str_length_pow [of n 15] by (simp add: MAX_SAFE_INTEGER_def)

lemma quoted_text_length: "length (pretty n (JStr s)) \<le> 2 + 6 * length s"
  using json_quote_length by simp

text \<open>A lease of a legal owner fits into a file that can be read back.\<close>

lemma pretty_lease_length:
  assumes "0 \<le> t" "0 \<le> a" "0 \<le> x"
  shows "length (pretty 0 (jput ''released'' (JBool b) (lease_json (JStr i) (JStr ow) t a x))) \<le>
    900 + 6 * length i + 6 * length ow + length (dec_str t) + length (dec_str a) + length (dec_str x)"
proof -
  have "list_all (\<lambda>k. length (json_quote k) \<le> 60) (LEASE_SCHEMA # SAGA_MARKER # LEASE_KEYS)"
    by code_simp
  then show ?thesis
    using json_quote_length [of i] json_quote_length [of ow] assms
    unfolding LEASE_KEYS_def list.pred_inject
    by (simp add: lease_json_def nl_indent_def dec_str_small)
qed

lemma plain_lease: "plain (jput ''released'' (JBool b) (lease_json (JStr i) (JStr ow) t a x))"
  by (simp add: lease_json_def)

lemma jput_released_False: "jput ''released'' (JBool False) (lease_json i ow t a x) = lease_json i ow t a x"
  by (simp add: lease_json_def)

lemma lease_read_back:
  assumes "0 \<le> t" "t \<le> MAX_SAFE_INTEGER" "0 \<le> a" "a \<le> MAX_SAFE_INTEGER" "0 \<le> x" "x \<le> MAX_SAFE_INTEGER"
    and "length i \<le> 75" "length ow \<le> 200"
  shows "readJsonFile (atomicWriteJson (jput ''released'' (JBool b) (lease_json (JStr i) (JStr ow) t a x))) l =
    Inr (jput ''released'' (JBool b) (lease_json (JStr i) (JStr ow) t a x))"
proof -
  let ?v = "jput ''released'' (JBool b) (lease_json (JStr i) (JStr ow) t a x)"
  have "length (pretty 0 ?v) \<le> 3000"
    using pretty_lease_length [OF assms(1,3,5), of b i ow] safe_int_length [OF assms(1,2)] safe_int_length [OF assms(3,4)]
      safe_int_length [OF assms(5,6)] assms(7,8) by linarith
  then have "length (utf8_bytes (pretty 0 ?v @ [CHR 0x0A])) \<le> 6002"
    using utf8_length [of "pretty 0 ?v @ [CHR 0x0A]"] by simp
  moreover have "utf8_bytes (pretty 0 ?v @ [CHR 0x0A]) \<noteq> []" by (simp add: utf8_bytes_def)
  ultimately show ?thesis
    using json_data_plain [OF plain_lease [of b i ow t a x]]
    by (simp only: readJsonFile_def atomicWriteJson_def MAX_JSON_BYTES_def file_node.simps) simp
qed

section \<open>Acquiring\<close>

lemma validateLease_Inr:
  assumes "validateLease v = Inr w"
  shows "w = v" "\<exists>ow. jget ''owner_id'' v = JStr ow \<and> length ow \<le> 200"
    "\<exists>t. jget ''fencing_token'' v = JNum t \<and> 1 \<le> t \<and> t \<le> MAX_SAFE_INTEGER"
    "\<exists>a x. jget ''acquired_at_ms'' v = JNum a \<and> jget ''expires_at_ms'' v = JNum x \<and> 0 \<le> a \<and> a \<le> x \<and> x \<le> MAX_SAFE_INTEGER"
    "v \<noteq> JNull"
proof -
  from assms obtain u1 u2 u3 a x where c: "saga_exactKeys v LEASE_KEYS ''lease'' = Inr u1"
    "safeId (jget ''owner_id'' v) ''lease.owner_id'' = Inr u2"
    "safeInteger (jget ''fencing_token'' v) 1 MAX_SAFE_INTEGER ''lease.fencing_token'' = Inr u3"
    "safeInteger (jget ''acquired_at_ms'' v) 0 MAX_SAFE_INTEGER ''lease.acquired_at_ms'' = Inr a"
    "safeInteger (jget ''expires_at_ms'' v) a MAX_SAFE_INTEGER ''lease.expires_at_ms'' = Inr x" "w = v"
    unfolding validateLease_def bnd_eq_Inr guard_eq_Inr sum.inject by blast
  show "w = v" by fact
  have "is_str (jget ''owner_id'' v)" "\<not> slen (str_of (jget ''owner_id'' v)) > 200"
    using c(2) unfolding safeId_def nonEmptyString_def bnd_eq_Inr guard_eq_Inr by blast+
  then show "\<exists>ow. jget ''owner_id'' v = JStr ow \<and> length ow \<le> 200" unfolding is_str_iff by auto
  show "\<exists>t. jget ''fencing_token'' v = JNum t \<and> 1 \<le> t \<and> t \<le> MAX_SAFE_INTEGER"
    using c(3) unfolding safeInteger_def guard_eq_Inr isSafeInteger_iff by auto
  show "\<exists>a x. jget ''acquired_at_ms'' v = JNum a \<and> jget ''expires_at_ms'' v = JNum x \<and> 0 \<le> a \<and> a \<le> x \<and> x \<le> MAX_SAFE_INTEGER"
    using c(4,5) unfolding safeInteger_def guard_eq_Inr isSafeInteger_iff by auto
  show "v \<noteq> JNull" using c(1) by (auto simp: saga_exactKeys_def directObject_def)
qed

definition lease_token :: "jsv \<Rightarrow> int" where
  "lease_token lease = (if lease = JNull then 0 else num_of (jget ''fencing_token'' lease))"

lemma lease_json_fields:
  "jget ''owner_id'' (lease_json i ow t a x) = ow" "jget ''fencing_token'' (lease_json i ow t a x) = JNum t"
  "jget ''acquired_at_ms'' (lease_json i ow t a x) = JNum a" "jget ''expires_at_ms'' (lease_json i ow t a x) = JNum x"
  "jget ''released'' (lease_json i ow t a x) = JBool False" "lease_json i ow t a x \<noteq> JNull"
  by (simp_all add: lease_json_def)

lemma prefix_hex_length: "prefix_hex p n s \<Longrightarrow> slen s = slen p + n"
proof -
  assume a: "prefix_hex p n s"
  then have "length s = length p + length (drop (length p) s)"
    by (metis append_take_drop_id length_append prefix_hex_def)
  moreover have "slen (drop (length p) s) = n" using a unfolding prefix_hex_def hex_n_def by blast
  ultimately show ?thesis by linarith
qed

text \<open>A lease that was validated and written is what is read next.\<close>

lemma write_lease_read:
  assumes "validateLease (jput ''released'' (JBool b) (lease_json (JStr i) ow t a x)) = Inr l"
    and "prefix_hex SAGA_ID_PREFIX 64 i"
  shows "lease_of (snd (write_lease i l s)) i = Inr l" "l = jput ''released'' (JBool b) (lease_json (JStr i) ow t a x)"
proof -
  let ?v = "jput ''released'' (JBool b) (lease_json (JStr i) ow t a x)"
  note v = validateLease_Inr [OF assms(1)]
  have f: "jget ''owner_id'' ?v = ow" "jget ''fencing_token'' ?v = JNum t" "jget ''acquired_at_ms'' ?v = JNum a"
    "jget ''expires_at_ms'' ?v = JNum x" by (simp_all add: lease_json_def)
  obtain w where w: "ow = JStr w" "length w \<le> 200" using v(2) f by auto
  have "length i \<le> 75" using prefix_hex_length [OF assms(2)] by (simp add: SAGA_ID_PREFIX_def)
  then have "readJsonFile (atomicWriteJson ?v) ''lease_file'' = Inr ?v"
    using v(3,4) f w unfolding w(1) by (intro lease_read_back) auto
  with assms(1) v(1) show "lease_of (snd (write_lease i l s)) i = Inr l"
    by (simp add: lease_of_def read_lease_def sread_def write_lease_def update_dir_def)
  show "l = ?v" by (rule v(1))
qed

lemma acquireLease_Inr:
  assumes "acquireLease lock saga_id owner_id now_ms ttl_ms s = (Inr d, s')"
  obtains i previous where "saga_id = JStr i" "lease_of s i = Inr previous" "jget ''ok'' d = JBool False" "same_files s s'"
    "lease_active previous (num_of now_ms)" "jget ''owner_id'' previous \<noteq> owner_id"
  | i previous where "saga_id = JStr i" "lease_of s i = Inr previous" "jget ''ok'' d = JBool True"
    "\<not> (lease_active previous (num_of now_ms) \<and> jget ''owner_id'' previous \<noteq> owner_id)"
    "\<forall>j. sd_events (ss_sagas s' j) = sd_events (ss_sagas s j)"
    "\<forall>j. j \<noteq> i \<longrightarrow> sd_lease (ss_sagas s' j) = sd_lease (ss_sagas s j)"
    "lease_of s' i = Inr (jget ''lease'' d)" "jget ''owner_id'' (jget ''lease'' d) = owner_id"
    "jget ''fencing_token'' (jget ''lease'' d) =
      JNum (if lease_active previous (num_of now_ms) then lease_token previous else lease_token previous + 1)"
    "lease_active (jget ''lease'' d) (num_of now_ms)"
proof -
  from assms obtain i s1 now ttl where a: "locations saga_id s = (Inr i, s1)"
    "safeInteger now_ms 0 MAX_SAFE_INTEGER ''now_ms'' = Inr now" "safeInteger ttl_ms 1 MAX_LEASE_TTL_MS ''ttl_ms'' = Inr ttl"
    and locked: "withExclusiveLock lock (
       sbind (read_lease i) (\<lambda>previous.
       if previous \<noteq> JNull \<and> jget ''saga_id'' previous \<noteq> saga_id then slift (Inl ''lease_saga_binding_mismatch'')
       else if lease_active previous now \<and> jget ''owner_id'' previous \<noteq> owner_id then
         slift (Inr (JObj [
           (''ok'', JBool False),
           (''status'', JStr ''held''),
           (''reason'', JStr ''lease_held_by_another_owner''),
           (''active_owner_id'', jget ''owner_id'' previous),
           (''expires_at_ms'', jget ''expires_at_ms'' previous),
           (''fencing_token'', jget ''fencing_token'' previous)]))
       else
         let sameActiveOwner = lease_active previous now \<and> jget ''owner_id'' previous = owner_id;
             previousToken = (if previous = JNull then 0 else num_of (jget ''fencing_token'' previous));
             fencingToken = (if sameActiveOwner then previousToken else previousToken + 1)
         in
         sbind (slift (validateLease (lease_json saga_id owner_id fencingToken now (now + ttl)))) (\<lambda>lease.
         sbind (write_lease i lease) (\<lambda>_.
         slift (Inr (JObj [(''ok'', JBool True), (''status'', JStr ''acquired''), (''lease'', lease)])))))) s1 = (Inr d, s')"
    unfolding acquireLease_def by (auto simp: sop_eq)
  note same = locations_eq(1) [OF a(1)] and at = locations_eq(2) [OF a(1) refl]
  have now: "num_of now_ms = now" "1 \<le> ttl" using a(2,3) by (auto simp: safeInteger_def split: if_splits)
  from locked obtain previous where p: "lease_of s1 i = Inr previous" "lock = None"
    by (cases lock) (auto simp: withExclusiveLock_def sop_eq read_lease_eq)
  have prev: "lease_of s i = Inr previous" using p(1) lease_of_same_files [OF same] by simp
  show thesis
  proof (cases "lease_active previous now \<and> jget ''owner_id'' previous \<noteq> owner_id")
    case True
    with locked p have "jget ''ok'' d = JBool False" "s' = s1"
      by (auto simp: withExclusiveLock_def sop_eq read_lease_eq split: if_splits)
    then show thesis using that(1) [of i previous] at prev same True now by simp
  next
    case False
    define tok where "tok = (if lease_active previous now then lease_token previous else lease_token previous + 1)"
    from locked p False obtain l where l: "validateLease (lease_json saga_id owner_id tok now (now + ttl)) = Inr l"
      "s' = snd (write_lease i l s1)" "jget ''ok'' d = JBool True" "jget ''lease'' d = l"
      by (auto simp: withExclusiveLock_def sop_eq read_lease_eq Let_def lease_token_def tok_def write_lease_def
          update_dir_def split: if_splits)
    have w: "lease_of s' i = Inr l" "l = lease_json saga_id owner_id tok now (now + ttl)"
      using write_lease_read [where b = False and i = i and l = l and ow = owner_id] l(1,2) at by (simp_all add: jput_released_False)
    show thesis
    proof (rule that(2) [of i previous])
      show "\<forall>j. sd_events (ss_sagas s' j) = sd_events (ss_sagas s j)"
        "\<forall>j. j \<noteq> i \<longrightarrow> sd_lease (ss_sagas s' j) = sd_lease (ss_sagas s j)"
        using same_filesD [OF same] by (simp_all add: l(2) write_lease_def update_dir_def)
    qed (use at prev False now w l(3,4) in \<open>auto simp: lease_json_fields tok_def lease_active_def\<close>)
  qed
qed

end
