(* ===== verification/Saga_Store_Safety.thy ===== *)
theory Saga_Store_Safety
  imports Saga_Lease
begin

text \<open>
  The saga store under interleaved operations. Leases are changed under a saga's \<^verbatim>\<open>lease.lock\<close> and
  events are appended under its \<^verbatim>\<open>append.lock\<close>, so a lease can change hands while an append is under
  way. An append is therefore two steps here, or three with an admission callback, and any operations
  can come between them. That the two locks are exclusive is the subject of the theories of the lock
  (with the exception of the race of C32) and an assumption here.
\<close>

section \<open>The steps of the store\<close>

text \<open>
  The contract of a system whose every step from a good state changes a view of it only along a
  preorder, and the consequence for runs.
\<close>

locale monotone_view =
  fixes step :: "'s \<Rightarrow> 's \<Rightarrow> bool" and good :: "'s \<Rightarrow> bool" and view :: "'s \<Rightarrow> 'v" and leq :: "'v \<Rightarrow> 'v \<Rightarrow> bool"
  assumes leq_refl: "leq v v"
    and leq_trans: "leq u v \<Longrightarrow> leq v w \<Longrightarrow> leq u w"
    and step_good: "step s s' \<Longrightarrow> good s \<Longrightarrow> good s'"
    and step_leq: "step s s' \<Longrightarrow> good s \<Longrightarrow> leq (view s) (view s')"
begin

lemma run_good: "step\<^sup>*\<^sup>* s s' \<Longrightarrow> good s \<Longrightarrow> good s'"
  by (induction rule: rtranclp_induct) (auto dest: step_good)

lemma run_leq: "step\<^sup>*\<^sup>* s s' \<Longrightarrow> good s \<Longrightarrow> leq (view s) (view s')"
proof (induction rule: rtranclp_induct)
  case (step t u)
  then show ?case using run_good step_leq leq_trans by blast
qed (simp add: leq_refl)

end

text \<open>
  The checks of an append, up to the one of the head, and the second round of them that follows the
  admission callback. \<open>now_ms\<close> is a number: the code does not check it, and a value that is not a
  number would make no lease expire.
\<close>

definition append_checks :: "(string \<Rightarrow> string) \<Rightarrow> string \<Rightarrow> jsv \<Rightarrow> jsv \<Rightarrow> jsv \<Rightarrow> int \<Rightarrow> unit sop" where
  "append_checks H i validated owner_id fencing_token now_ms =
     sbind (requireCurrentLease i owner_id fencing_token now_ms) (\<lambda>_.
     sbind (recover H (jget ''saga_id'' validated)) (\<lambda>current. slift (requireHead current validated)))"

definition append_start :: "(string \<Rightarrow> string) \<Rightarrow> jsv \<Rightarrow> jsv \<Rightarrow> jsv \<Rightarrow> int \<Rightarrow> (string \<times> jsv) sop" where
  "append_start H event owner_id fencing_token now_ms =
     sbind (slift (validateSagaEventV1 H event)) (\<lambda>validated.
     sbind (locations (jget ''saga_id'' validated)) (\<lambda>i.
     sbind (requireCurrentLease i owner_id fencing_token now_ms) (\<lambda>_.
     if jget ''fencing_token'' validated \<noteq> fencing_token then slift (Inl ''event_fencing_token_mismatch'')
     else
     sbind (recover H (jget ''saga_id'' validated)) (\<lambda>current.
     sbind (slift (requireHead current validated)) (\<lambda>_. slift (Inr (i, validated)))))))"

text \<open>
  What the holder of a saga's append lock is doing: it awaits its admission callback, with the event,
  owner, token and time of its call, or it has passed its last check and is about to write the event.
\<close>

datatype in_flight = Admitting jsv jsv jsv int | Checked jsv

type_synonym saga_system = "saga_store \<times> (string \<Rightarrow> in_flight option)"

inductive saga_step :: "(string \<Rightarrow> string) \<Rightarrow> saga_system \<Rightarrow> saga_system \<Rightarrow> bool" for H where
  recovered: "recover H v s = (r, s') \<Longrightarrow> saga_step H (s, fl) (s', fl)"
| acquired: "acquireLease lock v ow n t s = (r, s') \<Longrightarrow> saga_step H (s, fl) (s', fl)"
| released: "releaseLease lock v ow t' m s = (r, s') \<Longrightarrow> saga_step H (s, fl) (s', fl)"
| not_locked: "locations v s = (r', s') \<Longrightarrow> saga_step H (s, fl) (s', fl)"
| refused: "append_start H e ow t' m s = (Inl err, s') \<Longrightarrow> saga_step H (s, fl) (s', fl)"
| checked: "append_start H e ow t' m s = (Inr (i, v), s') \<Longrightarrow> fl i = None \<Longrightarrow>
    saga_step H (s, fl) (s', fl(i \<mapsto> Checked v))"
| admitting: "append_start H e ow t' m s = (Inr (i, v), s') \<Longrightarrow> fl i = None \<Longrightarrow>
    saga_step H (s, fl) (s', fl(i \<mapsto> Admitting v ow t' m))"
| admitted: "fl i = Some (Admitting v ow t' m) \<Longrightarrow> append_checks H i v ow t' m s = (Inr (), s') \<Longrightarrow>
    saga_step H (s, fl) (s', fl(i \<mapsto> Checked v))"
| not_admitted: "fl i = Some (Admitting v ow t' m) \<Longrightarrow> append_checks H i v ow t' m s = (Inl err, s') \<Longrightarrow>
    saga_step H (s, fl) (s', fl(i := None))"
| written: "fl i = Some (Checked v) \<Longrightarrow> write_event H i v s = (r, s') \<Longrightarrow> saga_step H (s, fl) (s', fl(i := None))"
| gone: "saga_step H (s, fl) (s, fl(i := None))"

text \<open>
  \<open>not_locked\<close> is an append whose lock is not granted; \<open>gone\<close> is one whose callback refuses or throws, or
  whose process dies. The operations of the callback itself are steps like those of any process.
\<close>

abbreviation idle :: "string \<Rightarrow> in_flight option" where
  "idle \<equiv> (\<lambda>_. None)"

section \<open>Calls are runs of steps\<close>

lemma sbind_assoc: "sbind (sbind m f) g = sbind m (\<lambda>x. sbind (f x) g)"
  by (rule ext) (simp add: sbind_def split: prod.splits sum.splits)

lemma sbind_lift: "sbind (slift (Inr x)) f = f x" "sbind (slift (Inl e)) f = slift (Inl e)"
  by (simp_all add: sbind_def slift_def fun_eq_iff)

lemma sbind_if: "sbind (if b then m else m') f = (if b then sbind m f else sbind m' f)"
  by simp

lemma appendEvent_split:
  "appendEvent H None e ow t n = sbind (append_start H e ow t n) (\<lambda>(i, v). write_event H i v)"
  by (simp add: appendEvent_def append_start_def withExclusiveLock_def sbind_assoc sbind_lift sbind_if cong: if_cong)

lemma appendEventWithAdmission_split:
  "appendEventWithAdmission H None e ow t n (Some admit) = sbind (append_start H e ow t n) (\<lambda>(i, v).
     sbind admit (\<lambda>admitted. if admitted \<noteq> JBool True then slift (Inl ''append_admission_refused'')
       else sbind (append_checks H i v ow t n) (\<lambda>_. write_event H i v)))"
  by (simp add: appendEventWithAdmission_def append_start_def append_checks_def withExclusiveLock_def sbind_assoc sbind_lift sbind_if cong: if_cong)

lemma idle_again: "fl i = None \<Longrightarrow> fl(i \<mapsto> x, i := None) = fl" "fl i = None \<Longrightarrow> fl(i := None) = fl"
  by auto

lemma appendEvent_run:
  assumes "appendEvent H lock e ow t n s = (r, s')"
  shows "(saga_step H)\<^sup>*\<^sup>* (s, idle) (s', idle)"
proof (cases lock)
  case None
  obtain r1 s1 where a: "append_start H e ow t n s = (r1, s1)" by force
  show ?thesis
  proof (cases r1)
    case (Inl err)
    with assms None a have "s' = s1" by (simp add: appendEvent_split sbind_def)
    with saga_step.refused [OF a [unfolded Inl]] show ?thesis by blast
  next
    case (Inr x)
    obtain i v where x: "x = (i, v)" by force
    have w: "write_event H i v s1 = (r, s')" using assms None a Inr x by (simp add: appendEvent_split sbind_def)
    have "saga_step H (s, idle) (s1, idle(i \<mapsto> Checked v))" by (rule saga_step.checked [OF a [unfolded Inr x]]) simp
    moreover have "saga_step H (s1, idle(i \<mapsto> Checked v)) (s', idle(i \<mapsto> Checked v, i := None))"
      by (rule saga_step.written [OF _ w]) simp
    ultimately show ?thesis by (simp add: idle_again)
  qed
next
  case (Some err)
  then have "s' = s \<or> (\<exists>r1 v. locations v s = (r1, s'))"
    using assms by (auto simp: appendEvent_def withExclusiveLock_def sop_eq)
  then show ?thesis using saga_step.not_locked by blast
qed

text \<open>The callback of an admission is code that runs steps and leaves the append locks to their holders.\<close>

lemma appendEventWithAdmission_run:
  assumes "appendEventWithAdmission H lock e ow t n admission s = (r, s')"
    and "\<And>admit u q u' fl. admission = Some admit \<Longrightarrow> admit u = (q, u') \<Longrightarrow> (saga_step H)\<^sup>*\<^sup>* (u, fl) (u', fl)"
  shows "(saga_step H)\<^sup>*\<^sup>* (s, idle) (s', idle)"
proof (cases "\<exists>admit. lock = None \<and> admission = Some admit")
  case False
  then have "s' = s \<or> (\<exists>r1 v. locations v s = (r1, s'))"
    using assms(1) by (cases lock; cases admission) (auto simp: appendEventWithAdmission_def withExclusiveLock_def sop_eq)
  then show ?thesis using saga_step.not_locked by blast
next
  case True
  then obtain admit where l: "lock = None" "admission = Some admit" by blast
  obtain r1 s1 where a: "append_start H e ow t n s = (r1, s1)" by force
  show ?thesis
  proof (cases r1)
    case (Inl err)
    with assms l a have "s' = s1" by (simp add: appendEventWithAdmission_split sbind_def)
    with saga_step.refused [OF a [unfolded Inl]] show ?thesis by blast
  next
    case (Inr x)
    obtain i v where x: "x = (i, v)" by force
    let ?fl = "idle(i \<mapsto> Admitting v ow t n)"
    have "saga_step H (s, idle) (s1, ?fl)" by (rule saga_step.admitting [OF a [unfolded Inr x]]) simp
    moreover obtain r2 s2 where ad: "admit s1 = (r2, s2)" by force
    moreover have "(saga_step H)\<^sup>*\<^sup>* (s1, ?fl) (s2, ?fl)" by (rule assms(2) [OF l(2) ad])
    ultimately have run: "(saga_step H)\<^sup>*\<^sup>* (s, idle) (s2, ?fl)" by (meson converse_rtranclp_into_rtranclp)
    have stop: "saga_step H (u, ?fl) (u, idle)" for u using saga_step.gone [of H u ?fl i] by (simp add: idle_again)
    have rest: "(if r2 = Inr (JBool True) then sbind (append_checks H i v ow t n) (\<lambda>_. write_event H i v) s2
        else (case r2 of Inl e \<Rightarrow> (Inl e, s2) | Inr _ \<Rightarrow> (Inl ''append_admission_refused'', s2))) = (r, s')"
      using assms(1) l a Inr x ad by (auto simp: appendEventWithAdmission_split sbind_def slift_def split: sum.splits if_splits)
    show ?thesis
    proof (cases "r2 = Inr (JBool True)")
      case False
      with rest have "s' = s2" by (auto split: sum.splits)
      with run stop show ?thesis by (metis rtranclp.rtrancl_into_rtrancl)
    next
      case True
      obtain r3 s3 where c: "append_checks H i v ow t n s2 = (r3, s3)" by force
      show ?thesis
      proof (cases r3)
        case (Inl err)
        with rest True c have "s' = s3" by (simp add: sbind_def)
        moreover have "saga_step H (s2, ?fl) (s3, ?fl(i := None))" by (rule saga_step.not_admitted [OF _ c [unfolded Inl]]) simp
        ultimately show ?thesis using run by (simp add: idle_again rtranclp.rtrancl_into_rtrancl)
      next
        case (Inr u)
        have w: "write_event H i v s3 = (r, s')" using rest True c Inr by (simp add: sbind_def)
        have "saga_step H (s2, ?fl) (s3, ?fl(i \<mapsto> Checked v))"
          by (rule saga_step.admitted [where v = v and ow = ow and t' = t and m = n]) (use c Inr in simp_all)
        moreover have "saga_step H (s3, ?fl(i \<mapsto> Checked v)) (s', ?fl(i \<mapsto> Checked v, i := None))"
          by (rule saga_step.written [OF _ w]) simp
        moreover have "?fl(i \<mapsto> Checked v, i := None) = idle" by auto
        ultimately show ?thesis using run by (metis rtranclp.rtrancl_into_rtrancl)
      qed
    qed
  qed
qed

section \<open>Operations that keep the events\<close>

definition keeps_events :: "'a sop \<Rightarrow> bool" where
  "keeps_events m \<longleftrightarrow> (\<forall>s j. sd_events (ss_sagas (snd (m s)) j) = sd_events (ss_sagas s j))"

named_theorems keeps \<open>operations that keep the events of every saga\<close>

lemma keeps_events_rules [keeps]:
  "keeps_events (slift x)" "keeps_events (sread f)"
  "keeps_events m \<Longrightarrow> (\<And>x. keeps_events (k x)) \<Longrightarrow> keeps_events (sbind m k)"
  "keeps_events a \<Longrightarrow> keeps_events b \<Longrightarrow> keeps_events (if c then a else b)"
  "keeps_events (locations v)" "keeps_events (read_lease i)" "keeps_events (write_lease i l)"
  "keeps_events m \<Longrightarrow> keeps_events (withExclusiveLock lock m)"
proof -
  show "keeps_events (sbind m k)" if "keeps_events m" "\<And>x. keeps_events (k x)"
    using that unfolding keeps_events_def sbind_def by (auto split: prod.splits sum.splits) (metis snd_conv)+
  show "keeps_events (locations v)"
    unfolding keeps_events_def using locations_eq(1) same_filesD(1) by (metis prod.collapse)
  show "keeps_events m \<Longrightarrow> keeps_events (withExclusiveLock lock m)"
    by (cases lock) (simp_all add: withExclusiveLock_def keeps_events_def slift_def)
qed (simp_all add: keeps_events_def slift_def sread_def read_lease_def write_lease_def update_dir_def)

lemma keeps_acquireLease [keeps]: "keeps_events (acquireLease lock v ow n t)"
  unfolding acquireLease_def Let_def by (intro keeps)

lemma keeps_releaseLease [keeps]: "keeps_events (releaseLease lock v ow t n)"
  unfolding releaseLease_def by (intro keeps)

lemma keeps_recover [keeps]: "keeps_events (recover H v)"
  unfolding recover_def by (intro keeps)

text \<open>Operations that change no file, and operations that change none when they fail.\<close>

definition reads_only :: "'a sop \<Rightarrow> bool" where
  "reads_only m \<longleftrightarrow> (\<forall>s r s'. m s = (r, s') \<longrightarrow> same_files s s')"

definition fail_safe :: "'a sop \<Rightarrow> bool" where
  "fail_safe m \<longleftrightarrow> (\<forall>s e s'. m s = (Inl e, s') \<longrightarrow> same_files s s')"

named_theorems safe_ops \<open>operations that change no file when they fail\<close>

lemma reads_only_rules [safe_ops]:
  "reads_only (slift x)" "reads_only (sread f)" "reads_only (locations v)" "reads_only (read_lease i)" "reads_only (recover H v)"
  using locations_eq(1) recover_same_files
  by (auto simp: reads_only_def slift_eq sread_eq read_lease_eq)

lemma fail_safe_rules [safe_ops]:
  "fail_safe (slift x)"
  "reads_only m \<Longrightarrow> (\<And>x. fail_safe (k x)) \<Longrightarrow> fail_safe (sbind m k)"
  "fail_safe a \<Longrightarrow> fail_safe b \<Longrightarrow> fail_safe (if c then a else b)"
  "fail_safe m \<Longrightarrow> fail_safe (withExclusiveLock lock m)"
proof -
  show "fail_safe (sbind m k)" if "reads_only m" "\<And>x. fail_safe (k x)"
    using that unfolding fail_safe_def reads_only_def by (auto simp: sbind_eq) (metis same_files_trans)
  show "fail_safe m \<Longrightarrow> fail_safe (withExclusiveLock lock m)"
    by (cases lock) (auto simp: withExclusiveLock_def fail_safe_def slift_eq)
qed (auto simp: fail_safe_def slift_eq)

lemma fail_safe_write [safe_ops]: "fail_safe (sbind (write_lease i l) (\<lambda>_. slift (Inr x)))"
  by (auto simp: fail_safe_def sbind_eq slift_eq write_lease_def update_dir_eq)

lemma fail_safe_leases [safe_ops]:
  "fail_safe (acquireLease lock v ow n t)" "fail_safe (releaseLease lock v ow t' n')"
  unfolding acquireLease_def releaseLease_def Let_def by (rule safe_ops | intro safe_ops)+

section \<open>What a step does\<close>

lemma append_start_files: "append_start H e ow t n s = (r, s') \<Longrightarrow> same_files s s'"
  unfolding append_start_def
  by (auto simp: sop_eq requireCurrentLease_eq(1) split: if_splits
      dest: recover_same_files locations_eq(1) intro: same_files_trans)

lemma append_checks_files: "append_checks H i e ow t n s = (r, s') \<Longrightarrow> same_files s s'"
  unfolding append_checks_def by (auto simp: sop_eq requireCurrentLease_eq(1) dest: recover_same_files)

lemma append_checks_Inr:
  assumes "append_checks H i e ow t n s = (Inr (), s')" "jget ''saga_id'' e = JStr i"
  shows "\<exists>current. holds_lease s i ow t n \<and> recover_dir H (sd_events (ss_sagas s i)) = Inr current \<and> requireHead current e = Inr ()"
proof -
  have "requireCurrentLease i ow t n s = (Inr (), s)"
    using assms(1) unfolding append_checks_def by (auto simp: sop_eq requireCurrentLease_eq(1))
  then have l: "holds_lease s i ow t n" using requireCurrentLease_eq(2) [of i ow t n s "()"] by simp
  from assms(1) obtain current s1 where "recover H (jget ''saga_id'' e) s = (Inr current, s1)" "requireHead current e = Inr ()"
    unfolding append_checks_def by (auto simp: sop_eq requireCurrentLease_eq(1))
  with recover_Inr assms(2) l show ?thesis by blast
qed

lemma append_start_Inr:
  assumes "append_start H e ow t n s = (Inr (i, v), s')"
  shows "v = e" "validateSagaEventV1 H v = Inr v" "jget ''saga_id'' v = JStr i" "jget ''fencing_token'' v = t"
    "\<exists>current. holds_lease s i ow t n \<and> recover_dir H (sd_events (ss_sagas s i)) = Inr current \<and> requireHead current v = Inr ()"
proof -
  from assms obtain s1 where a: "validateSagaEventV1 H e = Inr v" "locations (jget ''saga_id'' v) s = (Inr i, s1)"
    "jget ''fencing_token'' v = t" "append_checks H i v ow t n s1 = (Inr (), s')"
    unfolding append_start_def append_checks_def by (auto simp: sop_eq requireCurrentLease_eq(1) split: if_splits)
  show v: "v = e" using a(1) validateSagaEventV1_Inr(1) by blast
  then show "validateSagaEventV1 H v = Inr v" using a(1) by simp
  show id: "jget ''saga_id'' v = JStr i" using locations_eq(2) [OF a(2) refl] by blast
  show "jget ''fencing_token'' v = t" by (rule a(3))
  have same: "same_files s s1" by (rule locations_eq(1) [OF a(2)])
  from append_checks_Inr [OF a(4) id] show "\<exists>current. holds_lease s i ow t n \<and>
      recover_dir H (sd_events (ss_sagas s i)) = Inr current \<and> requireHead current v = Inr ()"
    using holds_lease_same_files [OF same] same_filesD(1) [OF same] by simp
qed

lemma write_event_files:
  assumes "write_event H i e s = (r, s')"
  shows "(\<forall>j. sd_lease (ss_sagas s' j) = sd_lease (ss_sagas s j)) \<and>
    (same_files s s' \<or>
     sd_events (ss_sagas s' i) = sd_events (ss_sagas s i) @ [(event_filename e, atomicWriteJson e)] \<and>
     (\<forall>j. j \<noteq> i \<longrightarrow> sd_events (ss_sagas s' j) = sd_events (ss_sagas s j)))"
  using assms unfolding write_event_def
  by (auto simp: sop_eq dest!: recover_same_files simp: same_filesD split: if_splits)

text \<open>
  An append that has passed its checks still has the head it checked: only the holder of the append
  lock writes to the log. The event of an append carries the token of its call.
\<close>

definition system_ok :: "(string \<Rightarrow> string) \<Rightarrow> saga_system \<Rightarrow> bool" where
  "system_ok H c \<longleftrightarrow>
     (\<forall>i v. snd c i = Some (Checked v) \<longrightarrow> validateSagaEventV1 H v = Inr v \<and>
        (\<exists>current. recover_dir H (sd_events (ss_sagas (fst c) i)) = Inr current \<and> requireHead current v = Inr ())) \<and>
     (\<forall>i v ow t n. snd c i = Some (Admitting v ow t n) \<longrightarrow> validateSagaEventV1 H v = Inr v \<and>
        jget ''saga_id'' v = JStr i \<and> jget ''fencing_token'' v = t)"

lemma system_okD:
  assumes "system_ok H (s, fl)"
  shows "fl i = Some (Checked v) \<Longrightarrow> validateSagaEventV1 H v = Inr v \<and>
      (\<exists>current. recover_dir H (sd_events (ss_sagas s i)) = Inr current \<and> requireHead current v = Inr ())"
    "fl i = Some (Admitting v ow t n) \<Longrightarrow> validateSagaEventV1 H v = Inr v \<and>
      jget ''saga_id'' v = JStr i \<and> jget ''fencing_token'' v = t"
  using assms unfolding system_ok_def fst_conv snd_conv by blast+

lemma system_okI:
  assumes "\<And>i v. fl i = Some (Checked v) \<Longrightarrow> validateSagaEventV1 H v = Inr v \<and>
      (\<exists>current. recover_dir H (sd_events (ss_sagas s i)) = Inr current \<and> requireHead current v = Inr ())"
    "\<And>i v ow t n. fl i = Some (Admitting v ow t n) \<Longrightarrow> validateSagaEventV1 H v = Inr v \<and>
      jget ''saga_id'' v = JStr i \<and> jget ''fencing_token'' v = t"
  shows "system_ok H (s, fl)"
  using assms unfolding system_ok_def fst_conv snd_conv by blast

lemma system_ok_idle: "system_ok H (s, idle)"
  by (simp add: system_ok_def)

text \<open>
  Every step is one of four things: it changes no event, and appends may end; an append passes its
  last check; an append comes to await its admission; an event is written.
\<close>

lemma saga_step_effect:
  assumes "saga_step H (s, fl) (s', fl')" "system_ok H (s, fl)"
  obtains (same) "\<And>j. sd_events (ss_sagas s' j) = sd_events (ss_sagas s j)" "\<And>j. fl' j = fl j \<or> fl' j = None"
  | (passed) i v ow t n current where "\<And>j. sd_events (ss_sagas s' j) = sd_events (ss_sagas s j)" "fl' = fl(i \<mapsto> Checked v)"
      "holds_lease s i ow t n" "recover_dir H (sd_events (ss_sagas s i)) = Inr current" "requireHead current v = Inr ()"
      "validateSagaEventV1 H v = Inr v" "jget ''fencing_token'' v = t"
  | (waiting) i v ow t n where "\<And>j. sd_events (ss_sagas s' j) = sd_events (ss_sagas s j)" "fl' = fl(i \<mapsto> Admitting v ow t n)"
      "validateSagaEventV1 H v = Inr v" "jget ''saga_id'' v = JStr i" "jget ''fencing_token'' v = t"
  | (wrote) i v where "fl i = Some (Checked v)" "fl' = fl(i := None)"
      "sd_events (ss_sagas s' i) = sd_events (ss_sagas s i) @ [(event_filename v, atomicWriteJson v)]"
      "\<forall>j. j \<noteq> i \<longrightarrow> sd_events (ss_sagas s' j) = sd_events (ss_sagas s j)"
proof -
  have events: "sd_events (ss_sagas s' j) = sd_events (ss_sagas s j)" if "keeps_events m" "m s = (x, s')"
    for m :: "jsv sop" and x j
    using that unfolding keeps_events_def by (metis snd_conv)
  have files: "sd_events (ss_sagas s' j) = sd_events (ss_sagas s j)" if "same_files s s'" for j
    using that by (rule same_filesD)
  from assms(1) show thesis
  proof (cases rule: saga_step.cases)
    case (recovered v r)
    show thesis by (rule same) (use recovered files recover_same_files in auto)
  next
    case (acquired lock v ow n t r)
    show thesis by (rule same) (use acquired events [OF keeps_acquireLease] in auto)
  next
    case (released lock v ow t m r)
    show thesis by (rule same) (use released events [OF keeps_releaseLease] in auto)
  next
    case (not_locked v r)
    show thesis by (rule same) (use not_locked files locations_eq(1) in auto)
  next
    case (refused e ow t m err)
    show thesis by (rule same) (use refused files append_start_files in auto)
  next
    case (checked e ow t m i v)
    note a = append_start_Inr [OF checked(2)]
    from a(5) obtain current where "holds_lease s i ow t m" "recover_dir H (sd_events (ss_sagas s i)) = Inr current"
      "requireHead current v = Inr ()" by blast
    from passed [OF files [OF append_start_files [OF checked(2)]] checked(1) this a(2,4)] show thesis .
  next
    case (admitting e ow t m i v)
    note a = append_start_Inr [OF admitting(2)]
    show thesis by (rule waiting [OF files [OF append_start_files [OF admitting(2)]] admitting(1) a(2,3,4)])
  next
    case (admitted i v ow t m)
    from system_okD(2) [OF assms(2) admitted(2)]
    have v: "validateSagaEventV1 H v = Inr v" "jget ''saga_id'' v = JStr i" "jget ''fencing_token'' v = t" by blast+
    from append_checks_Inr [OF admitted(3) v(2)] obtain current where "holds_lease s i ow t m"
      "recover_dir H (sd_events (ss_sagas s i)) = Inr current" "requireHead current v = Inr ()" by blast
    from passed [OF files [OF append_checks_files [OF admitted(3)]] admitted(1) this v(1,3)] show thesis .
  next
    case (not_admitted i v ow t m err)
    show thesis by (rule same) (use not_admitted files append_checks_files in auto)
  next
    case (written i v r)
    from write_event_files [OF written(3)] consider "same_files s s'" |
      "sd_events (ss_sagas s' i) = sd_events (ss_sagas s i) @ [(event_filename v, atomicWriteJson v)]"
      "\<forall>j. j \<noteq> i \<longrightarrow> sd_events (ss_sagas s' j) = sd_events (ss_sagas s j)" by blast
    then show thesis
    proof cases
      case 1
      show thesis by (rule same) (use 1 files written(1) in auto)
    next
      case 2
      from wrote [OF written(2,1) this] show thesis .
    qed
  next
    case (gone i)
    show thesis by (rule same) (use gone in auto)
  qed
qed

section \<open>The accepted log only grows\<close>

text \<open>The log the store accepts for a saga; none once the directory cannot be recovered.\<close>

definition accepted_log :: "(string \<Rightarrow> string) \<Rightarrow> string \<Rightarrow> saga_store \<Rightarrow> jsv list option" where
  "accepted_log H i s =
     (case recover_dir H (sd_events (ss_sagas s i)) of Inl _ \<Rightarrow> None
      | Inr _ \<Rightarrow> (case saga_log H s i of Inl _ \<Rightarrow> None | Inr es \<Rightarrow> Some es))"

definition log_leq :: "jsv list option \<Rightarrow> jsv list option \<Rightarrow> bool" where
  "log_leq a b \<longleftrightarrow> b = None \<or> (\<exists>es fs. a = Some es \<and> b = Some (es @ fs))"

lemma accepted_log_events:
  "sd_events (ss_sagas s' i) = sd_events (ss_sagas s i) \<Longrightarrow> accepted_log H i s' = accepted_log H i s"
  by (simp only: accepted_log_def saga_log_def)

lemma log_leq_refl: "log_leq v v"
  by (cases v) (simp_all add: log_leq_def)

lemma written_log_leq:
  assumes "validateSagaEventV1 H e = Inr e" "recover_dir H (sd_events (ss_sagas s j)) = Inr current"
    "requireHead current e = Inr ()"
    "sd_events (ss_sagas s' j) = sd_events (ss_sagas s j) @ [(event_filename e, atomicWriteJson e)]"
    "\<forall>k. k \<noteq> j \<longrightarrow> sd_events (ss_sagas s' k) = sd_events (ss_sagas s k)"
  shows "log_leq (accepted_log H i s) (accepted_log H i s')"
proof (cases "i = j")
  case True
  from assms(2) obtain es where es: "dir_events H (sd_events (ss_sagas s j)) = Inr es"
    by (cases rule: recover_dir_Inr) blast+
  from dir_events_append [OF es assms(1) recovered_head(1) [OF assms(2,3) es]]
  have "dir_events H (sd_events (ss_sagas s' j)) = bnd (read_event H (length es, new_file e)) (\<lambda>e'. Inr (es @ [e']))"
    by (simp add: assms(4))
  then show ?thesis
    using es assms(2) True
    by (cases "read_event H (length es, new_file e)")
      (auto simp: log_leq_def accepted_log_def saga_log_def recover_dir_eq split: sum.splits)
next
  case False
  with assms(5) have "accepted_log H i s' = accepted_log H i s" by (intro accepted_log_events) simp
  then show ?thesis by (simp add: log_leq_refl)
qed

lemma saga_step_ok:
  assumes "saga_step H c c'" "system_ok H c"
  shows "system_ok H c'"
proof -
  obtain s fl s' fl' where c: "c = (s, fl)" "c' = (s', fl')" by force
  note ok = system_okD [OF assms(2) [unfolded c(1)]]
  from assms [unfolded c] have "system_ok H (s', fl')"
  proof (cases rule: saga_step_effect)
    case same
    have fl: "fl' i = Some x \<Longrightarrow> fl i = Some x" for i x using same(2) [of i] by auto
    show ?thesis by (intro system_okI; drule fl; drule ok) (simp_all add: same(1))
  next
    case (passed i v ow t n current)
    then show ?thesis by (intro system_okI) (auto simp: passed(1,2) dest: ok split: if_splits)
  next
    case (waiting i v ow t n)
    then show ?thesis by (intro system_okI) (auto simp: waiting(1,2) dest: ok split: if_splits)
  next
    case (wrote i v)
    then show ?thesis by (intro system_okI) (auto dest: ok split: if_splits)
  qed
  then show ?thesis by (simp add: c)
qed

lemma saga_step_log_leq:
  assumes "saga_step H c c'" "system_ok H c"
  shows "log_leq (accepted_log H i (fst c)) (accepted_log H i (fst c'))"
proof -
  obtain s fl s' fl' where c: "c = (s, fl)" "c' = (s', fl')" by force
  have quiet: "log_leq (accepted_log H i s) (accepted_log H i s')" if "\<And>j. sd_events (ss_sagas s' j) = sd_events (ss_sagas s j)"
    using accepted_log_events [OF that] by (simp add: log_leq_refl)
  from assms [unfolded c] have "log_leq (accepted_log H i s) (accepted_log H i s')"
  proof (cases rule: saga_step_effect)
    case (wrote j v)
    from system_okD(1) [OF assms(2) [unfolded c(1)] wrote(1)] obtain current where
      "validateSagaEventV1 H v = Inr v" "recover_dir H (sd_events (ss_sagas s j)) = Inr current" "requireHead current v = Inr ()" by blast
    from written_log_leq [OF this wrote(3)] wrote(4) show ?thesis by blast
  qed (use quiet in blast)+
  then show ?thesis by (simp add: c)
qed

interpretation log_view: monotone_view "saga_step H" "system_ok H" "\<lambda>c. accepted_log H i (fst c)" log_leq for H i
proof
  show "log_leq v v" for v by (rule log_leq_refl)
  show "log_leq u w" if "log_leq u v" "log_leq v w" for u v w
    using that by (auto simp: log_leq_def)
qed (rule saga_step_ok saga_step_log_leq; assumption)+

section \<open>Fencing tokens only grow\<close>

text \<open>The fencing token on file for a saga: 0 without a lease, none if the file is not a lease.\<close>

definition token_view :: "string \<Rightarrow> saga_store \<Rightarrow> int option" where
  "token_view i s = (case lease_of s i of Inl _ \<Rightarrow> None | Inr lease \<Rightarrow> Some (lease_token lease))"

definition token_leq :: "int option \<Rightarrow> int option \<Rightarrow> bool" where
  "token_leq a b \<longleftrightarrow> b = None \<or> (\<exists>x y. a = Some x \<and> b = Some y \<and> x \<le> y)"

lemma jget_jput_other: "k \<noteq> k' \<Longrightarrow> jget k (jput k' x v) = jget k v"
proof (cases v)
  case (JObj kvs)
  assume "k \<noteq> k'"
  then have "map_of (map (\<lambda>(k'', v). (k'', if k'' = k' then x else v)) kvs) k = map_of kvs k"
    by (induction kvs) auto
  with \<open>k \<noteq> k'\<close> JObj show ?thesis by (simp add: map_add_def split: option.splits)
qed auto

lemma jget_json_data:
  assumes "distinct (jkeys v)" "jget k v \<noteq> JUndef"
  shows "jget k (json_data v) = json_data (jget k v)"
proof (cases v)
  case (JObj kvs)
  with assms obtain x where x: "map_of kvs k = Some x" "x \<noteq> JUndef" by (cases "map_of kvs k") auto
  let ?ws = "map (\<lambda>(k, u, v). (k, v)) (filter (\<lambda>(k, u, v). \<not> u) (map (\<lambda>(k, v). (k, v = JUndef, json_data v)) kvs))"
  have "distinct (map fst kvs)" using assms(1) JObj by simp
  then have "distinct (map fst ?ws)" by (induction kvs) (auto simp: image_iff)
  moreover have "(k, json_data x) \<in> set ?ws" using map_of_SomeD [OF x(1)] x(2) by force
  ultimately have "map_of ?ws k = Some (json_data x)" by (rule map_of_is_SomeI)
  with x(1) JObj show ?thesis by simp
qed (use assms in auto)

lemma validateLease_distinct: "validateLease v = Inr w \<Longrightarrow> distinct (jkeys v)"
  unfolding validateLease_def saga_exactKeys_def bnd_eq_Inr guard_eq_Inr directObject_def
  by (rule same_keys_distinct [of v LEASE_KEYS]) (auto simp: LEASE_KEYS_def)

text \<open>Whatever a released lease reads back as, it has the token it had.\<close>

lemma release_token:
  assumes "validateLease (jput ''released'' b (jput ''expires_at_ms'' x lease)) = Inr released"
    and "bnd (readJsonFile (atomicWriteJson released) l) validateLease = Inr w"
  shows "lease_token w = lease_token lease"
proof -
  note v = validateLease_Inr [OF assms(1)]
  have "validateLease (json_data released) = Inr w"
    using assms(2) unfolding readJsonFile_def atomicWriteJson_def by (auto simp: js_simps split: if_splits)
  note w = validateLease_Inr(1,5) [OF this]
  obtain t where t: "jget ''fencing_token'' released = JNum t" using v(1,3) by auto
  have "distinct (jkeys released)" using validateLease_distinct [OF assms(1)] v(1) by simp
  from jget_json_data [OF this] t have "jget ''fencing_token'' w = JNum t" by (simp add: w(1))
  moreover have "jget ''fencing_token'' lease = JNum t" using t v(1) by (simp add: jget_jput_other)
  moreover have "lease \<noteq> JNull" using calculation(2) by auto
  ultimately show ?thesis using w by (simp add: lease_token_def)
qed

lemma token_view_same_files: "same_files s s' \<Longrightarrow> token_view i s' = token_view i s"
  by (simp add: token_view_def lease_of_same_files)

lemma token_leq_refl: "token_leq v v"
  by (cases v) (simp_all add: token_leq_def)

lemma lease_of_write:
  "lease_of (snd (write_lease i l s)) j =
    (if j = i then bnd (readJsonFile (atomicWriteJson l) ''lease_file'') validateLease else lease_of s j)"
  by (simp add: lease_of_def read_lease_def sread_def write_lease_def update_dir_def)

lemma releaseLease_token: "token_leq (token_view j s) (token_view j (snd (releaseLease lock v ow t n s)))"
proof -
  obtain r s' where a: "releaseLease lock v ow t n s = (r, s')" by force
  then obtain r1 s1 where loc: "locations v s = (r1, s1)" by force
  note same = locations_eq(1) [OF loc]
  have "s' = s1 \<or> (\<exists>i lease released. lease_of s1 i = Inr lease \<and> lease \<noteq> JNull \<and> s' = snd (write_lease i released s1) \<and>
      validateLease (jput ''released'' (JBool True)
        (jput ''expires_at_ms'' (JNum (max (num_of (jget ''acquired_at_ms'' lease)) n)) lease)) = Inr released)"
    using a loc unfolding releaseLease_def
    by (cases lock) (auto simp: sop_eq withExclusiveLock_def read_lease_eq write_lease_def update_dir_def split: if_splits)
  then have "token_leq (token_view j s1) (token_view j s')"
  proof (elim disjE exE conjE)
    fix i lease released
    assume w: "lease_of s1 i = Inr lease" "s' = snd (write_lease i released s1)"
      "validateLease (jput ''released'' (JBool True)
        (jput ''expires_at_ms'' (JNum (max (num_of (jget ''acquired_at_ms'' lease)) n)) lease)) = Inr released"
    show ?thesis
    proof (cases "j = i")
      case True
      then show ?thesis using w(1) release_token [OF w(3)]
        by (auto simp: token_view_def lease_of_write w(2) token_leq_def split: sum.splits)
    qed (simp add: token_view_def lease_of_write w(2) token_leq_refl [unfolded token_view_def])
  qed (simp add: token_leq_refl)
  then show ?thesis using a token_view_same_files [OF same] by simp
qed

lemma acquireLease_token: "token_leq (token_view j s) (token_view j (snd (acquireLease lock v ow n t s)))"
proof -
  obtain r s' where a: "acquireLease lock v ow n t s = (r, s')" by force
  show ?thesis
  proof (cases r)
    case (Inl err)
    with a have "same_files s s'" using fail_safe_leases(1) unfolding fail_safe_def by blast
    then show ?thesis by (simp add: a token_view_same_files token_leq_refl)
  next
    case (Inr d)
    with a have "acquireLease lock v ow n t s = (Inr d, s')" by simp
    then show ?thesis
    proof (cases rule: acquireLease_Inr)
      case (1 i previous)
      then show ?thesis unfolding a by (simp add: token_view_same_files token_leq_refl)
    next
      case (2 i previous)
      show ?thesis
      proof (cases "j = i")
        case True
        have "jget ''lease'' d \<noteq> JNull" using 2(10) by (simp add: lease_active_def)
        then have "lease_token (jget ''lease'' d) \<ge> lease_token previous" using 2(9) by (simp add: lease_token_def)
        then show ?thesis unfolding a using 2(2,7) True by (simp add: token_view_def token_leq_def)
      next
        case False
        then have "lease_of s' j = lease_of s j" using 2(6) by (simp add: lease_of_def read_lease_def sread_def)
        then show ?thesis unfolding a by (simp add: token_view_def token_leq_refl)
      qed
    qed
  qed
qed

lemma saga_step_token_leq:
  assumes "saga_step H (s, fl) (s', fl')"
  shows "token_leq (token_view i s) (token_view i s')"
proof -
  have quiet: "token_leq (token_view i s) (token_view i s')" if "\<And>j. sd_lease (ss_sagas s' j) = sd_lease (ss_sagas s j)"
    using that by (simp add: token_view_def lease_of_def read_lease_def sread_def token_leq_refl)
  from assms show ?thesis
  proof (cases rule: saga_step.cases)
    case (acquired lock v ow n t r)
    with acquireLease_token [of i s lock v ow n t] show ?thesis by simp
  next
    case (released lock v ow t m r)
    with releaseLease_token [of i s lock v ow t m] show ?thesis by simp
  next
    case (written j v r)
    with write_event_files [OF written(3)] show ?thesis by (intro quiet) blast
  qed (use quiet in \<open>auto dest!: recover_same_files locations_eq(1) append_start_files append_checks_files simp: same_filesD\<close>)
qed

interpretation token_monotone: monotone_view "saga_step H" "\<lambda>_. True" "\<lambda>c. token_view i (fst c)" token_leq for H i
proof
  show "token_leq v v" for v by (rule token_leq_refl)
  show "token_leq u w" if "token_leq u v" "token_leq v w" for u v w
    using that by (auto simp: token_leq_def)
  show "token_leq (token_view i (fst c)) (token_view i (fst c'))" if "saga_step H c c'" for c c'
    using saga_step_token_leq [of H "fst c" "snd c" "fst c'" "snd c'" i] that by simp
qed simp

text \<open>
  Once the token on file has passed \<open>tok\<close>, an append that passes its checks has a later token, so the
  only event with an older one that can still be written is that of an append that had passed them.
\<close>

definition entry_of :: "jsv \<Rightarrow> string \<times> file_node" where
  "entry_of e = (event_filename e, atomicWriteJson e)"

definition fenced :: "string \<Rightarrow> int \<Rightarrow> saga_system \<Rightarrow> saga_system \<Rightarrow> bool" where
  "fenced i tok c c' \<longleftrightarrow> token_leq (Some (tok + 1)) (token_view i (fst c')) \<and>
     (\<exists>early late. sd_events (ss_sagas (fst c') i) = sd_events (ss_sagas (fst c) i) @ map entry_of (early @ late) \<and>
       (early = [] \<or> (\<exists>e. snd c i = Some (Checked e) \<and> early = [e])) \<and>
       (\<forall>e \<in> set late. tok < num_of (jget ''fencing_token'' e)) \<and>
       (\<forall>v. snd c' i = Some (Checked v) \<longrightarrow>
          tok < num_of (jget ''fencing_token'' v) \<or> early = [] \<and> late = [] \<and> snd c i = Some (Checked v)))"

lemma holds_lease_token:
  assumes "holds_lease s i ow t n" "token_leq (Some (tok + 1)) (token_view i s)"
  shows "tok < num_of t"
proof -
  from assms(1) obtain lease where l: "lease_of s i = Inr lease" "lease \<noteq> JNull" "jget ''fencing_token'' lease = t"
    unfolding holds_lease_def by blast
  with assms(2) show ?thesis by (auto simp: token_view_def lease_token_def token_leq_def)
qed

lemma fenced_step:
  assumes "fenced i tok c c1" "saga_step H c1 c2" "system_ok H c1"
  shows "fenced i tok c c2"
proof -
  obtain s1 fl1 s2 fl2 where c: "c1 = (s1, fl1)" "c2 = (s2, fl2)" by force
  from assms(1) obtain early late where f: "token_leq (Some (tok + 1)) (token_view i s1)"
    "sd_events (ss_sagas s1 i) = sd_events (ss_sagas (fst c) i) @ map entry_of (early @ late)"
    "early = [] \<or> (\<exists>e. snd c i = Some (Checked e) \<and> early = [e])" "\<forall>e \<in> set late. tok < num_of (jget ''fencing_token'' e)"
    "\<forall>v. fl1 i = Some (Checked v) \<longrightarrow>
       tok < num_of (jget ''fencing_token'' v) \<or> early = [] \<and> late = [] \<and> snd c i = Some (Checked v)"
    unfolding fenced_def c by auto
  have tok: "token_leq (Some (tok + 1)) (token_view i s2)"
    using saga_step_token_leq [OF assms(2) [unfolded c], of i] f(1) by (auto simp: token_leq_def)
  have quiet: "fenced i tok c c2" if "sd_events (ss_sagas s2 i) = sd_events (ss_sagas s1 i)"
    "\<forall>v. fl2 i = Some (Checked v) \<longrightarrow> tok < num_of (jget ''fencing_token'' v) \<or> fl1 i = Some (Checked v)"
    unfolding fenced_def c fst_conv snd_conv using that tok f
    by (intro conjI exI [of _ early] exI [of _ late]) auto
  from assms(2,3) [unfolded c] show ?thesis
  proof (cases rule: saga_step_effect)
    case same
    then show ?thesis by (intro quiet) (metis, metis option.distinct(1))
  next
    case (passed j v ow t n current)
    have "tok < num_of (jget ''fencing_token'' v)" if "j = i" using holds_lease_token [OF passed(3)] f(1) passed(7) that by simp
    with passed show ?thesis by (intro quiet) auto
  next
    case (waiting j v ow t n)
    then show ?thesis by (intro quiet) auto
  next
    case (wrote j v)
    show ?thesis
    proof (cases "j = i")
      case False
      with wrote show ?thesis by (intro quiet) auto
    next
      case True
      have ev: "sd_events (ss_sagas s2 i) = sd_events (ss_sagas (fst c) i) @ map entry_of (early @ late) @ [entry_of v]"
        using wrote(3) True f(2) by (simp add: entry_of_def)
      show ?thesis
      proof (cases "tok < num_of (jget ''fencing_token'' v)")
        case newer: True
        show ?thesis
          unfolding fenced_def c fst_conv snd_conv using tok ev f(3,4) newer wrote(2) True
          by (intro conjI exI [of _ early] exI [of _ "late @ [v]"]) auto
      next
        case False
        with f(5) wrote(1) True have e: "early = []" "late = []" "snd c i = Some (Checked v)" by auto
        show ?thesis
          unfolding fenced_def c fst_conv snd_conv using tok ev e wrote(2) True
          by (intro conjI exI [of _ "[v]"] exI [of _ "[]"]) auto
      qed
    qed
  qed
qed

lemma fenced_run:
  assumes "(saga_step H)\<^sup>*\<^sup>* c c'" "system_ok H c" "token_leq (Some (tok + 1)) (token_view i (fst c))"
  shows "fenced i tok c c'"
  using assms(1)
proof (induction rule: rtranclp_induct)
  case base
  show ?case using assms(3) unfolding fenced_def by (intro conjI exI [of _ "[]"]) auto
next
  case (step c1 c2)
  from fenced_step [OF step.IH step.hyps(2)] log_view.run_good [OF step.hyps(1) assms(2)] show ?case by blast
qed

end
