(* ===== verification/Saga_Store_Example.thy ===== *)
theory Saga_Store_Example
  imports Saga_Store_Safety
begin

text \<open>
  A store that holds the beginning of the example log and a current lease, for the instances of the
  properties of the store.
\<close>

section \<open>Sizes of the files\<close>

lemma SAGA_AUTHORITY_defined: "SAGA_AUTHORITY \<noteq> JUndef"
  by (simp add: SAGA_AUTHORITY_def)

lemma event_text_length:
  assumes "0 \<le> n" "0 \<le> t" "b \<noteq> JUndef" "p \<noteq> JUndef" "prev \<noteq> JUndef"
  shows "length (pretty 0 (event_body sid (JStr i) n prev rec ty t b p)) \<le>
    1500 + 6 * (length sid + length i + length rec + length ty) + length (dec_str n) + length (dec_str t) +
    length (pretty 1 prev) + length (pretty 1 b) + length (pretty 1 p) + length (pretty 1 SAGA_AUTHORITY)"
proof -
  have "list_all (\<lambda>k. length (json_quote k) \<le> 70) (EVENT_SCHEMA # SAGA_MARKER # EVENT_KEYS)"
    by code_simp
  then show ?thesis
    using json_quote_length [of sid] json_quote_length [of i] json_quote_length [of rec] json_quote_length [of ty] assms
    unfolding EVENT_KEYS_def list.pred_inject
    by (simp add: event_body_def nl_indent_def dec_str_small SAGA_AUTHORITY_defined)
qed

lemma ex_parts_length:
  "length (pretty 1 ex_binding) \<le> 1000" "length (pretty 1 SAGA_AUTHORITY) \<le> 2000"
  by code_simp+

lemma atomicWriteJson_size: "length (pretty 0 v) \<le> 1000000 \<Longrightarrow> fn_size (atomicWriteJson v) \<le> MAX_JSON_BYTES"
  using utf8_length [of "pretty 0 v @ [CHR 0x0A]"] by (simp add: atomicWriteJson_def MAX_JSON_BYTES_def)

lemma ex_event_size:
  assumes "0 \<le> n" "n < 64" "length ty \<le> 64" "p \<noteq> JUndef" "length (pretty 1 p) \<le> 10000"
  shows "fn_size (atomicWriteJson (ex_event n ty p)) \<le> MAX_JSON_BYTES"
proof (rule atomicWriteJson_size)
  let ?prev = "if n = 0 then JNull else JStr ex_event_id"
  have ids: "length ex_saga_id = 75" "length ex_event_id = 76"
    by (simp_all add: ex_saga_id_def ex_event_id_def SAGA_ID_PREFIX_def EVENT_ID_PREFIX_def)
  have "length (pretty 1 ?prev) \<le> 600" using json_quote_length [of ex_event_id] ids by simp
  moreover have "ex_binding \<noteq> JUndef" by (simp add: ex_binding_def)
  moreover have "length (dec_str 1) \<le> 2" "length (dec_str n) \<le> 2" using dec_str_length assms(1,2) by simp_all
  ultimately show "length (pretty 0 (ex_event n ty p)) \<le> 1000000"
    using event_text_length [of n 1 ex_binding p ?prev ex_saga_id ex_event_id "''2026-01-01T00:00:00.000Z''" ty]
      ex_parts_length ids assms unfolding ex_event_def by simp
qed

section \<open>The store\<close>

definition ex_files :: "jsv list \<Rightarrow> (string \<times> file_node) list" where
  "ex_files es = map (\<lambda>e. (event_filename e, atomicWriteJson e)) es"

definition ex_lease :: jsv where
  "ex_lease = lease_json (JStr ex_saga_id) (JStr ''owner-1'') 1 0 1000"

definition ex_dir :: "jsv list \<Rightarrow> saga_dir" where
  "ex_dir es = \<lparr> sd_meta = None, sd_events_meta = None, sd_events = ex_files es, sd_lease = Some (atomicWriteJson ex_lease) \<rparr>"

definition ex_store :: "jsv list \<Rightarrow> saga_store" where
  "ex_store es = \<lparr> ss_uid = None, ss_sagas = (\<lambda>i. ex_dir []) (ex_saga_id := ex_dir es) \<rparr>"

lemma ex_saga_id_shape: "prefix_hex SAGA_ID_PREFIX 64 ex_saga_id"
  by (simp add: ex_saga_id_def hex_n_def list_all_iff is_lower_hex_def)

lemma ex_lease_valid: "validateLease ex_lease = Inr ex_lease"
proof -
  have "safeId (JStr ''owner-1'') ''lease.owner_id'' = Inr ''owner-1''" by code_simp
  moreover have "text_or_empty (JStr ex_saga_id) = ex_saga_id" by (simp add: text_or_empty_def ex_saga_id_def SAGA_ID_PREFIX_def)
  ultimately show ?thesis
    using ex_saga_id_shape
    by (simp add: validateLease_def ex_lease_def lease_json_def saga_exactKeys_literal LEASE_KEYS_def safeInteger_def MAX_SAFE_INTEGER_def)
qed

lemma ex_store_lease: "lease_of (ex_store es) ex_saga_id = Inr ex_lease"
proof -
  have "readJsonFile (atomicWriteJson ex_lease) ''lease_file'' = Inr ex_lease"
    using lease_read_back [of 1 0 1000 ex_saga_id "''owner-1''" False "''lease_file''"]
    by (simp add: ex_lease_def jput_released_False MAX_SAFE_INTEGER_def ex_saga_id_def SAGA_ID_PREFIX_def)
  then show ?thesis by (simp add: lease_of_def read_lease_def sread_def ex_store_def ex_dir_def ex_lease_valid)
qed

lemma ex_store_holds: "n < 1000 \<Longrightarrow> holds_lease (ex_store es) ex_saga_id (JStr ''owner-1'') (JNum 1) n"
  by (simp add: holds_lease_def ex_store_lease lease_active_def ex_lease_def lease_json_fields)

section \<open>The first events\<close>

definition ex_first :: jsv where
  "ex_first = ex_event 0 (fst (ex_steps ! 0)) (snd (ex_steps ! 0))"

definition ex_second :: jsv where
  "ex_second = ex_event 1 (fst (ex_steps ! 1)) (snd (ex_steps ! 1))"

text \<open>A valid event that skips the claim.\<close>

definition ex_skip :: jsv where
  "ex_skip = ex_event 1 ''inventory_reserved'' (JObj [(''reservation_id'', ex_hex)])"

lemma ex_first_valid: "validateSagaEventV1 zero_digest ex_first = Inr ex_first" "ex_log 1 = [ex_first]"
  using ex_log_valid [of ex_first 1] by (simp_all add: ex_log_def ex_first_def ex_steps_def)

lemma ex_second_valid: "validateSagaEventV1 zero_digest ex_second = Inr ex_second" "ex_log 2 = [ex_first, ex_second]"
  using ex_log_valid [of ex_second 2] by (simp_all add: ex_log_def ex_second_def ex_first_def ex_steps_def)

lemma ex_skip_valid: "validateSagaEventV1 zero_digest ex_skip = Inr ex_skip"
  unfolding ex_skip_def using ex_payload_2 by (intro ex_event_valid) (simp_all add: ex_steps_def EVENT_TYPES_def)

lemma ex_events_plain: "plain ex_first" "plain ex_second" "plain ex_skip"
  by (simp_all add: ex_first_def ex_second_def ex_skip_def ex_steps_def ex_event_def event_body_def ex_binding_def
      SAGA_AUTHORITY_def ex_hex_def)

definition ex_wrong :: jsv where
  "ex_wrong = ex_event 0 ''inventory_reserved'' (JObj [(''reservation_id'', ex_hex)])"

lemma ex_wrong_valid: "validateSagaEventV1 zero_digest ex_wrong = Inr ex_wrong"
  unfolding ex_wrong_def using ex_payload_2 by (intro ex_event_valid) (simp_all add: ex_steps_def EVENT_TYPES_def)

lemma ex_payload_length:
  "length (pretty 1 (snd (ex_steps ! 0))) \<le> 10000" "length (pretty 1 (JObj [(''reservation_id'', ex_hex)])) \<le> 10000"
  by code_simp+

lemma ex_sizes:
  "fn_size (atomicWriteJson ex_first) \<le> MAX_JSON_BYTES" "fn_size (atomicWriteJson ex_wrong) \<le> MAX_JSON_BYTES"
  unfolding ex_first_def ex_wrong_def using ex_payload_length by (intro ex_event_size; simp add: ex_steps_def)+

section \<open>The record of the first event\<close>

definition ex_started :: saga_state where
  "ex_started = (initialState ex_binding (JStr ex_saga_id)) \<lparr> sg_state := ''initialized'', sg_event_count := 1,
     sg_last_event_id := JStr ex_event_id, sg_last_sequence := 0, sg_last_fencing_token := 1,
     sg_next_action := Some ''claim_payment'' \<rparr>"

lemma ex_first_fold: "foldSagaEventsV1 zero_digest [ex_first] = Inr ex_started"
proof -
  have f: "ex_first = ex_event 0 ''saga_initialized'' (snd (ex_steps ! 0))" by (simp add: ex_first_def ex_steps_def)
  show ?thesis
    unfolding f
    by (simp add: ex_first_valid(1) [unfolded f] Let_def foldSagaEventsV1_def ex_event_get fold_ex_event initialState_def apply_event_type_simps requireState_def
        deriveSagaNextActionV1_def NEXT_ACTIONS_def ex_started_def MAX_EVENTS_def)
qed

lemma ex_record_keys_clean:
  "list_all (\<lambda>k. normalizeKey k \<notin> set FORBIDDEN_KEYS)
     (RECORD_KEYS @ jkeys (buildSagaRecordStateProjection ex_started) @ jkeys SAGA_AUTHORITY)"
  by code_simp

lemmas ex_record_key_clean = ex_record_keys_clean [unfolded RECORD_KEYS_def SAGA_AUTHORITY_def
  buildSagaRecordStateProjection_def jkeys.simps list.map fst_conv append.simps list.pred_inject]

lemma ex_record_clean: "assertNoSecretMaterialV1 (record_body ex_started [ex_first]) ''record'' 0 = Inr ()"
proof -
  have auth: "assertNoSecretMaterialV1 SAGA_AUTHORITY q 1 = Inr ()" "assertNoSecretMaterialV1 SAGA_AUTHORITY q 3 = Inr ()" for q
    by (simp_all add: SAGA_AUTHORITY_def ex_record_key_clean)
  have binding: "assertNoSecretMaterialV1 ex_binding q 1 = Inr ()" "assertNoSecretMaterialV1 ex_binding q 3 = Inr ()" for q
    by (simp_all add: ex_binding_def ex_key_clean clean_text)
  have payload: "assertNoSecretMaterialV1 (snd (ex_steps ! 0)) q 3 = Inr ()" for q
    by (simp add: ex_steps_def ex_key_clean clean_text)
  have event: "assertNoSecretMaterialV1 ex_first q 2 = Inr ()" for q
    by (simp add: ex_first_def ex_event_def event_body_def ex_key_clean ex_clean clean_text binding auth payload ex_steps_def)
  have state: "assertNoSecretMaterialV1 (buildSagaRecordStateProjection ex_started) q 1 = Inr ()" for q
    by (simp add: buildSagaRecordStateProjection_def ex_started_def initialState_def jstr_opt_def ex_record_key_clean
        ex_clean clean_text)
  have "\<not> has_raw_credential SAGA_SCHEMA" "\<not> raw_transaction_like SAGA_SCHEMA" by (simp_all add: SAGA_SCHEMA_def clean_text)
  moreover have "sg_saga_id ex_started = JStr ex_saga_id" "sg_binding ex_started = ex_binding"
    by (simp_all add: ex_started_def initialState_def)
  ultimately show ?thesis
    by (simp add: record_body_def ex_record_key_clean ex_clean clean_text auth event state binding)
qed

lemma ex_record_built: "buildSagaRecordV1 zero_digest [ex_first] = Inr (record_body ex_started [ex_first])"
proof -
  let ?r = "record_body ex_started [ex_first]"
  have get: "jget ''schema'' ?r = JStr SAGA_SCHEMA" "jget ''marker'' ?r = JStr SAGA_MARKER" "jget ''version'' ?r = JNum 1"
    "jget ''saga_id'' ?r = sg_saga_id ex_started" "jget ''binding'' ?r = sg_binding ex_started"
    "jget ''events'' ?r = JArr [ex_first]" "jget ''state'' ?r = buildSagaRecordStateProjection ex_started"
    "jget ''authority'' ?r = SAGA_AUTHORITY"
    by (simp_all add: record_body_def)
  have keys: "saga_exactKeys ?r RECORD_KEYS ''record'' = Inr ()"
    unfolding record_body_def RECORD_KEYS_def by (rule saga_exactKeys_literal) simp
  show ?thesis
    by (simp add: buildSagaRecordV1_def validateSagaRecordV1_def keys get ex_first_fold ex_first_valid(1) same_json_def
        ex_record_clean)
qed

lemma ex_empty_recovered: "recover_dir H (ex_files []) = Inr JNull" "dir_events H (ex_files []) = Inr []"
  by (simp_all add: recover_dir_def dir_events_def ex_files_def sort_files_def map_filter_def)

lemma ex_first_dir: "dir_events zero_digest (ex_files [ex_first]) = Inr [ex_first]"
  using dir_events_snoc [OF ex_empty_recovered(2) ex_first_valid(1)] ex_sizes(1) ex_events_plain(1)
  by (simp add: ex_files_def ex_first_def ex_event_get not_less [symmetric])

lemma ex_first_recovered: "recover_dir zero_digest (ex_files [ex_first]) = Inr (record_body ex_started [ex_first])"
  by (simp add: recover_dir_eq ex_first_dir ex_record_built)

section \<open>An append to the empty store\<close>

text \<open>The store after the directories of the saga were created.\<close>

definition ex_made :: dir_meta where
  "ex_made = \<lparr> dm_directory = True, dm_symlink = False, dm_uid = 0, dm_mode = 448 \<rparr>"

definition ex_store_made :: "jsv list \<Rightarrow> saga_store" where
  "ex_store_made es = (ex_store es) \<lparr> ss_sagas := (ss_sagas (ex_store es)) (ex_saga_id :=
     (ex_dir es) \<lparr> sd_meta := Some ex_made, sd_events_meta := Some ex_made \<rparr>) \<rparr>"

lemma ex_ensure: "ensurePrivateDirectory None None = Inr ex_made" "ensurePrivateDirectory None (Some ex_made) = Inr ex_made"
  by (simp_all add: ensurePrivateDirectory_def ex_made_def)

lemma ex_store_same: "same_files (ex_store es) (ex_store_made es)"
  by (simp add: same_files_def ex_store_def ex_store_made_def)

lemma ex_locations: "locations (JStr ex_saga_id) (ex_store es) = (Inr ex_saga_id, ex_store_made es)"
proof -
  have "text_or_empty (JStr ex_saga_id) = ex_saga_id" by (simp add: text_or_empty_def ex_saga_id_def SAGA_ID_PREFIX_def)
  then show ?thesis
    using ex_saga_id_shape
    by (simp add: locations_def sbind_def sread_def update_dir_def slift_def ex_store_def ex_store_made_def ex_dir_def ex_ensure)
qed

text \<open>The steps of an append to the empty store by the holder of the lease.\<close>

lemma ex_made_located: "located (ex_store_made es) ex_saga_id"
  by (simp add: located_def ex_store_made_def ex_store_def ex_ensure)

lemma ex_made_events: "sd_events (ss_sagas (ex_store_made es) ex_saga_id) = ex_files es"
  by (simp add: ex_store_made_def ex_dir_def)

lemma ex_made_holds: "n < 1000 \<Longrightarrow> holds_lease (ex_store_made es) ex_saga_id (JStr ''owner-1'') (JNum 1) n"
  using ex_store_holds holds_lease_same_files [OF ex_store_same] by blast

lemma ex_made_lease: "requireCurrentLease ex_saga_id (JStr ''owner-1'') (JNum 1) 0 (ex_store_made es) = (Inr (), ex_store_made es)"
  using requireCurrentLease_eq ex_made_holds [of 0 es] by (metis prod.collapse zero_less_numeral)

lemma ex_made_recover: "recover H (JStr ex_saga_id) (ex_store_made []) = (Inr JNull, ex_store_made [])"
  using recover_located [OF ex_made_located ex_saga_id_shape] by (simp add: ex_made_events ex_empty_recovered)

definition ex_written :: "jsv \<Rightarrow> saga_store" where
  "ex_written e = (ex_store_made []) \<lparr> ss_sagas := (ss_sagas (ex_store_made []))(ex_saga_id :=
     (ss_sagas (ex_store_made []) ex_saga_id) \<lparr> sd_events := ex_files [e] \<rparr>) \<rparr>"

lemma ex_written_events: "sd_events (ss_sagas (ex_written e) ex_saga_id) = ex_files [e]"
  by (simp add: ex_written_def)

lemma ex_made_write:
  assumes "jget ''saga_id'' e = JStr ex_saga_id"
  shows "write_event H ex_saga_id e (ex_store_made []) = (recover_dir H (ex_files [e]), ex_written e)"
  using write_event_fresh [OF ex_made_located ex_saga_id_shape assms, of "[]"]
  by (simp add: ex_made_events ex_files_def ex_written_def)

lemma ex_append:
  assumes "validateSagaEventV1 H e = Inr e" "jget ''saga_id'' e = JStr ex_saga_id" "jget ''sequence'' e = JNum 0"
    "jget ''previous_event_id'' e = JNull" "jget ''fencing_token'' e = JNum 1"
  shows "appendEvent H None e (JStr ''owner-1'') (JNum 1) 0 (ex_store []) = (recover_dir H (ex_files [e]), ex_written e)"
    "appendEventWithAdmission H None e (JStr ''owner-1'') (JNum 1) 0 (Some (slift (Inr (JBool True)))) (ex_store []) =
      (recover_dir H (ex_files [e]), ex_written e)"
proof -
  have "requireHead JNull e = Inr ()" using assms(3,4) by (simp add: requireHead_def)
  then show "appendEvent H None e (JStr ''owner-1'') (JNum 1) 0 (ex_store []) = (recover_dir H (ex_files [e]), ex_written e)"
    "appendEventWithAdmission H None e (JStr ''owner-1'') (JNum 1) 0 (Some (slift (Inr (JBool True)))) (ex_store []) =
      (recover_dir H (ex_files [e]), ex_written e)"
    by (simp_all add: appendEvent_def appendEventWithAdmission_def assms ex_locations sbind_step(1) withExclusiveLock_def
        ex_made_lease ex_made_recover ex_made_write)
qed

end
