(* ===== verification/Saga_Store_Properties.thy ===== *)
theory Saga_Store_Properties
  imports Saga_Store_Example
begin

text \<open>
  The properties of the saga store, each with an instance at the example store.
\<close>

section \<open>Instances\<close>

lemma ex_first_get:
  "jget ''saga_id'' ex_first = JStr ex_saga_id" "jget ''sequence'' ex_first = JNum 0"
  "jget ''previous_event_id'' ex_first = JNull" "jget ''fencing_token'' ex_first = JNum 1"
  by (simp_all add: ex_first_def ex_event_get)

lemma ex_wrong_get:
  "jget ''saga_id'' ex_wrong = JStr ex_saga_id" "jget ''sequence'' ex_wrong = JNum 0"
  "jget ''previous_event_id'' ex_wrong = JNull" "jget ''fencing_token'' ex_wrong = JNum 1"
  by (simp_all add: ex_wrong_def ex_event_get)

lemma ex_append_first:
  "appendEvent zero_digest None ex_first (JStr ''owner-1'') (JNum 1) 0 (ex_store []) =
     (Inr (record_body ex_started [ex_first]), ex_written ex_first)"
  "appendEventWithAdmission zero_digest None ex_first (JStr ''owner-1'') (JNum 1) 0 (Some (slift (Inr (JBool True)))) (ex_store []) =
     (Inr (record_body ex_started [ex_first]), ex_written ex_first)"
  using ex_append [OF ex_first_valid(1) ex_first_get] by (simp_all add: ex_first_recovered)

text \<open>Another owner takes the lease over after it expired.\<close>

definition ex_new_lease :: jsv where
  "ex_new_lease = lease_json (JStr ex_saga_id) (JStr ''owner-2'') 2 2000 2100"

definition ex_decision :: jsv where
  "ex_decision = JObj [(''ok'', JBool True), (''status'', JStr ''acquired''), (''lease'', ex_new_lease)]"

definition ex_taken :: saga_store where
  "ex_taken = snd (write_lease ex_saga_id ex_new_lease (ex_store_made []))"

lemma ex_acquire:
  "acquireLease None (JStr ex_saga_id) (JStr ''owner-2'') (JNum 2000) (JNum 100) (ex_store []) = (Inr ex_decision, ex_taken)"
  "acquireLease None (JStr ex_saga_id) (JStr ''owner-2'') (JNum 2000) (JNum 100) (ex_store_made []) = (Inr ex_decision, ex_taken)"
proof -
  have ids: "safeId (JStr ''owner-2'') ''owner_id'' = Inr ''owner-2''" "safeId (JStr ''owner-2'') ''lease.owner_id'' = Inr ''owner-2''"
    by code_simp+
  have saga: "text_or_empty (JStr ex_saga_id) = ex_saga_id" by (simp add: text_or_empty_def ex_saga_id_def SAGA_ID_PREFIX_def)
  have valid: "validateLease ex_new_lease = Inr ex_new_lease"
    using ex_saga_id_shape saga ids(2)
    by (simp add: validateLease_def ex_new_lease_def lease_json_def saga_exactKeys_literal LEASE_KEYS_def safeInteger_def MAX_SAFE_INTEGER_def)
  have rd: "read_lease ex_saga_id (ex_store_made []) = (Inr ex_lease, ex_store_made [])"
    using ex_store_lease [of "[]"] lease_of_same_files [OF ex_store_same] by (simp add: read_lease_eq)
  have prev: "\<not> lease_active ex_lease 2000" "jget ''saga_id'' ex_lease = JStr ex_saga_id" "ex_lease \<noteq> JNull"
    "jget ''fencing_token'' ex_lease = JNum 1"
    by (simp_all add: lease_active_def ex_lease_def lease_json_def)
  have wr: "write_lease ex_saga_id ex_new_lease (ex_store_made []) = (Inr (), ex_taken)"
    by (simp add: ex_taken_def write_lease_def update_dir_def)
  show "acquireLease None (JStr ex_saga_id) (JStr ''owner-2'') (JNum 2000) (JNum 100) (ex_store []) = (Inr ex_decision, ex_taken)"
    "acquireLease None (JStr ex_saga_id) (JStr ''owner-2'') (JNum 2000) (JNum 100) (ex_store_made []) = (Inr ex_decision, ex_taken)"
    using valid wr
    by (simp_all add: acquireLease_def ex_locations locations_again [OF ex_made_located ex_saga_id_shape] sbind_step(1) ids
        safeInteger_def MAX_SAFE_INTEGER_def MAX_LEASE_TTL_MS_def
        withExclusiveLock_def rd prev ex_new_lease_def [symmetric] ex_decision_def slift_def)
qed




section \<open>Appending\<close>

text \<open>
  C20. An append that succeeds extends the log on disk by exactly its event, leaves the logs of all
  other sagas alone, and returns the record of the extended log, which the fold accepts.
\<close>

theorem append_extends_log:
  assumes "appendEvent H lock e owner_id fencing_token now_ms s = (Inr r, s')" "plain e"
  shows "\<exists>i es st. jget ''saga_id'' e = JStr i \<and> saga_log H s i = Inr es \<and> saga_log H s' i = Inr (es @ [e]) \<and>
    foldSagaEventsV1 H (es @ [e]) = Inr st \<and> r = record_body st (es @ [e]) \<and>
    (\<forall>j. j \<noteq> i \<longrightarrow> saga_log H s' j = saga_log H s j)"
proof -
  have "appended H e owner_id fencing_token now_ms s (Inr r) s'" using appendEvent_cases [OF assms(1)] by simp
  then obtain i es where a: "jget ''saga_id'' e = JStr i" "saga_log H s i = Inr es"
    "saga_log H s' i = (if fn_size (atomicWriteJson e) > MAX_JSON_BYTES then Inl ''event_file_size_out_of_range'' else Inr (es @ [e]))"
    "\<forall>j. j \<noteq> i \<longrightarrow> saga_log H s' j = saga_log H s j" "Inr r = recover_dir H (sd_events (ss_sagas s' i))"
    using assms(2) by (rule appended_log)
  from a(5) [symmetric] show ?thesis
  proof (cases rule: recover_dir_Inr)
    case (1 es')
    then show ?thesis using a(3) by (simp add: saga_log_def split: if_splits)
  next
    case (2 es' st)
    then have "es' = es @ [e]" using a(3) by (simp add: saga_log_def split: if_splits)
    with 2 a show ?thesis by (auto simp: saga_log_def)
  qed
qed

theorem append_extends_log_witness:
  "\<exists>i es st. jget ''saga_id'' ex_first = JStr i \<and> saga_log zero_digest (ex_store []) i = Inr es \<and>
    saga_log zero_digest (ex_written ex_first) i = Inr (es @ [ex_first]) \<and>
    foldSagaEventsV1 zero_digest (es @ [ex_first]) = Inr st"
  using append_extends_log [OF ex_append_first(1) ex_events_plain(1)] by blast

text \<open>
  C21. No event reaches the disk without the lease: if an append changes the event files of a saga,
  then the caller is the owner on the saga's lease file, the lease is neither released nor expired,
  the caller's fencing token is the one on file, the event carries that token, and the event follows
  the last event of the log.
\<close>

theorem append_requires_current_lease:
  assumes "appendEvent H lock e owner_id fencing_token now_ms s = (r, s')"
    and "sd_events (ss_sagas s' i) \<noteq> sd_events (ss_sagas s i)"
  shows "jget ''saga_id'' e = JStr i \<and> holds_lease s i owner_id fencing_token now_ms \<and>
    jget ''fencing_token'' e = fencing_token \<and>
    (\<exists>es. saga_log H s i = Inr es \<and> jget ''sequence'' e = JNum (int (length es)) \<and>
       jget ''previous_event_id'' e = (if es = [] then JNull else jget ''event_id'' (last es)))"
proof -
  from appendEvent_cases [OF assms(1)] assms(2) same_filesD(1) have "appended H e owner_id fencing_token now_ms s r s'" by blast
  then obtain j current where a: "jget ''saga_id'' e = JStr j" "holds_lease s j owner_id fencing_token now_ms"
    "jget ''fencing_token'' e = fencing_token" "recover_dir H (sd_events (ss_sagas s j)) = Inr current"
    "requireHead current e = Inr ()" "\<forall>k. k \<noteq> j \<longrightarrow> sd_events (ss_sagas s' k) = sd_events (ss_sagas s k)"
    unfolding appended_def by blast
  have "j = i" using a(6) assms(2) by metis
  from a(4) obtain es where es: "dir_events H (sd_events (ss_sagas s j)) = Inr es" by (cases rule: recover_dir_Inr) blast+
  from recovered_head [OF a(4,5) es] es a \<open>j = i\<close> show ?thesis unfolding saga_log_def by blast
qed

theorem append_requires_current_lease_witness:
  "sd_events (ss_sagas (ex_written ex_first) ex_saga_id) \<noteq> sd_events (ss_sagas (ex_store []) ex_saga_id) \<and>
   holds_lease (ex_store []) ex_saga_id (JStr ''owner-1'') (JNum 1) 0"
proof -
  have "sd_events (ss_sagas (ex_written ex_first) ex_saga_id) \<noteq> sd_events (ss_sagas (ex_store []) ex_saga_id)"
    by (simp add: ex_written_events ex_files_def ex_store_def ex_dir_def)
  with append_requires_current_lease [OF ex_append_first(1)] show ?thesis by blast
qed

text \<open>
  The admission callback of the second form of the append may change the store in any way, but
  the event is written only if the callback returns \<^verbatim>\<open>true\<close> and the store it leaves still has the
  caller's lease current and the event's predecessor as head.
\<close>

theorem admission_is_rechecked:
  assumes "appendEventWithAdmission H lock e owner_id fencing_token now_ms admission s = (Inr r, s')"
  shows "\<exists>admit i s1 s2 es. admission = Some admit \<and> same_files s s1 \<and> admit s1 = (Inr (JBool True), s2) \<and>
    jget ''saga_id'' e = JStr i \<and> holds_lease s2 i owner_id fencing_token now_ms \<and>
    saga_log H s2 i = Inr es \<and> jget ''sequence'' e = JNum (int (length es)) \<and>
    sd_events (ss_sagas s' i) = sd_events (ss_sagas s2 i) @ [(event_filename e, atomicWriteJson e)]"
proof -
  from appendEventWithAdmission_cases [OF assms] obtain admit s1 s2 where a: "admission = Some admit" "same_files s s1"
    "admit s1 = (Inr (JBool True), s2)" "appended H e owner_id fencing_token now_ms s2 (Inr r) s'" by auto
  from a(4) obtain i current where b: "jget ''saga_id'' e = JStr i" "holds_lease s2 i owner_id fencing_token now_ms"
    "recover_dir H (sd_events (ss_sagas s2 i)) = Inr current" "requireHead current e = Inr ()"
    "sd_events (ss_sagas s' i) = sd_events (ss_sagas s2 i) @ [(event_filename e, atomicWriteJson e)]"
    unfolding appended_def by blast
  from b(3) obtain es where es: "dir_events H (sd_events (ss_sagas s2 i)) = Inr es" by (cases rule: recover_dir_Inr) blast+
  from recovered_head(1) [OF b(3,4) es] es a b show ?thesis unfolding saga_log_def by blast
qed

theorem admission_is_rechecked_witness:
  "\<exists>r. appendEventWithAdmission zero_digest None ex_first (JStr ''owner-1'') (JNum 1) 0 (Some (slift (Inr (JBool True))))
     (ex_store []) = (Inr r, ex_written ex_first) \<and>
   (\<exists>i s2. holds_lease s2 i (JStr ''owner-1'') (JNum 1) 0 \<and>
     sd_events (ss_sagas (ex_written ex_first) i) = sd_events (ss_sagas s2 i) @ [(event_filename ex_first, atomicWriteJson ex_first)])"
  using admission_is_rechecked [OF ex_append_first(2)] ex_append_first(2) by blast

section \<open>Leases\<close>

text \<open>
  C23. Acquiring a lease. While the lease on file is unreleased and unexpired and belongs to another
  owner, the request is answered with \<^verbatim>\<open>held\<close> and no file changes. Otherwise the caller holds the
  lease afterwards, with the previous token if it renews its own active lease and the next token
  if not; the event files never change.
\<close>

theorem lease_exclusive:
  assumes "acquireLease lock (JStr i) owner_id now_ms ttl_ms s = (Inr d, s')"
  shows "\<exists>previous. lease_of s i = Inr previous \<and>
    (if lease_active previous (num_of now_ms) \<and> jget ''owner_id'' previous \<noteq> owner_id
     then jget ''ok'' d = JBool False \<and> same_files s s'
     else jget ''ok'' d = JBool True \<and>
       holds_lease s' i owner_id (jget ''fencing_token'' (jget ''lease'' d)) (num_of now_ms) \<and>
       jget ''fencing_token'' (jget ''lease'' d) =
         JNum (if lease_active previous (num_of now_ms) then lease_token previous else lease_token previous + 1) \<and>
       (\<forall>j. sd_events (ss_sagas s' j) = sd_events (ss_sagas s j)))"
  using assms
proof (cases rule: acquireLease_Inr)
  case (1 j previous)
  then show ?thesis by auto
next
  case (2 j previous)
  moreover have "jget ''lease'' d \<noteq> JNull" using 2(10) by (simp add: lease_active_def)
  ultimately have "holds_lease s' i owner_id (jget ''fencing_token'' (jget ''lease'' d)) (num_of now_ms)"
    by (auto simp: holds_lease_def)
  with 2 show ?thesis by auto
qed

theorem lease_exclusive_witness:
  "acquireLease None (JStr ex_saga_id) (JStr ''owner-2'') (JNum 2000) (JNum 100) (ex_store []) = (Inr ex_decision, ex_taken) \<and>
   holds_lease ex_taken ex_saga_id (JStr ''owner-2'') (JNum 2) 2000"
proof -
  have "\<not> lease_active ex_lease 2000" by (simp add: lease_active_def ex_lease_def lease_json_def)
  moreover have "jget ''fencing_token'' (jget ''lease'' ex_decision) = JNum 2"
    by (simp add: ex_decision_def ex_new_lease_def lease_json_def)
  ultimately show ?thesis
    using lease_exclusive [OF ex_acquire(1)] ex_acquire(1) ex_store_lease [of "[]"] by auto
qed




section \<open>Interleaved operations\<close>

text \<open>
  C25. The log is append-only, however the operations are interleaved: from a store with no append
  under way, after any recoveries, lease operations, appends and appends with admission, some perhaps
  still under way and some cut off by the death of their process, the log a saga's directory is
  recovered as begins with the log it was recovered as before, or the directory can no longer be
  recovered. Every call of \<^verbatim>\<open>appendEvent\<close> is a run of such steps, and so is every call of
  \<^verbatim>\<open>appendEventWithAdmission\<close> whose callback does to the store what is a run of such steps.
\<close>

theorem store_log_append_only:
  assumes "accepted_log H i s = Some es" "(saga_step H)\<^sup>*\<^sup>* (s, idle) (s', fl)"
  shows "(accepted_log H i s' = None \<or> (\<exists>fs. accepted_log H i s' = Some (es @ fs))) \<and>
    (\<forall>lock e ow t n r u. appendEvent H lock e ow t n s = (r, u) \<longrightarrow> (saga_step H)\<^sup>*\<^sup>* (s, idle) (u, idle)) \<and>
    (\<forall>lock e ow t n admission r u. appendEventWithAdmission H lock e ow t n admission s = (r, u) \<and>
      (\<forall>admit v q v' fl. admission = Some admit \<and> admit v = (q, v') \<longrightarrow> (saga_step H)\<^sup>*\<^sup>* (v, fl) (v', fl)) \<longrightarrow>
      (saga_step H)\<^sup>*\<^sup>* (s, idle) (u, idle))"
proof (intro conjI allI impI)
  show "accepted_log H i s' = None \<or> (\<exists>fs. accepted_log H i s' = Some (es @ fs))"
    using log_view.run_leq [OF assms(2) system_ok_idle, of i] assms(1) by (auto simp: log_leq_def)
qed (blast intro: appendEvent_run appendEventWithAdmission_run)+

theorem store_log_append_only_witness:
  "accepted_log zero_digest ex_saga_id (ex_store []) = Some [] \<and>
   (saga_step zero_digest)\<^sup>*\<^sup>* (ex_store [], idle) (ex_written ex_first, idle) \<and>
   accepted_log zero_digest ex_saga_id (ex_written ex_first) = Some ([] @ [ex_first])"
proof -
  have empty: "accepted_log zero_digest ex_saga_id (ex_store []) = Some []"
    by (simp add: accepted_log_def saga_log_def ex_store_def ex_dir_def ex_empty_recovered)
  from store_log_append_only [OF empty rtranclp.rtrancl_refl]
  have run: "(saga_step zero_digest)\<^sup>*\<^sup>* (ex_store [], idle) (ex_written ex_first, idle)" using ex_append_first(1) by blast
  have "accepted_log zero_digest ex_saga_id (ex_written ex_first) = None \<or>
      (\<exists>fs. accepted_log zero_digest ex_saga_id (ex_written ex_first) = Some ([] @ fs))"
    using store_log_append_only [OF empty run] by blast
  moreover have "accepted_log zero_digest ex_saga_id (ex_written ex_first) = Some [ex_first]"
    by (simp add: accepted_log_def saga_log_def ex_written_events ex_first_dir ex_first_recovered)
  ultimately show ?thesis using empty run by simp
qed

text \<open>
  Fencing tokens never decrease: after any run the token on a saga's lease file is at least the one
  that was there before, or the file is no longer a lease.
\<close>

theorem fencing_tokens_monotone:
  assumes "token_view i s = Some t" "(saga_step H)\<^sup>*\<^sup>* (s, fl) (s', fl')"
  shows "token_view i s' = None \<or> (\<exists>t' \<ge> t. token_view i s' = Some t')"
  using token_monotone.run_leq [OF assms(2), of i] assms(1) by (auto simp: token_leq_def)

section \<open>The log is written before it is checked\<close>

lemma run_dead:
  assumes "accepted_log H i s = None" "(saga_step H)\<^sup>*\<^sup>* (s, idle) (t, fl)"
  shows "isl (fst (recover H (JStr i) t))"
proof -
  have none: "accepted_log H i t = None"
    using log_view.run_leq [OF assms(2) system_ok_idle, of i] assms(1) by (simp add: log_leq_def)
  obtain r s' where r: "recover H (JStr i) t = (r, s')" by force
  have "recover_dir H (sd_events (ss_sagas t i)) \<noteq> Inr c" for c
  proof
    assume c: "recover_dir H (sd_events (ss_sagas t i)) = Inr c"
    then obtain es where "saga_log H t i = Inr es" unfolding saga_log_def by (cases rule: recover_dir_Inr) blast+
    with c none show False by (simp add: accepted_log_def)
  qed
  with recover_Inr [of H "JStr i" t _ s' i] r show ?thesis by (cases r) auto
qed

text \<open>
  C27. An append writes the event file first and folds the log afterwards. If the holder of the lease
  appends a valid event with the right position that is not a legal next step of the log, the append
  fails with the error of the fold, but the event stays on disk, and from then on every recovery of
  the saga fails, whatever operations follow and however they are interleaved: the saga is lost.
\<close>

theorem illegal_event_bricks_saga:
  assumes "validateSagaEventV1 H e = Inr e" "plain e" "jget ''saga_id'' e = JStr i"
    and "located s i" "prefix_hex SAGA_ID_PREFIX 64 i"
    and "holds_lease s i owner_id fencing_token now_ms" "jget ''fencing_token'' e = fencing_token"
    and "saga_log H s i = Inr es" "recover_dir H (sd_events (ss_sagas s i)) = Inr current" "requireHead current e = Inr ()"
    and "fn_size (atomicWriteJson e) \<le> MAX_JSON_BYTES" "foldSagaEventsV1 H (es @ [e]) = Inl err"
  shows "\<exists>s'. appendEvent H None e owner_id fencing_token now_ms s = (Inl err, s') \<and>
    saga_log H s' i = Inr (es @ [e]) \<and>
    (\<forall>t fl. (saga_step H)\<^sup>*\<^sup>* (s', idle) (t, fl) \<longrightarrow> isl (fst (recover H (JStr i) t)))"
proof -
  define s' where "s' = s \<lparr> ss_sagas := (ss_sagas s)(i := (ss_sagas s i) \<lparr> sd_events :=
       sd_events (ss_sagas s i) @ [(event_filename e, atomicWriteJson e)] \<rparr>) \<rparr>"
  have es: "dir_events H (sd_events (ss_sagas s i)) = Inr es" using assms(8) by (simp add: saga_log_def)
  note seq = recovered_head(1) [OF assms(9,10) es]
  have fresh: "event_filename e \<notin> set (map fst (sd_events (ss_sagas s i)))"
    by (rule next_name_fresh [OF es assms(1) seq])
  have log': "saga_log H s' i = Inr (es @ [e])"
    using dir_events_snoc [OF es assms(1) seq assms(2)] assms(11) by (simp add: saga_log_def s'_def)
  then have dead: "recover_dir H (sd_events (ss_sagas s' i)) = Inl err"
    using buildSagaRecordV1_Inl [OF assms(12)] by (simp add: recover_dir_eq saga_log_def)
  have lease: "requireCurrentLease i owner_id fencing_token now_ms s = (Inr (), s)"
    using requireCurrentLease_eq assms(6) by (metis prod.collapse)
  have "appendEvent H None e owner_id fencing_token now_ms s = write_event H i e s"
    using assms(1,3,7,10) lease locations_again [OF assms(4,5)] recover_located [OF assms(4,5), of H] assms(9)
    by (simp add: appendEvent_def sbind_step(1) withExclusiveLock_def)
  also have "\<dots> = (Inl err, s')" using write_event_fresh [OF assms(4,5,3) fresh s'_def, of H] dead by simp
  finally show ?thesis using log' run_dead [of H i s'] dead by (auto simp: accepted_log_def)
qed

theorem illegal_event_bricks_saga_witness:
  "\<exists>err s'. appendEvent zero_digest None ex_wrong (JStr ''owner-1'') (JNum 1) 0 (ex_store_made []) = (Inl err, s') \<and>
     saga_log zero_digest s' ex_saga_id = Inr [ex_wrong] \<and>
     (\<forall>t fl. (saga_step zero_digest)\<^sup>*\<^sup>* (s', idle) (t, fl) \<longrightarrow> isl (fst (recover zero_digest (JStr ex_saga_id) t)))"
proof -
  have w: "ex_wrong = ex_event 0 ''inventory_reserved'' (JObj [(''reservation_id'', ex_hex)])" by (fact ex_wrong_def)
  have plain: "plain ex_wrong"
    by (simp add: ex_wrong_def ex_event_def event_body_def ex_binding_def SAGA_AUTHORITY_def ex_hex_def)
  have fold: "foldSagaEventsV1 zero_digest ([] @ [ex_wrong]) = Inl ''transition_empty_to_inventory_reserved_forbidden''"
    unfolding w
    by (simp add: ex_wrong_valid [unfolded w] Let_def foldSagaEventsV1_def ex_event_get fold_ex_event initialState_def
        apply_event_type_simps requireState_def MAX_EVENTS_def)
  have head: "requireHead JNull ex_wrong = Inr ()" by (simp add: requireHead_def ex_wrong_get)
  have log: "saga_log zero_digest (ex_store_made []) ex_saga_id = Inr []"
    "recover_dir zero_digest (sd_events (ss_sagas (ex_store_made []) ex_saga_id)) = Inr JNull"
    by (simp_all add: saga_log_def ex_made_events ex_empty_recovered)
  from illegal_event_bricks_saga [OF ex_wrong_valid plain ex_wrong_get(1) ex_made_located ex_saga_id_shape
      ex_made_holds ex_wrong_get(4) log head ex_sizes(2) fold]
  show ?thesis by force
qed

end
