(* ===== verification/Saga_Supervisor.thy ===== *)
theory Saga_Supervisor
  imports Saga_Store
begin

text \<open>
  \<^verbatim>\<open>tools/buy-void-crash-consistent-fulfillment-saga-v1.mjs\<close>, lines 1269 to 1509: one tick of the
  supervisor takes the lease, recovers the log, asks for the next action, runs the caller's adapter
  for it and appends the event the result stands for. A broadcast intent is appended before the
  adapter that may broadcast is called.
\<close>

section \<open>The event of an action's result\<close>

definition ACTION_EVENT_TYPES :: "(string \<times> string) list" where
  "ACTION_EVENT_TYPES = [
     (''claim_payment'', ''claim_committed''),
     (''reserve_inventory'', ''inventory_reserved''),
     (''reserve_execution_attempt'', ''attempt_reserved''),
     (''prepare_transaction'', ''transaction_prepared''),
     (''closeout_confirmed_delivery'', ''closeout_committed'')]"

definition resultEventType :: "string \<Rightarrow> jsv \<Rightarrow> string res" where
  "resultEventType action outcome =
     (if action = ''execute_prepared_transaction'' then
        (if outcome \<notin> set (map JStr [''broadcast_not_attempted'', ''broadcast_unknown'', ''broadcast_accepted''])
         then Inl ''execution_outcome_invalid'' else Inr (str_of outcome))
      else if action = ''reconcile_possible_broadcast'' then
        (if outcome \<notin> set (map JStr [''broadcast_accepted'', ''receipt_confirmed'', ''receipt_reverted'', ''terminal_hold''])
         then Inl ''reconciliation_outcome_invalid'' else Inr (str_of outcome))
      else case map_of ACTION_EVENT_TYPES action of
        None \<Rightarrow> Inl ''action_event_mapping_missing'' | Some eventType \<Rightarrow> Inr eventType)"

text \<open>The next action of a recovered record.\<close>

definition record_next_action :: "jsv \<Rightarrow> next_action res" where
  "record_next_action record =
     deriveSagaNextActionV1 (str_of (jpath [''state'', ''state''] record)) (js_truthy (jpath [''state'', ''terminal''] record))"

definition buildNextEventFromActionResultV1 ::
  "(string \<Rightarrow> string) \<Rightarrow> jsv \<Rightarrow> string \<Rightarrow> jsv \<Rightarrow> jsv \<Rightarrow> jsv \<Rightarrow> jsv res" where
  "buildNextEventFromActionResultV1 H record action result fencing_token recorded_at_utc =
     bnd (validateSagaRecordV1 H record) (\<lambda>current.
     bnd (record_next_action current) (\<lambda>nx.
     let completingWriteAheadBroadcast = (action = ''execute_prepared_transaction'' \<and>
           jpath [''state'', ''state''] current = JStr ''broadcast_intent_committed'')
     in
     if action = ''execute_prepared_transaction'' \<and> \<not> completingWriteAheadBroadcast
     then Inl ''broadcast_intent_required_before_execution_result''
     else if \<not> completingWriteAheadBroadcast \<and> na_action nx \<noteq> Some action
     then Inl ''action_does_not_match_current_state''
     else
     bnd (directObject result ''action_result'') (\<lambda>_.
     bnd (assertNoSecretMaterialV1 result ''action_result'' 0) (\<lambda>_.
     bnd (resultEventType action (jget ''outcome'' result)) (\<lambda>eventType.
     buildSagaEventV1 H
       \<lparr> in_binding = jget ''binding'' current,
         in_sequence = jpath [''state'', ''event_count''] current,
         in_previous_event_id = jpath [''state'', ''last_event_id''] current,
         in_recorded_at_utc = recorded_at_utc,
         in_event_type = JStr eventType,
         in_fencing_token = fencing_token,
         in_payload = jget ''payload'' result \<rparr>)))))"

section \<open>Trusted parts of the input\<close>

text \<open>
  A property of the input that should be a function: absent, a function, or anything else (another
  value, an accessor, or inherited).
\<close>

datatype 'f callback = NoProperty | Callable 'f | NotCallable

definition captureBeforeBroadcastIntentAppendV1 :: "'f callback \<Rightarrow> 'f option res" where
  "captureBeforeBroadcastIntentAppendV1 property =
     (case property of NoProperty \<Rightarrow> Inr None
      | Callable f \<Rightarrow> Inr (Some f)
      | NotCallable \<Rightarrow> Inl ''supervisor_broadcast_intent_admission_invalid'')"

definition captureExpectedExecutePredecessorV1 :: "jsv option \<Rightarrow> jsv option res" where
  "captureExpectedExecutePredecessorV1 property =
     (case property of None \<Rightarrow> Inr None
      | Some v \<Rightarrow>
        let saga_id = jget ''saga_id'' v; event_count = jget ''event_count'' v; last_event_id = jget ''last_event_id'' v in
        if \<not> is_obj v then Inl ''supervisor_execute_predecessor_invalid''
        else if \<not> same_keys v [''saga_id'', ''event_count'', ''last_event_id'']
        then Inl ''supervisor_execute_predecessor_invalid''
        else if \<not> is_str saga_id \<or> slen (str_of saga_id) \<noteq> 75 \<or> \<not> prefix_hex SAGA_ID_PREFIX 64 (str_of saga_id) \<or>
           \<not> isSafeInteger event_count \<or> num_of event_count < 1 \<or> num_of event_count \<ge> MAX_EVENTS \<or>
           \<not> is_str last_event_id \<or> slen (str_of last_event_id) \<noteq> 76 \<or>
           \<not> prefix_hex EVENT_ID_PREFIX 64 (str_of last_event_id)
        then Inl ''supervisor_execute_predecessor_invalid''
        else Inr (Some (JObj [(''saga_id'', saga_id), (''event_count'', event_count), (''last_event_id'', last_event_id)])))"

section \<open>One tick\<close>

text \<open>The five places where a tick waits for a lock.\<close>

datatype lock_site = AcquireSite | InitializeSite | IntentSite | ResultSite | ReleaseSite

record tick_input =
  ti_expected_execute_predecessor :: "jsv option"
  ti_before_broadcast_intent_append :: "jsv sop callback"
  ti_binding :: jsv
  ti_owner_id :: jsv
  ti_now_ms :: jsv
  ti_lease_ttl_ms :: jsv
  ti_recorded_at_utc :: jsv
  ti_source_floor_main :: jsv
  ti_policy_id :: jsv
  ti_apply :: jsv
  ti_confirmation :: jsv
  ti_action_confirmation :: jsv
  ti_adapters :: "string \<Rightarrow> (jsv \<Rightarrow> jsv sop) option"
  ti_locks :: "lock_site \<Rightarrow> string option"

text \<open>What a tick knows once it holds the lease.\<close>

record tick_context =
  tc_expected :: "jsv option"
  tc_before :: "jsv sop option"
  tc_binding :: jsv
  tc_saga_id :: string
  tc_owner_id :: jsv
  tc_now_ms :: int
  tc_fencing_token :: jsv

definition tick_initial_payload :: "tick_input \<Rightarrow> jsv res" where
  "tick_initial_payload inp =
     bnd (gitSha (ti_source_floor_main inp) ''source_floor_main'') (\<lambda>floor_main.
     bnd (safeId (ti_policy_id inp) ''policy_id'') (\<lambda>policy.
     Inr (JObj [(''source_floor_main'', JStr floor_main), (''policy_id'', JStr policy), (''max_attempts'', JNum 1)])))"

text \<open>The record the tick works on: the recovered one, or that of a log it starts.\<close>

definition tick_record :: "(string \<Rightarrow> string) \<Rightarrow> tick_input \<Rightarrow> tick_context \<Rightarrow> jsv sop" where
  "tick_record H inp c =
     sbind (recover H (JStr (tc_saga_id c))) (\<lambda>record.
     if (case tc_expected c of None \<Rightarrow> False | Some e \<Rightarrow>
          record = JNull \<or> jget ''saga_id'' record \<noteq> JStr (tc_saga_id c) \<or>
          jpath [''state'', ''event_count''] record \<noteq> jget ''event_count'' e \<or>
          jpath [''state'', ''last_event_id''] record \<noteq> jget ''last_event_id'' e)
     then slift (Inl ''supervisor_execute_predecessor_changed'')
     else if record \<noteq> JNull then slift (Inr record)
     else
     sbind (slift (tick_initial_payload inp)) (\<lambda>payload.
     sbind (slift (buildSagaEventV1 H
       \<lparr> in_binding = tc_binding c, in_sequence = JNum 0, in_previous_event_id = JNull,
         in_recorded_at_utc = ti_recorded_at_utc inp, in_event_type = JStr ''saga_initialized'',
         in_fencing_token = tc_fencing_token c, in_payload = payload \<rparr>)) (\<lambda>event.
     appendEvent H (ti_locks inp InitializeSite) event (tc_owner_id c) (tc_fencing_token c) (tc_now_ms c))))"

text \<open>The write-ahead broadcast intent: the record that has it, and the intent's event.\<close>

definition tick_intent :: "(string \<Rightarrow> string) \<Rightarrow> tick_input \<Rightarrow> tick_context \<Rightarrow> jsv \<Rightarrow> (jsv \<times> jsv) sop" where
  "tick_intent H inp c record =
     (let attempt_id = jpath [''state'', ''attempt_id''] record;
          transaction_hash = jpath [''state'', ''transaction_hash''] record in
     sbind (slift (computeBroadcastIntentIdV1 H (JObj [(''saga_id'', JStr (tc_saga_id c)),
       (''attempt_id'', attempt_id), (''transaction_hash'', transaction_hash)]))) (\<lambda>intentId.
     sbind (slift (buildSagaEventV1 H
       \<lparr> in_binding = tc_binding c,
         in_sequence = (case tc_expected c of Some e \<Rightarrow> jget ''event_count'' e
           | None \<Rightarrow> jpath [''state'', ''event_count''] record),
         in_previous_event_id = (case tc_expected c of Some e \<Rightarrow> jget ''last_event_id'' e
           | None \<Rightarrow> jpath [''state'', ''last_event_id''] record),
         in_recorded_at_utc = ti_recorded_at_utc inp,
         in_event_type = JStr ''broadcast_intent_committed'',
         in_fencing_token = tc_fencing_token c,
         in_payload = JObj [(''attempt_id'', attempt_id), (''transaction_hash'', transaction_hash),
           (''broadcast_intent_id'', JStr intentId)] \<rparr>)) (\<lambda>event.
     sbind (case tc_before c of
         Some before \<Rightarrow> appendEventWithAdmission H (ti_locks inp IntentSite) event (tc_owner_id c)
           (tc_fencing_token c) (tc_now_ms c) (Some before)
       | None \<Rightarrow> appendEvent H (ti_locks inp IntentSite) event (tc_owner_id c) (tc_fencing_token c) (tc_now_ms c)) (\<lambda>record'.
     slift (Inr (record', event))))))"

text \<open>
  A tick either is done without running an adapter, or calls one: with the record, the action, the
  broadcast intent's event and the adapter.
\<close>

record adapter_call =
  ac_record :: jsv
  ac_action :: string
  ac_intent :: jsv
  ac_adapter :: "jsv \<Rightarrow> jsv sop"

datatype tick_decision = Finished jsv | CallAdapter adapter_call

definition tick_prepare :: "(string \<Rightarrow> string) \<Rightarrow> tick_input \<Rightarrow> tick_context \<Rightarrow> tick_decision sop" where
  "tick_prepare H inp c =
     sbind (tick_record H inp c) (\<lambda>record.
     sbind (slift (record_next_action record)) (\<lambda>nx.
     if tc_expected c \<noteq> None \<and> (na_terminal nx \<or> na_action nx \<noteq> Some ''execute_prepared_transaction'')
     then slift (Inl ''supervisor_execute_predecessor_stage_mismatch'')
     else if na_terminal nx then
       slift (Inr (Finished (JObj [(''ok'', JBool True), (''status'', JStr ''terminal''),
         (''saga_id'', JStr (tc_saga_id c)), (''state'', jget ''state'' record), (''action'', JNull)])))
     else if ti_apply inp \<noteq> JBool True then
       slift (Inr (Finished (JObj [(''ok'', JBool True), (''status'', JStr ''dry_run''),
         (''saga_id'', JStr (tc_saga_id c)), (''state'', jget ''state'' record), (''action'', jstr_opt (na_action nx)),
         (''automatic_execution_allowed'', JBool (automatic_execution_allowed nx)),
         (''automatic_retry_allowed'', JBool False), (''required_confirmation'', jstr_opt (required_confirmation nx))])))
     else if ti_confirmation inp \<noteq> JStr ADVANCE_CONFIRMATION then slift (Inl ''supervisor_confirmation_required'')
     else if ti_action_confirmation inp \<noteq> jstr_opt (required_confirmation nx)
     then slift (Inl ''action_confirmation_required'')
     else case na_action nx of None \<Rightarrow> slift (Inl ''action_adapter_required'') | Some action \<Rightarrow>
     (case ti_adapters inp action of None \<Rightarrow> slift (Inl ''action_adapter_required'') | Some adapter \<Rightarrow>
     if action = ''execute_prepared_transaction'' then
       sbind (tick_intent H inp c record) (\<lambda>(record', event).
       slift (Inr (CallAdapter \<lparr> ac_record = record', ac_action = action, ac_intent = event, ac_adapter = adapter \<rparr>)))
     else slift (Inr (CallAdapter \<lparr> ac_record = record, ac_action = action, ac_intent = JNull, ac_adapter = adapter \<rparr>)))))"

definition tick_adapter_input :: "tick_context \<Rightarrow> adapter_call \<Rightarrow> jsv" where
  "tick_adapter_input c call = JObj [
     (''saga_id'', JStr (tc_saga_id c)),
     (''binding'', tc_binding c),
     (''record'', ac_record call),
     (''action'', JStr (ac_action call)),
     (''broadcast_intent_id'',
       if ac_intent call = JNull then JNull else jpath [''payload'', ''broadcast_intent_id''] (ac_intent call))]"

definition tick_apply :: "(string \<Rightarrow> string) \<Rightarrow> tick_input \<Rightarrow> tick_context \<Rightarrow> adapter_call \<Rightarrow> jsv sop" where
  "tick_apply H inp c call =
     sbind (ac_adapter call (tick_adapter_input c call)) (\<lambda>result.
     sbind (slift (buildNextEventFromActionResultV1 H (ac_record call) (ac_action call) result
       (tc_fencing_token c) (ti_recorded_at_utc inp))) (\<lambda>event.
     sbind (appendEvent H (ti_locks inp ResultSite) event (tc_owner_id c) (tc_fencing_token c) (tc_now_ms c)) (\<lambda>updated.
     slift (Inr (JObj [
       (''ok'', JBool True),
       (''status'', JStr ''applied''),
       (''saga_id'', JStr (tc_saga_id c)),
       (''action'', JStr (ac_action call)),
       (''broadcast_intent_event_id'', if ac_intent call = JNull then JNull else jget ''event_id'' (ac_intent call)),
       (''event_id'', jget ''event_id'' event),
       (''state'', jget ''state'' updated),
       (''automatic_retry_allowed'', JBool False)])))))"

text \<open>\<^verbatim>\<open>try { ... } finally { ... }\<close>: an error of the second part hides the result of the first.\<close>

definition sfinally :: "'a sop \<Rightarrow> 'b sop \<Rightarrow> 'a sop" where
  "sfinally m f = (\<lambda>s. case m s of (r, s') \<Rightarrow> (case f s' of (Inl e, s'') \<Rightarrow> (Inl e, s'') | (Inr _, s'') \<Rightarrow> (r, s'')))"

definition runSagaSupervisorTickV1 :: "(string \<Rightarrow> string) \<Rightarrow> tick_input \<Rightarrow> jsv sop" where
  "runSagaSupervisorTickV1 H inp =
     sbind (slift (captureExpectedExecutePredecessorV1 (ti_expected_execute_predecessor inp))) (\<lambda>expected.
     sbind (slift (captureBeforeBroadcastIntentAppendV1 (ti_before_broadcast_intent_append inp))) (\<lambda>before.
     sbind (slift (validateSagaBindingV1 (ti_binding inp))) (\<lambda>binding.
     sbind (slift (computeSagaIdV1 H binding)) (\<lambda>sagaId.
     if (case expected of None \<Rightarrow> False | Some e \<Rightarrow> jget ''saga_id'' e \<noteq> JStr sagaId)
     then slift (Inl ''supervisor_execute_predecessor_saga_mismatch'')
     else
     sbind (slift (safeId (ti_owner_id inp) ''owner_id'')) (\<lambda>owner.
     sbind (slift (safeInteger (ti_now_ms inp) 0 MAX_SAFE_INTEGER ''now_ms'')) (\<lambda>now.
     sbind (slift (safeInteger (ti_lease_ttl_ms inp) 1 MAX_LEASE_TTL_MS ''lease_ttl_ms'')) (\<lambda>ttl.
     sbind (acquireLease (ti_locks inp AcquireSite) (JStr sagaId) (JStr owner) (JNum now) (JNum ttl)) (\<lambda>decision.
     if jget ''ok'' decision \<noteq> JBool True then slift (Inr decision)
     else
     let c = \<lparr> tc_expected = expected, tc_before = before, tc_binding = binding, tc_saga_id = sagaId,
               tc_owner_id = JStr owner, tc_now_ms = now,
               tc_fencing_token = jpath [''lease'', ''fencing_token''] decision \<rparr>
     in
     sfinally
       (sbind (tick_prepare H inp c) (\<lambda>decided.
        case decided of Finished r \<Rightarrow> slift (Inr r) | CallAdapter call \<Rightarrow> tick_apply H inp c call))
       (releaseLease (ti_locks inp ReleaseSite) (JStr sagaId) (tc_owner_id c) (tc_fencing_token c) now)))))))))"

end
