(* ===== verification/Saga_Supervisor_Correct.thy ===== *)
theory Saga_Supervisor_Correct
  imports Saga_Supervisor Saga_Store_Correct
begin

text \<open>
  The supervisor writes the broadcast intent ahead: at the moment a tick calls the adapter that may
  broadcast, the log on disk ends in the intent.
\<close>

section \<open>Validated bindings are fixed points\<close>

lemma is_decimal_trim: "is_decimal s \<Longrightarrow> js_trim s = s"
  using is_decimal_digits no_space(1) by (intro js_trim_id) (auto simp: list_all_iff)

lemma nonEmptyString_again: "nonEmptyString v l n = Inr t \<Longrightarrow> nonEmptyString (JStr t) l n = Inr t"
  by (auto simp: nonEmptyString_def split: if_splits)

lemma safeId_again: "safeId v l = Inr t \<Longrightarrow> safeId (JStr t) l = Inr t"
  unfolding safeId_def bnd_eq_Inr guard_eq_Inr using nonEmptyString_again by blast

lemma saga_sha256_again: "saga_sha256 v l = Inr t \<Longrightarrow> saga_sha256 (JStr t) l = Inr t"
  unfolding saga_sha256_def bnd_eq_Inr guard_eq_Inr using nonEmptyString_again by blast

lemma saga_decimal_again: "saga_decimal v l b = Inr t \<Longrightarrow> saga_decimal (JStr t) l b = Inr t"
  by (auto simp: saga_decimal_def Let_def decimal_text_def is_decimal_trim split: if_splits)

lemma prefix_hexE: "prefix_hex p n s \<Longrightarrow> (\<And>x. s = p @ x \<Longrightarrow> hex_n n x \<Longrightarrow> thesis) \<Longrightarrow> thesis"
  unfolding prefix_hex_def by (metis append_take_drop_id)

lemma saga_address_again:
  assumes "saga_address v l = Inr t"
  shows "saga_address (JStr t) l = Inr t"
proof -
  from assms obtain u where u: "nonEmptyString v l 42 = Inr u" "prefix_hex ''0x'' 40 (js_lower u)" "t = js_lower u"
    by (auto simp: saga_address_def js_simps)
  obtain x where x: "t = ''0x'' @ x" "hex_n 40 x" using u(2,3) prefix_hexE by metis
  have x': "is_lower_hex c" if "c \<in> set x" for c using x(2) that by (simp add: hex_n_def list_all_iff)
  have "js_trim t = t"
    using x' no_space(2) by (intro js_trim_id) (auto simp: x(1) list_all_iff is_space_def)
  moreover have "js_lower t = t"
    using x' no_space(3) by (auto simp: x(1) js_lower_def lower_char_def intro!: map_idI)
  moreover have "slen t = slen u" by (simp add: u(3))
  moreover have "1 \<le> slen u" "slen u \<le> 42" using u(1) by (auto simp: nonEmptyString_def Suc_le_eq split: if_splits)
  moreover have "prefix_hex ''0x'' 40 t" using u(2) by (simp only: u(3))
  ultimately show ?thesis by (auto simp: saga_address_def nonEmptyString_def)
qed

lemma binding_fixed:
  assumes parts: "safeId v1 ''binding.request_id'' = Inr r"
      "safeId v2 ''binding.canonical_payment_identity'' = Inr p"
      "saga_sha256 v3 ''binding.request_key_sha256'' = Inr rk"
      "saga_sha256 v4 ''binding.payment_key_sha256'' = Inr pk"
      "saga_address v5 ''binding.delivery_address'' = Inr d"
      "saga_decimal v6 ''binding.void_amount_units'' True = Inr u"
      "nonEmptyString v7 ''binding.chain_id'' 16 = Inr c"
      "safeId v8 ''binding.pool_id'' = Inr q"
      "c = ''2050''" "assertNoSecretMaterialV1 b ''binding'' 0 = Inr ()"
    and b: "b = JObj [
       (''request_id'', JStr r), (''canonical_payment_identity'', JStr p), (''request_key_sha256'', JStr rk),
       (''payment_key_sha256'', JStr pk), (''delivery_address'', JStr d), (''void_amount_units'', JStr u),
       (''chain_id'', JStr c), (''pool_id'', JStr q)]"
  shows "validateSagaBindingV1 b = Inr b \<and> plain b"
proof -
  have keys: "saga_exactKeys b BINDING_KEYS ''binding'' = Inr ()"
    by (simp add: b BINDING_KEYS_def saga_exactKeys_def directObject_def same_keys_def)
  have get: "jget ''request_id'' b = JStr r" "jget ''canonical_payment_identity'' b = JStr p"
    "jget ''request_key_sha256'' b = JStr rk" "jget ''payment_key_sha256'' b = JStr pk"
    "jget ''delivery_address'' b = JStr d" "jget ''void_amount_units'' b = JStr u" "jget ''chain_id'' b = JStr c"
    "jget ''pool_id'' b = JStr q"
    by (simp_all add: b)
  note again = parts(1,2,8) [THEN safeId_again] parts(3,4) [THEN saga_sha256_again] saga_address_again [OF parts(5)]
    saga_decimal_again [OF parts(6)] nonEmptyString_again [OF parts(7)]
  have "validateSagaBindingV1 b = Inr b"
    unfolding validateSagaBindingV1_def get keys again bnd_simps Let_def b [symmetric]
    using parts(9,10) by simp
  moreover have "plain b" by (simp add: b)
  ultimately show ?thesis ..
qed

lemma validateSagaBindingV1_again:
  assumes "validateSagaBindingV1 v = Inr b"
  shows "validateSagaBindingV1 b = Inr b" "plain b"
proof -
  have "post (\<lambda>b. validateSagaBindingV1 b = Inr b \<and> plain b) (validateSagaBindingV1 v)"
    unfolding validateSagaBindingV1_def [of v] Let_def
    by (intro js_wp post_bnd, unfold post_Inr, rule binding_fixed) (assumption | rule refl | simp)+
  from postD [OF this assms] show "validateSagaBindingV1 b = Inr b" "plain b" by blast+
qed

lemma computeSagaIdV1_again:
  "validateSagaBindingV1 v = Inr b \<Longrightarrow> computeSagaIdV1 H b = Inr i \<Longrightarrow> i = SAGA_ID_PREFIX @ H (canonicalJsonV1 b)"
  using validateSagaBindingV1_again(1) by (fastforce simp: computeSagaIdV1_def)

section \<open>The intent's event\<close>

lemma validateSagaEventV1_self: "validateSagaEventV1 H v = Inr e \<Longrightarrow> validateSagaEventV1 H e = Inr e"
  using validateSagaEventV1_Inr(1) by metis

lemma buildSagaEventV1_Inr:
  assumes "buildSagaEventV1 H inp = Inr e"
  shows "\<exists>b prev n t rec ty tk p eid. validateSagaBindingV1 (in_binding inp) = Inr b \<and>
    e = event_body (SAGA_ID_PREFIX @ H (canonicalJsonV1 b)) (JStr eid) n prev rec ty tk b p \<and>
    validateSagaEventV1 H e = Inr e \<and> in_event_type inp = JStr ty \<and> (prev = JNull \<or> prev = JStr t) \<and>
    validatePayload ty (in_payload inp) = Inr p"
proof -
  have put: "jput ''event_id'' (JStr eid) (event_body sid JNull n prev rec ty tk b p) = event_body sid (JStr eid) n prev rec ty tk b p"
    for eid sid n prev rec ty tk b p
    by (simp add: event_body_def)
  obtain b sid ty n prev rec tk p eid where e: "validateSagaBindingV1 (in_binding inp) = Inr b" "computeSagaIdV1 H b = Inr sid"
    "nonEmptyString (in_event_type inp) ''event_type'' 64 = Inr ty"
    "(if in_previous_event_id inp = JNull then Inr JNull
          else bnd (nonEmptyString (in_previous_event_id inp) ''previous_event_id'' 77) (\<lambda>t. Inr (JStr t))) = Inr prev"
    "validatePayload ty (in_payload inp) = Inr p"
    "validateSagaEventV1 H (event_body sid (JStr eid) n prev rec ty tk b p) = Inr e"
    using assms unfolding buildSagaEventV1_def Let_def put bnd_eq_Inr guard_eq_Inr by blast
  have "e = event_body sid (JStr eid) n prev rec ty tk b p" using e(6) by (rule validateSagaEventV1_Inr(1))
  moreover have "sid = SAGA_ID_PREFIX @ H (canonicalJsonV1 b)" using e(1,2) by (rule computeSagaIdV1_again)
  moreover have "\<exists>t. prev = JNull \<or> prev = JStr t" using e(4) by (auto simp: js_simps split: if_splits)
  moreover have "in_event_type inp = JStr ty" using e(3) by (auto simp: nonEmptyString_def is_str_iff split: if_splits)
  ultimately show ?thesis using e validateSagaEventV1_self [OF e(6)] by blast
qed

text \<open>The event of a broadcast intent holds only strings, numbers and booleans, so it is read back as written.\<close>

lemma intent_event:
  assumes "tick_intent H inp c record s = (Inr (record', e), s')"
    and "validateSagaBindingV1 v = Inr (tc_binding c)" "computeSagaIdV1 H (tc_binding c) = Inr (tc_saga_id c)"
  shows "plain e" "jget ''saga_id'' e = JStr (tc_saga_id c)" "jget ''event_type'' e = JStr ''broadcast_intent_committed''"
    "\<exists>s0 owner t n. appended H e owner t n s0 (Inr record') s'"
proof -
  let ?a = "jpath [''state'', ''attempt_id''] record" and ?h = "jpath [''state'', ''transaction_hash''] record"
  from assms(1) obtain i ei sa where ci: "computeBroadcastIntentIdV1 H (JObj [(''saga_id'', JStr (tc_saga_id c)),
        (''attempt_id'', ?a), (''transaction_hash'', ?h)]) = Inr i"
    and be: "buildSagaEventV1 H ei = Inr e" "in_binding ei = tc_binding c" "in_event_type ei = JStr ''broadcast_intent_committed''"
      "in_payload ei = JObj [(''attempt_id'', ?a), (''transaction_hash'', ?h), (''broadcast_intent_id'', JStr i)]"
    and ap: "(case tc_before c of
         Some before \<Rightarrow> appendEventWithAdmission H (ti_locks inp IntentSite) e (tc_owner_id c) (tc_fencing_token c) (tc_now_ms c) (Some before)
       | None \<Rightarrow> appendEvent H (ti_locks inp IntentSite) e (tc_owner_id c) (tc_fencing_token c) (tc_now_ms c)) sa = (Inr record', s')"
    unfolding tick_intent_def Let_def
    by (fastforce simp: sop_eq)
  have "is_str ?a" "is_str ?h"
    using ci by (auto simp: computeBroadcastIntentIdV1_def safeId_def transactionHash_def nonEmptyString_def js_simps split: if_splits)
  then have ah: "plain ?a" "plain ?h" by (auto simp: is_str_iff)
  from buildSagaEventV1_Inr [OF be(1)] obtain b prev n t rec ty tk p eid where e: "validateSagaBindingV1 (tc_binding c) = Inr b"
    "e = event_body (SAGA_ID_PREFIX @ H (canonicalJsonV1 b)) (JStr eid) n prev rec ty tk b p"
    "JStr ''broadcast_intent_committed'' = JStr ty" "prev = JNull \<or> prev = JStr t" "validatePayload ty (in_payload ei) = Inr p"
    unfolding be by blast
  have b: "b = tc_binding c" "plain b" using e(1) validateSagaBindingV1_again [OF assms(2)] by auto
  have ty: "ty = ''broadcast_intent_committed''" using e(3) by simp
  have "p = in_payload ei" using e(5) unfolding ty by (auto simp: validatePayload_def payload_intent_def js_simps)
  then have "plain p" using ah be(4) by simp
  then show "plain e" using e(4) b(2) by (auto simp: e(2) event_body_def SAGA_AUTHORITY_def)
  show "jget ''saga_id'' e = JStr (tc_saga_id c)"
    using computeSagaIdV1_again [OF assms(2,3)] by (simp add: e(2) event_body_def b)
  show "jget ''event_type'' e = JStr ''broadcast_intent_committed''" by (simp add: e(2) event_body_def ty)
  show "\<exists>s0 owner t n. appended H e owner t n s0 (Inr record') s'"
    using ap by (fastforce split: option.splits dest: appendEvent_cases appendEventWithAdmission_cases)
qed

text \<open>A log that ends in a broadcast intent.\<close>

lemma fold_ends_in_intent:
  assumes "foldSagaEventsV1 H (es @ [e]) = Inr st" "jget ''event_type'' e = JStr ''broadcast_intent_committed''"
  shows "sg_state st = ''broadcast_intent_committed''" "sg_broadcast_intent_id st = jpath [''payload'', ''broadcast_intent_id''] e"
proof -
  obtain st0 t and nx :: next_action where f: "\<forall>e \<in> set (es @ [e]). validateSagaEventV1 H e = Inr e"
    "run_log H (jget ''binding'' (hd (es @ [e]))) (jget ''saga_id'' (hd (es @ [e]))) (es @ [e]) = Inr (st0, t)"
    "st = st0 \<lparr> sg_next_action := na_action nx \<rparr>"
    using assms(1) by (rule foldSaga_Inr) blast
  from f(2) obtain acc where "fold_event H (jget ''binding'' (hd (es @ [e]))) (jget ''saga_id'' (hd (es @ [e]))) acc e = Inr (st0, t)"
    by (auto simp: run_log_snoc bnd_eq_Inr)
  then obtain st1 where "apply_event_type H (sg_event_count (fst acc)) (fst acc) ''broadcast_intent_committed'' (jget ''payload'' e) = Inr st1"
    "sg_state st0 = sg_state st1" "sg_broadcast_intent_id st0 = sg_broadcast_intent_id st1"
    using assms(2) unfolding fold_event_def Let_def guard_eq_Inr bnd_eq_Inr by auto
  then show "sg_state st = ''broadcast_intent_committed''" "sg_broadcast_intent_id st = jpath [''payload'', ''broadcast_intent_id''] e"
    by (auto simp: f(3) apply_event_inv)
qed

section \<open>The adapter sees the intent on disk\<close>

text \<open>
  The store an adapter is called in, against the adapter's input: the directory of the saga is
  recovered as the record in the input, and that record's last event is the broadcast intent with
  the identifier in the input.
\<close>

definition intent_on_disk :: "(string \<Rightarrow> string) \<Rightarrow> jsv \<Rightarrow> saga_store \<Rightarrow> bool" where
  "intent_on_disk H v s \<longleftrightarrow>
     is_str (jget ''saga_id'' v) \<and>
     recover_dir H (sd_events (ss_sagas s (str_of (jget ''saga_id'' v)))) = Inr (jget ''record'' v) \<and>
     jpath [''record'', ''state'', ''state''] v = JStr ''broadcast_intent_committed'' \<and>
     jpath [''record'', ''state'', ''broadcast_intent_id''] v = jget ''broadcast_intent_id'' v"

text \<open>An adapter that refuses to run in any other store.\<close>

definition guarded :: "(string \<Rightarrow> string) \<Rightarrow> string \<Rightarrow> (jsv \<Rightarrow> jsv sop) \<Rightarrow> jsv \<Rightarrow> jsv sop" where
  "guarded H action adapter =
     (if action = ''execute_prepared_transaction''
      then (\<lambda>v s. if intent_on_disk H v s then adapter v s else (Inl ''broadcast_without_intent'', s))
      else adapter)"

definition guarded_input :: "(string \<Rightarrow> string) \<Rightarrow> tick_input \<Rightarrow> tick_input" where
  "guarded_input H inp = inp \<lparr> ti_adapters := (\<lambda>action. map_option (guarded H action) (ti_adapters inp action)) \<rparr>"

lemma intent_on_disk_after_append:
  assumes "tick_intent H inp c record s = (Inr (record', e), s')"
    and "validateSagaBindingV1 v = Inr (tc_binding c)" "computeSagaIdV1 H (tc_binding c) = Inr (tc_saga_id c)"
  shows "intent_on_disk H (tick_adapter_input c \<lparr> ac_record = record', ac_action = action, ac_intent = e, ac_adapter = adapter \<rparr>) s'"
proof -
  note e = intent_event [OF assms]
  from e(4) obtain s0 owner t n where "appended H e owner t n s0 (Inr record') s'" by blast
  then obtain i es where a: "jget ''saga_id'' e = JStr i"
    "saga_log H s' i = (if fn_size (atomicWriteJson e) > MAX_JSON_BYTES then Inl ''event_file_size_out_of_range'' else Inr (es @ [e]))"
    "Inr record' = recover_dir H (sd_events (ss_sagas s' i))"
    using e(1) by (rule appended_log) blast
  have i: "i = tc_saga_id c" using a(1) e(2) by simp
  obtain st where st: "foldSagaEventsV1 H (es @ [e]) = Inr st" "record' = record_body st (es @ [e])"
    using a(3) [symmetric] a(2) by (cases rule: recover_dir_Inr) (auto simp: saga_log_def split: if_splits)
  have "e \<noteq> JNull" using e(3) by auto
  with fold_ends_in_intent [OF st(1) e(3)] a(3) show ?thesis
    by (simp add: intent_on_disk_def tick_adapter_input_def i st(2) record_body_def buildSagaRecordStateProjection_def)
qed

lemma guarded_input_fields [simp]:
  "ti_apply (guarded_input K inp) = ti_apply inp" "ti_confirmation (guarded_input K inp) = ti_confirmation inp"
  "ti_action_confirmation (guarded_input K inp) = ti_action_confirmation inp" "ti_locks (guarded_input K inp) = ti_locks inp"
  "ti_recorded_at_utc (guarded_input K inp) = ti_recorded_at_utc inp" "ti_policy_id (guarded_input K inp) = ti_policy_id inp"
  "ti_source_floor_main (guarded_input K inp) = ti_source_floor_main inp" "ti_binding (guarded_input K inp) = ti_binding inp"
  "ti_owner_id (guarded_input K inp) = ti_owner_id inp" "ti_now_ms (guarded_input K inp) = ti_now_ms inp"
  "ti_lease_ttl_ms (guarded_input K inp) = ti_lease_ttl_ms inp"
  "ti_expected_execute_predecessor (guarded_input K inp) = ti_expected_execute_predecessor inp"
  "ti_before_broadcast_intent_append (guarded_input K inp) = ti_before_broadcast_intent_append inp"
  "ti_adapters (guarded_input K inp) = (\<lambda>action. map_option (guarded K action) (ti_adapters inp action))"
  by (simp_all add: guarded_input_def)

lemma guarded_input_parts [simp]:
  "tick_record H (guarded_input K inp) = tick_record H inp" "tick_intent H (guarded_input K inp) = tick_intent H inp"
  by (unfold tick_record_def tick_intent_def tick_initial_payload_def guarded_input_fields) (rule refl)+

lemma sbind_same: "(\<And>x s1. m s = (Inr x, s1) \<Longrightarrow> f x s1 = g x s1) \<Longrightarrow> sbind m f s = sbind m g s"
  by (simp add: sbind_def split: prod.splits sum.splits)

lemma tick_prepare_guarded:
  "tick_prepare H (guarded_input H inp) c s =
    (case tick_prepare H inp c s of
       (Inr (CallAdapter call), s') \<Rightarrow> (Inr (CallAdapter (call \<lparr> ac_adapter := guarded H (ac_action call) (ac_adapter call) \<rparr>)), s')
     | r \<Rightarrow> r)"
proof (cases "tick_record H inp c s")
  case (Pair r s1)
  then show ?thesis
    by (cases r; cases "record_next_action (projr r)")
      (auto simp: tick_prepare_def sbind_def slift_def split: option.splits sum.splits prod.splits)
qed

lemma tick_prepare_intent:
  assumes "tick_prepare H inp c s = (Inr (CallAdapter call), s')" "ac_action call = ''execute_prepared_transaction''"
    and "validateSagaBindingV1 v = Inr (tc_binding c)" "computeSagaIdV1 H (tc_binding c) = Inr (tc_saga_id c)"
  shows "intent_on_disk H (tick_adapter_input c call) s'"
proof -
  from assms(1,2) obtain r0 s1 where "tick_intent H inp c r0 s1 = (Inr (ac_record call, ac_intent call), s')"
    unfolding tick_prepare_def by (auto simp: sop_eq split: if_splits option.splits)
  from intent_on_disk_after_append [OF this assms(3,4), of "ac_action call" "ac_adapter call"]
  show ?thesis by (cases call) (simp only: adapter_call.simps)
qed

lemma tick_apply_guarded:
  assumes "tick_prepare H inp c s = (Inr (CallAdapter call), s')"
    and "validateSagaBindingV1 v = Inr (tc_binding c)" "computeSagaIdV1 H (tc_binding c) = Inr (tc_saga_id c)"
  shows "tick_apply H (guarded_input H inp) c (call \<lparr> ac_adapter := guarded H (ac_action call) (ac_adapter call) \<rparr>) s' =
    tick_apply H inp c call s'"
proof -
  let ?call = "call \<lparr> ac_adapter := guarded H (ac_action call) (ac_adapter call) \<rparr>"
  have run: "guarded H (ac_action call) (ac_adapter call) (tick_adapter_input c call) s' = ac_adapter call (tick_adapter_input c call) s'"
    using tick_prepare_intent [OF assms(1) _ assms(2,3)] by (simp add: guarded_def)
  have fields: "ac_record ?call = ac_record call" "ac_action ?call = ac_action call" "ac_intent ?call = ac_intent call"
    "ac_adapter ?call = guarded H (ac_action call) (ac_adapter call)" by simp_all
  then have inp: "tick_adapter_input c ?call = tick_adapter_input c call" unfolding tick_adapter_input_def by (simp only:)
  show ?thesis unfolding tick_apply_def sbind_def guarded_input_fields fields inp run by (rule refl)
qed

text \<open>
  C28. Write-ahead broadcast. At the moment a supervisor tick calls the adapter that may broadcast,
  the saga's directory on disk is recovered as the record the adapter gets, and the last event of
  that record is the broadcast intent whose identifier the adapter gets. Put as an equation: the tick
  behaves the same, in result and store, if that adapter is replaced by one that refuses to run in
  any other store, whatever the adapters and the admission callback do.
\<close>

theorem broadcast_intent_is_write_ahead:
  "runSagaSupervisorTickV1 H (guarded_input H inp) s = runSagaSupervisorTickV1 H inp s"
proof -
  have same: "sbind (tick_prepare H (guarded_input H inp) c) (\<lambda>decided.
        case decided of Finished r \<Rightarrow> slift (Inr r) | CallAdapter call \<Rightarrow> tick_apply H (guarded_input H inp) c call) s =
      sbind (tick_prepare H inp c) (\<lambda>decided.
        case decided of Finished r \<Rightarrow> slift (Inr r) | CallAdapter call \<Rightarrow> tick_apply H inp c call) s"
    if "validateSagaBindingV1 v = Inr (tc_binding c)" "computeSagaIdV1 H (tc_binding c) = Inr (tc_saga_id c)" for c v s
    using tick_apply_guarded [OF _ that]
    by (simp add: sbind_def tick_prepare_guarded split: prod.splits sum.splits tick_decision.splits)
  show ?thesis
    unfolding runSagaSupervisorTickV1_def guarded_input_fields
    by (intro sbind_same) (auto simp: Let_def slift_eq sfinally_def same intro!: sbind_same)
qed

section \<open>Adapters run only when told so\<close>

lemma other_adapters_fields [simp]:
  fixes inp :: tick_input
  shows "ti_apply (inp \<lparr> ti_adapters := A \<rparr>) = ti_apply inp" "ti_confirmation (inp \<lparr> ti_adapters := A \<rparr>) = ti_confirmation inp"
    "ti_action_confirmation (inp \<lparr> ti_adapters := A \<rparr>) = ti_action_confirmation inp"
    "ti_locks (inp \<lparr> ti_adapters := A \<rparr>) = ti_locks inp" "ti_policy_id (inp \<lparr> ti_adapters := A \<rparr>) = ti_policy_id inp"
    "ti_recorded_at_utc (inp \<lparr> ti_adapters := A \<rparr>) = ti_recorded_at_utc inp"
    "ti_source_floor_main (inp \<lparr> ti_adapters := A \<rparr>) = ti_source_floor_main inp"
    "ti_binding (inp \<lparr> ti_adapters := A \<rparr>) = ti_binding inp" "ti_owner_id (inp \<lparr> ti_adapters := A \<rparr>) = ti_owner_id inp"
    "ti_now_ms (inp \<lparr> ti_adapters := A \<rparr>) = ti_now_ms inp" "ti_lease_ttl_ms (inp \<lparr> ti_adapters := A \<rparr>) = ti_lease_ttl_ms inp"
    "ti_expected_execute_predecessor (inp \<lparr> ti_adapters := A \<rparr>) = ti_expected_execute_predecessor inp"
    "ti_before_broadcast_intent_append (inp \<lparr> ti_adapters := A \<rparr>) = ti_before_broadcast_intent_append inp"
  by simp_all

lemma unconfirmed_tick_prepare:
  assumes "ti_apply inp \<noteq> JBool True \<or> ti_confirmation inp \<noteq> JStr ADVANCE_CONFIRMATION"
  shows "tick_prepare H (inp \<lparr> ti_adapters := A \<rparr>) c s = tick_prepare H inp c s"
    "tick_prepare H inp c s \<noteq> (Inr (CallAdapter call), s')"
proof -
  have rec: "tick_record H (inp \<lparr> ti_adapters := A \<rparr>) = tick_record H inp"
    by (unfold tick_record_def tick_initial_payload_def other_adapters_fields) (rule refl)
  show "tick_prepare H (inp \<lparr> ti_adapters := A \<rparr>) c s = tick_prepare H inp c s"
    unfolding tick_prepare_def rec other_adapters_fields by (intro sbind_same) (use assms in auto)
  show "tick_prepare H inp c s \<noteq> (Inr (CallAdapter call), s')"
    using assms unfolding tick_prepare_def by (auto simp: sop_eq split: if_splits)
qed

text \<open>
  A tick that is not told to apply, or lacks the confirmation phrase, calls no adapter: its
  result and the store it leaves do not depend on the adapters.
\<close>

theorem adapters_need_confirmation:
  assumes "ti_apply inp \<noteq> JBool True \<or> ti_confirmation inp \<noteq> JStr ADVANCE_CONFIRMATION"
  shows "runSagaSupervisorTickV1 H (inp \<lparr> ti_adapters := A \<rparr>) s = runSagaSupervisorTickV1 H inp s"
proof -
  have same: "sbind (tick_prepare H (inp \<lparr> ti_adapters := A \<rparr>) c) (\<lambda>decided.
        case decided of Finished r \<Rightarrow> slift (Inr r) | CallAdapter call \<Rightarrow> tick_apply H (inp \<lparr> ti_adapters := A \<rparr>) c call) s =
      sbind (tick_prepare H inp c) (\<lambda>decided.
        case decided of Finished r \<Rightarrow> slift (Inr r) | CallAdapter call \<Rightarrow> tick_apply H inp c call) s" for c s
    using unconfirmed_tick_prepare [OF assms, of H] by (auto simp: sbind_def split: prod.splits sum.splits tick_decision.splits)
  show ?thesis
    unfolding runSagaSupervisorTickV1_def other_adapters_fields
    by (intro sbind_same) (auto simp: Let_def sfinally_def same intro!: sbind_same)
qed

definition ex_dry_tick :: tick_input where
  "ex_dry_tick = \<lparr> ti_expected_execute_predecessor = None, ti_before_broadcast_intent_append = NoProperty,
     ti_binding = ex_binding, ti_owner_id = JStr ''owner-1'', ti_now_ms = JNum 0, ti_lease_ttl_ms = JNum 1000,
     ti_recorded_at_utc = JStr ''2026-01-01T00:00:00.000Z'', ti_source_floor_main = JStr (replicate 40 CHR ''e''), ti_policy_id = JStr ''policy-1'',
     ti_apply = JBool False, ti_confirmation = JNull, ti_action_confirmation = JNull, ti_adapters = Map.empty,
     ti_locks = (\<lambda>_. None) \<rparr>"

definition ex_empty_store :: saga_store where
  "ex_empty_store = \<lparr> ss_uid = None, ss_sagas = (\<lambda>_. \<lparr> sd_meta = None, sd_events_meta = None, sd_events = [], sd_lease = None \<rparr>) \<rparr>"

theorem adapters_need_confirmation_witness:
  "ti_apply ex_dry_tick \<noteq> JBool True \<and>
   runSagaSupervisorTickV1 zero_digest (ex_dry_tick \<lparr> ti_adapters := (\<lambda>_. Some (\<lambda>_. slift (Inr JNull))) \<rparr>) ex_empty_store =
   runSagaSupervisorTickV1 zero_digest ex_dry_tick ex_empty_store"
proof -
  have "ti_apply ex_dry_tick \<noteq> JBool True" by (simp add: ex_dry_tick_def)
  with adapters_need_confirmation [of ex_dry_tick zero_digest] show ?thesis by blast
qed

end
