(* ===== verification/Saga_Lock.thy ===== *)
theory Saga_Lock
  imports Saga_Store "HOL-Library.Product_Lexorder"
begin

text \<open>
  \<^verbatim>\<open>tools/buy-void-crash-consistent-fulfillment-saga-v1.mjs\<close>, lines 797 to 1055: the lock that
  \<^verbatim>\<open>withExclusiveLock\<close> and \<^verbatim>\<open>withExclusiveLockAsync\<close> build from a directory of claim files. An attempt
  announces itself with a choosing file, takes the number after the greatest ticket it sees, writes
  its ticket, drops the choosing file, and polls until no choosing file is left and its ticket is the
  first. Attempts of many processes interleave: the protocol is a step relation. Writing or removing a
  claim file is a step, listing the directory is one, and so is what a scan does with one entry of
  the listing: its \<^verbatim>\<open>lstat\<close>, the reading of the file, the test of the process and the removal of the
  file if it is stale.

  Two things are assumed of the file system. A listing is a snapshot of the directory at one moment,
  which POSIX leaves open for files that come or go meanwhile; and between the file operations of one
  entry of a scan no other process acts on that entry.
\<close>

section \<open>Claim files\<close>

definition LOCK_CLAIM_SCHEMA :: string where
  "LOCK_CLAIM_SCHEMA = ''void_buy_void_crash_consistent_fulfillment_saga_store_lock_claim_v2''"

definition LOCK_STALE_MS :: int where
  "LOCK_STALE_MS = MAX_LEASE_TTL_MS + 60 * 1000"

text \<open>The end \<^verbatim>\<open>([0-9]+)-([0-9a-f]{32})\.json$\<close> that both kinds of names share.\<close>

definition pid_nonce :: "string \<Rightarrow> (string \<times> string) option" where
  "pid_nonce t =
     (let digits = takeWhile is_digit t; rest = dropWhile is_digit t; nonce = take 32 (drop 1 rest) in
      if digits \<noteq> [] \<and> take 1 rest = ''-'' \<and> hex_n 32 nonce \<and> drop 33 rest = ''.json''
      then Some (digits, nonce) else None)"

definition LOCK_CHOOSING_FILE :: "string \<Rightarrow> (string \<times> string) option" where
  "LOCK_CHOOSING_FILE name = (if take 9 name = ''choosing-'' then pid_nonce (drop 9 name) else None)"

definition LOCK_TICKET_FILE :: "string \<Rightarrow> (string \<times> string \<times> string) option" where
  "LOCK_TICKET_FILE name =
     (let digits = take 16 (drop 7 name) in
      if take 7 name = ''ticket-'' \<and> length digits = 16 \<and> list_all is_digit digits \<and> take 1 (drop 23 name) = ''-''
      then map_option (\<lambda>(pid, nonce). (digits, pid, nonce)) (pid_nonce (drop 24 name)) else None)"

text \<open>The name before the first \<^verbatim>\<open>.tmp-\<close>, and what follows it.\<close>

fun split_tmp :: "string \<Rightarrow> string \<times> string" where
  "split_tmp [] = ([], [])"
| "split_tmp (c # cs) =
     (if take 5 (c # cs) = ''.tmp-'' then ([], drop 5 (c # cs))
      else (c # fst (split_tmp cs), snd (split_tmp cs)))"

definition LOCK_CLAIM_TEMP_FILE :: "string \<Rightarrow> bool" where
  "LOCK_CLAIM_TEMP_FILE name \<longleftrightarrow>
     (let (body, rest) = split_tmp name; tail = dropWhile is_digit rest in
      (LOCK_CHOOSING_FILE body \<noteq> None \<or> LOCK_TICKET_FILE body \<noteq> None) \<and>
      takeWhile is_digit rest \<noteq> [] \<and> take 1 tail = ''-'' \<and> hex_n 16 (drop 1 tail))"

definition LOCK_CLAIM_KEYS :: "string list" where
  "LOCK_CLAIM_KEYS = [''schema'', ''pid'', ''nonce'', ''phase'', ''ticket'', ''created_at_utc'']"

definition validateStoreLockClaim :: "jsv \<Rightarrow> jsv res" where
  "validateStoreLockClaim v =
     bnd (saga_exactKeys v LOCK_CLAIM_KEYS ''store_lock_claim'') (\<lambda>_.
     if jget ''schema'' v \<noteq> JStr LOCK_CLAIM_SCHEMA then Inl ''store_lock_claim_identity_mismatch''
     else
     bnd (safeInteger (jget ''pid'' v) 1 MAX_SAFE_INTEGER ''store_lock_claim.pid'') (\<lambda>_.
     bnd (nonEmptyString (jget ''nonce'' v) ''store_lock_claim.nonce'' 32) (\<lambda>nonce.
     if \<not> hex_n 32 nonce then Inl ''store_lock_claim.nonce_invalid''
     else if jget ''phase'' v \<notin> {JStr ''choosing'', JStr ''ticket''} then Inl ''store_lock_claim.phase_invalid''
     else
     bnd (if jget ''phase'' v = JStr ''choosing''
          then (if jget ''ticket'' v \<noteq> JNull then Inl ''store_lock_claim.choosing_ticket_must_be_null'' else Inr 0)
          else safeInteger (jget ''ticket'' v) 1 MAX_SAFE_INTEGER ''store_lock_claim.ticket'') (\<lambda>_.
     bnd (canonicalUtc (jget ''created_at_utc'' v) ''store_lock_claim.created_at_utc'') (\<lambda>_. Inr v)))))"

section \<open>Scanning the queue\<close>

text \<open>The outcome of \<^verbatim>\<open>process.kill(pid, 0)\<close>.\<close>

datatype kill_result = Signalled | ESRCH | EPERM | OtherError string

definition processIsAlive :: "kill_result \<Rightarrow> bool res" where
  "processIsAlive k = (case k of Signalled \<Rightarrow> Inr True | ESRCH \<Rightarrow> Inr False | EPERM \<Rightarrow> Inr True | OtherError e \<Rightarrow> Inl e)"

text \<open>
  A file of the queue directory: whether it is a regular file, its modification time, and its text
  as JSON (none if it does not parse).
\<close>

record lock_file =
  lk_regular :: bool
  lk_mtime :: int
  lk_json :: "jsv option"

type_synonym queue = "string \<rightharpoonup> lock_file"

definition removeUniqueStoreLockClaim :: "string \<Rightarrow> queue \<Rightarrow> queue" where
  "removeUniqueStoreLockClaim path q = q(path := None)"

record lock_claim =
  lc_name :: string
  lc_pid :: int
  lc_nonce :: string
  lc_ticket :: jsv

record lock_scan =
  sc_choosing :: "lock_claim list"
  sc_tickets :: "lock_claim list"

definition empty_scan :: lock_scan where
  "empty_scan = \<lparr> sc_choosing = [], sc_tickets = [] \<rparr>"

text \<open>The claim of a file and its binding to the name: process, nonce, phase and ticket.\<close>

definition bind_claim :: "string \<Rightarrow> jsv \<Rightarrow> lock_claim res" where
  "bind_claim name claim =
     (let choosingMatch = LOCK_CHOOSING_FILE name; ticketMatch = LOCK_TICKET_FILE name;
          pid = dec_val (case choosingMatch of Some m \<Rightarrow> fst m | None \<Rightarrow> fst (snd (the ticketMatch)));
          nonce = (case choosingMatch of Some m \<Rightarrow> snd m | None \<Rightarrow> snd (snd (the ticketMatch))) in
      if jget ''pid'' claim \<noteq> JNum pid \<or> jget ''nonce'' claim \<noteq> JStr nonce
      then Inl ''store_lock_claim_filename_binding_mismatch''
      else
      bnd (if choosingMatch \<noteq> None then
             (if jget ''phase'' claim \<noteq> JStr ''choosing'' \<or> jget ''ticket'' claim \<noteq> JNull
              then Inl ''store_lock_choosing_claim_binding_mismatch'' else Inr ())
           else
             let ticket = JNum (dec_val (fst (the ticketMatch))) in
             bnd (safeInteger ticket 1 MAX_SAFE_INTEGER ''store_lock_filename_ticket'') (\<lambda>_.
             if jget ''phase'' claim \<noteq> JStr ''ticket'' \<or> jget ''ticket'' claim \<noteq> ticket
             then Inl ''store_lock_ticket_claim_binding_mismatch'' else Inr ())) (\<lambda>_.
      Inr \<lparr> lc_name = name, lc_pid = pid, lc_nonce = nonce, lc_ticket = jget ''ticket'' claim \<rparr>))"

text \<open>
  One entry of the listing, with its kind in the listing, against the files there are when it is
  read: a file that is gone by then is passed over.
\<close>

definition scan_entry ::
  "(int \<Rightarrow> kill_result) \<Rightarrow> int \<Rightarrow> string \<times> bool \<Rightarrow> lock_scan \<Rightarrow> queue \<Rightarrow> lock_scan res \<times> queue" where
  "scan_entry kill now entry acc q =
     (let name = fst entry; regular = snd entry in
      if includes_text name ''.tmp-'' then
        (if \<not> LOCK_CLAIM_TEMP_FILE name then (Inl ''store_lock_claim_temporary_filename_invalid'', q)
         else if \<not> regular then (Inl ''store_lock_claim_temporary_entry_must_be_direct_file'', q)
         else case q name of None \<Rightarrow> (Inr acc, q)
         | Some file \<Rightarrow> if now - lk_mtime file > LOCK_STALE_MS then (Inr acc, removeUniqueStoreLockClaim name q) else (Inr acc, q))
      else if LOCK_CHOOSING_FILE name = None \<and> LOCK_TICKET_FILE name = None then (Inl ''store_lock_queue_entry_invalid'', q)
      else if \<not> regular then (Inl ''store_lock_claim_must_be_direct_file'', q)
      else case q name of None \<Rightarrow> (Inr acc, q)
      | Some file \<Rightarrow>
        (case (case lk_json file of None \<Rightarrow> Inl ''SyntaxError'' | Some v \<Rightarrow> validateStoreLockClaim v) of
           Inl _ \<Rightarrow> if now - lk_mtime file > LOCK_STALE_MS then (Inr acc, removeUniqueStoreLockClaim name q)
                    else (Inl ''store_lock_claim_corrupt'', q)
         | Inr claim \<Rightarrow>
           (case bind_claim name claim of Inl e \<Rightarrow> (Inl e, q)
            | Inr item \<Rightarrow>
              (case processIsAlive (kill (lc_pid item)) of Inl e \<Rightarrow> (Inl e, q)
               | Inr alive \<Rightarrow>
                 if \<not> alive then (Inr acc, removeUniqueStoreLockClaim name q)
                 else if LOCK_CHOOSING_FILE name \<noteq> None then (Inr (acc \<lparr> sc_choosing := sc_choosing acc @ [item] \<rparr>), q)
                 else (Inr (acc \<lparr> sc_tickets := sc_tickets acc @ [item] \<rparr>), q)))))"

text \<open>The whole scan, when nothing else touches the queue meanwhile.\<close>

fun scan_entries ::
  "(int \<Rightarrow> kill_result) \<Rightarrow> int \<Rightarrow> (string \<times> bool) list \<Rightarrow> lock_scan \<Rightarrow> queue \<Rightarrow> lock_scan res \<times> queue" where
  "scan_entries kill now [] acc q = (Inr acc, q)"
| "scan_entries kill now (e # es) acc q =
     (case scan_entry kill now e acc q of (Inl err, q') \<Rightarrow> (Inl err, q')
      | (Inr acc', q') \<Rightarrow> scan_entries kill now es acc' q')"

definition scanStoreLockClaims ::
  "(int \<Rightarrow> kill_result) \<Rightarrow> int \<Rightarrow> (string \<times> bool) list \<Rightarrow> queue \<Rightarrow> lock_scan res \<times> queue" where
  "scanStoreLockClaims kill now listing q = scan_entries kill now listing empty_scan q"

section \<open>Numbers and turns\<close>

definition next_ticket :: "lock_scan \<Rightarrow> int res" where
  "next_ticket scanned =
     (let maximumTicket = fold (\<lambda>claim maximum. max maximum (num_of (lc_ticket claim))) (sc_tickets scanned) 0
      in safeInteger (JNum (maximumTicket + 1)) 1 MAX_SAFE_INTEGER ''store_lock_ticket'')"

text \<open>
  Whether the attempt with the given ticket file may enter: its ticket must be there, no one may be
  choosing, and its ticket must come first.
\<close>

definition ticket_key :: "lock_claim \<Rightarrow> int \<times> int \<times> string" where
  "ticket_key c = (num_of (lc_ticket c), lc_pid c, lc_nonce c)"

definition wait_decision :: "string \<Rightarrow> lock_scan \<Rightarrow> bool res" where
  "wait_decision ticketPath scanned =
     (if ticketPath \<notin> set (map lc_name (sc_tickets scanned)) then Inl ''store_lock_ownership_lost''
      else Inr (sc_choosing scanned = [] \<and> lc_name (hd (sort_key ticket_key (sc_tickets scanned))) = ticketPath))"

section \<open>The protocol\<close>

text \<open>An attempt: the identifier of its process and its nonce.\<close>

type_synonym attempt = "int \<times> string"

definition valid_attempt :: "attempt \<Rightarrow> bool" where
  "valid_attempt p \<longleftrightarrow> 1 \<le> fst p \<and> fst p \<le> MAX_SAFE_INTEGER \<and> hex_n 32 (snd p)"

definition choosing_name :: "attempt \<Rightarrow> string" where
  "choosing_name p = ''choosing-'' @ int_str (fst p) @ ''-'' @ snd p @ ''.json''"

definition ticket_name :: "int \<Rightarrow> attempt \<Rightarrow> string" where
  "ticket_name n p = ''ticket-'' @ padStart 16 (int_str n) @ ''-'' @ int_str (fst p) @ ''-'' @ snd p @ ''.json''"

definition claim_json :: "attempt \<Rightarrow> string \<Rightarrow> string \<Rightarrow> jsv \<Rightarrow> jsv" where
  "claim_json p created phase ticket = JObj [
     (''schema'', JStr LOCK_CLAIM_SCHEMA),
     (''pid'', JNum (fst p)),
     (''nonce'', JStr (snd p)),
     (''created_at_utc'', JStr created),
     (''phase'', JStr phase),
     (''ticket'', ticket)]"

definition claim_file :: "int \<Rightarrow> jsv \<Rightarrow> lock_file" where
  "claim_file now claim = \<lparr> lk_regular = True, lk_mtime = now, lk_json = Some (json_data claim) \<rparr>"

text \<open>Where an attempt stands. A scan in progress has the rest of its listing and what it found.\<close>

datatype lock_pc =
    Start
  | Chosen
  | Counting "(string \<times> bool) list" lock_scan
  | Numbered int
  | Ticketed int
  | Waiting int
  | Checking int "(string \<times> bool) list" lock_scan
  | Critical int
  | Leaving "int option"
  | Closing "int option"
  | Stopped

record lock_state =
  ls_files :: queue
  ls_pc :: "attempt \<Rightarrow> lock_pc"
  ls_now :: int
  ls_kill :: "int \<Rightarrow> kill_result"

definition listing_of :: "queue \<Rightarrow> (string \<times> bool) list \<Rightarrow> bool" where
  "listing_of q es \<longleftrightarrow> distinct (map fst es) \<and> (\<forall>name b. (name, b) \<in> set es \<longleftrightarrow> (\<exists>f. q name = Some f \<and> b = lk_regular f))"

definition set_pc :: "attempt \<Rightarrow> lock_pc \<Rightarrow> lock_state \<Rightarrow> lock_state" where
  "set_pc p c s = s \<lparr> ls_pc := (ls_pc s)(p := c) \<rparr>"

definition write_claim :: "string \<Rightarrow> jsv \<Rightarrow> lock_state \<Rightarrow> lock_state" where
  "write_claim name claim s = s \<lparr> ls_files := (ls_files s)(name \<mapsto> claim_file (ls_now s) claim) \<rparr>"

definition remove_claim :: "string \<Rightarrow> lock_state \<Rightarrow> lock_state" where
  "remove_claim name s = s \<lparr> ls_files := removeUniqueStoreLockClaim name (ls_files s) \<rparr>"

text \<open>A choosing file of the listing that is gone when the scan comes to it.\<close>

definition missed_choosing :: "queue \<Rightarrow> string \<times> bool \<Rightarrow> bool" where
  "missed_choosing q e \<longleftrightarrow> LOCK_CHOOSING_FILE (fst e) \<noteq> None \<and> q (fst e) = None"

text \<open>
  The steps. The first argument says whether the polling scan may pass over a choosing file that
  vanished since the directory was listed: the code's scan does. A write puts the complete file in
  place; the temporary files of writes come and go in the step \<open>temp_files\<close>. After every file operation
  the attempt may fail, in particular when the directory cannot be synchronised: the choosing file is
  written outside the \<^verbatim>\<open>try\<close> and stays then (\<open>choosing_fails\<close>), from there on the attempt cleans up. A
  process that dies takes its attempts with it and leaves their files.
\<close>

inductive lock_step :: "bool \<Rightarrow> lock_state \<Rightarrow> lock_state \<Rightarrow> bool" for miss where
  write_choosing: "ls_pc s p = Start \<Longrightarrow> valid_attempt p \<Longrightarrow> ls_kill s (fst p) \<noteq> ESRCH \<Longrightarrow>
    canonicalUtc (JStr u) ''store_lock_claim.created_at_utc'' = Inr u \<Longrightarrow>
    lock_step miss s (set_pc p Chosen (write_claim (choosing_name p) (claim_json p u ''choosing'' JNull) s))"
| list_first: "ls_pc s p = Chosen \<Longrightarrow> listing_of (ls_files s) es \<Longrightarrow> lock_step miss s (set_pc p (Counting es empty_scan) s)"
| choosing_fails: "ls_pc s p = Chosen \<Longrightarrow> lock_step miss s (set_pc p Stopped s)"
| list_fails: "ls_pc s p = Chosen \<Longrightarrow> lock_step miss s (set_pc p (Leaving None) s)"
| count_entry: "ls_pc s p = Counting (e # es) acc \<Longrightarrow>
    scan_entry (ls_kill s) (ls_now s) e acc (ls_files s) = (Inr acc', q) \<Longrightarrow>
    lock_step miss s (set_pc p (Counting es acc') (s \<lparr> ls_files := q \<rparr>))"
| count_fails: "ls_pc s p = Counting (e # es) acc \<Longrightarrow>
    scan_entry (ls_kill s) (ls_now s) e acc (ls_files s) = (Inl err, q) \<Longrightarrow>
    lock_step miss s (set_pc p (Leaving None) (s \<lparr> ls_files := q \<rparr>))"
| take_number: "ls_pc s p = Counting [] acc \<Longrightarrow> next_ticket acc = Inr n \<Longrightarrow> lock_step miss s (set_pc p (Numbered n) s)"
| no_number: "ls_pc s p = Counting [] acc \<Longrightarrow> next_ticket acc = Inl err \<Longrightarrow> lock_step miss s (set_pc p (Leaving None) s)"
| write_ticket: "ls_pc s p = Numbered n \<Longrightarrow> canonicalUtc (JStr u) ''store_lock_claim.created_at_utc'' = Inr u \<Longrightarrow>
    lock_step miss s (set_pc p (Ticketed n) (write_claim (ticket_name n p) (claim_json p u ''ticket'' (JNum n)) s))"
| write_ticket_fails: "ls_pc s p = Numbered n \<Longrightarrow> lock_step miss s (set_pc p (Leaving (Some n)) s)"
| drop_choosing: "ls_pc s p = Ticketed n \<Longrightarrow> lock_step miss s (set_pc p (Waiting n) (remove_claim (choosing_name p) s))"
| ticket_fails: "ls_pc s p = Ticketed n \<Longrightarrow> lock_step miss s (set_pc p (Leaving (Some n)) s)"
| wait_fails: "ls_pc s p = Waiting n \<Longrightarrow> lock_step miss s (set_pc p (Leaving (Some n)) s)"
| list_again: "ls_pc s p = Waiting n \<Longrightarrow> listing_of (ls_files s) es \<Longrightarrow> lock_step miss s (set_pc p (Checking n es empty_scan) s)"
| check_entry: "ls_pc s p = Checking n (e # es) acc \<Longrightarrow> missed_choosing (ls_files s) e \<longrightarrow> miss \<Longrightarrow>
    scan_entry (ls_kill s) (ls_now s) e acc (ls_files s) = (Inr acc', q) \<Longrightarrow>
    lock_step miss s (set_pc p (Checking n es acc') (s \<lparr> ls_files := q \<rparr>))"
| check_fails: "ls_pc s p = Checking n (e # es) acc \<Longrightarrow>
    scan_entry (ls_kill s) (ls_now s) e acc (ls_files s) = (Inl err, q) \<Longrightarrow>
    lock_step miss s (set_pc p (Leaving (Some n)) (s \<lparr> ls_files := q \<rparr>))"
| enter: "ls_pc s p = Checking n [] acc \<Longrightarrow> wait_decision (ticket_name n p) acc = Inr True \<Longrightarrow>
    lock_step miss s (set_pc p (Critical n) s)"
| poll_again: "ls_pc s p = Checking n [] acc \<Longrightarrow> wait_decision (ticket_name n p) acc = Inr False \<Longrightarrow>
    lock_step miss s (set_pc p (Waiting n) s)"
| give_up: "ls_pc s p = Checking n [] acc \<Longrightarrow> wait_decision (ticket_name n p) acc \<noteq> Inr True \<Longrightarrow>
    lock_step miss s (set_pc p (Leaving (Some n)) s)"
| leave: "ls_pc s p = Critical n \<Longrightarrow> lock_step miss s (set_pc p (Leaving (Some n)) s)"
| remove_choosing: "ls_pc s p = Leaving t \<Longrightarrow> lock_step miss s (set_pc p (Closing t) (remove_claim (choosing_name p) s))"
| remove_ticket: "ls_pc s p = Closing t \<Longrightarrow>
    lock_step miss s (set_pc p Stopped (case t of None \<Rightarrow> s | Some n \<Rightarrow> remove_claim (ticket_name n p) s))"
| temp_files: "\<forall>name. \<not> includes_text name ''.tmp-'' \<longrightarrow> q name = ls_files s name \<Longrightarrow> lock_step miss s (s \<lparr> ls_files := q \<rparr>)"
| clock: "ls_now s \<le> t \<Longrightarrow> lock_step miss s (s \<lparr> ls_now := t \<rparr>)"
| crash: "lock_step miss s (s \<lparr> ls_kill := (ls_kill s)(pid := ESRCH),
    ls_pc := (\<lambda>p. if fst p = pid \<and> ls_pc s p \<noteq> Start then Stopped else ls_pc s p) \<rparr>)"
| processes: "\<forall>p. ls_pc s p \<notin> {Start, Stopped} \<longrightarrow> kill (fst p) \<noteq> ESRCH \<Longrightarrow> lock_step miss s (s \<lparr> ls_kill := kill \<rparr>)"

definition lock_initial :: lock_state where
  "lock_initial = \<lparr> ls_files = Map.empty, ls_pc = (\<lambda>_. Start), ls_now = 0, ls_kill = (\<lambda>_. Signalled) \<rparr>"

abbreviation lock_reachable :: "bool \<Rightarrow> lock_state \<Rightarrow> bool" where
  "lock_reachable miss \<equiv> (lock_step miss)\<^sup>*\<^sup>* lock_initial"

end
