(* ===== verification/Saga_Lock_Scan.thy ===== *)
theory Saga_Lock_Scan
  imports Saga_Lock Saga_Directory
begin

text \<open>What a scan makes of the claim files the protocol writes.\<close>

section \<open>Names of claim files\<close>

declare dec_str.simps [simp del]

lemma dec_str_length_le: "n < 10 ^ Suc k \<Longrightarrow> length (dec_str n) \<le> Suc k"
proof (induction k arbitrary: n)
  case (Suc k)
  show ?case
  proof (cases "n < 10")
    case False
    with Suc.prems have "n div 10 < 10 ^ Suc k" by auto
    from Suc.IH [OF this] False show ?thesis by (subst dec_str.simps) simp
  qed (simp add: dec_str_small)
qed (simp add: dec_str_small)

lemma takeWhile_digits:
  assumes "list_all is_digit ds" "\<not> is_digit c"
  shows "takeWhile is_digit (ds @ c # t) = ds" "dropWhile is_digit (ds @ c # t) = c # t"
  using assms by (auto simp: list_all_iff takeWhile_append2 dropWhile_append2)

lemma pid_nonce_join:
  assumes "0 \<le> pid" "hex_n 32 nonce"
  shows "pid_nonce (dec_str pid @ ''-'' @ nonce @ ''.json'') = Some (dec_str pid, nonce)"
proof -
  have "\<not> is_digit CHR ''-''" by (simp add: is_digit_def)
  note w = takeWhile_digits [OF dec_str_digits [OF assms(1)] this]
  have len: "length nonce = 32" using assms(2) by (simp add: hex_n_def)
  then have "drop 33 (CHR ''-'' # nonce @ ''.json'') = ''.json''" by simp
  then show ?thesis using assms(2) len by (simp add: pid_nonce_def w)
qed

lemma padStart_16:
  assumes "1 \<le> n" "n \<le> MAX_SAFE_INTEGER"
  shows "length (padStart 16 (dec_str n)) = 16" "list_all is_digit (padStart 16 (dec_str n))" "dec_val (padStart 16 (dec_str n)) = n"
proof -
  have "length (dec_str n) \<le> Suc 15" using assms(2) by (intro dec_str_length_le) (simp add: MAX_SAFE_INTEGER_def)
  then show "length (padStart 16 (dec_str n)) = 16" by (simp add: padStart_def)
  have "is_digit CHR ''0''" by (simp add: is_digit_def)
  then show "list_all is_digit (padStart 16 (dec_str n))"
    using assms(1) dec_str_digits [of n] by (auto simp: padStart_def list_all_iff)
  show "dec_val (padStart 16 (dec_str n)) = n" using assms(1) by (simp add: padStart_def dec_val_replicate)
qed

abbreviation valid_ticket :: "int \<Rightarrow> bool" where
  "valid_ticket n \<equiv> 1 \<le> n \<and> n \<le> MAX_SAFE_INTEGER"

lemma choosing_name_parse:
  assumes "valid_attempt p"
  shows "LOCK_CHOOSING_FILE (choosing_name p) = Some (dec_str (fst p), snd p)"
  using assms pid_nonce_join [of "fst p" "snd p"] by (simp add: LOCK_CHOOSING_FILE_def choosing_name_def valid_attempt_def)

lemma ticket_name_parse:
  assumes "valid_attempt p" "valid_ticket n"
  shows "LOCK_TICKET_FILE (ticket_name n p) = Some (padStart 16 (dec_str n), dec_str (fst p), snd p)"
    "LOCK_CHOOSING_FILE (ticket_name n p) = None"
proof -
  have "0 \<le> fst p" "hex_n 32 (snd p)" using assms(1) by (simp_all add: valid_attempt_def)
  note pn = pid_nonce_join [OF this]
  obtain d where d: "padStart 16 (dec_str n) = d" "length d = 16" "list_all is_digit d" using padStart_16 assms(2) by blast
  have "ticket_name n p = ''ticket-'' @ d @ ''-'' @ dec_str (fst p) @ ''-'' @ snd p @ ''.json''"
    using assms d(1) by (simp add: ticket_name_def valid_attempt_def)
  moreover have "drop 24 (''ticket-'' @ d @ ''-'' @ x) = x" "take 1 (drop 23 (''ticket-'' @ d @ ''-'' @ x)) = ''-''"
    "take 16 (drop 7 (''ticket-'' @ d @ ''-'' @ x)) = d" for x
    using d(2) by simp_all
  ultimately show "LOCK_TICKET_FILE (ticket_name n p) = Some (padStart 16 (dec_str n), dec_str (fst p), snd p)"
    using d pn by (simp add: LOCK_TICKET_FILE_def Let_def)
  show "LOCK_CHOOSING_FILE (ticket_name n p) = None" by (simp add: LOCK_CHOOSING_FILE_def ticket_name_def)
qed

text \<open>No claim file's name has the letter m, so none is taken for a temporary file.\<close>

lemma claim_name_plain:
  assumes "valid_attempt p"
  shows "\<not> includes_text (choosing_name p) ''.tmp-''" "valid_ticket n \<Longrightarrow> \<not> includes_text (ticket_name n p) ''.tmp-''"
proof -
  have m: "\<not> is_digit CHR ''m''" "\<not> is_lower_hex CHR ''m''" by (simp_all add: is_digit_def is_lower_hex_def)
  have tmp: "CHR ''m'' \<notin> set name \<Longrightarrow> \<not> includes_text name ''.tmp-''" for name
    using includes_text_set [of name "''.tmp-''"] by auto
  have parts: "CHR ''m'' \<notin> set (dec_str (fst p))" "CHR ''m'' \<notin> set (snd p)"
    using assms m dec_str_digits [of "fst p"] by (auto simp: valid_attempt_def hex_n_def list_all_iff)
  show "\<not> includes_text (choosing_name p) ''.tmp-''"
    using parts assms by (intro tmp) (simp add: choosing_name_def valid_attempt_def)
  assume n: "valid_ticket n"
  have "CHR ''m'' \<notin> set (padStart 16 (dec_str n))" using padStart_16(2) [of n] n m(1) unfolding list_all_iff by blast
  then show "\<not> includes_text (ticket_name n p) ''.tmp-''"
    using parts assms n by (intro tmp) (simp add: ticket_name_def valid_attempt_def)
qed

text \<open>Names determine attempts.\<close>

lemma choosing_name_inj: "valid_attempt p \<Longrightarrow> valid_attempt q \<Longrightarrow> choosing_name p = choosing_name q \<longleftrightarrow> p = q"
  using choosing_name_parse [of p] choosing_name_parse [of q] dec_str_inject [of "fst p" "fst q"]
  unfolding valid_attempt_def by (metis dual_order.trans option.inject prod.expand prod.inject zero_le_one)

lemma ticket_name_inj:
  assumes "valid_attempt p" "valid_attempt q" "valid_ticket n" "valid_ticket m"
  shows "ticket_name n p = ticket_name m q \<longleftrightarrow> n = m \<and> p = q"
proof
  assume eq: "ticket_name n p = ticket_name m q"
  then have "padStart 16 (dec_str n) = padStart 16 (dec_str m)" "dec_str (fst p) = dec_str (fst q)" "snd p = snd q"
    using ticket_name_parse(1) [OF assms(1,3)] ticket_name_parse(1) [OF assms(2,4)] by simp_all
  moreover from this have "n = m" using padStart_16(3) assms(3,4) by metis
  ultimately show "n = m \<and> p = q"
    using assms dec_str_inject [of "fst p" "fst q"] by (auto simp: valid_attempt_def prod_eq_iff)
qed simp

lemma choosing_ne_ticket: "choosing_name p \<noteq> ticket_name n q"
  by (simp add: choosing_name_def ticket_name_def)

section \<open>Claims\<close>

text \<open>The files the protocol writes for an attempt.\<close>

definition choosing_file :: "attempt \<Rightarrow> lock_file \<Rightarrow> bool" where
  "choosing_file p f \<longleftrightarrow> (\<exists>u t. canonicalUtc (JStr u) ''store_lock_claim.created_at_utc'' = Inr u \<and>
     f = claim_file t (claim_json p u ''choosing'' JNull))"

definition ticket_file :: "int \<Rightarrow> attempt \<Rightarrow> lock_file \<Rightarrow> bool" where
  "ticket_file n p f \<longleftrightarrow> (\<exists>u t. canonicalUtc (JStr u) ''store_lock_claim.created_at_utc'' = Inr u \<and>
     f = claim_file t (claim_json p u ''ticket'' (JNum n)))"

definition choosing_item :: "attempt \<Rightarrow> lock_claim" where
  "choosing_item p = \<lparr> lc_name = choosing_name p, lc_pid = fst p, lc_nonce = snd p, lc_ticket = JNull \<rparr>"

definition ticket_item :: "int \<Rightarrow> attempt \<Rightarrow> lock_claim" where
  "ticket_item n p = \<lparr> lc_name = ticket_name n p, lc_pid = fst p, lc_nonce = snd p, lc_ticket = JNum n \<rparr>"

lemma claim_json_get:
  "jget ''schema'' (claim_json p u ph t) = JStr LOCK_CLAIM_SCHEMA" "jget ''pid'' (claim_json p u ph t) = JNum (fst p)"
  "jget ''nonce'' (claim_json p u ph t) = JStr (snd p)" "jget ''phase'' (claim_json p u ph t) = JStr ph"
  "jget ''ticket'' (claim_json p u ph t) = t" "jget ''created_at_utc'' (claim_json p u ph t) = JStr u"
  by (simp_all add: claim_json_def)

lemma claim_json_data: "plain t \<Longrightarrow> json_data (claim_json p u ph t) = claim_json p u ph t"
  by (intro json_data_plain) (simp add: claim_json_def)

lemma valid_claim:
  assumes "valid_attempt p" "canonicalUtc (JStr u) ''store_lock_claim.created_at_utc'' = Inr u"
    and "(ph = ''choosing'' \<and> t = JNull) \<or> (ph = ''ticket'' \<and> (\<exists>n. t = JNum n \<and> valid_ticket n))"
  shows "validateStoreLockClaim (claim_json p u ph t) = Inr (claim_json p u ph t)"
proof -
  have keys: "saga_exactKeys (claim_json p u ph t) LOCK_CLAIM_KEYS ''store_lock_claim'' = Inr ()"
    by (simp add: saga_exactKeys_def directObject_def claim_json_def same_keys_def LOCK_CLAIM_KEYS_def)
  have nonce: "nonEmptyString (JStr (snd p)) ''store_lock_claim.nonce'' 32 = Inr (snd p)"
  proof -
    have hex: "length (snd p) = 32" "list_all is_lower_hex (snd p)" using assms(1) by (simp_all add: valid_attempt_def hex_n_def)
    from hex(2) have "js_trim (snd p) = snd p" using no_space(2) by (intro js_trim_id) (simp add: list_all_iff)
    with hex(1) show ?thesis by (auto simp: nonEmptyString_def)
  qed
  have safe: "isSafeInteger (JNum (fst p))" "1 \<le> fst p" "fst p \<le> MAX_SAFE_INTEGER" "hex_n 32 (snd p)"
    using assms(1) by (auto simp: valid_attempt_def isSafeInteger_iff MAX_SAFE_INTEGER_def)
  have ticket: "valid_ticket n \<Longrightarrow> isSafeInteger (JNum n)" for n
    by (auto simp: isSafeInteger_iff MAX_SAFE_INTEGER_def)
  show ?thesis
    using assms(2,3) safe ticket
    by (auto simp: validateStoreLockClaim_def keys claim_json_get nonce safeInteger_def)
qed

lemma bind_choosing:
  assumes "valid_attempt p"
  shows "bind_claim (choosing_name p) (claim_json p u ''choosing'' JNull) = Inr (choosing_item p)"
  using assms
  by (simp add: bind_claim_def Let_def choosing_name_parse claim_json_get choosing_item_def valid_attempt_def)

lemma bind_ticket:
  assumes "valid_attempt p" "valid_ticket n"
  shows "bind_claim (ticket_name n p) (claim_json p u ''ticket'' (JNum n)) = Inr (ticket_item n p)"
proof -
  have "isSafeInteger (JNum n)" using assms(2) by (auto simp: isSafeInteger_iff MAX_SAFE_INTEGER_def)
  then show ?thesis
    using assms padStart_16(3) [of n] ticket_name_parse [OF assms]
    by (simp add: bind_claim_def Let_def claim_json_get ticket_item_def valid_attempt_def safeInteger_def)
qed

text \<open>One entry: a claim of a live process is collected, one of a dead process is removed.\<close>

lemma scan_choosing:
  assumes "valid_attempt p" "q (choosing_name p) = Some f" "choosing_file p f"
  shows "scan_entry kill now (choosing_name p, lk_regular f) acc q =
    (case kill (fst p) of ESRCH \<Rightarrow> (Inr acc, q(choosing_name p := None)) | OtherError e \<Rightarrow> (Inl e, q)
     | _ \<Rightarrow> (Inr (acc \<lparr> sc_choosing := sc_choosing acc @ [choosing_item p] \<rparr>), q))"
proof -
  from assms(3) obtain u t where u: "canonicalUtc (JStr u) ''store_lock_claim.created_at_utc'' = Inr u"
    and f: "f = \<lparr> lk_regular = True, lk_mtime = t, lk_json = Some (claim_json p u ''choosing'' JNull) \<rparr>"
    by (auto simp: choosing_file_def claim_file_def claim_json_data)
  have "validateStoreLockClaim (claim_json p u ''choosing'' JNull) = Inr (claim_json p u ''choosing'' JNull)"
    using valid_claim [OF assms(1) u] by simp
  moreover have "lc_pid (choosing_item p) = fst p" by (simp add: choosing_item_def)
  ultimately show ?thesis
    using assms(2) claim_name_plain(1) [OF assms(1)] choosing_name_parse [OF assms(1)] bind_choosing [OF assms(1)]
    by (simp add: scan_entry_def f processIsAlive_def removeUniqueStoreLockClaim_def split: kill_result.splits)
qed

lemma scan_ticket:
  assumes "valid_attempt p" "valid_ticket n" "q (ticket_name n p) = Some f" "ticket_file n p f"
  shows "scan_entry kill now (ticket_name n p, lk_regular f) acc q =
    (case kill (fst p) of ESRCH \<Rightarrow> (Inr acc, q(ticket_name n p := None)) | OtherError e \<Rightarrow> (Inl e, q)
     | _ \<Rightarrow> (Inr (acc \<lparr> sc_tickets := sc_tickets acc @ [ticket_item n p] \<rparr>), q))"
proof -
  from assms(4) obtain u t where u: "canonicalUtc (JStr u) ''store_lock_claim.created_at_utc'' = Inr u"
    and f: "f = \<lparr> lk_regular = True, lk_mtime = t, lk_json = Some (claim_json p u ''ticket'' (JNum n)) \<rparr>"
    by (auto simp: ticket_file_def claim_file_def claim_json_data)
  have "validateStoreLockClaim (claim_json p u ''ticket'' (JNum n)) = Inr (claim_json p u ''ticket'' (JNum n))"
    using valid_claim [OF assms(1) u] assms(2) by simp
  moreover have "lc_pid (ticket_item n p) = fst p" by (simp add: ticket_item_def)
  ultimately show ?thesis
    using assms(3) claim_name_plain(2) [OF assms(1,2)] ticket_name_parse [OF assms(1,2)] bind_ticket [OF assms(1,2)]
    by (simp add: scan_entry_def f processIsAlive_def removeUniqueStoreLockClaim_def split: kill_result.splits)
qed

lemma scan_missing:
  assumes "q name = None" "scan_entry kill now (name, b) acc q = (r, q')"
  shows "q' = q" "r = Inr acc' \<Longrightarrow> acc' = acc"
  using assms by (auto simp: scan_entry_def Let_def split: if_splits)

section \<open>A complete scan\<close>

text \<open>A queue that holds claim files only, and the claims of processes that are gone.\<close>

definition claim_at :: "string \<Rightarrow> lock_file \<Rightarrow> bool" where
  "claim_at name f \<longleftrightarrow>
     (\<exists>p. valid_attempt p \<and> name = choosing_name p \<and> choosing_file p f) \<or>
     (\<exists>n p. valid_attempt p \<and> valid_ticket n \<and> name = ticket_name n p \<and> ticket_file n p f)"

definition claims_only :: "queue \<Rightarrow> bool" where
  "claims_only q \<longleftrightarrow> (\<forall>name f. q name = Some f \<longrightarrow> claim_at name f)"

definition dead_claim :: "(int \<Rightarrow> kill_result) \<Rightarrow> string \<Rightarrow> bool" where
  "dead_claim kill name \<longleftrightarrow> (\<exists>n p. valid_attempt p \<and> valid_ticket n \<and> kill (fst p) = ESRCH \<and>
     (name = choosing_name p \<or> name = ticket_name n p))"

definition live_choosing :: "(int \<Rightarrow> kill_result) \<Rightarrow> string set \<Rightarrow> lock_claim set" where
  "live_choosing kill names = choosing_item ` {p. valid_attempt p \<and> choosing_name p \<in> names \<and> kill (fst p) \<noteq> ESRCH}"

definition live_tickets :: "(int \<Rightarrow> kill_result) \<Rightarrow> string set \<Rightarrow> lock_claim set" where
  "live_tickets kill names = (\<lambda>(n, p). ticket_item n p) `
     {(n, p). valid_attempt p \<and> valid_ticket n \<and> ticket_name n p \<in> names \<and> kill (fst p) \<noteq> ESRCH}"

lemma valid_ticket_one: "valid_ticket 1"
  by (simp add: MAX_SAFE_INTEGER_def)

lemma claim_sets:
  assumes "valid_attempt p"
  shows "dead_claim kill (choosing_name p) \<longleftrightarrow> kill (fst p) = ESRCH"
    "live_choosing kill (insert (choosing_name p) N) =
       live_choosing kill N \<union> (if kill (fst p) = ESRCH then {} else {choosing_item p})"
    "live_tickets kill (insert (choosing_name p) N) = live_tickets kill N"
    "valid_ticket n \<Longrightarrow> dead_claim kill (ticket_name n p) \<longleftrightarrow> kill (fst p) = ESRCH"
    "valid_ticket n \<Longrightarrow> live_choosing kill (insert (ticket_name n p) N) = live_choosing kill N"
    "valid_ticket n \<Longrightarrow> live_tickets kill (insert (ticket_name n p) N) =
       live_tickets kill N \<union> (if kill (fst p) = ESRCH then {} else {ticket_item n p})"
proof -
  show "dead_claim kill (choosing_name p) \<longleftrightarrow> kill (fst p) = ESRCH"
  proof
    assume "dead_claim kill (choosing_name p)"
    then obtain q where q: "valid_attempt q" "kill (fst q) = ESRCH" "choosing_name p = choosing_name q"
      unfolding dead_claim_def using choosing_ne_ticket by blast
    with choosing_name_inj [OF assms q(1)] show "kill (fst p) = ESRCH" by blast
  qed (use assms valid_ticket_one in \<open>unfold dead_claim_def, blast\<close>)
  show "live_choosing kill (insert (choosing_name p) N) =
       live_choosing kill N \<union> (if kill (fst p) = ESRCH then {} else {choosing_item p})"
  proof -
    have "valid_attempt q \<Longrightarrow> choosing_name q \<in> insert (choosing_name p) N \<longleftrightarrow> q = p \<or> choosing_name q \<in> N" for q
      using choosing_name_inj [OF _ assms] by blast
    then have "{q. valid_attempt q \<and> choosing_name q \<in> insert (choosing_name p) N \<and> kill (fst q) \<noteq> ESRCH} =
        {q. valid_attempt q \<and> choosing_name q \<in> N \<and> kill (fst q) \<noteq> ESRCH} \<union> (if kill (fst p) = ESRCH then {} else {p})"
      using assms by auto
    then show ?thesis unfolding live_choosing_def by auto
  qed
  show "live_tickets kill (insert (choosing_name p) N) = live_tickets kill N"
    using choosing_ne_ticket [symmetric] by (auto simp: live_tickets_def)
  assume n: "valid_ticket n"
  show "dead_claim kill (ticket_name n p) \<longleftrightarrow> kill (fst p) = ESRCH"
  proof
    assume "dead_claim kill (ticket_name n p)"
    then obtain m q where q: "valid_attempt q" "valid_ticket m" "kill (fst q) = ESRCH" "ticket_name n p = ticket_name m q"
      unfolding dead_claim_def using choosing_ne_ticket [symmetric] by blast
    with ticket_name_inj [OF assms q(1) n q(2)] show "kill (fst p) = ESRCH" by blast
  qed (use assms n in \<open>unfold dead_claim_def, blast\<close>)
  show "live_choosing kill (insert (ticket_name n p) N) = live_choosing kill N"
    using choosing_ne_ticket by (auto simp: live_choosing_def)
  show "live_tickets kill (insert (ticket_name n p) N) =
       live_tickets kill N \<union> (if kill (fst p) = ESRCH then {} else {ticket_item n p})"
  proof -
    have "valid_attempt q \<Longrightarrow> valid_ticket m \<Longrightarrow>
        ticket_name m q \<in> insert (ticket_name n p) N \<longleftrightarrow> (m = n \<and> q = p) \<or> ticket_name m q \<in> N" for m q
      using ticket_name_inj [OF _ assms _ n] by blast
    then have "{(m, q). valid_attempt q \<and> valid_ticket m \<and> ticket_name m q \<in> insert (ticket_name n p) N \<and> kill (fst q) \<noteq> ESRCH} =
        {(m, q). valid_attempt q \<and> valid_ticket m \<and> ticket_name m q \<in> N \<and> kill (fst q) \<noteq> ESRCH} \<union>
        (if kill (fst p) = ESRCH then {} else {(n, p)})"
      using assms n by auto
    then show ?thesis unfolding live_tickets_def by auto
  qed
qed

lemma scan_claim:
  assumes "claim_at name f" "q name = Some f" "\<forall>pid e. kill pid \<noteq> OtherError e"
  shows "\<exists>acc'. scan_entry kill now (name, lk_regular f) acc q = (Inr acc', if dead_claim kill name then q(name := None) else q) \<and>
    (\<forall>N. set (sc_choosing acc') \<union> live_choosing kill N = set (sc_choosing acc) \<union> live_choosing kill (insert name N)) \<and>
    (\<forall>N. set (sc_tickets acc') \<union> live_tickets kill N = set (sc_tickets acc) \<union> live_tickets kill (insert name N))"
proof -
  consider p where "valid_attempt p" "name = choosing_name p" "choosing_file p f"
    | n p where "valid_attempt p" "valid_ticket n" "name = ticket_name n p" "ticket_file n p f"
    using assms(1) unfolding claim_at_def by blast
  then show ?thesis
  proof cases
    case (1 p)
    with scan_choosing [OF 1(1) _ 1(3), of q kill now acc] assms(2,3) show ?thesis
      by (cases "kill (fst p)") (auto simp: claim_sets)
  next
    case (2 n p)
    with scan_ticket [OF 2(1,2) _ 2(4), of q kill now acc] assms(2,3) show ?thesis
      by (cases "kill (fst p)") (auto simp: claim_sets)
  qed
qed

lemma scan_entries_claims:
  assumes "\<forall>pid e. kill pid \<noteq> OtherError e" "distinct (map fst es)"
    and "\<forall>(name, b) \<in> set es. \<exists>f. q name = Some f \<and> b = lk_regular f \<and> claim_at name f"
  shows "\<exists>sc. scan_entries kill now es acc q =
      (Inr sc, \<lambda>name. if name \<in> set (map fst es) \<and> dead_claim kill name then None else q name) \<and>
    set (sc_choosing sc) = set (sc_choosing acc) \<union> live_choosing kill (set (map fst es)) \<and>
    set (sc_tickets sc) = set (sc_tickets acc) \<union> live_tickets kill (set (map fst es))"
  using assms(2,3)
proof (induction es arbitrary: acc q)
  case Nil
  then show ?case by (simp add: live_choosing_def live_tickets_def)
next
  case (Cons e es)
  obtain name f where e: "e = (name, lk_regular f)" "q name = Some f" "claim_at name f"
    using Cons.prems(2) by (cases e) auto
  define q' where "q' = (if dead_claim kill name then q(name := None) else q)"
  obtain acc' where acc': "scan_entry kill now e acc q = (Inr acc', q')"
    "\<And>N. set (sc_choosing acc') \<union> live_choosing kill N = set (sc_choosing acc) \<union> live_choosing kill (insert name N)"
    "\<And>N. set (sc_tickets acc') \<union> live_tickets kill N = set (sc_tickets acc) \<union> live_tickets kill (insert name N)"
    using scan_claim [of name f q kill now acc] e(2,3) assms(1) unfolding q'_def e(1) by blast
  have new: "name \<notin> set (map fst es)" using Cons.prems(1) by (simp add: e(1))
  have "\<exists>f. q' n = Some f \<and> b = lk_regular f \<and> claim_at n f" if "(n, b) \<in> set es" for n b
  proof -
    have "n \<noteq> name" using that new by force
    then have "q' n = q n" by (simp add: q'_def)
    moreover have "\<exists>f. q n = Some f \<and> b = lk_regular f \<and> claim_at n f" using Cons.prems(2) that by auto
    ultimately show ?thesis by simp
  qed
  then have "\<forall>(n, b) \<in> set es. \<exists>f. q' n = Some f \<and> b = lk_regular f \<and> claim_at n f" by blast
  with Cons.IH [of q' acc'] Cons.prems(1) obtain sc where sc: "scan_entries kill now es acc' q' =
      (Inr sc, \<lambda>n. if n \<in> set (map fst es) \<and> dead_claim kill n then None else q' n)"
    "set (sc_choosing sc) = set (sc_choosing acc') \<union> live_choosing kill (set (map fst es))"
    "set (sc_tickets sc) = set (sc_tickets acc') \<union> live_tickets kill (set (map fst es))"
    by auto
  have "(\<lambda>n. if n \<in> set (map fst es) \<and> dead_claim kill n then None else q' n) =
      (\<lambda>n. if n \<in> set (map fst (e # es)) \<and> dead_claim kill n then None else q n)"
    by (auto simp: q'_def e(1))
  then show ?case using sc acc' by (simp add: e(1))
qed

lemma scan_live_claims:
  assumes "claims_only q" "listing_of q es" "\<forall>pid e. kill pid \<noteq> OtherError e"
  shows "\<exists>sc. scanStoreLockClaims kill now es q = (Inr sc, \<lambda>name. if dead_claim kill name then None else q name) \<and>
    set (sc_choosing sc) = live_choosing kill (dom q) \<and> set (sc_tickets sc) = live_tickets kill (dom q)"
proof -
  have l: "distinct (map fst es)" "\<And>name b. (name, b) \<in> set es \<longleftrightarrow> (\<exists>f. q name = Some f \<and> b = lk_regular f)"
    using assms(2) unfolding listing_of_def by blast+
  have "name \<in> set (map fst es) \<longleftrightarrow> (\<exists>b. (name, b) \<in> set es)" for name by force
  then have d: "set (map fst es) = dom q" unfolding l(2) dom_def by blast
  have "\<forall>(name, b) \<in> set es. \<exists>f. q name = Some f \<and> b = lk_regular f \<and> claim_at name f"
    using l(2) assms(1) by (auto simp: claims_only_def)
  from scan_entries_claims [OF assms(3) l(1) this, of now empty_scan] obtain sc where sc:
    "scanStoreLockClaims kill now es q = (Inr sc, \<lambda>name. if name \<in> dom q \<and> dead_claim kill name then None else q name)"
    "set (sc_choosing sc) = live_choosing kill (dom q)" "set (sc_tickets sc) = live_tickets kill (dom q)"
    unfolding d by (auto simp: scanStoreLockClaims_def empty_scan_def)
  moreover have "(\<lambda>name. if name \<in> dom q \<and> dead_claim kill name then None else q name) =
      (\<lambda>name. if dead_claim kill name then None else q name)"
    by (auto simp: dom_def)
  ultimately show ?thesis by auto
qed

text \<open>
  A scan of a queue that holds claim files and is left alone meanwhile: it finds exactly the
  choosing claims and the ticket claims of the processes that are alive, and removes exactly the
  claim files of those that are not.
\<close>

theorem scan_finds_live_claims:
  assumes "claims_only q" "listing_of q es" "\<forall>pid e. kill pid \<noteq> OtherError e"
  shows "\<exists>sc. scanStoreLockClaims kill now es q = (Inr sc, \<lambda>name. if dead_claim kill name then None else q name) \<and>
    set (sc_choosing sc) = live_choosing kill (dom q) \<and> set (sc_tickets sc) = live_tickets kill (dom q)"
  using assms by (rule scan_live_claims)

definition ex_proc :: attempt where
  "ex_proc = (7, replicate 32 CHR ''a'')"

definition ex_claim :: lock_file where
  "ex_claim = claim_file 0 (claim_json ex_proc ''2026-01-01T00:00:00.000Z'' ''ticket'' (JNum 3))"

lemma ex_proc_valid: "valid_attempt ex_proc"
  by (simp add: valid_attempt_def ex_proc_def MAX_SAFE_INTEGER_def hex_n_def list_all_iff is_lower_hex_def)

lemma ex_utc: "canonicalUtc (JStr ''2026-01-01T00:00:00.000Z'') ''store_lock_claim.created_at_utc'' = Inr ''2026-01-01T00:00:00.000Z''"
  by code_simp

theorem scan_finds_live_claims_witness:
  "\<exists>sc. scanStoreLockClaims (\<lambda>_. ESRCH) 0 [(ticket_name 3 ex_proc, True)] [ticket_name 3 ex_proc \<mapsto> ex_claim] =
      (Inr sc, \<lambda>name. if dead_claim (\<lambda>_. ESRCH) name then None else [ticket_name 3 ex_proc \<mapsto> ex_claim] name)"
proof -
  have 3: "valid_ticket 3" by (simp add: MAX_SAFE_INTEGER_def)
  have "claim_at (ticket_name 3 ex_proc) ex_claim"
    unfolding claim_at_def ticket_file_def ex_claim_def using ex_proc_valid ex_utc 3 by blast
  then have "claims_only [ticket_name 3 ex_proc \<mapsto> ex_claim]" by (simp add: claims_only_def)
  moreover have "listing_of [ticket_name 3 ex_proc \<mapsto> ex_claim] [(ticket_name 3 ex_proc, True)]"
    by (auto simp: listing_of_def ex_claim_def claim_file_def)
  ultimately show ?thesis using scan_finds_live_claims [of _ _ "\<lambda>_. ESRCH" 0] by fastforce
qed

end
