(* ===== verification/Saga_Lock_Safety.thy ===== *)
theory Saga_Lock_Safety
  imports Saga_Lock_Scan
begin

text \<open>
  The lock protocol, when no polling scan passes over a choosing file that vanished: an inductive
  invariant of the interleaved attempts, and mutual exclusion.
\<close>

declare split_paired_All [simp del] split_paired_Ex [simp del]

section \<open>One entry of a scan\<close>

text \<open>All that is not a temporary file is a claim.\<close>

definition claim_files :: "queue \<Rightarrow> bool" where
  "claim_files q \<longleftrightarrow> (\<forall>name f. q name = Some f \<longrightarrow> \<not> includes_text name ''.tmp-'' \<longrightarrow> claim_at name f)"

lemma choosing_claim_at:
  assumes "claim_at (choosing_name p) f" "valid_attempt p"
  shows "choosing_file p f"
proof -
  from assms(1) obtain r where "valid_attempt r" "choosing_name p = choosing_name r" "choosing_file r f"
    unfolding claim_at_def using choosing_ne_ticket by blast
  then show ?thesis using choosing_name_inj [OF assms(2)] by blast
qed

lemma ticket_claim_at:
  assumes "claim_at (ticket_name n p) f" "valid_attempt p" "valid_ticket n"
  shows "ticket_file n p f"
proof -
  from assms(1) obtain m r where "valid_attempt r" "valid_ticket m" "ticket_name n p = ticket_name m r" "ticket_file m r f"
    unfolding claim_at_def using choosing_ne_ticket [symmetric] by blast
  then show ?thesis using ticket_name_inj [OF assms(2) _ assms(3)] by blast
qed

lemma claim_at_regular: "claim_at name f \<Longrightarrow> lk_regular f"
  by (auto simp: claim_at_def choosing_file_def ticket_file_def claim_file_def)

lemma claim_at_plain: "claim_at name f \<Longrightarrow> \<not> includes_text name ''.tmp-''"
  using claim_name_plain unfolding claim_at_def by blast

lemma scan_entry_regular:
  "scan_entry kill now (name, b) acc q = (Inr acc', q') \<Longrightarrow> \<not> includes_text name ''.tmp-'' \<Longrightarrow> b"
  by (auto simp: scan_entry_def Let_def split: if_splits)

text \<open>A claim that is read is collected, unless its process is dead.\<close>

lemma scan_collects:
  assumes "scan_entry kill now e acc q = (Inr acc', q')" "q (fst e) = Some f" "claim_at (fst e) f" "valid_attempt p"
    and "kill (fst p) \<noteq> ESRCH"
  shows "fst e = choosing_name p \<Longrightarrow> sc_choosing acc' \<noteq> []"
    "fst e = ticket_name n p \<Longrightarrow> valid_ticket n \<Longrightarrow> ticket_item n p \<in> set (sc_tickets acc')"
proof -
  obtain name b where e [simp]: "e = (name, b)" by (cases e)
  note assms = assms [unfolded e fst_conv]
  have b: "b = lk_regular f" using scan_entry_regular [OF assms(1) claim_at_plain [OF assms(3)]] claim_at_regular [OF assms(3)] by simp
  {
    assume "fst e = choosing_name p"
    then have n: "name = choosing_name p" by simp
    then have "choosing_file p f" using choosing_claim_at assms(3,4) by blast
    from scan_choosing [OF assms(4) _ this, of q kill now acc] assms(1,2,5) show "sc_choosing acc' \<noteq> []"
      by (auto simp: n b split: kill_result.splits)
  }
  {
    assume "fst e = ticket_name n p" "valid_ticket n"
    then have n: "name = ticket_name n p" "valid_ticket n" by simp_all
    then have "ticket_file n p f" using ticket_claim_at assms(3,4) by blast
    from scan_ticket [OF assms(4) n(2) _ this, of q kill now acc] assms(1,2,5) show "ticket_item n p \<in> set (sc_tickets acc')"
      by (auto simp: n(1) b split: kill_result.splits)
  }
qed

text \<open>What an entry leaves of the files and of what was collected.\<close>

lemma scan_entry_grows:
  assumes "scan_entry kill now e acc q = (Inr acc', q')"
  shows "set (sc_choosing acc) \<subseteq> set (sc_choosing acc')" "set (sc_tickets acc) \<subseteq> set (sc_tickets acc')"
  using assms
  by (auto simp: scan_entry_def Let_def split: if_splits option.splits sum.splits)

lemma scan_entry_files:
  assumes "scan_entry kill now e acc q = (r, q')" "claim_files q" "q' name \<noteq> q name"
  shows "q' name = None" "includes_text name ''.tmp-'' \<or> dead_claim kill name"
proof -
  have q': "q' = q \<or> q' = q(fst e := None)"
    using assms(1) by (auto simp: scan_entry_def Let_def removeUniqueStoreLockClaim_def split: if_splits option.splits sum.splits)
  with assms(3) have n: "name = fst e" "q' name = None" by (auto split: if_splits)
  then show "q' name = None" by simp
  obtain f where f: "q name = Some f" using assms(3) n(2) by (cases "q name") auto
  show "includes_text name ''.tmp-'' \<or> dead_claim kill name"
  proof (rule ccontr)
    assume neg: "\<not> (includes_text name ''.tmp-'' \<or> dead_claim kill name)"
    then have at: "claim_at name f" using assms(2) f by (simp add: claim_files_def)
    have "q' = q" if "\<not> snd e" using assms(1) neg n(1) that by (auto simp: scan_entry_def Let_def split: if_splits)
    with assms(3) claim_at_regular [OF at] have e: "e = (name, lk_regular f)" by (cases e) (auto simp: n(1))
    from at consider p where "valid_attempt p" "name = choosing_name p" "choosing_file p f"
      | m p where "valid_attempt p" "valid_ticket m" "name = ticket_name m p" "ticket_file m p f"
      unfolding claim_at_def by blast
    then have "q' = q"
    proof cases
      case (1 p)
      with scan_choosing [OF 1(1) _ 1(3), of q kill now acc] f assms(1) neg show ?thesis
        by (auto simp: e claim_sets split: kill_result.splits)
    next
      case (2 m p)
      with scan_ticket [OF 2(1,2) _ 2(4), of q kill now acc] f assms(1) neg show ?thesis
        by (auto simp: e claim_sets split: kill_result.splits)
    qed
    with assms(3) show False by simp
  qed
qed

text \<open>The rank of a collected ticket is the one its file's name says.\<close>

definition named :: "lock_scan \<Rightarrow> bool" where
  "named acc \<longleftrightarrow> (\<forall>c \<in> set (sc_tickets acc). \<exists>t pid nonce. LOCK_TICKET_FILE (lc_name c) = Some (t, pid, nonce) \<and>
     ticket_key c = (dec_val t, dec_val pid, nonce))"

lemma bind_claim_named:
  assumes "bind_claim name claim = Inr c" "LOCK_CHOOSING_FILE name = None" "LOCK_TICKET_FILE name = Some (t, pid, nonce)"
  shows "lc_name c = name" "ticket_key c = (dec_val t, dec_val pid, nonce)"
  using assms by (auto simp: bind_claim_def Let_def ticket_key_def js_simps)

lemma scan_entry_named:
  assumes "scan_entry kill now e acc q = (Inr acc', q')" "named acc"
  shows "named acc'"
proof (cases "sc_tickets acc' = sc_tickets acc")
  case False
  then obtain claim c where c: "bind_claim (fst e) claim = Inr c" "LOCK_CHOOSING_FILE (fst e) = None"
    "LOCK_TICKET_FILE (fst e) \<noteq> None" "sc_tickets acc' = sc_tickets acc @ [c]"
    using assms(1) by (auto simp: scan_entry_def Let_def split: if_splits option.splits sum.splits)
  then obtain t pid nonce where "LOCK_TICKET_FILE (fst e) = Some (t, pid, nonce)" by auto
  from bind_claim_named [OF c(1,2) this] this c(4) assms(2) show ?thesis by (auto simp: named_def)
qed (use assms(2) in \<open>simp add: named_def\<close>)

section \<open>The invariant\<close>

text \<open>The number an attempt holds, and the numbers whose ticket files it may own.\<close>

fun number_of :: "lock_pc \<Rightarrow> int option" where
  "number_of (Numbered n) = Some n"
| "number_of (Ticketed n) = Some n"
| "number_of (Waiting n) = Some n"
| "number_of (Checking n es acc) = Some n"
| "number_of (Critical n) = Some n"
| "number_of c = None"

fun owned_number :: "lock_pc \<Rightarrow> int option" where
  "owned_number (Leaving t) = t"
| "owned_number (Closing t) = t"
| "owned_number c = number_of c"

fun ticket_of :: "lock_pc \<Rightarrow> int option" where
  "ticket_of (Numbered n) = None"
| "ticket_of c = number_of c"

fun is_choosing :: "lock_pc \<Rightarrow> bool" where
  "is_choosing Chosen = True"
| "is_choosing (Counting es acc) = True"
| "is_choosing (Numbered n) = True"
| "is_choosing (Ticketed n) = True"
| "is_choosing c = False"

text \<open>
  An attempt at \<open>c\<close> is behind ticket \<open>n\<close> of attempt \<open>p\<close>: it has no number and will see that ticket,
  or has seen one at least as great, or its number comes later.
\<close>

fun behind :: "int \<Rightarrow> attempt \<Rightarrow> attempt \<Rightarrow> lock_pc \<Rightarrow> bool" where
  "behind n p r (Counting es acc) \<longleftrightarrow>
     ticket_name n p \<in> fst ` set es \<or> (\<exists>c \<in> set (sc_tickets acc). n \<le> num_of (lc_ticket c))"
| "behind n p r c \<longleftrightarrow> (case number_of c of None \<Rightarrow> True | Some m \<Rightarrow> (n, p) < (m, r))"

text \<open>A scan in progress is bound to notice the attempt, or has.\<close>

definition noticed :: "(string \<times> bool) list \<Rightarrow> lock_scan \<Rightarrow> attempt \<Rightarrow> lock_pc \<Rightarrow> bool" where
  "noticed es acc r c \<longleftrightarrow>
     choosing_name r \<in> fst ` set es \<or> sc_choosing acc \<noteq> [] \<or>
     (\<exists>m. ticket_of c = Some m \<and> (ticket_name m r \<in> fst ` set es \<or> ticket_item m r \<in> set (sc_tickets acc)))"

definition own_files :: "queue \<Rightarrow> attempt \<Rightarrow> lock_pc \<Rightarrow> bool" where
  "own_files q p c \<longleftrightarrow>
     (is_choosing c \<longrightarrow> q (choosing_name p) \<noteq> None) \<and> (\<forall>n. ticket_of c = Some n \<longrightarrow> q (ticket_name n p) \<noteq> None) \<and>
     (\<forall>n. owned_number c = Some n \<longrightarrow> valid_ticket n)"

definition ahead :: "(attempt \<Rightarrow> lock_pc) \<Rightarrow> attempt \<Rightarrow> lock_pc \<Rightarrow> bool" where
  "ahead pcs p c \<longleftrightarrow>
     (case c of Critical n \<Rightarrow> \<forall>r. r \<noteq> p \<longrightarrow> behind n p r (pcs r)
      | Checking n es acc \<Rightarrow> named acc \<and> (\<forall>r. r \<noteq> p \<longrightarrow> behind n p r (pcs r) \<or> noticed es acc r (pcs r))
      | _ \<Rightarrow> True)"

definition lock_inv :: "lock_state \<Rightarrow> bool" where
  "lock_inv s \<longleftrightarrow> claim_files (ls_files s) \<and>
     (\<forall>p. ls_pc s p \<noteq> Start \<longrightarrow> valid_attempt p) \<and>
     (\<forall>p. ls_pc s p \<notin> {Start, Stopped} \<longrightarrow> ls_kill s (fst p) \<noteq> ESRCH) \<and>
     (\<forall>p. own_files (ls_files s) p (ls_pc s p)) \<and>
     (\<forall>p. ahead (ls_pc s) p (ls_pc s p))"

lemma lock_inv_initial: "lock_inv lock_initial"
  by (simp add: lock_inv_def lock_initial_def claim_files_def own_files_def ahead_def)

section \<open>Steps keep the invariant\<close>

lemma lock_inv_files: "lock_inv s \<Longrightarrow> claim_files (ls_files s)"
  by (simp add: lock_inv_def)

lemma lock_invD:
  assumes "lock_inv s"
  shows "ls_pc s p \<noteq> Start \<Longrightarrow> valid_attempt p"
    "ls_pc s p \<noteq> Start \<Longrightarrow> ls_pc s p \<noteq> Stopped \<Longrightarrow> ls_kill s (fst p) \<noteq> ESRCH"
    "own_files (ls_files s) p (ls_pc s p)" "ahead (ls_pc s) p (ls_pc s p)"
  using assms unfolding lock_inv_def by auto

lemma pc_kinds:
  "is_choosing c \<Longrightarrow> c \<noteq> Start \<and> c \<noteq> Stopped" "ticket_of c = Some n \<Longrightarrow> c \<noteq> Start \<and> c \<noteq> Stopped \<and> owned_number c = Some n"
  by (cases c; simp)+

text \<open>The files an attempt may change do not concern the files of other live attempts.\<close>

definition framed :: "lock_state \<Rightarrow> attempt \<Rightarrow> queue \<Rightarrow> bool" where
  "framed s p q \<longleftrightarrow> (\<forall>name. q name \<noteq> ls_files s name \<longrightarrow>
     includes_text name ''.tmp-'' \<or> name = choosing_name p \<or> (\<exists>n. valid_ticket n \<and> name = ticket_name n p) \<or>
     dead_claim (ls_kill s) name)"

lemma framed_other:
  assumes "framed s p q" "valid_attempt p" "valid_attempt r" "r \<noteq> p" "ls_kill s (fst r) \<noteq> ESRCH"
  shows "q (choosing_name r) = ls_files s (choosing_name r)"
    "valid_ticket n \<Longrightarrow> q (ticket_name n r) = ls_files s (ticket_name n r)"
proof -
  show "q (choosing_name r) = ls_files s (choosing_name r)"
  proof (rule ccontr)
    assume "q (choosing_name r) \<noteq> ls_files s (choosing_name r)"
    then consider "includes_text (choosing_name r) ''.tmp-''" | "choosing_name r = choosing_name p"
      | "dead_claim (ls_kill s) (choosing_name r)"
      using assms(1) choosing_ne_ticket unfolding framed_def by blast
    then show False
      using assms claim_name_plain(1) choosing_name_inj claim_sets(1) by cases blast+
  qed
  assume n: "valid_ticket n"
  show "q (ticket_name n r) = ls_files s (ticket_name n r)"
  proof (rule ccontr)
    assume "q (ticket_name n r) \<noteq> ls_files s (ticket_name n r)"
    then consider "includes_text (ticket_name n r) ''.tmp-''" | m where "valid_ticket m" "ticket_name n r = ticket_name m p"
      | "dead_claim (ls_kill s) (ticket_name n r)"
      using assms(1) choosing_ne_ticket [symmetric] unfolding framed_def by blast
    then show False
    proof cases
      case 1
      then show False using claim_name_plain(2) [OF assms(3) n] by blast
    next
      case (2 m)
      then show False using ticket_name_inj [OF assms(3,2) n] assms(4) by blast
    next
      case 3
      then show False using claim_sets(4) [OF assms(3) n] assms(5) by blast
    qed
  qed
qed

lemma own_files_framed:
  assumes "lock_inv s" "framed s p q" "valid_attempt p" "r \<noteq> p"
  shows "own_files q r (ls_pc s r)"
proof -
  note I = lock_invD [OF assms(1), of r]
  have "q (choosing_name r) = ls_files s (choosing_name r)" if "is_choosing (ls_pc s r)"
    using framed_other(1) [OF assms(2,3) I(1) assms(4) I(2)] pc_kinds(1) [OF that] by blast
  moreover have "q (ticket_name n r) = ls_files s (ticket_name n r)" if "ticket_of (ls_pc s r) = Some n" for n
    using framed_other(2) [OF assms(2,3) I(1) assms(4) I(2)] pc_kinds(2) [OF that] I(3) unfolding own_files_def by blast
  ultimately show ?thesis using I(3) unfolding own_files_def by metis
qed

lemma inv_move:
  assumes inv: "lock_inv s" and c: "c \<noteq> Start" "valid_attempt p" "c \<noteq> Stopped \<Longrightarrow> ls_kill s (fst p) \<noteq> ESRCH"
    and files: "claim_files q" "framed s p q" "own_files q p c"
    and later: "\<And>m r. r \<noteq> p \<Longrightarrow> valid_attempt r \<Longrightarrow> valid_ticket m \<Longrightarrow> ls_files s (ticket_name m r) \<noteq> None \<Longrightarrow>
      ls_kill s (fst r) \<noteq> ESRCH \<Longrightarrow> behind m r p (ls_pc s p) \<Longrightarrow> behind m r p c"
    and keep: "\<And>m. ticket_of (ls_pc s p) = Some m \<Longrightarrow> ticket_of c = Some m \<or> (\<forall>n r. behind n r p c)"
    and mine: "ahead (ls_pc s) p c"
  shows "lock_inv (set_pc p c (s \<lparr> ls_files := q \<rparr>))"
proof -
  let ?pc = "(ls_pc s)(p := c)"
  have others: "ahead ?pc r (ls_pc s r)" if r: "r \<noteq> p" for r
  proof -
    note I = lock_invD [OF inv, of r]
    have behind: "behind m r p c" if "ticket_of (ls_pc s r) = Some m" "behind m r p (ls_pc s p)" for m
    proof (rule later)
      note k = pc_kinds(2) [OF that(1)]
      show "r \<noteq> p" "behind m r p (ls_pc s p)" by fact+
      show "valid_attempt r" "ls_kill s (fst r) \<noteq> ESRCH" using I k by blast+
      show "valid_ticket m" "ls_files s (ticket_name m r) \<noteq> None" using I(3) k that(1) unfolding own_files_def by blast+
    qed
    show ?thesis
    proof (cases "ls_pc s r")
      case (Critical m)
      then show ?thesis using I(4) behind [of m] r by (auto simp: ahead_def)
    next
      case (Checking m es acc)
      have "behind m r p c \<or> noticed es acc p c" if "behind m r p (ls_pc s p) \<or> noticed es acc p (ls_pc s p)"
        using that
      proof
        assume "behind m r p (ls_pc s p)"
        with behind [of m] Checking show ?thesis by simp
      next
        assume "noticed es acc p (ls_pc s p)"
        with keep show ?thesis unfolding noticed_def by blast
      qed
      with I(4) Checking r show ?thesis by (auto simp: ahead_def)
    qed (simp_all add: ahead_def)
  qed
  have "ahead ?pc p c" using mine by (auto simp: ahead_def split: lock_pc.splits)
  with others own_files_framed [OF inv files(2) c(2)] lock_invD [OF inv] c files show ?thesis
    unfolding lock_inv_def set_pc_def by (auto simp: fun_upd_def)
qed

subsection \<open>Steps that leave the files alone\<close>

lemma set_pc_same: "set_pc p c s = set_pc p c (s \<lparr> ls_files := ls_files s \<rparr>)"
  by simp

lemma framed_refl: "framed s p (ls_files s)"
  by (simp add: framed_def)

lemma behind_numbered: "number_of c = Some m \<Longrightarrow> behind n p r c \<longleftrightarrow> (n, p) < (m, r)"
  by (cases c) auto

lemma behind_free: "number_of c = None \<Longrightarrow> \<not> is_choosing c \<Longrightarrow> behind n p r c"
  by (cases c) auto

lemma fold_max_ge:
  fixes f :: "'a \<Rightarrow> int"
  shows "m \<le> fold (\<lambda>x y. max y (f x)) xs m \<and> (x \<in> set xs \<longrightarrow> f x \<le> fold (\<lambda>x y. max y (f x)) xs m)"
proof (induction xs arbitrary: m)
  case (Cons y ys)
  from Cons.IH [of "max m (f y)"] show ?case by auto
qed simp

lemma next_ticket_greater:
  assumes "next_ticket acc = Inr n"
  shows "valid_ticket n" "c \<in> set (sc_tickets acc) \<Longrightarrow> num_of (lc_ticket c) < n"
proof -
  have n: "n = fold (\<lambda>c m. max m (num_of (lc_ticket c))) (sc_tickets acc) 0 + 1" "valid_ticket n"
    using assms by (auto simp: next_ticket_def safeInteger_def Let_def split: if_splits)
  then show "valid_ticket n" by simp
  assume "c \<in> set (sc_tickets acc)"
  with fold_max_ge [of 0 "\<lambda>c. num_of (lc_ticket c)" "sc_tickets acc" c] n(1) show "num_of (lc_ticket c) < n" by simp
qed

lemma listing_name:
  assumes "listing_of q es" "q name \<noteq> None"
  shows "name \<in> fst ` set es"
proof -
  obtain f where "q name = Some f" using assms(2) by blast
  then have "(name, lk_regular f) \<in> set es" using assms(1) unfolding listing_of_def by blast
  then show ?thesis by force
qed

lemma inv_pc:
  assumes inv: "lock_inv s" and c: "ls_pc s p \<notin> {Start, Stopped}" "c \<notin> {Start, Stopped}"
    and own: "own_files (ls_files s) p c"
    and later: "\<And>m r. valid_ticket m \<Longrightarrow> ls_files s (ticket_name m r) \<noteq> None \<Longrightarrow> behind m r p (ls_pc s p) \<Longrightarrow> behind m r p c"
    and keep: "\<And>m. ticket_of (ls_pc s p) = Some m \<Longrightarrow> ticket_of c = Some m \<or> (\<forall>n r. behind n r p c)"
    and mine: "ahead (ls_pc s) p c"
  shows "lock_inv (set_pc p c s)"
proof (subst set_pc_same, rule inv_move [OF inv _ _ _ lock_inv_files [OF inv] framed_refl own])
  show "c \<noteq> Start" "valid_attempt p" "ls_kill s (fst p) \<noteq> ESRCH" using lock_invD(1,2) [OF inv, of p] c by auto
qed (use later keep mine in blast)+

text \<open>A step to a place without number or choosing file.\<close>

lemma inv_leave:
  assumes "lock_inv s" "ls_pc s p \<notin> {Start, Stopped}" "c = Leaving t \<or> c = Closing t"
    "\<And>n. t = Some n \<Longrightarrow> valid_ticket n"
  shows "lock_inv (set_pc p c s)"
  using assms(3,4) by (intro inv_pc [OF assms(1,2)]) (auto simp: own_files_def ahead_def)

lemma owned_valid: "lock_inv s \<Longrightarrow> owned_number (ls_pc s p) = Some n \<Longrightarrow> valid_ticket n"
  using lock_invD(3) unfolding own_files_def by blast

lemma inv_list_first:
  assumes "lock_inv s" "ls_pc s p = Chosen" "listing_of (ls_files s) es"
  shows "lock_inv (set_pc p (Counting es empty_scan) s)"
  using lock_invD(3) [OF assms(1), of p] assms(2) listing_name [OF assms(3)]
  by (intro inv_pc [OF assms(1)]) (auto simp: own_files_def ahead_def)

lemma inv_take_number:
  assumes "lock_inv s" "ls_pc s p = Counting [] acc" "next_ticket acc = Inr n"
  shows "lock_inv (set_pc p (Numbered n) s)"
proof (rule inv_pc [OF assms(1)])
  show "own_files (ls_files s) p (Numbered n)"
    using lock_invD(3) [OF assms(1), of p] assms(2) next_ticket_greater(1) [OF assms(3)] by (simp add: own_files_def)
  fix m r assume "behind m r p (ls_pc s p)"
  then have "m < n" using next_ticket_greater(2) [OF assms(3)] by (force simp: assms(2))
  then show "behind m r p (Numbered n)" by (simp add: behind_numbered)
qed (simp_all add: assms(2) ahead_def)

lemma inv_poll_again:
  assumes "lock_inv s" "ls_pc s p = Checking n es acc"
  shows "lock_inv (set_pc p (Waiting n) s)"
  using lock_invD(3) [OF assms(1), of p] assms(2)
  by (intro inv_pc [OF assms(1)]) (auto simp: own_files_def ahead_def)

lemma inv_list_again:
  assumes "lock_inv s" "ls_pc s p = Waiting n" "listing_of (ls_files s) es"
  shows "lock_inv (set_pc p (Checking n es empty_scan) s)"
proof (rule inv_pc [OF assms(1)])
  show "own_files (ls_files s) p (Checking n es empty_scan)"
    using lock_invD(3) [OF assms(1), of p] assms(2) by (simp add: own_files_def)
  have "behind n p r (ls_pc s r) \<or> noticed es empty_scan r (ls_pc s r)" for r
  proof (cases "is_choosing (ls_pc s r)")
    case True
    with lock_invD(3) [OF assms(1), of r] listing_name [OF assms(3)] show ?thesis
      by (simp add: own_files_def noticed_def)
  next
    case False
    show ?thesis
    proof (cases "number_of (ls_pc s r)")
      case (Some m)
      with False have "ticket_of (ls_pc s r) = Some m" by (cases "ls_pc s r") auto
      with lock_invD(3) [OF assms(1), of r] listing_name [OF assms(3)] show ?thesis
        by (simp add: own_files_def noticed_def)
    qed (use False behind_free in blast)
  qed
  then show "ahead (ls_pc s) p (Checking n es empty_scan)" by (simp add: ahead_def named_def empty_scan_def)
qed (simp_all add: assms(2))

text \<open>An attempt enters when everyone else is behind it.\<close>

lemma sorted_hd_le: "c \<in> set cs \<Longrightarrow> key (hd (sort_key key cs)) \<le> key (c :: 'a) " for key :: "'a \<Rightarrow> 'b :: linorder"
proof -
  assume c: "c \<in> set cs"
  then obtain d ds where d: "sort_key key cs = d # ds" by (cases "sort_key key cs") (auto dest: arg_cong [of _ _ set])
  have "c \<in> set (d # ds)" using c d by (metis set_sort)
  moreover have "sorted (map key (d # ds))" using sorted_sort_key [of key cs] d by simp
  ultimately show ?thesis using d by auto
qed

lemma inv_enter:
  assumes "lock_inv s" "ls_pc s p = Checking n [] acc" "wait_decision (ticket_name n p) acc = Inr True"
  shows "lock_inv (set_pc p (Critical n) s)"
proof (rule inv_pc [OF assms(1)])
  show "own_files (ls_files s) p (Critical n)"
    using lock_invD(3) [OF assms(1), of p] assms(2) by (simp add: own_files_def)
  have none: "sc_choosing acc = []" and "lc_name (hd (sort_key ticket_key (sc_tickets acc))) = ticket_name n p"
    using assms(3) by (auto simp: wait_decision_def split: if_splits)
  moreover have "hd (sort_key ticket_key (sc_tickets acc)) \<in> set (sc_tickets acc)"
  proof -
    have "sc_tickets acc \<noteq> []" using assms(3) by (auto simp: wait_decision_def)
    then have "sort_key ticket_key (sc_tickets acc) \<noteq> []" by (metis length_0_conv length_sort)
    from hd_in_set [OF this] show ?thesis by simp
  qed
  moreover have "named acc" using lock_invD(4) [OF assms(1), of p] by (simp add: ahead_def assms(2))
  moreover have "valid_attempt p" "valid_ticket n"
    using lock_invD(1) [OF assms(1), of p] owned_valid [OF assms(1), of p] by (simp_all add: assms(2))
  ultimately have first: "ticket_key (hd (sort_key ticket_key (sc_tickets acc))) = (n, p)"
    using ticket_name_parse(1) [of p n] padStart_16(3) [of n] by (fastforce simp: named_def valid_attempt_def prod_eq_iff)
  have "behind n p r (ls_pc s r)" if r: "r \<noteq> p" for r
  proof -
    consider "behind n p r (ls_pc s r)" | m where "ticket_of (ls_pc s r) = Some m" "ticket_item m r \<in> set (sc_tickets acc)"
      using lock_invD(4) [OF assms(1), of p] r none by (auto simp: ahead_def assms(2) noticed_def)
    then show ?thesis
    proof cases
      case (2 m)
      from sorted_hd_le [OF 2(2), of ticket_key] have "(n, p) \<le> (m, r)"
        by (simp add: first) (simp add: ticket_key_def ticket_item_def)
      with r have "(n, p) < (m, r)" by (auto simp: less_le)
      moreover have "number_of (ls_pc s r) = Some m" using 2(1) by (cases "ls_pc s r") auto
      ultimately show ?thesis by (simp add: behind_numbered)
    qed
  qed
  then show "ahead (ls_pc s) p (Critical n)" by (simp add: ahead_def)
qed (simp_all add: assms(2))

subsection \<open>Steps that change files\<close>

text \<open>An entry of a scan of a live attempt.\<close>

lemma scan_step:
  assumes "lock_inv s" "ls_pc s p \<notin> {Start, Stopped}" "scan_entry (ls_kill s) (ls_now s) e acc (ls_files s) = (r, q)"
  shows "claim_files q" "framed s p q" "own_files (ls_files s) p c \<Longrightarrow> own_files q p c"
proof -
  note sf = scan_entry_files [OF assms(3) lock_inv_files [OF assms(1)]]
  show "claim_files q"
    using lock_inv_files [OF assms(1)] sf(1) unfolding claim_files_def by (metis option.distinct(1))
  show "framed s p q" using sf(2) unfolding framed_def by blast
  have p: "valid_attempt p" "ls_kill s (fst p) \<noteq> ESRCH" using lock_invD(1,2) [OF assms(1), of p] assms(2) by auto
  have "q (choosing_name p) = ls_files s (choosing_name p)"
    using sf(2) claim_name_plain(1) [OF p(1)] claim_sets(1) [OF p(1)] p(2) by blast
  moreover have "q (ticket_name n p) = ls_files s (ticket_name n p)" if "valid_ticket n" for n
    using sf(2) claim_name_plain(2) [OF p(1) that] claim_sets(4) [OF p(1) that] p(2) by blast
  ultimately show "own_files (ls_files s) p c \<Longrightarrow> own_files q p c"
    unfolding own_files_def using pc_kinds(2) by metis
qed

lemma inv_scan:
  assumes inv: "lock_inv s" and c: "ls_pc s p \<notin> {Start, Stopped}" "c \<notin> {Start, Stopped}"
    and scan: "scan_entry (ls_kill s) (ls_now s) e acc (ls_files s) = (r, q)"
    and own: "own_files (ls_files s) p c"
    and later: "\<And>m r. valid_attempt r \<Longrightarrow> valid_ticket m \<Longrightarrow> ls_files s (ticket_name m r) \<noteq> None \<Longrightarrow>
      ls_kill s (fst r) \<noteq> ESRCH \<Longrightarrow> behind m r p (ls_pc s p) \<Longrightarrow> behind m r p c"
    and keep: "\<And>m. ticket_of (ls_pc s p) = Some m \<Longrightarrow> ticket_of c = Some m \<or> (\<forall>n r. behind n r p c)"
    and mine: "ahead (ls_pc s) p c"
  shows "lock_inv (set_pc p c (s \<lparr> ls_files := q \<rparr>))"
proof (rule inv_move [OF inv _ _ _ scan_step(1,2) [OF inv c(1) scan] scan_step(3) [OF inv c(1) scan own]])
  show "c \<noteq> Start" "valid_attempt p" "ls_kill s (fst p) \<noteq> ESRCH" using lock_invD(1,2) [OF inv, of p] c by auto
qed (use later keep mine in blast)+

lemma inv_count_entry:
  assumes "lock_inv s" "ls_pc s p = Counting (e # es) acc"
    and "scan_entry (ls_kill s) (ls_now s) e acc (ls_files s) = (Inr acc', q)"
  shows "lock_inv (set_pc p (Counting es acc') (s \<lparr> ls_files := q \<rparr>))"
proof (rule inv_scan [OF assms(1) _ _ assms(3)])
  show "own_files (ls_files s) p (Counting es acc')"
    using lock_invD(3) [OF assms(1), of p] assms(2) by (simp add: own_files_def)
  fix m r assume r: "valid_attempt r" "valid_ticket m" "ls_files s (ticket_name m r) \<noteq> None" "ls_kill s (fst r) \<noteq> ESRCH"
    and b: "behind m r p (ls_pc s p)"
  obtain f where f: "ls_files s (ticket_name m r) = Some f" using r(3) by blast
  have at: "claim_at (ticket_name m r) f"
    using lock_inv_files [OF assms(1)] f claim_name_plain(2) [OF r(1,2)] unfolding claim_files_def by blast
  show "behind m r p (Counting es acc')"
  proof (cases "fst e = ticket_name m r")
    case True
    have "ticket_item m r \<in> set (sc_tickets acc')"
      using scan_collects(2) [OF assms(3) _ _ r(1,4) True r(2)] f at by (simp add: True)
    then show ?thesis by (force simp: ticket_item_def)
  next
    case False
    then show ?thesis using b scan_entry_grows(2) [OF assms(3)] by (auto simp: assms(2))
  qed
qed (simp_all add: assms(2) ahead_def)

lemma inv_scan_fails:
  assumes "lock_inv s" "ls_pc s p \<notin> {Start, Stopped}" "\<And>n. t = Some n \<Longrightarrow> valid_ticket n"
    and "scan_entry (ls_kill s) (ls_now s) e acc (ls_files s) = (r, q)"
  shows "lock_inv (set_pc p (Leaving t) (s \<lparr> ls_files := q \<rparr>))"
  using assms(3) by (intro inv_scan [OF assms(1,2) _ assms(4)]) (auto simp: own_files_def ahead_def)

lemma inv_check_entry:
  assumes "lock_inv s" "ls_pc s p = Checking n (e # es) acc" "\<not> missed_choosing (ls_files s) e"
    and "scan_entry (ls_kill s) (ls_now s) e acc (ls_files s) = (Inr acc', q)"
  shows "lock_inv (set_pc p (Checking n es acc') (s \<lparr> ls_files := q \<rparr>))"
proof (rule inv_scan [OF assms(1) _ _ assms(4)])
  show "own_files (ls_files s) p (Checking n es acc')"
    using lock_invD(3) [OF assms(1), of p] assms(2) by (simp add: own_files_def)
  note before = lock_invD(4) [OF assms(1), of p, unfolded assms(2) ahead_def, simplified]
  have grows: "sc_choosing acc \<noteq> [] \<Longrightarrow> sc_choosing acc' \<noteq> []" using scan_entry_grows(1) [OF assms(4)] by auto
  have "behind n p r (ls_pc s r) \<or> noticed es acc' r (ls_pc s r)" if r: "r \<noteq> p" for r
  proof (cases "ls_pc s r \<in> {Start, Stopped}")
    case True
    then show ?thesis by auto
  next
    case False
    then have live: "valid_attempt r" "ls_kill s (fst r) \<noteq> ESRCH" using lock_invD(1,2) [OF assms(1), of r] by auto
    have at: "claim_at name f" if "ls_files s name = Some f" "\<not> includes_text name ''.tmp-''" for name f
      using lock_inv_files [OF assms(1)] that unfolding claim_files_def by blast
    have c: "sc_choosing acc' \<noteq> []" if n: "fst e = choosing_name r"
    proof -
      obtain f where f: "ls_files s (choosing_name r) = Some f"
        using assms(3) choosing_name_parse [OF live(1)] by (auto simp: missed_choosing_def n)
      show ?thesis
        using scan_collects(1) [OF assms(4) _ _ live n] f at [OF f claim_name_plain(1) [OF live(1)]] by (simp add: n)
    qed
    have t: "ticket_item m r \<in> set (sc_tickets acc')" if n: "fst e = ticket_name m r" "ticket_of (ls_pc s r) = Some m" for m
    proof -
      have m: "valid_ticket m" using owned_valid [OF assms(1)] pc_kinds(2) [OF n(2)] by blast
      obtain f where f: "ls_files s (ticket_name m r) = Some f" using lock_invD(3) [OF assms(1), of r] n(2) by (auto simp: own_files_def)
      show ?thesis
        using scan_collects(2) [OF assms(4) _ _ live n(1) m] f at [OF f claim_name_plain(2) [OF live(1) m]] by (simp add: n(1))
    qed
    from before r have "behind n p r (ls_pc s r) \<or> noticed (e # es) acc r (ls_pc s r)" by blast
    then show ?thesis
    proof
      assume "noticed (e # es) acc r (ls_pc s r)"
      then have "noticed es acc' r (ls_pc s r)"
        using c t grows scan_entry_grows(2) [OF assms(4)] unfolding noticed_def by auto
      then show ?thesis ..
    qed simp
  qed
  then show "ahead (ls_pc s) p (Checking n es acc')"
    using scan_entry_named [OF assms(4)] before by (simp add: ahead_def)
qed (simp_all add: assms(2))

text \<open>Writing and removing the attempt's own files.\<close>

lemma claim_files_upd:
  "claim_files q \<Longrightarrow> claim_at name f \<Longrightarrow> claim_files (q(name \<mapsto> f))" "claim_files q \<Longrightarrow> claim_files (q(name := None))"
  by (auto simp: claim_files_def)

lemma framed_upd:
  "framed s p ((ls_files s)(choosing_name p := x))" "valid_ticket n \<Longrightarrow> framed s p ((ls_files s)(ticket_name n p := x))"
  by (auto simp: framed_def)

lemma inv_write_choosing:
  assumes "lock_inv s" "ls_pc s p = Start" "valid_attempt p" "ls_kill s (fst p) \<noteq> ESRCH"
    and "canonicalUtc (JStr u) ''store_lock_claim.created_at_utc'' = Inr u"
  shows "lock_inv (set_pc p Chosen (write_claim (choosing_name p) (claim_json p u ''choosing'' JNull) s))"
  unfolding write_claim_def
proof (rule inv_move [OF assms(1)])
  show "claim_files ((ls_files s)(choosing_name p \<mapsto> claim_file (ls_now s) (claim_json p u ''choosing'' JNull)))"
    using assms(3,5) by (intro claim_files_upd(1) lock_inv_files [OF assms(1)]) (unfold claim_at_def choosing_file_def, blast)
qed (use assms framed_upd in \<open>auto simp: own_files_def ahead_def\<close>)

lemma inv_write_ticket:
  assumes "lock_inv s" "ls_pc s p = Numbered n" "canonicalUtc (JStr u) ''store_lock_claim.created_at_utc'' = Inr u"
  shows "lock_inv (set_pc p (Ticketed n) (write_claim (ticket_name n p) (claim_json p u ''ticket'' (JNum n)) s))"
  unfolding write_claim_def
proof (rule inv_move [OF assms(1)])
  have p: "valid_attempt p" "valid_ticket n" using lock_invD(1) [OF assms(1), of p] owned_valid [OF assms(1), of p] assms(2) by simp_all
  then show "claim_files ((ls_files s)(ticket_name n p \<mapsto> claim_file (ls_now s) (claim_json p u ''ticket'' (JNum n))))"
    using assms(3) by (intro claim_files_upd(1) lock_inv_files [OF assms(1)]) (unfold claim_at_def ticket_file_def, blast)
  show "own_files ((ls_files s)(ticket_name n p \<mapsto> claim_file (ls_now s) (claim_json p u ''ticket'' (JNum n)))) p (Ticketed n)"
    using lock_invD(3) [OF assms(1), of p] assms(2) p by (simp add: own_files_def)
  show "framed s p ((ls_files s)(ticket_name n p \<mapsto> claim_file (ls_now s) (claim_json p u ''ticket'' (JNum n))))"
    using p by (intro framed_upd)
qed (use assms lock_invD(1,2) [OF assms(1), of p] in \<open>auto simp: ahead_def\<close>)

lemma inv_drop_choosing:
  assumes "lock_inv s" "ls_pc s p = Ticketed n"
  shows "lock_inv (set_pc p (Waiting n) (remove_claim (choosing_name p) s))"
  unfolding remove_claim_def removeUniqueStoreLockClaim_def
proof (rule inv_move [OF assms(1) _ _ _ claim_files_upd(2) [OF lock_inv_files [OF assms(1)]] framed_upd(1)])
  show "own_files ((ls_files s)(choosing_name p := None)) p (Waiting n)"
    using lock_invD(3) [OF assms(1), of p] assms(2) choosing_ne_ticket [of p n p] by (auto simp: own_files_def)
qed (use assms lock_invD(1,2) [OF assms(1), of p] in \<open>auto simp: ahead_def\<close>)

lemma inv_remove_choosing:
  assumes "lock_inv s" "ls_pc s p = Leaving t"
  shows "lock_inv (set_pc p (Closing t) (remove_claim (choosing_name p) s))"
  unfolding remove_claim_def removeUniqueStoreLockClaim_def
  by (rule inv_move [OF assms(1) _ _ _ claim_files_upd(2) [OF lock_inv_files [OF assms(1)]] framed_upd(1)])
    (use assms lock_invD(1-3) [OF assms(1), of p] in \<open>auto simp: ahead_def own_files_def\<close>)

lemma inv_remove_ticket:
  assumes "lock_inv s" "ls_pc s p = Closing t"
  shows "lock_inv (set_pc p Stopped (case t of None \<Rightarrow> s | Some n \<Rightarrow> remove_claim (ticket_name n p) s))"
proof (cases t)
  case None
  then show ?thesis
    by (simp only: option.case, subst set_pc_same,
        intro inv_move [OF assms(1) _ _ _ lock_inv_files [OF assms(1)] framed_refl])
      (use assms lock_invD(1-3) [OF assms(1), of p] in \<open>auto simp: ahead_def own_files_def\<close>)
next
  case (Some n)
  then have n: "valid_ticket n" using owned_valid [OF assms(1), of p] assms(2) by simp
  show ?thesis
    unfolding Some option.case remove_claim_def removeUniqueStoreLockClaim_def
    by (rule inv_move [OF assms(1) _ _ _ claim_files_upd(2) [OF lock_inv_files [OF assms(1)]] framed_upd(2) [OF n]])
      (use assms lock_invD(1-3) [OF assms(1), of p] in \<open>auto simp: ahead_def own_files_def\<close>)
qed

lemma inv_stop:
  assumes "lock_inv s" "ls_pc s p = Chosen"
  shows "lock_inv (set_pc p Stopped s)"
  by (subst set_pc_same,
      intro inv_move [OF assms(1) _ _ _ lock_inv_files [OF assms(1)] framed_refl])
    (use assms lock_invD(1-3) [OF assms(1), of p] in \<open>auto simp: ahead_def own_files_def\<close>)

subsection \<open>Steps of the environment\<close>

lemma inv_temp_files:
  assumes "lock_inv s" "\<forall>name. \<not> includes_text name ''.tmp-'' \<longrightarrow> q name = ls_files s name"
  shows "lock_inv (s \<lparr> ls_files := q \<rparr>)"
proof -
  have "own_files q p (ls_pc s p)" for p
  proof -
    have "q (choosing_name p) = ls_files s (choosing_name p)" if "is_choosing (ls_pc s p)"
      using assms(2) claim_name_plain(1) lock_invD(1) [OF assms(1)] pc_kinds(1) [OF that] by blast
    moreover have "q (ticket_name n p) = ls_files s (ticket_name n p)" if "ticket_of (ls_pc s p) = Some n" for n
      using assms(2) claim_name_plain(2) lock_invD(1) [OF assms(1)] pc_kinds(2) [OF that] owned_valid [OF assms(1)] by blast
    ultimately show ?thesis using lock_invD(3) [OF assms(1), of p] unfolding own_files_def by metis
  qed
  moreover have "claim_files q" using assms(2) lock_inv_files [OF assms(1)] unfolding claim_files_def by metis
  ultimately show ?thesis using assms(1) by (simp add: lock_inv_def)
qed

lemma inv_crash:
  assumes "lock_inv s"
  shows "lock_inv (s \<lparr> ls_kill := (ls_kill s)(pid := ESRCH),
    ls_pc := (\<lambda>p. if fst p = pid \<and> ls_pc s p \<noteq> Start then Stopped else ls_pc s p) \<rparr>)"
proof -
  let ?pc = "\<lambda>p. if fst p = pid \<and> ls_pc s p \<noteq> Start then Stopped else ls_pc s p"
  have b: "behind n p r (ls_pc s r) \<Longrightarrow> behind n p r (?pc r)" for n p r by simp
  have m: "behind n p r (ls_pc s r) \<or> noticed es acc r (ls_pc s r) \<Longrightarrow> behind n p r (?pc r) \<or> noticed es acc r (?pc r)"
    for n p r es acc by auto
  have "ahead ?pc p (?pc p)" for p
    using lock_invD(4) [OF assms, of p] b m
    by (cases "fst p = pid \<and> ls_pc s p \<noteq> Start") (simp add: ahead_def, auto simp: ahead_def split: lock_pc.splits)
  moreover have "own_files (ls_files s) p (?pc p)" for p using lock_invD(3) [OF assms, of p] by (simp add: own_files_def)
  ultimately show ?thesis using assms unfolding lock_inv_def by auto
qed

lemma inv_abandon:
  assumes "lock_inv s" "number_of (ls_pc s p) = Some n"
  shows "lock_inv (set_pc p (Leaving (Some n)) s)"
    "scan_entry (ls_kill s) (ls_now s) e acc (ls_files s) = (r, q) \<Longrightarrow> lock_inv (set_pc p (Leaving (Some n)) (s \<lparr> ls_files := q \<rparr>))"
proof -
  have "owned_number (ls_pc s p) = Some n" "ls_pc s p \<notin> {Start, Stopped}" using assms(2) by (cases "ls_pc s p"; simp)+
  with owned_valid [OF assms(1), of p n] show "lock_inv (set_pc p (Leaving (Some n)) s)"
    "scan_entry (ls_kill s) (ls_now s) e acc (ls_files s) = (r, q) \<Longrightarrow> lock_inv (set_pc p (Leaving (Some n)) (s \<lparr> ls_files := q \<rparr>))"
    by (auto intro!: inv_leave [OF assms(1)] inv_scan_fails [OF assms(1)])
qed

lemma inv_step: "lock_step False s s' \<Longrightarrow> lock_inv s \<Longrightarrow> lock_inv s'"
proof (induction rule: lock_step.induct)
  case (check_entry s p n e es acc acc' q)
  then show ?case using inv_check_entry by blast
next
  case (processes s kill)
  then show ?case unfolding lock_inv_def by auto
next
  case (clock s t)
  then show ?case by (simp add: lock_inv_def)
next
  case (temp_files q s)
  then show ?case using inv_temp_files by blast
qed (auto intro: inv_write_choosing inv_list_first inv_count_entry inv_take_number inv_write_ticket inv_drop_choosing
    inv_list_again inv_enter inv_poll_again inv_remove_choosing inv_remove_ticket inv_crash
    inv_leave inv_scan_fails inv_abandon inv_stop)

lemma inv_reachable: "lock_reachable False s \<Longrightarrow> lock_inv s"
  by (induction rule: rtranclp_induct) (auto intro: lock_inv_initial inv_step)

section \<open>A run of one attempt\<close>

text \<open>A state in which only the attempt \<open>p\<close> has started.\<close>

definition solo :: "attempt \<Rightarrow> queue \<Rightarrow> lock_pc \<Rightarrow> lock_state" where
  "solo p q c = \<lparr> ls_files = q, ls_pc = (\<lambda>_. Start)(p := c), ls_now = 0, ls_kill = (\<lambda>_. Signalled) \<rparr>"

lemma solo_simps [simp]:
  "ls_files (solo p q c) = q" "ls_pc (solo p q c) p = c" "ls_now (solo p q c) = 0" "ls_kill (solo p q c) = (\<lambda>_. Signalled)"
  "set_pc p c' (solo p q c) = solo p q c'" "(solo p q c) \<lparr> ls_files := q' \<rparr> = solo p q' c"
  "write_claim name v (solo p q c) = solo p (q(name \<mapsto> claim_file 0 v)) c"
  "remove_claim name (solo p q c) = solo p (q(name := None)) c"
  by (simp_all add: solo_def set_pc_def write_claim_def remove_claim_def removeUniqueStoreLockClaim_def)

lemma listing_single: "lk_regular f \<Longrightarrow> listing_of [name \<mapsto> f] [(name, True)]"
  by (auto simp: listing_of_def)

lemma claim_file_regular [simp]: "lk_regular (claim_file t v)"
  by (simp add: claim_file_def)

lemma solo_enters:
  assumes p: "valid_attempt p"
  shows "lock_reachable miss (solo p [ticket_name 1 p \<mapsto> claim_file 0 (claim_json p ''2026-01-01T00:00:00.000Z'' ''ticket'' (JNum 1))] (Critical 1))"
proof -
  let ?u = "''2026-01-01T00:00:00.000Z''"
  let ?c = "choosing_name p" and ?f = "claim_file 0 (claim_json p ?u ''choosing'' JNull)"
  let ?t = "ticket_name 1 p" and ?g = "claim_file 0 (claim_json p ?u ''ticket'' (JNum 1))"
  let ?a = "\<lparr> sc_choosing = [choosing_item p], sc_tickets = [] \<rparr>" and ?b = "\<lparr> sc_choosing = [], sc_tickets = [ticket_item 1 p] \<rparr>"
  have f: "choosing_file p ?f" "ticket_file 1 p ?g" using ex_utc unfolding choosing_file_def ticket_file_def by blast+
  have one: "valid_ticket 1" by (rule valid_ticket_one)
  have ne: "?t \<noteq> ?c" using choosing_ne_ticket by metis
  have init: "solo p Map.empty Start = lock_initial" by (simp add: solo_def lock_initial_def fun_upd_idem)
  have "lock_step miss (solo p Map.empty Start) (solo p [?c \<mapsto> ?f] Chosen)"
    using lock_step.write_choosing [of "solo p Map.empty Start" p ?u miss] p ex_utc by simp
  moreover have "lock_step miss (solo p [?c \<mapsto> ?f] Chosen) (solo p [?c \<mapsto> ?f] (Counting [(?c, True)] empty_scan))"
    using lock_step.list_first [of "solo p [?c \<mapsto> ?f] Chosen" p "[(?c, True)]" miss] listing_single [of ?f ?c] by simp
  moreover have "lock_step miss (solo p [?c \<mapsto> ?f] (Counting [(?c, True)] empty_scan)) (solo p [?c \<mapsto> ?f] (Counting [] ?a))"
    using lock_step.count_entry [of "solo p [?c \<mapsto> ?f] (Counting [(?c, True)] empty_scan)" p "(?c, True)" "[]" empty_scan ?a "[?c \<mapsto> ?f]" miss]
      scan_choosing [OF p _ f(1), of "[?c \<mapsto> ?f]" "\<lambda>_. Signalled" 0 empty_scan]
    by (simp add: empty_scan_def)
  moreover have "lock_step miss (solo p [?c \<mapsto> ?f] (Counting [] ?a)) (solo p [?c \<mapsto> ?f] (Numbered 1))"
    using lock_step.take_number [of "solo p [?c \<mapsto> ?f] (Counting [] ?a)" p ?a 1 miss]
    by (simp add: next_ticket_def safeInteger_def MAX_SAFE_INTEGER_def)
  moreover have "lock_step miss (solo p [?c \<mapsto> ?f] (Numbered 1)) (solo p [?c \<mapsto> ?f, ?t \<mapsto> ?g] (Ticketed 1))"
    using lock_step.write_ticket [of "solo p [?c \<mapsto> ?f] (Numbered 1)" p 1 ?u miss] ex_utc by simp
  moreover have "lock_step miss (solo p [?c \<mapsto> ?f, ?t \<mapsto> ?g] (Ticketed 1)) (solo p [?t \<mapsto> ?g] (Waiting 1))"
    using lock_step.drop_choosing [of "solo p [?c \<mapsto> ?f, ?t \<mapsto> ?g] (Ticketed 1)" p 1 miss] ne
    by (simp add: fun_upd_twist [of ?t ?c])
  moreover have "lock_step miss (solo p [?t \<mapsto> ?g] (Waiting 1)) (solo p [?t \<mapsto> ?g] (Checking 1 [(?t, True)] empty_scan))"
    using lock_step.list_again [of "solo p [?t \<mapsto> ?g] (Waiting 1)" p 1 "[(?t, True)]" miss] listing_single [of ?g ?t] by simp
  moreover have "lock_step miss (solo p [?t \<mapsto> ?g] (Checking 1 [(?t, True)] empty_scan)) (solo p [?t \<mapsto> ?g] (Checking 1 [] ?b))"
    using lock_step.check_entry [of "solo p [?t \<mapsto> ?g] (Checking 1 [(?t, True)] empty_scan)" p 1 "(?t, True)" "[]" empty_scan miss ?b "[?t \<mapsto> ?g]"]
      scan_ticket [OF p one _ f(2), of "[?t \<mapsto> ?g]" "\<lambda>_. Signalled" 0 empty_scan]
    by (simp add: empty_scan_def missed_choosing_def)
  moreover have "lock_step miss (solo p [?t \<mapsto> ?g] (Checking 1 [] ?b)) (solo p [?t \<mapsto> ?g] (Critical 1))"
    using lock_step.enter [of "solo p [?t \<mapsto> ?g] (Checking 1 [] ?b)" p 1 ?b miss]
    by (simp add: wait_decision_def ticket_item_def)
  ultimately show ?thesis unfolding init by (meson converse_rtranclp_into_rtranclp rtranclp.rtrancl_refl)
qed

section \<open>Mutual exclusion\<close>

text \<open>
  C31. Mutual exclusion. In every run of the lock protocol in which no polling scan comes to a
  choosing file that was there when the directory was listed and is gone, no two attempts are in the
  critical section at once: any number of processes and attempts, any interleaving of their file
  operations and scan entries, crashes, reuse of process identifiers, and temporary files that come
  and go included.
\<close>

theorem lock_mutual_exclusion:
  assumes "lock_reachable False s" "ls_pc s p = Critical n" "ls_pc s r = Critical m"
  shows "p = r"
proof (rule ccontr)
  assume "p \<noteq> r"
  note I = lock_invD(4) [OF inv_reachable [OF assms(1)]]
  have "behind n p r (Critical m)" using I [of p] assms(2,3) \<open>p \<noteq> r\<close> by (auto simp: ahead_def)
  moreover have "behind m r p (Critical n)" using I [of r] assms(2,3) \<open>p \<noteq> r\<close> by (auto simp: ahead_def)
  ultimately have "(n, p) < (m, r)" "(m, r) < (n, p)" unfolding behind.simps number_of.simps option.case by blast+
  then show False by (rule less_asym)
qed

theorem lock_mutual_exclusion_witness:
  "\<exists>s. lock_reachable False s \<and> ls_pc s ex_proc = Critical 1 \<and> (\<forall>r m. ls_pc s r = Critical m \<longrightarrow> r = ex_proc)"
proof -
  obtain q where s: "lock_reachable False (solo ex_proc q (Critical 1))" using solo_enters [OF ex_proc_valid] by blast
  have "ls_pc (solo ex_proc q (Critical 1)) ex_proc = Critical 1" by simp
  with lock_mutual_exclusion [OF s _ this] s show ?thesis by blast
qed

section \<open>The first in line\<close>

lemma live_ticket_iff:
  "c \<in> live_tickets kill N \<longleftrightarrow>
    (\<exists>m r. c = ticket_item m r \<and> valid_attempt r \<and> valid_ticket m \<and> ticket_name m r \<in> N \<and> kill (fst r) \<noteq> ESRCH)"
  unfolding live_tickets_def image_iff Bex_def mem_Collect_eq split_paired_Ex prod.case by blast

text \<open>
  The lock is granted to the first in line: if no live process is choosing and the attempt's
  ticket is the least among the tickets of live processes, a scan of the queue that is left alone
  meanwhile makes the attempt enter, whatever claims of dead processes are left over.
\<close>

theorem first_in_line_enters:
  assumes "claims_only q" "listing_of q es" "\<forall>pid e. kill pid \<noteq> OtherError e"
    and "live_choosing kill (dom q) = {}"
    and "valid_attempt p" "valid_ticket n" "q (ticket_name n p) \<noteq> None" "kill (fst p) \<noteq> ESRCH"
    and "\<forall>m r. ticket_item m r \<in> live_tickets kill (dom q) \<longrightarrow> (n, p) \<le> (m, r)"
  shows "\<exists>sc q'. scanStoreLockClaims kill now es q = (Inr sc, q') \<and> wait_decision (ticket_name n p) sc = Inr True"
proof -
  from scan_live_claims [OF assms(1-3), of now] obtain sc where
    sc: "scanStoreLockClaims kill now es q = (Inr sc, \<lambda>name. if dead_claim kill name then None else q name)"
      "set (sc_choosing sc) = live_choosing kill (dom q)" "set (sc_tickets sc) = live_tickets kill (dom q)"
    by (elim exE conjE)
  have mine: "ticket_item n p \<in> set (sc_tickets sc)" unfolding sc(3) live_ticket_iff domIff using assms(5-8) by blast
  let ?h = "hd (sort_key ticket_key (sc_tickets sc))"
  have "sc_tickets sc \<noteq> []" using mine by auto
  then have "sort_key ticket_key (sc_tickets sc) \<noteq> []" by (metis length_0_conv length_sort)
  from hd_in_set [OF this] have h: "?h \<in> set (sc_tickets sc)" by simp
  then obtain m r where mr: "?h = ticket_item m r" unfolding sc(3) live_ticket_iff by blast
  then have "(n, p) \<le> (m, r)" using h assms(9) sc(3) by simp
  moreover have "(m, r) \<le> (n, p)"
    using sorted_hd_le [OF mine, of ticket_key] unfolding mr by (simp add: ticket_key_def ticket_item_def)
  ultimately have "(m, r) = (n, p)" by (meson order_antisym)
  then have "lc_name ?h = ticket_name n p" by (simp add: mr ticket_item_def)
  moreover have "lc_name (ticket_item n p) = ticket_name n p" by (simp add: ticket_item_def)
  then have "ticket_name n p \<in> lc_name ` set (sc_tickets sc)" using mine by (metis image_eqI)
  ultimately have "wait_decision (ticket_name n p) sc = Inr True" using sc(2) assms(4) by (simp add: wait_decision_def)
  with sc(1) show ?thesis by blast
qed

theorem first_in_line_enters_witness:
  "\<exists>sc q'. scanStoreLockClaims (\<lambda>_. Signalled) 0 [(ticket_name 3 ex_proc, True)] [ticket_name 3 ex_proc \<mapsto> ex_claim] = (Inr sc, q') \<and>
     wait_decision (ticket_name 3 ex_proc) sc = Inr True"
proof -
  have 3: "valid_ticket 3" by (simp add: MAX_SAFE_INTEGER_def)
  have "claim_at (ticket_name 3 ex_proc) ex_claim"
    unfolding claim_at_def ticket_file_def ex_claim_def using ex_proc_valid ex_utc 3 by blast
  then have q: "claims_only [ticket_name 3 ex_proc \<mapsto> ex_claim]" by (simp add: claims_only_def)
  have l: "listing_of [ticket_name 3 ex_proc \<mapsto> ex_claim] [(ticket_name 3 ex_proc, True)]"
    using listing_single [of ex_claim] by (simp add: ex_claim_def)
  have d: "dom [ticket_name 3 ex_proc \<mapsto> ex_claim] = {ticket_name 3 ex_proc}" by simp
  have "live_choosing (\<lambda>_. Signalled) {ticket_name 3 ex_proc} = {}" using choosing_ne_ticket by (auto simp: live_choosing_def)
  moreover have "(3, ex_proc) \<le> (m, r)" if "ticket_item m r \<in> live_tickets (\<lambda>_. Signalled) {ticket_name 3 ex_proc}" for m r
  proof -
    from that obtain m' r' where x: "ticket_item m r = ticket_item m' r'" "valid_attempt r'" "valid_ticket m'"
      "ticket_name m' r' = ticket_name 3 ex_proc"
      unfolding live_ticket_iff by blast
    then have "m' = 3" "r' = ex_proc" using ticket_name_inj [OF x(2) ex_proc_valid x(3) 3] by blast+
    moreover have "m = m'" "r = r'" using x(1) by (simp_all add: ticket_item_def prod_eq_iff)
    ultimately show ?thesis by simp
  qed
  ultimately show ?thesis
    using first_in_line_enters [OF q l, of "\<lambda>_. Signalled" ex_proc 3 0] ex_proc_valid 3 unfolding d by simp
qed

end
