(* ===== verification/Saga_Lock_Race.thy ===== *)
theory Saga_Lock_Race
  imports Saga_Lock_Safety
begin

text \<open>
  The scan of the code passes over a choosing file that vanished since the directory was listed,
  although its owner may have taken a ticket meanwhile. A run of two attempts in which both enter.
\<close>

section \<open>Two attempts\<close>

definition proc_a :: attempt where
  "proc_a = (2, replicate 32 CHR ''a'')"

definition proc_b :: attempt where
  "proc_b = (1, replicate 32 CHR ''b'')"

lemma procs_valid: "valid_attempt proc_a" "valid_attempt proc_b"
  by (simp_all add: valid_attempt_def proc_a_def proc_b_def MAX_SAFE_INTEGER_def hex_n_def list_all_iff is_lower_hex_def)

lemma procs_differ: "proc_a \<noteq> proc_b" "proc_b \<noteq> proc_a"
  by (simp_all add: proc_a_def proc_b_def)

definition choosing_of :: "attempt \<Rightarrow> lock_file" where
  "choosing_of p = claim_file 0 (claim_json p ''2026-01-01T00:00:00.000Z'' ''choosing'' JNull)"

definition ticket_of_one :: "attempt \<Rightarrow> lock_file" where
  "ticket_of_one p = claim_file 0 (claim_json p ''2026-01-01T00:00:00.000Z'' ''ticket'' (JNum 1))"

text \<open>A queue by the files it has, and a state by its queue and the places of the two attempts.\<close>

definition dir :: "attempt set \<Rightarrow> attempt set \<Rightarrow> queue" where
  "dir cs ts name =
     (if name = choosing_name proc_a \<and> proc_a \<in> cs then Some (choosing_of proc_a)
      else if name = choosing_name proc_b \<and> proc_b \<in> cs then Some (choosing_of proc_b)
      else if name = ticket_name 1 proc_a \<and> proc_a \<in> ts then Some (ticket_of_one proc_a)
      else if name = ticket_name 1 proc_b \<and> proc_b \<in> ts then Some (ticket_of_one proc_b)
      else None)"

definition duo :: "queue \<Rightarrow> lock_pc \<Rightarrow> lock_pc \<Rightarrow> lock_state" where
  "duo q a b = \<lparr> ls_files = q, ls_pc = (\<lambda>_. Start)(proc_a := a, proc_b := b), ls_now = 0, ls_kill = (\<lambda>_. Signalled) \<rparr>"

lemma duo_simps [simp]:
  "ls_files (duo q a b) = q" "ls_pc (duo q a b) proc_a = a" "ls_pc (duo q a b) proc_b = b"
  "ls_now (duo q a b) = 0" "ls_kill (duo q a b) = (\<lambda>_. Signalled)"
  "set_pc proc_a c (duo q a b) = duo q c b" "set_pc proc_b c (duo q a b) = duo q a c"
  "(duo q a b) \<lparr> ls_files := q' \<rparr> = duo q' a b"
  "write_claim name v (duo q a b) = duo (q(name \<mapsto> claim_file 0 v)) a b"
  "remove_claim name (duo q a b) = duo (q(name := None)) a b"
  by (auto simp: duo_def set_pc_def write_claim_def remove_claim_def removeUniqueStoreLockClaim_def procs_differ fun_upd_twist)

lemma names_differ [simp]:
  "choosing_name proc_a \<noteq> choosing_name proc_b" "choosing_name proc_b \<noteq> choosing_name proc_a"
  "ticket_name 1 proc_a \<noteq> ticket_name 1 proc_b" "ticket_name 1 proc_b \<noteq> ticket_name 1 proc_a"
  "choosing_name p \<noteq> ticket_name n r" "ticket_name n r \<noteq> choosing_name p"
  using choosing_name_inj [OF procs_valid] ticket_name_inj [OF procs_valid valid_ticket_one valid_ticket_one] procs_differ
    choosing_ne_ticket [of p n r] by auto

lemma dir_updates [simp]:
  "(dir cs ts)(choosing_name proc_a \<mapsto> choosing_of proc_a) = dir (insert proc_a cs) ts"
  "(dir cs ts)(choosing_name proc_b \<mapsto> choosing_of proc_b) = dir (insert proc_b cs) ts"
  "(dir cs ts)(ticket_name 1 proc_a \<mapsto> ticket_of_one proc_a) = dir cs (insert proc_a ts)"
  "(dir cs ts)(ticket_name 1 proc_b \<mapsto> ticket_of_one proc_b) = dir cs (insert proc_b ts)"
  "(dir cs ts)(choosing_name proc_a := None) = dir (cs - {proc_a}) ts"
  "(dir cs ts)(choosing_name proc_b := None) = dir (cs - {proc_b}) ts"
  by (rule ext; simp add: dir_def procs_differ)+

text \<open>The listing of a queue, and what a scan makes of each file.\<close>

definition entries :: "attempt list \<Rightarrow> attempt list \<Rightarrow> (string \<times> bool) list" where
  "entries cs ts = map (\<lambda>p. (choosing_name p, True)) cs @ map (\<lambda>p. (ticket_name 1 p, True)) ts"

lemma files_regular [simp]: "lk_regular (choosing_of p)" "lk_regular (ticket_of_one p)"
  by (simp_all add: choosing_of_def ticket_of_one_def)

lemma listing_dir:
  "listing_of (dir {proc_a} {}) (entries [proc_a] [])"
  "listing_of (dir {proc_a, proc_b} {}) (entries [proc_a, proc_b] [])"
  "listing_of (dir {proc_b} {proc_a}) (entries [proc_b] [proc_a])"
  "listing_of (dir {} {proc_a, proc_b}) (entries [] [proc_a, proc_b])"
  by (auto simp: listing_of_def entries_def dir_def procs_differ split: if_splits)

lemma scan_dir:
  assumes "p \<in> {proc_a, proc_b}"
  shows "p \<in> cs \<Longrightarrow> scan_entry (\<lambda>_. Signalled) 0 (choosing_name p, True) acc (dir cs ts) =
      (Inr (acc \<lparr> sc_choosing := sc_choosing acc @ [choosing_item p] \<rparr>), dir cs ts)"
    "p \<in> ts \<Longrightarrow> scan_entry (\<lambda>_. Signalled) 0 (ticket_name 1 p, True) acc (dir cs ts) =
      (Inr (acc \<lparr> sc_tickets := sc_tickets acc @ [ticket_item 1 p] \<rparr>), dir cs ts)"
    "p \<notin> cs \<Longrightarrow> scan_entry (\<lambda>_. Signalled) 0 (choosing_name p, True) acc (dir cs ts) = (Inr acc, dir cs ts)"
proof -
  have p: "valid_attempt p" using assms procs_valid by blast
  have f: "choosing_file p (choosing_of p)" "ticket_file 1 p (ticket_of_one p)"
    using ex_utc unfolding choosing_file_def ticket_file_def choosing_of_def ticket_of_one_def by blast+
  show "p \<in> cs \<Longrightarrow> scan_entry (\<lambda>_. Signalled) 0 (choosing_name p, True) acc (dir cs ts) =
      (Inr (acc \<lparr> sc_choosing := sc_choosing acc @ [choosing_item p] \<rparr>), dir cs ts)"
    using scan_choosing [OF p _ f(1), of "dir cs ts" "\<lambda>_. Signalled" 0 acc] assms by (auto simp: dir_def)
  show "p \<in> ts \<Longrightarrow> scan_entry (\<lambda>_. Signalled) 0 (ticket_name 1 p, True) acc (dir cs ts) =
      (Inr (acc \<lparr> sc_tickets := sc_tickets acc @ [ticket_item 1 p] \<rparr>), dir cs ts)"
    using scan_ticket [OF p valid_ticket_one _ f(2), of "dir cs ts" "\<lambda>_. Signalled" 0 acc] assms by (auto simp: dir_def)
  assume "p \<notin> cs"
  then have "dir cs ts (choosing_name p) = None" using assms by (auto simp: dir_def)
  then show "scan_entry (\<lambda>_. Signalled) 0 (choosing_name p, True) acc (dir cs ts) = (Inr acc, dir cs ts)"
    using claim_name_plain(1) [OF p] choosing_name_parse [OF p] by (simp add: scan_entry_def)
qed

section \<open>The run\<close>

abbreviation scanned :: "attempt list \<Rightarrow> attempt list \<Rightarrow> lock_scan" where
  "scanned cs ts \<equiv> \<lparr> sc_choosing = map choosing_item cs, sc_tickets = map (ticket_item 1) ts \<rparr>"

lemma turns:
  "wait_decision (ticket_name 1 proc_a) (scanned [] [proc_a]) = Inr True"
  "wait_decision (ticket_name 1 proc_b) (scanned [] [proc_a, proc_b]) = Inr True"
  by (simp_all add: wait_decision_def ticket_item_def ticket_key_def) (simp add: proc_a_def proc_b_def)

lemma first_number: "next_ticket (scanned cs []) = Inr 1"
  by (simp add: next_ticket_def safeInteger_def MAX_SAFE_INTEGER_def)

lemma duo_initial: "duo (dir {} {}) Start Start = lock_initial"
  by (auto simp: duo_def lock_initial_def dir_def fun_upd_idem)

text \<open>Both attempts take the number one: each lists the queue before the other has a ticket.\<close>

lemma race_numbers: "lock_reachable True (duo (dir {proc_a, proc_b} {}) (Numbered 1) (Numbered 1))"
proof -
  let ?L = "lock_step True"
  have "?L (duo (dir {} {}) Start Start) (duo (dir {proc_a} {}) Chosen Start)"
    using lock_step.write_choosing [of "duo (dir {} {}) Start Start" proc_a _ True] procs_valid ex_utc
    by (fastforce simp: choosing_of_def [symmetric])
  moreover have "?L (duo (dir {proc_a} {}) Chosen Start) (duo (dir {proc_a} {}) (Counting (entries [proc_a] []) (scanned [] [])) Start)"
    using lock_step.list_first [of "duo (dir {proc_a} {}) Chosen Start" proc_a _ True] listing_dir by (simp add: empty_scan_def)
  moreover have "?L (duo (dir {proc_a} {}) (Counting (entries [proc_a] []) (scanned [] [])) Start)
      (duo (dir {proc_a} {}) (Counting [] (scanned [proc_a] [])) Start)"
    using lock_step.count_entry [of "duo (dir {proc_a} {}) (Counting (entries [proc_a] []) (scanned [] [])) Start" proc_a] scan_dir(1)
    by (simp add: entries_def)
  moreover have "?L (duo (dir {proc_a} {}) (Counting [] (scanned [proc_a] [])) Start) (duo (dir {proc_a} {}) (Numbered 1) Start)"
    using lock_step.take_number [of "duo (dir {proc_a} {}) (Counting [] (scanned [proc_a] [])) Start" proc_a] first_number [of "[proc_a]"] by simp
  moreover have "?L (duo (dir {proc_a} {}) (Numbered 1) Start) (duo (dir {proc_a, proc_b} {}) (Numbered 1) Chosen)"
    using lock_step.write_choosing [of "duo (dir {proc_a} {}) (Numbered 1) Start" proc_b _ True] procs_valid ex_utc
    by (fastforce simp: choosing_of_def [symmetric] insert_commute)
  moreover have "?L (duo (dir {proc_a, proc_b} {}) (Numbered 1) Chosen)
      (duo (dir {proc_a, proc_b} {}) (Numbered 1) (Counting (entries [proc_a, proc_b] []) (scanned [] [])))"
    using lock_step.list_first [of "duo (dir {proc_a, proc_b} {}) (Numbered 1) Chosen" proc_b _ True] listing_dir by (simp add: empty_scan_def)
  moreover have "?L (duo (dir {proc_a, proc_b} {}) (Numbered 1) (Counting (entries [proc_a, proc_b] []) (scanned [] [])))
      (duo (dir {proc_a, proc_b} {}) (Numbered 1) (Counting (entries [proc_b] []) (scanned [proc_a] [])))"
    using lock_step.count_entry [of "duo (dir {proc_a, proc_b} {}) (Numbered 1) (Counting (entries [proc_a, proc_b] []) (scanned [] []))" proc_b]
      scan_dir(1) by (simp add: entries_def)
  moreover have "?L (duo (dir {proc_a, proc_b} {}) (Numbered 1) (Counting (entries [proc_b] []) (scanned [proc_a] [])))
      (duo (dir {proc_a, proc_b} {}) (Numbered 1) (Counting [] (scanned [proc_a, proc_b] [])))"
    using lock_step.count_entry [of "duo (dir {proc_a, proc_b} {}) (Numbered 1) (Counting (entries [proc_b] []) (scanned [proc_a] []))" proc_b]
      scan_dir(1) by (simp add: entries_def)
  moreover have "?L (duo (dir {proc_a, proc_b} {}) (Numbered 1) (Counting [] (scanned [proc_a, proc_b] [])))
      (duo (dir {proc_a, proc_b} {}) (Numbered 1) (Numbered 1))"
    using lock_step.take_number [of "duo (dir {proc_a, proc_b} {}) (Numbered 1) (Counting [] (scanned [proc_a, proc_b] []))" proc_b]
      first_number [of "[proc_a, proc_b]"] by simp
  ultimately show ?thesis unfolding duo_initial by (meson converse_rtranclp_into_rtranclp rtranclp.rtrancl_refl)
qed

text \<open>
  The first attempt writes its ticket and lists the queue while the second is still choosing. The
  second then writes its ticket and drops its choosing file, and the first finds it gone.
\<close>

lemma race_first_enters: "(lock_step True)\<^sup>*\<^sup>* (duo (dir {proc_a, proc_b} {}) (Numbered 1) (Numbered 1))
    (duo (dir {} {proc_a, proc_b}) (Critical 1) (Waiting 1))"
proof -
  let ?L = "lock_step True"
  let ?d = "dir {} {proc_a, proc_b}"
  have "?L (duo (dir {proc_a, proc_b} {}) (Numbered 1) (Numbered 1)) (duo (dir {proc_a, proc_b} {proc_a}) (Ticketed 1) (Numbered 1))"
    using lock_step.write_ticket [of "duo (dir {proc_a, proc_b} {}) (Numbered 1) (Numbered 1)" proc_a 1 _ True] ex_utc
    by (fastforce simp: ticket_of_one_def [symmetric])
  moreover have "?L (duo (dir {proc_a, proc_b} {proc_a}) (Ticketed 1) (Numbered 1)) (duo (dir {proc_b} {proc_a}) (Waiting 1) (Numbered 1))"
    using lock_step.drop_choosing [of "duo (dir {proc_a, proc_b} {proc_a}) (Ticketed 1) (Numbered 1)" proc_a 1 True]
    by (simp add: procs_differ insert_Diff_if)
  moreover have "?L (duo (dir {proc_b} {proc_a}) (Waiting 1) (Numbered 1))
      (duo (dir {proc_b} {proc_a}) (Checking 1 (entries [proc_b] [proc_a]) (scanned [] [])) (Numbered 1))"
    using lock_step.list_again [of "duo (dir {proc_b} {proc_a}) (Waiting 1) (Numbered 1)" proc_a 1 _ True] listing_dir by (simp add: empty_scan_def)
  moreover have "?L (duo (dir {proc_b} {proc_a}) (Checking 1 (entries [proc_b] [proc_a]) (scanned [] [])) (Numbered 1))
      (duo (dir {proc_b} {proc_a, proc_b}) (Checking 1 (entries [proc_b] [proc_a]) (scanned [] [])) (Ticketed 1))"
    using lock_step.write_ticket [of "duo (dir {proc_b} {proc_a}) (Checking 1 (entries [proc_b] [proc_a]) (scanned [] [])) (Numbered 1)" proc_b 1 _ True] ex_utc
    by (fastforce simp: ticket_of_one_def [symmetric] insert_commute)
  moreover have "?L (duo (dir {proc_b} {proc_a, proc_b}) (Checking 1 (entries [proc_b] [proc_a]) (scanned [] [])) (Ticketed 1))
      (duo ?d (Checking 1 (entries [proc_b] [proc_a]) (scanned [] [])) (Waiting 1))"
    using lock_step.drop_choosing [of "duo (dir {proc_b} {proc_a, proc_b}) (Checking 1 (entries [proc_b] [proc_a]) (scanned [] [])) (Ticketed 1)" proc_b 1 True]
    by simp
  moreover have "?L (duo ?d (Checking 1 (entries [proc_b] [proc_a]) (scanned [] [])) (Waiting 1))
      (duo ?d (Checking 1 (entries [] [proc_a]) (scanned [] [])) (Waiting 1))"
    using lock_step.check_entry [of "duo ?d (Checking 1 (entries [proc_b] [proc_a]) (scanned [] [])) (Waiting 1)" proc_a] scan_dir(3)
    by (simp add: entries_def)
  moreover have "?L (duo ?d (Checking 1 (entries [] [proc_a]) (scanned [] [])) (Waiting 1))
      (duo ?d (Checking 1 [] (scanned [] [proc_a])) (Waiting 1))"
    using lock_step.check_entry [of "duo ?d (Checking 1 (entries [] [proc_a]) (scanned [] [])) (Waiting 1)" proc_a] scan_dir(2)
    by (simp add: entries_def)
  moreover have "?L (duo ?d (Checking 1 [] (scanned [] [proc_a])) (Waiting 1)) (duo ?d (Critical 1) (Waiting 1))"
    using lock_step.enter [of "duo ?d (Checking 1 [] (scanned [] [proc_a])) (Waiting 1)" proc_a] turns(1) by simp
  ultimately show ?thesis by (meson converse_rtranclp_into_rtranclp rtranclp.rtrancl_refl)
qed

text \<open>The second attempt has the same number and the smaller process identifier, and enters too.\<close>

lemma race_second_enters: "(lock_step True)\<^sup>*\<^sup>* (duo (dir {} {proc_a, proc_b}) (Critical 1) (Waiting 1))
    (duo (dir {} {proc_a, proc_b}) (Critical 1) (Critical 1))"
proof -
  let ?L = "lock_step True"
  let ?d = "dir {} {proc_a, proc_b}"
  have "?L (duo ?d (Critical 1) (Waiting 1)) (duo ?d (Critical 1) (Checking 1 (entries [] [proc_a, proc_b]) (scanned [] [])))"
    using lock_step.list_again [of "duo ?d (Critical 1) (Waiting 1)" proc_b 1 _ True] listing_dir by (simp add: empty_scan_def)
  moreover have "?L (duo ?d (Critical 1) (Checking 1 (entries [] [proc_a, proc_b]) (scanned [] [])))
      (duo ?d (Critical 1) (Checking 1 (entries [] [proc_b]) (scanned [] [proc_a])))"
    using lock_step.check_entry [of "duo ?d (Critical 1) (Checking 1 (entries [] [proc_a, proc_b]) (scanned [] []))" proc_b] scan_dir(2)
    by (simp add: entries_def)
  moreover have "?L (duo ?d (Critical 1) (Checking 1 (entries [] [proc_b]) (scanned [] [proc_a])))
      (duo ?d (Critical 1) (Checking 1 [] (scanned [] [proc_a, proc_b])))"
    using lock_step.check_entry [of "duo ?d (Critical 1) (Checking 1 (entries [] [proc_b]) (scanned [] [proc_a]))" proc_b] scan_dir(2)
    by (simp add: entries_def)
  moreover have "?L (duo ?d (Critical 1) (Checking 1 [] (scanned [] [proc_a, proc_b]))) (duo ?d (Critical 1) (Critical 1))"
    using lock_step.enter [of "duo ?d (Critical 1) (Checking 1 [] (scanned [] [proc_a, proc_b]))" proc_b] turns(2) by simp
  ultimately show ?thesis by (meson converse_rtranclp_into_rtranclp rtranclp.rtrancl_refl)
qed

text \<open>
  C32. The lock of the code does not exclude: with the scan as it is, which passes over a choosing
  file that vanished between the listing of the directory and the reading of the file, two attempts
  can be in the critical section at once.
\<close>

theorem lock_race:
  "\<exists>s p r n m. lock_reachable True s \<and> p \<noteq> r \<and> ls_pc s p = Critical n \<and> ls_pc s r = Critical m"
proof -
  have "lock_reachable True (duo (dir {} {proc_a, proc_b}) (Critical 1) (Critical 1))"
    using race_numbers race_first_enters race_second_enters by (blast intro: rtranclp_trans)
  then show ?thesis using procs_differ(1) duo_simps(2,3) by blast
qed

end
