(* ===== verification/Native_Transfer.thy ===== *)
theory Native_Transfer
  imports Sha256
begin

text \<open>
  One signed value transfer of chain 2050 as a state transition,
  \<^verbatim>\<open>src/chain/native_value_transfer_state_transition_v1.ts\<close>: \<^verbatim>\<open>prepare\<close> decodes the signed
  transaction, checks it against the policy, the account snapshot and the execution context and
  returns a plan with the balances and nonces before and after; \<^verbatim>\<open>apply\<close> validates a plan and
  hands it once to a store.

  \<^item> Inputs have the types the source declares for them; \<^verbatim>\<open>string | number | bigint\<close> is \<open>js_uint\<close>.
  \<^item> The package \<^verbatim>\<open>ethers\<close> is not part of the sources: its \<^verbatim>\<open>getAddress\<close> and \<^verbatim>\<open>Transaction.from\<close>
    are the fields of the argument \<open>ethers\<close>. Reading \<^verbatim>\<open>hash\<close> or \<^verbatim>\<open>from\<close> of a transaction runs
    code of that package, which may throw.
  \<^item> A function that returns early with a held decision has type \<open>held_decision + 'a\<close>; a throw inside its
    \<^verbatim>\<open>try\<close> block is the held decision of the \<^verbatim>\<open>catch\<close> clause (\<open>caught\<close>).
  \<^item> A \<^verbatim>\<open>Set\<close> is the list of its elements and a \<^verbatim>\<open>Map\<close> the list of its entries, in insertion
    order. Addresses are lower-case hexadecimal, which \<^verbatim>\<open>localeCompare\<close> orders as code units do.
\<close>

section \<open>Constants\<close>

definition VOID_NATIVE_VALUE_TRANSFER_STATE_TRANSITION_V1 :: string where
  "VOID_NATIVE_VALUE_TRANSFER_STATE_TRANSITION_V1 = ''VOID_NATIVE_VALUE_TRANSFER_STATE_TRANSITION_V1''"

definition VOID_NATIVE_VALUE_TRANSFER_CONFIRMATION_V1 :: string where
  "VOID_NATIVE_VALUE_TRANSFER_CONFIRMATION_V1 = ''applyNativeValueTransferStateTransitionV1''"

definition EXPECTED_CHAIN_ID :: int where
  "EXPECTED_CHAIN_ID = 2050"

definition REQUIRED_TX_TYPE :: int where
  "REQUIRED_TX_TYPE = 2"

definition REQUIRED_GAS_LIMIT :: int where
  "REQUIRED_GAS_LIMIT = 21000"

definition MAX_RAW_TRANSACTION_BYTES_HARD :: int where
  "MAX_RAW_TRANSACTION_BYTES_HARD = 131072"

definition ZERO_ADDRESS :: string where
  "ZERO_ADDRESS = ''0x'' @ replicate 40 CHR ''0''"

definition RAW_SIGNED_TRANSACTION :: "string \<Rightarrow> bool" where
  "RAW_SIGNED_TRANSACTION s \<longleftrightarrow> take 2 s = ''0x'' \<and> drop 2 s \<noteq> [] \<and> list_all is_hex (drop 2 s)"

definition TRANSACTION_HASH :: "string \<Rightarrow> bool" where
  "TRANSACTION_HASH s \<longleftrightarrow> prefix_hex ''0x'' 64 s"

definition SHA256 :: "string \<Rightarrow> bool" where
  "SHA256 s \<longleftrightarrow> hex_n 64 s"

definition SAFE_ID :: "string \<Rightarrow> bool" where
  "SAFE_ID s \<longleftrightarrow> 1 \<le> slen s \<and> slen s \<le> 200 \<and> list_all (\<lambda>c. is_alnum c \<or> c \<in> set ''._:@/-'') s"

section \<open>Data\<close>

datatype js_uint = UStr string | UNum int | UFrac | UBig int

record account_state =
  as_address :: string
  as_balance_wei :: js_uint
  as_nonce :: js_uint

record state_snapshot =
  ss_state_version :: string
  ss_accounts :: "account_state list"

record fee_credit =
  fc_address :: string
  fc_amount_wei :: js_uint

record execution_context =
  ec_block_hash :: string
  ec_block_number :: js_uint
  ec_transaction_index :: js_uint
  ec_gas_used :: js_uint
  ec_effective_gas_price_wei :: js_uint
  ec_fee_credits :: "fee_credit list"
  ec_fee_policy_fingerprint_sha256 :: string

record transfer_policy =
  tp_expected_chain_id :: js_uint
  tp_required_transaction_type :: js_uint
  tp_required_gas_limit :: js_uint
  tp_max_raw_transaction_bytes :: js_uint
  tp_max_value_wei :: js_uint
  tp_max_fee_debit_wei :: js_uint
  tp_max_fee_credit_count :: js_uint
  tp_sender_allowlist :: "string list"
  tp_fee_credit_allowlist :: "string list"

record account_change =
  ac_address :: string
  ac_balance_before_wei :: string
  ac_balance_after_wei :: string
  ac_nonce_before :: string
  ac_nonce_after :: string

record normalized_credit =
  nc_address :: string
  nc_amount_wei :: string

record transfer_plan =
  p_schema :: string
  p_marker :: string
  p_version :: int
  p_chain_id :: string
  p_transaction_type :: int
  p_transaction_hash :: string
  p_sender :: string
  p_recipient :: string
  p_value_wei :: string
  p_transaction_nonce :: string
  p_gas_limit :: string
  p_max_fee_per_gas_wei :: string
  p_max_priority_fee_per_gas_wei :: string
  p_block_hash :: string
  p_block_number :: string
  p_transaction_index :: string
  p_gas_used :: string
  p_effective_gas_price_wei :: string
  p_fee_debit_wei :: string
  p_fee_credits :: "normalized_credit list"
  p_fee_credit_total_wei :: string
  p_fee_burned_wei :: string
  p_fee_policy_fingerprint_sha256 :: string
  p_state_version :: string
  p_prestate_fingerprint_sha256 :: string
  p_poststate_fingerprint_sha256 :: string
  p_account_changes :: "account_change list"
  p_idempotency_key_sha256 :: string
  p_plan_binding_sha256 :: string

text \<open>
  A held decision. The fields that are the same in every held decision (\<^verbatim>\<open>ok: false\<close>,
  \<^verbatim>\<open>status: "held"\<close>, \<^verbatim>\<open>version: 1\<close>, no state mutation, no money movement, the authority
  constant) are not stored; \<open>JUndef\<close> as detail means the property is absent.
\<close>

record held_decision =
  h_marker :: string
  h_reason :: string
  h_retry_allowed :: bool
  h_submission_may_have_occurred :: bool
  h_detail :: jsv

definition held_with :: "string \<Rightarrow> bool \<Rightarrow> bool \<Rightarrow> jsv \<Rightarrow> held_decision" where
  "held_with reason retry submitted detail =
     \<lparr> h_marker = VOID_NATIVE_VALUE_TRANSFER_STATE_TRANSITION_V1, h_reason = reason,
       h_retry_allowed = retry, h_submission_may_have_occurred = submitted, h_detail = detail \<rparr>"

definition held :: "string \<Rightarrow> held_decision" where
  "held reason = held_with reason False False JUndef"

record normalized_account =
  na_address :: string
  na_balance_wei :: int
  na_nonce :: int

record normalized_policy =
  np_max_raw_transaction_bytes :: int
  np_max_value_wei :: int
  np_max_fee_debit_wei :: int
  np_max_fee_credit_count :: int
  np_sender_allowlist :: "string list"
  np_fee_credit_allowlist :: "string list"

text \<open>What the source reads of an \<^verbatim>\<open>ethers\<close> transaction; \<^verbatim>\<open>null\<close> is \<open>None\<close>.\<close>

record transaction =
  tx_hash :: "string option res"
  tx_from :: "string option res"
  tx_to :: "string option"
  tx_signature :: bool
  tx_type :: "int option"
  tx_chainId :: int
  tx_gasLimit :: int
  tx_data :: string
  tx_accessList :: "nat option"
  tx_value :: int
  tx_maxFeePerGas :: "int option"
  tx_maxPriorityFeePerGas :: "int option"
  tx_nonce :: int

record ethers =
  getAddress :: "string \<Rightarrow> string res"
  Transaction_from :: "string \<Rightarrow> transaction res"

section \<open>Maps and sets in insertion order\<close>

definition set_add :: "'a list \<Rightarrow> 'a \<Rightarrow> 'a list" where
  "set_add s x = (if x \<in> set s then s else s @ [x])"

definition js_set :: "'a list \<Rightarrow> 'a list" where
  "js_set xs = foldl set_add [] xs"

definition map_put :: "'k \<Rightarrow> 'v \<Rightarrow> ('k \<times> 'v) list \<Rightarrow> ('k \<times> 'v) list" where
  "map_put k v m =
     (if k \<in> fst ` set m then map (\<lambda>(k', v'). (k', if k' = k then v else v')) m else m @ [(k, v)])"

section \<open>Digests\<close>

text \<open>\<^verbatim>\<open>sha256(value)\<close>: the digest of the text with sorted keys.\<close>

definition sha256 :: "(string \<Rightarrow> string) \<Rightarrow> jsv \<Rightarrow> string" where
  "sha256 H v = H (stringify (canonicalize v))"

definition side_json :: "(account_change \<Rightarrow> string) \<Rightarrow> (account_change \<Rightarrow> string) \<Rightarrow> account_change \<Rightarrow> string \<times> jsv" where
  "side_json bal non c = (ac_address c, JObj [
     (''address'', JStr (ac_address c)), (''balance_wei'', JStr (bal c)), (''nonce'', JStr (non c))])"

definition accountFingerprint ::
  "(string \<Rightarrow> string) \<Rightarrow> string \<Rightarrow> account_change list \<Rightarrow> bool \<Rightarrow> string" where
  "accountFingerprint H stateVersion accounts before =
     sha256 H (JObj [
       (''state_version'', JStr stateVersion),
       (''accounts'', JArr (map snd (sort_key fst (map
          (if before then side_json ac_balance_before_wei ac_nonce_before
           else side_json ac_balance_after_wei ac_nonce_after) accounts))))])"

definition credit_json :: "normalized_credit \<Rightarrow> jsv" where
  "credit_json c = JObj [(''address'', JStr (nc_address c)), (''amount_wei'', JStr (nc_amount_wei c))]"

definition change_json :: "account_change \<Rightarrow> jsv" where
  "change_json c = JObj [
     (''address'', JStr (ac_address c)),
     (''balance_before_wei'', JStr (ac_balance_before_wei c)),
     (''balance_after_wei'', JStr (ac_balance_after_wei c)),
     (''nonce_before'', JStr (ac_nonce_before c)),
     (''nonce_after'', JStr (ac_nonce_after c))]"

text \<open>The plan without its binding, as \<^verbatim>\<open>planBindingMaterial\<close> is given it.\<close>

definition planBindingMaterial :: "transfer_plan \<Rightarrow> jsv" where
  "planBindingMaterial p = JObj [
     (''schema'', JStr (p_schema p)),
     (''marker'', JStr (p_marker p)),
     (''version'', JNum (p_version p)),
     (''chain_id'', JStr (p_chain_id p)),
     (''transaction_type'', JNum (p_transaction_type p)),
     (''transaction_hash'', JStr (p_transaction_hash p)),
     (''sender'', JStr (p_sender p)),
     (''recipient'', JStr (p_recipient p)),
     (''value_wei'', JStr (p_value_wei p)),
     (''transaction_nonce'', JStr (p_transaction_nonce p)),
     (''gas_limit'', JStr (p_gas_limit p)),
     (''max_fee_per_gas_wei'', JStr (p_max_fee_per_gas_wei p)),
     (''max_priority_fee_per_gas_wei'', JStr (p_max_priority_fee_per_gas_wei p)),
     (''block_hash'', JStr (p_block_hash p)),
     (''block_number'', JStr (p_block_number p)),
     (''transaction_index'', JStr (p_transaction_index p)),
     (''gas_used'', JStr (p_gas_used p)),
     (''effective_gas_price_wei'', JStr (p_effective_gas_price_wei p)),
     (''fee_debit_wei'', JStr (p_fee_debit_wei p)),
     (''fee_credits'', JArr (map credit_json (p_fee_credits p))),
     (''fee_credit_total_wei'', JStr (p_fee_credit_total_wei p)),
     (''fee_burned_wei'', JStr (p_fee_burned_wei p)),
     (''fee_policy_fingerprint_sha256'', JStr (p_fee_policy_fingerprint_sha256 p)),
     (''state_version'', JStr (p_state_version p)),
     (''prestate_fingerprint_sha256'', JStr (p_prestate_fingerprint_sha256 p)),
     (''poststate_fingerprint_sha256'', JStr (p_poststate_fingerprint_sha256 p)),
     (''account_changes'', JArr (map change_json (p_account_changes p))),
     (''idempotency_key_sha256'', JStr (p_idempotency_key_sha256 p)),
     (''raw_signed_transaction_persisted'', JBool False),
     (''raw_signed_transaction_returned'', JBool False),
     (''signing_performed'', JBool False),
     (''rpc_call_performed'', JBool False),
     (''state_mutation_performed'', JBool False),
     (''money_movement_performed'', JBool False)]"

section \<open>Normalisation\<close>

definition parseUint :: "js_uint \<Rightarrow> string \<Rightarrow> int res" where
  "parseUint v label =
     bnd (case v of
         UBig i \<Rightarrow> Inr i
       | UNum i \<Rightarrow> if \<not> isSafeInteger (JNum i) then Inl (label @ ''_not_safe_integer'') else Inr i
       | UFrac \<Rightarrow> Inl (label @ ''_not_safe_integer'')
       | UStr s \<Rightarrow> if is_decimal s then Inr (dec_val s) else Inl (label @ ''_invalid''))
     (\<lambda>parsed. if parsed < 0 then Inl (label @ ''_negative'') else Inr parsed)"

definition parseBoundedNumber :: "js_uint \<Rightarrow> string \<Rightarrow> int \<Rightarrow> int res" where
  "parseBoundedNumber v label mx =
     bnd (parseUint v label) (\<lambda>parsed.
     if parsed > mx then Inl (label @ ''_too_large'') else Inr parsed)"

definition normalizeAddress :: "ethers \<Rightarrow> string \<Rightarrow> string \<Rightarrow> string res" where
  "normalizeAddress E v label =
     bnd (getAddress E v) (\<lambda>a.
     if js_lower a = ZERO_ADDRESS then Inl (label @ ''_zero'') else Inr (js_lower a))"

definition normalizeAddressSet :: "ethers \<Rightarrow> string list \<Rightarrow> string \<Rightarrow> string list res" where
  "normalizeAddressSet E vs label =
     (if vs = [] then Inl (label @ ''_empty'')
      else foldM (\<lambda>normalized v.
        bnd (normalizeAddress E v label) (\<lambda>address.
        if address \<in> set normalized then Inl (label @ ''_duplicate'')
        else Inr (set_add normalized address))) [] vs)"

definition normalizePolicy :: "ethers \<Rightarrow> transfer_policy \<Rightarrow> normalized_policy res" where
  "normalizePolicy E policy =
     bnd (parseUint (tp_expected_chain_id policy) ''expected_chain_id'') (\<lambda>chain.
     if chain \<noteq> EXPECTED_CHAIN_ID then Inl ''policy_chain_id_mismatch'' else
     bnd (parseUint (tp_required_transaction_type policy) ''required_transaction_type'') (\<lambda>type.
     if type \<noteq> REQUIRED_TX_TYPE then Inl ''policy_transaction_type_mismatch'' else
     bnd (parseUint (tp_required_gas_limit policy) ''required_gas_limit'') (\<lambda>gas.
     if gas \<noteq> REQUIRED_GAS_LIMIT then Inl ''policy_gas_limit_mismatch'' else
     bnd (parseBoundedNumber (tp_max_raw_transaction_bytes policy) ''max_raw_transaction_bytes''
            MAX_RAW_TRANSACTION_BYTES_HARD) (\<lambda>maxRaw.
     if maxRaw < 100 then Inl ''max_raw_transaction_bytes_too_small'' else
     bnd (parseUint (tp_max_value_wei policy) ''max_value_wei'') (\<lambda>maxValue.
     if maxValue \<le> 0 then Inl ''max_value_wei_zero'' else
     bnd (parseUint (tp_max_fee_debit_wei policy) ''max_fee_debit_wei'') (\<lambda>maxFee.
     bnd (parseBoundedNumber (tp_max_fee_credit_count policy) ''max_fee_credit_count'' 16) (\<lambda>maxFeeCredits.
     bnd (normalizeAddressSet E (tp_sender_allowlist policy) ''sender_allowlist'') (\<lambda>senders.
     bnd (normalizeAddressSet E (tp_fee_credit_allowlist policy) ''fee_credit_allowlist'') (\<lambda>credits.
     Inr \<lparr> np_max_raw_transaction_bytes = maxRaw, np_max_value_wei = maxValue,
            np_max_fee_debit_wei = maxFee, np_max_fee_credit_count = maxFeeCredits,
            np_sender_allowlist = senders, np_fee_credit_allowlist = credits \<rparr>)))))))))"

type_synonym accounts = "(string \<times> normalized_account) list"

definition normalizeSnapshot :: "ethers \<Rightarrow> state_snapshot \<Rightarrow> (string \<times> accounts) res" where
  "normalizeSnapshot E snapshot =
     (let stateVersion = js_trim (ss_state_version snapshot) in
      if \<not> SAFE_ID stateVersion then Inl ''state_version_invalid''
      else if ss_accounts snapshot = [] then Inl ''state_accounts_empty''
      else bnd (foldM (\<lambda>accounts item.
          bnd (normalizeAddress E (as_address item) ''account_address'') (\<lambda>address.
          if address \<in> fst ` set accounts then Inl ''duplicate_account_state'' else
          bnd (parseUint (as_balance_wei item) ''account_balance_wei'') (\<lambda>balance.
          bnd (parseUint (as_nonce item) ''account_nonce'') (\<lambda>nonce.
          Inr (map_put address \<lparr> na_address = address, na_balance_wei = balance, na_nonce = nonce \<rparr>
                 accounts))))) [] (ss_accounts snapshot))
        (\<lambda>accounts. Inr (stateVersion, accounts)))"

section \<open>Plan validation\<close>

definition validatePlan :: "(string \<Rightarrow> string) \<Rightarrow> transfer_plan \<Rightarrow> string option" where
  "validatePlan H plan =
     (if p_schema plan \<noteq> ''void_native_value_transfer_prepared_plan_v1''
        \<or> p_marker plan \<noteq> VOID_NATIVE_VALUE_TRANSFER_STATE_TRANSITION_V1
        \<or> p_version plan \<noteq> 1 \<or> p_chain_id plan \<noteq> ''2050'' \<or> p_transaction_type plan \<noteq> 2
        \<or> p_gas_limit plan \<noteq> ''21000'' \<or> p_gas_used plan \<noteq> ''21000''
      then Some ''prepared_plan_identity_mismatch''
      else if \<not> TRANSACTION_HASH (p_transaction_hash plan)
      then Some ''prepared_plan_transaction_hash_invalid''
      else if \<not> SHA256 (p_prestate_fingerprint_sha256 plan)
        \<or> \<not> SHA256 (p_poststate_fingerprint_sha256 plan)
        \<or> \<not> SHA256 (p_idempotency_key_sha256 plan)
        \<or> \<not> SHA256 (p_plan_binding_sha256 plan)
        \<or> \<not> SHA256 (p_fee_policy_fingerprint_sha256 plan)
      then Some ''prepared_plan_fingerprint_invalid''
      else if p_account_changes plan = [] then Some ''prepared_plan_account_changes_empty''
      else if accountFingerprint H (p_state_version plan) (p_account_changes plan) True
        \<noteq> p_prestate_fingerprint_sha256 plan
      then Some ''prepared_plan_prestate_fingerprint_mismatch''
      else if accountFingerprint H (p_state_version plan) (p_account_changes plan) False
        \<noteq> p_poststate_fingerprint_sha256 plan
      then Some ''prepared_plan_poststate_fingerprint_mismatch''
      else if sha256 H (planBindingMaterial plan) \<noteq> p_plan_binding_sha256 plan
      then Some ''prepared_plan_binding_mismatch''
      else None)"

section \<open>Prepare\<close>

text \<open>The \<^verbatim>\<open>catch\<close> clause of \<^verbatim>\<open>prepare\<close>: a throw becomes a held decision.\<close>

definition prepare_error :: "string \<Rightarrow> held_decision" where
  "prepare_error e =
     held_with ''native_value_transfer_prepare_error'' False False (JObj [(''error_code'', JStr e)])"

definition caught :: "'a res \<Rightarrow> held_decision + 'a" where
  "caught m = (case m of Inl e \<Rightarrow> Inl (prepare_error e) | Inr x \<Rightarrow> Inr x)"

text \<open>\<^verbatim>\<open>x ? normalizeAddress(x, label) : ""\<close>, and \<^verbatim>\<open>String(x || "")\<close>.\<close>

definition optAddress :: "ethers \<Rightarrow> string option \<Rightarrow> string \<Rightarrow> string res" where
  "optAddress E a label =
     (case a of None \<Rightarrow> Inr '''' | Some s \<Rightarrow> if s = '''' then Inr '''' else normalizeAddress E s label)"

definition orEmpty :: "string option \<Rightarrow> string" where
  "orEmpty a = (case a of None \<Rightarrow> '''' | Some s \<Rightarrow> s)"

record transfer =
  t_hash :: string
  t_sender :: string
  t_recipient :: string
  t_value :: int
  t_maxFeePerGas :: int
  t_maxPriorityFeePerGas :: int
  t_nonce :: int

text \<open>The checks of the decoded transaction.\<close>

definition checkTransaction :: "ethers \<Rightarrow> normalized_policy \<Rightarrow> transaction \<Rightarrow> held_decision + transfer" where
  "checkTransaction E policy tx =
     bnd (caught (tx_hash tx)) (\<lambda>rawHash.
     bnd (caught (tx_from tx)) (\<lambda>from'.
     bnd (caught (optAddress E from' ''transaction_sender'')) (\<lambda>sender.
     bnd (caught (optAddress E (tx_to tx) ''transaction_recipient'')) (\<lambda>recipient.
     let transactionHash = js_lower (orEmpty rawHash); value = tx_value tx in
     if \<not> TRANSACTION_HASH transactionHash then Inl (held ''signed_transaction_hash_invalid'')
     else if \<not> tx_signature tx \<or> sender = '''' then Inl (held ''signed_transaction_signature_missing'')
     else if recipient = '''' then Inl (held ''contract_creation_forbidden'')
     else if tx_type tx \<noteq> Some REQUIRED_TX_TYPE then Inl (held ''transaction_type_mismatch'')
     else if tx_chainId tx \<noteq> EXPECTED_CHAIN_ID then Inl (held ''transaction_chain_id_mismatch'')
     else if tx_gasLimit tx \<noteq> REQUIRED_GAS_LIMIT then Inl (held ''transaction_gas_limit_mismatch'')
     else if tx_data tx \<noteq> ''0x'' then Inl (held ''transaction_data_forbidden'')
     else if (case tx_accessList tx of None \<Rightarrow> False | Some n \<Rightarrow> n > 0)
     then Inl (held ''transaction_access_list_forbidden'')
     else if sender \<notin> set (np_sender_allowlist policy) then Inl (held ''transaction_sender_not_allowed'')
     else if value \<le> 0 then Inl (held ''transaction_value_zero'')
     else if value > np_max_value_wei policy then Inl (held ''transaction_value_exceeds_policy'')
     else case (tx_maxFeePerGas tx, tx_maxPriorityFeePerGas tx) of
       (Some maxFee, Some maxPriority) \<Rightarrow>
         if maxPriority > maxFee then Inl (held ''transaction_priority_fee_exceeds_max_fee'')
         else Inr \<lparr> t_hash = transactionHash, t_sender = sender, t_recipient = recipient,
                t_value = value, t_maxFeePerGas = maxFee, t_maxPriorityFeePerGas = maxPriority,
                t_nonce = tx_nonce tx \<rparr>
     | _ \<Rightarrow> Inl (held ''transaction_fee_fields_missing'')))))"

record exec_env =
  x_blockHash :: string
  x_blockNumber :: int
  x_transactionIndex :: int
  x_effectiveGasPrice :: int
  x_feeDebit :: int
  x_feePolicyFingerprint :: string

text \<open>The checks of the execution context, up to the fee fields.\<close>

definition checkContext :: "normalized_policy \<Rightarrow> transfer \<Rightarrow> execution_context \<Rightarrow> held_decision + exec_env" where
  "checkContext policy t ctx =
     (let blockHash = js_lower (ec_block_hash ctx) in
     if \<not> TRANSACTION_HASH blockHash then Inl (held ''execution_block_hash_invalid'') else
     bnd (caught (parseUint (ec_block_number ctx) ''execution_block_number'')) (\<lambda>blockNumber.
     bnd (caught (parseUint (ec_transaction_index ctx) ''execution_transaction_index'')) (\<lambda>transactionIndex.
     bnd (caught (parseUint (ec_gas_used ctx) ''execution_gas_used'')) (\<lambda>gasUsed.
     if gasUsed \<noteq> REQUIRED_GAS_LIMIT then Inl (held ''execution_gas_used_mismatch'') else
     bnd (caught (parseUint (ec_effective_gas_price_wei ctx) ''effective_gas_price_wei'')) (\<lambda>price.
     if price > t_maxFeePerGas t then Inl (held ''effective_gas_price_exceeds_transaction_max'') else
     let feeDebit = gasUsed * price; fingerprint = js_lower (ec_fee_policy_fingerprint_sha256 ctx) in
     if feeDebit > np_max_fee_debit_wei policy then Inl (held ''fee_debit_exceeds_policy'')
     else if \<not> SHA256 fingerprint then Inl (held ''fee_policy_fingerprint_invalid'')
     else if int (length (ec_fee_credits ctx)) > np_max_fee_credit_count policy
     then Inl (held ''fee_credit_count_exceeds_policy'')
     else Inr \<lparr> x_blockHash = blockHash, x_blockNumber = blockNumber,
            x_transactionIndex = transactionIndex, x_effectiveGasPrice = price,
            x_feeDebit = feeDebit, x_feePolicyFingerprint = fingerprint \<rparr>)))))"

text \<open>One round of the loop over the fee credits: the credits pushed so far and their total.\<close>

definition feeCreditStep ::
  "ethers \<Rightarrow> normalized_policy \<Rightarrow> normalized_credit list \<times> int \<times> string list \<Rightarrow> fee_credit \<Rightarrow>
   held_decision + normalized_credit list \<times> int \<times> string list" where
  "feeCreditStep E policy s item =
     (case s of (feeCredits, feeCreditTotal, feeCreditAddresses) \<Rightarrow>
     bnd (caught (normalizeAddress E (fc_address item) ''fee_credit_address'')) (\<lambda>address.
     if address \<notin> set (np_fee_credit_allowlist policy) then Inl (held ''fee_credit_address_not_allowed'')
     else if address \<in> set feeCreditAddresses then Inl (held ''fee_credit_address_duplicate'')
     else bnd (caught (parseUint (fc_amount_wei item) ''fee_credit_amount_wei'')) (\<lambda>amount.
     if amount \<le> 0 then Inl (held ''fee_credit_amount_zero'')
     else Inr (feeCredits @ [\<lparr> nc_address = address, nc_amount_wei = dec_str amount \<rparr>],
               feeCreditTotal + amount, set_add feeCreditAddresses address))))"

definition collectFeeCredits ::
  "ethers \<Rightarrow> normalized_policy \<Rightarrow> fee_credit list \<Rightarrow> int \<Rightarrow> held_decision + normalized_credit list \<times> int" where
  "collectFeeCredits E policy items feeDebit =
     bnd (foldM (feeCreditStep E policy) ([], 0, []) items) (\<lambda>(feeCredits, feeCreditTotal, _).
     if feeCreditTotal > feeDebit then Inl (held ''fee_credit_total_exceeds_fee_debit'')
     else Inr (sort_key nc_address feeCredits, feeCreditTotal))"

definition addDelta :: "string \<Rightarrow> int \<Rightarrow> (string \<times> int) list \<Rightarrow> (string \<times> int) list" where
  "addDelta address delta deltas =
     map_put address ((case map_of deltas address of None \<Rightarrow> 0 | Some d \<Rightarrow> d) + delta) deltas"

definition balanceDeltas :: "transfer \<Rightarrow> int \<Rightarrow> normalized_credit list \<Rightarrow> (string \<times> int) list" where
  "balanceDeltas t totalDebit feeCredits =
     foldl (\<lambda>deltas credit. addDelta (nc_address credit) (dec_val (nc_amount_wei credit)) deltas)
       (addDelta (t_recipient t) (t_value t) (addDelta (t_sender t) (- totalDebit) [])) feeCredits"

definition requiredAddresses :: "transfer \<Rightarrow> normalized_credit list \<Rightarrow> string list" where
  "requiredAddresses t feeCredits = js_set (t_sender t # t_recipient t # map nc_address feeCredits)"

text \<open>The change of one account.\<close>

definition accountChange :: "accounts \<Rightarrow> string \<Rightarrow> (string \<times> int) list \<Rightarrow> string \<Rightarrow> held_decision + account_change" where
  "accountChange accounts sender deltas address =
     (case map_of accounts address of
       None \<Rightarrow> Inl (held ''state_snapshot_required_account_missing'')
     | Some before \<Rightarrow>
         (let afterBalance = na_balance_wei before + (case map_of deltas address of None \<Rightarrow> 0 | Some d \<Rightarrow> d);
              afterNonce = (if address = sender then na_nonce before + 1 else na_nonce before)
          in if afterBalance < 0 then Inl (held ''poststate_balance_negative'')
          else Inr \<lparr> ac_address = address,
                 ac_balance_before_wei = int_str (na_balance_wei before),
                 ac_balance_after_wei = int_str afterBalance,
                 ac_nonce_before = int_str (na_nonce before),
                 ac_nonce_after = int_str afterNonce \<rparr>))"

text \<open>The checks of the snapshot against the transfer, and the changes of all its accounts.\<close>

definition computeChanges ::
  "(string \<Rightarrow> string) \<Rightarrow> accounts \<Rightarrow> transfer \<Rightarrow> int \<Rightarrow> normalized_credit list \<Rightarrow> held_decision + account_change list" where
  "computeChanges H accounts t feeDebit feeCredits =
     (let required = requiredAddresses t feeCredits; totalDebit = t_value t + feeDebit in
      if length accounts \<noteq> length required then Inl (held ''state_snapshot_address_set_mismatch'')
      else case find (\<lambda>a. a \<notin> fst ` set accounts) required of
        Some a \<Rightarrow> Inl (held_with ''state_snapshot_required_account_missing'' False False
                   (JObj [(''missing_address_sha256'', JStr (sha256 H (JStr a)))]))
      | None \<Rightarrow>
          (case map_of accounts (t_sender t) of
            None \<Rightarrow> Inl (held ''sender_state_missing'')
          | Some senderState \<Rightarrow>
              if na_nonce senderState \<noteq> t_nonce t then Inl (held ''transaction_nonce_mismatch'')
              else if na_balance_wei senderState < totalDebit then Inl (held ''sender_balance_insufficient'')
              else mapM (accountChange accounts (t_sender t) (balanceDeltas t totalDebit feeCredits))
                     (sort required)))"

text \<open>The plan, before and with its binding.\<close>

definition planWithoutBinding ::
  "(string \<Rightarrow> string) \<Rightarrow> transfer \<Rightarrow> exec_env \<Rightarrow> string \<Rightarrow> normalized_credit list \<Rightarrow> int \<Rightarrow> account_change list \<Rightarrow>
   transfer_plan" where
  "planWithoutBinding H t x stateVersion feeCredits feeCreditTotal changes =
     \<lparr> p_schema = ''void_native_value_transfer_prepared_plan_v1'',
       p_marker = VOID_NATIVE_VALUE_TRANSFER_STATE_TRANSITION_V1, p_version = 1, p_chain_id = ''2050'',
       p_transaction_type = 2, p_transaction_hash = t_hash t, p_sender = t_sender t,
       p_recipient = t_recipient t, p_value_wei = int_str (t_value t),
       p_transaction_nonce = int_str (t_nonce t), p_gas_limit = ''21000'',
       p_max_fee_per_gas_wei = int_str (t_maxFeePerGas t),
       p_max_priority_fee_per_gas_wei = int_str (t_maxPriorityFeePerGas t),
       p_block_hash = x_blockHash x, p_block_number = int_str (x_blockNumber x),
       p_transaction_index = int_str (x_transactionIndex x), p_gas_used = ''21000'',
       p_effective_gas_price_wei = int_str (x_effectiveGasPrice x),
       p_fee_debit_wei = int_str (x_feeDebit x), p_fee_credits = feeCredits,
       p_fee_credit_total_wei = int_str feeCreditTotal,
       p_fee_burned_wei = int_str (x_feeDebit x - feeCreditTotal),
       p_fee_policy_fingerprint_sha256 = x_feePolicyFingerprint x, p_state_version = stateVersion,
       p_prestate_fingerprint_sha256 = accountFingerprint H stateVersion changes True,
       p_poststate_fingerprint_sha256 = accountFingerprint H stateVersion changes False,
       p_account_changes = changes,
       p_idempotency_key_sha256 = sha256 H (JObj [
         (''marker'', JStr VOID_NATIVE_VALUE_TRANSFER_STATE_TRANSITION_V1),
         (''chain_id'', JStr ''2050''), (''transaction_hash'', JStr (t_hash t))]),
       p_plan_binding_sha256 = '''' \<rparr>"

definition buildPlan ::
  "(string \<Rightarrow> string) \<Rightarrow> transfer \<Rightarrow> exec_env \<Rightarrow> string \<Rightarrow> normalized_credit list \<Rightarrow> int \<Rightarrow> account_change list \<Rightarrow>
   transfer_plan" where
  "buildPlan H t x stateVersion feeCredits feeCreditTotal changes =
     (let withoutBinding = planWithoutBinding H t x stateVersion feeCredits feeCreditTotal changes
      in withoutBinding \<lparr> p_plan_binding_sha256 := sha256 H (planBindingMaterial withoutBinding) \<rparr>)"

definition decodeTransaction :: "ethers \<Rightarrow> string \<Rightarrow> held_decision + transaction" where
  "decodeTransaction E raw =
     (case Transaction_from E raw of
       Inl c \<Rightarrow> Inl (held_with ''signed_transaction_decode_failed'' False False
                  (JObj [(''error_class'', JStr c)]))
     | Inr tx \<Rightarrow> Inr tx)"

definition prepareVoidNativeValueTransferStateTransitionV1 ::
  "(string \<Rightarrow> string) \<Rightarrow> ethers \<Rightarrow> string \<Rightarrow> transfer_policy \<Rightarrow> state_snapshot \<Rightarrow> execution_context \<Rightarrow>
   held_decision + transfer_plan" where
  "prepareVoidNativeValueTransferStateTransitionV1 H E raw_signed_transaction policy0 snapshot ctx =
     bnd (caught (normalizePolicy E policy0)) (\<lambda>policy.
     bnd (caught (normalizeSnapshot E snapshot)) (\<lambda>(stateVersion, accounts).
     let raw = js_trim raw_signed_transaction in
     if \<not> RAW_SIGNED_TRANSACTION raw \<or> slen raw mod 2 \<noteq> 0
        \<or> (slen raw - 2) div 2 > np_max_raw_transaction_bytes policy
     then Inl (held ''raw_signed_transaction_invalid'') else
     bnd (decodeTransaction E raw) (\<lambda>tx.
     bnd (checkTransaction E policy tx) (\<lambda>t.
     bnd (checkContext policy t ctx) (\<lambda>x.
     bnd (collectFeeCredits E policy (ec_fee_credits ctx) (x_feeDebit x)) (\<lambda>(feeCredits, feeCreditTotal).
     bnd (computeChanges H accounts t (x_feeDebit x) feeCredits) (\<lambda>changes.
     Inr (buildPlan H t x stateVersion feeCredits feeCreditTotal changes))))))))"

section \<open>Apply\<close>

record store_request =
  sr_confirmation :: string
  sr_idempotency_key_sha256 :: string
  sr_transaction_hash :: string
  sr_state_version :: string
  sr_prestate_fingerprint_sha256 :: string
  sr_poststate_fingerprint_sha256 :: string
  sr_plan_binding_sha256 :: string
  sr_account_changes :: "account_change list"
  sr_fee_burned_wei :: string

text \<open>What the store does with a request: it throws (an error of some class), refuses, or commits.\<close>

datatype store_result =
    StoreThrows string
  | NotApplied "string option" "string option" "bool option"
  | Applied string string string

datatype apply_decision =
    ApplyHeld held_decision
  | ApplyReady string string string string

definition storeRequest :: "transfer_plan \<Rightarrow> store_request" where
  "storeRequest plan =
     \<lparr> sr_confirmation = VOID_NATIVE_VALUE_TRANSFER_CONFIRMATION_V1,
       sr_idempotency_key_sha256 = p_idempotency_key_sha256 plan,
       sr_transaction_hash = p_transaction_hash plan, sr_state_version = p_state_version plan,
       sr_prestate_fingerprint_sha256 = p_prestate_fingerprint_sha256 plan,
       sr_poststate_fingerprint_sha256 = p_poststate_fingerprint_sha256 plan,
       sr_plan_binding_sha256 = p_plan_binding_sha256 plan,
       sr_account_changes = p_account_changes plan, sr_fee_burned_wei = p_fee_burned_wei plan \<rparr>"

text \<open>\<^verbatim>\<open>String(reason || fallback)\<close>\<close>

definition orElse :: "string option \<Rightarrow> string \<Rightarrow> string" where
  "orElse a d = (case a of None \<Rightarrow> d | Some s \<Rightarrow> if s = '''' then d else s)"

definition storeOutcome :: "transfer_plan \<Rightarrow> store_result \<Rightarrow> apply_decision" where
  "storeOutcome plan result =
     (case result of
       StoreThrows c \<Rightarrow> ApplyHeld (held_with ''native_value_transfer_store_error'' False True
                          (JObj [(''error_class'', JStr c)]))
     | NotApplied reason existing submitted \<Rightarrow>
         ApplyHeld (held_with (orElse reason ''native_value_transfer_not_applied'') False
           (case submitted of None \<Rightarrow> False | Some b \<Rightarrow> b)
           (JObj [(''existing_transaction_hash'', case existing of None \<Rightarrow> JNull | Some s \<Rightarrow> JStr s)]))
     | Applied commit_id state_version transaction_hash \<Rightarrow>
         (let commitId = js_trim commit_id; stateVersion = js_trim state_version;
              transactionHash = js_lower transaction_hash in
          if \<not> SAFE_ID commitId \<or> \<not> SAFE_ID stateVersion
          then ApplyHeld (held_with ''native_value_transfer_store_receipt_invalid'' False True JUndef)
          else if transactionHash \<noteq> p_transaction_hash plan
          then ApplyHeld (held_with ''native_value_transfer_store_hash_mismatch'' False True JUndef)
          else ApplyReady transactionHash (p_idempotency_key_sha256 plan) commitId stateVersion))"

text \<open>
  \<^verbatim>\<open>apply\<close> returns its decision and the requests it made of the store, in order; the store is
  absent (\<open>None\<close>) or answers a request.
\<close>

definition applyVoidNativeValueTransferStateTransitionV1 ::
  "(string \<Rightarrow> string) \<Rightarrow> transfer_plan \<Rightarrow> string \<Rightarrow> (store_request \<Rightarrow> store_result) option \<Rightarrow>
   apply_decision \<times> store_request list" where
  "applyVoidNativeValueTransferStateTransitionV1 H plan confirmation store =
     (if confirmation \<noteq> VOID_NATIVE_VALUE_TRANSFER_CONFIRMATION_V1
      then (ApplyHeld (held ''exact_confirmation_required''), [])
      else case store of
        None \<Rightarrow> (ApplyHeld (held ''native_value_transfer_store_not_configured''), [])
      | Some apply_native_value_transfer_once \<Rightarrow>
          (case validatePlan H plan of
            Some planFailure \<Rightarrow> (ApplyHeld (held planFailure), [])
          | None \<Rightarrow>
              (let request = storeRequest plan
               in (storeOutcome plan (apply_native_value_transfer_once request), [request]))))"

end
