(* ===== verification/Native_Block.thy ===== *)
theory Native_Block
  imports Native_Transfer
begin

text \<open>
  A block of value transfers, \<^verbatim>\<open>src/chain/native_value_transfer_block_executor_v1.ts\<close>: \<^verbatim>\<open>prepare\<close>
  runs the transactions in order through \<^verbatim>\<open>prepareVoidNativeValueTransferStateTransitionV1\<close>, each
  on the accounts the earlier ones left (the projected accounts), and returns one plan with the
  aggregate change of every account; \<^verbatim>\<open>apply\<close> validates a block plan and hands it once to a store.
  The snapshot it starts from is the one of \<^verbatim>\<open>src/chain/native_account_state_store_v1.ts\<close>. The
  file's own copies of \<^verbatim>\<open>stableValue\<close>, \<^verbatim>\<open>sha256\<close> and \<^verbatim>\<open>parseUint\<close> are those of the transfer.
\<close>

section \<open>Data\<close>

definition VOID_NATIVE_VALUE_TRANSFER_BLOCK_EXECUTOR_V1 :: string where
  "VOID_NATIVE_VALUE_TRANSFER_BLOCK_EXECUTOR_V1 = ''VOID_NATIVE_VALUE_TRANSFER_BLOCK_EXECUTOR_V1''"

definition VOID_NATIVE_VALUE_TRANSFER_BLOCK_CONFIRMATION_V1 :: string where
  "VOID_NATIVE_VALUE_TRANSFER_BLOCK_CONFIRMATION_V1 = ''applyNativeValueTransferBlockV1''"

definition EXPECTED_ACCOUNT_STORE_MARKER :: string where
  "EXPECTED_ACCOUNT_STORE_MARKER = ''VOID_NATIVE_ACCOUNT_STATE_STORE_V1''"

record account_row =
  r_address :: string
  r_balance_wei :: string
  r_nonce :: string

record applied_row =
  ar_idempotency_key_sha256 :: string
  ar_transaction_hash :: string
  ar_commit_id :: string
  ar_state_version :: string

record account_snapshot =
  sn_schema :: string
  sn_marker :: string
  sn_version :: int
  sn_state_version :: string
  sn_accounts :: "account_row list"
  sn_applied_transactions :: "applied_row list"
  sn_last_commit_id :: "string option"
  sn_fingerprint_sha256 :: string

record block_policy =
  bp_max_transactions_per_block :: js_uint
  bp_max_total_raw_transaction_bytes :: js_uint
  bp_max_total_value_wei :: js_uint
  bp_max_total_fee_debit_wei :: js_uint
  bp_max_total_fee_burned_wei :: js_uint

record block_transaction =
  bt_raw_signed_transaction :: string
  bt_transfer_policy :: transfer_policy
  bt_effective_gas_price_wei :: js_uint
  bt_fee_credits :: "fee_credit list"
  bt_fee_policy_fingerprint_sha256 :: string

record block_plan =
  b_schema :: string
  b_marker :: string
  b_version :: int
  b_block_hash :: string
  b_block_number :: string
  b_transaction_count :: int
  b_parent_state_version :: string
  b_parent_snapshot_fingerprint_sha256 :: string
  b_final_state_version :: string
  b_final_accounts_fingerprint_sha256 :: string
  b_ordered_transaction_hashes :: "string list"
  b_transaction_plans :: "transfer_plan list"
  b_aggregate_account_changes :: "account_change list"
  b_total_value_wei :: string
  b_total_fee_debit_wei :: string
  b_total_fee_credit_wei :: string
  b_total_fee_burned_wei :: string
  b_block_idempotency_key_sha256 :: string
  b_block_binding_sha256 :: string

record normalized_block_policy =
  nb_max_transactions_per_block :: int
  nb_max_total_raw_transaction_bytes :: int
  nb_max_total_value_wei :: int
  nb_max_total_fee_debit_wei :: int
  nb_max_total_fee_burned_wei :: int

definition block_held_with :: "string \<Rightarrow> bool \<Rightarrow> bool \<Rightarrow> jsv \<Rightarrow> held_decision" where
  "block_held_with reason retry submitted detail =
     \<lparr> h_marker = VOID_NATIVE_VALUE_TRANSFER_BLOCK_EXECUTOR_V1, h_reason = reason,
       h_retry_allowed = retry, h_submission_may_have_occurred = submitted, h_detail = detail \<rparr>"

definition block_held :: "string \<Rightarrow> jsv \<Rightarrow> held_decision" where
  "block_held reason detail = block_held_with reason False False detail"

section \<open>Normalisation\<close>

definition parseBoundedNumberFrom :: "js_uint \<Rightarrow> string \<Rightarrow> int \<Rightarrow> int \<Rightarrow> int res" where
  "parseBoundedNumberFrom v label mn mx =
     bnd (parseUint v label) (\<lambda>parsed.
     if parsed < mn then Inl (label @ ''_too_small'')
     else if parsed > mx then Inl (label @ ''_too_large'') else Inr parsed)"

definition normalizeBlockPolicy :: "block_policy \<Rightarrow> normalized_block_policy res" where
  "normalizeBlockPolicy policy =
     bnd (parseBoundedNumberFrom (bp_max_transactions_per_block policy) ''max_transactions_per_block'' 1 100000) (\<lambda>mtx.
     bnd (parseBoundedNumberFrom (bp_max_total_raw_transaction_bytes policy) ''max_total_raw_transaction_bytes'' 100
            (MAX_RAW_TRANSACTION_BYTES_HARD * 100000)) (\<lambda>mraw.
     bnd (parseUint (bp_max_total_value_wei policy) ''max_total_value_wei'') (\<lambda>mval.
     bnd (parseUint (bp_max_total_fee_debit_wei policy) ''max_total_fee_debit_wei'') (\<lambda>mfee.
     bnd (parseUint (bp_max_total_fee_burned_wei policy) ''max_total_fee_burned_wei'') (\<lambda>mburn.
     Inr \<lparr> nb_max_transactions_per_block = mtx, nb_max_total_raw_transaction_bytes = mraw,
            nb_max_total_value_wei = mval, nb_max_total_fee_debit_wei = mfee,
            nb_max_total_fee_burned_wei = mburn \<rparr>)))))"

definition row_json :: "account_row \<Rightarrow> jsv" where
  "row_json r = JObj [
     (''address'', JStr (r_address r)), (''balance_wei'', JStr (r_balance_wei r)), (''nonce'', JStr (r_nonce r))]"

definition applied_json :: "applied_row \<Rightarrow> jsv" where
  "applied_json r = JObj [
     (''idempotency_key_sha256'', JStr (ar_idempotency_key_sha256 r)),
     (''transaction_hash'', JStr (ar_transaction_hash r)),
     (''commit_id'', JStr (ar_commit_id r)), (''state_version'', JStr (ar_state_version r))]"

text \<open>The snapshot without its fingerprint.\<close>

definition snapshotFingerprintMaterial :: "account_snapshot \<Rightarrow> jsv" where
  "snapshotFingerprintMaterial s = JObj [
     (''schema'', JStr (sn_schema s)), (''marker'', JStr (sn_marker s)), (''version'', JNum (sn_version s)),
     (''state_version'', JStr (sn_state_version s)),
     (''accounts'', JArr (map row_json (sn_accounts s))),
     (''applied_transactions'', JArr (map applied_json (sn_applied_transactions s))),
     (''last_commit_id'', case sn_last_commit_id s of None \<Rightarrow> JNull | Some c \<Rightarrow> JStr c)]"

text \<open>One round of the loop over the accounts: the addresses seen, the last one in the second place.\<close>

definition validateAccountStep :: "string list \<times> string \<Rightarrow> account_row \<Rightarrow> (string list \<times> string) res" where
  "validateAccountStep s acc =
     (let address = js_lower (r_address acc); addresses = fst s; previous = snd s in
      if \<not> prefix_hex ''0x'' 40 address then Inl ''account_snapshot_address_invalid''
      else if address \<in> set addresses then Inl ''account_snapshot_duplicate_address''
      else if previous \<noteq> '''' \<and> address \<le> previous then Inl ''account_snapshot_accounts_not_sorted''
      else bnd (parseUint (UStr (r_balance_wei acc)) ''account_snapshot_balance_wei'') (\<lambda>_.
           bnd (parseUint (UStr (r_nonce acc)) ''account_snapshot_nonce'') (\<lambda>_.
           Inr (set_add addresses address, address))))"

definition validateSnapshot :: "(string \<Rightarrow> string) \<Rightarrow> account_snapshot \<Rightarrow> account_snapshot res" where
  "validateSnapshot H snapshot =
     (if sn_schema snapshot \<noteq> ''void_native_account_state_snapshot_v1''
        \<or> sn_marker snapshot \<noteq> EXPECTED_ACCOUNT_STORE_MARKER
        \<or> sn_version snapshot \<noteq> 1 \<or> \<not> SAFE_ID (sn_state_version snapshot)
        \<or> \<not> SHA256 (sn_fingerprint_sha256 snapshot) \<or> sn_accounts snapshot = []
      then Inl ''account_snapshot_identity_invalid''
      else if sha256 H (snapshotFingerprintMaterial snapshot) \<noteq> sn_fingerprint_sha256 snapshot
      then Inl ''account_snapshot_fingerprint_mismatch''
      else bnd (foldM validateAccountStep ([], '''') (sn_accounts snapshot)) (\<lambda>_. Inr snapshot))"

definition projectedAccountsFingerprint :: "(string \<Rightarrow> string) \<Rightarrow> string \<Rightarrow> account_row list \<Rightarrow> string" where
  "projectedAccountsFingerprint H stateVersion accounts =
     sha256 H (JObj [(''state_version'', JStr stateVersion),
       (''accounts'', JArr (map row_json (sort_key r_address accounts)))])"

section \<open>Block plans\<close>

definition plan_json :: "transfer_plan \<Rightarrow> jsv" where
  "plan_json p =
     (case planBindingMaterial p of
       JObj kvs \<Rightarrow> JObj (kvs @ [(''plan_binding_sha256'', JStr (p_plan_binding_sha256 p))])
     | v \<Rightarrow> v)"

definition blockPlanBindingMaterial :: "block_plan \<Rightarrow> jsv" where
  "blockPlanBindingMaterial b = JObj [
     (''schema'', JStr (b_schema b)),
     (''marker'', JStr (b_marker b)),
     (''version'', JNum (b_version b)),
     (''block_hash'', JStr (b_block_hash b)),
     (''block_number'', JStr (b_block_number b)),
     (''transaction_count'', JNum (b_transaction_count b)),
     (''parent_state_version'', JStr (b_parent_state_version b)),
     (''parent_snapshot_fingerprint_sha256'', JStr (b_parent_snapshot_fingerprint_sha256 b)),
     (''final_state_version'', JStr (b_final_state_version b)),
     (''final_accounts_fingerprint_sha256'', JStr (b_final_accounts_fingerprint_sha256 b)),
     (''ordered_transaction_hashes'', JArr (map JStr (b_ordered_transaction_hashes b))),
     (''transaction_plans'', JArr (map plan_json (b_transaction_plans b))),
     (''aggregate_account_changes'', JArr (map change_json (b_aggregate_account_changes b))),
     (''total_value_wei'', JStr (b_total_value_wei b)),
     (''total_fee_debit_wei'', JStr (b_total_fee_debit_wei b)),
     (''total_fee_credit_wei'', JStr (b_total_fee_credit_wei b)),
     (''total_fee_burned_wei'', JStr (b_total_fee_burned_wei b)),
     (''block_idempotency_key_sha256'', JStr (b_block_idempotency_key_sha256 b)),
     (''raw_signed_transaction_persisted'', JBool False),
     (''raw_signed_transaction_returned'', JBool False),
     (''per_transaction_store_apply_performed'', JBool False),
     (''block_store_apply_performed'', JBool False),
     (''state_mutation_performed'', JBool False),
     (''money_movement_performed'', JBool False)]"

definition blockIdempotencyKey :: "(string \<Rightarrow> string) \<Rightarrow> string \<Rightarrow> string \<Rightarrow> string" where
  "blockIdempotencyKey H blockHash blockNumber =
     sha256 H (JObj [
       (''marker'', JStr VOID_NATIVE_VALUE_TRANSFER_BLOCK_EXECUTOR_V1),
       (''block_hash'', JStr blockHash), (''block_number'', JStr blockNumber)])"

text \<open>The loop of \<^verbatim>\<open>validateBlockPlan\<close> over the transactions from \<open>index\<close> on.\<close>

fun transactionBindingsValid :: "block_plan \<Rightarrow> string list \<Rightarrow> int \<Rightarrow> (transfer_plan \<times> string) list \<Rightarrow> bool" where
  "transactionBindingsValid plan seen index [] = True"
| "transactionBindingsValid plan seen index ((transactionPlan, transactionHash) # rest) =
     (if p_marker transactionPlan \<noteq> VOID_NATIVE_VALUE_TRANSFER_STATE_TRANSITION_V1
        \<or> p_transaction_hash transactionPlan \<noteq> transactionHash
        \<or> p_block_hash transactionPlan \<noteq> b_block_hash plan
        \<or> p_block_number transactionPlan \<noteq> b_block_number plan
        \<or> p_transaction_index transactionPlan \<noteq> int_str index
        \<or> \<not> SHA256 (p_plan_binding_sha256 transactionPlan)
        \<or> transactionHash \<in> set seen
      then False
      else transactionBindingsValid plan (set_add seen transactionHash) (index + 1) rest)"

definition validateBlockPlan :: "(string \<Rightarrow> string) \<Rightarrow> block_plan \<Rightarrow> string option" where
  "validateBlockPlan H plan =
     (if b_schema plan \<noteq> ''void_native_value_transfer_block_prepared_plan_v1''
        \<or> b_marker plan \<noteq> VOID_NATIVE_VALUE_TRANSFER_BLOCK_EXECUTOR_V1
        \<or> b_version plan \<noteq> 1 \<or> \<not> TRANSACTION_HASH (b_block_hash plan)
        \<or> \<not> is_decimal (b_block_number plan)
        \<or> \<not> SAFE_ID (b_parent_state_version plan) \<or> \<not> SAFE_ID (b_final_state_version plan)
        \<or> \<not> SHA256 (b_parent_snapshot_fingerprint_sha256 plan)
        \<or> \<not> SHA256 (b_final_accounts_fingerprint_sha256 plan)
        \<or> \<not> SHA256 (b_block_idempotency_key_sha256 plan)
        \<or> \<not> SHA256 (b_block_binding_sha256 plan)
      then Some ''block_plan_identity_invalid''
      else if b_transaction_count plan \<le> 0
        \<or> b_transaction_count plan \<noteq> int (length (b_transaction_plans plan))
        \<or> b_transaction_count plan \<noteq> int (length (b_ordered_transaction_hashes plan))
      then Some ''block_plan_transaction_count_mismatch''
      else if \<not> transactionBindingsValid plan [] 0
                  (zip (b_transaction_plans plan) (b_ordered_transaction_hashes plan))
      then Some ''block_plan_transaction_binding_invalid''
      else if blockIdempotencyKey H (b_block_hash plan) (b_block_number plan)
        \<noteq> b_block_idempotency_key_sha256 plan
      then Some ''block_plan_idempotency_key_mismatch''
      else if sha256 H (blockPlanBindingMaterial plan) \<noteq> b_block_binding_sha256 plan
      then Some ''block_plan_binding_mismatch''
      else None)"

section \<open>Prepare\<close>

definition block_caught :: "'a res \<Rightarrow> held_decision + 'a" where
  "block_caught m = (case m of
       Inl e \<Rightarrow> Inl (block_held ''native_value_transfer_block_prepare_error'' (JObj [(''error_code'', JStr e)]))
     | Inr x \<Rightarrow> Inr x)"

type_synonym projected = "(string \<times> account_row) list"

record block_state =
  bs_totalRawBytes :: int
  bs_projected :: projected
  bs_transactionPlans :: "transfer_plan list"
  bs_orderedTransactionHashes :: "string list"
  bs_seenTransactionHashes :: "string list"
  bs_projectedStateVersion :: string
  bs_totalValue :: int
  bs_totalFeeDebit :: int
  bs_totalFeeCredit :: int
  bs_totalFeeBurned :: int

definition index_detail :: "int \<Rightarrow> jsv" where
  "index_detail i = JObj [(''transaction_index'', JNum i)]"

definition prepare_failed :: "int \<Rightarrow> string \<Rightarrow> held_decision" where
  "prepare_failed i reason = block_held ''block_transaction_prepare_failed''
     (JObj [(''transaction_index'', JNum i), (''transaction_reason'', JStr reason)])"

text \<open>The addresses whose accounts a transaction needs, and their projected accounts.\<close>

definition selectAddresses :: "int \<Rightarrow> transaction \<Rightarrow> fee_credit list \<Rightarrow> held_decision + string list" where
  "selectAddresses i tx credits =
     (case tx_from tx of
       Inl e \<Rightarrow> Inl (prepare_failed i ''signed_transaction_decode_failed'')
     | Inr from' \<Rightarrow>
         (let add = (\<lambda>s a. case a of None \<Rightarrow> s | Some x \<Rightarrow> if x = '''' then s else set_add s (js_lower x))
          in Inr (foldl (\<lambda>s credit.
               let candidate = js_lower (js_trim (fc_address credit))
               in if prefix_hex ''0x'' 40 candidate then set_add s candidate else s)
             (add (add [] from') (tx_to tx)) credits)))"

definition selectAccounts :: "projected \<Rightarrow> string list \<Rightarrow> account_state list" where
  "selectAccounts projected required =
     concat (map (\<lambda>address. case map_of projected address of
         None \<Rightarrow> []
       | Some r \<Rightarrow> [\<lparr> as_address = r_address r, as_balance_wei = UStr (r_balance_wei r), as_nonce = UStr (r_nonce r) \<rparr>])
       (sort required))"

definition prestateMatches :: "projected \<Rightarrow> account_change \<Rightarrow> bool" where
  "prestateMatches projected change =
     (case map_of projected (ac_address change) of
       None \<Rightarrow> False
     | Some current \<Rightarrow> r_balance_wei current = ac_balance_before_wei change \<and> r_nonce current = ac_nonce_before change)"

definition applyChanges :: "projected \<Rightarrow> account_change list \<Rightarrow> projected" where
  "applyChanges projected changes =
     foldl (\<lambda>m change. map_put (ac_address change)
       \<lparr> r_address = ac_address change, r_balance_wei = ac_balance_after_wei change, r_nonce = ac_nonce_after change \<rparr> m)
       projected changes"

definition nextStateVersion :: "(string \<Rightarrow> string) \<Rightarrow> string \<Rightarrow> int \<Rightarrow> transfer_plan \<Rightarrow> string" where
  "nextStateVersion H previous i plan =
     ''bsv1-'' @ sha256 H (JObj [
       (''previous_state_version'', JStr previous), (''transaction_index'', JNum i),
       (''transaction_hash'', JStr (p_transaction_hash plan)),
       (''poststate_fingerprint_sha256'', JStr (p_poststate_fingerprint_sha256 plan))])"

text \<open>The rest of a round of the loop, once the transaction has a plan.\<close>

definition acceptPlan ::
  "(string \<Rightarrow> string) \<Rightarrow> normalized_block_policy \<Rightarrow> string \<Rightarrow> int \<Rightarrow> int \<Rightarrow> block_state \<Rightarrow> transfer_plan \<Rightarrow> held_decision + block_state" where
  "acceptPlan H policy blockHash blockNumber i s plan =
     (if p_block_hash plan \<noteq> blockHash \<or> p_block_number plan \<noteq> int_str blockNumber
        \<or> p_transaction_index plan \<noteq> int_str i
      then Inl (block_held ''block_transaction_execution_context_mismatch'' (index_detail i))
      else if p_transaction_hash plan \<in> set (bs_seenTransactionHashes s)
      then Inl (block_held ''block_duplicate_transaction_hash'' (index_detail i))
      else case find (\<lambda>change. \<not> prestateMatches (bs_projected s) change) (p_account_changes plan) of
        Some change \<Rightarrow> Inl (block_held ''block_projected_prestate_mismatch'' (JObj [
            (''transaction_index'', JNum i), (''address_sha256'', JStr (sha256 H (JStr (ac_address change))))]))
      | None \<Rightarrow>
          (let totalValue = bs_totalValue s + dec_val (p_value_wei plan);
               totalFeeDebit = bs_totalFeeDebit s + dec_val (p_fee_debit_wei plan);
               totalFeeCredit = bs_totalFeeCredit s + dec_val (p_fee_credit_total_wei plan);
               totalFeeBurned = bs_totalFeeBurned s + dec_val (p_fee_burned_wei plan) in
           if totalValue > nb_max_total_value_wei policy
           then Inl (block_held ''block_total_value_exceeds_policy'' JUndef)
           else if totalFeeDebit > nb_max_total_fee_debit_wei policy
           then Inl (block_held ''block_total_fee_debit_exceeds_policy'' JUndef)
           else if totalFeeBurned > nb_max_total_fee_burned_wei policy
           then Inl (block_held ''block_total_fee_burned_exceeds_policy'' JUndef)
           else Inr (s \<lparr>
             bs_projected := applyChanges (bs_projected s) (p_account_changes plan),
             bs_transactionPlans := bs_transactionPlans s @ [plan],
             bs_orderedTransactionHashes := bs_orderedTransactionHashes s @ [p_transaction_hash plan],
             bs_seenTransactionHashes := set_add (bs_seenTransactionHashes s) (p_transaction_hash plan),
             bs_projectedStateVersion := nextStateVersion H (bs_projectedStateVersion s) i plan,
             bs_totalValue := totalValue, bs_totalFeeDebit := totalFeeDebit,
             bs_totalFeeCredit := totalFeeCredit, bs_totalFeeBurned := totalFeeBurned \<rparr>)))"

text \<open>One round of the loop over the transactions.\<close>

definition blockStep ::
  "(string \<Rightarrow> string) \<Rightarrow> ethers \<Rightarrow> normalized_block_policy \<Rightarrow> string \<Rightarrow> int \<Rightarrow> block_state \<Rightarrow> int \<times> block_transaction \<Rightarrow>
   held_decision + block_state" where
  "blockStep H E policy blockHash blockNumber s item =
     (case item of (i, input) \<Rightarrow>
     let raw = js_trim (bt_raw_signed_transaction input);
         totalRawBytes = bs_totalRawBytes s + (slen raw - 2) div 2 in
     if \<not> RAW_SIGNED_TRANSACTION raw \<or> slen raw mod 2 \<noteq> 0
     then Inl (block_held ''block_raw_signed_transaction_invalid'' (index_detail i))
     else if totalRawBytes > nb_max_total_raw_transaction_bytes policy
     then Inl (block_held ''block_raw_transaction_bytes_exceed_policy'' JUndef)
     else case Transaction_from E raw of
       Inl e \<Rightarrow> Inl (prepare_failed i ''signed_transaction_decode_failed'')
     | Inr tx \<Rightarrow>
         bnd (selectAddresses i tx (bt_fee_credits input)) (\<lambda>required.
         case prepareVoidNativeValueTransferStateTransitionV1 H E raw (bt_transfer_policy input)
             \<lparr> ss_state_version = bs_projectedStateVersion s, ss_accounts = selectAccounts (bs_projected s) required \<rparr>
             \<lparr> ec_block_hash = blockHash, ec_block_number = UBig blockNumber, ec_transaction_index = UNum i,
               ec_gas_used = UNum 21000, ec_effective_gas_price_wei = bt_effective_gas_price_wei input,
               ec_fee_credits = bt_fee_credits input,
               ec_fee_policy_fingerprint_sha256 = bt_fee_policy_fingerprint_sha256 input \<rparr> of
           Inl h \<Rightarrow> Inl (prepare_failed i (h_reason h))
         | Inr plan \<Rightarrow> acceptPlan H policy blockHash blockNumber i (s \<lparr> bs_totalRawBytes := totalRawBytes \<rparr>) plan))"

text \<open>The net change of one account over the block, if there is one.\<close>

definition aggregateChange :: "projected \<Rightarrow> projected \<Rightarrow> string \<Rightarrow> held_decision + account_change list" where
  "aggregateChange initial projected address =
     (case (map_of initial address, map_of projected address) of
       (Some before, Some after) \<Rightarrow>
         Inr (if r_balance_wei before \<noteq> r_balance_wei after \<or> r_nonce before \<noteq> r_nonce after
              then [\<lparr> ac_address = address, ac_balance_before_wei = r_balance_wei before,
                      ac_balance_after_wei = r_balance_wei after, ac_nonce_before = r_nonce before,
                      ac_nonce_after = r_nonce after \<rparr>]
              else [])
     | _ \<Rightarrow> Inl (block_held ''block_projected_account_missing'' JUndef))"

definition initialProjected :: "account_snapshot \<Rightarrow> projected" where
  "initialProjected snapshot = foldl (\<lambda>m acc. map_put (r_address acc) acc m) [] (sn_accounts snapshot)"

definition initialBlockState :: "account_snapshot \<Rightarrow> block_state" where
  "initialBlockState snapshot = \<lparr>
     bs_totalRawBytes = 0, bs_projected = initialProjected snapshot, bs_transactionPlans = [],
     bs_orderedTransactionHashes = [], bs_seenTransactionHashes = [],
     bs_projectedStateVersion = sn_state_version snapshot,
     bs_totalValue = 0, bs_totalFeeDebit = 0, bs_totalFeeCredit = 0, bs_totalFeeBurned = 0 \<rparr>"

definition blockPlanWithoutBinding ::
  "(string \<Rightarrow> string) \<Rightarrow> string \<Rightarrow> int \<Rightarrow> account_snapshot \<Rightarrow> block_state \<Rightarrow> account_change list \<Rightarrow> block_plan" where
  "blockPlanWithoutBinding H blockHash blockNumber snapshot s changes = \<lparr>
     b_schema = ''void_native_value_transfer_block_prepared_plan_v1'',
     b_marker = VOID_NATIVE_VALUE_TRANSFER_BLOCK_EXECUTOR_V1, b_version = 1,
     b_block_hash = blockHash, b_block_number = int_str blockNumber,
     b_transaction_count = int (length (bs_transactionPlans s)),
     b_parent_state_version = sn_state_version snapshot,
     b_parent_snapshot_fingerprint_sha256 = sn_fingerprint_sha256 snapshot,
     b_final_state_version = bs_projectedStateVersion s,
     b_final_accounts_fingerprint_sha256 =
       projectedAccountsFingerprint H (bs_projectedStateVersion s)
         (sort_key r_address (map snd (bs_projected s))),
     b_ordered_transaction_hashes = bs_orderedTransactionHashes s,
     b_transaction_plans = bs_transactionPlans s,
     b_aggregate_account_changes = changes,
     b_total_value_wei = int_str (bs_totalValue s),
     b_total_fee_debit_wei = int_str (bs_totalFeeDebit s),
     b_total_fee_credit_wei = int_str (bs_totalFeeCredit s),
     b_total_fee_burned_wei = int_str (bs_totalFeeBurned s),
     b_block_idempotency_key_sha256 = blockIdempotencyKey H blockHash (int_str blockNumber),
     b_block_binding_sha256 = '''' \<rparr>"

definition buildBlockPlan ::
  "(string \<Rightarrow> string) \<Rightarrow> string \<Rightarrow> int \<Rightarrow> account_snapshot \<Rightarrow> block_state \<Rightarrow> account_change list \<Rightarrow> block_plan" where
  "buildBlockPlan H blockHash blockNumber snapshot s changes =
     (let withoutBinding = blockPlanWithoutBinding H blockHash blockNumber snapshot s changes
      in withoutBinding \<lparr> b_block_binding_sha256 := sha256 H (blockPlanBindingMaterial withoutBinding) \<rparr>)"

definition prepareVoidNativeValueTransferBlockExecutionV1 ::
  "(string \<Rightarrow> string) \<Rightarrow> ethers \<Rightarrow> string \<Rightarrow> js_uint \<Rightarrow> account_snapshot \<Rightarrow> block_policy \<Rightarrow> block_transaction list \<Rightarrow>
   held_decision + block_plan" where
  "prepareVoidNativeValueTransferBlockExecutionV1 H E block_hash block_number snapshot0 policy0 transactions =
     (let blockHash = js_lower block_hash in
     if \<not> TRANSACTION_HASH blockHash then Inl (block_held ''block_hash_invalid'' JUndef) else
     bnd (block_caught (parseUint block_number ''block_number'')) (\<lambda>blockNumber.
     bnd (block_caught (validateSnapshot H snapshot0)) (\<lambda>snapshot.
     bnd (block_caught (normalizeBlockPolicy policy0)) (\<lambda>policy.
     if transactions = [] \<or> int (length transactions) > nb_max_transactions_per_block policy
     then Inl (block_held ''block_transaction_count_invalid'' JUndef) else
     bnd (foldM (blockStep H E policy blockHash blockNumber) (initialBlockState snapshot)
            (zip (map int [0..<length transactions]) transactions)) (\<lambda>s.
     bnd (mapM (aggregateChange (initialProjected snapshot) (bs_projected s))
            (sort (map fst (bs_projected s)))) (\<lambda>changes.
     if concat changes = [] then Inl (block_held ''block_aggregate_changes_empty'' JUndef)
     else Inr (buildBlockPlan H blockHash blockNumber snapshot s (concat changes))))))))"

section \<open>Apply\<close>

record block_request =
  br_confirmation :: string
  br_block_idempotency_key_sha256 :: string
  br_block_hash :: string
  br_block_number :: string
  br_transaction_count :: int
  br_parent_state_version :: string
  br_parent_snapshot_fingerprint_sha256 :: string
  br_final_state_version :: string
  br_final_accounts_fingerprint_sha256 :: string
  br_ordered_transaction_hashes :: "string list"
  br_transaction_plan_bindings_sha256 :: "string list"
  br_aggregate_account_changes :: "account_change list"
  br_total_fee_burned_wei :: string
  br_block_binding_sha256 :: string

datatype block_store_result =
    BlockStoreThrows string
  | BlockNotApplied "string option" "string option" "bool option"
  | BlockApplied (ba_commit_id: string) (ba_block_hash: string) (ba_block_number: string)
      (ba_state_version: string) (ba_transaction_count: int)

datatype block_apply_decision =
    BlockHeld held_decision
  | BlockReady (by_block_hash: string) (by_block_number: string) (by_transaction_count: int)
      (by_final_state_version: string) (by_block_idempotency_key_sha256: string) (by_commit_id: string)

definition blockRequest :: "block_plan \<Rightarrow> block_request" where
  "blockRequest plan = \<lparr>
     br_confirmation = VOID_NATIVE_VALUE_TRANSFER_BLOCK_CONFIRMATION_V1,
     br_block_idempotency_key_sha256 = b_block_idempotency_key_sha256 plan,
     br_block_hash = b_block_hash plan, br_block_number = b_block_number plan,
     br_transaction_count = b_transaction_count plan,
     br_parent_state_version = b_parent_state_version plan,
     br_parent_snapshot_fingerprint_sha256 = b_parent_snapshot_fingerprint_sha256 plan,
     br_final_state_version = b_final_state_version plan,
     br_final_accounts_fingerprint_sha256 = b_final_accounts_fingerprint_sha256 plan,
     br_ordered_transaction_hashes = b_ordered_transaction_hashes plan,
     br_transaction_plan_bindings_sha256 = map p_plan_binding_sha256 (b_transaction_plans plan),
     br_aggregate_account_changes = b_aggregate_account_changes plan,
     br_total_fee_burned_wei = b_total_fee_burned_wei plan,
     br_block_binding_sha256 = b_block_binding_sha256 plan \<rparr>"

definition blockStoreOutcome :: "block_plan \<Rightarrow> block_store_result \<Rightarrow> block_apply_decision" where
  "blockStoreOutcome plan result =
     (case result of
       BlockStoreThrows c \<Rightarrow> BlockHeld (block_held_with ''native_value_transfer_block_store_error'' False True
                          (JObj [(''error_class'', JStr c)]))
     | BlockNotApplied reason existing submitted \<Rightarrow>
         BlockHeld (block_held_with (orElse reason ''native_value_transfer_block_not_applied'') False
           (case submitted of None \<Rightarrow> False | Some b \<Rightarrow> b)
           (JObj [(''existing_block_hash'', case existing of None \<Rightarrow> JNull | Some s \<Rightarrow> JStr s)]))
     | BlockApplied commit_id block_hash block_number state_version transaction_count \<Rightarrow>
         (let commitId = js_trim commit_id; stateVersion = js_trim state_version; blockHash = js_lower block_hash in
          if \<not> SAFE_ID commitId \<or> stateVersion \<noteq> b_final_state_version plan
            \<or> blockHash \<noteq> b_block_hash plan \<or> block_number \<noteq> b_block_number plan
            \<or> transaction_count \<noteq> b_transaction_count plan
          then BlockHeld (block_held_with ''native_value_transfer_block_store_receipt_invalid'' False True JUndef)
          else BlockReady blockHash block_number transaction_count stateVersion
                 (b_block_idempotency_key_sha256 plan) commitId))"

definition applyVoidNativeValueTransferBlockExecutionV1 ::
  "(string \<Rightarrow> string) \<Rightarrow> block_plan \<Rightarrow> string \<Rightarrow> (block_request \<Rightarrow> block_store_result) option \<Rightarrow>
   block_apply_decision \<times> block_request list" where
  "applyVoidNativeValueTransferBlockExecutionV1 H plan confirmation store =
     (if confirmation \<noteq> VOID_NATIVE_VALUE_TRANSFER_BLOCK_CONFIRMATION_V1
      then (BlockHeld (block_held ''exact_block_confirmation_required'' JUndef), [])
      else case store of
        None \<Rightarrow> (BlockHeld (block_held ''native_value_transfer_block_store_not_configured'' JUndef), [])
      | Some apply_native_value_transfer_block_once \<Rightarrow>
          (case validateBlockPlan H plan of
            Some planFailure \<Rightarrow> (BlockHeld (block_held planFailure JUndef), [])
          | None \<Rightarrow>
              (let request = blockRequest plan
               in (blockStoreOutcome plan (apply_native_value_transfer_block_once request), [request]))))"

end
