(* ===== verification/Native_Store.thy ===== *)
theory Native_Store
  imports Native_Block Saga_Store
begin

text \<open>
  The durable account store of the native chain, \<^verbatim>\<open>src/chain/native_account_state_store_v1.ts\<close>: a
  directory with a snapshot of all accounts, a journal of commits, an intent that announces a
  commit, and a lock. A commit writes the intent, replaces the snapshot, appends to the journal and
  removes the intent; recovery finishes or undoes a commit that was interrupted.

  \<^item> A file holds the value whose JSON text was written to it, which is what reading it gives back;
    its size is the length of that text. Fields with a literal type are left out of the records,
    and so are the checks of them, except for those of the snapshot.
  \<^item> Every step that changes a file is an \<open>fs_op\<close>. An argument \<open>io\<close> says what happens to each step in
    turn: it succeeds, it throws before or after it took effect, the process dies before it, or an
    append to the journal is torn: when it throws or dies, some of the line but not all of it is on
    disk, from its first byte alone to everything but the newline. The other files are written
    completely or not at all. All but the lock are written to a temporary file first; a lock file of
    which only a part was written, which \<^verbatim>\<open>readLock\<close> cannot parse, is not represented. Neither are
    temporary files. What a step has written is durable: the machine does not lose power.
  \<^item> The operations of two processes are not interleaved. In the code the test for an intent comes
    before the lock is taken and is not repeated under it (\<open>applyProtocol\<close>); that the files do not
    change between the two is an assumption here.
  \<^item> One commit reads the clock once, for the lock and for the intent.
  \<^item> Paths are fixed; the root directory exists.
\<close>

section \<open>Data\<close>

definition VOID_NATIVE_ACCOUNT_STATE_STORE_V1 :: string where
  "VOID_NATIVE_ACCOUNT_STATE_STORE_V1 = ''VOID_NATIVE_ACCOUNT_STATE_STORE_V1''"

definition INITIALIZE_CONFIRMATION :: string where
  "INITIALIZE_CONFIRMATION = ''initializeNativeAccountStateStoreV1''"

definition RECOVER_CONFIRMATION :: string where
  "RECOVER_CONFIRMATION = ''recoverNativeAccountStateStoreV1''"

record store_policy =
  sp_max_accounts :: js_uint
  sp_max_applied_transactions :: js_uint
  sp_max_snapshot_bytes :: js_uint
  sp_max_journal_bytes :: js_uint
  sp_stale_lock_min_age_ms :: js_uint

record normalized_store_policy =
  ns_max_accounts :: int
  ns_max_applied_transactions :: int
  ns_max_snapshot_bytes :: int
  ns_max_journal_bytes :: int
  ns_stale_lock_min_age_ms :: int

record lock_record =
  lk_pid :: int
  lk_created_at_ms :: int

record transaction_journal_entry =
  tj_commit_id :: string
  tj_idempotency_key_sha256 :: string
  tj_transaction_hash :: string
  tj_prior_state_version :: string
  tj_state_version :: string
  tj_prestate_fingerprint_sha256 :: string
  tj_poststate_fingerprint_sha256 :: string
  tj_plan_binding_sha256 :: string
  tj_fee_burned_wei :: string
  tj_account_changes :: "account_change list"
  tj_snapshot_fingerprint_sha256 :: string

record block_journal_entry =
  bj_commit_id :: string
  bj_block_idempotency_key_sha256 :: string
  bj_block_hash :: string
  bj_block_number :: string
  bj_transaction_count :: int
  bj_prior_state_version :: string
  bj_state_version :: string
  bj_parent_snapshot_fingerprint_sha256 :: string
  bj_final_accounts_fingerprint_sha256 :: string
  bj_ordered_transaction_hashes :: "string list"
  bj_transaction_plan_bindings_sha256 :: "string list"
  bj_aggregate_account_changes :: "account_change list"
  bj_total_fee_burned_wei :: string
  bj_block_binding_sha256 :: string
  bj_snapshot_fingerprint_sha256 :: string

datatype journal_entry = TransactionEntry transaction_journal_entry | BlockEntry block_journal_entry

fun entry_commit_id :: "journal_entry \<Rightarrow> string" where
  "entry_commit_id (TransactionEntry e) = tj_commit_id e"
| "entry_commit_id (BlockEntry e) = bj_commit_id e"

record intent_record =
  it_created_at_ms :: int
  it_pre_snapshot_fingerprint_sha256 :: string
  it_post_snapshot_fingerprint_sha256 :: string
  it_post_snapshot :: account_snapshot
  it_journal_entry :: journal_entry

record store_files =
  sf_snapshot :: "account_snapshot option"
  sf_snapshot_next :: "account_snapshot option"
  sf_intent :: "intent_record option"
  sf_journal :: "journal_entry list option"
  sf_torn :: int
  sf_unterminated :: bool
  sf_lock :: "lock_record option"

text \<open>
  \<open>sf_torn\<close> is the number of bytes at the end of the journal that are no entry: the part of a torn
  line and whatever was appended to it later. \<open>sf_unterminated\<close> says that the last entry is complete
  but its newline is missing; such a line is read as an entry.
\<close>

section \<open>Texts\<close>

definition snapshot_json :: "account_snapshot \<Rightarrow> jsv" where
  "snapshot_json s =
     (case snapshotFingerprintMaterial s of
       JObj kvs \<Rightarrow> JObj (kvs @ [(''snapshot_fingerprint_sha256'', JStr (sn_fingerprint_sha256 s))])
     | v \<Rightarrow> v)"

fun entry_json :: "journal_entry \<Rightarrow> jsv" where
  "entry_json (TransactionEntry e) = JObj [
     (''schema'', JStr ''void_native_account_state_store_journal_entry_v1''),
     (''marker'', JStr VOID_NATIVE_ACCOUNT_STATE_STORE_V1), (''version'', JNum 1),
     (''commit_id'', JStr (tj_commit_id e)),
     (''idempotency_key_sha256'', JStr (tj_idempotency_key_sha256 e)),
     (''transaction_hash'', JStr (tj_transaction_hash e)),
     (''prior_state_version'', JStr (tj_prior_state_version e)),
     (''state_version'', JStr (tj_state_version e)),
     (''prestate_fingerprint_sha256'', JStr (tj_prestate_fingerprint_sha256 e)),
     (''poststate_fingerprint_sha256'', JStr (tj_poststate_fingerprint_sha256 e)),
     (''plan_binding_sha256'', JStr (tj_plan_binding_sha256 e)),
     (''fee_burned_wei'', JStr (tj_fee_burned_wei e)),
     (''account_changes'', JArr (map change_json (tj_account_changes e))),
     (''snapshot_fingerprint_sha256'', JStr (tj_snapshot_fingerprint_sha256 e)),
     (''raw_signed_transaction_included'', JBool False)]"
| "entry_json (BlockEntry e) = JObj [
     (''schema'', JStr ''void_native_account_state_store_block_journal_entry_v1''),
     (''marker'', JStr VOID_NATIVE_ACCOUNT_STATE_STORE_V1), (''version'', JNum 1),
     (''commit_id'', JStr (bj_commit_id e)),
     (''block_idempotency_key_sha256'', JStr (bj_block_idempotency_key_sha256 e)),
     (''block_hash'', JStr (bj_block_hash e)), (''block_number'', JStr (bj_block_number e)),
     (''transaction_count'', JNum (bj_transaction_count e)),
     (''prior_state_version'', JStr (bj_prior_state_version e)),
     (''state_version'', JStr (bj_state_version e)),
     (''parent_snapshot_fingerprint_sha256'', JStr (bj_parent_snapshot_fingerprint_sha256 e)),
     (''final_accounts_fingerprint_sha256'', JStr (bj_final_accounts_fingerprint_sha256 e)),
     (''ordered_transaction_hashes'', JArr (map JStr (bj_ordered_transaction_hashes e))),
     (''transaction_plan_bindings_sha256'', JArr (map JStr (bj_transaction_plan_bindings_sha256 e))),
     (''aggregate_account_changes'', JArr (map change_json (bj_aggregate_account_changes e))),
     (''total_fee_burned_wei'', JStr (bj_total_fee_burned_wei e)),
     (''block_binding_sha256'', JStr (bj_block_binding_sha256 e)),
     (''snapshot_fingerprint_sha256'', JStr (bj_snapshot_fingerprint_sha256 e)),
     (''raw_signed_transactions_included'', JBool False)]"

definition intent_json :: "intent_record \<Rightarrow> jsv" where
  "intent_json i = JObj [
     (''schema'', JStr ''void_native_account_state_store_intent_v1''),
     (''marker'', JStr VOID_NATIVE_ACCOUNT_STATE_STORE_V1), (''version'', JNum 1),
     (''created_at_ms'', JNum (it_created_at_ms i)),
     (''pre_snapshot_fingerprint_sha256'', JStr (it_pre_snapshot_fingerprint_sha256 i)),
     (''post_snapshot_fingerprint_sha256'', JStr (it_post_snapshot_fingerprint_sha256 i)),
     (''post_snapshot'', snapshot_json (it_post_snapshot i)),
     (''journal_entry'', entry_json (it_journal_entry i)),
     (''raw_signed_transaction_included'', JBool False)]"

text \<open>The sizes of a JSON file with indentation and of a journal with one line per entry.\<close>

definition json_bytes :: "jsv \<Rightarrow> int" where
  "json_bytes v = int (length (utf8_bytes (pretty 0 v @ [CHR 0x0A])))"

definition line_bytes :: "journal_entry \<Rightarrow> int" where
  "line_bytes e = int (length (utf8_bytes (stringify (entry_json e) @ [CHR 0x0A])))"

definition entries_of :: "store_files \<Rightarrow> journal_entry list" where
  "entries_of f = (case sf_journal f of None \<Rightarrow> [] | Some es \<Rightarrow> es)"

definition journal_bytes :: "store_files \<Rightarrow> int" where
  "journal_bytes f =
     sum_list (map line_bytes (entries_of f)) + sf_torn f - (if sf_unterminated f then 1 else 0)"

section \<open>Policy and snapshots\<close>

definition normalizeStorePolicy :: "store_policy \<Rightarrow> normalized_store_policy res" where
  "normalizeStorePolicy policy =
     bnd (parseBoundedNumberFrom (sp_max_accounts policy) ''max_accounts'' 1 1000000) (\<lambda>ma.
     bnd (parseBoundedNumberFrom (sp_max_applied_transactions policy) ''max_applied_transactions'' 1 10000000) (\<lambda>mt.
     bnd (parseBoundedNumberFrom (sp_max_snapshot_bytes policy) ''max_snapshot_bytes'' 1024 1073741824) (\<lambda>ms.
     bnd (parseBoundedNumberFrom (sp_max_journal_bytes policy) ''max_journal_bytes'' 1024 4294967296) (\<lambda>mj.
     bnd (parseBoundedNumberFrom (sp_stale_lock_min_age_ms policy) ''stale_lock_min_age_ms'' 1000 604800000) (\<lambda>ml.
     Inr \<lparr> ns_max_accounts = ma, ns_max_applied_transactions = mt, ns_max_snapshot_bytes = ms,
            ns_max_journal_bytes = mj, ns_stale_lock_min_age_ms = ml \<rparr>)))))"

definition normalizeAccount :: "ethers \<Rightarrow> string \<Rightarrow> js_uint \<Rightarrow> js_uint \<Rightarrow> account_row res" where
  "normalizeAccount E address balance nonce =
     bnd (normalizeAddress E address ''account_address'') (\<lambda>a.
     bnd (parseUint balance ''account_balance_wei'') (\<lambda>b.
     bnd (parseUint nonce ''account_nonce'') (\<lambda>n.
     Inr \<lparr> r_address = a, r_balance_wei = int_str b, r_nonce = int_str n \<rparr>)))"

definition withFingerprint :: "(string \<Rightarrow> string) \<Rightarrow> account_snapshot \<Rightarrow> account_snapshot" where
  "withFingerprint H s = s \<lparr> sn_fingerprint_sha256 := sha256 H (snapshotFingerprintMaterial s) \<rparr>"

definition createSnapshot ::
  "(string \<Rightarrow> string) \<Rightarrow> string \<Rightarrow> account_row list \<Rightarrow> applied_row list \<Rightarrow> string option \<Rightarrow> account_snapshot" where
  "createSnapshot H state_version accounts applied last_commit_id =
     withFingerprint H \<lparr> sn_schema = ''void_native_account_state_snapshot_v1'',
       sn_marker = VOID_NATIVE_ACCOUNT_STATE_STORE_V1, sn_version = 1, sn_state_version = state_version,
       sn_accounts = sort_key r_address accounts, sn_applied_transactions = applied,
       sn_last_commit_id = last_commit_id, sn_fingerprint_sha256 = '''' \<rparr>"

definition validateAppliedStep :: "applied_row list \<Rightarrow> applied_row \<Rightarrow> applied_row list res" where
  "validateAppliedStep normalizedApplied item =
     (let idempotency = js_lower (ar_idempotency_key_sha256 item);
          transactionHash = js_lower (ar_transaction_hash item) in
      if \<not> SHA256 idempotency \<or> \<not> TRANSACTION_HASH transactionHash \<or> \<not> SAFE_ID (ar_commit_id item)
        \<or> \<not> SAFE_ID (ar_state_version item)
      then Inl ''snapshot_applied_entry_invalid''
      else if idempotency \<in> ar_idempotency_key_sha256 ` set normalizedApplied
      then Inl ''snapshot_duplicate_idempotency''
      else Inr (normalizedApplied @ [\<lparr> ar_idempotency_key_sha256 = idempotency,
             ar_transaction_hash = transactionHash, ar_commit_id = ar_commit_id item,
             ar_state_version = ar_state_version item \<rparr>]))"

definition normalizeAccountStep :: "ethers \<Rightarrow> account_row list \<Rightarrow> account_row \<Rightarrow> account_row list res" where
  "normalizeAccountStep E normalizedAccounts acc =
     bnd (normalizeAccount E (r_address acc) (UStr (r_balance_wei acc)) (UStr (r_nonce acc))) (\<lambda>normalized.
     if r_address normalized \<in> r_address ` set normalizedAccounts then Inl ''snapshot_duplicate_account''
     else Inr (normalizedAccounts @ [normalized]))"

definition validateStoreSnapshot ::
  "(string \<Rightarrow> string) \<Rightarrow> ethers \<Rightarrow> normalized_store_policy \<Rightarrow> account_snapshot \<Rightarrow> account_snapshot res" where
  "validateStoreSnapshot H E policy snapshot =
     (if sn_schema snapshot \<noteq> ''void_native_account_state_snapshot_v1''
        \<or> sn_marker snapshot \<noteq> VOID_NATIVE_ACCOUNT_STATE_STORE_V1 \<or> sn_version snapshot \<noteq> 1
        \<or> \<not> SAFE_ID (sn_state_version snapshot) \<or> \<not> SHA256 (sn_fingerprint_sha256 snapshot)
      then Inl ''snapshot_identity_invalid''
      else if sn_accounts snapshot = [] \<or> int (length (sn_accounts snapshot)) > ns_max_accounts policy
      then Inl ''snapshot_account_count_invalid''
      else if int (length (sn_applied_transactions snapshot)) > ns_max_applied_transactions policy
      then Inl ''snapshot_applied_count_invalid''
      else bnd (foldM (normalizeAccountStep E) [] (sn_accounts snapshot)) (\<lambda>normalizedAccounts.
      let sortedAccounts = sort_key r_address normalizedAccounts in
      if sortedAccounts \<noteq> normalizedAccounts then Inl ''snapshot_accounts_not_sorted''
      else bnd (foldM validateAppliedStep [] (sn_applied_transactions snapshot)) (\<lambda>normalizedApplied.
      let normalized = createSnapshot H (sn_state_version snapshot) sortedAccounts normalizedApplied
            (sn_last_commit_id snapshot) in
      if sn_fingerprint_sha256 normalized \<noteq> sn_fingerprint_sha256 snapshot
      then Inl ''snapshot_fingerprint_mismatch'' else Inr normalized)))"

section \<open>Reading files\<close>

definition readSnapshot ::
  "(string \<Rightarrow> string) \<Rightarrow> ethers \<Rightarrow> normalized_store_policy \<Rightarrow> store_files \<Rightarrow> account_snapshot res" where
  "readSnapshot H E policy files =
     (case sf_snapshot files of
       None \<Rightarrow> Inl ''native_account_store_not_initialized''
     | Some s \<Rightarrow>
         if json_bytes (snapshot_json s) > ns_max_snapshot_bytes policy then Inl ''file_size_limit_exceeded''
         else validateStoreSnapshot H E policy s)"

fun validateJournalEntry :: "journal_entry \<Rightarrow> journal_entry res" where
  "validateJournalEntry (TransactionEntry e) =
     (if \<not> SAFE_ID (tj_commit_id e) then Inl ''journal_entry_invalid''
      else if \<not> SHA256 (tj_idempotency_key_sha256 e) \<or> \<not> TRANSACTION_HASH (tj_transaction_hash e)
        \<or> \<not> SAFE_ID (tj_prior_state_version e) \<or> \<not> SAFE_ID (tj_state_version e)
        \<or> \<not> SHA256 (tj_prestate_fingerprint_sha256 e) \<or> \<not> SHA256 (tj_poststate_fingerprint_sha256 e)
        \<or> \<not> SHA256 (tj_plan_binding_sha256 e) \<or> \<not> SHA256 (tj_snapshot_fingerprint_sha256 e)
      then Inl ''transaction_journal_entry_invalid'' else Inr (TransactionEntry e))"
| "validateJournalEntry (BlockEntry e) =
     (if \<not> SAFE_ID (bj_commit_id e) then Inl ''journal_entry_invalid''
      else if \<not> SHA256 (bj_block_idempotency_key_sha256 e) \<or> \<not> TRANSACTION_HASH (bj_block_hash e)
        \<or> \<not> is_decimal (bj_block_number e) \<or> \<not> isSafeInteger (JNum (bj_transaction_count e))
        \<or> bj_transaction_count e \<le> 0
        \<or> \<not> SAFE_ID (bj_prior_state_version e) \<or> \<not> SAFE_ID (bj_state_version e)
        \<or> \<not> SHA256 (bj_parent_snapshot_fingerprint_sha256 e) \<or> \<not> SHA256 (bj_final_accounts_fingerprint_sha256 e)
        \<or> int (length (bj_ordered_transaction_hashes e)) \<noteq> bj_transaction_count e
        \<or> list_ex (\<lambda>h. \<not> TRANSACTION_HASH h) (bj_ordered_transaction_hashes e)
        \<or> int (length (bj_transaction_plan_bindings_sha256 e)) \<noteq> bj_transaction_count e
        \<or> list_ex (\<lambda>b. \<not> SHA256 b) (bj_transaction_plan_bindings_sha256 e)
        \<or> bj_aggregate_account_changes e = []
        \<or> \<not> SHA256 (bj_block_binding_sha256 e) \<or> \<not> SHA256 (bj_snapshot_fingerprint_sha256 e)
      then Inl ''block_journal_entry_invalid''
      else bnd (parseUint (UStr (bj_total_fee_burned_wei e)) ''block_journal_total_fee_burned_wei'')
        (\<lambda>_. Inr (BlockEntry e)))"

definition readJournal :: "normalized_store_policy \<Rightarrow> store_files \<Rightarrow> journal_entry list res" where
  "readJournal policy files =
     (case sf_journal files of
       None \<Rightarrow> Inr []
     | Some es \<Rightarrow>
         if journal_bytes files > ns_max_journal_bytes policy then Inl ''journal_size_limit_exceeded''
         else bnd (mapM validateJournalEntry es) (\<lambda>entries.
         if sf_torn files > 0 then Inl ''SyntaxError'' else Inr entries))"

definition validateIntent ::
  "(string \<Rightarrow> string) \<Rightarrow> ethers \<Rightarrow> normalized_store_policy \<Rightarrow> intent_record \<Rightarrow> intent_record res" where
  "validateIntent H E policy intent =
     (if \<not> isSafeInteger (JNum (it_created_at_ms intent)) \<or> it_created_at_ms intent \<le> 0
        \<or> \<not> SHA256 (it_pre_snapshot_fingerprint_sha256 intent)
        \<or> \<not> SHA256 (it_post_snapshot_fingerprint_sha256 intent)
      then Inl ''intent_identity_invalid'' else
      bnd (validateStoreSnapshot H E policy (it_post_snapshot intent)) (\<lambda>postSnapshot.
      bnd (validateJournalEntry (it_journal_entry intent)) (\<lambda>journalEntry.
      if sn_fingerprint_sha256 postSnapshot \<noteq> it_post_snapshot_fingerprint_sha256 intent
      then Inl ''intent_post_snapshot_fingerprint_mismatch''
      else Inr (intent \<lparr> it_post_snapshot := postSnapshot, it_journal_entry := journalEntry \<rparr>))))"

definition journalHasCommit :: "journal_entry list \<Rightarrow> string \<Rightarrow> bool" where
  "journalHasCommit entries commitId = list_ex (\<lambda>e. entry_commit_id e = commitId) entries"

text \<open>\<^verbatim>\<open>process.kill(pid, 0)\<close> returns or throws an error with a code.\<close>

datatype kill_outcome = KillOk | KillError string

definition isProcessAlive :: "(int \<Rightarrow> kill_outcome) \<Rightarrow> int \<Rightarrow> bool res" where
  "isProcessAlive kill pid =
     (if \<not> isSafeInteger (JNum pid) \<or> pid \<le> 0 then Inr False
      else case kill pid of
        KillOk \<Rightarrow> Inr True
      | KillError code \<Rightarrow>
          if code = ''EPERM'' then Inr True else if code = ''ESRCH'' then Inr False else Inl (''kill '' @ code))"

definition readLock :: "lock_record \<Rightarrow> lock_record res" where
  "readLock l =
     (if \<not> isSafeInteger (JNum (lk_pid l)) \<or> lk_pid l \<le> 0
        \<or> \<not> isSafeInteger (JNum (lk_created_at_ms l)) \<or> lk_created_at_ms l \<le> 0
      then Inl ''lock_record_invalid'' else Inr l)"

section \<open>Steps on the files\<close>

datatype fs_op =
    PutLock lock_record
  | DropLock
  | PutSnapshot account_snapshot
  | PutIntent intent_record
  | DropIntent
  | PutNext account_snapshot
  | DropNext
  | RenameNext
  | AppendEntry journal_entry

text \<open>
  The file is opened for appending and the text goes to its very end. On a last line without a
  newline it therefore continues that line, which is then two JSON texts in one and no entry any
  more.
\<close>

definition glue :: "store_files \<Rightarrow> store_files" where
  "glue f =
     (if sf_unterminated f
      then f \<lparr> sf_journal := Some (butlast (entries_of f)), sf_torn := line_bytes (last (entries_of f)) - 1,
               sf_unterminated := False \<rparr>
      else f)"

fun exec_fs :: "fs_op \<Rightarrow> store_files \<Rightarrow> store_files" where
  "exec_fs (PutLock l) f = f \<lparr> sf_lock := Some l \<rparr>"
| "exec_fs DropLock f = f \<lparr> sf_lock := None \<rparr>"
| "exec_fs (PutSnapshot s) f = f \<lparr> sf_snapshot := Some s \<rparr>"
| "exec_fs (PutIntent i) f = f \<lparr> sf_intent := Some i \<rparr>"
| "exec_fs DropIntent f = f \<lparr> sf_intent := None \<rparr>"
| "exec_fs (PutNext s) f = f \<lparr> sf_snapshot_next := Some s \<rparr>"
| "exec_fs DropNext f = f \<lparr> sf_snapshot_next := None \<rparr>"
| "exec_fs RenameNext f = f \<lparr> sf_snapshot := sf_snapshot_next f, sf_snapshot_next := None \<rparr>"
| "exec_fs (AppendEntry e) f =
     (let g = glue f in
      if sf_torn g > 0 then g \<lparr> sf_torn := sf_torn g + line_bytes e \<rparr>
      else g \<lparr> sf_journal := Some (entries_of g @ [e]) \<rparr>)"

text \<open>
  A torn append writes the first \<open>n\<close> bytes of its line, where \<open>n\<close> is at least 1 and less than the length
  of the line. If just the newline is missing, the line is an entry, unless it continues a torn line.
\<close>

fun tear_fs :: "nat \<Rightarrow> fs_op \<Rightarrow> store_files \<Rightarrow> store_files" where
  "tear_fs k (AppendEntry e) f =
     (let g = glue f; n = 1 + int k mod (line_bytes e - 1) in
      if n = line_bytes e - 1 \<and> \<not> sf_torn g > 0
      then g \<lparr> sf_journal := Some (entries_of g @ [e]), sf_unterminated := True \<rparr>
      else g \<lparr> sf_journal := Some (entries_of g), sf_torn := sf_torn g + n \<rparr>)"
| "tear_fs k op f = f"

text \<open>
  The cases in which a step throws by itself, without effect: the lock file exists, the file to
  move or remove does not, or the text is longer than the policy allows.
\<close>

fun refused :: "normalized_store_policy \<Rightarrow> store_files \<Rightarrow> fs_op \<Rightarrow> bool" where
  "refused policy f (PutLock l) = (sf_lock f \<noteq> None)"
| "refused policy f DropLock = (sf_lock f = None)"
| "refused policy f (PutSnapshot s) = (json_bytes (snapshot_json s) > ns_max_snapshot_bytes policy)"
| "refused policy f (PutIntent i) = (json_bytes (intent_json i) > ns_max_snapshot_bytes policy)"
| "refused policy f DropIntent = (sf_intent f = None)"
| "refused policy f (PutNext s) = (json_bytes (snapshot_json s) > ns_max_snapshot_bytes policy)"
| "refused policy f DropNext = (sf_snapshot_next f = None)"
| "refused policy f RenameNext = (sf_snapshot_next f = None)"
| "refused policy f (AppendEntry e) = (journal_bytes f + line_bytes e > ns_max_journal_bytes policy)"

datatype io_event = IoOk | IoFails | IoFailsAfter | IoCrash | IoTears nat | IoDiesTearing nat

datatype run_end = RunDone | RunThrew string | RunCrashed

text \<open>The message of a step that throws by itself; of all other failures it is \<open>''Error''\<close>.\<close>

fun refusal_message :: "fs_op \<Rightarrow> string" where
  "refusal_message (PutSnapshot s) = ''snapshot_size_limit_exceeded''"
| "refusal_message (PutIntent i) = ''snapshot_size_limit_exceeded''"
| "refusal_message (PutNext s) = ''snapshot_size_limit_exceeded''"
| "refusal_message (AppendEntry e) = ''journal_size_limit_exceeded''"
| "refusal_message op = ''Error''"

text \<open>A sequence of steps from step number \<open>n\<close> on: how it ended, the number reached, the files.\<close>

fun run_ops ::
  "normalized_store_policy \<Rightarrow> (nat \<Rightarrow> io_event) \<Rightarrow> nat \<Rightarrow> fs_op list \<Rightarrow> store_files \<Rightarrow> run_end \<times> nat \<times> store_files" where
  "run_ops policy io n [] f = (RunDone, n, f)"
| "run_ops policy io n (op # ops) f =
     (case io n of
       IoCrash \<Rightarrow> (RunCrashed, n, f)
     | IoFails \<Rightarrow> (RunThrew ''Error'', n, f)
     | IoFailsAfter \<Rightarrow> (RunThrew ''Error'', n, if refused policy f op then f else exec_fs op f)
     | IoTears k \<Rightarrow> (RunThrew ''Error'', n, if refused policy f op then f else tear_fs k op f)
     | IoDiesTearing k \<Rightarrow> (RunCrashed, n, if refused policy f op then f else tear_fs k op f)
     | IoOk \<Rightarrow> if refused policy f op then (RunThrew (refusal_message op), n, f)
         else run_ops policy io (n + 1) ops (exec_fs op f))"

text \<open>\<^verbatim>\<open>finally\<close>: the lock is released, then the result is returned, unless that throws.\<close>

definition release ::
  "normalized_store_policy \<Rightarrow> (nat \<Rightarrow> io_event) \<Rightarrow> nat \<Rightarrow> 'r \<Rightarrow> 'r \<Rightarrow> store_files \<Rightarrow> store_files \<times> 'r option" where
  "release policy io n thrown result f =
     (case run_ops policy io n (if sf_lock f = None then [] else [DropLock]) f of
       (RunDone, _, f') \<Rightarrow> (f', Some result)
     | (RunThrew _, _, f') \<Rightarrow> (f', Some thrown)
     | (RunCrashed, _, f') \<Rightarrow> (f', None))"

section \<open>Committing a transaction\<close>

text \<open>\<^verbatim>\<open>parseUint(x, label).toString()\<close>\<close>

definition uintText :: "string \<Rightarrow> string \<Rightarrow> string res" where
  "uintText s label = bnd (parseUint (UStr s) label) (\<lambda>n. Inr (int_str n))"

definition prestateFingerprint ::
  "(string \<Rightarrow> string) \<Rightarrow> ethers \<Rightarrow> string \<Rightarrow> account_change list \<Rightarrow> bool \<Rightarrow> string res" where
  "prestateFingerprint H E stateVersion changes before =
     bnd (mapM (\<lambda>item.
       bnd (normalizeAddress E (ac_address item) ''change_address'') (\<lambda>address.
       bnd (if before then uintText (ac_balance_before_wei item) ''change_balance_before_wei''
            else uintText (ac_balance_after_wei item) ''change_balance_after_wei'') (\<lambda>balance.
       bnd (if before then uintText (ac_nonce_before item) ''change_nonce_before''
            else uintText (ac_nonce_after item) ''change_nonce_after'') (\<lambda>nonce.
       Inr \<lparr> r_address = address, r_balance_wei = balance, r_nonce = nonce \<rparr>)))) changes) (\<lambda>rows.
     Inr (sha256 H (JObj [(''state_version'', JStr stateVersion),
       (''accounts'', JArr (map row_json (sort_key r_address rows)))])))"

record change_sums =
  cs_changes :: "account_change list"
  cs_nonceIncrementCount :: int
  cs_beforeTotal :: int
  cs_afterTotal :: int

definition applyRequestStep :: "ethers \<Rightarrow> change_sums \<Rightarrow> account_change \<Rightarrow> change_sums res" where
  "applyRequestStep E s item =
     bnd (normalizeAddress E (ac_address item) ''change_address'') (\<lambda>address.
     if address \<in> ac_address ` set (cs_changes s) then Inl ''store_apply_request_duplicate_address'' else
     bnd (parseUint (UStr (ac_balance_before_wei item)) ''change_balance_before_wei'') (\<lambda>balanceBefore.
     bnd (parseUint (UStr (ac_balance_after_wei item)) ''change_balance_after_wei'') (\<lambda>balanceAfter.
     bnd (parseUint (UStr (ac_nonce_before item)) ''change_nonce_before'') (\<lambda>nonceBefore.
     bnd (parseUint (UStr (ac_nonce_after item)) ''change_nonce_after'') (\<lambda>nonceAfter.
     if nonceAfter \<noteq> nonceBefore + 1 \<and> nonceAfter \<noteq> nonceBefore
     then Inl ''store_apply_request_nonce_delta_invalid''
     else Inr \<lparr> cs_changes = cs_changes s @ [\<lparr> ac_address = address,
              ac_balance_before_wei = int_str balanceBefore, ac_balance_after_wei = int_str balanceAfter,
              ac_nonce_before = int_str nonceBefore, ac_nonce_after = int_str nonceAfter \<rparr>],
            cs_nonceIncrementCount = cs_nonceIncrementCount s + (if nonceAfter = nonceBefore + 1 then 1 else 0),
            cs_beforeTotal = cs_beforeTotal s + balanceBefore,
            cs_afterTotal = cs_afterTotal s + balanceAfter \<rparr>)))))"

text \<open>The validated request; its burned fee stays a number.\<close>

record apply_request =
  aq_idempotency_key_sha256 :: string
  aq_transaction_hash :: string
  aq_state_version :: string
  aq_prestate_fingerprint_sha256 :: string
  aq_poststate_fingerprint_sha256 :: string
  aq_plan_binding_sha256 :: string
  aq_account_changes :: "account_change list"
  aq_fee_burned_wei :: int

definition validateApplyRequest :: "(string \<Rightarrow> string) \<Rightarrow> ethers \<Rightarrow> store_request \<Rightarrow> apply_request res" where
  "validateApplyRequest H E input =
     (let idempotency = js_lower (sr_idempotency_key_sha256 input);
          transactionHash = js_lower (sr_transaction_hash input);
          stateVersion = sr_state_version input;
          prestate = js_lower (sr_prestate_fingerprint_sha256 input);
          poststate = js_lower (sr_poststate_fingerprint_sha256 input);
          planBinding = js_lower (sr_plan_binding_sha256 input) in
     if sr_confirmation input \<noteq> ''applyNativeValueTransferStateTransitionV1''
     then Inl ''store_apply_request_identity_invalid''
     else if \<not> SHA256 idempotency \<or> \<not> TRANSACTION_HASH transactionHash \<or> \<not> SAFE_ID stateVersion
       \<or> \<not> SHA256 prestate \<or> \<not> SHA256 poststate \<or> \<not> SHA256 planBinding
     then Inl ''store_apply_request_fingerprint_invalid''
     else if sr_account_changes input = [] then Inl ''store_apply_request_changes_empty''
     else bnd (foldM (applyRequestStep E)
            \<lparr> cs_changes = [], cs_nonceIncrementCount = 0, cs_beforeTotal = 0, cs_afterTotal = 0 \<rparr>
            (sr_account_changes input)) (\<lambda>sums.
     let normalizedChanges = cs_changes sums; sorted = sort_key ac_address normalizedChanges in
     if sorted \<noteq> normalizedChanges then Inl ''store_apply_request_changes_not_sorted''
     else if cs_nonceIncrementCount sums \<noteq> 1 then Inl ''store_apply_request_sender_nonce_increment_invalid''
     else bnd (parseUint (UStr (sr_fee_burned_wei input)) ''fee_burned_wei'') (\<lambda>feeBurned.
     if cs_beforeTotal sums < cs_afterTotal sums then Inl ''store_apply_request_value_conservation_invalid''
     else if cs_beforeTotal sums - cs_afterTotal sums \<noteq> feeBurned
     then Inl ''store_apply_request_fee_burn_mismatch''
     else bnd (prestateFingerprint H E stateVersion sorted True) (\<lambda>before.
     if before \<noteq> prestate then Inl ''store_apply_request_prepost_fingerprint_mismatch''
     else bnd (prestateFingerprint H E stateVersion sorted False) (\<lambda>after.
     if after \<noteq> poststate then Inl ''store_apply_request_prepost_fingerprint_mismatch''
     else Inr \<lparr> aq_idempotency_key_sha256 = idempotency, aq_transaction_hash = transactionHash,
            aq_state_version = stateVersion, aq_prestate_fingerprint_sha256 = prestate,
            aq_poststate_fingerprint_sha256 = poststate, aq_plan_binding_sha256 = planBinding,
            aq_account_changes = sorted, aq_fee_burned_wei = feeBurned \<rparr>)))))"

text \<open>The accounts by address, and the first change that does not fit them.\<close>

definition account_map :: "account_row list \<Rightarrow> projected" where
  "account_map rows = foldl (\<lambda>m acc. map_put (r_address acc) acc m) [] rows"

fun changeMismatch :: "projected \<Rightarrow> string \<Rightarrow> string \<Rightarrow> account_change list \<Rightarrow> string option" where
  "changeMismatch m missing mismatch [] = None"
| "changeMismatch m missing mismatch (c # cs) =
     (case map_of m (ac_address c) of
       None \<Rightarrow> Some missing
     | Some current \<Rightarrow>
         if r_balance_wei current \<noteq> ac_balance_before_wei c \<or> r_nonce current \<noteq> ac_nonce_before c
         then Some mismatch else changeMismatch m missing mismatch cs)"

definition notApplied :: "string \<Rightarrow> bool \<Rightarrow> store_result" where
  "notApplied reason submitted = NotApplied (Some reason) None (Some submitted)"

definition commitIdOf :: "(string \<Rightarrow> string) \<Rightarrow> string \<Rightarrow> apply_request \<Rightarrow> string" where
  "commitIdOf H prior q = ''c1-'' @ sha256 H (JObj [
     (''prior_state_version'', JStr prior),
     (''idempotency_key_sha256'', JStr (aq_idempotency_key_sha256 q)),
     (''transaction_hash'', JStr (aq_transaction_hash q)),
     (''prestate_fingerprint_sha256'', JStr (aq_prestate_fingerprint_sha256 q)),
     (''poststate_fingerprint_sha256'', JStr (aq_poststate_fingerprint_sha256 q)),
     (''plan_binding_sha256'', JStr (aq_plan_binding_sha256 q))])"

definition nextVersionOf :: "(string \<Rightarrow> string) \<Rightarrow> string \<Rightarrow> string \<Rightarrow> apply_request \<Rightarrow> string" where
  "nextVersionOf H prior commitId q = ''sv1-'' @ sha256 H (JObj [
     (''prior_state_version'', JStr prior), (''commit_id'', JStr commitId),
     (''poststate_fingerprint_sha256'', JStr (aq_poststate_fingerprint_sha256 q))])"

definition postSnapshotOf :: "(string \<Rightarrow> string) \<Rightarrow> account_snapshot \<Rightarrow> apply_request \<Rightarrow> account_snapshot" where
  "postSnapshotOf H snapshot q =
     (let commitId = commitIdOf H (sn_state_version snapshot) q;
          nextStateVersion = nextVersionOf H (sn_state_version snapshot) commitId q in
      createSnapshot H nextStateVersion
        (map snd (applyChanges (account_map (sn_accounts snapshot)) (aq_account_changes q)))
        (sn_applied_transactions snapshot @ [\<lparr>
           ar_idempotency_key_sha256 = aq_idempotency_key_sha256 q, ar_transaction_hash = aq_transaction_hash q,
           ar_commit_id = commitId, ar_state_version = nextStateVersion \<rparr>])
        (Some commitId))"

definition transactionEntryOf ::
  "(string \<Rightarrow> string) \<Rightarrow> account_snapshot \<Rightarrow> apply_request \<Rightarrow> transaction_journal_entry" where
  "transactionEntryOf H snapshot q =
     (let commitId = commitIdOf H (sn_state_version snapshot) q in \<lparr>
        tj_commit_id = commitId, tj_idempotency_key_sha256 = aq_idempotency_key_sha256 q,
        tj_transaction_hash = aq_transaction_hash q, tj_prior_state_version = sn_state_version snapshot,
        tj_state_version = nextVersionOf H (sn_state_version snapshot) commitId q,
        tj_prestate_fingerprint_sha256 = aq_prestate_fingerprint_sha256 q,
        tj_poststate_fingerprint_sha256 = aq_poststate_fingerprint_sha256 q,
        tj_plan_binding_sha256 = aq_plan_binding_sha256 q,
        tj_fee_burned_wei = int_str (aq_fee_burned_wei q), tj_account_changes = aq_account_changes q,
        tj_snapshot_fingerprint_sha256 = sn_fingerprint_sha256 (postSnapshotOf H snapshot q) \<rparr>)"

text \<open>What is to be committed: the snapshot read, the new one and the journal entry.\<close>

record commit_plan =
  cp_pre :: account_snapshot
  cp_post :: account_snapshot
  cp_entry :: journal_entry

text \<open>The decision under the lock: a throw, a refusal, or a commit with the result it returns.\<close>

definition decideApply ::
  "(string \<Rightarrow> string) \<Rightarrow> ethers \<Rightarrow> normalized_store_policy \<Rightarrow> store_request \<Rightarrow> store_files \<Rightarrow>
   (store_result + commit_plan \<times> store_result) res" where
  "decideApply H E policy input files =
     bnd (validateApplyRequest H E input) (\<lambda>q.
     bnd (readSnapshot H E policy files) (\<lambda>snapshot.
     case find (\<lambda>item. ar_idempotency_key_sha256 item = aq_idempotency_key_sha256 q) (sn_applied_transactions snapshot) of
       Some existing \<Rightarrow> Inr (Inl (NotApplied
         (Some (if ar_transaction_hash existing = aq_transaction_hash q
                then ''native_value_transfer_already_applied''
                else ''native_account_store_idempotency_collision''))
         (Some (ar_transaction_hash existing)) (Some False)))
     | None \<Rightarrow>
         if sn_state_version snapshot \<noteq> aq_state_version q
         then Inr (Inl (notApplied ''native_account_store_state_version_mismatch'' False))
         else if int (length (sn_applied_transactions snapshot)) \<ge> ns_max_applied_transactions policy
         then Inr (Inl (notApplied ''native_account_store_applied_capacity_reached'' False))
         else case changeMismatch (account_map (sn_accounts snapshot)) ''native_account_store_account_missing''
                     ''native_account_store_prestate_mismatch'' (aq_account_changes q) of
           Some reason \<Rightarrow> Inr (Inl (notApplied reason False))
         | None \<Rightarrow>
             bnd (prestateFingerprint H E (sn_state_version snapshot) (aq_account_changes q) True) (\<lambda>before.
             if before \<noteq> aq_prestate_fingerprint_sha256 q
             then Inr (Inl (notApplied ''native_account_store_prestate_fingerprint_mismatch'' False))
             else let entry = transactionEntryOf H snapshot q in
               Inr (Inr (\<lparr> cp_pre = snapshot, cp_post = postSnapshotOf H snapshot q, cp_entry = TransactionEntry entry \<rparr>,
                 Applied (tj_commit_id entry) (tj_state_version entry) (aq_transaction_hash q))))))"

text \<open>
  The commit itself: intent, new snapshot, journal, intent removed. \<^verbatim>\<open>applyOnce\<close> and
  \<^verbatim>\<open>applyBlockOnce\<close> have the same text around their decisions, which is \<open>applyProtocol\<close>; \<open>no\<close> makes
  a refusal of the caller's result type and \<open>thrown\<close> is the result when releasing the lock throws.
\<close>

definition intentOf :: "int \<Rightarrow> commit_plan \<Rightarrow> intent_record" where
  "intentOf now c = \<lparr> it_created_at_ms = now,
     it_pre_snapshot_fingerprint_sha256 = sn_fingerprint_sha256 (cp_pre c),
     it_post_snapshot_fingerprint_sha256 = sn_fingerprint_sha256 (cp_post c),
     it_post_snapshot = cp_post c, it_journal_entry = cp_entry c \<rparr>"

definition commitOps :: "int \<Rightarrow> commit_plan \<Rightarrow> fs_op list" where
  "commitOps now c = [PutIntent (intentOf now c), PutNext (cp_post c), RenameNext, AppendEntry (cp_entry c), DropIntent]"

definition applyProtocol ::
  "normalized_store_policy \<Rightarrow> (nat \<Rightarrow> io_event) \<Rightarrow> int \<Rightarrow> int \<Rightarrow> (string \<Rightarrow> bool \<Rightarrow> 'r) \<Rightarrow> 'r \<Rightarrow> string \<Rightarrow>
   (store_files \<Rightarrow> ('r + commit_plan \<times> 'r) res) \<Rightarrow> store_files \<Rightarrow> store_files \<times> 'r option" where
  "applyProtocol policy io pid now no thrown failed decide files =
     (if sf_intent files \<noteq> None then (files, Some (no ''native_account_store_recovery_required'' True))
      else if sf_lock files \<noteq> None then (files, Some (no ''native_account_store_busy'' False))
      else case run_ops policy io 0 [PutLock \<lparr> lk_pid = pid, lk_created_at_ms = now \<rparr>] files of
        (RunCrashed, _, f) \<Rightarrow> (f, None)
      | (RunThrew _, _, f) \<Rightarrow> (f, Some (no failed False))
      | (RunDone, n, f) \<Rightarrow>
          (case decide f of
            Inl e \<Rightarrow> release policy io n thrown (no failed False) f
          | Inr (Inl refusal) \<Rightarrow> release policy io n thrown refusal f
          | Inr (Inr (c, result)) \<Rightarrow>
              (case run_ops policy io n (commitOps now c) f of
                (RunCrashed, _, f') \<Rightarrow> (f', None)
              | (RunThrew _, m, f') \<Rightarrow> release policy io (m + 1) thrown (no failed (m > n)) f'
              | (RunDone, m, f') \<Rightarrow> release policy io m thrown result f')))"

definition applyOnce ::
  "(string \<Rightarrow> string) \<Rightarrow> ethers \<Rightarrow> normalized_store_policy \<Rightarrow> (nat \<Rightarrow> io_event) \<Rightarrow> int \<Rightarrow> int \<Rightarrow> store_request \<Rightarrow> store_files \<Rightarrow>
   store_files \<times> store_result option" where
  "applyOnce H E policy io pid now input files =
     applyProtocol policy io pid now notApplied (StoreThrows ''Error'') ''native_account_store_apply_failed''
       (decideApply H E policy input) files"

section \<open>Committing a block\<close>

record block_sums =
  ks_changes :: "account_change list"
  ks_previousAddress :: string
  ks_totalBefore :: int
  ks_totalAfter :: int
  ks_totalNonceDelta :: int

definition blockChangeStep :: "ethers \<Rightarrow> block_sums \<Rightarrow> account_change \<Rightarrow> block_sums res" where
  "blockChangeStep E s item =
     bnd (normalizeAddress E (ac_address item) ''block_change_address'') (\<lambda>address.
     if address \<in> ac_address ` set (ks_changes s) then Inl ''block_store_duplicate_account_change''
     else if ks_previousAddress s \<noteq> '''' \<and> address \<le> ks_previousAddress s
     then Inl ''block_store_changes_not_sorted'' else
     bnd (parseUint (UStr (ac_balance_before_wei item)) ''block_change_balance_before_wei'') (\<lambda>balanceBefore.
     bnd (parseUint (UStr (ac_balance_after_wei item)) ''block_change_balance_after_wei'') (\<lambda>balanceAfter.
     bnd (parseUint (UStr (ac_nonce_before item)) ''block_change_nonce_before'') (\<lambda>nonceBefore.
     bnd (parseUint (UStr (ac_nonce_after item)) ''block_change_nonce_after'') (\<lambda>nonceAfter.
     if nonceAfter < nonceBefore then Inl ''block_store_nonce_regression''
     else Inr \<lparr> ks_changes = ks_changes s @ [\<lparr> ac_address = address,
              ac_balance_before_wei = int_str balanceBefore, ac_balance_after_wei = int_str balanceAfter,
              ac_nonce_before = int_str nonceBefore, ac_nonce_after = int_str nonceAfter \<rparr>],
            ks_previousAddress = address,
            ks_totalBefore = ks_totalBefore s + balanceBefore, ks_totalAfter = ks_totalAfter s + balanceAfter,
            ks_totalNonceDelta = ks_totalNonceDelta s + (nonceAfter - nonceBefore) \<rparr>)))))"

record block_apply_request =
  bq_block_idempotency_key_sha256 :: string
  bq_block_hash :: string
  bq_block_number :: string
  bq_transaction_count :: int
  bq_parent_state_version :: string
  bq_parent_snapshot_fingerprint_sha256 :: string
  bq_final_state_version :: string
  bq_final_accounts_fingerprint_sha256 :: string
  bq_ordered_transaction_hashes :: "string list"
  bq_transaction_plan_bindings_sha256 :: "string list"
  bq_aggregate_account_changes :: "account_change list"
  bq_total_fee_burned_wei :: int
  bq_block_binding_sha256 :: string

definition validateBlockApplyRequest :: "(string \<Rightarrow> string) \<Rightarrow> ethers \<Rightarrow> block_request \<Rightarrow> block_apply_request res" where
  "validateBlockApplyRequest H E input =
     bnd (parseUint (UStr (br_block_number input)) ''block_number'') (\<lambda>number.
     let blockIdempotency = js_lower (br_block_idempotency_key_sha256 input);
         blockHash = js_lower (br_block_hash input); blockNumber = int_str number;
         parentFingerprint = js_lower (br_parent_snapshot_fingerprint_sha256 input);
         finalFingerprint = js_lower (br_final_accounts_fingerprint_sha256 input);
         blockBinding = js_lower (br_block_binding_sha256 input);
         transactionHashes = map js_lower (br_ordered_transaction_hashes input);
         planBindings = map js_lower (br_transaction_plan_bindings_sha256 input) in
     if br_confirmation input \<noteq> ''applyNativeValueTransferBlockV1''
     then Inl ''block_store_apply_request_identity_invalid''
     else if \<not> SHA256 blockIdempotency \<or> \<not> TRANSACTION_HASH blockHash \<or> \<not> SAFE_ID (br_parent_state_version input)
       \<or> \<not> SHA256 parentFingerprint \<or> \<not> SAFE_ID (br_final_state_version input) \<or> \<not> SHA256 finalFingerprint
       \<or> \<not> SHA256 blockBinding \<or> \<not> isSafeInteger (JNum (br_transaction_count input)) \<or> br_transaction_count input \<le> 0
     then Inl ''block_store_apply_request_binding_invalid''
     else if blockIdempotencyKey H blockHash blockNumber \<noteq> blockIdempotency
     then Inl ''block_store_idempotency_key_mismatch''
     else if int (length (br_ordered_transaction_hashes input)) \<noteq> br_transaction_count input
       \<or> int (length (br_transaction_plan_bindings_sha256 input)) \<noteq> br_transaction_count input
     then Inl ''block_store_transaction_binding_count_mismatch''
     else if list_ex (\<lambda>h. \<not> TRANSACTION_HASH h) transactionHashes
       \<or> length (js_set transactionHashes) \<noteq> length transactionHashes
     then Inl ''block_store_transaction_hashes_invalid''
     else if list_ex (\<lambda>b. \<not> SHA256 b) planBindings then Inl ''block_store_transaction_bindings_invalid''
     else if br_aggregate_account_changes input = [] then Inl ''block_store_aggregate_changes_empty''
     else bnd (foldM (blockChangeStep E)
            \<lparr> ks_changes = [], ks_previousAddress = '''', ks_totalBefore = 0, ks_totalAfter = 0, ks_totalNonceDelta = 0 \<rparr>
            (br_aggregate_account_changes input)) (\<lambda>sums.
     if ks_totalNonceDelta sums \<noteq> br_transaction_count input then Inl ''block_store_nonce_delta_count_mismatch''
     else bnd (parseUint (UStr (br_total_fee_burned_wei input)) ''block_total_fee_burned_wei'') (\<lambda>totalFeeBurned.
     if ks_totalBefore sums < ks_totalAfter sums \<or> ks_totalBefore sums - ks_totalAfter sums \<noteq> totalFeeBurned
     then Inl ''block_store_fee_burn_mismatch''
     else Inr \<lparr> bq_block_idempotency_key_sha256 = blockIdempotency, bq_block_hash = blockHash,
            bq_block_number = blockNumber, bq_transaction_count = br_transaction_count input,
            bq_parent_state_version = br_parent_state_version input,
            bq_parent_snapshot_fingerprint_sha256 = parentFingerprint,
            bq_final_state_version = br_final_state_version input,
            bq_final_accounts_fingerprint_sha256 = finalFingerprint,
            bq_ordered_transaction_hashes = transactionHashes, bq_transaction_plan_bindings_sha256 = planBindings,
            bq_aggregate_account_changes = ks_changes sums, bq_total_fee_burned_wei = totalFeeBurned,
            bq_block_binding_sha256 = blockBinding \<rparr>)))"

definition blockNotApplied :: "string \<Rightarrow> bool \<Rightarrow> block_store_result" where
  "blockNotApplied reason submitted = BlockNotApplied (Some reason) None (Some submitted)"

definition blockCommitIdOf :: "(string \<Rightarrow> string) \<Rightarrow> account_snapshot \<Rightarrow> block_apply_request \<Rightarrow> string" where
  "blockCommitIdOf H snapshot q = ''bc1-'' @ sha256 H (JObj [
     (''prior_state_version'', JStr (sn_state_version snapshot)),
     (''parent_snapshot_fingerprint_sha256'', JStr (sn_fingerprint_sha256 snapshot)),
     (''block_idempotency_key_sha256'', JStr (bq_block_idempotency_key_sha256 q)),
     (''block_hash'', JStr (bq_block_hash q)), (''block_number'', JStr (bq_block_number q)),
     (''transaction_plan_bindings_sha256'', JArr (map JStr (bq_transaction_plan_bindings_sha256 q))),
     (''final_state_version'', JStr (bq_final_state_version q)),
     (''final_accounts_fingerprint_sha256'', JStr (bq_final_accounts_fingerprint_sha256 q)),
     (''block_binding_sha256'', JStr (bq_block_binding_sha256 q))])"

definition postAccountsOf :: "account_snapshot \<Rightarrow> block_apply_request \<Rightarrow> account_row list" where
  "postAccountsOf snapshot q =
     sort_key r_address (map snd (applyChanges (account_map (sn_accounts snapshot)) (bq_aggregate_account_changes q)))"

definition blockPostSnapshotOf :: "(string \<Rightarrow> string) \<Rightarrow> account_snapshot \<Rightarrow> block_apply_request \<Rightarrow> account_snapshot" where
  "blockPostSnapshotOf H snapshot q =
     createSnapshot H (bq_final_state_version q) (postAccountsOf snapshot q) (sn_applied_transactions snapshot)
       (Some (blockCommitIdOf H snapshot q))"

definition blockEntryOf :: "(string \<Rightarrow> string) \<Rightarrow> account_snapshot \<Rightarrow> block_apply_request \<Rightarrow> block_journal_entry" where
  "blockEntryOf H snapshot q = \<lparr>
     bj_commit_id = blockCommitIdOf H snapshot q,
     bj_block_idempotency_key_sha256 = bq_block_idempotency_key_sha256 q, bj_block_hash = bq_block_hash q,
     bj_block_number = bq_block_number q, bj_transaction_count = bq_transaction_count q,
     bj_prior_state_version = sn_state_version snapshot, bj_state_version = bq_final_state_version q,
     bj_parent_snapshot_fingerprint_sha256 = bq_parent_snapshot_fingerprint_sha256 q,
     bj_final_accounts_fingerprint_sha256 = bq_final_accounts_fingerprint_sha256 q,
     bj_ordered_transaction_hashes = bq_ordered_transaction_hashes q,
     bj_transaction_plan_bindings_sha256 = bq_transaction_plan_bindings_sha256 q,
     bj_aggregate_account_changes = bq_aggregate_account_changes q,
     bj_total_fee_burned_wei = int_str (bq_total_fee_burned_wei q), bj_block_binding_sha256 = bq_block_binding_sha256 q,
     bj_snapshot_fingerprint_sha256 = sn_fingerprint_sha256 (blockPostSnapshotOf H snapshot q) \<rparr>"

fun same_block :: "string \<Rightarrow> journal_entry \<Rightarrow> bool" where
  "same_block key (BlockEntry e) = (bj_block_idempotency_key_sha256 e = key)"
| "same_block key (TransactionEntry e) = False"

fun entry_block_hash :: "journal_entry \<Rightarrow> string" where
  "entry_block_hash (BlockEntry e) = bj_block_hash e"
| "entry_block_hash (TransactionEntry e) = ''''"

definition decideBlockApply ::
  "(string \<Rightarrow> string) \<Rightarrow> ethers \<Rightarrow> normalized_store_policy \<Rightarrow> block_request \<Rightarrow> store_files \<Rightarrow>
   (block_store_result + commit_plan \<times> block_store_result) res" where
  "decideBlockApply H E policy input files =
     bnd (validateBlockApplyRequest H E input) (\<lambda>q.
     bnd (readSnapshot H E policy files) (\<lambda>snapshot.
     bnd (readJournal policy files) (\<lambda>journal.
     case find (same_block (bq_block_idempotency_key_sha256 q)) journal of
       Some existing \<Rightarrow> Inr (Inl (BlockNotApplied
         (Some (if entry_block_hash existing = bq_block_hash q then ''native_value_transfer_block_already_applied''
                else ''native_account_store_block_idempotency_collision''))
         (Some (entry_block_hash existing)) (Some False)))
     | None \<Rightarrow>
         if sn_state_version snapshot \<noteq> bq_parent_state_version q
         then Inr (Inl (blockNotApplied ''native_account_store_block_state_version_mismatch'' False))
         else if sn_fingerprint_sha256 snapshot \<noteq> bq_parent_snapshot_fingerprint_sha256 q
         then Inr (Inl (blockNotApplied ''native_account_store_block_parent_snapshot_mismatch'' False))
         else case changeMismatch (account_map (sn_accounts snapshot)) ''native_account_store_block_account_missing''
                     ''native_account_store_block_prestate_mismatch'' (bq_aggregate_account_changes q) of
           Some reason \<Rightarrow> Inr (Inl (blockNotApplied reason False))
         | None \<Rightarrow>
             if projectedAccountsFingerprint H (bq_final_state_version q) (postAccountsOf snapshot q)
               \<noteq> bq_final_accounts_fingerprint_sha256 q
             then Inr (Inl (blockNotApplied ''native_account_store_block_final_accounts_fingerprint_mismatch'' False))
             else let entry = blockEntryOf H snapshot q in
               Inr (Inr (\<lparr> cp_pre = snapshot, cp_post = blockPostSnapshotOf H snapshot q, cp_entry = BlockEntry entry \<rparr>,
                 BlockApplied (bj_commit_id entry) (bq_block_hash q) (bq_block_number q) (bq_final_state_version q)
                   (bq_transaction_count q))))))"

definition applyBlockOnce ::
  "(string \<Rightarrow> string) \<Rightarrow> ethers \<Rightarrow> normalized_store_policy \<Rightarrow> (nat \<Rightarrow> io_event) \<Rightarrow> int \<Rightarrow> int \<Rightarrow> block_request \<Rightarrow> store_files \<Rightarrow>
   store_files \<times> block_store_result option" where
  "applyBlockOnce H E policy io pid now input files =
     applyProtocol policy io pid now blockNotApplied (BlockStoreThrows ''Error'') ''native_account_store_block_apply_failed''
       (decideBlockApply H E policy input) files"

section \<open>Initialisation\<close>

datatype initialize_result = InitializeHeld string | Initialized string string nat

record genesis_account =
  ga_address :: string
  ga_balance_wei :: js_uint
  ga_nonce :: js_uint

definition genesisVersion :: "(string \<Rightarrow> string) \<Rightarrow> string \<Rightarrow> account_row list \<Rightarrow> string" where
  "genesisVersion H genesisId accounts =
     ''genesis-v1-'' @ sha256 H (JObj [(''genesis_id'', JStr genesisId), (''accounts'', JArr (map row_json accounts))])"

definition genesisEntry :: "(string \<Rightarrow> string) \<Rightarrow> string \<Rightarrow> account_snapshot \<Rightarrow> transaction_journal_entry" where
  "genesisEntry H genesisId snapshot = \<lparr>
     tj_commit_id = ''genesis-'' @ sha256 H (JObj [(''genesis_id'', JStr genesisId),
       (''snapshot'', JStr (sn_fingerprint_sha256 snapshot))]),
     tj_idempotency_key_sha256 = sha256 H (JObj [(''genesis_id'', JStr genesisId)]),
     tj_transaction_hash = ''0x'' @ sha256 H (JObj [(''genesis_id'', JStr genesisId),
       (''marker'', JStr VOID_NATIVE_ACCOUNT_STATE_STORE_V1)]),
     tj_prior_state_version = ''none'', tj_state_version = sn_state_version snapshot,
     tj_prestate_fingerprint_sha256 = sha256 H (JArr []),
     tj_poststate_fingerprint_sha256 = sn_fingerprint_sha256 snapshot,
     tj_plan_binding_sha256 = sha256 H (JObj [(''genesis_id'', JStr genesisId),
       (''state_version'', JStr (sn_state_version snapshot))]),
     tj_fee_burned_wei = ''0'', tj_account_changes = [],
     tj_snapshot_fingerprint_sha256 = sn_fingerprint_sha256 snapshot \<rparr>"

definition initializeVoidNativeAccountStateStoreV1 ::
  "(string \<Rightarrow> string) \<Rightarrow> ethers \<Rightarrow> (nat \<Rightarrow> io_event) \<Rightarrow> store_policy \<Rightarrow> string \<Rightarrow> genesis_account list \<Rightarrow> string \<Rightarrow>
   store_files \<Rightarrow> store_files \<times> initialize_result option" where
  "initializeVoidNativeAccountStateStoreV1 H E io policy0 genesis_id accounts0 confirmation files =
     (if confirmation \<noteq> INITIALIZE_CONFIRMATION
      then (files, Some (InitializeHeld ''exact_initialize_confirmation_required''))
      else case normalizeStorePolicy policy0 of
        Inl e \<Rightarrow> (files, Some (InitializeHeld e))
      | Inr policy \<Rightarrow>
          (let genesisId = js_trim genesis_id in
           if \<not> SAFE_ID genesisId then (files, Some (InitializeHeld ''genesis_id_invalid''))
           else if accounts0 = [] \<or> int (length accounts0) > ns_max_accounts policy
           then (files, Some (InitializeHeld ''genesis_account_count_invalid''))
           else if sf_snapshot files \<noteq> None \<or> sf_snapshot_next files \<noteq> None \<or> sf_intent files \<noteq> None
             \<or> sf_journal files \<noteq> None \<or> sf_lock files \<noteq> None
           then (files, Some (InitializeHeld ''native_account_store_already_initialized_or_dirty''))
           else case mapM (\<lambda>a. normalizeAccount E (ga_address a) (ga_balance_wei a) (ga_nonce a)) accounts0 of
             Inl e \<Rightarrow> (files, Some (InitializeHeld e))
           | Inr rows \<Rightarrow>
               if \<not> distinct (map r_address rows) then (files, Some (InitializeHeld ''genesis_duplicate_account''))
               else
                 (let accounts = sort_key r_address rows;
                      snapshot = createSnapshot H (genesisVersion H genesisId accounts) accounts [] None in
                  case run_ops policy io 0
                      [PutSnapshot snapshot, AppendEntry (TransactionEntry (genesisEntry H genesisId snapshot))] files of
                    (RunDone, _, f) \<Rightarrow> (f, Some (Initialized (sn_state_version snapshot)
                                          (sn_fingerprint_sha256 snapshot) (length accounts)))
                  | (RunThrew e, _, f) \<Rightarrow> (f, Some (InitializeHeld e))
                  | (RunCrashed, _, f) \<Rightarrow> (f, None))))"

section \<open>Recovery\<close>

datatype recovery_status = Clean | StaleLockRemoved | RolledBack | Completed

datatype recovery_result =
    RecoveryHeld string
  | RecoveryThrows string
  | RecoveryOk (rec_status: recovery_status) (rec_stale_lock_removed: bool) (rec_intent_recovered: bool)
      (rec_journal_entry_appended: bool) (rec_state_mutation: bool)

text \<open>The decision under the lock: the steps to take and the result they end in.\<close>

definition decideRecovery ::
  "(string \<Rightarrow> string) \<Rightarrow> ethers \<Rightarrow> normalized_store_policy \<Rightarrow> bool \<Rightarrow> store_files \<Rightarrow> (fs_op list \<times> recovery_result) res" where
  "decideRecovery H E policy stale files =
     (case sf_intent files of
       None \<Rightarrow> Inr ([], RecoveryOk (if stale then StaleLockRemoved else Clean) stale False False stale)
     | Some i0 \<Rightarrow>
         if json_bytes (intent_json i0) > ns_max_snapshot_bytes policy then Inl ''file_size_limit_exceeded'' else
         bnd (validateIntent H E policy i0) (\<lambda>intent.
         bnd (readSnapshot H E policy files) (\<lambda>snapshot.
         let dropNext = (if sf_snapshot_next files = None then [] else [DropNext]) in
         if sn_fingerprint_sha256 snapshot = it_pre_snapshot_fingerprint_sha256 intent
         then Inr (dropNext @ [DropIntent], RecoveryOk RolledBack stale True False True)
         else if sn_fingerprint_sha256 snapshot = it_post_snapshot_fingerprint_sha256 intent
         then bnd (readJournal policy files) (\<lambda>journal.
           let has = journalHasCommit journal (entry_commit_id (it_journal_entry intent)) in
           Inr ((if has then [] else [AppendEntry (it_journal_entry intent)]) @ dropNext @ [DropIntent],
                RecoveryOk Completed stale True (\<not> has) True))
         else Inr ([], RecoveryHeld ''native_account_store_intent_snapshot_divergence''))))"

text \<open>From the second lock on: \<open>n\<close> is the number of the next step.\<close>

definition recoverLocked ::
  "(string \<Rightarrow> string) \<Rightarrow> ethers \<Rightarrow> normalized_store_policy \<Rightarrow> (nat \<Rightarrow> io_event) \<Rightarrow> nat \<Rightarrow> lock_record \<Rightarrow> bool \<Rightarrow>
   store_files \<Rightarrow> store_files \<times> recovery_result option" where
  "recoverLocked H E policy io n l stale files =
     (case run_ops policy io n [PutLock l] files of
       (RunCrashed, _, f) \<Rightarrow> (f, None)
     | (RunThrew e, _, f) \<Rightarrow> (f, Some (RecoveryHeld e))
     | (RunDone, m, f) \<Rightarrow>
         (case decideRecovery H E policy stale f of
           Inl e \<Rightarrow> release policy io m (RecoveryThrows ''Error'') (RecoveryHeld e) f
         | Inr (ops, result) \<Rightarrow>
             (case run_ops policy io m ops f of
               (RunCrashed, _, f') \<Rightarrow> (f', None)
             | (RunThrew e, k, f') \<Rightarrow> release policy io (k + 1) (RecoveryThrows ''Error'') (RecoveryHeld e) f'
             | (RunDone, k, f') \<Rightarrow> release policy io k (RecoveryThrows ''Error'') result f')))"

definition recoverVoidNativeAccountStateStoreV1 ::
  "(string \<Rightarrow> string) \<Rightarrow> ethers \<Rightarrow> (nat \<Rightarrow> io_event) \<Rightarrow> (int \<Rightarrow> kill_outcome) \<Rightarrow> int \<Rightarrow> int \<Rightarrow> store_policy \<Rightarrow> string \<Rightarrow> int \<Rightarrow>
   store_files \<Rightarrow> store_files \<times> recovery_result option" where
  "recoverVoidNativeAccountStateStoreV1 H E io kill pid clock policy0 confirmation now files =
     (if confirmation \<noteq> RECOVER_CONFIRMATION
      then (files, Some (RecoveryHeld ''exact_recovery_confirmation_required''))
      else case normalizeStorePolicy policy0 of
        Inl e \<Rightarrow> (files, Some (RecoveryHeld e))
      | Inr policy \<Rightarrow>
          if \<not> isSafeInteger (JNum now) \<or> now \<le> 0 then (files, Some (RecoveryHeld ''recovery_now_ms_invalid''))
          else if sf_snapshot files = None
          then (files, Some (RecoveryHeld ''native_account_store_not_initialized''))
          else (let mine = \<lparr> lk_pid = pid, lk_created_at_ms = clock \<rparr> in
            case sf_lock files of
              None \<Rightarrow> recoverLocked H E policy io 0 mine False files
            | Some l0 \<Rightarrow>
                (case readLock l0 of
                  Inl e \<Rightarrow> (files, Some (RecoveryHeld e))
                | Inr l \<Rightarrow>
                    if now - lk_created_at_ms l < ns_stale_lock_min_age_ms policy
                    then (files, Some (RecoveryHeld ''native_account_store_lock_not_stale''))
                    else case isProcessAlive kill (lk_pid l) of
                      Inl e \<Rightarrow> (files, Some (RecoveryHeld e))
                    | Inr True \<Rightarrow> (files, Some (RecoveryHeld ''native_account_store_lock_owner_alive''))
                    | Inr False \<Rightarrow>
                        (case run_ops policy io 0 [DropLock] files of
                          (RunCrashed, _, f) \<Rightarrow> (f, None)
                        | (RunThrew e, _, f) \<Rightarrow> (f, Some (RecoveryHeld e))
                        | (RunDone, n, f) \<Rightarrow> recoverLocked H E policy io n mine True f))))"

section \<open>Status\<close>

record store_status =
  st_initialized :: bool
  st_recovery_required :: bool
  st_lock_present :: bool
  st_journal_present :: bool
  st_state_version :: "string option"
  st_account_count :: nat
  st_applied_transaction_count :: nat
  st_last_commit_id :: "string option"

definition status ::
  "(string \<Rightarrow> string) \<Rightarrow> ethers \<Rightarrow> normalized_store_policy \<Rightarrow> store_files \<Rightarrow> store_status res" where
  "status H E policy files =
     bnd (if sf_snapshot files = None then Inr None
          else bnd (readSnapshot H E policy files) (\<lambda>s. Inr (Some s))) (\<lambda>snapshot.
     Inr \<lparr> st_initialized = (sf_snapshot files \<noteq> None), st_recovery_required = (sf_intent files \<noteq> None),
            st_lock_present = (sf_lock files \<noteq> None), st_journal_present = (sf_journal files \<noteq> None),
            st_state_version = map_option sn_state_version snapshot,
            st_account_count = (case snapshot of None \<Rightarrow> 0 | Some s \<Rightarrow> length (sn_accounts s)),
            st_applied_transaction_count = (case snapshot of None \<Rightarrow> 0 | Some s \<Rightarrow> length (sn_applied_transactions s)),
            st_last_commit_id = (case snapshot of None \<Rightarrow> None | Some s \<Rightarrow> sn_last_commit_id s) \<rparr>)"

end
