(* ===== verification/Native_Transfer_Correct.thy ===== *)
theory Native_Transfer_Correct
  imports Native_Transfer
begin

text \<open>
  What a prepared transfer does to the ledger. \<open>plan_transition\<close> is the abstract specification: a
  function on balances and nonces that debits the sender, credits the recipient and the fee
  recipients and counts the nonce. The account changes of a plan implement it, keep the sum of all
  balances up to the burned fee, and the plan passes the validation of \<^verbatim>\<open>apply\<close>.
\<close>

section \<open>Maps and sets in insertion order\<close>

lemma set_set_add [simp]: "set (set_add s x) = insert x (set s)"
  by (auto simp: set_add_def)

lemma distinct_set_add [simp]: "distinct s \<Longrightarrow> distinct (set_add s x)"
  by (auto simp: set_add_def)

lemma foldl_set_add:
  "set (foldl set_add s xs) = set s \<union> set xs \<and> (distinct s \<longrightarrow> distinct (foldl set_add s xs))"
  by (induction xs arbitrary: s) auto

lemma set_js_set [simp]: "set (js_set xs) = set xs"
  by (simp add: js_set_def foldl_set_add)

lemma distinct_js_set [simp]: "distinct (js_set xs)"
  by (simp add: js_set_def foldl_set_add)

lemma map_of_map_put [simp]: "map_of (map_put k v m) = (map_of m)(k \<mapsto> v)"
proof (cases "k \<in> fst ` set m")
  case True
  have "map_of (map (\<lambda>(k', v'). (k', if k' = k then v else v')) m) a =
      (if a = k then (if k \<in> fst ` set m then Some v else None) else map_of m a)" for a
    by (induction m) (auto simp: image_iff, force)
  with True show ?thesis by (auto simp: map_put_def fun_eq_iff)
next
  case False
  then have "map_of m k = None" by (simp add: map_of_eq_None_iff)
  with False show ?thesis
    by (auto simp: map_put_def fun_eq_iff map_of_append map_add_def split: option.splits)
qed

lemma map_fst_update [simp]: "map fst (map (\<lambda>(k', v'). (k', f k' v')) m) = map fst m"
  by (induction m) auto

lemma map_fst_map_put: "map fst (map_put k v m) = set_add (map fst m) k"
  by (auto simp: map_put_def set_add_def comp_def case_prod_unfold)

lemma fst_set_map_put [simp]: "fst ` set (map_put k v m) = insert k (fst ` set m)"
  using arg_cong [OF map_fst_map_put [of k v m], of set] by simp

lemma distinct_map_put [simp]: "distinct (map fst m) \<Longrightarrow> distinct (map fst (map_put k v m))"
  by (simp add: map_fst_map_put)

lemma sort_strict: "distinct xs \<Longrightarrow> sorted_wrt (<) (sort xs)"
  by (simp add: strict_sorted_iff)

section \<open>Normalisation\<close>

lemma caught_Inr [simp]: "caught m = Inr x \<longleftrightarrow> m = Inr x"
  by (cases m) (auto simp: caught_def)

lemma parseUint_nonneg: "parseUint v l = Inr n \<Longrightarrow> 0 \<le> n"
  unfolding parseUint_def bnd_eq_Inr guard_eq_Inr by auto

text \<open>What the normalised accounts satisfy: one entry per address, nothing negative.\<close>

definition accounts_ok :: "accounts \<Rightarrow> bool" where
  "accounts_ok m \<longleftrightarrow> distinct (map fst m) \<and>
     (\<forall>(a, s) \<in> set m. na_address s = a \<and> 0 \<le> na_balance_wei s \<and> 0 \<le> na_nonce s)"

lemma accounts_ok_put:
  assumes "accounts_ok m" "0 \<le> b" "0 \<le> n"
  shows "accounts_ok (map_put a \<lparr> na_address = a, na_balance_wei = b, na_nonce = n \<rparr> m)"
  using assms unfolding accounts_ok_def by (auto simp: map_put_def comp_def case_prod_unfold)

lemma accounts_ok_lookup:
  "accounts_ok m \<Longrightarrow> map_of m a = Some s \<Longrightarrow> na_address s = a \<and> 0 \<le> na_balance_wei s \<and> 0 \<le> na_nonce s"
  unfolding accounts_ok_def by (auto dest: map_of_SomeD)

lemma normalizeSnapshot_ok: "normalizeSnapshot E snap = Inr (v, m) \<Longrightarrow> accounts_ok m \<and> SAFE_ID v"
proof -
  assume "normalizeSnapshot E snap = Inr (v, m)"
  then obtain f where f: "foldM f [] (ss_accounts snap) = Inr m"
    and fdef: "f = (\<lambda>accounts item.
          bnd (normalizeAddress E (as_address item) ''account_address'') (\<lambda>address.
          if address \<in> fst ` set accounts then Inl ''duplicate_account_state'' else
          bnd (parseUint (as_balance_wei item) ''account_balance_wei'') (\<lambda>balance.
          bnd (parseUint (as_nonce item) ''account_nonce'') (\<lambda>nonce.
          Inr (map_put address \<lparr> na_address = address, na_balance_wei = balance, na_nonce = nonce \<rparr>
                 accounts)))))" and v: "SAFE_ID v"
    unfolding normalizeSnapshot_def Let_def guard_eq_Inr bnd_eq_Inr by blast
  have "accounts_ok m"
  proof (rule foldM_invariant [OF f])
    show "accounts_ok []" by (simp add: accounts_ok_def)
  next
    fix s x s' assume "accounts_ok s" "f s x = Inr s'"
    then show "accounts_ok s'"
      unfolding fdef bnd_eq_Inr guard_eq_Inr by (auto intro!: accounts_ok_put dest: parseUint_nonneg)
  qed
  with v show ?thesis by blast
qed

section \<open>Fee credits\<close>

definition credit_amount :: "normalized_credit \<Rightarrow> int" where
  "credit_amount c = dec_val (nc_amount_wei c)"

text \<open>The credits collected so far: allowed, distinct, positive, and summed up.\<close>

definition credits_ok :: "normalized_policy \<Rightarrow> normalized_credit list \<Rightarrow> int \<Rightarrow> bool" where
  "credits_ok policy cs tot \<longleftrightarrow>
     distinct (map nc_address cs) \<and> set (map nc_address cs) \<subseteq> set (np_fee_credit_allowlist policy) \<and>
     (\<forall>c \<in> set cs. 0 < credit_amount c \<and> is_decimal (nc_amount_wei c)) \<and>
     sum_list (map credit_amount cs) = tot"

lemma feeCreditStep_ok:
  assumes "feeCreditStep E policy (cs, tot, seen) item = Inr (cs', tot', seen')"
    and "credits_ok policy cs tot" "set seen = set (map nc_address cs)"
  shows "credits_ok policy cs' tot' \<and> set seen' = set (map nc_address cs')"
proof -
  from assms(1) obtain a n where a: "a \<in> set (np_fee_credit_allowlist policy)" "a \<notin> set seen"
    and n: "0 < n" and new: "cs' = cs @ [\<lparr> nc_address = a, nc_amount_wei = dec_str n \<rparr>]"
      "tot' = tot + n" "seen' = set_add seen a"
    unfolding feeCreditStep_def prod.case bnd_eq_Inr guard_eq_Inr by auto
  have "0 \<le> n" using n by simp
  with assms(2,3) a n new show ?thesis
    by (auto simp: credits_ok_def credit_amount_def)
qed

lemma collectFeeCredits_ok:
  assumes "collectFeeCredits E policy items fee = Inr (cs, tot)"
  shows "credits_ok policy cs tot" "tot \<le> fee" "sorted (map nc_address cs)"
proof -
  from assms obtain cs0 seen where f: "foldM (feeCreditStep E policy) ([], 0, []) items = Inr (cs0, tot, seen)"
    and fee: "tot \<le> fee" and cs: "cs = sort_key nc_address cs0"
    unfolding collectFeeCredits_def bnd_eq_Inr by (auto split: if_splits)
  let ?P = "\<lambda>(cs, tot, seen). credits_ok policy cs tot \<and> set seen = set (map nc_address cs)"
  have "?P (cs0, tot, seen)"
  proof (rule foldM_invariant [OF f])
    show "?P ([], 0, [])" by (simp add: credits_ok_def)
  next
    fix s x s' assume "?P s" "feeCreditStep E policy s x = Inr s'"
    then show "?P s'" using feeCreditStep_ok by (cases s; cases s') blast
  qed
  then have P: "credits_ok policy cs0 tot" by simp
  have ms: "mset cs = mset cs0" by (simp add: cs)
  then have "mset (map nc_address cs) = mset (map nc_address cs0)"
    "mset (map credit_amount cs) = mset (map credit_amount cs0)"
    by (simp_all only: mset_map)
  moreover from this(2) have "sum_list (map credit_amount cs) = sum_list (map credit_amount cs0)"
    by (metis sum_mset_sum_list)
  moreover from ms have "set cs = set cs0" by (rule mset_eq_setD)
  ultimately show "credits_ok policy cs tot"
    using P mset_eq_imp_distinct_iff [of "map nc_address cs" "map nc_address cs0"]
    unfolding credits_ok_def by simp
  show "tot \<le> fee" by (rule fee)
  show "sorted (map nc_address cs)" by (simp add: cs)
qed

section \<open>Balance deltas\<close>

definition delta_of :: "(string \<times> int) list \<Rightarrow> string \<Rightarrow> int" where
  "delta_of ds a = (case map_of ds a of None \<Rightarrow> 0 | Some d \<Rightarrow> d)"

lemma delta_of_Nil [simp]: "delta_of [] a = 0"
  by (simp add: delta_of_def)

lemma delta_of_addDelta [simp]: "delta_of (addDelta b d ds) a = delta_of ds a + (if a = b then d else 0)"
  by (simp add: delta_of_def addDelta_def)

definition credit_to :: "normalized_credit list \<Rightarrow> string \<Rightarrow> int" where
  "credit_to cs a = sum_list (map credit_amount (filter (\<lambda>c. nc_address c = a) cs))"

lemma delta_of_credits:
  "delta_of (foldl (\<lambda>ds c. addDelta (nc_address c) (dec_val (nc_amount_wei c)) ds) ds cs) a =
   delta_of ds a + credit_to cs a"
  by (induction cs arbitrary: ds) (auto simp: credit_to_def credit_amount_def)

text \<open>What a transfer adds to the balance of an account.\<close>

definition transfer_delta :: "string \<Rightarrow> string \<Rightarrow> int \<Rightarrow> int \<Rightarrow> normalized_credit list \<Rightarrow> string \<Rightarrow> int" where
  "transfer_delta sender recipient val fee cs a =
     (if a = recipient then val else 0) + credit_to cs a - (if a = sender then val + fee else 0)"

lemma delta_of_balanceDeltas:
  "delta_of (balanceDeltas t (t_value t + fee) cs) a =
   transfer_delta (t_sender t) (t_recipient t) (t_value t) fee cs a"
  by (simp add: balanceDeltas_def delta_of_credits transfer_delta_def)

lemma sum_credit_to:
  assumes "finite A" "set (map nc_address cs) \<subseteq> A"
  shows "(\<Sum>a\<in>A. credit_to cs a) = sum_list (map credit_amount cs)"
  using assms(2)
proof (induction cs)
  case (Cons c cs)
  have "(\<Sum>a\<in>A. credit_to (c # cs) a) = (\<Sum>a\<in>A. (if nc_address c = a then credit_amount c else 0) + credit_to cs a)"
    by (rule sum.cong) (auto simp: credit_to_def)
  with Cons assms(1) show ?case by (simp add: sum.distrib)
qed (simp add: credit_to_def)

lemma sum_transfer_delta:
  assumes "finite A" "s \<in> A" "r \<in> A" "set (map nc_address cs) \<subseteq> A"
  shows "(\<Sum>a\<in>A. transfer_delta s r v fee cs a) = sum_list (map credit_amount cs) - fee"
  using assms sum_credit_to [OF assms(1,4)]
  by (simp add: transfer_delta_def sum.distrib sum_subtractf)

section \<open>The phases of \<open>prepare\<close>\<close>

lemma prepare_Inr:
  assumes "prepareVoidNativeValueTransferStateTransitionV1 H E raw pol snap ctx = Inr p"
  obtains policy v m tx t x cs tot changes where
    "normalizePolicy E pol = Inr policy" "normalizeSnapshot E snap = Inr (v, m)"
    "Transaction_from E (js_trim raw) = Inr tx"
    "checkTransaction E policy tx = Inr t" "checkContext policy t ctx = Inr x"
    "collectFeeCredits E policy (ec_fee_credits ctx) (x_feeDebit x) = Inr (cs, tot)"
    "computeChanges H m t (x_feeDebit x) cs = Inr changes"
    "p = buildPlan H t x v cs tot changes"
  using assms
  unfolding prepareVoidNativeValueTransferStateTransitionV1_def Let_def bnd_eq_Inr caught_Inr
    split_paired_Ex prod.case guard_eq_Inr decodeTransaction_def
  by (auto split: sum.splits)

lemma checkTransaction_ok:
  assumes "checkTransaction E policy tx = Inr t"
  shows "TRANSACTION_HASH (t_hash t)" "0 < t_value t" "t_value t \<le> np_max_value_wei policy"
    "t_sender t \<in> set (np_sender_allowlist policy)" "t_nonce t = tx_nonce tx"
    "t_sender t \<noteq> []" "t_recipient t \<noteq> []"
proof -
  have "post (\<lambda>t. TRANSACTION_HASH (t_hash t) \<and> 0 < t_value t \<and> t_value t \<le> np_max_value_wei policy \<and>
      t_sender t \<in> set (np_sender_allowlist policy) \<and> t_nonce t = tx_nonce tx \<and>
      t_sender t \<noteq> [] \<and> t_recipient t \<noteq> []) (checkTransaction E policy tx)"
    unfolding checkTransaction_def Let_def
    by (intro post_bnd post_guard) (auto split: option.split)
  from postD [OF this assms]
  show "TRANSACTION_HASH (t_hash t)" "0 < t_value t" "t_value t \<le> np_max_value_wei policy"
    "t_sender t \<in> set (np_sender_allowlist policy)" "t_nonce t = tx_nonce tx"
    "t_sender t \<noteq> []" "t_recipient t \<noteq> []" by blast+
qed

lemma checkContext_ok:
  assumes "checkContext policy t ctx = Inr x"
  shows "TRANSACTION_HASH (x_blockHash x)" "SHA256 (x_feePolicyFingerprint x)"
    "0 \<le> x_blockNumber x" "0 \<le> x_transactionIndex x" "0 \<le> x_effectiveGasPrice x"
    "x_effectiveGasPrice x \<le> t_maxFeePerGas t"
    "x_feeDebit x = REQUIRED_GAS_LIMIT * x_effectiveGasPrice x"
    "x_feeDebit x \<le> np_max_fee_debit_wei policy" "0 \<le> x_feeDebit x"
    "x_blockHash x = js_lower (ec_block_hash ctx)"
    "parseUint (ec_block_number ctx) ''execution_block_number'' = Inr (x_blockNumber x)"
    "parseUint (ec_transaction_index ctx) ''execution_transaction_index'' = Inr (x_transactionIndex x)"
proof -
  let ?Q = "\<lambda>x. TRANSACTION_HASH (x_blockHash x) \<and> SHA256 (x_feePolicyFingerprint x) \<and>
    x_effectiveGasPrice x \<le> t_maxFeePerGas t \<and>
    x_feeDebit x = REQUIRED_GAS_LIMIT * x_effectiveGasPrice x \<and>
    x_feeDebit x \<le> np_max_fee_debit_wei policy \<and>
    x_blockHash x = js_lower (ec_block_hash ctx) \<and>
    parseUint (ec_block_number ctx) ''execution_block_number'' = Inr (x_blockNumber x) \<and>
    parseUint (ec_transaction_index ctx) ''execution_transaction_index'' = Inr (x_transactionIndex x) \<and>
    parseUint (ec_effective_gas_price_wei ctx) ''effective_gas_price_wei'' = Inr (x_effectiveGasPrice x)"
  have "post ?Q (checkContext policy t ctx)"
    unfolding checkContext_def Let_def by (intro post_bnd post_guard) simp
  from postD [OF this assms] have Q: "?Q x" .
  then show "TRANSACTION_HASH (x_blockHash x)" "SHA256 (x_feePolicyFingerprint x)"
    "x_effectiveGasPrice x \<le> t_maxFeePerGas t"
    "x_feeDebit x = REQUIRED_GAS_LIMIT * x_effectiveGasPrice x"
    "x_feeDebit x \<le> np_max_fee_debit_wei policy"
    "x_blockHash x = js_lower (ec_block_hash ctx)"
    "parseUint (ec_block_number ctx) ''execution_block_number'' = Inr (x_blockNumber x)"
    "parseUint (ec_transaction_index ctx) ''execution_transaction_index'' = Inr (x_transactionIndex x)"
    by blast+
  from Q show "0 \<le> x_blockNumber x" "0 \<le> x_transactionIndex x" and p: "0 \<le> x_effectiveGasPrice x"
    by (blast intro: parseUint_nonneg)+
  from Q have "x_feeDebit x = REQUIRED_GAS_LIMIT * x_effectiveGasPrice x" by blast
  with p show "0 \<le> x_feeDebit x" by (simp add: REQUIRED_GAS_LIMIT_def)
qed

text \<open>The change of one account is the abstract transition of its balance and nonce.\<close>

definition change_ok :: "accounts \<Rightarrow> transfer \<Rightarrow> int \<Rightarrow> normalized_credit list \<Rightarrow> account_change \<Rightarrow> bool" where
  "change_ok m t fee cs c \<longleftrightarrow> (\<exists>s. map_of m (ac_address c) = Some s \<and>
     (let b = na_balance_wei s + transfer_delta (t_sender t) (t_recipient t) (t_value t) fee cs (ac_address c) in
      0 \<le> b \<and> 0 \<le> na_balance_wei s \<and> 0 \<le> na_nonce s \<and>
      ac_balance_before_wei c = dec_str (na_balance_wei s) \<and> ac_balance_after_wei c = dec_str b \<and>
      ac_nonce_before c = dec_str (na_nonce s) \<and>
      ac_nonce_after c = dec_str (na_nonce s + (if ac_address c = t_sender t then 1 else 0))))"

lemma accountChange_ok:
  assumes "accountChange m (t_sender t) (balanceDeltas t (t_value t + fee) cs) a = Inr c" "accounts_ok m"
  shows "ac_address c = a \<and> change_ok m t fee cs c"
proof -
  from assms(1) obtain s where s: "map_of m a = Some s" unfolding accountChange_def
    by (auto split: option.splits)
  with accounts_ok_lookup [OF assms(2) s] assms(1) show ?thesis
    using delta_of_balanceDeltas [of t fee cs a]
    by (auto simp: accountChange_def Let_def delta_of_def change_ok_def split: if_splits)
qed

lemma computeChanges_ok:
  assumes "computeChanges H m t fee cs = Inr changes" "accounts_ok m"
  shows "map ac_address changes = sort (requiredAddresses t cs)"
    "fst ` set m = set (requiredAddresses t cs)"
    "\<forall>c \<in> set changes. change_ok m t fee cs c"
    "\<exists>s. map_of m (t_sender t) = Some s \<and> na_nonce s = t_nonce t \<and> t_value t + fee \<le> na_balance_wei s"
proof -
  let ?f = "accountChange m (t_sender t) (balanceDeltas t (t_value t + fee) cs)"
  let ?r = "requiredAddresses t cs"
  from assms(1) obtain s where len: "length m = length ?r"
    and none: "find (\<lambda>a. a \<notin> fst ` set m) ?r = None" and s: "map_of m (t_sender t) = Some s"
    and nonce: "na_nonce s = t_nonce t" and bal: "\<not> na_balance_wei s < t_value t + fee"
    and ch: "mapM ?f (sort ?r) = Inr changes"
    unfolding computeChanges_def Let_def by (auto split: if_splits option.splits)
  have l2: "list_all2 (\<lambda>a c. ?f a = Inr c) (sort ?r) changes" using ch by (simp add: mapM_eq_Inr)
  have "list_all2 (\<lambda>a c. a = ac_address c \<and> change_ok m t fee cs c) (sort ?r) changes"
    using l2 by (rule list_all2_mono) (use accountChange_ok [OF _ assms(2)] in blast)
  then show "map ac_address changes = sort ?r" "\<forall>c \<in> set changes. change_ok m t fee cs c"
    by (auto simp: list_all2_conv_all_nth in_set_conv_nth intro!: nth_equalityI)
  from none have sub: "set ?r \<subseteq> fst ` set m" by (auto simp: find_None_iff)
  have "card (fst ` set m) = card (set ?r)"
    using len assms(2) distinct_card [of "map fst m"] distinct_card [of ?r]
    by (simp add: accounts_ok_def requiredAddresses_def)
  with sub show "fst ` set m = set ?r" by (metis card_subset_eq finite_imageI finite_set)
  show "\<exists>s. map_of m (t_sender t) = Some s \<and> na_nonce s = t_nonce t \<and> t_value t + fee \<le> na_balance_wei s"
    using s nonce bal by auto
qed

lemma sum_changes:
  assumes "computeChanges H m t fee cs = Inr changes" "accounts_ok m"
  shows "(\<Sum>c\<leftarrow>changes. dec_val (ac_balance_after_wei c)) =
    (\<Sum>c\<leftarrow>changes. dec_val (ac_balance_before_wei c)) + sum_list (map credit_amount cs) - fee"
proof -
  note ok = computeChanges_ok [OF assms]
  let ?d = "transfer_delta (t_sender t) (t_recipient t) (t_value t) fee cs"
  let ?A = "set (requiredAddresses t cs)"
  have "(\<Sum>c\<leftarrow>changes. dec_val (ac_balance_after_wei c)) =
      (\<Sum>c\<leftarrow>changes. dec_val (ac_balance_before_wei c) + ?d (ac_address c))"
    using ok(3) by (intro arg_cong [where f = sum_list] map_cong refl) (auto simp: change_ok_def Let_def)
  also have "\<dots> = (\<Sum>c\<leftarrow>changes. dec_val (ac_balance_before_wei c)) + sum_list (map ?d (map ac_address changes))"
    by (simp add: sum_list_addf comp_def)
  also have "sum_list (map ?d (map ac_address changes)) = (\<Sum>a\<in>?A. ?d a)"
    unfolding ok(1) by (subst sum_list_distinct_conv_sum_set) (simp_all add: requiredAddresses_def)
  also have "\<dots> = sum_list (map credit_amount cs) - fee"
    by (rule sum_transfer_delta) (auto simp: requiredAddresses_def)
  finally show ?thesis by simp
qed

section \<open>The abstract transition\<close>

text \<open>A ledger gives every address its balance and its nonce.\<close>

type_synonym ledger = "string \<Rightarrow> int \<times> int"

definition plan_transition :: "transfer_plan \<Rightarrow> ledger \<Rightarrow> ledger" where
  "plan_transition p L a =
     (fst (L a) + transfer_delta (p_sender p) (p_recipient p) (dec_val (p_value_wei p))
        (dec_val (p_fee_debit_wei p)) (p_fee_credits p) a,
      snd (L a) + (if a = p_sender p then 1 else 0))"

definition change_before :: "account_change \<Rightarrow> int \<times> int" where
  "change_before c = (dec_val (ac_balance_before_wei c), dec_val (ac_nonce_before c))"

definition change_after :: "account_change \<Rightarrow> int \<times> int" where
  "change_after c = (dec_val (ac_balance_after_wei c), dec_val (ac_nonce_after c))"

definition change_decimal :: "account_change \<Rightarrow> bool" where
  "change_decimal c \<longleftrightarrow> is_decimal (ac_balance_before_wei c) \<and> is_decimal (ac_balance_after_wei c) \<and>
     is_decimal (ac_nonce_before c) \<and> is_decimal (ac_nonce_after c)"

definition plan_addresses :: "transfer_plan \<Rightarrow> string set" where
  "plan_addresses p = {p_sender p, p_recipient p} \<union> nc_address ` set (p_fee_credits p)"

lemma buildPlan_sel:
  "p_transaction_hash (buildPlan H t x v cs tot changes) = t_hash t"
  "p_sender (buildPlan H t x v cs tot changes) = t_sender t"
  "p_recipient (buildPlan H t x v cs tot changes) = t_recipient t"
  "p_value_wei (buildPlan H t x v cs tot changes) = int_str (t_value t)"
  "p_transaction_nonce (buildPlan H t x v cs tot changes) = int_str (t_nonce t)"
  "p_block_hash (buildPlan H t x v cs tot changes) = x_blockHash x"
  "p_block_number (buildPlan H t x v cs tot changes) = int_str (x_blockNumber x)"
  "p_transaction_index (buildPlan H t x v cs tot changes) = int_str (x_transactionIndex x)"
  "p_effective_gas_price_wei (buildPlan H t x v cs tot changes) = int_str (x_effectiveGasPrice x)"
  "p_fee_debit_wei (buildPlan H t x v cs tot changes) = int_str (x_feeDebit x)"
  "p_fee_credits (buildPlan H t x v cs tot changes) = cs"
  "p_fee_credit_total_wei (buildPlan H t x v cs tot changes) = int_str tot"
  "p_fee_burned_wei (buildPlan H t x v cs tot changes) = int_str (x_feeDebit x - tot)"
  "p_fee_policy_fingerprint_sha256 (buildPlan H t x v cs tot changes) = x_feePolicyFingerprint x"
  "p_state_version (buildPlan H t x v cs tot changes) = v"
  "p_account_changes (buildPlan H t x v cs tot changes) = changes"
  "p_marker (buildPlan H t x v cs tot changes) = VOID_NATIVE_VALUE_TRANSFER_STATE_TRANSITION_V1"
  by (simp_all add: buildPlan_def planWithoutBinding_def Let_def)

lemma planWithoutBinding_sel:
  "p_schema (planWithoutBinding H t x v cs tot changes) = ''void_native_value_transfer_prepared_plan_v1''"
  "p_marker (planWithoutBinding H t x v cs tot changes) = VOID_NATIVE_VALUE_TRANSFER_STATE_TRANSITION_V1"
  "p_version (planWithoutBinding H t x v cs tot changes) = 1"
  "p_chain_id (planWithoutBinding H t x v cs tot changes) = ''2050''"
  "p_transaction_type (planWithoutBinding H t x v cs tot changes) = 2"
  "p_gas_limit (planWithoutBinding H t x v cs tot changes) = ''21000''"
  "p_gas_used (planWithoutBinding H t x v cs tot changes) = ''21000''"
  "p_transaction_hash (planWithoutBinding H t x v cs tot changes) = t_hash t"
  "p_state_version (planWithoutBinding H t x v cs tot changes) = v"
  "p_account_changes (planWithoutBinding H t x v cs tot changes) = changes"
  "p_fee_policy_fingerprint_sha256 (planWithoutBinding H t x v cs tot changes) = x_feePolicyFingerprint x"
  "p_prestate_fingerprint_sha256 (planWithoutBinding H t x v cs tot changes) = accountFingerprint H v changes True"
  "p_poststate_fingerprint_sha256 (planWithoutBinding H t x v cs tot changes) = accountFingerprint H v changes False"
  by (simp_all add: planWithoutBinding_def)

lemma planWithoutBinding_key:
  "\<exists>w. p_idempotency_key_sha256 (planWithoutBinding H t x v cs tot changes) = sha256 H w"
  by (auto simp: planWithoutBinding_def)

lemma change_ok_decimal: "change_ok m t fee cs c \<Longrightarrow> change_decimal c"
  by (auto simp: change_ok_def Let_def change_decimal_def)

lemma change_ok_transition:
  assumes "change_ok m t fee cs c" "L (ac_address c) = change_before c"
  shows "change_after c =
    (fst (L (ac_address c)) + transfer_delta (t_sender t) (t_recipient t) (t_value t) fee cs (ac_address c),
     snd (L (ac_address c)) + (if ac_address c = t_sender t then 1 else 0))"
  using assms by (auto simp: change_ok_def Let_def change_before_def change_after_def)

lemma transfer_delta_outside:
  "a \<notin> {s, r} \<union> nc_address ` set cs \<Longrightarrow> transfer_delta s r v fee cs a = 0"
proof -
  assume a: "a \<notin> {s, r} \<union> nc_address ` set cs"
  then have "filter (\<lambda>c. nc_address c = a) cs = []" by (auto simp: filter_empty_conv)
  with a show ?thesis by (simp add: transfer_delta_def credit_to_def)
qed

text \<open>What a prepared plan says of the value, the fees and the accounts.\<close>

definition plan_amounts_ok :: "transfer_plan \<Rightarrow> bool" where
  "plan_amounts_ok p \<longleftrightarrow>
     is_decimal (p_value_wei p) \<and> is_decimal (p_fee_debit_wei p) \<and> is_decimal (p_fee_credit_total_wei p) \<and>
     is_decimal (p_fee_burned_wei p) \<and> 0 < dec_val (p_value_wei p) \<and>
     dec_val (p_fee_debit_wei p) = 21000 * dec_val (p_effective_gas_price_wei p) \<and>
     dec_val (p_fee_debit_wei p) = dec_val (p_fee_credit_total_wei p) + dec_val (p_fee_burned_wei p) \<and>
     dec_val (p_fee_credit_total_wei p) = (\<Sum>c\<leftarrow>p_fee_credits p. dec_val (nc_amount_wei c))"

lemma credits_ok_nonneg: "credits_ok policy cs tot \<Longrightarrow> 0 \<le> tot"
  unfolding credits_ok_def by (fastforce intro!: sum_list_nonneg)

lemma prepared_amounts:
  assumes "prepareVoidNativeValueTransferStateTransitionV1 H E raw pol snap ctx = Inr p"
  shows "plan_amounts_ok p"
proof -
  from prepare_Inr [OF assms] obtain policy tx t x cs tot changes v where
    t: "checkTransaction E policy tx = Inr t" and x: "checkContext policy t ctx = Inr x"
    and cs: "collectFeeCredits E policy (ec_fee_credits ctx) (x_feeDebit x) = Inr (cs, tot)"
    and p: "p = buildPlan H t x v cs tot changes" .
  note ok = collectFeeCredits_ok [OF cs]
  have "sum_list (map (\<lambda>c. dec_val (nc_amount_wei c)) cs) = tot"
    using ok(1) by (simp add: credits_ok_def credit_amount_def [abs_def])
  with credits_ok_nonneg [OF ok(1)] ok(2) checkTransaction_ok(2) [OF t] checkContext_ok(5,7,9) [OF x]
  show ?thesis by (simp add: plan_amounts_ok_def p buildPlan_sel REQUIRED_GAS_LIMIT_def)
qed

lemma prepared_conserves:
  assumes "prepareVoidNativeValueTransferStateTransitionV1 H E raw pol snap ctx = Inr p"
  shows "(\<Sum>c\<leftarrow>p_account_changes p. dec_val (ac_balance_after_wei c)) + dec_val (p_fee_burned_wei p) =
    (\<Sum>c\<leftarrow>p_account_changes p. dec_val (ac_balance_before_wei c))"
proof -
  from prepare_Inr [OF assms] obtain policy m tx t x cs tot changes v where
    m: "normalizeSnapshot E snap = Inr (v, m)"
    and cs: "collectFeeCredits E policy (ec_fee_credits ctx) (x_feeDebit x) = Inr (cs, tot)"
    and ch: "computeChanges H m t (x_feeDebit x) cs = Inr changes"
    and p: "p = buildPlan H t x v cs tot changes" .
  note ok = collectFeeCredits_ok [OF cs]
  have "sum_list (map credit_amount cs) = tot" using ok(1) by (simp add: credits_ok_def)
  with sum_changes [OF ch conjunct1 [OF normalizeSnapshot_ok [OF m]]] ok(2)
  show ?thesis by (simp add: p buildPlan_sel)
qed

lemma prepared_transition:
  assumes "prepareVoidNativeValueTransferStateTransitionV1 H E raw pol snap ctx = Inr p"
  shows "sorted_wrt (<) (map ac_address (p_account_changes p))"
    "ac_address ` set (p_account_changes p) = plan_addresses p"
    "\<forall>c \<in> set (p_account_changes p). change_decimal c"
    "(\<And>c. c \<in> set (p_account_changes p) \<Longrightarrow> L (ac_address c) = change_before c) \<Longrightarrow>
     c \<in> set (p_account_changes p) \<Longrightarrow> change_after c = plan_transition p L (ac_address c)"
    "a \<notin> plan_addresses p \<Longrightarrow> plan_transition p L a = L a"
proof -
  from prepare_Inr [OF assms] obtain policy v m tx t x cs tot changes where
    m: "normalizeSnapshot E snap = Inr (v, m)" and t: "checkTransaction E policy tx = Inr t"
    and x: "checkContext policy t ctx = Inr x"
    and ch: "computeChanges H m t (x_feeDebit x) cs = Inr changes"
    and p: "p = buildPlan H t x v cs tot changes" .
  note ok = computeChanges_ok [OF ch conjunct1 [OF normalizeSnapshot_ok [OF m]]]
  show "sorted_wrt (<) (map ac_address (p_account_changes p))"
    unfolding p buildPlan_sel ok(1) by (rule sort_strict) (simp add: requiredAddresses_def)
  have "ac_address ` set changes = set (map ac_address changes)" by simp
  also have "\<dots> = plan_addresses p"
    unfolding ok(1) by (auto simp: requiredAddresses_def plan_addresses_def p buildPlan_sel)
  finally show "ac_address ` set (p_account_changes p) = plan_addresses p" by (simp add: p buildPlan_sel)
  show "\<forall>c \<in> set (p_account_changes p). change_decimal c"
    using ok(3) change_ok_decimal by (auto simp: p buildPlan_sel)
  show "change_after c = plan_transition p L (ac_address c)"
    if "\<And>c. c \<in> set (p_account_changes p) \<Longrightarrow> L (ac_address c) = change_before c"
      "c \<in> set (p_account_changes p)"
  proof -
    from ok(3) that(2) have "change_ok m t (x_feeDebit x) cs c" by (simp add: p buildPlan_sel)
    from change_ok_transition [where L = L, OF this that(1) [OF that(2)]]
      checkTransaction_ok(2) [OF t] checkContext_ok(9) [OF x]
    show ?thesis by (simp add: p buildPlan_sel plan_transition_def)
  qed
  show "plan_transition p L a = L a" if "a \<notin> plan_addresses p"
    using that transfer_delta_outside [of a "p_sender p" "p_recipient p" "p_fee_credits p"]
    by (auto simp: plan_transition_def plan_addresses_def)
qed

lemma prepared_sender:
  assumes "prepareVoidNativeValueTransferStateTransitionV1 H E raw pol snap ctx = Inr p"
  shows "\<exists>c \<in> set (p_account_changes p). ac_address c = p_sender p \<and>
    ac_nonce_before c = p_transaction_nonce p \<and>
    dec_val (p_value_wei p) + dec_val (p_fee_debit_wei p) \<le> dec_val (ac_balance_before_wei c)"
proof -
  from prepare_Inr [OF assms] obtain policy v m tx t x cs tot changes where
    m: "normalizeSnapshot E snap = Inr (v, m)" and t: "checkTransaction E policy tx = Inr t"
    and x: "checkContext policy t ctx = Inr x"
    and ch: "computeChanges H m t (x_feeDebit x) cs = Inr changes"
    and p: "p = buildPlan H t x v cs tot changes" .
  note ok = computeChanges_ok [OF ch conjunct1 [OF normalizeSnapshot_ok [OF m]]]
  from ok(4) obtain s where s: "map_of m (t_sender t) = Some s" "na_nonce s = t_nonce t"
    "t_value t + x_feeDebit x \<le> na_balance_wei s" by blast
  have "t_sender t \<in> set (map ac_address changes)" unfolding ok(1) by (simp add: requiredAddresses_def)
  then obtain c where c: "c \<in> set changes" "ac_address c = t_sender t" by auto
  with ok(3) have "change_ok m t (x_feeDebit x) cs c" by blast
  with s c checkTransaction_ok(2) [OF t] checkContext_ok(9) [OF x] show ?thesis
    by (intro bexI [of _ c]) (auto simp: change_ok_def Let_def p buildPlan_sel)
qed

section \<open>Validation accepts a prepared plan\<close>

lemma material_binding [simp]:
  "planBindingMaterial (p \<lparr> p_plan_binding_sha256 := b \<rparr>) = planBindingMaterial p"
  by (simp add: planBindingMaterial_def)

context hex_digest
begin

lemma digest_value: "SHA256 (sha256 H v)"
  by (simp add: SHA256_def sha256_def digest_hex)

lemma digest_fingerprint: "SHA256 (accountFingerprint H v changes b)"
  by (simp add: accountFingerprint_def digest_value)

lemma buildPlan_valid:
  assumes "TRANSACTION_HASH (t_hash t)" "SHA256 (x_feePolicyFingerprint x)" "changes \<noteq> []"
  shows "validatePlan H (buildPlan H t x v cs tot changes) = None"
  using assms planWithoutBinding_key [of H t x v cs tot changes]
  by (auto simp: validatePlan_def buildPlan_def Let_def planWithoutBinding_sel digest_value digest_fingerprint)

lemma prepared_valid:
  assumes "prepareVoidNativeValueTransferStateTransitionV1 H E raw pol snap ctx = Inr p"
  shows "validatePlan H p = None"
proof -
  from prepare_Inr [OF assms] obtain policy v m tx t x cs tot changes where
    m: "normalizeSnapshot E snap = Inr (v, m)" and t: "checkTransaction E policy tx = Inr t"
    and x: "checkContext policy t ctx = Inr x"
    and ch: "computeChanges H m t (x_feeDebit x) cs = Inr changes"
    and p: "p = buildPlan H t x v cs tot changes" .
  have "map ac_address changes = sort (requiredAddresses t cs)"
    by (rule computeChanges_ok(1) [OF ch conjunct1 [OF normalizeSnapshot_ok [OF m]]])
  moreover have "t_sender t \<in> set (sort (requiredAddresses t cs))" by (simp add: requiredAddresses_def)
  ultimately have "changes \<noteq> []" by (metis empty_iff empty_set list.map_disc_iff)
  with checkTransaction_ok(1) [OF t] checkContext_ok(2) [OF x] show ?thesis
    unfolding p by (rule buildPlan_valid)
qed

end

end
