(* ===== verification/Native_Transfer_Properties.thy ===== *)
theory Native_Transfer_Properties
  imports Native_Transfer_Correct
begin

text \<open>
  The properties of a single native value transfer, with a concrete transfer for their instances:
  the account \<open>0x11...\<close> sends 1000 wei to \<open>0x22...\<close> at a gas price of 3 wei, and 13000 wei of the
  63000 wei of fees go to \<open>0x33...\<close>.
\<close>

section \<open>A concrete transfer\<close>

definition nx_address :: "char \<Rightarrow> string" where
  "nx_address d = ''0x'' @ replicate 40 d"

definition nx_tx :: transaction where
  "nx_tx = \<lparr> tx_hash = Inr (Some (''0x'' @ replicate 64 CHR ''a'')), tx_from = Inr (Some (nx_address CHR ''1'')),
     tx_to = Some (nx_address CHR ''2''), tx_signature = True, tx_type = Some 2, tx_chainId = 2050,
     tx_gasLimit = 21000, tx_data = ''0x'', tx_accessList = Some 0, tx_value = 1000,
     tx_maxFeePerGas = Some 5, tx_maxPriorityFeePerGas = Some 1, tx_nonce = 7 \<rparr>"

definition nx_ethers :: ethers where
  "nx_ethers = \<lparr>
     getAddress = (\<lambda>s. if prefix_hex ''0x'' 40 s then Inr s else Inl ''invalid address''),
     Transaction_from = (\<lambda>raw. if raw = ''0x02f8'' then Inr nx_tx else Inl ''TypeError'') \<rparr>"

definition nx_transfer_policy :: transfer_policy where
  "nx_transfer_policy = \<lparr> tp_expected_chain_id = UNum 2050, tp_required_transaction_type = UNum 2,
     tp_required_gas_limit = UStr ''21000'', tp_max_raw_transaction_bytes = UNum 1000,
     tp_max_value_wei = UBig 5000, tp_max_fee_debit_wei = UBig 100000, tp_max_fee_credit_count = UNum 2,
     tp_sender_allowlist = [nx_address CHR ''1''], tp_fee_credit_allowlist = [nx_address CHR ''3''] \<rparr>"

definition nx_snapshot_at :: "string \<Rightarrow> state_snapshot" where
  "nx_snapshot_at v = \<lparr> ss_state_version = v, ss_accounts = [
     \<lparr> as_address = nx_address CHR ''1'', as_balance_wei = UStr ''100000'', as_nonce = UStr ''7'' \<rparr>,
     \<lparr> as_address = nx_address CHR ''2'', as_balance_wei = UStr ''5'', as_nonce = UStr ''0'' \<rparr>,
     \<lparr> as_address = nx_address CHR ''3'', as_balance_wei = UStr ''0'', as_nonce = UStr ''0'' \<rparr>] \<rparr>"

definition nx_snapshot :: state_snapshot where
  "nx_snapshot = nx_snapshot_at ''sv-1''"

definition nx_context :: execution_context where
  "nx_context = \<lparr> ec_block_hash = ''0x'' @ replicate 64 CHR ''b'', ec_block_number = UBig 9,
     ec_transaction_index = UNum 0, ec_gas_used = UNum 21000, ec_effective_gas_price_wei = UStr ''3'',
     ec_fee_credits = [\<lparr> fc_address = nx_address CHR ''3'', fc_amount_wei = UStr ''13000'' \<rparr>],
     ec_fee_policy_fingerprint_sha256 = replicate 64 CHR ''c'' \<rparr>"

definition nx_changes :: "account_change list" where
  "nx_changes = [
     \<lparr> ac_address = nx_address CHR ''1'', ac_balance_before_wei = ''100000'', ac_balance_after_wei = ''36000'',
       ac_nonce_before = ''7'', ac_nonce_after = ''8'' \<rparr>,
     \<lparr> ac_address = nx_address CHR ''2'', ac_balance_before_wei = ''5'', ac_balance_after_wei = ''1005'',
       ac_nonce_before = ''0'', ac_nonce_after = ''0'' \<rparr>,
     \<lparr> ac_address = nx_address CHR ''3'', ac_balance_before_wei = ''0'', ac_balance_after_wei = ''13000'',
       ac_nonce_before = ''0'', ac_nonce_after = ''0'' \<rparr>]"

definition nx_transfer :: transfer where
  "nx_transfer = \<lparr> t_hash = ''0x'' @ replicate 64 CHR ''a'', t_sender = nx_address CHR ''1'',
     t_recipient = nx_address CHR ''2'', t_value = 1000, t_maxFeePerGas = 5, t_maxPriorityFeePerGas = 1,
     t_nonce = 7 \<rparr>"

definition nx_env :: exec_env where
  "nx_env = \<lparr> x_blockHash = ''0x'' @ replicate 64 CHR ''b'', x_blockNumber = 9, x_transactionIndex = 0,
     x_effectiveGasPrice = 3, x_feeDebit = 63000, x_feePolicyFingerprint = replicate 64 CHR ''c'' \<rparr>"

definition nx_credits :: "normalized_credit list" where
  "nx_credits = [\<lparr> nc_address = nx_address CHR ''3'', nc_amount_wei = ''13000'' \<rparr>]"

definition nx_policy :: normalized_policy where
  "nx_policy = \<lparr> np_max_raw_transaction_bytes = 1000, np_max_value_wei = 5000, np_max_fee_debit_wei = 100000,
     np_max_fee_credit_count = 2, np_sender_allowlist = [nx_address CHR ''1''],
     np_fee_credit_allowlist = [nx_address CHR ''3''] \<rparr>"

definition nx_accounts :: accounts where
  "nx_accounts = [
     (nx_address CHR ''1'', \<lparr> na_address = nx_address CHR ''1'', na_balance_wei = 100000, na_nonce = 7 \<rparr>),
     (nx_address CHR ''2'', \<lparr> na_address = nx_address CHR ''2'', na_balance_wei = 5, na_nonce = 0 \<rparr>),
     (nx_address CHR ''3'', \<lparr> na_address = nx_address CHR ''3'', na_balance_wei = 0, na_nonce = 0 \<rparr>)]"

definition nx_plan_at :: "(string \<Rightarrow> string) \<Rightarrow> string \<Rightarrow> transfer_plan" where
  "nx_plan_at H v = buildPlan H nx_transfer nx_env v nx_credits 13000 nx_changes"

definition nx_plan :: transfer_plan where
  "nx_plan = nx_plan_at zero_digest ''sv-1''"

lemma nx_steps:
  "normalizePolicy nx_ethers nx_transfer_policy = Inr nx_policy"
  "checkTransaction nx_ethers nx_policy nx_tx = Inr nx_transfer"
  "checkContext nx_policy nx_transfer nx_context = Inr nx_env"
  "collectFeeCredits nx_ethers nx_policy (ec_fee_credits nx_context) 63000 = Inr (nx_credits, 13000)"
  "computeChanges H nx_accounts nx_transfer 63000 nx_credits = Inr nx_changes"
  by code_simp+

lemma nx_raw:
  "js_trim ''0x02f8'' = ''0x02f8''" "RAW_SIGNED_TRANSACTION ''0x02f8''"
  "Transaction_from nx_ethers ''0x02f8'' = Inr nx_tx" "x_feeDebit nx_env = 63000"
  "np_max_raw_transaction_bytes nx_policy = 1000"
  by code_simp+

lemma nx_normalized:
  assumes "SAFE_ID v" "js_trim v = v"
  shows "normalizeSnapshot nx_ethers (nx_snapshot_at v) = Inr (v, nx_accounts)"
proof -
  have "foldM (\<lambda>accounts item.
          bnd (normalizeAddress nx_ethers (as_address item) ''account_address'') (\<lambda>address.
          if address \<in> fst ` set accounts then Inl ''duplicate_account_state'' else
          bnd (parseUint (as_balance_wei item) ''account_balance_wei'') (\<lambda>balance.
          bnd (parseUint (as_nonce item) ''account_nonce'') (\<lambda>nonce.
          Inr (map_put address \<lparr> na_address = address, na_balance_wei = balance, na_nonce = nonce \<rparr>
                 accounts))))) [] (ss_accounts (nx_snapshot_at v)) = Inr nx_accounts"
    by code_simp
  moreover have "ss_accounts (nx_snapshot_at v) \<noteq> []" "ss_state_version (nx_snapshot_at v) = v"
    by (simp_all add: nx_snapshot_at_def)
  ultimately show ?thesis unfolding normalizeSnapshot_def Let_def using assms by simp
qed

lemma nx_prepared_at:
  assumes "SAFE_ID v" "js_trim v = v"
  shows "prepareVoidNativeValueTransferStateTransitionV1 H nx_ethers ''0x02f8'' nx_transfer_policy
     (nx_snapshot_at v) nx_context = Inr (nx_plan_at H v)"
  unfolding prepareVoidNativeValueTransferStateTransitionV1_def nx_plan_at_def nx_steps nx_normalized [OF assms] caught_def
    sum.case bnd_simps Let_def prod.case nx_raw decodeTransaction_def
  by (simp add: nx_steps nx_raw)

lemma nx_prepared:
  "prepareVoidNativeValueTransferStateTransitionV1 zero_digest nx_ethers ''0x02f8'' nx_transfer_policy
     nx_snapshot nx_context = Inr nx_plan"
proof -
  have "SAFE_ID ''sv-1''" "js_trim ''sv-1'' = ''sv-1''" by code_simp+
  then show ?thesis unfolding nx_snapshot_def nx_plan_def by (rule nx_prepared_at)
qed

section \<open>Properties\<close>

text \<open>
  A prepared transfer conserves value. Whatever transaction, policy, snapshot and context
  \<^verbatim>\<open>prepare\<close> accepts, the balances of the plan's accounts after the transfer plus the burned fee
  are the balances before it; the fee is 21000 times the effective gas price, and it is split
  exactly into the fee credits and the burned part, none of which is negative.
\<close>

theorem prepared_transfer_conserves_value:
  assumes "prepareVoidNativeValueTransferStateTransitionV1 H E raw pol snap ctx = Inr p"
  shows "(\<Sum>c\<leftarrow>p_account_changes p. dec_val (ac_balance_after_wei c)) + dec_val (p_fee_burned_wei p) =
      (\<Sum>c\<leftarrow>p_account_changes p. dec_val (ac_balance_before_wei c)) \<and>
    dec_val (p_fee_debit_wei p) = 21000 * dec_val (p_effective_gas_price_wei p) \<and>
    dec_val (p_fee_debit_wei p) =
      (\<Sum>c\<leftarrow>p_fee_credits p. dec_val (nc_amount_wei c)) + dec_val (p_fee_burned_wei p) \<and>
    is_decimal (p_fee_debit_wei p) \<and> is_decimal (p_fee_burned_wei p)"
  using prepared_conserves [OF assms] prepared_amounts [OF assms] by (simp_all add: plan_amounts_ok_def)

theorem prepared_transfer_conserves_value_witness:
  "prepareVoidNativeValueTransferStateTransitionV1 zero_digest nx_ethers ''0x02f8'' nx_transfer_policy
     nx_snapshot nx_context = Inr nx_plan \<and>
   (\<Sum>c\<leftarrow>p_account_changes nx_plan. dec_val (ac_balance_after_wei c)) + dec_val (p_fee_burned_wei nx_plan) =
   (\<Sum>c\<leftarrow>p_account_changes nx_plan. dec_val (ac_balance_before_wei c))"
  using nx_prepared prepared_transfer_conserves_value [OF nx_prepared] by blast

text \<open>
  A prepared transfer implements the abstract transition of the ledger. The plan lists the
  sender, the recipient and the fee recipients once each, in order; on any ledger that agrees with
  the plan's states before, the transition \<open>plan_transition\<close> (debit value and fee from the sender,
  credit the value and the fee shares, count the sender's nonce) gives the plan's states after and
  leaves every other account alone. The sender's nonce is the transaction's, and the sender can
  pay value and fee.
\<close>

theorem prepared_transfer_refines:
  assumes "prepareVoidNativeValueTransferStateTransitionV1 H E raw pol snap ctx = Inr p"
  shows "sorted_wrt (<) (map ac_address (p_account_changes p)) \<and>
    ac_address ` set (p_account_changes p) = plan_addresses p \<and>
    (\<forall>L. (\<forall>c \<in> set (p_account_changes p). L (ac_address c) = change_before c) \<longrightarrow>
      (\<forall>c \<in> set (p_account_changes p). plan_transition p L (ac_address c) = change_after c) \<and>
      (\<forall>a. a \<notin> plan_addresses p \<longrightarrow> plan_transition p L a = L a)) \<and>
    (\<exists>c \<in> set (p_account_changes p). ac_address c = p_sender p \<and>
      ac_nonce_before c = p_transaction_nonce p \<and>
      dec_val (p_value_wei p) + dec_val (p_fee_debit_wei p) \<le> dec_val (ac_balance_before_wei c))"
  using prepared_transition(1,2) [OF assms] prepared_transition(4) [OF assms, symmetric]
    prepared_transition(5) [OF assms] prepared_sender [OF assms] by blast

definition nx_ledger :: ledger where
  "nx_ledger a = (if a = nx_address CHR ''1'' then (100000, 7) else if a = nx_address CHR ''2'' then (5, 0) else (0, 0))"

lemma nx_ledger_before: "\<forall>c \<in> set nx_changes. nx_ledger (ac_address c) = change_before c"
  by code_simp

theorem prepared_transfer_refines_witness:
  "plan_transition nx_plan nx_ledger (nx_address CHR ''1'') = (36000, 8)"
proof -
  have ch: "p_account_changes nx_plan = nx_changes" by (simp add: nx_plan_def nx_plan_at_def buildPlan_sel)
  have "hd nx_changes \<in> set nx_changes" by (simp add: nx_changes_def)
  with prepared_transfer_refines [OF nx_prepared] nx_ledger_before
  have "plan_transition nx_plan nx_ledger (ac_address (hd nx_changes)) = change_after (hd nx_changes)"
    unfolding ch by blast
  then show ?thesis by (simp add: nx_changes_def change_after_def dec_val_def digit_val_def)
qed

text \<open>
  Preparing and applying fit together. With any hexadecimal digest, the plan \<^verbatim>\<open>prepare\<close>
  returns passes every check of \<^verbatim>\<open>apply\<close>, which makes exactly one request of the store, and if the
  store commits the transaction with a well-formed receipt the decision is \<^verbatim>\<open>applied\<close> with the
  plan's transaction hash and idempotency key.
\<close>

theorem prepared_transfer_applies:
  assumes "\<And>s. hex_n 64 (H s)"
    and "prepareVoidNativeValueTransferStateTransitionV1 H E raw pol snap ctx = Inr p"
    and "store (storeRequest p) = Applied commit version hash"
    and "SAFE_ID (js_trim commit)" "SAFE_ID (js_trim version)" "js_lower hash = p_transaction_hash p"
  shows "applyVoidNativeValueTransferStateTransitionV1 H p VOID_NATIVE_VALUE_TRANSFER_CONFIRMATION_V1 (Some store) =
    (ApplyReady (p_transaction_hash p) (p_idempotency_key_sha256 p) (js_trim commit) (js_trim version),
     [storeRequest p])"
proof -
  have "hex_digest H" using assms(1) by unfold_locales
  from hex_digest.prepared_valid [OF this assms(2)] have "validatePlan H p = None" .
  with assms(3-) show ?thesis
    by (simp add: applyVoidNativeValueTransferStateTransitionV1_def storeOutcome_def Let_def)
qed

theorem prepared_transfer_applies_witness:
  "applyVoidNativeValueTransferStateTransitionV1 zero_digest nx_plan VOID_NATIVE_VALUE_TRANSFER_CONFIRMATION_V1
     (Some (\<lambda>r. Applied ''c-1'' ''sv-2'' (sr_transaction_hash r))) =
   (ApplyReady (p_transaction_hash nx_plan) (p_idempotency_key_sha256 nx_plan) ''c-1'' ''sv-2'',
    [storeRequest nx_plan])"
proof -
  let ?store = "\<lambda>r. Applied ''c-1'' ''sv-2'' (sr_transaction_hash r)"
  have s: "SAFE_ID (js_trim ''c-1'')" "SAFE_ID (js_trim ''sv-2'')" "js_trim ''c-1'' = ''c-1''"
    "js_trim ''sv-2'' = ''sv-2''" by code_simp+
  have h: "p_transaction_hash nx_plan = t_hash nx_transfer" by (simp add: nx_plan_def nx_plan_at_def buildPlan_sel)
  have l: "js_lower (t_hash nx_transfer) = t_hash nx_transfer" by code_simp
  have a: "?store (storeRequest nx_plan) = Applied ''c-1'' ''sv-2'' (p_transaction_hash nx_plan)"
    by (simp add: storeRequest_def)
  have l': "js_lower (p_transaction_hash nx_plan) = p_transaction_hash nx_plan" by (simp add: h l)
  from prepared_transfer_applies [where store = ?store, OF zero_digest_shape nx_prepared a s(1,2) l']
  show ?thesis by (simp only: s)
qed

end
