(* ===== verification/Native_Block_Correct.thy ===== *)
theory Native_Block_Correct
  imports Native_Block Native_Transfer_Properties
begin

text \<open>
  A prepared block is the composition of its transfers: the accounts it projects are the ledger
  after the transitions of its plans in order, and its aggregate changes are the difference to the
  ledger of the snapshot.
\<close>

section \<open>The ledger of a list of accounts\<close>

definition ledger_of :: "projected \<Rightarrow> ledger" where
  "ledger_of m a = (case map_of m a of None \<Rightarrow> (0, 0) | Some r \<Rightarrow> (dec_val (r_balance_wei r), dec_val (r_nonce r)))"

definition snapshot_ledger :: "account_snapshot \<Rightarrow> ledger" where
  "snapshot_ledger snap = ledger_of (map (\<lambda>r. (r_address r, r)) (sn_accounts snap))"

definition rows_ok :: "projected \<Rightarrow> bool" where
  "rows_ok m \<longleftrightarrow> distinct (map fst m) \<and> (\<forall>(a, r) \<in> set m. r_address r = a \<and> is_decimal (r_balance_wei r) \<and> is_decimal (r_nonce r))"

lemma rows_ok_lookup:
  "rows_ok m \<Longrightarrow> map_of m a = Some r \<Longrightarrow> r_address r = a \<and> is_decimal (r_balance_wei r) \<and> is_decimal (r_nonce r)"
  unfolding rows_ok_def by (auto dest: map_of_SomeD)

lemma rows_ok_put:
  assumes "rows_ok m" "r_address r = a" "is_decimal (r_balance_wei r)" "is_decimal (r_nonce r)"
  shows "rows_ok (map_put a r m)"
  using assms unfolding rows_ok_def by (auto simp: map_put_def comp_def case_prod_unfold)

lemma map_put_keys: "k \<in> fst ` set m \<Longrightarrow> map fst (map_put k v m) = map fst m"
  by (simp add: map_fst_map_put set_add_def)

subsection \<open>Changes applied to the projected accounts\<close>

definition change_row :: "account_change \<Rightarrow> account_row" where
  "change_row c = \<lparr> r_address = ac_address c, r_balance_wei = ac_balance_after_wei c, r_nonce = ac_nonce_after c \<rparr>"

lemma applyChanges_simps [simp]:
  "applyChanges m [] = m"
  "applyChanges m (c # cs) = applyChanges (map_put (ac_address c) (change_row c) m) cs"
  by (simp_all add: applyChanges_def change_row_def)

lemma applyChanges_outside:
  "a \<notin> ac_address ` set cs \<Longrightarrow> map_of (applyChanges m cs) a = map_of m a"
  by (induction cs arbitrary: m) auto

lemma applyChanges_inside:
  "distinct (map ac_address cs) \<Longrightarrow> c \<in> set cs \<Longrightarrow> map_of (applyChanges m cs) (ac_address c) = Some (change_row c)"
proof (induction cs arbitrary: m)
  case (Cons d cs)
  then show ?case by (cases "c = d") (auto simp: applyChanges_outside)
qed simp

lemma applyChanges_keys:
  "ac_address ` set cs \<subseteq> fst ` set m \<Longrightarrow> map fst (applyChanges m cs) = map fst m"
proof (induction cs arbitrary: m)
  case (Cons c cs)
  then have "ac_address c \<in> fst ` set m" "ac_address ` set cs \<subseteq> fst ` set m" by auto
  then show ?case using Cons.IH [of "map_put (ac_address c) (change_row c) m"]
    by (simp add: map_put_keys insert_absorb)
qed simp

lemma applyChanges_rows_ok:
  "rows_ok m \<Longrightarrow> \<forall>c \<in> set cs. change_decimal c \<Longrightarrow> rows_ok (applyChanges m cs)"
proof (induction cs arbitrary: m)
  case (Cons c cs)
  then have "rows_ok (map_put (ac_address c) (change_row c) m)"
    by (intro rows_ok_put) (auto simp: change_row_def change_decimal_def)
  with Cons show ?case by simp
qed simp

lemma prestateMatches_before:
  "prestateMatches m c \<Longrightarrow> ledger_of m (ac_address c) = change_before c \<and> ac_address c \<in> fst ` set m"
proof -
  assume "prestateMatches m c"
  then obtain r where r: "map_of m (ac_address c) = Some r" "r_balance_wei r = ac_balance_before_wei c"
      "r_nonce r = ac_nonce_before c"
    by (auto simp: prestateMatches_def split: option.splits)
  moreover from r(1) have "ac_address c \<in> fst ` set m" by (force dest: map_of_SomeD)
  ultimately show ?thesis by (simp add: ledger_of_def change_before_def)
qed

text \<open>What \<^verbatim>\<open>prepare\<close> of a single transfer returned for some input.\<close>

definition prepared_plan :: "(string \<Rightarrow> string) \<Rightarrow> transfer_plan \<Rightarrow> bool" where
  "prepared_plan H p \<longleftrightarrow>
     (\<exists>E raw pol snap ctx. prepareVoidNativeValueTransferStateTransitionV1 H E raw pol snap ctx = Inr p)"

lemma prepared_planI:
  "prepareVoidNativeValueTransferStateTransitionV1 H E raw pol snap ctx = Inr p \<Longrightarrow> prepared_plan H p"
  unfolding prepared_plan_def by blast

lemma prepared_plan_amounts: "prepared_plan H p \<Longrightarrow> plan_amounts_ok p"
  unfolding prepared_plan_def using prepared_amounts by blast

lemma applyChanges_ledger:
  assumes "prepared_plan H p" "\<forall>c \<in> set (p_account_changes p). prestateMatches m c"
  shows "ledger_of (applyChanges m (p_account_changes p)) = plan_transition p (ledger_of m)"
proof
  fix a
  from assms(1) obtain E raw pol snap ctx where
    "prepareVoidNativeValueTransferStateTransitionV1 H E raw pol snap ctx = Inr p"
    unfolding prepared_plan_def by blast
  note t = prepared_transition [OF this]
  show "ledger_of (applyChanges m (p_account_changes p)) a = plan_transition p (ledger_of m) a"
  proof (cases "a \<in> plan_addresses p")
    case True
    with t(2) obtain c where c: "c \<in> set (p_account_changes p)" "a = ac_address c" by auto
    have "distinct (map ac_address (p_account_changes p))" using t(1) by (simp add: strict_sorted_iff)
    from applyChanges_inside [OF this c(1)] have
      "ledger_of (applyChanges m (p_account_changes p)) a = change_after c"
      by (simp add: ledger_of_def c(2) change_row_def change_after_def)
    also have "\<dots> = plan_transition p (ledger_of m) (ac_address c)"
      using t(4) [of "ledger_of m" c] prestateMatches_before assms(2) c(1) by blast
    finally show ?thesis by (simp add: c(2))
  next
    case False
    with t(2) have "map_of (applyChanges m (p_account_changes p)) a = map_of m a"
      by (intro applyChanges_outside) simp
    with t(5) [OF False, of "ledger_of m"] show ?thesis by (simp add: ledger_of_def)
  qed
qed

section \<open>The snapshot\<close>

lemma parseUint_UStr: "parseUint (UStr s) l = Inr n \<Longrightarrow> is_decimal s \<and> n = dec_val s"
  by (auto simp: parseUint_def split: if_splits)

lemma validateAccountStep_ok:
  assumes "validateAccountStep s acc = Inr s'"
  shows "js_lower (r_address acc) \<notin> set (fst s)" "set (fst s') = insert (js_lower (r_address acc)) (set (fst s))"
    "is_decimal (r_balance_wei acc)" "is_decimal (r_nonce acc)"
  using assms unfolding validateAccountStep_def Let_def guard_eq_Inr bnd_eq_Inr
  by (auto dest: parseUint_UStr)

lemma validateSnapshot_ok:
  assumes "validateSnapshot H snap = Inr snap'"
  shows "snap' = snap" "distinct (map r_address (sn_accounts snap))" "SAFE_ID (sn_state_version snap)"
    "SHA256 (sn_fingerprint_sha256 snap)"
    "\<forall>r \<in> set (sn_accounts snap). is_decimal (r_balance_wei r) \<and> is_decimal (r_nonce r)"
proof -
  have w: "post (\<lambda>x. x = snap \<and> SAFE_ID (sn_state_version snap) \<and> SHA256 (sn_fingerprint_sha256 snap) \<and>
      (\<exists>t. foldM validateAccountStep ([], []) (sn_accounts snap) = Inr t)) (validateSnapshot H snap)"
    unfolding validateSnapshot_def by (intro post_bnd post_guard) simp
  from postD [OF w assms] show "snap' = snap" "SAFE_ID (sn_state_version snap)" "SHA256 (sn_fingerprint_sha256 snap)"
    by blast+
  from postD [OF w assms] obtain t where t: "foldM validateAccountStep ([], []) (sn_accounts snap) = Inr t" by blast
  let ?Q = "\<lambda>s (rs :: account_row list). set (fst s) = js_lower ` r_address ` set rs \<and> distinct (map r_address rs) \<and>
      (\<forall>r \<in> set rs. is_decimal (r_balance_wei r) \<and> is_decimal (r_nonce r))"
  have "?Q t (sn_accounts snap)"
  proof (rule foldM_prefix_induct [where Q = ?Q, OF t])
    show "?Q ([], []) []" by simp
  next
    fix s x s' and ys :: "account_row list" assume Q: "?Q s ys" and st: "validateAccountStep s x = Inr s'"
    note v = validateAccountStep_ok [OF st]
    from v(1) Q have "r_address x \<notin> r_address ` set ys" by auto
    with v Q show "?Q s' (ys @ [x])" by auto
  qed
  then show "distinct (map r_address (sn_accounts snap))"
    "\<forall>r \<in> set (sn_accounts snap). is_decimal (r_balance_wei r) \<and> is_decimal (r_nonce r)" by blast+
qed

lemma initialProjected_eq:
  assumes "distinct (map r_address (sn_accounts snap))"
  shows "initialProjected snap = map (\<lambda>r. (r_address r, r)) (sn_accounts snap)"
proof -
  have "foldl (\<lambda>m acc. map_put (r_address acc) acc m) m rs = m @ map (\<lambda>r. (r_address r, r)) rs"
    if "distinct (map r_address rs)" "fst ` set m \<inter> r_address ` set rs = {}" for m rs
    using that by (induction rs arbitrary: m) (auto simp: map_put_def)
  from this [OF assms, of "[]"] show ?thesis by (simp add: initialProjected_def)
qed

lemma initialProjected_ok:
  assumes "validateSnapshot H snap = Inr snap'"
  shows "rows_ok (initialProjected snap)" "ledger_of (initialProjected snap) = snapshot_ledger snap"
    "map fst (initialProjected snap) = map r_address (sn_accounts snap)"
proof -
  note v = validateSnapshot_ok [OF assms]
  from v(2,5) show "rows_ok (initialProjected snap)" "map fst (initialProjected snap) = map r_address (sn_accounts snap)"
    by (auto simp: initialProjected_eq [OF v(2)] rows_ok_def comp_def)
  show "ledger_of (initialProjected snap) = snapshot_ledger snap"
    by (simp add: initialProjected_eq [OF v(2)] snapshot_ledger_def)
qed

section \<open>The loop over the transactions\<close>

definition run_plans :: "transfer_plan list \<Rightarrow> ledger \<Rightarrow> ledger" where
  "run_plans ps L = foldl (\<lambda>L p. plan_transition p L) L ps"

lemma run_plans_simps [simp]:
  "run_plans [] L = L" "run_plans (ps @ [p]) L = plan_transition p (run_plans ps L)"
  by (simp_all add: run_plans_def)

definition sum_field :: "(transfer_plan \<Rightarrow> string) \<Rightarrow> transfer_plan list \<Rightarrow> int" where
  "sum_field f ps = (\<Sum>p\<leftarrow>ps. dec_val (f p))"

lemma sum_field_simps [simp]:
  "sum_field f [] = 0" "sum_field f (ps @ [p]) = sum_field f ps + dec_val (f p)"
  by (simp_all add: sum_field_def)

text \<open>The plan number \<open>i\<close> of a block, as \<^verbatim>\<open>validateBlockPlan\<close> expects it.\<close>

definition plan_at :: "string \<Rightarrow> int \<Rightarrow> int \<Rightarrow> transfer_plan \<Rightarrow> bool" where
  "plan_at blockHash blockNumber i p \<longleftrightarrow>
     p_block_hash p = blockHash \<and> p_block_number p = int_str blockNumber \<and> p_transaction_index p = int_str i"

definition block_inv ::
  "(string \<Rightarrow> string) \<Rightarrow> normalized_block_policy \<Rightarrow> string \<Rightarrow> int \<Rightarrow> projected \<Rightarrow> block_state \<Rightarrow> nat \<Rightarrow> bool" where
  "block_inv H policy blockHash blockNumber m0 s n \<longleftrightarrow>
     rows_ok (bs_projected s) \<and> map fst (bs_projected s) = map fst m0 \<and>
     length (bs_transactionPlans s) = n \<and>
     (\<forall>p \<in> set (bs_transactionPlans s). prepared_plan H p \<and> plan_addresses p \<subseteq> fst ` set m0) \<and>
     (\<forall>i < n. plan_at blockHash blockNumber (int i) (bs_transactionPlans s ! i)) \<and>
     ledger_of (bs_projected s) = run_plans (bs_transactionPlans s) (ledger_of m0) \<and>
     bs_orderedTransactionHashes s = map p_transaction_hash (bs_transactionPlans s) \<and>
     set (bs_seenTransactionHashes s) = set (bs_orderedTransactionHashes s) \<and>
     distinct (bs_orderedTransactionHashes s) \<and>
     bs_totalValue s = sum_field p_value_wei (bs_transactionPlans s) \<and>
     bs_totalFeeDebit s = sum_field p_fee_debit_wei (bs_transactionPlans s) \<and>
     bs_totalFeeCredit s = sum_field p_fee_credit_total_wei (bs_transactionPlans s) \<and>
     bs_totalFeeBurned s = sum_field p_fee_burned_wei (bs_transactionPlans s) \<and>
     bs_totalValue s \<le> nb_max_total_value_wei policy \<and>
     bs_totalFeeDebit s \<le> nb_max_total_fee_debit_wei policy \<and>
     bs_totalFeeBurned s \<le> nb_max_total_fee_burned_wei policy \<and>
     (n > 0 \<longrightarrow> (\<exists>v. bs_projectedStateVersion s = ''bsv1-'' @ sha256 H v))"

lemma acceptPlan_Inr:
  assumes "acceptPlan H policy blockHash blockNumber i s p = Inr s'"
  shows "plan_at blockHash blockNumber i p" "p_transaction_hash p \<notin> set (bs_seenTransactionHashes s)"
    "\<forall>c \<in> set (p_account_changes p). prestateMatches (bs_projected s) c"
    "bs_projected s' = applyChanges (bs_projected s) (p_account_changes p)"
    "bs_transactionPlans s' = bs_transactionPlans s @ [p]"
    "bs_orderedTransactionHashes s' = bs_orderedTransactionHashes s @ [p_transaction_hash p]"
    "set (bs_seenTransactionHashes s') = insert (p_transaction_hash p) (set (bs_seenTransactionHashes s))"
    "\<exists>v. bs_projectedStateVersion s' = ''bsv1-'' @ sha256 H v"
    "bs_totalValue s' = bs_totalValue s + dec_val (p_value_wei p)"
    "bs_totalFeeDebit s' = bs_totalFeeDebit s + dec_val (p_fee_debit_wei p)"
    "bs_totalFeeCredit s' = bs_totalFeeCredit s + dec_val (p_fee_credit_total_wei p)"
    "bs_totalFeeBurned s' = bs_totalFeeBurned s + dec_val (p_fee_burned_wei p)"
    "bs_totalValue s' \<le> nb_max_total_value_wei policy"
    "bs_totalFeeDebit s' \<le> nb_max_total_fee_debit_wei policy"
    "bs_totalFeeBurned s' \<le> nb_max_total_fee_burned_wei policy"
  using assms unfolding acceptPlan_def Let_def guard_eq_Inr plan_at_def nextStateVersion_def
  by (auto split: option.splits if_splits simp: find_None_iff)

lemma case_sum_eq_Inr:
  "(case m of Inl e \<Rightarrow> Inl (f e) | Inr x \<Rightarrow> g x) = Inr y \<longleftrightarrow> (\<exists>x. m = Inr x \<and> g x = Inr y)"
  by (cases m) auto

lemma blockStep_Inr:
  assumes "blockStep H E policy blockHash blockNumber s (i, input) = Inr s'"
  obtains p n where "prepared_plan H p"
    "acceptPlan H policy blockHash blockNumber i (s \<lparr> bs_totalRawBytes := n \<rparr>) p = Inr s'"
  using assms unfolding blockStep_def prod.case Let_def guard_eq_Inr
    case_sum_eq_Inr bnd_eq_Inr
  by (blast intro: prepared_planI)

lemma accept_inv:
  assumes acc: "acceptPlan H policy blockHash blockNumber (int n) (s \<lparr> bs_totalRawBytes := k \<rparr>) p = Inr s'"
    and p: "prepared_plan H p" and inv: "block_inv H policy blockHash blockNumber m0 s n"
  shows "block_inv H policy blockHash blockNumber m0 s' (Suc n)"
proof -
  note a = acceptPlan_Inr [OF acc, simplified]
  from p obtain E raw pol snap ctx where
    "prepareVoidNativeValueTransferStateTransitionV1 H E raw pol snap ctx = Inr p"
    unfolding prepared_plan_def by blast
  note t = prepared_transition(2,3) [OF this]
  have keys: "map fst (bs_projected s) = map fst m0" and rows: "rows_ok (bs_projected s)"
    using inv by (simp_all add: block_inv_def)
  have sub: "ac_address ` set (p_account_changes p) \<subseteq> fst ` set (bs_projected s)"
    using a(3) prestateMatches_before by blast
  have "fst ` set (bs_projected s) = fst ` set m0" using arg_cong [OF keys, of set] by simp
  with sub t(1) have addr: "plan_addresses p \<subseteq> fst ` set m0" by simp
  have rows': "rows_ok (bs_projected s')" unfolding a(4) by (rule applyChanges_rows_ok [OF rows t(2)])
  have keys': "map fst (bs_projected s') = map fst m0" unfolding a(4) using applyChanges_keys [OF sub] keys by simp
  have led: "ledger_of (bs_projected s') = plan_transition p (ledger_of (bs_projected s))"
    unfolding a(4) by (rule applyChanges_ledger [OF p a(3)])
  have at: "plan_at blockHash blockNumber (int i) ((bs_transactionPlans s @ [p]) ! i)" if "i < Suc n" for i
    using that a(1) inv by (cases "i = n") (auto simp: block_inv_def nth_append)
  have "distinct (map p_transaction_hash (bs_transactionPlans s))" using inv unfolding block_inv_def by metis
  with rows' keys' addr led at a inv p show ?thesis unfolding block_inv_def by simp
qed

lemma block_loop_inv:
  assumes "foldM (blockStep H E policy blockHash blockNumber) s0 (zip (map int [0..<length txs]) txs) = Inr s"
    and "block_inv H policy blockHash blockNumber m0 s0 0"
  shows "block_inv H policy blockHash blockNumber m0 s (length txs)"
proof -
  have go: "block_inv H policy blockHash blockNumber m0 s (k + length ts)"
    if "foldM (blockStep H E policy blockHash blockNumber) s1 (zip (map int [k..<k + length ts]) ts) = Inr s"
      "block_inv H policy blockHash blockNumber m0 s1 k" for k ts s1
    using that
  proof (induction ts arbitrary: k s1)
    case (Cons x ts)
    have upt: "[k..<k + length (x # ts)] = k # [Suc k..<Suc k + length ts]" by (simp add: upt_rec)
    from Cons.prems(1) obtain s2 where s2: "blockStep H E policy blockHash blockNumber s1 (int k, x) = Inr s2"
        "foldM (blockStep H E policy blockHash blockNumber) s2 (zip (map int [Suc k..<Suc k + length ts]) ts) = Inr s"
      unfolding upt by (auto simp: bnd_eq_Inr)
    from blockStep_Inr [OF s2(1)] obtain p j where
      "prepared_plan H p" "acceptPlan H policy blockHash blockNumber (int k) (s1 \<lparr> bs_totalRawBytes := j \<rparr>) p = Inr s2" .
    from accept_inv [OF this(2,1) Cons.prems(2)] have "block_inv H policy blockHash blockNumber m0 s2 (Suc k)" .
    from Cons.IH [OF s2(2) this] show ?case by simp
  qed simp
  from go [of s0 0 txs] assms show ?thesis by simp
qed

section \<open>Aggregate changes\<close>

lemma concat_if: "concat (map (\<lambda>a. if P a then [f a] else []) xs) = map f (filter P xs)"
  by (induction xs) auto

definition differs :: "projected \<Rightarrow> projected \<Rightarrow> string \<Rightarrow> bool" where
  "differs m0 m a \<longleftrightarrow> r_balance_wei (the (map_of m0 a)) \<noteq> r_balance_wei (the (map_of m a)) \<or>
     r_nonce (the (map_of m0 a)) \<noteq> r_nonce (the (map_of m a))"

definition net_change :: "projected \<Rightarrow> projected \<Rightarrow> string \<Rightarrow> account_change" where
  "net_change m0 m a = \<lparr> ac_address = a, ac_balance_before_wei = r_balance_wei (the (map_of m0 a)),
     ac_balance_after_wei = r_balance_wei (the (map_of m a)), ac_nonce_before = r_nonce (the (map_of m0 a)),
     ac_nonce_after = r_nonce (the (map_of m a)) \<rparr>"

lemma aggregate_eq:
  assumes "mapM (aggregateChange m0 m) xs = Inr css"
  shows "concat css = map (net_change m0 m) (filter (differs m0 m) xs)"
proof -
  have "list_all2 (\<lambda>a cs. aggregateChange m0 m a = Inr cs) xs css"
    using assms by (simp add: mapM_eq_Inr)
  then have "list_all2 (\<lambda>a cs. cs = (if differs m0 m a then [net_change m0 m a] else [])) xs css"
    by (rule list_all2_mono) (auto simp: aggregateChange_def differs_def net_change_def split: option.splits if_splits)
  then have "css = map (\<lambda>a. if differs m0 m a then [net_change m0 m a] else []) xs"
    by (auto simp: list_all2_conv_all_nth intro!: nth_equalityI)
  then show ?thesis by (simp add: concat_if)
qed

lemma aggregate_ok:
  assumes "rows_ok m0" "rows_ok m" "map fst m = map fst m0"
    and "mapM (aggregateChange m0 m) (sort (map fst m)) = Inr css"
  shows "sorted_wrt (<) (map ac_address (concat css))"
    "\<forall>c \<in> set (concat css). change_before c = ledger_of m0 (ac_address c) \<and>
       change_after c = ledger_of m (ac_address c) \<and> change_before c \<noteq> change_after c"
    "a \<notin> ac_address ` set (concat css) \<Longrightarrow> ledger_of m a = ledger_of m0 a"
proof -
  let ?b = "\<lambda>a. the (map_of m0 a)" let ?a = "\<lambda>a. the (map_of m a)"
  let ?diff = "\<lambda>a. r_balance_wei (?b a) \<noteq> r_balance_wei (?a a) \<or> r_nonce (?b a) \<noteq> r_nonce (?a a)"
  let ?c = "\<lambda>a. \<lparr> ac_address = a, ac_balance_before_wei = r_balance_wei (?b a),
      ac_balance_after_wei = r_balance_wei (?a a), ac_nonce_before = r_nonce (?b a), ac_nonce_after = r_nonce (?a a) \<rparr>"
  have cs: "concat css = map ?c (filter ?diff (sort (map fst m)))"
    using aggregate_eq [OF assms(4)] by (simp add: net_change_def [abs_def] differs_def [abs_def])
  have "sorted_wrt (<) (sort (map fst m))" using assms(2) by (intro sort_strict) (simp add: rows_ok_def)
  then have "sorted_wrt (<) (filter ?diff (sort (map fst m)))" by (rule sorted_wrt_filter)
  then show "sorted_wrt (<) (map ac_address (concat css))" by (simp add: cs comp_def)
  have keys: "set (map fst m) = fst ` set m0" using arg_cong [OF assms(3), of set] by simp
  have some: "map_of m0 a = Some (?b a) \<and> map_of m a = Some (?a a)" if "a \<in> set (map fst m)" for a
    using that keys map_of_eq_None_iff [of m a] map_of_eq_None_iff [of m0 a] by auto
  have dec: "is_decimal (r_balance_wei (?b a)) \<and> is_decimal (r_balance_wei (?a a)) \<and>
      is_decimal (r_nonce (?b a)) \<and> is_decimal (r_nonce (?a a))" if "a \<in> set (map fst m)" for a
    using rows_ok_lookup [OF assms(1)] rows_ok_lookup [OF assms(2)] some [OF that] by blast
  show "\<forall>c \<in> set (concat css). change_before c = ledger_of m0 (ac_address c) \<and>
       change_after c = ledger_of m (ac_address c) \<and> change_before c \<noteq> change_after c"
  proof
    fix c assume "c \<in> set (concat css)"
    then obtain a where a: "a \<in> set (map fst m)" "?diff a" "c = ?c a" unfolding cs by auto
    have "dec_val (r_balance_wei (?b a)) \<noteq> dec_val (r_balance_wei (?a a)) \<or> dec_val (r_nonce (?b a)) \<noteq> dec_val (r_nonce (?a a))"
      using a(2) dec [OF a(1)] dec_str_dec_val by metis
    with some [OF a(1)] show "change_before c = ledger_of m0 (ac_address c) \<and>
       change_after c = ledger_of m (ac_address c) \<and> change_before c \<noteq> change_after c"
      by (auto simp: a(3) change_before_def change_after_def ledger_of_def split: option.splits)
  qed
  show "ledger_of m a = ledger_of m0 a" if out: "a \<notin> ac_address ` set (concat css)" for a
  proof (cases "a \<in> set (map fst m)")
    case True
    with out have "\<not> ?diff a" unfolding cs by (auto simp: image_iff)
    with some [OF True] show ?thesis by (auto simp: ledger_of_def split: option.splits)
  next
    case False
    then have "map_of m a = None" "map_of m0 a = None"
      using keys map_of_eq_None_iff [of m a] map_of_eq_None_iff [of m0 a] by auto
    then show ?thesis by (simp add: ledger_of_def)
  qed
qed

section \<open>A prepared block\<close>

lemma block_caught_Inr [simp]: "block_caught m = Inr x \<longleftrightarrow> m = Inr x"
  by (cases m) (auto simp: block_caught_def)

lemma prepareBlock_Inr:
  assumes "prepareVoidNativeValueTransferBlockExecutionV1 H E bh bn snap pol txs = Inr b"
  obtains n policy s css where
    "TRANSACTION_HASH (js_lower bh)" "parseUint bn ''block_number'' = Inr n"
    "validateSnapshot H snap = Inr snap" "normalizeBlockPolicy pol = Inr policy" "txs \<noteq> []"
    "foldM (blockStep H E policy (js_lower bh) n) (initialBlockState snap) (zip (map int [0..<length txs]) txs) = Inr s"
    "mapM (aggregateChange (initialProjected snap) (bs_projected s)) (sort (map fst (bs_projected s))) = Inr css"
    "b = buildBlockPlan H (js_lower bh) n snap s (concat css)"
proof -
  from assms obtain n snap' policy s css where x:
    "TRANSACTION_HASH (js_lower bh)" "parseUint bn ''block_number'' = Inr n"
    "validateSnapshot H snap = Inr snap'" "normalizeBlockPolicy pol = Inr policy" "txs \<noteq> []"
    "foldM (blockStep H E policy (js_lower bh) n) (initialBlockState snap') (zip (map int [0..<length txs]) txs) = Inr s"
    "mapM (aggregateChange (initialProjected snap') (bs_projected s)) (sort (map fst (bs_projected s))) = Inr css"
    "b = buildBlockPlan H (js_lower bh) n snap' s (concat css)"
    unfolding prepareVoidNativeValueTransferBlockExecutionV1_def Let_def guard_eq_Inr bnd_eq_Inr block_caught_Inr
    by blast
  from validateSnapshot_ok(1) [OF x(3)] x show thesis by (intro that) simp_all
qed

lemma normalizeBlockPolicy_nonneg:
  assumes "normalizeBlockPolicy pol = Inr policy"
  shows "0 \<le> nb_max_total_value_wei policy" "0 \<le> nb_max_total_fee_debit_wei policy"
    "0 \<le> nb_max_total_fee_burned_wei policy"
  using assms unfolding normalizeBlockPolicy_def bnd_eq_Inr by (auto dest: parseUint_nonneg)

lemma initial_inv:
  assumes "validateSnapshot H snap = Inr snap" "normalizeBlockPolicy pol = Inr policy"
  shows "block_inv H policy bh n (initialProjected snap) (initialBlockState snap) 0"
  using initialProjected_ok(1) [OF assms(1)] normalizeBlockPolicy_nonneg [OF assms(2)]
  by (simp add: block_inv_def initialBlockState_def)

lemma buildBlockPlan_sel:
  "b_block_hash (buildBlockPlan H bh n snap s cs) = bh"
  "b_block_number (buildBlockPlan H bh n snap s cs) = int_str n"
  "b_transaction_count (buildBlockPlan H bh n snap s cs) = int (length (bs_transactionPlans s))"
  "b_ordered_transaction_hashes (buildBlockPlan H bh n snap s cs) = bs_orderedTransactionHashes s"
  "b_transaction_plans (buildBlockPlan H bh n snap s cs) = bs_transactionPlans s"
  "b_aggregate_account_changes (buildBlockPlan H bh n snap s cs) = cs"
  "b_total_value_wei (buildBlockPlan H bh n snap s cs) = int_str (bs_totalValue s)"
  "b_total_fee_debit_wei (buildBlockPlan H bh n snap s cs) = int_str (bs_totalFeeDebit s)"
  "b_total_fee_credit_wei (buildBlockPlan H bh n snap s cs) = int_str (bs_totalFeeCredit s)"
  "b_total_fee_burned_wei (buildBlockPlan H bh n snap s cs) = int_str (bs_totalFeeBurned s)"
  "b_final_state_version (buildBlockPlan H bh n snap s cs) = bs_projectedStateVersion s"
  by (simp_all add: buildBlockPlan_def blockPlanWithoutBinding_def Let_def)

lemma sum_plan_transition:
  assumes "plan_amounts_ok p" "finite A" "plan_addresses p \<subseteq> A"
  shows "(\<Sum>a\<in>A. fst (plan_transition p L a)) = (\<Sum>a\<in>A. fst (L a)) - dec_val (p_fee_burned_wei p)"
proof -
  have "(\<Sum>a\<in>A. transfer_delta (p_sender p) (p_recipient p) (dec_val (p_value_wei p))
      (dec_val (p_fee_debit_wei p)) (p_fee_credits p) a) =
      sum_list (map credit_amount (p_fee_credits p)) - dec_val (p_fee_debit_wei p)"
    using assms(2,3) by (intro sum_transfer_delta) (auto simp: plan_addresses_def)
  with assms(1) show ?thesis
    by (simp add: plan_transition_def sum.distrib plan_amounts_ok_def credit_amount_def [abs_def])
qed

text \<open>
  What a block relies on of the transitions it composes: each leaves the accounts outside its own
  alone and takes exactly its burned fee out of the sum of balances. Then so does their sequence.
\<close>

locale ledger_transitions =
  fixes ok :: "'p \<Rightarrow> bool" and trans :: "'p \<Rightarrow> ledger \<Rightarrow> ledger" and burned :: "'p \<Rightarrow> int"
    and touched :: "'p \<Rightarrow> string set"
  assumes local_effect: "ok p \<Longrightarrow> a \<notin> touched p \<Longrightarrow> trans p L a = L a"
    and conserves: "ok p \<Longrightarrow> finite A \<Longrightarrow> touched p \<subseteq> A \<Longrightarrow>
      (\<Sum>a\<in>A. fst (trans p L a)) = (\<Sum>a\<in>A. fst (L a)) - burned p"
begin

lemma sequence_conserves:
  assumes "finite A" "\<forall>p \<in> set ps. ok p \<and> touched p \<subseteq> A"
  shows "(\<Sum>a\<in>A. fst (foldl (\<lambda>L p. trans p L) L ps a)) = (\<Sum>a\<in>A. fst (L a)) - (\<Sum>p\<leftarrow>ps. burned p)"
  using assms(2) by (induction ps rule: rev_induct) (simp_all add: conserves assms(1))

lemma sequence_local:
  assumes "\<forall>p \<in> set ps. ok p \<and> a \<notin> touched p"
  shows "foldl (\<lambda>L p. trans p L) L ps a = L a"
  using assms by (induction ps rule: rev_induct) (simp_all add: local_effect)

end

interpretation transfers: ledger_transitions "prepared_plan H" plan_transition
  "\<lambda>p. dec_val (p_fee_burned_wei p)" plan_addresses for H
proof
  show "plan_transition p L a = L a" if "prepared_plan H p" "a \<notin> plan_addresses p" for p a L
    using that prepared_transition(5) unfolding prepared_plan_def by blast
  show "(\<Sum>a\<in>A. fst (plan_transition p L a)) = (\<Sum>a\<in>A. fst (L a)) - dec_val (p_fee_burned_wei p)"
    if "prepared_plan H p" "finite A" "plan_addresses p \<subseteq> A" for p A L
    using sum_plan_transition [OF prepared_plan_amounts] that by blast
qed

lemma sum_field_nonneg: "(\<And>p. p \<in> set ps \<Longrightarrow> is_decimal (f p)) \<Longrightarrow> 0 \<le> sum_field f ps"
  unfolding sum_field_def by (rule sum_list_nonneg) (auto intro: is_decimal_nonneg)

lemma sum_field_split:
  "(\<And>p. p \<in> set ps \<Longrightarrow> plan_amounts_ok p) \<Longrightarrow>
   sum_field p_fee_debit_wei ps = sum_field p_fee_credit_total_wei ps + sum_field p_fee_burned_wei ps"
  unfolding sum_field_def sum_list_addf [symmetric]
  by (intro arg_cong [where f = sum_list] map_cong refl) (metis plan_amounts_ok_def)

text \<open>The facts a prepared block gives about its plans, accounts and totals.\<close>

lemma prepared_block_facts:
  assumes "prepareVoidNativeValueTransferBlockExecutionV1 H E bh bn snap pol txs = Inr b"
  shows "length (b_transaction_plans b) = length txs"
    "\<forall>p \<in> set (b_transaction_plans b). prepared_plan H p \<and> plan_addresses p \<subseteq> r_address ` set (sn_accounts snap)"
    "b_ordered_transaction_hashes b = map p_transaction_hash (b_transaction_plans b)"
    "distinct (b_ordered_transaction_hashes b)"
    "sorted_wrt (<) (map ac_address (b_aggregate_account_changes b))"
    "\<forall>c \<in> set (b_aggregate_account_changes b).
       change_before c = snapshot_ledger snap (ac_address c) \<and>
       change_after c = run_plans (b_transaction_plans b) (snapshot_ledger snap) (ac_address c) \<and>
       change_before c \<noteq> change_after c"
    "a \<notin> ac_address ` set (b_aggregate_account_changes b) \<Longrightarrow>
       run_plans (b_transaction_plans b) (snapshot_ledger snap) a = snapshot_ledger snap a"
    "\<exists>policy. normalizeBlockPolicy pol = Inr policy \<and>
       dec_val (b_total_value_wei b) = sum_field p_value_wei (b_transaction_plans b) \<and>
       dec_val (b_total_fee_debit_wei b) = sum_field p_fee_debit_wei (b_transaction_plans b) \<and>
       dec_val (b_total_fee_burned_wei b) = sum_field p_fee_burned_wei (b_transaction_plans b) \<and>
       dec_val (b_total_fee_credit_wei b) = sum_field p_fee_credit_total_wei (b_transaction_plans b) \<and>
       dec_val (b_total_value_wei b) \<le> nb_max_total_value_wei policy \<and>
       dec_val (b_total_fee_debit_wei b) \<le> nb_max_total_fee_debit_wei policy \<and>
       dec_val (b_total_fee_burned_wei b) \<le> nb_max_total_fee_burned_wei policy"
proof -
  from prepareBlock_Inr [OF assms] obtain n policy s css where x:
    "validateSnapshot H snap = Inr snap" "normalizeBlockPolicy pol = Inr policy"
    "foldM (blockStep H E policy (js_lower bh) n) (initialBlockState snap) (zip (map int [0..<length txs]) txs) = Inr s"
    "mapM (aggregateChange (initialProjected snap) (bs_projected s)) (sort (map fst (bs_projected s))) = Inr css"
    and b: "b = buildBlockPlan H (js_lower bh) n snap s (concat css)" .
  note inv = block_loop_inv [OF x(3) initial_inv [OF x(1,2)], unfolded block_inv_def]
  note i0 = initialProjected_ok [OF x(1)]
  have rows: "rows_ok (bs_projected s)" and keys: "map fst (bs_projected s) = map fst (initialProjected snap)"
    using inv by blast+
  note agg = aggregate_ok [OF i0(1) rows keys x(4)]
  have led: "ledger_of (bs_projected s) = run_plans (bs_transactionPlans s) (snapshot_ledger snap)"
    using inv i0(2) by metis
  have set0: "fst ` set (initialProjected snap) = r_address ` set (sn_accounts snap)"
    using arg_cong [OF i0(3), of set] by simp
  have plans: "b_transaction_plans b = bs_transactionPlans s" by (simp add: b buildBlockPlan_sel)
  have amounts: "plan_amounts_ok p" if "p \<in> set (bs_transactionPlans s)" for p
    using inv that prepared_plan_amounts by blast
  show "length (b_transaction_plans b) = length txs" using inv plans by metis
  show "\<forall>p \<in> set (b_transaction_plans b). prepared_plan H p \<and> plan_addresses p \<subseteq> r_address ` set (sn_accounts snap)"
    using inv unfolding plans set0 by blast
  show "b_ordered_transaction_hashes b = map p_transaction_hash (b_transaction_plans b)"
    "distinct (b_ordered_transaction_hashes b)"
    unfolding b buildBlockPlan_sel using inv by metis+
  show "sorted_wrt (<) (map ac_address (b_aggregate_account_changes b))"
    unfolding b buildBlockPlan_sel by (rule agg(1))
  show "\<forall>c \<in> set (b_aggregate_account_changes b).
       change_before c = snapshot_ledger snap (ac_address c) \<and>
       change_after c = run_plans (b_transaction_plans b) (snapshot_ledger snap) (ac_address c) \<and>
       change_before c \<noteq> change_after c"
    using agg(2) unfolding plans led [symmetric] unfolding i0(2) b buildBlockPlan_sel .
  show "run_plans (b_transaction_plans b) (snapshot_ledger snap) a = snapshot_ledger snap a"
    if "a \<notin> ac_address ` set (b_aggregate_account_changes b)"
    using that agg(3) unfolding plans led [symmetric] unfolding i0(2) b buildBlockPlan_sel by blast
  have "0 \<le> sum_field p_value_wei (bs_transactionPlans s)" "0 \<le> sum_field p_fee_debit_wei (bs_transactionPlans s)"
    "0 \<le> sum_field p_fee_credit_total_wei (bs_transactionPlans s)" "0 \<le> sum_field p_fee_burned_wei (bs_transactionPlans s)"
    using amounts by (auto intro!: sum_field_nonneg simp: plan_amounts_ok_def)
  with inv x(2) show "\<exists>policy. normalizeBlockPolicy pol = Inr policy \<and>
       dec_val (b_total_value_wei b) = sum_field p_value_wei (b_transaction_plans b) \<and>
       dec_val (b_total_fee_debit_wei b) = sum_field p_fee_debit_wei (b_transaction_plans b) \<and>
       dec_val (b_total_fee_burned_wei b) = sum_field p_fee_burned_wei (b_transaction_plans b) \<and>
       dec_val (b_total_fee_credit_wei b) = sum_field p_fee_credit_total_wei (b_transaction_plans b) \<and>
       dec_val (b_total_value_wei b) \<le> nb_max_total_value_wei policy \<and>
       dec_val (b_total_fee_debit_wei b) \<le> nb_max_total_fee_debit_wei policy \<and>
       dec_val (b_total_fee_burned_wei b) \<le> nb_max_total_fee_burned_wei policy"
    unfolding b buildBlockPlan_sel by (intro exI [of _ policy]) simp
qed

end
