(* ===== verification/Native_Store_Atomic.thy ===== *)
theory Native_Store_Atomic
  imports Native_Store Native_Block_Correct
begin

text \<open>
  The commit protocol of the account store. A store has a \<^emph>\<open>view\<close>: its snapshot, and its journal with
  the entry of a commit that has replaced the snapshot but is not journalled yet. Whatever fails and
  wherever a process dies, an operation leaves the view as it was or moves it by one complete commit,
  and recovery never changes it.
\<close>

section \<open>What reading a file says about it\<close>

lemma validateJournalEntry_same: "validateJournalEntry e = Inr e' \<Longrightarrow> e' = e"
  by (cases e) (auto simp: js_simps split: if_splits)

lemma mapM_same:
  assumes "\<And>x y. f x = Inr y \<Longrightarrow> y = x" and "mapM f xs = Inr ys"
  shows "ys = xs"
  using assms(2) unfolding mapM_eq_Inr by (induction rule: list_all2_induct) (auto dest: assms(1))

lemma readJournal_Inr:
  assumes "readJournal policy f = Inr es"
  shows "es = entries_of f" "sf_journal f \<noteq> None \<Longrightarrow> sf_torn f \<le> 0"
proof -
  have "es = entries_of f \<and> (sf_journal f \<noteq> None \<longrightarrow> sf_torn f \<le> 0)"
  proof (cases "sf_journal f")
    case (Some xs)
    with assms have "mapM validateJournalEntry xs = Inr es" "sf_torn f \<le> 0"
      by (auto simp: readJournal_def js_simps split: if_splits)
    with mapM_same [OF validateJournalEntry_same] Some show ?thesis by (auto simp: entries_of_def)
  qed (use assms in \<open>simp add: readJournal_def entries_of_def\<close>)
  then show "es = entries_of f" "sf_journal f \<noteq> None \<Longrightarrow> sf_torn f \<le> 0" by blast+
qed

definition snapshot_fp :: "store_files \<Rightarrow> string" where
  "snapshot_fp f = (case sf_snapshot f of None \<Rightarrow> '''' | Some s \<Rightarrow> sn_fingerprint_sha256 s)"

lemma validateStoreSnapshot_fp:
  assumes "validateStoreSnapshot H E policy s = Inr t"
  shows "sn_fingerprint_sha256 t = sn_fingerprint_sha256 s"
proof -
  have "post (\<lambda>t. sn_fingerprint_sha256 t = sn_fingerprint_sha256 s) (validateStoreSnapshot H E policy s)"
    unfolding validateStoreSnapshot_def Let_def by (intro post_guard post_bnd) simp
  then show ?thesis using assms by (rule postD)
qed

lemma readSnapshot_fp:
  assumes "readSnapshot H E policy f = Inr s"
  shows "snapshot_fp f = sn_fingerprint_sha256 s" "sf_snapshot f \<noteq> None"
  using assms validateStoreSnapshot_fp
  by (auto simp: readSnapshot_def snapshot_fp_def split: option.splits if_splits)

lemma validateIntent_Inr:
  assumes "validateIntent H E policy i = Inr j"
  shows "it_pre_snapshot_fingerprint_sha256 j = it_pre_snapshot_fingerprint_sha256 i"
    "it_post_snapshot_fingerprint_sha256 j = it_post_snapshot_fingerprint_sha256 i"
    "it_journal_entry j = it_journal_entry i"
  using assms unfolding validateIntent_def guard_eq_Inr bnd_eq_Inr
  by (auto dest: validateJournalEntry_same)

lemma read_lock [simp]:
  "readSnapshot H E policy (f \<lparr> sf_lock := l \<rparr>) = readSnapshot H E policy f"
  "readJournal policy (f \<lparr> sf_lock := l \<rparr>) = readJournal policy f"
  "entries_of (f \<lparr> sf_lock := l \<rparr>) = entries_of f"
  "snapshot_fp (f \<lparr> sf_lock := l \<rparr>) = snapshot_fp f"
  by (simp_all add: readSnapshot_def readJournal_def entries_of_def journal_bytes_def snapshot_fp_def
      split: option.splits)

section \<open>The view\<close>

type_synonym store_view = "account_snapshot option \<times> journal_entry list"

definition journalled :: "store_files \<Rightarrow> intent_record \<Rightarrow> bool" where
  "journalled f i = journalHasCommit (entries_of f) (entry_commit_id (it_journal_entry i))"

definition pending :: "store_files \<Rightarrow> journal_entry list" where
  "pending f = (case sf_intent f of
       None \<Rightarrow> []
     | Some i \<Rightarrow> if snapshot_fp f = it_post_snapshot_fingerprint_sha256 i \<and> \<not> journalled f i
                then [it_journal_entry i] else [])"

definition store_view_of :: "store_files \<Rightarrow> store_view" where
  "store_view_of f = (sf_snapshot f, entries_of f @ pending f)"

text \<open>
  The invariant of the protocol. A pending intent is in one of three phases: the snapshot is still
  the old one; it is the new one and the entry is not journalled, or only a part of its line is; or
  the entry is journalled. A last line without its newline is that of the pending commit, if one is
  pending.
\<close>

definition store_ok :: "store_files \<Rightarrow> bool" where
  "store_ok f \<longleftrightarrow> 0 \<le> sf_torn f \<and> sf_journal f \<noteq> None \<and> sf_snapshot f \<noteq> None \<and>
     (sf_unterminated f \<longrightarrow> sf_torn f = 0 \<and> (\<forall>i. sf_intent f = Some i \<longrightarrow>
       snapshot_fp f = it_post_snapshot_fingerprint_sha256 i \<and> journalled f i)) \<and>
     (case sf_intent f of
       None \<Rightarrow> sf_torn f = 0
     | Some i \<Rightarrow>
         it_pre_snapshot_fingerprint_sha256 i \<noteq> it_post_snapshot_fingerprint_sha256 i \<and>
         (snapshot_fp f = it_pre_snapshot_fingerprint_sha256 i \<and> sf_torn f = 0 \<or>
          snapshot_fp f = it_post_snapshot_fingerprint_sha256 i \<and> (0 < sf_torn f \<longrightarrow> \<not> journalled f i)))"

text \<open>No digest collides in the commit \<open>c\<close>: its snapshot and its commit identifier are new.\<close>

definition fresh_commit :: "store_files \<Rightarrow> commit_plan \<Rightarrow> bool" where
  "fresh_commit f c \<longleftrightarrow> sn_fingerprint_sha256 (cp_pre c) \<noteq> sn_fingerprint_sha256 (cp_post c) \<and>
     \<not> journalHasCommit (entries_of f) (entry_commit_id (cp_entry c))"

text \<open>
  A commit may start when no digest collides in it and the last line of the journal has its newline.
\<close>

definition commit_safe :: "store_files \<Rightarrow> commit_plan \<Rightarrow> bool" where
  "commit_safe f c \<longleftrightarrow> fresh_commit f c \<and> \<not> sf_unterminated f"

lemmas view_defs = store_view_of_def pending_def journalled_def snapshot_fp_def entries_of_def

lemma view_lock [simp]:
  "store_view_of (f \<lparr> sf_lock := l \<rparr>) = store_view_of f" "store_ok (f \<lparr> sf_lock := l \<rparr>) = store_ok f"
  by (simp_all add: store_ok_def view_defs split: option.splits)

lemma journalHasCommit_snoc [simp]:
  "journalHasCommit (es @ [e]) k \<longleftrightarrow> journalHasCommit es k \<or> entry_commit_id e = k"
  by (auto simp: journalHasCommit_def)

lemma length_utf8_bytes: "length s \<le> length (utf8_bytes s)"
  by (induction s) (simp_all add: utf8_bytes_def Let_def)

lemma line_bytes_gt: "2 < line_bytes e"
proof -
  obtain kvs where "entry_json e = JObj kvs" by (cases e) simp_all
  then have "2 < length (stringify (entry_json e) @ [CHR 0x0A])" by simp
  with length_utf8_bytes [of "stringify (entry_json e) @ [CHR 0x0A]"] show ?thesis
    unfolding line_bytes_def by linarith
qed

section \<open>A commit\<close>

text \<open>
  To show that \<open>Q\<close> holds wherever a sequence of steps ends, show it where its first step can end the
  sequence, and for the rest of the sequence.
\<close>

lemma run_step:
  assumes "run_ops policy io n (op # ops) f = (e, m, f')"
    and "\<And>e. e \<noteq> RunDone \<Longrightarrow> Q e n f"
    and "\<And>e. e \<noteq> RunDone \<Longrightarrow> \<not> refused policy f op \<Longrightarrow> Q e n (exec_fs op f)"
    and "\<And>e k. e \<noteq> RunDone \<Longrightarrow> \<not> refused policy f op \<Longrightarrow> Q e n (tear_fs k op f)"
    and "\<not> refused policy f op \<Longrightarrow> run_ops policy io (n + 1) ops (exec_fs op f) = (e, m, f') \<Longrightarrow> Q e m f'"
  shows "Q e m f'"
  using assms by (auto split: io_event.splits if_splits)

definition commit_end :: "store_files \<Rightarrow> commit_plan \<Rightarrow> nat \<Rightarrow> run_end \<Rightarrow> nat \<Rightarrow> store_files \<Rightarrow> bool" where
  "commit_end f c n e m f' \<longleftrightarrow> store_ok f' \<and> n \<le> m \<and>
    (if e = RunDone then sf_intent f' = None \<and> store_view_of f' = (Some (cp_post c), entries_of f @ [cp_entry c])
     else store_view_of f' = store_view_of f \<or>
       n < m \<and> store_view_of f' = (Some (cp_post c), entries_of f @ [cp_entry c]))"

lemma tear_amount: "0 < 1 + int k mod (line_bytes e - 1)"
  using line_bytes_gt [of e] by (simp add: add_pos_nonneg)

text \<open>An append to a journal that is whole and ends in a newline, and what can be left of one.\<close>

lemma append_simps:
  assumes "sf_torn f = 0" "\<not> sf_unterminated f"
  shows "exec_fs (AppendEntry e) f = f \<lparr> sf_journal := Some (entries_of f @ [e]) \<rparr>"
    "tear_fs k (AppendEntry e) f = (if 1 + int k mod (line_bytes e - 1) = line_bytes e - 1
       then f \<lparr> sf_journal := Some (entries_of f @ [e]), sf_unterminated := True \<rparr>
       else f \<lparr> sf_journal := Some (entries_of f), sf_torn := 1 + int k mod (line_bytes e - 1) \<rparr>)"
  using assms by (simp_all add: glue_def Let_def)

lemma commit_run:
  assumes ok: "store_ok f" "sf_intent f = None" "snapshot_fp f = sn_fingerprint_sha256 (cp_pre c)" "commit_safe f c"
    and run: "run_ops policy io n (commitOps now c) f = (e, m, f')"
  shows "commit_end f c n e m f'"
proof -
  from ok obtain s es where f: "sf_snapshot f = Some s" "sf_journal f = Some es" "sf_torn f = 0" "\<not> sf_unterminated f"
    by (auto simp: store_ok_def commit_safe_def)
  from ok(3) f have s: "sn_fingerprint_sha256 s = sn_fingerprint_sha256 (cp_pre c)" by (simp add: snapshot_fp_def)
  from ok(4) f have new: "sn_fingerprint_sha256 (cp_pre c) \<noteq> sn_fingerprint_sha256 (cp_post c)"
      "\<not> journalHasCommit es (entry_commit_id (cp_entry c))"
    by (simp_all add: commit_safe_def fresh_commit_def entries_of_def)
  note d = commit_end_def store_ok_def view_defs f ok(2) s new intentOf_def tear_amount order_less_imp_le
    glue_def Let_def
  let ?g1 = "exec_fs (PutIntent (intentOf now c)) f"
  let ?g2 = "exec_fs (PutNext (cp_post c)) ?g1"
  let ?g3 = "exec_fs RenameNext ?g2"
  let ?g4 = "exec_fs (AppendEntry (cp_entry c)) ?g3"
  have stop: "commit_end f c n e k ?g1" "commit_end f c n e k ?g2" if "e \<noteq> RunDone" "n \<le> k" for e k
    using that by (simp_all add: d)
  have stop': "commit_end f c n e k ?g3" "commit_end f c n e k ?g4" "commit_end f c n e k (exec_fs DropIntent ?g4)"
      "commit_end f c n e k (tear_fs j (AppendEntry (cp_entry c)) ?g3)" if "e \<noteq> RunDone" "n < k" for e k j
    using that tear_amount [of j "cp_entry c"] by (simp_all add: d less_imp_le)
  have 4: "commit_end f c n e m f'" if "run_ops policy io k [DropIntent] ?g4 = (e, m, f')" "n < k" for k
  proof (rule run_step [OF that(1)], goal_cases)
    case (3 e j)
    then show ?case using stop'(2) [OF _ that(2)] by simp
  next
    case 4
    have "commit_end f c n RunDone (k + 1) (exec_fs DropIntent ?g4)" using that(2) by (simp add: d)
    with 4(2) show ?case unfolding run_ops.simps(1) prod.inject by blast
  qed (rule stop', simp, rule that(2))+
  have 3: "commit_end f c n e m f'"
    if "run_ops policy io k [AppendEntry (cp_entry c), DropIntent] ?g3 = (e, m, f')" "n < k" for k
    by (rule run_step [OF that(1)], (erule stop', rule that(2))+, erule 4, simp add: that(2) less_SucI)
  have 2: "commit_end f c n e m f'"
    if "run_ops policy io k [RenameNext, AppendEntry (cp_entry c), DropIntent] ?g2 = (e, m, f')" "n < k" for k
    by (rule run_step [OF that(1)], erule stop, simp add: that(2) less_imp_le, erule stop', rule that(2),
        unfold tear_fs.simps, erule stop, simp add: that(2) less_imp_le, erule 3, simp add: that(2) less_SucI)
  have 1: "commit_end f c n e m f'"
    if "run_ops policy io k [PutNext (cp_post c), RenameNext, AppendEntry (cp_entry c), DropIntent] ?g1 = (e, m, f')" "n < k" for k
    by (rule run_step [OF that(1)], unfold tear_fs.simps, (erule stop, simp add: that(2) less_imp_le)+, erule 2,
        simp add: that(2) less_SucI)
  show ?thesis
    by (rule run_step [OF run [unfolded commitOps_def]], unfold tear_fs.simps, simp add: d, erule stop, simp,
        simp add: d, erule 1, simp)
qed

lemma release_end:
  assumes "release policy io n thrown result f = (f', out)"
  obtains l where "f' = f \<lparr> sf_lock := l \<rparr>"
    "out = None \<or> out = Some thrown \<or> out = Some result \<and> l = None"
  using assms
  by (cases f) (auto simp: release_def split: io_event.splits if_splits run_end.splits)

text \<open>
  \<open>applyOnce\<close> and \<open>applyBlockOnce\<close> run the same protocol around their decisions. What it relies on of a
  decision: it does not depend on the lock, and a commit it decides starts from the snapshot on disk.
\<close>

definition committed :: "store_files \<Rightarrow> commit_plan \<Rightarrow> store_view" where
  "committed f c = (Some (cp_post c), entries_of f @ [cp_entry c])"

definition locked :: "int \<Rightarrow> int \<Rightarrow> store_files \<Rightarrow> store_files" where
  "locked pid now f = f \<lparr> sf_lock := Some \<lparr> lk_pid = pid, lk_created_at_ms = now \<rparr> \<rparr>"

lemma locked_simps [simp]:
  "sf_intent (locked pid now f) = sf_intent f" "store_ok (locked pid now f) = store_ok f"
  "store_view_of (locked pid now f) = store_view_of f" "entries_of (locked pid now f) = entries_of f"
  "snapshot_fp (locked pid now f) = snapshot_fp f" "fresh_commit (locked pid now f) c = fresh_commit f c"
  "committed (locked pid now f) c = committed f c" "commit_safe (locked pid now f) c = commit_safe f c"
  by (simp_all add: locked_def fresh_commit_def committed_def commit_safe_def)

lemma applyProtocol_unlocked:
  assumes "\<not> (sf_intent f = None \<and> sf_lock f = None \<and> io 0 = IoOk)"
    and "applyProtocol policy io pid now no thrown failed decide f = (f', out)"
  shows "\<exists>l. f' = f \<lparr> sf_lock := l \<rparr>" "out = None \<or> (\<exists>e b. out = Some (no e b))"
  using assms by (cases f; auto simp: applyProtocol_def split: io_event.splits if_splits)+

lemma applyProtocol_locked:
  assumes "sf_intent f = None" "sf_lock f = None" "io 0 = IoOk"
  shows "applyProtocol policy io pid now no thrown failed decide f =
    (case decide (locked pid now f) of
       Inl e \<Rightarrow> release policy io (Suc 0) thrown (no failed False) (locked pid now f)
     | Inr (Inl refusal) \<Rightarrow> release policy io (Suc 0) thrown refusal (locked pid now f)
     | Inr (Inr (c, result)) \<Rightarrow>
         (case run_ops policy io (Suc 0) (commitOps now c) (locked pid now f) of
           (RunCrashed, _, f') \<Rightarrow> (f', None)
         | (RunThrew _, m, f') \<Rightarrow> release policy io (m + 1) thrown (no failed (m > Suc 0)) f'
         | (RunDone, m, f') \<Rightarrow> release policy io m thrown result f'))"
  unfolding applyProtocol_def locked_def using assms by simp

text \<open>Where the protocol can end: nothing has changed, or the commit is complete.\<close>

definition protocol_post ::
  "(string \<Rightarrow> bool \<Rightarrow> 'r) \<Rightarrow> 'r \<Rightarrow> string \<Rightarrow> ('r + commit_plan \<times> 'r) res \<Rightarrow> store_files \<Rightarrow> store_files \<Rightarrow> 'r option \<Rightarrow> bool" where
  "protocol_post no thrown failed decision f f' out \<longleftrightarrow> store_ok f' \<and>
     (store_view_of f' = store_view_of f \<and>
       (out = None \<or> out = Some thrown \<or> (\<exists>e b. out = Some (no e b)) \<or> (\<exists>r. decision = Inr (Inl r) \<and> out = Some r)) \<or>
     (\<exists>c r. decision = Inr (Inr (c, r)) \<and> sf_intent f = None \<and> store_view_of f' = committed f c \<and>
       (out = None \<or> out = Some thrown \<or> out = Some (no failed True) \<or>
        out = Some r \<and> sf_intent f' = None \<and> sf_lock f' = None)))"

lemma commit_post:
  assumes "store_ok f" "sf_intent f = None" "snapshot_fp f = sn_fingerprint_sha256 (cp_pre c)" "commit_safe f c"
    and run: "(case run_ops policy io (Suc 0) (commitOps now c) f of
           (RunCrashed, _, f') \<Rightarrow> (f', None)
         | (RunThrew _, m, f') \<Rightarrow> release policy io (m + 1) thrown (no failed (m > Suc 0)) f'
         | (RunDone, m, f') \<Rightarrow> release policy io m thrown r f') = (f', out)"
  shows "protocol_post no thrown failed (Inr (Inr (c, r))) f f' out"
proof -
  obtain e m h where ops: "run_ops policy io (Suc 0) (commitOps now c) f = (e, m, h)" by (metis prod_cases3)
  note h = commit_run [OF assms(1-4) ops, unfolded commit_end_def]
  note d = protocol_post_def committed_def assms(2)
  show ?thesis
  proof (cases e)
    case RunDone
    with run ops have "release policy io m thrown r h = (f', out)" by simp
    then obtain l where "f' = h \<lparr> sf_lock := l \<rparr>" "out = None \<or> out = Some thrown \<or> out = Some r \<and> l = None"
      by (rule release_end)
    with h RunDone show ?thesis by (auto simp: d)
  next
    case (RunThrew x)
    with run ops have "release policy io (m + 1) thrown (no failed (m > Suc 0)) h = (f', out)" by simp
    then obtain l where "f' = h \<lparr> sf_lock := l \<rparr>"
        "out = None \<or> out = Some thrown \<or> out = Some (no failed (m > Suc 0)) \<and> l = None"
      by (rule release_end)
    with h RunThrew show ?thesis by (auto simp: d)
  next
    case RunCrashed
    with run ops h show ?thesis by (auto simp: d)
  qed
qed

locale commit_protocol =
  fixes decide :: "store_files \<Rightarrow> ('r + commit_plan \<times> 'r) res"
  assumes decide_lock: "decide (f \<lparr> sf_lock := l \<rparr>) = decide f"
    and decide_pre: "decide f = Inr (Inr (c, r)) \<Longrightarrow> snapshot_fp f = sn_fingerprint_sha256 (cp_pre c)"
begin

lemma protocol_ends:
  assumes ok: "store_ok f" and fresh: "\<And>c r. decide f = Inr (Inr (c, r)) \<Longrightarrow> commit_safe f c"
    and run: "applyProtocol policy io pid now no thrown failed decide f = (f', out)"
  shows "protocol_post no thrown failed (decide f) f f' out"
proof (cases "sf_intent f = None \<and> sf_lock f = None \<and> io 0 = IoOk")
  case False
  from applyProtocol_unlocked [OF this run] ok show ?thesis by (auto simp: protocol_post_def)
next
  case True
  let ?g = "locked pid now f"
  have dec: "decide ?g = decide f" by (simp add: locked_def decide_lock)
  from True have f: "sf_intent f = None" "sf_lock f = None" "io 0 = IoOk" by blast+
  note run = run [unfolded applyProtocol_locked [where io = io, OF f] dec]
  have "protocol_post no thrown failed (decide f) ?g f' out"
  proof (cases "\<exists>c r. decide f = Inr (Inr (c, r))")
    case False
    with run obtain result where rel: "release policy io (Suc 0) thrown result ?g = (f', out)"
      and res: "result = no failed False \<or> decide f = Inr (Inl result)"
      by (auto split: sum.splits)
    from rel obtain l where "f' = ?g \<lparr> sf_lock := l \<rparr>" "out = None \<or> out = Some thrown \<or> out = Some result \<and> l = None"
      by (rule release_end)
    with res ok show ?thesis by (auto simp: protocol_post_def)
  next
    case True
    then obtain c r where d: "decide f = Inr (Inr (c, r))" by blast
    show ?thesis
      unfolding d
    proof (rule commit_post)
      show "(case run_ops policy io (Suc 0) (commitOps now c) ?g of
           (RunCrashed, _, f') \<Rightarrow> (f', None)
         | (RunThrew _, m, f') \<Rightarrow> release policy io (m + 1) thrown (no failed (m > Suc 0)) f'
         | (RunDone, m, f') \<Rightarrow> release policy io m thrown r f') = (f', out)"
        using run by (simp add: d)
    qed (use ok fresh [OF d] decide_pre [OF d] f in simp_all)
  qed
  then show ?thesis by (simp add: protocol_post_def)
qed

end

text \<open>Both decisions are decisions in this sense.\<close>

lemma decideApply_commit:
  assumes "decideApply H E policy input f = Inr (Inr (c, r))"
  obtains q s where "validateApplyRequest H E input = Inr q" "readSnapshot H E policy f = Inr s"
    "find (\<lambda>item. ar_idempotency_key_sha256 item = aq_idempotency_key_sha256 q) (sn_applied_transactions s) = None"
    "sn_state_version s = aq_state_version q"
    "int (length (sn_applied_transactions s)) < ns_max_applied_transactions policy"
    "changeMismatch (account_map (sn_accounts s)) ''native_account_store_account_missing''
       ''native_account_store_prestate_mismatch'' (aq_account_changes q) = None"
    "c = \<lparr> cp_pre = s, cp_post = postSnapshotOf H s q, cp_entry = TransactionEntry (transactionEntryOf H s q) \<rparr>"
    "r = Applied (tj_commit_id (transactionEntryOf H s q)) (tj_state_version (transactionEntryOf H s q))
       (aq_transaction_hash q)"
  using assms unfolding decideApply_def Let_def
  by (auto simp: js_simps not_le split: option.splits if_splits)

lemma decideBlockApply_commit:
  assumes "decideBlockApply H E policy input f = Inr (Inr (c, r))"
  obtains q s es where "validateBlockApplyRequest H E input = Inr q" "readSnapshot H E policy f = Inr s"
    "readJournal policy f = Inr es" "find (same_block (bq_block_idempotency_key_sha256 q)) es = None"
    "sn_state_version s = bq_parent_state_version q"
    "sn_fingerprint_sha256 s = bq_parent_snapshot_fingerprint_sha256 q"
    "changeMismatch (account_map (sn_accounts s)) ''native_account_store_block_account_missing''
       ''native_account_store_block_prestate_mismatch'' (bq_aggregate_account_changes q) = None"
    "projectedAccountsFingerprint H (bq_final_state_version q) (postAccountsOf s q) = bq_final_accounts_fingerprint_sha256 q"
    "c = \<lparr> cp_pre = s, cp_post = blockPostSnapshotOf H s q, cp_entry = BlockEntry (blockEntryOf H s q) \<rparr>"
    "r = BlockApplied (bj_commit_id (blockEntryOf H s q)) (bq_block_hash q) (bq_block_number q)
       (bq_final_state_version q) (bq_transaction_count q)"
  using assms unfolding decideBlockApply_def Let_def
  by (auto simp: js_simps split: option.splits if_splits)

interpretation transfer_commit: commit_protocol "decideApply H E policy input" for H E policy input
proof
  show "decideApply H E policy input (f \<lparr> sf_lock := l \<rparr>) = decideApply H E policy input f" for f l
    by (simp add: decideApply_def)
  show "snapshot_fp f = sn_fingerprint_sha256 (cp_pre c)" if "decideApply H E policy input f = Inr (Inr (c, r))" for f c r
    using that by (rule decideApply_commit) (simp add: readSnapshot_fp)
qed

interpretation block_commit: commit_protocol "decideBlockApply H E policy input" for H E policy input
proof
  show "decideBlockApply H E policy input (f \<lparr> sf_lock := l \<rparr>) = decideBlockApply H E policy input f" for f l
    by (simp add: decideBlockApply_def)
  show "snapshot_fp f = sn_fingerprint_sha256 (cp_pre c)" if "decideBlockApply H E policy input f = Inr (Inr (c, r))" for f c r
    using that by (rule decideBlockApply_commit) (simp add: readSnapshot_fp)
qed

section \<open>Recovery\<close>

text \<open>What recovery keeps: the invariant and the view; when it is done the intent is gone.\<close>

definition recovery_end :: "store_files \<Rightarrow> bool \<Rightarrow> store_files \<Rightarrow> bool" where
  "recovery_end f finished f' \<longleftrightarrow>
     store_ok f' \<and> store_view_of f' = store_view_of f \<and> (finished \<longrightarrow> sf_intent f' = None)"

lemma drop_intent_run:
  assumes "store_ok f" "sf_intent f = Some i" "pending f = []" "sf_torn f = 0"
    and "run_ops policy io n (dn @ [DropIntent]) f = (e, m, f')"
    and "dn = [] \<or> dn = [DropNext]"
  shows "recovery_end f (e = RunDone) f'"
proof -
  have drop: "recovery_end f (e = RunDone) f'"
    if "run_ops policy io k [DropIntent] g = (e, m, f')" "g = f \<lparr> sf_snapshot_next := x \<rparr>" for g k x
    by (rule run_step [OF that(1)]) (use assms in \<open>auto simp: recovery_end_def store_ok_def view_defs that(2)\<close>)
  have stop: "recovery_end f False (f \<lparr> sf_snapshot_next := x \<rparr>)" for x
    using assms(1) by (auto simp: recovery_end_def store_ok_def view_defs assms(2))
  from assms(6) show ?thesis
  proof
    assume "dn = []"
    with assms(5) drop [of n f "sf_snapshot_next f"] show ?thesis by simp
  next
    assume dn: "dn = [DropNext]"
    show ?thesis
    proof (rule run_step [OF assms(5) [unfolded dn append.simps]])
      show "run_ops policy io (n + 1) [DropIntent] (exec_fs DropNext f) = (e, m, f') \<Longrightarrow> recovery_end f (e = RunDone) f'"
        by (rule drop [where x = None]) simp_all
    qed (use stop [of None] stop [of "sf_snapshot_next f"] in simp_all)
  qed
qed

lemma decideRecovery_cases:
  assumes "decideRecovery H E policy stale f = Inr (ops, result)" "sf_journal f \<noteq> None"
  obtains
    (idle) "ops = []" "sf_intent f = None \<or> (\<exists>e. result = RecoveryHeld e)"
  | (undo) i dn where "sf_intent f = Some i" "snapshot_fp f = it_pre_snapshot_fingerprint_sha256 i"
      "ops = dn @ [DropIntent]" "dn = [] \<or> dn = [DropNext]"
  | (finish) i dn where "sf_intent f = Some i" "snapshot_fp f = it_post_snapshot_fingerprint_sha256 i" "sf_torn f \<le> 0"
      "ops = (if journalled f i then [] else [AppendEntry (it_journal_entry i)]) @ dn @ [DropIntent]"
      "dn = [] \<or> dn = [DropNext]"
proof (cases "sf_intent f")
  case None
  with assms idle show ?thesis by (simp add: decideRecovery_def)
next
  case (Some i)
  let ?dn = "if sf_snapshot_next f = None then [] else [DropNext]"
  from assms(1) obtain j s where j: "validateIntent H E policy i = Inr j" and s: "readSnapshot H E policy f = Inr s"
    and r: "(if sn_fingerprint_sha256 s = it_pre_snapshot_fingerprint_sha256 j
         then Inr (?dn @ [DropIntent], RecoveryOk RolledBack stale True False True)
         else if sn_fingerprint_sha256 s = it_post_snapshot_fingerprint_sha256 j
         then bnd (readJournal policy f) (\<lambda>journal.
           let has = journalHasCommit journal (entry_commit_id (it_journal_entry j)) in
           Inr ((if has then [] else [AppendEntry (it_journal_entry j)]) @ ?dn @ [DropIntent],
                RecoveryOk Completed stale True (\<not> has) True))
         else Inr ([], RecoveryHeld ''native_account_store_intent_snapshot_divergence'')) = Inr (ops, result)"
    unfolding decideRecovery_def Some option.case guard_eq_Inr bnd_eq_Inr Let_def by blast
  note v = validateIntent_Inr [OF j] readSnapshot_fp(1) [OF s]
  show ?thesis
  proof (cases "snapshot_fp f = it_pre_snapshot_fingerprint_sha256 i")
    case True
    with r v show ?thesis by (intro undo [of i ?dn]) (auto simp: Some)
  next
    case pre: False
    show ?thesis
    proof (cases "snapshot_fp f = it_post_snapshot_fingerprint_sha256 i")
      case True
      with r v pre obtain es where es: "readJournal policy f = Inr es" and
        "ops = (if journalHasCommit es (entry_commit_id (it_journal_entry i)) then []
           else [AppendEntry (it_journal_entry i)]) @ ?dn @ [DropIntent]"
        by (auto simp: bnd_eq_Inr Let_def)
      with readJournal_Inr [OF es] assms(2) Some True show ?thesis
        by (intro finish [of i ?dn]) (auto simp: journalled_def)
    next
      case False
      with r v pre show ?thesis by (intro idle) auto
    qed
  qed
qed

lemma recovery_run:
  assumes ok: "store_ok f" and dec: "decideRecovery H E policy stale f = Inr (ops, result)"
    and run: "run_ops policy io n ops f = (e, m, f')"
  shows "recovery_end f (e = RunDone \<and> (\<forall>e. result \<noteq> RecoveryHeld e)) f'"
proof -
  from ok have "sf_journal f \<noteq> None" by (simp add: store_ok_def)
  from dec this show ?thesis
  proof (cases rule: decideRecovery_cases)
    case idle
    with run ok show ?thesis by (auto simp: recovery_end_def)
  next
    case (undo i dn)
    with ok have "pending f = []" "sf_torn f = 0" by (auto simp: store_ok_def pending_def)
    from drop_intent_run [OF ok undo(1) this run [unfolded undo(3)] undo(4)] show ?thesis
      by (simp add: recovery_end_def)
  next
    case (finish i dn)
    with ok have torn: "sf_torn f = 0" by (simp add: store_ok_def)
    show ?thesis
    proof (cases "journalled f i")
      case True
      with finish have "pending f = []" "ops = dn @ [DropIntent]" by (simp_all add: pending_def)
      from drop_intent_run [OF ok finish(1) this(1) torn run [unfolded this(2)] finish(5)] show ?thesis
        by (simp add: recovery_end_def)
    next
      case False
      from finish(4) False have ops: "ops = AppendEntry (it_journal_entry i) # dn @ [DropIntent]" by simp
      let ?g = "exec_fs (AppendEntry (it_journal_entry i)) f"
      have g: "recovery_end f False ?g" "sf_intent ?g = Some i" "pending ?g = []" "sf_torn ?g = 0"
        and t: "recovery_end f False (tear_fs k (AppendEntry (it_journal_entry i)) f)" for k
        using ok finish False tear_amount [of k "it_journal_entry i"]
        by (auto simp: recovery_end_def store_ok_def view_defs torn glue_def Let_def)
      show ?thesis
      proof (rule run_step [OF run [unfolded ops]])
        assume "run_ops policy io (n + 1) (dn @ [DropIntent]) ?g = (e, m, f')"
        from drop_intent_run [OF _ g(2-4) this finish(5)] g(1) show ?thesis by (simp add: recovery_end_def)
      qed (use ok g t in \<open>auto simp: recovery_end_def\<close>)
    qed
  qed
qed

definition is_ok :: "recovery_result \<Rightarrow> bool" where
  "is_ok r \<longleftrightarrow> (\<exists>s a b c d. r = RecoveryOk s a b c d)"

lemma recoverLocked_end:
  assumes ok: "store_ok f" and run: "recoverLocked H E policy io n l stale f = (f', out)"
  shows "recovery_end f (\<exists>r. out = Some r \<and> is_ok r) f'"
proof (cases "io n = IoOk \<and> sf_lock f = None")
  case False
  with run ok show ?thesis
    by (auto simp: recoverLocked_def recovery_end_def is_ok_def split: io_event.splits if_splits)
next
  case True
  let ?g = "f \<lparr> sf_lock := Some l \<rparr>"
  have rel: "recovery_end f (\<exists>r. out = Some r \<and> is_ok r) f'"
    if "release policy io k (RecoveryThrows ''Error'') r h = (f', out)" "recovery_end ?g (is_ok r) h" for k r h
    using that(1) by (rule release_end) (use that(2) in \<open>auto simp: recovery_end_def is_ok_def\<close>)
  from True run have run: "(case decideRecovery H E policy stale ?g of
           Inl e \<Rightarrow> release policy io (Suc n) (RecoveryThrows ''Error'') (RecoveryHeld e) ?g
         | Inr (ops, result) \<Rightarrow>
             (case run_ops policy io (Suc n) ops ?g of
               (RunCrashed, _, f') \<Rightarrow> (f', None)
             | (RunThrew e, k, f') \<Rightarrow> release policy io (k + 1) (RecoveryThrows ''Error'') (RecoveryHeld e) f'
             | (RunDone, k, f') \<Rightarrow> release policy io k (RecoveryThrows ''Error'') result f')) = (f', out)"
    unfolding recoverLocked_def by simp
  show ?thesis
  proof (cases "decideRecovery H E policy stale ?g")
    case (Inl e)
    with run have "release policy io (Suc n) (RecoveryThrows ''Error'') (RecoveryHeld e) ?g = (f', out)" by simp
    then show ?thesis by (rule rel) (use ok in \<open>simp add: recovery_end_def is_ok_def\<close>)
  next
    case (Inr p)
    obtain ops result where p: "p = (ops, result)" by force
    obtain e m h where ops: "run_ops policy io (Suc n) ops ?g = (e, m, h)" by (metis prod_cases3)
    have "recovery_end ?g (e = RunDone \<and> (\<forall>e. result \<noteq> RecoveryHeld e)) h"
      by (rule recovery_run [OF _ Inr [unfolded p] ops]) (use ok in simp)
    with run Inr p ops rel show ?thesis
      by (cases e) (auto simp: recovery_end_def is_ok_def)
  qed
qed

lemma recovery_keeps:
  assumes ok: "store_ok f"
    and run: "recoverVoidNativeAccountStateStoreV1 H E io kill pid clock policy0 confirmation now f = (f', out)"
  shows "recovery_end f (\<exists>r. out = Some r \<and> is_ok r) f'"
proof -
  have same: "recovery_end f False (f \<lparr> sf_lock := l \<rparr>)" for l
    using ok by (simp add: recovery_end_def)
  show ?thesis
    using run same [of None] same [of "sf_lock f"] recoverLocked_end [of "f \<lparr> sf_lock := None \<rparr>"] recoverLocked_end [OF ok] ok
    unfolding recoverVoidNativeAccountStateStoreV1_def
    by (auto simp: is_ok_def recovery_end_def Let_def split: if_splits sum.splits option.splits bool.splits io_event.splits)
qed

end
