(* ===== verification/Native_Store_Ledger.thy ===== *)
theory Native_Store_Ledger
  imports Native_Store_Atomic
begin

text \<open>
  What a commit does to the accounts. A validated request changes distinct accounts, what it takes
  from them is what it burns, and it counts their nonces up by its transactions; so does the snapshot
  that a commit writes.
\<close>

section \<open>Totals\<close>

definition row_total :: "(account_row \<Rightarrow> string) \<Rightarrow> account_row list \<Rightarrow> int" where
  "row_total g rows = (\<Sum>r\<leftarrow>rows. dec_val (g r))"

lemma row_total_simps [simp]:
  "row_total g [] = 0" "row_total g (r # rows) = dec_val (g r) + row_total g rows"
  by (simp_all add: row_total_def)

lemma row_total_sort [simp]: "row_total g (sort_key k rows) = row_total g rows"
proof -
  have "mset (map (\<lambda>r. dec_val (g r)) (sort_key k rows)) = mset (map (\<lambda>r. dec_val (g r)) rows)" by simp
  then show ?thesis unfolding row_total_def by (metis sum_mset_sum_list)
qed

lemma row_total_put:
  assumes "distinct (map fst m)" "map_of m k = Some old"
  shows "row_total g (map snd (map_put k r m)) = row_total g (map snd m) - dec_val (g old) + dec_val (g r)"
proof -
  have upd: "map_put k r m = map (\<lambda>(k', v'). (k', if k' = k then r else v')) m"
    using assms(2) by (auto simp: map_put_def dest!: map_of_SomeD) force
  have "row_total g (map snd (map (\<lambda>(k', v'). (k', if k' = k then r else v')) m)) =
      row_total g (map snd m) - dec_val (g old) + dec_val (g r)"
    using assms
  proof (induction m)
    case (Cons p m)
    obtain a x where p: "p = (a, x)" by force
    show ?case
    proof (cases "a = k")
      case True
      with Cons.prems p have "k \<notin> fst ` set m" "x = old" by auto
      then have "map (\<lambda>(k', v'). (k', if k' = k then r else v')) m = m" by (force intro: map_idI)
      with True \<open>x = old\<close> p show ?thesis by simp
    next
      case False
      with Cons p show ?thesis by simp
    qed
  qed simp
  then show ?thesis by (simp only: upd)
qed

section \<open>Changes that fit the accounts\<close>

lemma changeMismatch_None:
  "changeMismatch m missing mismatch cs = None \<longleftrightarrow> list_all (prestateMatches m) cs"
  by (induction cs) (auto simp: prestateMatches_def split: option.splits)

lemma row_total_changes:
  assumes "distinct (map fst m)" "list_all (prestateMatches m) cs" "distinct (map ac_address cs)"
    and pre: "\<And>m c r. prestateMatches m c \<Longrightarrow> map_of m (ac_address c) = Some r \<Longrightarrow> g r = bef c"
    and post: "\<And>c. g (change_row c) = aft c"
  shows "row_total g (map snd (applyChanges m cs)) =
    row_total g (map snd m) - (\<Sum>c\<leftarrow>cs. dec_val (bef c)) + (\<Sum>c\<leftarrow>cs. dec_val (aft c))"
  using assms(1-3)
proof (induction cs arbitrary: m)
  case (Cons c cs)
  let ?m = "map_put (ac_address c) (change_row c) m"
  from Cons.prems(2) obtain r where r: "map_of m (ac_address c) = Some r"
    by (auto simp: prestateMatches_def split: option.splits)
  have "prestateMatches ?m d" if "d \<in> set cs" for d
  proof -
    have "ac_address d \<noteq> ac_address c" using that Cons.prems(3) by (simp, metis imageI)
    with that Cons.prems(2) show ?thesis by (auto simp: prestateMatches_def list_all_iff)
  qed
  then have "list_all (prestateMatches ?m) cs" by (simp add: list_all_iff)
  from Cons.IH [OF _ this] Cons.prems
  have "row_total g (map snd (applyChanges ?m cs)) =
      row_total g (map snd ?m) - (\<Sum>c\<leftarrow>cs. dec_val (bef c)) + (\<Sum>c\<leftarrow>cs. dec_val (aft c))" by simp
  moreover have "g r = bef c" using pre [OF _ r] Cons.prems(2) by simp
  ultimately show ?case using row_total_put [OF Cons.prems(1) r, of g "change_row c"] by (simp add: post)
qed simp

lemma balance_changes:
  assumes "distinct (map fst m)" "list_all (prestateMatches m) cs" "distinct (map ac_address cs)"
  shows "row_total r_balance_wei (map snd (applyChanges m cs)) = row_total r_balance_wei (map snd m)
      - (\<Sum>c\<leftarrow>cs. dec_val (ac_balance_before_wei c)) + (\<Sum>c\<leftarrow>cs. dec_val (ac_balance_after_wei c))"
    "row_total r_nonce (map snd (applyChanges m cs)) = row_total r_nonce (map snd m)
      - (\<Sum>c\<leftarrow>cs. dec_val (ac_nonce_before c)) + (\<Sum>c\<leftarrow>cs. dec_val (ac_nonce_after c))"
  by (rule row_total_changes [OF assms]; simp add: prestateMatches_def change_row_def)+

section \<open>Validated requests\<close>

text \<open>
  What both kinds of request promise of their changes: distinct normalised addresses in order,
  decimal amounts, the burned amount and the number of transactions.
\<close>

definition normal_address :: "ethers \<Rightarrow> string \<Rightarrow> bool" where
  "normal_address E a \<longleftrightarrow> (\<exists>v x. getAddress E v = Inr x \<and> a = js_lower x \<and> a \<noteq> ZERO_ADDRESS)"

lemma normalizeAddress_ok: "normalizeAddress E v l = Inr a \<Longrightarrow> normal_address E a"
  unfolding normalizeAddress_def normal_address_def bnd_eq_Inr guard_eq_Inr by blast

definition changes_ok :: "ethers \<Rightarrow> account_change list \<Rightarrow> bool" where
  "changes_ok E cs \<longleftrightarrow> distinct (map ac_address cs) \<and> (\<forall>c \<in> set cs. normal_address E (ac_address c) \<and> change_decimal c)"

definition takes :: "account_change list \<Rightarrow> int" where
  "takes cs = (\<Sum>c\<leftarrow>cs. dec_val (ac_balance_before_wei c)) - (\<Sum>c\<leftarrow>cs. dec_val (ac_balance_after_wei c))"

definition counts :: "account_change list \<Rightarrow> int" where
  "counts cs = (\<Sum>c\<leftarrow>cs. dec_val (ac_nonce_after c)) - (\<Sum>c\<leftarrow>cs. dec_val (ac_nonce_before c))"

lemma applyRequestStep_ok:
  assumes "applyRequestStep E s item = Inr s'"
  obtains c where "cs_changes s' = cs_changes s @ [c]" "ac_address c \<notin> ac_address ` set (cs_changes s)"
    "normal_address E (ac_address c)" "change_decimal c"
    "cs_beforeTotal s' = cs_beforeTotal s + dec_val (ac_balance_before_wei c)"
    "cs_afterTotal s' = cs_afterTotal s + dec_val (ac_balance_after_wei c)"
    "cs_nonceIncrementCount s' = cs_nonceIncrementCount s + (dec_val (ac_nonce_after c) - dec_val (ac_nonce_before c))"
proof -
  from assms obtain a bb ba nb na where a: "normalizeAddress E (ac_address item) ''change_address'' = Inr a"
    and new: "a \<notin> ac_address ` set (cs_changes s)"
    and n: "parseUint (UStr (ac_balance_before_wei item)) ''change_balance_before_wei'' = Inr bb"
      "parseUint (UStr (ac_balance_after_wei item)) ''change_balance_after_wei'' = Inr ba"
      "parseUint (UStr (ac_nonce_before item)) ''change_nonce_before'' = Inr nb"
      "parseUint (UStr (ac_nonce_after item)) ''change_nonce_after'' = Inr na"
    and d: "na = nb + 1 \<or> na = nb"
    and s': "s' = \<lparr> cs_changes = cs_changes s @ [\<lparr> ac_address = a,
              ac_balance_before_wei = int_str bb, ac_balance_after_wei = int_str ba,
              ac_nonce_before = int_str nb, ac_nonce_after = int_str na \<rparr>],
            cs_nonceIncrementCount = cs_nonceIncrementCount s + (if na = nb + 1 then 1 else 0),
            cs_beforeTotal = cs_beforeTotal s + bb, cs_afterTotal = cs_afterTotal s + ba \<rparr>"
    unfolding applyRequestStep_def bnd_eq_Inr guard_eq_Inr by blast
  note nn = n [THEN parseUint_nonneg]
  show ?thesis
    by (rule that [of "\<lparr> ac_address = a, ac_balance_before_wei = int_str bb, ac_balance_after_wei = int_str ba,
        ac_nonce_before = int_str nb, ac_nonce_after = int_str na \<rparr>"])
      (use new normalizeAddress_ok [OF a] nn d in \<open>auto simp: s' change_decimal_def\<close>)
qed

definition sums_ok :: "ethers \<Rightarrow> change_sums \<Rightarrow> bool" where
  "sums_ok E s \<longleftrightarrow> changes_ok E (cs_changes s) \<and> cs_beforeTotal s - cs_afterTotal s = takes (cs_changes s) \<and>
     cs_nonceIncrementCount s = counts (cs_changes s)"

lemma sums_ok_step: "sums_ok E s \<Longrightarrow> applyRequestStep E s item = Inr s' \<Longrightarrow> sums_ok E s'"
  by (erule applyRequestStep_ok) (auto simp: sums_ok_def changes_ok_def takes_def counts_def)

lemma validateApplyRequest_ok:
  assumes "validateApplyRequest H E input = Inr q"
  shows "changes_ok E (aq_account_changes q)" "takes (aq_account_changes q) = aq_fee_burned_wei q"
    "counts (aq_account_changes q) = 1" "0 \<le> aq_fee_burned_wei q" "sorted (map ac_address (aq_account_changes q))"
    "SHA256 (aq_idempotency_key_sha256 q)" "TRANSACTION_HASH (aq_transaction_hash q)" "SAFE_ID (aq_state_version q)"
    "SHA256 (aq_prestate_fingerprint_sha256 q)" "SHA256 (aq_poststate_fingerprint_sha256 q)" "SHA256 (aq_plan_binding_sha256 q)"
proof -
  let ?s = "\<lparr> cs_changes = [], cs_nonceIncrementCount = 0, cs_beforeTotal = 0, cs_afterTotal = 0 \<rparr>"
  have "post (\<lambda>q. \<exists>sums. foldM (applyRequestStep E) ?s (sr_account_changes input) = Inr sums \<and>
      aq_account_changes q = sort_key ac_address (cs_changes sums) \<and> sort_key ac_address (cs_changes sums) = cs_changes sums \<and>
      cs_nonceIncrementCount sums = 1 \<and> cs_beforeTotal sums - cs_afterTotal sums = aq_fee_burned_wei q \<and>
      cs_afterTotal sums \<le> cs_beforeTotal sums \<and>
      SHA256 (aq_idempotency_key_sha256 q) \<and> TRANSACTION_HASH (aq_transaction_hash q) \<and> SAFE_ID (aq_state_version q) \<and>
      SHA256 (aq_prestate_fingerprint_sha256 q) \<and> SHA256 (aq_poststate_fingerprint_sha256 q) \<and> SHA256 (aq_plan_binding_sha256 q))
    (validateApplyRequest H E input)"
    unfolding validateApplyRequest_def Let_def by (intro post_guard post_bnd) simp
  from postD [OF this assms] obtain sums where f: "foldM (applyRequestStep E) ?s (sr_account_changes input) = Inr sums"
    and q: "aq_account_changes q = cs_changes sums" "sort_key ac_address (cs_changes sums) = cs_changes sums"
      "cs_nonceIncrementCount sums = 1" "cs_beforeTotal sums - cs_afterTotal sums = aq_fee_burned_wei q"
      "cs_afterTotal sums \<le> cs_beforeTotal sums"
      "SHA256 (aq_idempotency_key_sha256 q)" "TRANSACTION_HASH (aq_transaction_hash q)" "SAFE_ID (aq_state_version q)"
      "SHA256 (aq_prestate_fingerprint_sha256 q)" "SHA256 (aq_poststate_fingerprint_sha256 q)" "SHA256 (aq_plan_binding_sha256 q)"
    by metis
  have "sums_ok E ?s" by (simp add: sums_ok_def changes_ok_def takes_def counts_def)
  with f have "sums_ok E sums" by (rule foldM_invariant) (rule sums_ok_step)
  with q show "changes_ok E (aq_account_changes q)" "takes (aq_account_changes q) = aq_fee_burned_wei q"
    "counts (aq_account_changes q) = 1" "0 \<le> aq_fee_burned_wei q"
    by (auto simp: sums_ok_def)
  show "sorted (map ac_address (aq_account_changes q))" unfolding q(1) by (metis q(2) sorted_sort_key)
  show "SHA256 (aq_idempotency_key_sha256 q)" "TRANSACTION_HASH (aq_transaction_hash q)" "SAFE_ID (aq_state_version q)"
    "SHA256 (aq_prestate_fingerprint_sha256 q)" "SHA256 (aq_poststate_fingerprint_sha256 q)" "SHA256 (aq_plan_binding_sha256 q)"
    by (rule q)+
qed

lemma blockChangeStep_ok:
  assumes "blockChangeStep E s item = Inr s'"
  obtains c where "ks_changes s' = ks_changes s @ [c]" "ac_address c \<notin> ac_address ` set (ks_changes s)"
    "ks_previousAddress s \<noteq> '''' \<longrightarrow> ks_previousAddress s < ac_address c" "ks_previousAddress s' = ac_address c"
    "normal_address E (ac_address c)" "change_decimal c"
    "ks_totalBefore s' = ks_totalBefore s + dec_val (ac_balance_before_wei c)"
    "ks_totalAfter s' = ks_totalAfter s + dec_val (ac_balance_after_wei c)"
    "ks_totalNonceDelta s' = ks_totalNonceDelta s + (dec_val (ac_nonce_after c) - dec_val (ac_nonce_before c))"
proof -
  from assms obtain a bb ba nb na where a: "normalizeAddress E (ac_address item) ''block_change_address'' = Inr a"
    and new: "a \<notin> ac_address ` set (ks_changes s)" "\<not> (ks_previousAddress s \<noteq> '''' \<and> a \<le> ks_previousAddress s)"
    and n: "parseUint (UStr (ac_balance_before_wei item)) ''block_change_balance_before_wei'' = Inr bb"
      "parseUint (UStr (ac_balance_after_wei item)) ''block_change_balance_after_wei'' = Inr ba"
      "parseUint (UStr (ac_nonce_before item)) ''block_change_nonce_before'' = Inr nb"
      "parseUint (UStr (ac_nonce_after item)) ''block_change_nonce_after'' = Inr na"
    and s': "s' = \<lparr> ks_changes = ks_changes s @ [\<lparr> ac_address = a,
              ac_balance_before_wei = int_str bb, ac_balance_after_wei = int_str ba,
              ac_nonce_before = int_str nb, ac_nonce_after = int_str na \<rparr>],
            ks_previousAddress = a,
            ks_totalBefore = ks_totalBefore s + bb, ks_totalAfter = ks_totalAfter s + ba,
            ks_totalNonceDelta = ks_totalNonceDelta s + (na - nb) \<rparr>"
    unfolding blockChangeStep_def bnd_eq_Inr guard_eq_Inr by blast
  note nn = n [THEN parseUint_nonneg]
  show ?thesis
    by (rule that [of "\<lparr> ac_address = a, ac_balance_before_wei = int_str bb, ac_balance_after_wei = int_str ba,
        ac_nonce_before = int_str nb, ac_nonce_after = int_str na \<rparr>"])
      (use new normalizeAddress_ok [OF a] nn in \<open>auto simp: s' change_decimal_def\<close>)
qed

definition block_sums_ok :: "ethers \<Rightarrow> block_sums \<Rightarrow> bool" where
  "block_sums_ok E s \<longleftrightarrow> changes_ok E (ks_changes s) \<and> ks_totalBefore s - ks_totalAfter s = takes (ks_changes s) \<and>
     ks_totalNonceDelta s = counts (ks_changes s)"

lemma block_sums_ok_step: "block_sums_ok E s \<Longrightarrow> blockChangeStep E s item = Inr s' \<Longrightarrow> block_sums_ok E s'"
  by (erule blockChangeStep_ok) (auto simp: block_sums_ok_def changes_ok_def takes_def counts_def)

text \<open>The fields of a block request that its journal entry repeats.\<close>

definition block_fields_ok :: "block_apply_request \<Rightarrow> bool" where
  "block_fields_ok q \<longleftrightarrow> SHA256 (bq_block_idempotency_key_sha256 q) \<and> TRANSACTION_HASH (bq_block_hash q) \<and>
     is_decimal (bq_block_number q) \<and> isSafeInteger (JNum (bq_transaction_count q)) \<and> 0 < bq_transaction_count q \<and>
     SAFE_ID (bq_parent_state_version q) \<and> SAFE_ID (bq_final_state_version q) \<and>
     SHA256 (bq_parent_snapshot_fingerprint_sha256 q) \<and> SHA256 (bq_final_accounts_fingerprint_sha256 q) \<and>
     int (length (bq_ordered_transaction_hashes q)) = bq_transaction_count q \<and>
     \<not> list_ex (\<lambda>h. \<not> TRANSACTION_HASH h) (bq_ordered_transaction_hashes q) \<and>
     int (length (bq_transaction_plan_bindings_sha256 q)) = bq_transaction_count q \<and>
     \<not> list_ex (\<lambda>b. \<not> SHA256 b) (bq_transaction_plan_bindings_sha256 q) \<and>
     bq_aggregate_account_changes q \<noteq> [] \<and> SHA256 (bq_block_binding_sha256 q)"

lemma foldM_blockChange_length:
  "foldM (blockChangeStep E) s xs = Inr t \<Longrightarrow> length (ks_changes t) = length (ks_changes s) + length xs"
  by (induction xs arbitrary: s) (auto simp: js_simps elim!: blockChangeStep_ok)

lemma validateBlockApplyRequest_ok:
  assumes "validateBlockApplyRequest H E input = Inr q"
  shows "changes_ok E (bq_aggregate_account_changes q)" "takes (bq_aggregate_account_changes q) = bq_total_fee_burned_wei q"
    "counts (bq_aggregate_account_changes q) = bq_transaction_count q" "0 \<le> bq_total_fee_burned_wei q"
    "block_fields_ok q"
proof -
  let ?s = "\<lparr> ks_changes = [], ks_previousAddress = '''', ks_totalBefore = 0, ks_totalAfter = 0, ks_totalNonceDelta = 0 \<rparr>"
  have w: "post (\<lambda>q. \<exists>sums. foldM (blockChangeStep E) ?s (br_aggregate_account_changes input) = Inr sums \<and>
      br_aggregate_account_changes input \<noteq> [] \<and>
      bq_aggregate_account_changes q = ks_changes sums \<and> ks_totalNonceDelta sums = bq_transaction_count q \<and>
      ks_totalBefore sums - ks_totalAfter sums = bq_total_fee_burned_wei q \<and> ks_totalAfter sums \<le> ks_totalBefore sums \<and>
      (bq_aggregate_account_changes q \<noteq> [] \<longrightarrow> block_fields_ok q))
    (validateBlockApplyRequest H E input)"
    unfolding validateBlockApplyRequest_def Let_def block_fields_ok_def
    by (intro post_guard post_bnd) (simp add: parseUint_nonneg not_le)
  from postD [OF w assms] obtain sums where
    f: "foldM (blockChangeStep E) ?s (br_aggregate_account_changes input) = Inr sums" "br_aggregate_account_changes input \<noteq> []"
    and q: "bq_aggregate_account_changes q = ks_changes sums" "ks_totalNonceDelta sums = bq_transaction_count q"
      "ks_totalBefore sums - ks_totalAfter sums = bq_total_fee_burned_wei q" "ks_totalAfter sums \<le> ks_totalBefore sums"
    and fields: "bq_aggregate_account_changes q \<noteq> [] \<longrightarrow> block_fields_ok q"
    by blast
  have "block_sums_ok E ?s" by (simp add: block_sums_ok_def changes_ok_def takes_def counts_def)
  with f(1) have "block_sums_ok E sums" by (rule foldM_invariant) (rule block_sums_ok_step)
  with q show "changes_ok E (bq_aggregate_account_changes q)" "takes (bq_aggregate_account_changes q) = bq_total_fee_burned_wei q"
    "counts (bq_aggregate_account_changes q) = bq_transaction_count q" "0 \<le> bq_total_fee_burned_wei q"
    by (auto simp: block_sums_ok_def)
  from foldM_blockChange_length [OF f(1)] f(2) have "ks_changes sums \<noteq> []" by auto
  with fields q(1) show "block_fields_ok q" by simp
qed

section \<open>Validated snapshots\<close>

lemma normalizeAccount_ok:
  assumes "normalizeAccount E a (UStr b) (UStr n) = Inr r"
  shows "normal_address E (r_address r)" "r_balance_wei r = b" "r_nonce r = n" "is_decimal b" "is_decimal n"
proof -
  from assms obtain x y where "normalizeAddress E a ''account_address'' = Inr (r_address r)"
      "parseUint (UStr b) ''account_balance_wei'' = Inr x" "parseUint (UStr n) ''account_nonce'' = Inr y"
      "r_balance_wei r = int_str x" "r_nonce r = int_str y"
    unfolding normalizeAccount_def bnd_eq_Inr by auto
  note p = parseUint_UStr [OF this(2)] parseUint_UStr [OF this(3)] this
  show "normal_address E (r_address r)" "r_balance_wei r = b" "r_nonce r = n" "is_decimal b" "is_decimal n"
    using p normalizeAddress_ok by (simp_all add: is_decimal_nonneg)
qed

definition row_ok :: "ethers \<Rightarrow> account_row \<Rightarrow> bool" where
  "row_ok E r \<longleftrightarrow> normal_address E (r_address r) \<and> is_decimal (r_balance_wei r) \<and> is_decimal (r_nonce r)"

lemma normalizeAccounts_ok:
  assumes "foldM (normalizeAccountStep E) [] xs = Inr ys"
  shows "distinct (map r_address ys)" "\<forall>r \<in> set ys. row_ok E r"
    "map r_balance_wei ys = map r_balance_wei xs" "map r_nonce ys = map r_nonce xs"
proof -
  let ?Q = "\<lambda>(ys :: account_row list) (xs :: account_row list). distinct (map r_address ys) \<and> (\<forall>r \<in> set ys. row_ok E r) \<and>
    map r_balance_wei ys = map r_balance_wei xs \<and> map r_nonce ys = map r_nonce xs"
  have "?Q ys xs"
  proof (rule foldM_prefix_induct [where Q = ?Q, OF assms])
    fix ys ys' zs :: "account_row list" and x assume Q: "?Q ys zs" and st: "normalizeAccountStep E ys x = Inr ys'"
    from st obtain r where r: "normalizeAccount E (r_address x) (UStr (r_balance_wei x)) (UStr (r_nonce x)) = Inr r"
      "r_address r \<notin> r_address ` set ys" "ys' = ys @ [r]"
      unfolding normalizeAccountStep_def bnd_eq_Inr guard_eq_Inr by blast
    with Q normalizeAccount_ok [OF r(1)] show "?Q ys' (zs @ [x])" by (auto simp: row_ok_def)
  qed simp
  then show "distinct (map r_address ys)" "\<forall>r \<in> set ys. row_ok E r"
    "map r_balance_wei ys = map r_balance_wei xs" "map r_nonce ys = map r_nonce xs" by blast+
qed

lemma hex_lower: "hex_n n s \<Longrightarrow> js_lower s = s"
  by (auto simp: hex_n_def js_lower_def list_all_iff no_space intro: map_idI)

definition applied_ok :: "applied_row \<Rightarrow> bool" where
  "applied_ok r \<longleftrightarrow> SHA256 (ar_idempotency_key_sha256 r) \<and> TRANSACTION_HASH (ar_transaction_hash r) \<and>
     SAFE_ID (ar_commit_id r) \<and> SAFE_ID (ar_state_version r)"

definition lower_applied :: "applied_row \<Rightarrow> applied_row" where
  "lower_applied r = \<lparr> ar_idempotency_key_sha256 = js_lower (ar_idempotency_key_sha256 r),
     ar_transaction_hash = js_lower (ar_transaction_hash r), ar_commit_id = ar_commit_id r,
     ar_state_version = ar_state_version r \<rparr>"

lemma prefix_lower: "prefix_hex ''0x'' n s \<Longrightarrow> js_lower s = s"
proof -
  assume "prefix_hex ''0x'' n s"
  then have "take 2 s = ''0x''" and h: "hex_n n (drop 2 s)"
    by (simp_all add: prefix_hex_def numeral_2_eq_2)
  with append_take_drop_id [of 2 s] have s: "s = CHR ''0'' # CHR ''x'' # drop 2 s" by simp
  have "lower_char (CHR ''0'') = CHR ''0''" "lower_char (CHR ''x'') = CHR ''x''" by code_simp+
  then have "js_lower (CHR ''0'' # CHR ''x'' # drop 2 s) = CHR ''0'' # CHR ''x'' # drop 2 s"
    using hex_lower [OF h] by (simp add: js_lower_def)
  then show ?thesis by (simp only: s [symmetric])
qed

lemma hash_lower: "TRANSACTION_HASH s \<Longrightarrow> js_lower s = s"
  unfolding TRANSACTION_HASH_def by (rule prefix_lower)

lemma lower_applied_same:
  "SHA256 (ar_idempotency_key_sha256 r) \<Longrightarrow> TRANSACTION_HASH (ar_transaction_hash r) \<Longrightarrow> lower_applied r = r"
  by (cases r) (auto simp: lower_applied_def SHA256_def hex_lower hash_lower)

lemma validateApplied_ok:
  assumes "foldM validateAppliedStep [] xs = Inr ys"
  shows "distinct (map ar_idempotency_key_sha256 ys)" "\<forall>r \<in> set ys. applied_ok r"
    "ys = map lower_applied xs"
proof -
  let ?Q = "\<lambda>(ys :: applied_row list) (xs :: applied_row list). distinct (map ar_idempotency_key_sha256 ys) \<and>
    (\<forall>r \<in> set ys. applied_ok r) \<and> ys = map lower_applied xs"
  have "?Q ys xs"
  proof (rule foldM_prefix_induct [where Q = ?Q, OF assms])
    fix ys ys' zs :: "applied_row list" and x assume Q: "?Q ys zs" and st: "validateAppliedStep ys x = Inr ys'"
    from st have "ys' = ys @ [lower_applied x]" "applied_ok (lower_applied x)"
        "ar_idempotency_key_sha256 (lower_applied x) \<notin> ar_idempotency_key_sha256 ` set ys"
      unfolding validateAppliedStep_def Let_def guard_eq_Inr applied_ok_def lower_applied_def by auto
    with Q show "?Q ys' (zs @ [x])" by auto
  qed simp
  then show "distinct (map ar_idempotency_key_sha256 ys)" "\<forall>r \<in> set ys. applied_ok r"
    "ys = map lower_applied xs" by blast+
qed

definition snapshot_ok :: "ethers \<Rightarrow> normalized_store_policy \<Rightarrow> account_snapshot \<Rightarrow> bool" where
  "snapshot_ok E policy s \<longleftrightarrow> SAFE_ID (sn_state_version s) \<and>
     sn_accounts s \<noteq> [] \<and> int (length (sn_accounts s)) \<le> ns_max_accounts policy \<and>
     int (length (sn_applied_transactions s)) \<le> ns_max_applied_transactions policy \<and>
     sorted (map r_address (sn_accounts s)) \<and> distinct (map r_address (sn_accounts s)) \<and>
     (\<forall>r \<in> set (sn_accounts s). row_ok E r) \<and>
     distinct (map ar_idempotency_key_sha256 (sn_applied_transactions s)) \<and>
     (\<forall>r \<in> set (sn_applied_transactions s). applied_ok r)"

lemma createSnapshot_sel [simp]:
  "sn_state_version (createSnapshot H v as ts c) = v"
  "sn_accounts (createSnapshot H v as ts c) = sort_key r_address as"
  "sn_applied_transactions (createSnapshot H v as ts c) = ts" "sn_last_commit_id (createSnapshot H v as ts c) = c"
  "sn_schema (createSnapshot H v as ts c) = ''void_native_account_state_snapshot_v1''"
  "sn_marker (createSnapshot H v as ts c) = VOID_NATIVE_ACCOUNT_STATE_STORE_V1" "sn_version (createSnapshot H v as ts c) = 1"
  by (simp_all add: createSnapshot_def withFingerprint_def)

lemma validateStoreSnapshot_ok:
  assumes "validateStoreSnapshot H E policy s = Inr t"
  shows "snapshot_ok E policy t" "sn_state_version t = sn_state_version s" "sn_last_commit_id t = sn_last_commit_id s"
    "length (sn_accounts t) = length (sn_accounts s)"
    "row_total r_balance_wei (sn_accounts t) = row_total r_balance_wei (sn_accounts s)"
    "row_total r_nonce (sn_accounts t) = row_total r_nonce (sn_accounts s)"
    "sn_applied_transactions t = map lower_applied (sn_applied_transactions s)"
    "t = createSnapshot H (sn_state_version t) (sn_accounts t) (sn_applied_transactions t) (sn_last_commit_id t)"
proof -
  have "post (\<lambda>t. SAFE_ID (sn_state_version s) \<and> sn_accounts s \<noteq> [] \<and>
      int (length (sn_accounts s)) \<le> ns_max_accounts policy \<and>
      int (length (sn_applied_transactions s)) \<le> ns_max_applied_transactions policy \<and>
      (\<exists>as ts. foldM (normalizeAccountStep E) [] (sn_accounts s) = Inr as \<and> sort_key r_address as = as \<and>
        foldM validateAppliedStep [] (sn_applied_transactions s) = Inr ts \<and>
        t = createSnapshot H (sn_state_version s) as ts (sn_last_commit_id s)))
    (validateStoreSnapshot H E policy s)"
    unfolding validateStoreSnapshot_def Let_def by (intro post_guard post_bnd) auto
  from postD [OF this assms] obtain as ts where
    s: "SAFE_ID (sn_state_version s)" "sn_accounts s \<noteq> []" "int (length (sn_accounts s)) \<le> ns_max_accounts policy"
      "int (length (sn_applied_transactions s)) \<le> ns_max_applied_transactions policy"
    and as: "foldM (normalizeAccountStep E) [] (sn_accounts s) = Inr as" "sort_key r_address as = as"
    and ts: "foldM validateAppliedStep [] (sn_applied_transactions s) = Inr ts"
    and t: "t = createSnapshot H (sn_state_version s) as ts (sn_last_commit_id s)" by blast
  note a = normalizeAccounts_ok [OF as(1)] and b = validateApplied_ok [OF ts]
  have len: "length as = length (sn_accounts s)" using a(3) by (metis length_map)
  have sorted: "sorted (map r_address as)" by (metis as(2) sorted_sort_key)
  have "length ts = length (sn_applied_transactions s)" using b(3) by simp
  with a(1,2) b(1,2) s len sorted show "snapshot_ok E policy t"
    by (auto simp: snapshot_ok_def t as(2))
  have tot: "row_total g as = row_total g (sn_accounts s)" if "map g as = map g (sn_accounts s)" for g
    using arg_cong [OF that, of "\<lambda>xs. sum_list (map dec_val xs)"] by (simp add: row_total_def comp_def)
  from a(3,4) tot show "row_total r_balance_wei (sn_accounts t) = row_total r_balance_wei (sn_accounts s)"
    "row_total r_nonce (sn_accounts t) = row_total r_nonce (sn_accounts s)" by (simp_all add: t as(2))
  show "sn_state_version t = sn_state_version s" "sn_last_commit_id t = sn_last_commit_id s"
    "length (sn_accounts t) = length (sn_accounts s)"
    "t = createSnapshot H (sn_state_version t) (sn_accounts t) (sn_applied_transactions t) (sn_last_commit_id t)"
    by (simp_all add: t len as(2))
  show "sn_applied_transactions t = map lower_applied (sn_applied_transactions s)"
    using b(3) by (simp add: t)
qed

section \<open>The snapshot a commit writes\<close>

lemma account_map_eq: "distinct (map r_address rows) \<Longrightarrow> account_map rows = map (\<lambda>r. (r_address r, r)) rows"
  using initialProjected_eq [of "createSnapshot (\<lambda>_. []) [] [] [] None \<lparr> sn_accounts := rows \<rparr>"]
  by (simp add: account_map_def initialProjected_def)

lemma snapshot_map_ok:
  assumes "snapshot_ok E policy s"
  shows "rows_ok (account_map (sn_accounts s))" "map fst (account_map (sn_accounts s)) = map r_address (sn_accounts s)"
    "map snd (account_map (sn_accounts s)) = sn_accounts s" "ledger_of (account_map (sn_accounts s)) = snapshot_ledger s"
  using assms by (auto simp: snapshot_ok_def account_map_eq rows_ok_def row_ok_def comp_def snapshot_ledger_def)

lemma post_rows:
  fixes s and cs
  defines "rows \<equiv> map snd (applyChanges (account_map (sn_accounts s)) cs)"
  assumes s: "snapshot_ok E policy s" and cs: "changes_ok E cs"
    and fits: "changeMismatch (account_map (sn_accounts s)) missing mismatch cs = None"
  shows "row_total r_balance_wei rows = row_total r_balance_wei (sn_accounts s) - takes cs"
    "row_total r_nonce rows = row_total r_nonce (sn_accounts s) + counts cs"
    "map r_address rows = map r_address (sn_accounts s)" "\<forall>r \<in> set rows. row_ok E r"
proof -
  let ?m = "account_map (sn_accounts s)" and ?n = "applyChanges (account_map (sn_accounts s)) cs"
  note m = snapshot_map_ok [OF s]
  from fits have pre: "list_all (prestateMatches ?m) cs" by (simp add: changeMismatch_None)
  from m(1) have d: "distinct (map fst ?m)" by (simp add: rows_ok_def)
  from cs have dc: "distinct (map ac_address cs)" by (simp add: changes_ok_def)
  from balance_changes [OF d pre dc] show
    "row_total r_balance_wei rows = row_total r_balance_wei (sn_accounts s) - takes cs"
    "row_total r_nonce rows = row_total r_nonce (sn_accounts s) + counts cs"
    by (simp_all add: rows_def m(3) takes_def counts_def)
  from pre have "ac_address ` set cs \<subseteq> fst ` set ?m"
    by (auto simp: list_all_iff dest: prestateMatches_before)
  from applyChanges_keys [OF this] have keys: "map fst ?n = map r_address (sn_accounts s)" by (simp add: m(2))
  have n: "rows_ok ?n" using m(1) cs by (intro applyChanges_rows_ok) (auto simp: changes_ok_def)
  then have "map r_address rows = map fst ?n" by (auto simp: rows_def rows_ok_def)
  with keys show adr: "map r_address rows = map r_address (sn_accounts s)" by simp
  show "\<forall>r \<in> set rows. row_ok E r"
  proof
    fix r assume r: "r \<in> set rows"
    with adr have "r_address r \<in> set (map r_address (sn_accounts s))" by (metis image_eqI set_map)
    with s have "normal_address E (r_address r)" by (auto simp: snapshot_ok_def row_ok_def)
    moreover from r n have "is_decimal (r_balance_wei r)" "is_decimal (r_nonce r)" by (auto simp: rows_def rows_ok_def)
    ultimately show "row_ok E r" by (simp add: row_ok_def)
  qed
qed

fun entry_prior :: "journal_entry \<Rightarrow> string" where
  "entry_prior (TransactionEntry e) = tj_prior_state_version e"
| "entry_prior (BlockEntry e) = bj_prior_state_version e"

fun entry_version :: "journal_entry \<Rightarrow> string" where
  "entry_version (TransactionEntry e) = tj_state_version e"
| "entry_version (BlockEntry e) = bj_state_version e"

fun entry_burned :: "journal_entry \<Rightarrow> int" where
  "entry_burned (TransactionEntry e) = dec_val (tj_fee_burned_wei e)"
| "entry_burned (BlockEntry e) = dec_val (bj_total_fee_burned_wei e)"

fun entry_count :: "journal_entry \<Rightarrow> int" where
  "entry_count (TransactionEntry e) = 1"
| "entry_count (BlockEntry e) = bj_transaction_count e"

fun entry_applied :: "journal_entry \<Rightarrow> applied_row list" where
  "entry_applied (TransactionEntry e) = [\<lparr> ar_idempotency_key_sha256 = tj_idempotency_key_sha256 e,
     ar_transaction_hash = tj_transaction_hash e, ar_commit_id = tj_commit_id e, ar_state_version = tj_state_version e \<rparr>]"
| "entry_applied (BlockEntry e) = []"

fun entry_block :: "journal_entry \<Rightarrow> string list" where
  "entry_block (TransactionEntry e) = []"
| "entry_block (BlockEntry e) = [bj_block_idempotency_key_sha256 e]"

definition lowered :: "applied_row list \<Rightarrow> bool" where
  "lowered rs \<longleftrightarrow> (\<forall>r \<in> set rs. lower_applied r = r)"

lemma lowered_append: "lowered (xs @ ys) \<longleftrightarrow> lowered xs \<and> lowered ys"
  by (auto simp: lowered_def)

lemma lowered_map: "lowered xs \<Longrightarrow> map lower_applied xs = xs"
  by (auto simp: lowered_def intro: map_idI)

text \<open>How a commit extends the snapshot \<open>s\<close> it starts from.\<close>

definition extends :: "account_snapshot \<Rightarrow> commit_plan \<Rightarrow> bool" where
  "extends s c \<longleftrightarrow>
     row_total r_balance_wei (sn_accounts (cp_post c)) + entry_burned (cp_entry c) = row_total r_balance_wei (sn_accounts s) \<and>
     row_total r_nonce (sn_accounts (cp_post c)) = row_total r_nonce (sn_accounts s) + entry_count (cp_entry c) \<and>
     length (sn_accounts (cp_post c)) = length (sn_accounts s) \<and>
     0 \<le> entry_burned (cp_entry c) \<and> 0 < entry_count (cp_entry c) \<and>
     entry_prior (cp_entry c) = sn_state_version s \<and> entry_version (cp_entry c) = sn_state_version (cp_post c) \<and>
     sn_last_commit_id (cp_post c) = Some (entry_commit_id (cp_entry c)) \<and>
     sn_applied_transactions (cp_post c) = map lower_applied (sn_applied_transactions s) @ entry_applied (cp_entry c) \<and>
     distinct (map ar_idempotency_key_sha256 (sn_applied_transactions (cp_post c))) \<and>
     lowered (sn_applied_transactions (cp_post c))"

lemma snapshot_applied_lower: "snapshot_ok E policy s \<Longrightarrow> lowered (sn_applied_transactions s)"
  by (auto simp: snapshot_ok_def applied_ok_def lowered_def intro: lower_applied_same)

lemma readSnapshot_validate:
  "readSnapshot H E policy f = Inr t \<Longrightarrow> sf_snapshot f = Some s \<Longrightarrow>
     validateStoreSnapshot H E policy s = Inr t \<and> json_bytes (snapshot_json s) \<le> ns_max_snapshot_bytes policy"
  by (auto simp: readSnapshot_def split: if_splits)

lemma transfer_extends:
  assumes "decideApply H E policy input f = Inr (Inr (c, r))" "sf_snapshot f = Some s"
  shows "extends s c"
proof -
  from assms(1) obtain q t where q: "validateApplyRequest H E input = Inr q" and t: "readSnapshot H E policy f = Inr t"
    and new: "find (\<lambda>item. ar_idempotency_key_sha256 item = aq_idempotency_key_sha256 q) (sn_applied_transactions t) = None"
    and fits: "changeMismatch (account_map (sn_accounts t)) ''native_account_store_account_missing''
       ''native_account_store_prestate_mismatch'' (aq_account_changes q) = None"
    and c: "c = \<lparr> cp_pre = t, cp_post = postSnapshotOf H t q, cp_entry = TransactionEntry (transactionEntryOf H t q) \<rparr>"
    by (rule decideApply_commit)
  note v = validateStoreSnapshot_ok [OF conjunct1 [OF readSnapshot_validate [OF t assms(2)]]]
  note a = validateApplyRequest_ok [OF q]
  note p = post_rows [OF v(1) a(1) fits] and len = arg_cong [OF post_rows(3) [OF v(1) a(1) fits], of length]
  from v(1) new have "distinct (map ar_idempotency_key_sha256 (sn_applied_transactions t))"
      "aq_idempotency_key_sha256 q \<notin> ar_idempotency_key_sha256 ` set (sn_applied_transactions t)"
    by (auto simp: snapshot_ok_def find_None_iff)
  moreover have "lowered (map lower_applied (sn_applied_transactions s))"
    using snapshot_applied_lower [OF v(1)] by (simp only: v(7))
  moreover have "lowered (entry_applied (cp_entry c))"
    by (simp add: c transactionEntryOf_def Let_def lowered_def lower_applied_same a(6,7))
  ultimately show ?thesis using p(1,2) len a(2-4) v(2-7)
    by (simp add: extends_def lowered_append c postSnapshotOf_def transactionEntryOf_def Let_def image_image)
qed

lemma block_extends:
  assumes "decideBlockApply H E policy input f = Inr (Inr (c, r))" "sf_snapshot f = Some s"
  shows "extends s c"
proof -
  from assms(1) obtain q t where q: "validateBlockApplyRequest H E input = Inr q" and t: "readSnapshot H E policy f = Inr t"
    and fits: "changeMismatch (account_map (sn_accounts t)) ''native_account_store_block_account_missing''
       ''native_account_store_block_prestate_mismatch'' (bq_aggregate_account_changes q) = None"
    and c: "c = \<lparr> cp_pre = t, cp_post = blockPostSnapshotOf H t q, cp_entry = BlockEntry (blockEntryOf H t q) \<rparr>"
    by (rule decideBlockApply_commit)
  note v = validateStoreSnapshot_ok [OF conjunct1 [OF readSnapshot_validate [OF t assms(2)]]]
  note a = validateBlockApplyRequest_ok [OF q]
  note p = post_rows [OF v(1) a(1) fits] and len = arg_cong [OF post_rows(3) [OF v(1) a(1) fits], of length]
  from v(1) have "distinct (map ar_idempotency_key_sha256 (sn_applied_transactions t))" by (simp add: snapshot_ok_def)
  moreover have "lowered (map lower_applied (sn_applied_transactions s))"
    using snapshot_applied_lower [OF v(1)] by (simp only: v(7))
  ultimately show ?thesis using p(1,2) len a(2-) v(2-7)
    by (simp add: extends_def c blockPostSnapshotOf_def blockEntryOf_def postAccountsOf_def block_fields_ok_def)
qed

end
