(* ===== verification/Native_Store_History.thy ===== *)
theory Native_Store_History
  imports Native_Store_Ledger
begin

text \<open>
  The store as a state machine. Its steps are transfers, blocks and recoveries, each with any faults
  and crashes; the abstract store commits in one step and knows neither intents nor locks. Every run
  of the store is a run of the abstract store, so the history of the accounts can be read off the
  journal.
\<close>

section \<open>The abstract store\<close>

definition at_rest :: "store_view \<Rightarrow> store_files" where
  "at_rest v = \<lparr> sf_snapshot = fst v, sf_snapshot_next = None, sf_intent = None, sf_journal = Some (snd v),
     sf_torn = 0, sf_unterminated = False, sf_lock = None \<rparr>"

inductive atomic_step ::
  "(string \<Rightarrow> string) \<Rightarrow> ethers \<Rightarrow> normalized_store_policy \<Rightarrow> store_view \<Rightarrow> store_view \<Rightarrow> bool"
  for H E policy where
  transfer: "decideApply H E policy input (at_rest v) = Inr (Inr (c, r)) \<Longrightarrow>
    atomic_step H E policy v (Some (cp_post c), snd v @ [cp_entry c])"
| block: "decideBlockApply H E policy input (at_rest v) = Inr (Inr (c, r)) \<Longrightarrow>
    atomic_step H E policy v (Some (cp_post c), snd v @ [cp_entry c])"

section \<open>The store\<close>

text \<open>
  The steps, with any faults. A transfer or a block that is to be committed has no digest that
  collides, and does not start on a journal whose last line lacks its newline: the entry would be
  glued to that line. An append may lose its newline, and refusals and recoveries may start on what
  is left. Recovery may run with any policy.
\<close>

inductive store_step ::
  "(string \<Rightarrow> string) \<Rightarrow> ethers \<Rightarrow> normalized_store_policy \<Rightarrow> store_files \<Rightarrow> store_files \<Rightarrow> bool"
  for H E policy where
  transfer: "(\<And>c r. decideApply H E policy input f = Inr (Inr (c, r)) \<Longrightarrow> commit_safe f c) \<Longrightarrow>
    isSafeInteger (JNum now) \<Longrightarrow> 0 < now \<Longrightarrow>
    applyOnce H E policy io pid now input f = (f', result) \<Longrightarrow> store_step H E policy f f'"
| block: "(\<And>c r. decideBlockApply H E policy input f = Inr (Inr (c, r)) \<Longrightarrow> commit_safe f c) \<Longrightarrow>
    isSafeInteger (JNum now) \<Longrightarrow> 0 < now \<Longrightarrow>
    applyBlockOnce H E policy io pid now input f = (f', result') \<Longrightarrow> store_step H E policy f f'"
| recovery: "recoverVoidNativeAccountStateStoreV1 H E io kill pid now policy0 confirmation now_ms f = (f', result'') \<Longrightarrow>
    store_step H E policy f f'"

abbreviation store_run ::
  "(string \<Rightarrow> string) \<Rightarrow> ethers \<Rightarrow> normalized_store_policy \<Rightarrow> store_files \<Rightarrow> store_files \<Rightarrow> bool" where
  "store_run H E policy \<equiv> (store_step H E policy)\<^sup>*\<^sup>*"

lemma at_rest_view:
  assumes "store_ok f" "sf_intent f = None" "\<not> sf_unterminated f"
  shows "readSnapshot H E policy (at_rest (store_view_of f)) = readSnapshot H E policy f"
    "readJournal policy (at_rest (store_view_of f)) = readJournal policy f"
    "snd (store_view_of f) = entries_of f"
  using assms by (auto simp: at_rest_def store_view_of_def pending_def entries_of_def store_ok_def readSnapshot_def
      readJournal_def journal_bytes_def)

lemma decide_at_rest:
  assumes "store_ok f" "sf_intent f = None" "\<not> sf_unterminated f"
  shows "decideApply H E policy input (at_rest (store_view_of f)) = decideApply H E policy input f"
    "decideBlockApply H E policy block (at_rest (store_view_of f)) = decideBlockApply H E policy block f"
  by (simp_all add: decideApply_def decideBlockApply_def at_rest_view [OF assms])

lemma store_step_refines:
  assumes "store_step H E policy f f'" and ok: "store_ok f"
  shows "store_ok f' \<and> (store_view_of f' = store_view_of f \<or> atomic_step H E policy (store_view_of f) (store_view_of f'))"
  using assms(1)
proof (cases rule: store_step.cases)
  case (transfer input now io pid result)
  have "protocol_post notApplied (StoreThrows ''Error'') ''native_account_store_apply_failed''
      (decideApply H E policy input f) f f' result"
    by (rule transfer_commit.protocol_ends [OF ok _ transfer(4) [unfolded applyOnce_def]]) (rule transfer(1))
  then show ?thesis
    unfolding protocol_post_def committed_def
    by (metis atomic_step.transfer decide_at_rest(1) ok at_rest_view(3) transfer(1) commit_safe_def)
next
  case (block input now io pid result)
  have "protocol_post blockNotApplied (BlockStoreThrows ''Error'') ''native_account_store_block_apply_failed''
      (decideBlockApply H E policy input f) f f' result"
    by (rule block_commit.protocol_ends [OF ok _ block(4) [unfolded applyBlockOnce_def]]) (rule block(1))
  then show ?thesis
    unfolding protocol_post_def committed_def
    by (metis atomic_step.block decide_at_rest(2) ok at_rest_view(3) block(1) commit_safe_def)
next
  case (recovery io kill pid now policy0 confirmation now_ms result)
  with recovery_keeps [OF ok] show ?thesis by (auto simp: recovery_end_def)
qed

lemma store_run_refines:
  assumes "store_run H E policy f f'" "store_ok f"
  shows "store_ok f' \<and> (atomic_step H E policy)\<^sup>*\<^sup>* (store_view_of f) (store_view_of f')"
  using assms
proof (induction rule: rtranclp_induct)
  case (step g h)
  then have "store_ok g" "(atomic_step H E policy)\<^sup>*\<^sup>* (store_view_of f) (store_view_of g)" by blast+
  with store_step_refines [OF step(2)] show ?case by (metis rtranclp.rtrancl_into_rtrancl)
qed simp

section \<open>Initialisation\<close>

definition empty_store :: store_files where
  "empty_store = \<lparr> sf_snapshot = None, sf_snapshot_next = None, sf_intent = None, sf_journal = None, sf_torn = 0,
     sf_unterminated = False, sf_lock = None \<rparr>"

lemma initialize_ok:
  assumes "initializeVoidNativeAccountStateStoreV1 H E io policy0 genesis_id accounts0 confirmation empty_store =
      (f, Some (Initialized version fp k))"
  obtains policy rows s0 e0 where "normalizeStorePolicy policy0 = Inr policy"
    "mapM (\<lambda>a. normalizeAccount E (ga_address a) (ga_balance_wei a) (ga_nonce a)) accounts0 = Inr rows"
    "distinct (map r_address rows)" "rows \<noteq> []"
    "s0 = createSnapshot H (genesisVersion H (js_trim genesis_id) (sort_key r_address rows)) (sort_key r_address rows) [] None"
    "f = empty_store \<lparr> sf_snapshot := Some s0, sf_journal := Some [e0] \<rparr>"
    "entry_version e0 = sn_state_version s0" "version = sn_state_version s0"
    "json_bytes (snapshot_json s0) \<le> ns_max_snapshot_bytes policy" "SAFE_ID (js_trim genesis_id)"
    "e0 = TransactionEntry (genesisEntry H (js_trim genesis_id) s0)"
    "int (length rows) \<le> ns_max_accounts policy"
proof -
  let ?id = "js_trim genesis_id"
  let ?s = "\<lambda>rows. createSnapshot H (genesisVersion H ?id (sort_key r_address rows)) (sort_key r_address rows) [] None"
  have "\<exists>policy rows. normalizeStorePolicy policy0 = Inr policy \<and> accounts0 \<noteq> [] \<and>
      mapM (\<lambda>a. normalizeAccount E (ga_address a) (ga_balance_wei a) (ga_nonce a)) accounts0 = Inr rows \<and>
      distinct (map r_address rows) \<and> int (length accounts0) \<le> ns_max_accounts policy \<and> SAFE_ID ?id \<and>
      json_bytes (snapshot_json (?s rows)) \<le> ns_max_snapshot_bytes policy \<and> version = sn_state_version (?s rows) \<and>
      f = empty_store \<lparr> sf_snapshot := Some (?s rows),
        sf_journal := Some [TransactionEntry (genesisEntry H ?id (?s rows))] \<rparr>"
    using assms unfolding initializeVoidNativeAccountStateStoreV1_def Let_def
    by (auto simp: empty_store_def entries_of_def glue_def Let_def split: if_splits sum.splits io_event.splits)
  then obtain policy rows where *: "normalizeStorePolicy policy0 = Inr policy" "accounts0 \<noteq> []"
      "mapM (\<lambda>a. normalizeAccount E (ga_address a) (ga_balance_wei a) (ga_nonce a)) accounts0 = Inr rows"
      "distinct (map r_address rows)" "int (length accounts0) \<le> ns_max_accounts policy" "SAFE_ID ?id"
      "json_bytes (snapshot_json (?s rows)) \<le> ns_max_snapshot_bytes policy" "version = sn_state_version (?s rows)"
      "f = empty_store \<lparr> sf_snapshot := Some (?s rows),
        sf_journal := Some [TransactionEntry (genesisEntry H ?id (?s rows))] \<rparr>" by blast
  from * mapM_length [OF *(3)] show ?thesis
    by (intro that [OF *(1,3,4) _ refl *(9) _ *(8,7,6) refl]) (auto simp: genesisEntry_def)
qed

lemma initialize_store_ok:
  assumes "f = empty_store \<lparr> sf_snapshot := Some s0, sf_journal := Some [e0] \<rparr>"
  shows "store_ok f" "store_view_of f = (Some s0, [e0])"
  using assms by (simp_all add: store_ok_def view_defs empty_store_def)

section \<open>The history of the accounts\<close>

fun linked :: "string \<Rightarrow> journal_entry list \<Rightarrow> bool" where
  "linked v [] = True"
| "linked v (e # es) = (entry_prior e = v \<and> linked (entry_version e) es)"

definition end_version :: "string \<Rightarrow> journal_entry list \<Rightarrow> string" where
  "end_version v es = (if es = [] then v else entry_version (last es))"

lemma linked_snoc: "linked v (es @ [e]) \<longleftrightarrow> linked v es \<and> entry_prior e = end_version v es"
  by (induction es arbitrary: v) (auto simp: end_version_def)

text \<open>
  The view of a store that started with the snapshot \<open>s0\<close> and the journal entry \<open>e0\<close>: the entries since
  are linked by state versions and end in that of the snapshot, they burn what the balances have lost
  and count what the nonces have gained, the applied transactions are those of the entries, and no
  transaction and no block occurs twice.
\<close>

definition history_ok :: "account_snapshot \<Rightarrow> journal_entry \<Rightarrow> account_snapshot \<Rightarrow> journal_entry list \<Rightarrow> bool" where
  "history_ok s0 e0 s es \<longleftrightarrow>
     linked (sn_state_version s0) es \<and> sn_state_version s = end_version (sn_state_version s0) es \<and>
     row_total r_balance_wei (sn_accounts s) + (\<Sum>e\<leftarrow>es. entry_burned e) = row_total r_balance_wei (sn_accounts s0) \<and>
     row_total r_nonce (sn_accounts s) = row_total r_nonce (sn_accounts s0) + (\<Sum>e\<leftarrow>es. entry_count e) \<and>
     (\<forall>e \<in> set es. 0 \<le> entry_burned e \<and> 0 < entry_count e) \<and>
     length (sn_accounts s) = length (sn_accounts s0) \<and>
     sn_applied_transactions s = sn_applied_transactions s0 @ concat (map entry_applied es) \<and>
     distinct (map ar_idempotency_key_sha256 (sn_applied_transactions s)) \<and>
     lowered (sn_applied_transactions s) \<and>
     distinct (concat (map entry_block es)) \<and>
     (es \<noteq> [] \<longrightarrow> sn_last_commit_id s = Some (entry_commit_id (last es)))"

lemma history_extend:
  assumes "history_ok s0 e0 s es" "extends s c" "set (entry_block (cp_entry c)) \<inter> set (concat (map entry_block es)) = {}"
  shows "history_ok s0 e0 (cp_post c) (es @ [cp_entry c])"
proof -
  have "map lower_applied (sn_applied_transactions s) = sn_applied_transactions s"
    using assms(1) unfolding history_ok_def by (intro lowered_map) blast
  moreover have "distinct (entry_block (cp_entry c))" by (cases "cp_entry c") simp_all
  moreover have "distinct (concat (map entry_block es @ [entry_block (cp_entry c)]))"
    using assms(1,3) \<open>distinct (entry_block (cp_entry c))\<close> by (simp add: history_ok_def Int_commute)
  moreover have "distinct (map ar_idempotency_key_sha256 (sn_applied_transactions (cp_post c)))"
      "lowered (sn_applied_transactions (cp_post c))"
    using assms(2) unfolding extends_def by blast+
  ultimately show ?thesis
    using assms(1,2) unfolding history_ok_def extends_def
    by (intro conjI; (assumption | simp add: linked_snoc end_version_def))
qed

lemma same_block_iff: "same_block k e \<longleftrightarrow> k \<in> set (entry_block e)"
  by (cases e) auto

lemma history_step:
  assumes "atomic_step H E policy (Some s, e0 # es) v" "history_ok s0 e0 s es"
  shows "\<exists>s' e. v = (Some s', e0 # es @ [e]) \<and> history_ok s0 e0 s' (es @ [e])"
  using assms(1)
proof (cases rule: atomic_step.cases)
  case (transfer input c r)
  have "extends s c" by (rule transfer_extends [OF transfer(2)]) (simp add: at_rest_def)
  moreover have "entry_block (cp_entry c) = []" using transfer(2) by (auto elim!: decideApply_commit)
  ultimately have "history_ok s0 e0 (cp_post c) (es @ [cp_entry c])" using assms(2) by (intro history_extend) simp_all
  with transfer(1) show ?thesis by auto
next
  case (block input c r)
  have e: "extends s c" by (rule block_extends [OF block(2)]) (simp add: at_rest_def)
  from block(2) obtain q t js where js: "readJournal policy (at_rest (Some s, e0 # es)) = Inr js"
      and new: "find (same_block (bq_block_idempotency_key_sha256 q)) js = None"
      and c: "c = \<lparr> cp_pre = t, cp_post = blockPostSnapshotOf H t q, cp_entry = BlockEntry (blockEntryOf H t q) \<rparr>"
    by (rule decideBlockApply_commit)
  have "js = e0 # es" using readJournal_Inr(1) [OF js] by (simp add: at_rest_def entries_of_def)
  with new have "\<not> same_block (bq_block_idempotency_key_sha256 q) e" if "e \<in> set es" for e
    using that unfolding find_None_iff by auto
  then have "set (entry_block (cp_entry c)) \<inter> set (concat (map entry_block es)) = {}"
    by (auto simp: same_block_iff c blockEntryOf_def)
  from history_extend [OF assms(2) e this] block(1) show ?thesis by auto
qed

lemma atomic_history:
  assumes "(atomic_step H E policy)\<^sup>*\<^sup>* (Some s0, [e0]) v" "distinct (map ar_idempotency_key_sha256 (sn_applied_transactions s0))"
    "lowered (sn_applied_transactions s0)"
  shows "\<exists>s es. v = (Some s, e0 # es) \<and> history_ok s0 e0 s es"
  using assms(1)
proof (induction rule: rtranclp_induct)
  case base
  show ?case using assms(2,3) by (auto simp: history_ok_def end_version_def)
next
  case (step v w)
  then show ?case using history_step by blast
qed

end
