(* ===== verification/Native_Store_Recovery.thy ===== *)
theory Native_Store_Recovery
  imports Native_Store_History
begin

text \<open>
  What the store writes it can read: every file a run leaves behind passes the checks of the code
  that reads it. Hence a recovery that is not disturbed finishes or undoes the interrupted commit,
  as long as the journal is whole and has room for its entry; if it has not, no operation of the
  store gets it out of that state.
\<close>

section \<open>Addresses\<close>

text \<open>
  \<^verbatim>\<open>ethers.getAddress\<close> returns the checksum form of an address, and accepts its lower-case form as the
  same address.
\<close>

definition address_law :: "ethers \<Rightarrow> bool" where
  "address_law E \<longleftrightarrow> (\<forall>v a. getAddress E v = Inr a \<longrightarrow> getAddress E (js_lower a) = Inr a)"

lemma normal_address_stable: "address_law E \<Longrightarrow> normal_address E a \<Longrightarrow> normalizeAddress E a l = Inr a"
  by (auto simp: address_law_def normal_address_def normalizeAddress_def)

lemma parseUint_decimal: "is_decimal s \<Longrightarrow> parseUint (UStr s) l = Inr (dec_val s)"
  using is_decimal_nonneg [of s] by (simp add: parseUint_def)

lemma row_stable:
  "address_law E \<Longrightarrow> row_ok E r \<Longrightarrow> normalizeAccount E (r_address r) (UStr (r_balance_wei r)) (UStr (r_nonce r)) = Inr r"
  by (simp add: row_ok_def normalizeAccount_def normal_address_stable parseUint_decimal is_decimal_nonneg)

section \<open>Snapshots\<close>

definition snapshot_canonical :: "(string \<Rightarrow> string) \<Rightarrow> account_snapshot \<Rightarrow> bool" where
  "snapshot_canonical H s \<longleftrightarrow>
     s = createSnapshot H (sn_state_version s) (sn_accounts s) (sn_applied_transactions s) (sn_last_commit_id s)"

lemma normalizeAccounts_stable:
  assumes "address_law E" "distinct (map r_address (zs @ xs))" "\<forall>r \<in> set xs. row_ok E r"
  shows "foldM (normalizeAccountStep E) zs xs = Inr (zs @ xs)"
  using assms(2,3)
  by (induction xs arbitrary: zs) (auto simp: normalizeAccountStep_def row_stable [OF assms(1)])

lemma validateApplied_stable:
  assumes "distinct (map ar_idempotency_key_sha256 (zs @ xs))" "\<forall>r \<in> set xs. applied_ok r"
  shows "foldM validateAppliedStep zs xs = Inr (zs @ xs)"
  using assms
proof (induction xs arbitrary: zs)
  case (Cons x xs)
  from Cons.prems(2) have x: "applied_ok x" by simp
  then have l: "js_lower (ar_idempotency_key_sha256 x) = ar_idempotency_key_sha256 x"
      "js_lower (ar_transaction_hash x) = ar_transaction_hash x"
    by (auto simp: applied_ok_def SHA256_def hex_lower hash_lower)
  have "validateAppliedStep zs x = Inr (zs @ [x])"
    using x Cons.prems(1) by (auto simp: validateAppliedStep_def applied_ok_def l)
  with Cons show ?case by simp
qed simp

lemma snapshot_stable:
  assumes "hex_digest H" "address_law E" "snapshot_ok E policy s" "snapshot_canonical H s"
  shows "validateStoreSnapshot H E policy s = Inr s"
proof -
  let ?c = "createSnapshot H (sn_state_version s) (sn_accounts s) (sn_applied_transactions s) (sn_last_commit_id s)"
  have s: "s = ?c" using assms(4) by (simp add: snapshot_canonical_def)
  have fp: "SHA256 (sn_fingerprint_sha256 ?c)"
    using hex_digest.digest_value [OF assms(1)] by (simp add: createSnapshot_def withFingerprint_def)
  have as: "foldM (normalizeAccountStep E) [] (sn_accounts s) = Inr (sn_accounts s)"
    using normalizeAccounts_stable [OF assms(2), of "[]"] assms(3) by (simp add: snapshot_ok_def)
  have ts: "foldM validateAppliedStep [] (sn_applied_transactions s) = Inr (sn_applied_transactions s)"
    using validateApplied_stable [of "[]"] assms(3) by (simp add: snapshot_ok_def)
  have sorted: "sort_key r_address (sn_accounts s) = sn_accounts s"
    using assms(3) by (simp add: snapshot_ok_def sorted_sort_id sort_key_id_if_sorted)
  have "sn_schema s = ''void_native_account_state_snapshot_v1''" "sn_marker s = VOID_NATIVE_ACCOUNT_STATE_STORE_V1"
      "sn_version s = 1" "SHA256 (sn_fingerprint_sha256 s)"
    using fp by (subst s, simp)+
  with assms(3) show ?thesis
    unfolding validateStoreSnapshot_def as ts bnd_simps Let_def sorted snapshot_ok_def
    by (simp add: s [symmetric] not_less)
qed

section \<open>What a commit writes\<close>

definition plan_ready :: "(string \<Rightarrow> string) \<Rightarrow> ethers \<Rightarrow> normalized_store_policy \<Rightarrow> commit_plan \<Rightarrow> bool" where
  "plan_ready H E policy c \<longleftrightarrow> snapshot_ok E policy (cp_post c) \<and> snapshot_canonical H (cp_post c) \<and>
     validateJournalEntry (cp_entry c) = Inr (cp_entry c) \<and> SHA256 (sn_fingerprint_sha256 (cp_pre c))"

lemma SAFE_ID_digest:
  assumes "hex_n 64 h" "list_all (\<lambda>c. is_alnum c \<or> c \<in> set ''._:@/-'') p" "length p \<le> 100"
  shows "SAFE_ID (p @ h)"
proof -
  have "is_alnum c" if "is_lower_hex c" for c
    using that by (auto simp: is_lower_hex_def is_alnum_def)
  with assms show ?thesis by (auto simp: SAFE_ID_def hex_n_def list_all_iff)
qed

context hex_digest
begin

lemma commit_ids_safe:
  "SAFE_ID (commitIdOf H v q)" "SAFE_ID (nextVersionOf H v i q)" "SAFE_ID (blockCommitIdOf H s b)"
  using digest_value unfolding SHA256_def commitIdOf_def nextVersionOf_def blockCommitIdOf_def
  by (intro SAFE_ID_digest; simp?; code_simp?)+

lemma createSnapshot_canonical:
  "snapshot_canonical H (createSnapshot H v as ts i)" "SHA256 (sn_fingerprint_sha256 (createSnapshot H v as ts i))"
proof -
  have "sort_key r_address (sort_key r_address as) = sort_key r_address as" by (simp add: sort_key_id_if_sorted)
  then show "snapshot_canonical H (createSnapshot H v as ts i)"
    by (simp add: snapshot_canonical_def) (simp add: createSnapshot_def)
  show "SHA256 (sn_fingerprint_sha256 (createSnapshot H v as ts i))"
    by (simp add: createSnapshot_def withFingerprint_def digest_value)
qed

end

lemma sorted_rows:
  assumes "map r_address rows = map r_address (sn_accounts s)" "\<forall>r \<in> set rows. row_ok E r" "snapshot_ok E policy s"
  shows "sort_key r_address rows \<noteq> []" "length (sort_key r_address rows) = length (sn_accounts s)"
    "sorted (map r_address (sort_key r_address rows))" "distinct (map r_address (sort_key r_address rows))"
    "\<forall>r \<in> set (sort_key r_address rows). row_ok E r"
    "sort_key r_address (sort_key r_address rows) = sort_key r_address rows"
proof -
  show len: "length (sort_key r_address rows) = length (sn_accounts s)"
    using arg_cong [OF assms(1), of length] by simp
  show "sort_key r_address rows \<noteq> []" using len assms(3) by (metis length_0_conv snapshot_ok_def)
  show "distinct (map r_address (sort_key r_address rows))"
    using assms(1,3) by (metis distinct_map distinct_sort set_sort snapshot_ok_def)
qed (use assms(2) in \<open>simp_all add: sort_key_id_if_sorted\<close>)

lemma transfer_ready:
  assumes H: "hex_digest H" and dec: "decideApply H E policy input f = Inr (Inr (c, r))"
  shows "plan_ready H E policy c"
proof -
  from dec obtain q t where q: "validateApplyRequest H E input = Inr q" and t: "readSnapshot H E policy f = Inr t"
    and new: "find (\<lambda>item. ar_idempotency_key_sha256 item = aq_idempotency_key_sha256 q) (sn_applied_transactions t) = None"
    and cap: "int (length (sn_applied_transactions t)) < ns_max_applied_transactions policy"
    and fits: "changeMismatch (account_map (sn_accounts t)) ''native_account_store_account_missing''
       ''native_account_store_prestate_mismatch'' (aq_account_changes q) = None"
    and c: "c = \<lparr> cp_pre = t, cp_post = postSnapshotOf H t q, cp_entry = TransactionEntry (transactionEntryOf H t q) \<rparr>"
    by (rule decideApply_commit)
  from readSnapshot_fp(2) [OF t] obtain s where s: "sf_snapshot f = Some s" by auto
  note v = validateStoreSnapshot_ok [OF conjunct1 [OF readSnapshot_validate [OF t s]]]
  note a = validateApplyRequest_ok [OF q]
  note p = post_rows [OF v(1) a(1) fits]
  note h = hex_digest.commit_ids_safe [OF H] hex_digest.createSnapshot_canonical [OF H]
  have key: "aq_idempotency_key_sha256 q \<notin> ar_idempotency_key_sha256 ` set (sn_applied_transactions t)"
    using new by (auto simp: find_None_iff)
  have "snapshot_ok E policy (cp_post c)"
    using v(1) sorted_rows [OF p(3,4) v(1)] key cap a(6,7) h(1,2)
    by (auto simp: snapshot_ok_def c postSnapshotOf_def Let_def applied_ok_def)
  moreover have "SHA256 (sn_fingerprint_sha256 t)"
    using v(8) h(5) by metis
  moreover have "SAFE_ID (sn_state_version t)" using v(1) by (simp add: snapshot_ok_def)
  ultimately show ?thesis
    using a h by (simp add: plan_ready_def c postSnapshotOf_def transactionEntryOf_def Let_def)
qed

lemma block_ready:
  assumes H: "hex_digest H" and dec: "decideBlockApply H E policy input f = Inr (Inr (c, r))"
  shows "plan_ready H E policy c"
proof -
  from dec obtain q t where q: "validateBlockApplyRequest H E input = Inr q" and t: "readSnapshot H E policy f = Inr t"
    and fits: "changeMismatch (account_map (sn_accounts t)) ''native_account_store_block_account_missing''
       ''native_account_store_block_prestate_mismatch'' (bq_aggregate_account_changes q) = None"
    and c: "c = \<lparr> cp_pre = t, cp_post = blockPostSnapshotOf H t q, cp_entry = BlockEntry (blockEntryOf H t q) \<rparr>"
    by (rule decideBlockApply_commit)
  from readSnapshot_fp(2) [OF t] obtain s where s: "sf_snapshot f = Some s" by auto
  note v = validateStoreSnapshot_ok [OF conjunct1 [OF readSnapshot_validate [OF t s]]]
  note a = validateBlockApplyRequest_ok [OF q]
  note p = post_rows [OF v(1) a(1) fits]
  note h = hex_digest.commit_ids_safe [OF H] hex_digest.createSnapshot_canonical [OF H]
  have "snapshot_ok E policy (cp_post c)"
    using v(1) sorted_rows [OF p(3,4) v(1)] a(5)
    by (simp add: snapshot_ok_def c blockPostSnapshotOf_def block_fields_ok_def postAccountsOf_def)
  moreover have "SHA256 (sn_fingerprint_sha256 t)" using v(8) h(5) by metis
  moreover have "SAFE_ID (sn_state_version t)" using v(1) by (simp add: snapshot_ok_def)
  moreover have "is_decimal (int_str (bq_total_fee_burned_wei q))" using a(4) by simp
  ultimately show ?thesis
    using a(5) h parseUint_decimal
    by (simp add: plan_ready_def c blockPostSnapshotOf_def blockEntryOf_def block_fields_ok_def)
qed

section \<open>Files that can be read\<close>

definition snapshot_ready :: "(string \<Rightarrow> string) \<Rightarrow> ethers \<Rightarrow> normalized_store_policy \<Rightarrow> account_snapshot \<Rightarrow> bool" where
  "snapshot_ready H E policy s \<longleftrightarrow> snapshot_ok E policy s \<and> snapshot_canonical H s \<and>
     json_bytes (snapshot_json s) \<le> ns_max_snapshot_bytes policy"

definition intent_ready :: "(string \<Rightarrow> string) \<Rightarrow> ethers \<Rightarrow> normalized_store_policy \<Rightarrow> intent_record \<Rightarrow> bool" where
  "intent_ready H E policy i \<longleftrightarrow> isSafeInteger (JNum (it_created_at_ms i)) \<and> 0 < it_created_at_ms i \<and>
     SHA256 (it_pre_snapshot_fingerprint_sha256 i) \<and>
     it_post_snapshot_fingerprint_sha256 i = sn_fingerprint_sha256 (it_post_snapshot i) \<and>
     snapshot_ok E policy (it_post_snapshot i) \<and> snapshot_canonical H (it_post_snapshot i) \<and>
     validateJournalEntry (it_journal_entry i) = Inr (it_journal_entry i) \<and>
     json_bytes (intent_json i) \<le> ns_max_snapshot_bytes policy"

definition files_ready :: "(string \<Rightarrow> string) \<Rightarrow> ethers \<Rightarrow> normalized_store_policy \<Rightarrow> store_files \<Rightarrow> bool" where
  "files_ready H E policy f \<longleftrightarrow> (\<forall>s. sf_snapshot f = Some s \<longrightarrow> snapshot_ready H E policy s) \<and>
     (\<forall>s. sf_snapshot_next f = Some s \<longrightarrow> snapshot_ready H E policy s) \<and>
     (\<forall>i. sf_intent f = Some i \<longrightarrow> intent_ready H E policy i) \<and>
     (\<forall>e \<in> set (entries_of f). validateJournalEntry e = Inr e)"

lemma files_ready_lock [simp]: "files_ready H E policy (f \<lparr> sf_lock := l \<rparr>) = files_ready H E policy f"
  by (simp add: files_ready_def)

lemma snapshot_readable:
  assumes "hex_digest H" "address_law E" "files_ready H E policy f" "sf_snapshot f = Some s"
  shows "readSnapshot H E policy f = Inr s"
  using assms snapshot_stable [OF assms(1,2), of policy s]
  by (simp add: files_ready_def snapshot_ready_def readSnapshot_def not_less)

lemma intent_readable:
  assumes "hex_digest H" "address_law E" "intent_ready H E policy i"
  shows "validateIntent H E policy i = Inr i"
proof -
  from assms(3) have "snapshot_canonical H (it_post_snapshot i)" by (simp add: intent_ready_def)
  then have "SHA256 (sn_fingerprint_sha256 (it_post_snapshot i))"
    using hex_digest.createSnapshot_canonical(2) [OF assms(1)] unfolding snapshot_canonical_def by metis
  with assms(3) snapshot_stable [OF assms(1,2), of policy "it_post_snapshot i"] show ?thesis
    by (simp add: intent_ready_def validateIntent_def not_le)
qed

lemma mapM_stable: "\<forall>x \<in> set xs. f x = Inr x \<Longrightarrow> mapM f xs = Inr xs"
  by (induction xs) auto

lemma journal_readable:
  assumes "files_ready H E policy f" "sf_torn f = 0" "sf_journal f \<noteq> None" "journal_bytes f \<le> ns_max_journal_bytes policy"
  shows "readJournal policy f = Inr (entries_of f)"
  using assms mapM_stable [of "entries_of f" validateJournalEntry]
  by (auto simp: readJournal_def files_ready_def entries_of_def not_less)

text \<open>Steps that keep every file readable.\<close>

fun op_ready :: "(string \<Rightarrow> string) \<Rightarrow> ethers \<Rightarrow> normalized_store_policy \<Rightarrow> fs_op \<Rightarrow> bool" where
  "op_ready H E policy (PutSnapshot s) = (snapshot_ok E policy s \<and> snapshot_canonical H s)"
| "op_ready H E policy (PutNext s) = (snapshot_ok E policy s \<and> snapshot_canonical H s)"
| "op_ready H E policy (PutIntent i) = (json_bytes (intent_json i) \<le> ns_max_snapshot_bytes policy \<longrightarrow> intent_ready H E policy i)"
| "op_ready H E policy (AppendEntry e) = (validateJournalEntry e = Inr e)"
| "op_ready H E policy op = True"

lemma run_ops_invariant:
  assumes "run_ops policy io n ops f = (e, m, f')" "P f"
    and "\<And>op g. op \<in> set ops \<Longrightarrow> P g \<Longrightarrow> \<not> refused policy g op \<Longrightarrow> P (exec_fs op g)"
    and "\<And>op g k. op \<in> set ops \<Longrightarrow> P g \<Longrightarrow> \<not> refused policy g op \<Longrightarrow> P (tear_fs k op g)"
  shows "P f'"
  using assms
proof (induction ops arbitrary: n f)
  case (Cons op ops)
  from Cons.prems(1) show ?case
  proof (rule run_step)
    assume nr: "\<not> refused policy f op" and "run_ops policy io (n + 1) ops (exec_fs op f) = (e, m, f')"
    from this(2) Cons.prems(3) [OF _ Cons.prems(2) nr] show "P f'"
      by (rule Cons.IH) (use Cons.prems(3,4) in auto)
  qed (use Cons.prems in auto)
qed simp

lemma glue_ready: "files_ready H E policy g \<Longrightarrow> files_ready H E policy (glue g)"
  by (auto simp: files_ready_def glue_def entries_of_def dest: in_set_butlastD split: option.splits)

lemma append_ready:
  assumes "files_ready H E policy g" "validateJournalEntry e = Inr e"
  shows "files_ready H E policy (exec_fs (AppendEntry e) g)" "files_ready H E policy (tear_fs k (AppendEntry e) g)"
  using glue_ready [OF assms(1)] assms(2)
  by (auto simp: files_ready_def entries_of_def Let_def split: option.splits)

lemma exec_ready:
  assumes "op_ready H E policy op" "files_ready H E policy g" "\<not> refused policy g op"
  shows "files_ready H E policy (exec_fs op g)"
proof (cases op)
  case (AppendEntry e)
  with assms show ?thesis by (simp only: op_ready.simps append_ready)
qed (use assms in \<open>auto simp: files_ready_def snapshot_ready_def entries_of_def\<close>)

lemma tear_ready:
  assumes "files_ready H E policy g" "\<And>e. op = AppendEntry e \<Longrightarrow> validateJournalEntry e = Inr e"
  shows "files_ready H E policy (tear_fs k op g)"
proof (cases op)
  case (AppendEntry e)
  with assms show ?thesis by (simp only: append_ready)
qed (use assms in simp_all)

lemma run_ready:
  assumes "run_ops policy io n ops f = (e, m, f')" "files_ready H E policy f" "\<forall>op \<in> set ops. op_ready H E policy op"
  shows "files_ready H E policy f'"
  using assms(1,2)
proof (rule run_ops_invariant)
  show "files_ready H E policy (tear_fs k op g)" if "op \<in> set ops" "files_ready H E policy g" for op g k
    using that(2) by (rule tear_ready) (use assms(3) that(1) in auto)
qed (use assms(3) exec_ready in blast)

lemma commit_ops_ready:
  assumes "plan_ready H E policy c" "isSafeInteger (JNum now)" "0 < now"
  shows "\<forall>op \<in> set (commitOps now c). op_ready H E policy op"
  using assms by (auto simp: commitOps_def plan_ready_def intent_ready_def intentOf_def)

lemma release_ready: "release policy io n thrown result f = (f', out) \<Longrightarrow> files_ready H E p f \<Longrightarrow> files_ready H E p f'"
  by (erule release_end) simp

context commit_protocol
begin

lemma protocol_ready:
  assumes ready: "files_ready H E policy f" and plan: "\<And>c r. decide f = Inr (Inr (c, r)) \<Longrightarrow> plan_ready H E policy c"
    and now: "isSafeInteger (JNum now)" "0 < now"
    and run: "applyProtocol policy io pid now no thrown failed decide f = (f', out)"
  shows "files_ready H E policy f'"
proof (cases "sf_intent f = None \<and> sf_lock f = None \<and> io 0 = IoOk")
  case False
  from applyProtocol_unlocked(1) [OF this run] ready show ?thesis by auto
next
  case True
  let ?g = "locked pid now f"
  have g: "files_ready H E policy ?g" using ready by (simp add: locked_def)
  have dec: "decide ?g = decide f" by (simp add: locked_def decide_lock)
  from True have f: "sf_intent f = None" "sf_lock f = None" "io 0 = IoOk" by blast+
  note run = run [unfolded applyProtocol_locked [where io = io, OF f] dec]
  show ?thesis
  proof (cases "\<exists>c r. decide f = Inr (Inr (c, r))")
    case False
    with run obtain result where "release policy io (Suc 0) thrown result ?g = (f', out)"
      by (auto split: sum.splits)
    then show ?thesis by (rule release_ready) (rule g)
  next
    case True
    then obtain c r where d: "decide f = Inr (Inr (c, r))" by blast
    obtain e m h where ops: "run_ops policy io (Suc 0) (commitOps now c) ?g = (e, m, h)" by (metis prod_cases3)
    have "files_ready H E policy h"
      by (rule run_ready [OF ops g commit_ops_ready [OF plan [OF d] now]])
    with run release_ready show ?thesis by (cases e) (auto simp: d ops)
  qed
qed

end

lemma exec_keeps:
  assumes "files_ready H E policy g" "op = DropNext \<or> op = DropIntent \<or> (\<exists>e. op = AppendEntry e \<and> validateJournalEntry e = Inr e)"
  shows "files_ready H E policy (exec_fs op g)" "files_ready H E policy (tear_fs k op g)"
proof -
  have "files_ready H E policy (exec_fs op g) \<and> files_ready H E policy (tear_fs k op g)"
    using assms(2)
  proof (elim disjE exE conjE)
    fix e assume "op = AppendEntry e" "validateJournalEntry e = Inr e"
    with append_ready [OF assms(1)] show ?thesis by (simp only: simp_thms)
  qed (use assms(1) in \<open>simp_all add: files_ready_def entries_of_def\<close>)
  then show "files_ready H E policy (exec_fs op g)" "files_ready H E policy (tear_fs k op g)" by blast+
qed

lemma decideRecovery_ops:
  assumes "decideRecovery H E p stale f = Inr (ops, result)" "op \<in> set ops"
  shows "op = DropNext \<or> op = DropIntent \<or> (\<exists>e. op = AppendEntry e \<and> validateJournalEntry e = Inr e)"
proof (cases "sf_intent f")
  case None
  with assms show ?thesis by (simp add: decideRecovery_def)
next
  case (Some i)
  from assms(1) obtain j where j: "validateIntent H E p i = Inr j"
    unfolding decideRecovery_def Some option.case guard_eq_Inr bnd_eq_Inr by blast
  then have "validateJournalEntry (it_journal_entry i) = Inr (it_journal_entry i)" "it_journal_entry j = it_journal_entry i"
    using validateIntent_Inr(3) [OF j] unfolding validateIntent_def guard_eq_Inr bnd_eq_Inr
    by (auto dest: validateJournalEntry_same)
  with assms j show ?thesis
    unfolding decideRecovery_def Some option.case guard_eq_Inr bnd_eq_Inr Let_def
    by (auto simp: bnd_eq_Inr split: if_splits)
qed

lemma recoverLocked_ready:
  assumes ready: "files_ready H E policy f" and run: "recoverLocked H E p io n l stale f = (f', out)"
  shows "files_ready H E policy f'"
proof (cases "io n = IoOk \<and> sf_lock f = None")
  case False
  with run ready show ?thesis
    by (auto simp: recoverLocked_def split: io_event.splits if_splits)
next
  case True
  let ?g = "f \<lparr> sf_lock := Some l \<rparr>"
  have g: "files_ready H E policy ?g" using ready by simp
  from True run have run: "(case decideRecovery H E p stale ?g of
           Inl e \<Rightarrow> release p io (Suc n) (RecoveryThrows ''Error'') (RecoveryHeld e) ?g
         | Inr (ops, result) \<Rightarrow>
             (case run_ops p io (Suc n) ops ?g of
               (RunCrashed, _, f') \<Rightarrow> (f', None)
             | (RunThrew e, k, f') \<Rightarrow> release p io (k + 1) (RecoveryThrows ''Error'') (RecoveryHeld e) f'
             | (RunDone, k, f') \<Rightarrow> release p io k (RecoveryThrows ''Error'') result f')) = (f', out)"
    unfolding recoverLocked_def by simp
  show ?thesis
  proof (cases "decideRecovery H E p stale ?g")
    case (Inl e)
    with run release_ready [OF _ g] show ?thesis by simp
  next
    case (Inr x)
    obtain ops result where x: "x = (ops, result)" by force
    obtain e m h where ops: "run_ops p io (Suc n) ops ?g = (e, m, h)" by (metis prod_cases3)
    have "files_ready H E policy h"
      using ops g
    proof (rule run_ops_invariant)
      show "files_ready H E policy (exec_fs op g)" if "op \<in> set ops" "files_ready H E policy g" for op g
        by (rule exec_keeps(1) [OF that(2) decideRecovery_ops [OF Inr [unfolded x] that(1)]])
      show "files_ready H E policy (tear_fs k op g)" if "op \<in> set ops" "files_ready H E policy g" for op g k
        by (rule exec_keeps(2) [OF that(2) decideRecovery_ops [OF Inr [unfolded x] that(1)]])
    qed
    with run release_ready show ?thesis by (cases e) (auto simp: Inr x ops)
  qed
qed

lemma recovery_ready:
  assumes ready: "files_ready H E policy f"
    and run: "recoverVoidNativeAccountStateStoreV1 H E io kill pid clock policy0 confirmation now f = (f', out)"
  shows "files_ready H E policy f'"
  using run ready recoverLocked_ready [of H E policy "f \<lparr> sf_lock := None \<rparr>"] recoverLocked_ready [OF ready]
  unfolding recoverVoidNativeAccountStateStoreV1_def
  by (auto simp: Let_def split: if_splits sum.splits option.splits bool.splits io_event.splits)

lemma store_step_ready:
  assumes "store_step H E policy f f'" and H: "hex_digest H" and ready: "files_ready H E policy f"
  shows "files_ready H E policy f'"
  using assms(1)
proof (cases rule: store_step.cases)
  case (transfer input now io pid result)
  show ?thesis
    by (rule transfer_commit.protocol_ready [OF ready _ transfer(2,3) transfer(4) [unfolded applyOnce_def]])
      (rule transfer_ready [OF H])
next
  case (block input now io pid result)
  show ?thesis
    by (rule block_commit.protocol_ready [OF ready _ block(2,3) block(4) [unfolded applyBlockOnce_def]])
      (rule block_ready [OF H])
next
  case (recovery io kill pid now policy0 confirmation now_ms result)
  from recovery_ready [OF ready this] show ?thesis .
qed

lemma store_run_ready:
  assumes "store_run H E policy f f'" "hex_digest H" "files_ready H E policy f"
  shows "files_ready H E policy f'"
  using assms(1,3) by (induction rule: rtranclp_induct) (auto dest: store_step_ready [OF _ assms(2)])

section \<open>A new store\<close>

lemma normalizeAccount_row: "normalizeAccount E a b n = Inr r \<Longrightarrow> row_ok E r"
  unfolding normalizeAccount_def bnd_eq_Inr
  by (auto simp: row_ok_def dest: normalizeAddress_ok parseUint_nonneg)

lemma initialize_ready:
  assumes H: "hex_digest H"
    and "initializeVoidNativeAccountStateStoreV1 H E io policy0 genesis_id accounts0 confirmation empty_store =
      (f, Some (Initialized version fp k))"
  obtains policy s0 e0 where "normalizeStorePolicy policy0 = Inr policy" "store_ok f" "files_ready H E policy f"
    "store_view_of f = (Some s0, [e0])" "sn_applied_transactions s0 = []" "sn_state_version s0 = version"
    "sf_intent f = None" "sf_lock f = None" "sf_torn f = 0" "sf_snapshot f = Some s0"
proof -
  from assms(2) obtain policy rows s0 e0 where pol: "normalizeStorePolicy policy0 = Inr policy"
    and rows: "mapM (\<lambda>a. normalizeAccount E (ga_address a) (ga_balance_wei a) (ga_nonce a)) accounts0 = Inr rows"
      "distinct (map r_address rows)" "rows \<noteq> []"
    and s0: "s0 = createSnapshot H (genesisVersion H (js_trim genesis_id) (sort_key r_address rows)) (sort_key r_address rows) [] None"
    and f: "f = empty_store \<lparr> sf_snapshot := Some s0, sf_journal := Some [e0] \<rparr>"
    and v: "version = sn_state_version s0" and size: "json_bytes (snapshot_json s0) \<le> ns_max_snapshot_bytes policy"
    and e0: "e0 = TransactionEntry (genesisEntry H (js_trim genesis_id) s0)"
    and cap: "int (length rows) \<le> ns_max_accounts policy"
    by (rule initialize_ok)
  have max: "0 \<le> ns_max_applied_transactions policy"
    using pol unfolding normalizeStorePolicy_def bnd_eq_Inr parseBoundedNumberFrom_def by (auto split: if_splits)
  note d = hex_digest.digest_value [OF H]
  have safe: "SAFE_ID (p @ sha256 H x)" if "list_all (\<lambda>c. is_alnum c \<or> c \<in> set ''._:@/-'') p" "length p \<le> 100" for p x
    using SAFE_ID_digest [OF _ that] d by (simp add: SHA256_def)
  have ids: "SAFE_ID (genesisVersion H g as)" for g as
    unfolding genesisVersion_def by (rule safe; code_simp)
  have id0: "SAFE_ID (''genesis-'' @ sha256 H x)" for x
    by (rule safe; code_simp)
  have none: "SAFE_ID ''none''" by code_simp
  have "\<forall>r \<in> set rows. row_ok E r"
    using rows(1) unfolding mapM_eq_Inr by (auto simp: list_all2_conv_all_nth in_set_conv_nth) (metis normalizeAccount_row)
  moreover have "distinct (map r_address (sort_key r_address rows))"
    using rows(2) by (metis distinct_map distinct_sort set_sort)
  moreover have "sort_key r_address rows \<noteq> []" using rows(3) by (metis length_0_conv length_sort)
  ultimately have "snapshot_ready H E policy s0"
    using size cap max ids hex_digest.createSnapshot_canonical(1) [OF H]
    by (simp add: snapshot_ready_def snapshot_ok_def s0 sort_key_id_if_sorted)
  moreover have "validateJournalEntry e0 = Inr e0"
    using ids id0 none d hex_digest.createSnapshot_canonical(2) [OF H]
    by (simp add: e0 genesisEntry_def TRANSACTION_HASH_def prefix_hex_def SHA256_def s0)
  ultimately have "files_ready H E policy f"
    by (simp add: f files_ready_def entries_of_def empty_store_def)
  with pol initialize_store_ok [OF f] v show ?thesis
    by (intro that [of policy s0 e0]) (simp_all add: f empty_store_def s0)
qed

section \<open>Stores in use\<close>

text \<open>The store \<open>f\<close> has come from the newly initialised store \<open>f0\<close>.\<close>

definition live_store ::
  "(string \<Rightarrow> string) \<Rightarrow> ethers \<Rightarrow> normalized_store_policy \<Rightarrow> store_files \<Rightarrow> store_files \<Rightarrow> bool" where
  "live_store H E policy f0 f \<longleftrightarrow>
     (\<exists>io policy0 genesis_id accounts0 confirmation version fp k. normalizeStorePolicy policy0 = Inr policy \<and>
       initializeVoidNativeAccountStateStoreV1 H E io policy0 genesis_id accounts0 confirmation empty_store =
         (f0, Some (Initialized version fp k))) \<and>
     store_run H E policy f0 f"

lemma live_view:
  assumes "live_store H E policy f0 f"
  obtains s0 e0 where "store_view_of f0 = (Some s0, [e0])" "sn_applied_transactions s0 = []" "store_ok f0" "store_ok f"
    "(atomic_step H E policy)\<^sup>*\<^sup>* (Some s0, [e0]) (store_view_of f)"
proof -
  from assms obtain io policy0 genesis_id accounts0 confirmation version fp k where
    init: "initializeVoidNativeAccountStateStoreV1 H E io policy0 genesis_id accounts0 confirmation empty_store =
         (f0, Some (Initialized version fp k))" and run: "store_run H E policy f0 f"
    unfolding live_store_def by blast
  from init obtain s0 e0 and rows where f0: "f0 = empty_store \<lparr> sf_snapshot := Some s0, sf_journal := Some [e0] \<rparr>"
    and s0: "s0 = createSnapshot H (genesisVersion H (js_trim genesis_id) (sort_key r_address rows)) (sort_key r_address rows) [] None"
    by (rule initialize_ok)
  note ok = initialize_store_ok [OF f0]
  show ?thesis
    using store_run_refines [OF run ok(1)] ok by (intro that [of s0 e0]) (simp_all add: s0)
qed

lemma live_ready:
  assumes "hex_digest H" "live_store H E policy f0 f"
  shows "store_ok f" "files_ready H E policy f"
proof -
  from assms(2) obtain io policy0 genesis_id accounts0 confirmation version fp k where
    pol: "normalizeStorePolicy policy0 = Inr policy" and
    init: "initializeVoidNativeAccountStateStoreV1 H E io policy0 genesis_id accounts0 confirmation empty_store =
         (f0, Some (Initialized version fp k))" and run: "store_run H E policy f0 f"
    unfolding live_store_def by blast
  from assms(1) init obtain policy' where "normalizeStorePolicy policy0 = Inr policy'" "files_ready H E policy' f0"
    by (rule initialize_ready)
  with pol have "files_ready H E policy f0" by simp
  with store_run_ready [OF run assms(1)] show "files_ready H E policy f" by blast
  show "store_ok f" using assms(2) by (rule live_view)
qed

lemma live_snapshot:
  assumes "live_store H E policy f0 f"
  shows "sf_snapshot f \<noteq> None" "sf_journal f \<noteq> None" "sf_intent f = None \<Longrightarrow> sf_torn f = 0"
  using assms by (auto elim!: live_view simp: store_ok_def)

section \<open>Undisturbed recovery\<close>

text \<open>The journal is whole and has room for the entry that is to be appended.\<close>

definition journal_room :: "normalized_store_policy \<Rightarrow> store_files \<Rightarrow> bool" where
  "journal_room policy f \<longleftrightarrow> sf_torn f = 0 \<and>
     journal_bytes f + (\<Sum>e\<leftarrow>pending f. line_bytes e) \<le> ns_max_journal_bytes policy"

lemma journal_room_lock [simp]: "journal_room policy (f \<lparr> sf_lock := l \<rparr>) = journal_room policy f"
  by (simp add: journal_room_def journal_bytes_def pending_def journalled_def split: option.splits)

lemma line_sum_nonneg: "0 \<le> (\<Sum>e\<leftarrow>es. line_bytes e)"
proof (induction es)
  case (Cons e es)
  with line_bytes_gt [of e] show ?case by simp
qed simp

lemma run_drop_ok:
  assumes "\<And>n. io n = IoOk" "sf_intent f \<noteq> None" "dn = (if sf_snapshot_next f = None then [] else [DropNext])"
  shows "\<exists>m g. run_ops policy io n (dn @ [DropIntent]) f = (RunDone, m, g) \<and> sf_lock g = sf_lock f"
  using assms by auto

lemma recovery_runs:
  assumes H: "hex_digest H" "address_law E" and ok: "store_ok f" and ready: "files_ready H E policy f"
    and room: "journal_room policy f" and io: "\<And>n. io n = IoOk"
  shows "\<exists>ops r m g. decideRecovery H E policy stale f = Inr (ops, r) \<and> is_ok r \<and>
    run_ops policy io n ops f = (RunDone, m, g) \<and> sf_lock g = sf_lock f"
proof (cases "sf_intent f")
  case None
  then show ?thesis by (auto simp: decideRecovery_def is_ok_def)
next
  case (Some i)
  let ?dn = "if sf_snapshot_next f = None then [] else [DropNext]"
  from ok obtain s where s: "sf_snapshot f = Some s" and j: "sf_journal f \<noteq> None" by (auto simp: store_ok_def)
  have i: "intent_ready H E policy i" using ready Some by (simp add: files_ready_def)
  have jb: "journal_bytes f \<le> ns_max_journal_bytes policy" and torn: "sf_torn f = 0"
    using room line_sum_nonneg [of "pending f"] by (auto simp: journal_room_def)
  have size: "\<not> json_bytes (intent_json i) > ns_max_snapshot_bytes policy" using i by (simp add: intent_ready_def)
  note reads = intent_readable [OF H i] snapshot_readable [OF H ready s] journal_readable [OF ready torn j jb]
  have fp: "snapshot_fp f = sn_fingerprint_sha256 s" by (simp add: snapshot_fp_def s)
  consider (pre) "sn_fingerprint_sha256 s = it_pre_snapshot_fingerprint_sha256 i"
    | (post) "sn_fingerprint_sha256 s \<noteq> it_pre_snapshot_fingerprint_sha256 i"
        "sn_fingerprint_sha256 s = it_post_snapshot_fingerprint_sha256 i"
    using ok by (auto simp: store_ok_def Some fp)
  then show ?thesis
  proof cases
    case pre
    have "decideRecovery H E policy stale f = Inr (?dn @ [DropIntent], RecoveryOk RolledBack stale True False True)"
      unfolding decideRecovery_def Some option.case Let_def by (simp add: size reads pre)
    with run_drop_ok [where io = io, OF io, of f ?dn policy n] Some show ?thesis unfolding is_ok_def by blast
  next
    case post
    let ?e = "it_journal_entry i"
    have dec: "decideRecovery H E policy stale f =
        Inr ((if journalled f i then [] else [AppendEntry ?e]) @ ?dn @ [DropIntent],
          RecoveryOk Completed stale True (\<not> journalled f i) True)"
      unfolding decideRecovery_def Some option.case Let_def by (simp add: size reads post(2) post(1) [unfolded post(2)] journalled_def)
    have "\<exists>m g. run_ops policy io n ((if journalled f i then [] else [AppendEntry ?e]) @ ?dn @ [DropIntent]) f =
        (RunDone, m, g) \<and> sf_lock g = sf_lock f"
    proof (cases "journalled f i")
      case True
      with run_drop_ok [where io = io, OF io, of f ?dn policy n] Some show ?thesis by simp
    next
      case False
      then have "pending f = [?e]" using post fp by (simp add: pending_def Some)
      with room have "\<not> refused policy f (AppendEntry ?e)" by (simp add: journal_room_def)
      moreover have "sf_snapshot_next (exec_fs (AppendEntry ?e) f) = sf_snapshot_next f"
          "sf_intent (exec_fs (AppendEntry ?e) f) \<noteq> None" "sf_lock (exec_fs (AppendEntry ?e) f) = sf_lock f"
        by (simp_all add: Some glue_def Let_def)
      ultimately show ?thesis
        using run_drop_ok [where io = io, OF io, of "exec_fs (AppendEntry ?e) f" ?dn policy "n + 1"] False
        by (simp del: exec_fs.simps refused.simps add: io)
    qed
    with dec show ?thesis unfolding is_ok_def by blast
  qed
qed

text \<open>The lock is free, or was left by a dead process long enough ago.\<close>

definition lock_open :: "normalized_store_policy \<Rightarrow> (int \<Rightarrow> kill_outcome) \<Rightarrow> int \<Rightarrow> store_files \<Rightarrow> bool" where
  "lock_open policy kill now f \<longleftrightarrow> (case sf_lock f of
       None \<Rightarrow> True
     | Some l \<Rightarrow> readLock l = Inr l \<and> ns_stale_lock_min_age_ms policy \<le> now - lk_created_at_ms l \<and>
         isProcessAlive kill (lk_pid l) = Inr False)"

lemma recoverLocked_ok:
  assumes H: "hex_digest H" "address_law E" and ok: "store_ok f" and ready: "files_ready H E policy f"
    and room: "journal_room policy f" and io: "\<And>n. io n = IoOk" and "sf_lock f = None"
  shows "\<exists>f' r. recoverLocked H E policy io n l stale f = (f', Some r) \<and> is_ok r \<and> sf_lock f' = None"
proof -
  let ?g = "f \<lparr> sf_lock := Some l \<rparr>"
  have g: "store_ok ?g" "files_ready H E policy ?g" "journal_room policy ?g" using ok ready room by simp_all
  from recovery_runs [where io = io, OF H g io, of stale "n + 1"] obtain ops r m h where
    "decideRecovery H E policy stale ?g = Inr (ops, r)" "is_ok r"
    "run_ops policy io (n + 1) ops ?g = (RunDone, m, h)" "sf_lock h = Some l" by auto
  then show ?thesis using assms(7) io by (simp add: recoverLocked_def release_def)
qed

lemma recovery_completes_lemma:
  assumes H: "hex_digest H" "address_law E" and ok: "store_ok f" and ready: "files_ready H E policy f"
    and room: "journal_room policy f" and io: "\<And>n. io n = IoOk" and lock: "lock_open policy kill now f"
    and pol: "normalizeStorePolicy policy0 = Inr policy" and now: "isSafeInteger (JNum now)" "0 < now"
  shows "\<exists>f' r. recoverVoidNativeAccountStateStoreV1 H E io kill pid clock policy0 RECOVER_CONFIRMATION now f = (f', Some r) \<and>
    is_ok r \<and> sf_intent f' = None \<and> sf_lock f' = None \<and> store_view_of f' = store_view_of f"
proof -
  let ?mine = "\<lparr> lk_pid = pid, lk_created_at_ms = clock \<rparr>"
  obtain s where snap: "sf_snapshot f = Some s" using ok by (auto simp: store_ok_def)
  have "\<exists>f' r. recoverVoidNativeAccountStateStoreV1 H E io kill pid clock policy0 RECOVER_CONFIRMATION now f = (f', Some r) \<and>
      is_ok r \<and> sf_lock f' = None"
  proof (cases "sf_lock f")
    case None
    with recoverLocked_ok [where io = io, OF H ok ready room io, of 0 ?mine False] show ?thesis
      using snap pol now by (simp add: recoverVoidNativeAccountStateStoreV1_def Let_def)
  next
    case (Some l)
    let ?f = "f \<lparr> sf_lock := None \<rparr>"
    have g: "store_ok ?f" "files_ready H E policy ?f" "journal_room policy ?f" using ok ready room by simp_all
    from recoverLocked_ok [where io = io, OF H g io, of "Suc 0" ?mine True] obtain f' r where
      "recoverLocked H E policy io (Suc 0) ?mine True ?f = (f', Some r)" "is_ok r" "sf_lock f' = None" by auto
    with Some lock show ?thesis
      using snap pol now io by (simp add: recoverVoidNativeAccountStateStoreV1_def Let_def lock_open_def not_less)
  qed
  then obtain f' r where run:
    "recoverVoidNativeAccountStateStoreV1 H E io kill pid clock policy0 RECOVER_CONFIRMATION now f = (f', Some r)"
    "is_ok r" "sf_lock f' = None" by blast
  with recovery_keeps [OF ok run(1)] show ?thesis by (auto simp: recovery_end_def)
qed

section \<open>Undisturbed commits\<close>

text \<open>The limits of the policy admit the files of a commit.\<close>

definition commit_fits :: "normalized_store_policy \<Rightarrow> int \<Rightarrow> store_files \<Rightarrow> commit_plan \<Rightarrow> bool" where
  "commit_fits policy now f c \<longleftrightarrow> json_bytes (intent_json (intentOf now c)) \<le> ns_max_snapshot_bytes policy \<and>
     json_bytes (snapshot_json (cp_post c)) \<le> ns_max_snapshot_bytes policy \<and>
     journal_bytes f + line_bytes (cp_entry c) \<le> ns_max_journal_bytes policy"

definition after_commit :: "store_files \<Rightarrow> commit_plan \<Rightarrow> store_files" where
  "after_commit f c = f \<lparr> sf_snapshot := Some (cp_post c), sf_snapshot_next := None,
     sf_journal := Some (entries_of f @ [cp_entry c]) \<rparr>"

context commit_protocol
begin

lemma protocol_undisturbed:
  assumes f: "store_ok f" "sf_intent f = None" "sf_lock f = None" and dec: "decide f = Inr (Inr (c, r))"
    and fits: "commit_fits policy now f c" and io: "\<And>n. io n = IoOk" and line: "\<not> sf_unterminated f"
  shows "applyProtocol policy io pid now no thrown failed decide f = (after_commit f c, Some r)"
proof -
  let ?g = "locked pid now f"
  have g: "decide ?g = Inr (Inr (c, r))" using dec by (simp add: locked_def decide_lock)
  have torn: "sf_torn f = 0" using f(1,2) by (simp add: store_ok_def)
  have "run_ops policy io (Suc 0) (commitOps now c) ?g = (RunDone, 6, (after_commit f c) \<lparr> sf_lock := sf_lock ?g \<rparr>)"
    using io fits torn f(2) line
    by (cases f) (simp add: commitOps_def not_less journal_bytes_def entries_of_def locked_def commit_fits_def after_commit_def
        glue_def)
  then show ?thesis
    unfolding applyProtocol_locked [where io = io, OF f(2,3) io] g
    using io f(3) by (cases f) (simp add: release_def locked_def after_commit_def)
qed

end

text \<open>A commit on a journal without its last newline returns its result all the same.\<close>

context commit_protocol
begin

lemma protocol_returns:
  assumes f: "sf_intent f = None" "sf_lock f = None" and dec: "decide f = Inr (Inr (c, r))"
    and fits: "commit_fits policy now f c" and io: "\<And>n. io n = IoOk"
  shows "\<exists>f'. applyProtocol policy io pid now no thrown failed decide f = (f', Some r) \<and> sf_snapshot f' = Some (cp_post c)"
proof -
  let ?g = "locked pid now f"
  have g: "decide ?g = Inr (Inr (c, r))" using dec by (simp add: locked_def decide_lock)
  let ?h = "exec_fs DropIntent (exec_fs (AppendEntry (cp_entry c)) (?g \<lparr> sf_intent := Some (intentOf now c),
      sf_snapshot := Some (cp_post c), sf_snapshot_next := None \<rparr>))"
  have "run_ops policy io (Suc 0) (commitOps now c) ?g = (RunDone, 6, ?h)"
    using io fits f by (cases f)
      (simp add: commitOps_def not_less journal_bytes_def entries_of_def locked_def commit_fits_def glue_def Let_def)
  moreover have "sf_snapshot ?h = Some (cp_post c)" "sf_lock ?h = sf_lock ?g" by (simp_all add: glue_def Let_def)
  ultimately show ?thesis
    unfolding applyProtocol_locked [where io = io, OF f io] g
    using io f by (auto simp: release_def locked_def)
qed

end

section \<open>A journal without room\<close>

text \<open>
  The snapshot is replaced, the entry is not journalled, and it cannot be: the last line of the
  journal is torn, or the journal has no room for another line.
\<close>

definition wedged :: "normalized_store_policy \<Rightarrow> store_files \<Rightarrow> bool" where
  "wedged policy f \<longleftrightarrow> sf_journal f \<noteq> None \<and> (\<exists>i. sf_intent f = Some i \<and>
     it_pre_snapshot_fingerprint_sha256 i \<noteq> it_post_snapshot_fingerprint_sha256 i \<and> snapshot_fp f = it_post_snapshot_fingerprint_sha256 i \<and> \<not> journalled f i \<and>
     (0 < sf_torn f \<or> ns_max_journal_bytes policy < journal_bytes f + line_bytes (it_journal_entry i)))"

lemma wedged_lock [simp]: "wedged policy (f \<lparr> sf_lock := l \<rparr>) = wedged policy f"
  by (simp add: wedged_def journal_bytes_def journalled_def)

lemma run_refused:
  "refused policy f op \<Longrightarrow> run_ops policy io n (op # ops) f = (e, m, f') \<Longrightarrow> f' = f \<and> e \<noteq> RunDone"
  by (auto split: io_event.splits)

lemma wedged_recovery_run:
  assumes w: "wedged policy f" and dec: "decideRecovery H E policy stale f = Inr (ops, result)"
    and run: "run_ops policy io n ops f = (e, m, f')"
  shows "f' = f \<and> (e \<noteq> RunDone \<or> \<not> is_ok result)"
proof -
  from w obtain i where i: "sf_intent f = Some i" "snapshot_fp f = it_post_snapshot_fingerprint_sha256 i" "\<not> journalled f i"
      "0 < sf_torn f \<or> ns_max_journal_bytes policy < journal_bytes f + line_bytes (it_journal_entry i)"
    by (auto simp: wedged_def)
  from w have j: "sf_journal f \<noteq> None" by (simp add: wedged_def)
  from dec j show ?thesis
  proof (cases rule: decideRecovery_cases)
    case idle
    with run i(1) show ?thesis by (auto simp: is_ok_def)
  next
    case (undo j dn)
    with i w show ?thesis by (simp add: wedged_def)
  next
    case (finish j dn)
    with i have "ops = AppendEntry (it_journal_entry i) # dn @ [DropIntent]" "refused policy f (AppendEntry (it_journal_entry i))"
      by auto
    from run_refused [OF this(2) run [unfolded this(1)]] show ?thesis by blast
  qed
qed

lemma wedged_recoverLocked:
  assumes w: "wedged policy f" and run: "recoverLocked H E policy io n l stale f = (f', out)"
  shows "wedged policy f' \<and> (\<forall>r. out = Some r \<longrightarrow> \<not> is_ok r)"
proof -
  let ?g = "f \<lparr> sf_lock := Some l \<rparr>"
  have rel: ?thesis if "release policy io k (RecoveryThrows ''Error'') r ?g = (f', out)" "\<not> is_ok r" for k r
    using that(1) by (rule release_end) (use that(2) w in \<open>auto simp: is_ok_def\<close>)
  show ?thesis
  proof (cases "io n = IoOk \<and> sf_lock f = None")
    case False
    with run w show ?thesis
      by (auto simp: recoverLocked_def is_ok_def split: io_event.splits if_splits)
  next
    case True
    show ?thesis
    proof (cases "decideRecovery H E policy stale ?g")
      case (Inl e)
      with True run have "release policy io (Suc n) (RecoveryThrows ''Error'') (RecoveryHeld e) ?g = (f', out)"
        by (simp add: recoverLocked_def)
      then show ?thesis by (rule rel) (simp add: is_ok_def)
    next
      case (Inr x)
      obtain ops result where x: "x = (ops, result)" by force
      obtain e m h where ops: "run_ops policy io (Suc n) ops ?g = (e, m, h)" by (metis prod_cases3)
      from wedged_recovery_run [OF _ Inr [unfolded x] ops] w have h: "h = ?g" "e \<noteq> RunDone \<or> \<not> is_ok result" by simp_all
      have run: "(case (e, m, h) of (RunCrashed, _, f') \<Rightarrow> (f', None)
           | (RunThrew e, k, f') \<Rightarrow> release policy io (k + 1) (RecoveryThrows ''Error'') (RecoveryHeld e) f'
           | (RunDone, k, f') \<Rightarrow> release policy io k (RecoveryThrows ''Error'') result f') = (f', out)"
        using run True unfolding recoverLocked_def by (simp add: Inr x ops)
      show ?thesis
      proof (cases e)
        case RunDone
        with run h rel [of m result] show ?thesis by simp
      next
        case (RunThrew y)
        with run h rel [of "m + 1" "RecoveryHeld y"] show ?thesis by (simp add: is_ok_def)
      next
        case RunCrashed
        with run h w show ?thesis by auto
      qed
    qed
  qed
qed

lemma wedged_recovery:
  assumes w: "wedged policy f" and pol: "normalizeStorePolicy policy0 = Inr policy"
    and run: "recoverVoidNativeAccountStateStoreV1 H E io kill pid clock policy0 confirmation now f = (f', out)"
  shows "wedged policy f' \<and> (\<forall>r. out = Some r \<longrightarrow> \<not> is_ok r)"
proof -
  have same: "wedged policy (f \<lparr> sf_lock := l \<rparr>)" for l using w by simp
  show ?thesis
    using run w pol wedged_recoverLocked [OF same [of None]] wedged_recoverLocked [OF w]
    unfolding recoverVoidNativeAccountStateStoreV1_def
    by (auto simp: is_ok_def Let_def split: if_splits sum.splits option.splits bool.splits io_event.splits)
qed

lemma wedged_apply:
  assumes "wedged policy f"
  shows "applyOnce H E p io pid now input f = (f, Some (notApplied ''native_account_store_recovery_required'' True))"
    "applyBlockOnce H E p io pid now block f = (f, Some (blockNotApplied ''native_account_store_recovery_required'' True))"
  using assms by (auto simp: wedged_def applyOnce_def applyBlockOnce_def applyProtocol_def)

lemma full_journal_wedges:
  assumes ok: "store_ok f" "sf_intent f = None" "sf_lock f = None"
    and dec: "decideApply H E policy input f = Inr (Inr (c, r))" and fresh: "fresh_commit f c"
    and fits: "json_bytes (intent_json (intentOf now c)) \<le> ns_max_snapshot_bytes policy"
      "json_bytes (snapshot_json (cp_post c)) \<le> ns_max_snapshot_bytes policy"
    and full: "ns_max_journal_bytes policy < journal_bytes f + line_bytes (cp_entry c)"
    and io: "\<And>n. io n = IoOk"
  shows "\<exists>f'. applyOnce H E policy io pid now input f = (f', Some (notApplied ''native_account_store_apply_failed'' True)) \<and>
    wedged policy f' \<and> sf_snapshot f' = Some (cp_post c) \<and> entries_of f' = entries_of f"
proof -
  let ?g = "locked pid now f"
  let ?h = "?g \<lparr> sf_intent := Some (intentOf now c), sf_snapshot := Some (cp_post c), sf_snapshot_next := None \<rparr>"
  have "decideApply H E policy input ?g = Inr (Inr (c, r))" using dec by (simp add: locked_def transfer_commit.decide_lock)
  moreover have "run_ops policy io (Suc 0) (commitOps now c) ?g = (RunThrew ''journal_size_limit_exceeded'', 4, ?h)"
    using io fits full by (simp add: commitOps_def not_less journal_bytes_def entries_of_def locked_def)
  moreover have "release policy io 5 (StoreThrows ''Error'') res ?h = (?h \<lparr> sf_lock := None \<rparr>, Some res)" for res
    using io by (simp add: release_def locked_def)
  ultimately have "applyOnce H E policy io pid now input f =
      (?h \<lparr> sf_lock := None \<rparr>, Some (notApplied ''native_account_store_apply_failed'' True))"
    unfolding applyOnce_def applyProtocol_locked [where io = io, OF ok(2,3) io] by simp
  moreover have "wedged policy (?h \<lparr> sf_lock := None \<rparr>)"
    using ok full fresh
    by (auto simp: wedged_def store_ok_def view_defs fresh_commit_def intentOf_def journal_bytes_def locked_def)
  ultimately show ?thesis by (auto simp: entries_of_def locked_def)
qed

text \<open>Running recovery with the policy \<open>policy0\<close>, with any faults.\<close>

definition recovers :: "(string \<Rightarrow> string) \<Rightarrow> ethers \<Rightarrow> store_policy \<Rightarrow> store_files \<Rightarrow> store_files \<Rightarrow> bool" where
  "recovers H E policy0 f g \<longleftrightarrow> (\<exists>io kill pid clock confirmation now result.
     recoverVoidNativeAccountStateStoreV1 H E io kill pid clock policy0 confirmation now f = (g, result))"

lemma wedged_recovers:
  assumes "(recovers H E policy0)\<^sup>*\<^sup>* f g" "wedged policy f" "normalizeStorePolicy policy0 = Inr policy"
  shows "wedged policy g"
  using assms(1,2) by (induction rule: rtranclp_induct) (auto simp: recovers_def dest: wedged_recovery [OF _ assms(3)])

section \<open>A journal that cannot be read\<close>

text \<open>
  Once a line of the journal is broken it stays broken: whatever operations follow, with whatever
  policies and faults, no policy reads the journal.
\<close>

definition broken_journal :: "store_files \<Rightarrow> bool" where
  "broken_journal f \<longleftrightarrow> sf_journal f \<noteq> None \<and> 0 < sf_torn f \<and> \<not> sf_unterminated f"

lemma broken_lock [simp]: "broken_journal (f \<lparr> sf_lock := l \<rparr>) = broken_journal f"
  by (simp add: broken_journal_def)

lemma broken_unreadable: "broken_journal f \<Longrightarrow> isl (readJournal p f)"
  by (cases "mapM validateJournalEntry (entries_of f)")
    (auto simp: broken_journal_def readJournal_def entries_of_def)

lemma broken_ops:
  assumes "broken_journal f"
  shows "broken_journal (exec_fs op f)" "broken_journal (tear_fs k op f)"
proof -
  have "broken_journal (exec_fs op f) \<and> broken_journal (tear_fs k op f)"
  proof (cases op)
    case (AppendEntry e)
    with assms line_bytes_gt [of e] tear_amount [of k e] show ?thesis
      by (auto simp: broken_journal_def glue_def Let_def)
  qed (use assms in \<open>auto simp: broken_journal_def\<close>)
  then show "broken_journal (exec_fs op f)" "broken_journal (tear_fs k op f)" by blast+
qed

lemma broken_run: "run_ops policy io n ops f = (e, m, f') \<Longrightarrow> broken_journal f \<Longrightarrow> broken_journal f'"
  by (erule run_ops_invariant) (simp_all add: broken_ops del: exec_fs.simps tear_fs.simps)

lemma broken_release: "release policy io n thrown r f = (f', out) \<Longrightarrow> broken_journal f' = broken_journal f"
  by (erule release_end) simp

text \<open>An entry that is appended to a last line without a newline breaks the journal.\<close>

lemma append_breaks:
  assumes "sf_unterminated f" "sf_journal f \<noteq> None"
  shows "broken_journal (exec_fs (AppendEntry e) f)"
  using assms line_bytes_gt [of "last (entries_of f)"] line_bytes_gt [of e]
  by (simp add: broken_journal_def glue_def Let_def)

lemma commit_breaks:
  assumes "run_ops policy io n (commitOps now c) f = (RunDone, m, f')" "sf_unterminated f" "sf_journal f \<noteq> None"
  shows "broken_journal f'"
proof -
  let ?g = "exec_fs RenameNext (exec_fs (PutNext (cp_post c)) (exec_fs (PutIntent (intentOf now c)) f))"
  from assms(1) obtain k where "run_ops policy io k [DropIntent] (exec_fs (AppendEntry (cp_entry c)) ?g) = (RunDone, m, f')"
    unfolding commitOps_def by (auto simp del: exec_fs.simps refused.simps split: io_event.splits if_splits)
  moreover have "broken_journal (exec_fs (AppendEntry (cp_entry c)) ?g)" using assms(2,3) by (intro append_breaks) simp_all
  ultimately show ?thesis by (rule broken_run)
qed

context commit_protocol
begin

lemma protocol_broken:
  assumes "broken_journal f" and run: "applyProtocol policy io pid now no thrown failed decide f = (f', out)"
  shows "broken_journal f'"
proof (cases "sf_intent f = None \<and> sf_lock f = None \<and> io 0 = IoOk")
  case False
  from applyProtocol_unlocked(1) [OF this run] assms(1) show ?thesis by auto
next
  case True
  let ?g = "locked pid now f"
  have g: "broken_journal ?g" using assms(1) by (simp add: locked_def)
  from True have f: "sf_intent f = None" "sf_lock f = None" "io 0 = IoOk" by blast+
  note run = run [unfolded applyProtocol_locked [where io = io, OF f]]
  show ?thesis
  proof (cases "\<exists>c r. decide ?g = Inr (Inr (c, r))")
    case False
    with run obtain result where "release policy io (Suc 0) thrown result ?g = (f', out)" by (auto split: sum.splits)
    then show ?thesis using g by (simp add: broken_release)
  next
    case True
    then obtain c r where d: "decide ?g = Inr (Inr (c, r))" by blast
    obtain e m h where ops: "run_ops policy io (Suc 0) (commitOps now c) ?g = (e, m, h)" by (metis prod_cases3)
    from broken_run [OF ops g] run show ?thesis by (cases e) (auto simp: d ops dest: broken_release)
  qed
qed

lemma protocol_glues:
  assumes "sf_unterminated f" "sf_journal f \<noteq> None"
    and run: "applyProtocol policy io pid now no thrown failed decide f = (f', Some r)"
    and r: "r \<noteq> thrown" "\<And>e b. r \<noteq> no e b" "decide f \<noteq> Inr (Inl r)"
  shows "broken_journal f'"
proof (cases "sf_intent f = None \<and> sf_lock f = None \<and> io 0 = IoOk")
  case False
  from applyProtocol_unlocked(2) [OF this run] r(2) show ?thesis by auto
next
  case True
  let ?g = "locked pid now f"
  have g: "sf_unterminated ?g" "sf_journal ?g \<noteq> None" using assms(1,2) by (simp_all add: locked_def)
  have dec: "decide ?g = decide f" by (simp add: locked_def decide_lock)
  from True have f: "sf_intent f = None" "sf_lock f = None" "io 0 = IoOk" by blast+
  note run = run [unfolded applyProtocol_locked [where io = io, OF f] dec]
  show ?thesis
  proof (cases "\<exists>c r. decide f = Inr (Inr (c, r))")
    case False
    with run obtain result where "release policy io (Suc 0) thrown result ?g = (f', Some r)"
        "result = no failed False \<or> decide f = Inr (Inl result)" by (auto split: sum.splits)
    then show ?thesis using r by (auto elim!: release_end)
  next
    case True
    then obtain c q where d: "decide f = Inr (Inr (c, q))" by blast
    obtain e m h where ops: "run_ops policy io (Suc 0) (commitOps now c) ?g = (e, m, h)" by (metis prod_cases3)
    show ?thesis
    proof (cases e)
      case RunDone
      with run d ops have "release policy io m thrown q h = (f', Some r)" by simp
      with commit_breaks [OF ops [unfolded RunDone] g] show ?thesis by (simp add: broken_release)
    next
      case (RunThrew x)
      with run d ops have "release policy io (m + 1) thrown (no failed (m > Suc 0)) h = (f', Some r)" by simp
      with r show ?thesis by (auto elim!: release_end)
    next
      case RunCrashed
      with run d ops show ?thesis by simp
    qed
  qed
qed

end

lemma recoverLocked_broken:
  assumes "broken_journal f" and run: "recoverLocked H E p io n l stale f = (f', out)"
  shows "broken_journal f'"
proof -
  obtain e m g where lock: "run_ops p io n [PutLock l] f = (e, m, g)" by (metis prod_cases3)
  have g: "broken_journal g" by (rule broken_run [OF lock assms(1)])
  show ?thesis
  proof (cases "e = RunDone \<and> (\<exists>ops result. decideRecovery H E p stale g = Inr (ops, result))")
    case False
    then show ?thesis using run g broken_release [where f = g and f' = f']
      by (cases e) (auto simp: recoverLocked_def lock simp del: run_ops.simps split: sum.splits)
  next
    case True
    then obtain ops result where d: "e = RunDone" "decideRecovery H E p stale g = Inr (ops, result)" by blast
    obtain e' m' h where ops: "run_ops p io m ops g = (e', m', h)" by (metis prod_cases3)
    from broken_run [OF ops g] run d show ?thesis
      by (cases e') (auto simp: recoverLocked_def lock ops simp del: run_ops.simps dest: broken_release)
  qed
qed

text \<open>Any call of a transfer, a block or a recovery.\<close>

definition store_call :: "(string \<Rightarrow> string) \<Rightarrow> ethers \<Rightarrow> store_files \<Rightarrow> store_files \<Rightarrow> bool" where
  "store_call H E f g \<longleftrightarrow>
     (\<exists>policy io pid now input result. applyOnce H E policy io pid now input f = (g, result)) \<or>
     (\<exists>policy io pid now input result. applyBlockOnce H E policy io pid now input f = (g, result)) \<or>
     (\<exists>io kill pid clock policy0 confirmation now result.
       recoverVoidNativeAccountStateStoreV1 H E io kill pid clock policy0 confirmation now f = (g, result))"

lemma store_call_broken:
  assumes "store_call H E f g" "broken_journal f"
  shows "broken_journal g"
proof -
  have "broken_journal g"
    if "recoverVoidNativeAccountStateStoreV1 H E io kill pid clock policy0 confirmation now f = (g, result)"
    for io kill pid clock policy0 confirmation now result
    using that assms(2) recoverLocked_broken [of "f \<lparr> sf_lock := None \<rparr>"] recoverLocked_broken [OF assms(2)]
    unfolding recoverVoidNativeAccountStateStoreV1_def
    by (auto simp: Let_def split: if_splits sum.splits option.splits bool.splits io_event.splits)
  moreover have "broken_journal g" if "applyOnce H E policy io pid now input f = (g, result)" for policy io pid now input result
    by (rule transfer_commit.protocol_broken [OF assms(2) that [unfolded applyOnce_def]])
  moreover have "broken_journal g" if "applyBlockOnce H E policy io pid now input f = (g, result)" for policy io pid now input result
    by (rule block_commit.protocol_broken [OF assms(2) that [unfolded applyBlockOnce_def]])
  ultimately show ?thesis using assms(1) unfolding store_call_def by blast
qed

lemma store_calls_broken: "(store_call H E)\<^sup>*\<^sup>* f g \<Longrightarrow> broken_journal f \<Longrightarrow> broken_journal g"
  by (induction rule: rtranclp_induct) (auto dest: store_call_broken)

end
