(* ===== verification/Native_Store_Transfer.thy ===== *)
theory Native_Store_Transfer
  imports Native_Store_Recovery
begin

text \<open>
  A transfer from preparation to commit: a plan that is prepared from accounts of the store passes
  every check of the store, and an undisturbed commit leaves the store with the ledger that the
  abstract transition of the plan gives.
\<close>

section \<open>Reading the accounts of a transfer from the store\<close>

definition account_state_of :: "account_row \<Rightarrow> account_state" where
  "account_state_of r = \<lparr> as_address = r_address r, as_balance_wei = UStr (r_balance_wei r), as_nonce = UStr (r_nonce r) \<rparr>"

text \<open>The snapshot given to \<^verbatim>\<open>prepare\<close>: the store's state version and some of its accounts.\<close>

definition taken_from :: "state_snapshot \<Rightarrow> account_snapshot \<Rightarrow> bool" where
  "taken_from snap s \<longleftrightarrow> ss_state_version snap = sn_state_version s \<and>
     set (ss_accounts snap) \<subseteq> account_state_of ` set (sn_accounts s)"

lemma space_not_safe: "is_space c \<Longrightarrow> \<not> (is_alnum c \<or> c \<in> set ''._:@/-'')"
  by (auto simp: is_space_def is_alnum_def)

lemma SAFE_ID_trim: "SAFE_ID v \<Longrightarrow> js_trim v = v"
  by (rule js_trim_id) (use space_not_safe in \<open>unfold SAFE_ID_def list_all_iff, blast\<close>)

definition row_account :: "account_row \<Rightarrow> normalized_account" where
  "row_account r = \<lparr> na_address = r_address r, na_balance_wei = dec_val (r_balance_wei r), na_nonce = dec_val (r_nonce r) \<rparr>"

lemma normalizeSnapshot_rows:
  assumes "address_law E" "\<forall>r \<in> set (sn_accounts s). row_ok E r" "SAFE_ID (sn_state_version s)" "taken_from snap s"
    and "normalizeSnapshot E snap = Inr (v, m)"
  shows "v = sn_state_version s" "\<forall>(a, n) \<in> set m. \<exists>r \<in> set (sn_accounts s). r_address r = a \<and> n = row_account r"
proof -
  from assms(5) obtain f where f: "foldM f [] (ss_accounts snap) = Inr m"
    and fdef: "f = (\<lambda>accounts item.
          bnd (normalizeAddress E (as_address item) ''account_address'') (\<lambda>address.
          if address \<in> fst ` set accounts then Inl ''duplicate_account_state'' else
          bnd (parseUint (as_balance_wei item) ''account_balance_wei'') (\<lambda>balance.
          bnd (parseUint (as_nonce item) ''account_nonce'') (\<lambda>nonce.
          Inr (map_put address \<lparr> na_address = address, na_balance_wei = balance, na_nonce = nonce \<rparr>
                 accounts)))))" and v: "v = js_trim (ss_state_version snap)"
    unfolding normalizeSnapshot_def Let_def guard_eq_Inr bnd_eq_Inr by blast
  from v assms(3,4) show "v = sn_state_version s" by (simp add: taken_from_def SAFE_ID_trim)
  let ?P = "\<lambda>m. \<forall>(a, n) \<in> set m. \<exists>r \<in> set (sn_accounts s). r_address r = a \<and> n = row_account r"
  show "?P m"
  proof (rule foldM_invariant [OF f])
    fix t x t' assume x: "x \<in> set (ss_accounts snap)" and P: "?P t" and st: "f t x = Inr t'"
    from x assms(4) obtain r where r: "r \<in> set (sn_accounts s)" "x = account_state_of r" by (auto simp: taken_from_def)
    from r(1) assms(2) have "row_ok E r" by blast
    then have "t' = map_put (r_address r) (row_account r) t"
      using st normal_address_stable [OF assms(1)]
      by (auto simp: fdef r(2) account_state_of_def row_ok_def row_account_def parseUint_decimal split: if_splits)
    with P r(1) show "?P t'" by (auto simp: map_put_def split: if_splits)
  qed simp
qed

lemma row_lookup:
  "snapshot_ok E policy s \<Longrightarrow> r \<in> set (sn_accounts s) \<Longrightarrow> map_of (account_map (sn_accounts s)) (r_address r) = Some r"
  by (simp add: snapshot_ok_def account_map_eq map_of_eq_Some_iff [symmetric] comp_def map_of_is_SomeI)

text \<open>What the plan of a transfer prepared from the store's accounts says of them.\<close>

lemma prepared_from_store:
  assumes law: "address_law E" and s: "snapshot_ok E policy s" and snap: "taken_from snap s"
    and prep: "prepareVoidNativeValueTransferStateTransitionV1 H E raw pol snap ctx = Inr p"
  shows "p_state_version p = sn_state_version s"
    "\<forall>c \<in> set (p_account_changes p). normal_address E (ac_address c) \<and> prestateMatches (account_map (sn_accounts s)) c \<and>
      dec_val (ac_nonce_after c) = dec_val (ac_nonce_before c) + (if ac_address c = p_sender p then 1 else 0)"
proof -
  from prepare_Inr [OF prep] obtain polcy v m tx t x cs tot changes where
    m: "normalizeSnapshot E snap = Inr (v, m)" and ch: "computeChanges H m t (x_feeDebit x) cs = Inr changes"
    and p: "p = buildPlan H t x v cs tot changes" .
  have rows: "\<forall>r \<in> set (sn_accounts s). row_ok E r" and safe: "SAFE_ID (sn_state_version s)"
    using s by (simp_all add: snapshot_ok_def)
  note r = normalizeSnapshot_rows [OF law rows safe snap m]
  show "p_state_version p = sn_state_version s" by (simp add: p buildPlan_sel r(1))
  note ok = computeChanges_ok(3) [OF ch conjunct1 [OF normalizeSnapshot_ok [OF m]]]
  show "\<forall>c \<in> set (p_account_changes p). normal_address E (ac_address c) \<and> prestateMatches (account_map (sn_accounts s)) c \<and>
      dec_val (ac_nonce_after c) = dec_val (ac_nonce_before c) + (if ac_address c = p_sender p then 1 else 0)"
  proof
    fix c assume "c \<in> set (p_account_changes p)"
    with ok have "change_ok m t (x_feeDebit x) cs c" by (simp add: p buildPlan_sel)
    then obtain n where n: "map_of m (ac_address c) = Some n" "ac_balance_before_wei c = dec_str (na_balance_wei n)"
        "ac_nonce_before c = dec_str (na_nonce n)" "0 \<le> na_nonce n"
        "ac_nonce_after c = dec_str (na_nonce n + (if ac_address c = t_sender t then 1 else 0))"
      by (auto simp: change_ok_def Let_def)
    from map_of_SomeD [OF n(1)] r(2) obtain w where w: "w \<in> set (sn_accounts s)" "r_address w = ac_address c" "n = row_account w"
      by auto
    from w(1) rows have "row_ok E w" by blast
    with w n row_lookup [OF s w(1)] show "normal_address E (ac_address c) \<and> prestateMatches (account_map (sn_accounts s)) c \<and>
        dec_val (ac_nonce_after c) = dec_val (ac_nonce_before c) + (if ac_address c = p_sender p then 1 else 0)"
      by (auto simp: prestateMatches_def row_ok_def row_account_def p buildPlan_sel)
  qed
qed

section \<open>The store accepts the request of a prepared plan\<close>

lemma foldM_applyRequest:
  assumes "address_law E" "distinct (map ac_address (cs_changes t @ cs))"
    and "\<forall>c \<in> set cs. normal_address E (ac_address c) \<and> change_decimal c \<and>
      (dec_val (ac_nonce_after c) = dec_val (ac_nonce_before c) + 1 \<or> dec_val (ac_nonce_after c) = dec_val (ac_nonce_before c))"
  shows "foldM (applyRequestStep E) t cs = Inr \<lparr> cs_changes = cs_changes t @ cs,
    cs_nonceIncrementCount = cs_nonceIncrementCount t + counts cs,
    cs_beforeTotal = cs_beforeTotal t + (\<Sum>c\<leftarrow>cs. dec_val (ac_balance_before_wei c)),
    cs_afterTotal = cs_afterTotal t + (\<Sum>c\<leftarrow>cs. dec_val (ac_balance_after_wei c)) \<rparr>"
  using assms(2,3)
proof (induction cs arbitrary: t)
  case Nil
  then show ?case by (cases t) (simp add: counts_def)
next
  case (Cons c cs)
  let ?t = "\<lparr> cs_changes = cs_changes t @ [c],
    cs_nonceIncrementCount = cs_nonceIncrementCount t + (dec_val (ac_nonce_after c) - dec_val (ac_nonce_before c)),
    cs_beforeTotal = cs_beforeTotal t + dec_val (ac_balance_before_wei c),
    cs_afterTotal = cs_afterTotal t + dec_val (ac_balance_after_wei c) \<rparr>"
  have "applyRequestStep E t c = Inr ?t"
    using Cons.prems normal_address_stable [OF assms(1)]
    by (cases c) (auto simp: applyRequestStep_def change_decimal_def parseUint_decimal is_decimal_nonneg)
  moreover have "foldM (applyRequestStep E) ?t cs = Inr \<lparr> cs_changes = cs_changes ?t @ cs,
    cs_nonceIncrementCount = cs_nonceIncrementCount ?t + counts cs,
    cs_beforeTotal = cs_beforeTotal ?t + (\<Sum>c\<leftarrow>cs. dec_val (ac_balance_before_wei c)),
    cs_afterTotal = cs_afterTotal ?t + (\<Sum>c\<leftarrow>cs. dec_val (ac_balance_after_wei c)) \<rparr>"
    by (rule Cons.IH) (use Cons.prems in auto)
  ultimately show ?case by (simp add: counts_def)
qed

definition before_row :: "account_change \<Rightarrow> account_row" where
  "before_row c = \<lparr> r_address = ac_address c, r_balance_wei = ac_balance_before_wei c, r_nonce = ac_nonce_before c \<rparr>"

lemma prestateFingerprint_eq:
  assumes "address_law E" "\<forall>c \<in> set cs. normal_address E (ac_address c) \<and> change_decimal c" "sorted (map ac_address cs)"
  shows "prestateFingerprint H E v cs b = Inr (accountFingerprint H v cs b)"
proof -
  let ?row = "if b then before_row else change_row"
  have rows: "mapM (\<lambda>item.
       bnd (normalizeAddress E (ac_address item) ''change_address'') (\<lambda>address.
       bnd (if b then uintText (ac_balance_before_wei item) ''change_balance_before_wei''
            else uintText (ac_balance_after_wei item) ''change_balance_after_wei'') (\<lambda>balance.
       bnd (if b then uintText (ac_nonce_before item) ''change_nonce_before''
            else uintText (ac_nonce_after item) ''change_nonce_after'') (\<lambda>nonce.
       Inr \<lparr> r_address = address, r_balance_wei = balance, r_nonce = nonce \<rparr>)))) cs = Inr (map ?row cs)"
    using assms(2)
    by (induction cs) (auto simp: normal_address_stable [OF assms(1)] uintText_def change_decimal_def parseUint_decimal
        is_decimal_nonneg before_row_def change_row_def)
  have adr: "map r_address (map ?row cs) = map ac_address cs" by (simp add: before_row_def change_row_def)
  have "sort_key r_address (map ?row cs) = map ?row cs"
    by (rule sort_key_id_if_sorted) (simp only: adr assms(3))
  moreover have "sort_key fst (map (side_json f g) cs) = map (side_json f g) cs" for f g
    by (rule sort_key_id_if_sorted) (use assms(3) in \<open>simp add: side_json_def comp_def\<close>)
  ultimately show ?thesis
    unfolding prestateFingerprint_def rows bnd_simps accountFingerprint_def
    by (simp add: side_json_def row_json_def before_row_def change_row_def comp_def)
qed

lemma count_one: "distinct xs \<Longrightarrow> a \<in> set xs \<Longrightarrow> (\<Sum>x\<leftarrow>xs. if x = a then 1 else 0) = (1 :: int)"
  by (subst sum_list_distinct_conv_sum_set) simp_all

definition request_of :: "transfer_plan \<Rightarrow> apply_request" where
  "request_of p = \<lparr> aq_idempotency_key_sha256 = p_idempotency_key_sha256 p, aq_transaction_hash = p_transaction_hash p,
     aq_state_version = p_state_version p, aq_prestate_fingerprint_sha256 = p_prestate_fingerprint_sha256 p,
     aq_poststate_fingerprint_sha256 = p_poststate_fingerprint_sha256 p, aq_plan_binding_sha256 = p_plan_binding_sha256 p,
     aq_account_changes = p_account_changes p, aq_fee_burned_wei = dec_val (p_fee_burned_wei p) \<rparr>"

lemma prepared_digests:
  assumes "hex_digest H" "prepareVoidNativeValueTransferStateTransitionV1 H E raw pol snap ctx = Inr p"
  shows "SHA256 (p_idempotency_key_sha256 p)" "TRANSACTION_HASH (p_transaction_hash p)" "SAFE_ID (p_state_version p)"
    "p_prestate_fingerprint_sha256 p = accountFingerprint H (p_state_version p) (p_account_changes p) True"
    "p_poststate_fingerprint_sha256 p = accountFingerprint H (p_state_version p) (p_account_changes p) False"
    "SHA256 (p_plan_binding_sha256 p)" "p_account_changes p \<noteq> []"
proof -
  from prepare_Inr [OF assms(2)] obtain policy v m tx t x cs tot changes where
    m: "normalizeSnapshot E snap = Inr (v, m)" and t: "checkTransaction E policy tx = Inr t"
    and p: "p = buildPlan H t x v cs tot changes" .
  note d = hex_digest.digest_value [OF assms(1)]
  show "SHA256 (p_idempotency_key_sha256 p)"
    using planWithoutBinding_key [of H t x v cs tot changes] d by (auto simp: p buildPlan_def Let_def)
  show "TRANSACTION_HASH (p_transaction_hash p)" using checkTransaction_ok(1) [OF t] by (simp add: p buildPlan_sel)
  show "SAFE_ID (p_state_version p)" using normalizeSnapshot_ok [OF m] by (simp add: p buildPlan_sel)
  show "p_prestate_fingerprint_sha256 p = accountFingerprint H (p_state_version p) (p_account_changes p) True"
    "p_poststate_fingerprint_sha256 p = accountFingerprint H (p_state_version p) (p_account_changes p) False"
    "SHA256 (p_plan_binding_sha256 p)"
    by (simp_all add: p buildPlan_def Let_def planWithoutBinding_sel d)
  show "p_account_changes p \<noteq> []" using prepared_sender [OF assms(2)] by auto
qed

lemma prepared_request_valid:
  assumes H: "hex_digest H" and law: "address_law E" and s: "snapshot_ok E policy s" and snap: "taken_from snap s"
    and prep: "prepareVoidNativeValueTransferStateTransitionV1 H E raw pol snap ctx = Inr p"
  shows "validateApplyRequest H E (storeRequest p) = Inr (request_of p)"
proof -
  let ?cs = "p_account_changes p"
  note st = prepared_from_store [OF law s snap prep] and tr = prepared_transition [OF prep] and dg = prepared_digests [OF H prep]
  have strict: "sorted_wrt (<) (map ac_address ?cs)" by (rule tr(1))
  then have sorted: "sorted (map ac_address ?cs)" and dist: "distinct (map ac_address ?cs)" by (simp_all add: strict_sorted_iff)
  have fold: "foldM (applyRequestStep E) \<lparr> cs_changes = [], cs_nonceIncrementCount = 0, cs_beforeTotal = 0, cs_afterTotal = 0 \<rparr> ?cs =
      Inr \<lparr> cs_changes = ?cs, cs_nonceIncrementCount = counts ?cs, cs_beforeTotal = (\<Sum>c\<leftarrow>?cs. dec_val (ac_balance_before_wei c)),
        cs_afterTotal = (\<Sum>c\<leftarrow>?cs. dec_val (ac_balance_after_wei c)) \<rparr>"
    by (subst foldM_applyRequest [OF law]) (use dist st(2) tr(3) in auto)
  have "counts ?cs = (\<Sum>c\<leftarrow>?cs. dec_val (ac_nonce_after c) - dec_val (ac_nonce_before c))"
    by (simp add: counts_def sum_list_subtractf)
  also have "\<dots> = (\<Sum>a\<leftarrow>map ac_address ?cs. if a = p_sender p then 1 else 0)"
    using st(2) by (auto intro!: arg_cong [where f = sum_list])
  also have "\<dots> = 1" using prepared_sender [OF prep] by (intro count_one [OF dist]) force
  finally have one: "counts ?cs = 1" .
  have key: "sort_key ac_address ?cs = ?cs" by (rule sort_key_id_if_sorted) (rule sorted)
  have fee: "parseUint (UStr (p_fee_burned_wei p)) l = Inr (dec_val (p_fee_burned_wei p))" "0 \<le> dec_val (p_fee_burned_wei p)" for l
    using prepared_amounts [OF prep] by (simp_all add: plan_amounts_ok_def parseUint_decimal is_decimal_nonneg)
  have burn: "(\<Sum>c\<leftarrow>?cs. dec_val (ac_balance_before_wei c)) - (\<Sum>c\<leftarrow>?cs. dec_val (ac_balance_after_wei c)) = dec_val (p_fee_burned_wei p)"
    using prepared_conserves [OF prep] by simp
  have fp: "prestateFingerprint H E (p_state_version p) ?cs b = Inr (accountFingerprint H (p_state_version p) ?cs b)" for b
    by (rule prestateFingerprint_eq [OF law _ sorted]) (use st(2) tr(3) in blast)
  have afp: "SHA256 (accountFingerprint H v cs b)" for v cs b by (rule hex_digest.digest_fingerprint [OF H])
  have low: "js_lower x = x" if "SHA256 x" for x using that by (simp add: SHA256_def hex_lower)
  show ?thesis
    unfolding validateApplyRequest_def storeRequest_def store_request.simps Let_def fold bnd_simps change_sums.simps key
    using dg one fee burn
    by (simp add: VOID_NATIVE_VALUE_TRANSFER_CONFIRMATION_V1_def low hash_lower afp fp request_of_def)
qed

section \<open>The commit of a prepared transfer\<close>

definition transfer_commit_of :: "(string \<Rightarrow> string) \<Rightarrow> account_snapshot \<Rightarrow> apply_request \<Rightarrow> commit_plan" where
  "transfer_commit_of H s q = \<lparr> cp_pre = s, cp_post = postSnapshotOf H s q, cp_entry = TransactionEntry (transactionEntryOf H s q) \<rparr>"

lemma prepared_transfer_decided:
  assumes H: "hex_digest H" and law: "address_law E" and ready: "files_ready H E policy f" and f: "sf_snapshot f = Some s"
    and snap: "taken_from snap s"
    and prep: "prepareVoidNativeValueTransferStateTransitionV1 H E raw pol snap ctx = Inr p"
    and new: "p_idempotency_key_sha256 p \<notin> ar_idempotency_key_sha256 ` set (sn_applied_transactions s)"
    and cap: "int (length (sn_applied_transactions s)) < ns_max_applied_transactions policy"
  shows "decideApply H E policy (storeRequest p) f = Inr (Inr (transfer_commit_of H s (request_of p),
    Applied (commitIdOf H (sn_state_version s) (request_of p))
      (nextVersionOf H (sn_state_version s) (commitIdOf H (sn_state_version s) (request_of p)) (request_of p))
      (p_transaction_hash p)))"
proof -
  from ready f have s: "snapshot_ok E policy s" by (simp add: files_ready_def snapshot_ready_def)
  note st = prepared_from_store [OF law s snap prep] and tr = prepared_transition [OF prep] and dg = prepared_digests [OF H prep]
  have find: "find (\<lambda>item. ar_idempotency_key_sha256 item = p_idempotency_key_sha256 p) (sn_applied_transactions s) = None"
    using new unfolding find_None_iff by (metis imageI)
  have fits: "changeMismatch (account_map (sn_accounts s)) a b (p_account_changes p) = None" for a b
    using st(2) by (simp add: changeMismatch_None list_all_iff)
  have "prestateFingerprint H E (sn_state_version s) (p_account_changes p) True = Inr (p_prestate_fingerprint_sha256 p)"
    unfolding dg(4) st(1) by (rule prestateFingerprint_eq [OF law]) (use st(2) tr(1,3) in \<open>auto simp: strict_sorted_iff\<close>)
  with cap show ?thesis
    unfolding decideApply_def prepared_request_valid [OF H law s snap prep] snapshot_readable [OF H law ready f] bnd_simps
    by (simp add: request_of_def find fits st(1) Let_def transfer_commit_of_def transactionEntryOf_def)
qed

lemma sorted_ledger:
  assumes "rows_ok m"
  shows "ledger_of (map (\<lambda>r. (r_address r, r)) (sort_key r_address (map snd m))) = ledger_of m"
proof -
  let ?rows = "map snd m" let ?pair = "\<lambda>r. (r_address r, r)"
  have "map ?pair ?rows = m" using assms by (auto simp: rows_ok_def intro!: map_idI)
  then have "set (map ?pair (sort_key r_address ?rows)) = set m" by (metis set_map set_sort)
  moreover have "distinct (map fst m)" using assms by (simp add: rows_ok_def)
  moreover have "map r_address ?rows = map fst m" using assms by (auto simp: rows_ok_def)
  then have "distinct (map r_address (sort_key r_address ?rows))"
    using calculation(2) by (metis distinct_map distinct_sort set_sort)
  then have "distinct (map fst (map ?pair (sort_key r_address ?rows)))" by (simp add: comp_def)
  ultimately have "map_of (map ?pair (sort_key r_address ?rows)) = map_of m" by (simp add: map_of_inject_set)
  then show ?thesis by (simp add: ledger_of_def fun_eq_iff)
qed

lemma transfer_commit_ledger:
  assumes law: "address_law E" and s: "snapshot_ok E policy s" and snap: "taken_from snap s"
    and prep: "prepareVoidNativeValueTransferStateTransitionV1 H E raw pol snap ctx = Inr p"
  shows "snapshot_ledger (postSnapshotOf H s (request_of p)) = plan_transition p (snapshot_ledger s)"
proof -
  let ?m = "account_map (sn_accounts s)"
  note m = snapshot_map_ok [OF s] and st = prepared_from_store [OF law s snap prep]
  have rows: "rows_ok (applyChanges ?m (p_account_changes p))"
    using m(1) prepared_transition(3) [OF prep] by (rule applyChanges_rows_ok)
  have "snapshot_ledger (postSnapshotOf H s (request_of p)) = ledger_of (applyChanges ?m (p_account_changes p))"
    unfolding snapshot_ledger_def using sorted_ledger [OF rows] by (simp add: postSnapshotOf_def request_of_def Let_def)
  also have "\<dots> = plan_transition p (ledger_of ?m)"
    by (rule applyChanges_ledger [OF prepared_planI [OF prep]]) (use st(2) in blast)
  finally show ?thesis by (simp add: m(4))
qed

end
