(* ===== verification/Native_Block_Properties.thy ===== *)
theory Native_Block_Properties
  imports Native_Block_Correct
begin

text \<open>
  The properties of a block of native value transfers: what it does to the ledger, what it
  conserves and limits, and that a prepared block passes its own validation.
\<close>

section \<open>Validation accepts a prepared block\<close>

lemma transactionBindingsValid_ok:
  assumes "\<And>i. i < length ps \<Longrightarrow> plan_at (b_block_hash b) n (k + int i) (ps ! i)" "b_block_number b = int_str n"
    and "\<And>p. p \<in> set ps \<Longrightarrow> p_marker p = VOID_NATIVE_VALUE_TRANSFER_STATE_TRANSITION_V1 \<and> SHA256 (p_plan_binding_sha256 p)"
    and "distinct (map p_transaction_hash ps)" "set seen \<inter> p_transaction_hash ` set ps = {}"
  shows "transactionBindingsValid b seen k (zip ps (map p_transaction_hash ps))"
  using assms
proof (induction ps arbitrary: seen k)
  case (Cons p ps)
  from Cons.prems(1) [of 0] have "plan_at (b_block_hash b) n k p" by simp
  moreover have "plan_at (b_block_hash b) n (k + 1 + int i) (ps ! i)" if "i < length ps" for i
    using Cons.prems(1) [of "Suc i"] that by (simp add: add.assoc)
  ultimately show ?case
    using Cons.IH [of "k + 1" "set_add seen (p_transaction_hash p)"] Cons.prems(2-) by (auto simp: plan_at_def)
qed simp

lemma validatePlan_binding: "validatePlan H p = None \<Longrightarrow>
   p_marker p = VOID_NATIVE_VALUE_TRANSFER_STATE_TRANSITION_V1 \<and> SHA256 (p_plan_binding_sha256 p)"
  unfolding validatePlan_def by (simp split: if_splits)

lemma block_material_binding [simp]:
  "blockPlanBindingMaterial (b \<lparr> b_block_binding_sha256 := x \<rparr>) = blockPlanBindingMaterial b"
  by (simp add: blockPlanBindingMaterial_def)

lemma blockPlanWithoutBinding_sel:
  "b_schema (blockPlanWithoutBinding H bh n snap s cs) = ''void_native_value_transfer_block_prepared_plan_v1''"
  "b_marker (blockPlanWithoutBinding H bh n snap s cs) = VOID_NATIVE_VALUE_TRANSFER_BLOCK_EXECUTOR_V1"
  "b_version (blockPlanWithoutBinding H bh n snap s cs) = 1"
  "b_block_hash (blockPlanWithoutBinding H bh n snap s cs) = bh"
  "b_block_number (blockPlanWithoutBinding H bh n snap s cs) = int_str n"
  "b_transaction_count (blockPlanWithoutBinding H bh n snap s cs) = int (length (bs_transactionPlans s))"
  "b_parent_state_version (blockPlanWithoutBinding H bh n snap s cs) = sn_state_version snap"
  "b_parent_snapshot_fingerprint_sha256 (blockPlanWithoutBinding H bh n snap s cs) = sn_fingerprint_sha256 snap"
  "b_final_state_version (blockPlanWithoutBinding H bh n snap s cs) = bs_projectedStateVersion s"
  "b_ordered_transaction_hashes (blockPlanWithoutBinding H bh n snap s cs) = bs_orderedTransactionHashes s"
  "b_transaction_plans (blockPlanWithoutBinding H bh n snap s cs) = bs_transactionPlans s"
  "b_block_idempotency_key_sha256 (blockPlanWithoutBinding H bh n snap s cs) = blockIdempotencyKey H bh (int_str n)"
  "b_final_accounts_fingerprint_sha256 (blockPlanWithoutBinding H bh n snap s cs) =
     projectedAccountsFingerprint H (bs_projectedStateVersion s) (sort_key r_address (map snd (bs_projected s)))"
  by (simp_all add: blockPlanWithoutBinding_def)

lemma lower_hex_alnum: "is_lower_hex c \<Longrightarrow> is_alnum c"
  by (auto simp: is_lower_hex_def is_alnum_def)

context hex_digest
begin

lemma tagged_safe_id: "SAFE_ID (''bsv1-'' @ sha256 H v)"
proof -
  have "hex_n 64 (sha256 H v)" using digest_hex by (simp add: sha256_def)
  then have "length (sha256 H v) = 64" "list_all is_lower_hex (sha256 H v)" by (simp_all add: hex_n_def)
  moreover from this(2) have "list_all is_alnum (sha256 H v)" by (auto simp: list_all_iff lower_hex_alnum)
  moreover have "is_alnum CHR ''b''" "is_alnum CHR ''s''" "is_alnum CHR ''v''" "is_alnum CHR ''1''"
    by (simp_all add: is_alnum_def)
  ultimately show ?thesis by (simp add: SAFE_ID_def list_all_iff)
qed

lemma block_digests: "SHA256 (blockIdempotencyKey H bh n)" "SHA256 (projectedAccountsFingerprint H v rows)"
  by (simp_all add: blockIdempotencyKey_def projectedAccountsFingerprint_def digest_value)

lemma prepared_block_valid:
  assumes "prepareVoidNativeValueTransferBlockExecutionV1 H E bh bn snap pol txs = Inr b"
  shows "validateBlockPlan H b = None"
proof -
  from prepareBlock_Inr [OF assms] obtain n policy s css where x:
    "TRANSACTION_HASH (js_lower bh)" "parseUint bn ''block_number'' = Inr n"
    "validateSnapshot H snap = Inr snap" "normalizeBlockPolicy pol = Inr policy" "txs \<noteq> []"
    "foldM (blockStep H E policy (js_lower bh) n) (initialBlockState snap) (zip (map int [0..<length txs]) txs) = Inr s"
    and b: "b = buildBlockPlan H (js_lower bh) n snap s (concat css)" .
  note inv = block_loop_inv [OF x(6) initial_inv [OF x(3,4)], unfolded block_inv_def]
  note v = validateSnapshot_ok [OF x(3)]
  have len: "length (bs_transactionPlans s) = length txs"
    and hashes: "bs_orderedTransactionHashes s = map p_transaction_hash (bs_transactionPlans s)"
    and dist: "distinct (map p_transaction_hash (bs_transactionPlans s))" using inv by metis+
  have "transactionBindingsValid b [] 0 (zip (bs_transactionPlans s) (map p_transaction_hash (bs_transactionPlans s)))"
  proof (rule transactionBindingsValid_ok)
    show "plan_at (b_block_hash b) n (0 + int i) (bs_transactionPlans s ! i)" if "i < length (bs_transactionPlans s)" for i
      using inv that len by (simp add: b buildBlockPlan_sel)
    show "p_marker p = VOID_NATIVE_VALUE_TRANSFER_STATE_TRANSITION_V1 \<and> SHA256 (p_plan_binding_sha256 p)"
      if "p \<in> set (bs_transactionPlans s)" for p
      using inv that validatePlan_binding prepared_valid unfolding prepared_plan_def by blast
  qed (use dist in \<open>simp_all add: b buildBlockPlan_sel\<close>)
  moreover have "SAFE_ID (bs_projectedStateVersion s)" using inv x(5) tagged_safe_id by auto
  moreover have "is_decimal (int_str n)" using parseUint_nonneg [OF x(2)] by simp
  ultimately show ?thesis
    using x(1,5) v(3,4) len
    by (simp add: validateBlockPlan_def b buildBlockPlan_def Let_def blockPlanWithoutBinding_sel hashes digest_value block_digests)
qed

end

section \<open>A concrete block\<close>

text \<open>The transfer of the example, executed as the only transaction of block 9.\<close>

definition nb_rows :: "account_row list" where
  "nb_rows = [
     \<lparr> r_address = nx_address CHR ''1'', r_balance_wei = ''100000'', r_nonce = ''7'' \<rparr>,
     \<lparr> r_address = nx_address CHR ''2'', r_balance_wei = ''5'', r_nonce = ''0'' \<rparr>,
     \<lparr> r_address = nx_address CHR ''3'', r_balance_wei = ''0'', r_nonce = ''0'' \<rparr>,
     \<lparr> r_address = nx_address CHR ''4'', r_balance_wei = ''77'', r_nonce = ''1'' \<rparr>]"

definition nb_snapshot :: account_snapshot where
  "nb_snapshot = \<lparr> sn_schema = ''void_native_account_state_snapshot_v1'', sn_marker = EXPECTED_ACCOUNT_STORE_MARKER,
     sn_version = 1, sn_state_version = ''sv-1'', sn_accounts = nb_rows, sn_applied_transactions = [],
     sn_last_commit_id = None, sn_fingerprint_sha256 = replicate 64 CHR ''0'' \<rparr>"

definition nb_policy :: block_policy where
  "nb_policy = \<lparr> bp_max_transactions_per_block = UNum 10, bp_max_total_raw_transaction_bytes = UNum 1000,
     bp_max_total_value_wei = UBig 5000, bp_max_total_fee_debit_wei = UBig 100000,
     bp_max_total_fee_burned_wei = UBig 100000 \<rparr>"

definition nb_transaction :: block_transaction where
  "nb_transaction = \<lparr> bt_raw_signed_transaction = ''0x02f8'', bt_transfer_policy = nx_transfer_policy,
     bt_effective_gas_price_wei = UStr ''3'', bt_fee_credits = ec_fee_credits nx_context,
     bt_fee_policy_fingerprint_sha256 = replicate 64 CHR ''c'' \<rparr>"

definition nb_hash :: string where
  "nb_hash = ''0x'' @ replicate 64 CHR ''b''"

definition nb_normalized :: normalized_block_policy where
  "nb_normalized = \<lparr> nb_max_transactions_per_block = 10, nb_max_total_raw_transaction_bytes = 1000,
     nb_max_total_value_wei = 5000, nb_max_total_fee_debit_wei = 100000, nb_max_total_fee_burned_wei = 100000 \<rparr>"

definition nb_projected :: projected where
  "nb_projected = map (\<lambda>r. (r_address r, r)) nb_rows"

definition nb_final :: projected where
  "nb_final = applyChanges nb_projected nx_changes"

definition nb_state :: "(string \<Rightarrow> string) \<Rightarrow> string \<Rightarrow> block_state" where
  "nb_state H v = \<lparr> bs_totalRawBytes = 2, bs_projected = nb_final, bs_transactionPlans = [nx_plan_at H v],
     bs_orderedTransactionHashes = [t_hash nx_transfer], bs_seenTransactionHashes = [t_hash nx_transfer],
     bs_projectedStateVersion = nextStateVersion H v 0 (nx_plan_at H v), bs_totalValue = 1000, bs_totalFeeDebit = 63000,
     bs_totalFeeCredit = 13000, bs_totalFeeBurned = 50000 \<rparr>"

definition nb_plan_at :: "(string \<Rightarrow> string) \<Rightarrow> account_snapshot \<Rightarrow> block_plan" where
  "nb_plan_at H s = buildBlockPlan H nb_hash 9 s (nb_state H (sn_state_version s)) nx_changes"

definition nb_plan :: block_plan where
  "nb_plan = nb_plan_at zero_digest nb_snapshot"

lemma zero_sha256: "sha256 zero_digest v = replicate 64 CHR ''0''"
  by (simp only: sha256_def zero_digest_def)

lemma nb_snapshot_valid: "validateSnapshot zero_digest nb_snapshot = Inr nb_snapshot"
proof -
  have "\<exists>t. foldM validateAccountStep ([], '''') nb_rows = Inr t" by (intro exI) code_simp
  then obtain t where "foldM validateAccountStep ([], '''') nb_rows = Inr t" ..
  moreover have "SAFE_ID ''sv-1''" "SHA256 (replicate 64 CHR ''0'')" "nb_rows \<noteq> []" by code_simp+
  ultimately show ?thesis
    unfolding validateSnapshot_def zero_sha256 nb_snapshot_def by simp
qed

lemma nb_steps:
  "normalizeBlockPolicy nb_policy = Inr nb_normalized"
  "js_lower nb_hash = nb_hash" "TRANSACTION_HASH nb_hash"
  "selectAddresses 0 nx_tx (bt_fee_credits nb_transaction) = Inr (map (nx_address) ''123'')"
  "selectAccounts nb_projected (map (nx_address) ''123'') = ss_accounts nx_snapshot"
  "find (\<lambda>change. \<not> prestateMatches nb_projected change) nx_changes = None"
  "mapM (aggregateChange nb_projected nb_final) (sort (map fst nb_final)) = Inr [[nx_changes ! 0], [nx_changes ! 1], [nx_changes ! 2], []]"
  by code_simp+

lemma nb_initial:
  assumes "sn_accounts s = nb_rows"
  shows "initialProjected s = nb_projected" "bs_projected (initialBlockState s) = nb_projected"
    "bs_projectedStateVersion (initialBlockState s) = sn_state_version s" "bs_totalRawBytes (initialBlockState s) = 0"
proof -
  have "initialProjected (nb_snapshot) = nb_projected" by code_simp
  then show "initialProjected s = nb_projected" by (simp add: initialProjected_def assms nb_snapshot_def)
  then show "bs_projected (initialBlockState s) = nb_projected" by (simp add: initialBlockState_def)
qed (simp_all add: initialBlockState_def)

lemma nb_context:
  "\<lparr> ec_block_hash = nb_hash, ec_block_number = UBig 9, ec_transaction_index = UNum 0, ec_gas_used = UNum 21000,
     ec_effective_gas_price_wei = bt_effective_gas_price_wei nb_transaction, ec_fee_credits = bt_fee_credits nb_transaction,
     ec_fee_policy_fingerprint_sha256 = bt_fee_policy_fingerprint_sha256 nb_transaction \<rparr> = nx_context"
  "\<lparr> ss_state_version = v, ss_accounts = ss_accounts nx_snapshot \<rparr> = nx_snapshot_at v"
  by (simp_all add: nb_hash_def nb_transaction_def nx_context_def nx_snapshot_def nx_snapshot_at_def)

lemma nx_plan_fields:
  "p_block_hash (nx_plan_at H v) = nb_hash" "p_block_number (nx_plan_at H v) = int_str 9"
  "p_transaction_index (nx_plan_at H v) = int_str 0"
  "p_transaction_hash (nx_plan_at H v) = t_hash nx_transfer" "p_account_changes (nx_plan_at H v) = nx_changes"
  "dec_val (p_value_wei (nx_plan_at H v)) = 1000" "dec_val (p_fee_debit_wei (nx_plan_at H v)) = 63000"
  "dec_val (p_fee_credit_total_wei (nx_plan_at H v)) = 13000" "dec_val (p_fee_burned_wei (nx_plan_at H v)) = 50000"
  by (simp_all add: nx_plan_at_def buildPlan_sel nx_env_def nx_transfer_def nb_hash_def)

lemma nb_accept:
  assumes "sn_accounts s = nb_rows"
  shows "acceptPlan H nb_normalized nb_hash 9 0 (initialBlockState s \<lparr> bs_totalRawBytes := 2 \<rparr>)
      (nx_plan_at H (sn_state_version s)) = Inr (nb_state H (sn_state_version s))"
  unfolding acceptPlan_def nx_plan_fields
  by (simp add: initialBlockState_def nb_initial(1) [OF assms] nb_steps nb_normalized_def nb_state_def nb_final_def set_add_def)

lemma nb_step:
  assumes "sn_accounts s = nb_rows" and v: "SAFE_ID (sn_state_version s)" "js_trim (sn_state_version s) = sn_state_version s"
  shows "blockStep H nx_ethers nb_normalized nb_hash 9 (initialBlockState s) (0, nb_transaction) =
      Inr (nb_state H (sn_state_version s))"
proof -
  have raw: "js_trim (bt_raw_signed_transaction nb_transaction) = ''0x02f8''" by code_simp
  have pol: "bt_transfer_policy nb_transaction = nx_transfer_policy" by (simp add: nb_transaction_def)
  have n: "slen ''0x02f8'' mod 2 = 0" "0 + (slen ''0x02f8'' - 2) div 2 = 2" "\<not> 2 > nb_max_total_raw_transaction_bytes nb_normalized"
    by (simp_all add: nb_normalized_def)
  show ?thesis
    unfolding blockStep_def prod.case Let_def raw nx_raw(3) sum.case nb_steps(4) bnd_simps nb_initial(2-4) [OF assms(1)]
      nb_steps(5) nb_context pol nx_prepared_at [OF v]
    by (simp only: n nb_accept [OF assms(1)] nx_raw(2) not_True_eq_False if_False simp_thms)
qed

lemma nb_prepared_at:
  assumes rows: "sn_accounts s = nb_rows" and valid: "validateSnapshot H s = Inr s"
    and v: "SAFE_ID (sn_state_version s)" "js_trim (sn_state_version s) = sn_state_version s"
  shows "prepareVoidNativeValueTransferBlockExecutionV1 H nx_ethers nb_hash (UBig 9) s nb_policy [nb_transaction] =
      Inr (nb_plan_at H s)"
proof -
  have "concat [[nx_changes ! 0], [nx_changes ! 1], [nx_changes ! 2], []] = nx_changes" by (simp add: nx_changes_def)
  moreover have "nx_changes \<noteq> []" by (simp add: nx_changes_def)
  moreover have "bs_projected (nb_state H (sn_state_version s)) = nb_final" by (simp add: nb_state_def)
  moreover have "parseUint (UBig 9) ''block_number'' = Inr 9" by (simp add: parseUint_def)
  moreover have "zip (map int [0..<length [nb_transaction]]) [nb_transaction] = [(0, nb_transaction)]" by simp
  ultimately show ?thesis
    unfolding prepareVoidNativeValueTransferBlockExecutionV1_def Let_def
    by (simp add: nb_steps valid block_caught_def nb_step [OF rows v] nb_initial(1) [OF rows] nb_plan_at_def
        nb_normalized_def [THEN arg_cong, of nb_max_transactions_per_block])
qed

lemma nb_prepared:
  "prepareVoidNativeValueTransferBlockExecutionV1 zero_digest nx_ethers nb_hash (UBig 9) nb_snapshot nb_policy
     [nb_transaction] = Inr nb_plan"
  unfolding nb_plan_def
proof (rule nb_prepared_at [OF _ nb_snapshot_valid])
  show "SAFE_ID (sn_state_version nb_snapshot)" "js_trim (sn_state_version nb_snapshot) = sn_state_version nb_snapshot"
    by code_simp+
qed (simp add: nb_snapshot_def)

section \<open>Properties\<close>

text \<open>
  C37. The two \<^verbatim>\<open>apply\<close> functions touch the store only when they may, and are honest about it. A
  request is made at most once, only with the exact confirmation, a configured store and a plan
  that passes every check, and it is the plan's own request. \<^verbatim>\<open>applied\<close> is returned only if the
  store committed this transaction (this block, number, count and final state version); when the
  store threw, or committed and the decision is still held, the decision says that a submission
  may have occurred. No held decision allows a retry.
\<close>

theorem apply_safe:
  "(case applyVoidNativeValueTransferStateTransitionV1 H plan confirmation store of (decision, requests) \<Rightarrow>
    (requests = [] \<or> (requests = [storeRequest plan] \<and> store \<noteq> None \<and> validatePlan H plan = None \<and>
      confirmation = VOID_NATIVE_VALUE_TRANSFER_CONFIRMATION_V1)) \<and>
    (case decision of
      ApplyReady hash key commit version \<Rightarrow>
        requests = [storeRequest plan] \<and> hash = p_transaction_hash plan \<and> key = p_idempotency_key_sha256 plan \<and>
        (\<exists>c v h. the store (storeRequest plan) = Applied c v h \<and> js_lower h = hash)
    | ApplyHeld d \<Rightarrow> h_retry_allowed d = False \<and>
        h_submission_may_have_occurred d =
          (if requests = [] then False
           else case the store (storeRequest plan) of NotApplied _ _ b \<Rightarrow> b = Some True | _ \<Rightarrow> True))) \<and>
   (case applyVoidNativeValueTransferBlockExecutionV1 H block confirmation bstore of (decision, requests) \<Rightarrow>
    (requests = [] \<or> (requests = [blockRequest block] \<and> bstore \<noteq> None \<and> validateBlockPlan H block = None \<and>
      confirmation = VOID_NATIVE_VALUE_TRANSFER_BLOCK_CONFIRMATION_V1)) \<and>
    (case decision of
      BlockReady hash number cnt version key commit \<Rightarrow>
        requests = [blockRequest block] \<and> hash = b_block_hash block \<and> number = b_block_number block \<and>
        cnt = b_transaction_count block \<and> version = b_final_state_version block \<and>
        key = b_block_idempotency_key_sha256 block \<and>
        (\<exists>c h v. the bstore (blockRequest block) = BlockApplied c h number v cnt \<and> js_lower h = hash \<and> js_trim v = version)
    | BlockHeld d \<Rightarrow> h_retry_allowed d = False \<and>
        h_submission_may_have_occurred d =
          (if requests = [] then False
           else case the bstore (blockRequest block) of BlockNotApplied _ _ b \<Rightarrow> b = Some True | _ \<Rightarrow> True)))"
proof (rule conjI, goal_cases)
  case 1
  show ?case
    unfolding applyVoidNativeValueTransferStateTransitionV1_def storeOutcome_def held_def held_with_def
    by (auto simp: Let_def split: option.splits store_result.splits)
next
  case 2
  show ?case
    unfolding applyVoidNativeValueTransferBlockExecutionV1_def blockStoreOutcome_def block_held_def block_held_with_def
    by (auto simp: Let_def split: option.splits block_store_result.splits)
qed

text \<open>
  A prepared block is the composition of its transfers. There is one plan per transaction, in
  order; running the abstract transitions of the plans on the ledger of the snapshot gives, for
  every account in the aggregate changes, its state before and after (and they differ), and
  leaves every account that is not in them as it was. So committing the aggregate changes alone
  has the effect of executing all transactions one after another.
\<close>

theorem prepared_block_refines:
  assumes "prepareVoidNativeValueTransferBlockExecutionV1 H E block_hash block_number snap policy txs = Inr b"
  shows "length (b_transaction_plans b) = length txs \<and>
    sorted_wrt (<) (map ac_address (b_aggregate_account_changes b)) \<and>
    (\<forall>c \<in> set (b_aggregate_account_changes b).
       change_before c = snapshot_ledger snap (ac_address c) \<and>
       change_after c = run_plans (b_transaction_plans b) (snapshot_ledger snap) (ac_address c) \<and>
       change_before c \<noteq> change_after c) \<and>
    (\<forall>a. a \<notin> ac_address ` set (b_aggregate_account_changes b) \<longrightarrow>
       run_plans (b_transaction_plans b) (snapshot_ledger snap) a = snapshot_ledger snap a)"
  using prepared_block_facts(1,5,6) [OF assms] prepared_block_facts(7) [OF assms] by blast

theorem prepared_block_refines_witness:
  "run_plans (b_transaction_plans nb_plan) (snapshot_ledger nb_snapshot) (nx_address CHR ''4'') = (77, 1)"
proof -
  have "b_aggregate_account_changes nb_plan = nx_changes" by (simp add: nb_plan_def nb_plan_at_def buildBlockPlan_sel)
  moreover have "nx_address CHR ''4'' \<notin> ac_address ` set nx_changes" by code_simp
  moreover have "snapshot_ledger nb_snapshot (nx_address CHR ''4'') = (77, 1)" by code_simp
  ultimately show ?thesis using prepared_block_refines [OF nb_prepared] by metis
qed

text \<open>
  A prepared block conserves value, stays within the block policy and repeats no transaction.
  The balances of the snapshot's accounts after all transitions plus the burned fees are the
  balances before; the totals of the plan are the sums over its transactions, the fee total splits
  into credits and burned fees, every total is at most the policy's, and the transaction hashes
  are pairwise different.
\<close>

theorem prepared_block_conserves_value:
  assumes "prepareVoidNativeValueTransferBlockExecutionV1 H E block_hash block_number snap policy0 txs = Inr b"
  shows "(\<Sum>a\<in>r_address ` set (sn_accounts snap). fst (run_plans (b_transaction_plans b) (snapshot_ledger snap) a)) +
      dec_val (b_total_fee_burned_wei b) =
      (\<Sum>a\<in>r_address ` set (sn_accounts snap). fst (snapshot_ledger snap a)) \<and>
    dec_val (b_total_fee_debit_wei b) = dec_val (b_total_fee_credit_wei b) + dec_val (b_total_fee_burned_wei b) \<and>
    dec_val (b_total_value_wei b) = (\<Sum>p\<leftarrow>b_transaction_plans b. dec_val (p_value_wei p)) \<and>
    (\<exists>policy. normalizeBlockPolicy policy0 = Inr policy \<and>
       dec_val (b_total_value_wei b) \<le> nb_max_total_value_wei policy \<and>
       dec_val (b_total_fee_debit_wei b) \<le> nb_max_total_fee_debit_wei policy \<and>
       dec_val (b_total_fee_burned_wei b) \<le> nb_max_total_fee_burned_wei policy) \<and>
    b_ordered_transaction_hashes b = map p_transaction_hash (b_transaction_plans b) \<and>
    distinct (b_ordered_transaction_hashes b)"
proof -
  note f = prepared_block_facts [OF assms]
  have ok: "plan_amounts_ok p" if "p \<in> set (b_transaction_plans b)" for p
    using f(2) that prepared_plan_amounts by blast
  have "(\<Sum>a\<in>r_address ` set (sn_accounts snap). fst (run_plans (b_transaction_plans b) (snapshot_ledger snap) a)) =
      (\<Sum>a\<in>r_address ` set (sn_accounts snap). fst (snapshot_ledger snap a)) -
      sum_field p_fee_burned_wei (b_transaction_plans b)"
    unfolding run_plans_def sum_field_def by (rule transfers.sequence_conserves [OF _ f(2)]) simp
  with f(3,4,8) sum_field_split [OF ok] show ?thesis by (auto simp: sum_field_def)
qed

theorem prepared_block_conserves_value_witness:
  "prepareVoidNativeValueTransferBlockExecutionV1 zero_digest nx_ethers nb_hash (UBig 9) nb_snapshot nb_policy
     [nb_transaction] = Inr nb_plan \<and>
   dec_val (b_total_fee_debit_wei nb_plan) =
     dec_val (b_total_fee_credit_wei nb_plan) + dec_val (b_total_fee_burned_wei nb_plan)"
  using prepared_block_conserves_value [OF nb_prepared] nb_prepared by blast

text \<open>
  Preparing and applying a block fit together. With any hexadecimal digest, the block plan
  \<^verbatim>\<open>prepare\<close> returns passes every check of \<^verbatim>\<open>apply\<close> (the bindings of all its transactions
  included), which makes exactly one request of the store; if the store's receipt names the
  block, its number, its transaction count and the final state version, the decision is \<^verbatim>\<open>applied\<close>.
\<close>

theorem prepared_block_applies:
  assumes "\<And>s. hex_n 64 (H s)"
    and "prepareVoidNativeValueTransferBlockExecutionV1 H E block_hash block_number snap policy txs = Inr b"
    and "store (blockRequest b) = BlockApplied commit hash (b_block_number b) version (b_transaction_count b)"
    and "SAFE_ID (js_trim commit)" "js_trim version = b_final_state_version b" "js_lower hash = b_block_hash b"
  shows "applyVoidNativeValueTransferBlockExecutionV1 H b VOID_NATIVE_VALUE_TRANSFER_BLOCK_CONFIRMATION_V1 (Some store) =
    (BlockReady (b_block_hash b) (b_block_number b) (b_transaction_count b) (b_final_state_version b)
       (b_block_idempotency_key_sha256 b) (js_trim commit), [blockRequest b])"
proof -
  have "hex_digest H" using assms(1) by unfold_locales
  from hex_digest.prepared_block_valid [OF this assms(2)] have "validateBlockPlan H b = None" .
  with assms(3-) show ?thesis
    by (simp add: applyVoidNativeValueTransferBlockExecutionV1_def blockStoreOutcome_def Let_def)
qed

definition nb_store :: "block_request \<Rightarrow> block_store_result" where
  "nb_store r = BlockApplied ''c-1'' (br_block_hash r) (br_block_number r) (br_final_state_version r) (br_transaction_count r)"

theorem prepared_block_applies_witness:
  "applyVoidNativeValueTransferBlockExecutionV1 zero_digest nb_plan VOID_NATIVE_VALUE_TRANSFER_BLOCK_CONFIRMATION_V1
     (Some nb_store) =
   (BlockReady (b_block_hash nb_plan) (b_block_number nb_plan) (b_transaction_count nb_plan)
      (b_final_state_version nb_plan) (b_block_idempotency_key_sha256 nb_plan) (js_trim ''c-1''), [blockRequest nb_plan])"
proof (rule prepared_block_applies [OF zero_digest_shape nb_prepared])
  show "nb_store (blockRequest nb_plan) = BlockApplied ''c-1'' (b_block_hash nb_plan) (b_block_number nb_plan)
      (b_final_state_version nb_plan) (b_transaction_count nb_plan)"
    by (simp add: nb_store_def blockRequest_def)
  show "SAFE_ID (js_trim ''c-1'')" by code_simp
  have "js_trim (''bsv1-'' @ replicate 64 CHR ''0'') = ''bsv1-'' @ replicate 64 CHR ''0''" by code_simp
  then show "js_trim (b_final_state_version nb_plan) = b_final_state_version nb_plan"
    by (simp add: nb_plan_def nb_plan_at_def buildBlockPlan_sel nb_state_def nextStateVersion_def zero_sha256)
  show "js_lower (b_block_hash nb_plan) = b_block_hash nb_plan"
    by (simp add: nb_plan_def nb_plan_at_def buildBlockPlan_sel nb_steps)
qed

end
