(* ===== verification/Native_Store_Block.thy ===== *)
theory Native_Store_Block
  imports Native_Store_Transfer Native_Block_Properties
begin

text \<open>
  A block from preparation to commit: a block that is prepared from the snapshot of the store
  passes every check of the store, and an undisturbed commit leaves the store with the ledger after
  all its transfers.
\<close>

section \<open>The aggregate changes and the accounts of the store\<close>

lemma same_map_list:
  assumes "map fst xs = map fst ys" "distinct (map fst xs)" "map_of xs = map_of ys"
  shows "xs = ys"
proof (rule nth_equalityI)
  show len: "length xs = length ys" using arg_cong [OF assms(1), of length] by simp
  fix i assume i: "i < length xs"
  have k: "fst (xs ! i) = fst (ys ! i)" using i len arg_cong [OF assms(1), of "\<lambda>l. l ! i"] by simp
  have "map_of xs (fst (xs ! i)) = Some (snd (xs ! i))"
    using assms(2) i by (intro map_of_is_SomeI) auto
  moreover have "map_of ys (fst (ys ! i)) = Some (snd (ys ! i))"
    using assms(1,2) i len by (intro map_of_is_SomeI) (auto simp: assms(1) [symmetric])
  ultimately show "xs ! i = ys ! i" using k assms(3) by (simp add: prod_eq_iff)
qed

lemma aggregate_store:
  assumes m0: "rows_ok m0" and m: "rows_ok m" and keys: "map fst m = map fst m0"
    and agg: "mapM (aggregateChange m0 m) (sort (map fst m)) = Inr css"
  shows "\<forall>c \<in> set (concat css). prestateMatches m0 c \<and> change_decimal c \<and> ac_address c \<in> fst ` set m0"
    "applyChanges m0 (concat css) = m"
proof -
  let ?cs = "concat css"
  note cs = aggregate_eq [OF agg]
  have set: "fst ` set m = fst ` set m0" using arg_cong [OF keys, of set] by simp
  have rows: "\<exists>r0 r. map_of m0 a = Some r0 \<and> map_of m a = Some r" if "a \<in> fst ` set m0" for a
    using that set map_of_eq_None_iff [of m0 a] map_of_eq_None_iff [of m a] by auto
  show all: "\<forall>c \<in> set ?cs. prestateMatches m0 c \<and> change_decimal c \<and> ac_address c \<in> fst ` set m0"
  proof
    fix c assume "c \<in> set ?cs"
    then obtain a where a: "a \<in> fst ` set m0" "c = net_change m0 m a" unfolding cs using set by auto
    from rows [OF a(1)] obtain r0 r where r: "map_of m0 a = Some r0" "map_of m a = Some r" by blast
    show "prestateMatches m0 c \<and> change_decimal c \<and> ac_address c \<in> fst ` set m0"
      using a r rows_ok_lookup [OF m0 r(1)] rows_ok_lookup [OF m r(2)]
      by (simp add: net_change_def prestateMatches_def change_decimal_def)
  qed
  have dist: "distinct (map ac_address ?cs)"
    using m by (simp add: cs comp_def net_change_def rows_ok_def)
  have "map_of (applyChanges m0 ?cs) a = map_of m a" for a
  proof (cases "a \<in> ac_address ` set ?cs")
    case True
    then obtain c where c: "c \<in> set ?cs" "a = ac_address c" by blast
    with all rows obtain r0 r where r: "map_of m0 a = Some r0" "map_of m a = Some r" by blast
    from c have "c = net_change m0 m a" unfolding cs by (auto simp: net_change_def)
    with r rows_ok_lookup [OF m r(2)] have "change_row c = r" by (simp add: change_row_def net_change_def)
    with applyChanges_inside [OF dist c(1)] c(2) r(2) show ?thesis by simp
  next
    case False
    show ?thesis
    proof (cases "a \<in> fst ` set m0")
      case True
      with rows obtain r0 r where r: "map_of m0 a = Some r0" "map_of m a = Some r" by blast
      from True False set have "\<not> differs m0 m a" unfolding cs by (force simp: net_change_def)
      with r rows_ok_lookup [OF m0 r(1)] rows_ok_lookup [OF m r(2)] have "r0 = r" by (cases r0; cases r) (simp add: differs_def)
      with r applyChanges_outside [OF False] show ?thesis by simp
    next
      case out: False
      then have "map_of m0 a = None" "map_of m a = None"
        using set map_of_eq_None_iff [of m0 a] map_of_eq_None_iff [of m a] by auto
      with applyChanges_outside [OF False] show ?thesis by simp
    qed
  qed
  moreover have "map fst (applyChanges m0 ?cs) = map fst m"
    unfolding keys by (rule applyChanges_keys) (use all in blast)
  moreover have "distinct (map fst m)" using m by (simp add: rows_ok_def)
  ultimately show "applyChanges m0 ?cs = m" by (intro same_map_list) auto
qed

section \<open>Nonces and balances over a block\<close>

lemma row_total_ledger:
  assumes "rows_ok m"
  shows "row_total r_balance_wei (map snd m) = (\<Sum>a\<in>fst ` set m. fst (ledger_of m a))"
    "row_total r_nonce (map snd m) = (\<Sum>a\<in>fst ` set m. snd (ledger_of m a))"
proof -
  have d: "distinct (map fst m)" using assms by (simp add: rows_ok_def)
  have val: "ledger_of m (fst p) = (dec_val (r_balance_wei (snd p)), dec_val (r_nonce (snd p)))" if "p \<in> set m" for p
    using d that by (cases p) (simp add: ledger_of_def map_of_is_SomeI)
  have "(\<Sum>a\<in>fst ` set m. h (ledger_of m a)) = (\<Sum>p\<leftarrow>m. h (ledger_of m (fst p)))" for h :: "int \<times> int \<Rightarrow> int"
    using sum_list_distinct_conv_sum_set [OF d, of "\<lambda>a. h (ledger_of m a)"] by (simp add: comp_def)
  also have "(\<Sum>p\<leftarrow>m. h (ledger_of m (fst p))) = (\<Sum>p\<leftarrow>m. h (dec_val (r_balance_wei (snd p)), dec_val (r_nonce (snd p))))"
      for h :: "int \<times> int \<Rightarrow> int"
    by (intro arg_cong [where f = sum_list] map_cong refl) (simp add: val)
  finally have e: "(\<Sum>a\<in>fst ` set m. h (ledger_of m a)) =
      (\<Sum>p\<leftarrow>m. h (dec_val (r_balance_wei (snd p)), dec_val (r_nonce (snd p))))" for h :: "int \<times> int \<Rightarrow> int" .
  from e [of fst] e [of snd] show "row_total r_balance_wei (map snd m) = (\<Sum>a\<in>fst ` set m. fst (ledger_of m a))"
    "row_total r_nonce (map snd m) = (\<Sum>a\<in>fst ` set m. snd (ledger_of m a))"
    by (simp_all add: row_total_def comp_def)
qed

lemma sum_nonces:
  assumes "finite A" "\<forall>p \<in> set ps. p_sender p \<in> A"
  shows "(\<Sum>a\<in>A. snd (run_plans ps L a)) = (\<Sum>a\<in>A. snd (L a)) + int (length ps)"
  using assms(2)
  by (induction ps rule: rev_induct) (simp_all add: plan_transition_def sum.distrib assms(1))

lemma nonces_grow: "snd (L a) \<le> snd (run_plans ps L a)"
  by (induction ps rule: rev_induct) (auto simp: plan_transition_def)

lemma foldM_blockChange:
  assumes "address_law E" "sorted_wrt (<) (map ac_address (ks_changes t @ cs))"
    and "ks_previousAddress t = (if ks_changes t = [] then '''' else ac_address (last (ks_changes t)))"
    and "\<forall>c \<in> set cs. normal_address E (ac_address c) \<and> change_decimal c \<and> dec_val (ac_nonce_before c) \<le> dec_val (ac_nonce_after c)"
  shows "\<exists>u. foldM (blockChangeStep E) t cs = Inr u \<and> ks_changes u = ks_changes t @ cs \<and>
    ks_totalNonceDelta u = ks_totalNonceDelta t + counts cs \<and>
    ks_totalBefore u - ks_totalAfter u = ks_totalBefore t - ks_totalAfter t + takes cs"
  using assms(2-)
proof (induction cs arbitrary: t)
  case Nil
  then show ?case by (simp add: counts_def takes_def)
next
  case (Cons c cs)
  let ?t = "\<lparr> ks_changes = ks_changes t @ [c], ks_previousAddress = ac_address c,
    ks_totalBefore = ks_totalBefore t + dec_val (ac_balance_before_wei c),
    ks_totalAfter = ks_totalAfter t + dec_val (ac_balance_after_wei c),
    ks_totalNonceDelta = ks_totalNonceDelta t + (dec_val (ac_nonce_after c) - dec_val (ac_nonce_before c)) \<rparr>"
  have c: "normal_address E (ac_address c)" "change_decimal c" "dec_val (ac_nonce_before c) \<le> dec_val (ac_nonce_after c)"
    using Cons.prems(3) by simp_all
  have lt: "\<forall>d \<in> set (ks_changes t). ac_address d < ac_address c"
    using Cons.prems(1) by (simp add: sorted_wrt_append)
  then have "ac_address c \<notin> ac_address ` set (ks_changes t)" by auto
  moreover have "\<not> (ks_previousAddress t \<noteq> '''' \<and> ac_address c \<le> ks_previousAddress t)"
    using lt Cons.prems(2) by (auto simp: not_le)
  ultimately have "blockChangeStep E t c = Inr ?t"
    using c normal_address_stable [OF assms(1) c(1)]
    by (cases c) (simp add: blockChangeStep_def change_decimal_def parseUint_decimal is_decimal_nonneg not_less)
  moreover from Cons.IH [of ?t] Cons.prems obtain u where "foldM (blockChangeStep E) ?t cs = Inr u"
      "ks_changes u = ks_changes ?t @ cs" "ks_totalNonceDelta u = ks_totalNonceDelta ?t + counts cs"
      "ks_totalBefore u - ks_totalAfter u = ks_totalBefore ?t - ks_totalAfter ?t + takes cs"
    by (auto simp: sorted_wrt_append)
  ultimately show ?case by (auto simp: counts_def takes_def)
qed

section \<open>The store accepts the request of a prepared block\<close>

lemma prepared_block_count:
  assumes "prepareVoidNativeValueTransferBlockExecutionV1 H E bh bn snap pol txs = Inr b"
  shows "b_transaction_count b = int (length txs)" "0 < int (length txs)" "int (length txs) \<le> 100000"
proof -
  from prepareBlock_Inr [OF assms] obtain n policy s css where x: "txs \<noteq> []" "normalizeBlockPolicy pol = Inr policy"
    and b: "b = buildBlockPlan H (js_lower bh) n snap s (concat css)" .
  have "b_transaction_count b = int (length (b_transaction_plans b))" by (simp add: b buildBlockPlan_sel)
  then show "b_transaction_count b = int (length txs)" by (simp add: prepared_block_facts(1) [OF assms])
  show "0 < int (length txs)" using x(1) by simp
  have "nb_max_transactions_per_block policy \<le> 100000"
    using x(2) unfolding normalizeBlockPolicy_def parseBoundedNumberFrom_def bnd_eq_Inr guard_eq_Inr by auto
  moreover have "int (length txs) \<le> nb_max_transactions_per_block policy"
    using assms x(2) unfolding prepareVoidNativeValueTransferBlockExecutionV1_def Let_def guard_eq_Inr bnd_eq_Inr block_caught_Inr
    by auto
  ultimately show "int (length txs) \<le> 100000" by simp
qed

lemma prepared_block_burned_text:
  assumes "prepareVoidNativeValueTransferBlockExecutionV1 H E bh bn snap pol txs = Inr b"
  shows "b_total_fee_burned_wei b = int_str (sum_field p_fee_burned_wei (b_transaction_plans b))"
proof -
  from prepareBlock_Inr [OF assms] obtain n policy s css where x:
    "validateSnapshot H snap = Inr snap" "normalizeBlockPolicy pol = Inr policy"
    "foldM (blockStep H E policy (js_lower bh) n) (initialBlockState snap) (zip (map int [0..<length txs]) txs) = Inr s"
    and b: "b = buildBlockPlan H (js_lower bh) n snap s (concat css)" .
  from block_loop_inv [OF x(3) initial_inv [OF x(1,2)]]
  show ?thesis by (simp add: b buildBlockPlan_sel block_inv_def)
qed

text \<open>The changes of a block prepared from the store's snapshot \<open>s\<close>, and what they leave.\<close>

lemma prepared_block_changes:
  assumes s: "snapshot_ok E policy s"
    and prep: "prepareVoidNativeValueTransferBlockExecutionV1 H E bh bn s pol txs = Inr b"
  shows "\<forall>c \<in> set (b_aggregate_account_changes b). prestateMatches (account_map (sn_accounts s)) c \<and> change_decimal c \<and>
      normal_address E (ac_address c) \<and> dec_val (ac_nonce_before c) \<le> dec_val (ac_nonce_after c)"
    "counts (b_aggregate_account_changes b) = int (length txs)"
    "takes (b_aggregate_account_changes b) = dec_val (b_total_fee_burned_wei b)"
    "ledger_of (applyChanges (account_map (sn_accounts s)) (b_aggregate_account_changes b)) =
      run_plans (b_transaction_plans b) (snapshot_ledger s)"
    "rows_ok (applyChanges (account_map (sn_accounts s)) (b_aggregate_account_changes b))"
    "b_final_accounts_fingerprint_sha256 b = projectedAccountsFingerprint H (b_final_state_version b)
      (sort_key r_address (map snd (applyChanges (account_map (sn_accounts s)) (b_aggregate_account_changes b))))"
proof -
  from prepareBlock_Inr [OF prep] obtain n policy' st css where x:
    "validateSnapshot H s = Inr s" "normalizeBlockPolicy pol = Inr policy'"
    "foldM (blockStep H E policy' (js_lower bh) n) (initialBlockState s) (zip (map int [0..<length txs]) txs) = Inr st"
    "mapM (aggregateChange (initialProjected s) (bs_projected st)) (sort (map fst (bs_projected st))) = Inr css"
    and b: "b = buildBlockPlan H (js_lower bh) n s st (concat css)" .
  let ?m = "account_map (sn_accounts s)" and ?cs = "b_aggregate_account_changes b" and ?ps = "b_transaction_plans b"
  have m: "?m = initialProjected s" by (simp add: account_map_def initialProjected_def)
  note inv = block_loop_inv [OF x(3) initial_inv [OF x(1,2)], unfolded block_inv_def]
  note i0 = initialProjected_ok [OF x(1)] and f = prepared_block_facts [OF prep]
  have rows: "rows_ok (bs_projected st)" and keys: "map fst (bs_projected st) = map fst (initialProjected s)"
    and led: "ledger_of (bs_projected st) = run_plans ?ps (ledger_of (initialProjected s))"
    using inv by (simp_all add: b buildBlockPlan_sel)
  have cs: "?cs = concat css" by (simp add: b buildBlockPlan_sel)
  note agg = aggregate_store [OF i0(1) rows keys x(4), folded cs m]
  show rows': "rows_ok (applyChanges ?m ?cs)" and led': "ledger_of (applyChanges ?m ?cs) = run_plans ?ps (snapshot_ledger s)"
    unfolding agg(2) using rows led i0(2) by simp_all
  show "b_final_accounts_fingerprint_sha256 b = projectedAccountsFingerprint H (b_final_state_version b)
      (sort_key r_address (map snd (applyChanges ?m ?cs)))"
    unfolding agg(2) by (simp add: b buildBlockPlan_def Let_def blockPlanWithoutBinding_sel)
  have adr: "fst ` set ?m = r_address ` set (sn_accounts s)"
    using arg_cong [OF snapshot_map_ok(2) [OF s], of set] by simp
  show "\<forall>c \<in> set ?cs. prestateMatches ?m c \<and> change_decimal c \<and> normal_address E (ac_address c) \<and>
      dec_val (ac_nonce_before c) \<le> dec_val (ac_nonce_after c)"
  proof
    fix c assume c: "c \<in> set ?cs"
    with agg(1) adr have "ac_address c \<in> r_address ` set (sn_accounts s)" by auto
    with s have "normal_address E (ac_address c)" by (auto simp: snapshot_ok_def row_ok_def)
    moreover have "change_before c = snapshot_ledger s (ac_address c)"
        "change_after c = run_plans ?ps (snapshot_ledger s) (ac_address c)" using f(6) c by blast+
    then have "dec_val (ac_nonce_before c) \<le> dec_val (ac_nonce_after c)"
      using nonces_grow [of "snapshot_ledger s" "ac_address c" ?ps] by (metis change_after_def change_before_def snd_conv)
    ultimately show "prestateMatches ?m c \<and> change_decimal c \<and> normal_address E (ac_address c) \<and>
      dec_val (ac_nonce_before c) \<le> dec_val (ac_nonce_after c)" using agg(1) c by blast
  qed
  have keys': "fst ` set (applyChanges ?m ?cs) = fst ` set ?m"
    unfolding agg(2) unfolding m using arg_cong [OF keys, of set] by simp
  have m0: "rows_ok ?m" "ledger_of ?m = snapshot_ledger s" using i0 m by simp_all
  have dist: "distinct (map fst ?m)" "distinct (map ac_address ?cs)" "list_all (prestateMatches ?m) ?cs"
    using m0(1) f(5) agg(1) by (auto simp: rows_ok_def strict_sorted_iff list_all_iff)
  have senders: "\<forall>p \<in> set ?ps. p_sender p \<in> fst ` set ?m" using f(2) adr by (auto simp: plan_addresses_def)
  have "counts ?cs = (\<Sum>a\<in>fst ` set ?m. snd (run_plans ?ps (snapshot_ledger s) a)) - (\<Sum>a\<in>fst ` set ?m. snd (snapshot_ledger s a))"
    using balance_changes(2) [OF dist(1,3,2)] row_total_ledger(2) [OF rows'] row_total_ledger(2) [OF m0(1)]
    by (simp add: counts_def keys' led' m0(2))
  with sum_nonces [of "fst ` set ?m" ?ps "snapshot_ledger s"] senders f(1) show "counts ?cs = int (length txs)" by simp
  have "takes ?cs = (\<Sum>a\<in>fst ` set ?m. fst (snapshot_ledger s a)) - (\<Sum>a\<in>fst ` set ?m. fst (run_plans ?ps (snapshot_ledger s) a))"
    using balance_changes(1) [OF dist(1,3,2)] row_total_ledger(1) [OF rows'] row_total_ledger(1) [OF m0(1)]
    by (simp add: takes_def keys' led' m0(2))
  moreover have "(\<Sum>a\<in>fst ` set ?m. fst (run_plans ?ps (snapshot_ledger s) a)) =
      (\<Sum>a\<in>fst ` set ?m. fst (snapshot_ledger s a)) - sum_field p_fee_burned_wei ?ps"
    unfolding run_plans_def sum_field_def adr by (rule transfers.sequence_conserves [OF _ f(2)]) simp
  ultimately show "takes ?cs = dec_val (b_total_fee_burned_wei b)" using f(8) by auto
qed

definition block_request_of :: "block_plan \<Rightarrow> block_apply_request" where
  "block_request_of b = \<lparr> bq_block_idempotency_key_sha256 = b_block_idempotency_key_sha256 b, bq_block_hash = b_block_hash b,
     bq_block_number = b_block_number b, bq_transaction_count = b_transaction_count b,
     bq_parent_state_version = b_parent_state_version b,
     bq_parent_snapshot_fingerprint_sha256 = b_parent_snapshot_fingerprint_sha256 b,
     bq_final_state_version = b_final_state_version b,
     bq_final_accounts_fingerprint_sha256 = b_final_accounts_fingerprint_sha256 b,
     bq_ordered_transaction_hashes = b_ordered_transaction_hashes b,
     bq_transaction_plan_bindings_sha256 = map p_plan_binding_sha256 (b_transaction_plans b),
     bq_aggregate_account_changes = b_aggregate_account_changes b,
     bq_total_fee_burned_wei = dec_val (b_total_fee_burned_wei b), bq_block_binding_sha256 = b_block_binding_sha256 b \<rparr>"

lemma length_js_set: "distinct xs \<Longrightarrow> length (js_set xs) = length xs"
  using distinct_card [of "js_set xs"] distinct_card [of xs] by simp

lemma map_lower: "(\<And>x. x \<in> set xs \<Longrightarrow> js_lower x = x) \<Longrightarrow> map js_lower xs = xs"
  by (rule map_idI)

lemma prepared_block_request_valid:
  assumes H: "hex_digest H" and law: "address_law E" and s: "snapshot_ok E policy s"
    and prep: "prepareVoidNativeValueTransferBlockExecutionV1 H E bh bn s pol txs = Inr b"
  shows "validateBlockApplyRequest H E (blockRequest b) = Inr (block_request_of b)"
proof -
  let ?cs = "b_aggregate_account_changes b"
  let ?s = "\<lparr> ks_changes = [], ks_previousAddress = '''', ks_totalBefore = 0, ks_totalAfter = 0, ks_totalNonceDelta = 0 \<rparr>"
  note ch = prepared_block_changes [OF s prep] and f = prepared_block_facts [OF prep] and n = prepared_block_count [OF prep]
  have valid: "validateBlockPlan H b = None" by (rule hex_digest.prepared_block_valid [OF H prep])
  have v: "TRANSACTION_HASH (b_block_hash b)" "is_decimal (b_block_number b)" "SAFE_ID (b_parent_state_version b)"
      "SAFE_ID (b_final_state_version b)" "SHA256 (b_parent_snapshot_fingerprint_sha256 b)"
      "SHA256 (b_final_accounts_fingerprint_sha256 b)" "SHA256 (b_block_idempotency_key_sha256 b)" "SHA256 (b_block_binding_sha256 b)"
      "blockIdempotencyKey H (b_block_hash b) (b_block_number b) = b_block_idempotency_key_sha256 b"
    using valid unfolding validateBlockPlan_def by (simp_all split: if_splits)
  have plans: "TRANSACTION_HASH (p_transaction_hash p) \<and> SHA256 (p_plan_binding_sha256 p)" if "p \<in> set (b_transaction_plans b)" for p
    using f(2) that prepared_digests(2,6) [OF H] unfolding prepared_plan_def by blast
  have lens: "length (b_ordered_transaction_hashes b) = length txs" "length (b_transaction_plans b) = length txs"
    using f(1,3) by simp_all
  have low: "js_lower x = x" if "SHA256 x" for x using that by (simp add: SHA256_def hex_lower)
  have hashes: "map js_lower (b_ordered_transaction_hashes b) = b_ordered_transaction_hashes b"
    unfolding f(3) by (rule map_lower) (use plans hash_lower in auto)
  have binds: "map js_lower (map p_plan_binding_sha256 (b_transaction_plans b)) = map p_plan_binding_sha256 (b_transaction_plans b)"
    by (rule map_lower) (use plans low in auto)
  have lists: "\<not> list_ex (\<lambda>h. \<not> TRANSACTION_HASH h) (b_ordered_transaction_hashes b)"
      "\<not> list_ex (\<lambda>x. \<not> SHA256 x) (map p_plan_binding_sha256 (b_transaction_plans b))"
    unfolding f(3) using plans by (auto simp: list_ex_iff)
  have ne: "?cs \<noteq> []" using ch(2) n(2) by (auto simp: counts_def)
  from foldM_blockChange [OF law, of ?s ?cs] f(5) ch(1) obtain u where
    u: "foldM (blockChangeStep E) ?s ?cs = Inr u" "ks_changes u = ?cs" "ks_totalNonceDelta u = counts ?cs"
      "ks_totalBefore u - ks_totalAfter u = takes ?cs" by auto
  have fee: "parseUint (UStr (b_total_fee_burned_wei b)) l = Inr (dec_val (b_total_fee_burned_wei b))"
      "0 \<le> dec_val (b_total_fee_burned_wei b)" for l
  proof -
    have nn: "0 \<le> sum_field p_fee_burned_wei (b_transaction_plans b)"
      using f(2) prepared_plan_amounts by (auto intro!: sum_field_nonneg simp: plan_amounts_ok_def)
    with f(8) show "0 \<le> dec_val (b_total_fee_burned_wei b)" by auto
    from nn prepared_block_burned_text [OF prep] have "is_decimal (b_total_fee_burned_wei b)" by simp
    then show "parseUint (UStr (b_total_fee_burned_wei b)) l = Inr (dec_val (b_total_fee_burned_wei b))" by (rule parseUint_decimal)
  qed
  have num: "parseUint (UStr (b_block_number b)) l = Inr (dec_val (b_block_number b))"
      "int_str (dec_val (b_block_number b)) = b_block_number b" for l
    using v(2) by (simp_all add: parseUint_decimal is_decimal_nonneg)
  have safe: "isSafeInteger (JNum (int (length txs)))" using n(3) by (simp add: MAX_SAFE_INTEGER_def)
  show ?thesis
    unfolding validateBlockApplyRequest_def blockRequest_def block_request.simps num bnd_simps Let_def hashes binds
      low [OF v(5)] low [OF v(6)] low [OF v(7)] low [OF v(8)] hash_lower [OF v(1)] u(1) length_js_set [OF f(4)]
    using v lists ne fee u ch(2,3) n safe lens
    by (simp add: VOID_NATIVE_VALUE_TRANSFER_BLOCK_CONFIRMATION_V1_def block_request_of_def del: isSafeInteger.simps)
qed

section \<open>The commit of a prepared block\<close>

definition block_commit_of :: "(string \<Rightarrow> string) \<Rightarrow> account_snapshot \<Rightarrow> block_apply_request \<Rightarrow> commit_plan" where
  "block_commit_of H s q = \<lparr> cp_pre = s, cp_post = blockPostSnapshotOf H s q, cp_entry = BlockEntry (blockEntryOf H s q) \<rparr>"

lemma prepared_block_parent:
  assumes "prepareVoidNativeValueTransferBlockExecutionV1 H E bh bn s pol txs = Inr b"
  shows "b_parent_state_version b = sn_state_version s" "b_parent_snapshot_fingerprint_sha256 b = sn_fingerprint_sha256 s"
proof -
  from prepareBlock_Inr [OF assms] obtain n policy t css where b: "b = buildBlockPlan H (js_lower bh) n s t (concat css)" .
  show "b_parent_state_version b = sn_state_version s" "b_parent_snapshot_fingerprint_sha256 b = sn_fingerprint_sha256 s"
    by (simp_all add: b buildBlockPlan_def Let_def blockPlanWithoutBinding_sel)
qed

lemma prepared_block_decided:
  assumes H: "hex_digest H" and law: "address_law E" and ready: "files_ready H E policy f" and f: "sf_snapshot f = Some s"
    and journal: "sf_torn f = 0" "sf_journal f \<noteq> None" "journal_bytes f \<le> ns_max_journal_bytes policy"
    and prep: "prepareVoidNativeValueTransferBlockExecutionV1 H E bh bn s pol txs = Inr b"
    and new: "\<forall>e \<in> set (entries_of f). b_block_idempotency_key_sha256 b \<notin> set (entry_block e)"
  shows "decideBlockApply H E policy (blockRequest b) f = Inr (Inr (block_commit_of H s (block_request_of b),
    BlockApplied (blockCommitIdOf H s (block_request_of b)) (b_block_hash b) (b_block_number b) (b_final_state_version b)
      (b_transaction_count b)))"
proof -
  from ready f have s: "snapshot_ok E policy s" by (simp add: files_ready_def snapshot_ready_def)
  note ch = prepared_block_changes [OF s prep] and pv = prepared_block_parent [OF prep]
  have find: "find (same_block (b_block_idempotency_key_sha256 b)) (entries_of f) = None"
    unfolding find_None_iff same_block_iff using new by blast
  have fits: "changeMismatch (account_map (sn_accounts s)) x y (b_aggregate_account_changes b) = None" for x y
    using ch(1) by (simp add: changeMismatch_None list_all_iff)
  have "projectedAccountsFingerprint H (b_final_state_version b) (postAccountsOf s (block_request_of b)) =
      b_final_accounts_fingerprint_sha256 b"
    by (simp add: ch(6) postAccountsOf_def block_request_of_def)
  then show ?thesis
    unfolding decideBlockApply_def prepared_block_request_valid [OF H law s prep] snapshot_readable [OF H law ready f]
      journal_readable [OF ready journal] bnd_simps
    by (simp add: block_request_of_def find fits pv Let_def block_commit_of_def blockEntryOf_def)
qed

lemma block_commit_ledger:
  assumes s: "snapshot_ok E policy s" and prep: "prepareVoidNativeValueTransferBlockExecutionV1 H E bh bn s pol txs = Inr b"
  shows "snapshot_ledger (blockPostSnapshotOf H s (block_request_of b)) = run_plans (b_transaction_plans b) (snapshot_ledger s)"
proof -
  note ch = prepared_block_changes [OF s prep]
  have "sort_key r_address (postAccountsOf s (block_request_of b)) = postAccountsOf s (block_request_of b)"
    by (intro sort_key_id_if_sorted) (simp add: postAccountsOf_def)
  then have "snapshot_ledger (blockPostSnapshotOf H s (block_request_of b)) =
      ledger_of (applyChanges (account_map (sn_accounts s)) (b_aggregate_account_changes b))"
    using sorted_ledger [OF ch(5)]
    by (simp add: snapshot_ledger_def blockPostSnapshotOf_def postAccountsOf_def block_request_of_def)
  with ch(4) show ?thesis by simp
qed

end
