(* ===== verification/Native_Store_Example.thy ===== *)
theory Native_Store_Example
  imports Native_Store_Block
begin

text \<open>
  A concrete store for the instances of its properties: four accounts at genesis, and the transfer and
  the block of the earlier examples committed to it. The digest tells the snapshot of the genesis
  from every other text, so that no digest collides in the first commit.
\<close>

section \<open>Bounds on sizes\<close>

fun jsize :: "nat \<Rightarrow> jsv \<Rightarrow> int" where
  "jsize n (JStr s) = 6 * slen s + 2"
| "jsize n (JNum i) = slen (int_str i)"
| "jsize n (JFrac s) = slen s + 4"
| "jsize n (JArr xs) = (\<Sum>x\<leftarrow>xs. jsize (Suc n) x + 2 * int n + 4) + 4 * int n + 6"
| "jsize n (JObj kvs) = (\<Sum>(k, v)\<leftarrow>kvs. jsize (Suc n) v + 6 * slen k + 2 * int n + 8) + 4 * int n + 6"
| "jsize n v = 5"

lemma slen_join: "slen (join_with c xs) \<le> (\<Sum>x\<leftarrow>xs. slen x + 1)"
  by (induction c xs rule: join_with.induct) auto

lemma slen_esc: "slen (concat (map esc_char s)) \<le> 6 * slen s"
  by (induction s) (auto simp: esc_char_def)

lemma slen_quote: "slen (json_quote s) \<le> 6 * slen s + 2"
  using slen_esc [of s] by (simp add: json_quote_def)

lemma jsize_nonneg: "0 \<le> jsize n v"
proof (induction n v rule: jsize.induct)
  case (4 n xs)
  then have "0 \<le> (\<Sum>x\<leftarrow>xs. jsize (Suc n) x + 2 * int n + 4)" by (intro sum_list_nonneg) auto
  then show ?case by simp
next
  case (5 n kvs)
  then have "0 \<le> (\<Sum>(k, v)\<leftarrow>kvs. jsize (Suc n) v + 6 * slen k + 2 * int n + 8)" by (intro sum_list_nonneg) fastforce
  then show ?case by simp
qed simp_all

lemma sum_list_le: "(\<And>x. x \<in> set xs \<Longrightarrow> f x \<le> (g x :: int)) \<Longrightarrow> (\<Sum>x\<leftarrow>xs. f x) \<le> (\<Sum>x\<leftarrow>xs. g x)"
  by (induction xs) (auto intro: add_mono)

lemma sum_list_filter_le: "(\<And>x. x \<in> set xs \<Longrightarrow> 0 \<le> (f x :: int)) \<Longrightarrow> (\<Sum>x\<leftarrow>filter P xs. f x) \<le> (\<Sum>x\<leftarrow>xs. f x)"
  by (induction xs) (auto intro: add_increasing)

text \<open>The fields of an object, printed by \<open>pr\<close>, with \<open>d\<close> characters between them.\<close>

lemma fields_bound:
  assumes "\<forall>(k, v) \<in> set kvs. slen (pr v) \<le> b v" "\<And>v. 0 \<le> b v" "\<And>k. slen (sep k) \<le> slen (json_quote k) + 2" "0 \<le> d"
  shows "(\<Sum>x\<leftarrow>map (\<lambda>(k, u, s). sep k @ s) (filter (\<lambda>(k, u, s). \<not> u) (map (\<lambda>(k, v). (k, v = JUndef, pr v)) kvs)). slen x + d)
    \<le> (\<Sum>(k, v)\<leftarrow>kvs. b v + 6 * slen k + 4 + d)"
  using assms(1)
proof (induction kvs)
  case (Cons kv kvs)
  obtain k v where kv: "kv = (k, v)" by force
  have "slen (sep k @ pr v) \<le> b v + 6 * slen k + 4"
    using Cons.prems assms(3) [of k] slen_quote [of k] by (simp add: kv)
  moreover have "0 \<le> b v + 6 * slen k + 4 + d" using assms(2) [of v] assms(4) by simp
  ultimately show ?case using Cons.IH Cons.prems by (cases "v = JUndef") (simp_all add: kv)
qed simp

lemma slen_indented:
  "slen (join_with c (map (\<lambda>(i, s). (if i = 0 then [] else ind) @ s) (enumerate m xs))) \<le> (\<Sum>x\<leftarrow>xs. slen x + (slen ind + 1))"
proof -
  have "(\<Sum>x\<leftarrow>map (\<lambda>(i, s). (if i = 0 then [] else ind) @ s) (enumerate m xs). slen x + 1) \<le> (\<Sum>x\<leftarrow>xs. slen x + (slen ind + 1))"
  proof (induction xs arbitrary: m)
    case (Cons x xs)
    from Cons.IH [of "Suc m"] show ?case by (cases m) simp_all
  qed simp
  then show ?thesis using slen_join order_trans by blast
qed

lemma slen_nl_indent: "slen (nl_indent n) = 2 * int n + 1"
  by (simp add: nl_indent_def)

lemma stringify_bound: "slen (stringify v) \<le> jsize n v"
proof (induction v arbitrary: n rule: stringify.induct)
  case (6 s)
  show ?case using slen_quote [of s] by simp
next
  case (7 xs)
  have "slen (join_with CHR '','' (map stringify xs)) \<le> (\<Sum>x\<leftarrow>xs. slen (stringify x) + 1)"
    using slen_join [of _ "map stringify xs"] by (simp add: comp_def)
  also have "\<dots> \<le> (\<Sum>x\<leftarrow>xs. jsize (Suc n) x + 2 * int n + 4)"
    by (rule sum_list_le) (use 7 [of _ "Suc n"] in force)
  finally show ?case by simp
next
  case (8 kvs)
  let ?fs = "map (\<lambda>(k, u, s). (json_quote k @ '':'') @ s)
      (filter (\<lambda>(k, u, s). \<not> u) (map (\<lambda>(k, v). (k, v = JUndef, stringify v)) kvs))"
  have "(\<Sum>x\<leftarrow>?fs. slen x + 1) \<le> (\<Sum>(k, v)\<leftarrow>kvs. jsize (Suc n) v + 6 * slen k + 4 + 1)"
    by (rule fields_bound) (use 8 jsize_nonneg in auto)
  also have "\<dots> \<le> (\<Sum>(k, v)\<leftarrow>kvs. jsize (Suc n) v + 6 * slen k + 2 * int n + 8)" by (rule sum_list_le) auto
  finally show ?case using slen_join [of "CHR '',''" ?fs] by simp
qed simp_all

lemma pretty_bound: "slen (pretty n v) \<le> jsize n v"
proof (induction n v rule: pretty.induct)
  case (1 n xs)
  let ?ps = "map (pretty (Suc n)) xs"
  have "slen (join_with CHR '','' (map (\<lambda>(i, s). (if i = 0 then [] else nl_indent (Suc n)) @ s) (enumerate 0 ?ps)))
      \<le> (\<Sum>x\<leftarrow>xs. slen (pretty (Suc n) x) + (2 * int n + 4))"
    using slen_indented [of _ "nl_indent (Suc n)" 0 ?ps] by (simp add: slen_nl_indent comp_def algebra_simps)
  also have "\<dots> \<le> (\<Sum>x\<leftarrow>xs. jsize (Suc n) x + 2 * int n + 4)" by (rule sum_list_le) (use 1 in force)
  finally show ?case by (simp add: slen_nl_indent)
next
  case (2 n kvs)
  let ?fs = "map (\<lambda>(k, u, s). (json_quote k @ '': '') @ s)
      (filter (\<lambda>(k, u, s). \<not> u) (map (\<lambda>(k, v). (k, v = JUndef, pretty (Suc n) v)) kvs))"
  have "slen (join_with CHR '','' (map (\<lambda>(i, s). (if i = 0 then [] else nl_indent (Suc n)) @ s) (enumerate 0 ?fs)))
      \<le> (\<Sum>x\<leftarrow>?fs. slen x + (2 * int n + 4))"
    using slen_indented [of _ "nl_indent (Suc n)" 0 ?fs] by (simp add: slen_nl_indent algebra_simps)
  also have "\<dots> \<le> (\<Sum>(k, v)\<leftarrow>kvs. jsize (Suc n) v + 6 * slen k + 4 + (2 * int n + 4))"
    by (rule fields_bound) (use 2 jsize_nonneg in auto)
  also have "\<dots> = (\<Sum>(k, v)\<leftarrow>kvs. jsize (Suc n) v + 6 * slen k + 2 * int n + 8)" by (simp add: algebra_simps)
  finally show ?case using jsize_nonneg [of n "JObj kvs"] by (simp add: slen_nl_indent Let_def)
qed (use stringify_bound slen_quote in auto)

lemma utf8_bound: "int (length (utf8_bytes s)) \<le> 2 * slen s"
  by (induction s) (simp_all add: utf8_bytes_def Let_def)

lemma json_bytes_bound: "json_bytes v \<le> 2 * jsize 0 v + 2"
  using utf8_bound [of "pretty 0 v @ [CHR 0x0A]"] pretty_bound [of 0 v] unfolding json_bytes_def by simp

lemma line_bytes_bound: "line_bytes e \<le> 2 * jsize 0 (entry_json e) + 2"
  using utf8_bound [of "stringify (entry_json e) @ [CHR 0x0A]"] stringify_bound [of "entry_json e" 0]
  unfolding line_bytes_def by simp

section \<open>The digest\<close>

abbreviation zeros :: string where "zeros \<equiv> replicate 64 CHR ''0''"
abbreviation ones :: string where "ones \<equiv> replicate 64 CHR ''1''"

definition sx_version :: string where
  "sx_version = ''genesis-v1-'' @ zeros"

definition sx_genesis :: account_snapshot where
  "sx_genesis = \<lparr> sn_schema = ''void_native_account_state_snapshot_v1'', sn_marker = VOID_NATIVE_ACCOUNT_STATE_STORE_V1,
     sn_version = 1, sn_state_version = sx_version, sn_accounts = nb_rows, sn_applied_transactions = [],
     sn_last_commit_id = None, sn_fingerprint_sha256 = ones \<rparr>"

definition sx_digest :: "string \<Rightarrow> string" where
  "sx_digest s = (if s = canonicalJson (snapshotFingerprintMaterial sx_genesis) then ones else zeros)"

lemma sx_digest_shape: "hex_n 64 (sx_digest s)"
  by (simp add: sx_digest_def hex_n_def list_all_iff is_lower_hex_def)

interpretation sx: hex_digest sx_digest
  by unfold_locales (rule sx_digest_shape)

lemma sx_rows_plain: "list_all Canonical_Json.plain (map row_json nb_rows)"
  by (simp add: nb_rows_def row_json_def)

lemma sx_genesis_plain: "Canonical_Json.plain (snapshotFingerprintMaterial sx_genesis)"
  using sx_rows_plain by (simp add: snapshotFingerprintMaterial_def sx_genesis_def)

lemma sx_other:
  assumes "Canonical_Json.plain v" "canonicalize (jget k v) \<noteq> canonicalize (jget k (snapshotFingerprintMaterial sx_genesis))"
  shows "sha256 sx_digest v = zeros"
  using canonicalJson_differ [OF assms(1) sx_genesis_plain assms(2)]
  by (simp add: sha256_def sx_digest_def canonicalJson_def [symmetric])

lemma sx_zero:
  assumes "Canonical_Json.plain v" "canonicalize (jget ''applied_transactions'' v) \<noteq> JArr []"
  shows "sha256 sx_digest v = zeros"
  using assms(1) by (rule sx_other [where k = "''applied_transactions''"])
    (use assms(2) in \<open>simp add: snapshotFingerprintMaterial_def sx_genesis_def\<close>)

lemma sx_one: "sha256 sx_digest (snapshotFingerprintMaterial sx_genesis) = ones"
  by (simp add: sha256_def sx_digest_def canonicalJson_def [symmetric])

section \<open>The new store\<close>

definition sx_accounts :: "genesis_account list" where
  "sx_accounts = map (\<lambda>r. \<lparr> ga_address = r_address r, ga_balance_wei = UStr (r_balance_wei r), ga_nonce = UStr (r_nonce r) \<rparr>) nb_rows"

definition sx_policy0 :: "int \<Rightarrow> store_policy" where
  "sx_policy0 limit = \<lparr> sp_max_accounts = UNum 10, sp_max_applied_transactions = UNum 10,
     sp_max_snapshot_bytes = UNum 1000000, sp_max_journal_bytes = UNum limit, sp_stale_lock_min_age_ms = UNum 1000 \<rparr>"

definition sx_policy :: "int \<Rightarrow> normalized_store_policy" where
  "sx_policy limit = \<lparr> ns_max_accounts = 10, ns_max_applied_transactions = 10, ns_max_snapshot_bytes = 1000000,
     ns_max_journal_bytes = limit, ns_stale_lock_min_age_ms = 1000 \<rparr>"

definition sx_entry0 :: transaction_journal_entry where
  "sx_entry0 = \<lparr> tj_commit_id = ''genesis-'' @ zeros, tj_idempotency_key_sha256 = zeros, tj_transaction_hash = ''0x'' @ zeros,
     tj_prior_state_version = ''none'', tj_state_version = sx_version, tj_prestate_fingerprint_sha256 = zeros,
     tj_poststate_fingerprint_sha256 = ones, tj_plan_binding_sha256 = zeros, tj_fee_burned_wei = ''0'',
     tj_account_changes = [], tj_snapshot_fingerprint_sha256 = ones \<rparr>"

definition sx_store :: store_files where
  "sx_store = empty_store \<lparr> sf_snapshot := Some sx_genesis, sf_journal := Some [TransactionEntry sx_entry0] \<rparr>"

lemma sx_policy_normal:
  assumes "1024 \<le> limit" "limit \<le> 4294967296"
  shows "normalizeStorePolicy (sx_policy0 limit) = Inr (sx_policy limit)"
  using assms by (simp add: normalizeStorePolicy_def sx_policy0_def sx_policy_def parseBoundedNumberFrom_def parseUint_def MAX_SAFE_INTEGER_def)

lemma sx_genesis_created: "createSnapshot sx_digest (sx_version) nb_rows [] None = sx_genesis"
proof -
  have "sort_key r_address nb_rows = nb_rows" by code_simp
  moreover have "snapshotFingerprintMaterial (sx_genesis \<lparr> sn_fingerprint_sha256 := '''' \<rparr>) = snapshotFingerprintMaterial sx_genesis"
    by (simp add: snapshotFingerprintMaterial_def)
  with sx_one have "withFingerprint sx_digest (sx_genesis \<lparr> sn_fingerprint_sha256 := '''' \<rparr>) = sx_genesis"
    by (simp add: withFingerprint_def) (simp add: sx_genesis_def)
  ultimately show ?thesis by (simp add: createSnapshot_def) (simp add: sx_genesis_def)
qed

lemma sx_genesis_entry: "genesisEntry sx_digest ''net-1'' sx_genesis = sx_entry0"
  by (simp add: genesisEntry_def sx_entry0_def sx_zero) (simp add: sx_genesis_def)

lemma sx_sizes:
  "json_bytes (snapshot_json sx_genesis) \<le> 1000000" "line_bytes (TransactionEntry sx_entry0) = 973"
proof -
  have "2 * jsize 0 (snapshot_json sx_genesis) + 2 \<le> 1000000" by code_simp
  with json_bytes_bound show "json_bytes (snapshot_json sx_genesis) \<le> 1000000" by (rule order_trans)
  show "line_bytes (TransactionEntry sx_entry0) = 973" by code_simp
qed

lemma sx_initialized:
  assumes "1024 \<le> limit" "limit \<le> 4294967296"
  shows "initializeVoidNativeAccountStateStoreV1 sx_digest nx_ethers (\<lambda>_. IoOk) (sx_policy0 limit) ''net-1'' sx_accounts
    INITIALIZE_CONFIRMATION empty_store = (sx_store, Some (Initialized (sx_version) ones 4))"
proof -
  have "js_trim ''net-1'' = ''net-1''" "SAFE_ID ''net-1''" "sx_accounts \<noteq> []" "length sx_accounts = 4" "length nb_rows = 4"
      "distinct (map r_address nb_rows)" "sort_key r_address nb_rows = nb_rows"
      "mapM (\<lambda>a. normalizeAccount nx_ethers (ga_address a) (ga_balance_wei a) (ga_nonce a)) sx_accounts = Inr nb_rows"
    by code_simp+
  note steps = this
  have version: "genesisVersion sx_digest ''net-1'' nb_rows = sx_version"
    using sx_rows_plain by (simp add: genesisVersion_def sx_zero sx_version_def)
  have policy: "normalizeStorePolicy (sx_policy0 limit) = Inr (sx_policy limit)" using assms by (intro sx_policy_normal) simp_all
  have run: "run_ops (sx_policy limit) (\<lambda>_. IoOk) 0 [PutSnapshot sx_genesis, AppendEntry (TransactionEntry sx_entry0)] empty_store =
      (RunDone, 2, sx_store)"
    using sx_sizes assms by (simp add: sx_policy_def empty_store_def journal_bytes_def entries_of_def not_less sx_store_def glue_def)
  have clean: "sf_snapshot empty_store = None" "sf_snapshot_next empty_store = None" "sf_intent empty_store = None"
      "sf_journal empty_store = None" "sf_lock empty_store = None" by (simp_all add: empty_store_def)
  have cap: "\<not> int 4 > ns_max_accounts (sx_policy limit)" by (simp add: sx_policy_def)
  show ?thesis
    unfolding initializeVoidNativeAccountStateStoreV1_def policy sum.case Let_def steps version sx_genesis_created sx_genesis_entry
      run prod.case run_end.case clean
    using steps cap by (simp only: simp_thms if_False if_True not_True_eq_False) (simp add: sx_genesis_def)
qed

section \<open>A transfer\<close>

definition sx_plan :: transfer_plan where
  "sx_plan = nx_plan_at sx_digest sx_version"

lemma sx_version_safe: "SAFE_ID sx_version" "js_trim sx_version = sx_version"
  by code_simp+

lemma sx_prepared:
  "prepareVoidNativeValueTransferStateTransitionV1 sx_digest nx_ethers ''0x02f8'' nx_transfer_policy
     (nx_snapshot_at sx_version) nx_context = Inr sx_plan"
  unfolding sx_plan_def by (rule nx_prepared_at [OF sx_version_safe])

lemma sx_taken: "taken_from (nx_snapshot_at sx_version) sx_genesis"
  by (auto simp: taken_from_def nx_snapshot_at_def sx_genesis_def nb_rows_def account_state_of_def)

lemma nx_ethers_law: "address_law nx_ethers"
  by (auto simp: address_law_def nx_ethers_def prefix_lower)

lemma sx_changes_plain:
  "list_all Canonical_Json.plain (map change_json nx_changes)" "list_all Canonical_Json.plain (map credit_json nx_credits)"
  by (simp_all add: nx_changes_def change_json_def nx_credits_def credit_json_def)

lemma sx_side_plain: "Canonical_Json.plain (snd (side_json b n c))"
  by (simp add: side_json_def)

lemma sx_fingerprint: "accountFingerprint sx_digest v cs b = zeros"
proof -
  have "list_all Canonical_Json.plain (map snd (sort_key fst (map
          (if b then side_json ac_balance_before_wei ac_nonce_before else side_json ac_balance_after_wei ac_nonce_after) cs)))"
    by (auto simp: list_all_iff sx_side_plain split: if_splits)
  then show ?thesis unfolding accountFingerprint_def by (intro sx_zero) simp_all
qed

lemma sx_plan_fields:
  "p_idempotency_key_sha256 sx_plan = zeros" "p_prestate_fingerprint_sha256 sx_plan = zeros"
  "p_poststate_fingerprint_sha256 sx_plan = zeros" "p_plan_binding_sha256 sx_plan = zeros"
  "p_account_changes sx_plan = nx_changes" "p_transaction_hash sx_plan = t_hash nx_transfer"
  "p_state_version sx_plan = sx_version" "dec_val (p_fee_burned_wei sx_plan) = 50000"
proof -
  let ?w = "planWithoutBinding sx_digest nx_transfer nx_env sx_version nx_credits 13000 nx_changes"
  have "sha256 sx_digest (planBindingMaterial ?w) = zeros"
    using sx_changes_plain by (intro sx_zero) (simp_all add: planBindingMaterial_def planWithoutBinding_def)
  then show "p_plan_binding_sha256 sx_plan = zeros" by (simp add: sx_plan_def nx_plan_at_def buildPlan_def Let_def)
  show "p_idempotency_key_sha256 sx_plan = zeros" "p_prestate_fingerprint_sha256 sx_plan = zeros"
    "p_poststate_fingerprint_sha256 sx_plan = zeros"
    by (simp_all add: sx_plan_def nx_plan_at_def buildPlan_def Let_def planWithoutBinding_def sx_fingerprint sx_zero)
  show "p_state_version sx_plan = sx_version" by (simp add: sx_plan_def nx_plan_at_def buildPlan_def Let_def planWithoutBinding_def)
qed (simp_all add: sx_plan_def nx_plan_fields)

definition sx_rows :: "account_row list" where
  "sx_rows = [
     \<lparr> r_address = nx_address CHR ''1'', r_balance_wei = ''36000'', r_nonce = ''8'' \<rparr>,
     \<lparr> r_address = nx_address CHR ''2'', r_balance_wei = ''1005'', r_nonce = ''0'' \<rparr>,
     \<lparr> r_address = nx_address CHR ''3'', r_balance_wei = ''13000'', r_nonce = ''0'' \<rparr>,
     \<lparr> r_address = nx_address CHR ''4'', r_balance_wei = ''77'', r_nonce = ''1'' \<rparr>]"

definition sx_post :: account_snapshot where
  "sx_post = \<lparr> sn_schema = ''void_native_account_state_snapshot_v1'', sn_marker = VOID_NATIVE_ACCOUNT_STATE_STORE_V1,
     sn_version = 1, sn_state_version = ''sv1-'' @ zeros, sn_accounts = sx_rows, sn_applied_transactions = [\<lparr>
       ar_idempotency_key_sha256 = zeros, ar_transaction_hash = ''0x'' @ replicate 64 CHR ''a'', ar_commit_id = ''c1-'' @ zeros,
       ar_state_version = ''sv1-'' @ zeros \<rparr>],
     sn_last_commit_id = Some (''c1-'' @ zeros), sn_fingerprint_sha256 = zeros \<rparr>"

definition sx_entry1 :: transaction_journal_entry where
  "sx_entry1 = \<lparr> tj_commit_id = ''c1-'' @ zeros, tj_idempotency_key_sha256 = zeros,
     tj_transaction_hash = ''0x'' @ replicate 64 CHR ''a'', tj_prior_state_version = sx_version,
     tj_state_version = ''sv1-'' @ zeros, tj_prestate_fingerprint_sha256 = zeros, tj_poststate_fingerprint_sha256 = zeros,
     tj_plan_binding_sha256 = zeros, tj_fee_burned_wei = ''50000'', tj_account_changes = nx_changes,
     tj_snapshot_fingerprint_sha256 = zeros \<rparr>"

definition sx_commit :: commit_plan where
  "sx_commit = \<lparr> cp_pre = sx_genesis, cp_post = sx_post, cp_entry = TransactionEntry sx_entry1 \<rparr>"

lemma sx_ids:
  "commitIdOf sx_digest v (request_of sx_plan) = ''c1-'' @ zeros" "nextVersionOf sx_digest v i (request_of sx_plan) = ''sv1-'' @ zeros"
  by (simp_all add: commitIdOf_def nextVersionOf_def sx_zero)

lemma sx_rows_changed: "sort_key r_address (map snd (applyChanges (account_map nb_rows) nx_changes)) = sx_rows"
  by code_simp

lemma sx_committed: "transfer_commit_of sx_digest sx_genesis (request_of sx_plan) = sx_commit"
proof -
  have hash: "aq_transaction_hash (request_of sx_plan) = ''0x'' @ replicate 64 CHR ''a''"
      "aq_idempotency_key_sha256 (request_of sx_plan) = zeros" "aq_account_changes (request_of sx_plan) = nx_changes"
      "aq_fee_burned_wei (request_of sx_plan) = 50000" "aq_prestate_fingerprint_sha256 (request_of sx_plan) = zeros"
      "aq_poststate_fingerprint_sha256 (request_of sx_plan) = zeros" "aq_plan_binding_sha256 (request_of sx_plan) = zeros"
    by (simp_all add: request_of_def sx_plan_fields nx_transfer_def)
  have g: "sn_state_version sx_genesis = sx_version" "sn_accounts sx_genesis = nb_rows" "sn_applied_transactions sx_genesis = []"
    by (simp_all add: sx_genesis_def)
  have mat: "snapshotFingerprintMaterial (sx_post \<lparr> sn_fingerprint_sha256 := x \<rparr>) = snapshotFingerprintMaterial sx_post" for x
    by (simp add: snapshotFingerprintMaterial_def)
  have "sha256 sx_digest (snapshotFingerprintMaterial sx_post) = zeros"
    by (intro sx_zero) (simp_all add: snapshotFingerprintMaterial_def sx_post_def sx_rows_def row_json_def applied_json_def)
  then have "withFingerprint sx_digest (sx_post \<lparr> sn_fingerprint_sha256 := '''' \<rparr>) = sx_post"
    by (simp add: withFingerprint_def mat) (simp add: sx_post_def)
  then have post: "postSnapshotOf sx_digest sx_genesis (request_of sx_plan) = sx_post"
    unfolding postSnapshotOf_def Let_def sx_ids g hash createSnapshot_def sx_rows_changed by (simp add: sx_post_def)
  have "int_str 50000 = ''50000''" by code_simp
  then have "transactionEntryOf sx_digest sx_genesis (request_of sx_plan) = sx_entry1"
    unfolding transactionEntryOf_def Let_def post sx_ids g hash by (simp add: sx_entry1_def sx_post_def)
  then show ?thesis by (simp add: transfer_commit_of_def post sx_commit_def)
qed

lemma sx_fits:
  assumes "100000 \<le> limit"
  shows "commit_fits (sx_policy limit) 5000 sx_store sx_commit"
proof -
  have "2 * jsize 0 (intent_json (intentOf 5000 sx_commit)) + 2 \<le> 1000000" "2 * jsize 0 (snapshot_json sx_post) + 2 \<le> 1000000"
      "2 * jsize 0 (entry_json (TransactionEntry sx_entry1)) + 2 \<le> 90000"
    by code_simp+
  with json_bytes_bound [of "intent_json (intentOf 5000 sx_commit)"] json_bytes_bound [of "snapshot_json sx_post"]
    line_bytes_bound [of "TransactionEntry sx_entry1"] sx_sizes assms
  show ?thesis
    by (simp add: commit_fits_def sx_policy_def journal_bytes_def entries_of_def sx_store_def empty_store_def)
      (simp add: sx_commit_def)
qed

lemma sx_fresh: "fresh_commit sx_store sx_commit"
  by (simp add: fresh_commit_def sx_commit_def sx_genesis_def sx_post_def journalHasCommit_def entries_of_def sx_store_def
      sx_entry0_def sx_entry1_def)

section \<open>A block\<close>

definition sx_block :: block_plan where
  "sx_block = nb_plan_at sx_digest sx_genesis"

lemma sx_block_prepared:
  "prepareVoidNativeValueTransferBlockExecutionV1 sx_digest nx_ethers nb_hash (UBig 9) sx_genesis nb_policy [nb_transaction] =
     Inr sx_block"
  unfolding sx_block_def
proof (rule nb_prepared_at)
  have "\<exists>t. foldM validateAccountStep ([], '''') nb_rows = Inr t" by (intro exI) code_simp
  then obtain t where "foldM validateAccountStep ([], '''') nb_rows = Inr t" ..
  moreover have "SHA256 ones" "nb_rows \<noteq> []" "VOID_NATIVE_ACCOUNT_STATE_STORE_V1 = EXPECTED_ACCOUNT_STORE_MARKER" by code_simp+
  ultimately show "validateSnapshot sx_digest sx_genesis = Inr sx_genesis"
    unfolding validateSnapshot_def sx_one by (simp add: sx_genesis_def sx_version_safe)
qed (simp_all add: sx_genesis_def sx_version_safe)

lemma sx_plan_json: "Canonical_Json.plain (plan_json sx_plan)"
proof -
  have "p_fee_credits sx_plan = nx_credits"
    by (simp add: sx_plan_def nx_plan_at_def buildPlan_def Let_def planWithoutBinding_def)
  with sx_changes_plain show ?thesis by (simp add: plan_json_def planBindingMaterial_def sx_plan_fields)
qed

lemma sx_next_version: "nextStateVersion sx_digest v i p = ''bsv1-'' @ zeros"
  by (simp add: nextStateVersion_def sx_zero)

lemma sx_projected: "projectedAccountsFingerprint sx_digest v rows = zeros"
proof -
  have "list_all Canonical_Json.plain (map row_json (sort_key r_address rows))" by (simp add: list_all_iff row_json_def)
  then show ?thesis unfolding projectedAccountsFingerprint_def by (intro sx_zero) simp_all
qed

lemma sx_block_fields:
  "b_block_idempotency_key_sha256 sx_block = zeros" "b_block_hash sx_block = nb_hash" "b_block_number sx_block = int_str 9"
  "b_transaction_count sx_block = 1" "b_parent_state_version sx_block = sx_version"
  "b_parent_snapshot_fingerprint_sha256 sx_block = ones" "b_final_state_version sx_block = ''bsv1-'' @ zeros"
  "b_final_accounts_fingerprint_sha256 sx_block = zeros" "b_ordered_transaction_hashes sx_block = [t_hash nx_transfer]"
  "b_transaction_plans sx_block = [sx_plan]" "b_aggregate_account_changes sx_block = nx_changes"
  "dec_val (b_total_fee_burned_wei sx_block) = 50000" "b_block_binding_sha256 sx_block = zeros"
proof -
  let ?w = "blockPlanWithoutBinding sx_digest nb_hash 9 sx_genesis (nb_state sx_digest sx_version) nx_changes"
  have g: "sn_state_version sx_genesis = sx_version" "sn_fingerprint_sha256 sx_genesis = ones" by (simp_all add: sx_genesis_def)
  have b: "sx_block = ?w \<lparr> b_block_binding_sha256 := sha256 sx_digest (blockPlanBindingMaterial ?w) \<rparr>"
    by (simp add: sx_block_def nb_plan_at_def buildBlockPlan_def Let_def g)
  have "sha256 sx_digest (blockPlanBindingMaterial ?w) = zeros"
    using sx_changes_plain sx_plan_json
    by (intro sx_zero) (simp_all add: blockPlanBindingMaterial_def blockPlanWithoutBinding_def nb_state_def sx_plan_def [symmetric])
  then show "b_block_binding_sha256 sx_block = zeros" by (simp add: b)
  show "b_block_idempotency_key_sha256 sx_block = zeros" by (simp add: b blockPlanWithoutBinding_sel blockIdempotencyKey_def sx_zero)
  show "dec_val (b_total_fee_burned_wei sx_block) = 50000" by (simp add: b blockPlanWithoutBinding_def nb_state_def)
  show "b_aggregate_account_changes sx_block = nx_changes" by (simp add: b blockPlanWithoutBinding_def)
qed (simp_all add: sx_block_def nb_plan_at_def buildBlockPlan_def Let_def blockPlanWithoutBinding_sel nb_state_def sx_next_version
    sx_projected sx_plan_def, simp_all add: sx_genesis_def)

definition sx_block_post :: account_snapshot where
  "sx_block_post = \<lparr> sn_schema = ''void_native_account_state_snapshot_v1'', sn_marker = VOID_NATIVE_ACCOUNT_STATE_STORE_V1,
     sn_version = 1, sn_state_version = ''bsv1-'' @ zeros, sn_accounts = sx_rows, sn_applied_transactions = [],
     sn_last_commit_id = Some (''bc1-'' @ zeros), sn_fingerprint_sha256 = zeros \<rparr>"

definition sx_block_entry :: block_journal_entry where
  "sx_block_entry = \<lparr> bj_commit_id = ''bc1-'' @ zeros, bj_block_idempotency_key_sha256 = zeros, bj_block_hash = nb_hash,
     bj_block_number = ''9'', bj_transaction_count = 1, bj_prior_state_version = sx_version,
     bj_state_version = ''bsv1-'' @ zeros, bj_parent_snapshot_fingerprint_sha256 = ones,
     bj_final_accounts_fingerprint_sha256 = zeros, bj_ordered_transaction_hashes = [''0x'' @ replicate 64 CHR ''a''],
     bj_transaction_plan_bindings_sha256 = [zeros], bj_aggregate_account_changes = nx_changes,
     bj_total_fee_burned_wei = ''50000'', bj_block_binding_sha256 = zeros, bj_snapshot_fingerprint_sha256 = zeros \<rparr>"

definition sx_block_commit :: commit_plan where
  "sx_block_commit = \<lparr> cp_pre = sx_genesis, cp_post = sx_block_post, cp_entry = BlockEntry sx_block_entry \<rparr>"

lemma sx_block_committed: "block_commit_of sx_digest sx_genesis (block_request_of sx_block) = sx_block_commit"
proof -
  let ?q = "block_request_of sx_block"
  have "int_str 9 = ''9''" "int_str 50000 = ''50000''" by code_simp+
  then have q: "bq_block_idempotency_key_sha256 ?q = zeros" "bq_block_hash ?q = nb_hash" "bq_block_number ?q = ''9''"
      "bq_transaction_count ?q = 1" "bq_parent_snapshot_fingerprint_sha256 ?q = ones" "bq_final_state_version ?q = ''bsv1-'' @ zeros"
      "bq_final_accounts_fingerprint_sha256 ?q = zeros" "bq_ordered_transaction_hashes ?q = [''0x'' @ replicate 64 CHR ''a'']"
      "bq_transaction_plan_bindings_sha256 ?q = [zeros]" "bq_aggregate_account_changes ?q = nx_changes"
      "int_str (bq_total_fee_burned_wei ?q) = ''50000''" "bq_block_binding_sha256 ?q = zeros"
    by (simp_all add: block_request_of_def sx_block_fields sx_plan_fields nx_transfer_def)
  have g: "sn_state_version sx_genesis = sx_version" "sn_accounts sx_genesis = nb_rows" "sn_applied_transactions sx_genesis = []"
    by (simp_all add: sx_genesis_def)
  have id: "blockCommitIdOf sx_digest sx_genesis ?q = ''bc1-'' @ zeros"
    by (simp add: blockCommitIdOf_def sx_zero list_all_iff)
  have rows: "postAccountsOf sx_genesis ?q = sx_rows" unfolding postAccountsOf_def g q by (rule sx_rows_changed)
  have sorted: "sort_key r_address sx_rows = sx_rows" by code_simp
  have mat: "snapshotFingerprintMaterial (sx_block_post \<lparr> sn_fingerprint_sha256 := x \<rparr>) = snapshotFingerprintMaterial sx_block_post" for x
    by (simp add: snapshotFingerprintMaterial_def)
  have "sha256 sx_digest (snapshotFingerprintMaterial sx_block_post) = zeros"
    by (intro sx_other [where k = "''last_commit_id''"])
      (simp_all add: snapshotFingerprintMaterial_def sx_block_post_def sx_rows_def row_json_def sx_genesis_def)
  then have "withFingerprint sx_digest (sx_block_post \<lparr> sn_fingerprint_sha256 := '''' \<rparr>) = sx_block_post"
    by (simp add: withFingerprint_def mat) (simp add: sx_block_post_def)
  then have post: "blockPostSnapshotOf sx_digest sx_genesis ?q = sx_block_post"
    unfolding blockPostSnapshotOf_def id rows g q createSnapshot_def sorted by (simp add: sx_block_post_def)
  have "blockEntryOf sx_digest sx_genesis ?q = sx_block_entry"
    unfolding blockEntryOf_def post id g q by (simp add: sx_block_entry_def sx_block_post_def)
  then show ?thesis by (simp add: block_commit_of_def post sx_block_commit_def)
qed

lemma sx_block_fits:
  assumes "100000 \<le> limit"
  shows "commit_fits (sx_policy limit) 5000 sx_store sx_block_commit"
proof -
  have "2 * jsize 0 (intent_json (intentOf 5000 sx_block_commit)) + 2 \<le> 1000000" "2 * jsize 0 (snapshot_json sx_block_post) + 2 \<le> 1000000"
      "2 * jsize 0 (entry_json (BlockEntry sx_block_entry)) + 2 \<le> 90000"
    by code_simp+
  with json_bytes_bound [of "intent_json (intentOf 5000 sx_block_commit)"] json_bytes_bound [of "snapshot_json sx_block_post"]
    line_bytes_bound [of "BlockEntry sx_block_entry"] sx_sizes assms
  show ?thesis
    by (simp add: commit_fits_def sx_policy_def journal_bytes_def entries_of_def sx_store_def empty_store_def)
      (simp add: sx_block_commit_def)
qed

lemma sx_block_fresh: "fresh_commit sx_store sx_block_commit"
  by (simp add: fresh_commit_def sx_block_commit_def sx_genesis_def sx_block_post_def journalHasCommit_def entries_of_def sx_store_def
      sx_entry0_def sx_block_entry_def)

text \<open>A journal line is longer than its first field.\<close>

lemma slen_first_field: "slen (json_quote k @ CHR '':'' # json_quote v) \<le> slen (stringify (JObj ((k, JStr v) # kvs)))"
proof -
  have "slen x \<le> slen (join_with c (x # xs))" for c x xs by (cases xs) simp_all
  from this [of "json_quote k @ CHR '':'' # json_quote v" "CHR '',''" "map (\<lambda>(k, u, s). json_quote k @ CHR '':'' # s)
      (filter (\<lambda>(k, u, s). \<not> u) (map (\<lambda>(k, v). (k, v = JUndef, stringify v)) kvs))"]
  show ?thesis by (simp del: join_with.simps)
qed

lemma line_bytes_min: "51 < line_bytes (TransactionEntry e)"
proof -
  let ?f = "json_quote ''schema'' @ CHR '':'' # json_quote ''void_native_account_state_store_journal_entry_v1''"
  let ?s = "stringify (entry_json (TransactionEntry e))"
  have "slen ?f \<le> slen ?s" unfolding entry_json.simps by (rule slen_first_field)
  moreover have "slen ?f = 59" by code_simp
  moreover have "slen ?s < line_bytes (TransactionEntry e)"
    using length_utf8_bytes [of "?s @ [CHR 0x0A]"] unfolding line_bytes_def by (simp del: stringify.simps entry_json.simps)
  ultimately show ?thesis by linarith
qed

section \<open>The store in use\<close>

lemma sx_live:
  assumes "1024 \<le> limit" "limit \<le> 4294967296"
  shows "live_store sx_digest nx_ethers (sx_policy limit) sx_store sx_store"
  unfolding live_store_def using sx_initialized [OF assms] sx_policy_normal [OF assms] by blast

lemma sx_store_sel:
  "sf_snapshot sx_store = Some sx_genesis" "sf_intent sx_store = None" "sf_lock sx_store = None" "sf_torn sx_store = 0"
  "entries_of sx_store = [TransactionEntry sx_entry0]" "sf_journal sx_store = Some [TransactionEntry sx_entry0]"
  "sf_snapshot_next sx_store = None"
  by (simp_all add: sx_store_def empty_store_def entries_of_def)

lemma sx_store_line: "\<not> sf_unterminated sx_store"
  by (simp add: sx_store_def empty_store_def)

lemma sx_capacity:
  "p_idempotency_key_sha256 sx_plan \<notin> ar_idempotency_key_sha256 ` set (sn_applied_transactions sx_genesis)"
  "int (length (sn_applied_transactions sx_genesis)) < ns_max_applied_transactions (sx_policy limit)"
  by (simp_all add: sx_genesis_def sx_policy_def)

lemma sx_decided:
  assumes "1024 \<le> limit" "limit \<le> 4294967296"
  shows "decideApply sx_digest nx_ethers (sx_policy limit) (storeRequest sx_plan) sx_store =
    Inr (Inr (sx_commit, Applied (''c1-'' @ zeros) (''sv1-'' @ zeros) (''0x'' @ replicate 64 CHR ''a'')))"
proof -
  have ready: "files_ready sx_digest nx_ethers (sx_policy limit) sx_store"
    by (rule live_ready(2) [OF sx.hex_digest_axioms sx_live [OF assms]])
  have hash: "p_transaction_hash sx_plan = ''0x'' @ replicate 64 CHR ''a''" by (simp add: sx_plan_fields nx_transfer_def)
  from prepared_transfer_decided [OF sx.hex_digest_axioms nx_ethers_law ready sx_store_sel(1) sx_taken sx_prepared sx_capacity]
  show ?thesis by (simp only: sx_committed sx_ids hash)
qed

lemma sx_block_decided:
  assumes "1024 \<le> limit" "limit \<le> 4294967296"
  shows "\<exists>r. decideBlockApply sx_digest nx_ethers (sx_policy limit) (blockRequest sx_block) sx_store = Inr (Inr (sx_block_commit, r))"
proof -
  have ready: "files_ready sx_digest nx_ethers (sx_policy limit) sx_store"
    by (rule live_ready(2) [OF sx.hex_digest_axioms sx_live [OF assms]])
  have "sf_journal sx_store \<noteq> None" "journal_bytes sx_store \<le> ns_max_journal_bytes (sx_policy limit)"
    using sx_sizes assms by (simp_all add: sx_store_sel journal_bytes_def sx_policy_def)
  moreover have "\<forall>e \<in> set (entries_of sx_store). b_block_idempotency_key_sha256 sx_block \<notin> set (entry_block e)"
    by (simp add: sx_store_sel)
  ultimately show ?thesis
    using prepared_block_decided [OF sx.hex_digest_axioms nx_ethers_law ready sx_store_sel(1,4) _ _ sx_block_prepared]
    unfolding sx_block_committed by blast
qed

text \<open>The store after the process died between replacing the snapshot and writing the journal.\<close>

definition sx_crash :: "nat \<Rightarrow> io_event" where
  "sx_crash n = (if n = 4 then IoCrash else IoOk)"

definition sx_crashed :: store_files where
  "sx_crashed = sx_store \<lparr> sf_snapshot := Some sx_post, sf_intent := Some (intentOf 5000 sx_commit),
     sf_lock := Some \<lparr> lk_pid = 77, lk_created_at_ms = 5000 \<rparr> \<rparr>"

lemma sx_crash_run:
  assumes "100000 \<le> limit" "limit \<le> 4294967296"
  shows "applyOnce sx_digest nx_ethers (sx_policy limit) sx_crash 77 5000 (storeRequest sx_plan) sx_store = (sx_crashed, None)"
proof -
  have dec: "decideApply sx_digest nx_ethers (sx_policy limit) (storeRequest sx_plan) (locked 77 5000 sx_store) =
      Inr (Inr (sx_commit, Applied (''c1-'' @ zeros) (''sv1-'' @ zeros) (''0x'' @ replicate 64 CHR ''a'')))"
    unfolding locked_def transfer_commit.decide_lock using assms by (intro sx_decided) simp_all
  have ops: "run_ops (sx_policy limit) sx_crash (Suc 0) (commitOps 5000 sx_commit) (locked 77 5000 sx_store) = (RunCrashed, 4, sx_crashed)"
    using sx_fits [OF assms(1)]
    by (simp add: commitOps_def sx_crash_def commit_fits_def not_less locked_def)
      (simp add: sx_crashed_def sx_commit_def sx_store_def empty_store_def)
  have io: "sx_crash 0 = IoOk" by (simp add: sx_crash_def)
  show ?thesis
    unfolding applyOnce_def applyProtocol_locked [where io = sx_crash, OF sx_store_sel(2,3) io] dec sum.case prod.case ops run_end.case
    by (rule refl)
qed

lemma sx_crashed_live:
  assumes "100000 \<le> limit" "limit \<le> 4294967296"
  shows "live_store sx_digest nx_ethers (sx_policy limit) sx_store sx_crashed"
proof -
  have l: "1024 \<le> limit" using assms by simp
  have "store_step sx_digest nx_ethers (sx_policy limit) sx_store sx_crashed"
    by (rule store_step.transfer [OF _ _ _ sx_crash_run [OF assms]])
      (use sx_decided [OF l assms(2)] sx_fresh sx_store_line in \<open>auto simp: MAX_SAFE_INTEGER_def commit_safe_def\<close>)
  with sx_live [OF l assms(2)] show ?thesis unfolding live_store_def by blast
qed

lemma sx_crashed_view: "store_view_of sx_crashed = (Some sx_post, [TransactionEntry sx_entry0, TransactionEntry sx_entry1])"
  by (simp add: view_defs sx_crashed_def sx_store_sel journalHasCommit_def)
    (simp add: intentOf_def sx_commit_def sx_post_def sx_entry0_def sx_entry1_def)

end
