(* ===== verification/Native_Store_Newline.thy ===== *)
theory Native_Store_Newline
  imports Native_Store_Example
begin

text \<open>
  The example store after a commit whose journal line lost its newline: the process died when all of
  the line but its last byte was written, and recovery accepted the line. A second transfer is
  decided on it.
\<close>

section \<open>The store without a newline\<close>

definition sx_lose :: "nat \<Rightarrow> io_event" where
  "sx_lose n = (if n = 4 then IoDiesTearing (nat (line_bytes (TransactionEntry sx_entry1) - 2)) else IoOk)"

definition sx_lost :: store_files where
  "sx_lost = sx_store \<lparr> sf_snapshot := Some sx_post, sf_intent := Some (intentOf 5000 sx_commit),
     sf_journal := Some [TransactionEntry sx_entry0, TransactionEntry sx_entry1], sf_unterminated := True,
     sf_lock := Some \<lparr> lk_pid = 77, lk_created_at_ms = 5000 \<rparr> \<rparr>"

definition sx_open :: store_files where
  "sx_open = sx_lost \<lparr> sf_intent := None, sf_lock := None \<rparr>"

lemma sx_lost_tear:
  assumes "sf_torn f = 0" "\<not> sf_unterminated f"
  shows "tear_fs (nat (line_bytes e - 2)) (AppendEntry e) f = f \<lparr> sf_journal := Some (entries_of f @ [e]), sf_unterminated := True \<rparr>"
  using line_bytes_gt [of e] by (subst append_simps(2) [OF assms]) simp

lemma sx_lose_run:
  "applyOnce sx_digest nx_ethers (sx_policy 100000) sx_lose 77 5000 (storeRequest sx_plan) sx_store = (sx_lost, None)"
proof -
  have dec: "decideApply sx_digest nx_ethers (sx_policy 100000) (storeRequest sx_plan) (locked 77 5000 sx_store) =
      Inr (Inr (sx_commit, Applied (''c1-'' @ zeros) (''sv1-'' @ zeros) (''0x'' @ replicate 64 CHR ''a'')))"
    unfolding locked_def transfer_commit.decide_lock by (intro sx_decided) simp_all
  let ?g = "(locked 77 5000 sx_store) \<lparr> sf_intent := Some (intentOf 5000 sx_commit), sf_snapshot := Some sx_post \<rparr>"
  have e: "cp_entry sx_commit = TransactionEntry sx_entry1" "cp_post sx_commit = sx_post" by (simp_all add: sx_commit_def)
  have fits: "commit_fits (sx_policy 100000) 5000 sx_store sx_commit" by (rule sx_fits) simp
  have "run_ops (sx_policy 100000) sx_lose (Suc 0) (commitOps 5000 sx_commit) (locked 77 5000 sx_store) =
      run_ops (sx_policy 100000) sx_lose 4 [AppendEntry (TransactionEntry sx_entry1), DropIntent] ?g"
    using fits
    by (simp del: refused.simps(9) exec_fs.simps(9) tear_fs.simps
        add: commitOps_def sx_lose_def commit_fits_def not_less e locked_def sx_store_def empty_store_def)
  also have "\<dots> = (RunCrashed, 4, tear_fs (nat (line_bytes (TransactionEntry sx_entry1) - 2)) (AppendEntry (TransactionEntry sx_entry1)) ?g)"
    using fits by (simp del: tear_fs.simps add: sx_lose_def commit_fits_def not_less e locked_def journal_bytes_def entries_of_def)
  also have "\<dots> = (RunCrashed, 4, sx_lost)"
    by (subst sx_lost_tear) (simp_all add: locked_def sx_store_line sx_store_sel sx_lost_def entries_of_def)
  finally have ops: "run_ops (sx_policy 100000) sx_lose (Suc 0) (commitOps 5000 sx_commit) (locked 77 5000 sx_store) = (RunCrashed, 4, sx_lost)" .
  have io: "sx_lose 0 = IoOk" by (simp add: sx_lose_def)
  show ?thesis
    unfolding applyOnce_def applyProtocol_locked [where io = sx_lose, OF sx_store_sel(2,3) io] dec sum.case prod.case ops run_end.case
    by (rule refl)
qed

lemma sx_lost_live: "live_store sx_digest nx_ethers (sx_policy 100000) sx_store sx_lost"
proof -
  have dec: "decideApply sx_digest nx_ethers (sx_policy 100000) (storeRequest sx_plan) sx_store =
      Inr (Inr (sx_commit, Applied (''c1-'' @ zeros) (''sv1-'' @ zeros) (''0x'' @ replicate 64 CHR ''a'')))"
    by (rule sx_decided) simp_all
  have "store_step sx_digest nx_ethers (sx_policy 100000) sx_store sx_lost"
    by (rule store_step.transfer [OF _ _ _ sx_lose_run])
      (use dec sx_fresh sx_store_line in \<open>auto simp: MAX_SAFE_INTEGER_def commit_safe_def\<close>)
  moreover have "live_store sx_digest nx_ethers (sx_policy 100000) sx_store sx_store" by (rule sx_live) simp_all
  ultimately show ?thesis unfolding live_store_def by blast
qed

text \<open>Recovery takes the line for what it is, an entry, and reports success.\<close>

lemma sx_lost_sel:
  "sf_snapshot sx_lost = Some sx_post" "sf_intent sx_lost = Some (intentOf 5000 sx_commit)" "sf_torn sx_lost = 0"
  "sf_snapshot_next sx_lost = None" "sf_journal sx_lost = Some [TransactionEntry sx_entry0, TransactionEntry sx_entry1]"
  "entries_of sx_lost = [TransactionEntry sx_entry0, TransactionEntry sx_entry1]" "sf_unterminated sx_lost"
  "sf_lock sx_lost = Some \<lparr> lk_pid = 77, lk_created_at_ms = 5000 \<rparr>"
  by (simp_all add: sx_lost_def sx_store_sel entries_of_def)

lemma sx_lost_bytes: "journal_bytes sx_lost \<le> 100000"
proof -
  have "commit_fits (sx_policy 100000) 5000 sx_store sx_commit" by (rule sx_fits) simp
  then show ?thesis
    by (simp add: commit_fits_def journal_bytes_def sx_lost_sel sx_store_sel sx_store_line sx_policy_def)
      (simp add: sx_commit_def)
qed

lemma sx_lost_recovered:
  "recoverVoidNativeAccountStateStoreV1 sx_digest nx_ethers (\<lambda>_. IoOk) (\<lambda>_. KillError ''ESRCH'') 78 6000 (sx_policy0 100000)
     RECOVER_CONFIRMATION 6000 sx_lost = (sx_open, Some (RecoveryOk Completed True True False True))"
proof -
  let ?p = "sx_policy 100000" let ?l = "\<lparr> lk_pid = 78, lk_created_at_ms = 6000 \<rparr>"
  let ?g = "sx_lost \<lparr> sf_lock := Some ?l \<rparr>"
  let ?i = "intentOf 5000 sx_commit"
  note ready = live_ready [OF sx.hex_digest_axioms sx_lost_live]
  have i: "intent_ready sx_digest nx_ethers ?p ?i" using ready(2) by (simp add: files_ready_def sx_lost_sel)
  have size: "\<not> json_bytes (intent_json ?i) > ns_max_snapshot_bytes ?p" using i by (simp add: intent_ready_def)
  have snap: "readSnapshot sx_digest nx_ethers ?p ?g = Inr sx_post"
    using snapshot_readable [OF sx.hex_digest_axioms nx_ethers_law ready(2) sx_lost_sel(1)] by simp
  have "readJournal ?p sx_lost = Inr (entries_of sx_lost)"
    by (rule journal_readable [OF ready(2)]) (use sx_lost_bytes in \<open>simp_all add: sx_lost_sel sx_policy_def\<close>)
  then have journal: "readJournal ?p ?g = Inr [TransactionEntry sx_entry0, TransactionEntry sx_entry1]" by (simp add: sx_lost_sel)
  have fps: "it_pre_snapshot_fingerprint_sha256 ?i = ones" "it_post_snapshot_fingerprint_sha256 ?i = zeros"
      "it_journal_entry ?i = TransactionEntry sx_entry1" "sn_fingerprint_sha256 sx_post = zeros" "ones \<noteq> zeros"
    by (simp_all add: intentOf_def sx_commit_def sx_genesis_def sx_post_def)
  have has: "journalHasCommit [TransactionEntry sx_entry0, TransactionEntry sx_entry1] (entry_commit_id (TransactionEntry sx_entry1))"
    by (simp add: journalHasCommit_def)
  have dec: "decideRecovery sx_digest nx_ethers ?p True ?g = Inr ([DropIntent], RecoveryOk Completed True True False True)"
    using intent_readable [OF sx.hex_digest_axioms nx_ethers_law i] size snap journal has fps
    by (simp add: decideRecovery_def sx_lost_sel del: entry_commit_id.simps)
  have pol: "normalizeStorePolicy (sx_policy0 100000) = Inr ?p" by (rule sx_policy_normal) simp_all
  have drop: "run_ops ?p (\<lambda>_. IoOk) 0 [DropLock] sx_lost = (RunDone, 1, sx_lost \<lparr> sf_lock := None \<rparr>)" by (simp add: sx_lost_sel)
  have "recoverLocked sx_digest nx_ethers ?p (\<lambda>_. IoOk) 1 ?l True (sx_lost \<lparr> sf_lock := None \<rparr>) =
      (sx_open, Some (RecoveryOk Completed True True False True))"
    unfolding recoverLocked_def by (simp add: dec sx_lost_sel release_def sx_open_def)
  then show ?thesis
    unfolding recoverVoidNativeAccountStateStoreV1_def Let_def pol drop
    by (simp add: sx_lost_sel MAX_SAFE_INTEGER_def readLock_def isProcessAlive_def sx_policy_def drop [unfolded sx_policy_def])
qed

lemma sx_open_live: "live_store sx_digest nx_ethers (sx_policy 100000) sx_store sx_open"
  using sx_lost_live store_step.recovery [OF sx_lost_recovered] unfolding live_store_def
  by (blast intro: rtranclp.rtrancl_into_rtrancl)

section \<open>A second transfer\<close>

definition sx_change2 :: account_change where
  "sx_change2 = \<lparr> ac_address = nx_address CHR ''4'', ac_balance_before_wei = ''77'', ac_balance_after_wei = ''70'',
     ac_nonce_before = ''1'', ac_nonce_after = ''2'' \<rparr>"

definition sx_request2 :: store_request where
  "sx_request2 = \<lparr> sr_confirmation = ''applyNativeValueTransferStateTransitionV1'', sr_idempotency_key_sha256 = ones,
     sr_transaction_hash = ''0x'' @ ones, sr_state_version = ''sv1-'' @ zeros, sr_prestate_fingerprint_sha256 = zeros,
     sr_poststate_fingerprint_sha256 = zeros, sr_plan_binding_sha256 = ones, sr_account_changes = [sx_change2],
     sr_fee_burned_wei = ''7'' \<rparr>"

definition sx_applied2 :: apply_request where
  "sx_applied2 = \<lparr> aq_idempotency_key_sha256 = ones, aq_transaction_hash = ''0x'' @ ones, aq_state_version = ''sv1-'' @ zeros,
     aq_prestate_fingerprint_sha256 = zeros, aq_poststate_fingerprint_sha256 = zeros, aq_plan_binding_sha256 = ones,
     aq_account_changes = [sx_change2], aq_fee_burned_wei = 7 \<rparr>"

definition sx_post2 :: account_snapshot where
  "sx_post2 = sx_post \<lparr> sn_accounts := take 3 sx_rows @ [\<lparr> r_address = nx_address CHR ''4'', r_balance_wei = ''70'', r_nonce = ''2'' \<rparr>],
     sn_applied_transactions := sn_applied_transactions sx_post @ [\<lparr> ar_idempotency_key_sha256 = ones,
       ar_transaction_hash = ''0x'' @ ones, ar_commit_id = ''c1-'' @ zeros, ar_state_version = ''sv1-'' @ zeros \<rparr>] \<rparr>"

definition sx_entry2 :: transaction_journal_entry where
  "sx_entry2 = \<lparr> tj_commit_id = ''c1-'' @ zeros, tj_idempotency_key_sha256 = ones,
     tj_transaction_hash = ''0x'' @ ones, tj_prior_state_version = ''sv1-'' @ zeros,
     tj_state_version = ''sv1-'' @ zeros, tj_prestate_fingerprint_sha256 = zeros, tj_poststate_fingerprint_sha256 = zeros,
     tj_plan_binding_sha256 = ones, tj_fee_burned_wei = ''7'', tj_account_changes = [sx_change2],
     tj_snapshot_fingerprint_sha256 = zeros \<rparr>"

definition sx_commit2 :: commit_plan where
  "sx_commit2 = \<lparr> cp_pre = sx_post, cp_post = sx_post2, cp_entry = TransactionEntry sx_entry2 \<rparr>"

lemma sx_side2: "prestateFingerprint sx_digest nx_ethers v [sx_change2] b = Inr zeros"
proof -
  obtain row where "mapM (\<lambda>item.
       bnd (normalizeAddress nx_ethers (ac_address item) ''change_address'') (\<lambda>address.
       bnd (if b then uintText (ac_balance_before_wei item) ''change_balance_before_wei''
            else uintText (ac_balance_after_wei item) ''change_balance_after_wei'') (\<lambda>balance.
       bnd (if b then uintText (ac_nonce_before item) ''change_nonce_before''
            else uintText (ac_nonce_after item) ''change_nonce_after'') (\<lambda>nonce.
       Inr \<lparr> r_address = address, r_balance_wei = balance, r_nonce = nonce \<rparr>)))) [sx_change2] = Inr [row]"
  proof -
    have "normalizeAddress nx_ethers (ac_address sx_change2) ''change_address'' = Inr (nx_address CHR ''4'')"
        "uintText (ac_balance_before_wei sx_change2) ''change_balance_before_wei'' = Inr ''77''"
        "uintText (ac_balance_after_wei sx_change2) ''change_balance_after_wei'' = Inr ''70''"
        "uintText (ac_nonce_before sx_change2) ''change_nonce_before'' = Inr ''1''"
        "uintText (ac_nonce_after sx_change2) ''change_nonce_after'' = Inr ''2''"
      by code_simp+
    then show thesis by (cases b) (simp_all add: that)
  qed
  then show ?thesis unfolding prestateFingerprint_def by (simp add: sx_zero row_json_def)
qed

lemma sx_request2_valid: "validateApplyRequest sx_digest nx_ethers sx_request2 = Inr sx_applied2"
proof -
  let ?s0 = "\<lparr> cs_changes = [], cs_nonceIncrementCount = 0, cs_beforeTotal = 0, cs_afterTotal = 0 \<rparr>"
  have "foldM (applyRequestStep nx_ethers) ?s0 [sx_change2] =
      Inr \<lparr> cs_changes = [sx_change2], cs_nonceIncrementCount = 1, cs_beforeTotal = 77, cs_afterTotal = 70 \<rparr>"
    by code_simp
  moreover have "SHA256 ones" "SHA256 zeros" "TRANSACTION_HASH (''0x'' @ ones)" "SAFE_ID (''sv1-'' @ zeros)" "js_lower ones = ones"
      "js_lower zeros = zeros" "js_lower (''0x'' @ ones) = ''0x'' @ ones" "parseUint (UStr ''7'') ''fee_burned_wei'' = Inr 7"
    by code_simp+
  ultimately show ?thesis
    unfolding validateApplyRequest_def sx_request2_def by (simp add: Let_def sx_side2 sx_applied2_def)
qed

lemma sx_commit2_of: "transfer_commit_of sx_digest sx_post sx_applied2 = sx_commit2"
proof -
  have ids: "commitIdOf sx_digest v sx_applied2 = ''c1-'' @ zeros" "nextVersionOf sx_digest v i sx_applied2 = ''sv1-'' @ zeros" for v i
    by (simp_all add: commitIdOf_def nextVersionOf_def sx_zero)
  have g: "sn_state_version sx_post = ''sv1-'' @ zeros" "sn_accounts sx_post = sx_rows" by (simp_all add: sx_post_def)
  have rows: "sort_key r_address (map snd (applyChanges (account_map sx_rows) [sx_change2])) = sn_accounts sx_post2" by code_simp
  have mat: "snapshotFingerprintMaterial (sx_post2 \<lparr> sn_fingerprint_sha256 := x \<rparr>) = snapshotFingerprintMaterial sx_post2" for x
    by (simp add: snapshotFingerprintMaterial_def)
  have "sha256 sx_digest (snapshotFingerprintMaterial sx_post2) = zeros"
    by (intro sx_zero) (simp_all add: snapshotFingerprintMaterial_def sx_post2_def sx_post_def sx_rows_def row_json_def applied_json_def)
  then have fp: "withFingerprint sx_digest (sx_post2 \<lparr> sn_fingerprint_sha256 := '''' \<rparr>) = sx_post2"
    by (simp add: withFingerprint_def mat) (simp add: sx_post2_def sx_post_def)
  have ch: "aq_account_changes sx_applied2 = [sx_change2]" by (simp add: sx_applied2_def)
  have "postSnapshotOf sx_digest sx_post sx_applied2 = withFingerprint sx_digest (sx_post2 \<lparr> sn_fingerprint_sha256 := '''' \<rparr>)"
    unfolding postSnapshotOf_def Let_def ids g createSnapshot_def ch rows by (simp add: sx_post2_def sx_post_def sx_applied2_def)
  with fp have post: "postSnapshotOf sx_digest sx_post sx_applied2 = sx_post2" by simp
  have "int_str 7 = ''7''" by code_simp
  then have "transactionEntryOf sx_digest sx_post sx_applied2 = sx_entry2"
    unfolding transactionEntryOf_def Let_def post ids g by (simp add: sx_entry2_def sx_applied2_def sx_post2_def sx_post_def)
  then show ?thesis by (simp add: transfer_commit_of_def post sx_commit2_def)
qed

lemma sx_decided2:
  "decideApply sx_digest nx_ethers (sx_policy 100000) sx_request2 sx_open =
     Inr (Inr (sx_commit2, Applied (''c1-'' @ zeros) (''sv1-'' @ zeros) (''0x'' @ ones)))"
proof -
  have snap: "readSnapshot sx_digest nx_ethers (sx_policy 100000) sx_open = Inr sx_post"
    by (rule snapshot_readable [OF sx.hex_digest_axioms nx_ethers_law live_ready(2) [OF sx.hex_digest_axioms sx_open_live]])
      (simp add: sx_open_def sx_lost_sel)
  have rows: "changeMismatch (account_map (sn_accounts sx_post)) a b (aq_account_changes sx_applied2) = None" for a b
  proof -
    have "map_of (account_map (sn_accounts sx_post)) (ac_address sx_change2) =
        Some \<lparr> r_address = nx_address CHR ''4'', r_balance_wei = ''77'', r_nonce = ''1'' \<rparr>" by code_simp
    then show ?thesis by (simp add: sx_applied2_def) (simp add: sx_change2_def)
  qed
  have free: "find (\<lambda>item. ar_idempotency_key_sha256 item = aq_idempotency_key_sha256 sx_applied2) (sn_applied_transactions sx_post) = None"
      "sn_state_version sx_post = aq_state_version sx_applied2" "length (sn_applied_transactions sx_post) = 1"
      "aq_account_changes sx_applied2 = [sx_change2]" "aq_prestate_fingerprint_sha256 sx_applied2 = zeros"
      "aq_transaction_hash sx_applied2 = ''0x'' @ ones"
    by (simp_all add: sx_applied2_def sx_post_def)
  have e: "TransactionEntry (transactionEntryOf sx_digest sx_post sx_applied2) = TransactionEntry sx_entry2"
    using sx_commit2_of by (simp add: transfer_commit_of_def sx_commit2_def)
  show ?thesis
    unfolding decideApply_def sx_request2_valid snap bnd_simps free(1) option.case
    using sx_commit2_of [unfolded transfer_commit_of_def] e free(2,3) rows
    by (simp add: free(4-6) sx_side2 sx_policy_def Let_def rows [unfolded free(4)]) (simp add: sx_entry2_def)
qed

lemma sx_fits2: "commit_fits (sx_policy 100000) 7000 sx_open sx_commit2"
proof -
  have "2 * jsize 0 (intent_json (intentOf 7000 sx_commit2)) + 2 \<le> 1000000" "2 * jsize 0 (snapshot_json sx_post2) + 2 \<le> 1000000"
      "2 * jsize 0 (entry_json (TransactionEntry sx_entry1)) + 2 \<le> 40000" "2 * jsize 0 (entry_json (TransactionEntry sx_entry2)) + 2 \<le> 40000"
    by code_simp+
  with json_bytes_bound [of "intent_json (intentOf 7000 sx_commit2)"] json_bytes_bound [of "snapshot_json sx_post2"]
    line_bytes_bound [of "TransactionEntry sx_entry1"] line_bytes_bound [of "TransactionEntry sx_entry2"] sx_sizes
  show ?thesis
    by (simp add: commit_fits_def sx_policy_def journal_bytes_def sx_open_def sx_lost_sel entries_of_def)
      (simp add: sx_commit2_def)
qed

end
