(* ===== verification/Native_Store_Properties.thy ===== *)
theory Native_Store_Properties
  imports Native_Store_Newline
begin

text \<open>
  The properties of the account store: its runs are runs of a store that commits in one step, the
  value in it is conserved, its results are honest, its files can be read back, recovery completes,
  and what \<^verbatim>\<open>prepare\<close> plans is what ends up on disk.
\<close>

section \<open>Runs\<close>





section \<open>Results\<close>










section \<open>Reading back and recovery\<close>






text \<open>No recovery with the policy \<open>policy0\<close> succeeds, and no transfer and no block is accepted.\<close>

definition stuck :: "(string \<Rightarrow> string) \<Rightarrow> ethers \<Rightarrow> store_policy \<Rightarrow> store_files \<Rightarrow> bool" where
  "stuck H E policy0 g \<longleftrightarrow>
     (\<forall>io kill pid clock confirmation now g' result.
        recoverVoidNativeAccountStateStoreV1 H E io kill pid clock policy0 confirmation now g = (g', Some result) \<longrightarrow> \<not> is_ok result) \<and>
     (\<forall>p io pid now request block.
        applyOnce H E p io pid now request g =
          (g, Some (NotApplied (Some ''native_account_store_recovery_required'') None (Some True))) \<and>
        applyBlockOnce H E p io pid now block g =
          (g, Some (BlockNotApplied (Some ''native_account_store_recovery_required'') None (Some True))))"

lemma wedged_stuck:
  assumes "wedged policy g" "normalizeStorePolicy policy0 = Inr policy"
  shows "stuck H E policy0 g"
  unfolding stuck_def using wedged_recovery [OF assms] wedged_apply [OF assms(1)]
  by (simp add: notApplied_def blockNotApplied_def)

text \<open>
  C30. A journal that is full wedges the store. If a decided transfer fits the snapshot limit but not
  the journal limit, \<^verbatim>\<open>applyOnce\<close> fails after it replaced the snapshot, because the size of the journal
  is looked at only then. The balances on disk are those after the transfer and the journal does not
  have it; from then on, however often recovery is run with the store's policy and whatever faults it
  meets, it never succeeds, and every further transfer and block is held with \<^verbatim>\<open>recovery_required\<close>.
\<close>

theorem full_journal_wedges_store:
  assumes "live_store H E policy f0 f" "normalizeStorePolicy policy0 = Inr policy" "sf_intent f = None" "sf_lock f = None"
    and "decideApply H E policy input f = Inr (Inr (c, r))" "fresh_commit f c"
    and "json_bytes (intent_json (intentOf now c)) \<le> ns_max_snapshot_bytes policy"
    and "json_bytes (snapshot_json (cp_post c)) \<le> ns_max_snapshot_bytes policy"
    and "ns_max_journal_bytes policy < journal_bytes f + line_bytes (cp_entry c)"
  shows "\<exists>f'. applyOnce H E policy (\<lambda>_. IoOk) pid now input f =
      (f', Some (NotApplied (Some ''native_account_store_apply_failed'') None (Some True))) \<and>
    sf_snapshot f' = Some (cp_post c) \<and> entries_of f' = entries_of f \<and>
    (\<forall>g. (recovers H E policy0)\<^sup>*\<^sup>* f' g \<longrightarrow> stuck H E policy0 g)"
proof -
  have ok: "store_ok f" using assms(1) by (rule live_view)
  from full_journal_wedges [where io = "\<lambda>_. IoOk", OF ok assms(3-9) refl, of pid] obtain f' where
    f': "applyOnce H E policy (\<lambda>_. IoOk) pid now input f = (f', Some (notApplied ''native_account_store_apply_failed'' True))"
      "wedged policy f'" "sf_snapshot f' = Some (cp_post c)" "entries_of f' = entries_of f" by blast
  moreover have "stuck H E policy0 g" if "(recovers H E policy0)\<^sup>*\<^sup>* f' g" for g
    by (rule wedged_stuck [OF wedged_recovers [OF that f'(2) assms(2)] assms(2)])
  ultimately show ?thesis by (intro exI [of _ f']) (simp add: notApplied_def)
qed

theorem full_journal_wedges_store_witness:
  "\<exists>f'. applyOnce sx_digest nx_ethers (sx_policy 1024) (\<lambda>_. IoOk) 77 5000 (storeRequest sx_plan) sx_store =
      (f', Some (NotApplied (Some ''native_account_store_apply_failed'') None (Some True))) \<and>
    sf_snapshot f' = Some sx_post \<and> entries_of f' = [TransactionEntry sx_entry0] \<and> stuck sx_digest nx_ethers (sx_policy0 1024) f'"
proof -
  let ?p = "sx_policy 1024"
  have live: "live_store sx_digest nx_ethers ?p sx_store sx_store" by (rule sx_live) simp_all
  have policy: "normalizeStorePolicy (sx_policy0 1024) = Inr ?p" by (rule sx_policy_normal) simp_all
  have dec: "decideApply sx_digest nx_ethers ?p (storeRequest sx_plan) sx_store =
      Inr (Inr (sx_commit, Applied (''c1-'' @ zeros) (''sv1-'' @ zeros) (''0x'' @ replicate 64 CHR ''a'')))"
    by (rule sx_decided) simp_all
  have "commit_fits (sx_policy 100000) 5000 sx_store sx_commit" by (rule sx_fits) simp
  then have fits: "json_bytes (intent_json (intentOf 5000 sx_commit)) \<le> ns_max_snapshot_bytes ?p"
      "json_bytes (snapshot_json (cp_post sx_commit)) \<le> ns_max_snapshot_bytes ?p"
    by (simp_all add: commit_fits_def sx_policy_def)
  have "ns_max_journal_bytes ?p < journal_bytes sx_store + line_bytes (cp_entry sx_commit)"
    using line_bytes_min [of sx_entry1] by (simp add: sx_policy_def journal_bytes_def sx_store_sel sx_store_line sx_sizes sx_commit_def)
  from full_journal_wedges_store [OF live policy sx_store_sel(2,3) dec sx_fresh fits this, of 77] obtain f' where
    f': "applyOnce sx_digest nx_ethers ?p (\<lambda>_. IoOk) 77 5000 (storeRequest sx_plan) sx_store =
        (f', Some (NotApplied (Some ''native_account_store_apply_failed'') None (Some True)))"
      "sf_snapshot f' = Some (cp_post sx_commit)" "entries_of f' = entries_of sx_store"
      "stuck sx_digest nx_ethers (sx_policy0 1024) f'" by blast
  have "cp_post sx_commit = sx_post" by (simp add: sx_commit_def)
  with f' show ?thesis by (intro exI [of _ f']) (simp add: sx_store_sel)
qed

section \<open>From a signed transaction to the disk\<close>

lemma after_commit_sel:
  "sf_snapshot (after_commit f c) = Some (cp_post c)" "sf_intent (after_commit f c) = sf_intent f"
  "sf_lock (after_commit f c) = sf_lock f" "entries_of (after_commit f c) = entries_of f @ [cp_entry c]"
  by (simp_all add: after_commit_def entries_of_def)

text \<open>
  C11. A prepared transfer is what ends up on disk. Take a store that came from a genesis, with no
  intent, no lock and a newline at the end of its journal, and a plan that \<^verbatim>\<open>prepare\<close> made from accounts of its snapshot. If the
  transaction was not applied before and the limits have room, \<^verbatim>\<open>apply\<close> with the store's \<^verbatim>\<open>applyOnce\<close>
  passes every check on both sides, makes one request and returns \<^verbatim>\<open>applied\<close> with the commit and
  state version that are on disk; the ledger of the new snapshot is the abstract transition of the
  transfer on the ledger of the old one, and the journal has one entry more.
\<close>

theorem prepared_transfer_is_committed:
  assumes "\<And>x. hex_n 64 (H x)" "address_law E" "live_store H E policy f0 f"
    and "sf_intent f = None" "sf_lock f = None" "\<not> sf_unterminated f" "sf_snapshot f = Some s" "taken_from snap s"
    and "prepareVoidNativeValueTransferStateTransitionV1 H E raw pol snap ctx = Inr p"
    and "p_idempotency_key_sha256 p \<notin> ar_idempotency_key_sha256 ` set (sn_applied_transactions s)"
    and "int (length (sn_applied_transactions s)) < ns_max_applied_transactions policy"
    and "commit_fits policy now f (transfer_commit_of H s (request_of p))"
  shows "\<exists>f' s' e. applyVoidNativeValueTransferStateTransitionV1 H p VOID_NATIVE_VALUE_TRANSFER_CONFIRMATION_V1
        (Some (\<lambda>request. the (snd (applyOnce H E policy (\<lambda>_. IoOk) pid now request f)))) =
      (ApplyReady (p_transaction_hash p) (p_idempotency_key_sha256 p) (entry_commit_id e) (sn_state_version s'), [storeRequest p]) \<and>
    fst (applyOnce H E policy (\<lambda>_. IoOk) pid now (storeRequest p) f) = f' \<and>
    sf_snapshot f' = Some s' \<and> sf_intent f' = None \<and> sf_lock f' = None \<and> entries_of f' = entries_of f @ [e] \<and>
    entry_prior e = sn_state_version s \<and> entry_version e = sn_state_version s' \<and>
    snapshot_ledger s' = plan_transition p (snapshot_ledger s)"
proof -
  have H: "hex_digest H" using assms(1) by unfold_locales
  let ?q = "request_of p" let ?c = "transfer_commit_of H s ?q" let ?v = "sn_state_version s"
  note ready = live_ready [OF H assms(3)]
  have s: "snapshot_ok E policy s" using ready(2) assms(7) by (simp add: files_ready_def snapshot_ready_def)
  have run: "applyOnce H E policy (\<lambda>_. IoOk) pid now (storeRequest p) f =
      (after_commit f ?c, Some (Applied (commitIdOf H ?v ?q) (nextVersionOf H ?v (commitIdOf H ?v ?q) ?q) (p_transaction_hash p)))"
    unfolding applyOnce_def
    by (rule transfer_commit.protocol_undisturbed [OF ready(1) assms(4,5)
          prepared_transfer_decided [OF H assms(2) ready(2) assms(7-11)] assms(12) refl assms(6)])
  note ids = hex_digest.commit_ids_safe(1,2) [OF H, THEN SAFE_ID_trim] hex_digest.commit_ids_safe(1,2) [OF H]
  have "js_lower (p_transaction_hash p) = p_transaction_hash p" by (rule hash_lower [OF prepared_digests(2) [OF H assms(9)]])
  moreover have "validatePlan H p = None" by (rule hex_digest.prepared_valid [OF H assms(9)])
  ultimately have "applyVoidNativeValueTransferStateTransitionV1 H p VOID_NATIVE_VALUE_TRANSFER_CONFIRMATION_V1
        (Some (\<lambda>request. the (snd (applyOnce H E policy (\<lambda>_. IoOk) pid now request f)))) =
      (ApplyReady (p_transaction_hash p) (p_idempotency_key_sha256 p) (entry_commit_id (cp_entry ?c))
        (sn_state_version (cp_post ?c)), [storeRequest p])"
    by (simp add: applyVoidNativeValueTransferStateTransitionV1_def storeOutcome_def run ids transfer_commit_of_def
        transactionEntryOf_def postSnapshotOf_def Let_def)
  moreover have "entry_prior (cp_entry ?c) = ?v" "entry_version (cp_entry ?c) = sn_state_version (cp_post ?c)"
    by (simp_all add: transfer_commit_of_def transactionEntryOf_def postSnapshotOf_def Let_def)
  moreover have "snapshot_ledger (cp_post ?c) = plan_transition p (snapshot_ledger s)"
    using transfer_commit_ledger [OF assms(2) s assms(8,9)] by (simp add: transfer_commit_of_def)
  ultimately show ?thesis
    using assms(4,5) by (intro exI [of _ "after_commit f ?c"] exI [of _ "cp_post ?c"] exI [of _ "cp_entry ?c"])
      (simp add: run after_commit_sel)
qed

theorem prepared_transfer_is_committed_witness:
  "\<exists>s'. sf_snapshot (fst (applyOnce sx_digest nx_ethers (sx_policy 100000) (\<lambda>_. IoOk) 77 5000 (storeRequest sx_plan) sx_store)) = Some s' \<and>
     snapshot_ledger s' = plan_transition sx_plan (snapshot_ledger sx_genesis)"
proof -
  have live: "live_store sx_digest nx_ethers (sx_policy 100000) sx_store sx_store" by (rule sx_live) simp_all
  have "commit_fits (sx_policy 100000) 5000 sx_store (transfer_commit_of sx_digest sx_genesis (request_of sx_plan))"
    unfolding sx_committed by (rule sx_fits) simp
  from prepared_transfer_is_committed [OF sx_digest_shape nx_ethers_law live sx_store_sel(2,3) sx_store_line sx_store_sel(1) sx_taken sx_prepared sx_capacity this, of 77]
  show ?thesis by metis
qed

text \<open>
  C8. A prepared block is what ends up on disk. Take a store that came from a genesis, with no
  intent, no lock and a newline at the end of its journal, and a block plan that \<^verbatim>\<open>prepare\<close> made from its snapshot. If the block is not in the
  journal and the limits have room, \<^verbatim>\<open>apply\<close> with the store's \<^verbatim>\<open>applyBlockOnce\<close> passes every check on
  both sides, makes one request and returns \<^verbatim>\<open>applied\<close>; the ledger of the new snapshot is what
  executing the transactions one after another makes of the old one, and the journal has one entry
  more.
\<close>

theorem prepared_block_is_committed:
  assumes "\<And>x. hex_n 64 (H x)" "address_law E" "live_store H E policy f0 f"
    and "sf_intent f = None" "sf_lock f = None" "\<not> sf_unterminated f" "sf_snapshot f = Some s"
    and "prepareVoidNativeValueTransferBlockExecutionV1 H E block_hash block_number s block_policy txs = Inr b"
    and "\<forall>e \<in> set (entries_of f). b_block_idempotency_key_sha256 b \<notin> set (entry_block e)"
    and "commit_fits policy now f (block_commit_of H s (block_request_of b))"
  shows "\<exists>f' s' e. applyVoidNativeValueTransferBlockExecutionV1 H b VOID_NATIVE_VALUE_TRANSFER_BLOCK_CONFIRMATION_V1
        (Some (\<lambda>request. the (snd (applyBlockOnce H E policy (\<lambda>_. IoOk) pid now request f)))) =
      (BlockReady (b_block_hash b) (b_block_number b) (b_transaction_count b) (sn_state_version s')
        (b_block_idempotency_key_sha256 b) (entry_commit_id e), [blockRequest b]) \<and>
    fst (applyBlockOnce H E policy (\<lambda>_. IoOk) pid now (blockRequest b) f) = f' \<and>
    sf_snapshot f' = Some s' \<and> sf_intent f' = None \<and> sf_lock f' = None \<and> entries_of f' = entries_of f @ [e] \<and>
    entry_prior e = sn_state_version s \<and> entry_version e = sn_state_version s' \<and>
    snapshot_ledger s' = run_plans (b_transaction_plans b) (snapshot_ledger s)"
proof -
  have H: "hex_digest H" using assms(1) by unfold_locales
  let ?q = "block_request_of b" let ?c = "block_commit_of H s ?q"
  note ready = live_ready [OF H assms(3)] and snap = live_snapshot [OF assms(3)]
  have s: "snapshot_ok E policy s" using ready(2) assms(7) by (simp add: files_ready_def snapshot_ready_def)
  have room: "journal_bytes f \<le> ns_max_journal_bytes policy"
    using assms(10) line_bytes_gt [of "cp_entry ?c"] by (simp add: commit_fits_def)
  have run: "applyBlockOnce H E policy (\<lambda>_. IoOk) pid now (blockRequest b) f =
      (after_commit f ?c, Some (BlockApplied (blockCommitIdOf H s ?q) (b_block_hash b) (b_block_number b)
        (b_final_state_version b) (b_transaction_count b)))"
    unfolding applyBlockOnce_def
    by (rule block_commit.protocol_undisturbed [OF ready(1) assms(4,5)
          prepared_block_decided [OF H assms(2) ready(2) assms(7) snap(3) [OF assms(4)] snap(2) room assms(8,9)] assms(10) refl assms(6)])
  note ids = hex_digest.commit_ids_safe(3) [OF H, THEN SAFE_ID_trim] hex_digest.commit_ids_safe(3) [OF H]
  have valid: "validateBlockPlan H b = None" by (rule hex_digest.prepared_block_valid [OF H assms(8)])
  then have "js_lower (b_block_hash b) = b_block_hash b" "js_trim (b_final_state_version b) = b_final_state_version b"
    unfolding validateBlockPlan_def by (auto intro: hash_lower SAFE_ID_trim split: if_splits)
  with valid have "applyVoidNativeValueTransferBlockExecutionV1 H b VOID_NATIVE_VALUE_TRANSFER_BLOCK_CONFIRMATION_V1
        (Some (\<lambda>request. the (snd (applyBlockOnce H E policy (\<lambda>_. IoOk) pid now request f)))) =
      (BlockReady (b_block_hash b) (b_block_number b) (b_transaction_count b) (sn_state_version (cp_post ?c))
        (b_block_idempotency_key_sha256 b) (entry_commit_id (cp_entry ?c)), [blockRequest b])"
    by (simp add: applyVoidNativeValueTransferBlockExecutionV1_def blockStoreOutcome_def run ids block_commit_of_def
        blockEntryOf_def blockPostSnapshotOf_def block_request_of_def Let_def)
  moreover have "entry_prior (cp_entry ?c) = sn_state_version s" "entry_version (cp_entry ?c) = sn_state_version (cp_post ?c)"
    by (simp_all add: block_commit_of_def blockEntryOf_def blockPostSnapshotOf_def)
  moreover have "snapshot_ledger (cp_post ?c) = run_plans (b_transaction_plans b) (snapshot_ledger s)"
    using block_commit_ledger [OF s assms(8)] by (simp add: block_commit_of_def)
  ultimately show ?thesis
    using assms(4,5) by (intro exI [of _ "after_commit f ?c"] exI [of _ "cp_post ?c"] exI [of _ "cp_entry ?c"])
      (simp add: run after_commit_sel)
qed

theorem prepared_block_is_committed_witness:
  "\<exists>s'. sf_snapshot (fst (applyBlockOnce sx_digest nx_ethers (sx_policy 100000) (\<lambda>_. IoOk) 77 5000 (blockRequest sx_block) sx_store)) = Some s' \<and>
     snapshot_ledger s' = run_plans (b_transaction_plans sx_block) (snapshot_ledger sx_genesis)"
proof -
  have live: "live_store sx_digest nx_ethers (sx_policy 100000) sx_store sx_store" by (rule sx_live) simp_all
  have fits: "commit_fits (sx_policy 100000) 5000 sx_store (block_commit_of sx_digest sx_genesis (block_request_of sx_block))"
    unfolding sx_block_committed by (rule sx_block_fits) simp
  have "\<forall>e \<in> set (entries_of sx_store). b_block_idempotency_key_sha256 sx_block \<notin> set (entry_block e)"
    by (simp add: sx_store_sel)
  from prepared_block_is_committed [OF sx_digest_shape nx_ethers_law live sx_store_sel(2,3) sx_store_line sx_store_sel(1) sx_block_prepared this fits, of 77]
  show ?thesis by metis
qed

end
