(* ===== verification/Native_Precommit.thy ===== *)
theory Native_Precommit
  imports Native_Transfer
begin

text \<open>
  The gate before a block is committed,
  \<^verbatim>\<open>src/chain/native_block_execution_precommit_integration_v1.ts\<close>: it is off unless it is enabled and
  confirmed, and then hands the candidate transactions to an injected function that prepares the
  block. The injected function is an argument; it may return any value or throw. The model returns the
  calls of it beside the result; \<open>Inl\<close> is the error \<^verbatim>\<open>hold\<close> throws.
\<close>

definition VOID_NATIVE_BLOCK_EXECUTION_PRECOMMIT_CONFIRMATION_V1 :: string where
  "VOID_NATIVE_BLOCK_EXECUTION_PRECOMMIT_CONFIRMATION_V1 = ''prepareNativeBlockExecutionPrecommitV1''"

definition VOID_NATIVE_BLOCK_EXECUTION_PRECOMMIT_PREPARE_DECISION_V1 :: string where
  "VOID_NATIVE_BLOCK_EXECUTION_PRECOMMIT_PREPARE_DECISION_V1 = ''VOID_NATIVE_BLOCK_EXECUTION_PRECOMMIT_PREPARE_DECISION_V1''"

type_synonym prepare_dependency = "jsv \<Rightarrow> string + jsv"

record precommit_input =
  pi_policy :: jsv
  pi_candidate_transaction_count :: jsv
  pi_candidate_transactions :: jsv
  pi_prepare_dependency :: "prepare_dependency option"

datatype precommit_decision = PrecommitDisabled | PrecommitPrepared int jsv

definition parseCandidateTransactionCount :: "jsv \<Rightarrow> int res" where
  "parseCandidateTransactionCount value =
     (if \<not> isSafeInteger value \<or> num_of value < 0 then Inl ''candidate_transaction_count_invalid'' else Inr (num_of value))"

definition prepare_request :: "int \<Rightarrow> jsv \<Rightarrow> jsv" where
  "prepare_request n transactions =
     JObj [(''candidate_transaction_count'', JNum n), (''candidate_transactions'', transactions)]"

text \<open>What is made of the value the injected function returned.\<close>

definition checkPrepared :: "int \<Rightarrow> jsv \<Rightarrow> precommit_decision res" where
  "checkPrepared transactionCount prepared =
     (if \<not> (is_obj prepared \<or> is_arr prepared)
        \<or> jget ''marker'' prepared \<noteq> JStr VOID_NATIVE_BLOCK_EXECUTION_PRECOMMIT_PREPARE_DECISION_V1
        \<or> jget ''version'' prepared \<noteq> JNum 1
      then Inl ''prepare_dependency_decision_invalid''
      else if \<not> js_truthy (jget ''ok'' prepared) \<or> jget ''status'' prepared \<noteq> JStr ''prepared''
      then Inl (if jget ''ok'' prepared = JBool False \<and> is_str (jget ''reason'' prepared)
                then str_of (jget ''reason'' prepared) else ''prepare_dependency_held'')
      else if jget ''transaction_count'' prepared \<noteq> JNum transactionCount
        \<or> \<not> SHA256 (js_String (jget ''plan_binding_sha256'' prepared))
        \<or> jget ''state_mutation_performed'' prepared \<noteq> JBool False
        \<or> jget ''money_movement_performed'' prepared \<noteq> JBool False
      then Inl ''prepared_plan_binding_invalid''
      else Inr (PrecommitPrepared transactionCount (jget ''plan_binding_sha256'' prepared)))"

definition runVoidNativeBlockExecutionPrecommitIntegrationV1 ::
  "precommit_input option \<Rightarrow> precommit_decision res \<times> jsv list" where
  "runVoidNativeBlockExecutionPrecommitIntegrationV1 input0 =
     (case input0 of
       None \<Rightarrow> (Inl ''precommit_input_invalid'', [])
     | Some input \<Rightarrow>
         let policy = pi_policy input in
         if \<not> (is_obj policy \<or> is_arr policy) \<or> \<not> is_bool (jget ''enabled'' policy)
         then (Inl ''precommit_policy_invalid'', [])
         else if jget ''enabled'' policy = JBool False then (Inr PrecommitDisabled, [])
         else if jget ''confirmation'' policy \<noteq> JStr VOID_NATIVE_BLOCK_EXECUTION_PRECOMMIT_CONFIRMATION_V1
         then (Inl ''precommit_confirmation_required'', [])
         else case parseCandidateTransactionCount (pi_candidate_transaction_count input) of
           Inl e \<Rightarrow> (Inl e, [])
         | Inr transactionCount \<Rightarrow>
             let candidateTransactions = pi_candidate_transactions input in
             if \<not> is_arr candidateTransactions then (Inl ''candidate_transactions_invalid'', [])
             else if int (length (elems_of candidateTransactions)) \<noteq> transactionCount
             then (Inl ''candidate_transaction_count_mismatch'', [])
             else case pi_prepare_dependency input of
               None \<Rightarrow> (Inl ''prepare_dependency_required'', [])
             | Some dependency \<Rightarrow>
                 let request = prepare_request transactionCount candidateTransactions in
                 (case dependency request of
                   Inl _ \<Rightarrow> Inl ''prepare_dependency_failed''
                 | Inr prepared \<Rightarrow> checkPrepared transactionCount prepared, [request]))"

section \<open>Properties\<close>

lemma jget_no_object: "\<not> is_obj v \<Longrightarrow> jget k v = JUndef"
  by (cases v) simp_all

text \<open>
  C22. The gate calls nothing unless it is told to, and lets pass only what was prepared. The injected
  function is called at most once, only when the policy enables the gate and carries the exact
  confirmation, with the candidate transactions unchanged and their true number. The gate returns
  \<^verbatim>\<open>disabled\<close> exactly if the policy disables it, and \<^verbatim>\<open>prepared\<close> only if the function returned a prepared
  decision for that many transactions with a SHA-256 binding and without any mutation.
\<close>

theorem precommit_gate:
  "case runVoidNativeBlockExecutionPrecommitIntegrationV1 (Some input) of (result, calls) \<Rightarrow>
    (calls = [] \<or>
      (\<exists>xs dependency. pi_candidate_transactions input = JArr xs \<and> pi_prepare_dependency input = Some dependency \<and>
        calls = [prepare_request (int (length xs)) (JArr xs)] \<and>
        pi_candidate_transaction_count input = JNum (int (length xs)) \<and>
        jget ''enabled'' (pi_policy input) = JBool True \<and>
        jget ''confirmation'' (pi_policy input) = JStr VOID_NATIVE_BLOCK_EXECUTION_PRECOMMIT_CONFIRMATION_V1)) \<and>
    (result = Inr PrecommitDisabled \<longleftrightarrow> jget ''enabled'' (pi_policy input) = JBool False) \<and>
    (\<forall>n binding. result = Inr (PrecommitPrepared n binding) \<longrightarrow>
      (\<exists>xs dependency prepared. pi_candidate_transactions input = JArr xs \<and> n = int (length xs) \<and>
        pi_prepare_dependency input = Some dependency \<and> calls = [prepare_request n (JArr xs)] \<and>
        dependency (prepare_request n (JArr xs)) = Inr prepared \<and>
        jget ''status'' prepared = JStr ''prepared'' \<and> jget ''transaction_count'' prepared = JNum n \<and>
        jget ''plan_binding_sha256'' prepared = binding \<and> SHA256 (js_String binding) \<and>
        jget ''state_mutation_performed'' prepared = JBool False \<and> jget ''money_movement_performed'' prepared = JBool False))"
proof -
  obtain result calls where run: "runVoidNativeBlockExecutionPrecommitIntegrationV1 (Some input) = (result, calls)" by force
  show ?thesis
  proof (cases "calls = []")
    case True
    with run show ?thesis
      unfolding run prod.case runVoidNativeBlockExecutionPrecommitIntegrationV1_def Let_def
      by (auto simp: jget_no_object split: if_splits sum.splits option.splits)
  next
    case False
    from run False obtain n xs dependency where
      calls: "pi_candidate_transactions input = JArr xs" "pi_prepare_dependency input = Some dependency" "n = int (length xs)"
        "calls = [prepare_request n (JArr xs)]" "pi_candidate_transaction_count input = JNum n"
        "jget ''enabled'' (pi_policy input) = JBool True"
        "jget ''confirmation'' (pi_policy input) = JStr VOID_NATIVE_BLOCK_EXECUTION_PRECOMMIT_CONFIRMATION_V1"
      and result: "result = (case dependency (prepare_request n (JArr xs)) of
          Inl _ \<Rightarrow> Inl ''prepare_dependency_failed'' | Inr prepared \<Rightarrow> checkPrepared n prepared)"
      unfolding runVoidNativeBlockExecutionPrecommitIntegrationV1_def Let_def parseCandidateTransactionCount_def
      by (auto simp: is_arr_iff isSafeInteger_iff elim: is_bool.elims split: if_splits sum.splits option.splits)
    have passes: "result = Inr (PrecommitPrepared m binding) \<Longrightarrow> \<exists>prepared. m = n \<and>
        dependency (prepare_request n (JArr xs)) = Inr prepared \<and>
        jget ''status'' prepared = JStr ''prepared'' \<and> jget ''transaction_count'' prepared = JNum n \<and>
        jget ''plan_binding_sha256'' prepared = binding \<and> SHA256 (js_String binding) \<and>
        jget ''state_mutation_performed'' prepared = JBool False \<and> jget ''money_movement_performed'' prepared = JBool False" for m binding
      unfolding result checkPrepared_def by (auto split: sum.splits if_splits)
    have "result \<noteq> Inr PrecommitDisabled" unfolding result checkPrepared_def by (auto split: sum.split)
    with calls passes show ?thesis unfolding run prod.case by auto
  qed
qed

text \<open>A gate that is enabled and confirmed, with two candidate transactions and a function that prepares them.\<close>

definition pc_prepared :: jsv where
  "pc_prepared = JObj [(''ok'', JBool True), (''status'', JStr ''prepared''),
     (''marker'', JStr VOID_NATIVE_BLOCK_EXECUTION_PRECOMMIT_PREPARE_DECISION_V1), (''version'', JNum 1),
     (''transaction_count'', JNum 2), (''plan_binding_sha256'', JStr (replicate 64 CHR ''0'')),
     (''state_mutation_performed'', JBool False), (''money_movement_performed'', JBool False)]"

definition pc_input :: precommit_input where
  "pc_input = \<lparr> pi_policy = JObj [(''enabled'', JBool True), (''confirmation'', JStr VOID_NATIVE_BLOCK_EXECUTION_PRECOMMIT_CONFIRMATION_V1)],
     pi_candidate_transaction_count = JNum 2, pi_candidate_transactions = JArr [JStr ''a'', JStr ''b''],
     pi_prepare_dependency = Some (\<lambda>_. Inr pc_prepared) \<rparr>"

theorem precommit_gate_witness:
  "runVoidNativeBlockExecutionPrecommitIntegrationV1 (Some pc_input) =
     (Inr (PrecommitPrepared 2 (JStr (replicate 64 CHR ''0''))), [prepare_request 2 (JArr [JStr ''a'', JStr ''b''])]) \<and>
   SHA256 (js_String (JStr (replicate 64 CHR ''0'')))"
proof -
  have run: "runVoidNativeBlockExecutionPrecommitIntegrationV1 (Some pc_input) =
     (Inr (PrecommitPrepared 2 (JStr (replicate 64 CHR ''0''))), [prepare_request 2 (JArr [JStr ''a'', JStr ''b''])])"
    by code_simp
  show ?thesis using precommit_gate [of pc_input] unfolding run by auto
qed

end
