(* ===== verification/Mempool.thy ===== *)
theory Mempool
  imports Js_Prelude
begin

text \<open>
  The pending queue of transactions, \<^verbatim>\<open>src/chain/mempool.ts\<close>: one queue with an index of the canonical
  hashes in it, an array-like surface through which older code changes the queue, and a selection of
  entries that stay pending until a block with them is committed.

  \<^item> An entry is a primitive value or an object; an object is copied when it enters the queue, and the
    copy is a new object. \<open>Owned n v\<close> is the object with number \<open>n\<close> and the properties \<open>v\<close>; numbers
    are given out once (\<open>mp_fresh\<close>). What a holder of an entry without canonical hash does to its other
    properties afterwards is not represented.
  \<^item> Arguments that the code converts with \<^verbatim>\<open>Number\<close> are numbers (\<open>js_number\<close>); a missing argument is
    \<open>None\<close>, and so is \<^verbatim>\<open>undefined\<close> where the code does not tell the two apart. Extra named properties of the queue array are not represented.
  \<^item> An operation returns its result or the message of its error, and the pool after it.
\<close>

section \<open>Identity of a transaction\<close>

definition VOID_MEMPOOL_SELECTION_IN_PROGRESS :: string where
  "VOID_MEMPOOL_SELECTION_IN_PROGRESS = ''mempool_selection_in_progress''"

definition VOID_MEMPOOL_SELECTED_MUTATION_FORBIDDEN :: string where
  "VOID_MEMPOOL_SELECTED_MUTATION_FORBIDDEN = ''mempool_selected_mutation_forbidden''"

definition VOID_MEMPOOL_RAW_INDEX_MUTATION_FORBIDDEN :: string where
  "VOID_MEMPOOL_RAW_INDEX_MUTATION_FORBIDDEN = ''mempool_raw_index_mutation_forbidden''"

definition VOID_MEMPOOL_RAW_HASH_MUTATION_FORBIDDEN :: string where
  "VOID_MEMPOOL_RAW_HASH_MUTATION_FORBIDDEN = ''mempool_raw_hash_mutation_forbidden''"

definition VOID_MEMPOOL_RAW_PAYLOAD_MUTATION_FORBIDDEN :: string where
  "VOID_MEMPOOL_RAW_PAYLOAD_MUTATION_FORBIDDEN = ''mempool_raw_payload_mutation_forbidden''"

definition VOID_MEMPOOL_LENGTH_GROWTH_FORBIDDEN :: string where
  "VOID_MEMPOOL_LENGTH_GROWTH_FORBIDDEN = ''mempool_length_growth_forbidden''"

definition VOID_MEMPOOL_REENTRANT_MUTATION_FORBIDDEN :: string where
  "VOID_MEMPOOL_REENTRANT_MUTATION_FORBIDDEN = ''mempool_reentrant_mutation_forbidden''"

definition duplicateTransactionError :: string where
  "duplicateTransactionError = ''duplicate_transaction''"

text \<open>\<^verbatim>\<open>replace(/^0x/, "")\<close>\<close>

definition strip_0x :: "string \<Rightarrow> string" where
  "strip_0x s = (if take 2 s = ''0x'' then drop 2 s else s)"

definition canonicalHashObservationOf :: "jsv \<Rightarrow> string \<times> jsv" where
  "canonicalHashObservationOf tx =
     (let raw = jget ''hash'' tx;
          hash = (if raw = JUndef \<or> raw = JNull then raw else JStr (js_String raw));
          h = strip_0x (js_lower (js_trim (if js_truthy hash then js_String hash else [])))
      in (if hex_n 64 h then h else [], hash))"

definition canonicalIdentitySnapshotOf :: "jsv \<Rightarrow> (string \<times> jsv) option" where
  "canonicalIdentitySnapshotOf tx =
     (let observation = canonicalHashObservationOf tx in if fst observation \<noteq> [] then Some observation else None)"

definition comparableCanonicalHashOf :: "jsv \<Rightarrow> string" where
  "comparableCanonicalHashOf tx = (case canonicalIdentitySnapshotOf tx of None \<Rightarrow> [] | Some snapshot \<Rightarrow> fst snapshot)"

definition strictCanonicalHashOf :: "jsv \<Rightarrow> string" where
  "strictCanonicalHashOf tx =
     (let raw = jget ''hash'' tx; h = js_lower (js_trim (if js_truthy raw then js_String raw else []))
      in if hex_n 64 h then h else [])"

section \<open>Entries\<close>

datatype pool_item = Prim jsv | Owned nat jsv

fun item_value :: "pool_item \<Rightarrow> jsv" where
  "item_value (Prim v) = v"
| "item_value (Owned n v) = v"

text \<open>The recursive copy; on a tree of data properties none of its errors occurs.\<close>

fun snapshotCanonicalPayload :: "jsv \<Rightarrow> jsv" where
  "snapshotCanonicalPayload (JArr xs) = JArr (map snapshotCanonicalPayload xs)"
| "snapshotCanonicalPayload (JObj kvs) = JObj (map (\<lambda>(k, v). (k, snapshotCanonicalPayload v)) kvs)"
| "snapshotCanonicalPayload v = v"

text \<open>
  The copy of an object has its properties in their order, except that the hash, as a text, comes last.
  An array has no hash.
\<close>

fun ownCanonicalCompatItem :: "nat \<Rightarrow> jsv \<Rightarrow> pool_item" where
  "ownCanonicalCompatItem n (JObj kvs) =
     (let hashObservation = canonicalHashObservationOf (JObj kvs);
          rest = filter (\<lambda>(k, v). k \<noteq> ''hash'') kvs
      in if fst hashObservation \<noteq> []
         then Owned n (JObj (map (\<lambda>(k, v). (k, snapshotCanonicalPayload v)) rest @ [(''hash'', snd hashObservation)]))
         else Owned n (JObj (rest @ (if ''hash'' \<in> set (map fst kvs) then [(''hash'', snd hashObservation)] else []))))"
| "ownCanonicalCompatItem n (JArr xs) = Owned n (JArr xs)"
| "ownCanonicalCompatItem n tx = Prim tx"

text \<open>
  What the proxy around a copied object with the properties \<open>v\<close> says to a write, a deletion or a
  definition of one of its properties.
\<close>

definition itemTrap :: "jsv \<Rightarrow> string \<Rightarrow> unit res" where
  "itemTrap v prop =
     (if prop = ''hash'' then Inl VOID_MEMPOOL_RAW_HASH_MUTATION_FORBIDDEN
      else if comparableCanonicalHashOf v \<noteq> [] then Inl VOID_MEMPOOL_RAW_PAYLOAD_MUTATION_FORBIDDEN
      else Inr ())"

definition numericArrayIndex :: "string \<Rightarrow> int option" where
  "numericArrayIndex prop =
     (if \<not> is_decimal prop then None
      else if MAX_SAFE_INTEGER < dec_val prop \<or> dec_val prop < 0 \<or> 0xffffffff \<le> dec_val prop then None
      else Some (dec_val prop))"

text \<open>
  \<^verbatim>\<open>===\<close> on entries: a primitive equals itself unless it is \<^verbatim>\<open>NaN\<close>, and an object equals itself. A \<^verbatim>\<open>Set\<close>
  finds \<^verbatim>\<open>NaN\<close> too: there equality is \<open>=\<close>.
\<close>

definition strict_eq :: "pool_item \<Rightarrow> pool_item \<Rightarrow> bool" where
  "strict_eq a b \<longleftrightarrow> a = b \<and> a \<noteq> Prim (JFrac ''NaN'')"

text \<open>Numbers: an integer, a number with a fraction by its floor, and the others.\<close>

datatype js_number = NumInt int | NumFrac int | NumNaN | NumInf bool

text \<open>\<^verbatim>\<open>Number.isFinite(x) ? Math.trunc(x) : 0\<close> and \<^verbatim>\<open>Number.isFinite(x) ? Math.floor(x) : 0\<close>\<close>

fun trunc_or_0 :: "js_number \<Rightarrow> int" where
  "trunc_or_0 (NumInt i) = i"
| "trunc_or_0 (NumFrac f) = (if f < 0 then f + 1 else f)"
| "trunc_or_0 _ = 0"

fun floor_or_0 :: "js_number \<Rightarrow> int" where
  "floor_or_0 (NumInt i) = i"
| "floor_or_0 (NumFrac f) = f"
| "floor_or_0 _ = 0"

section \<open>The pool\<close>

record mempool =
  mp_queue :: "pool_item list"
  mp_ids :: "string set"
  mp_selected :: "pool_item list"
  mp_locked :: bool
  mp_fresh :: nat

type_synonym 'a pool_op = "mempool \<Rightarrow> 'a res \<times> mempool"

definition new_mempool :: mempool where
  "new_mempool = \<lparr> mp_queue = [], mp_ids = {}, mp_selected = [], mp_locked = False, mp_fresh = 0 \<rparr>"

definition withMutationEpoch :: "'a pool_op \<Rightarrow> 'a pool_op" where
  "withMutationEpoch f p =
     (if mp_locked p then (Inl VOID_MEMPOOL_REENTRANT_MUTATION_FORBIDDEN, p)
      else case f (p\<lparr>mp_locked := True\<rparr>) of (r, p') \<Rightarrow> (r, p'\<lparr>mp_locked := False\<rparr>))"

text \<open>\<^verbatim>\<open>items.map(ownCanonicalCompatItem)\<close>: each copy is a new object.\<close>

definition own_items :: "nat \<Rightarrow> jsv list \<Rightarrow> pool_item list" where
  "own_items n items = map (\<lambda>(i, tx). ownCanonicalCompatItem i tx) (enumerate n items)"

abbreviation item_id :: "pool_item \<Rightarrow> string" where
  "item_id item \<equiv> comparableCanonicalHashOf (item_value item)"

fun assertAddable :: "string set \<Rightarrow> string set \<Rightarrow> string set \<Rightarrow> pool_item list \<Rightarrow> unit res" where
  "assertAddable ids removedIds batch [] = Inr ()"
| "assertAddable ids removedIds batch (item # items) =
     (let id = item_id item in
      if id = [] then assertAddable ids removedIds batch items
      else if (id \<in> ids \<and> id \<notin> removedIds) \<or> id \<in> batch then Inl duplicateTransactionError
      else assertAddable ids removedIds (insert id batch) items)"

fun addIdentities :: "pool_item list \<Rightarrow> string set \<Rightarrow> string set" where
  "addIdentities [] ids = ids"
| "addIdentities (item # items) ids =
     addIdentities items (if item_id item \<noteq> [] then insert (item_id item) ids else ids)"

fun removeIdentities :: "pool_item list \<Rightarrow> string set \<Rightarrow> string set" where
  "removeIdentities [] ids = ids"
| "removeIdentities (item # items) ids =
     removeIdentities items (if item_id item \<noteq> [] then ids - {item_id item} else ids)"

definition selectedContainsAny :: "mempool \<Rightarrow> pool_item list \<Rightarrow> bool" where
  "selectedContainsAny p items = list_ex (\<lambda>item. item \<in> set (mp_selected p)) items"

text \<open>The loop of the setter of \<^verbatim>\<open>txs\<close>.\<close>

fun seenIdentities :: "string set \<Rightarrow> pool_item list \<Rightarrow> string set res" where
  "seenIdentities seen [] = Inr seen"
| "seenIdentities seen (item # items) =
     (let id = item_id item in
      if id = [] then seenIdentities seen items
      else if id \<in> seen then Inl duplicateTransactionError
      else seenIdentities (insert id seen) items)"

section \<open>The array-like surface\<close>

definition compatPushLocked :: "jsv list \<Rightarrow> int pool_op" where
  "compatPushLocked items p =
     (let ownedItems = own_items (mp_fresh p) items; p1 = p\<lparr>mp_fresh := mp_fresh p + length items\<rparr> in
      case assertAddable (mp_ids p) {} {} ownedItems of
        Inl e \<Rightarrow> (Inl e, p1)
      | Inr _ \<Rightarrow> (Inr (int (length (mp_queue p @ ownedItems))),
          p1\<lparr>mp_queue := mp_queue p @ ownedItems, mp_ids := addIdentities ownedItems (mp_ids p)\<rparr>))"

definition compatPush :: "jsv list \<Rightarrow> int pool_op" where
  "compatPush items = withMutationEpoch (compatPushLocked items)"

definition compatUnshiftLocked :: "jsv list \<Rightarrow> int pool_op" where
  "compatUnshiftLocked items p =
     (let ownedItems = own_items (mp_fresh p) items; p1 = p\<lparr>mp_fresh := mp_fresh p + length items\<rparr> in
      case assertAddable (mp_ids p) {} {} ownedItems of
        Inl e \<Rightarrow> (Inl e, p1)
      | Inr _ \<Rightarrow> (Inr (int (length (ownedItems @ mp_queue p))),
          p1\<lparr>mp_queue := ownedItems @ mp_queue p, mp_ids := addIdentities ownedItems (mp_ids p)\<rparr>))"

definition compatUnshift :: "jsv list \<Rightarrow> int pool_op" where
  "compatUnshift items = withMutationEpoch (compatUnshiftLocked items)"

definition splice_start :: "int \<Rightarrow> js_number option \<Rightarrow> int" where
  "splice_start len arg =
     (let start0 = trunc_or_0 (case arg of None \<Rightarrow> NumInt 0 | Some x \<Rightarrow> x)
      in if start0 < 0 then max (len + start0) 0 else min start0 len)"

definition splice_count :: "int \<Rightarrow> int \<Rightarrow> js_number option \<Rightarrow> int" where
  "splice_count len start arg =
     (case arg of None \<Rightarrow> len - start | Some x \<Rightarrow> min (max (trunc_or_0 x) 0) (len - start))"

text \<open>
  The arguments of a splice. The first is \<open>None\<close> when it is missing, \<^verbatim>\<open>undefined\<close> or \<^verbatim>\<open>null\<close>. The second is
  \<open>None\<close> only when there are fewer than two arguments; one that is \<^verbatim>\<open>undefined\<close> is read as \<^verbatim>\<open>NaN\<close>, and
  where new items follow there is a second argument.
\<close>

definition splice_arg1 :: "js_number option \<Rightarrow> jsv list \<Rightarrow> js_number option" where
  "splice_arg1 arg1 newItems = (if arg1 = None \<and> newItems \<noteq> [] then Some NumNaN else arg1)"

definition compatSpliceLocked :: "js_number option \<Rightarrow> js_number option \<Rightarrow> jsv list \<Rightarrow> pool_item list pool_op" where
  "compatSpliceLocked arg0 arg1 newItems p =
     (let len = int (length (mp_queue p));
          start = nat (splice_start len arg0);
          deleteCount = nat (splice_count len (splice_start len arg0) (splice_arg1 arg1 newItems));
          items = own_items (mp_fresh p) newItems;
          p1 = p\<lparr>mp_fresh := mp_fresh p + length newItems\<rparr>;
          removed = take deleteCount (drop start (mp_queue p))
      in if selectedContainsAny p removed then (Inl VOID_MEMPOOL_SELECTED_MUTATION_FORBIDDEN, p1)
         else case assertAddable (mp_ids p) (addIdentities removed {}) {} items of
           Inl e \<Rightarrow> (Inl e, p1)
         | Inr _ \<Rightarrow> (Inr removed,
             p1\<lparr>mp_queue := take start (mp_queue p) @ items @ drop (start + deleteCount) (mp_queue p),
                mp_ids := addIdentities items (removeIdentities removed (mp_ids p))\<rparr>))"

definition compatSplice :: "js_number option \<Rightarrow> js_number option \<Rightarrow> jsv list \<Rightarrow> pool_item list pool_op" where
  "compatSplice arg0 arg1 newItems = withMutationEpoch (compatSpliceLocked arg0 arg1 newItems)"

text \<open>\<^verbatim>\<open>compatSpliceLocked(args)[0]\<close>\<close>

definition firstOf :: "pool_item list res \<Rightarrow> pool_item res" where
  "firstOf r = bnd r (\<lambda>out. Inr (case out of [] \<Rightarrow> Prim JUndef | item # _ \<Rightarrow> item))"

definition compatPop :: "pool_item pool_op" where
  "compatPop = withMutationEpoch (\<lambda>p.
     if mp_queue p = [] then (Inr (Prim JUndef), p)
     else apfst firstOf (compatSpliceLocked (Some (NumInt (int (length (mp_queue p)) - 1))) (Some (NumInt 1)) [] p))"

definition compatShift :: "pool_item pool_op" where
  "compatShift = withMutationEpoch (\<lambda>p.
     if mp_queue p = [] then (Inr (Prim JUndef), p)
     else apfst firstOf (compatSpliceLocked (Some (NumInt 0)) (Some (NumInt 1)) [] p))"

text \<open>
  \<^verbatim>\<open>Array.prototype.sort\<close>: stable; \<^verbatim>\<open>undefined\<close> goes last without a comparison; without a comparison
  function the texts of the entries are compared. The comparison function is pure; for one that is not
  an order the language leaves the order of the result open, and the model takes one.
\<close>

fun insert_by :: "(pool_item \<Rightarrow> pool_item \<Rightarrow> int) \<Rightarrow> pool_item \<Rightarrow> pool_item list \<Rightarrow> pool_item list" where
  "insert_by cmp x [] = [x]"
| "insert_by cmp x (y # ys) = (if cmp x y \<le> 0 then x # y # ys else y # insert_by cmp x ys)"

definition default_compare :: "pool_item \<Rightarrow> pool_item \<Rightarrow> int" where
  "default_compare a b =
     (let x = js_String (item_value a); y = js_String (item_value b)
      in if x < y then - 1 else if y < x then 1 else 0)"

definition js_sort :: "(pool_item \<Rightarrow> pool_item \<Rightarrow> int) option \<Rightarrow> pool_item list \<Rightarrow> pool_item list" where
  "js_sort compareFn items =
     foldr (insert_by (case compareFn of None \<Rightarrow> default_compare | Some f \<Rightarrow> f)) (filter (\<lambda>x. x \<noteq> Prim JUndef) items) []
       @ filter (\<lambda>x. x = Prim JUndef) items"

definition compatSort :: "(pool_item \<Rightarrow> pool_item \<Rightarrow> int) option \<Rightarrow> unit pool_op" where
  "compatSort compareFn = withMutationEpoch (\<lambda>p. (Inr (), p\<lparr>mp_queue := js_sort compareFn (mp_queue p)\<rparr>))"

definition compatReverse :: "unit pool_op" where
  "compatReverse = withMutationEpoch (\<lambda>p. (Inr (), p\<lparr>mp_queue := rev (mp_queue p)\<rparr>))"

definition setCompatLength :: "js_number \<Rightarrow> unit pool_op" where
  "setCompatLength value = withMutationEpoch (\<lambda>p.
     let len = int (length (mp_queue p)) in
     case value of
       NumInt nextLength \<Rightarrow>
         if nextLength < 0 \<or> 0xffffffff < nextLength then (Inl ''Invalid array length'', p)
         else if len < nextLength then (Inl VOID_MEMPOOL_LENGTH_GROWTH_FORBIDDEN, p)
         else if nextLength < len
         then apfst (map_sum id (\<lambda>_. ())) (compatSpliceLocked (Some (NumInt nextLength)) (Some (NumInt (len - nextLength))) [] p)
         else (Inr (), p)
     | _ \<Rightarrow> (Inl ''Invalid array length'', p))"

text \<open>
  The traps of the queue's proxy: \<^verbatim>\<open>fill\<close> and \<^verbatim>\<open>copyWithin\<close> always throw; writing, deleting or defining
  an element throws. A write to \<^verbatim>\<open>length\<close> is \<open>setCompatLength\<close>.
\<close>

definition indexTrap :: "string \<Rightarrow> unit pool_op" where
  "indexTrap prop p =
     (if numericArrayIndex prop \<noteq> None then (Inl VOID_MEMPOOL_RAW_INDEX_MUTATION_FORBIDDEN, p) else (Inr (), p))"

definition defineTrap :: "string \<Rightarrow> unit pool_op" where
  "defineTrap prop p = (if prop = ''length'' then (Inl VOID_MEMPOOL_RAW_INDEX_MUTATION_FORBIDDEN, p) else indexTrap prop p)"

definition fillTrap :: "unit pool_op" where
  "fillTrap p = (Inl VOID_MEMPOOL_RAW_INDEX_MUTATION_FORBIDDEN, p)"

text \<open>Assigning to \<^verbatim>\<open>txs\<close>, with the function it runs locked; \<open>None\<close> is the queue itself.\<close>

definition setTxsLocked :: "jsv \<Rightarrow> unit pool_op" where
  "setTxsLocked txs p =
     (if \<not> is_arr txs then (Inl ''mempool_txs_must_be_array'', p)
      else if mp_selected p \<noteq> [] then (Inl VOID_MEMPOOL_SELECTED_MUTATION_FORBIDDEN, p)
      else
        let candidate = own_items (mp_fresh p) (elems_of txs);
            p1 = p\<lparr>mp_fresh := mp_fresh p + length (elems_of txs)\<rparr> in
        case seenIdentities {} candidate of
          Inl e \<Rightarrow> (Inl e, p1)
        | Inr seen \<Rightarrow> (Inr (), p1\<lparr>mp_queue := candidate, mp_ids := seen\<rparr>))"

definition set_txs :: "jsv option \<Rightarrow> unit pool_op" where
  "set_txs txs p = (case txs of None \<Rightarrow> (Inr (), p) | Some v \<Rightarrow> withMutationEpoch (setTxsLocked v) p)"

section \<open>The operations of the pool\<close>

definition mempool_push :: "jsv \<Rightarrow> unit pool_op" where
  "mempool_push tx p =
     (if \<not> (is_obj tx \<or> is_arr tx) then (Inr (), p)
      else withMutationEpoch (\<lambda>p.
        let hash = strictCanonicalHashOf tx in
        if hash = [] then (Inr (), p)
        else
          let body = (if jget ''body'' tx = JUndef \<or> jget ''body'' tx = JNull then JObj [] else jget ''body'' tx) in
          apfst (map_sum id (\<lambda>_. ())) (compatPushLocked [JObj [(''hash'', JStr hash), (''body'', body)]] p)) p)"

definition peekAll :: "mempool \<Rightarrow> pool_item list" where
  "peekAll p = mp_queue p"

definition mempool_clear :: "unit pool_op" where
  "mempool_clear = withMutationEpoch (\<lambda>p.
     if mp_queue p = [] then (Inr (), p)
     else apfst (map_sum id (\<lambda>_. ()))
       (compatSpliceLocked (Some (NumInt 0)) (Some (NumInt (int (length (mp_queue p))))) [] p))"

text \<open>How many entries \<^verbatim>\<open>drain\<close> takes: all for a missing number, 0, \<^verbatim>\<open>NaN\<close> or one beyond the length.\<close>

fun drain_take :: "int \<Rightarrow> js_number option \<Rightarrow> int" where
  "drain_take len None = len"
| "drain_take len (Some (NumInt i)) = (if i = 0 \<or> len \<le> i then len else max 0 i)"
| "drain_take len (Some (NumFrac f)) = (if len \<le> f then len else max 0 f)"
| "drain_take len (Some NumNaN) = len"
| "drain_take len (Some (NumInf positive)) = (if positive then len else 0)"

definition drain :: "js_number option \<Rightarrow> pool_item list pool_op" where
  "drain max0 = withMutationEpoch (\<lambda>p.
     compatSpliceLocked (Some (NumInt 0)) (Some (NumInt (drain_take (int (length (mp_queue p))) max0))) [] p)"

definition default_1000 :: "js_number option \<Rightarrow> js_number" where
  "default_1000 max0 = (case max0 of None \<Rightarrow> NumInt 1000 | Some x \<Rightarrow> x)"

definition popMany :: "js_number option \<Rightarrow> pool_item list pool_op" where
  "popMany max0 = drain (Some (default_1000 max0))"

definition mempool_take :: "js_number option \<Rightarrow> pool_item list pool_op" where
  "mempool_take max0 = drain (Some (default_1000 max0))"

definition beginSelection :: "js_number option \<Rightarrow> pool_item list pool_op" where
  "beginSelection max0 = withMutationEpoch (\<lambda>p.
     if mp_selected p \<noteq> [] then (Inl VOID_MEMPOOL_SELECTION_IN_PROGRESS, p)
     else
       let n = max 0 (min (int (length (mp_queue p))) (floor_or_0 (default_1000 max0)));
           selected = take (nat n) (mp_queue p)
       in (Inr selected, p\<lparr>mp_selected := selected\<rparr>))"

text \<open>
  \<^verbatim>\<open>commitSelection\<close>: for each selected entry the first place in the queue that holds it and was not
  found before; then the places are removed from the last to the first.
\<close>

fun locateSelected :: "pool_item list \<Rightarrow> nat set \<Rightarrow> pool_item list \<Rightarrow> nat list res" where
  "locateSelected queue used [] = Inr []"
| "locateSelected queue used (tx # txs) =
     (case find (\<lambda>i. i \<notin> used \<and> strict_eq (queue ! i) tx) [0..<length queue] of
       None \<Rightarrow> Inl ''mempool_selected_entry_missing''
     | Some found \<Rightarrow> bnd (locateSelected queue (insert found used) txs) (\<lambda>indexes. Inr (found # indexes)))"

fun removeIndexes :: "pool_item list \<Rightarrow> pool_item list \<Rightarrow> nat list \<Rightarrow> pool_item list \<times> pool_item list" where
  "removeIndexes queue removed [] = (queue, removed)"
| "removeIndexes queue removed (i # indexes) =
     removeIndexes (take i queue @ drop (Suc i) queue) (removed @ take 1 (drop i queue)) indexes"

definition commitSelection :: "pool_item list pool_op" where
  "commitSelection = withMutationEpoch (\<lambda>p.
     if mp_selected p = [] then (Inr [], p)
     else case locateSelected (mp_queue p) {} (mp_selected p) of
       Inl e \<Rightarrow> (Inl e, p)
     | Inr indexes \<Rightarrow>
         (case removeIndexes (mp_queue p) [] (rev (sort indexes)) of (queue, removed) \<Rightarrow>
           (Inr (mp_selected p),
            p\<lparr>mp_selected := [], mp_queue := queue, mp_ids := removeIdentities removed (mp_ids p)\<rparr>)))"

definition rollbackSelection :: "pool_item list pool_op" where
  "rollbackSelection = withMutationEpoch (\<lambda>p. (Inr (mp_selected p), p\<lparr>mp_selected := []\<rparr>))"

definition selectionSize :: "mempool \<Rightarrow> int" where
  "selectionSize p = int (length (mp_selected p))"

text \<open>A call of the pool or of its array-like surface, and what it does.\<close>

datatype pool_call =
    CallPush "jsv list" | CallUnshift "jsv list" | CallSplice "js_number option" "js_number option" "jsv list"
  | CallPop | CallShift | CallSort "(pool_item \<Rightarrow> pool_item \<Rightarrow> int) option" | CallReverse | CallSetLength js_number
  | CallFill | CallSetIndex string | CallDeleteIndex string | CallDefine string | CallSetTxs "jsv option"
  | PoolPush jsv | PoolClear | PoolDrain "js_number option" | PoolPopMany "js_number option"
  | PoolTake "js_number option" | PoolBegin "js_number option" | PoolCommit | PoolRollback

datatype pool_value = VNone | VNumber int | VItem pool_item | VItems "pool_item list"

abbreviation returns :: "('a \<Rightarrow> pool_value) \<Rightarrow> 'a res \<times> mempool \<Rightarrow> pool_value res \<times> mempool" where
  "returns f \<equiv> apfst (map_sum id f)"

fun perform :: "pool_call \<Rightarrow> pool_value pool_op" where
  "perform (CallPush items) p = returns VNumber (compatPush items p)"
| "perform (CallUnshift items) p = returns VNumber (compatUnshift items p)"
| "perform (CallSplice arg0 arg1 items) p = returns VItems (compatSplice arg0 arg1 items p)"
| "perform CallPop p = returns VItem (compatPop p)"
| "perform CallShift p = returns VItem (compatShift p)"
| "perform (CallSort compareFn) p = returns (\<lambda>_. VNone) (compatSort compareFn p)"
| "perform CallReverse p = returns (\<lambda>_. VNone) (compatReverse p)"
| "perform (CallSetLength value) p = returns (\<lambda>_. VNone) (setCompatLength value p)"
| "perform CallFill p = returns (\<lambda>_. VNone) (fillTrap p)"
| "perform (CallSetIndex prop) p = returns (\<lambda>_. VNone) (indexTrap prop p)"
| "perform (CallDeleteIndex prop) p = returns (\<lambda>_. VNone) (indexTrap prop p)"
| "perform (CallDefine prop) p = returns (\<lambda>_. VNone) (defineTrap prop p)"
| "perform (CallSetTxs value) p = returns (\<lambda>_. VNone) (set_txs value p)"
| "perform (PoolPush tx) p = returns (\<lambda>_. VNone) (mempool_push tx p)"
| "perform PoolClear p = returns (\<lambda>_. VNone) (mempool_clear p)"
| "perform (PoolDrain n) p = returns VItems (drain n p)"
| "perform (PoolPopMany n) p = returns VItems (popMany n p)"
| "perform (PoolTake n) p = returns VItems (mempool_take n p)"
| "perform (PoolBegin n) p = returns VItems (beginSelection n p)"
| "perform PoolCommit p = returns VItems (commitSelection p)"
| "perform PoolRollback p = returns VItems (rollbackSelection p)"

text \<open>The pool after a sequence of calls, each of which may throw.\<close>

definition performs :: "pool_call list \<Rightarrow> mempool \<Rightarrow> mempool" where
  "performs = fold (\<lambda>c p. snd (perform c p))"

end
