(* ===== verification/Mempool_Invariant.thy ===== *)
theory Mempool_Invariant
  imports Mempool
begin

text \<open>
  The invariant of the pending queue: the index holds exactly the canonical hashes in the queue, none
  occurs twice, every object in the queue is a different one, and the selected entries are in the queue.
  It speaks of the queue as a multiset. Every call keeps it, and a call that throws changes nothing.
\<close>

named_theorems pool_simps \<open>what the loops over entries compute\<close>
named_theorems pool_good \<open>bodies of operations that keep the invariant and are undone by an error\<close>

section \<open>The loops over entries\<close>

definition ids_of :: "pool_item list \<Rightarrow> string list" where
  "ids_of items = filter (\<lambda>h. h \<noteq> []) (map item_id items)"

fun is_owned :: "pool_item \<Rightarrow> bool" where
  "is_owned (Owned n v) = True"
| "is_owned (Prim v) = False"

fun object_number :: "pool_item \<Rightarrow> nat" where
  "object_number (Owned n v) = n"
| "object_number (Prim v) = 0"

definition numbers_of :: "pool_item list \<Rightarrow> nat list" where
  "numbers_of items = map object_number (filter is_owned items)"

lemma ids_of_simps [simp]:
  "ids_of [] = []"
  "ids_of (item # items) = (if item_id item = [] then ids_of items else item_id item # ids_of items)"
  "ids_of (items @ items') = ids_of items @ ids_of items'"
  by (simp_all add: ids_of_def)

lemma numbers_of_simps [simp]:
  "numbers_of [] = []"
  "numbers_of (item # items) = (if is_owned item then object_number item # numbers_of items else numbers_of items)"
  "numbers_of (items @ items') = numbers_of items @ numbers_of items'"
  by (simp_all add: numbers_of_def)

lemma mset_ids_of: "mset (ids_of items) = filter_mset (\<lambda>h. h \<noteq> []) (image_mset item_id (mset items))"
  by (simp add: ids_of_def)

lemma mset_numbers_of: "mset (numbers_of items) = image_mset object_number (filter_mset is_owned (mset items))"
  by (simp add: numbers_of_def)

lemma addIdentities_eq [pool_simps]: "addIdentities items ids = ids \<union> set (ids_of items)"
  by (induction items arbitrary: ids) auto

lemma removeIdentities_eq [pool_simps]: "removeIdentities items ids = ids - set (ids_of items)"
  by (induction items arbitrary: ids) auto

lemma assertAddable_eq [pool_simps]:
  "assertAddable ids removedIds batch items =
    (if distinct (ids_of items) \<and> set (ids_of items) \<inter> ((ids - removedIds) \<union> batch) = {}
     then Inr () else Inl duplicateTransactionError)"
  by (induction items arbitrary: batch) (auto simp: Let_def)

lemma seenIdentities_eq [pool_simps]:
  "seenIdentities seen items =
    (if distinct (ids_of items) \<and> set (ids_of items) \<inter> seen = {}
     then Inr (seen \<union> set (ids_of items)) else Inl duplicateTransactionError)"
  by (induction items arbitrary: seen) (auto simp: Let_def)

lemma own_owned: "is_owned (ownCanonicalCompatItem n tx) \<Longrightarrow> object_number (ownCanonicalCompatItem n tx) = n"
  by (cases tx) (auto simp: Let_def split: if_splits)

lemma own_items_simps [simp]:
  "own_items n [] = []"
  "own_items n (tx # txs) = ownCanonicalCompatItem n tx # own_items (Suc n) txs"
  by (simp_all add: own_items_def)

lemma length_own_items [simp]: "length (own_items n txs) = length txs"
  by (simp add: own_items_def)

lemma numbers_of_own_items:
  "set (numbers_of (own_items n txs)) \<subseteq> {n ..< n + length txs} \<and> distinct (numbers_of (own_items n txs))"
proof (induction txs arbitrary: n)
  case (Cons tx txs)
  from Cons.IH [of "Suc n"] show ?case by (auto simp: own_owned)
qed simp

section \<open>The invariant\<close>

definition pool_ok :: "mempool \<Rightarrow> bool" where
  "pool_ok p \<longleftrightarrow>
     mp_ids p = set (ids_of (mp_queue p)) \<and> distinct (ids_of (mp_queue p)) \<and>
     distinct (numbers_of (mp_queue p)) \<and> (\<forall>n \<in> set (numbers_of (mp_queue p)). n < mp_fresh p) \<and>
     mset (mp_selected p) \<subseteq># mset (mp_queue p)"

lemma pool_ok_locked [simp]: "pool_ok (p\<lparr>mp_locked := b\<rparr>) = pool_ok p"
  by (simp add: pool_ok_def)

lemma pool_ok_new: "pool_ok new_mempool"
  by (simp add: pool_ok_def new_mempool_def)

lemma pool_ok_fresh: "pool_ok p \<Longrightarrow> mp_fresh p \<le> n \<Longrightarrow> pool_ok (p\<lparr>mp_fresh := n\<rparr>)"
  by (auto simp: pool_ok_def)

lemma pool_ok_permuted:
  assumes ok: "pool_ok p" and perm: "mset queue = mset (mp_queue p)"
  shows "pool_ok (p\<lparr>mp_queue := queue\<rparr>)"
proof -
  have "mset (ids_of queue) = mset (ids_of (mp_queue p))" "mset (numbers_of queue) = mset (numbers_of (mp_queue p))"
    by (simp_all add: mset_ids_of mset_numbers_of perm)
  then have "set (ids_of queue) = set (ids_of (mp_queue p))" "distinct (ids_of queue) = distinct (ids_of (mp_queue p))"
    "set (numbers_of queue) = set (numbers_of (mp_queue p))" "distinct (numbers_of queue) = distinct (numbers_of (mp_queue p))"
    by (auto dest: mset_eq_setD mset_eq_imp_distinct_iff)
  with ok perm show ?thesis by (simp add: pool_ok_def)
qed

text \<open>Entries that are not selected are replaced by new ones.\<close>

lemma unselected_stay:
  assumes "S \<subseteq># A + R" "\<forall>x \<in># R. x \<notin># S"
  shows "S \<subseteq># A"
proof (rule mset_subset_eqI)
  fix x
  from assms(1) have "count S x \<le> count A x + count R x" by (simp add: subseteq_mset_def)
  moreover from assms(2) have "count R x = 0 \<or> count S x = 0" by (metis not_in_iff)
  ultimately show "count S x \<le> count A x" by auto
qed

lemma pool_ok_replaced:
  assumes ok: "pool_ok p" and queue: "mp_queue p = A @ R @ B"
    and items: "items = own_items (mp_fresh p) newItems"
    and unselected: "set R \<inter> set (mp_selected p) = {}"
    and addable: "distinct (ids_of items)" "set (ids_of items) \<inter> (mp_ids p - set (ids_of R)) = {}"
  shows "pool_ok (p\<lparr>mp_fresh := mp_fresh p + length newItems, mp_queue := A @ items @ B,
    mp_ids := (mp_ids p - set (ids_of R)) \<union> set (ids_of items)\<rparr>)"
proof -
  have numbers: "set (numbers_of items) \<subseteq> {mp_fresh p ..< mp_fresh p + length newItems}" "distinct (numbers_of items)"
    using numbers_of_own_items [of "mp_fresh p" newItems] unfolding items by auto
  have selected: "mset (mp_selected p) \<subseteq># mset (A @ B)"
  proof (rule unselected_stay)
    show "mset (mp_selected p) \<subseteq># mset (A @ B) + mset R" using ok queue by (simp add: pool_ok_def ac_simps)
    show "\<forall>x \<in># mset R. x \<notin># mset (mp_selected p)" using unselected by auto
  qed
  have "mset (mp_selected p) \<subseteq># mset (A @ items @ B)"
    using selected by (rule subset_mset.order_trans) (simp add: ac_simps)
  moreover have "set (ids_of (A @ items @ B)) = (mp_ids p - set (ids_of R)) \<union> set (ids_of items)"
    "distinct (ids_of (A @ items @ B))"
    using ok queue addable by (auto simp: pool_ok_def)
  moreover have bound: "n < mp_fresh p" if "n \<in> set (numbers_of A) \<union> set (numbers_of B)" for n
    using ok queue that by (auto simp: pool_ok_def)
  then have "set (numbers_of items) \<inter> (set (numbers_of A) \<union> set (numbers_of B)) = {}"
    "\<forall>n \<in> set (numbers_of (A @ items @ B)). n < mp_fresh p + length newItems"
    using numbers(1) by fastforce+
  moreover have "distinct (numbers_of (A @ items @ B))"
    using ok queue numbers(2) calculation by (auto simp: pool_ok_def)
  ultimately show ?thesis by (simp add: pool_ok_def)
qed

section \<open>Operations that keep it\<close>

definition unchanged :: "mempool \<Rightarrow> mempool \<Rightarrow> bool" where
  "unchanged p p' \<longleftrightarrow> mp_queue p' = mp_queue p \<and> mp_ids p' = mp_ids p \<and> mp_selected p' = mp_selected p \<and>
     mp_locked p' = mp_locked p"

text \<open>The contract of a body of an operation.\<close>

definition good_body :: "'a pool_op \<Rightarrow> bool" where
  "good_body f \<longleftrightarrow> (\<forall>p. (pool_ok p \<longrightarrow> pool_ok (snd (f p))) \<and> mp_locked (snd (f p)) = mp_locked p \<and>
     (\<forall>e. fst (f p) = Inl e \<longrightarrow> unchanged p (snd (f p))))"

lemma good_bodyI:
  assumes "\<And>p. pool_ok p \<Longrightarrow> pool_ok (snd (f p))" "\<And>p. mp_locked (snd (f p)) = mp_locked p"
    "\<And>p e. fst (f p) = Inl e \<Longrightarrow> unchanged p (snd (f p))"
  shows "good_body f"
  using assms by (auto simp: good_body_def)

lemma unchanged_refl [simp]: "unchanged p p"
  by (simp add: unchanged_def)

lemma good_body_const [pool_good]: "good_body (\<lambda>p. (r p, p))"
  by (rule good_bodyI) simp_all

lemma good_body_if [pool_good]: "good_body f \<Longrightarrow> good_body g \<Longrightarrow> good_body (\<lambda>p. if b p then f p else g p)"
  unfolding good_body_def by simp

lemma good_body_map [pool_good]:
  assumes "\<And>e r. h r = Inl e \<Longrightarrow> \<exists>e'. r = Inl e'" "good_body f"
  shows "good_body (\<lambda>p. apfst h (f p))"
  using assms unfolding good_body_def by (metis fst_apfst snd_apfst)

lemma map_sum_Inl: "map_sum id g r = Inl e \<Longrightarrow> \<exists>e'. r = Inl e'"
  by (cases r) auto

lemma firstOf_Inl: "firstOf r = Inl e \<Longrightarrow> \<exists>e'. r = Inl e'"
  by (cases r) (auto simp: firstOf_def)

lemma withMutationEpoch_good [pool_good]:
  assumes "good_body f"
  shows "good_body (withMutationEpoch f)"
proof (rule good_bodyI)
  fix p :: mempool
  let ?q = "p\<lparr>mp_locked := True\<rparr>"
  note body = assms [unfolded good_body_def, rule_format, of ?q]
  show "pool_ok p \<Longrightarrow> pool_ok (snd (withMutationEpoch f p))" "mp_locked (snd (withMutationEpoch f p)) = mp_locked p"
    using body by (auto simp: withMutationEpoch_def split: prod.split)
  show "fst (withMutationEpoch f p) = Inl e \<Longrightarrow> unchanged p (snd (withMutationEpoch f p))" for e
    using body by (auto simp: withMutationEpoch_def unchanged_def split: prod.splits if_splits)
qed

lemma compatSpliceLocked_bounds:
  fixes len :: int
  assumes "0 \<le> len"
  shows "0 \<le> splice_start len arg0" "splice_start len arg0 \<le> len"
    "0 \<le> splice_count len (splice_start len arg0) arg1" "splice_start len arg0 + splice_count len (splice_start len arg0) arg1 \<le> len"
  using assms by (auto simp: splice_start_def splice_count_def Let_def split: option.split)

text \<open>What a splice does, with the queue cut in three.\<close>

lemma compatSpliceLocked_cut:
  obtains A R B where "mp_queue p = A @ R @ B"
    "int (length A) = splice_start (int (length (mp_queue p))) arg0"
    "int (length R) = splice_count (int (length (mp_queue p))) (splice_start (int (length (mp_queue p))) arg0)
      (splice_arg1 arg1 newItems)"
    "compatSpliceLocked arg0 arg1 newItems p =
      (let items = own_items (mp_fresh p) newItems; p1 = p\<lparr>mp_fresh := mp_fresh p + length newItems\<rparr> in
       if set R \<inter> set (mp_selected p) \<noteq> {} then (Inl VOID_MEMPOOL_SELECTED_MUTATION_FORBIDDEN, p1)
       else if distinct (ids_of items) \<and> set (ids_of items) \<inter> (mp_ids p - set (ids_of R)) = {}
       then (Inr R, p1\<lparr>mp_queue := A @ items @ B, mp_ids := (mp_ids p - set (ids_of R)) \<union> set (ids_of items)\<rparr>)
       else (Inl duplicateTransactionError, p1))"
proof -
  let ?len = "int (length (mp_queue p))"
  define s where "s = nat (splice_start ?len arg0)"
  define c where "c = nat (splice_count ?len (splice_start ?len arg0) (splice_arg1 arg1 newItems))"
  note bounds = compatSpliceLocked_bounds(1,2) [of ?len arg0, simplified]
    compatSpliceLocked_bounds(3,4) [of ?len arg0 "splice_arg1 arg1 newItems", simplified]
  have sc: "s + c \<le> length (mp_queue p)" using bounds unfolding s_def c_def by linarith
  let ?A = "take s (mp_queue p)" and ?R = "take c (drop s (mp_queue p))" and ?B = "drop (s + c) (mp_queue p)"
  have "mp_queue p = ?A @ ?R @ ?B" by (metis append_take_drop_id drop_drop add.commute)
  moreover have "int (length ?A) = splice_start ?len arg0" using sc bounds unfolding s_def by simp
  moreover have "int (length ?R) = splice_count ?len (splice_start ?len arg0) (splice_arg1 arg1 newItems)"
    using sc bounds unfolding s_def c_def by simp
  moreover have "selectedContainsAny p ?R \<longleftrightarrow> set ?R \<inter> set (mp_selected p) \<noteq> {}"
    unfolding selectedContainsAny_def list_ex_iff by blast
  ultimately show ?thesis
    by (intro that [of ?A ?R ?B]) (simp_all add: compatSpliceLocked_def Let_def pool_simps flip: s_def c_def)
qed

lemma compatSpliceLocked_good [pool_good]: "good_body (compatSpliceLocked arg0 arg1 newItems)"
proof (rule good_bodyI)
  fix p
  obtain A R B where cut: "mp_queue p = A @ R @ B" and
    run: "compatSpliceLocked arg0 arg1 newItems p =
      (let items = own_items (mp_fresh p) newItems; p1 = p\<lparr>mp_fresh := mp_fresh p + length newItems\<rparr> in
       if set R \<inter> set (mp_selected p) \<noteq> {} then (Inl VOID_MEMPOOL_SELECTED_MUTATION_FORBIDDEN, p1)
       else if distinct (ids_of items) \<and> set (ids_of items) \<inter> (mp_ids p - set (ids_of R)) = {}
       then (Inr R, p1\<lparr>mp_queue := A @ items @ B, mp_ids := (mp_ids p - set (ids_of R)) \<union> set (ids_of items)\<rparr>)
       else (Inl duplicateTransactionError, p1))"
    by (rule compatSpliceLocked_cut [of p arg0 arg1 newItems])
  show "pool_ok p \<Longrightarrow> pool_ok (snd (compatSpliceLocked arg0 arg1 newItems p))"
    using pool_ok_replaced [of p A R B _ newItems] cut by (simp add: run Let_def pool_ok_fresh)
  show "mp_locked (snd (compatSpliceLocked arg0 arg1 newItems p)) = mp_locked p" by (simp add: run Let_def)
  show "fst (compatSpliceLocked arg0 arg1 newItems p) = Inl e \<Longrightarrow> unchanged p (snd (compatSpliceLocked arg0 arg1 newItems p))" for e
    by (auto simp: run Let_def unchanged_def split: if_splits)
qed

lemma compatPushLocked_good [pool_good]: "good_body (compatPushLocked items)"
proof (rule good_bodyI)
  fix p
  show "pool_ok p \<Longrightarrow> pool_ok (snd (compatPushLocked items p))"
    using pool_ok_replaced [of p "mp_queue p" "[]" "[]" _ items] by (simp add: compatPushLocked_def Let_def pool_simps pool_ok_fresh)
  show "mp_locked (snd (compatPushLocked items p)) = mp_locked p" by (simp add: compatPushLocked_def Let_def pool_simps)
  show "fst (compatPushLocked items p) = Inl e \<Longrightarrow> unchanged p (snd (compatPushLocked items p))" for e
    by (auto simp: compatPushLocked_def Let_def pool_simps unchanged_def split: if_splits)
qed

lemma compatUnshiftLocked_good [pool_good]: "good_body (compatUnshiftLocked items)"
proof (rule good_bodyI)
  fix p
  show "pool_ok p \<Longrightarrow> pool_ok (snd (compatUnshiftLocked items p))"
    using pool_ok_replaced [of p "[]" "[]" "mp_queue p" _ items] by (simp add: compatUnshiftLocked_def Let_def pool_simps pool_ok_fresh)
  show "mp_locked (snd (compatUnshiftLocked items p)) = mp_locked p" by (simp add: compatUnshiftLocked_def Let_def pool_simps)
  show "fst (compatUnshiftLocked items p) = Inl e \<Longrightarrow> unchanged p (snd (compatUnshiftLocked items p))" for e
    by (auto simp: compatUnshiftLocked_def Let_def pool_simps unchanged_def split: if_splits)
qed

lemma mset_insert_by [simp]: "mset (insert_by cmp x ys) = add_mset x (mset ys)"
  by (induction ys) auto

lemma mset_js_sort: "mset (js_sort compareFn items) = mset items"
proof -
  have "mset (foldr (insert_by cmp) xs []) = mset xs" for cmp xs by (induction xs) auto
  then show ?thesis by (simp add: js_sort_def flip: mset_filter) (simp add: multiset_partition [symmetric])
qed

lemma permute_good [pool_good]:
  assumes "\<And>p. mset (h p) = mset (mp_queue p)"
  shows "good_body (\<lambda>p. (Inr r, p\<lparr>mp_queue := h p\<rparr>))"
  by (rule good_bodyI) (simp_all add: pool_ok_permuted assms)

section \<open>Committing a selection\<close>

lemma nths_cong_below: "(\<And>i. i < length xs \<Longrightarrow> i \<in> A \<longleftrightarrow> i \<in> B) \<Longrightarrow> nths xs A = nths xs B"
proof (induction xs arbitrary: A B)
  case (Cons x xs)
  have "nths xs {j. Suc j \<in> A} = nths xs {j. Suc j \<in> B}" by (rule Cons.IH) (simp add: Cons.prems)
  with Cons.prems [of 0] show ?case by (simp add: nths_Cons)
qed simp

lemma nths_split_at:
  assumes "i < length xs"
  shows "nths xs A = nths (take i xs) A @ (if i \<in> A then [xs ! i] else []) @ nths (drop (Suc i) xs) {j. j + Suc i \<in> A}"
proof -
  have "nths xs A = nths (take i xs @ xs ! i # drop (Suc i) xs) A" using id_take_nth_drop [OF assms] by simp
  with assms show ?thesis by (simp add: nths_append nths_Cons min_absorb2)
qed

lemma nths_remove_at:
  assumes "i < length xs" "i \<in> A"
  shows "nths xs (A - {i}) = nths (take i xs) A @ nths (drop (Suc i) xs) {j. j + Suc i \<in> A}"
proof -
  have "nths (take i xs) (A - {i}) = nths (take i xs) A" by (rule nths_cong_below) auto
  moreover have "{j. j + Suc i \<in> A - {i}} = {j. j + Suc i \<in> A}" by auto
  ultimately show ?thesis using nths_split_at [OF assms(1), of "A - {i}"] by simp
qed

text \<open>The first unused place of an entry, and the queue without it.\<close>

lemma find_unused:
  assumes "x \<in> set (nths queue (- used))" "x \<noteq> Prim (JFrac ''NaN'')"
  obtains i where "find (\<lambda>i. i \<notin> used \<and> strict_eq (queue ! i) x) [0..<length queue] = Some i"
    "i < length queue" "i \<notin> used" "queue ! i = x" "nths queue (- insert i used) = remove1 x (nths queue (- used))"
proof -
  let ?P = "\<lambda>i. i \<notin> used \<and> strict_eq (queue ! i) x"
  from assms obtain j where "j < length queue" "?P j" by (auto simp: set_nths strict_eq_def)
  then have "find ?P [0..<length queue] \<noteq> None" unfolding find_None_iff by force
  then obtain i where found: "find ?P [0..<length queue] = Some i" by auto
  then have i: "i < length queue" "?P i" and least: "\<And>j. j < i \<Longrightarrow> \<not> ?P j"
    unfolding find_Some_iff by auto
  then have x: "queue ! i = x" by (simp add: strict_eq_def)
  have before: "x \<notin> set (nths (take i queue) (- used))"
    using least assms(2) i(1) by (auto simp: set_nths strict_eq_def)
  have "- insert i used = - used - {i}" by auto
  with i x before have "nths queue (- insert i used) = remove1 x (nths queue (- used))"
    by (simp add: nths_remove_at nths_split_at [of i queue "- used"] remove1_append)
  with found i x show ?thesis by (intro that) auto
qed

lemma locateSelected_finds:
  assumes "mset xs \<subseteq># mset (nths queue (- used))" "Prim (JFrac ''NaN'') \<notin> set xs"
  shows "\<exists>indexes. locateSelected queue used xs = Inr indexes \<and> map ((!) queue) indexes = xs \<and> distinct indexes \<and>
    set indexes \<subseteq> {..<length queue} - used \<and> nths queue (- (used \<union> set indexes)) = fold remove1 xs (nths queue (- used))"
  using assms
proof (induction xs arbitrary: used)
  case (Cons x xs)
  from Cons.prems have "x \<in> set (nths queue (- used))" "x \<noteq> Prim (JFrac ''NaN'')"
    by (auto simp: insert_subset_eq_iff)
  then obtain i where i: "find (\<lambda>i. i \<notin> used \<and> strict_eq (queue ! i) x) [0..<length queue] = Some i"
    "i < length queue" "i \<notin> used" "queue ! i = x" "nths queue (- insert i used) = remove1 x (nths queue (- used))"
    by (rule find_unused)
  with Cons.prems have "mset xs \<subseteq># mset (nths queue (- insert i used))"
    by (simp add: insert_subset_eq_iff)
  with Cons.prems(2) obtain indexes where rest: "locateSelected queue (insert i used) xs = Inr indexes"
    "map ((!) queue) indexes = xs" "distinct indexes" "set indexes \<subseteq> {..<length queue} - insert i used"
    "nths queue (- (insert i used \<union> set indexes)) = fold remove1 xs (nths queue (- insert i used))"
    using Cons.IH [of "insert i used"] by auto
  then show ?case using i by (intro exI [of _ "i # indexes"]) auto
qed simp

lemma locateSelected_NaN:
  "Prim (JFrac ''NaN'') \<in> set xs \<Longrightarrow> locateSelected queue used xs = Inl ''mempool_selected_entry_missing''"
proof (induction xs arbitrary: used)
  case (Cons x xs)
  show ?case
  proof (cases "x = Prim (JFrac ''NaN'')")
    case True
    then have "find (\<lambda>i. i \<notin> used \<and> strict_eq (queue ! i) x) [0..<length queue] = None"
      by (auto simp: find_None_iff strict_eq_def)
    then show ?thesis by simp
  next
    case False
    with Cons show ?thesis by (auto split: option.split)
  qed
qed simp

lemma nths_below_cut:
  assumes "i < length xs" "\<forall>j \<in> S. j < i"
  shows "nths (take i xs @ drop (Suc i) xs) (- S) = nths xs (- insert i S)"
proof -
  have "{j. j + i \<in> - S} = UNIV" "{j. j + Suc i \<in> - S} = UNIV" using assms(2) by fastforce+
  moreover have "- insert i S = - S - {i}" "i \<in> - S" using assms(2) by auto
  ultimately show ?thesis using assms(1) by (simp add: nths_append nths_remove_at nths_all)
qed

lemma removeIndexes_eq:
  assumes "sorted_wrt (>) indexes" "\<forall>i \<in> set indexes. i < length queue"
  shows "removeIndexes queue removed indexes = (nths queue (- set indexes), removed @ map ((!) queue) indexes)"
  using assms
proof (induction indexes arbitrary: queue removed)
  case (Cons i indexes)
  let ?rest = "take i queue @ drop (Suc i) queue"
  have below: "\<forall>j \<in> set indexes. j < i" "i < length queue" using Cons.prems by auto
  then have "removeIndexes ?rest (removed @ [queue ! i]) indexes =
      (nths ?rest (- set indexes), (removed @ [queue ! i]) @ map ((!) ?rest) indexes)"
    using Cons.prems by (intro Cons.IH) auto
  moreover have "take 1 (drop i queue) = [queue ! i]" using below(2) by (simp add: take_Suc_conv_app_nth flip: Cons_nth_drop_Suc)
  moreover have "map ((!) ?rest) indexes = map ((!) queue) indexes" using below by (auto simp: nth_append)
  moreover have "nths ?rest (- set indexes) = nths queue (- set (i # indexes))"
    using nths_below_cut [OF below(2,1)] by simp
  ultimately show ?case by simp
qed (simp add: nths_all)

lemma fold_remove1_mset: "mset (fold remove1 xs ys) = mset ys - mset xs"
  by (induction xs arbitrary: ys) (auto simp: diff_diff_add_mset)

text \<open>The selected entries leave the queue, in one step.\<close>

lemma commitSelection_runs:
  assumes ok: "pool_ok p" and nan: "Prim (JFrac ''NaN'') \<notin> set (mp_selected p)" and unlocked: "\<not> mp_locked p"
  shows "commitSelection p = (Inr (mp_selected p),
    p\<lparr>mp_selected := [], mp_queue := fold remove1 (mp_selected p) (mp_queue p), mp_ids := mp_ids p - set (ids_of (mp_selected p))\<rparr>)"
proof -
  have "mset (mp_selected p) \<subseteq># mset (nths (mp_queue p) (- {}))" using ok by (simp add: pool_ok_def nths_all)
  from locateSelected_finds [OF this nan] obtain indexes where
    found: "locateSelected (mp_queue p) {} (mp_selected p) = Inr indexes" "map ((!) (mp_queue p)) indexes = mp_selected p"
      "distinct indexes" "set indexes \<subseteq> {..<length (mp_queue p)}"
      "nths (mp_queue p) (- set indexes) = fold remove1 (mp_selected p) (mp_queue p)"
    by (auto simp: nths_all)
  let ?down = "rev (sort indexes)"
  have down: "sorted_wrt (>) ?down" using found(3) by (simp add: sorted_wrt_rev strict_sorted_iff)
  have "set (ids_of (map ((!) (mp_queue p)) ?down)) = set (ids_of (map ((!) (mp_queue p)) indexes))"
    by (auto simp: ids_of_def)
  then have ids: "set (ids_of (map ((!) (mp_queue p)) ?down)) = set (ids_of (mp_selected p))" by (simp add: found(2))
  have "\<forall>i \<in> set ?down. i < length (mp_queue p)" using found(4) by auto
  from removeIndexes_eq [OF down this, of "[]"]
  have "removeIndexes (mp_queue p) [] ?down = (fold remove1 (mp_selected p) (mp_queue p), map ((!) (mp_queue p)) ?down)"
    by (simp add: found(5))
  with found(1) ids show ?thesis
    using unlocked by (auto simp: commitSelection_def withMutationEpoch_def removeIdentities_eq)
qed

lemma commitSelection_NaN:
  assumes "Prim (JFrac ''NaN'') \<in> set (mp_selected p)" "\<not> mp_locked p"
  shows "commitSelection p = (Inl ''mempool_selected_entry_missing'', p)"
  using assms by (auto simp: commitSelection_def withMutationEpoch_def locateSelected_NaN)

lemma pool_ok_committed:
  assumes ok: "pool_ok p"
  shows "pool_ok (p\<lparr>mp_selected := [], mp_queue := fold remove1 (mp_selected p) (mp_queue p),
    mp_ids := mp_ids p - set (ids_of (mp_selected p))\<rparr>)"
proof -
  let ?rest = "fold remove1 (mp_selected p) (mp_queue p)"
  have "mset (?rest @ mp_selected p) = mset (mp_queue p)"
    using ok by (simp add: fold_remove1_mset pool_ok_def subset_mset.diff_add)
  from pool_ok_permuted [OF ok this] show ?thesis by (auto simp: pool_ok_def)
qed

end
