(* ===== verification/Mempool_Properties.thy ===== *)
theory Mempool_Properties
  imports Mempool_Invariant
begin

text \<open>
  The pending queue as its clients see it: the contract of every call, the contract of a selection
  between its begin and its end, and the properties of the pool.
\<close>

section \<open>Every call\<close>

lemma setTxsLocked_good [pool_good]: "good_body (setTxsLocked txs)"
proof (rule good_bodyI)
  fix p :: mempool
  show "pool_ok p \<Longrightarrow> pool_ok (snd (setTxsLocked txs p))"
    using pool_ok_replaced [of p "[]" "mp_queue p" "[]" _ "elems_of txs"]
    by (auto simp: setTxsLocked_def Let_def pool_simps pool_ok_fresh) (auto simp: pool_ok_def)
  show "mp_locked (snd (setTxsLocked txs p)) = mp_locked p" by (simp add: setTxsLocked_def Let_def pool_simps)
  show "fst (setTxsLocked txs p) = Inl e \<Longrightarrow> unchanged p (snd (setTxsLocked txs p))" for e
    by (auto simp: setTxsLocked_def Let_def pool_simps unchanged_def split: if_splits)
qed

lemma set_txs_good: "good_body (set_txs txs)"
  using withMutationEpoch_good [OF setTxsLocked_good]
  by (cases txs) (auto simp: set_txs_def good_body_def)

lemma good_body_splice [pool_good]: "good_body (\<lambda>p. compatSpliceLocked (a p) (b p) [] p)"
  using compatSpliceLocked_good unfolding good_body_def by blast

lemma mempool_push_good: "good_body (mempool_push tx)"
  unfolding mempool_push_def [abs_def] Let_def
  by (intro pool_good) (erule map_sum_Inl)

lemma setCompatLength_good: "good_body (setCompatLength n)"
  unfolding setCompatLength_def Let_def
  by (cases n) (auto intro!: pool_good dest: map_sum_Inl)

lemma drain_good: "good_body (drain n)"
  unfolding drain_def by (intro pool_good)

lemma beginSelection_good: "good_body (beginSelection n)"
proof -
  have select: "good_body (\<lambda>p. (Inr (h p), p\<lparr>mp_selected := h p\<rparr>))" if front: "\<And>p. \<exists>n. h p = take n (mp_queue p)" for h
  proof (rule good_bodyI)
    fix p :: mempool
    obtain n where "h p = take n (mp_queue p)" using front by blast
    moreover have "mset (take n (mp_queue p)) \<subseteq># mset (mp_queue p)"
      by (metis append_take_drop_id mset_append mset_subset_eq_add_left)
    ultimately show "pool_ok p \<Longrightarrow> pool_ok (snd (Inr (h p), p\<lparr>mp_selected := h p\<rparr>))" by (simp add: pool_ok_def)
  qed simp_all
  show ?thesis unfolding beginSelection_def Let_def by (intro pool_good select) blast
qed

lemma rollbackSelection_good: "good_body rollbackSelection"
  unfolding rollbackSelection_def
  by (intro pool_good good_bodyI) (simp_all add: pool_ok_def)

lemma commitSelection_good: "good_body commitSelection"
proof (rule good_bodyI)
  fix p :: mempool
  show "pool_ok p \<Longrightarrow> pool_ok (snd (commitSelection p))"
    using commitSelection_runs [of p] commitSelection_NaN [of p] pool_ok_committed [of p]
    by (cases "mp_locked p"; cases "Prim (JFrac ''NaN'') \<in> set (mp_selected p)")
      (simp_all add: commitSelection_def withMutationEpoch_def)
  show "mp_locked (snd (commitSelection p)) = mp_locked p"
    by (auto simp: commitSelection_def withMutationEpoch_def split: sum.split prod.split)
  show "fst (commitSelection p) = Inl e \<Longrightarrow> unchanged p (snd (commitSelection p))" for e
    by (auto simp: commitSelection_def withMutationEpoch_def unchanged_def split: sum.splits prod.splits if_splits)
qed

lemma trap_good: "good_body (indexTrap prop)" "good_body (defineTrap prop)" "good_body fillTrap"
  unfolding indexTrap_def [abs_def] defineTrap_def [abs_def] fillTrap_def [abs_def]
  by (intro pool_good)+

lemma perform_good: "good_body (perform c)"
proof -
  have returns: "good_body (\<lambda>p. returns h (f p))" if "good_body f" for f :: "'a pool_op" and h
    using that by (intro good_body_map) (erule map_sum_Inl)
  have "good_body (compatPush xs)" "good_body (compatUnshift xs)" "good_body (compatSplice a b xs)" "good_body compatPop"
    "good_body compatShift" "good_body (compatSort cmp)" "good_body compatReverse" for xs a b cmp
    unfolding compatPush_def compatUnshift_def compatSplice_def compatPop_def compatShift_def compatSort_def compatReverse_def
    by (intro pool_good; (erule firstOf_Inl | simp add: mset_js_sort)?)+
  moreover have "good_body mempool_clear"
    unfolding mempool_clear_def by (intro pool_good) (erule map_sum_Inl)
  ultimately show ?thesis
    by (cases c) (simp_all add: returns perform.simps [abs_def] trap_good set_txs_good mempool_push_good setCompatLength_good drain_good
        popMany_def mempool_take_def beginSelection_good commitSelection_good rollbackSelection_good)
qed

section \<open>A selection between its begin and its end\<close>

text \<open>
  What the producer of blocks relies on: only an end of the selection changes it, and selected entries
  are pending.
\<close>

locale selection_protocol =
  fixes step :: "'c \<Rightarrow> 'p \<Rightarrow> 'p" and pending :: "'p \<Rightarrow> 'i multiset" and selection :: "'p \<Rightarrow> 'i list"
    and ok :: "'p \<Rightarrow> bool" and ends :: "'c \<Rightarrow> bool"
  assumes ok_step: "ok p \<Longrightarrow> ok (step c p)"
    and selection_pending: "ok p \<Longrightarrow> mset (selection p) \<subseteq># pending p"
    and selection_step: "ok p \<Longrightarrow> selection p \<noteq> [] \<Longrightarrow> \<not> ends c \<Longrightarrow> selection (step c p) = selection p"
begin

lemma ok_steps: "ok p \<Longrightarrow> ok (fold step cs p)"
  by (induction cs arbitrary: p) (simp_all add: ok_step)

lemma selection_steps:
  "ok p \<Longrightarrow> selection p \<noteq> [] \<Longrightarrow> list_all (\<lambda>c. \<not> ends c) cs \<Longrightarrow> selection (fold step cs p) = selection p"
  by (induction cs arbitrary: p) (simp_all add: ok_step selection_step)

lemma selection_stays_pending:
  "ok p \<Longrightarrow> selection p \<noteq> [] \<Longrightarrow> list_all (\<lambda>c. \<not> ends c) cs \<Longrightarrow> mset (selection p) \<subseteq># pending (fold step cs p)"
  using selection_pending [OF ok_steps] selection_steps by metis

end

fun ends_selection :: "pool_call \<Rightarrow> bool" where
  "ends_selection PoolCommit = True"
| "ends_selection PoolRollback = True"
| "ends_selection _ = False"

definition keeps_selection :: "'a pool_op \<Rightarrow> bool" where
  "keeps_selection f \<longleftrightarrow> (\<forall>p. mp_selected p \<noteq> [] \<longrightarrow> mp_selected (snd (f p)) = mp_selected p)"

lemma keeps_selection_rules:
  "keeps_selection (\<lambda>p. (r p, p))"
  "keeps_selection f \<Longrightarrow> keeps_selection (\<lambda>p. apfst h (f p))"
  "keeps_selection f \<Longrightarrow> keeps_selection g \<Longrightarrow> keeps_selection (\<lambda>p. if b p then f p else g p)"
  "keeps_selection (\<lambda>p. (r p, p\<lparr>mp_queue := q p\<rparr>))"
  by (simp_all add: keeps_selection_def)

lemma keeps_selection_locked:
  assumes "keeps_selection f"
  shows "keeps_selection (withMutationEpoch f)"
  unfolding keeps_selection_def
proof (intro allI impI)
  fix p :: mempool
  assume "mp_selected p \<noteq> []"
  with assms [unfolded keeps_selection_def, rule_format, of "p\<lparr>mp_locked := True\<rparr>"]
  show "mp_selected (snd (withMutationEpoch f p)) = mp_selected p"
    by (auto simp: withMutationEpoch_def split: prod.split)
qed

lemma keeps_selection_bodies:
  "keeps_selection (\<lambda>p. compatSpliceLocked (a p) (b p) xs p)"
  "keeps_selection (compatPushLocked xs)" "keeps_selection (compatUnshiftLocked xs)" "keeps_selection (setTxsLocked txs)"
  by (auto simp: keeps_selection_def compatSpliceLocked_def compatPushLocked_def compatUnshiftLocked_def setTxsLocked_def Let_def
      split: sum.split)

lemmas keeps_selection_intros = keeps_selection_rules keeps_selection_locked keeps_selection_bodies

lemma keeps_selection_operations:
  "keeps_selection (compatPush xs)" "keeps_selection (compatUnshift xs)" "keeps_selection (compatSplice a b xs)"
  "keeps_selection compatPop" "keeps_selection compatShift" "keeps_selection (compatSort cmp)" "keeps_selection compatReverse"
  "keeps_selection mempool_clear" "keeps_selection (drain n)" "keeps_selection (mempool_push tx)"
  unfolding compatPush_def compatUnshift_def compatSplice_def compatPop_def compatShift_def compatSort_def compatReverse_def
    mempool_clear_def drain_def mempool_push_def [abs_def] Let_def
  by (intro keeps_selection_intros)+

lemma keeps_selection_others:
  "keeps_selection (setCompatLength n)" "keeps_selection (set_txs txs)" "keeps_selection (beginSelection k)"
proof -
  show "keeps_selection (setCompatLength n)"
    unfolding setCompatLength_def Let_def by (cases n) (auto intro!: keeps_selection_intros)
  show "keeps_selection (set_txs txs)"
    using keeps_selection_locked [OF keeps_selection_bodies(4)] by (cases txs) (auto simp: set_txs_def keeps_selection_def)
  show "keeps_selection (beginSelection k)"
    by (auto simp: keeps_selection_def beginSelection_def withMutationEpoch_def)
qed

lemma perform_keeps_selection: "\<not> ends_selection c \<Longrightarrow> keeps_selection (perform c)"
  using keeps_selection_rules(1)
  by (cases c) (auto simp: perform.simps [abs_def] popMany_def mempool_take_def indexTrap_def [abs_def] defineTrap_def [abs_def]
      fillTrap_def [abs_def] intro!: keeps_selection_operations keeps_selection_others keeps_selection_rules)

interpretation pool: selection_protocol "\<lambda>c p. snd (perform c p)" "\<lambda>p. mset (mp_queue p)" mp_selected pool_ok ends_selection
proof
  fix c p
  show "pool_ok p \<Longrightarrow> pool_ok (snd (perform c p))" using perform_good by (auto simp: good_body_def)
  show "pool_ok p \<Longrightarrow> mset (mp_selected p) \<subseteq># mset (mp_queue p)" by (simp add: pool_ok_def)
  show "pool_ok p \<Longrightarrow> mp_selected p \<noteq> [] \<Longrightarrow> \<not> ends_selection c \<Longrightarrow> mp_selected (snd (perform c p)) = mp_selected p"
    using perform_keeps_selection by (auto simp: keeps_selection_def)
qed

lemma performs_ok: "pool_ok p \<Longrightarrow> pool_ok (performs cs p)"
  unfolding performs_def by (rule pool.ok_steps)

lemma performs_locked: "mp_locked (performs cs p) = mp_locked p"
  unfolding performs_def using perform_good by (induction cs arbitrary: p) (auto simp: good_body_def)

lemma reached_ok: "pool_ok (performs cs new_mempool)" "\<not> mp_locked (performs cs new_mempool)"
  by (simp_all add: performs_ok performs_locked pool_ok_new) (simp add: new_mempool_def)

section \<open>Properties\<close>

text \<open>
  C39. The index never disagrees with the queue. After any sequence of calls of the pool and of its
  array-like surface, whether they return or throw, the index of canonical hashes holds exactly the
  hashes of the pending entries, no hash is pending twice, no object is, and the selected entries are
  pending, each as often as it was selected.
\<close>

theorem mempool_invariant:
  "let p = performs cs new_mempool in
    mp_ids p = set (ids_of (mp_queue p)) \<and> distinct (ids_of (mp_queue p)) \<and>
    distinct (numbers_of (mp_queue p)) \<and> list_all (\<lambda>n. n < mp_fresh p) (numbers_of (mp_queue p)) \<and>
    mset (mp_selected p) \<subseteq># mset (mp_queue p) \<and> \<not> mp_locked p"
  using reached_ok [of cs] by (auto simp: Let_def pool_ok_def list_all_iff)

lemma locked_unchanged: "mp_locked p \<Longrightarrow> unchanged p (snd (perform c p))"
  by (cases c) (auto simp: compatPush_def compatUnshift_def compatSplice_def compatPop_def compatShift_def compatSort_def
      compatReverse_def setCompatLength_def fillTrap_def indexTrap_def defineTrap_def set_txs_def mempool_push_def mempool_clear_def
      drain_def popMany_def mempool_take_def beginSelection_def commitSelection_def rollbackSelection_def withMutationEpoch_def
      split: option.split)

text \<open>
  C26. An error changes nothing. A call that throws leaves queue, index, selection and lock as they were,
  from whatever pool it starts; and while the pool is locked, as it is while a comparison function runs,
  no call changes anything.
\<close>

theorem mempool_errors_change_nothing:
  "(case perform c p of (Inl e, p') \<Rightarrow> unchanged p p' | (Inr v, p') \<Rightarrow> mp_locked p' = mp_locked p) \<and>
   unchanged (p\<lparr>mp_locked := True\<rparr>) (snd (perform c (p\<lparr>mp_locked := True\<rparr>)))"
  using perform_good [of c] locked_unchanged [of "p\<lparr>mp_locked := True\<rparr>" c]
  by (auto simp: good_body_def split: prod.split sum.split) (metis fst_conv snd_conv)+

text \<open>
  C38. A selection is reserved until it ends. What \<^verbatim>\<open>beginSelection\<close> returns is the front of the queue;
  whatever is called before the selection is committed or rolled back, the same entries stay selected
  and pending. A rollback leaves the queue alone, and a commit returns the selected entries and removes
  exactly one occurrence of each, the others keeping their order, together with their hashes. Only a
  selection with \<^verbatim>\<open>NaN\<close> among its entries can never be committed, because \<^verbatim>\<open>===\<close> does not find it.
\<close>

theorem selection_is_reserved:
  assumes begins: "beginSelection max0 (performs before new_mempool) = (Inr batch, p1)" and some: "batch \<noteq> []"
    and between: "list_all (\<lambda>c. \<not> ends_selection c) cs"
  shows "batch = take (length batch) (mp_queue (performs before new_mempool)) \<and>
    (let p2 = performs cs p1 in
      mp_selected p2 = batch \<and> mset batch \<subseteq># mset (mp_queue p2) \<and>
      rollbackSelection p2 = (Inr batch, p2\<lparr>mp_selected := []\<rparr>) \<and>
      commitSelection p2 =
        (if Prim (JFrac ''NaN'') \<in> set batch then (Inl ''mempool_selected_entry_missing'', p2)
         else (Inr batch, p2\<lparr>mp_selected := [], mp_queue := fold remove1 batch (mp_queue p2),
                mp_ids := mp_ids p2 - set (ids_of batch)\<rparr>)))"
proof -
  let ?p0 = "performs before new_mempool" and ?p2 = "performs cs p1"
  have p1: "pool_ok p1" "\<not> mp_locked p1"
    using beginSelection_good [of max0] reached_ok [of before] begins unfolding good_body_def by (metis snd_conv)+
  have start: "batch = take (length batch) (mp_queue ?p0)" "mp_selected p1 = batch"
    using begins by (auto simp: beginSelection_def withMutationEpoch_def Let_def split: if_splits)
  have p2: "pool_ok ?p2" "\<not> mp_locked ?p2" using p1 by (simp_all add: performs_ok performs_locked)
  have selected: "mp_selected ?p2 = batch" "mset batch \<subseteq># mset (mp_queue ?p2)"
    using pool.selection_steps [OF p1(1) _ between] pool.selection_stays_pending [OF p1(1) _ between] some start(2)
    by (simp_all add: performs_def)
  moreover have "rollbackSelection ?p2 = (Inr batch, ?p2\<lparr>mp_selected := []\<rparr>)"
    using p2(2) selected(1) by (simp add: rollbackSelection_def withMutationEpoch_def)
  ultimately show ?thesis
    using start(1) commitSelection_runs [OF p2(1) _ p2(2)] commitSelection_NaN [OF _ p2(2)] by (simp add: Let_def)
qed

text \<open>A queue with one transaction and a text, of which the transaction is selected while others come and go.\<close>

definition mx_hash :: string where
  "mx_hash = replicate 64 CHR ''a''"

definition mx_tx :: jsv where
  "mx_tx = JObj [(''hash'', JStr (''0x'' @ mx_hash)), (''fee'', JNum 1)]"

definition mx_item :: pool_item where
  "mx_item = Owned 0 (JObj [(''fee'', JNum 1), (''hash'', JStr (''0x'' @ mx_hash))])"

lemma mx_begin:
  "beginSelection (Some (NumInt 1)) (performs [CallPush [mx_tx, JStr ''x'']] new_mempool) =
    (Inr [mx_item], \<lparr> mp_queue = [mx_item, Prim (JStr ''x'')], mp_ids = {mx_hash}, mp_selected = [mx_item],
      mp_locked = False, mp_fresh = 2 \<rparr>)"
  by code_simp

theorem selection_is_reserved_witness:
  "let p2 = performs [CallUnshift [JStr ''y''], CallPop, PoolClear, PoolDrain None]
      (snd (beginSelection (Some (NumInt 1)) (performs [CallPush [mx_tx, JStr ''x'']] new_mempool)))
   in mp_selected p2 = [mx_item] \<and> fst (commitSelection p2) = Inr [mx_item]"
proof -
  have "list_all (\<lambda>c. \<not> ends_selection c) [CallUnshift [JStr ''y''], CallPop, PoolClear, PoolDrain None]" by simp
  from selection_is_reserved [OF mx_begin _ this]
  have "mp_selected p2 = [mx_item] \<and> commitSelection p2 =
      (if Prim (JFrac ''NaN'') \<in> set [mx_item] then (Inl ''mempool_selected_entry_missing'', p2)
       else (Inr [mx_item], p2\<lparr>mp_selected := [], mp_queue := fold remove1 [mx_item] (mp_queue p2),
              mp_ids := mp_ids p2 - set (ids_of [mx_item])\<rparr>))"
    if "p2 = performs [CallUnshift [JStr ''y''], CallPop, PoolClear, PoolDrain None]
      (snd (beginSelection (Some (NumInt 1)) (performs [CallPush [mx_tx, JStr ''x'']] new_mempool)))" for p2
    unfolding that mx_begin snd_conv Let_def by blast
  then show ?thesis by (simp add: Let_def mx_item_def)
qed

lemma snapshot_same: "snapshotCanonicalPayload v = v"
  by (induction v rule: snapshotCanonicalPayload.induct) (auto intro!: map_idI)

lemma comparable_canonical:
  assumes hex: "hex_n 64 h" and get: "jget ''hash'' v = JStr h"
  shows "canonicalHashObservationOf v = (h, JStr h)" "comparableCanonicalHashOf v = h"
proof -
  have chars: "\<forall>c \<in> set h. is_lower_hex c" and h: "h \<noteq> []" using hex by (auto simp: hex_n_def list_all_iff)
  have "js_trim h = h" "js_lower h = h"
    using chars by (auto intro!: js_trim_id map_idI simp: list_all_iff no_space js_lower_def)
  moreover have "take 2 h \<noteq> ''0x''"
  proof
    assume "take 2 h = ''0x''"
    then have "CHR ''x'' \<in> set (take 2 h)" by simp
    then have "CHR ''x'' \<in> set h" by (rule in_set_takeD)
    moreover have "\<not> is_lower_hex CHR ''x''" by (simp add: is_lower_hex_def)
    ultimately show False using chars by blast
  qed
  ultimately show observation: "canonicalHashObservationOf v = (h, JStr h)"
    using hex h by (simp add: canonicalHashObservationOf_def get Let_def js_truthy_def strip_0x_def)
  show "comparableCanonicalHashOf v = h"
    by (simp add: comparableCanonicalHashOf_def canonicalIdentitySnapshotOf_def observation h)
qed

lemma count_id:
  assumes "h \<noteq> []" "distinct (ids_of items)"
  shows "length (filter (\<lambda>item. item_id item = h) items) = (if h \<in> set (ids_of items) then 1 else 0)"
  using assms(2)
proof (induction items)
  case (Cons item items)
  then show ?case using assms(1) by (cases "item_id item = h") (auto split: if_splits)
qed simp

lemma mempool_push_runs:
  assumes object: "is_obj tx" and hash: "strictCanonicalHashOf tx = h" "h \<noteq> []"
    and body: "body = (if jget ''body'' tx = JUndef \<or> jget ''body'' tx = JNull then JObj [] else jget ''body'' tx)"
    and unlocked: "\<not> mp_locked p"
  shows "mempool_push tx p =
      (if h \<in> mp_ids p then (Inl duplicateTransactionError, p\<lparr>mp_fresh := Suc (mp_fresh p)\<rparr>)
       else (Inr (), p\<lparr>mp_fresh := Suc (mp_fresh p),
         mp_queue := mp_queue p @ [Owned (mp_fresh p) (JObj [(''body'', body), (''hash'', JStr h)])], mp_ids := insert h (mp_ids p)\<rparr>))"
    and "comparableCanonicalHashOf (JObj [(''body'', body), (''hash'', JStr h)]) = h"
proof -
  have hex: "hex_n 64 h" using hash by (auto simp: strictCanonicalHashOf_def Let_def split: if_splits)
  have observed: "canonicalHashObservationOf (JObj [(''hash'', JStr h), (''body'', body)]) = (h, JStr h)"
    by (rule comparable_canonical [OF hex]) simp
  show id: "comparableCanonicalHashOf (JObj [(''body'', body), (''hash'', JStr h)]) = h"
    by (rule comparable_canonical [OF hex]) simp
  show "mempool_push tx p =
      (if h \<in> mp_ids p then (Inl duplicateTransactionError, p\<lparr>mp_fresh := Suc (mp_fresh p)\<rparr>)
       else (Inr (), p\<lparr>mp_fresh := Suc (mp_fresh p),
         mp_queue := mp_queue p @ [Owned (mp_fresh p) (JObj [(''body'', body), (''hash'', JStr h)])], mp_ids := insert h (mp_ids p)\<rparr>))"
    using object hash unlocked
    by (cases p) (simp add: mempool_push_def withMutationEpoch_def compatPushLocked_def observed id snapshot_same pool_simps flip: body)
qed

text \<open>
  C35. A transaction is pending exactly once. Whatever was called before, a push of an object with a
  canonical hash makes it the last entry, with its hash and body, if no pending entry has that hash in
  any spelling, and otherwise throws the duplicate error and changes nothing; afterwards exactly one
  entry has the hash.
\<close>

theorem pushed_exactly_once:
  assumes object: "is_obj tx" and hash: "strictCanonicalHashOf tx = h" "h \<noteq> []"
    and body: "body = (if jget ''body'' tx = JUndef \<or> jget ''body'' tx = JNull then JObj [] else jget ''body'' tx)"
  shows "let p = performs cs new_mempool; item = Owned (mp_fresh p) (JObj [(''body'', body), (''hash'', JStr h)]) in
    case mempool_push tx p of (r, p') \<Rightarrow>
      (if list_ex (\<lambda>item. item_id item = h) (mp_queue p) then r = Inl duplicateTransactionError \<and> unchanged p p'
       else r = Inr () \<and> mp_queue p' = mp_queue p @ [item] \<and> mp_selected p' = mp_selected p) \<and>
      length (filter (\<lambda>item. item_id item = h) (mp_queue p')) = 1"
proof -
  let ?p = "performs cs new_mempool"
  note ok = reached_ok [of cs]
  note push = mempool_push_runs [OF object hash body ok(2)]
  have pending: "list_ex (\<lambda>item. item_id item = h) (mp_queue ?p) \<longleftrightarrow> h \<in> mp_ids ?p"
    using ok(1) hash(2) by (auto simp: pool_ok_def ids_of_def list_ex_iff)
  have ids: "h \<in> mp_ids ?p \<longleftrightarrow> h \<in> set (ids_of (mp_queue ?p))" "distinct (ids_of (mp_queue ?p))"
    using ok(1) by (simp_all add: pool_ok_def)
  show ?thesis
    unfolding Let_def push(1) pending by (simp add: unchanged_def push(2) count_id [OF hash(2) ids(2)] ids(1))
qed

theorem pushed_exactly_once_witness:
  "fst (mempool_push (JObj [(''hash'', JStr mx_hash)]) (performs [CallPush [mx_tx]] new_mempool)) = Inl duplicateTransactionError"
proof -
  have "strictCanonicalHashOf (JObj [(''hash'', JStr mx_hash)]) = mx_hash" "mx_hash \<noteq> []" by code_simp+
  moreover have "list_ex (\<lambda>item. item_id item = mx_hash) (mp_queue (performs [CallPush [mx_tx]] new_mempool))" by code_simp
  ultimately show ?thesis
    using pushed_exactly_once [of "JObj [(''hash'', JStr mx_hash)]" mx_hash "JObj []" "[CallPush [mx_tx]]"]
    by (auto simp: Let_def split: prod.splits)
qed

end
