(* ===== verification/Inventory.thy ===== *)
theory Inventory
  imports Sha256
begin

text \<open>
  The journal of inventory reservations,
  \<^verbatim>\<open>src/economic/buy_void_inventory_reservation_journal_v1.ts\<close>: a paid claim reserves VOID units of a
  pool of fixed capacity, under a lock of the pool; a claim that no longer fits is recorded as an
  obligation.

  \<^item> Intent and policy are values (\<open>jsv\<close>). A file holds the value that reading it back returns
    (\<open>json_copy\<close>); a directory lists its files by the identifier in the name. Temporary files, which
    the listing skips, and paths are not represented: the store below one root is a function from pool
    keys to directories.
  \<^item> Every call of the file system is a step that may succeed, throw before or after its effect, or be
    the last of a process that dies before or after it (\<open>inv_fault\<close>).
  \<^item> The digest is a parameter \<open>H\<close>; \<^verbatim>\<open>Date.now()\<close> is an argument.
\<close>

section \<open>Values\<close>

definition VOID_BUY_VOID_INVENTORY_RESERVATION_JOURNAL_V1 :: string where
  "VOID_BUY_VOID_INVENTORY_RESERVATION_JOURNAL_V1 = ''VOID_BUY_VOID_INVENTORY_RESERVATION_JOURNAL_V1''"

definition VOID_BUY_VOID_PAID_UNRESERVABLE_OBLIGATION_V1 :: string where
  "VOID_BUY_VOID_PAID_UNRESERVABLE_OBLIGATION_V1 = ''VOID_BUY_VOID_PAID_UNRESERVABLE_OBLIGATION_V1''"

definition VOID_BUY_VOID_FULFILLMENT_JOURNAL_V1 :: string where
  "VOID_BUY_VOID_FULFILLMENT_JOURNAL_V1 = ''VOID_BUY_VOID_FULFILLMENT_JOURNAL_V1''"

text \<open>\<^verbatim>\<open>/^[A-Za-z0-9._:-]{1,160}$/\<close>\<close>

definition SAFE_CODE :: "string \<Rightarrow> bool" where
  "SAFE_CODE s \<longleftrightarrow> 1 \<le> slen s \<and> slen s \<le> 160 \<and> list_all (\<lambda>c. is_alnum c \<or> c \<in> set ''._:-'') s"

text \<open>\<^verbatim>\<open>String(value || "")\<close>, an element in \<^verbatim>\<open>join\<close>, and \<^verbatim>\<open>===\<close> between values of different origin.\<close>

definition string_or_empty :: "jsv \<Rightarrow> string" where
  "string_or_empty v = (if js_truthy v then js_String v else [])"

definition join_part :: "jsv \<Rightarrow> string" where
  "join_part v = (if v = JUndef \<or> v = JNull then [] else js_String v)"

definition js_same :: "jsv \<Rightarrow> jsv \<Rightarrow> bool" where
  "js_same a b \<longleftrightarrow> a = b \<and> \<not> is_obj a \<and> \<not> is_arr a \<and> a \<noteq> JFrac ''NaN''"

text \<open>\<^verbatim>\<open>JSON.parse(JSON.stringify(value))\<close>\<close>

fun json_copy :: "jsv \<Rightarrow> jsv" where
  "json_copy (JFrac s) = (if s \<in> set [''NaN'', ''Infinity'', ''-Infinity''] then JNull else JFrac s)"
| "json_copy (JArr xs) = JArr (map (\<lambda>x. if x = JUndef then JNull else json_copy x) xs)"
| "json_copy (JObj kvs) = JObj (map (\<lambda>(k, v). (k, json_copy v)) (filter (\<lambda>(k, v). v \<noteq> JUndef) kvs))"
| "json_copy v = v"

definition nl :: char where
  "nl = CHR 0x0A"

definition stableFingerprint :: "(string \<Rightarrow> string) \<Rightarrow> (string \<times> string) list \<Rightarrow> string" where
  "stableFingerprint H parts = H (join_with nl (map (\<lambda>(k, v). k @ ''='' @ v) (sort_key fst parts)))"

text \<open>A missing time, or one that is not a positive safe integer, is \<^verbatim>\<open>Date.now()\<close>.\<close>

definition safeNow :: "int \<Rightarrow> int option \<Rightarrow> int" where
  "safeNow date_now now_ms =
     (case now_ms of None \<Rightarrow> date_now | Some n \<Rightarrow> if isSafeInteger (JNum n) \<and> 0 < n then n else date_now)"

definition digits_of :: "jsv \<Rightarrow> string" where
  "digits_of v = js_trim (if v = JUndef \<or> v = JNull then [] else js_String v)"

definition parsePositiveInteger :: "jsv \<Rightarrow> int option" where
  "parsePositiveInteger v =
     (case v of
       JNum i \<Rightarrow> if isSafeInteger v \<and> 0 < i then Some i else None
     | JFrac s \<Rightarrow> None
     | _ \<Rightarrow>
         let raw = digits_of v in
         if raw = [] \<or> \<not> list_all is_digit raw then None
         else if 0 < dec_val raw then Some (dec_val raw) else None)"

definition parseNonNegativeInteger :: "jsv \<Rightarrow> int option" where
  "parseNonNegativeInteger v =
     (case v of
       JNum i \<Rightarrow> if isSafeInteger v \<and> 0 \<le> i then Some i else None
     | JFrac s \<Rightarrow> None
     | _ \<Rightarrow>
         let raw = digits_of v in
         if raw = [] \<or> \<not> list_all is_digit raw then None
         else if 0 \<le> dec_val raw then Some (dec_val raw) else None)"

definition validateRoot :: "jsv \<Rightarrow> unit res" where
  "validateRoot rootDir =
     (let raw = js_trim (string_or_empty rootDir) in
      if raw = [] \<or> CHR 0x00 \<in> set raw then Inl ''invalid_inventory_journal_root'' else Inr ())"

definition normalizeDeliveryAddress :: "jsv \<Rightarrow> string" where
  "normalizeDeliveryAddress v =
     (let address = js_lower (js_trim (string_or_empty v)) in if prefix_hex ''0x'' 40 address then address else [])"

section \<open>Intent and policy\<close>

text \<open>The amount of a valid intent and its fingerprint.\<close>

definition intent_fingerprint :: "(string \<Rightarrow> string) \<Rightarrow> jsv \<Rightarrow> int \<Rightarrow> string" where
  "intent_fingerprint H intent amount =
     (let claim = jget ''claim'' intent in
      stableFingerprint H
        [(''marker'', string_or_empty (jget ''marker'' intent)),
         (''payment_key_sha256'', string_or_empty (jget ''payment_key_sha256'' intent)),
         (''request_key_sha256'', string_or_empty (jget ''request_key_sha256'' intent)),
         (''canonical_payment_identity'', string_or_empty (jget ''canonical_payment_identity'' claim)),
         (''request_id'', string_or_empty (jget ''request_id'' claim)),
         (''instruction_id'', string_or_empty (jget ''instruction_id'' claim)),
         (''delivery_address'', js_lower (string_or_empty (jpath [''unsigned_instruction'', ''delivery_address''] claim))),
         (''void_amount_units'', int_str amount)])"

definition validateFulfillmentIntent :: "(string \<Rightarrow> string) \<Rightarrow> jsv \<Rightarrow> (int \<times> string) res" where
  "validateFulfillmentIntent H intent =
     (let claim = jget ''claim'' intent in
      if \<not> (is_obj intent \<or> is_arr intent) then Inl ''missing_fulfillment_intent''
      else if jget ''marker'' intent \<noteq> JStr VOID_BUY_VOID_FULFILLMENT_JOURNAL_V1 then Inl ''wrong_fulfillment_journal_marker''
      else if jget ''status'' claim \<noteq> JStr ''claimed'' then Inl ''fulfillment_intent_not_claimed''
      else if jget ''signing_authorized'' intent \<noteq> JBool False then Inl ''intent_signing_authority_present''
      else if jget ''transaction_broadcast_authorized'' intent \<noteq> JBool False then Inl ''intent_broadcast_authority_present''
      else if jget ''money_movement_authorized'' intent \<noteq> JBool False then Inl ''intent_money_movement_authority_present''
      else if \<not> hex_n 64 (string_or_empty (jget ''payment_key_sha256'' intent)) then Inl ''invalid_payment_key''
      else if \<not> hex_n 64 (string_or_empty (jget ''request_key_sha256'' intent)) then Inl ''invalid_request_key''
      else if \<not> SAFE_CODE (string_or_empty (jget ''request_id'' claim)) then Inl ''invalid_request_id''
      else if \<not> SAFE_CODE (string_or_empty (jget ''instruction_id'' claim)) then Inl ''invalid_instruction_id''
      else if js_trim (string_or_empty (jget ''canonical_payment_identity'' claim)) = [] then Inl ''missing_canonical_payment_identity''
      else if normalizeDeliveryAddress (jpath [''unsigned_instruction'', ''delivery_address''] claim) = [] then Inl ''invalid_delivery_address''
      else case parsePositiveInteger (jpath [''unsigned_instruction'', ''void_amount_units''] claim) of
        None \<Rightarrow> Inl ''invalid_void_amount''
      | Some amount \<Rightarrow> Inr (amount, intent_fingerprint H intent amount))"

record inventory_policy =
  iv_pool_id :: string
  iv_version :: string
  iv_capacity :: int
  iv_max :: int
  iv_pool_key :: string
  iv_fingerprint :: string

definition poolKey :: "(string \<Rightarrow> string) \<Rightarrow> string \<Rightarrow> string" where
  "poolKey H poolId = H (''void-buy-inventory-pool-v1'' @ nl # poolId)"

definition normalizeInventoryPolicy :: "(string \<Rightarrow> string) \<Rightarrow> jsv \<Rightarrow> inventory_policy res" where
  "normalizeInventoryPolicy H policy =
     (if \<not> js_truthy policy \<or> jget ''inventory_reservation_enabled'' policy \<noteq> JBool True
      then Inl ''inventory_reservation_disabled''
      else
        let poolId = js_trim (string_or_empty (jget ''pool_id'' policy));
            policyVersion = js_trim (string_or_empty (jget ''inventory_policy_version'' policy)) in
        if \<not> SAFE_CODE poolId then Inl ''invalid_inventory_pool_id''
        else if \<not> SAFE_CODE policyVersion then Inl ''invalid_inventory_policy_version''
        else case parsePositiveInteger (jget ''pool_capacity_void_units'' policy) of
          None \<Rightarrow> Inl ''invalid_inventory_capacity''
        | Some capacity \<Rightarrow>
            (case parsePositiveInteger (jget ''max_reservation_void_units'' policy) of
              None \<Rightarrow> Inl ''invalid_inventory_reservation_cap''
            | Some maximum \<Rightarrow>
                if capacity < maximum then Inl ''invalid_inventory_reservation_cap''
                else Inr \<lparr> iv_pool_id = poolId, iv_version = policyVersion, iv_capacity = capacity, iv_max = maximum,
                  iv_pool_key = poolKey H poolId,
                  iv_fingerprint = stableFingerprint H
                    [(''pool_id'', poolId), (''inventory_policy_version'', policyVersion),
                     (''pool_capacity_void_units'', int_str capacity), (''max_reservation_void_units'', int_str maximum)] \<rparr>))"

text \<open>The directory of a pool, by its key.\<close>

definition journalPoolKey :: "(string \<Rightarrow> string) \<Rightarrow> jsv \<Rightarrow> jsv \<Rightarrow> string res" where
  "journalPoolKey H rootDir poolId =
     bnd (validateRoot rootDir) (\<lambda>_.
       if \<not> SAFE_CODE (js_trim (string_or_empty poolId)) then Inl ''invalid_inventory_pool_id''
       else Inr (poolKey H (js_trim (js_String poolId))))"

section \<open>Records\<close>

definition idFor :: "(string \<Rightarrow> string) \<Rightarrow> string list \<Rightarrow> string" where
  "idFor H parts = H (join_with nl parts)"

definition reservationIdFor :: "(string \<Rightarrow> string) \<Rightarrow> inventory_policy \<Rightarrow> jsv \<Rightarrow> string" where
  "reservationIdFor H policy intent =
     idFor H [''void-buy-inventory-reservation-v1'', iv_pool_key policy, join_part (jget ''payment_key_sha256'' intent),
       join_part (jpath [''claim'', ''instruction_id''] intent)]"

definition obligationIdFor :: "(string \<Rightarrow> string) \<Rightarrow> inventory_policy \<Rightarrow> jsv \<Rightarrow> string" where
  "obligationIdFor H policy intent =
     idFor H [''void-buy-paid-unreservable-obligation-v1'', iv_pool_key policy, join_part (jget ''payment_key_sha256'' intent),
       join_part (jget ''request_key_sha256'' intent), join_part (jpath [''claim'', ''instruction_id''] intent)]"

definition parseReservation :: "(string \<Rightarrow> string) \<Rightarrow> jsv \<Rightarrow> jsv res" where
  "parseReservation H raw =
     (let reservationId = string_or_empty (jget ''reservation_id'' raw);
          poolId = string_or_empty (jget ''pool_id'' raw);
          paymentKey = string_or_empty (jget ''payment_key_sha256'' raw);
          instructionId = string_or_empty (jget ''instruction_id'' raw);
          capacity = parsePositiveInteger (jget ''pool_capacity_void_units'' raw);
          committedBefore = parseNonNegativeInteger (jget ''committed_before_void_units'' raw);
          reserved = parsePositiveInteger (jget ''reserved_void_units'' raw);
          committedAfter = parsePositiveInteger (jget ''committed_after_void_units'' raw);
          availableAfter = parseNonNegativeInteger (jget ''available_after_void_units'' raw);
          expectedReservationId =
            (if SAFE_CODE poolId \<and> hex_n 64 paymentKey \<and> SAFE_CODE instructionId
             then idFor H [''void-buy-inventory-reservation-v1'', poolKey H poolId, paymentKey, instructionId] else [])
      in
      if jget ''schema'' raw \<noteq> JStr ''void_buy_void_inventory_reservation_v1''
        \<or> jget ''marker'' raw \<noteq> JStr VOID_BUY_VOID_INVENTORY_RESERVATION_JOURNAL_V1
        \<or> \<not> hex_n 64 reservationId \<or> reservationId \<noteq> expectedReservationId
        \<or> \<not> SAFE_CODE poolId \<or> \<not> SAFE_CODE (string_or_empty (jget ''inventory_policy_version'' raw))
        \<or> capacity = None \<or> committedBefore = None \<or> reserved = None \<or> committedAfter = None \<or> availableAfter = None
        \<or> the committedBefore + the reserved \<noteq> the committedAfter \<or> the capacity < the committedAfter
        \<or> the capacity - the committedAfter \<noteq> the availableAfter
        \<or> \<not> isSafeInteger (jget ''reserved_at_ms'' raw) \<or> num_of (jget ''reserved_at_ms'' raw) \<le> 0
        \<or> \<not> hex_n 64 paymentKey \<or> \<not> hex_n 64 (string_or_empty (jget ''request_key_sha256'' raw))
        \<or> js_trim (string_or_empty (jget ''canonical_payment_identity'' raw)) = []
        \<or> \<not> SAFE_CODE (string_or_empty (jget ''request_id'' raw)) \<or> \<not> SAFE_CODE instructionId
        \<or> normalizeDeliveryAddress (jget ''delivery_address'' raw) = []
        \<or> \<not> hex_n 64 (string_or_empty (jget ''intent_fingerprint'' raw))
        \<or> jget ''reservation_status'' raw \<noteq> JStr ''reserved''
        \<or> list_ex (\<lambda>k. jget k raw \<noteq> JBool False)
            [''inventory_decrement_performed'', ''reservation_release_authorized'', ''execution_authorized_by_this_module'',
             ''signing_authorized_by_this_module'', ''transaction_broadcast_authorized_by_this_module'',
             ''money_movement_authorized_by_this_module'']
      then Inl ''invalid_inventory_reservation_record'' else Inr raw)"

definition parsePaidUnreservableObligation :: "(string \<Rightarrow> string) \<Rightarrow> jsv \<Rightarrow> jsv res" where
  "parsePaidUnreservableObligation H raw =
     (let poolId = string_or_empty (jget ''pool_id'' raw);
          paymentKey = string_or_empty (jget ''payment_key_sha256'' raw);
          requestKey = string_or_empty (jget ''request_key_sha256'' raw);
          instructionId = string_or_empty (jget ''instruction_id'' raw);
          expectedObligationId =
            (if SAFE_CODE poolId \<and> hex_n 64 paymentKey \<and> hex_n 64 requestKey \<and> SAFE_CODE instructionId
             then idFor H [''void-buy-paid-unreservable-obligation-v1'', poolKey H poolId, paymentKey, requestKey, instructionId]
             else [])
      in
      if jget ''schema'' raw \<noteq> JStr ''void_buy_void_paid_unreservable_obligation_v1''
        \<or> jget ''marker'' raw \<noteq> JStr VOID_BUY_VOID_PAID_UNRESERVABLE_OBLIGATION_V1
        \<or> string_or_empty (jget ''obligation_id'' raw) \<noteq> expectedObligationId
        \<or> \<not> isSafeInteger (jget ''recorded_at_ms'' raw) \<or> num_of (jget ''recorded_at_ms'' raw) \<le> 0
        \<or> jget ''terminal_state'' raw \<noteq> JStr ''operator_reconciliation_required''
        \<or> string_or_empty (jget ''reservation_failure_reason'' raw) \<notin> set [''inventory_sold_out'', ''insufficient_void_inventory'']
        \<or> \<not> SAFE_CODE poolId \<or> \<not> SAFE_CODE (string_or_empty (jget ''inventory_policy_version'' raw))
        \<or> parsePositiveInteger (jget ''pool_capacity_void_units'' raw) = None
        \<or> \<not> hex_n 64 (string_or_empty (jget ''inventory_policy_fingerprint_sha256'' raw))
        \<or> parseNonNegativeInteger (jget ''available_void_units'' raw) = None
        \<or> parsePositiveInteger (jget ''requested_void_units'' raw) = None
        \<or> \<not> SAFE_CODE (string_or_empty (jget ''source_chain'' raw))
        \<or> \<not> prefix_hex ''0x'' 64 (string_or_empty (jget ''payment_transaction_hash'' raw))
        \<or> parseNonNegativeInteger (jget ''payment_log_index'' raw) = None
        \<or> parsePositiveInteger (jget ''confirmed_block_number'' raw) = None
        \<or> parsePositiveInteger (jget ''confirmation_count_at_claim'' raw) = None
        \<or> parsePositiveInteger (jget ''payment_usdc_units'' raw) = None
        \<or> \<not> hex_n 64 paymentKey \<or> \<not> hex_n 64 requestKey
        \<or> js_trim (string_or_empty (jget ''canonical_payment_identity'' raw)) = []
        \<or> \<not> SAFE_CODE (string_or_empty (jget ''request_id'' raw)) \<or> \<not> SAFE_CODE instructionId
        \<or> normalizeDeliveryAddress (jget ''delivery_address'' raw) = []
        \<or> jget ''customer_payment_confirmed'' raw \<noteq> JBool True
        \<or> list_ex (\<lambda>k. jget k raw \<noteq> JBool False)
            [''reservation_created'', ''automatic_retry'', ''refund_execution_authorized'',
             ''alternate_fulfillment_execution_authorized'', ''wallet_access_authorized'', ''signing_authorized'',
             ''transaction_broadcast_authorized'', ''money_movement_authorized'']
      then Inl ''invalid_paid_unreservable_obligation_record'' else Inr raw)"

type_synonym record_files = "(string \<times> jsv) list"

text \<open>Listing a directory: what is not an object is skipped, the rest is parsed and sorted.\<close>

definition listRecords :: "(jsv \<Rightarrow> jsv res) \<Rightarrow> string \<Rightarrow> record_files \<Rightarrow> jsv list res" where
  "listRecords parse key files =
     bnd (mapM (\<lambda>(name, raw). parse raw) (filter (\<lambda>(name, raw). is_obj raw \<or> is_arr raw) (sort_key fst files)))
       (\<lambda>output. Inr (sort_key (\<lambda>r. str_of (jget key r)) output))"

definition listReservations :: "(string \<Rightarrow> string) \<Rightarrow> record_files \<Rightarrow> jsv list res" where
  "listReservations H = listRecords (parseReservation H) ''reservation_id''"

definition listObligations :: "(string \<Rightarrow> string) \<Rightarrow> record_files \<Rightarrow> jsv list res" where
  "listObligations H = listRecords (parsePaidUnreservableObligation H) ''obligation_id''"

section \<open>The pool\<close>

record inventory_aggregate =
  ag_pool_id :: string
  ag_version :: string
  ag_capacity :: string
  ag_committed :: string
  ag_available :: string
  ag_count :: int
  ag_sold_out :: bool

text \<open>\<^verbatim>\<open>BigInt(reservation.reserved_void_units)\<close> of a parsed reservation.\<close>

definition reserved_units :: "jsv \<Rightarrow> int" where
  "reserved_units r = (case parsePositiveInteger (jget ''reserved_void_units'' r) of None \<Rightarrow> 0 | Some n \<Rightarrow> n)"

definition matches_policy :: "inventory_policy \<Rightarrow> jsv \<Rightarrow> bool" where
  "matches_policy policy r \<longleftrightarrow>
     jget ''pool_id'' r = JStr (iv_pool_id policy) \<and> jget ''inventory_policy_version'' r = JStr (iv_version policy) \<and>
     jget ''pool_capacity_void_units'' r = JStr (int_str (iv_capacity policy))"

definition aggregateFor :: "inventory_policy \<Rightarrow> jsv list \<Rightarrow> inventory_aggregate res" where
  "aggregateFor policy reservations =
     bnd (foldM (\<lambda>committed r. if \<not> matches_policy policy r then Inl ''inventory_policy_changed''
                               else Inr (committed + reserved_units r)) 0 reservations) (\<lambda>committed.
       if iv_capacity policy < committed then Inl ''inventory_underflow''
       else Inr \<lparr> ag_pool_id = iv_pool_id policy, ag_version = iv_version policy, ag_capacity = int_str (iv_capacity policy),
         ag_committed = int_str committed, ag_available = int_str (iv_capacity policy - committed),
         ag_count = int (length reservations), ag_sold_out = (iv_capacity policy - committed = 0) \<rparr>)"

record inventory_evaluation =
  ev_duplicate :: bool
  ev_reservation :: jsv
  ev_before :: inventory_aggregate
  ev_after :: inventory_aggregate

definition same_reservation :: "jsv \<Rightarrow> int \<Rightarrow> string \<Rightarrow> jsv \<Rightarrow> bool" where
  "same_reservation intent amount fingerprint r \<longleftrightarrow>
     (let claim = jget ''claim'' intent in
      js_same (jget ''payment_key_sha256'' r) (jget ''payment_key_sha256'' intent) \<and>
      js_same (jget ''request_key_sha256'' r) (jget ''request_key_sha256'' intent) \<and>
      js_same (jget ''canonical_payment_identity'' r) (jget ''canonical_payment_identity'' claim) \<and>
      js_same (jget ''request_id'' r) (jget ''request_id'' claim) \<and>
      js_same (jget ''instruction_id'' r) (jget ''instruction_id'' claim) \<and>
      jget ''delivery_address'' r = JStr (js_lower (js_String (jpath [''unsigned_instruction'', ''delivery_address''] claim))) \<and>
      jget ''reserved_void_units'' r = JStr (int_str amount) \<and> jget ''intent_fingerprint'' r = JStr fingerprint)"

definition claim_conflict :: "jsv \<Rightarrow> jsv \<Rightarrow> bool" where
  "claim_conflict intent r \<longleftrightarrow>
     (let claim = jget ''claim'' intent in
      js_same (jget ''payment_key_sha256'' r) (jget ''payment_key_sha256'' intent) \<or>
      js_same (jget ''request_key_sha256'' r) (jget ''request_key_sha256'' intent) \<or>
      js_same (jget ''canonical_payment_identity'' r) (jget ''canonical_payment_identity'' claim) \<or>
      js_same (jget ''request_id'' r) (jget ''request_id'' claim) \<or>
      js_same (jget ''instruction_id'' r) (jget ''instruction_id'' claim))"

definition reservationRecord :: "(string \<Rightarrow> string) \<Rightarrow> jsv \<Rightarrow> int \<Rightarrow> string \<Rightarrow> inventory_policy \<Rightarrow> int \<Rightarrow> int \<Rightarrow> jsv" where
  "reservationRecord H intent amount fingerprint policy committedBefore nowMs =
     (let claim = jget ''claim'' intent in
      JObj
       [(''schema'', JStr ''void_buy_void_inventory_reservation_v1''),
        (''marker'', JStr VOID_BUY_VOID_INVENTORY_RESERVATION_JOURNAL_V1),
        (''reservation_id'', JStr (reservationIdFor H policy intent)),
        (''reserved_at_ms'', JNum nowMs),
        (''pool_id'', JStr (iv_pool_id policy)),
        (''inventory_policy_version'', JStr (iv_version policy)),
        (''pool_capacity_void_units'', JStr (int_str (iv_capacity policy))),
        (''committed_before_void_units'', JStr (int_str committedBefore)),
        (''reserved_void_units'', JStr (int_str amount)),
        (''committed_after_void_units'', JStr (int_str (committedBefore + amount))),
        (''available_after_void_units'', JStr (int_str (iv_capacity policy - (committedBefore + amount)))),
        (''payment_key_sha256'', jget ''payment_key_sha256'' intent),
        (''request_key_sha256'', jget ''request_key_sha256'' intent),
        (''canonical_payment_identity'', jget ''canonical_payment_identity'' claim),
        (''request_id'', jget ''request_id'' claim),
        (''instruction_id'', jget ''instruction_id'' claim),
        (''delivery_address'', JStr (js_lower (js_String (jpath [''unsigned_instruction'', ''delivery_address''] claim)))),
        (''intent_fingerprint'', JStr fingerprint),
        (''reservation_status'', JStr ''reserved''),
        (''inventory_decrement_performed'', JBool False),
        (''reservation_release_authorized'', JBool False),
        (''execution_authorized_by_this_module'', JBool False),
        (''signing_authorized_by_this_module'', JBool False),
        (''transaction_broadcast_authorized_by_this_module'', JBool False),
        (''money_movement_authorized_by_this_module'', JBool False)])"

text \<open>The error of an evaluation is a reason with its detail.\<close>

definition evaluateReservation ::
  "(string \<Rightarrow> string) \<Rightarrow> jsv \<Rightarrow> int \<Rightarrow> string \<Rightarrow> inventory_policy \<Rightarrow> jsv list \<Rightarrow> int \<Rightarrow> (string \<times> jsv) + inventory_evaluation" where
  "evaluateReservation H intent amount fingerprint policy reservations nowMs =
     (case aggregateFor policy reservations of
       Inl e \<Rightarrow> Inl (e, JUndef)
     | Inr aggregateBefore \<Rightarrow>
         (case find (\<lambda>r. jget ''reservation_id'' r = JStr (reservationIdFor H policy intent)) reservations of
           Some sameId \<Rightarrow>
             if \<not> same_reservation intent amount fingerprint sameId then Inl (''inventory_reservation_identity_conflict'', JUndef)
             else Inr \<lparr> ev_duplicate = True, ev_reservation = sameId, ev_before = aggregateBefore, ev_after = aggregateBefore \<rparr>
         | None \<Rightarrow>
             (case find (claim_conflict intent) reservations of
               Some conflict \<Rightarrow>
                 Inl (''inventory_reservation_claim_conflict'', JObj [(''existing_reservation_id'', jget ''reservation_id'' conflict)])
             | None \<Rightarrow>
                 if iv_max policy < amount
                 then Inl (''inventory_reservation_amount_exceeds_policy'',
                   JObj [(''requested_void_units'', JStr (int_str amount)), (''max_reservation_void_units'', JStr (int_str (iv_max policy)))])
                 else
                   let committedBefore = dec_val (ag_committed aggregateBefore);
                       committedAfter = committedBefore + amount;
                       availableAfter = iv_capacity policy - committedAfter in
                   if iv_capacity policy < committedAfter
                   then Inl (if ag_sold_out aggregateBefore then ''inventory_sold_out'' else ''insufficient_void_inventory'',
                     JObj [(''requested_void_units'', JStr (int_str amount)), (''available_void_units'', JStr (ag_available aggregateBefore))])
                   else Inr \<lparr> ev_duplicate = False,
                     ev_reservation = reservationRecord H intent amount fingerprint policy committedBefore nowMs,
                     ev_before = aggregateBefore,
                     ev_after = aggregateBefore\<lparr> ag_committed := int_str committedAfter, ag_available := int_str availableAfter,
                       ag_count := ag_count aggregateBefore + 1, ag_sold_out := (availableAfter = 0) \<rparr> \<rparr>)))"

end
