(* ===== verification/Inventory_Journal.thy ===== *)
theory Inventory_Journal
  imports Inventory
begin

text \<open>
  The directory of a pool and the reservation of inventory in it: the lock, the file that is created
  once, the obligation of a claim that does not fit, and \<^verbatim>\<open>reserveBuyVoidInventoryV1\<close>.
\<close>

section \<open>Steps on a pool's directory\<close>

record pool_dir =
  pd_reservations :: record_files
  pd_holds :: record_files
  pd_locked :: bool

definition empty_pool_dir :: pool_dir where
  "empty_pool_dir = \<lparr> pd_reservations = [], pd_holds = [], pd_locked = False \<rparr>"

text \<open>
  The calls of the file system, in the order of the code. A step that only prepares (creating a
  directory, syncing it, writing the temporary file) has no effect of its own here. One call of the
  module creates at most one file, so that the steps of \<^verbatim>\<open>atomicCreateJson\<close> are named once.
\<close>

datatype inv_step = MakePoolDir | MakeLock | WriteOwner | MakeDirs | ListFiles | PrepareFile | LinkFile | SyncLink
  | ReadBack | ListAgain | SyncAgain | RemoveLock

datatype inv_fault = Fine | FailsBefore string | FailsAfter string | DiesBefore | DiesAfter

type_synonym inv_faults = "inv_step \<Rightarrow> inv_fault"

datatype 'a outcome = Done 'a | Thrown string | Dead

type_synonym 'a inv_op = "pool_dir \<Rightarrow> 'a outcome \<times> pool_dir"

definition inv_at :: "inv_faults \<Rightarrow> inv_step \<Rightarrow> (pool_dir \<Rightarrow> 'a \<times> pool_dir) \<Rightarrow> 'a inv_op" where
  "inv_at F s f d =
     (case F s of
       Fine \<Rightarrow> (Done (fst (f d)), snd (f d))
     | FailsBefore e \<Rightarrow> (Thrown e, d)
     | FailsAfter e \<Rightarrow> (Thrown e, snd (f d))
     | DiesBefore \<Rightarrow> (Dead, d)
     | DiesAfter \<Rightarrow> (Dead, snd (f d)))"

definition inv_return :: "'a \<Rightarrow> 'a inv_op" where
  "inv_return x d = (Done x, d)"

definition inv_bind :: "'a inv_op \<Rightarrow> ('a \<Rightarrow> 'b inv_op) \<Rightarrow> 'b inv_op" where
  "inv_bind m k d =
     (case m d of (Done x, d') \<Rightarrow> k x d' | (Thrown e, d') \<Rightarrow> (Thrown e, d') | (Dead, d') \<Rightarrow> (Dead, d'))"

text \<open>\<^verbatim>\<open>try ... catch\<close>: the handler gets the message.\<close>

definition inv_catch :: "'a inv_op \<Rightarrow> (string \<Rightarrow> 'a) \<Rightarrow> 'a inv_op" where
  "inv_catch m h d = (case m d of (Thrown e, d') \<Rightarrow> (Done (h e), d') | r \<Rightarrow> r)"

text \<open>Code that throws without touching a file.\<close>

definition inv_lift :: "'a res \<Rightarrow> 'a inv_op" where
  "inv_lift r d = (case r of Inl e \<Rightarrow> (Thrown e, d) | Inr x \<Rightarrow> (Done x, d))"

definition inv_sync :: "inv_faults \<Rightarrow> inv_step \<Rightarrow> unit inv_op" where
  "inv_sync F s = inv_at F s (\<lambda>d. ((), d))"

section \<open>Lock and files\<close>

text \<open>\<^verbatim>\<open>Some reason\<close> when the lock is taken.\<close>

definition acquirePoolLock :: "inv_faults \<Rightarrow> string option inv_op" where
  "acquirePoolLock F =
     inv_bind (inv_sync F MakePoolDir) (\<lambda>_.
     inv_bind (inv_at F MakeLock (\<lambda>d. if pd_locked d then (False, d) else (True, d\<lparr>pd_locked := True\<rparr>))) (\<lambda>created.
       if \<not> created then inv_return (Some ''inventory_reservation_busy'')
       else inv_bind (inv_sync F WriteOwner) (\<lambda>_. inv_return None)))"

definition releasePoolLock :: "inv_faults \<Rightarrow> unit inv_op" where
  "releasePoolLock F = inv_catch (inv_at F RemoveLock (\<lambda>d. ((), d\<lparr>pd_locked := False\<rparr>))) (\<lambda>_. ())"

datatype create_result = CreatedDurable | Exists | PublicationDurabilityUncertain

datatype inv_dir = Reservations | Holds

fun files_in :: "inv_dir \<Rightarrow> pool_dir \<Rightarrow> record_files" where
  "files_in Reservations d = pd_reservations d"
| "files_in Holds d = pd_holds d"

fun add_file :: "inv_dir \<Rightarrow> string \<Rightarrow> jsv \<Rightarrow> pool_dir \<Rightarrow> pool_dir" where
  "add_file Reservations n v d = d\<lparr>pd_reservations := pd_reservations d @ [(n, v)]\<rparr>"
| "add_file Holds n v d = d\<lparr>pd_holds := pd_holds d @ [(n, v)]\<rparr>"

definition link_file :: "inv_dir \<Rightarrow> string \<Rightarrow> jsv \<Rightarrow> pool_dir \<Rightarrow> bool \<times> pool_dir" where
  "link_file dir n v d =
     (if n \<in> set (map fst (files_in dir d)) then (False, d) else (True, add_file dir n (json_copy v) d))"

definition atomicCreateJson :: "inv_faults \<Rightarrow> inv_dir \<Rightarrow> string \<Rightarrow> jsv \<Rightarrow> create_result inv_op" where
  "atomicCreateJson F dir n v =
     inv_bind (inv_sync F PrepareFile) (\<lambda>_.
     inv_bind (inv_at F LinkFile (link_file dir n v)) (\<lambda>created.
       if \<not> created then inv_return Exists
       else inv_catch (inv_bind (inv_sync F SyncLink) (\<lambda>_. inv_return CreatedDurable)) (\<lambda>_. PublicationDurabilityUncertain)))"

text \<open>\<^verbatim>\<open>null\<close> is \<open>None\<close>: no such file, or no object in it.\<close>

definition readJsonObject :: "inv_faults \<Rightarrow> inv_dir \<Rightarrow> string \<Rightarrow> jsv option inv_op" where
  "readJsonObject F dir n =
     inv_at F ReadBack (\<lambda>d.
       (case map_of (files_in dir d) n of None \<Rightarrow> None | Some v \<Rightarrow> if is_obj v \<or> is_arr v then Some v else None, d))"

definition listStep :: "(string \<Rightarrow> string) \<Rightarrow> inv_faults \<Rightarrow> inv_step \<Rightarrow> jsv list inv_op" where
  "listStep H F s = inv_bind (inv_at F s (\<lambda>d. (pd_reservations d, d))) (\<lambda>files. inv_lift (listReservations H files))"

section \<open>Obligations\<close>

definition obligationRecord ::
  "(string \<Rightarrow> string) \<Rightarrow> jsv \<Rightarrow> inventory_policy \<Rightarrow> string \<Rightarrow> string \<Rightarrow> string \<Rightarrow> int \<Rightarrow> jsv" where
  "obligationRecord H intent policy reason availableVoidUnits requestedVoidUnits nowMs =
     (let claim = jget ''claim'' intent; binding = jget ''verification_binding'' intent in
      JObj
       [(''schema'', JStr ''void_buy_void_paid_unreservable_obligation_v1''),
        (''marker'', JStr VOID_BUY_VOID_PAID_UNRESERVABLE_OBLIGATION_V1),
        (''obligation_id'', JStr (obligationIdFor H policy intent)),
        (''recorded_at_ms'', JNum nowMs),
        (''terminal_state'', JStr ''operator_reconciliation_required''),
        (''reservation_failure_reason'', JStr reason),
        (''pool_id'', JStr (iv_pool_id policy)),
        (''inventory_policy_version'', JStr (iv_version policy)),
        (''pool_capacity_void_units'', JStr (int_str (iv_capacity policy))),
        (''inventory_policy_fingerprint_sha256'', JStr (iv_fingerprint policy)),
        (''available_void_units'', JStr availableVoidUnits),
        (''requested_void_units'', JStr requestedVoidUnits),
        (''source_chain'', jget ''source_chain'' binding),
        (''payment_transaction_hash'', jget ''payment_transaction_hash'' binding),
        (''payment_log_index'', jget ''payment_log_index'' binding),
        (''confirmed_block_number'', jget ''confirmed_block_number'' binding),
        (''confirmation_count_at_claim'', jget ''confirmation_count_at_claim'' binding),
        (''payment_usdc_units'', jget ''payment_usdc_units'' binding),
        (''payment_key_sha256'', jget ''payment_key_sha256'' intent),
        (''request_key_sha256'', jget ''request_key_sha256'' intent),
        (''canonical_payment_identity'', jget ''canonical_payment_identity'' claim),
        (''request_id'', jget ''request_id'' claim),
        (''instruction_id'', jget ''instruction_id'' claim),
        (''delivery_address'', JStr (js_lower (js_String (jpath [''unsigned_instruction'', ''delivery_address''] claim)))),
        (''customer_payment_confirmed'', JBool True),
        (''reservation_created'', JBool False),
        (''automatic_retry'', JBool False),
        (''refund_execution_authorized'', JBool False),
        (''alternate_fulfillment_execution_authorized'', JBool False),
        (''wallet_access_authorized'', JBool False),
        (''signing_authorized'', JBool False),
        (''transaction_broadcast_authorized'', JBool False),
        (''money_movement_authorized'', JBool False)])"

definition obligation_keys :: "string list" where
  "obligation_keys =
     [''pool_id'', ''inventory_policy_version'', ''pool_capacity_void_units'', ''inventory_policy_fingerprint_sha256'',
      ''requested_void_units'', ''source_chain'', ''payment_transaction_hash'', ''payment_log_index'', ''confirmed_block_number'',
      ''confirmation_count_at_claim'', ''payment_usdc_units'', ''payment_key_sha256'', ''request_key_sha256'',
      ''canonical_payment_identity'', ''request_id'', ''instruction_id'', ''delivery_address'']"

text \<open>
  The obligation and whether its durability is certain. Reading a property of a missing binding throws;
  the message is the engine's.
\<close>

definition recordPaidUnreservableObligation ::
  "(string \<Rightarrow> string) \<Rightarrow> inv_faults \<Rightarrow> jsv \<Rightarrow> inventory_policy \<Rightarrow> string \<Rightarrow> string \<Rightarrow> string \<Rightarrow> int \<Rightarrow> (jsv \<times> bool) inv_op" where
  "recordPaidUnreservableObligation H F intent policy reason availableVoidUnits requestedVoidUnits nowMs =
     (let obligationId = obligationIdFor H policy intent;
          obligation = obligationRecord H intent policy reason availableVoidUnits requestedVoidUnits nowMs;
          binding = jget ''verification_binding'' intent in
      if binding = JUndef \<or> binding = JNull then inv_lift (Inl ''TypeError'')
      else if \<not> hex_n 64 obligationId then inv_lift (Inl ''invalid_paid_unreservable_obligation_id'')
      else
        inv_bind (atomicCreateJson F Holds obligationId obligation) (\<lambda>created.
          if created = CreatedDurable then inv_return (obligation, True)
          else
            inv_bind (readJsonObject F Holds obligationId) (\<lambda>existingRaw.
            inv_bind (inv_lift (case existingRaw of
                None \<Rightarrow> Inl ''paid_unreservable_obligation_race_unreadable''
              | Some raw \<Rightarrow>
                  bnd (parsePaidUnreservableObligation H raw) (\<lambda>existing.
                    if list_ex (\<lambda>k. \<not> (js_same (jget k existing) (jget k obligation))) obligation_keys
                    then Inl ''paid_unreservable_obligation_identity_conflict'' else Inr existing))) (\<lambda>existing.
              if created = PublicationDurabilityUncertain then inv_return (existing, False)
              else inv_catch (inv_bind (inv_sync F SyncAgain) (\<lambda>_. inv_return (existing, True))) (\<lambda>_. (existing, False))))))"

section \<open>Reserving\<close>

datatype inventory_decision =
    Available bool jsv inventory_aggregate
  | Reserved jsv inventory_aggregate
  | Duplicate jsv inventory_aggregate
  | Held bool string jsv

record reserve_input =
  ri_root_dir :: jsv
  ri_intent :: jsv
  ri_policy :: jsv
  ri_apply :: bool
  ri_now_ms :: "int option"

definition failure_detail :: "string \<Rightarrow> jsv" where
  "failure_detail e = JObj [(''message'', JStr e)]"

text \<open>The properties of a detail, for \<^verbatim>\<open>...(detail || {})\<close>.\<close>

fun detail_props :: "jsv \<Rightarrow> (string \<times> jsv) list" where
  "detail_props (JObj kvs) = kvs"
| "detail_props _ = []"

definition uncertain_detail :: "jsv \<Rightarrow> inventory_aggregate option \<Rightarrow> jsv" where
  "uncertain_detail reservation current =
     JObj ([(''reservation_id'', jget ''reservation_id'' reservation), (''visible_reservation_preserved'', JBool True),
       (''conservative_capacity_counted'', JBool True)]
       @ (case current of None \<Rightarrow> [] | Some a \<Rightarrow>
           [(''committed_void_units'', JStr (ag_committed a)), (''available_void_units'', JStr (ag_available a))])
       @ [(''automatic_retry'', JBool False)])"

definition obligation_decision :: "string \<Rightarrow> jsv \<Rightarrow> jsv \<times> bool \<Rightarrow> inventory_decision" where
  "obligation_decision reason detail obligationResult =
     (case obligationResult of (obligation, durable) \<Rightarrow>
       if \<not> durable
       then Held True ''paid_unreservable_obligation_durability_uncertain''
         (JObj (detail_props detail @
           [(''reservation_failure_reason'', JStr reason), (''terminal_recovery_obligation_recorded'', JBool False),
            (''terminal_recovery_obligation_visible'', JBool True),
            (''terminal_recovery_obligation_id'', jget ''obligation_id'' obligation),
            (''terminal_recovery_state'', jget ''terminal_state'' obligation), (''confirmed_payment_stranded'', JBool True),
            (''automatic_retry'', JBool False)]))
       else Held True reason
         (JObj (detail_props detail @
           [(''terminal_recovery_obligation_recorded'', JBool True),
            (''terminal_recovery_obligation_id'', jget ''obligation_id'' obligation),
            (''terminal_recovery_state'', jget ''terminal_state'' obligation), (''confirmed_payment_stranded'', JBool False),
            (''automatic_retry'', JBool False)])))"

definition holdEvaluation ::
  "(string \<Rightarrow> string) \<Rightarrow> inv_faults \<Rightarrow> jsv \<Rightarrow> inventory_policy \<Rightarrow> int \<Rightarrow> int \<Rightarrow> string \<times> jsv \<Rightarrow> inventory_decision inv_op" where
  "holdEvaluation H F intent policy amount nowMs failure =
     (case failure of (reason, detail) \<Rightarrow>
       if reason = ''inventory_sold_out'' \<or> reason = ''insufficient_void_inventory''
       then inv_catch
         (inv_bind
           (recordPaidUnreservableObligation H F intent policy reason
             (if js_truthy (jget ''available_void_units'' detail) then js_String (jget ''available_void_units'' detail) else ''0'')
             (int_str amount) nowMs)
           (\<lambda>r. inv_return (obligation_decision reason detail r)))
         (\<lambda>e. Held True ''paid_unreservable_obligation_write_failed''
           (JObj [(''reservation_failure_reason'', JStr reason), (''message'', JStr e)]))
       else inv_return (Held True reason detail))"

definition publishReservation ::
  "(string \<Rightarrow> string) \<Rightarrow> inv_faults \<Rightarrow> inventory_policy \<Rightarrow> jsv \<Rightarrow> inventory_decision inv_op" where
  "publishReservation H F policy reservation =
     (let reservationId = str_of (jget ''reservation_id'' reservation) in
      if \<not> hex_n 64 reservationId then inv_lift (Inl ''invalid_inventory_reservation_id'')
      else
        inv_bind (atomicCreateJson F Reservations reservationId reservation) (\<lambda>created.
          if created = CreatedDurable then
            inv_bind (listStep H F ListAgain) (\<lambda>reservations.
            inv_bind (inv_lift (aggregateFor policy reservations)) (\<lambda>current. inv_return (Reserved reservation current)))
          else
            inv_bind (readJsonObject F Reservations reservationId) (\<lambda>existingRaw.
              case existingRaw of
                None \<Rightarrow> inv_return (Held True ''inventory_reservation_race_unreadable'' JUndef)
              | Some raw \<Rightarrow>
                  inv_bind (inv_lift (parseReservation H raw)) (\<lambda>existing.
                    if \<not> js_same (jget ''intent_fingerprint'' existing) (jget ''intent_fingerprint'' reservation)
                    then inv_return (Held True ''inventory_reservation_race_conflict'' JUndef)
                    else
                      inv_bind (listStep H F ListAgain) (\<lambda>reservations.
                      inv_bind (inv_lift (aggregateFor policy reservations)) (\<lambda>current.
                        if created = PublicationDurabilityUncertain
                        then inv_return (Held True ''inventory_reservation_durability_uncertain'' (uncertain_detail existing (Some current)))
                        else inv_catch (inv_bind (inv_sync F SyncAgain) (\<lambda>_. inv_return (Duplicate existing current)))
                          (\<lambda>_. Held True ''inventory_reservation_durability_uncertain'' (uncertain_detail existing (Some current)))))))))"

text \<open>What runs under the lock, inside its \<^verbatim>\<open>try\<close>.\<close>

definition reserveLocked ::
  "(string \<Rightarrow> string) \<Rightarrow> inv_faults \<Rightarrow> jsv \<Rightarrow> int \<Rightarrow> string \<Rightarrow> inventory_policy \<Rightarrow> int \<Rightarrow> inventory_decision inv_op" where
  "reserveLocked H F intent amount fingerprint policy nowMs =
     inv_bind (inv_sync F MakeDirs) (\<lambda>_.
     inv_bind (listStep H F ListFiles) (\<lambda>reservations.
       case evaluateReservation H intent amount fingerprint policy reservations nowMs of
         Inl failure \<Rightarrow> holdEvaluation H F intent policy amount nowMs failure
       | Inr evaluated \<Rightarrow>
           if ev_duplicate evaluated
           then inv_catch
             (inv_bind (inv_sync F SyncAgain) (\<lambda>_. inv_return (Duplicate (ev_reservation evaluated) (ev_after evaluated))))
             (\<lambda>_. Held True ''inventory_reservation_durability_uncertain'' (uncertain_detail (ev_reservation evaluated) None))
           else publishReservation H F policy (ev_reservation evaluated)))"

definition reserveApply ::
  "(string \<Rightarrow> string) \<Rightarrow> inv_faults \<Rightarrow> jsv \<Rightarrow> int \<Rightarrow> string \<Rightarrow> inventory_policy \<Rightarrow> int \<Rightarrow> inventory_decision inv_op" where
  "reserveApply H F intent amount fingerprint policy nowMs =
     inv_bind (acquirePoolLock F) (\<lambda>busy.
       case busy of
         Some reason \<Rightarrow> inv_return (Held True reason JUndef)
       | None \<Rightarrow>
           inv_bind
             (inv_catch (reserveLocked H F intent amount fingerprint policy nowMs)
               (\<lambda>e. Held True ''inventory_reservation_write_failed'' (failure_detail e)))
             (\<lambda>decision. inv_bind (releasePoolLock F) (\<lambda>_. inv_return decision)))"

definition reservePreview ::
  "(string \<Rightarrow> string) \<Rightarrow> inv_faults \<Rightarrow> jsv \<Rightarrow> int \<Rightarrow> string \<Rightarrow> inventory_policy \<Rightarrow> int \<Rightarrow> inventory_decision inv_op" where
  "reservePreview H F intent amount fingerprint policy nowMs =
     inv_catch
       (inv_bind (listStep H F ListFiles) (\<lambda>reservations.
         inv_return (case evaluateReservation H intent amount fingerprint policy reservations nowMs of
           Inl (reason, detail) \<Rightarrow> Held False reason detail
         | Inr evaluated \<Rightarrow> Available (ev_duplicate evaluated) (ev_reservation evaluated) (ev_after evaluated))))
       (\<lambda>e. Held False ''inventory_reservation_preview_failed'' (failure_detail e))"

text \<open>The checks before a file is touched: the pool, its policy, amount and fingerprint of the intent.\<close>

definition reserveChecks ::
  "(string \<Rightarrow> string) \<Rightarrow> reserve_input \<Rightarrow> (string \<times> int \<times> string \<times> inventory_policy) res" where
  "reserveChecks H input =
     bnd (journalPoolKey H (ri_root_dir input) (jget ''pool_id'' (ri_policy input))) (\<lambda>key.
     bnd (validateFulfillmentIntent H (ri_intent input)) (\<lambda>(amount, fingerprint).
     bnd (normalizeInventoryPolicy H (ri_policy input)) (\<lambda>policy. Inr (key, amount, fingerprint, policy))))"

type_synonym inventory_store = "string \<Rightarrow> pool_dir"

definition reserveBuyVoidInventoryV1 ::
  "(string \<Rightarrow> string) \<Rightarrow> inv_faults \<Rightarrow> int \<Rightarrow> reserve_input \<Rightarrow> inventory_store \<Rightarrow> inventory_decision outcome \<times> inventory_store" where
  "reserveBuyVoidInventoryV1 H F date_now input store =
     (case reserveChecks H input of
       Inl e \<Rightarrow> (Done (Held (ri_apply input) e JUndef), store)
     | Inr (key, amount, fingerprint, policy) \<Rightarrow>
         let nowMs = safeNow date_now (ri_now_ms input) in
         (case (if ri_apply input then reserveApply H F (ri_intent input) amount fingerprint policy nowMs (store key)
                else reservePreview H F (ri_intent input) amount fingerprint policy nowMs (store key)) of
           (r, d) \<Rightarrow> (r, store(key := d))))"

definition listBuyVoidInventoryReservationsV1 ::
  "(string \<Rightarrow> string) \<Rightarrow> jsv \<Rightarrow> jsv \<Rightarrow> inventory_store \<Rightarrow> jsv list res" where
  "listBuyVoidInventoryReservationsV1 H rootDir poolId store =
     bnd (journalPoolKey H rootDir poolId) (\<lambda>key. listReservations H (pd_reservations (store key)))"

definition listBuyVoidPaidUnreservableObligationsV1 ::
  "(string \<Rightarrow> string) \<Rightarrow> jsv \<Rightarrow> jsv \<Rightarrow> inventory_store \<Rightarrow> jsv list res" where
  "listBuyVoidPaidUnreservableObligationsV1 H rootDir poolId store =
     bnd (journalPoolKey H rootDir poolId) (\<lambda>key. listObligations H (pd_holds (store key)))"

text \<open>Calls one after another, each with its input, its time and its faults.\<close>

record reserve_call =
  rc_input :: reserve_input
  rc_date_now :: int
  rc_faults :: inv_faults

definition reserve_step :: "(string \<Rightarrow> string) \<Rightarrow> reserve_call \<Rightarrow> inventory_store \<Rightarrow> inventory_store" where
  "reserve_step H c store = snd (reserveBuyVoidInventoryV1 H (rc_faults c) (rc_date_now c) (rc_input c) store)"

definition reserve_steps :: "(string \<Rightarrow> string) \<Rightarrow> reserve_call list \<Rightarrow> inventory_store \<Rightarrow> inventory_store" where
  "reserve_steps H = fold (reserve_step H)"

end
