(* ===== verification/Inventory_Correct.thy ===== *)
theory Inventory_Correct
  imports Inventory_Journal
begin

text \<open>
  What a reservation does to a pool's directory, whatever step of it fails; and the invariant of a pool:
  its reservations can be read, agree on one policy, stay within its capacity and share no claim.
\<close>

named_theorems quiet_intros \<open>operations that change no file\<close>

section \<open>Operations that change no file\<close>

definition quiet :: "'a inv_op \<Rightarrow> bool" where
  "quiet m \<longleftrightarrow> (\<forall>d. snd (m d) = d)"

lemma quietD: "quiet m \<Longrightarrow> snd (m d) = d"
  by (simp add: quiet_def)

lemma quiet_return [quiet_intros]: "quiet (inv_return x)"
  by (simp add: quiet_def inv_return_def)

lemma quiet_lift [quiet_intros]: "quiet (inv_lift r)"
  by (simp add: quiet_def inv_lift_def split: sum.split)

lemma quiet_at [quiet_intros]: "(\<And>d. snd (f d) = d) \<Longrightarrow> quiet (inv_at F s f)"
  by (simp add: quiet_def inv_at_def split: inv_fault.split)

lemma quiet_sync [quiet_intros]: "quiet (inv_sync F s)"
  unfolding inv_sync_def by (rule quiet_at) simp

lemma snd_bind: "(\<And>x. quiet (k x)) \<Longrightarrow> snd (inv_bind m k d) = snd (m d)"
  by (auto simp: inv_bind_def quietD split: prod.split outcome.split)

lemma snd_catch: "snd (inv_catch m h d) = snd (m d)"
  by (auto simp: inv_catch_def split: prod.split outcome.split)

lemma quiet_bind [quiet_intros]: "quiet m \<Longrightarrow> (\<And>x. quiet (k x)) \<Longrightarrow> quiet (inv_bind m k)"
  using snd_bind [of k m] by (simp add: quiet_def)

lemma quiet_catch [quiet_intros]: "quiet m \<Longrightarrow> quiet (inv_catch m h)"
  by (simp add: quiet_def snd_catch)

lemma quiet_if [quiet_intros]: "quiet m \<Longrightarrow> quiet m' \<Longrightarrow> quiet (if b then m else m')"
  by simp

lemma quiet_list [quiet_intros]: "quiet (listStep H F s)"
  unfolding listStep_def by (intro quiet_intros) simp

lemma quiet_read [quiet_intros]: "quiet (readJsonObject F dir n)"
  unfolding readJsonObject_def by (intro quiet_intros) simp

lemma quiet_option [quiet_intros]: "quiet m \<Longrightarrow> (\<And>x. quiet (k x)) \<Longrightarrow> quiet (case v of None \<Rightarrow> m | Some x \<Rightarrow> k x)"
  by (simp split: option.split)

text \<open>An operation after a quiet one starts from the same directory, with what the first returned.\<close>

lemma snd_bind_quiet:
  "quiet m \<Longrightarrow> snd (inv_bind m k d) = (case fst (m d) of Done x \<Rightarrow> snd (k x d) | _ \<Rightarrow> d)"
  using quietD [of m d] by (cases "m d") (auto simp: inv_bind_def split: outcome.split)

lemma listStep_Done: "fst (listStep H F s d) = Done rs \<Longrightarrow> listReservations H (pd_reservations d) = Inr rs"
  by (auto simp: listStep_def inv_bind_def inv_at_def inv_lift_def split: inv_fault.splits sum.splits)

section \<open>The one file a call may create\<close>

definition creates :: "inv_dir \<Rightarrow> string \<Rightarrow> jsv \<Rightarrow> pool_dir \<Rightarrow> pool_dir \<Rightarrow> bool" where
  "creates dir n v d d' \<longleftrightarrow> n \<notin> set (map fst (files_in dir d)) \<and> d' = add_file dir n (json_copy v) d"

lemma atomicCreateJson_effect: "snd (atomicCreateJson F dir n v d) = d \<or> creates dir n v d (snd (atomicCreateJson F dir n v d))"
proof -
  have "snd (atomicCreateJson F dir n v d) =
      (case fst (inv_sync F PrepareFile d) of Done _ \<Rightarrow> snd (inv_at F LinkFile (link_file dir n v) d) | _ \<Rightarrow> d)"
    unfolding atomicCreateJson_def snd_bind_quiet [OF quiet_sync]
    by (intro arg_cong2 [where f = "\<lambda>f. case_outcome f (\<lambda>_. d) d"] ext snd_bind quiet_intros refl)
  then show ?thesis
    by (auto simp: inv_at_def creates_def link_file_def split: outcome.splits inv_fault.splits)
qed

lemma publishReservation_effect:
  "snd (publishReservation H F policy r d) = d \<or>
   creates Reservations (str_of (jget ''reservation_id'' r)) r d (snd (publishReservation H F policy r d))"
proof -
  have "snd (publishReservation H F policy r d) = d \<or> snd (publishReservation H F policy r d) =
      snd (atomicCreateJson F Reservations (str_of (jget ''reservation_id'' r)) r d)"
    unfolding publishReservation_def Let_def
    by (simp add: quietD quiet_lift) (intro impI disjI2 snd_bind quiet_intros)
  then show ?thesis using atomicCreateJson_effect by metis
qed

lemma recordPaidUnreservableObligation_effect:
  "snd (recordPaidUnreservableObligation H F intent policy reason a q nowMs d) = d \<or>
   creates Holds (obligationIdFor H policy intent) (obligationRecord H intent policy reason a q nowMs) d
     (snd (recordPaidUnreservableObligation H F intent policy reason a q nowMs d))"
proof -
  have "snd (recordPaidUnreservableObligation H F intent policy reason a q nowMs d) = d \<or>
      snd (recordPaidUnreservableObligation H F intent policy reason a q nowMs d) =
      snd (atomicCreateJson F Holds (obligationIdFor H policy intent) (obligationRecord H intent policy reason a q nowMs) d)"
    unfolding recordPaidUnreservableObligation_def Let_def
    by (simp add: quietD quiet_lift) (intro impI disjI2 snd_bind quiet_intros)
  then show ?thesis using atomicCreateJson_effect by metis
qed

text \<open>
  Under the lock: nothing changes, or the reservation the evaluation of the listed reservations allows is
  created, or the obligation of an intent that does not fit.
\<close>

definition unfit :: "string \<Rightarrow> bool" where
  "unfit reason \<longleftrightarrow> reason = ''inventory_sold_out'' \<or> reason = ''insufficient_void_inventory''"

definition available_text :: "jsv \<Rightarrow> string" where
  "available_text detail =
     (if js_truthy (jget ''available_void_units'' detail) then js_String (jget ''available_void_units'' detail) else ''0'')"

lemma reserveLocked_effect:
  assumes d': "d' = snd (reserveLocked H F intent amount fp policy nowMs d)"
  shows "d' = d \<or>
    (\<exists>rs ev. listReservations H (pd_reservations d) = Inr rs \<and>
      evaluateReservation H intent amount fp policy rs nowMs = Inr ev \<and> \<not> ev_duplicate ev \<and>
      creates Reservations (str_of (jget ''reservation_id'' (ev_reservation ev))) (ev_reservation ev) d d') \<or>
    (\<exists>rs reason detail. listReservations H (pd_reservations d) = Inr rs \<and>
      evaluateReservation H intent amount fp policy rs nowMs = Inl (reason, detail) \<and> unfit reason \<and>
      creates Holds (obligationIdFor H policy intent)
        (obligationRecord H intent policy reason (available_text detail) (int_str amount) nowMs) d d')"
proof -
  let ?k = "\<lambda>rs. case evaluateReservation H intent amount fp policy rs nowMs of
         Inl failure \<Rightarrow> holdEvaluation H F intent policy amount nowMs failure
       | Inr evaluated \<Rightarrow>
           if ev_duplicate evaluated
           then inv_catch
             (inv_bind (inv_sync F SyncAgain) (\<lambda>_. inv_return (Duplicate (ev_reservation evaluated) (ev_after evaluated))))
             (\<lambda>_. Held True ''inventory_reservation_durability_uncertain'' (uncertain_detail (ev_reservation evaluated) None))
           else publishReservation H F policy (ev_reservation evaluated)"
  have steps: "d' = (case fst (inv_sync F MakeDirs d) of Done _ \<Rightarrow>
      (case fst (listStep H F ListFiles d) of Done rs \<Rightarrow> snd (?k rs d) | _ \<Rightarrow> d) | _ \<Rightarrow> d)"
    unfolding d' reserveLocked_def snd_bind_quiet [OF quiet_sync] snd_bind_quiet [OF quiet_list] ..
  show ?thesis
  proof (cases "d' = d")
    case False
    with steps obtain rs where listed: "fst (listStep H F ListFiles d) = Done rs" "d' = snd (?k rs d)"
      by (auto split: outcome.splits)
    note rs = listStep_Done [OF listed(1)]
    show ?thesis
    proof (cases "evaluateReservation H intent amount fp policy rs nowMs")
      case (Inl failure)
      obtain reason detail where failure: "failure = (reason, detail)" by force
      have hold: "d' = snd (holdEvaluation H F intent policy amount nowMs (reason, detail) d)" using listed Inl failure by simp
      have reason: "unfit reason"
        using False hold by (auto simp: holdEvaluation_def unfit_def inv_return_def split: if_splits)
      then have "d' = snd (recordPaidUnreservableObligation H F intent policy reason (available_text detail) (int_str amount) nowMs d)"
        using hold by (auto simp: holdEvaluation_def unfit_def available_text_def snd_catch snd_bind quiet_intros)
      with recordPaidUnreservableObligation_effect False have "creates Holds (obligationIdFor H policy intent)
        (obligationRecord H intent policy reason (available_text detail) (int_str amount) nowMs) d d'" by metis
      with rs Inl failure reason show ?thesis by blast
    next
      case (Inr ev)
      have "\<not> ev_duplicate ev"
        using False listed(2) Inr by (auto simp: snd_catch snd_bind quiet_intros quietD)
      moreover from this have "d' = snd (publishReservation H F policy (ev_reservation ev) d)" using listed Inr by simp
      with publishReservation_effect False
      have "creates Reservations (str_of (jget ''reservation_id'' (ev_reservation ev))) (ev_reservation ev) d d'" by metis
      ultimately show ?thesis using rs Inr by blast
    qed
  qed simp
qed

section \<open>What an evaluation allows\<close>

definition committed_units :: "jsv list \<Rightarrow> int" where
  "committed_units rs = sum_list (map reserved_units rs)"

lemma committed_units_simps [simp]:
  "committed_units [] = 0" "committed_units (r # rs) = reserved_units r + committed_units rs" "committed_units (rs @ rs') = committed_units rs + committed_units rs'"
  by (simp_all add: committed_units_def)

lemma parsePositive_pos: "parsePositiveInteger v = Some n \<Longrightarrow> 0 < n"
  by (auto simp: parsePositiveInteger_def Let_def split: jsv.splits if_splits)

lemma reserved_units_nonneg: "0 \<le> reserved_units r"
  by (auto simp: reserved_units_def dest: parsePositive_pos split: option.split)

lemma committed_units_nonneg: "0 \<le> committed_units rs"
  by (induction rs) (simp_all add: reserved_units_nonneg)

lemma committed_units_mset: "mset rs = mset rs' \<Longrightarrow> committed_units rs = committed_units rs'"
  unfolding committed_units_def by (metis mset_map sum_mset_sum_list)

definition aggregate_of :: "inventory_policy \<Rightarrow> jsv list \<Rightarrow> inventory_aggregate" where
  "aggregate_of policy rs =
     \<lparr> ag_pool_id = iv_pool_id policy, ag_version = iv_version policy, ag_capacity = int_str (iv_capacity policy),
       ag_committed = int_str (committed_units rs), ag_available = int_str (iv_capacity policy - committed_units rs),
       ag_count = int (length rs), ag_sold_out = (iv_capacity policy - committed_units rs = 0) \<rparr>"

lemma aggregateFor_eq:
  "aggregateFor policy rs =
    (if \<not> list_all (matches_policy policy) rs then Inl ''inventory_policy_changed''
     else if iv_capacity policy < committed_units rs then Inl ''inventory_underflow'' else Inr (aggregate_of policy rs))"
proof -
  have "foldM (\<lambda>c r. if \<not> matches_policy policy r then Inl ''inventory_policy_changed'' else Inr (c + reserved_units r)) c rs =
      (if list_all (matches_policy policy) rs then Inr (c + committed_units rs) else Inl ''inventory_policy_changed'')" for c
    by (induction rs arbitrary: c) auto
  then show ?thesis by (simp add: aggregateFor_def aggregate_of_def)
qed

lemma evaluate_new:
  assumes ev: "evaluateReservation H intent amount fp policy rs nowMs = Inr ev" "\<not> ev_duplicate ev"
  shows "list_all (matches_policy policy) rs" "\<forall>r \<in> set rs. jget ''reservation_id'' r \<noteq> JStr (reservationIdFor H policy intent)"
    "\<forall>r \<in> set rs. \<not> claim_conflict intent r" "committed_units rs + amount \<le> iv_capacity policy"
    "ev_reservation ev = reservationRecord H intent amount fp policy (committed_units rs) nowMs"
proof -
  let ?id = "\<lambda>r. jget ''reservation_id'' r = JStr (reservationIdFor H policy intent)"
  have none: "find ?id rs = None" "find (claim_conflict intent) rs = None"
    and agg: "aggregateFor policy rs = Inr (aggregate_of policy rs)" "list_all (matches_policy policy) rs"
    using ev by (auto simp: evaluateReservation_def aggregateFor_eq Let_def split: if_splits option.splits)
  show "list_all (matches_policy policy) rs" by (fact agg(2))
  show "\<forall>r \<in> set rs. \<not> ?id r" "\<forall>r \<in> set rs. \<not> claim_conflict intent r" using none by (auto simp: find_None_iff)
  have sum: "dec_val (ag_committed (aggregate_of policy rs)) = committed_units rs" by (simp add: aggregate_of_def committed_units_nonneg)
  show "committed_units rs + amount \<le> iv_capacity policy"
    "ev_reservation ev = reservationRecord H intent amount fp policy (committed_units rs) nowMs"
    using ev none agg by (auto simp: evaluateReservation_def Let_def sum split: if_splits)
qed

lemma evaluate_unfit:
  assumes ev: "evaluateReservation H intent amount fp policy rs nowMs = Inl (reason, detail)" "unfit reason"
  shows "list_all (matches_policy policy) rs" "iv_capacity policy < committed_units rs + amount" "amount \<le> iv_max policy"
    "available_text detail = int_str (iv_capacity policy - committed_units rs)" "committed_units rs \<le> iv_capacity policy"
    "\<forall>r \<in> set rs. jget ''reservation_id'' r \<noteq> JStr (reservationIdFor H policy intent)"
proof -
  let ?id = "\<lambda>r. jget ''reservation_id'' r = JStr (reservationIdFor H policy intent)"
  note unfit_def [simp]
  have agg: "aggregateFor policy rs = Inr (aggregate_of policy rs)" "list_all (matches_policy policy) rs"
      "committed_units rs \<le> iv_capacity policy"
    using ev by (auto simp: evaluateReservation_def aggregateFor_eq split: if_splits)
  have none: "find ?id rs = None" "find (claim_conflict intent) rs = None" "\<not> iv_max policy < amount"
    using ev agg by (auto simp: evaluateReservation_def split: if_splits option.splits)
  have sum: "dec_val (ag_committed (aggregate_of policy rs)) = committed_units rs" by (simp add: aggregate_of_def committed_units_nonneg)
  have "evaluateReservation H intent amount fp policy rs nowMs =
      (if iv_capacity policy < committed_units rs + amount
       then Inl (if ag_sold_out (aggregate_of policy rs) then ''inventory_sold_out'' else ''insufficient_void_inventory'',
         JObj [(''requested_void_units'', JStr (int_str amount)), (''available_void_units'', JStr (ag_available (aggregate_of policy rs)))])
       else Inr \<lparr> ev_duplicate = False,
         ev_reservation = reservationRecord H intent amount fp policy (committed_units rs) nowMs,
         ev_before = aggregate_of policy rs,
         ev_after = (aggregate_of policy rs)\<lparr> ag_committed := int_str (committed_units rs + amount),
           ag_available := int_str (iv_capacity policy - (committed_units rs + amount)),
           ag_count := ag_count (aggregate_of policy rs) + 1, ag_sold_out := (iv_capacity policy - (committed_units rs + amount) = 0) \<rparr> \<rparr>)"
    unfolding evaluateReservation_def using agg none sum by (simp add: Let_def)
  then show "iv_capacity policy < committed_units rs + amount"
    "available_text detail = int_str (iv_capacity policy - committed_units rs)"
    using ev agg(3) by (auto simp: available_text_def js_truthy_def aggregate_of_def split: if_splits)
  show "list_all (matches_policy policy) rs" "amount \<le> iv_max policy" "committed_units rs \<le> iv_capacity policy"
    "\<forall>r \<in> set rs. \<not> ?id r"
    using agg none by (auto simp: find_None_iff)
qed

section \<open>A record that is written can be read\<close>

lemma string_or_empty_JStr [simp]: "string_or_empty (JStr s) = s"
  by (simp add: string_or_empty_def js_truthy_def)

lemma join_part_text: "string_or_empty v \<noteq> [] \<Longrightarrow> join_part v = string_or_empty v"
  by (auto simp: join_part_def string_or_empty_def js_truthy_def split: if_splits)

lemma text_String: "string_or_empty v \<noteq> [] \<Longrightarrow> string_or_empty v = js_String v"
  by (simp add: string_or_empty_def split: if_splits)

lemma lower_lower: "lower_char (lower_char c) = lower_char c" "is_space (lower_char c) = is_space c"
  by (auto simp: lower_char_def is_space_def Let_def of_char_of)

lemma js_lower_idem: "js_lower (js_lower s) = js_lower s"
  by (simp add: js_lower_def lower_lower)

lemma js_trim_lower: "js_trim (js_lower s) = js_lower (js_trim s)"
  by (simp add: js_trim_def js_lower_def dropWhile_map rev_map comp_def lower_lower)

lemma delivery_address_kept:
  assumes "normalizeDeliveryAddress v \<noteq> []"
  shows "normalizeDeliveryAddress (JStr (js_lower (js_String v))) \<noteq> []"
proof -
  have "string_or_empty v \<noteq> []"
    using assms by (auto simp: normalizeDeliveryAddress_def Let_def js_trim_def js_lower_def prefix_hex_def)
  then have "string_or_empty v = js_String v" by (rule text_String)
  with assms show ?thesis by (auto simp: normalizeDeliveryAddress_def Let_def js_trim_lower js_lower_idem split: if_splits)
qed

lemma parse_int_str:
  "0 < n \<Longrightarrow> parsePositiveInteger (JStr (int_str n)) = Some n"
  "0 \<le> n \<Longrightarrow> parseNonNegativeInteger (JStr (int_str n)) = Some n"
proof -
  have digits: "digits_of (JStr (int_str n)) = dec_str n" "list_all is_digit (dec_str n)" if "0 \<le> n"
  proof -
    show "list_all is_digit (dec_str n)" using that by (rule dec_str_digits)
    then have "js_trim (dec_str n) = dec_str n" by (intro js_trim_id) (auto simp: list_all_iff no_space)
    then show "digits_of (JStr (int_str n)) = dec_str n" using that by (simp add: digits_of_def)
  qed
  show "0 < n \<Longrightarrow> parsePositiveInteger (JStr (int_str n)) = Some n"
    "0 \<le> n \<Longrightarrow> parseNonNegativeInteger (JStr (int_str n)) = Some n"
    using digits by (simp_all add: parsePositiveInteger_def parseNonNegativeInteger_def)
qed

text \<open>A value that \<^verbatim>\<open>JSON.parse\<close> returned is the same when it is written and read again, and so are its parts.\<close>

lemma map_filter_id: "map f (filter P xs) = xs \<Longrightarrow> x \<in> set xs \<Longrightarrow> P x \<and> f x = x"
proof -
  assume eq: "map f (filter P xs) = xs" and x: "x \<in> set xs"
  have "length (filter P xs) = length xs" using arg_cong [OF eq, of length] by simp
  then have "filter P xs = xs" by (metis filter_True length_filter_less less_irrefl)
  with eq x show ?thesis by (metis filter_id_conv map_eq_conv map_ident)
qed

lemma json_copy_jget: "json_copy v = v \<Longrightarrow> json_copy (jget k v) = jget k v"
proof (cases v)
  case (JObj kvs)
  assume "json_copy v = v"
  then have "map (\<lambda>(k, v). (k, json_copy v)) (filter (\<lambda>(k, v). v \<noteq> JUndef) kvs) = kvs" using JObj by simp
  from map_filter_id [OF this] have "json_copy x = x" if "(k, x) \<in> set kvs" for k x using that by auto
  then show ?thesis using JObj by (auto dest: map_of_SomeD split: option.split)
qed simp_all

text \<open>What a valid intent and a valid policy ensure.\<close>

lemma valid_intent:
  assumes "validateFulfillmentIntent H intent = Inr (amount, fp)"
  shows "hex_n 64 (string_or_empty (jget ''payment_key_sha256'' intent))" "hex_n 64 (string_or_empty (jget ''request_key_sha256'' intent))"
    "SAFE_CODE (string_or_empty (jget ''request_id'' (jget ''claim'' intent)))"
    "SAFE_CODE (string_or_empty (jget ''instruction_id'' (jget ''claim'' intent)))"
    "js_trim (string_or_empty (jget ''canonical_payment_identity'' (jget ''claim'' intent))) \<noteq> []"
    "normalizeDeliveryAddress (jpath [''unsigned_instruction'', ''delivery_address''] (jget ''claim'' intent)) \<noteq> []"
    "0 < amount" "fp = intent_fingerprint H intent amount"
  using assms by (auto simp: validateFulfillmentIntent_def Let_def js_simps parsePositive_pos split: option.splits)

lemma valid_policy:
  assumes "normalizeInventoryPolicy H v = Inr policy"
  shows "SAFE_CODE (iv_pool_id policy)" "SAFE_CODE (iv_version policy)" "0 < iv_capacity policy" "iv_max policy \<le> iv_capacity policy"
    "iv_pool_key policy = poolKey H (iv_pool_id policy)"
    "iv_fingerprint policy = stableFingerprint H
      [(''pool_id'', iv_pool_id policy), (''inventory_policy_version'', iv_version policy),
       (''pool_capacity_void_units'', int_str (iv_capacity policy)), (''max_reservation_void_units'', int_str (iv_max policy))]"
  using assms by (auto simp: normalizeInventoryPolicy_def Let_def parsePositive_pos split: option.splits if_splits)

lemma nonempty_text: "hex_n 64 s \<Longrightarrow> s \<noteq> []" "SAFE_CODE s \<Longrightarrow> s \<noteq> []" "js_trim s \<noteq> [] \<Longrightarrow> s \<noteq> []"
  by (auto simp: hex_n_def SAFE_CODE_def js_trim_def)

lemma text_not_undef: "string_or_empty v \<noteq> [] \<Longrightarrow> v \<noteq> JUndef"
  by (auto simp: string_or_empty_def js_truthy_def)

lemma valid_intent_texts:
  assumes "validateFulfillmentIntent H intent = Inr (amount, fp)"
  shows "string_or_empty (jget ''payment_key_sha256'' intent) \<noteq> []" "string_or_empty (jget ''request_key_sha256'' intent) \<noteq> []"
    "string_or_empty (jget ''request_id'' (jget ''claim'' intent)) \<noteq> []"
    "string_or_empty (jget ''instruction_id'' (jget ''claim'' intent)) \<noteq> []"
    "string_or_empty (jget ''canonical_payment_identity'' (jget ''claim'' intent)) \<noteq> []"
  by (rule nonempty_text(1) [OF valid_intent(1) [OF assms]] nonempty_text(1) [OF valid_intent(2) [OF assms]]
      nonempty_text(2) [OF valid_intent(3) [OF assms]] nonempty_text(2) [OF valid_intent(4) [OF assms]]
      nonempty_text(3) [OF valid_intent(5) [OF assms]])+

lemma reservationRecord_get:
  fixes H intent amount fp policy before nowMs
  defines "r \<equiv> reservationRecord H intent amount fp policy before nowMs"
  shows "is_obj r" "jget ''schema'' r = JStr ''void_buy_void_inventory_reservation_v1''"
    "jget ''marker'' r = JStr VOID_BUY_VOID_INVENTORY_RESERVATION_JOURNAL_V1"
    "jget ''reservation_id'' r = JStr (reservationIdFor H policy intent)" "jget ''reserved_at_ms'' r = JNum nowMs"
    "jget ''pool_id'' r = JStr (iv_pool_id policy)" "jget ''inventory_policy_version'' r = JStr (iv_version policy)"
    "jget ''pool_capacity_void_units'' r = JStr (int_str (iv_capacity policy))"
    "jget ''committed_before_void_units'' r = JStr (int_str before)" "jget ''reserved_void_units'' r = JStr (int_str amount)"
    "jget ''committed_after_void_units'' r = JStr (int_str (before + amount))"
    "jget ''available_after_void_units'' r = JStr (int_str (iv_capacity policy - (before + amount)))"
    "jget ''payment_key_sha256'' r = jget ''payment_key_sha256'' intent"
    "jget ''request_key_sha256'' r = jget ''request_key_sha256'' intent"
    "jget ''canonical_payment_identity'' r = jget ''canonical_payment_identity'' (jget ''claim'' intent)"
    "jget ''request_id'' r = jget ''request_id'' (jget ''claim'' intent)"
    "jget ''instruction_id'' r = jget ''instruction_id'' (jget ''claim'' intent)"
    "jget ''delivery_address'' r = JStr (js_lower (js_String (jpath [''unsigned_instruction'', ''delivery_address''] (jget ''claim'' intent))))"
    "jget ''intent_fingerprint'' r = JStr fp" "jget ''reservation_status'' r = JStr ''reserved''"
    "list_all (\<lambda>k. jget k r = JBool False)
      [''inventory_decrement_performed'', ''reservation_release_authorized'', ''execution_authorized_by_this_module'',
       ''signing_authorized_by_this_module'', ''transaction_broadcast_authorized_by_this_module'',
       ''money_movement_authorized_by_this_module'']"
  unfolding r_def by (simp_all add: reservationRecord_def Let_def)

lemma reservationRecord_written:
  assumes json: "json_copy intent = intent" and valid: "validateFulfillmentIntent H intent = Inr (amount, fp)"
  shows "json_copy (reservationRecord H intent amount fp policy before nowMs) = reservationRecord H intent amount fp policy before nowMs"
proof -
  have "jget ''payment_key_sha256'' intent \<noteq> JUndef" "jget ''request_key_sha256'' intent \<noteq> JUndef"
    "jget ''canonical_payment_identity'' (jget ''claim'' intent) \<noteq> JUndef" "jget ''request_id'' (jget ''claim'' intent) \<noteq> JUndef"
    "jget ''instruction_id'' (jget ''claim'' intent) \<noteq> JUndef"
    by (rule text_not_undef, rule valid_intent_texts [OF valid])+
  then show ?thesis using json by (simp add: reservationRecord_def Let_def json_copy_jget)
qed

text \<open>Only properties of the record matter to the parser; the digest must be one.\<close>

lemma reservationRecord_parsed:
  assumes hex: "\<And>s. hex_n 64 (H s)"
    and valid: "validateFulfillmentIntent H intent = Inr (amount, fp)" "normalizeInventoryPolicy H v = Inr policy"
    and fits: "0 \<le> before" "before + amount \<le> iv_capacity policy" and now: "isSafeInteger (JNum nowMs)" "0 < nowMs"
  shows "parseReservation H (reservationRecord H intent amount fp policy before nowMs) = Inr (reservationRecord H intent amount fp policy before nowMs)"
proof -
  note intent = valid_intent [OF valid(1)] and pol = valid_policy [OF valid(2)]
  have parts: "join_part (jget ''payment_key_sha256'' intent) = string_or_empty (jget ''payment_key_sha256'' intent)"
    "join_part (jget ''instruction_id'' (jget ''claim'' intent)) = string_or_empty (jget ''instruction_id'' (jget ''claim'' intent))"
    by (rule join_part_text, rule valid_intent_texts [OF valid(1)])+
  have id: "reservationIdFor H policy intent = idFor H [''void-buy-inventory-reservation-v1'', poolKey H (iv_pool_id policy),
      string_or_empty (jget ''payment_key_sha256'' intent), string_or_empty (jget ''instruction_id'' (jget ''claim'' intent))]"
    by (simp add: reservationIdFor_def parts pol(5))
  have hexes: "hex_n 64 (idFor H xs)" "hex_n 64 fp" for xs
    unfolding idFor_def intent(8) intent_fingerprint_def Let_def stableFingerprint_def by (rule hex)+
  have numbers: "parsePositiveInteger (JStr (int_str (iv_capacity policy))) = Some (iv_capacity policy)"
    "parseNonNegativeInteger (JStr (int_str before)) = Some before" "parsePositiveInteger (JStr (int_str amount)) = Some amount"
    "parsePositiveInteger (JStr (int_str (before + amount))) = Some (before + amount)"
    "parseNonNegativeInteger (JStr (int_str (iv_capacity policy - (before + amount)))) = Some (iv_capacity policy - (before + amount))"
    using fits intent(7) pol(3) by (intro parse_int_str; linarith)+
  have flags: "\<not> list_ex (\<lambda>k. jget k (reservationRecord H intent amount fp policy before nowMs) \<noteq> JBool False)
      [''inventory_decrement_performed'', ''reservation_release_authorized'', ''execution_authorized_by_this_module'',
       ''signing_authorized_by_this_module'', ''transaction_broadcast_authorized_by_this_module'',
       ''money_movement_authorized_by_this_module'']"
    using reservationRecord_get(21) [of H intent amount fp policy before nowMs] unfolding list_ex_iff list_all_iff by blast
  show ?thesis
    unfolding parseReservation_def Let_def reservationRecord_get(2-20) string_or_empty_JStr id [symmetric] numbers
    using intent pol now fits hexes flags id delivery_address_kept [OF intent(6)]
    by (simp only: if_False option.sel num_of.simps simp_thms if_True not_less not_le option.distinct) simp
qed

end
