(* ===== verification/Inventory_Invariant.thy ===== *)
theory Inventory_Invariant
  imports Inventory_Correct
begin

text \<open>
  The invariant of a pool's reservations, and that every call keeps it: whatever intent and policy it is
  given, whichever step fails, and wherever the process dies.
\<close>

section \<open>The invariant\<close>

definition shares_claim :: "jsv \<Rightarrow> jsv \<Rightarrow> bool" where
  "shares_claim r r' \<longleftrightarrow>
     list_ex (\<lambda>k. js_same (jget k r) (jget k r'))
       [''payment_key_sha256'', ''request_key_sha256'', ''canonical_payment_identity'', ''request_id'', ''instruction_id'']"

text \<open>Reservations of one policy, within its capacity, for different claims.\<close>

definition reservations_ok :: "jsv list \<Rightarrow> bool" where
  "reservations_ok rs \<longleftrightarrow>
     (\<exists>policy. list_all (matches_policy policy) rs \<and> committed_units rs \<le> iv_capacity policy) \<and>
     sorted_wrt (\<lambda>r r'. \<not> shares_claim r r') rs"

definition dir_ok :: "(string \<Rightarrow> string) \<Rightarrow> pool_dir \<Rightarrow> bool" where
  "dir_ok H d \<longleftrightarrow>
     distinct (map fst (pd_reservations d)) \<and>
     list_all (\<lambda>(n, r). is_obj r \<and> parseReservation H r = Inr r \<and> jget ''reservation_id'' r = JStr n) (pd_reservations d) \<and>
     reservations_ok (map snd (pd_reservations d))"

lemma dir_ok_same: "dir_ok H d \<Longrightarrow> pd_reservations d' = pd_reservations d \<Longrightarrow> dir_ok H d'"
  by (simp add: dir_ok_def)

lemma dir_ok_empty: "dir_ok H empty_pool_dir"
  by (auto simp: dir_ok_def empty_pool_dir_def reservations_ok_def intro!: exI [of _ "\<lparr> iv_pool_id = [], iv_version = [], iv_capacity = 0,
    iv_max = 0, iv_pool_key = [], iv_fingerprint = [] \<rparr>"])

text \<open>The listing of such a directory holds the records in it.\<close>

lemma listRecords_ok:
  assumes "\<forall>(n, r) \<in> set files. is_obj r \<and> parse r = Inr r"
  shows "\<exists>rs. listRecords parse key files = Inr rs \<and> mset rs = mset (map snd files) \<and> sorted (map (\<lambda>r. str_of (jget key r)) rs)"
proof -
  have "mapM (\<lambda>(n, r). parse r) xs = Inr (map snd xs)" if "set xs \<subseteq> set files" for xs
    using that assms by (induction xs) auto
  moreover have "filter (\<lambda>(n, r). is_obj r \<or> is_arr r) (sort_key fst files) = sort_key fst files"
    using assms by (auto intro!: filter_True)
  ultimately show ?thesis by (simp add: listRecords_def)
qed

lemma listReservations_ok:
  assumes "dir_ok H d"
  obtains rs where "listReservations H (pd_reservations d) = Inr rs" "mset rs = mset (map snd (pd_reservations d))"
proof -
  have "\<forall>(n, r) \<in> set (pd_reservations d). is_obj r \<and> parseReservation H r = Inr r"
    using assms by (auto simp: dir_ok_def list_all_iff)
  from listRecords_ok [OF this] show ?thesis using that by (auto simp: listReservations_def)
qed

section \<open>A new reservation\<close>

lemma js_same_sym: "js_same a b \<longleftrightarrow> js_same b a"
  by (auto simp: js_same_def)

lemma shares_claim_record:
  "shares_claim r (reservationRecord H intent amount fp policy before nowMs) \<longleftrightarrow> claim_conflict intent r"
  by (simp add: shares_claim_def claim_conflict_def Let_def reservationRecord_get)

lemma reserved_units_record: "0 < amount \<Longrightarrow> reserved_units (reservationRecord H intent amount fp policy before nowMs) = amount"
  by (simp only: reserved_units_def reservationRecord_get parse_int_str option.case)

lemma matches_record: "matches_policy policy (reservationRecord H intent amount fp policy before nowMs)"
  by (simp add: matches_policy_def reservationRecord_get)

text \<open>What the checks before the lock establish of a call.\<close>

definition call_ok :: "reserve_call \<Rightarrow> bool" where
  "call_ok c \<longleftrightarrow> json_copy (ri_intent (rc_input c)) = ri_intent (rc_input c) \<and> isSafeInteger (JNum (rc_date_now c)) \<and> 0 < rc_date_now c"

lemma safeNow_ok: "isSafeInteger (JNum n) \<Longrightarrow> 0 < n \<Longrightarrow> isSafeInteger (JNum (safeNow n m)) \<and> 0 < safeNow n m"
  by (auto simp: safeNow_def split: option.split)

lemma created_reservation_ok:
  assumes hex: "\<And>s. hex_n 64 (H s)" and ok: "dir_ok H d" and json: "json_copy intent = intent"
    and valid: "validateFulfillmentIntent H intent = Inr (amount, fp)" "normalizeInventoryPolicy H v = Inr policy"
    and now: "isSafeInteger (JNum nowMs)" "0 < nowMs"
    and listed: "listReservations H (pd_reservations d) = Inr rs"
    and ev: "evaluateReservation H intent amount fp policy rs nowMs = Inr ev" "\<not> ev_duplicate ev"
    and new: "creates Reservations (str_of (jget ''reservation_id'' (ev_reservation ev))) (ev_reservation ev) d d'"
  shows "dir_ok H d'" "pd_reservations d' = pd_reservations d @ [(reservationIdFor H policy intent, ev_reservation ev)]"
    "pd_holds d' = pd_holds d"
proof -
  let ?r = "reservationRecord H intent amount fp policy (committed_units rs) nowMs"
  note allowed = evaluate_new [OF ev]
  obtain rs' where "listReservations H (pd_reservations d) = Inr rs'" "mset rs' = mset (map snd (pd_reservations d))"
    by (rule listReservations_ok [OF ok])
  with listed have perm: "mset rs = mset (map snd (pd_reservations d))" by simp
  then have set: "set rs = set (map snd (pd_reservations d))" by (metis mset_eq_setD)
  have sum: "committed_units rs = committed_units (map snd (pd_reservations d))" using perm by (rule committed_units_mset)
  have id: "str_of (jget ''reservation_id'' ?r) = reservationIdFor H policy intent" by (simp add: reservationRecord_get)
  have d': "pd_reservations d' = pd_reservations d @ [(reservationIdFor H policy intent, ?r)]"
    "reservationIdFor H policy intent \<notin> set (map fst (pd_reservations d))" "pd_holds d' = pd_holds d"
    using new by (auto simp: creates_def allowed(5) id reservationRecord_written [OF json valid(1)])
  show "pd_reservations d' = pd_reservations d @ [(reservationIdFor H policy intent, ev_reservation ev)]" "pd_holds d' = pd_holds d"
    by (simp_all add: d' allowed(5))
  have "parseReservation H ?r = Inr ?r"
    using allowed(4) committed_units_nonneg by (intro reservationRecord_parsed [OF hex valid _ _ now])
  moreover have "reservations_ok (map snd (pd_reservations d) @ [?r])"
    unfolding reservations_ok_def
  proof
    show "\<exists>policy. list_all (matches_policy policy) (map snd (pd_reservations d) @ [?r]) \<and>
        committed_units (map snd (pd_reservations d) @ [?r]) \<le> iv_capacity policy"
      using allowed(1,4) set sum reserved_units_record [OF valid_intent(7) [OF valid(1)]]
      by (intro exI [of _ policy]) (simp add: list_all_iff matches_record)
    show "sorted_wrt (\<lambda>r r'. \<not> shares_claim r r') (map snd (pd_reservations d) @ [?r])"
      using ok allowed(3) set by (auto simp: sorted_wrt_append shares_claim_record dir_ok_def reservations_ok_def)
  qed
  ultimately show "dir_ok H d'"
    using ok d'(2) by (simp add: dir_ok_def d'(1) reservationRecord_get)
qed

section \<open>What a call changes\<close>

text \<open>
  The directory after a call for an intent: unchanged up to the lock, or with the reservation the listed
  reservations allow, or with the obligation of an intent that does not fit beside them.
\<close>

definition dir_change ::
  "(string \<Rightarrow> string) \<Rightarrow> jsv \<Rightarrow> int \<Rightarrow> string \<Rightarrow> inventory_policy \<Rightarrow> int \<Rightarrow> pool_dir \<Rightarrow> pool_dir \<Rightarrow> bool" where
  "dir_change H intent amount fp policy nowMs d d' \<longleftrightarrow>
     pd_reservations d' = pd_reservations d \<and> pd_holds d' = pd_holds d \<or>
     (\<exists>rs ev. listReservations H (pd_reservations d) = Inr rs \<and>
       evaluateReservation H intent amount fp policy rs nowMs = Inr ev \<and> \<not> ev_duplicate ev \<and>
       pd_reservations d' = pd_reservations d @ [(reservationIdFor H policy intent, ev_reservation ev)] \<and> pd_holds d' = pd_holds d) \<or>
     (\<exists>rs reason detail. listReservations H (pd_reservations d) = Inr rs \<and>
       evaluateReservation H intent amount fp policy rs nowMs = Inl (reason, detail) \<and> unfit reason \<and>
       pd_reservations d' = pd_reservations d \<and> pd_holds d' = pd_holds d @ [(obligationIdFor H policy intent,
         json_copy (obligationRecord H intent policy reason (available_text detail) (int_str amount) nowMs))])"

lemma reserveApply_effect:
  assumes "d' = snd (reserveApply H F intent amount fp policy nowMs d)"
  shows "(\<exists>b. d' = d\<lparr>pd_locked := b\<rparr>) \<or>
    (\<exists>b. d' = (snd (reserveLocked H F intent amount fp policy nowMs (d\<lparr>pd_locked := True\<rparr>)))\<lparr>pd_locked := b\<rparr>)"
proof -
  let ?body = "inv_bind (inv_catch (reserveLocked H F intent amount fp policy nowMs)
      (\<lambda>e. Held True ''inventory_reservation_write_failed'' (failure_detail e)))
    (\<lambda>decision. inv_bind (releasePoolLock F) (\<lambda>_. inv_return decision))"
  have keep: "\<exists>b. e = e\<lparr>pd_locked := b\<rparr>" for e :: pool_dir by (cases e) auto
  have release: "\<exists>b. snd (inv_bind (releasePoolLock F) (\<lambda>_. inv_return x) e) = e\<lparr>pd_locked := b\<rparr>" for x e
    unfolding snd_bind [OF quiet_return] releasePoolLock_def snd_catch
    using keep [of e] by (auto simp: inv_at_def split: inv_fault.split)
  have body: "\<exists>b. snd (?body e) = (snd (reserveLocked H F intent amount fp policy nowMs e))\<lparr>pd_locked := b\<rparr>" for e
  proof (cases "reserveLocked H F intent amount fp policy nowMs e")
    case (Pair r e')
    then show ?thesis using release keep by (cases r) (auto simp: inv_bind_def inv_catch_def)
  qed
  have lock: "snd (acquirePoolLock F d) = d \<or> snd (acquirePoolLock F d) = d\<lparr>pd_locked := True\<rparr>"
    "fst (acquirePoolLock F d) = Done None \<Longrightarrow> snd (acquirePoolLock F d) = d\<lparr>pd_locked := True\<rparr>"
    by (auto simp: acquirePoolLock_def inv_bind_def inv_sync_def inv_at_def inv_return_def split: inv_fault.splits)
  show ?thesis
  proof (cases "fst (acquirePoolLock F d) = Done None")
    case True
    with lock(2) have "acquirePoolLock F d = (Done None, d\<lparr>pd_locked := True\<rparr>)" by (metis prod.collapse)
    then have "d' = snd (?body (d\<lparr>pd_locked := True\<rparr>))" using assms by (simp add: reserveApply_def inv_bind_def)
    with body [of "d\<lparr>pd_locked := True\<rparr>"] show ?thesis by auto
  next
    case False
    then have "d' = snd (acquirePoolLock F d)"
      using assms by (cases "acquirePoolLock F d")
        (auto simp: reserveApply_def inv_bind_def inv_return_def split: outcome.splits option.splits)
    with lock(1) keep [of d] show ?thesis by metis
  qed
qed

lemma reserveApply_change:
  assumes hex: "\<And>s. hex_n 64 (H s)" and ok: "dir_ok H d" and json: "json_copy intent = intent"
    and valid: "validateFulfillmentIntent H intent = Inr (amount, fp)" "normalizeInventoryPolicy H v = Inr policy"
    and now: "isSafeInteger (JNum nowMs)" "0 < nowMs" and run: "d' = snd (reserveApply H F intent amount fp policy nowMs d)"
  shows "dir_ok H d' \<and> dir_change H intent amount fp policy nowMs d d'"
proof -
  let ?d = "d\<lparr>pd_locked := True\<rparr>"
  let ?d' = "snd (reserveLocked H F intent amount fp policy nowMs ?d)"
  have ok1: "dir_ok H ?d" using ok by (rule dir_ok_same) simp
  have "dir_ok H ?d' \<and> dir_change H intent amount fp policy nowMs d ?d'"
    using reserveLocked_effect [OF refl, of H F intent amount fp policy nowMs ?d]
  proof (elim disjE exE conjE)
    fix rs ev
    assume listed: "listReservations H (pd_reservations ?d) = Inr rs"
      and ev: "evaluateReservation H intent amount fp policy rs nowMs = Inr ev" "\<not> ev_duplicate ev"
      and new: "creates Reservations (str_of (jget ''reservation_id'' (ev_reservation ev))) (ev_reservation ev) ?d ?d'"
    note created = created_reservation_ok [OF hex ok1 json valid now listed ev new]
    with listed ev show ?thesis by (auto simp: dir_change_def)
  next
    fix rs reason detail
    assume listed: "listReservations H (pd_reservations ?d) = Inr rs"
      and ev: "evaluateReservation H intent amount fp policy rs nowMs = Inl (reason, detail)" "unfit reason"
      and new: "creates Holds (obligationIdFor H policy intent)
        (obligationRecord H intent policy reason (available_text detail) (int_str amount) nowMs) ?d ?d'"
    then show ?thesis using dir_ok_same [OF ok] by (auto simp: dir_change_def creates_def)
  qed (use ok1 in \<open>simp add: dir_change_def\<close>)
  with reserveApply_effect [OF run] show ?thesis
    using dir_ok_same [OF ok] dir_ok_same by (fastforce simp: dir_change_def)
qed

lemma quiet_preview: "quiet (reservePreview H F intent amount fp policy nowMs)"
  unfolding reservePreview_def by (intro quiet_intros)

text \<open>A call changes at most the directory of its pool.\<close>

lemma reserveChecks_valid:
  assumes "reserveChecks H input = Inr (key, amount, fp, policy)"
  shows "validateFulfillmentIntent H (ri_intent input) = Inr (amount, fp)"
    "normalizeInventoryPolicy H (ri_policy input) = Inr policy"
  using assms by (auto simp: reserveChecks_def js_simps)

lemma reserve_step_change:
  assumes hex: "\<And>s. hex_n 64 (H s)" and ok: "\<And>k. dir_ok H (store k)" and call: "call_ok c"
  shows "dir_ok H (reserve_step H c store k) \<and>
    (reserve_step H c store k = store k \<or>
     (\<exists>amount fp policy. reserveChecks H (rc_input c) = Inr (k, amount, fp, policy) \<and>
       dir_change H (ri_intent (rc_input c)) amount fp policy (safeNow (rc_date_now c) (ri_now_ms (rc_input c)))
         (store k) (reserve_step H c store k)))"
proof (cases "reserveChecks H (rc_input c)")
  case (Inl e)
  then show ?thesis using ok by (simp add: reserve_step_def reserveBuyVoidInventoryV1_def)
next
  case (Inr checked)
  obtain key amount fp policy where checked: "checked = (key, amount, fp, policy)" by (metis prod.exhaust)
  let ?i = "rc_input c" and ?now = "safeNow (rc_date_now c) (ri_now_ms (rc_input c))"
  let ?d = "if ri_apply ?i then snd (reserveApply H (rc_faults c) (ri_intent ?i) amount fp policy ?now (store key)) else store key"
  have step: "reserve_step H c store = store(key := ?d)"
    using quietD [OF quiet_preview]
    by (simp add: reserve_step_def reserveBuyVoidInventoryV1_def Inr checked Let_def split: prod.split) (metis fun_upd_triv snd_conv)
  have json: "json_copy (ri_intent ?i) = ri_intent ?i" and now: "isSafeInteger (JNum ?now)" "0 < ?now"
    using call safeNow_ok by (auto simp: call_ok_def)
  have "dir_ok H ?d \<and> dir_change H (ri_intent ?i) amount fp policy ?now (store key) ?d"
    using reserveApply_change [OF hex ok json reserveChecks_valid now refl] ok Inr checked
    by (cases "ri_apply ?i") (auto simp: dir_change_def)
  then show ?thesis using Inr checked ok unfolding step by auto
qed

section \<open>Obligations\<close>

text \<open>An amount that does not fit beside the reservations, and never will: reservations only grow.\<close>

definition exhausted :: "int \<Rightarrow> jsv list \<Rightarrow> bool" where
  "exhausted q rs \<longleftrightarrow> rs \<noteq> [] \<and>
     (\<forall>r \<in> set rs. \<exists>capacity. 0 \<le> capacity \<and> jget ''pool_capacity_void_units'' r = JStr (int_str capacity) \<and> capacity < committed_units rs + q)"

text \<open>An obligation and a reservation for the same payment, instruction and amount.\<close>

definition same_purchase :: "jsv \<Rightarrow> jsv \<Rightarrow> bool" where
  "same_purchase ob r \<longleftrightarrow>
     string_or_empty (jget ''payment_key_sha256'' ob) = string_or_empty (jget ''payment_key_sha256'' r) \<and>
     string_or_empty (jget ''instruction_id'' ob) = string_or_empty (jget ''instruction_id'' r) \<and>
     jget ''requested_void_units'' ob = jget ''reserved_void_units'' r"

definition holds_ok :: "pool_dir \<Rightarrow> bool" where
  "holds_ok d \<longleftrightarrow> (\<forall>(n, ob) \<in> set (pd_holds d). \<exists>q. 0 < q \<and> jget ''requested_void_units'' ob = JStr (int_str q) \<and>
     exhausted q (map snd (pd_reservations d)) \<and> (\<forall>(m, r) \<in> set (pd_reservations d). \<not> same_purchase ob r))"

lemma holds_ok_same: "holds_ok d \<Longrightarrow> pd_reservations d' = pd_reservations d \<Longrightarrow> pd_holds d' = pd_holds d \<Longrightarrow> holds_ok d'"
  by (simp add: holds_ok_def)

lemma holds_ok_empty: "holds_ok empty_pool_dir"
  by (simp add: holds_ok_def empty_pool_dir_def)

lemma exhausted_capacity:
  assumes "exhausted q rs" "list_all (matches_policy policy) rs" "0 < iv_capacity policy"
  shows "iv_capacity policy < committed_units rs + q"
proof -
  obtain r where r: "r \<in> set rs" using assms(1) unfolding exhausted_def by (meson last_in_set)
  with assms(1) obtain capacity where "0 \<le> capacity" "jget ''pool_capacity_void_units'' r = JStr (int_str capacity)" "capacity < committed_units rs + q"
    by (auto simp: exhausted_def)
  with r assms(2,3) show ?thesis by (auto simp: list_all_iff matches_policy_def dec_str_inject)
qed

lemma exhausted_of:
  assumes "list_all (matches_policy policy) rs" "0 < iv_capacity policy" "iv_capacity policy < committed_units rs + q" "rs \<noteq> []"
  shows "exhausted q rs"
  using assms by (auto simp: exhausted_def list_all_iff matches_policy_def intro!: exI [of _ "iv_capacity policy"])

lemma map_of_filter_snd:
  "distinct (map fst kvs) \<Longrightarrow>
    map_of (filter (\<lambda>(k, v). P v) kvs) k = (case map_of kvs k of None \<Rightarrow> None | Some v \<Rightarrow> if P v then Some v else None)"
proof (induction kvs)
  case (Cons kv kvs)
  obtain k' v where kv: "kv = (k', v)" by force
  have "map_of kvs k' = None" using Cons.prems kv by (simp add: map_of_eq_None_iff)
  with Cons kv show ?case by (auto split: option.splits)
qed simp

lemma jget_json_copy:
  assumes "distinct (map fst kvs)"
  shows "jget k (json_copy (JObj kvs)) = json_copy (jget k (JObj kvs))"
proof -
  have "map_of (map (\<lambda>(k, v). (k, json_copy v)) xs) k = map_option json_copy (map_of xs k)" for xs
    by (induction xs) auto
  then show ?thesis by (simp add: map_of_filter_snd [OF assms] split: option.split)
qed

lemma obligationRecord_get:
  assumes "json_copy intent = intent"
  shows "jget ''requested_void_units'' (json_copy (obligationRecord H intent policy reason a q nowMs)) = JStr q"
    "jget ''payment_key_sha256'' (json_copy (obligationRecord H intent policy reason a q nowMs)) = jget ''payment_key_sha256'' intent"
    "jget ''instruction_id'' (json_copy (obligationRecord H intent policy reason a q nowMs)) = jget ''instruction_id'' (jget ''claim'' intent)"
    "jget ''request_key_sha256'' (json_copy (obligationRecord H intent policy reason a q nowMs)) = jget ''request_key_sha256'' intent"
    "jget ''obligation_id'' (json_copy (obligationRecord H intent policy reason a q nowMs)) = JStr (obligationIdFor H policy intent)"
    "jget ''terminal_state'' (json_copy (obligationRecord H intent policy reason a q nowMs)) = JStr ''operator_reconciliation_required''"
proof -
  obtain kvs where kvs: "obligationRecord H intent policy reason a q nowMs = JObj kvs" "distinct (map fst kvs)"
    by (simp add: obligationRecord_def Let_def)
  show "jget ''requested_void_units'' (json_copy (obligationRecord H intent policy reason a q nowMs)) = JStr q"
    "jget ''payment_key_sha256'' (json_copy (obligationRecord H intent policy reason a q nowMs)) = jget ''payment_key_sha256'' intent"
    "jget ''instruction_id'' (json_copy (obligationRecord H intent policy reason a q nowMs)) = jget ''instruction_id'' (jget ''claim'' intent)"
    "jget ''request_key_sha256'' (json_copy (obligationRecord H intent policy reason a q nowMs)) = jget ''request_key_sha256'' intent"
    "jget ''obligation_id'' (json_copy (obligationRecord H intent policy reason a q nowMs)) = JStr (obligationIdFor H policy intent)"
    "jget ''terminal_state'' (json_copy (obligationRecord H intent policy reason a q nowMs)) = JStr ''operator_reconciliation_required''"
    unfolding kvs(1) jget_json_copy [OF kvs(2)] unfolding kvs(1) [symmetric]
    by (simp_all add: obligationRecord_def Let_def json_copy_jget assms)
qed

lemma parsed_id:
  assumes "parseReservation H r = Inr r'"
  shows "string_or_empty (jget ''reservation_id'' r) = idFor H [''void-buy-inventory-reservation-v1'',
    poolKey H (string_or_empty (jget ''pool_id'' r)), string_or_empty (jget ''payment_key_sha256'' r), string_or_empty (jget ''instruction_id'' r)]"
  using assms nonempty_text(1) by (auto simp: parseReservation_def Let_def split: if_splits)

lemma holds_ok_reserved:
  assumes ok: "dir_ok H d" "holds_ok d" and capacity: "0 < iv_capacity policy" and amount: "0 < amount"
    and listed: "listReservations H (pd_reservations d) = Inr rs"
    and ev: "evaluateReservation H intent amount fp policy rs nowMs = Inr ev" "\<not> ev_duplicate ev"
    and new: "pd_reservations d' = pd_reservations d @ [(rid, ev_reservation ev)]" "pd_holds d' = pd_holds d"
  shows "holds_ok d'"
  unfolding holds_ok_def
proof clarify
  fix n ob
  assume "(n, ob) \<in> set (pd_holds d')"
  with ok(2) new(2) obtain q where q: "0 < q" "jget ''requested_void_units'' ob = JStr (int_str q)"
    "exhausted q (map snd (pd_reservations d))" "\<forall>(m, r) \<in> set (pd_reservations d). \<not> same_purchase ob r"
    by (fastforce simp: holds_ok_def)
  obtain rs' where "listReservations H (pd_reservations d) = Inr rs'" "mset rs' = mset (map snd (pd_reservations d))"
    by (rule listReservations_ok [OF ok(1)])
  with listed have perm: "mset rs = mset (map snd (pd_reservations d))" by simp
  note allowed = evaluate_new [OF ev]
  have matches: "list_all (matches_policy policy) (map snd (pd_reservations d))"
    using allowed(1) mset_eq_setD [OF perm] by (simp add: list_all_iff)
  have full: "iv_capacity policy < committed_units rs + q"
    using exhausted_capacity [OF q(3) matches capacity] committed_units_mset [OF perm] by simp
  let ?r = "ev_reservation ev"
  have r: "matches_policy policy ?r" "reserved_units ?r = amount" "jget ''reserved_void_units'' ?r = JStr (int_str amount)"
    unfolding allowed(5) by (simp_all only: matches_record reserved_units_record [OF amount] reservationRecord_get)
  have "exhausted q (map snd (pd_reservations d'))"
    using matches r(1,2) full amount capacity committed_units_mset [OF perm] by (intro exhausted_of [of policy]) (simp_all add: new(1))
  moreover have "\<not> same_purchase ob ?r"
    using full allowed(4) q(1,2) amount by (auto simp: same_purchase_def r(3) dec_str_inject)
  ultimately show "\<exists>q. 0 < q \<and> jget ''requested_void_units'' ob = JStr (int_str q) \<and>
      exhausted q (map snd (pd_reservations d')) \<and> (\<forall>(m, r) \<in> set (pd_reservations d'). \<not> same_purchase ob r)"
    using q by (intro exI [of _ q]) (auto simp: new(1))
qed

lemma holds_ok_held:
  assumes ok: "dir_ok H d" "holds_ok d" and json: "json_copy intent = intent"
    and valid: "validateFulfillmentIntent H intent = Inr (amount, fp)" "normalizeInventoryPolicy H v = Inr policy"
    and listed: "listReservations H (pd_reservations d) = Inr rs"
    and ev: "evaluateReservation H intent amount fp policy rs nowMs = Inl (reason, detail)" "unfit reason"
    and new: "pd_reservations d' = pd_reservations d"
      "pd_holds d' = pd_holds d @ [(oid, json_copy (obligationRecord H intent policy reason a (int_str amount) nowMs))]"
  shows "holds_ok d'"
proof -
  let ?o = "json_copy (obligationRecord H intent policy reason a (int_str amount) nowMs)"
  note unfit = evaluate_unfit [OF ev] and pol = valid_policy [OF valid(2)] and amount = valid_intent(7) [OF valid(1)]
  obtain rs' where "listReservations H (pd_reservations d) = Inr rs'" "mset rs' = mset (map snd (pd_reservations d))"
    by (rule listReservations_ok [OF ok(1)])
  with listed have perm: "mset rs = mset (map snd (pd_reservations d))" by simp
  have set: "set rs = snd ` set (pd_reservations d)" using mset_eq_setD [OF perm] by simp
  have "rs \<noteq> []" using unfit(2,3) pol(4) by auto
  then have "exhausted amount (map snd (pd_reservations d))"
    using unfit(1,2) pol(3) set committed_units_mset [OF perm] by (intro exhausted_of [of policy]) (auto simp: list_all_iff)
  moreover have "\<not> same_purchase ?o r" if r: "(m, r) \<in> set (pd_reservations d)" for m r
  proof
    assume "same_purchase ?o r"
    then have texts: "string_or_empty (jget ''payment_key_sha256'' r) = string_or_empty (jget ''payment_key_sha256'' intent)"
      "string_or_empty (jget ''instruction_id'' r) = string_or_empty (jget ''instruction_id'' (jget ''claim'' intent))"
      by (simp_all add: same_purchase_def obligationRecord_get [OF json])
    have rec: "parseReservation H r = Inr r" "jget ''reservation_id'' r = JStr m" and pool: "jget ''pool_id'' r = JStr (iv_pool_id policy)"
      using ok(1) r unfit(1) set by (auto simp: dir_ok_def list_all_iff matches_policy_def)
    have "reservationIdFor H policy intent = m"
      using parsed_id [OF rec(1)] valid_intent_texts [OF valid(1)]
      by (simp add: rec(2) pool texts reservationIdFor_def pol(5) join_part_text)
    with rec(2) r unfit(6) set show False by force
  qed
  ultimately show ?thesis
    using ok(2) amount unfolding holds_ok_def new(2) new(1)
    by (auto simp: obligationRecord_get [OF json])
qed

section \<open>Every sequence of calls\<close>

definition inventory_ok :: "(string \<Rightarrow> string) \<Rightarrow> inventory_store \<Rightarrow> bool" where
  "inventory_ok H store \<longleftrightarrow> (\<forall>k. dir_ok H (store k) \<and> holds_ok (store k))"

lemma reserve_step_ok:
  assumes hex: "\<And>s. hex_n 64 (H s)" and ok: "inventory_ok H store" and call: "call_ok c"
  shows "inventory_ok H (reserve_step H c store)"
  unfolding inventory_ok_def
proof
  fix k
  let ?d = "store k" and ?d' = "reserve_step H c store k"
  have d: "dir_ok H ?d" "holds_ok ?d" and all: "\<And>k. dir_ok H (store k)" using ok by (simp_all add: inventory_ok_def)
  have json: "json_copy (ri_intent (rc_input c)) = ri_intent (rc_input c)" using call by (simp add: call_ok_def)
  note step = reserve_step_change [where k = k and store = store, OF hex all call]
  have "holds_ok ?d'"
  proof (cases "?d' = ?d")
    case False
    with step obtain amount fp policy where checks: "reserveChecks H (rc_input c) = Inr (k, amount, fp, policy)"
      and change: "dir_change H (ri_intent (rc_input c)) amount fp policy (safeNow (rc_date_now c) (ri_now_ms (rc_input c))) ?d ?d'"
      by auto
    note valid = reserveChecks_valid [OF checks]
    from change show ?thesis
      unfolding dir_change_def
      by (elim disjE exE conjE)
        (erule (1) holds_ok_same [OF d(2)],
         erule (4) holds_ok_reserved [OF d valid_policy(3) [OF valid(2)] valid_intent(7) [OF valid(1)]],
         erule (4) holds_ok_held [OF d json valid])
  qed (simp add: d)
  with step show "dir_ok H ?d' \<and> holds_ok ?d'" by simp
qed

definition empty_inventory :: inventory_store where
  "empty_inventory = (\<lambda>_. empty_pool_dir)"

lemma reserve_steps_ok:
  assumes hex: "\<And>s. hex_n 64 (H s)" and calls: "list_all call_ok cs"
  shows "inventory_ok H (reserve_steps H cs empty_inventory)"
proof -
  have "inventory_ok H (fold (reserve_step H) cs store)" if "inventory_ok H store" "list_all call_ok cs" for store cs
    using that by (induction cs arbitrary: store) (simp_all add: reserve_step_ok [OF hex])
  then show ?thesis using calls by (simp add: reserve_steps_def empty_inventory_def inventory_ok_def dir_ok_empty holds_ok_empty)
qed

end
