(* ===== verification/Inventory_Outcome.thy ===== *)
theory Inventory_Outcome
  imports Inventory_Invariant
begin

text \<open>
  What a call of the reservation journal reports, compared with what it did.
\<close>

section \<open>What a call returns\<close>

lemma bind_Done: "inv_bind m k d = (Done y, d') \<longleftrightarrow> (\<exists>x d1. m d = (Done x, d1) \<and> k x d1 = (Done y, d'))"
  by (auto simp: inv_bind_def split: prod.splits outcome.splits)

lemma catch_Done: "inv_catch m h d = (Done y, d') \<longleftrightarrow> m d = (Done y, d') \<or> (\<exists>e. m d = (Thrown e, d') \<and> h e = y)"
  by (auto simp: inv_catch_def split: prod.splits outcome.splits)

lemma return_Done: "inv_return x d = (Done y, d') \<longleftrightarrow> x = y \<and> d' = d"
  by (auto simp: inv_return_def)

lemma lift_Done: "inv_lift r d = (Done y, d') \<longleftrightarrow> r = Inr y \<and> d' = d"
  by (auto simp: inv_lift_def split: sum.splits)

lemma sync_Done: "inv_sync F s d = (Done y, d') \<longleftrightarrow> F s = Fine \<and> d' = d"
  by (auto simp: inv_sync_def inv_at_def split: inv_fault.splits)

lemma list_Done: "listStep H F s d = (Done rs, d') \<longleftrightarrow> F s = Fine \<and> d' = d \<and> listReservations H (pd_reservations d) = Inr rs"
  by (auto simp: listStep_def bind_Done lift_Done inv_at_def split: inv_fault.splits)

lemmas inv_Done = bind_Done catch_Done return_Done lift_Done sync_Done list_Done

lemma quiet_eq: "quiet m \<Longrightarrow> m d = (r, d') \<Longrightarrow> d' = d"
  by (metis quietD snd_conv)

lemma create_Done:
  "atomicCreateJson F dir n v d = (Done c, d') \<Longrightarrow>
    (if c = Exists then n \<in> set (map fst (files_in dir d)) \<and> d' = d else creates dir n v d d')"
  by (auto simp: atomicCreateJson_def inv_Done inv_at_def link_file_def creates_def split: inv_fault.splits if_splits
      dest: quiet_eq [OF quiet_bind [OF quiet_sync quiet_return]])

lemma create_durable: "atomicCreateJson F dir n v d = (Done CreatedDurable, d') \<Longrightarrow> F SyncLink = Fine"
  by (auto simp: atomicCreateJson_def inv_Done split: if_splits)

text \<open>Only a reservation that was created durably is reported as new.\<close>

lemma publish_Reserved:
  assumes "publishReservation H F policy r d = (Done (Reserved v ag), d')"
  shows "v = r" "creates Reservations (str_of (jget ''reservation_id'' r)) r d d'"
    "\<exists>rs. listReservations H (pd_reservations d') = Inr rs \<and> aggregateFor policy rs = Inr ag"
  using assms
  by (auto simp: publishReservation_def Let_def inv_Done dest!: create_Done split: if_splits option.splits)

lemma publish_synced: "publishReservation H F policy r d = (Done (Reserved v ag), d') \<Longrightarrow> F SyncLink = Fine"
  by (auto simp: publishReservation_def Let_def inv_Done dest: create_durable split: if_splits option.splits)

lemma publish_Duplicate:
  assumes "publishReservation H F policy r d = (Done (Duplicate v ag), d')"
  shows "str_of (jget ''reservation_id'' r) \<in> set (map fst (pd_reservations d))"
  using assms
  by (auto simp: publishReservation_def Let_def inv_Done dest!: create_Done split: if_splits option.splits)
    (metis create_result.exhaust)

text \<open>The reasons a call may hold with although its reservation is in the pool.\<close>

definition uncertain_reason :: "string \<Rightarrow> bool" where
  "uncertain_reason reason \<longleftrightarrow>
     reason = ''inventory_reservation_durability_uncertain'' \<or> reason = ''inventory_reservation_write_failed''"

text \<open>What a hold says of an obligation, and what the failure of an evaluation says.\<close>

definition recorded :: "jsv \<Rightarrow> jsv" where
  "recorded detail = jget ''terminal_recovery_obligation_recorded'' detail"

lemma recorded_none: "recorded JUndef = JUndef" "recorded (failure_detail e) = JUndef" "recorded (uncertain_detail r current) = JUndef"
  by (simp_all add: recorded_def failure_detail_def uncertain_detail_def split: option.split)

lemma publish_Held_detail:
  assumes "publishReservation H F policy r d = (Done (Held b reason detail), d')"
  shows "b" "\<not> unfit reason" "recorded detail = JUndef"
  using assms
  by (auto simp: publishReservation_def Let_def inv_Done recorded_none unfit_def split: if_splits option.splits)

lemma publish_Held:
  assumes run: "publishReservation H F policy r d = (Done (Held b reason detail), d')"
    and r: "json_copy r = r" "is_obj r" "parseReservation H r = Inr r" "jget ''intent_fingerprint'' r = JStr fp"
  shows "d' = d \<or> uncertain_reason reason"
proof -
  let ?id = "str_of (jget ''reservation_id'' r)"
  define finish where "finish created = (\<lambda>existingRaw. case existingRaw of
      None \<Rightarrow> inv_return (Held True ''inventory_reservation_race_unreadable'' JUndef)
    | Some raw \<Rightarrow>
        inv_bind (inv_lift (parseReservation H raw)) (\<lambda>existing.
          if \<not> js_same (jget ''intent_fingerprint'' existing) (jget ''intent_fingerprint'' r)
          then inv_return (Held True ''inventory_reservation_race_conflict'' JUndef)
          else
            inv_bind (listStep H F ListAgain) (\<lambda>reservations.
            inv_bind (inv_lift (aggregateFor policy reservations)) (\<lambda>current.
              if created = PublicationDurabilityUncertain
              then inv_return (Held True ''inventory_reservation_durability_uncertain'' (uncertain_detail existing (Some current)))
              else inv_catch (inv_bind (inv_sync F SyncAgain) (\<lambda>_. inv_return (Duplicate existing current)))
                (\<lambda>_. Held True ''inventory_reservation_durability_uncertain'' (uncertain_detail existing (Some current)))))))" for created
  have quiet: "quiet (finish created x)" for created x unfolding finish_def by (intro quiet_intros)
  from run obtain created d1 where create: "atomicCreateJson F Reservations ?id r d = (Done created, d1)"
    and rest: "created \<noteq> CreatedDurable \<Longrightarrow> inv_bind (readJsonObject F Reservations ?id) (finish created) d1 = (Done (Held b reason detail), d')"
      "created \<noteq> CreatedDurable"
    unfolding publishReservation_def Let_def finish_def [symmetric]
    by (auto simp: bind_Done lift_Done return_Done split: if_splits)
  have d': "d' = d1" using quiet_eq [OF quiet_bind [OF quiet_read quiet] rest(1)] rest(2) by simp
  show ?thesis
  proof (cases "created = Exists")
    case True
    with create_Done [OF create] d' show ?thesis by simp
  next
    case False
    then have uncertain: "created = PublicationDurabilityUncertain" using rest(2) by (cases created) auto
    have "creates Reservations ?id r d d1" using create_Done [OF create] False by simp
    then have found: "map_of (pd_reservations d1) ?id = Some r"
      using r(1) by (auto simp: creates_def map_add_Some_iff map_of_eq_None_iff)
    from rest obtain x d2 where read: "readJsonObject F Reservations ?id d1 = (Done x, d2)"
      and fin: "finish created x d2 = (Done (Held b reason detail), d')" by (auto simp: bind_Done)
    have "x = Some r" using read found r(2) by (auto simp: readJsonObject_def inv_at_def split: inv_fault.splits)
    moreover have "js_same (JStr fp) (JStr fp)" by (simp add: js_same_def)
    ultimately show ?thesis
      using fin uncertain r(3) by (auto simp: finish_def inv_Done r(4) uncertain_reason_def)
  qed
qed

lemma hold_Done:
  assumes "holdEvaluation H F intent policy amount nowMs failure d = (Done decision, d')"
  shows "\<exists>b reason detail. decision = Held b reason detail" "pd_reservations d' = pd_reservations d"
proof -
  obtain reason detail where failure: "failure = (reason, detail)" by force
  show "\<exists>b reason detail. decision = Held b reason detail"
    using assms by (auto simp: failure holdEvaluation_def inv_Done obligation_decision_def split: if_splits)
  have "pd_reservations (snd (recordPaidUnreservableObligation H F intent policy r a q nowMs d)) = pd_reservations d" for r a q
    using recordPaidUnreservableObligation_effect [of H F intent policy r a q nowMs d] by (auto simp: creates_def)
  then have "pd_reservations (snd (holdEvaluation H F intent policy amount nowMs failure d)) = pd_reservations d"
    by (auto simp: failure holdEvaluation_def snd_catch snd_bind quiet_return inv_return_def)
  then show "pd_reservations d' = pd_reservations d" using assms by simp
qed

text \<open>The three ways on from the listing under the lock.\<close>

lemma locked_Done:
  assumes "reserveLocked H F intent amount fp policy nowMs d = (Done decision, d')"
  obtains rs failure where "listReservations H (pd_reservations d) = Inr rs"
      "evaluateReservation H intent amount fp policy rs nowMs = Inl failure"
      "holdEvaluation H F intent policy amount nowMs failure d = (Done decision, d')"
  | rs ev where "listReservations H (pd_reservations d) = Inr rs"
      "evaluateReservation H intent amount fp policy rs nowMs = Inr ev" "ev_duplicate ev" "d' = d"
      "decision = Duplicate (ev_reservation ev) (ev_after ev) \<and> F SyncAgain = Fine \<or>
       decision = Held True ''inventory_reservation_durability_uncertain'' (uncertain_detail (ev_reservation ev) None)"
  | rs ev where "listReservations H (pd_reservations d) = Inr rs"
      "evaluateReservation H intent amount fp policy rs nowMs = Inr ev" "\<not> ev_duplicate ev"
      "publishReservation H F policy (ev_reservation ev) d = (Done decision, d')"
proof -
  from assms obtain rs where rs: "listReservations H (pd_reservations d) = Inr rs" and rest:
    "(case evaluateReservation H intent amount fp policy rs nowMs of
         Inl failure \<Rightarrow> holdEvaluation H F intent policy amount nowMs failure
       | Inr evaluated \<Rightarrow>
           if ev_duplicate evaluated
           then inv_catch
             (inv_bind (inv_sync F SyncAgain) (\<lambda>_. inv_return (Duplicate (ev_reservation evaluated) (ev_after evaluated))))
             (\<lambda>_. Held True ''inventory_reservation_durability_uncertain'' (uncertain_detail (ev_reservation evaluated) None))
           else publishReservation H F policy (ev_reservation evaluated)) d = (Done decision, d')"
    by (auto simp: reserveLocked_def bind_Done sync_Done list_Done)
  show thesis
  proof (cases "evaluateReservation H intent amount fp policy rs nowMs")
    case (Inl failure)
    with rs rest that(1) show ?thesis by simp
  next
    case (Inr ev)
    show ?thesis
    proof (cases "ev_duplicate ev")
      case True
      let ?m = "inv_bind (inv_sync F SyncAgain) (\<lambda>_. inv_return (Duplicate (ev_reservation ev) (ev_after ev)))"
      have quiet: "quiet (inv_catch ?m (\<lambda>_. Held True ''inventory_reservation_durability_uncertain'' (uncertain_detail (ev_reservation ev) None)))"
        by (intro quiet_intros)
      have "d' = d" using rest Inr True quiet_eq [OF quiet] by simp
      moreover have "decision = Duplicate (ev_reservation ev) (ev_after ev) \<and> F SyncAgain = Fine \<or>
          decision = Held True ''inventory_reservation_durability_uncertain'' (uncertain_detail (ev_reservation ev) None)"
        using rest Inr True by (auto simp: catch_Done bind_Done return_Done sync_Done)
      ultimately show ?thesis using that(2) rs Inr True by blast
    next
      case False
      with rs rest Inr that(3) show ?thesis by simp
    qed
  qed
qed

lemma evaluate_duplicate:
  assumes "evaluateReservation H intent amount fp policy rs nowMs = Inr ev" "ev_duplicate ev"
  shows "ev_reservation ev \<in> set rs" "same_reservation intent amount fp (ev_reservation ev)" "ev_after ev = aggregate_of policy rs"
  using assms by (auto simp: evaluateReservation_def aggregateFor_eq Let_def find_Some_iff split: if_splits option.splits)

lemma bind_Thrown: "inv_bind m k d = (Thrown e, d') \<longleftrightarrow> m d = (Thrown e, d') \<or> (\<exists>x d1. m d = (Done x, d1) \<and> k x d1 = (Thrown e, d'))"
  by (auto simp: inv_bind_def split: prod.splits outcome.splits)

lemma catch_Thrown: "inv_catch m h d \<noteq> (Thrown e, d')"
  by (auto simp: inv_catch_def split: prod.splits outcome.splits)

lemma publish_holds: "publishReservation H F policy r d = (o', d') \<Longrightarrow> pd_holds d' = pd_holds d"
  using publishReservation_effect [of H F policy r d] by (auto simp: creates_def)

text \<open>Whatever is thrown under the lock, no obligation was created: recording one catches what it throws.\<close>

lemma locked_Thrown:
  assumes "reserveLocked H F intent amount fp policy nowMs d = (Thrown e, d')"
  shows "pd_holds d' = pd_holds d"
proof -
  have hold: "holdEvaluation H F intent policy amount nowMs failure d \<noteq> (Thrown e, d')" for failure
    by (cases failure) (simp add: holdEvaluation_def catch_Thrown inv_return_def)
  have rest: "d' = d \<or> (\<exists>r. publishReservation H F policy r d = (Thrown e, d'))"
    if "(case ev of Inl failure \<Rightarrow> holdEvaluation H F intent policy amount nowMs failure
       | Inr evaluated \<Rightarrow>
           if ev_duplicate evaluated
           then inv_catch
             (inv_bind (inv_sync F SyncAgain) (\<lambda>_. inv_return (Duplicate (ev_reservation evaluated) (ev_after evaluated))))
             (\<lambda>_. Held True ''inventory_reservation_durability_uncertain'' (uncertain_detail (ev_reservation evaluated) None))
           else publishReservation H F policy (ev_reservation evaluated)) d = (Thrown e, d')" for ev
    using that hold by (auto simp: catch_Thrown split: sum.splits if_splits)
  have "d' = d \<or> (\<exists>r. publishReservation H F policy r d = (Thrown e, d'))"
    using assms unfolding reserveLocked_def bind_Thrown sync_Done list_Done
  proof (elim disjE exE conjE)
    assume "inv_sync F MakeDirs d = (Thrown e, d')"
    then show ?thesis using quiet_eq [OF quiet_sync] by blast
  next
    fix u d1
    assume "d1 = d" "listStep H F ListFiles d1 = (Thrown e, d')"
    then show ?thesis using quiet_eq [OF quiet_list] by blast
  qed (use rest in blast)
  then show ?thesis using publish_holds by blast
qed

lemma apply_Done:
  assumes "reserveApply H F intent amount fp policy nowMs d = (Done decision, d')"
  obtains "decision = Held True ''inventory_reservation_busy'' JUndef" "d' = d"
  | d1 b where "reserveLocked H F intent amount fp policy nowMs (d\<lparr>pd_locked := True\<rparr>) = (Done decision, d1)" "d' = d1\<lparr>pd_locked := b\<rparr>"
  | e where "decision = Held True ''inventory_reservation_write_failed'' (failure_detail e)" "pd_holds d' = pd_holds d"
proof -
  have lock: "acquirePoolLock F d = (Done busy, d1) \<Longrightarrow>
      (busy = None \<and> d1 = d\<lparr>pd_locked := True\<rparr>) \<or> (busy = Some ''inventory_reservation_busy'' \<and> d1 = d)" for busy d1
    by (auto simp: acquirePoolLock_def inv_Done inv_at_def split: inv_fault.splits if_splits)
  have release: "releasePoolLock F e = (Done x, e') \<Longrightarrow> \<exists>b. e' = e\<lparr>pd_locked := b\<rparr>" for e x e'
    by (cases e) (auto simp: releasePoolLock_def catch_Done inv_at_def split: inv_fault.splits)
  from assms obtain busy d0 where acq: "acquirePoolLock F d = (Done busy, d0)" and rest:
    "(case busy of
         Some reason \<Rightarrow> inv_return (Held True reason JUndef)
       | None \<Rightarrow>
           inv_bind
             (inv_catch (reserveLocked H F intent amount fp policy nowMs)
               (\<lambda>e. Held True ''inventory_reservation_write_failed'' (failure_detail e)))
             (\<lambda>decision. inv_bind (releasePoolLock F) (\<lambda>_. inv_return decision))) d0 = (Done decision, d')"
    by (auto simp: reserveApply_def bind_Done)
  show thesis
  proof (cases busy)
    case None
    with lock [OF acq] rest obtain d1 where caught: "inv_catch (reserveLocked H F intent amount fp policy nowMs)
        (\<lambda>e. Held True ''inventory_reservation_write_failed'' (failure_detail e)) (d\<lparr>pd_locked := True\<rparr>) = (Done decision, d1)"
      and released: "releasePoolLock F d1 = (Done (), d')"
      by (auto simp: bind_Done return_Done)
    obtain b where b: "d' = d1\<lparr>pd_locked := b\<rparr>" using release [OF released] by blast
    show ?thesis
      using caught [unfolded catch_Done]
    proof (elim disjE exE conjE)
      assume "reserveLocked H F intent amount fp policy nowMs (d\<lparr>pd_locked := True\<rparr>) = (Done decision, d1)"
      then show ?thesis using b by (rule that(2))
    next
      fix e
      assume "Held True ''inventory_reservation_write_failed'' (failure_detail e) = decision"
        "reserveLocked H F intent amount fp policy nowMs (d\<lparr>pd_locked := True\<rparr>) = (Thrown e, d1)"
      then show ?thesis using that(3) [of e] locked_Thrown b by fastforce
    qed
  next
    case (Some reason)
    with lock [OF acq] rest show ?thesis by (intro that(1)) (auto simp: return_Done)
  qed
qed

lemma aggregate_of_mset: "mset rs = mset rs' \<Longrightarrow> aggregate_of policy rs = aggregate_of policy rs'"
  using committed_units_mset [of rs rs'] mset_eq_length [of rs rs'] by (simp add: aggregate_of_def)

lemma listed_perm:
  assumes "dir_ok H d" "listReservations H (pd_reservations d) = Inr rs"
  shows "mset rs = mset (map snd (pd_reservations d))"
  using listReservations_ok [OF assms(1)] assms(2) by force

lemma fresh_reservation:
  assumes "dir_ok H d" "listReservations H (pd_reservations d) = Inr rs"
    and "evaluateReservation H intent amount fp policy rs nowMs = Inr ev" "\<not> ev_duplicate ev"
  shows "reservationIdFor H policy intent \<notin> set (map fst (pd_reservations d))"
proof
  assume "reservationIdFor H policy intent \<in> set (map fst (pd_reservations d))"
  then obtain r where r: "(reservationIdFor H policy intent, r) \<in> set (pd_reservations d)" by auto
  then have "r \<in> set rs" using mset_eq_setD [OF listed_perm [OF assms(1,2)]] by (simp add: rev_image_eqI)
  moreover have "jget ''reservation_id'' r = JStr (reservationIdFor H policy intent)"
    using assms(1) r by (auto simp: dir_ok_def list_all_iff)
  ultimately show False using evaluate_new(2) [OF assms(3,4)] by blast
qed

section \<open>What a hold reports\<close>

lemma evaluate_held:
  assumes "evaluateReservation H intent amount fp policy rs nowMs = Inl (reason, detail)"
  shows "recorded detail = JUndef"
  using assms by (auto simp: evaluateReservation_def recorded_def Let_def split: sum.splits option.splits if_splits)

lemma evaluate_unfit_detail:
  assumes "evaluateReservation H intent amount fp policy rs nowMs = Inl (reason, detail)" "unfit reason"
  shows "detail = JObj [(''requested_void_units'', JStr (int_str amount)), (''available_void_units'', JStr (int_str (iv_capacity policy - committed_units rs)))]"
  using assms
  by (auto simp: evaluateReservation_def aggregateFor_eq aggregate_of_def unfit_def Let_def split: option.splits if_splits)

text \<open>The file of an obligation that is owed for an intent.\<close>

definition owed :: "jsv \<Rightarrow> int \<Rightarrow> jsv \<Rightarrow> bool" where
  "owed intent amount ob \<longleftrightarrow>
     jget ''terminal_state'' ob = JStr ''operator_reconciliation_required'' \<and> jget ''requested_void_units'' ob = JStr (int_str amount) \<and>
     jget ''payment_key_sha256'' ob = jget ''payment_key_sha256'' intent \<and> jget ''request_key_sha256'' ob = jget ''request_key_sha256'' intent \<and>
     jget ''instruction_id'' ob = jget ''instruction_id'' (jget ''claim'' intent)"

text \<open>
  A hold says that an obligation is recorded exactly when it was to be applied and the amount does not
  fit; then the amount really exceeds what is available, the number it gives is what is available, and
  the obligation of this very intent is in the directory, under the identity the hold gives. It is said
  to be recorded only after the directory was synced. A hold that says nothing of an obligation has
  created none, unless it says that writing one failed.
\<close>

definition held_report ::
  "(string \<Rightarrow> string) \<Rightarrow> inv_faults \<Rightarrow> jsv \<Rightarrow> int \<Rightarrow> inventory_policy \<Rightarrow> pool_dir \<Rightarrow> pool_dir \<Rightarrow> bool \<Rightarrow> string \<Rightarrow> jsv \<Rightarrow> bool" where
  "held_report H F intent amount policy d d' applied reason detail \<longleftrightarrow>
     (let units = committed_units (map snd (pd_reservations d)); oid = obligationIdFor H policy intent in
      (recorded detail = JBool True \<longleftrightarrow> applied \<and> unfit reason) \<and>
      (unfit reason \<or> recorded detail \<noteq> JUndef \<longrightarrow>
        iv_capacity policy < units + amount \<and> jget ''available_void_units'' detail = JStr (int_str (iv_capacity policy - units))) \<and>
      (if recorded detail = JUndef
       then pd_holds d' = pd_holds d \<or> reason = ''paid_unreservable_obligation_write_failed''
       else \<exists>ob. map_of (pd_holds d') oid = Some ob \<and> owed intent amount ob \<and>
         (pd_holds d' = pd_holds d \<or> pd_holds d' = pd_holds d @ [(oid, ob)]) \<and>
         string_or_empty (jget ''terminal_recovery_obligation_id'' detail) = oid \<and>
         (recorded detail = JBool True \<longrightarrow> F (if pd_holds d' = pd_holds d then SyncAgain else SyncLink) = Fine)))"

lemma held_report_silent:
  "recorded detail = JUndef \<Longrightarrow> \<not> unfit reason \<Longrightarrow> pd_holds d' = pd_holds d \<or> reason = ''paid_unreservable_obligation_write_failed'' \<Longrightarrow>
   held_report H F intent amount policy d d' applied reason detail"
  by (auto simp: held_report_def Let_def)

lemma held_report_dirs:
  assumes "pd_reservations e = pd_reservations d" "pd_holds e = pd_holds d" "pd_holds e' = pd_holds d'"
  shows "held_report H F intent amount policy e e' applied reason detail = held_report H F intent amount policy d d' applied reason detail"
  unfolding held_report_def assms ..

lemma parsed_obligation_id:
  assumes "parsePaidUnreservableObligation H ob = Inr ob'"
  shows "ob' = ob" "jget ''terminal_state'' ob = JStr ''operator_reconciliation_required''"
    "string_or_empty (jget ''obligation_id'' ob) = idFor H [''void-buy-paid-unreservable-obligation-v1'',
      poolKey H (string_or_empty (jget ''pool_id'' ob)), string_or_empty (jget ''payment_key_sha256'' ob),
      string_or_empty (jget ''request_key_sha256'' ob), string_or_empty (jget ''instruction_id'' ob)]"
  using assms by (simp_all add: parsePaidUnreservableObligation_def Let_def split: if_splits)

lemma obligationIdFor_texts:
  assumes "validateFulfillmentIntent H intent = Inr (amount, fp)" "normalizeInventoryPolicy H v = Inr policy"
  shows "obligationIdFor H policy intent = idFor H [''void-buy-paid-unreservable-obligation-v1'', poolKey H (iv_pool_id policy),
    string_or_empty (jget ''payment_key_sha256'' intent), string_or_empty (jget ''request_key_sha256'' intent),
    string_or_empty (jget ''instruction_id'' (jget ''claim'' intent))]"
  using valid_intent_texts [OF assms(1)] valid_policy(5) [OF assms(2)] by (simp add: obligationIdFor_def join_part_text)

text \<open>A file with the same keys as the obligation of an intent is owed for it.\<close>

lemma same_obligation:
  assumes valid: "validateFulfillmentIntent H intent = Inr (amount, fp)" "normalizeInventoryPolicy H v = Inr policy"
    and parsed: "parsePaidUnreservableObligation H raw = Inr ob"
    and same: "\<not> list_ex (\<lambda>k. \<not> js_same (jget k ob) (jget k (obligationRecord H intent policy reason a (int_str amount) nowMs))) obligation_keys"
  shows "ob = raw" "owed intent amount ob" "string_or_empty (jget ''obligation_id'' ob) = obligationIdFor H policy intent"
proof -
  let ?o = "obligationRecord H intent policy reason a (int_str amount) nowMs"
  have "jget k ob = jget k ?o" if "k \<in> set obligation_keys" for k
    using same that by (auto simp: list_ex_iff js_same_def)
  then have "jget ''pool_id'' ob = jget ''pool_id'' ?o" "jget ''requested_void_units'' ob = jget ''requested_void_units'' ?o"
    "jget ''payment_key_sha256'' ob = jget ''payment_key_sha256'' ?o" "jget ''request_key_sha256'' ob = jget ''request_key_sha256'' ?o"
    "jget ''instruction_id'' ob = jget ''instruction_id'' ?o"
    by (simp_all add: obligation_keys_def)
  then have fields: "jget ''pool_id'' ob = JStr (iv_pool_id policy)" "jget ''requested_void_units'' ob = JStr (int_str amount)"
    "jget ''payment_key_sha256'' ob = jget ''payment_key_sha256'' intent" "jget ''request_key_sha256'' ob = jget ''request_key_sha256'' intent"
    "jget ''instruction_id'' ob = jget ''instruction_id'' (jget ''claim'' intent)"
    by (simp_all add: obligationRecord_def Let_def)
  show ob: "ob = raw" by (rule parsed_obligation_id(1) [OF parsed])
  show "owed intent amount ob" using parsed_obligation_id(2) [OF parsed] fields ob by (simp add: owed_def)
  show "string_or_empty (jget ''obligation_id'' ob) = obligationIdFor H policy intent"
    using parsed_obligation_id(3) [OF parsed] fields ob by (simp add: obligationIdFor_texts [OF valid])
qed

lemma record_Done:
  fixes H F intent policy reason a amount nowMs d d'
  defines "oid \<equiv> obligationIdFor H policy intent"
  assumes run: "recordPaidUnreservableObligation H F intent policy reason a (int_str amount) nowMs d = (Done (ob, durable), d')"
    and json: "json_copy intent = intent"
    and valid: "validateFulfillmentIntent H intent = Inr (amount, fp)" "normalizeInventoryPolicy H v = Inr policy"
  shows "\<exists>stored. map_of (pd_holds d') oid = Some stored \<and> owed intent amount stored \<and>
      (pd_holds d' = pd_holds d \<or> pd_holds d' = pd_holds d @ [(oid, stored)]) \<and>
      string_or_empty (jget ''obligation_id'' ob) = oid \<and>
      (durable \<longrightarrow> F (if pd_holds d' = pd_holds d then SyncAgain else SyncLink) = Fine)"
proof -
  let ?o = "obligationRecord H intent policy reason a (int_str amount) nowMs"
  have written: "owed intent amount (json_copy ?o)" by (simp add: owed_def obligationRecord_get [OF json])
  define finish where "finish created = (\<lambda>existingRaw. inv_bind (inv_lift (case existingRaw of
                None \<Rightarrow> Inl ''paid_unreservable_obligation_race_unreadable''
              | Some raw \<Rightarrow>
                  bnd (parsePaidUnreservableObligation H raw) (\<lambda>existing.
                    if list_ex (\<lambda>k. \<not> (js_same (jget k existing) (jget k ?o))) obligation_keys
                    then Inl ''paid_unreservable_obligation_identity_conflict'' else Inr existing))) (\<lambda>existing.
              if created = PublicationDurabilityUncertain then inv_return (existing, False)
              else inv_catch (inv_bind (inv_sync F SyncAgain) (\<lambda>_. inv_return (existing, True))) (\<lambda>_. (existing, False))))" for created
  from run obtain created d1 where create: "atomicCreateJson F Holds oid ?o d = (Done created, d1)"
    and rest: "(if created = CreatedDurable then inv_return (?o, True) else inv_bind (readJsonObject F Holds oid) (finish created)) d1 = (Done (ob, durable), d')"
    unfolding recordPaidUnreservableObligation_def Let_def oid_def [symmetric] finish_def [symmetric]
    by (auto simp: bind_Done [of "atomicCreateJson F Holds oid ?o"] lift_Done split: if_splits)
  have new: "ob = ?o \<and> d' = d1" if "created = CreatedDurable" using rest that by (simp add: return_Done)
  have old: "d' = d1 \<and> (\<exists>raw. map_of (pd_holds d1) oid = Some raw \<and>
      parsePaidUnreservableObligation H raw = Inr ob \<and> \<not> list_ex (\<lambda>k. \<not> js_same (jget k ob) (jget k ?o)) obligation_keys \<and>
      (durable \<longrightarrow> created = Exists \<and> F SyncAgain = Fine))" if other: "created \<noteq> CreatedDurable"
  proof -
    have quiet: "quiet (finish created x)" for x unfolding finish_def by (intro quiet_intros)
    have read: "readJsonObject F Holds oid d1 = (Done x, d2) \<Longrightarrow> d2 = d1 \<and> (x = None \<or> x = map_of (pd_holds d1) oid)" for x d2
      by (auto simp: readJsonObject_def inv_at_def split: inv_fault.splits option.splits)
    from rest other obtain x where x: "x = None \<or> x = map_of (pd_holds d1) oid" "finish created x d1 = (Done (ob, durable), d')"
      using read by (auto simp: bind_Done)
    moreover have "x \<noteq> None" using x(2) by (cases x) (auto simp: finish_def bind_Done lift_Done)
    ultimately obtain raw where "map_of (pd_holds d1) oid = Some raw" "finish created (Some raw) d1 = (Done (ob, durable), d')" by auto
    moreover from this(2) have "parsePaidUnreservableObligation H raw = Inr ob" "\<not> list_ex (\<lambda>k. \<not> js_same (jget k ob) (jget k ?o)) obligation_keys"
      "durable \<longrightarrow> created = Exists \<and> F SyncAgain = Fine"
      using other unfolding finish_def bind_Done lift_Done option.case
      by (cases created; auto simp: js_simps catch_Done bind_Done return_Done sync_Done split: if_splits)+
    moreover have "d' = d1" by (rule quiet_eq [OF quiet x(2)])
    ultimately show ?thesis by blast
  qed
  show ?thesis
  proof (cases "created = CreatedDurable")
    case True
    with create_Done [OF create] have "oid \<notin> set (map fst (pd_holds d))" "pd_holds d1 = pd_holds d @ [(oid, json_copy ?o)]"
      by (simp_all add: creates_def)
    moreover from this have "map_of (pd_holds d1) oid = Some (json_copy ?o)" by (simp add: map_of_eq_None_iff [THEN iffD2] map_add_def)
    moreover have "jget ''obligation_id'' ?o = JStr oid" by (simp add: obligationRecord_def Let_def oid_def)
    ultimately show ?thesis using new [OF True] written create_durable [OF create [unfolded True]] by (intro exI [of _ "json_copy ?o"]) simp
  next
    case False
    from old [OF False] obtain raw where raw: "d' = d1" "map_of (pd_holds d1) oid = Some raw" "parsePaidUnreservableObligation H raw = Inr ob"
      and same: "\<not> list_ex (\<lambda>k. \<not> js_same (jget k ob) (jget k ?o)) obligation_keys"
      and durable: "durable \<longrightarrow> created = Exists \<and> F SyncAgain = Fine" by blast
    note ob = same_obligation [OF valid raw(3) same]
    have "pd_holds d1 = pd_holds d \<or> created \<noteq> Exists \<and> pd_holds d1 = pd_holds d @ [(oid, raw)]"
      using create_Done [OF create] raw(2)
      by (auto simp: creates_def map_add_Some_iff split: if_splits dest!: map_of_SomeD intro: rev_image_eqI)
    then show ?thesis using raw(1,2) ob durable by (auto simp: oid_def)
  qed
qed

lemma hold_report:
  assumes run: "holdEvaluation H F intent policy amount nowMs failure d = (Done (Held b reason detail), d')"
    and ev: "evaluateReservation H intent amount fp policy rs nowMs = Inl failure"
    and units: "committed_units rs = committed_units (map snd (pd_reservations d))"
    and json: "json_copy intent = intent"
    and valid: "validateFulfillmentIntent H intent = Inr (amount, fp)" "normalizeInventoryPolicy H v = Inr policy"
  shows "b" "held_report H F intent amount policy d d' True reason detail"
proof -
  obtain why because where failure: "failure = (why, because)" by force
  note ev = ev [unfolded failure]
  show "b" using run by (auto simp: failure holdEvaluation_def inv_Done obligation_decision_def split: if_splits)
  show "held_report H F intent amount policy d d' True reason detail"
  proof (cases "unfit why")
    case False
    then have "reason = why" "detail = because" "d' = d"
      using run by (auto simp: failure holdEvaluation_def unfit_def return_Done)
    with False show ?thesis by (intro held_report_silent) (simp_all add: evaluate_held [OF ev])
  next
    case True
    note detail = evaluate_unfit_detail [OF ev True] and over = evaluate_unfit(2) [OF ev True]
    have "(\<exists>ob durable. recordPaidUnreservableObligation H F intent policy why (available_text because) (int_str amount) nowMs d = (Done (ob, durable), d') \<and>
        Held b reason detail = obligation_decision why because (ob, durable)) \<or>
      (\<exists>e. Held b reason detail = Held True ''paid_unreservable_obligation_write_failed''
        (JObj [(''reservation_failure_reason'', JStr why), (''message'', JStr e)]))"
      using run True by (auto simp: failure holdEvaluation_def unfit_def available_text_def inv_Done)
    then show ?thesis
    proof (elim disjE exE conjE)
      fix e
      assume "Held b reason detail = Held True ''paid_unreservable_obligation_write_failed''
        (JObj [(''reservation_failure_reason'', JStr why), (''message'', JStr e)])"
      then show ?thesis by (intro held_report_silent) (simp_all add: recorded_def unfit_def)
    next
      fix ob durable
      assume "recordPaidUnreservableObligation H F intent policy why (available_text because) (int_str amount) nowMs d = (Done (ob, durable), d')"
      note rec = record_Done [OF this json valid]
      assume "Held b reason detail = obligation_decision why because (ob, durable)"
      then have "reason = (if durable then why else ''paid_unreservable_obligation_durability_uncertain'')"
        "recorded detail = JBool durable" "jget ''terminal_recovery_obligation_id'' detail = jget ''obligation_id'' ob"
        "jget ''available_void_units'' detail = JStr (int_str (iv_capacity policy - committed_units rs))"
        by (simp_all add: obligation_decision_def recorded_def detail split: if_splits)
      with rec True over show ?thesis by (auto simp: held_report_def units unfit_def Let_def)
    qed
  qed
qed

lemma evaluate_after:
  assumes "evaluateReservation H intent amount fp policy rs nowMs = Inr ev" "\<not> ev_duplicate ev" "0 < amount"
  shows "ev_after ev = aggregate_of policy (rs @ [ev_reservation ev])"
proof -
  have "aggregateFor policy rs = Inr (aggregate_of policy rs)"
    using assms(1,2) by (auto simp: evaluateReservation_def aggregateFor_eq split: if_splits)
  moreover have "dec_val (ag_committed (aggregate_of policy rs)) = committed_units rs" by (simp add: aggregate_of_def committed_units_nonneg)
  ultimately have "ev_after ev = (aggregate_of policy rs)\<lparr>ag_committed := int_str (committed_units rs + amount),
      ag_available := int_str (iv_capacity policy - (committed_units rs + amount)),
      ag_count := ag_count (aggregate_of policy rs) + 1, ag_sold_out := (iv_capacity policy - (committed_units rs + amount) = 0)\<rparr>"
    using assms(1,2) by (auto simp: evaluateReservation_def Let_def split: if_splits option.splits)
  then show ?thesis
    by (simp add: aggregate_of_def evaluate_new(5) [OF assms(1,2)] reserved_units_record [OF assms(3)])
qed

text \<open>What the evaluation of the listed reservations says of the files.\<close>

lemma evaluate_listed:
  assumes "dir_ok H d" "listReservations H (pd_reservations d) = Inr rs" "0 < amount"
    and ev: "evaluateReservation H intent amount fp policy rs nowMs = Inr ev"
  shows "let files = map snd (pd_reservations d) in
    if ev_duplicate ev
    then ev_reservation ev \<in> set files \<and> same_reservation intent amount fp (ev_reservation ev) \<and> ev_after ev = aggregate_of policy files
    else ev_reservation ev = reservationRecord H intent amount fp policy (committed_units files) nowMs \<and>
      reserved_units (ev_reservation ev) = amount \<and> committed_units files + amount \<le> iv_capacity policy \<and>
      ev_after ev = aggregate_of policy (files @ [ev_reservation ev])"
proof -
  note perm = listed_perm [OF assms(1,2)]
  have set: "set rs = set (map snd (pd_reservations d))" by (rule mset_eq_setD [OF perm])
  have units: "committed_units rs = committed_units (map snd (pd_reservations d))" by (rule committed_units_mset [OF perm])
  have agg: "aggregate_of policy rs = aggregate_of policy (map snd (pd_reservations d))" by (rule aggregate_of_mset [OF perm])
  show ?thesis
  proof (cases "ev_duplicate ev")
    case True
    with evaluate_duplicate [OF ev True] set agg show ?thesis by (simp add: Let_def)
  next
    case False
    note new = evaluate_new [OF ev False]
    have "aggregate_of policy (rs @ [r]) = aggregate_of policy (map snd (pd_reservations d) @ [r])" for r
      using perm by (intro aggregate_of_mset) simp
    with evaluate_after [OF ev False assms(3)] False new(4,5) show ?thesis
      by (simp only: units Let_def if_False reserved_units_record [OF assms(3)] simp_thms)
  qed
qed

section \<open>What a call reports\<close>

lemma apply_honest:
  assumes hex: "\<And>s. hex_n 64 (H s)" and ok: "dir_ok H d" and json: "json_copy intent = intent"
    and valid: "validateFulfillmentIntent H intent = Inr (amount, fp)" "normalizeInventoryPolicy H v = Inr policy"
    and now: "isSafeInteger (JNum nowMs)" "0 < nowMs"
    and run: "reserveApply H F intent amount fp policy nowMs d = (Done decision, d')"
  shows "let files = map snd (pd_reservations d) in
    case decision of
      Reserved r ag \<Rightarrow> pd_reservations d' = pd_reservations d @ [(reservationIdFor H policy intent, r)] \<and> pd_holds d' = pd_holds d \<and>
        F SyncLink = Fine \<and> r = reservationRecord H intent amount fp policy (committed_units files) nowMs \<and> reserved_units r = amount \<and>
        ag = aggregate_of policy (files @ [r])
    | Duplicate r ag \<Rightarrow> pd_reservations d' = pd_reservations d \<and> pd_holds d' = pd_holds d \<and> F SyncAgain = Fine \<and>
        r \<in> set files \<and> same_reservation intent amount fp r \<and> ag = aggregate_of policy files
    | Held b reason detail \<Rightarrow> b \<and> (pd_reservations d' = pd_reservations d \<or> uncertain_reason reason) \<and>
        held_report H F intent amount policy d d' True reason detail
    | Available b r ag \<Rightarrow> False"
  using run
proof (cases rule: apply_Done)
  case 1
  then show ?thesis by (simp add: Let_def held_report_silent recorded_none unfit_def)
next
  case (3 e)
  then show ?thesis by (simp add: Let_def held_report_silent recorded_none unfit_def uncertain_reason_def)
next
  case (2 d1 b)
  let ?d = "d\<lparr>pd_locked := True\<rparr>"
  have ok1: "dir_ok H ?d" using ok by (rule dir_ok_same) simp
  have same: "pd_reservations d' = pd_reservations d1" "pd_holds d' = pd_holds d1" by (simp_all add: 2)
  have report: "held_report H F intent amount policy ?d d1 True reason detail \<Longrightarrow> held_report H F intent amount policy d d' True reason detail" for reason detail
    using held_report_dirs [of ?d d d1 d'] same by simp
  note listed = evaluate_listed [OF ok1 _ valid_intent(7) [OF valid(1)]]
  from 2(1) show ?thesis
  proof (cases rule: locked_Done)
    case (1 rs failure)
    obtain b reason detail where held: "decision = Held b reason detail" using hold_Done(1) [OF 1(3)] by blast
    have "committed_units rs = committed_units (map snd (pd_reservations ?d))" by (rule committed_units_mset [OF listed_perm [OF ok1 1(1)]])
    from hold_report [OF 1(3) [unfolded held] 1(2) this json valid] show ?thesis
      using hold_Done(2) [OF 1(3)] report by (simp add: held same)
  next
    case (2 rs ev)
    from 2(5) show ?thesis
      using 2(3,4) same listed [OF 2(1,2)]
      by (elim disjE) (simp_all add: Let_def held_report_silent recorded_none unfit_def uncertain_reason_def)
  next
    case (3 rs ev)
    note written = evaluate_new(5) [OF 3(2,3)] and holds = publish_holds [OF 3(4)]
    have id: "str_of (jget ''reservation_id'' (ev_reservation ev)) = reservationIdFor H policy intent"
      by (simp add: written reservationRecord_get)
    show ?thesis
    proof (cases decision)
      case (Reserved r ag)
      note published = publish_Reserved [OF 3(4) [unfolded Reserved]]
      note created = created_reservation_ok [OF hex ok1 json valid now 3(1-3) published(2)]
      obtain rs' where rs': "listReservations H (pd_reservations d1) = Inr rs'" "aggregateFor policy rs' = Inr ag" using published(3) by blast
      have "ag = aggregate_of policy (map snd (pd_reservations d1))"
        using rs'(2) aggregate_of_mset [OF listed_perm [OF created(1) rs'(1)], of policy]
        by (auto simp: aggregateFor_eq split: if_splits)
      moreover have "F SyncLink = Fine" by (rule publish_synced [OF 3(4) [unfolded Reserved]])
      ultimately show ?thesis using created(2) published(1) same holds written reserved_units_record [OF valid_intent(7) [OF valid(1)]]
        by (simp add: Reserved Let_def committed_units_mset [OF listed_perm [OF ok1 3(1)]])
    next
      case (Duplicate r ag)
      from fresh_reservation [OF ok1 3(1-3)] publish_Duplicate [OF 3(4) [unfolded Duplicate]] id show ?thesis by simp
    next
      case (Held b reason detail)
      have "parseReservation H (ev_reservation ev) = Inr (ev_reservation ev)" "json_copy (ev_reservation ev) = ev_reservation ev"
        "is_obj (ev_reservation ev)" "jget ''intent_fingerprint'' (ev_reservation ev) = JStr fp"
        unfolding written
        using evaluate_new(4) [OF 3(2,3)] committed_units_nonneg
        by (simp_all only: reservationRecord_get reservationRecord_written [OF json valid(1)]
            reservationRecord_parsed [OF hex valid _ _ now])
      with publish_Held [OF 3(4) [unfolded Held]] have "d1 = ?d \<or> uncertain_reason reason" by blast
      then show ?thesis using same holds publish_Held_detail [OF 3(4) [unfolded Held]]
        by (auto simp: Held Let_def intro!: held_report_silent)
    next
      case (Available b r ag)
      then show ?thesis using 3(4)
        by (auto simp: publishReservation_def Let_def inv_Done split: if_splits option.splits)
    qed
  qed
qed

lemma preview_honest:
  assumes ok: "dir_ok H d" and valid: "validateFulfillmentIntent H intent = Inr (amount, fp)"
    and run: "reservePreview H F intent amount fp policy nowMs d = (Done decision, d')"
  shows "d' = d \<and> (let files = map snd (pd_reservations d) in
    case decision of
      Available b r ag \<Rightarrow>
        if b then r \<in> set files \<and> same_reservation intent amount fp r \<and> ag = aggregate_of policy files
        else r = reservationRecord H intent amount fp policy (committed_units files) nowMs \<and> reserved_units r = amount \<and>
          committed_units files + amount \<le> iv_capacity policy \<and> ag = aggregate_of policy (files @ [r])
    | Held b reason detail \<Rightarrow> \<not> b \<and> held_report H F intent amount policy d d False reason detail
    | _ \<Rightarrow> False)"
proof -
  have "d' = d" by (rule quiet_eq [OF quiet_preview run])
  moreover
  consider e where "decision = Held False ''inventory_reservation_preview_failed'' (failure_detail e)"
    | rs reason detail where "listReservations H (pd_reservations d) = Inr rs"
        "evaluateReservation H intent amount fp policy rs nowMs = Inl (reason, detail)" "decision = Held False reason detail"
    | rs ev where "listReservations H (pd_reservations d) = Inr rs" "evaluateReservation H intent amount fp policy rs nowMs = Inr ev"
        "decision = Available (ev_duplicate ev) (ev_reservation ev) (ev_after ev)"
  proof -
    from run consider e where "decision = Held False ''inventory_reservation_preview_failed'' (failure_detail e)"
      | rs where "listReservations H (pd_reservations d) = Inr rs"
        "decision = (case evaluateReservation H intent amount fp policy rs nowMs of Inl (reason, detail) \<Rightarrow> Held False reason detail
           | Inr ev \<Rightarrow> Available (ev_duplicate ev) (ev_reservation ev) (ev_after ev))"
      by (auto simp: reservePreview_def inv_Done)
    then show thesis
    proof cases
      case (2 rs)
      then show ?thesis using that(2,3) by (cases "evaluateReservation H intent amount fp policy rs nowMs") auto
    qed (rule that(1))
  qed
  then have "let files = map snd (pd_reservations d) in
    case decision of
      Available b r ag \<Rightarrow>
        if b then r \<in> set files \<and> same_reservation intent amount fp r \<and> ag = aggregate_of policy files
        else r = reservationRecord H intent amount fp policy (committed_units files) nowMs \<and> reserved_units r = amount \<and>
          committed_units files + amount \<le> iv_capacity policy \<and> ag = aggregate_of policy (files @ [r])
    | Held b reason detail \<Rightarrow> \<not> b \<and> held_report H F intent amount policy d d False reason detail
    | _ \<Rightarrow> False"
  proof cases
    case (1 e)
    then show ?thesis by (simp add: Let_def held_report_silent recorded_none unfit_def)
  next
    case (2 rs reason detail)
    note none = evaluate_held [OF 2(2)]
    show ?thesis
    proof (cases "unfit reason")
      case True
      note detail = evaluate_unfit_detail [OF 2(2) True] and over = evaluate_unfit(2) [OF 2(2) True]
      have "committed_units rs = committed_units (map snd (pd_reservations d))" by (rule committed_units_mset [OF listed_perm [OF ok 2(1)]])
      with over none show ?thesis unfolding 2(3) by (simp add: Let_def held_report_def detail)
    qed (simp add: 2(3) none held_report_silent Let_def)
  next
    case (3 rs ev)
    from evaluate_listed [OF ok 3(1) valid_intent(7) [OF valid] 3(2)] show ?thesis by (simp add: 3(3) Let_def split: if_splits)
  qed
  ultimately show ?thesis by blast
qed

end
