(* ===== verification/Inventory_Properties.thy ===== *)
theory Inventory_Properties
  imports Inventory_Outcome
begin

text \<open>
  The properties of the reservation journal, with a pool of 100 units, a purchase of 60 that is reserved
  and one of 50 that no longer fits. The listing after the first reservation fails.
\<close>

section \<open>An example\<close>

definition ix_digest :: "string \<Rightarrow> string" where
  "ix_digest s = replicate 63 CHR ''0'' @ [''0123456789abcdef'' ! (length s mod 16)]"

definition ix_policy :: jsv where
  "ix_policy = JObj [(''inventory_reservation_enabled'', JBool True), (''pool_id'', JStr ''p''), (''inventory_policy_version'', JStr ''v''),
     (''pool_capacity_void_units'', JStr ''100''), (''max_reservation_void_units'', JNum 80)]"

definition ix_intent :: "char \<Rightarrow> string \<Rightarrow> int \<Rightarrow> jsv" where
  "ix_intent c n amount = JObj
     [(''marker'', JStr VOID_BUY_VOID_FULFILLMENT_JOURNAL_V1),
      (''payment_key_sha256'', JStr (replicate 64 c)), (''request_key_sha256'', JStr (replicate 64 c)),
      (''claim'', JObj
        [(''status'', JStr ''claimed''), (''request_id'', JStr n), (''instruction_id'', JStr n),
         (''canonical_payment_identity'', JStr n),
         (''unsigned_instruction'', JObj
           [(''delivery_address'', JStr (''0x'' @ replicate 40 CHR ''A'')), (''void_amount_units'', JStr (int_str amount))])]),
      (''verification_binding'', JObj [(''source_chain'', JStr ''base'')]),
      (''signing_authorized'', JBool False), (''transaction_broadcast_authorized'', JBool False),
      (''money_movement_authorized'', JBool False)]"

definition ix_call :: "char \<Rightarrow> string \<Rightarrow> int \<Rightarrow> inv_faults \<Rightarrow> reserve_call" where
  "ix_call c n amount F =
     \<lparr> rc_input = \<lparr> ri_root_dir = JStr ''r'', ri_intent = ix_intent c n amount, ri_policy = ix_policy, ri_apply = True, ri_now_ms = None \<rparr>,
       rc_date_now = 1, rc_faults = F \<rparr>"

definition ix_calls :: "reserve_call list" where
  "ix_calls = [ix_call CHR ''a'' ''i1'' 60 (\<lambda>s. if s = ListAgain then FailsBefore ''EIO'' else Fine), ix_call CHR ''b'' ''i22'' 50 (\<lambda>_. Fine)]"


definition ix_key :: string where
  "ix_key = poolKey ix_digest ''p''"

lemma ix_hex: "hex_n 64 (ix_digest s)"
proof -
  have "\<forall>i < 16. is_lower_hex (''0123456789abcdef'' ! i)" by code_simp
  then have "is_lower_hex (''0123456789abcdef'' ! (length s mod 16))" by simp
  moreover have "list_all is_lower_hex (replicate 63 CHR ''0'')" by code_simp
  ultimately show ?thesis unfolding ix_digest_def hex_n_def by simp
qed

lemma ix_calls_ok: "list_all call_ok ix_calls"
  by code_simp

lemma ix_pool_values:
  "(let d = reserve_steps ix_digest ix_calls empty_inventory ix_key in
    (map (\<lambda>(n, r). jget ''reserved_void_units'' r) (pd_reservations d), map (\<lambda>(n, ob). jget ''requested_void_units'' ob) (pd_holds d)))
   = ([JStr ''60''], [JStr ''50''])"
  by code_simp

lemma ix_pool:
  "length (pd_reservations (reserve_steps ix_digest ix_calls empty_inventory ix_key)) = 1"
  "length (pd_holds (reserve_steps ix_digest ix_calls empty_inventory ix_key)) = 1"
  using ix_pool_values by (auto simp: Let_def dest: arg_cong [of _ _ length])

section \<open>Properties\<close>

text \<open>
  C40. Inventory is never sold twice. After any sequence of calls, for any intents that were read from
  JSON and any policies, whichever steps failed and wherever processes died, the reservations of every
  pool can be read, agree on pool, policy version and capacity, add up to at most that capacity, and no
  two of them share a payment, a request, a payment identity or an instruction.
\<close>

theorem inventory_never_oversold:
  assumes "\<forall>s. hex_n 64 (H s)" "list_all call_ok cs"
  shows "let files = pd_reservations (reserve_steps H cs empty_inventory key) in
    \<exists>rs. listReservations H files = Inr rs \<and> mset rs = mset (map snd files) \<and> distinct (map fst files) \<and>
      (\<exists>policy. list_all (matches_policy policy) rs \<and> committed_units rs \<le> iv_capacity policy) \<and>
      sorted_wrt (\<lambda>r r'. \<not> shares_claim r r') (map snd files)"
proof -
  let ?d = "reserve_steps H cs empty_inventory key"
  have ok: "dir_ok H ?d" using reserve_steps_ok [of H cs] assms by (simp add: inventory_ok_def)
  obtain rs where rs: "listReservations H (pd_reservations ?d) = Inr rs" "mset rs = mset (map snd (pd_reservations ?d))"
    by (rule listReservations_ok [OF ok])
  obtain policy where "list_all (matches_policy policy) (map snd (pd_reservations ?d))"
    "committed_units (map snd (pd_reservations ?d)) \<le> iv_capacity policy"
    using ok by (auto simp: dir_ok_def reservations_ok_def)
  then have "list_all (matches_policy policy) rs" "committed_units rs \<le> iv_capacity policy"
    using mset_eq_setD [OF rs(2)] committed_units_mset [OF rs(2)] by (simp_all add: list_all_iff)
  with rs ok show ?thesis by (auto simp: Let_def dir_ok_def reservations_ok_def)
qed

theorem inventory_never_oversold_witness:
  "\<exists>rs. listReservations ix_digest (pd_reservations (reserve_steps ix_digest ix_calls empty_inventory ix_key)) = Inr rs \<and> length rs = 1"
proof -
  obtain rs where rs: "listReservations ix_digest (pd_reservations (reserve_steps ix_digest ix_calls empty_inventory ix_key)) = Inr rs"
    "mset rs = mset (map snd (pd_reservations (reserve_steps ix_digest ix_calls empty_inventory ix_key)))"
    using inventory_never_oversold [of ix_digest ix_calls ix_key] ix_hex ix_calls_ok by (auto simp: Let_def)
  then show ?thesis using mset_eq_length [OF rs(2)] ix_pool(1) by auto
qed







text \<open>
  C33. Nobody is both served and owed. In every store that calls can lead to, a payment for which an
  obligation is recorded has no reservation in that pool for the same instruction and amount: what did
  not fit once never fits later, and what is reserved is never recorded as unreservable.
\<close>

theorem never_reserved_and_owed:
  assumes "\<forall>s. hex_n 64 (H s)" "list_all call_ok cs"
  shows "let d = reserve_steps H cs empty_inventory key in
    list_all (\<lambda>(n, ob). list_all (\<lambda>(m, r). \<not> same_purchase ob r) (pd_reservations d)) (pd_holds d)"
proof -
  have "holds_ok (reserve_steps H cs empty_inventory key)"
    using reserve_steps_ok [of H cs] assms by (simp add: inventory_ok_def)
  then show ?thesis by (fastforce simp: holds_ok_def Let_def list_all_iff)
qed

theorem never_reserved_and_owed_witness:
  "let d = reserve_steps ix_digest ix_calls empty_inventory ix_key in
    pd_reservations d \<noteq> [] \<and> pd_holds d \<noteq> [] \<and>
    list_all (\<lambda>(n, ob). list_all (\<lambda>(m, r). \<not> same_purchase ob r) (pd_reservations d)) (pd_holds d)"
  using never_reserved_and_owed [of ix_digest ix_calls ix_key] ix_hex ix_calls_ok ix_pool by (auto simp: Let_def)

section \<open>A lock that is left behind\<close>

lemma locked_reserve_step:
  assumes "pd_locked (store key)"
  shows "reserve_step H c store key = store key"
proof (cases "reserveChecks H (rc_input c)")
  case (Inr checked)
  obtain k amount fp policy where checked: "checked = (k, amount, fp, policy)" by (metis prod.exhaust)
  have lock: "acquirePoolLock F (store key) \<noteq> (Done None, d)" "snd (acquirePoolLock F (store key)) = store key" for F d
    using assms by (auto simp: acquirePoolLock_def inv_bind_def inv_sync_def inv_at_def inv_return_def split: inv_fault.splits)
  have "snd (reserveApply H F intent amount fp policy n (store key)) = store key" for F intent n
    using lock [of F] unfolding reserveApply_def
    by (cases "acquirePoolLock F (store key)") (auto simp: inv_bind_def inv_return_def split: outcome.splits option.splits)
  then show ?thesis
    using quietD [OF quiet_preview]
    by (auto simp: reserve_step_def reserveBuyVoidInventoryV1_def Inr checked Let_def split: prod.splits) (metis snd_conv)+
qed (simp add: reserve_step_def reserveBuyVoidInventoryV1_def)

text \<open>
  The lock is taken before the \<^verbatim>\<open>try\<close> whose \<^verbatim>\<open>finally\<close> releases it. When the file that names its owner cannot
  be written, the call throws, the lock stays, and no later call of the module changes the pool.
\<close>

theorem leaked_lock_wedges_pool:
  assumes "reserveChecks H (rc_input c) = Inr (key, amount, fp, policy)" "ri_apply (rc_input c)" "\<not> pd_locked (store key)"
    and "rc_faults c MakePoolDir = Fine" "rc_faults c MakeLock = Fine" "rc_faults c WriteOwner = FailsBefore e"
  shows "reserveBuyVoidInventoryV1 H (rc_faults c) (rc_date_now c) (rc_input c) store =
      (Thrown e, store(key := (store key)\<lparr>pd_locked := True\<rparr>))"
    "reserve_steps H cs (reserve_step H c store) key = (store key)\<lparr>pd_locked := True\<rparr>"
proof -
  have acq: "acquirePoolLock (rc_faults c) (store key) = (Thrown e, (store key)\<lparr>pd_locked := True\<rparr>)"
    using assms(3-6) by (simp add: acquirePoolLock_def inv_bind_def inv_sync_def inv_at_def)
  show run: "reserveBuyVoidInventoryV1 H (rc_faults c) (rc_date_now c) (rc_input c) store =
      (Thrown e, store(key := (store key)\<lparr>pd_locked := True\<rparr>))"
    using assms(1,2) by (simp add: reserveBuyVoidInventoryV1_def Let_def reserveApply_def inv_bind_def acq)
  have "fold (reserve_step H) cs s key = s key" if "pd_locked (s key)" for s
    using that by (induction cs arbitrary: s) (simp_all add: locked_reserve_step)
  then show "reserve_steps H cs (reserve_step H c store) key = (store key)\<lparr>pd_locked := True\<rparr>"
    by (simp add: reserve_steps_def reserve_step_def run)
qed

end
