(* ===== verification/Spec2Isabelle.thy ===== *)
theory Spec2Isabelle
  imports Trade_Funded_Fees Wc_Window Saga_Store_Properties Saga_Supervisor_Correct Saga_Lock_Race
    Native_Store_Properties Native_Precommit Mempool_Properties
    Inventory_Properties
begin

text \<open>
  A verification library of the settlement core of the VOID node (6ZoSo9/void-node).

  \<^bold>\<open>The program.\<close> VOID is a JavaScript/TypeScript node with a large set of tools under
  \<^verbatim>\<open>src/tools/\<close>. The part that moves value is a handful of self-contained modules: quotes of a
  BTC/VOID constant-product pool, the fees a trade pays for itself, the opening of the WC/VOID market
  from commitments and ledger debits, the window in which commitments are admitted, and the
  crash-consistent saga that fulfils a purchase: an event log on disk with leases, fencing tokens and
  a lock, driven by a supervisor that runs one adapter at a time. Under \<^verbatim>\<open>src/src/chain/\<close> the node
  executes signed value transfers of its own chain: one transfer as a state transition, a block of
  transfers, the durable store of the accounts that commits either, the gate before a block is
  committed and the queue of pending transactions; \<^verbatim>\<open>src/src/economic/\<close> reserves inventory for
  paid purchases. These modules are
  modelled completely, function by function; the rest of the program calls them or is independent of
  them.

  \<^bold>\<open>Shared theories.\<close>
  \<^item> \<open>Js_Prelude\<close>: JavaScript values (\<open>jsv\<close>), errors as the left of a sum, strings as lists of code
    units, decimal numbers, and the collections of rules the components use.
  \<^item> \<open>Canonical_Json\<close>: the three canonical encoders of the sources, their agreement, and that the
    encoding determines the value.
  \<^item> \<open>Sha256\<close>: SHA-256 as an executable function. The components take the digest as a parameter
    \<open>H\<close>, so their theorems hold for every digest; the instances use simple ones.

  \<^bold>\<open>Components.\<close>
  \<^item> \<open>Btc_Void_Quote\<close> (\<^verbatim>\<open>tools/void-btc-void-quote-math-v1.mjs\<close>): a quote never pays a round trip more
    than it put in, keeps floors and product, and is the greatest admissible output (C1 to C3).
  \<^item> \<open>Trade_Funded_Fees\<close> (\<^verbatim>\<open>tools/void-btc-void-trade-funded-fees-v1.mjs\<close>): the network fees of both
    legs are funded from the trade, the price is the one of the quote engine (C5, C6).
  \<^item> \<open>Wc_Opening\<close>, \<open>Wc_Opening_Correct\<close> (\<^verbatim>\<open>tools/void-wc-void-coupled-opening-v1.mjs\<close>): the largest
    remainder allocation is exact (C7) and monotone, settlements match commitments one to one (C9), the
    opening price is exact.
  \<^item> \<open>Wc_Window\<close> (\<^verbatim>\<open>tools/void-wc-void-opening-window-policy-v1.mjs\<close>): admissions (C12, C13).
  \<^item> The saga (\<^verbatim>\<open>tools/buy-void-crash-consistent-fulfillment-saga-v1.mjs\<close>), in layers.
    \<open>Saga_Event\<close> and \<open>Saga_Fold\<close>: events, their validation and identifiers, the fold of a log into a
    state, the next action, records. \<open>Saga_Safety\<close>: an abstract machine, invariants of logs.
    \<open>Saga_Correct\<close>: refinement of the machine, integrity of the chain, one transaction, write-ahead
    intents, collisions (C14 to C17, C19), finality, with the log of \<open>Saga_Example\<close>.
    \<open>Saga_Store\<close>: directories, files, leases, recovery and appends as operations that pass the store.
    \<open>Saga_Directory\<close>, \<open>Saga_Store_Correct\<close>, \<open>Saga_Lease\<close>, \<open>Saga_Store_Safety\<close>,
    \<open>Saga_Store_Example\<close>, \<open>Saga_Store_Properties\<close>: what an append does, who may append, leases and
    fencing, and what every sequence of operations keeps (C20, C21, C23 to C25, C27); the last property shows that
    an illegal event is written before it is refused.
    \<open>Saga_Supervisor\<close>, \<open>Saga_Supervisor_Correct\<close>: one tick, with adapters and callbacks that may do
    anything to the store (C28).
    \<open>Saga_Lock\<close>: the queue of claim files as a step relation of interleaved attempts.
    \<open>Saga_Lock_Scan\<close>, \<open>Saga_Lock_Safety\<close>, \<open>Saga_Lock_Race\<close>: what a scan finds, mutual exclusion as
    long as no scan passes over a vanished choosing file, the first in line, and a run in which a
    scan does and two attempts enter (C31, C32).
  \<^item> A native value transfer (\<^verbatim>\<open>src/chain/native_value_transfer_state_transition_v1.ts\<close>):
    \<open>Native_Transfer\<close> has the model, \<open>Native_Transfer_Correct\<close> the abstract ledger transition,
    \<open>Native_Transfer_Properties\<close> conservation of value, refinement of the transition, and
    that a prepared plan is applied. Sets and maps of the code are lists in insertion order.
  \<^item> A block of transfers (\<^verbatim>\<open>src/chain/native_value_transfer_block_executor_v1.ts\<close>): \<open>Native_Block\<close>,
    \<open>Native_Block_Correct\<close> (the loop invariant), \<open>Native_Block_Properties\<close>: when \<^verbatim>\<open>apply\<close> calls the store
    (C37, for both modules), that the aggregate changes are the composition of the transfers, that a
    block conserves value within its policy, and that a prepared block is valid.
  \<^item> The account store (\<^verbatim>\<open>src/chain/native_account_state_store_v1.ts\<close>): \<open>Native_Store\<close> has the files,
    their validation and the operations; every step that changes a file may succeed, throw before or
    after its effect, tear a journal line, or be the last of a process that dies. \<open>Native_Store_Atomic\<close>:
    what the files stand for (\<open>store_view_of\<close>), the protocol invariant \<open>store_ok\<close>, and that a commit
    and a recovery end in the view before or after the commit. \<open>Native_Store_Ledger\<close>: what the
    validations establish and what a commit does to balances and nonces. \<open>Native_Store_History\<close>: the
    store and an atomic store as step relations, and the refinement. \<open>Native_Store_Recovery\<close>: files
    that can be read back, recovery without faults, undisturbed commits, and stores that are stuck.
    \<open>Native_Store_Transfer\<close>, \<open>Native_Store_Block\<close>: the requests \<^verbatim>\<open>prepare\<close> plans are the requests the
    store accepts. \<open>Native_Store_Example\<close>: a concrete store. \<open>Native_Store_Properties\<close>: atomicity,
    conservation, honest results, reading back, recovery, the full journal, and the way of a transfer
    and of a block from \<^verbatim>\<open>prepare\<close> to the disk (C4, C8, C10, C11, C18, C29, C30, C36).
  \<^item> The gate before a block is committed
    (\<^verbatim>\<open>src/chain/native_block_execution_precommit_integration_v1.ts\<close>): \<open>Native_Precommit\<close> (C22).
  \<^item> The pending queue (\<^verbatim>\<open>src/chain/mempool.ts\<close>): \<open>Mempool\<close> has the pool, its array-like surface and its
    operations, \<open>Mempool_Invariant\<close> the invariant and what a commit of a selection removes,
    \<open>Mempool_Properties\<close> that every sequence of calls keeps index and queue in agreement (C39), that
    errors change nothing (C26), selections (C38) and pushes (C35).
  \<^item> The inventory reservation journal (\<^verbatim>\<open>src/economic/buy_void_inventory_reservation_journal_v1.ts\<close>):
    \<open>Inventory\<close> has the values, records, totals and the evaluation of an intent, \<open>Inventory_Journal\<close> the
    directory of a pool, its lock and the call, in which every step on a file may succeed, throw before
    or after its effect, or be the last of the process. \<open>Inventory_Correct\<close>: what a call can change, and
    that a written record is read back. \<open>Inventory_Invariant\<close>: the invariant of a pool and that every
    call keeps it. \<open>Inventory_Outcome\<close>: what a result says. \<open>Inventory_Properties\<close>: no pool is oversold (C40),
    honest results (C34), no obligation beside a reservation (C33), and a lock left behind by a failed
    start of a call.

  \<^bold>\<open>How the code is represented.\<close> A value is a tree of own data properties; accessors, proxies and
  exotic prototypes are outside the model. Numbers are integers, or the printed form of any other
  number; \<^verbatim>\<open>BigInt\<close> is \<open>int\<close>. Characters are the 256 code units of Latin-1. \<^verbatim>\<open>throw\<close> is \<open>Inl\<close> with the
  message. The file system of the saga store is a map from sagas to directories; a write is atomic
  (the code writes a temporary file and renames it), and a lock section that is not granted fails.
  Every function is total: recursion is structural or has a measure, no fuel is used.

  \<^bold>\<open>Interfaces.\<close> \<open>hex_digest\<close> states what the components rely on of a digest (\<open>Sha256\<close>), \<open>commitment_evidence\<close>
  what a commitment verifier promises the opening (\<open>Wc_Opening\<close>), and \<open>monotone_view\<close> what a store operation
  keeps of a view of the store; the last
  is interpreted for the accepted log and for the fencing token (\<open>Saga_Store_Safety\<close>).
  \<open>ledger_transitions\<close> (\<open>Native_Block_Correct\<close>) states what a block relies on of the transfers it composes.
  The package \<^verbatim>\<open>ethers\<close>, which decodes transactions and checks addresses, is an argument (a record of its
  two functions). The theorems of the store that speak of reading back assume \<open>address_law\<close>: \<^verbatim>\<open>getAddress\<close>
  maps the lower-case form of an address it returned to the same address. \<open>commit_protocol\<close>
  (\<open>Native_Store_Atomic\<close>) states what the commit protocol relies on of a decision, and is interpreted for
  the decisions about a transfer and about a block. \<open>selection_protocol\<close> (\<open>Mempool_Properties\<close>) states what
  a producer of blocks relies on of the pending queue. The theorems of the reservation journal assume that
  the digest returns 64 hexadecimal digits and that intents were read from JSON (\<open>call_ok\<close>). Runs
  of the account store are runs in which no digest collides (\<open>fresh_commit\<close>).

  \<^bold>\<open>Not modelled.\<close> Command-line entry points and standard input of the tools; the HTTP server and
  the routes (\<^verbatim>\<open>src/index.ts\<close>, \<^verbatim>\<open>src/http\<close>), peer-to-peer transport, the public web application, deployment
  scripts, the \<^verbatim>\<open>prove_*\<close> scripts, which are tests, Solidity contracts and the Java plugin, and
  the remaining tools, which observe hosts, publish or check documents. Of \<^verbatim>\<open>src/src/chain\<close> the block,
  receipt and segment stores, and of \<^verbatim>\<open>src/src/economic\<close> the journals, custody protocols and runtimes other
  than the reservation journal. Of the pending queue accessors and later changes of entries without a
  canonical hash, of the account store the path checks and the loss of unsynced data, and of the
  reservation journal paths and temporary files are left out.
\<close>

end
